(* ===== verification/Rust_Prelude.thy ===== *)
theory Rust_Prelude
  imports Main "HOL-Library.Signed_Division" "HOL-Library.Sublist"
begin

text \<open>
  Shared base of the development: Rust results and the question-mark operator, Rust machine
  integers as ranges of \<open>int\<close> with the cast and checked operations written out, Rust strings as
  UTF-8 byte lists, and the run of a list of operations over a state.

  A Rust \<open>String\<close> or \<open>&str\<close> is the list of its UTF-8 bytes, one \<open>char\<close> per byte, so
  \<open>length\<close> is \<open>str::len\<close>. A Rust \<open>Result<T, E>\<close> is \<open>'e + 't\<close>.
\<close>

named_theorems validator_simps \<open>acceptance conditions of the validators\<close>

section \<open>Results\<close>

definition try_bind :: "'e + 'a \<Rightarrow> ('a \<Rightarrow> 'e + 'b) \<Rightarrow> 'e + 'b" where
  "try_bind m f = (case m of Inl e \<Rightarrow> Inl e | Inr x \<Rightarrow> f x)"

definition try_seq :: "'e + unit \<Rightarrow> 'e + 'b \<Rightarrow> 'e + 'b" where
  "try_seq m k = try_bind m (\<lambda>_. k)"

definition require :: "bool \<Rightarrow> 'e \<Rightarrow> 'e + unit" where
  "require b e = (if b then Inr () else Inl e)"

definition ok_or :: "'a option \<Rightarrow> 'e \<Rightarrow> 'e + 'a" where
  "ok_or x e = (case x of None \<Rightarrow> Inl e | Some v \<Rightarrow> Inr v)"

text \<open>A validator body \<open>c1?; c2?; \<dots>; Ok(())\<close>: the first failing check decides.\<close>

fun check_all :: "('e + unit) list \<Rightarrow> 'e + unit" where
  "check_all [] = Inr ()"
| "check_all (c # cs) = try_seq c (check_all cs)"

lemma try_bind_simps [simp]:
  "try_bind (Inl e) f = Inl e"
  "try_bind (Inr x) f = f x"
  by (simp_all add: try_bind_def)

lemma try_seq_simps [simp]:
  "try_seq (Inl e) k = Inl e"
  "try_seq (Inr u) k = k"
  by (simp_all add: try_seq_def)

lemma try_bind_assoc: "try_bind (try_bind m f) g = try_bind m (\<lambda>x. try_bind (f x) g)"
  by (cases m) simp_all

lemma try_bind_Inr_iff: "try_bind m f = Inr y \<longleftrightarrow> (\<exists>x. m = Inr x \<and> f x = Inr y)"
  by (cases m) auto

lemma try_bind_Inl_iff:
  "try_bind m f = Inl e \<longleftrightarrow> m = Inl e \<or> (\<exists>x. m = Inr x \<and> f x = Inl e)"
  by (cases m) auto

lemma try_seq_Inr_iff: "try_seq m k = Inr y \<longleftrightarrow> m = Inr () \<and> k = Inr y"
  by (cases m) auto

lemma require_Inr_iff [simp]: "require b e = Inr u \<longleftrightarrow> b"
  by (simp add: require_def)

lemma require_Inl_iff [simp]: "require b e = Inl e' \<longleftrightarrow> \<not> b \<and> e' = e"
  by (auto simp: require_def)

lemma Inl_require_iff [simp]: "Inl e' = require b e \<longleftrightarrow> \<not> b \<and> e' = e"
  by (auto simp: require_def)

lemma require_True [simp]: "require True e = Inr ()"
  by (simp add: require_def)

lemma ok_or_simps [simp]:
  "ok_or None e = Inl e"
  "ok_or (Some v) e = Inr v"
  by (simp_all add: ok_or_def)

lemma ok_or_Inr_iff [simp]: "ok_or x e = Inr v \<longleftrightarrow> x = Some v"
  by (cases x) auto

lemma check_all_Inr_iff: "check_all cs = Inr u \<longleftrightarrow> (\<forall>c \<in> set cs. c = Inr ())"
  by (induction cs) (auto simp: try_seq_Inr_iff)

lemma check_all_Inl:
  "check_all cs = Inl e \<Longrightarrow> Inl e \<in> set cs"
proof (induction cs)
  case Nil
  then show ?case by simp
next
  case (Cons c cs)
  then show ?case by (cases c) auto
qed

declare check_all.simps [simp del]

text \<open>The result of a check is \<open>Ok\<close> or one of the errors its checks can raise.\<close>

lemma unit_result_cases:
  fixes r :: "'e + unit"
  obtains (ok) "r = Inr ()" | (err) e where "r = Inl e"
  by (cases r) auto

section \<open>Machine integers\<close>

text \<open>
  The signed 32- and 64-bit integers are ranges of \<open>int\<close>; \<open>as i32\<close> is the wrap-around cast,
  and \<open>checked_*\<close> return \<open>None\<close> outside the range. \<open>usize\<close> and \<open>u64\<close> are 64 bits wide.
\<close>

definition i32_min :: int where "i32_min = - 2147483648"
definition i32_max :: int where "i32_max = 2147483647"
definition i64_min :: int where "i64_min = - 9223372036854775808"
definition i64_max :: int where "i64_max = 9223372036854775807"
definition u64_max :: nat where "u64_max = 18446744073709551615"

definition in_i32 :: "int \<Rightarrow> bool" where
  "in_i32 x \<longleftrightarrow> i32_min \<le> x \<and> x \<le> i32_max"

definition in_i64 :: "int \<Rightarrow> bool" where
  "in_i64 x \<longleftrightarrow> i64_min \<le> x \<and> x \<le> i64_max"

definition as_i32 :: "int \<Rightarrow> int" where
  "as_i32 x = (x + 2147483648) mod 4294967296 - 2147483648"

definition checked_i64 :: "int \<Rightarrow> int option" where
  "checked_i64 x = (if in_i64 x then Some x else None)"

definition checked_add :: "int \<Rightarrow> int \<Rightarrow> int option" where
  "checked_add a b = checked_i64 (a + b)"

definition checked_sub :: "int \<Rightarrow> int \<Rightarrow> int option" where
  "checked_sub a b = checked_i64 (a - b)"

definition checked_mul :: "int \<Rightarrow> int \<Rightarrow> int option" where
  "checked_mul a b = checked_i64 (a * b)"

definition saturating_sub_i64 :: "int \<Rightarrow> int \<Rightarrow> int" where
  "saturating_sub_i64 a b = max i64_min (min i64_max (a - b))"

definition saturating_add_usize :: "nat \<Rightarrow> nat \<Rightarrow> nat" where
  "saturating_add_usize a b = min u64_max (a + b)"

definition clamp_int :: "int \<Rightarrow> int \<Rightarrow> int \<Rightarrow> int" where
  "clamp_int x lo hi = (if x < lo then lo else if x > hi then hi else x)"

lemmas i64_bounds = i64_min_def i64_max_def in_i64_def
lemmas i32_bounds = i32_min_def i32_max_def in_i32_def

lemma as_i32_id [simp]: "in_i32 x \<Longrightarrow> as_i32 x = x"
  by (simp add: as_i32_def i32_bounds)

lemma as_i32_in_range: "in_i32 (as_i32 x)"
proof -
  have "0 \<le> (x + 2147483648) mod 4294967296" "(x + 2147483648) mod 4294967296 < 4294967296"
    by simp_all
  then show ?thesis by (simp add: as_i32_def i32_bounds)
qed

lemma checked_i64_Some_iff: "checked_i64 x = Some y \<longleftrightarrow> in_i64 x \<and> y = x"
  by (auto simp: checked_i64_def)

lemma checked_add_Some_iff: "checked_add a b = Some y \<longleftrightarrow> in_i64 (a + b) \<and> y = a + b"
  by (simp add: checked_add_def checked_i64_Some_iff)

lemma clamp_int_bounds [simp]:
  "lo \<le> hi \<Longrightarrow> lo \<le> clamp_int x lo hi"
  "lo \<le> hi \<Longrightarrow> clamp_int x lo hi \<le> hi"
  by (simp_all add: clamp_int_def)

lemma clamp_int_id: "lo \<le> x \<Longrightarrow> x \<le> hi \<Longrightarrow> clamp_int x lo hi = x"
  by (simp add: clamp_int_def)

text \<open>Signed division truncates towards zero.\<close>

lemma sdiv_abs_le:
  fixes a b :: int
  assumes "0 < b"
  shows "\<bar>a sdiv b\<bar> \<le> \<bar>a\<bar>"
proof -
  have "\<bar>a\<bar> div b \<le> \<bar>a\<bar> div 1"
    using assms by (intro zdiv_mono2) auto
  moreover have "0 \<le> \<bar>a\<bar> div b"
    using assms by (simp add: pos_imp_zdiv_nonneg_iff)
  ultimately show ?thesis
    using assms by (auto simp: signed_divide_int_def abs_mult sgn_if)
qed

section \<open>Strings as UTF-8 bytes\<close>

text \<open>
  \<open>str::trim\<close> drops the characters with the Unicode property White_Space at both ends; these are
  their encodings. \<open>chars().count()\<close> counts the bytes that are not continuation bytes.
\<close>

definition ws_encodings :: "string list" where
  "ws_encodings =
     [[CHR 0x09], [CHR 0x0A], [CHR 0x0B], [CHR 0x0C], [CHR 0x0D], [CHR 0x20],
      [CHR 0xC2, CHR 0x85], [CHR 0xC2, CHR 0xA0], [CHR 0xE1, CHR 0x9A, CHR 0x80],
      [CHR 0xE2, CHR 0x80, CHR 0x80], [CHR 0xE2, CHR 0x80, CHR 0x81],
      [CHR 0xE2, CHR 0x80, CHR 0x82], [CHR 0xE2, CHR 0x80, CHR 0x83],
      [CHR 0xE2, CHR 0x80, CHR 0x84], [CHR 0xE2, CHR 0x80, CHR 0x85],
      [CHR 0xE2, CHR 0x80, CHR 0x86], [CHR 0xE2, CHR 0x80, CHR 0x87],
      [CHR 0xE2, CHR 0x80, CHR 0x88], [CHR 0xE2, CHR 0x80, CHR 0x89],
      [CHR 0xE2, CHR 0x80, CHR 0x8A], [CHR 0xE2, CHR 0x80, CHR 0xA8],
      [CHR 0xE2, CHR 0x80, CHR 0xA9], [CHR 0xE2, CHR 0x80, CHR 0xAF],
      [CHR 0xE2, CHR 0x81, CHR 0x9F], [CHR 0xE3, CHR 0x80, CHR 0x80]]"

function trim_left :: "string list \<Rightarrow> string \<Rightarrow> string" where
  "trim_left encs s =
     (case find (\<lambda>e. e \<noteq> [] \<and> take (length e) s = e) encs of
        None \<Rightarrow> s
      | Some e \<Rightarrow> trim_left encs (drop (length e) s))"
  by pat_completeness auto
termination
proof (relation "measure (\<lambda>(encs, s). length s)")
  fix encs s e
  assume "find (\<lambda>e. e \<noteq> [] \<and> take (length e) s = e) encs = Some e"
  then have "e \<noteq> []" "take (length e) s = e"
    by (auto simp: find_Some_iff)
  then have "s \<noteq> []" "0 < length e" by auto
  then show "((encs, drop (length e) s), encs, s) \<in> measure (\<lambda>(encs, s). length s)"
    by simp
qed simp

declare trim_left.simps [simp del]

definition str_trim :: "string \<Rightarrow> string" where
  "str_trim s = rev (trim_left (map rev ws_encodings) (rev (trim_left ws_encodings s)))"

definition str_blank :: "string \<Rightarrow> bool" where
  "str_blank s \<longleftrightarrow> str_trim s = []"

definition chars_count :: "string \<Rightarrow> nat" where
  "chars_count s = length (filter (\<lambda>c. \<not> ((128::nat) \<le> of_char c \<and> of_char c < (192::nat))) s)"

lemma trim_left_Nil [simp]: "trim_left encs [] = []"
proof -
  have "find (\<lambda>e. e \<noteq> [] \<and> take (length e) [] = e) encs = None"
    by (auto simp: find_None_iff)
  then show ?thesis by (subst trim_left.simps) simp
qed

lemma trim_left_keeps:
  assumes "c \<notin> hd ` set encs"
  shows "trim_left encs (c # s) = c # s"
proof -
  have "\<not> (e \<noteq> [] \<and> take (length e) (c # s) = e)" if "e \<in> set encs" for e
  proof (cases e)
    case (Cons x xs)
    then have "x \<in> hd ` set encs" using that by force
    with assms have "x \<noteq> c" by blast
    then show ?thesis by (simp add: Cons)
  qed simp
  then have "find (\<lambda>e. e \<noteq> [] \<and> take (length e) (c # s) = e) encs = None"
    by (auto simp: find_None_iff)
  then show ?thesis by (subst trim_left.simps) simp
qed

lemma trim_left_mem:
  "\<forall>e \<in> set encs. c \<notin> set e \<Longrightarrow> c \<in> set s \<Longrightarrow> c \<in> set (trim_left encs s)"
proof (induction encs s rule: trim_left.induct)
  case (1 encs s)
  show ?case
  proof (cases "find (\<lambda>e. e \<noteq> [] \<and> take (length e) s = e) encs")
    case None
    with 1 show ?thesis by (subst trim_left.simps) simp
  next
    case (Some e)
    then have e: "e \<in> set encs" "take (length e) s = e" by (auto simp: find_Some_iff)
    then have "s = e @ drop (length e) s" by (metis append_take_drop_id)
    moreover have "c \<notin> set e" using 1 e(1) by blast
    ultimately have "c \<in> set (drop (length e) s)" using 1(3) by (metis Un_iff set_append)
    with 1 Some show ?thesis by (subst trim_left.simps) simp
  qed
qed

lemma not_blank_keeps:
  assumes "\<forall>e \<in> set ws_encodings. c \<notin> set e" and "c \<in> set s"
  shows "\<not> str_blank s"
proof -
  have "c \<in> set (rev (trim_left ws_encodings s))" using trim_left_mem [OF assms] by simp
  moreover have "\<forall>e \<in> set (map rev ws_encodings). c \<notin> set e" using assms(1) by simp
  ultimately have "c \<in> set (trim_left (map rev ws_encodings) (rev (trim_left ws_encodings s)))"
    by (rule trim_left_mem [rotated])
  then have "c \<in> set (str_trim s)" by (simp add: str_trim_def)
  then show ?thesis by (auto simp: str_blank_def)
qed

lemma str_blank_Nil [simp]: "str_blank []"
  by (simp add: str_blank_def str_trim_def)

lemma trim_left_length: "length (trim_left encs s) \<le> length s"
proof (induction encs s rule: trim_left.induct)
  case (1 encs s)
  show ?case
  proof (cases "find (\<lambda>e. e \<noteq> [] \<and> take (length e) s = e) encs")
    case None
    then show ?thesis by (subst trim_left.simps) simp
  next
    case (Some e)
    with 1 have "length (trim_left encs (drop (length e) s)) \<le> length (drop (length e) s)"
      by blast
    with Some show ?thesis by (subst trim_left.simps) simp
  qed
qed

lemma str_trim_length: "length (str_trim s) \<le> length s"
proof -
  have "length (str_trim s) \<le> length (rev (trim_left ws_encodings s))"
    unfolding str_trim_def length_rev using trim_left_length by (metis length_rev)
  also have "\<dots> \<le> length s"
    by (simp add: trim_left_length)
  finally show ?thesis .
qed

lemma chars_count_le_length: "chars_count s \<le> length s"
  by (simp add: chars_count_def)

subsection \<open>ASCII\<close>

definition is_ascii_lowercase :: "char \<Rightarrow> bool" where
  "is_ascii_lowercase c \<longleftrightarrow> (97::nat) \<le> of_char c \<and> of_char c \<le> (122::nat)"

definition is_ascii_uppercase :: "char \<Rightarrow> bool" where
  "is_ascii_uppercase c \<longleftrightarrow> (65::nat) \<le> of_char c \<and> of_char c \<le> (90::nat)"

definition is_ascii_digit :: "char \<Rightarrow> bool" where
  "is_ascii_digit c \<longleftrightarrow> (48::nat) \<le> of_char c \<and> of_char c \<le> (57::nat)"

definition is_ascii_alphanumeric :: "char \<Rightarrow> bool" where
  "is_ascii_alphanumeric c \<longleftrightarrow> is_ascii_lowercase c \<or> is_ascii_uppercase c \<or> is_ascii_digit c"

definition byte_to_ascii_lowercase :: "char \<Rightarrow> char" where
  "byte_to_ascii_lowercase c = (if is_ascii_uppercase c then char_of (of_char c + (32::nat)) else c)"

definition to_ascii_lowercase :: "string \<Rightarrow> string" where
  "to_ascii_lowercase s = map byte_to_ascii_lowercase s"

definition eq_ignore_ascii_case :: "string \<Rightarrow> string \<Rightarrow> bool" where
  "eq_ignore_ascii_case s t \<longleftrightarrow> to_ascii_lowercase s = to_ascii_lowercase t"

subsection \<open>Searching and splitting\<close>

text \<open>
  \<open>str_find p s\<close> is \<open>s.find(p)\<close>, the byte index of the first match; \<open>str_split c s\<close> is
  \<open>s.split(c)\<close>, which has one part more than \<open>s\<close> has separators.
\<close>

fun str_find :: "string \<Rightarrow> string \<Rightarrow> nat option" where
  "str_find p [] = (if p = [] then Some 0 else None)"
| "str_find p (c # s) =
     (if take (length p) (c # s) = p then Some 0 else map_option Suc (str_find p s))"

fun str_split :: "char \<Rightarrow> string \<Rightarrow> string list" where
  "str_split d [] = [[]]"
| "str_split d (c # s) =
     (if c = d then [] # str_split d s
      else (case str_split d s of [] \<Rightarrow> [[c]] | w # ws \<Rightarrow> (c # w) # ws))"

fun str_join :: "char \<Rightarrow> string list \<Rightarrow> string" where
  "str_join d [] = []"
| "str_join d [w] = w"
| "str_join d (w # v # ws) = w @ d # str_join d (v # ws)"

definition str_starts_with :: "string \<Rightarrow> char \<Rightarrow> bool" where
  "str_starts_with s c \<longleftrightarrow> s \<noteq> [] \<and> hd s = c"

definition str_ends_with :: "string \<Rightarrow> char \<Rightarrow> bool" where
  "str_ends_with s c \<longleftrightarrow> s \<noteq> [] \<and> last s = c"

lemma str_split_not_Nil [simp]: "str_split d s \<noteq> []"
  by (induction s) (auto split: list.splits)

lemma str_join_Cons: "ws \<noteq> [] \<Longrightarrow> str_join d (w # ws) = w @ d # str_join d ws"
  by (cases ws) simp_all

lemma str_join_split [simp]: "str_join d (str_split d s) = s"
proof (induction s)
  case (Cons c s)
  obtain w ws where "str_split d s = w # ws" by (cases "str_split d s") auto
  with Cons show ?case by (cases ws) (auto simp: str_join_Cons)
qed simp

lemma str_split_no_sep: "w \<in> set (str_split d s) \<Longrightarrow> d \<notin> set w"
proof (induction s arbitrary: w)
  case (Cons c s)
  obtain v vs where "str_split d s = v # vs" by (cases "str_split d s") auto
  with Cons show ?case by (fastforce split: if_splits)
qed simp

lemma str_split_append_sep: "d \<notin> set w \<Longrightarrow> str_split d (w @ d # s) = w # str_split d s"
  by (induction w) auto

lemma str_split_single: "d \<notin> set w \<Longrightarrow> str_split d w = [w]"
  by (induction w) auto

lemma str_split_join:
  "ws \<noteq> [] \<Longrightarrow> (\<And>w. w \<in> set ws \<Longrightarrow> d \<notin> set w) \<Longrightarrow> str_split d (str_join d ws) = ws"
  by (induction d ws rule: str_join.induct) (simp_all add: str_split_append_sep str_split_single)

lemma str_split_last_empty:
  "str_split d s = ws @ [[]] \<Longrightarrow> ws \<noteq> [] \<Longrightarrow> s \<noteq> [] \<and> last s = d"
proof -
  assume a: "str_split d s = ws @ [[]]" "ws \<noteq> []"
  have "str_join d (ws @ [[]]) = str_join d ws @ [d]" using a(2)
    by (induction d ws rule: str_join.induct) (simp_all add: str_join_Cons)
  with a(1) show ?thesis by (metis str_join_split append_is_Nil_conv last_snoc list.discI)
qed

lemma str_split_append: "str_split d (a @ d # b) = str_split d a @ str_split d b"
proof (induction a)
  case (Cons c a)
  obtain w ws where "str_split d a = w # ws" by (cases "str_split d a") auto
  with Cons show ?case by simp
qed simp

lemma str_split_hd_empty: "str_starts_with s d \<Longrightarrow> [] \<in> set (str_split d s)"
  by (cases s) (auto simp: str_starts_with_def)

lemma str_split_last_mem: "str_ends_with s d \<Longrightarrow> [] \<in> set (str_split d s)"
proof -
  assume "str_ends_with s d"
  then have "s = butlast s @ [d]" by (metis append_butlast_last_id str_ends_with_def)
  then show ?thesis by (metis str_split_append str_split.simps(1) in_set_conv_decomp)
qed

subsection \<open>Decimal rendering of integers\<close>

definition dec_digit :: "nat \<Rightarrow> char" where
  "dec_digit d = char_of (48 + d)"

fun nat_to_dec :: "nat \<Rightarrow> string" where
  "nat_to_dec n =
     (if n < 10 then [dec_digit n] else nat_to_dec (n div 10) @ [dec_digit (n mod 10)])"

declare nat_to_dec.simps [simp del]

definition int_to_dec :: "int \<Rightarrow> string" where
  "int_to_dec x = (if x < 0 then CHR ''-'' # nat_to_dec (nat (- x)) else nat_to_dec (nat x))"

text \<open>Different integers are rendered differently: the value can be read back.\<close>

definition dec_value :: "string \<Rightarrow> nat" where
  "dec_value s = foldl (\<lambda>a c. a * 10 + (of_char c - 48)) 0 s"

lemma of_char_dec_digit: "d < 10 \<Longrightarrow> of_char (dec_digit d) = 48 + d"
  by (simp add: dec_digit_def)

lemma dec_value_nat_to_dec [simp]: "dec_value (nat_to_dec n) = n"
proof (induction n rule: nat_to_dec.induct)
  case (1 n)
  then show ?case
    by (subst nat_to_dec.simps) (simp add: dec_value_def of_char_dec_digit)
qed

lemma nat_to_dec_hd: "nat_to_dec n \<noteq> [] \<and> of_char (hd (nat_to_dec n)) \<ge> (48 :: nat)"
proof (induction n rule: nat_to_dec.induct)
  case (1 n)
  then show ?case
    by (subst (1 2) nat_to_dec.simps) (simp add: of_char_dec_digit)
qed

lemma int_to_dec_inj:
  assumes "int_to_dec x = int_to_dec y"
  shows "x = y"
proof -
  have minus: "CHR ''-'' # s \<noteq> nat_to_dec n" for s n
  proof
    assume "CHR ''-'' # s = nat_to_dec n"
    then have "hd (nat_to_dec n) = CHR ''-''" by (metis list.sel(1))
    with nat_to_dec_hd [of n] show False by simp
  qed
  have nat: "nat_to_dec a = nat_to_dec b \<Longrightarrow> a = b" for a b
    by (metis dec_value_nat_to_dec)
  from assms show ?thesis
    using minus minus [symmetric]
    by (auto simp: int_to_dec_def split: if_splits dest!: nat)
qed

text \<open>
  \<open>Result::map_err\<close>.
\<close>

definition map_err :: "('e \<Rightarrow> 'f) \<Rightarrow> 'e + 'a \<Rightarrow> 'f + 'a" where
  "map_err f m = (case m of Inl e \<Rightarrow> Inl (f e) | Inr x \<Rightarrow> Inr x)"

lemma map_err_simps [simp]:
  "map_err f (Inl e) = Inl (f e)"
  "map_err f (Inr x) = Inr x"
  by (simp_all add: map_err_def)

lemma map_err_Inr_iff [simp]: "map_err f m = Inr x \<longleftrightarrow> m = Inr x"
  by (cases m) simp_all

end
