(* ===== verification/Life_Intent_Domain.thy ===== *)
theory Life_Intent_Domain
  imports Rust_Prelude
begin

text \<open>
  The goal, plan, step and action authority domain, \<open>src-tauri/src/life_intent/mod.rs\<close>: the records,
  the lifecycles, the events, the errors and the validators. The columns the four entities share are
  the base record \<open>life_entity\<close> (\<open>goal_id\<close>, \<open>plan_id\<close>, \<open>step_id\<close> and \<open>action_id\<close> of the code are
  \<open>le_id\<close>; the version columns are \<open>le_version\<close>). Error messages are left out.
\<close>

section \<open>Constants\<close>

definition LIFE_CREATED_BY_KIND :: string where "LIFE_CREATED_BY_KIND = ''user_explicit''"
definition LIFE_ACTOR_KIND :: string where "LIFE_ACTOR_KIND = ''user_explicit''"
definition GOAL_VERSION :: int where "GOAL_VERSION = 1"
definition PLAN_VERSION :: int where "PLAN_VERSION = 1"
definition STEP_VERSION :: int where "STEP_VERSION = 1"
definition ACTION_VERSION :: int where "ACTION_VERSION = 1"
definition LIFE_EVENT_VERSION :: int where "LIFE_EVENT_VERSION = 1"

definition GOAL_STATUS_ACTIVE :: string where "GOAL_STATUS_ACTIVE = ''active''"
definition GOAL_STATUS_COMPLETED :: string where "GOAL_STATUS_COMPLETED = ''completed''"
definition GOAL_STATUS_CANCELLED :: string where "GOAL_STATUS_CANCELLED = ''cancelled''"
definition PLAN_STATUS_DRAFT :: string where "PLAN_STATUS_DRAFT = ''draft''"
definition PLAN_STATUS_ACTIVE :: string where "PLAN_STATUS_ACTIVE = ''active''"
definition PLAN_STATUS_COMPLETED :: string where "PLAN_STATUS_COMPLETED = ''completed''"
definition PLAN_STATUS_CANCELLED :: string where "PLAN_STATUS_CANCELLED = ''cancelled''"
definition STEP_STATUS_PENDING :: string where "STEP_STATUS_PENDING = ''pending''"
definition STEP_STATUS_COMPLETED :: string where "STEP_STATUS_COMPLETED = ''completed''"
definition STEP_STATUS_SKIPPED :: string where "STEP_STATUS_SKIPPED = ''skipped''"
definition STEP_STATUS_CANCELLED :: string where "STEP_STATUS_CANCELLED = ''cancelled''"
definition ACTION_STATUS_PROPOSED :: string where "ACTION_STATUS_PROPOSED = ''proposed''"
definition ACTION_STATUS_DISMISSED :: string where "ACTION_STATUS_DISMISSED = ''dismissed''"

definition EXECUTION_CLASS_INTERNAL_INTENT :: string where
  "EXECUTION_CLASS_INTERNAL_INTENT = ''internal_intent''"
definition EXECUTION_CLASS_AGENT_TASK_PROPOSAL :: string where
  "EXECUTION_CLASS_AGENT_TASK_PROPOSAL = ''agent_task_proposal''"
definition EXECUTION_CLASS_TOOL_OPERATION_PROPOSAL :: string where
  "EXECUTION_CLASS_TOOL_OPERATION_PROPOSAL = ''tool_operation_proposal''"

definition GOAL_ENTITY_KIND :: string where "GOAL_ENTITY_KIND = ''goal''"
definition PLAN_ENTITY_KIND :: string where "PLAN_ENTITY_KIND = ''plan''"
definition STEP_ENTITY_KIND :: string where "STEP_ENTITY_KIND = ''step''"
definition ACTION_ENTITY_KIND :: string where "ACTION_ENTITY_KIND = ''action''"

definition LIFE_MAX_ID_LENGTH :: nat where "LIFE_MAX_ID_LENGTH = 128"
definition LIFE_MAX_TITLE_LENGTH :: nat where "LIFE_MAX_TITLE_LENGTH = 256"
definition LIFE_MAX_OBJECTIVE_LENGTH :: nat where "LIFE_MAX_OBJECTIVE_LENGTH = 4096"
definition LIFE_MAX_SUMMARY_LENGTH :: nat where "LIFE_MAX_SUMMARY_LENGTH = 4096"

lemmas life_intent_constants =
  LIFE_CREATED_BY_KIND_def LIFE_ACTOR_KIND_def GOAL_VERSION_def PLAN_VERSION_def STEP_VERSION_def
  ACTION_VERSION_def LIFE_EVENT_VERSION_def GOAL_STATUS_ACTIVE_def GOAL_STATUS_COMPLETED_def
  GOAL_STATUS_CANCELLED_def PLAN_STATUS_DRAFT_def PLAN_STATUS_ACTIVE_def PLAN_STATUS_COMPLETED_def
  PLAN_STATUS_CANCELLED_def STEP_STATUS_PENDING_def STEP_STATUS_COMPLETED_def
  STEP_STATUS_SKIPPED_def STEP_STATUS_CANCELLED_def ACTION_STATUS_PROPOSED_def
  ACTION_STATUS_DISMISSED_def GOAL_ENTITY_KIND_def PLAN_ENTITY_KIND_def STEP_ENTITY_KIND_def
  ACTION_ENTITY_KIND_def EXECUTION_CLASS_INTERNAL_INTENT_def
  EXECUTION_CLASS_AGENT_TASK_PROPOSAL_def EXECUTION_CLASS_TOOL_OPERATION_PROPOSAL_def

section \<open>Data\<close>

record life_entity =
  le_id :: string
  le_life_id :: string
  le_status :: string
  le_revision :: int
  le_created_at :: string
  le_updated_at :: string
  le_closed_at :: "string option"
  le_version :: int

record life_goal = life_entity +
  lg_title :: string
  lg_objective :: string
  lg_created_by_kind :: string

record life_plan = life_entity +
  lp_goal_id :: string
  lp_title :: string

record life_step = life_entity +
  ls_plan_id :: string
  ls_ordinal :: int
  ls_summary :: string

record life_action = life_entity +
  la_step_id :: string
  la_execution_class :: string
  la_summary :: string

record goal_create_request =
  gc_goal_id :: string
  gc_life_id :: string
  gc_title :: string
  gc_objective :: string

record plan_create_request =
  pc_plan_id :: string
  pc_life_id :: string
  pc_goal_id :: string
  pc_title :: string

record step_create_request =
  sc_step_id :: string
  sc_life_id :: string
  sc_plan_id :: string
  sc_ordinal :: int
  sc_summary :: string

record action_create_request =
  cc_action_id :: string
  cc_life_id :: string
  cc_step_id :: string
  cc_execution_class :: string
  cc_summary :: string

record life_intent_event =
  lv_event_id :: string
  lv_life_id :: string
  lv_entity_kind :: string
  lv_goal_id :: "string option"
  lv_plan_id :: "string option"
  lv_step_id :: "string option"
  lv_action_id :: "string option"
  lv_from_status :: string
  lv_to_status :: string
  lv_expected_revision :: int
  lv_applied_revision :: int
  lv_actor_kind :: string
  lv_occurred_at :: string
  lv_event_version :: int

datatype 'e life_transition_outcome =
    LifeApplied life_intent_event 'e
  | LifeReplayed life_intent_event 'e

datatype 'e life_create_outcome = LifeCreated 'e | LifeCreateReplayed 'e

datatype life_intent_error_code =
    LiInvalidArgument | LiLifeNotFound | LiParentNotFound | LiParentLifeMismatch
  | LiEntityConflict | LiEntityNotFound | LiEntityLifeMismatch | LiRevisionConflict
  | LiInvalidTransition | LiEventConflict | LiDatabaseUnavailable

record life_intent_error =
  li_code :: life_intent_error_code
  li_recoverable :: bool

definition life_intent_error_new :: "life_intent_error_code \<Rightarrow> life_intent_error" where
  "life_intent_error_new code =
     \<lparr>li_code = code,
      li_recoverable = (code \<in> {LiLifeNotFound, LiParentNotFound, LiDatabaseUnavailable})\<rparr>"

definition li_invalid_argument :: life_intent_error where
  "li_invalid_argument = life_intent_error_new LiInvalidArgument"
definition li_life_not_found :: life_intent_error where
  "li_life_not_found = life_intent_error_new LiLifeNotFound"
definition li_parent_not_found :: life_intent_error where
  "li_parent_not_found = life_intent_error_new LiParentNotFound"
definition li_parent_life_mismatch :: life_intent_error where
  "li_parent_life_mismatch = life_intent_error_new LiParentLifeMismatch"
definition li_entity_conflict :: life_intent_error where
  "li_entity_conflict = life_intent_error_new LiEntityConflict"
definition li_entity_not_found :: life_intent_error where
  "li_entity_not_found = life_intent_error_new LiEntityNotFound"
definition li_entity_life_mismatch :: life_intent_error where
  "li_entity_life_mismatch = life_intent_error_new LiEntityLifeMismatch"
definition li_revision_conflict :: life_intent_error where
  "li_revision_conflict = life_intent_error_new LiRevisionConflict"
definition li_invalid_transition :: life_intent_error where
  "li_invalid_transition = life_intent_error_new LiInvalidTransition"
definition li_event_conflict :: life_intent_error where
  "li_event_conflict = life_intent_error_new LiEventConflict"
definition li_database :: life_intent_error where
  "li_database = life_intent_error_new LiDatabaseUnavailable"

section \<open>Lifecycles\<close>

datatype goal_transition_kind = GoalComplete | GoalCancel
datatype plan_transition_kind = PlanActivate | PlanComplete | PlanCancel
datatype step_transition_kind = StepComplete | StepSkip | StepCancel
datatype action_transition_kind = ActionDismiss

fun goal_to_status :: "goal_transition_kind \<Rightarrow> string" where
  "goal_to_status GoalComplete = GOAL_STATUS_COMPLETED"
| "goal_to_status GoalCancel = GOAL_STATUS_CANCELLED"

fun goal_target_status :: "goal_transition_kind \<Rightarrow> string \<Rightarrow> string option" where
  "goal_target_status GoalComplete current =
     (if current = GOAL_STATUS_ACTIVE then Some GOAL_STATUS_COMPLETED else None)"
| "goal_target_status GoalCancel current =
     (if current = GOAL_STATUS_ACTIVE then Some GOAL_STATUS_CANCELLED else None)"

fun plan_to_status :: "plan_transition_kind \<Rightarrow> string" where
  "plan_to_status PlanActivate = PLAN_STATUS_ACTIVE"
| "plan_to_status PlanComplete = PLAN_STATUS_COMPLETED"
| "plan_to_status PlanCancel = PLAN_STATUS_CANCELLED"

fun plan_target_status :: "plan_transition_kind \<Rightarrow> string \<Rightarrow> string option" where
  "plan_target_status PlanActivate current =
     (if current = PLAN_STATUS_DRAFT then Some PLAN_STATUS_ACTIVE else None)"
| "plan_target_status PlanComplete current =
     (if current = PLAN_STATUS_ACTIVE then Some PLAN_STATUS_COMPLETED else None)"
| "plan_target_status PlanCancel current =
     (if current = PLAN_STATUS_DRAFT \<or> current = PLAN_STATUS_ACTIVE
      then Some PLAN_STATUS_CANCELLED else None)"

fun step_to_status :: "step_transition_kind \<Rightarrow> string" where
  "step_to_status StepComplete = STEP_STATUS_COMPLETED"
| "step_to_status StepSkip = STEP_STATUS_SKIPPED"
| "step_to_status StepCancel = STEP_STATUS_CANCELLED"

fun step_target_status :: "step_transition_kind \<Rightarrow> string \<Rightarrow> string option" where
  "step_target_status StepComplete current =
     (if current = STEP_STATUS_PENDING then Some STEP_STATUS_COMPLETED else None)"
| "step_target_status StepSkip current =
     (if current = STEP_STATUS_PENDING then Some STEP_STATUS_SKIPPED else None)"
| "step_target_status StepCancel current =
     (if current = STEP_STATUS_PENDING then Some STEP_STATUS_CANCELLED else None)"

fun action_to_status :: "action_transition_kind \<Rightarrow> string" where
  "action_to_status ActionDismiss = ACTION_STATUS_DISMISSED"

fun action_target_status :: "action_transition_kind \<Rightarrow> string \<Rightarrow> string option" where
  "action_target_status ActionDismiss current =
     (if current = ACTION_STATUS_PROPOSED then Some ACTION_STATUS_DISMISSED else None)"

text \<open>The four transition requests differ in the type of \<open>kind\<close> only.\<close>

record 'k life_transition_request =
  tq_event_id :: string
  tq_life_id :: string
  tq_entity_id :: string
  tq_expected_revision :: int
  tq_kind :: 'k

section \<open>Validators\<close>

definition life_validate_id :: "string \<Rightarrow> life_intent_error + unit" where
  "life_validate_id v =
     (let trimmed = str_trim v
      in require (\<not> (trimmed = [] \<or> chars_count trimmed > LIFE_MAX_ID_LENGTH)) li_invalid_argument)"

definition life_validate_nonempty :: "string \<Rightarrow> life_intent_error + unit" where
  "life_validate_nonempty v = require (\<not> str_blank v) li_invalid_argument"

definition life_validate_title :: "string \<Rightarrow> life_intent_error + unit" where
  "life_validate_title v =
     (let trimmed = str_trim v
      in require (\<not> (trimmed = [] \<or> chars_count trimmed > LIFE_MAX_TITLE_LENGTH))
           li_invalid_argument)"

definition life_validate_objective :: "string \<Rightarrow> life_intent_error + unit" where
  "life_validate_objective v =
     (let trimmed = str_trim v
      in require (\<not> (trimmed = [] \<or> chars_count trimmed > LIFE_MAX_OBJECTIVE_LENGTH))
           li_invalid_argument)"

definition life_validate_summary :: "string \<Rightarrow> life_intent_error + unit" where
  "life_validate_summary v =
     (let trimmed = str_trim v
      in require (\<not> (trimmed = [] \<or> chars_count trimmed > LIFE_MAX_SUMMARY_LENGTH))
           li_invalid_argument)"

definition life_validate_authority_timestamps ::
    "string \<Rightarrow> string \<Rightarrow> string option \<Rightarrow> life_intent_error + unit" where
  "life_validate_authority_timestamps created_at updated_at closed_at =
     check_all
       [require (\<not> (str_blank created_at \<or> str_blank updated_at)) li_invalid_argument,
        (case closed_at of None \<Rightarrow> Inr ()
         | Some closed \<Rightarrow> require (\<not> str_blank closed) li_invalid_argument)]"

definition life_validate_persisted_revision :: "int \<Rightarrow> life_intent_error + unit" where
  "life_validate_persisted_revision r = require (\<not> r < 1) li_invalid_argument"

definition life_validate_closed_at_consistency ::
    "string \<Rightarrow> string option \<Rightarrow> string list \<Rightarrow> life_intent_error + unit" where
  "life_validate_closed_at_consistency status closed_at open_statuses =
     check_all
       [require (\<not> (status \<in> set open_statuses \<and> closed_at \<noteq> None)) li_invalid_argument,
        require (\<not> (status \<notin> set open_statuses \<and> closed_at = None)) li_invalid_argument]"

definition execution_class_supported :: "string \<Rightarrow> bool" where
  "execution_class_supported v \<longleftrightarrow>
     v \<in> {EXECUTION_CLASS_INTERNAL_INTENT, EXECUTION_CLASS_AGENT_TASK_PROPOSAL,
          EXECUTION_CLASS_TOOL_OPERATION_PROPOSAL}"

definition validate_goal_shape :: "life_goal \<Rightarrow> life_intent_error + unit" where
  "validate_goal_shape g =
     check_all
       [life_validate_id (le_id g), life_validate_nonempty (le_life_id g),
        life_validate_title (lg_title g), life_validate_objective (lg_objective g),
        require (\<not> le_status g \<noteq> GOAL_STATUS_ACTIVE) li_invalid_argument,
        require (\<not> le_revision g \<noteq> 1) li_invalid_argument,
        require (\<not> lg_created_by_kind g \<noteq> LIFE_CREATED_BY_KIND) li_invalid_argument,
        require (\<not> le_version g \<noteq> GOAL_VERSION) li_invalid_argument,
        life_validate_authority_timestamps (le_created_at g) (le_updated_at g) (le_closed_at g)]"

definition validate_plan_shape :: "life_plan \<Rightarrow> life_intent_error + unit" where
  "validate_plan_shape p =
     check_all
       [life_validate_id (le_id p), life_validate_nonempty (le_life_id p),
        life_validate_nonempty (lp_goal_id p), life_validate_title (lp_title p),
        require (\<not> le_status p \<noteq> PLAN_STATUS_DRAFT) li_invalid_argument,
        require (\<not> le_revision p \<noteq> 1) li_invalid_argument,
        require (\<not> le_version p \<noteq> PLAN_VERSION) li_invalid_argument,
        life_validate_authority_timestamps (le_created_at p) (le_updated_at p) (le_closed_at p)]"

definition validate_step_shape :: "life_step \<Rightarrow> life_intent_error + unit" where
  "validate_step_shape s =
     check_all
       [life_validate_id (le_id s), life_validate_nonempty (le_life_id s),
        life_validate_nonempty (ls_plan_id s),
        require (\<not> ls_ordinal s < 1) li_invalid_argument,
        life_validate_summary (ls_summary s),
        require (\<not> le_status s \<noteq> STEP_STATUS_PENDING) li_invalid_argument,
        require (\<not> le_revision s \<noteq> 1) li_invalid_argument,
        require (\<not> le_version s \<noteq> STEP_VERSION) li_invalid_argument,
        life_validate_authority_timestamps (le_created_at s) (le_updated_at s) (le_closed_at s)]"

definition validate_action_shape :: "life_action \<Rightarrow> life_intent_error + unit" where
  "validate_action_shape a =
     check_all
       [life_validate_id (le_id a), life_validate_nonempty (le_life_id a),
        life_validate_nonempty (la_step_id a),
        require (execution_class_supported (la_execution_class a)) li_invalid_argument,
        life_validate_summary (la_summary a),
        require (\<not> le_status a \<noteq> ACTION_STATUS_PROPOSED) li_invalid_argument,
        require (\<not> le_revision a \<noteq> 1) li_invalid_argument,
        require (\<not> le_version a \<noteq> ACTION_VERSION) li_invalid_argument,
        life_validate_authority_timestamps (le_created_at a) (le_updated_at a) (le_closed_at a)]"

definition validate_goal_persisted_state :: "life_goal \<Rightarrow> life_intent_error + unit" where
  "validate_goal_persisted_state g =
     check_all
       [life_validate_id (le_id g), life_validate_nonempty (le_life_id g),
        life_validate_title (lg_title g), life_validate_objective (lg_objective g),
        require (le_status g \<in> {GOAL_STATUS_ACTIVE, GOAL_STATUS_COMPLETED, GOAL_STATUS_CANCELLED})
          li_invalid_argument,
        life_validate_persisted_revision (le_revision g),
        require (\<not> lg_created_by_kind g \<noteq> LIFE_CREATED_BY_KIND) li_invalid_argument,
        require (\<not> le_version g \<noteq> GOAL_VERSION) li_invalid_argument,
        life_validate_authority_timestamps (le_created_at g) (le_updated_at g) (le_closed_at g),
        life_validate_closed_at_consistency (le_status g) (le_closed_at g) [GOAL_STATUS_ACTIVE]]"

definition validate_plan_persisted_state :: "life_plan \<Rightarrow> life_intent_error + unit" where
  "validate_plan_persisted_state p =
     check_all
       [life_validate_id (le_id p), life_validate_nonempty (le_life_id p),
        life_validate_nonempty (lp_goal_id p), life_validate_title (lp_title p),
        require (le_status p \<in> {PLAN_STATUS_DRAFT, PLAN_STATUS_ACTIVE, PLAN_STATUS_COMPLETED,
                                PLAN_STATUS_CANCELLED}) li_invalid_argument,
        life_validate_persisted_revision (le_revision p),
        require (\<not> le_version p \<noteq> PLAN_VERSION) li_invalid_argument,
        life_validate_authority_timestamps (le_created_at p) (le_updated_at p) (le_closed_at p),
        life_validate_closed_at_consistency (le_status p) (le_closed_at p)
          [PLAN_STATUS_DRAFT, PLAN_STATUS_ACTIVE]]"

definition validate_step_persisted_state :: "life_step \<Rightarrow> life_intent_error + unit" where
  "validate_step_persisted_state s =
     check_all
       [life_validate_id (le_id s), life_validate_nonempty (le_life_id s),
        life_validate_nonempty (ls_plan_id s),
        require (\<not> ls_ordinal s < 1) li_invalid_argument,
        life_validate_summary (ls_summary s),
        require (le_status s \<in> {STEP_STATUS_PENDING, STEP_STATUS_COMPLETED, STEP_STATUS_SKIPPED,
                                STEP_STATUS_CANCELLED}) li_invalid_argument,
        life_validate_persisted_revision (le_revision s),
        require (\<not> le_version s \<noteq> STEP_VERSION) li_invalid_argument,
        life_validate_authority_timestamps (le_created_at s) (le_updated_at s) (le_closed_at s),
        life_validate_closed_at_consistency (le_status s) (le_closed_at s) [STEP_STATUS_PENDING]]"

definition validate_action_persisted_state :: "life_action \<Rightarrow> life_intent_error + unit" where
  "validate_action_persisted_state a =
     check_all
       [life_validate_id (le_id a), life_validate_nonempty (le_life_id a),
        life_validate_nonempty (la_step_id a),
        require (execution_class_supported (la_execution_class a)) li_invalid_argument,
        life_validate_summary (la_summary a),
        require (le_status a \<in> {ACTION_STATUS_PROPOSED, ACTION_STATUS_DISMISSED})
          li_invalid_argument,
        life_validate_persisted_revision (le_revision a),
        require (\<not> le_version a \<noteq> ACTION_VERSION) li_invalid_argument,
        life_validate_authority_timestamps (le_created_at a) (le_updated_at a) (le_closed_at a),
        life_validate_closed_at_consistency (le_status a) (le_closed_at a)
          [ACTION_STATUS_PROPOSED]]"

definition validate_transition_request_fields ::
    "string \<Rightarrow> string \<Rightarrow> string \<Rightarrow> int \<Rightarrow> life_intent_error + unit" where
  "validate_transition_request_fields event_id life_id entity_id expected_revision =
     check_all
       [life_validate_id event_id, life_validate_nonempty life_id, life_validate_id entity_id,
        require (1 \<le> expected_revision \<and> expected_revision < i64_max) li_invalid_argument]"

definition validate_transition_request ::
    "'k life_transition_request \<Rightarrow> life_intent_error + unit" where
  "validate_transition_request r =
     validate_transition_request_fields (tq_event_id r) (tq_life_id r) (tq_entity_id r)
       (tq_expected_revision r)"

definition validate_event_lookup_arguments :: "string \<Rightarrow> string \<Rightarrow> life_intent_error + unit" where
  "validate_event_lookup_arguments life event =
     try_seq (life_validate_nonempty life) (life_validate_id event)"

definition validate_goal_request :: "goal_create_request \<Rightarrow> life_intent_error + unit" where
  "validate_goal_request r =
     check_all
       [life_validate_id (gc_goal_id r), life_validate_nonempty (gc_life_id r),
        life_validate_title (gc_title r), life_validate_objective (gc_objective r)]"

definition validate_plan_request :: "plan_create_request \<Rightarrow> life_intent_error + unit" where
  "validate_plan_request r =
     check_all
       [life_validate_id (pc_plan_id r), life_validate_nonempty (pc_life_id r),
        life_validate_nonempty (pc_goal_id r), life_validate_title (pc_title r)]"

definition validate_step_request :: "step_create_request \<Rightarrow> life_intent_error + unit" where
  "validate_step_request r =
     check_all
       [life_validate_id (sc_step_id r), life_validate_nonempty (sc_life_id r),
        life_validate_nonempty (sc_plan_id r),
        require (\<not> sc_ordinal r < 1) li_invalid_argument,
        life_validate_summary (sc_summary r)]"

definition validate_action_request :: "action_create_request \<Rightarrow> life_intent_error + unit" where
  "validate_action_request r =
     check_all
       [life_validate_id (cc_action_id r), life_validate_nonempty (cc_life_id r),
        life_validate_nonempty (cc_step_id r),
        require (execution_class_supported (cc_execution_class r)) li_invalid_argument,
        life_validate_summary (cc_summary r)]"

lemmas life_validator_defs =
  life_validate_id_def life_validate_nonempty_def life_validate_title_def
  life_validate_objective_def life_validate_summary_def life_validate_authority_timestamps_def
  life_validate_persisted_revision_def life_validate_closed_at_consistency_def
  execution_class_supported_def

end
