(* ===== verification/Sql_Table.thy ===== *)
theory Sql_Table
  imports Rust_Prelude
begin

text \<open>
  The SQLite tables the repositories of \<open>src-tauri/src/storage/\<close> use. A table is the list of its
  rows in insertion order; \<open>query_row(..).optional()\<close> with a \<open>WHERE\<close> clause is \<open>find\<close>, an
  \<open>UPDATE\<close> maps the matching rows and reports how many matched, an \<open>INSERT\<close> appends a row after
  the constraints of the table's \<open>CREATE TABLE\<close> statement were checked, and an immediate
  transaction that is dropped without a commit leaves the tables as they were.

  SQLite itself can refuse any statement (busy, disk full, corrupt file). Which statements it
  executes is an argument of the models, a predicate on the statements of the operation.
\<close>

datatype sql_constraint = SqlCheckFailed | SqlUniqueFailed | SqlForeignKeyFailed

text \<open>The table every repository refers to: the identities of the lives.\<close>

record life_db =
  life_identity :: "string list"

text \<open>
  SQL \<open>trim\<close> strips spaces only, and SQL \<open>length\<close> of a text stops at the first NUL: neither is the
  function of the same name in Rust.
\<close>

definition sql_trim :: "string \<Rightarrow> string" where
  "sql_trim s = rev (dropWhile (\<lambda>c. c = CHR 0x20) (rev (dropWhile (\<lambda>c. c = CHR 0x20) s)))"

definition sql_length :: "string \<Rightarrow> nat" where
  "sql_length s = chars_count (takeWhile (\<lambda>c. c \<noteq> CHR 0x00) s)"

definition sql_update :: "('r \<Rightarrow> bool) \<Rightarrow> ('r \<Rightarrow> 'r) \<Rightarrow> 'r list \<Rightarrow> nat \<times> 'r list" where
  "sql_update p f rows = (length (filter p rows), map (\<lambda>r. if p r then f r else r) rows)"

definition with_transaction ::
    "bool \<Rightarrow> bool \<Rightarrow> 'e \<Rightarrow> ('db \<Rightarrow> 'e + 'o \<times> 'db) \<Rightarrow> 'db \<Rightarrow> ('e + 'o) \<times> 'db" where
  "with_transaction begin_ok commit_ok db_error body db =
     (if \<not> begin_ok then (Inl db_error, db)
      else case body db of
             Inl e \<Rightarrow> (Inl e, db)
           | Inr (out, db') \<Rightarrow> if commit_ok then (Inr out, db') else (Inl db_error, db))"

lemma with_transaction_Inr:
  "with_transaction b c e body db = (Inr out, db') \<longleftrightarrow> b \<and> c \<and> body db = Inr (out, db')"
  by (auto simp: with_transaction_def split: sum.splits prod.splits if_splits)

lemma with_transaction_Inl:
  "with_transaction b c e body db = (Inl e', db') \<Longrightarrow> db' = db"
  by (auto simp: with_transaction_def split: sum.splits prod.splits if_splits)

lemma find_Some_mem: "find p xs = Some x \<Longrightarrow> x \<in> set xs \<and> p x"
  by (induction xs) (auto split: if_splits)

lemma find_None_all: "find p xs = None \<longleftrightarrow> (\<forall>x \<in> set xs. \<not> p x)"
  by (induction xs) auto

lemma find_append: "find p (xs @ ys) = (case find p xs of None \<Rightarrow> find p ys | Some x \<Rightarrow> Some x)"
  by (induction xs) auto

lemma find_append_Some [simp]: "find p xs = Some x \<Longrightarrow> find p (xs @ ys) = Some x"
  by (simp add: find_append)

lemma find_key_SomeI:
  "distinct (map k rows) \<Longrightarrow> r \<in> set rows \<Longrightarrow> k r = x \<Longrightarrow> find (\<lambda>r. k r = x) rows = Some r"
  by (induction rows) (auto simp: image_iff)

lemma find_map_key:
  "(\<And>r. k (f r) = k r) \<Longrightarrow>
   find (\<lambda>r. k r = x) (map f rows) = map_option f (find (\<lambda>r. k r = x) rows)"
  by (induction rows) auto

lemma map_key_update [simp]:
  "(\<And>r. k (f r) = k r) \<Longrightarrow> map k (map (\<lambda>r. if p r then f r else r) rows) = map k rows"
  by (induction rows) auto

lemma count_key_le_one:
  "distinct (map k rows) \<Longrightarrow> length (filter (\<lambda>r. k r = x) rows) \<le> 1"
  by (induction rows) (auto simp: filter_empty_conv image_iff)

lemma count_key_guard:
  assumes "distinct (map k rows)" and "find (\<lambda>r. k r = x) rows = Some r"
  shows "length (filter (\<lambda>r. k r = x \<and> g r) rows) = (if g r then 1 else 0)"
  using assms
proof (induction rows)
  case Nil
  then show ?case by simp
next
  case (Cons a rows)
  show ?case
  proof (cases "k a = x")
    case True
    with Cons.prems have "filter (\<lambda>r. k r = x \<and> g r) rows = []"
      by (auto simp: filter_empty_conv image_iff)
    with True Cons.prems show ?thesis by auto
  next
    case False
    with Cons show ?thesis by auto
  qed
qed

end
