(* ===== verification/Life_Intent_Store.thy ===== *)
theory Life_Intent_Store
  imports Life_Intent_Domain Sql_Table
    "HOL-Library.List_Lexorder" "HOL-Library.Char_ord" "HOL-Library.Product_Lexorder"
begin

text \<open>
  The SQLite repository of goals, plans, steps and actions,
  \<open>src-tauri/src/storage/life_intent.rs\<close>, over the tables of
  \<open>migrations/022_life_goal_plan_action_authority.*.sql\<close>. The code writes each operation four times;
  what the four have in common is written once here over a description of the table
  (\<open>life_table\<close>), and each operation of the code is an instance. \<open>io\<close> says which statements SQLite
  executes and \<open>now\<close> is its clock. The immutability triggers guard columns that no statement of the
  repository writes.
\<close>

section \<open>Tables\<close>

record life_intent_db = life_db +
  goal_rows :: "life_goal list"
  plan_rows :: "life_plan list"
  step_rows :: "life_step list"
  action_rows :: "life_action list"
  life_event_rows :: "life_intent_event list"

datatype life_intent_stmt =
    LisLock | LisBegin | LisCommit | LisNow | LisSelectLife | LisSelectParent | LisSelectOrdinal
  | LisSelectEntity | LisInsertEntity | LisUpdateEntity | LisReloadEntity
  | LisSelectEvent | LisInsertEvent | LisReloadEvent | LisDelete | LisList

type_synonym life_intent_io = "life_intent_stmt \<Rightarrow> bool"

definition life_sql_id :: "string \<Rightarrow> bool" where
  "life_sql_id v \<longleftrightarrow> 1 \<le> sql_length (sql_trim v) \<and> sql_length (sql_trim v) \<le> 128"

definition life_sql_text :: "nat \<Rightarrow> string \<Rightarrow> bool" where
  "life_sql_text n v \<longleftrightarrow> 1 \<le> sql_length (sql_trim v) \<and> sql_length (sql_trim v) \<le> n"

definition life_sql_nonblank :: "string \<Rightarrow> bool" where
  "life_sql_nonblank v \<longleftrightarrow> sql_length (sql_trim v) > 0"

definition goal_row_check :: "life_goal \<Rightarrow> bool" where
  "goal_row_check g \<longleftrightarrow>
     life_sql_id (le_id g) \<and> life_sql_nonblank (le_life_id g)
     \<and> life_sql_text 256 (lg_title g) \<and> life_sql_text 4096 (lg_objective g)
     \<and> le_status g \<in> {''active'', ''completed'', ''cancelled''} \<and> le_revision g \<ge> 1
     \<and> lg_created_by_kind g = ''user_explicit''
     \<and> life_sql_nonblank (le_created_at g) \<and> life_sql_nonblank (le_updated_at g)
     \<and> le_version g = 1
     \<and> (le_status g = ''active'' \<and> le_closed_at g = None
        \<or> le_status g \<in> {''completed'', ''cancelled''} \<and> le_closed_at g \<noteq> None)"

definition plan_row_check :: "life_plan \<Rightarrow> bool" where
  "plan_row_check p \<longleftrightarrow>
     life_sql_id (le_id p) \<and> life_sql_nonblank (le_life_id p) \<and> life_sql_nonblank (lp_goal_id p)
     \<and> life_sql_text 256 (lp_title p)
     \<and> le_status p \<in> {''draft'', ''active'', ''completed'', ''cancelled''} \<and> le_revision p \<ge> 1
     \<and> life_sql_nonblank (le_created_at p) \<and> life_sql_nonblank (le_updated_at p)
     \<and> le_version p = 1
     \<and> (le_status p \<in> {''draft'', ''active''} \<and> le_closed_at p = None
        \<or> le_status p \<in> {''completed'', ''cancelled''} \<and> le_closed_at p \<noteq> None)"

definition step_row_check :: "life_step \<Rightarrow> bool" where
  "step_row_check s \<longleftrightarrow>
     life_sql_id (le_id s) \<and> life_sql_nonblank (le_life_id s) \<and> life_sql_nonblank (ls_plan_id s)
     \<and> ls_ordinal s > 0 \<and> life_sql_text 4096 (ls_summary s)
     \<and> le_status s \<in> {''pending'', ''completed'', ''skipped'', ''cancelled''} \<and> le_revision s \<ge> 1
     \<and> life_sql_nonblank (le_created_at s) \<and> life_sql_nonblank (le_updated_at s)
     \<and> le_version s = 1
     \<and> (le_status s = ''pending'' \<and> le_closed_at s = None
        \<or> le_status s \<in> {''completed'', ''skipped'', ''cancelled''} \<and> le_closed_at s \<noteq> None)"

definition action_row_check :: "life_action \<Rightarrow> bool" where
  "action_row_check a \<longleftrightarrow>
     life_sql_id (le_id a) \<and> life_sql_nonblank (le_life_id a) \<and> life_sql_nonblank (la_step_id a)
     \<and> la_execution_class a \<in> {''internal_intent'', ''agent_task_proposal'',
                               ''tool_operation_proposal''}
     \<and> life_sql_text 4096 (la_summary a)
     \<and> le_status a \<in> {''proposed'', ''dismissed''} \<and> le_revision a \<ge> 1
     \<and> life_sql_nonblank (le_created_at a) \<and> life_sql_nonblank (le_updated_at a)
     \<and> le_version a = 1
     \<and> (le_status a = ''proposed'' \<and> le_closed_at a = None
        \<or> le_status a = ''dismissed'' \<and> le_closed_at a \<noteq> None)"

definition life_event_row_check :: "life_intent_event \<Rightarrow> bool" where
  "life_event_row_check e \<longleftrightarrow>
     life_sql_id (lv_event_id e) \<and> life_sql_nonblank (lv_life_id e)
     \<and> life_sql_nonblank (lv_from_status e) \<and> life_sql_nonblank (lv_to_status e)
     \<and> lv_expected_revision e \<ge> 1 \<and> lv_expected_revision e < 9223372036854775807
     \<and> lv_applied_revision e = lv_expected_revision e + 1
     \<and> lv_actor_kind e = ''user_explicit'' \<and> life_sql_nonblank (lv_occurred_at e)
     \<and> lv_event_version e = 1 \<and> lv_from_status e \<noteq> lv_to_status e
     \<and> (lv_entity_kind e = ''goal'' \<and> lv_goal_id e \<noteq> None
          \<and> lv_plan_id e = None \<and> lv_step_id e = None \<and> lv_action_id e = None
        \<or> lv_entity_kind e = ''plan'' \<and> lv_plan_id e \<noteq> None
          \<and> lv_goal_id e = None \<and> lv_step_id e = None \<and> lv_action_id e = None
        \<or> lv_entity_kind e = ''step'' \<and> lv_step_id e \<noteq> None
          \<and> lv_goal_id e = None \<and> lv_plan_id e = None \<and> lv_action_id e = None
        \<or> lv_entity_kind e = ''action'' \<and> lv_action_id e \<noteq> None
          \<and> lv_goal_id e = None \<and> lv_plan_id e = None \<and> lv_step_id e = None)"

text \<open>The key \<open>(id, life_id)\<close> foreign keys refer to.\<close>

definition life_key :: "'e life_entity_scheme \<Rightarrow> string \<times> string" where
  "life_key e = (le_id e, le_life_id e)"

definition life_keys :: "'e life_entity_scheme list \<Rightarrow> (string \<times> string) set" where
  "life_keys rows = set (map life_key rows)"

definition fk_optional :: "string option \<Rightarrow> string \<Rightarrow> (string \<times> string) set \<Rightarrow> bool" where
  "fk_optional i life keys \<longleftrightarrow> (case i of None \<Rightarrow> True | Some k \<Rightarrow> (k, life) \<in> keys)"

definition life_event_insert ::
    "life_intent_event \<Rightarrow> 'a life_intent_db_scheme \<Rightarrow> sql_constraint + 'a life_intent_db_scheme" where
  "life_event_insert e db =
     (if \<not> life_event_row_check e then Inl SqlCheckFailed
      else if lv_event_id e \<in> set (map lv_event_id (life_event_rows db)) then Inl SqlUniqueFailed
      else if \<not> (fk_optional (lv_goal_id e) (lv_life_id e) (life_keys (goal_rows db))
                 \<and> fk_optional (lv_plan_id e) (lv_life_id e) (life_keys (plan_rows db))
                 \<and> fk_optional (lv_step_id e) (lv_life_id e) (life_keys (step_rows db))
                 \<and> fk_optional (lv_action_id e) (lv_life_id e) (life_keys (action_rows db)))
        then Inl SqlForeignKeyFailed
      else Inr (db\<lparr>life_event_rows := life_event_rows db @ [e]\<rparr>))"

section \<open>Helpers of the repository\<close>

definition life_query :: "bool \<Rightarrow> 'r \<Rightarrow> life_intent_error + 'r" where
  "life_query executes result = (if executes then Inr result else Inl li_database)"

definition li_validate_lookup_arguments :: "string \<Rightarrow> string \<Rightarrow> life_intent_error + unit" where
  "li_validate_lookup_arguments life entity =
     try_seq (require (\<not> str_blank life) li_invalid_argument)
       (require (\<not> str_blank entity) li_invalid_argument)"

definition validate_list_arguments :: "string \<Rightarrow> string option \<Rightarrow> life_intent_error + unit" where
  "validate_list_arguments life parent =
     try_seq (require (\<not> str_blank life) li_invalid_argument)
       (case parent of None \<Rightarrow> Inr () | Some p \<Rightarrow> require (\<not> str_blank p) li_invalid_argument)"

definition li_require_life ::
    "life_intent_io \<Rightarrow> string \<Rightarrow> 'a life_intent_db_scheme \<Rightarrow> life_intent_error + unit" where
  "li_require_life io life db =
     try_bind (life_query (io LisSelectLife) (life \<in> set (life_identity db))) (\<lambda>exists.
     require exists li_life_not_found)"

definition require_parent ::
    "life_intent_io \<Rightarrow> 'e life_entity_scheme list \<Rightarrow> string \<Rightarrow> string \<Rightarrow> life_intent_error + unit" where
  "require_parent io parent_rows parent_id requested_life =
     try_bind (life_query (io LisSelectParent)
                (map_option le_life_id (find (\<lambda>p. le_id p = parent_id) parent_rows)))
       (\<lambda>parent_life.
     case parent_life of
       None \<Rightarrow> Inl li_parent_not_found
     | Some found_life \<Rightarrow>
         if found_life \<noteq> requested_life then Inl li_parent_life_mismatch else Inr ())"

definition li_next_revision :: "int \<Rightarrow> life_intent_error + int" where
  "li_next_revision expected = ok_or (checked_add expected 1) li_invalid_argument"

definition select_life_event ::
    "string \<Rightarrow> 'a life_intent_db_scheme \<Rightarrow> life_intent_event option" where
  "select_life_event i db = find (\<lambda>e. lv_event_id e = i) (life_event_rows db)"

definition event_target_matches :: "life_intent_event \<Rightarrow> string \<Rightarrow> string \<Rightarrow> bool" where
  "event_target_matches e entity_kind i \<longleftrightarrow>
     (if entity_kind = GOAL_ENTITY_KIND then
        lv_goal_id e = Some i \<and> lv_plan_id e = None \<and> lv_step_id e = None \<and> lv_action_id e = None
      else if entity_kind = PLAN_ENTITY_KIND then
        lv_goal_id e = None \<and> lv_plan_id e = Some i \<and> lv_step_id e = None \<and> lv_action_id e = None
      else if entity_kind = STEP_ENTITY_KIND then
        lv_goal_id e = None \<and> lv_plan_id e = None \<and> lv_step_id e = Some i \<and> lv_action_id e = None
      else if entity_kind = ACTION_ENTITY_KIND then
        lv_goal_id e = None \<and> lv_plan_id e = None \<and> lv_step_id e = None \<and> lv_action_id e = Some i
      else False)"

definition life_event_evidence_matches ::
    "life_intent_event \<Rightarrow> string \<Rightarrow> string \<Rightarrow> string \<Rightarrow> string \<Rightarrow> int \<Rightarrow> int \<Rightarrow> bool" where
  "life_event_evidence_matches e life entity_kind i to_status expected applied \<longleftrightarrow>
     lv_life_id e = life \<and> lv_entity_kind e = entity_kind \<and> event_target_matches e entity_kind i
     \<and> lv_to_status e = to_status \<and> lv_expected_revision e = expected
     \<and> lv_applied_revision e = applied \<and> lv_actor_kind e = LIFE_ACTOR_KIND
     \<and> lv_event_version e = LIFE_EVENT_VERSION"

datatype life_event_target =
    TargetGoal string | TargetPlan string | TargetStep string | TargetAction string

fun target_columns ::
    "life_event_target
     \<Rightarrow> string \<times> string option \<times> string option \<times> string option \<times> string option" where
  "target_columns (TargetGoal i) = (GOAL_ENTITY_KIND, Some i, None, None, None)"
| "target_columns (TargetPlan i) = (PLAN_ENTITY_KIND, None, Some i, None, None)"
| "target_columns (TargetStep i) = (STEP_ENTITY_KIND, None, None, Some i, None)"
| "target_columns (TargetAction i) = (ACTION_ENTITY_KIND, None, None, None, Some i)"

definition build_event ::
    "string \<Rightarrow> string \<Rightarrow> life_event_target \<Rightarrow> string \<Rightarrow> string \<Rightarrow> int \<Rightarrow> int \<Rightarrow> string
     \<Rightarrow> life_intent_event" where
  "build_event event_id life target from_status to_status expected applied occurred_at =
     (case target_columns target of (kind, goal, plan, step, action) \<Rightarrow>
        \<lparr>lv_event_id = event_id, lv_life_id = life, lv_entity_kind = kind, lv_goal_id = goal,
         lv_plan_id = plan, lv_step_id = step, lv_action_id = action,
         lv_from_status = from_status, lv_to_status = to_status,
         lv_expected_revision = expected, lv_applied_revision = applied,
         lv_actor_kind = LIFE_ACTOR_KIND, lv_occurred_at = occurred_at,
         lv_event_version = LIFE_EVENT_VERSION\<rparr>)"

section \<open>One table of entities\<close>

text \<open>
  What the four tables differ in: their rows, the constraints of their \<open>CREATE TABLE\<close> statement
  (\<open>lt_check\<close>, \<open>lt_unique\<close> beside the primary key, \<open>lt_parent\<close> for the foreign keys), the validator
  of persisted rows and the lifecycle.
\<close>

record ('e, 'k, 'd) life_table =
  lt_kind :: string
  lt_target :: "string \<Rightarrow> life_event_target"
  lt_rows :: "'d \<Rightarrow> 'e list"
  lt_set_rows :: "'e list \<Rightarrow> 'd \<Rightarrow> 'd"
  lt_check :: "'e \<Rightarrow> bool"
  lt_unique :: "'e \<Rightarrow> 'd \<Rightarrow> bool"
  lt_parent :: "'e \<Rightarrow> 'd \<Rightarrow> bool"
  lt_validate :: "'e \<Rightarrow> life_intent_error + unit"
  lt_to_status :: "'k \<Rightarrow> string"
  lt_target_status :: "'k \<Rightarrow> string \<Rightarrow> string option"
  lt_closes :: "'k \<Rightarrow> bool"

type_synonym ('e, 'k, 'a) entity_table =
  "('e life_entity_scheme, 'k, 'a life_intent_db_scheme) life_table"

definition life_select ::
    "('e, 'k, 'a) entity_table \<Rightarrow> string \<Rightarrow> 'a life_intent_db_scheme
     \<Rightarrow> 'e life_entity_scheme option" where
  "life_select T i db = find (\<lambda>e. le_id e = i) (lt_rows T db)"

definition life_insert ::
    "('e, 'k, 'a) entity_table \<Rightarrow> 'e life_entity_scheme \<Rightarrow> 'a life_intent_db_scheme
     \<Rightarrow> sql_constraint + 'a life_intent_db_scheme" where
  "life_insert T e db =
     (if \<not> lt_check T e then Inl SqlCheckFailed
      else if le_id e \<in> set (map le_id (lt_rows T db)) \<or> \<not> lt_unique T e db then Inl SqlUniqueFailed
      else if le_life_id e \<notin> set (life_identity db) \<or> \<not> lt_parent T e db
        then Inl SqlForeignKeyFailed
      else Inr (lt_set_rows T (lt_rows T db @ [e]) db))"

definition load_for_transition ::
    "('e, 'k, 'a) entity_table \<Rightarrow> bool \<Rightarrow> string \<Rightarrow> string \<Rightarrow> 'a life_intent_db_scheme
     \<Rightarrow> life_intent_error + 'e life_entity_scheme" where
  "load_for_transition T executes life i db =
     try_bind (life_query executes (life_select T i db)) (\<lambda>found.
     case found of
       None \<Rightarrow> Inl li_entity_not_found
     | Some e \<Rightarrow>
         if le_life_id e \<noteq> life then Inl li_entity_life_mismatch
         else try_seq (lt_validate T e) (Inr e))"

text \<open>\<open>UPDATE \<dots> SET status, revision, updated_at, closed_at WHERE id AND life AND revision AND status\<close>.\<close>

definition life_after ::
    "string \<Rightarrow> int \<Rightarrow> string \<Rightarrow> bool \<Rightarrow> 'e life_entity_scheme \<Rightarrow> 'e life_entity_scheme" where
  "life_after now applied to_status closes e =
     e\<lparr>le_status := to_status, le_revision := applied, le_updated_at := now,
       le_closed_at := (if closes then Some now else None)\<rparr>"

definition life_update ::
    "('e, 'k, 'a) entity_table \<Rightarrow> string \<Rightarrow> int \<Rightarrow> string \<Rightarrow> string \<Rightarrow> 'k life_transition_request
     \<Rightarrow> 'a life_intent_db_scheme \<Rightarrow> (nat \<times> 'a life_intent_db_scheme) option" where
  "life_update T now applied from_status to_status r db =
     (let p = (\<lambda>e. le_id e = tq_entity_id r \<and> le_life_id e = tq_life_id r
                  \<and> le_revision e = tq_expected_revision r \<and> le_status e = from_status);
          f = life_after now applied to_status (lt_closes T (tq_kind r))
      in if \<exists>row \<in> set (lt_rows T db). p row \<and> \<not> lt_check T (f row) then None
         else let (changed, rows) = sql_update p f (lt_rows T db)
              in Some (changed, lt_set_rows T rows db))"

definition life_transition_in_transaction ::
    "('e, 'k, 'a) entity_table \<Rightarrow> life_intent_io \<Rightarrow> string \<Rightarrow> 'k life_transition_request
     \<Rightarrow> 'a life_intent_db_scheme
     \<Rightarrow> life_intent_error
        + 'e life_entity_scheme life_transition_outcome \<times> 'a life_intent_db_scheme" where
  "life_transition_in_transaction T io now r db =
     try_seq (validate_transition_request r)
     (try_bind (li_next_revision (tq_expected_revision r)) (\<lambda>applied.
      try_bind (life_query (io LisSelectEvent) (select_life_event (tq_event_id r) db)) (\<lambda>found.
      case found of
        Some event \<Rightarrow>
          (if life_event_evidence_matches event (tq_life_id r) (lt_kind T) (tq_entity_id r)
                (lt_to_status T (tq_kind r)) (tq_expected_revision r) applied
           then try_bind (load_for_transition T (io LisSelectEntity) (tq_life_id r)
                           (tq_entity_id r) db) (\<lambda>current.
                Inr (LifeReplayed event current, db))
           else Inl li_event_conflict)
      | None \<Rightarrow>
          try_bind (load_for_transition T (io LisSelectEntity) (tq_life_id r) (tq_entity_id r) db)
            (\<lambda>current.
          if le_revision current \<noteq> tq_expected_revision r then Inl li_revision_conflict
          else
          try_bind (ok_or (lt_target_status T (tq_kind r) (le_status current)) li_invalid_transition)
            (\<lambda>to_status.
          if \<not> io LisNow then Inl li_database
          else
          let event = build_event (tq_event_id r) (tq_life_id r) (lt_target T (tq_entity_id r))
                (le_status current) to_status (tq_expected_revision r) applied now in
          if \<not> io LisUpdateEntity then Inl li_database
          else case life_update T now applied (le_status current) to_status r db of
            None \<Rightarrow> Inl li_database
          | Some (changed, db1) \<Rightarrow>
            if changed \<noteq> 1 then Inl li_revision_conflict
            else if \<not> io LisInsertEvent then Inl li_database
            else case life_event_insert event db1 of
              Inl _ \<Rightarrow> Inl li_database
            | Inr db2 \<Rightarrow>
              try_bind (life_query (io LisReloadEvent) (select_life_event (tq_event_id r) db2))
                (\<lambda>found_event.
              try_bind (ok_or found_event li_database) (\<lambda>committed_event.
              try_bind (load_for_transition T (io LisReloadEntity) (tq_life_id r) (tq_entity_id r)
                         db2) (\<lambda>committed.
              Inr (LifeApplied committed_event committed, db2)))))))))"

text \<open>
  The creates: a request that was validated, the evidence an existing row is compared with, the
  checks that come before the insertion, the new row at the time of the insertion and the validator
  of what is read back.
\<close>

definition life_create_in_transaction ::
    "('e, 'k, 'a) entity_table \<Rightarrow> life_intent_io \<Rightarrow> life_intent_error + unit
     \<Rightarrow> ('e life_entity_scheme \<Rightarrow> bool) \<Rightarrow> ('a life_intent_db_scheme \<Rightarrow> life_intent_error + unit)
     \<Rightarrow> 'e life_entity_scheme \<Rightarrow> ('e life_entity_scheme \<Rightarrow> life_intent_error + unit)
     \<Rightarrow> 'a life_intent_db_scheme
     \<Rightarrow> life_intent_error
        + 'e life_entity_scheme life_create_outcome \<times> 'a life_intent_db_scheme" where
  "life_create_in_transaction T io validated evidence_matches prechecks row validate_shape db =
     try_seq validated
     (try_bind (life_query (io LisSelectEntity) (life_select T (le_id row) db)) (\<lambda>found.
      case found of
        Some existing \<Rightarrow>
          (if evidence_matches existing then Inr (LifeCreateReplayed existing, db)
           else Inl li_entity_conflict)
      | None \<Rightarrow>
          try_seq (prechecks db)
          (if \<not> io LisNow \<or> \<not> io LisInsertEntity then Inl li_database
           else case life_insert T row db of
                  Inl _ \<Rightarrow> Inl li_database
                | Inr db' \<Rightarrow>
                    try_bind (life_query (io LisReloadEntity) (life_select T (le_id row) db'))
                      (\<lambda>reloaded.
                    try_bind (ok_or reloaded li_database) (\<lambda>created.
                    try_seq (validate_shape created) (Inr (LifeCreated created, db')))))))"

end
