(* ===== verification/Life_Intent_Repository.thy ===== *)
theory Life_Intent_Repository
  imports Life_Intent_Store
begin

text \<open>
  The operations of \<open>LifeIntentRepository\<close> as \<open>src-tauri/src/storage/life_intent.rs\<close> has them, one
  per function: the four tables with their creates, transitions, lookups, lists and deletions.
\<close>

section \<open>The four tables\<close>

definition goal_table :: "(life_goal, goal_transition_kind, 'a life_intent_db_scheme) life_table" where
  "goal_table =
     \<lparr>lt_kind = GOAL_ENTITY_KIND, lt_target = TargetGoal, lt_rows = goal_rows,
      lt_set_rows = (\<lambda>rows db. db\<lparr>goal_rows := rows\<rparr>), lt_check = goal_row_check,
      lt_unique = (\<lambda>_ _. True), lt_parent = (\<lambda>_ _. True),
      lt_validate = validate_goal_persisted_state, lt_to_status = goal_to_status,
      lt_target_status = goal_target_status, lt_closes = (\<lambda>_. True)\<rparr>"

definition plan_table :: "(life_plan, plan_transition_kind, 'a life_intent_db_scheme) life_table" where
  "plan_table =
     \<lparr>lt_kind = PLAN_ENTITY_KIND, lt_target = TargetPlan, lt_rows = plan_rows,
      lt_set_rows = (\<lambda>rows db. db\<lparr>plan_rows := rows\<rparr>), lt_check = plan_row_check,
      lt_unique = (\<lambda>_ _. True),
      lt_parent = (\<lambda>p db. (lp_goal_id p, le_life_id p) \<in> life_keys (goal_rows db)),
      lt_validate = validate_plan_persisted_state, lt_to_status = plan_to_status,
      lt_target_status = plan_target_status,
      lt_closes = (\<lambda>kind. case kind of PlanActivate \<Rightarrow> False | PlanComplete \<Rightarrow> True
                                     | PlanCancel \<Rightarrow> True)\<rparr>"

definition step_table :: "(life_step, step_transition_kind, 'a life_intent_db_scheme) life_table" where
  "step_table =
     \<lparr>lt_kind = STEP_ENTITY_KIND, lt_target = TargetStep, lt_rows = step_rows,
      lt_set_rows = (\<lambda>rows db. db\<lparr>step_rows := rows\<rparr>), lt_check = step_row_check,
      lt_unique = (\<lambda>s db. (ls_plan_id s, ls_ordinal s)
                     \<notin> set (map (\<lambda>t. (ls_plan_id t, ls_ordinal t)) (step_rows db))),
      lt_parent = (\<lambda>s db. (ls_plan_id s, le_life_id s) \<in> life_keys (plan_rows db)),
      lt_validate = validate_step_persisted_state, lt_to_status = step_to_status,
      lt_target_status = step_target_status, lt_closes = (\<lambda>_. True)\<rparr>"

definition action_table ::
    "(life_action, action_transition_kind, 'a life_intent_db_scheme) life_table" where
  "action_table =
     \<lparr>lt_kind = ACTION_ENTITY_KIND, lt_target = TargetAction, lt_rows = action_rows,
      lt_set_rows = (\<lambda>rows db. db\<lparr>action_rows := rows\<rparr>), lt_check = action_row_check,
      lt_unique = (\<lambda>_ _. True),
      lt_parent = (\<lambda>a db. (la_step_id a, le_life_id a) \<in> life_keys (step_rows db)),
      lt_validate = validate_action_persisted_state, lt_to_status = action_to_status,
      lt_target_status = action_target_status, lt_closes = (\<lambda>_. True)\<rparr>"

section \<open>Creates\<close>

definition goal_of_create :: "string \<Rightarrow> goal_create_request \<Rightarrow> life_goal" where
  "goal_of_create now r =
     \<lparr>le_id = gc_goal_id r, le_life_id = gc_life_id r, le_status = GOAL_STATUS_ACTIVE,
      le_revision = 1, le_created_at = now, le_updated_at = now, le_closed_at = None,
      le_version = 1, lg_title = gc_title r, lg_objective = gc_objective r,
      lg_created_by_kind = LIFE_CREATED_BY_KIND\<rparr>"

definition create_goal_in_transaction ::
    "life_intent_io \<Rightarrow> string \<Rightarrow> goal_create_request \<Rightarrow> 'a life_intent_db_scheme
     \<Rightarrow> life_intent_error + life_goal life_create_outcome \<times> 'a life_intent_db_scheme" where
  "create_goal_in_transaction io now r db =
     life_create_in_transaction goal_table io (validate_goal_request r)
       (\<lambda>g. le_life_id g = gc_life_id r \<and> lg_title g = gc_title r \<and> lg_objective g = gc_objective r)
       (li_require_life io (gc_life_id r)) (goal_of_create now r) validate_goal_shape db"

definition plan_of_create :: "string \<Rightarrow> plan_create_request \<Rightarrow> life_plan" where
  "plan_of_create now r =
     \<lparr>le_id = pc_plan_id r, le_life_id = pc_life_id r, le_status = PLAN_STATUS_DRAFT,
      le_revision = 1, le_created_at = now, le_updated_at = now, le_closed_at = None,
      le_version = 1, lp_goal_id = pc_goal_id r, lp_title = pc_title r\<rparr>"

definition create_plan_in_transaction ::
    "life_intent_io \<Rightarrow> string \<Rightarrow> plan_create_request \<Rightarrow> 'a life_intent_db_scheme
     \<Rightarrow> life_intent_error + life_plan life_create_outcome \<times> 'a life_intent_db_scheme" where
  "create_plan_in_transaction io now r db =
     life_create_in_transaction plan_table io (validate_plan_request r)
       (\<lambda>p. le_life_id p = pc_life_id r \<and> lp_goal_id p = pc_goal_id r \<and> lp_title p = pc_title r)
       (\<lambda>db. try_seq (li_require_life io (pc_life_id r) db)
               (require_parent io (goal_rows db) (pc_goal_id r) (pc_life_id r)))
       (plan_of_create now r) validate_plan_shape db"

text \<open>The ordinal is claimed by another, still existing step.\<close>

definition ordinal_claimed_in_plan ::
    "life_intent_io \<Rightarrow> string \<Rightarrow> int \<Rightarrow> string \<Rightarrow> 'a life_intent_db_scheme
     \<Rightarrow> life_intent_error + bool" where
  "ordinal_claimed_in_plan io plan ordinal except_step db =
     life_query (io LisSelectOrdinal)
       (\<exists>s \<in> set (step_rows db). ls_plan_id s = plan \<and> ls_ordinal s = ordinal \<and> le_id s \<noteq> except_step)"

definition step_of_create :: "string \<Rightarrow> step_create_request \<Rightarrow> life_step" where
  "step_of_create now r =
     \<lparr>le_id = sc_step_id r, le_life_id = sc_life_id r, le_status = STEP_STATUS_PENDING,
      le_revision = 1, le_created_at = now, le_updated_at = now, le_closed_at = None,
      le_version = 1, ls_plan_id = sc_plan_id r, ls_ordinal = sc_ordinal r,
      ls_summary = sc_summary r\<rparr>"

definition create_step_in_transaction ::
    "life_intent_io \<Rightarrow> string \<Rightarrow> step_create_request \<Rightarrow> 'a life_intent_db_scheme
     \<Rightarrow> life_intent_error + life_step life_create_outcome \<times> 'a life_intent_db_scheme" where
  "create_step_in_transaction io now r db =
     life_create_in_transaction step_table io (validate_step_request r)
       (\<lambda>s. le_life_id s = sc_life_id r \<and> ls_plan_id s = sc_plan_id r \<and> ls_ordinal s = sc_ordinal r
            \<and> ls_summary s = sc_summary r)
       (\<lambda>db. try_seq (li_require_life io (sc_life_id r) db)
               (try_seq (require_parent io (plan_rows db) (sc_plan_id r) (sc_life_id r))
               (try_bind (ordinal_claimed_in_plan io (sc_plan_id r) (sc_ordinal r) (sc_step_id r) db)
                 (\<lambda>claimed. require (\<not> claimed) li_entity_conflict))))
       (step_of_create now r) validate_step_shape db"

definition action_of_create :: "string \<Rightarrow> action_create_request \<Rightarrow> life_action" where
  "action_of_create now r =
     \<lparr>le_id = cc_action_id r, le_life_id = cc_life_id r, le_status = ACTION_STATUS_PROPOSED,
      le_revision = 1, le_created_at = now, le_updated_at = now, le_closed_at = None,
      le_version = 1, la_step_id = cc_step_id r, la_execution_class = cc_execution_class r,
      la_summary = cc_summary r\<rparr>"

definition create_action_in_transaction ::
    "life_intent_io \<Rightarrow> string \<Rightarrow> action_create_request \<Rightarrow> 'a life_intent_db_scheme
     \<Rightarrow> life_intent_error + life_action life_create_outcome \<times> 'a life_intent_db_scheme" where
  "create_action_in_transaction io now r db =
     life_create_in_transaction action_table io (validate_action_request r)
       (\<lambda>a. le_life_id a = cc_life_id r \<and> la_step_id a = cc_step_id r
            \<and> la_execution_class a = cc_execution_class r \<and> la_summary a = cc_summary r)
       (\<lambda>db. try_seq (li_require_life io (cc_life_id r) db)
               (require_parent io (step_rows db) (cc_step_id r) (cc_life_id r)))
       (action_of_create now r) validate_action_shape db"

section \<open>Transitions\<close>

definition transition_goal_in_transaction ::
    "life_intent_io \<Rightarrow> string \<Rightarrow> goal_transition_kind life_transition_request
     \<Rightarrow> 'a life_intent_db_scheme
     \<Rightarrow> life_intent_error + life_goal life_transition_outcome \<times> 'a life_intent_db_scheme" where
  "transition_goal_in_transaction = life_transition_in_transaction goal_table"

definition transition_plan_in_transaction ::
    "life_intent_io \<Rightarrow> string \<Rightarrow> plan_transition_kind life_transition_request
     \<Rightarrow> 'a life_intent_db_scheme
     \<Rightarrow> life_intent_error + life_plan life_transition_outcome \<times> 'a life_intent_db_scheme" where
  "transition_plan_in_transaction = life_transition_in_transaction plan_table"

definition transition_step_in_transaction ::
    "life_intent_io \<Rightarrow> string \<Rightarrow> step_transition_kind life_transition_request
     \<Rightarrow> 'a life_intent_db_scheme
     \<Rightarrow> life_intent_error + life_step life_transition_outcome \<times> 'a life_intent_db_scheme" where
  "transition_step_in_transaction = life_transition_in_transaction step_table"

definition transition_action_in_transaction ::
    "life_intent_io \<Rightarrow> string \<Rightarrow> action_transition_kind life_transition_request
     \<Rightarrow> 'a life_intent_db_scheme
     \<Rightarrow> life_intent_error + life_action life_transition_outcome \<times> 'a life_intent_db_scheme" where
  "transition_action_in_transaction = life_transition_in_transaction action_table"

section \<open>The repository\<close>

text \<open>Lock, immediate transaction, body, commit: the same seven lines in each of the eight writers.\<close>

definition life_intent_transaction ::
    "life_intent_io \<Rightarrow> ('a life_intent_db_scheme \<Rightarrow> life_intent_error + 'o \<times> 'a life_intent_db_scheme)
     \<Rightarrow> 'a life_intent_db_scheme \<Rightarrow> (life_intent_error + 'o) \<times> 'a life_intent_db_scheme" where
  "life_intent_transaction io body db =
     with_transaction (io LisLock \<and> io LisBegin) (io LisCommit) li_database body db"

definition create_goal ::
    "life_intent_io \<Rightarrow> string \<Rightarrow> goal_create_request \<Rightarrow> 'a life_intent_db_scheme
     \<Rightarrow> (life_intent_error + life_goal life_create_outcome) \<times> 'a life_intent_db_scheme" where
  "create_goal io now r db = life_intent_transaction io (create_goal_in_transaction io now r) db"

definition create_plan ::
    "life_intent_io \<Rightarrow> string \<Rightarrow> plan_create_request \<Rightarrow> 'a life_intent_db_scheme
     \<Rightarrow> (life_intent_error + life_plan life_create_outcome) \<times> 'a life_intent_db_scheme" where
  "create_plan io now r db = life_intent_transaction io (create_plan_in_transaction io now r) db"

definition create_step ::
    "life_intent_io \<Rightarrow> string \<Rightarrow> step_create_request \<Rightarrow> 'a life_intent_db_scheme
     \<Rightarrow> (life_intent_error + life_step life_create_outcome) \<times> 'a life_intent_db_scheme" where
  "create_step io now r db = life_intent_transaction io (create_step_in_transaction io now r) db"

definition create_action ::
    "life_intent_io \<Rightarrow> string \<Rightarrow> action_create_request \<Rightarrow> 'a life_intent_db_scheme
     \<Rightarrow> (life_intent_error + life_action life_create_outcome) \<times> 'a life_intent_db_scheme" where
  "create_action io now r db = life_intent_transaction io (create_action_in_transaction io now r) db"

definition transition_goal ::
    "life_intent_io \<Rightarrow> string \<Rightarrow> goal_transition_kind life_transition_request
     \<Rightarrow> 'a life_intent_db_scheme
     \<Rightarrow> (life_intent_error + life_goal life_transition_outcome) \<times> 'a life_intent_db_scheme" where
  "transition_goal io now r db =
     life_intent_transaction io (transition_goal_in_transaction io now r) db"

definition transition_plan ::
    "life_intent_io \<Rightarrow> string \<Rightarrow> plan_transition_kind life_transition_request
     \<Rightarrow> 'a life_intent_db_scheme
     \<Rightarrow> (life_intent_error + life_plan life_transition_outcome) \<times> 'a life_intent_db_scheme" where
  "transition_plan io now r db =
     life_intent_transaction io (transition_plan_in_transaction io now r) db"

definition transition_step ::
    "life_intent_io \<Rightarrow> string \<Rightarrow> step_transition_kind life_transition_request
     \<Rightarrow> 'a life_intent_db_scheme
     \<Rightarrow> (life_intent_error + life_step life_transition_outcome) \<times> 'a life_intent_db_scheme" where
  "transition_step io now r db =
     life_intent_transaction io (transition_step_in_transaction io now r) db"

definition transition_action ::
    "life_intent_io \<Rightarrow> string \<Rightarrow> action_transition_kind life_transition_request
     \<Rightarrow> 'a life_intent_db_scheme
     \<Rightarrow> (life_intent_error + life_action life_transition_outcome) \<times> 'a life_intent_db_scheme" where
  "transition_action io now r db =
     life_intent_transaction io (transition_action_in_transaction io now r) db"

section \<open>Deletions\<close>

text \<open>
  \<open>ON DELETE CASCADE\<close>: the rows that reference a deleted key go with it, and with them theirs. The
  events reference the entity they name.
\<close>

definition event_references ::
    "(life_intent_event \<Rightarrow> string option) \<Rightarrow> (string \<times> string) set \<Rightarrow> life_intent_event \<Rightarrow> bool" where
  "event_references column gone e \<longleftrightarrow>
     (case column e of None \<Rightarrow> False | Some i \<Rightarrow> (i, lv_life_id e) \<in> gone)"

definition cascade_actions ::
    "(life_action \<Rightarrow> bool) \<Rightarrow> 'a life_intent_db_scheme \<Rightarrow> 'a life_intent_db_scheme" where
  "cascade_actions p db =
     (let gone = life_keys (filter p (action_rows db)) in
      db\<lparr>action_rows := filter (\<lambda>a. \<not> p a) (action_rows db),
         life_event_rows := filter (\<lambda>e. \<not> event_references lv_action_id gone e)
                              (life_event_rows db)\<rparr>)"

definition cascade_steps ::
    "(life_step \<Rightarrow> bool) \<Rightarrow> 'a life_intent_db_scheme \<Rightarrow> 'a life_intent_db_scheme" where
  "cascade_steps p db =
     (let gone = life_keys (filter p (step_rows db)) in
      cascade_actions (\<lambda>a. (la_step_id a, le_life_id a) \<in> gone)
        (db\<lparr>step_rows := filter (\<lambda>s. \<not> p s) (step_rows db),
            life_event_rows := filter (\<lambda>e. \<not> event_references lv_step_id gone e)
                                 (life_event_rows db)\<rparr>))"

definition cascade_plans ::
    "(life_plan \<Rightarrow> bool) \<Rightarrow> 'a life_intent_db_scheme \<Rightarrow> 'a life_intent_db_scheme" where
  "cascade_plans p db =
     (let gone = life_keys (filter p (plan_rows db)) in
      cascade_steps (\<lambda>s. (ls_plan_id s, le_life_id s) \<in> gone)
        (db\<lparr>plan_rows := filter (\<lambda>q. \<not> p q) (plan_rows db),
            life_event_rows := filter (\<lambda>e. \<not> event_references lv_plan_id gone e)
                                 (life_event_rows db)\<rparr>))"

text \<open>
  Of a goal, the tables of this repository. The intents of \<^verbatim>\<open>storage/autonomy.rs\<close> reference
  \<open>life_goal\<close> too, with the same \<open>ON DELETE CASCADE\<close>: their part of the cascade is
  \<open>cascade_intents\<close> of the theory \<open>Autonomy_Store\<close>, and the deletion on the whole database is
  \<open>delete_goal_with_intents\<close> there.
\<close>

definition cascade_goals ::
    "(life_goal \<Rightarrow> bool) \<Rightarrow> 'a life_intent_db_scheme \<Rightarrow> 'a life_intent_db_scheme" where
  "cascade_goals p db =
     (let gone = life_keys (filter p (goal_rows db)) in
      cascade_plans (\<lambda>q. (lp_goal_id q, le_life_id q) \<in> gone)
        (db\<lparr>goal_rows := filter (\<lambda>g. \<not> p g) (goal_rows db),
            life_event_rows := filter (\<lambda>e. \<not> event_references lv_goal_id gone e)
                                 (life_event_rows db)\<rparr>))"

text \<open>\<open>DELETE FROM \<dots> WHERE id = ?1 AND life_id = ?2\<close>, committed on its own.\<close>

definition life_delete ::
    "('a life_intent_db_scheme \<Rightarrow> 'e life_entity_scheme list)
     \<Rightarrow> (('e life_entity_scheme \<Rightarrow> bool) \<Rightarrow> 'a life_intent_db_scheme \<Rightarrow> 'a life_intent_db_scheme)
     \<Rightarrow> life_intent_io \<Rightarrow> string \<Rightarrow> string \<Rightarrow> 'a life_intent_db_scheme
     \<Rightarrow> (life_intent_error + bool) \<times> 'a life_intent_db_scheme" where
  "life_delete rows cascade io life i db =
     (case li_validate_lookup_arguments life i of
        Inl e \<Rightarrow> (Inl e, db)
      | Inr _ \<Rightarrow>
          if \<not> io LisLock \<or> \<not> io LisDelete then (Inl li_database, db)
          else let p = (\<lambda>e. le_id e = i \<and> le_life_id e = life)
               in (Inr (length (filter p (rows db)) > 0), cascade p db))"

definition delete_goal ::
    "life_intent_io \<Rightarrow> string \<Rightarrow> string \<Rightarrow> 'a life_intent_db_scheme
     \<Rightarrow> (life_intent_error + bool) \<times> 'a life_intent_db_scheme" where
  "delete_goal = life_delete goal_rows cascade_goals"

definition delete_plan ::
    "life_intent_io \<Rightarrow> string \<Rightarrow> string \<Rightarrow> 'a life_intent_db_scheme
     \<Rightarrow> (life_intent_error + bool) \<times> 'a life_intent_db_scheme" where
  "delete_plan = life_delete plan_rows cascade_plans"

definition delete_step ::
    "life_intent_io \<Rightarrow> string \<Rightarrow> string \<Rightarrow> 'a life_intent_db_scheme
     \<Rightarrow> (life_intent_error + bool) \<times> 'a life_intent_db_scheme" where
  "delete_step = life_delete step_rows cascade_steps"

definition delete_action ::
    "life_intent_io \<Rightarrow> string \<Rightarrow> string \<Rightarrow> 'a life_intent_db_scheme
     \<Rightarrow> (life_intent_error + bool) \<times> 'a life_intent_db_scheme" where
  "delete_action = life_delete action_rows cascade_actions"

section \<open>Lookups and lists\<close>

definition life_find ::
    "('a life_intent_db_scheme \<Rightarrow> 'e life_entity_scheme list) \<Rightarrow> life_intent_io \<Rightarrow> string \<Rightarrow> string
     \<Rightarrow> 'a life_intent_db_scheme \<Rightarrow> life_intent_error + 'e life_entity_scheme option" where
  "life_find rows io life i db =
     try_seq (li_validate_lookup_arguments life i)
     (if \<not> io LisLock then Inl li_database
      else life_query (io LisSelectEntity)
             (find (\<lambda>e. le_id e = i \<and> le_life_id e = life) (rows db)))"

definition find_goal ::
    "life_intent_io \<Rightarrow> string \<Rightarrow> string \<Rightarrow> 'a life_intent_db_scheme
     \<Rightarrow> life_intent_error + life_goal option" where
  "find_goal = life_find goal_rows"

definition find_plan ::
    "life_intent_io \<Rightarrow> string \<Rightarrow> string \<Rightarrow> 'a life_intent_db_scheme
     \<Rightarrow> life_intent_error + life_plan option" where
  "find_plan = life_find plan_rows"

definition find_step ::
    "life_intent_io \<Rightarrow> string \<Rightarrow> string \<Rightarrow> 'a life_intent_db_scheme
     \<Rightarrow> life_intent_error + life_step option" where
  "find_step = life_find step_rows"

definition find_action ::
    "life_intent_io \<Rightarrow> string \<Rightarrow> string \<Rightarrow> 'a life_intent_db_scheme
     \<Rightarrow> life_intent_error + life_action option" where
  "find_action = life_find action_rows"

definition find_life_event ::
    "life_intent_io \<Rightarrow> string \<Rightarrow> string \<Rightarrow> 'a life_intent_db_scheme
     \<Rightarrow> life_intent_error + life_intent_event option" where
  "find_life_event io life event db =
     try_seq (validate_event_lookup_arguments life event)
     (if \<not> io LisLock then Inl li_database
      else life_query (io LisSelectEvent)
             (find (\<lambda>e. lv_life_id e = life \<and> lv_event_id e = event) (life_event_rows db)))"

text \<open>\<open>ORDER BY created_at, id\<close>; the steps are in the order of their ordinals.\<close>

definition by_creation :: "'e life_entity_scheme list \<Rightarrow> 'e life_entity_scheme list" where
  "by_creation rows = sort_key (\<lambda>e. (le_created_at e, le_id e)) rows"

definition list_goals ::
    "life_intent_io \<Rightarrow> string \<Rightarrow> 'a life_intent_db_scheme \<Rightarrow> life_intent_error + life_goal list" where
  "list_goals io life db =
     try_seq (validate_list_arguments life None)
     (if \<not> io LisLock then Inl li_database
      else life_query (io LisList) (by_creation (filter (\<lambda>g. le_life_id g = life) (goal_rows db))))"

definition list_active_goals_for_autonomy_tick ::
    "life_intent_io \<Rightarrow> string \<Rightarrow> int \<Rightarrow> 'a life_intent_db_scheme
     \<Rightarrow> life_intent_error + life_goal list" where
  "list_active_goals_for_autonomy_tick io life limit db =
     try_seq (validate_list_arguments life None)
     (if limit < 1 then Inl li_invalid_argument
      else life_query (io LisList)
             (take (nat limit)
               (by_creation (filter (\<lambda>g. le_life_id g = life \<and> le_status g = GOAL_STATUS_ACTIVE)
                               (goal_rows db)))))"

definition list_plans ::
    "life_intent_io \<Rightarrow> string \<Rightarrow> string \<Rightarrow> 'a life_intent_db_scheme
     \<Rightarrow> life_intent_error + life_plan list" where
  "list_plans io life goal db =
     try_seq (validate_list_arguments life (Some goal))
     (if \<not> io LisLock then Inl li_database
      else life_query (io LisList)
             (by_creation (filter (\<lambda>p. le_life_id p = life \<and> lp_goal_id p = goal) (plan_rows db))))"

definition list_steps ::
    "life_intent_io \<Rightarrow> string \<Rightarrow> string \<Rightarrow> 'a life_intent_db_scheme
     \<Rightarrow> life_intent_error + life_step list" where
  "list_steps io life plan db =
     try_seq (validate_list_arguments life (Some plan))
     (if \<not> io LisLock then Inl li_database
      else life_query (io LisList)
             (sort_key (\<lambda>s. (ls_ordinal s, le_id s))
               (filter (\<lambda>s. le_life_id s = life \<and> ls_plan_id s = plan) (step_rows db))))"

definition list_actions ::
    "life_intent_io \<Rightarrow> string \<Rightarrow> string \<Rightarrow> 'a life_intent_db_scheme
     \<Rightarrow> life_intent_error + life_action list" where
  "list_actions io life step db =
     try_seq (validate_list_arguments life (Some step))
     (if \<not> io LisLock then Inl li_database
      else life_query (io LisList)
             (by_creation (filter (\<lambda>a. le_life_id a = life \<and> la_step_id a = step)
                             (action_rows db))))"

end
