(* ===== verification/Revision_Store.thy ===== *)
theory Revision_Store
  imports Sql_Table
begin

text \<open>
  The contract of a revisioned, event-sourced store: every mutation names the revision it builds
  on, is committed together with one piece of evidence, and is recognised when it is sent again.
  The emotion, relationship and screen-consent repositories promise it; the interpretations on
  their models stand in the theories of the repositories.
\<close>

section \<open>Runs of an operation\<close>

fun run_all :: "('db \<Rightarrow> 't \<Rightarrow> 'r \<times> 'db) \<Rightarrow> 'db \<Rightarrow> 't list \<Rightarrow> 'r list \<times> 'db" where
  "run_all step db [] = ([], db)"
| "run_all step db (t # ts) =
     (let (r, db') = step db t; (rs, db'') = run_all step db' ts in (r # rs, db''))"

lemma run_all_Cons:
  "run_all step db (t # ts) =
     (fst (step db t) # fst (run_all step (snd (step db t)) ts),
      snd (run_all step (snd (step db t)) ts))"
  by (simp add: split_def Let_def)

lemma length_run_all [simp]: "length (fst (run_all step db ts)) = length ts"
  by (induction ts arbitrary: db) (simp_all add: run_all_Cons del: run_all.simps(2))

lemma run_all_append:
  "snd (run_all step db (ts @ us)) = snd (run_all step (snd (run_all step db ts)) us)"
  by (induction ts arbitrary: db) (simp_all add: run_all_Cons del: run_all.simps(2))

section \<open>Optimistic concurrency\<close>

locale revisioned_store =
  fixes step :: "'db \<Rightarrow> 't \<Rightarrow> ('e + 'o) \<times> 'db"
    and revision :: "'db \<Rightarrow> 'k \<Rightarrow> int option"
    and key :: "'t \<Rightarrow> 'k"
    and expected :: "'t \<Rightarrow> int"
    and fresh :: "'o \<Rightarrow> bool"
    and inv :: "'db \<Rightarrow> bool"
  assumes error_frame: "step db t = (Inl e, db') \<Longrightarrow> db' = db"
    and replay_frame: "step db t = (Inr out, db') \<Longrightarrow> \<not> fresh out \<Longrightarrow> db' = db"
    and fresh_expected:
      "inv db \<Longrightarrow> step db t = (Inr out, db') \<Longrightarrow> fresh out \<Longrightarrow>
       revision db (key t) = Some (expected t)"
    and fresh_revision:
      "inv db \<Longrightarrow> step db t = (Inr out, db') \<Longrightarrow> fresh out \<Longrightarrow>
       revision db' = (revision db)(key t \<mapsto> expected t + 1)"
    and fresh_inv: "inv db \<Longrightarrow> step db t = (Inr out, db') \<Longrightarrow> fresh out \<Longrightarrow> inv db'"
begin

definition is_fresh :: "'e + 'o \<Rightarrow> bool" where
  "is_fresh r \<longleftrightarrow> (case r of Inl e \<Rightarrow> False | Inr out \<Rightarrow> fresh out)"

lemma step_frame:
  assumes "\<not> is_fresh (fst (step db t))"
  shows "snd (step db t) = db"
proof (cases "step db t")
  case (Pair r db')
  then show ?thesis
    using assms error_frame [of db t] replay_frame [of db t]
    by (cases r) (auto simp: is_fresh_def)
qed

lemma step_inv: "inv db \<Longrightarrow> inv (snd (step db t))"
proof (cases "is_fresh (fst (step db t))")
  case True
  assume "inv db"
  moreover from True obtain out where "step db t = (Inr out, snd (step db t))" "fresh out"
    by (cases "step db t"; cases "fst (step db t)") (auto simp: is_fresh_def)
  ultimately show ?thesis by (metis fresh_inv)
next
  case False
  then show "inv db \<Longrightarrow> ?thesis" by (simp add: step_frame)
qed

lemma run_inv: "inv db \<Longrightarrow> inv (snd (run_all step db ts))"
  by (induction ts arbitrary: db) (simp_all add: run_all_Cons step_inv del: run_all.simps(2))

lemma step_fresh:
  assumes "inv db" and "is_fresh (fst (step db t))"
  shows "revision db (key t) = Some (expected t)"
    and "revision (snd (step db t)) = (revision db)(key t \<mapsto> expected t + 1)"
proof -
  from assms(2) obtain out where "step db t = (Inr out, snd (step db t))" "fresh out"
    by (cases "step db t"; cases "fst (step db t)") (auto simp: is_fresh_def)
  with assms(1) show "revision db (key t) = Some (expected t)"
    and "revision (snd (step db t)) = (revision db)(key t \<mapsto> expected t + 1)"
    by (metis fresh_expected, metis fresh_revision)
qed

lemma step_revision:
  assumes "inv db"
  shows "revision (snd (step db t)) =
    (if is_fresh (fst (step db t)) then (revision db)(key t \<mapsto> expected t + 1) else revision db)"
  using step_fresh(2) [OF assms] by (simp add: step_frame)

text \<open>The number of fresh commits of a run on one key.\<close>

fun fresh_count :: "'k \<Rightarrow> 't list \<Rightarrow> ('e + 'o) list \<Rightarrow> nat" where
  "fresh_count k (t # ts) (r # rs) =
     (if key t = k \<and> is_fresh r then 1 else 0) + fresh_count k ts rs"
| "fresh_count k _ _ = 0"

lemma run_revision:
  assumes "inv db" and "revision db k = Some n"
  shows "revision (snd (run_all step db ts)) k =
    Some (n + int (fresh_count k ts (fst (run_all step db ts))))"
  using assms
proof (induction ts arbitrary: db n)
  case Nil
  then show ?case by simp
next
  case (Cons t ts)
  let ?db' = "snd (step db t)"
  from Cons.prems have inv': "inv ?db'" by (simp add: step_inv)
  show ?case
  proof (cases "key t = k \<and> is_fresh (fst (step db t))")
    case True
    with Cons.prems step_fresh [of db t]
    have "expected t = n" and "revision ?db' k = Some (n + 1)" by auto
    with True inv' show ?thesis
      by (simp add: Cons.IH run_all_Cons del: run_all.simps(2))
  next
    case False
    with Cons.prems have "revision ?db' k = Some n"
      by (auto simp: step_revision)
    with False inv' show ?thesis
      by (auto simp: Cons.IH run_all_Cons simp del: run_all.simps(2))
  qed
qed

text \<open>A revision is spent once: a transition that builds on an older one never commits.\<close>

lemma stale_not_fresh:
  assumes "inv db" and "revision db (key t) = Some n" and "expected t \<noteq> n"
  shows "\<not> is_fresh (fst (step db t)) \<and> snd (step db t) = db"
  using assms step_fresh(1) [of db t] step_frame [of db t] by auto

lemma no_lost_update:
  assumes "inv db" and "is_fresh (fst (step db t))"
    and "key u = key t" and "expected u \<le> expected t"
  shows "\<not> is_fresh (fst (step (snd (run_all step (snd (step db t)) ts)) u))"
proof -
  let ?db1 = "snd (step db t)"
  have inv1: "inv ?db1" using assms(1) by (rule step_inv)
  have "revision ?db1 (key t) = Some (expected t + 1)"
    using step_fresh(2) [OF assms(1,2)] by simp
  from run_revision [OF inv1 this, of ts]
  have "\<exists>m. revision (snd (run_all step ?db1 ts)) (key u) = Some m \<and> expected u < m"
    using assms(3,4) by force
  then show ?thesis
    using stale_not_fresh [OF run_inv [OF inv1], where t = u] by force
qed

end

section \<open>Evidence and replay\<close>

text \<open>
  A store that also keeps the evidence of every commit. \<open>recorded db t\<close>: the evidence of \<open>t\<close> is in
  the tables; \<open>healthy t\<close>: SQLite executes the statements of \<open>t\<close>. Evidence stays, and a recorded
  transition that is sent again is answered from the evidence and changes nothing.
\<close>

locale evidence_store = revisioned_store step revision key expected fresh inv
  for step :: "'db \<Rightarrow> 't \<Rightarrow> ('e + 'o) \<times> 'db"
    and revision :: "'db \<Rightarrow> 'k \<Rightarrow> int option"
    and key :: "'t \<Rightarrow> 'k"
    and expected :: "'t \<Rightarrow> int"
    and fresh :: "'o \<Rightarrow> bool"
    and inv :: "'db \<Rightarrow> bool" +
  fixes recorded :: "'db \<Rightarrow> 't \<Rightarrow> bool"
    and healthy :: "'t \<Rightarrow> bool"
    and same_request :: "'t \<Rightarrow> 't \<Rightarrow> bool"
  assumes fresh_records:
      "inv db \<Longrightarrow> step db t = (Inr out, db') \<Longrightarrow> fresh out \<Longrightarrow> recorded db' t"
    and fresh_keeps_records:
      "inv db \<Longrightarrow> step db t = (Inr out, db') \<Longrightarrow> fresh out \<Longrightarrow> recorded db u \<Longrightarrow> recorded db' u"
    and same_request_recorded: "recorded db t \<Longrightarrow> same_request u t \<Longrightarrow> recorded db u"
    and recorded_replays:
      "inv db \<Longrightarrow> recorded db t \<Longrightarrow> healthy t \<Longrightarrow>
       \<exists>out. step db t = (Inr out, db) \<and> \<not> fresh out"
begin

lemma step_keeps_records:
  assumes "inv db" and "recorded db u"
  shows "recorded (snd (step db t)) u"
proof (cases "is_fresh (fst (step db t))")
  case True
  then obtain out where "step db t = (Inr out, snd (step db t))" "fresh out"
    by (cases "step db t"; cases "fst (step db t)") (auto simp: is_fresh_def)
  with assms show ?thesis by (metis fresh_keeps_records)
next
  case False
  with assms(2) show ?thesis by (simp add: step_frame)
qed

lemma run_keeps_records:
  "inv db \<Longrightarrow> recorded db u \<Longrightarrow> recorded (snd (run_all step db ts)) u"
  by (induction ts arbitrary: db)
    (simp_all add: run_all_Cons step_inv step_keeps_records del: run_all.simps(2))

text \<open>
  Exactly once: after a commit, whatever ran in between, the same request is answered without a
  second mutation.
\<close>

lemma exactly_once:
  assumes "inv db" and "step db t = (Inr out, db1)" and "fresh out"
    and "same_request u t" and "healthy u"
  shows "\<exists>out'. step (snd (run_all step db1 ts)) u = (Inr out', snd (run_all step db1 ts))
           \<and> \<not> fresh out'"
proof -
  have "inv db1" using assms(1-3) by (rule fresh_inv)
  moreover have "recorded db1 u"
    using fresh_records [OF assms(1-3)] assms(4) by (rule same_request_recorded)
  ultimately show ?thesis
    using assms(5) by (blast intro: recorded_replays run_inv run_keeps_records)
qed

end

end
