(* ===== verification/Life_Intent_Ledger.thy ===== *)
theory Life_Intent_Ledger
  imports Life_Intent_Repository Revision_Store
begin

text \<open>
  What the goal, plan, step and action tables promise: a lifecycle per kind of entity, stated once
  as a relation on statuses, and the contract of a table (\<open>locale entity_table\<close>) from which the
  outcome of a transition and the ledger property follow for all four.
\<close>

section \<open>The lifecycles\<close>

definition life_initial :: "string \<Rightarrow> string" where
  "life_initial kind =
     (if kind = ''goal'' then ''active'' else if kind = ''plan'' then ''draft''
      else if kind = ''step'' then ''pending'' else ''proposed'')"

definition life_edge :: "string \<Rightarrow> string \<Rightarrow> string \<Rightarrow> bool" where
  "life_edge kind s t \<longleftrightarrow>
     (kind, s, t) \<in>
       {(''goal'', ''active'', ''completed''), (''goal'', ''active'', ''cancelled''),
        (''plan'', ''draft'', ''active''), (''plan'', ''active'', ''completed''),
        (''plan'', ''draft'', ''cancelled''), (''plan'', ''active'', ''cancelled''),
        (''step'', ''pending'', ''completed''), (''step'', ''pending'', ''skipped''),
        (''step'', ''pending'', ''cancelled''),
        (''action'', ''proposed'', ''dismissed'')}"

definition life_open :: "string \<Rightarrow> bool" where
  "life_open s \<longleftrightarrow> s \<in> {''draft'', ''active'', ''pending'', ''proposed''}"

lemma life_edge_open: "life_edge kind s t \<Longrightarrow> life_open s"
  by (auto simp: life_edge_def life_open_def)

lemma life_initial_open [simp]: "life_open (life_initial kind)"
  by (simp add: life_open_def life_initial_def)

text \<open>An entity is its creation with its events replayed on it.\<close>

definition life_original :: "string \<Rightarrow> 'e life_entity_scheme \<Rightarrow> 'e life_entity_scheme" where
  "life_original kind e =
     e\<lparr>le_status := life_initial kind, le_revision := 1, le_updated_at := le_created_at e,
       le_closed_at := None\<rparr>"

fun life_replay ::
    "string \<Rightarrow> life_intent_event list \<Rightarrow> 'e life_entity_scheme \<Rightarrow> 'e life_entity_scheme option" where
  "life_replay kind [] e = Some e"
| "life_replay kind (v # vs) e =
     (if lv_from_status v = le_status e \<and> lv_expected_revision v = le_revision e
         \<and> lv_applied_revision v = le_revision e + 1
         \<and> life_edge kind (lv_from_status v) (lv_to_status v)
      then life_replay kind vs
             (life_after (lv_occurred_at v) (lv_applied_revision v) (lv_to_status v)
               (\<not> life_open (lv_to_status v)) e)
      else None)"

lemma life_replay_append:
  "life_replay kind (vs @ ws) e = Option.bind (life_replay kind vs e) (life_replay kind ws)"
  by (induction vs arbitrary: e) auto

definition names_entity :: "string \<Rightarrow> string \<Rightarrow> life_intent_event \<Rightarrow> bool" where
  "names_entity kind i v \<longleftrightarrow> lv_entity_kind v = kind \<and> event_target_matches v kind i"

definition life_history :: "string \<Rightarrow> string \<Rightarrow> 'a life_intent_db_scheme \<Rightarrow> life_intent_event list" where
  "life_history kind i db = filter (names_entity kind i) (life_event_rows db)"

definition life_projects ::
    "string \<Rightarrow> 'e life_entity_scheme \<Rightarrow> 'a life_intent_db_scheme \<Rightarrow> bool" where
  "life_projects kind e db \<longleftrightarrow>
     life_replay kind (life_history kind (le_id e) db) (life_original kind e) = Some e"

lemma life_after_simps [simp]:
  "le_id (life_after now n t c e) = le_id e" "le_life_id (life_after now n t c e) = le_life_id e"
  "le_status (life_after now n t c e) = t" "le_revision (life_after now n t c e) = n"
  "le_updated_at (life_after now n t c e) = now" "le_created_at (life_after now n t c e) = le_created_at e"
  "le_closed_at (life_after now n t c e) = (if c then Some now else None)"
  "le_version (life_after now n t c e) = le_version e"
  "life_key (life_after now n t c e) = life_key e"
  "life_original kind (life_after now n t c e) = life_original kind e"
  by (simp_all add: life_after_def life_original_def life_key_def)

lemma life_original_simps [simp]:
  "le_id (life_original kind e) = le_id e" "le_status (life_original kind e) = life_initial kind"
  "le_revision (life_original kind e) = 1" "le_closed_at (life_original kind e) = None"
  by (simp_all add: life_original_def)

lemma life_original_closed: "le_closed_at (life_original kind e) = None"
  by simp

lemma life_replay_facts:
  assumes "life_replay kind vs e = Some f"
  shows "le_revision f = le_revision e + int (length vs)
    \<and> le_status f = (if vs = [] then le_status e else lv_to_status (last vs))
    \<and> (vs \<noteq> [] \<longrightarrow> le_closed_at f =
         (if life_open (le_status f) then None else Some (lv_occurred_at (last vs))))"
  using assms
proof (induction vs arbitrary: e)
  case (Cons v vs)
  then have rep: "life_replay kind vs (life_after (lv_occurred_at v) (lv_applied_revision v)
      (lv_to_status v) (\<not> life_open (lv_to_status v)) e) = Some f"
    and step: "lv_applied_revision v = le_revision e + 1" by (auto split: if_splits)
  show ?case
  proof (cases vs)
    case Nil
    with rep step show ?thesis by auto
  next
    case (Cons w ws)
    with Cons.IH [OF rep] step show ?thesis by auto
  qed
qed simp

section \<open>The contract of a table\<close>

lemma life_query_Inr_iff [simp]: "life_query b x = Inr y \<longleftrightarrow> b \<and> y = x"
  by (auto simp: life_query_def)

lemma life_query_True [simp]: "life_query True x = Inr x"
  by (simp add: life_query_def)

lemma li_next_revision_Inr:
  "li_next_revision n = Inr m \<longleftrightarrow> in_i64 (n + 1) \<and> m = n + 1"
  by (simp add: li_next_revision_def checked_add_Some_iff)

definition life_request_ok :: "'k life_transition_request \<Rightarrow> bool" where
  "life_request_ok r \<longleftrightarrow> validate_transition_request r = Inr ()"

lemma life_request_revision:
  assumes "life_request_ok r"
  shows "1 \<le> tq_expected_revision r" and "tq_expected_revision r < i64_max"
    and "li_next_revision (tq_expected_revision r) = Inr (tq_expected_revision r + 1)"
  using assms
  by (auto simp: life_request_ok_def validate_transition_request_def i64_bounds
      validate_transition_request_fields_def check_all_Inr_iff li_next_revision_Inr)

lemma life_event_insert_Inr:
  "life_event_insert e db = Inr db' \<longleftrightarrow>
     life_event_row_check e \<and> lv_event_id e \<notin> lv_event_id ` set (life_event_rows db)
     \<and> fk_optional (lv_goal_id e) (lv_life_id e) (life_keys (goal_rows db))
     \<and> fk_optional (lv_plan_id e) (lv_life_id e) (life_keys (plan_rows db))
     \<and> fk_optional (lv_step_id e) (lv_life_id e) (life_keys (step_rows db))
     \<and> fk_optional (lv_action_id e) (lv_life_id e) (life_keys (action_rows db))
     \<and> db' = db\<lparr>life_event_rows := life_event_rows db @ [e]\<rparr>"
  by (auto simp: life_event_insert_def)

lemma life_keys_after [simp]:
  "life_keys (map (\<lambda>e. if p e then life_after now n t c e else e) rows) = life_keys rows"
  by (auto simp: life_keys_def image_iff)

text \<open>The event of a transition, and the database after it.\<close>

definition transition_event ::
    "('e, 'k, 'a) entity_table \<Rightarrow> string \<Rightarrow> 'k life_transition_request \<Rightarrow> string \<Rightarrow> string
     \<Rightarrow> life_intent_event" where
  "transition_event T now r from_status to_status =
     build_event (tq_event_id r) (tq_life_id r) (lt_target T (tq_entity_id r)) from_status to_status
       (tq_expected_revision r) (tq_expected_revision r + 1) now"

definition transitioned_entity ::
    "string \<Rightarrow> 'k life_transition_request \<Rightarrow> string \<Rightarrow> 'e life_entity_scheme
     \<Rightarrow> 'e life_entity_scheme" where
  "transitioned_entity now r to_status e =
     life_after now (tq_expected_revision r + 1) to_status (\<not> life_open to_status) e"

lemma transitioned_keys [simp]:
  "life_keys (map (\<lambda>e. if le_id e = i then transitioned_entity now r t e else e) rows)
     = life_keys rows"
  unfolding transitioned_entity_def by simp

definition transitioned_db ::
    "('e, 'k, 'a) entity_table \<Rightarrow> string \<Rightarrow> 'k life_transition_request \<Rightarrow> string \<Rightarrow> string
     \<Rightarrow> 'a life_intent_db_scheme \<Rightarrow> 'a life_intent_db_scheme" where
  "transitioned_db T now r from_status to_status db =
     (lt_set_rows T
        (map (\<lambda>e. if le_id e = tq_entity_id r then transitioned_entity now r to_status e else e)
          (lt_rows T db)) db)
     \<lparr>life_event_rows := life_event_rows db @ [transition_event T now r from_status to_status]\<rparr>"

lemma build_event_simps [simp]:
  "lv_event_id (build_event i l tg s t n m now) = i"
  "lv_life_id (build_event i l tg s t n m now) = l"
  "lv_from_status (build_event i l tg s t n m now) = s"
  "lv_to_status (build_event i l tg s t n m now) = t"
  "lv_expected_revision (build_event i l tg s t n m now) = n"
  "lv_applied_revision (build_event i l tg s t n m now) = m"
  "lv_occurred_at (build_event i l tg s t n m now) = now"
  "lv_entity_kind (build_event i l tg s t n m now) = fst (target_columns tg)"
  "lv_actor_kind (build_event i l tg s t n m now) = ''user_explicit''"
  "lv_event_version (build_event i l tg s t n m now) = 1"
  by (simp_all add: build_event_def split_def life_intent_constants)

definition table_inv :: "('e, 'k, 'a) entity_table \<Rightarrow> 'a life_intent_db_scheme \<Rightarrow> bool" where
  "table_inv T db \<longleftrightarrow>
     distinct (map le_id (lt_rows T db))
     \<and> (\<forall>e \<in> set (lt_rows T db). lt_validate T e = Inr () \<and> lt_check T e
          \<and> le_life_id e \<in> set (life_identity db) \<and> lt_parent T e db
          \<and> life_projects (lt_kind T) e db)"

section \<open>Events name rows\<close>

definition event_fks :: "'a life_intent_db_scheme \<Rightarrow> life_intent_event \<Rightarrow> bool" where
  "event_fks db v \<longleftrightarrow>
     fk_optional (lv_goal_id v) (lv_life_id v) (life_keys (goal_rows db))
     \<and> fk_optional (lv_plan_id v) (lv_life_id v) (life_keys (plan_rows db))
     \<and> fk_optional (lv_step_id v) (lv_life_id v) (life_keys (step_rows db))
     \<and> fk_optional (lv_action_id v) (lv_life_id v) (life_keys (action_rows db))"

definition life_events_inv :: "'a life_intent_db_scheme \<Rightarrow> bool" where
  "life_events_inv db \<longleftrightarrow>
     distinct (map lv_event_id (life_event_rows db))
     \<and> (\<forall>v \<in> set (life_event_rows db). life_event_row_check v \<and> event_fks db v)"

lemma fk_optional_mono: "fk_optional i l K \<Longrightarrow> K \<subseteq> K' \<Longrightarrow> fk_optional i l K'"
  by (auto simp: fk_optional_def split: option.splits)

lemma life_events_inv_cong:
  assumes "life_event_rows db' = life_event_rows db"
    and "life_keys (goal_rows db) \<subseteq> life_keys (goal_rows db')"
    and "life_keys (plan_rows db) \<subseteq> life_keys (plan_rows db')"
    and "life_keys (step_rows db) \<subseteq> life_keys (step_rows db')"
    and "life_keys (action_rows db) \<subseteq> life_keys (action_rows db')"
    and "life_events_inv db"
  shows "life_events_inv db'"
  using assms(1,6) fk_optional_mono assms(2-5) unfolding life_events_inv_def event_fks_def
  by (metis (no_types, lifting))

lemma life_events_inv_insert:
  assumes "life_events_inv db" and "life_event_insert v db = Inr db'"
  shows "life_events_inv db'"
  using assms by (auto simp: life_event_insert_Inr life_events_inv_def event_fks_def)

lemma table_inv_mono:
  assumes "table_inv T db"
    and "lt_rows T db' = lt_rows T db" and "life_identity db' = life_identity db"
    and "\<And>e. lt_parent T e db \<Longrightarrow> lt_parent T e db'"
    and "\<And>i. life_history (lt_kind T) i db' = life_history (lt_kind T) i db"
  shows "table_inv T db'"
  using assms by (simp add: table_inv_def life_projects_def)

text \<open>Events name rows: an identity without a row has no history.\<close>

lemma event_names_row:
  assumes "life_events_inv db" and "v \<in> set (life_event_rows db)"
  shows "names_entity ''goal'' i v \<Longrightarrow> (i, lv_life_id v) \<in> life_keys (goal_rows db)"
    and "names_entity ''plan'' i v \<Longrightarrow> (i, lv_life_id v) \<in> life_keys (plan_rows db)"
    and "names_entity ''step'' i v \<Longrightarrow> (i, lv_life_id v) \<in> life_keys (step_rows db)"
    and "names_entity ''action'' i v \<Longrightarrow> (i, lv_life_id v) \<in> life_keys (action_rows db)"
  using assms
  by (auto simp: life_events_inv_def event_fks_def fk_optional_def names_entity_def
      event_target_matches_def life_intent_constants)

lemma no_row_no_history:
  assumes "life_events_inv db"
  shows "i \<notin> le_id ` set (goal_rows db) \<Longrightarrow> life_history ''goal'' i db = []"
    and "i \<notin> le_id ` set (plan_rows db) \<Longrightarrow> life_history ''plan'' i db = []"
    and "i \<notin> le_id ` set (step_rows db) \<Longrightarrow> life_history ''step'' i db = []"
    and "i \<notin> le_id ` set (action_rows db) \<Longrightarrow> life_history ''action'' i db = []"
  using event_names_row [OF assms]
  by (fastforce simp: life_history_def filter_empty_conv life_keys_def life_key_def)+

section \<open>The locale\<close>

locale entity_table =
  fixes T :: "('e, 'k, 'a) entity_table"
  assumes rows_set [simp]: "lt_rows T (lt_set_rows T rows db) = rows"
    and rows_events [simp]: "lt_rows T (db\<lparr>life_event_rows := events\<rparr>) = lt_rows T db"
    and events_set [simp]: "life_event_rows (lt_set_rows T rows db) = life_event_rows db"
    and lives_set [simp]: "life_identity (lt_set_rows T rows db) = life_identity db"
    and parent_set [simp]: "lt_parent T e (lt_set_rows T rows db) = lt_parent T e db"
    and parent_events [simp]: "lt_parent T e (db\<lparr>life_event_rows := events\<rparr>) = lt_parent T e db"
    and parent_after [simp]: "lt_parent T (life_after now n t c e) db = lt_parent T e db"
    and target_kind [simp]: "fst (target_columns (lt_target T i)) = lt_kind T"
    and target_matches [simp]:
      "event_target_matches (build_event ev l (lt_target T i) s t n m now) (lt_kind T) j \<longleftrightarrow> i = j"
    and target_edge: "lt_target_status T k s = Some t \<Longrightarrow> life_edge (lt_kind T) s t"
    and target_to: "lt_target_status T k s = Some t \<Longrightarrow> lt_to_status T k = t"
    and target_closes: "lt_target_status T k s = Some t \<Longrightarrow> lt_closes T k \<longleftrightarrow> \<not> life_open t"
    and fks_set: "life_keys rows = life_keys (lt_rows T db) \<Longrightarrow>
      event_fks (lt_set_rows T rows db) v = event_fks db v"
    and fks_names: "event_fks db v \<Longrightarrow> names_entity (lt_kind T) i v \<Longrightarrow>
      (i, lv_life_id v) \<in> life_keys (lt_rows T db)"
begin

lemma select_transitioned:
  assumes "life_select T (tq_entity_id r) db = Some c"
  shows "life_select T (tq_entity_id r) (transitioned_db T now r s t db)
    = Some (transitioned_entity now r t c)"
  using assms find_Some_mem [OF assms [unfolded life_select_def]]
  by (simp add: life_select_def transitioned_db_def find_map_key [where k = le_id]
      transitioned_entity_def)

lemma load_for_transition_Inr:
  "load_for_transition T b life i db = Inr c \<longleftrightarrow>
     b \<and> life_select T i db = Some c \<and> le_life_id c = life \<and> lt_validate T c = Inr ()"
  by (auto simp: load_for_transition_def try_bind_Inr_iff try_seq_Inr_iff split: option.splits)

lemma life_update_unique:
  assumes "distinct (map le_id (lt_rows T db))"
    and sel: "life_select T (tq_entity_id r) db = Some c"
    and c: "le_life_id c = tq_life_id r" "le_revision c = tq_expected_revision r" "le_status c = s"
    and t: "lt_closes T (tq_kind r) \<longleftrightarrow> \<not> life_open t"
  shows "life_update T now (tq_expected_revision r + 1) s t r db =
    (if lt_check T (transitioned_entity now r t c)
     then Some (1, lt_set_rows T (map (\<lambda>e. if le_id e = tq_entity_id r
                   then transitioned_entity now r t e else e) (lt_rows T db)) db)
     else None)"
proof -
  let ?p = "\<lambda>e. le_id e = tq_entity_id r \<and> le_life_id e = tq_life_id r
      \<and> le_revision e = tq_expected_revision r \<and> le_status e = s"
  have only: "e = c" if "e \<in> set (lt_rows T db)" "le_id e = tq_entity_id r" for e
    using find_key_SomeI [OF assms(1) that] sel by (simp add: life_select_def)
  have c_mem: "c \<in> set (lt_rows T db)" "le_id c = tq_entity_id r"
    using find_Some_mem [OF sel [unfolded life_select_def]] by simp_all
  have count: "length (filter ?p (lt_rows T db)) = 1"
    using count_key_guard [OF assms(1) sel [unfolded life_select_def],
        of "\<lambda>e. le_life_id e = tq_life_id r \<and> le_revision e = tq_expected_revision r \<and> le_status e = s"] c
    by simp
  have rows: "map (\<lambda>e. if ?p e then life_after now (tq_expected_revision r + 1) t
                 (lt_closes T (tq_kind r)) e else e) (lt_rows T db)
      = map (\<lambda>e. if le_id e = tq_entity_id r then transitioned_entity now r t e else e) (lt_rows T db)"
  proof (rule map_cong [OF refl])
    fix e assume e: "e \<in> set (lt_rows T db)"
    show "(if ?p e then life_after now (tq_expected_revision r + 1) t (lt_closes T (tq_kind r)) e
        else e) = (if le_id e = tq_entity_id r then transitioned_entity now r t e else e)"
    proof (cases "le_id e = tq_entity_id r")
      case True
      then show ?thesis using only [OF e True] c t by (simp add: transitioned_entity_def)
    qed simp
  qed
  have check: "(\<exists>e \<in> set (lt_rows T db). ?p e \<and> \<not> lt_check T (life_after now
        (tq_expected_revision r + 1) t (lt_closes T (tq_kind r)) e))
      \<longleftrightarrow> \<not> lt_check T (transitioned_entity now r t c)"
  proof
    assume "\<exists>e \<in> set (lt_rows T db). ?p e \<and> \<not> lt_check T (life_after now
        (tq_expected_revision r + 1) t (lt_closes T (tq_kind r)) e)"
    then obtain e where "e \<in> set (lt_rows T db)" "le_id e = tq_entity_id r"
      and bad: "\<not> lt_check T (life_after now (tq_expected_revision r + 1) t (lt_closes T (tq_kind r)) e)"
      by blast
    then have "e = c" by (blast intro: only)
    with bad t show "\<not> lt_check T (transitioned_entity now r t c)"
      by (simp add: transitioned_entity_def)
  next
    assume "\<not> lt_check T (transitioned_entity now r t c)"
    then show "\<exists>e \<in> set (lt_rows T db). ?p e \<and> \<not> lt_check T (life_after now
        (tq_expected_revision r + 1) t (lt_closes T (tq_kind r)) e)"
      using c c_mem t by (intro bexI [of _ c]) (simp_all add: transitioned_entity_def)
  qed
  show ?thesis
    unfolding life_update_def sql_update_def Let_def check count rows by simp
qed

text \<open>The outcomes of a transition that returns.\<close>

lemma transition_cases [consumes 2, case_names replayed applied]:
  assumes "life_transition_in_transaction T io now r db = Inr (out, db')"
    and dist: "distinct (map le_id (lt_rows T db))"
  obtains (replayed) v c where "out = LifeReplayed v c" "db' = db" "life_request_ok r"
      "select_life_event (tq_event_id r) db = Some v"
      "life_event_evidence_matches v (tq_life_id r) (lt_kind T) (tq_entity_id r)
         (lt_to_status T (tq_kind r)) (tq_expected_revision r) (tq_expected_revision r + 1)"
      "life_select T (tq_entity_id r) db = Some c" "lt_validate T c = Inr ()"
  | (applied) c t where
      "out = LifeApplied (transition_event T now r (le_status c) t) (transitioned_entity now r t c)"
      "db' = transitioned_db T now r (le_status c) t db" "life_request_ok r"
      "life_select T (tq_entity_id r) db = Some c" "le_life_id c = tq_life_id r"
      "le_revision c = tq_expected_revision r"
      "lt_target_status T (tq_kind r) (le_status c) = Some t"
      "lt_check T (transitioned_entity now r t c)"
      "lt_validate T (transitioned_entity now r t c) = Inr ()"
      "tq_event_id r \<notin> lv_event_id ` set (life_event_rows db)"
      "life_event_insert (transition_event T now r (le_status c) t)
         (lt_set_rows T (map (\<lambda>e. if le_id e = tq_entity_id r
            then transitioned_entity now r t e else e) (lt_rows T db)) db) = Inr db'"
proof (cases "select_life_event (tq_event_id r) db")
  case (Some v)
  from assms(1) have ok: "life_request_ok r"
    by (simp add: life_transition_in_transaction_def try_seq_Inr_iff life_request_ok_def)
  from assms(1) Some show thesis
    by (auto simp: life_transition_in_transaction_def try_bind_Inr_iff try_seq_Inr_iff
        load_for_transition_Inr life_request_revision(3) [OF ok] split: if_splits
        intro!: replayed [OF _ _ ok])
next
  case None
  note None_ev = None
  from assms(1) have ok: "life_request_ok r"
    by (simp add: life_transition_in_transaction_def try_seq_Inr_iff life_request_ok_def)
  with assms(1) None obtain c t where
    c: "load_for_transition T (io LisSelectEntity) (tq_life_id r) (tq_entity_id r) db = Inr c"
      "le_revision c = tq_expected_revision r"
      "lt_target_status T (tq_kind r) (le_status c) = Some t"
    by (auto simp: life_transition_in_transaction_def try_bind_Inr_iff try_seq_Inr_iff
        life_request_revision(3) split: if_splits)
  let ?db1 = "lt_set_rows T (map (\<lambda>e. if le_id e = tq_entity_id r
      then transitioned_entity now r t e else e) (lt_rows T db)) db"
  let ?ev = "transition_event T now r (le_status c) t"
  from c(1) have sel: "life_select T (tq_entity_id r) db = Some c" "le_life_id c = tq_life_id r"
    by (simp_all add: load_for_transition_Inr)
  have upd: "life_update T now (tq_expected_revision r + 1) (le_status c) t r db =
      (if lt_check T (transitioned_entity now r t c) then Some (1, ?db1) else None)"
    by (rule life_update_unique [OF dist sel(1,2) c(2) refl target_closes [OF c(3)]])
  from assms(1) ok None c upd obtain db2 where
    chk: "lt_check T (transitioned_entity now r t c)" and ins: "life_event_insert ?ev ?db1 = Inr db2"
    and rest: "try_bind (life_query (io LisReloadEvent) (select_life_event (tq_event_id r) db2))
                (\<lambda>found_event. try_bind (ok_or found_event li_database) (\<lambda>committed_event.
              try_bind (load_for_transition T (io LisReloadEntity) (tq_life_id r) (tq_entity_id r)
                db2) (\<lambda>committed. Inr (LifeApplied committed_event committed, db2)))) = Inr (out, db')"
    by (auto simp: life_transition_in_transaction_def try_seq_Inr_iff try_bind_Inr_iff Let_def
        life_request_ok_def life_request_revision(3) [unfolded life_request_ok_def]
        transition_event_def [symmetric] split: if_splits sum.splits)
  from ins have db2: "db2 = transitioned_db T now r (le_status c) t db"
    and fresh: "tq_event_id r \<notin> lv_event_id ` set (life_event_rows db)"
    by (auto simp: life_event_insert_Inr transitioned_db_def transition_event_def)
  have "select_life_event (tq_event_id r) db2 = Some ?ev"
    using None_ev by (simp add: db2 select_life_event_def transitioned_db_def find_append
        transition_event_def)
  with rest have out: "out = LifeApplied ?ev (transitioned_entity now r t c)" "db' = db2"
      "lt_validate T (transitioned_entity now r t c) = Inr ()"
    by (auto simp: try_bind_Inr_iff load_for_transition_Inr db2 select_transitioned [OF sel(1)])
  show thesis
    using out db2 ok sel c(2,3) chk fresh ins by (intro applied [of c t]) simp_all
qed

lemma transition_event_simps [simp]:
  "lv_event_id (transition_event T now r s t) = tq_event_id r"
  "lv_life_id (transition_event T now r s t) = tq_life_id r"
  "lv_from_status (transition_event T now r s t) = s"
  "lv_to_status (transition_event T now r s t) = t"
  "lv_expected_revision (transition_event T now r s t) = tq_expected_revision r"
  "lv_applied_revision (transition_event T now r s t) = tq_expected_revision r + 1"
  "lv_occurred_at (transition_event T now r s t) = now"
  "lv_entity_kind (transition_event T now r s t) = lt_kind T"
  "names_entity (lt_kind T) j (transition_event T now r s t) \<longleftrightarrow> tq_entity_id r = j"
  by (simp_all add: transition_event_def names_entity_def)

lemma other_kind_history:
  "kind \<noteq> lt_kind T \<Longrightarrow>
   life_history kind i (transitioned_db T now r s t db) = life_history kind i db"
  by (simp add: life_history_def transitioned_db_def names_entity_def)

lemma own_history:
  "life_history (lt_kind T) i (transitioned_db T now r s t db)
    = life_history (lt_kind T) i db
      @ (if i = tq_entity_id r then [transition_event T now r s t] else [])"
  by (simp add: life_history_def transitioned_db_def)

text \<open>A transition appends its event to the history and leaves the projection.\<close>

lemma transitioned_projects:
  assumes "life_projects (lt_kind T) c db" and "le_id c = tq_entity_id r"
    and "le_revision c = tq_expected_revision r"
    and "lt_target_status T (tq_kind r) (le_status c) = Some t"
  shows "life_projects (lt_kind T) (transitioned_entity now r t c)
    (transitioned_db T now r (le_status c) t db)"
  using assms target_edge [OF assms(4)]
  by (simp add: life_projects_def own_history life_replay_append transitioned_entity_def)

lemma transitioned_table_inv:
  assumes inv: "table_inv T db" and sel: "life_select T (tq_entity_id r) db = Some c"
    and c: "le_revision c = tq_expected_revision r"
      "lt_target_status T (tq_kind r) (le_status c) = Some t"
    and ok: "lt_check T (transitioned_entity now r t c)"
      "lt_validate T (transitioned_entity now r t c) = Inr ()"
  shows "table_inv T (transitioned_db T now r (le_status c) t db)"
proof -
  let ?db' = "transitioned_db T now r (le_status c) t db"
  let ?f = "\<lambda>e. if le_id e = tq_entity_id r then transitioned_entity now r t e else e"
  have dist: "distinct (map le_id (lt_rows T db))" using inv by (simp add: table_inv_def)
  have c_mem: "c \<in> set (lt_rows T db)" "le_id c = tq_entity_id r"
    using find_Some_mem [OF sel [unfolded life_select_def]] by simp_all
  have rows: "lt_rows T ?db' = map ?f (lt_rows T db)" by (simp add: transitioned_db_def)
  have env: "life_identity ?db' = life_identity db" "lt_parent T e ?db' = lt_parent T e db" for e
    by (simp_all add: transitioned_db_def)
  have "lt_validate T (?f e) = Inr () \<and> lt_check T (?f e)
      \<and> le_life_id (?f e) \<in> set (life_identity ?db') \<and> lt_parent T (?f e) ?db'
      \<and> life_projects (lt_kind T) (?f e) ?db'" if e: "e \<in> set (lt_rows T db)" for e
  proof (cases "le_id e = tq_entity_id r")
    case True
    then have "e = c" using find_key_SomeI [OF dist e] sel by (simp add: life_select_def)
    then show ?thesis
      using inv c_mem ok c transitioned_projects [OF _ c_mem(2) c, of db now]
      by (simp add: table_inv_def env) (simp add: transitioned_entity_def)
  next
    case False
    then show ?thesis
      using inv e by (simp add: table_inv_def env life_projects_def own_history)
  qed
  moreover have "map le_id (lt_rows T ?db') = map le_id (lt_rows T db)"
    by (simp add: rows transitioned_entity_def)
  ultimately show ?thesis
    using dist unfolding table_inv_def by (simp only: rows set_map) blast
qed

lemma inserted_table_inv:
  assumes inv: "table_inv T db" and ins: "life_insert T e db = Inr db'"
    and ok: "lt_validate T e = Inr ()" and new: "life_original (lt_kind T) e = e"
    and hist: "life_history (lt_kind T) (le_id e) db = []"
  shows "table_inv T db'"
proof -
  from ins have db': "db' = lt_set_rows T (lt_rows T db @ [e]) db"
    and e: "lt_check T e" "le_id e \<notin> le_id ` set (lt_rows T db)"
      "le_life_id e \<in> set (life_identity db)" "lt_parent T e db"
    by (auto simp: life_insert_def split: if_splits)
  have hist': "life_history (lt_kind T) i db' = life_history (lt_kind T) i db" for i
    by (simp add: db' life_history_def)
  show ?thesis
    using inv e ok new hist by (auto simp: table_inv_def db' life_projects_def
        hist' [unfolded db'])
qed

text \<open>What a transition leaves: its own table, the events and the other tables.\<close>

lemma transition_rows:
  assumes "life_transition_in_transaction T io now r db = Inr (out, db')" and "table_inv T db"
  shows "db' = db \<or> (\<exists>t ev. lv_entity_kind ev = lt_kind T \<and> db' =
      (lt_set_rows T (map (\<lambda>e. if le_id e = tq_entity_id r then transitioned_entity now r t e else e)
         (lt_rows T db)) db)\<lparr>life_event_rows := life_event_rows db @ [ev]\<rparr>)"
proof -
  have dist: "distinct (map le_id (lt_rows T db))" using assms(2) by (simp add: table_inv_def)
  from assms(1) dist show ?thesis
  proof (cases rule: transition_cases)
    case (applied c t)
    then show ?thesis
      unfolding applied(2) transitioned_db_def
      by (intro disjI2 exI [of _ t] exI [of _ "transition_event T now r (le_status c) t"]) simp
  qed simp
qed

lemma transition_own:
  assumes tr: "life_transition_in_transaction T io now r db = Inr (out, db')"
    and inv: "table_inv T db" "life_events_inv db"
  shows "table_inv T db' \<and> life_events_inv db'"
proof -
  have dist: "distinct (map le_id (lt_rows T db))" using inv(1) by (simp add: table_inv_def)
  from tr dist show ?thesis
  proof (cases rule: transition_cases)
    case (replayed v c)
    with inv show ?thesis by simp
  next
    case (applied c t)
    let ?db1 = "lt_set_rows T (map (\<lambda>e. if le_id e = tq_entity_id r
        then transitioned_entity now r t e else e) (lt_rows T db)) db"
    have "life_events_inv ?db1"
      using inv(2) by (simp add: life_events_inv_def fks_set transitioned_keys)
    then have "life_events_inv db'" by (rule life_events_inv_insert) (rule applied(11))
    moreover have "table_inv T db'"
      unfolding applied(2) by (rule transitioned_table_inv [OF inv(1) applied(4,6,7,8,9)])
    ultimately show ?thesis by simp
  qed
qed

lemma transition_other:
  assumes tr: "life_transition_in_transaction T io now r db = Inr (out, db')"
    and inv: "table_inv T db" "table_inv U db" and "lt_kind U \<noteq> lt_kind T"
    and "\<And>rows vs. lt_rows U ((lt_set_rows T rows db)\<lparr>life_event_rows := vs\<rparr>) = lt_rows U db"
    and "\<And>rows vs e. life_keys rows = life_keys (lt_rows T db) \<Longrightarrow> lt_parent U e db \<Longrightarrow>
      lt_parent U e ((lt_set_rows T rows db)\<lparr>life_event_rows := vs\<rparr>)"
  shows "table_inv U db'"
  using transition_rows [OF tr inv(1)]
proof (elim disjE exE conjE)
  assume "db' = db"
  with inv show ?thesis by simp
next
  fix t ev
  assume ev: "lv_entity_kind ev = lt_kind T"
    and db': "db' = (lt_set_rows T (map (\<lambda>e. if le_id e = tq_entity_id r
        then transitioned_entity now r t e else e) (lt_rows T db)) db)
        \<lparr>life_event_rows := life_event_rows db @ [ev]\<rparr>"
  show ?thesis
    using ev assms(4)
    by (intro table_inv_mono [OF inv(2)])
      (simp_all add: db' assms(5,6) transitioned_keys life_history_def names_entity_def)
qed

lemma create_cases [consumes 1, case_names replayed created]:
  assumes "life_create_in_transaction T io validated matches prechecks row shape db = Inr (out, db')"
  obtains (replayed) c where "out = LifeCreateReplayed c" "db' = db" "validated = Inr ()"
      "life_select T (le_id row) db = Some c" "matches c"
  | (created) "out = LifeCreated row" "validated = Inr ()" "life_select T (le_id row) db = None"
      "prechecks db = Inr ()" "life_insert T row db = Inr db'" "shape row = Inr ()"
proof (cases "life_select T (le_id row) db")
  case (Some c)
  with assms show thesis
    by (auto simp: life_create_in_transaction_def try_bind_Inr_iff try_seq_Inr_iff
        split: if_splits intro!: replayed)
next
  case None
  note none = None
  from assms None obtain db1 where
    v: "validated = Inr ()" "prechecks db = Inr ()" and ins: "life_insert T row db = Inr db1"
    and rest: "try_bind (life_query (io LisReloadEntity) (life_select T (le_id row) db1))
        (\<lambda>reloaded. try_bind (ok_or reloaded li_database) (\<lambda>created.
         try_seq (shape created) (Inr (LifeCreated created, db1)))) = Inr (out, db')"
    by (auto simp: life_create_in_transaction_def try_seq_Inr_iff try_bind_Inr_iff
        split: if_splits sum.splits)
  from ins have "db1 = lt_set_rows T (lt_rows T db @ [row]) db"
    by (auto simp: life_insert_def split: if_splits)
  then have "life_select T (le_id row) db1 = Some row"
    using None by (simp add: life_select_def find_append)
  with rest have "out = LifeCreated row" "db' = db1" "shape row = Inr ()"
    by (auto simp: try_bind_Inr_iff try_seq_Inr_iff)
  with v none ins show thesis by (intro created) simp_all
qed

lemma create_rows:
  assumes "life_create_in_transaction T io validated matches prechecks row shape db = Inr (out, db')"
  shows "db' = db \<or> db' = lt_set_rows T (lt_rows T db @ [row]) db"
  using assms by (cases rule: create_cases) (auto simp: life_insert_def split: if_splits)

text \<open>A closed entity is left as it is: no transition starts from a terminal status.\<close>

lemma transition_closed_kept:
  assumes "life_transition_in_transaction T io now r db = Inr (out, db')" and "table_inv T db"
    and e: "e \<in> set (lt_rows T db)" "\<not> life_open (le_status e)"
  shows "e \<in> set (lt_rows T db')"
proof -
  have dist: "distinct (map le_id (lt_rows T db))" using assms(2) by (simp add: table_inv_def)
  from assms(1) dist show ?thesis
  proof (cases rule: transition_cases)
    case (applied c t)
    have "le_id e \<noteq> tq_entity_id r"
    proof
      assume "le_id e = tq_entity_id r"
      with find_key_SomeI [OF dist e(1)] applied(4) have "e = c" by (simp add: life_select_def)
      with e(2) target_edge [OF applied(7)] show False by (auto dest: life_edge_open)
    qed
    with e(1) show ?thesis by (force simp: applied(2) transitioned_db_def)
  qed (use e in simp)
qed

lemma insert_rows:
  "life_insert T e db = Inr db' \<longleftrightarrow>
     lt_check T e \<and> le_id e \<notin> le_id ` set (lt_rows T db) \<and> lt_unique T e db
     \<and> le_life_id e \<in> set (life_identity db) \<and> lt_parent T e db
     \<and> db' = lt_set_rows T (lt_rows T db @ [e]) db"
  by (auto simp: life_insert_def)

lemma insert_other:
  assumes "life_insert T e db = Inr db'" and inv: "table_inv U db"
    and "\<And>rows. lt_rows U (lt_set_rows T rows db) = lt_rows U db"
    and "\<And>f. lt_parent U f db \<Longrightarrow> lt_parent U f (lt_set_rows T (lt_rows T db @ [e]) db)"
  shows "table_inv U db'"
  using assms(1) by (intro table_inv_mono [OF inv])
    (simp_all add: insert_rows assms(3,4) life_history_def)

end

section \<open>Transitions keep the store contract\<close>

text \<open>
  A transition as a call: its SQLite, its clock and its request. The tables of entities and events
  are an evidence store; what \<open>Revision_Store\<close> proves of such stores holds for every entity table.
\<close>

type_synonym 'k transition_call = "life_intent_io \<times> string \<times> 'k life_transition_request"

definition entity_step ::
    "('e, 'k, 'a) entity_table \<Rightarrow> 'a life_intent_db_scheme \<Rightarrow> 'k transition_call
     \<Rightarrow> (life_intent_error + 'e life_entity_scheme life_transition_outcome)
        \<times> 'a life_intent_db_scheme" where
  "entity_step T db c =
     (case c of (io, now, r) \<Rightarrow>
        life_intent_transaction io (life_transition_in_transaction T io now r) db)"

definition transition_request :: "'k transition_call \<Rightarrow> 'k life_transition_request" where
  "transition_request c = snd (snd c)"

definition transition_key :: "'k transition_call \<Rightarrow> string" where
  "transition_key c = tq_entity_id (transition_request c)"

definition transition_expected :: "'k transition_call \<Rightarrow> int" where
  "transition_expected c = tq_expected_revision (transition_request c)"

definition transition_healthy :: "'k transition_call \<Rightarrow> bool" where
  "transition_healthy c \<longleftrightarrow> (\<forall>stmt. fst c stmt)"

definition transition_same :: "'k transition_call \<Rightarrow> 'k transition_call \<Rightarrow> bool" where
  "transition_same c d \<longleftrightarrow> transition_request c = transition_request d"

definition entity_revision ::
    "('e, 'k, 'a) entity_table \<Rightarrow> 'a life_intent_db_scheme \<Rightarrow> string \<Rightarrow> int option" where
  "entity_revision T db i = map_option le_revision (life_select T i db)"

fun transition_fresh :: "'e life_transition_outcome \<Rightarrow> bool" where
  "transition_fresh (LifeApplied _ _) = True"
| "transition_fresh (LifeReplayed _ _) = False"

definition transition_recorded ::
    "('e, 'k, 'a) entity_table \<Rightarrow> 'a life_intent_db_scheme \<Rightarrow> 'k transition_call \<Rightarrow> bool" where
  "transition_recorded T db c \<longleftrightarrow>
     (let r = transition_request c in
      life_request_ok r
      \<and> (\<exists>v \<in> set (life_event_rows db). lv_event_id v = tq_event_id r
           \<and> life_event_evidence_matches v (tq_life_id r) (lt_kind T) (tq_entity_id r)
               (lt_to_status T (tq_kind r)) (tq_expected_revision r) (tq_expected_revision r + 1)))"

definition entity_store_inv :: "('e, 'k, 'a) entity_table \<Rightarrow> 'a life_intent_db_scheme \<Rightarrow> bool" where
  "entity_store_inv T db \<longleftrightarrow> table_inv T db \<and> life_events_inv db"

lemmas transition_call_defs =
  transition_key_def transition_expected_def transition_healthy_def transition_same_def
  transition_request_def

lemma entity_step_Inr:
  "entity_step T db (io, now, r) = (Inr out, db') \<Longrightarrow>
   life_transition_in_transaction T io now r db = Inr (out, db')"
  by (simp add: entity_step_def life_intent_transaction_def with_transaction_Inr)

lemma select_Some_key:
  assumes "distinct (map le_id rows)" and "(i, l) \<in> life_keys rows"
  obtains e where "find (\<lambda>e. le_id e = i) rows = Some e" "e \<in> set rows" "le_id e = i" "le_life_id e = l"
proof -
  from assms(2) obtain e where e: "e \<in> set rows" "le_id e = i" "le_life_id e = l"
    by (auto simp: life_keys_def life_key_def)
  with find_key_SomeI [OF assms(1) e(1,2)] that show thesis by blast
qed

context entity_table
begin

lemma revision_transitioned:
  assumes "life_select T (tq_entity_id r) db = Some c"
  shows "entity_revision T (transitioned_db T now r s t db)
    = (entity_revision T db)(tq_entity_id r \<mapsto> tq_expected_revision r + 1)"
proof (rule ext)
  fix j
  show "entity_revision T (transitioned_db T now r s t db) j
      = ((entity_revision T db)(tq_entity_id r \<mapsto> tq_expected_revision r + 1)) j"
  proof (cases "j = tq_entity_id r")
    case True
    then show ?thesis
      by (simp add: entity_revision_def select_transitioned [OF assms] transitioned_entity_def)
  next
    case False
    have "find (\<lambda>e. le_id e = j) (map (\<lambda>e. if le_id e = tq_entity_id r
        then transitioned_entity now r t e else e) rows) = find (\<lambda>e. le_id e = j) rows"
      for rows :: "'e life_entity_scheme list"
      using False by (induction rows) (auto simp: transitioned_entity_def)
    with False show ?thesis
      by (simp add: entity_revision_def life_select_def transitioned_db_def)
  qed
qed

lemma step_fresh_facts:
  assumes inv: "entity_store_inv T db" and st: "entity_step T db c = (Inr out, db')"
    and fr: "transition_fresh out"
  shows "entity_revision T db (transition_key c) = Some (transition_expected c)
    \<and> entity_revision T db' = (entity_revision T db)(transition_key c \<mapsto> transition_expected c + 1)
    \<and> transition_recorded T db' c
    \<and> set (life_event_rows db) \<subseteq> set (life_event_rows db')"
proof -
  obtain io now r where c: "c = (io, now, r)" by (cases c) auto
  from inv have dist: "distinct (map le_id (lt_rows T db))"
    by (simp add: entity_store_inv_def table_inv_def)
  from entity_step_Inr [OF st [unfolded c]] dist show ?thesis
  proof (cases rule: transition_cases)
    case (replayed v e)
    with fr show ?thesis by simp
  next
    case (applied e t)
    let ?v = "transition_event T now r (le_status e) t"
    have "life_event_evidence_matches ?v (tq_life_id r) (lt_kind T) (tq_entity_id r)
        (lt_to_status T (tq_kind r)) (tq_expected_revision r) (tq_expected_revision r + 1)"
      using target_to [OF applied(7)]
      by (simp add: life_event_evidence_matches_def transition_event_def life_intent_constants)
    then have "transition_recorded T db' c"
      using applied(3) by (simp add: transition_recorded_def c transition_request_def Let_def
          applied(2) transitioned_db_def)
    moreover have "set (life_event_rows db) \<subseteq> set (life_event_rows db')"
      by (auto simp: applied(2) transitioned_db_def)
    ultimately show ?thesis
      using applied(4,6) revision_transitioned [OF applied(4)]
      by (simp add: c transition_call_defs entity_revision_def [of T db] applied(2))
  qed
qed

lemma recorded_replays:
  assumes inv: "entity_store_inv T db" and rec: "transition_recorded T db c"
    and ok: "transition_healthy c"
  shows "\<exists>out. entity_step T db c = (Inr out, db) \<and> \<not> transition_fresh out"
proof -
  obtain io now r where c: "c = (io, now, r)" by (cases c) auto
  have io: "io stmt" for stmt using ok by (simp add: c transition_call_defs)
  have tab: "table_inv T db" and evs: "life_events_inv db" using inv by (simp_all add: entity_store_inv_def)
  from rec obtain v where v: "life_request_ok r" "v \<in> set (life_event_rows db)"
      "lv_event_id v = tq_event_id r"
      "life_event_evidence_matches v (tq_life_id r) (lt_kind T) (tq_entity_id r)
         (lt_to_status T (tq_kind r)) (tq_expected_revision r) (tq_expected_revision r + 1)"
    by (auto simp: transition_recorded_def c transition_request_def Let_def)
  have sel_v: "select_life_event (tq_event_id r) db = Some v"
    unfolding select_life_event_def using evs v(2,3)
    by (intro find_key_SomeI) (simp_all add: life_events_inv_def)
  have "names_entity (lt_kind T) (tq_entity_id r) v" "lv_life_id v = tq_life_id r"
    using v(4) by (simp_all add: life_event_evidence_matches_def names_entity_def)
  moreover have "event_fks db v" using evs v(2) by (simp add: life_events_inv_def)
  ultimately have "(tq_entity_id r, tq_life_id r) \<in> life_keys (lt_rows T db)"
    using fks_names by metis
  then obtain e where e: "life_select T (tq_entity_id r) db = Some e" "e \<in> set (lt_rows T db)"
      "le_life_id e = tq_life_id r"
    unfolding life_select_def using tab by (auto simp: table_inv_def elim: select_Some_key)
  have "load_for_transition T True (tq_life_id r) (tq_entity_id r) db = Inr e"
    using e tab by (simp add: load_for_transition_Inr table_inv_def)
  then have "entity_step T db c = (Inr (LifeReplayed v e), db)"
    using v sel_v life_request_revision(3) [OF v(1)]
    by (simp add: c entity_step_def life_intent_transaction_def with_transaction_def io
        life_transition_in_transaction_def life_request_ok_def)
  then show ?thesis by auto
qed

end

sublocale entity_table < transitions: evidence_store "entity_step T" "entity_revision T"
  transition_key transition_expected transition_fresh "entity_store_inv T"
  "transition_recorded T" transition_healthy transition_same
proof (unfold_locales, goal_cases)
  case (1 db t e db')
  then show ?case
    by (auto simp: entity_step_def life_intent_transaction_def split: prod.splits
        dest: with_transaction_Inl)
next
  case (2 db t out db')
  then show ?case
    by (auto simp: entity_step_def life_intent_transaction_def life_transition_in_transaction_def
        with_transaction_Inr try_bind_Inr_iff try_seq_Inr_iff Let_def
        split: prod.splits option.splits if_splits sum.splits)
next
  case (3 db t out db')
  then show ?case by (simp add: step_fresh_facts)
next
  case (4 db t out db')
  then show ?case by (simp add: step_fresh_facts)
next
  case (5 db t out db')
  then show ?case
    by (cases t) (auto simp: entity_store_inv_def dest!: entity_step_Inr transition_own)
next
  case (6 db t out db')
  then show ?case by (simp add: step_fresh_facts)
next
  case (7 db t out db' u)
  then have "set (life_event_rows db) \<subseteq> set (life_event_rows db')" by (simp add: step_fresh_facts)
  with 7(4) show ?case by (auto simp: transition_recorded_def Let_def)
next
  case (8 db t u)
  then show ?case by (simp add: transition_recorded_def transition_same_def)
next
  case (9 db t)
  then show ?case by (rule recorded_replays)
qed

section \<open>The four tables keep the contract\<close>

lemma life_keys_simps [simp]:
  "life_keys [] = {}" "life_keys (e # rows) = insert (life_key e) (life_keys rows)"
  "life_keys (rows @ rows') = life_keys rows \<union> life_keys rows'"
  by (auto simp: life_keys_def)

lemma after_columns [simp]:
  "lp_goal_id (life_after now n t c p) = lp_goal_id p"
  "ls_plan_id (life_after now n t c s) = ls_plan_id s"
  "ls_ordinal (life_after now n t c s) = ls_ordinal s"
  "la_step_id (life_after now n t c a) = la_step_id a"
  by (simp_all add: life_after_def)

interpretation goals: entity_table goal_table
proof (unfold_locales, goal_cases)
  case (10 k s t)
  then show ?case
    by (cases k) (auto simp: goal_table_def life_edge_def life_intent_constants split: if_splits)
next
  case (11 k s t)
  then show ?case by (cases k) (auto simp: goal_table_def split: if_splits)
next
  case (12 k s t)
  then show ?case
    by (cases k) (auto simp: goal_table_def life_open_def life_intent_constants split: if_splits)
qed (simp_all add: goal_table_def life_intent_constants event_fks_def fk_optional_def
      names_entity_def event_target_matches_def build_event_def)

interpretation plans: entity_table plan_table
proof (unfold_locales, goal_cases)
  case (10 k s t)
  then show ?case
    by (cases k) (auto simp: plan_table_def life_edge_def life_intent_constants split: if_splits)
next
  case (11 k s t)
  then show ?case by (cases k) (auto simp: plan_table_def split: if_splits)
next
  case (12 k s t)
  then show ?case
    by (cases k) (auto simp: plan_table_def life_open_def life_intent_constants split: if_splits)
qed (simp_all add: plan_table_def life_intent_constants event_fks_def fk_optional_def
      names_entity_def event_target_matches_def build_event_def)

interpretation steps: entity_table step_table
proof (unfold_locales, goal_cases)
  case (10 k s t)
  then show ?case
    by (cases k) (auto simp: step_table_def life_edge_def life_intent_constants split: if_splits)
next
  case (11 k s t)
  then show ?case by (cases k) (auto simp: step_table_def split: if_splits)
next
  case (12 k s t)
  then show ?case
    by (cases k) (auto simp: step_table_def life_open_def life_intent_constants split: if_splits)
qed (simp_all add: step_table_def life_intent_constants event_fks_def fk_optional_def
      names_entity_def event_target_matches_def build_event_def)

interpretation actions: entity_table action_table
proof (unfold_locales, goal_cases)
  case (10 k s t)
  then show ?case
    by (cases k) (auto simp: action_table_def life_edge_def life_intent_constants split: if_splits)
next
  case (11 k s t)
  then show ?case by (cases k) (auto simp: action_table_def split: if_splits)
next
  case (12 k s t)
  then show ?case
    by (cases k) (auto simp: action_table_def life_open_def life_intent_constants split: if_splits)
qed (simp_all add: action_table_def life_intent_constants event_fks_def fk_optional_def
      names_entity_def event_target_matches_def build_event_def)

end
