(* ===== verification/Life_Intent_History.thy ===== *)
theory Life_Intent_History
  imports Life_Intent_Ledger
begin

text \<open>
  Histories of the goal, plan, step and action repository: the invariant of its five tables, that
  every operation keeps it, and what a deletion removes.
\<close>

section \<open>The invariant of the five tables\<close>

lemmas table_defs = goal_table_def plan_table_def step_table_def action_table_def

lemma table_simps [simp]:
  "lt_kind goal_table = ''goal''" "lt_kind plan_table = ''plan''"
  "lt_kind step_table = ''step''" "lt_kind action_table = ''action''"
  "lt_rows goal_table = goal_rows" "lt_rows plan_table = plan_rows"
  "lt_rows step_table = step_rows" "lt_rows action_table = action_rows"
  "lt_set_rows goal_table gs db = db\<lparr>goal_rows := gs\<rparr>"
  "lt_set_rows plan_table ps db = db\<lparr>plan_rows := ps\<rparr>"
  "lt_set_rows step_table ss db = db\<lparr>step_rows := ss\<rparr>"
  "lt_set_rows action_table as db = db\<lparr>action_rows := as\<rparr>"
  "lt_parent goal_table g db = True"
  "lt_parent plan_table p db \<longleftrightarrow> (lp_goal_id p, le_life_id p) \<in> life_keys (goal_rows db)"
  "lt_parent step_table s db \<longleftrightarrow> (ls_plan_id s, le_life_id s) \<in> life_keys (plan_rows db)"
  "lt_parent action_table a db \<longleftrightarrow> (la_step_id a, le_life_id a) \<in> life_keys (step_rows db)"
  by (simp_all add: table_defs life_intent_constants)

definition ordinals_distinct :: "'a life_intent_db_scheme \<Rightarrow> bool" where
  "ordinals_distinct db \<longleftrightarrow> distinct (map (\<lambda>s. (ls_plan_id s, ls_ordinal s)) (step_rows db))"

definition life_intent_inv :: "'a life_intent_db_scheme \<Rightarrow> bool" where
  "life_intent_inv db \<longleftrightarrow>
     table_inv goal_table db \<and> table_inv plan_table db \<and> table_inv step_table db
     \<and> table_inv action_table db \<and> life_events_inv db \<and> ordinals_distinct db"

lemmas life_intent_inv_parts =
  life_intent_inv_def [THEN iffD1, THEN conjunct1]
  life_intent_inv_def [THEN iffD1, THEN conjunct2, THEN conjunct1]
  life_intent_inv_def [THEN iffD1, THEN conjunct2, THEN conjunct2, THEN conjunct1]
  life_intent_inv_def [THEN iffD1, THEN conjunct2, THEN conjunct2, THEN conjunct2, THEN conjunct1]
  life_intent_inv_def [THEN iffD1, THEN conjunct2, THEN conjunct2, THEN conjunct2, THEN conjunct2,
    THEN conjunct1]
  life_intent_inv_def [THEN iffD1, THEN conjunct2, THEN conjunct2, THEN conjunct2, THEN conjunct2,
    THEN conjunct2]

section \<open>Transitions\<close>

lemma transition_goal_inv:
  assumes inv: "life_intent_inv db"
    and tr: "transition_goal_in_transaction io now r db = Inr (out, db')"
  shows "life_intent_inv db'"
proof -
  note tr' = tr [unfolded transition_goal_in_transaction_def]
  note parts = life_intent_inv_parts [OF inv]
  have "table_inv goal_table db' \<and> life_events_inv db'"
    by (rule goals.transition_own [OF tr' parts(1,5)])
  moreover have "table_inv plan_table db'" "table_inv step_table db'" "table_inv action_table db'"
    by (rule goals.transition_other [OF tr' parts(1)]; simp add: parts)+
  moreover have "ordinals_distinct db'"
    using goals.transition_rows [OF tr' parts(1)] parts(6) by (auto simp: ordinals_distinct_def)
  ultimately show ?thesis by (simp add: life_intent_inv_def)
qed

lemma transition_plan_inv:
  assumes inv: "life_intent_inv db"
    and tr: "transition_plan_in_transaction io now r db = Inr (out, db')"
  shows "life_intent_inv db'"
proof -
  note tr' = tr [unfolded transition_plan_in_transaction_def]
  note parts = life_intent_inv_parts [OF inv]
  have "table_inv plan_table db' \<and> life_events_inv db'"
    by (rule plans.transition_own [OF tr' parts(2,5)])
  moreover have "table_inv goal_table db'" "table_inv step_table db'" "table_inv action_table db'"
    by (rule plans.transition_other [OF tr' parts(2)]; simp add: parts)+
  moreover have "ordinals_distinct db'"
    using plans.transition_rows [OF tr' parts(2)] parts(6) by (auto simp: ordinals_distinct_def)
  ultimately show ?thesis by (simp add: life_intent_inv_def)
qed

lemma transition_step_inv:
  assumes inv: "life_intent_inv db"
    and tr: "transition_step_in_transaction io now r db = Inr (out, db')"
  shows "life_intent_inv db'"
proof -
  note tr' = tr [unfolded transition_step_in_transaction_def]
  note parts = life_intent_inv_parts [OF inv]
  have "table_inv step_table db' \<and> life_events_inv db'"
    by (rule steps.transition_own [OF tr' parts(3,5)])
  moreover have "table_inv goal_table db'" "table_inv plan_table db'" "table_inv action_table db'"
    by (rule steps.transition_other [OF tr' parts(3)]; simp add: parts)+
  moreover have "ordinals_distinct db'"
    using steps.transition_rows [OF tr' parts(3)] parts(6)
    by (auto simp: ordinals_distinct_def transitioned_entity_def [abs_def] comp_def if_distrib
        cong: if_cong)
  ultimately show ?thesis by (simp add: life_intent_inv_def)
qed

lemma transition_action_inv:
  assumes inv: "life_intent_inv db"
    and tr: "transition_action_in_transaction io now r db = Inr (out, db')"
  shows "life_intent_inv db'"
proof -
  note tr' = tr [unfolded transition_action_in_transaction_def]
  note parts = life_intent_inv_parts [OF inv]
  have "table_inv action_table db' \<and> life_events_inv db'"
    by (rule actions.transition_own [OF tr' parts(4,5)])
  moreover have "table_inv goal_table db'" "table_inv plan_table db'" "table_inv step_table db'"
    by (rule actions.transition_other [OF tr' parts(4)]; simp add: parts)+
  moreover have "ordinals_distinct db'"
    using actions.transition_rows [OF tr' parts(4)] parts(6) by (auto simp: ordinals_distinct_def)
  ultimately show ?thesis by (simp add: life_intent_inv_def)
qed

section \<open>Creates\<close>

lemmas li_check_defs =
  check_all_Inr_iff life_validator_defs life_intent_constants Let_def

lemma shape_persisted:
  "validate_goal_shape g = Inr () \<Longrightarrow> le_closed_at g = None \<Longrightarrow>
   validate_goal_persisted_state g = Inr ()"
  "validate_plan_shape p = Inr () \<Longrightarrow> le_closed_at p = None \<Longrightarrow>
   validate_plan_persisted_state p = Inr ()"
  "validate_step_shape s = Inr () \<Longrightarrow> le_closed_at s = None \<Longrightarrow>
   validate_step_persisted_state s = Inr ()"
  "validate_action_shape a = Inr () \<Longrightarrow> le_closed_at a = None \<Longrightarrow>
   validate_action_persisted_state a = Inr ()"
  by (simp_all add: validate_goal_shape_def validate_goal_persisted_state_def
      validate_plan_shape_def validate_plan_persisted_state_def validate_step_shape_def
      validate_step_persisted_state_def validate_action_shape_def
      validate_action_persisted_state_def li_check_defs)

lemma of_create_simps [simp]:
  "le_id (goal_of_create now g) = gc_goal_id g" "le_id (plan_of_create now p) = pc_plan_id p"
  "le_id (step_of_create now s) = sc_step_id s" "le_id (action_of_create now a) = cc_action_id a"
  "le_closed_at (goal_of_create now g) = None" "le_closed_at (plan_of_create now p) = None"
  "le_closed_at (step_of_create now s) = None" "le_closed_at (action_of_create now a) = None"
  "life_original ''goal'' (goal_of_create now g) = goal_of_create now g"
  "life_original ''plan'' (plan_of_create now p) = plan_of_create now p"
  "life_original ''step'' (step_of_create now s) = step_of_create now s"
  "life_original ''action'' (action_of_create now a) = action_of_create now a"
  by (simp_all add: goal_of_create_def plan_of_create_def step_of_create_def action_of_create_def
      life_original_def life_initial_def life_intent_constants)

lemma lt_validate_simps [simp]:
  "lt_validate goal_table = validate_goal_persisted_state"
  "lt_validate plan_table = validate_plan_persisted_state"
  "lt_validate step_table = validate_step_persisted_state"
  "lt_validate action_table = validate_action_persisted_state"
  by (simp_all add: table_defs)

lemma create_goal_inv:
  assumes inv: "life_intent_inv db"
    and cr: "create_goal_in_transaction io now r db = Inr (out, db')"
  shows "life_intent_inv db'"
  using cr [unfolded create_goal_in_transaction_def]
proof (cases rule: goals.create_cases)
  case (replayed c)
  with inv show ?thesis by simp
next
  case created
  note parts = life_intent_inv_parts [OF inv]
  note ins = created(5) [unfolded goals.insert_rows]
  have "table_inv goal_table db'"
    by (rule goals.inserted_table_inv [OF parts(1) created(5)])
      (use ins created(6) no_row_no_history(1) [OF parts(5)] in \<open>simp_all add: shape_persisted(1)\<close>)
  moreover have "table_inv plan_table db'" "table_inv step_table db'" "table_inv action_table db'"
    by (rule goals.insert_other [OF created(5)]; simp add: parts)+
  moreover have "life_events_inv db'"
    by (rule life_events_inv_cong [OF _ _ _ _ _ parts(5)]) (use ins in auto)
  ultimately show ?thesis using parts(6) ins by (simp add: life_intent_inv_def ordinals_distinct_def)
qed

lemma create_plan_inv:
  assumes inv: "life_intent_inv db"
    and cr: "create_plan_in_transaction io now r db = Inr (out, db')"
  shows "life_intent_inv db'"
  using cr [unfolded create_plan_in_transaction_def]
proof (cases rule: plans.create_cases)
  case (replayed c)
  with inv show ?thesis by simp
next
  case created
  note parts = life_intent_inv_parts [OF inv]
  note ins = created(5) [unfolded plans.insert_rows]
  have "table_inv plan_table db'"
    by (rule plans.inserted_table_inv [OF parts(2) created(5)])
      (use ins created(6) no_row_no_history(2) [OF parts(5)] in \<open>simp_all add: shape_persisted(2)\<close>)
  moreover have "table_inv goal_table db'" "table_inv step_table db'" "table_inv action_table db'"
    by (rule plans.insert_other [OF created(5)]; simp add: parts)+
  moreover have "life_events_inv db'"
    by (rule life_events_inv_cong [OF _ _ _ _ _ parts(5)]) (use ins in auto)
  ultimately show ?thesis using parts(6) ins by (simp add: life_intent_inv_def ordinals_distinct_def)
qed

lemma create_step_inv:
  assumes inv: "life_intent_inv db"
    and cr: "create_step_in_transaction io now r db = Inr (out, db')"
  shows "life_intent_inv db'"
  using cr [unfolded create_step_in_transaction_def]
proof (cases rule: steps.create_cases)
  case (replayed c)
  with inv show ?thesis by simp
next
  case created
  note parts = life_intent_inv_parts [OF inv]
  note ins = created(5) [unfolded steps.insert_rows]
  have "table_inv step_table db'"
    by (rule steps.inserted_table_inv [OF parts(3) created(5)])
      (use ins created(6) no_row_no_history(3) [OF parts(5)] in \<open>simp_all add: shape_persisted(3)\<close>)
  moreover have "table_inv goal_table db'" "table_inv plan_table db'" "table_inv action_table db'"
    by (rule steps.insert_other [OF created(5)]; simp add: parts)+
  moreover have "life_events_inv db'"
    by (rule life_events_inv_cong [OF _ _ _ _ _ parts(5)]) (use ins in auto)
  ultimately show ?thesis
    using parts(6) ins by (simp add: life_intent_inv_def ordinals_distinct_def step_table_def)
qed

lemma create_action_inv:
  assumes inv: "life_intent_inv db"
    and cr: "create_action_in_transaction io now r db = Inr (out, db')"
  shows "life_intent_inv db'"
  using cr [unfolded create_action_in_transaction_def]
proof (cases rule: actions.create_cases)
  case (replayed c)
  with inv show ?thesis by simp
next
  case created
  note parts = life_intent_inv_parts [OF inv]
  note ins = created(5) [unfolded actions.insert_rows]
  have "table_inv action_table db'"
    by (rule actions.inserted_table_inv [OF parts(4) created(5)])
      (use ins created(6) no_row_no_history(4) [OF parts(5)] in \<open>simp_all add: shape_persisted(4)\<close>)
  moreover have "table_inv goal_table db'" "table_inv plan_table db'" "table_inv step_table db'"
    by (rule actions.insert_other [OF created(5)]; simp add: parts)+
  moreover have "life_events_inv db'"
    by (rule life_events_inv_cong [OF _ _ _ _ _ parts(5)]) (use ins in auto)
  ultimately show ?thesis using parts(6) ins by (simp add: life_intent_inv_def ordinals_distinct_def)
qed

section \<open>Deletions\<close>

text \<open>The database without the rows of four sets of keys and the events that reference them.\<close>

definition life_without ::
    "(string \<times> string) set \<Rightarrow> (string \<times> string) set \<Rightarrow> (string \<times> string) set \<Rightarrow> (string \<times> string) set
     \<Rightarrow> 'a life_intent_db_scheme \<Rightarrow> 'a life_intent_db_scheme" where
  "life_without G P S A db =
     db\<lparr>goal_rows := filter (\<lambda>g. life_key g \<notin> G) (goal_rows db),
        plan_rows := filter (\<lambda>p. life_key p \<notin> P) (plan_rows db),
        step_rows := filter (\<lambda>s. life_key s \<notin> S) (step_rows db),
        action_rows := filter (\<lambda>a. life_key a \<notin> A) (action_rows db),
        life_event_rows := filter (\<lambda>v. \<not> event_references lv_goal_id G v
            \<and> \<not> event_references lv_plan_id P v \<and> \<not> event_references lv_step_id S v
            \<and> \<not> event_references lv_action_id A v) (life_event_rows db)\<rparr>"

lemma life_without_simps [simp]:
  "life_identity (life_without G P S A db) = life_identity db"
  "goal_rows (life_without G P S A db) = filter (\<lambda>g. life_key g \<notin> G) (goal_rows db)"
  "plan_rows (life_without G P S A db) = filter (\<lambda>p. life_key p \<notin> P) (plan_rows db)"
  "step_rows (life_without G P S A db) = filter (\<lambda>s. life_key s \<notin> S) (step_rows db)"
  "action_rows (life_without G P S A db) = filter (\<lambda>a. life_key a \<notin> A) (action_rows db)"
  "life_event_rows (life_without G P S A db) = filter (\<lambda>v. \<not> event_references lv_goal_id G v
     \<and> \<not> event_references lv_plan_id P v \<and> \<not> event_references lv_step_id S v
     \<and> \<not> event_references lv_action_id A v) (life_event_rows db)"
  by (simp_all add: life_without_def)

lemma keys_filter: "life_keys (filter (\<lambda>e. life_key e \<notin> K) rows) = life_keys rows - K"
  by (auto simp: life_keys_def)

lemma key_of_id:
  assumes "distinct (map le_id rows)" and "e \<in> set rows" and "(le_id e, l) \<in> life_keys rows"
  shows "life_key e = (le_id e, l)"
proof -
  from assms(3) obtain f where f: "f \<in> set rows" "life_key f = (le_id e, l)"
    by (auto simp: life_keys_def)
  with assms have "f = e" by (auto simp: life_key_def distinct_map dest: inj_onD)
  with f(2) show ?thesis by simp
qed

text \<open>The history of a row that is kept is kept.\<close>

lemma names_columns:
  "names_entity ''goal'' i v \<Longrightarrow>
     lv_goal_id v = Some i \<and> lv_plan_id v = None \<and> lv_step_id v = None \<and> lv_action_id v = None"
  "names_entity ''plan'' i v \<Longrightarrow>
     lv_plan_id v = Some i \<and> lv_goal_id v = None \<and> lv_step_id v = None \<and> lv_action_id v = None"
  "names_entity ''step'' i v \<Longrightarrow>
     lv_step_id v = Some i \<and> lv_goal_id v = None \<and> lv_plan_id v = None \<and> lv_action_id v = None"
  "names_entity ''action'' i v \<Longrightarrow>
     lv_action_id v = Some i \<and> lv_goal_id v = None \<and> lv_plan_id v = None \<and> lv_step_id v = None"
  by (simp_all add: names_entity_def event_target_matches_def life_intent_constants)

lemma history_without:
  assumes "\<And>v. v \<in> set (life_event_rows db) \<Longrightarrow> names_entity kind i v \<Longrightarrow>
    \<not> event_references lv_goal_id G v \<and> \<not> event_references lv_plan_id P v
    \<and> \<not> event_references lv_step_id S v \<and> \<not> event_references lv_action_id A v"
  shows "life_history kind i (life_without G P S A db) = life_history kind i db"
  using assms by (auto simp: life_history_def intro!: filter_cong)

lemma kept_row_event:
  assumes "distinct (map le_id rows)" and "e \<in> set rows" and "life_key e \<notin> K"
    and "(le_id e, l) \<in> life_keys rows"
  shows "(le_id e, l) \<notin> K"
  using key_of_id [OF assms(1,2,4)] assms(3) by simp

lemma kept_history:
  assumes ev: "life_events_inv db"
  shows "distinct (map le_id (goal_rows db)) \<Longrightarrow> g \<in> set (goal_rows db) \<Longrightarrow> life_key g \<notin> G \<Longrightarrow>
      life_history ''goal'' (le_id g) (life_without G P S A db)
        = life_history ''goal'' (le_id g) db"
    and "distinct (map le_id (plan_rows db)) \<Longrightarrow> p \<in> set (plan_rows db) \<Longrightarrow> life_key p \<notin> P \<Longrightarrow>
      life_history ''plan'' (le_id p) (life_without G P S A db)
        = life_history ''plan'' (le_id p) db"
    and "distinct (map le_id (step_rows db)) \<Longrightarrow> s \<in> set (step_rows db) \<Longrightarrow> life_key s \<notin> S \<Longrightarrow>
      life_history ''step'' (le_id s) (life_without G P S A db)
        = life_history ''step'' (le_id s) db"
    and "distinct (map le_id (action_rows db)) \<Longrightarrow> a \<in> set (action_rows db) \<Longrightarrow> life_key a \<notin> A \<Longrightarrow>
      life_history ''action'' (le_id a) (life_without G P S A db)
        = life_history ''action'' (le_id a) db"
proof -
  show "life_history ''goal'' (le_id g) (life_without G P S A db)
      = life_history ''goal'' (le_id g) db"
    if kept: "distinct (map le_id (goal_rows db))" "g \<in> set (goal_rows db)" "life_key g \<notin> G"
  proof (rule history_without)
    fix v assume v: "v \<in> set (life_event_rows db)" "names_entity ''goal'' (le_id g) v"
    show "\<not> event_references lv_goal_id G v \<and> \<not> event_references lv_plan_id P v
        \<and> \<not> event_references lv_step_id S v \<and> \<not> event_references lv_action_id A v"
      using names_columns(1) [OF v(2)] kept_row_event [OF kept event_names_row(1) [OF ev v]]
      by (simp add: event_references_def)
  qed
  show "life_history ''plan'' (le_id p) (life_without G P S A db)
      = life_history ''plan'' (le_id p) db"
    if kept: "distinct (map le_id (plan_rows db))" "p \<in> set (plan_rows db)" "life_key p \<notin> P"
  proof (rule history_without)
    fix v assume v: "v \<in> set (life_event_rows db)" "names_entity ''plan'' (le_id p) v"
    show "\<not> event_references lv_goal_id G v \<and> \<not> event_references lv_plan_id P v
        \<and> \<not> event_references lv_step_id S v \<and> \<not> event_references lv_action_id A v"
      using names_columns(2) [OF v(2)] kept_row_event [OF kept event_names_row(2) [OF ev v]]
      by (simp add: event_references_def)
  qed
  show "life_history ''step'' (le_id s) (life_without G P S A db)
      = life_history ''step'' (le_id s) db"
    if kept: "distinct (map le_id (step_rows db))" "s \<in> set (step_rows db)" "life_key s \<notin> S"
  proof (rule history_without)
    fix v assume v: "v \<in> set (life_event_rows db)" "names_entity ''step'' (le_id s) v"
    show "\<not> event_references lv_goal_id G v \<and> \<not> event_references lv_plan_id P v
        \<and> \<not> event_references lv_step_id S v \<and> \<not> event_references lv_action_id A v"
      using names_columns(3) [OF v(2)] kept_row_event [OF kept event_names_row(3) [OF ev v]]
      by (simp add: event_references_def)
  qed
  show "life_history ''action'' (le_id a) (life_without G P S A db)
      = life_history ''action'' (le_id a) db"
    if kept: "distinct (map le_id (action_rows db))" "a \<in> set (action_rows db)" "life_key a \<notin> A"
  proof (rule history_without)
    fix v assume v: "v \<in> set (life_event_rows db)" "names_entity ''action'' (le_id a) v"
    show "\<not> event_references lv_goal_id G v \<and> \<not> event_references lv_plan_id P v
        \<and> \<not> event_references lv_step_id S v \<and> \<not> event_references lv_action_id A v"
      using names_columns(4) [OF v(2)] kept_row_event [OF kept event_names_row(4) [OF ev v]]
      by (simp add: event_references_def)
  qed
qed

lemma distinct_map_filter_rows: "distinct (map f xs) \<Longrightarrow> distinct (map f (filter q xs))"
  by (simp add: distinct_map_filter)

text \<open>Whatever is removed, the invariant stays when the children of what goes go as well.\<close>

lemma life_without_inv:
  assumes inv: "life_intent_inv db"
    and P: "\<And>p. p \<in> set (plan_rows db) \<Longrightarrow> (lp_goal_id p, le_life_id p) \<in> G \<Longrightarrow> life_key p \<in> P"
    and S: "\<And>s. s \<in> set (step_rows db) \<Longrightarrow> (ls_plan_id s, le_life_id s) \<in> P \<Longrightarrow> life_key s \<in> S"
    and A: "\<And>a. a \<in> set (action_rows db) \<Longrightarrow> (la_step_id a, le_life_id a) \<in> S \<Longrightarrow> life_key a \<in> A"
  shows "life_intent_inv (life_without G P S A db)"
proof -
  note parts = life_intent_inv_parts [OF inv]
  let ?db = "life_without G P S A db"
  have "table_inv goal_table ?db"
    using parts(1) kept_history(1) [OF parts(5), of _ G P S A]
    by (auto simp: table_inv_def life_projects_def distinct_map_filter_rows)
  moreover have "table_inv plan_table ?db"
    using parts(2) P kept_history(2) [OF parts(5), of _ P G S A]
    by (auto simp: table_inv_def life_projects_def distinct_map_filter_rows keys_filter)
  moreover have "table_inv step_table ?db"
    using parts(3) S kept_history(3) [OF parts(5), of _ S G P A]
    by (auto simp: table_inv_def life_projects_def distinct_map_filter_rows keys_filter)
  moreover have "table_inv action_table ?db"
    using parts(4) A kept_history(4) [OF parts(5), of _ A G P S]
    by (auto simp: table_inv_def life_projects_def distinct_map_filter_rows keys_filter)
  moreover have "life_events_inv ?db"
    using parts(5)
    by (auto simp: life_events_inv_def event_fks_def fk_optional_def event_references_def keys_filter
        distinct_map_filter_rows split: option.splits)
  moreover have "ordinals_distinct ?db"
    using parts(6) by (simp add: ordinals_distinct_def distinct_map_filter_rows)
  ultimately show ?thesis by (simp add: life_intent_inv_def)
qed

text \<open>A predicate on the rows of a table is one on their keys.\<close>

lemma filter_by_key:
  assumes "distinct (map le_id rows)"
  shows "filter (\<lambda>e. \<not> p e) rows = filter (\<lambda>e. life_key e \<notin> life_keys (filter p rows)) rows"
proof (rule filter_cong [OF refl])
  fix e assume e: "e \<in> set rows"
  show "(\<not> p e) = (life_key e \<notin> life_keys (filter p rows))"
  proof (cases "p e")
    case True
    with e show ?thesis by (simp add: life_keys_def)
  next
    case False
    have "life_key e \<noteq> life_key f" if "f \<in> set rows" "p f" for f
    proof
      assume "life_key e = life_key f"
      with assms e that(1) have "f = e" by (simp add: life_key_def distinct_map inj_on_def)
      with False that(2) show False by simp
    qed
    with False show ?thesis by (auto simp: life_keys_def)
  qed
qed

definition gone_actions :: "(string \<times> string) set \<Rightarrow> 'a life_intent_db_scheme \<Rightarrow> (string \<times> string) set"
  where "gone_actions S db = life_keys (filter (\<lambda>a. (la_step_id a, le_life_id a) \<in> S) (action_rows db))"

definition gone_steps :: "(string \<times> string) set \<Rightarrow> 'a life_intent_db_scheme \<Rightarrow> (string \<times> string) set"
  where "gone_steps P db = life_keys (filter (\<lambda>s. (ls_plan_id s, le_life_id s) \<in> P) (step_rows db))"

definition gone_plans :: "(string \<times> string) set \<Rightarrow> 'a life_intent_db_scheme \<Rightarrow> (string \<times> string) set"
  where "gone_plans G db = life_keys (filter (\<lambda>p. (lp_goal_id p, le_life_id p) \<in> G) (plan_rows db))"

lemma event_references_empty [simp]: "\<not> event_references column {} v"
  by (simp add: event_references_def split: option.splits)

lemma cascade_actions_without:
  assumes "distinct (map le_id (action_rows db))"
  shows "cascade_actions p db = life_without {} {} {} (life_keys (filter p (action_rows db))) db"
  by (simp add: cascade_actions_def life_without_def Let_def filter_by_key [OF assms, of p])

lemma life_without_twice:
  "life_without G P S A (life_without G' P' S' A' db)
     = life_without (G \<union> G') (P \<union> P') (S \<union> S') (A \<union> A') db"
proof -
  have refs: "event_references c (X \<union> Y) v \<longleftrightarrow> event_references c X v \<or> event_references c Y v"
    for c X Y v by (simp add: event_references_def split: option.splits)
  show ?thesis by (simp add: life_without_def refs conj_ac)
qed

lemma cascade_steps_without:
  assumes "distinct (map le_id (step_rows db))" and "distinct (map le_id (action_rows db))"
  shows "cascade_steps p db =
    (let S = life_keys (filter p (step_rows db)) in life_without {} {} S (gone_actions S db) db)"
proof -
  let ?S = "life_keys (filter p (step_rows db))"
  let ?db = "life_without {} {} ?S {} db"
  have "cascade_steps p db = cascade_actions (\<lambda>a. (la_step_id a, le_life_id a) \<in> ?S) ?db"
    by (simp add: cascade_steps_def life_without_def Let_def filter_by_key [OF assms(1), of p])
  also have "\<dots> = life_without {} {} {} (gone_actions ?S db) ?db"
    by (subst cascade_actions_without) (simp_all add: assms gone_actions_def)
  finally show ?thesis by (simp add: life_without_twice Let_def)
qed

lemma cascade_plans_without:
  assumes "distinct (map le_id (plan_rows db))" and "distinct (map le_id (step_rows db))"
    and "distinct (map le_id (action_rows db))"
  shows "cascade_plans p db =
    (let P = life_keys (filter p (plan_rows db)); S = gone_steps P db
     in life_without {} P S (gone_actions S db) db)"
proof -
  let ?P = "life_keys (filter p (plan_rows db))"
  let ?db = "life_without {} ?P {} {} db"
  have "cascade_plans p db = cascade_steps (\<lambda>s. (ls_plan_id s, le_life_id s) \<in> ?P) ?db"
    by (simp add: cascade_plans_def life_without_def Let_def filter_by_key [OF assms(1), of p])
  also have "\<dots> = life_without {} {} (gone_steps ?P db) (gone_actions (gone_steps ?P db) db) ?db"
    by (subst cascade_steps_without)
      (simp_all add: assms gone_steps_def gone_actions_def Let_def)
  finally show ?thesis by (simp add: life_without_twice Let_def)
qed

lemma cascade_goals_without:
  assumes "distinct (map le_id (goal_rows db))" and "distinct (map le_id (plan_rows db))"
    and "distinct (map le_id (step_rows db))" and "distinct (map le_id (action_rows db))"
  shows "cascade_goals p db =
    (let G = life_keys (filter p (goal_rows db)); P = gone_plans G db; S = gone_steps P db
     in life_without G P S (gone_actions S db) db)"
proof -
  let ?G = "life_keys (filter p (goal_rows db))"
  let ?P = "gone_plans ?G db"
  let ?db = "life_without ?G {} {} {} db"
  have "cascade_goals p db = cascade_plans (\<lambda>q. (lp_goal_id q, le_life_id q) \<in> ?G) ?db"
    by (simp add: cascade_goals_def life_without_def Let_def filter_by_key [OF assms(1), of p])
  also have "\<dots> = life_without {} ?P (gone_steps ?P db) (gone_actions (gone_steps ?P db) db) ?db"
    by (subst cascade_plans_without)
      (simp_all add: assms gone_plans_def gone_steps_def gone_actions_def Let_def)
  finally show ?thesis by (simp add: life_without_twice Let_def)
qed

lemma life_intent_distinct:
  assumes "life_intent_inv db"
  shows "distinct (map le_id (goal_rows db))" "distinct (map le_id (plan_rows db))"
    "distinct (map le_id (step_rows db))" "distinct (map le_id (action_rows db))"
  using life_intent_inv_parts [OF assms] by (simp_all add: table_inv_def)

lemma gone_children:
  "p \<in> set (plan_rows db) \<Longrightarrow> (lp_goal_id p, le_life_id p) \<in> G \<Longrightarrow> life_key p \<in> gone_plans G db"
  "s \<in> set (step_rows db) \<Longrightarrow> (ls_plan_id s, le_life_id s) \<in> P \<Longrightarrow> life_key s \<in> gone_steps P db"
  "a \<in> set (action_rows db) \<Longrightarrow> (la_step_id a, le_life_id a) \<in> S \<Longrightarrow> life_key a \<in> gone_actions S db"
  by (simp_all add: gone_plans_def gone_steps_def gone_actions_def life_keys_def)

lemma cascade_inv:
  assumes inv: "life_intent_inv db"
  shows "life_intent_inv (cascade_goals p db)" "life_intent_inv (cascade_plans q db)"
    "life_intent_inv (cascade_steps s db)" "life_intent_inv (cascade_actions a db)"
proof -
  note dist = life_intent_distinct [OF inv]
  show "life_intent_inv (cascade_goals p db)"
    unfolding cascade_goals_without [OF dist] Let_def
    by (rule life_without_inv [OF inv]) (simp_all add: gone_children)
  show "life_intent_inv (cascade_plans q db)"
    unfolding cascade_plans_without [OF dist(2-4)] Let_def
    by (rule life_without_inv [OF inv]) (simp_all add: gone_children)
  show "life_intent_inv (cascade_steps s db)"
    unfolding cascade_steps_without [OF dist(3,4)] Let_def
    by (rule life_without_inv [OF inv]) (simp_all add: gone_children)
  show "life_intent_inv (cascade_actions a db)"
    unfolding cascade_actions_without [OF dist(4)]
    by (rule life_without_inv [OF inv]) simp_all
qed

lemma life_delete_cases:
  "snd (life_delete rows cascade io life i db)
     \<in> {db, cascade (\<lambda>e. le_id e = i \<and> le_life_id e = life) db}"
  by (simp add: life_delete_def Let_def split: sum.splits)

lemma delete_inv:
  assumes "life_intent_inv db"
  shows "life_intent_inv (snd (delete_goal io life i db))"
    "life_intent_inv (snd (delete_plan io life i db))"
    "life_intent_inv (snd (delete_step io life i db))"
    "life_intent_inv (snd (delete_action io life i db))"
  unfolding delete_goal_def delete_plan_def delete_step_def delete_action_def
  using cascade_inv [OF assms] assms
    life_delete_cases [of goal_rows cascade_goals io life i db]
    life_delete_cases [of plan_rows cascade_plans io life i db]
    life_delete_cases [of step_rows cascade_steps io life i db]
    life_delete_cases [of action_rows cascade_actions io life i db]
  by auto

section \<open>Runs\<close>

datatype life_intent_op =
    LopCreateGoal life_intent_io string goal_create_request
  | LopCreatePlan life_intent_io string plan_create_request
  | LopCreateStep life_intent_io string step_create_request
  | LopCreateAction life_intent_io string action_create_request
  | LopGoal life_intent_io string "goal_transition_kind life_transition_request"
  | LopPlan life_intent_io string "plan_transition_kind life_transition_request"
  | LopStep life_intent_io string "step_transition_kind life_transition_request"
  | LopAction life_intent_io string "action_transition_kind life_transition_request"
  | LopDeleteGoal life_intent_io string string
  | LopDeletePlan life_intent_io string string
  | LopDeleteStep life_intent_io string string
  | LopDeleteAction life_intent_io string string

fun life_intent_op_step ::
    "life_intent_op \<Rightarrow> 'a life_intent_db_scheme \<Rightarrow> 'a life_intent_db_scheme" where
  "life_intent_op_step (LopCreateGoal io now r) db = snd (create_goal io now r db)"
| "life_intent_op_step (LopCreatePlan io now r) db = snd (create_plan io now r db)"
| "life_intent_op_step (LopCreateStep io now r) db = snd (create_step io now r db)"
| "life_intent_op_step (LopCreateAction io now r) db = snd (create_action io now r db)"
| "life_intent_op_step (LopGoal io now r) db = snd (transition_goal io now r db)"
| "life_intent_op_step (LopPlan io now r) db = snd (transition_plan io now r db)"
| "life_intent_op_step (LopStep io now r) db = snd (transition_step io now r db)"
| "life_intent_op_step (LopAction io now r) db = snd (transition_action io now r db)"
| "life_intent_op_step (LopDeleteGoal io life i) db = snd (delete_goal io life i db)"
| "life_intent_op_step (LopDeletePlan io life i) db = snd (delete_plan io life i db)"
| "life_intent_op_step (LopDeleteStep io life i) db = snd (delete_step io life i db)"
| "life_intent_op_step (LopDeleteAction io life i) db = snd (delete_action io life i db)"

definition life_intent_run ::
    "life_intent_op list \<Rightarrow> 'a life_intent_db_scheme \<Rightarrow> 'a life_intent_db_scheme" where
  "life_intent_run ops db = fold life_intent_op_step ops db"

definition life_intent_db_new :: "string list \<Rightarrow> life_intent_db" where
  "life_intent_db_new lives =
     \<lparr>life_identity = lives, goal_rows = [], plan_rows = [], step_rows = [], action_rows = [],
      life_event_rows = []\<rparr>"

lemma life_intent_db_new_inv: "life_intent_inv (life_intent_db_new lives)"
  by (simp add: life_intent_db_new_def life_intent_inv_def table_inv_def life_events_inv_def
      ordinals_distinct_def)

lemma life_intent_transaction_inv:
  assumes "life_intent_inv db" and "\<And>out db'. body db = Inr (out, db') \<Longrightarrow> life_intent_inv db'"
  shows "life_intent_inv (snd (life_intent_transaction io body db))"
  using assms by (auto simp: life_intent_transaction_def with_transaction_def split: sum.splits)

lemma life_intent_op_step_inv:
  assumes inv: "life_intent_inv db"
  shows "life_intent_inv (life_intent_op_step op db)"
  by (cases op)
    (simp_all add: create_goal_def create_plan_def create_step_def create_action_def
      transition_goal_def transition_plan_def transition_step_def transition_action_def
      delete_inv [OF inv] life_intent_transaction_inv [OF inv]
      create_goal_inv [OF inv] create_plan_inv [OF inv] create_step_inv [OF inv]
      create_action_inv [OF inv] transition_goal_inv [OF inv] transition_plan_inv [OF inv]
      transition_step_inv [OF inv] transition_action_inv [OF inv])

lemma life_intent_run_inv: "life_intent_inv db \<Longrightarrow> life_intent_inv (life_intent_run ops db)"
  unfolding life_intent_run_def
  by (induction ops arbitrary: db) (simp_all add: life_intent_op_step_inv)

end
