(* ===== verification/Life_Intents.thy ===== *)
theory Life_Intents
  imports Life_Intent_History
begin

text \<open>
  The properties of the goal, plan, step and action authority: the rows are ledgers, the tree stays
  intact, what is closed stays closed, a transition happens once, creation is idempotent, a deletion
  takes exactly the descendants, and everything open can be closed.
\<close>

section \<open>What stays without a deletion\<close>

text \<open>Closed rows stay as they are, events stay, and goals stay as they were created.\<close>

definition life_kept :: "'a life_intent_db_scheme \<Rightarrow> 'a life_intent_db_scheme \<Rightarrow> bool" where
  "life_kept db db' \<longleftrightarrow>
     (\<forall>g \<in> set (goal_rows db). \<not> life_open (le_status g) \<longrightarrow> g \<in> set (goal_rows db'))
     \<and> (\<forall>p \<in> set (plan_rows db). \<not> life_open (le_status p) \<longrightarrow> p \<in> set (plan_rows db'))
     \<and> (\<forall>s \<in> set (step_rows db). \<not> life_open (le_status s) \<longrightarrow> s \<in> set (step_rows db'))
     \<and> (\<forall>a \<in> set (action_rows db). \<not> life_open (le_status a) \<longrightarrow> a \<in> set (action_rows db'))
     \<and> set (life_event_rows db) \<subseteq> set (life_event_rows db')
     \<and> set (map (life_original ''goal'') (goal_rows db))
         \<subseteq> set (map (life_original ''goal'') (goal_rows db'))"

fun deletes :: "life_intent_op \<Rightarrow> bool" where
  "deletes (LopDeleteGoal _ _ _) = True"
| "deletes (LopDeletePlan _ _ _) = True"
| "deletes (LopDeleteStep _ _ _) = True"
| "deletes (LopDeleteAction _ _ _) = True"
| "deletes _ = False"

lemma life_kept_refl [simp]: "life_kept db db"
  by (simp add: life_kept_def)

lemma life_kept_trans: "life_kept a b \<Longrightarrow> life_kept b c \<Longrightarrow> life_kept a c"
  unfolding life_kept_def by blast

lemma transitioned_originals [simp]:
  "map (life_original kind)
     (map (\<lambda>e. if le_id e = i then transitioned_entity now r t e else e) rows)
   = map (life_original kind) rows"
  unfolding transitioned_entity_def by simp

lemma life_intent_transaction_cases:
  assumes "P db" and "\<And>out db'. body db = Inr (out, db') \<Longrightarrow> P db'"
  shows "P (snd (life_intent_transaction io body db))"
  using assms by (auto simp: life_intent_transaction_def with_transaction_def split: sum.splits)

lemma life_kept_transitions:
  assumes inv: "life_intent_inv db"
  shows "transition_goal_in_transaction io now r1 db = Inr (out1, db1) \<Longrightarrow> life_kept db db1"
    and "transition_plan_in_transaction io now r2 db = Inr (out2, db2) \<Longrightarrow> life_kept db db2"
    and "transition_step_in_transaction io now r3 db = Inr (out3, db3) \<Longrightarrow> life_kept db db3"
    and "transition_action_in_transaction io now r4 db = Inr (out4, db4) \<Longrightarrow> life_kept db db4"
proof -
  note parts = life_intent_inv_parts [OF inv]
  show "life_kept db db1" if "transition_goal_in_transaction io now r1 db = Inr (out1, db1)"
    using goals.transition_closed_kept [OF that [unfolded transition_goal_in_transaction_def] parts(1)]
      goals.transition_rows [OF that [unfolded transition_goal_in_transaction_def] parts(1)]
    by (auto simp: life_kept_def simp del: set_map map_map)
  show "life_kept db db2" if "transition_plan_in_transaction io now r2 db = Inr (out2, db2)"
    using plans.transition_closed_kept [OF that [unfolded transition_plan_in_transaction_def] parts(2)]
      plans.transition_rows [OF that [unfolded transition_plan_in_transaction_def] parts(2)]
    by (auto simp: life_kept_def simp del: set_map map_map)
  show "life_kept db db3" if "transition_step_in_transaction io now r3 db = Inr (out3, db3)"
    using steps.transition_closed_kept [OF that [unfolded transition_step_in_transaction_def] parts(3)]
      steps.transition_rows [OF that [unfolded transition_step_in_transaction_def] parts(3)]
    by (auto simp: life_kept_def simp del: set_map map_map)
  show "life_kept db db4" if "transition_action_in_transaction io now r4 db = Inr (out4, db4)"
    using actions.transition_closed_kept
        [OF that [unfolded transition_action_in_transaction_def] parts(4)]
      actions.transition_rows [OF that [unfolded transition_action_in_transaction_def] parts(4)]
    by (auto simp: life_kept_def simp del: set_map map_map)
qed

lemma life_kept_creates:
  "create_goal_in_transaction io now r1 db = Inr (out1, db1) \<Longrightarrow> life_kept db db1"
  "create_plan_in_transaction io now r2 db = Inr (out2, db2) \<Longrightarrow> life_kept db db2"
  "create_step_in_transaction io now r3 db = Inr (out3, db3) \<Longrightarrow> life_kept db db3"
  "create_action_in_transaction io now r4 db = Inr (out4, db4) \<Longrightarrow> life_kept db db4"
  unfolding create_goal_in_transaction_def create_plan_in_transaction_def
    create_step_in_transaction_def create_action_in_transaction_def
  by (drule goals.create_rows plans.create_rows steps.create_rows actions.create_rows;
      auto simp: life_kept_def)+

lemma life_kept_step:
  assumes "life_intent_inv db" and "\<not> deletes op"
  shows "life_kept db (life_intent_op_step op db)"
  using assms(2)
  by (cases op)
    (simp_all add: create_goal_def create_plan_def create_step_def create_action_def
      transition_goal_def transition_plan_def transition_step_def transition_action_def
      life_intent_transaction_cases [where P = "life_kept db"] life_kept_creates
      life_kept_transitions [OF assms(1)])

lemma life_kept_run:
  "life_intent_inv db \<Longrightarrow> \<forall>op \<in> set ops. \<not> deletes op \<Longrightarrow> life_kept db (life_intent_run ops db)"
  unfolding life_intent_run_def
proof (induction ops arbitrary: db)
  case (Cons op ops)
  then have "life_kept db (life_intent_op_step op db)" by (simp add: life_kept_step)
  moreover have "life_kept (life_intent_op_step op db) (fold life_intent_op_step ops
      (life_intent_op_step op db))"
    using Cons by (simp add: life_intent_op_step_inv)
  ultimately show ?case by (simp add: life_kept_trans)
qed simp

text \<open>A lifecycle has at most two transitions, so a revision is at most 3.\<close>

definition life_rank :: "string \<Rightarrow> string \<Rightarrow> int" where
  "life_rank kind s = (if s = life_initial kind then 0 else if life_open s then 1 else 2)"

lemma life_edge_rank: "life_edge kind s t \<Longrightarrow> life_rank kind s + 1 \<le> life_rank kind t"
  by (auto simp: life_edge_def life_rank_def life_initial_def life_open_def)

lemma life_replay_rank:
  "life_replay kind vs e = Some f \<Longrightarrow>
   le_revision f + life_rank kind (le_status e) \<le> le_revision e + life_rank kind (le_status f)"
proof (induction vs arbitrary: e)
  case (Cons v vs)
  then show ?case by (fastforce dest: life_edge_rank split: if_splits)
qed simp

lemma life_projects_revision:
  assumes "life_projects kind e db"
  shows "le_revision e \<le> 3"
  using life_replay_rank [OF assms [unfolded life_projects_def]]
  by (auto simp: life_rank_def split: if_splits)

section \<open>Open entities\<close>

text \<open>
  What a table promises beyond the contract of its operations: its \<open>CHECK\<close>s and its validator accept
  the row a permitted transition makes, and the event of one satisfies the constraints of the ledger.
\<close>

locale live_entity_table = entity_table T for T :: "('e, 'k, 'a) entity_table" +
  assumes check_after:
      "lt_check T e \<Longrightarrow> life_edge (lt_kind T) (le_status e) t \<Longrightarrow> 1 \<le> n \<Longrightarrow> life_sql_nonblank now \<Longrightarrow>
       lt_check T (life_after now n t (\<not> life_open t) e)"
    and validate_after:
      "lt_validate T e = Inr () \<Longrightarrow> life_edge (lt_kind T) (le_status e) t \<Longrightarrow> 1 \<le> n \<Longrightarrow>
       \<not> str_blank now \<Longrightarrow> lt_validate T (life_after now n t (\<not> life_open t) e) = Inr ()"
    and check_columns:
      "lt_check T e \<Longrightarrow> life_sql_nonblank (le_life_id e)"
    and validate_columns:
      "lt_validate T e = Inr () \<Longrightarrow> life_validate_id (le_id e) = Inr () \<and> \<not> str_blank (le_life_id e)
         \<and> 1 \<le> le_revision e"
    and event_check:
      "life_edge (lt_kind T) s t \<Longrightarrow> life_sql_id ev \<Longrightarrow> life_sql_nonblank l \<Longrightarrow> life_sql_nonblank now \<Longrightarrow>
       1 \<le> n \<Longrightarrow> n < i64_max \<Longrightarrow>
       life_event_row_check (build_event ev l (lt_target T i) s t n (n + 1) now)"
    and event_key:
      "(i, l) \<in> life_keys (lt_rows T db) \<Longrightarrow>
       event_fks db (build_event ev l (lt_target T i) s t n m now)"
begin

lemma transition_total:
  assumes inv: "entity_store_inv T db" and ok: "life_request_ok r" "life_sql_id (tq_event_id r)"
    and fresh: "tq_event_id r \<notin> lv_event_id ` set (life_event_rows db)"
    and now: "life_sql_nonblank now" "\<not> str_blank now"
    and c: "life_select T (tq_entity_id r) db = Some c" "le_life_id c = tq_life_id r"
      "le_revision c = tq_expected_revision r"
    and t: "lt_target_status T (tq_kind r) (le_status c) = Some t"
  shows "life_intent_transaction (\<lambda>_. True) (life_transition_in_transaction T (\<lambda>_. True) now r) db
    = (Inr (LifeApplied (transition_event T now r (le_status c) t) (transitioned_entity now r t c)),
       transitioned_db T now r (le_status c) t db)"
proof -
  let ?ev = "transition_event T now r (le_status c) t"
  let ?db1 = "lt_set_rows T (map (\<lambda>e. if le_id e = tq_entity_id r
      then transitioned_entity now r t e else e) (lt_rows T db)) db"
  note rev = life_request_revision [OF ok(1)]
  from inv have tab: "table_inv T db" by (simp add: entity_store_inv_def)
  then have dist: "distinct (map le_id (lt_rows T db))" by (simp add: table_inv_def)
  have c_mem: "c \<in> set (lt_rows T db)" "le_id c = tq_entity_id r"
    using find_Some_mem [OF c(1) [unfolded life_select_def]] by simp_all
  with tab have c_ok: "lt_validate T c = Inr ()" "lt_check T c" by (simp_all add: table_inv_def)
  note edge = target_edge [OF t]
  have chk: "lt_check T (transitioned_entity now r t c)"
    unfolding transitioned_entity_def using rev(1)
    by (intro check_after [OF c_ok(2) edge _ now(1)]) simp
  have val: "lt_validate T (transitioned_entity now r t c) = Inr ()"
    unfolding transitioned_entity_def using rev(1)
    by (intro validate_after [OF c_ok(1) edge _ now(2)]) simp
  have upd: "life_update T now (tq_expected_revision r + 1) (le_status c) t r db = Some (1, ?db1)"
    using life_update_unique [OF dist c refl target_closes [OF t]] chk by simp
  have "life_key c \<in> life_keys (lt_rows T db)" using c_mem(1) by (simp add: life_keys_def)
  then have "(tq_entity_id r, tq_life_id r) \<in> life_keys (lt_rows T ?db1)"
    using c_mem(2) c(2) by (simp add: life_key_def)
  then have "event_fks ?db1 ?ev" unfolding transition_event_def by (rule event_key)
  moreover have "life_event_row_check ?ev"
    unfolding transition_event_def
    using event_check [OF edge ok(2) check_columns [OF c_ok(2), unfolded c(2)] now(1) rev(1,2)] .
  ultimately have ins: "life_event_insert ?ev ?db1 = Inr (transitioned_db T now r (le_status c) t db)"
    using fresh unfolding life_event_insert_Inr transitioned_db_def event_fks_def by simp
  have none: "select_life_event (tq_event_id r) db = None"
    using fresh by (auto simp: select_life_event_def find_None_all image_iff)
  have some: "select_life_event (tq_event_id r) (transitioned_db T now r (le_status c) t db) = Some ?ev"
    using none by (simp add: select_life_event_def transitioned_db_def find_append)
  have load: "load_for_transition T True (tq_life_id r) (tq_entity_id r) db = Inr c"
    by (simp add: load_for_transition_Inr c c_ok)
  have reload: "load_for_transition T True (tq_life_id r) (tq_entity_id r)
      (transitioned_db T now r (le_status c) t db) = Inr (transitioned_entity now r t c)"
    using val c(2) by (simp add: load_for_transition_Inr select_transitioned [OF c(1)])
      (simp add: transitioned_entity_def)
  have "life_transition_in_transaction T (\<lambda>_. True) now r db
      = Inr (LifeApplied ?ev (transitioned_entity now r t c), transitioned_db T now r (le_status c) t db)"
    using ok(1) rev(3) none load c(3) t upd ins some reload
    by (simp add: life_transition_in_transaction_def life_request_ok_def
        transition_event_def [symmetric])
  then show ?thesis by (simp add: life_intent_transaction_def with_transaction_def)
qed

lemma can_transition:
  assumes inv: "table_inv T db" "life_events_inv db"
    and ev: "life_validate_id ev = Inr ()" "life_sql_id ev"
      "ev \<notin> lv_event_id ` set (life_event_rows db)"
    and now: "life_sql_nonblank now" "\<not> str_blank now"
    and e: "e \<in> set (lt_rows T db)" and t: "lt_target_status T k (le_status e) = Some t"
  shows "\<exists>v e' db'. life_intent_transaction (\<lambda>_. True) (life_transition_in_transaction T (\<lambda>_. True) now
      \<lparr>tq_event_id = ev, tq_life_id = le_life_id e, tq_entity_id = le_id e,
       tq_expected_revision = le_revision e, tq_kind = k\<rparr>) db = (Inr (LifeApplied v e'), db')
    \<and> le_status e' = t"
proof -
  let ?r = "\<lparr>tq_event_id = ev, tq_life_id = le_life_id e, tq_entity_id = le_id e,
       tq_expected_revision = le_revision e, tq_kind = k\<rparr>"
  from inv(1) e have ok: "lt_validate T e = Inr ()" "life_projects (lt_kind T) e db"
    and dist: "distinct (map le_id (lt_rows T db))"
    by (simp_all add: table_inv_def)
  note cols = validate_columns [OF ok(1)]
  have "le_revision e < i64_max"
    using life_projects_revision [OF ok(2)] by (simp add: i64_bounds)
  then have "life_request_ok ?r"
    using cols ev(1) by (simp add: life_request_ok_def validate_transition_request_def
        validate_transition_request_fields_def life_validate_nonempty_def check_all_Inr_iff)
  moreover have "life_select T (le_id e) db = Some e"
    unfolding life_select_def by (rule find_key_SomeI [OF dist e refl])
  ultimately have "life_intent_transaction (\<lambda>_. True)
      (life_transition_in_transaction T (\<lambda>_. True) now ?r) db
    = (Inr (LifeApplied (transition_event T now ?r (le_status e) t) (transitioned_entity now ?r t e)),
       transitioned_db T now ?r (le_status e) t db)"
    using inv ev now t by (intro transition_total) (simp_all add: entity_store_inv_def)
  then show ?thesis by (auto simp: transitioned_entity_def)
qed

lemma create_total:
  assumes "validated = Inr ()" and "prechecks db = Inr ()" and "shape row = Inr ()"
    and ins: "life_insert T row db = Inr db'"
  shows "life_intent_transaction (\<lambda>_. True)
      (life_create_in_transaction T (\<lambda>_. True) validated matches prechecks row shape) db
    = (Inr (LifeCreated row), db')"
proof -
  have none: "life_select T (le_id row) db = None"
    using ins by (auto simp: insert_rows life_select_def find_None_all image_iff)
  then have "life_select T (le_id row) db' = Some row"
    using ins by (auto simp: insert_rows life_select_def find_append)
  with none assms show ?thesis
    by (simp add: life_intent_transaction_def with_transaction_def life_create_in_transaction_def)
qed

end

lemma status_texts [simp]:
  "life_sql_nonblank ''active''" "life_sql_nonblank ''completed''" "life_sql_nonblank ''cancelled''"
  "life_sql_nonblank ''draft''" "life_sql_nonblank ''pending''" "life_sql_nonblank ''skipped''"
  "life_sql_nonblank ''proposed''" "life_sql_nonblank ''dismissed''"
  by code_simp+

lemma edge_event_check:
  assumes "life_edge kind s t" and "life_sql_id ev" and "life_sql_nonblank l"
    and "life_sql_nonblank now" and "1 \<le> n" and "n < i64_max"
    and "fst (target_columns tg) = kind"
  shows "life_event_row_check (build_event ev l tg s t n (n + 1) now)"
proof -
  have "life_sql_nonblank s" "life_sql_nonblank t" "s \<noteq> t"
    using assms(1) by (auto simp: life_edge_def)
  then show ?thesis
    using assms by (cases tg) (simp_all add: life_event_row_check_def build_event_def
        life_intent_constants i64_bounds)
qed

interpretation live_goals: live_entity_table goal_table
proof (unfold_locales, goal_cases)
  case (1 e t n now)
  then show ?case
    by (auto simp: table_defs goal_row_check_def life_edge_def life_open_def life_intent_constants
        life_after_def)
next
  case (2 e t n now)
  then show ?case
    by (auto simp: table_defs validate_goal_persisted_state_def li_check_defs life_edge_def
        life_open_def life_after_def)
next
  case (3 e)
  then show ?case by (simp add: table_defs goal_row_check_def)
next
  case (4 e)
  then show ?case by (simp add: table_defs validate_goal_persisted_state_def li_check_defs)
next
  case (5 s t ev l now n i)
  then show ?case by (intro edge_event_check) (simp_all add: table_defs)
next
  case (6 i l db ev s t n m now)
  then show ?case
    by (simp add: event_fks_def fk_optional_def build_event_def table_defs)
qed

interpretation live_plans: live_entity_table plan_table
proof (unfold_locales, goal_cases)
  case (1 e t n now)
  then show ?case
    by (auto simp: table_defs plan_row_check_def life_edge_def life_open_def life_intent_constants
        life_after_def)
next
  case (2 e t n now)
  then show ?case
    by (auto simp: table_defs validate_plan_persisted_state_def li_check_defs life_edge_def
        life_open_def life_after_def)
next
  case (3 e)
  then show ?case by (simp add: table_defs plan_row_check_def)
next
  case (4 e)
  then show ?case by (simp add: table_defs validate_plan_persisted_state_def li_check_defs)
next
  case (5 s t ev l now n i)
  then show ?case by (intro edge_event_check) (simp_all add: table_defs)
next
  case (6 i l db ev s t n m now)
  then show ?case
    by (simp add: event_fks_def fk_optional_def build_event_def table_defs)
qed

interpretation live_steps: live_entity_table step_table
proof (unfold_locales, goal_cases)
  case (1 e t n now)
  then show ?case
    by (auto simp: table_defs step_row_check_def life_edge_def life_open_def life_intent_constants
        life_after_def)
next
  case (2 e t n now)
  then show ?case
    by (auto simp: table_defs validate_step_persisted_state_def li_check_defs life_edge_def
        life_open_def life_after_def)
next
  case (3 e)
  then show ?case by (simp add: table_defs step_row_check_def)
next
  case (4 e)
  then show ?case by (simp add: table_defs validate_step_persisted_state_def li_check_defs)
next
  case (5 s t ev l now n i)
  then show ?case by (intro edge_event_check) (simp_all add: table_defs)
next
  case (6 i l db ev s t n m now)
  then show ?case
    by (simp add: event_fks_def fk_optional_def build_event_def table_defs)
qed

interpretation live_actions: live_entity_table action_table
proof (unfold_locales, goal_cases)
  case (1 e t n now)
  then show ?case
    by (auto simp: table_defs action_row_check_def life_edge_def life_open_def life_intent_constants
        life_after_def)
next
  case (2 e t n now)
  then show ?case
    by (auto simp: table_defs validate_action_persisted_state_def li_check_defs life_edge_def
        life_open_def life_after_def)
next
  case (3 e)
  then show ?case by (simp add: table_defs action_row_check_def)
next
  case (4 e)
  then show ?case by (simp add: table_defs validate_action_persisted_state_def li_check_defs)
next
  case (5 s t ev l now n i)
  then show ?case by (intro edge_event_check) (simp_all add: table_defs)
next
  case (6 i l db ev s t n m now)
  then show ?case
    by (simp add: event_fks_def fk_optional_def build_event_def table_defs)
qed

section \<open>A sample history\<close>

definition life_t0 :: string where "life_t0 = ''2026-01-01T00:00:00.000Z''"

definition goal_request1 :: goal_create_request where
  "goal_request1 = \<lparr>gc_goal_id = ''goal-1'', gc_life_id = ''life-a'', gc_title = ''Learn'',
     gc_objective = ''Read a book''\<rparr>"

definition plan_request1 :: plan_create_request where
  "plan_request1 = \<lparr>pc_plan_id = ''plan-1'', pc_life_id = ''life-a'', pc_goal_id = ''goal-1'',
     pc_title = ''Reading''\<rparr>"

definition step_request1 :: step_create_request where
  "step_request1 = \<lparr>sc_step_id = ''step-1'', sc_life_id = ''life-a'', sc_plan_id = ''plan-1'',
     sc_ordinal = 1, sc_summary = ''Chapter one''\<rparr>"

definition action_request1 :: action_create_request where
  "action_request1 = \<lparr>cc_action_id = ''action-1'', cc_life_id = ''life-a'', cc_step_id = ''step-1'',
     cc_execution_class = ''internal_intent'', cc_summary = ''Open it''\<rparr>"

definition activate1 :: "plan_transition_kind life_transition_request" where
  "activate1 = \<lparr>tq_event_id = ''event-1'', tq_life_id = ''life-a'', tq_entity_id = ''plan-1'',
     tq_expected_revision = 1, tq_kind = PlanActivate\<rparr>"

definition skip1 :: "step_transition_kind life_transition_request" where
  "skip1 = \<lparr>tq_event_id = ''event-2'', tq_life_id = ''life-a'', tq_entity_id = ''step-1'',
     tq_expected_revision = 1, tq_kind = StepSkip\<rparr>"

definition life_creates1 :: "life_intent_op list" where
  "life_creates1 =
     [LopCreateGoal (\<lambda>_. True) life_t0 goal_request1, LopCreatePlan (\<lambda>_. True) life_t0 plan_request1,
      LopCreateStep (\<lambda>_. True) life_t0 step_request1,
      LopCreateAction (\<lambda>_. True) life_t0 action_request1]"

definition life_ops1 :: "life_intent_op list" where
  "life_ops1 = life_creates1
     @ [LopPlan (\<lambda>_. True) life_t0 activate1, LopStep (\<lambda>_. True) life_t0 skip1]"

definition goal1 :: life_goal where "goal1 = goal_of_create life_t0 goal_request1"
definition plan1 :: life_plan where "plan1 = plan_of_create life_t0 plan_request1"
definition step1 :: life_step where "step1 = step_of_create life_t0 step_request1"
definition action1 :: life_action where "action1 = action_of_create life_t0 action_request1"
definition active_plan1 :: life_plan where
  "active_plan1 = life_after life_t0 2 ''active'' False plan1"
definition skipped_step1 :: life_step where
  "skipped_step1 = life_after life_t0 2 ''skipped'' True step1"

definition activated1 :: life_intent_event where
  "activated1 = build_event ''event-1'' ''life-a'' (TargetPlan ''plan-1'') ''draft'' ''active'' 1 2 life_t0"
definition skipped1 :: life_intent_event where
  "skipped1 = build_event ''event-2'' ''life-a'' (TargetStep ''step-1'') ''pending'' ''skipped'' 1 2 life_t0"

definition created_db1 :: life_intent_db where
  "created_db1 = \<lparr>life_identity = [''life-a''], goal_rows = [goal1], plan_rows = [plan1],
     step_rows = [step1], action_rows = [action1], life_event_rows = []\<rparr>"

definition activated_db1 :: life_intent_db where
  "activated_db1 = created_db1\<lparr>plan_rows := [active_plan1], life_event_rows := [activated1]\<rparr>"

definition life_db1 :: life_intent_db where
  "life_db1 = activated_db1\<lparr>step_rows := [skipped_step1], life_event_rows := [activated1, skipped1]\<rparr>"

lemmas life_request1_defs =
  goal_request1_def plan_request1_def step_request1_def action_request1_def activate1_def skip1_def

lemmas life_row1_defs = goal1_def plan1_def step1_def action1_def active_plan1_def skipped_step1_def
  goal_of_create_def plan_of_create_def step_of_create_def action_of_create_def life_request1_defs
  life_intent_constants

lemma life_sample_validators:
  "validate_goal_request goal_request1 = Inr ()" "validate_plan_request plan_request1 = Inr ()"
  "validate_step_request step_request1 = Inr ()" "validate_action_request action_request1 = Inr ()"
  "validate_transition_request activate1 = Inr ()" "validate_transition_request skip1 = Inr ()"
  "validate_goal_shape goal1 = Inr ()" "validate_plan_shape plan1 = Inr ()"
  "validate_step_shape step1 = Inr ()" "validate_action_shape action1 = Inr ()"
  by code_simp+

lemma life_sample_checks:
  "goal_row_check goal1" "plan_row_check plan1" "step_row_check step1" "action_row_check action1"
  "life_sql_id ''event-1''" "life_sql_id ''event-2''" "life_sql_id ''event-3''"
  "life_sql_nonblank life_t0" "\<not> str_blank life_t0"
  by code_simp+

lemma life_sample_ids [simp]:
  "le_id goal1 = ''goal-1''" "le_life_id goal1 = ''life-a''" "le_id plan1 = ''plan-1''"
  "le_life_id plan1 = ''life-a''" "lp_goal_id plan1 = ''goal-1''" "le_id step1 = ''step-1''"
  "le_life_id step1 = ''life-a''" "ls_plan_id step1 = ''plan-1''" "le_id action1 = ''action-1''"
  "le_life_id action1 = ''life-a''" "la_step_id action1 = ''step-1''"
  "le_status goal1 = ''active''" "le_status plan1 = ''draft''" "le_status step1 = ''pending''"
  "le_revision goal1 = 1" "le_revision plan1 = 1" "le_revision step1 = 1"
  "gc_life_id goal_request1 = ''life-a''" "pc_life_id plan_request1 = ''life-a''"
  "pc_goal_id plan_request1 = ''goal-1''" "sc_life_id step_request1 = ''life-a''"
  "sc_plan_id step_request1 = ''plan-1''" "cc_life_id action_request1 = ''life-a''"
  "cc_step_id action_request1 = ''step-1''"
  "tq_event_id activate1 = ''event-1''" "tq_life_id activate1 = ''life-a''"
  "tq_entity_id activate1 = ''plan-1''" "tq_expected_revision activate1 = 1"
  "tq_kind activate1 = PlanActivate" "tq_event_id skip1 = ''event-2''"
  "tq_life_id skip1 = ''life-a''" "tq_entity_id skip1 = ''step-1''"
  "tq_expected_revision skip1 = 1" "tq_kind skip1 = StepSkip"
  by (simp_all add: life_row1_defs)

lemma life_sample_create_goal:
  assumes "life_identity db = [''life-a'']" and "goal_rows db = []"
  shows "create_goal (\<lambda>_. True) life_t0 goal_request1 db
     = (Inr (LifeCreated goal1), db\<lparr>goal_rows := [goal1]\<rparr>)"
proof -
  have "life_insert goal_table goal1 db = Inr (db\<lparr>goal_rows := [goal1]\<rparr>)"
    unfolding goals.insert_rows
    by (simp add: life_sample_checks goal_table_def assms)
  then show ?thesis
    unfolding create_goal_def create_goal_in_transaction_def goal1_def [symmetric]
    by (intro live_goals.create_total)
      (simp_all add: life_sample_validators li_require_life_def assms)
qed

lemma life_sample_creates:
  "life_intent_run life_creates1 (life_intent_db_new [''life-a'']) = created_db1"
proof -
  let ?db0 = "life_intent_db_new [''life-a'']"
  let ?db1 = "?db0\<lparr>goal_rows := [goal1]\<rparr>"
  let ?db2 = "?db1\<lparr>plan_rows := [plan1]\<rparr>"
  let ?db3 = "?db2\<lparr>step_rows := [step1]\<rparr>"
  have "create_goal (\<lambda>_. True) life_t0 goal_request1 ?db0 = (Inr (LifeCreated goal1), ?db1)"
    by (simp add: life_sample_create_goal life_intent_db_new_def)
  moreover have "life_insert plan_table plan1 ?db1 = Inr ?db2"
    unfolding plans.insert_rows
    by (simp add: life_sample_checks plan_table_def life_intent_db_new_def life_key_def)
  then have "create_plan (\<lambda>_. True) life_t0 plan_request1 ?db1 = (Inr (LifeCreated plan1), ?db2)"
    unfolding create_plan_def create_plan_in_transaction_def plan1_def [symmetric]
    by (intro live_plans.create_total)
      (simp_all add: life_sample_validators li_require_life_def require_parent_def
        life_intent_db_new_def)
  moreover have "life_insert step_table step1 ?db2 = Inr ?db3"
    unfolding steps.insert_rows
    by (simp add: life_sample_checks step_table_def life_intent_db_new_def life_key_def)
  then have "create_step (\<lambda>_. True) life_t0 step_request1 ?db2 = (Inr (LifeCreated step1), ?db3)"
    unfolding create_step_def create_step_in_transaction_def step1_def [symmetric]
    by (intro live_steps.create_total)
      (simp_all add: life_sample_validators li_require_life_def require_parent_def
        ordinal_claimed_in_plan_def life_intent_db_new_def)
  moreover have "life_insert action_table action1 ?db3 = Inr (?db3\<lparr>action_rows := [action1]\<rparr>)"
    unfolding actions.insert_rows
    by (simp add: life_sample_checks action_table_def life_intent_db_new_def life_key_def)
  then have "create_action (\<lambda>_. True) life_t0 action_request1 ?db3
      = (Inr (LifeCreated action1), ?db3\<lparr>action_rows := [action1]\<rparr>)"
    unfolding create_action_def create_action_in_transaction_def action1_def [symmetric]
    by (intro live_actions.create_total)
      (simp_all add: life_sample_validators li_require_life_def require_parent_def
        life_intent_db_new_def)
  ultimately show ?thesis
    by (simp add: life_intent_run_def life_creates1_def)
      (simp add: created_db1_def life_intent_db_new_def)
qed

lemma created_inv: "life_intent_inv created_db1"
  using life_intent_run_inv [OF life_intent_db_new_inv, of life_creates1 "[''life-a'']"]
  by (simp add: life_sample_creates)

lemma life_sample_activate:
  "transition_plan (\<lambda>_. True) life_t0 activate1 created_db1
     = (Inr (LifeApplied activated1 active_plan1), activated_db1)"
proof -
  let ?T = "plan_table :: (life_plan, plan_transition_kind, life_intent_db) life_table"
  have inv: "entity_store_inv ?T created_db1"
    using created_inv by (simp add: entity_store_inv_def life_intent_inv_def)
  have "transition_plan (\<lambda>_. True) life_t0 activate1 created_db1
      = (Inr (LifeApplied (transition_event ?T life_t0 activate1 (le_status plan1) ''active'')
                (transitioned_entity life_t0 activate1 ''active'' plan1)),
         transitioned_db ?T life_t0 activate1 (le_status plan1) ''active'' created_db1)"
    unfolding transition_plan_def transition_plan_in_transaction_def
    by (rule live_plans.transition_total [OF inv])
      (simp_all add: life_request_ok_def life_sample_validators life_sample_checks
        created_db1_def life_select_def table_defs life_intent_constants)
  then show ?thesis
    by (simp add: transition_event_def transitioned_entity_def transitioned_db_def activated1_def
        active_plan1_def activated_db1_def created_db1_def life_open_def)
      (simp add: table_defs)
qed

lemma activated_inv: "life_intent_inv activated_db1"
  using life_intent_op_step_inv [OF created_inv, of "LopPlan (\<lambda>_. True) life_t0 activate1"]
  by (simp add: life_sample_activate)

lemma life_sample_skip:
  "transition_step (\<lambda>_. True) life_t0 skip1 activated_db1
     = (Inr (LifeApplied skipped1 skipped_step1), life_db1)"
proof -
  let ?T = "step_table :: (life_step, step_transition_kind, life_intent_db) life_table"
  have inv: "entity_store_inv ?T activated_db1"
    using activated_inv by (simp add: entity_store_inv_def life_intent_inv_def)
  have "transition_step (\<lambda>_. True) life_t0 skip1 activated_db1
      = (Inr (LifeApplied (transition_event ?T life_t0 skip1 (le_status step1) ''skipped'')
                (transitioned_entity life_t0 skip1 ''skipped'' step1)),
         transitioned_db ?T life_t0 skip1 (le_status step1) ''skipped'' activated_db1)"
    unfolding transition_step_def transition_step_in_transaction_def
    by (rule live_steps.transition_total [OF inv])
      (simp_all add: life_request_ok_def life_sample_validators life_sample_checks
        activated_db1_def created_db1_def activated1_def life_select_def table_defs
        life_intent_constants)
  then show ?thesis
    by (simp add: transition_event_def transitioned_entity_def transitioned_db_def skipped1_def
        skipped_step1_def life_db1_def activated_db1_def created_db1_def life_open_def)
      (simp add: table_defs)
qed

lemma life_sample_run: "life_intent_run life_ops1 (life_intent_db_new [''life-a'']) = life_db1"
  using life_sample_creates
  by (simp add: life_intent_run_def life_ops1_def life_sample_activate life_sample_skip)

section \<open>The properties\<close>

definition entity_is_ledger ::
    "string \<Rightarrow> 'a life_intent_db_scheme \<Rightarrow> 'e life_entity_scheme \<Rightarrow> bool" where
  "entity_is_ledger kind db e \<longleftrightarrow>
     life_replay kind (life_history kind (le_id e) db) (life_original kind e) = Some e
     \<and> le_revision e = 1 + int (length (life_history kind (le_id e) db)) \<and> le_revision e \<le> 3
     \<and> (le_closed_at e = None \<longleftrightarrow> life_open (le_status e))"

lemma life_original_fixed:
  assumes "life_original kind e = e"
  shows "le_revision e = 1" "le_status e = life_initial kind" "le_closed_at e = None"
  using arg_cong [OF assms, of le_revision] arg_cong [OF assms, of le_status]
    arg_cong [OF assms, of le_closed_at] by simp_all

lemma projects_ledger: "life_projects kind e db \<Longrightarrow> entity_is_ledger kind db e"
  using life_replay_facts [of kind "life_history kind (le_id e) db" "life_original kind e" e]
    life_projects_revision [of kind e db]
  by (cases "life_history kind (le_id e) db = []")
    (auto simp: entity_is_ledger_def life_projects_def life_original_fixed)

lemma key_exists: "(i, l) \<in> life_keys rows \<longleftrightarrow> (\<exists>e \<in> set rows. le_id e = i \<and> le_life_id e = l)"
  by (auto simp: life_keys_def life_key_def)

lemma event_names_some:
  assumes "life_event_row_check v" and "event_fks db v"
  shows "(\<exists>g \<in> set (goal_rows db). names_entity ''goal'' (le_id g) v \<and> le_life_id g = lv_life_id v)
    \<or> (\<exists>p \<in> set (plan_rows db). names_entity ''plan'' (le_id p) v \<and> le_life_id p = lv_life_id v)
    \<or> (\<exists>s \<in> set (step_rows db). names_entity ''step'' (le_id s) v \<and> le_life_id s = lv_life_id v)
    \<or> (\<exists>a \<in> set (action_rows db). names_entity ''action'' (le_id a) v \<and> le_life_id a = lv_life_id v)"
proof -
  have names: "names_entity ''goal'' i v \<longleftrightarrow> lv_entity_kind v = ''goal'' \<and> lv_goal_id v = Some i
        \<and> lv_plan_id v = None \<and> lv_step_id v = None \<and> lv_action_id v = None"
      "names_entity ''plan'' i v \<longleftrightarrow> lv_entity_kind v = ''plan'' \<and> lv_goal_id v = None
        \<and> lv_plan_id v = Some i \<and> lv_step_id v = None \<and> lv_action_id v = None"
      "names_entity ''step'' i v \<longleftrightarrow> lv_entity_kind v = ''step'' \<and> lv_goal_id v = None
        \<and> lv_plan_id v = None \<and> lv_step_id v = Some i \<and> lv_action_id v = None"
      "names_entity ''action'' i v \<longleftrightarrow> lv_entity_kind v = ''action'' \<and> lv_goal_id v = None
        \<and> lv_plan_id v = None \<and> lv_step_id v = None \<and> lv_action_id v = Some i" for i
    by (simp_all add: names_entity_def event_target_matches_def life_intent_constants)
  have "lv_entity_kind v \<in> {''goal'', ''plan'', ''step'', ''action''}"
    using assms(1) by (auto simp: life_event_row_check_def)
  then show ?thesis
    using assms
    by (elim insertE emptyE; clarsimp simp: names life_event_row_check_def event_fks_def
        fk_optional_def key_exists) blast+
qed

text \<open>
  C10: goals, plans, steps and actions are ledgers. In every database the repository reaches, with
  statements failing at any point and entities deleted in between, each row is the replay of its own
  events on the row as created, along permitted transitions only; its revision counts its events and
  is at most 3, and it has a closing time exactly when its status is terminal.
\<close>

theorem life_intents_are_ledgers:
  assumes "db = life_intent_run ops (life_intent_db_new lives)"
  shows "(\<forall>g \<in> set (goal_rows db). entity_is_ledger ''goal'' db g)
    \<and> (\<forall>p \<in> set (plan_rows db). entity_is_ledger ''plan'' db p)
    \<and> (\<forall>s \<in> set (step_rows db). entity_is_ledger ''step'' db s)
    \<and> (\<forall>a \<in> set (action_rows db). entity_is_ledger ''action'' db a)"
proof -
  have "life_intent_inv db"
    unfolding assms by (rule life_intent_run_inv [OF life_intent_db_new_inv])
  note parts = life_intent_inv_parts [OF this]
  show ?thesis
    using parts(1-4) by (simp add: table_inv_def projects_ledger)
qed

lemma life_intents_are_ledgers_witness:
  "\<exists>p \<in> set (plan_rows life_db1). entity_is_ledger ''plan'' life_db1 p
     \<and> le_status p = ''active'' \<and> life_history ''plan'' (le_id p) life_db1 = [activated1]"
proof -
  have p: "active_plan1 \<in> set (plan_rows life_db1)" "le_status active_plan1 = ''active''"
    by (simp_all add: life_db1_def activated_db1_def active_plan1_def)
  have "life_history ''plan'' (le_id active_plan1) life_db1 = [activated1]"
    by (simp add: life_history_def life_db1_def names_entity_def activated1_def skipped1_def
        life_intent_constants active_plan1_def event_target_matches_def build_event_def)
  with p show ?thesis
    using life_intents_are_ledgers [OF life_sample_run [symmetric]] by blast
qed

text \<open>
  C11: the tree stays intact. In every reachable database the identities of each kind are unique, a
  plan belongs to an existing goal of the same life, a step to such a plan and an action to such a
  step, the ordinals of a plan's steps are unique, and every event names an existing entity of its
  life.
\<close>

theorem life_intent_tree_intact:
  assumes "db = life_intent_run ops (life_intent_db_new lives)"
  shows "distinct (map le_id (goal_rows db)) \<and> distinct (map le_id (plan_rows db))
    \<and> distinct (map le_id (step_rows db)) \<and> distinct (map le_id (action_rows db))
    \<and> (\<forall>p \<in> set (plan_rows db). \<exists>g \<in> set (goal_rows db).
         le_id g = lp_goal_id p \<and> le_life_id g = le_life_id p)
    \<and> (\<forall>s \<in> set (step_rows db). \<exists>p \<in> set (plan_rows db).
         le_id p = ls_plan_id s \<and> le_life_id p = le_life_id s)
    \<and> (\<forall>a \<in> set (action_rows db). \<exists>s \<in> set (step_rows db).
         le_id s = la_step_id a \<and> le_life_id s = le_life_id a)
    \<and> (\<forall>s \<in> set (step_rows db). \<forall>t \<in> set (step_rows db).
         ls_plan_id s = ls_plan_id t \<and> ls_ordinal s = ls_ordinal t \<longrightarrow> s = t)
    \<and> (\<forall>v \<in> set (life_event_rows db).
         (\<exists>g \<in> set (goal_rows db). names_entity ''goal'' (le_id g) v \<and> le_life_id g = lv_life_id v)
         \<or> (\<exists>p \<in> set (plan_rows db). names_entity ''plan'' (le_id p) v \<and> le_life_id p = lv_life_id v)
         \<or> (\<exists>s \<in> set (step_rows db). names_entity ''step'' (le_id s) v \<and> le_life_id s = lv_life_id v)
         \<or> (\<exists>a \<in> set (action_rows db).
              names_entity ''action'' (le_id a) v \<and> le_life_id a = lv_life_id v))"
proof -
  have inv: "life_intent_inv db"
    unfolding assms by (rule life_intent_run_inv [OF life_intent_db_new_inv])
  note parts = life_intent_inv_parts [OF inv]
  have "s = t" if "s \<in> set (step_rows db)" "t \<in> set (step_rows db)"
      "ls_plan_id s = ls_plan_id t" "ls_ordinal s = ls_ordinal t" for s t
    using parts(6) that by (simp add: ordinals_distinct_def distinct_map inj_on_def)
  moreover have "\<forall>v \<in> set (life_event_rows db). life_event_row_check v \<and> event_fks db v"
    using parts(5) by (simp add: life_events_inv_def)
  ultimately show ?thesis
    using parts(2-4) life_intent_distinct [OF inv] event_names_some [of _ db]
    by (simp add: table_inv_def key_exists)
qed

lemma life_intent_tree_intact_witness:
  "\<exists>s \<in> set (step_rows life_db1). \<exists>p \<in> set (plan_rows life_db1).
     le_id p = ls_plan_id s \<and> le_life_id p = le_life_id s"
proof -
  have "skipped_step1 \<in> set (step_rows life_db1)" by (simp add: life_db1_def)
  then show ?thesis
    using life_intent_tree_intact [OF life_sample_run [symmetric]] by blast
qed

text \<open>
  What is closed stays closed. After any further operations that delete nothing, every completed,
  cancelled, skipped or dismissed entity is in its table exactly as it was: no transition starts from
  a terminal status and no other column is ever written.
\<close>

theorem closed_entities_are_final:
  assumes "db = life_intent_run ops (life_intent_db_new lives)"
    and "\<forall>op \<in> set ops'. \<not> deletes op" and "db' = life_intent_run ops' db"
  shows "(\<forall>g \<in> set (goal_rows db). \<not> life_open (le_status g) \<longrightarrow> g \<in> set (goal_rows db'))
    \<and> (\<forall>p \<in> set (plan_rows db). \<not> life_open (le_status p) \<longrightarrow> p \<in> set (plan_rows db'))
    \<and> (\<forall>s \<in> set (step_rows db). \<not> life_open (le_status s) \<longrightarrow> s \<in> set (step_rows db'))
    \<and> (\<forall>a \<in> set (action_rows db). \<not> life_open (le_status a) \<longrightarrow> a \<in> set (action_rows db'))"
proof -
  have "life_intent_inv db"
    unfolding assms(1) by (rule life_intent_run_inv [OF life_intent_db_new_inv])
  then have "life_kept db db'" unfolding assms(3) using assms(2) by (rule life_kept_run)
  then show ?thesis by (simp add: life_kept_def)
qed

lemma closed_entities_are_final_witness:
  "skipped_step1 \<in> set (step_rows (life_intent_run
     [LopStep (\<lambda>_. True) life_t0
        \<lparr>tq_event_id = ''event-3'', tq_life_id = ''life-a'', tq_entity_id = ''step-1'',
         tq_expected_revision = 2, tq_kind = StepComplete\<rparr>] life_db1))"
proof -
  let ?ops = "[LopStep (\<lambda>_. True) life_t0
        \<lparr>tq_event_id = ''event-3'', tq_life_id = ''life-a'', tq_entity_id = ''step-1'',
         tq_expected_revision = 2, tq_kind = StepComplete\<rparr>]"
  have s: "skipped_step1 \<in> set (step_rows life_db1)" "\<not> life_open (le_status skipped_step1)"
    by (simp_all add: life_db1_def skipped_step1_def life_open_def)
  have "\<forall>op \<in> set ?ops. \<not> deletes op" by simp
  from closed_entities_are_final [OF life_sample_run [symmetric] this refl] s show ?thesis by blast
qed

section \<open>Transitions happen once\<close>

lemma replay_applied_le:
  "life_replay kind vs e = Some f \<Longrightarrow> v \<in> set vs \<Longrightarrow> lv_applied_revision v \<le> le_revision f"
proof (induction vs arbitrary: e)
  case (Cons w vs)
  then have rep: "life_replay kind vs (life_after (lv_occurred_at w) (lv_applied_revision w)
      (lv_to_status w) (\<not> life_open (lv_to_status w)) e) = Some f"
    by (auto split: if_splits)
  show ?case
  proof (cases "v = w")
    case True
    with life_replay_facts [OF rep] show ?thesis by simp
  qed (use Cons.IH [OF rep] Cons.prems in simp)
qed simp

lemma plan_transition_applied:
  assumes inv: "life_intent_inv db" and tr: "transition_plan io now r db = (Inr (LifeApplied v p), db1)"
  shows "v \<in> set (life_event_rows db1)" "lv_event_id v = tq_event_id r"
proof -
  have t: "life_transition_in_transaction plan_table io now r db = Inr (LifeApplied v p, db1)"
    using tr by (simp add: transition_plan_def transition_plan_in_transaction_def
        life_intent_transaction_def with_transaction_Inr)
  have "distinct (map le_id (lt_rows plan_table db))"
    using life_intent_distinct(2) [OF inv] by (simp add: plan_table_def)
  with t have "v \<in> set (life_event_rows db1) \<and> lv_event_id v = tq_event_id r"
    by (cases rule: plans.transition_cases)
      (auto simp: plan_table_def life_event_insert_Inr transition_event_def build_event_def)
  then show "v \<in> set (life_event_rows db1)" "lv_event_id v = tq_event_id r" by simp_all
qed

lemma plan_transition_replayed:
  assumes inv: "life_intent_inv db" and tr: "transition_plan io now r db = (Inr (LifeReplayed v p), db1)"
    and w: "w \<in> set (life_event_rows db)" "lv_event_id w = tq_event_id r"
  shows "v = w" "p \<in> set (plan_rows db)" "le_id p = tq_entity_id r"
proof -
  have t: "life_transition_in_transaction plan_table io now r db = Inr (LifeReplayed v p, db1)"
    using tr by (simp add: transition_plan_def transition_plan_in_transaction_def
        life_intent_transaction_def with_transaction_Inr)
  have "distinct (map lv_event_id (life_event_rows db))"
    using inv by (simp add: life_intent_inv_def life_events_inv_def)
  then have sel: "select_life_event (tq_event_id r) db = Some w"
    unfolding select_life_event_def using w by (intro find_key_SomeI) simp_all
  have "distinct (map le_id (lt_rows plan_table db))"
    using life_intent_distinct(2) [OF inv] by (simp add: plan_table_def)
  with t have "v = w \<and> p \<in> set (plan_rows db) \<and> le_id p = tq_entity_id r"
    by (cases rule: plans.transition_cases)
      (use sel in \<open>auto simp: plan_table_def life_select_def dest!: find_Some_mem\<close>)
  then show "v = w" "p \<in> set (plan_rows db)" "le_id p = tq_entity_id r" by simp_all
qed

text \<open>
  C12: a plan transition happens once. After one was applied, and whatever operations other than
  deletions ran, the same request is answered with the recorded event and the current row of the plan
  and changes nothing, and no request for that plan on the same or an older revision is ever applied:
  of two callers that saw the same plan one wins. Deletions are left out because they have to be: the
  identity of a plan is the caller's, and a plan that was deleted with its events and created again
  is another plan, to which the same request can be applied.
\<close>

theorem plan_transition_once:
  assumes "db = life_intent_run ops (life_intent_db_new lives)"
    and "transition_plan io now r db = (Inr (LifeApplied v p), db1)"
    and "\<forall>op \<in> set ops'. \<not> deletes op" and "db2 = life_intent_run ops' db1"
  shows "((\<forall>stmt. io' stmt) \<longrightarrow>
      (\<exists>p' \<in> set (plan_rows db2). le_id p' = tq_entity_id r
         \<and> transition_plan io' now' r db2 = (Inr (LifeReplayed v p'), db2)))
    \<and> (tq_entity_id u = tq_entity_id r \<and> tq_expected_revision u \<le> tq_expected_revision r \<longrightarrow>
        (\<forall>v' p'. fst (transition_plan io' now' u db2) \<noteq> Inr (LifeApplied v' p'))
        \<and> snd (transition_plan io' now' u db2) = db2)"
proof -
  have step: "transition_plan io now r db = entity_step plan_table db (io, now, r)" for io now r
      and db :: life_intent_db
    by (simp add: entity_step_def transition_plan_def transition_plan_in_transaction_def)
  have inv: "life_intent_inv db"
    unfolding assms(1) by (rule life_intent_run_inv [OF life_intent_db_new_inv])
  then have store: "entity_store_inv plan_table db"
    by (simp add: entity_store_inv_def life_intent_inv_def)
  have fresh: "transition_recorded plan_table db1 (io, now, r)"
    using plans.step_fresh_facts [OF store, of "(io, now, r)" "LifeApplied v p" db1] assms(2)
    by (simp add: step)
  have inv1: "life_intent_inv db1"
    using life_intent_op_step_inv [OF inv, of "LopPlan io now r"] assms(2) by simp
  then have inv2: "life_intent_inv db2" and kept: "life_kept db1 db2"
    unfolding assms(4) using assms(3) by (auto intro: life_intent_run_inv life_kept_run)
  then have store2: "entity_store_inv plan_table db2"
    by (simp add: entity_store_inv_def life_intent_inv_def)
  have rec: "transition_recorded plan_table db2 (io', now', r)"
    using fresh kept by (auto simp: transition_recorded_def transition_request_def life_kept_def)
  have v: "v \<in> set (life_event_rows db2)" "lv_event_id v = tq_event_id r"
    using plan_transition_applied [OF inv assms(2)] kept by (auto simp: life_kept_def)
  have "\<exists>p' \<in> set (plan_rows db2). le_id p' = tq_entity_id r
      \<and> transition_plan io' now' r db2 = (Inr (LifeReplayed v p'), db2)"
    if "\<forall>stmt. io' stmt"
  proof -
    have "\<exists>out. entity_step plan_table db2 (io', now', r) = (Inr out, db2) \<and> \<not> transition_fresh out"
      using store2 rec by (rule plans.recorded_replays) (use that in \<open>simp add: transition_call_defs\<close>)
    then obtain out where "entity_step plan_table db2 (io', now', r) = (Inr out, db2)"
        "\<not> transition_fresh out" by blast
    then obtain v' p' where rep: "transition_plan io' now' r db2 = (Inr (LifeReplayed v' p'), db2)"
      by (cases out) (auto simp: step)
    from plan_transition_replayed [OF inv2 rep v] rep show ?thesis by blast
  qed
  moreover have "\<not> plans.transitions.is_fresh (fst (entity_step plan_table db2 (io', now', u)))"
    if older: "tq_entity_id u = tq_entity_id r" "tq_expected_revision u \<le> tq_expected_revision r"
  proof
    assume new: "plans.transitions.is_fresh (fst (entity_step plan_table db2 (io', now', u)))"
    have "entity_revision plan_table db2 (tq_entity_id u) = Some (tq_expected_revision u)"
      using plans.transitions.step_fresh(1) [OF store2 new] by (simp add: transition_call_defs)
    then obtain q where q: "find (\<lambda>e. le_id e = tq_entity_id u) (plan_rows db2) = Some q"
        "le_revision q = tq_expected_revision u"
      by (auto simp: entity_revision_def life_select_def)
    from rec obtain w where w: "w \<in> set (life_event_rows db2)"
        "lv_applied_revision w = tq_expected_revision r + 1"
        "names_entity ''plan'' (tq_entity_id r) w"
      by (auto simp: transition_recorded_def transition_request_def life_event_evidence_matches_def
          names_entity_def)
    have "q \<in> set (plan_rows db2)" "le_id q = tq_entity_id r"
      using find_Some_mem [OF q(1)] older(1) by simp_all
    then have "life_projects ''plan'' q db2" "w \<in> set (life_history ''plan'' (le_id q) db2)"
      using inv2 w by (simp_all add: life_intent_inv_def table_inv_def life_history_def)
    from replay_applied_le [OF this [unfolded life_projects_def]]
    show False using w(2) q(2) older(2) by simp
  qed
  ultimately show ?thesis
    using plans.transitions.step_frame [of db2 "(io', now', u)"]
    by (auto simp: step plans.transitions.is_fresh_def split: sum.splits)
qed

lemma plan_transition_once_witness:
  "(\<exists>p. transition_plan (\<lambda>_. True) life_t0 activate1 life_db1
       = (Inr (LifeReplayed activated1 p), life_db1))
   \<and> snd (transition_plan (\<lambda>_. True) life_t0
         (activate1\<lparr>tq_event_id := ''event-3'', tq_kind := PlanCancel\<rparr>) life_db1) = life_db1"
proof -
  let ?ops = "[LopStep (\<lambda>_. True) life_t0 skip1]"
  have run: "life_db1 = life_intent_run ?ops activated_db1"
    by (simp add: life_intent_run_def life_sample_skip)
  have none: "\<forall>op \<in> set ?ops. \<not> deletes op" by simp
  show ?thesis
    using plan_transition_once [OF life_sample_creates [symmetric] life_sample_activate none run,
        of "\<lambda>_. True" life_t0 "activate1\<lparr>tq_event_id := ''event-3'', tq_kind := PlanCancel\<rparr>"]
    by auto
qed

section \<open>Creation is idempotent\<close>

text \<open>
  The creation of a goal is idempotent. After a goal was created, whatever operations other than
  deletions ran, the same request is answered with the current row of that goal, whose creation
  columns are those of the first answer, and changes nothing; a request that reuses the identity with
  another life, title or objective is refused and changes nothing either.
\<close>

theorem goal_creation_is_idempotent:
  assumes "db = life_intent_run ops (life_intent_db_new lives)"
    and "create_goal io now r db = (Inr (LifeCreated g), db1)"
    and "\<forall>op \<in> set ops'. \<not> deletes op" and "db2 = life_intent_run ops' db1"
    and "\<forall>stmt. io' stmt"
  shows "(\<exists>g'. create_goal io' now' r db2 = (Inr (LifeCreateReplayed g'), db2)
           \<and> life_original ''goal'' g' = g)
    \<and> (gc_goal_id u = gc_goal_id r \<and> u \<noteq> r \<longrightarrow> (\<exists>e. create_goal io' now' u db2 = (Inl e, db2)))"
proof -
  have inv: "life_intent_inv db"
    unfolding assms(1) by (rule life_intent_run_inv [OF life_intent_db_new_inv])
  have cr: "create_goal_in_transaction io now r db = Inr (LifeCreated g, db1)"
    using assms(2) by (simp add: create_goal_def life_intent_transaction_def with_transaction_Inr)
  have g: "g = goal_of_create now r" "validate_goal_request r = Inr ()" "g \<in> set (goal_rows db1)"
    using cr [unfolded create_goal_in_transaction_def]
    by (cases rule: goals.create_cases; simp add: goals.insert_rows)+
  have inv1: "life_intent_inv db1" using inv cr by (rule create_goal_inv)
  then have inv2: "life_intent_inv db2" and kept: "life_kept db1 db2"
    unfolding assms(4) using assms(3) by (auto intro: life_intent_run_inv life_kept_run)
  from kept g(1,3) have "g \<in> life_original ''goal'' ` set (goal_rows db2)"
    by (force simp: life_kept_def)
  then obtain g' where g': "g' \<in> set (goal_rows db2)" "life_original ''goal'' g' = g" by auto
  from arg_cong [OF g'(2), of le_id] have "le_id g' = gc_goal_id r" by (simp add: g(1))
  then have sel: "life_select goal_table (gc_goal_id r) db2 = Some g'"
    unfolding life_select_def using g'(1) life_intent_distinct(1) [OF inv2]
    by (intro find_key_SomeI) simp_all
  have cols: "le_life_id g' = gc_life_id r" "lg_title g' = gc_title r"
      "lg_objective g' = gc_objective r"
    using arg_cong [OF g'(2), of le_life_id] arg_cong [OF g'(2), of lg_title]
      arg_cong [OF g'(2), of lg_objective]
    by (simp_all add: g(1) goal_of_create_def life_original_def)
  have "create_goal io' now' r db2 = (Inr (LifeCreateReplayed g'), db2)"
    using sel cols g(2) assms(5)
    by (simp add: create_goal_def create_goal_in_transaction_def life_create_in_transaction_def
        life_intent_transaction_def with_transaction_def)
  moreover have "\<exists>e. create_goal io' now' u db2 = (Inl e, db2)"
    if "gc_goal_id u = gc_goal_id r" "u \<noteq> r"
  proof -
    have "\<not> (gc_life_id r = gc_life_id u \<and> gc_title r = gc_title u
        \<and> gc_objective r = gc_objective u)"
      using that by (metis goal_create_request.equality unit.exhaust goal_create_request.cases
          goal_create_request.select_convs)
    then show ?thesis
      using sel cols that(1) assms(5)
      by (cases "validate_goal_request u")
        (auto simp: create_goal_def create_goal_in_transaction_def life_create_in_transaction_def
          life_intent_transaction_def with_transaction_def)
  qed
  ultimately show ?thesis using g'(2) by blast
qed

section \<open>Open entities can be closed\<close>

lemma cancel_targets:
  "validate_goal_persisted_state g = Inr () \<Longrightarrow> life_open (le_status g) \<Longrightarrow>
   lt_target_status goal_table GoalCancel (le_status g) = Some ''cancelled''"
  "validate_plan_persisted_state p = Inr () \<Longrightarrow> life_open (le_status p) \<Longrightarrow>
   lt_target_status plan_table PlanCancel (le_status p) = Some ''cancelled''"
  "validate_step_persisted_state s = Inr () \<Longrightarrow> life_open (le_status s) \<Longrightarrow>
   lt_target_status step_table StepCancel (le_status s) = Some ''cancelled''"
  "validate_action_persisted_state a = Inr () \<Longrightarrow> life_open (le_status a) \<Longrightarrow>
   lt_target_status action_table ActionDismiss (le_status a) = Some ''dismissed''"
  by (auto simp: table_defs validate_goal_persisted_state_def validate_plan_persisted_state_def
      validate_step_persisted_state_def validate_action_persisted_state_def li_check_defs
      life_open_def)

text \<open>
  C13: nothing open is stuck. In every reachable database every open entity can be cancelled (an
  action dismissed) by one transition with a fresh event identity, when SQLite executes its
  statements: it is applied and leaves the row with that status.
\<close>

theorem open_entities_can_be_closed:
  assumes "db = life_intent_run ops (life_intent_db_new lives)"
    and "life_validate_id ev = Inr ()" and "life_sql_id ev"
    and "ev \<notin> lv_event_id ` set (life_event_rows db)"
    and "life_sql_nonblank now" and "\<not> str_blank now"
  shows "(\<forall>g \<in> set (goal_rows db). life_open (le_status g) \<longrightarrow>
      (\<exists>v g' db'. transition_goal (\<lambda>_. True) now
         \<lparr>tq_event_id = ev, tq_life_id = le_life_id g, tq_entity_id = le_id g,
          tq_expected_revision = le_revision g, tq_kind = GoalCancel\<rparr> db
         = (Inr (LifeApplied v g'), db') \<and> le_status g' = ''cancelled''))
    \<and> (\<forall>p \<in> set (plan_rows db). life_open (le_status p) \<longrightarrow>
      (\<exists>v p' db'. transition_plan (\<lambda>_. True) now
         \<lparr>tq_event_id = ev, tq_life_id = le_life_id p, tq_entity_id = le_id p,
          tq_expected_revision = le_revision p, tq_kind = PlanCancel\<rparr> db
         = (Inr (LifeApplied v p'), db') \<and> le_status p' = ''cancelled''))
    \<and> (\<forall>s \<in> set (step_rows db). life_open (le_status s) \<longrightarrow>
      (\<exists>v s' db'. transition_step (\<lambda>_. True) now
         \<lparr>tq_event_id = ev, tq_life_id = le_life_id s, tq_entity_id = le_id s,
          tq_expected_revision = le_revision s, tq_kind = StepCancel\<rparr> db
         = (Inr (LifeApplied v s'), db') \<and> le_status s' = ''cancelled''))
    \<and> (\<forall>a \<in> set (action_rows db). life_open (le_status a) \<longrightarrow>
      (\<exists>v a' db'. transition_action (\<lambda>_. True) now
         \<lparr>tq_event_id = ev, tq_life_id = le_life_id a, tq_entity_id = le_id a,
          tq_expected_revision = le_revision a, tq_kind = ActionDismiss\<rparr> db
         = (Inr (LifeApplied v a'), db') \<and> le_status a' = ''dismissed''))"
proof -
  have inv: "life_intent_inv db"
    unfolding assms(1) by (rule life_intent_run_inv [OF life_intent_db_new_inv])
  note parts = life_intent_inv_parts [OF inv]
  have g: "\<exists>v g' db'. transition_goal (\<lambda>_. True) now
         \<lparr>tq_event_id = ev, tq_life_id = le_life_id g, tq_entity_id = le_id g,
          tq_expected_revision = le_revision g, tq_kind = GoalCancel\<rparr> db
         = (Inr (LifeApplied v g'), db') \<and> le_status g' = ''cancelled''"
    if "g \<in> set (goal_rows db)" "life_open (le_status g)" for g
    unfolding transition_goal_def transition_goal_in_transaction_def
    using that parts(1)
    by (intro live_goals.can_transition [OF parts(1,5) assms(2-6)])
      (auto simp: table_inv_def cancel_targets)
  have p: "\<exists>v p' db'. transition_plan (\<lambda>_. True) now
         \<lparr>tq_event_id = ev, tq_life_id = le_life_id p, tq_entity_id = le_id p,
          tq_expected_revision = le_revision p, tq_kind = PlanCancel\<rparr> db
         = (Inr (LifeApplied v p'), db') \<and> le_status p' = ''cancelled''"
    if "p \<in> set (plan_rows db)" "life_open (le_status p)" for p
    unfolding transition_plan_def transition_plan_in_transaction_def
    using that parts(2)
    by (intro live_plans.can_transition [OF parts(2,5) assms(2-6)])
      (auto simp: table_inv_def cancel_targets)
  have s: "\<exists>v s' db'. transition_step (\<lambda>_. True) now
         \<lparr>tq_event_id = ev, tq_life_id = le_life_id s, tq_entity_id = le_id s,
          tq_expected_revision = le_revision s, tq_kind = StepCancel\<rparr> db
         = (Inr (LifeApplied v s'), db') \<and> le_status s' = ''cancelled''"
    if "s \<in> set (step_rows db)" "life_open (le_status s)" for s
    unfolding transition_step_def transition_step_in_transaction_def
    using that parts(3)
    by (intro live_steps.can_transition [OF parts(3,5) assms(2-6)])
      (auto simp: table_inv_def cancel_targets)
  have a: "\<exists>v a' db'. transition_action (\<lambda>_. True) now
         \<lparr>tq_event_id = ev, tq_life_id = le_life_id a, tq_entity_id = le_id a,
          tq_expected_revision = le_revision a, tq_kind = ActionDismiss\<rparr> db
         = (Inr (LifeApplied v a'), db') \<and> le_status a' = ''dismissed''"
    if "a \<in> set (action_rows db)" "life_open (le_status a)" for a
    unfolding transition_action_def transition_action_in_transaction_def
    using that parts(4)
    by (intro live_actions.can_transition [OF parts(4,5) assms(2-6)])
      (auto simp: table_inv_def cancel_targets)
  from g p s a show ?thesis by blast
qed

lemma goal_creation_is_idempotent_witness:
  "\<exists>g'. create_goal (\<lambda>_. True) life_t0 goal_request1 life_db1
     = (Inr (LifeCreateReplayed g'), life_db1)"
proof -
  let ?db0 = "life_intent_db_new [''life-a'']"
  have new: "life_intent_run [] ?db0 = ?db0" by (simp add: life_intent_run_def)
  have created: "create_goal (\<lambda>_. True) life_t0 goal_request1 ?db0
      = (Inr (LifeCreated goal1), ?db0\<lparr>goal_rows := [goal1]\<rparr>)"
    by (rule life_sample_create_goal) (simp_all add: life_intent_db_new_def)
  have run: "life_db1 = life_intent_run (tl life_ops1) (?db0\<lparr>goal_rows := [goal1]\<rparr>)"
    using life_sample_run created
    by (simp add: life_intent_run_def life_ops1_def life_creates1_def)
  have none: "\<forall>op \<in> set (tl life_ops1). \<not> deletes op"
    by (simp add: life_ops1_def life_creates1_def)
  show ?thesis
    using goal_creation_is_idempotent [OF new [symmetric] created none run,
        of "\<lambda>_. True" life_t0 goal_request1] by auto
qed

lemma open_entities_can_be_closed_witness:
  "\<exists>v g' db'. transition_goal (\<lambda>_. True) life_t0
     \<lparr>tq_event_id = ''event-3'', tq_life_id = ''life-a'', tq_entity_id = ''goal-1'',
      tq_expected_revision = 1, tq_kind = GoalCancel\<rparr> life_db1
     = (Inr (LifeApplied v g'), db') \<and> le_status g' = ''cancelled''"
proof -
  have g: "goal1 \<in> set (goal_rows life_db1)" "life_open (le_status goal1)"
    by (simp_all add: life_db1_def activated_db1_def created_db1_def life_open_def)
  have fresh: "''event-3'' \<notin> lv_event_id ` set (life_event_rows life_db1)"
    by (simp add: life_db1_def activated1_def skipped1_def)
  have ev: "life_validate_id ''event-3'' = Inr ()" by code_simp
  show ?thesis
    using open_entities_can_be_closed [OF life_sample_run [symmetric] ev life_sample_checks(7) fresh
        life_sample_checks(8,9), THEN conjunct1, THEN bspec, OF g(1)] g(2)
    by simp
qed

section \<open>Deletion takes exactly the descendants\<close>

definition plan_under :: "string \<Rightarrow> string \<Rightarrow> life_plan \<Rightarrow> bool" where
  "plan_under life goal p \<longleftrightarrow> lp_goal_id p = goal \<and> le_life_id p = life"

definition step_under :: "'a life_intent_db_scheme \<Rightarrow> string \<Rightarrow> string \<Rightarrow> life_step \<Rightarrow> bool" where
  "step_under db life goal s \<longleftrightarrow> (\<exists>p \<in> set (plan_rows db). le_id p = ls_plan_id s \<and> plan_under life goal p)"

definition action_under :: "'a life_intent_db_scheme \<Rightarrow> string \<Rightarrow> string \<Rightarrow> life_action \<Rightarrow> bool" where
  "action_under db life goal a \<longleftrightarrow>
     (\<exists>s \<in> set (step_rows db). le_id s = la_step_id a \<and> step_under db life goal s)"

definition names_row :: "'a life_intent_db_scheme \<Rightarrow> life_intent_event \<Rightarrow> bool" where
  "names_row db v \<longleftrightarrow>
     (\<exists>g \<in> set (goal_rows db). names_entity ''goal'' (le_id g) v)
     \<or> (\<exists>p \<in> set (plan_rows db). names_entity ''plan'' (le_id p) v)
     \<or> (\<exists>s \<in> set (step_rows db). names_entity ''step'' (le_id s) v)
     \<or> (\<exists>a \<in> set (action_rows db). names_entity ''action'' (le_id a) v)"

definition without_goal ::
    "string \<Rightarrow> string \<Rightarrow> 'a life_intent_db_scheme \<Rightarrow> 'a life_intent_db_scheme" where
  "without_goal life goal db =
     (let db1 = db\<lparr>goal_rows := filter (\<lambda>g. \<not> (le_id g = goal \<and> le_life_id g = life)) (goal_rows db),
                   plan_rows := filter (\<lambda>p. \<not> plan_under life goal p) (plan_rows db),
                   step_rows := filter (\<lambda>s. \<not> step_under db life goal s) (step_rows db),
                   action_rows := filter (\<lambda>a. \<not> action_under db life goal a) (action_rows db)\<rparr>
      in db1\<lparr>life_event_rows := filter (names_row db1) (life_event_rows db)\<rparr>)"

lemma names_entity_unique:
  "names_entity ''goal'' i v \<Longrightarrow> names_entity k j v \<longleftrightarrow> k = ''goal'' \<and> j = i"
  "names_entity ''plan'' i v \<Longrightarrow> names_entity k j v \<longleftrightarrow> k = ''plan'' \<and> j = i"
  "names_entity ''step'' i v \<Longrightarrow> names_entity k j v \<longleftrightarrow> k = ''step'' \<and> j = i"
  "names_entity ''action'' i v \<Longrightarrow> names_entity k j v \<longleftrightarrow> k = ''action'' \<and> j = i"
  by (auto simp: names_entity_def event_target_matches_def life_intent_constants)

lemma kept_id:
  assumes "distinct (map le_id rows)" and "e \<in> set rows"
  shows "(\<exists>f \<in> set (filter (\<lambda>f. life_key f \<notin> K) rows). le_id f = le_id e) \<longleftrightarrow> life_key e \<notin> K"
proof
  assume "\<exists>f \<in> set (filter (\<lambda>f. life_key f \<notin> K) rows). le_id f = le_id e"
  then obtain f where "f \<in> set rows" "life_key f \<notin> K" "le_id f = le_id e" by auto
  with assms have "f = e" by (auto simp: distinct_map dest: inj_onD)
  with \<open>life_key f \<notin> K\<close> show "life_key e \<notin> K" by simp
qed (use assms(2) in auto)

lemma same_id_same_row:
  "distinct (map le_id rows) \<Longrightarrow> e \<in> set rows \<Longrightarrow> f \<in> set rows \<Longrightarrow> le_id e = le_id f \<Longrightarrow> e = f"
  by (auto simp: distinct_map dest: inj_onD)

text \<open>An event survives a removal exactly when the entity it names does.\<close>

lemma surviving_events:
  assumes inv: "life_intent_inv db" and v: "v \<in> set (life_event_rows db)"
  shows "names_row (life_without G P S A db) v \<longleftrightarrow>
    \<not> event_references lv_goal_id G v \<and> \<not> event_references lv_plan_id P v
    \<and> \<not> event_references lv_step_id S v \<and> \<not> event_references lv_action_id A v"
proof -
  note dist = life_intent_distinct [OF inv]
  have "life_event_row_check v \<and> event_fks db v"
    using life_intent_inv_parts(5) [OF inv] v by (simp add: life_events_inv_def)
  then consider
      (goal) g where "g \<in> set (goal_rows db)" "names_entity ''goal'' (le_id g) v"
        "le_life_id g = lv_life_id v"
    | (plan) p where "p \<in> set (plan_rows db)" "names_entity ''plan'' (le_id p) v"
        "le_life_id p = lv_life_id v"
    | (step) s where "s \<in> set (step_rows db)" "names_entity ''step'' (le_id s) v"
        "le_life_id s = lv_life_id v"
    | (action) a where "a \<in> set (action_rows db)" "names_entity ''action'' (le_id a) v"
        "le_life_id a = lv_life_id v"
    using event_names_some [of v db] by blast
  then show ?thesis
  proof cases
    case goal
    have "names_row (life_without G P S A db) v \<longleftrightarrow> life_key g \<notin> G"
      unfolding names_row_def names_entity_unique(1) [OF goal(2)] life_without_simps
      using kept_id [OF dist(1) goal(1), of G] by simp
    then show ?thesis
      using names_columns(1) [OF goal(2)] goal(3)
      by (simp add: event_references_def life_key_def)
  next
    case plan
    have "names_row (life_without G P S A db) v \<longleftrightarrow> life_key p \<notin> P"
      unfolding names_row_def names_entity_unique(2) [OF plan(2)] life_without_simps
      using kept_id [OF dist(2) plan(1), of P] by simp
    then show ?thesis
      using names_columns(2) [OF plan(2)] plan(3)
      by (simp add: event_references_def life_key_def)
  next
    case step
    have "names_row (life_without G P S A db) v \<longleftrightarrow> life_key s \<notin> S"
      unfolding names_row_def names_entity_unique(3) [OF step(2)] life_without_simps
      using kept_id [OF dist(3) step(1), of S] by simp
    then show ?thesis
      using names_columns(3) [OF step(2)] step(3)
      by (simp add: event_references_def life_key_def)
  next
    case action
    have "names_row (life_without G P S A db) v \<longleftrightarrow> life_key a \<notin> A"
      unfolding names_row_def names_entity_unique(4) [OF action(2)] life_without_simps
      using kept_id [OF dist(4) action(1), of A] by simp
    then show ?thesis
      using names_columns(4) [OF action(2)] action(3)
      by (simp add: event_references_def life_key_def)
  qed
qed

lemma cascade_goals_descendants:
  assumes inv: "life_intent_inv db"
  shows "cascade_goals (\<lambda>g. le_id g = goal \<and> le_life_id g = life) db = without_goal life goal db"
proof -
  note dist = life_intent_distinct [OF inv] and parts = life_intent_inv_parts [OF inv]
  let ?p = "\<lambda>g. le_id g = goal \<and> le_life_id g = life"
  let ?G = "life_keys (filter ?p (goal_rows db))"
  let ?P = "gone_plans ?G db" let ?S = "gone_steps ?P db" let ?A = "gone_actions ?S db"
  have goals: "filter (\<lambda>g. life_key g \<notin> ?G) (goal_rows db) = filter (\<lambda>g. \<not> ?p g) (goal_rows db)"
    by (rule filter_by_key [OF dist(1), symmetric])
  have plan: "(lp_goal_id p, le_life_id p) \<in> ?G \<longleftrightarrow> plan_under life goal p"
    if "p \<in> set (plan_rows db)" for p
    using parts(2) that by (auto simp: table_inv_def key_exists plan_under_def)
  have plans: "filter (\<lambda>p. life_key p \<notin> ?P) (plan_rows db)
      = filter (\<lambda>p. \<not> plan_under life goal p) (plan_rows db)"
    unfolding gone_plans_def filter_by_key [OF dist(2), symmetric]
    by (rule filter_cong) (simp_all add: plan)
  have step: "(ls_plan_id s, le_life_id s) \<in> ?P \<longleftrightarrow> step_under db life goal s"
    if s: "s \<in> set (step_rows db)" for s
  proof -
    from parts(3) s obtain q where q: "q \<in> set (plan_rows db)" "le_id q = ls_plan_id s"
        "le_life_id q = le_life_id s"
      by (auto simp: table_inv_def key_exists)
    have "p = q" if "p \<in> set (plan_rows db)" "le_id p = ls_plan_id s" for p
      using q that by (intro same_id_same_row [OF dist(2)]) simp_all
    then have under: "step_under db life goal s \<longleftrightarrow> plan_under life goal q"
      unfolding step_under_def using q(1,2) by blast
    have "(ls_plan_id s, le_life_id s) \<in> ?P \<longleftrightarrow> life_key q \<in> ?P"
      using q by (simp add: life_key_def)
    also have "\<dots> \<longleftrightarrow> q \<notin> set (filter (\<lambda>p. life_key p \<notin> ?P) (plan_rows db))" using q(1) by simp
    finally show ?thesis using q(1) by (simp add: plans under)
  qed
  have steps: "filter (\<lambda>s. life_key s \<notin> ?S) (step_rows db)
      = filter (\<lambda>s. \<not> step_under db life goal s) (step_rows db)"
    unfolding gone_steps_def filter_by_key [OF dist(3), symmetric]
    by (rule filter_cong) (simp_all add: step)
  have action: "(la_step_id a, le_life_id a) \<in> ?S \<longleftrightarrow> action_under db life goal a"
    if a: "a \<in> set (action_rows db)" for a
  proof -
    from parts(4) a obtain t where t: "t \<in> set (step_rows db)" "le_id t = la_step_id a"
        "le_life_id t = le_life_id a"
      by (auto simp: table_inv_def key_exists)
    have "s = t" if "s \<in> set (step_rows db)" "le_id s = la_step_id a" for s
      using t that by (intro same_id_same_row [OF dist(3)]) simp_all
    then have under: "action_under db life goal a \<longleftrightarrow> step_under db life goal t"
      unfolding action_under_def using t(1,2) by blast
    have "(la_step_id a, le_life_id a) \<in> ?S \<longleftrightarrow> life_key t \<in> ?S"
      using t by (simp add: life_key_def)
    also have "\<dots> \<longleftrightarrow> t \<notin> set (filter (\<lambda>s. life_key s \<notin> ?S) (step_rows db))" using t(1) by simp
    finally show ?thesis using t(1) by (simp add: steps under)
  qed
  have actions: "filter (\<lambda>a. life_key a \<notin> ?A) (action_rows db)
      = filter (\<lambda>a. \<not> action_under db life goal a) (action_rows db)"
    unfolding gone_actions_def filter_by_key [OF dist(4), symmetric]
    by (rule filter_cong) (simp_all add: action)
  let ?db = "life_without ?G ?P ?S ?A db"
  let ?db1 = "db\<lparr>goal_rows := filter (\<lambda>g. \<not> ?p g) (goal_rows db),
      plan_rows := filter (\<lambda>p. \<not> plan_under life goal p) (plan_rows db),
      step_rows := filter (\<lambda>s. \<not> step_under db life goal s) (step_rows db),
      action_rows := filter (\<lambda>a. \<not> action_under db life goal a) (action_rows db)\<rparr>"
  have rest: "?db = ?db1\<lparr>life_event_rows := life_event_rows ?db\<rparr>"
    unfolding goals [symmetric] plans [symmetric] steps [symmetric] actions [symmetric]
      life_without_simps by (simp add: life_without_def)
  have "names_row ?db1 v = names_row (?db1\<lparr>life_event_rows := life_event_rows ?db\<rparr>) v" for v
    by (simp add: names_row_def)
  then have names: "names_row ?db1 v = names_row ?db v" for v by (simp only: rest [symmetric])
  have "life_event_rows ?db = filter (names_row ?db1) (life_event_rows db)"
    unfolding life_without_simps names by (rule filter_cong) (simp_all add: surviving_events [OF inv])
  with rest have "?db = ?db1\<lparr>life_event_rows := filter (names_row ?db1) (life_event_rows db)\<rparr>"
    by simp
  then show ?thesis
    unfolding cascade_goals_without [OF dist] Let_def without_goal_def .
qed

end
