(* ===== verification/Relationship_Domain.thy ===== *)
theory Relationship_Domain
  imports Rust_Prelude
begin

text \<open>
  The relationship domain, \<open>src-tauri/src/relationship/mod.rs\<close>: eight bounded dimensions between a
  life and a subject, the transition proposal with its validation, the grammar of change reasons,
  the ledger event and the typed errors. As in the emotion domain, error messages are left out.
\<close>

definition PRIMARY_USER_SUBJECT_ID :: string where "PRIMARY_USER_SUBJECT_ID = ''primary_user''"
definition RELATIONSHIP_NEUTRAL_REVISION :: int where "RELATIONSHIP_NEUTRAL_REVISION = 0"
definition RELATIONSHIP_INITIAL_POLICY_VERSION :: int where
  "RELATIONSHIP_INITIAL_POLICY_VERSION = 1"

definition FAMILIARITY_MIN :: int where "FAMILIARITY_MIN = 0"
definition FAMILIARITY_MAX :: int where "FAMILIARITY_MAX = 1000"
definition TRUST_MIN :: int where "TRUST_MIN = - 1000"
definition TRUST_MAX :: int where "TRUST_MAX = 1000"
definition EMOTIONAL_CLOSENESS_MIN :: int where "EMOTIONAL_CLOSENESS_MIN = 0"
definition EMOTIONAL_CLOSENESS_MAX :: int where "EMOTIONAL_CLOSENESS_MAX = 1000"
definition COLLABORATION_MIN :: int where "COLLABORATION_MIN = 0"
definition COLLABORATION_MAX :: int where "COLLABORATION_MAX = 1000"
definition SAFETY_MIN :: int where "SAFETY_MIN = - 1000"
definition SAFETY_MAX :: int where "SAFETY_MAX = 1000"
definition DEPENDENCY_TENDENCY_MIN :: int where "DEPENDENCY_TENDENCY_MIN = 0"
definition DEPENDENCY_TENDENCY_MAX :: int where "DEPENDENCY_TENDENCY_MAX = 1000"
definition BOUNDARY_COMFORT_MIN :: int where "BOUNDARY_COMFORT_MIN = - 1000"
definition BOUNDARY_COMFORT_MAX :: int where "BOUNDARY_COMFORT_MAX = 1000"
definition TENSION_MIN :: int where "TENSION_MIN = 0"
definition TENSION_MAX :: int where "TENSION_MAX = 1000"
definition DELTA_MIN :: int where "DELTA_MIN = - 1000"
definition DELTA_MAX :: int where "DELTA_MAX = 1000"

lemmas relationship_constants =
  RELATIONSHIP_NEUTRAL_REVISION_def RELATIONSHIP_INITIAL_POLICY_VERSION_def DELTA_MIN_def DELTA_MAX_def
  FAMILIARITY_MIN_def FAMILIARITY_MAX_def
  TRUST_MIN_def TRUST_MAX_def
  EMOTIONAL_CLOSENESS_MIN_def EMOTIONAL_CLOSENESS_MAX_def
  COLLABORATION_MIN_def COLLABORATION_MAX_def
  SAFETY_MIN_def SAFETY_MAX_def
  DEPENDENCY_TENDENCY_MIN_def DEPENDENCY_TENDENCY_MAX_def
  BOUNDARY_COMFORT_MIN_def BOUNDARY_COMFORT_MAX_def
  TENSION_MIN_def TENSION_MAX_def

record relationship_dimensions =
  familiarity :: int
  trust :: int
  emotional_closeness :: int
  collaboration :: int
  safety :: int
  dependency_tendency :: int
  boundary_comfort :: int
  tension :: int

record relationship_state =
  rs_life_id :: string
  rs_subject_id :: string
  rs_values :: relationship_dimensions
  rs_revision :: int
  rs_policy_version :: int
  rs_last_applied_at :: string
  rs_updated_at :: string

record relationship_event_source =
  rsrc_kind :: string
  rsrc_reference :: string

record relationship_transition =
  rt_event_id :: string
  rt_life_id :: string
  rt_subject_id :: string
  rt_source :: relationship_event_source
  rt_change_reason :: string
  rt_deltas :: relationship_dimensions
  rt_expected_revision :: int
  rt_next :: relationship_dimensions
  rt_policy_version :: int
  rt_event_time :: string

record relationship_event =
  rv_event_id :: string
  rv_life_id :: string
  rv_subject_id :: string
  rv_source_kind :: string
  rv_source_ref :: string
  rv_change_reason :: string
  rv_deltas :: relationship_dimensions
  rv_result :: relationship_dimensions
  rv_applied_revision :: int
  rv_event_time :: string
  rv_policy_version :: int
  rv_created_at :: string

datatype relationship_commit_outcome =
    RelationshipCommitted relationship_event relationship_state
  | RelationshipReplayed relationship_event relationship_state

datatype relationship_error_code =
    RelationshipLifeNotFound | RelationshipStateNotFound | RelationshipRevisionConflict
  | RelationshipEventConflict | RelationshipInvalidArgument | RelationshipDatabaseUnavailable

fun relationship_error_code_str :: "relationship_error_code \<Rightarrow> string" where
  "relationship_error_code_str RelationshipLifeNotFound = ''RELATIONSHIP_LIFE_NOT_FOUND''"
| "relationship_error_code_str RelationshipStateNotFound = ''RELATIONSHIP_STATE_NOT_FOUND''"
| "relationship_error_code_str RelationshipRevisionConflict = ''RELATIONSHIP_REVISION_CONFLICT''"
| "relationship_error_code_str RelationshipEventConflict = ''RELATIONSHIP_EVENT_CONFLICT''"
| "relationship_error_code_str RelationshipInvalidArgument = ''RELATIONSHIP_INVALID_ARGUMENT''"
| "relationship_error_code_str RelationshipDatabaseUnavailable =
     ''RELATIONSHIP_DATABASE_UNAVAILABLE''"

record relationship_error =
  re_code :: relationship_error_code
  re_recoverable :: bool

definition relationship_error_new :: "relationship_error_code \<Rightarrow> relationship_error" where
  "relationship_error_new code =
     \<lparr>re_code = code,
      re_recoverable =
        (code = RelationshipDatabaseUnavailable \<or> code = RelationshipLifeNotFound)\<rparr>"

definition relationship_invalid_argument :: relationship_error where
  "relationship_invalid_argument = relationship_error_new RelationshipInvalidArgument"
definition relationship_life_not_found :: relationship_error where
  "relationship_life_not_found = relationship_error_new RelationshipLifeNotFound"
definition relationship_state_not_found :: relationship_error where
  "relationship_state_not_found = relationship_error_new RelationshipStateNotFound"
definition relationship_revision_conflict :: relationship_error where
  "relationship_revision_conflict = relationship_error_new RelationshipRevisionConflict"
definition relationship_event_conflict :: relationship_error where
  "relationship_event_conflict = relationship_error_new RelationshipEventConflict"
definition relationship_database :: relationship_error where
  "relationship_database = relationship_error_new RelationshipDatabaseUnavailable"

section \<open>Dimensions\<close>

definition relationship_neutral :: relationship_dimensions where
  "relationship_neutral =
     \<lparr>familiarity = 0, trust = 0, emotional_closeness = 0, collaboration = 0,
      safety = 0, dependency_tendency = 0, boundary_comfort = 0, tension = 0\<rparr>"

definition iter_dimension_ranges ::
    "relationship_dimensions \<Rightarrow> (string \<times> int \<times> int \<times> int) list" where
  "iter_dimension_ranges d =
     [(''familiarity'', familiarity d, FAMILIARITY_MIN, FAMILIARITY_MAX),
      (''trust'', trust d, TRUST_MIN, TRUST_MAX),
      (''emotional_closeness'', emotional_closeness d, EMOTIONAL_CLOSENESS_MIN, EMOTIONAL_CLOSENESS_MAX),
      (''collaboration'', collaboration d, COLLABORATION_MIN, COLLABORATION_MAX),
      (''safety'', safety d, SAFETY_MIN, SAFETY_MAX),
      (''dependency_tendency'', dependency_tendency d, DEPENDENCY_TENDENCY_MIN, DEPENDENCY_TENDENCY_MAX),
      (''boundary_comfort'', boundary_comfort d, BOUNDARY_COMFORT_MIN, BOUNDARY_COMFORT_MAX),
      (''tension'', tension d, TENSION_MIN, TENSION_MAX)]"

definition iter_named_values :: "relationship_dimensions \<Rightarrow> (string \<times> int) list" where
  "iter_named_values d =
     [(''familiarity'', familiarity d),
      (''trust'', trust d),
      (''emotional_closeness'', emotional_closeness d),
      (''collaboration'', collaboration d),
      (''safety'', safety d),
      (''dependency_tendency'', dependency_tendency d),
      (''boundary_comfort'', boundary_comfort d),
      (''tension'', tension d)]"

definition validate_result :: "relationship_dimensions \<Rightarrow> relationship_error + unit" where
  "validate_result d =
     check_all
       (map (\<lambda>(name, value, lo, hi). require (lo \<le> value \<and> value \<le> hi) relationship_invalid_argument)
          (iter_dimension_ranges d))"

definition validate_deltas :: "relationship_dimensions \<Rightarrow> relationship_error + unit" where
  "validate_deltas d =
     check_all
       (map (\<lambda>(name, value). require (DELTA_MIN \<le> value \<and> value \<le> DELTA_MAX)
                               relationship_invalid_argument)
          (iter_named_values d))"

section \<open>Change reasons\<close>

text \<open>
  The loop over the bytes: \<open>previous_was_underscore\<close> is its state, the last index is the one with
  nothing behind it.
\<close>

fun change_reason_loop :: "bool \<Rightarrow> string \<Rightarrow> relationship_error + unit" where
  "change_reason_loop previous_was_underscore [] = Inr ()"
| "change_reason_loop previous_was_underscore (byte # rest) =
     (if \<not> (is_ascii_lowercase byte \<or> is_ascii_digit byte \<or> byte = CHR ''_'')
      then Inl relationship_invalid_argument
      else if byte = CHR ''_'' \<and> (rest = [] \<or> previous_was_underscore)
      then Inl relationship_invalid_argument
      else change_reason_loop (byte = CHR ''_'') rest)"

definition validate_change_reason :: "string \<Rightarrow> relationship_error + unit" where
  "validate_change_reason bytes =
     (if bytes = [] \<or> length bytes > 64 then Inl relationship_invalid_argument
      else if \<not> is_ascii_lowercase (bytes ! 0) then Inl relationship_invalid_argument
      else change_reason_loop False bytes)"

section \<open>Transitions\<close>

definition relationship_source_validate ::
    "relationship_event_source \<Rightarrow> relationship_error + unit" where
  "relationship_source_validate s =
     check_all
       [require (\<not> str_blank (rsrc_kind s)) relationship_invalid_argument,
        require (\<not> str_blank (rsrc_reference s)) relationship_invalid_argument]"

definition relationship_transition_validate ::
    "relationship_transition \<Rightarrow> relationship_error + unit" where
  "relationship_transition_validate t =
     check_all
       [require (\<not> str_blank (rt_event_id t)) relationship_invalid_argument,
        require (\<not> str_blank (rt_life_id t)) relationship_invalid_argument,
        require (\<not> str_blank (rt_subject_id t)) relationship_invalid_argument,
        relationship_source_validate (rt_source t),
        validate_change_reason (rt_change_reason t),
        validate_deltas (rt_deltas t),
        require (\<not> rt_expected_revision t < 0) relationship_invalid_argument,
        validate_result (rt_next t),
        require (\<not> rt_policy_version t \<le> 0) relationship_invalid_argument,
        require (\<not> str_blank (rt_event_time t)) relationship_invalid_argument]"

definition relationship_transition_new ::
    "string \<Rightarrow> string \<Rightarrow> string \<Rightarrow> relationship_event_source \<Rightarrow> string \<Rightarrow> relationship_dimensions
     \<Rightarrow> int \<Rightarrow> relationship_dimensions \<Rightarrow> int \<Rightarrow> string \<Rightarrow> relationship_error + relationship_transition"
  where
  "relationship_transition_new event_id life_id subject_id source change_reason deltas
      expected_revision next policy_version event_time =
     (let transition =
        \<lparr>rt_event_id = event_id, rt_life_id = life_id, rt_subject_id = subject_id,
         rt_source = source, rt_change_reason = change_reason, rt_deltas = deltas,
         rt_expected_revision = expected_revision, rt_next = next,
         rt_policy_version = policy_version, rt_event_time = event_time\<rparr>
      in try_seq (relationship_transition_validate transition) (Inr transition))"

definition relationship_target_revision :: "relationship_transition \<Rightarrow> relationship_error + int" where
  "relationship_target_revision t =
     ok_or (checked_add (rt_expected_revision t) 1) relationship_invalid_argument"

section \<open>What the validators accept\<close>

definition dimensions_ok :: "relationship_dimensions \<Rightarrow> bool" where
  "dimensions_ok d \<longleftrightarrow>
     0 \<le> familiarity d \<and> familiarity d \<le> 1000 \<and>
     - 1000 \<le> trust d \<and> trust d \<le> 1000 \<and>
     0 \<le> emotional_closeness d \<and> emotional_closeness d \<le> 1000 \<and>
     0 \<le> collaboration d \<and> collaboration d \<le> 1000 \<and>
     - 1000 \<le> safety d \<and> safety d \<le> 1000 \<and>
     0 \<le> dependency_tendency d \<and> dependency_tendency d \<le> 1000 \<and>
     - 1000 \<le> boundary_comfort d \<and> boundary_comfort d \<le> 1000 \<and>
     0 \<le> tension d \<and> tension d \<le> 1000"

definition deltas_ok :: "relationship_dimensions \<Rightarrow> bool" where
  "deltas_ok d \<longleftrightarrow> (\<forall>x \<in> set (map snd (iter_named_values d)). \<bar>x\<bar> \<le> 1000)"

lemma validate_result_ok [validator_simps]: "validate_result d = Inr () \<longleftrightarrow> dimensions_ok d"
  by (simp add: validate_result_def iter_dimension_ranges_def check_all_Inr_iff dimensions_ok_def
      relationship_constants conj_ac)

lemma validate_deltas_ok [validator_simps]: "validate_deltas d = Inr () \<longleftrightarrow> deltas_ok d"
  by (auto simp: validate_deltas_def iter_named_values_def check_all_Inr_iff deltas_ok_def
      relationship_constants)

lemma validate_result_err: "validate_result d = Inl e \<Longrightarrow> e = relationship_invalid_argument"
  by (auto simp: validate_result_def dest!: check_all_Inl)

lemma validate_deltas_err: "validate_deltas d = Inl e \<Longrightarrow> e = relationship_invalid_argument"
  by (auto simp: validate_deltas_def dest!: check_all_Inl)

lemma relationship_source_validate_ok [validator_simps]:
  "relationship_source_validate s = Inr () \<longleftrightarrow>
     \<not> str_blank (rsrc_kind s) \<and> \<not> str_blank (rsrc_reference s)"
  by (simp add: relationship_source_validate_def check_all_Inr_iff)

lemma relationship_source_validate_err:
  "relationship_source_validate s = Inl e \<Longrightarrow> e = relationship_invalid_argument"
  by (auto simp: relationship_source_validate_def dest!: check_all_Inl)

subsection \<open>The grammar of change reasons\<close>

text \<open>
  The grammar the documentation gives, \<open>[a-z]([a-z0-9]|_[a-z0-9])*\<close>, as an inductive language.
\<close>

inductive snake_tail :: "string \<Rightarrow> bool" where
  empty: "snake_tail []"
| word: "is_ascii_lowercase c \<or> is_ascii_digit c \<Longrightarrow> snake_tail s \<Longrightarrow> snake_tail (c # s)"
| underscore: "is_ascii_lowercase c \<or> is_ascii_digit c \<Longrightarrow> snake_tail s \<Longrightarrow>
    snake_tail (CHR ''_'' # c # s)"

definition snake_case :: "string \<Rightarrow> bool" where
  "snake_case s \<longleftrightarrow> (\<exists>c t. s = c # t \<and> is_ascii_lowercase c \<and> snake_tail t)"

inductive_simps snake_tail_Nil: "snake_tail []"
inductive_simps snake_tail_Cons: "snake_tail (c # s)"

lemma underscore_not_word [simp]:
  "\<not> is_ascii_lowercase (CHR ''_'')" "\<not> is_ascii_digit (CHR ''_'')"
  by (simp_all add: is_ascii_lowercase_def is_ascii_digit_def)

lemma change_reason_loop_iff:
  "change_reason_loop p s = Inr () \<longleftrightarrow>
     (if p then s = [] \<or> (\<exists>c t. s = c # t \<and> (is_ascii_lowercase c \<or> is_ascii_digit c) \<and> snake_tail t)
      else snake_tail s)"
proof (induction s arbitrary: p)
  case Nil
  then show ?case by (simp add: snake_tail_Nil)
next
  case (Cons c s)
  show ?case
  proof (cases "c = CHR ''_''")
    case True
    then show ?thesis
      by (simp add: Cons.IH snake_tail_Cons [of "CHR ''_''"])
  next
    case False
    then show ?thesis
      by (auto simp: Cons.IH snake_tail_Cons [of c])
  qed
qed

lemma change_reason_loop_err:
  "change_reason_loop p s = Inl e \<Longrightarrow> e = relationship_invalid_argument"
  by (induction s arbitrary: p) (auto split: if_splits)

lemma validate_change_reason_ok [validator_simps]:
  "validate_change_reason s = Inr () \<longleftrightarrow> length s \<le> 64 \<and> snake_case s"
  by (cases s) (auto simp: validate_change_reason_def snake_case_def change_reason_loop_iff
      snake_tail_Cons)

lemma validate_change_reason_err:
  "validate_change_reason s = Inl e \<Longrightarrow> e = relationship_invalid_argument"
  by (auto simp: validate_change_reason_def dest: change_reason_loop_err split: if_splits)

text \<open>
  The byte loop accepts exactly the documented language of change reasons: lower snake case
  that starts with a letter, of at most 64 bytes. Everything else is \<open>InvalidArgument\<close>.
\<close>

theorem change_reason_grammar:
  "validate_change_reason s =
     (if length s \<le> 64 \<and> snake_case s then Inr () else Inl relationship_invalid_argument)"
  by (rule unit_result_cases [of "validate_change_reason s"])
    (auto dest: validate_change_reason_err simp: validate_change_reason_ok [symmetric])

subsection \<open>Transitions\<close>

definition relationship_transition_ok :: "relationship_transition \<Rightarrow> bool" where
  "relationship_transition_ok t \<longleftrightarrow>
     \<not> str_blank (rt_event_id t) \<and> \<not> str_blank (rt_life_id t) \<and> \<not> str_blank (rt_subject_id t) \<and>
     \<not> str_blank (rsrc_kind (rt_source t)) \<and> \<not> str_blank (rsrc_reference (rt_source t)) \<and>
     length (rt_change_reason t) \<le> 64 \<and> snake_case (rt_change_reason t) \<and>
     deltas_ok (rt_deltas t) \<and> 0 \<le> rt_expected_revision t \<and> dimensions_ok (rt_next t) \<and>
     0 < rt_policy_version t \<and> \<not> str_blank (rt_event_time t)"

lemma relationship_transition_validate_ok [validator_simps]:
  "relationship_transition_validate t = Inr () \<longleftrightarrow> relationship_transition_ok t"
  by (simp add: relationship_transition_validate_def check_all_Inr_iff
      relationship_source_validate_ok validate_change_reason_ok validate_result_ok
      validate_deltas_ok relationship_transition_ok_def not_less not_le conj_ac)

lemma relationship_transition_validate_err:
  "relationship_transition_validate t = Inl e \<Longrightarrow> e = relationship_invalid_argument"
  by (auto simp: relationship_transition_validate_def dest!: check_all_Inl
      dest: relationship_source_validate_err [OF sym] validate_change_reason_err [OF sym]
        validate_deltas_err [OF sym] validate_result_err [OF sym])

lemma relationship_transition_validate_eq:
  "relationship_transition_validate t =
     (if relationship_transition_ok t then Inr () else Inl relationship_invalid_argument)"
  by (rule unit_result_cases [of "relationship_transition_validate t"])
    (auto dest: relationship_transition_validate_err
      simp: relationship_transition_validate_ok [symmetric])

lemma relationship_target_revision_ok [validator_simps]:
  "0 \<le> rt_expected_revision t \<Longrightarrow>
   relationship_target_revision t = Inr n \<longleftrightarrow>
     rt_expected_revision t < i64_max \<and> n = rt_expected_revision t + 1"
  by (auto simp: relationship_target_revision_def checked_add_Some_iff i64_bounds)

end
