(* ===== verification/Relationship_Policy.thy ===== *)
theory Relationship_Policy
  imports Relationship_Domain
begin

text \<open>
  The deterministic evolution policy RelationshipPolicyV1,
  \<open>src-tauri/src/relationship/policy.rs\<close>: one recognised stimulus, familiarity advances by one up
  to its cap, every other dimension stays as it is.
\<close>

datatype relationship_stimulus = SuccessfulConversationTurn

record relationship_policy_request =
  rpr_event_id :: string
  rpr_source :: relationship_event_source
  rpr_change_reason :: string
  rpr_stimulus :: relationship_stimulus
  rpr_event_time :: string

definition relationship_request_validate ::
    "relationship_policy_request \<Rightarrow> relationship_error + unit" where
  "relationship_request_validate r =
     check_all
       [require (\<not> str_blank (rpr_event_id r)) relationship_invalid_argument,
        relationship_source_validate (rpr_source r),
        validate_change_reason (rpr_change_reason r),
        require (\<not> str_blank (rpr_event_time r)) relationship_invalid_argument]"

definition relationship_policy_request_new ::
    "string \<Rightarrow> relationship_event_source \<Rightarrow> string \<Rightarrow> relationship_stimulus \<Rightarrow> string
     \<Rightarrow> relationship_error + relationship_policy_request" where
  "relationship_policy_request_new event_id source change_reason stimulus event_time =
     (let request = \<lparr>rpr_event_id = event_id, rpr_source = source,
                     rpr_change_reason = change_reason, rpr_stimulus = stimulus,
                     rpr_event_time = event_time\<rparr>
      in try_seq (relationship_request_validate request) (Inr request))"

definition relationship_validate_current_state ::
    "relationship_state \<Rightarrow> relationship_error + unit" where
  "relationship_validate_current_state s =
     check_all
       [require (\<not> str_blank (rs_life_id s)) relationship_invalid_argument,
        require (\<not> str_blank (rs_subject_id s)) relationship_invalid_argument,
        validate_result (rs_values s),
        require (\<not> rs_revision s < 0) relationship_invalid_argument,
        require (rs_policy_version s = RELATIONSHIP_INITIAL_POLICY_VERSION)
          relationship_invalid_argument]"

definition relationship_evolve ::
    "relationship_state \<Rightarrow> relationship_policy_request
     \<Rightarrow> relationship_error + relationship_transition" where
  "relationship_evolve current request =
     try_seq (relationship_validate_current_state current)
     (try_seq (relationship_request_validate request)
       (case rpr_stimulus request of SuccessfulConversationTurn \<Rightarrow>
         let next_familiarity = as_i32 (min (familiarity (rs_values current) + 1) FAMILIARITY_MAX);
             familiarity_delta = next_familiarity - familiarity (rs_values current);
             deltas = relationship_neutral\<lparr>familiarity := as_i32 familiarity_delta\<rparr>;
             next = (rs_values current)\<lparr>familiarity := next_familiarity\<rparr>
         in try_bind
              (relationship_transition_new (rpr_event_id request) (rs_life_id current)
                 (rs_subject_id current) (rpr_source request) (rpr_change_reason request) deltas
                 (rs_revision current) next (rs_policy_version current) (rpr_event_time request))
              (\<lambda>transition.
            try_bind (relationship_target_revision transition) (\<lambda>_. Inr transition))))"

section \<open>The policy in closed form\<close>

definition relationship_state_ok :: "relationship_state \<Rightarrow> bool" where
  "relationship_state_ok s \<longleftrightarrow>
     \<not> str_blank (rs_life_id s) \<and> \<not> str_blank (rs_subject_id s) \<and> dimensions_ok (rs_values s)
     \<and> 0 \<le> rs_revision s \<and> rs_policy_version s = 1"

definition relationship_request_ok :: "relationship_policy_request \<Rightarrow> bool" where
  "relationship_request_ok r \<longleftrightarrow>
     \<not> str_blank (rpr_event_id r) \<and> \<not> str_blank (rsrc_kind (rpr_source r))
     \<and> \<not> str_blank (rsrc_reference (rpr_source r))
     \<and> length (rpr_change_reason r) \<le> 64 \<and> snake_case (rpr_change_reason r)
     \<and> \<not> str_blank (rpr_event_time r)"

lemma relationship_request_validate_eq [validator_simps]:
  "relationship_request_validate r =
     (if relationship_request_ok r then Inr () else Inl relationship_invalid_argument)"
proof -
  have "relationship_request_validate r = Inr () \<longleftrightarrow> relationship_request_ok r"
    by (simp add: relationship_request_validate_def check_all_Inr_iff relationship_request_ok_def
        relationship_source_validate_ok validate_change_reason_ok conj_ac)
  moreover have "relationship_request_validate r = Inl e \<Longrightarrow> e = relationship_invalid_argument" for e
    by (auto simp: relationship_request_validate_def dest!: check_all_Inl
        dest: relationship_source_validate_err [OF sym] validate_change_reason_err [OF sym])
  ultimately show ?thesis by (rule_tac unit_result_cases [of "relationship_request_validate r"]) auto
qed

lemma relationship_validate_current_state_eq [validator_simps]:
  "relationship_validate_current_state s =
     (if relationship_state_ok s then Inr () else Inl relationship_invalid_argument)"
proof -
  have "relationship_validate_current_state s = Inr () \<longleftrightarrow> relationship_state_ok s"
    by (simp add: relationship_validate_current_state_def check_all_Inr_iff
        relationship_state_ok_def validate_result_ok relationship_constants not_less conj_ac)
  moreover have "relationship_validate_current_state s = Inl e \<Longrightarrow> e = relationship_invalid_argument"
    for e
    by (auto simp: relationship_validate_current_state_def dest!: check_all_Inl
        dest: validate_result_err [OF sym])
  ultimately show ?thesis
    by (rule_tac unit_result_cases [of "relationship_validate_current_state s"]) auto
qed

text \<open>What a successful turn does to the dimensions.\<close>

definition turn_delta :: "relationship_dimensions \<Rightarrow> int" where
  "turn_delta d = (if familiarity d < 1000 then 1 else 0)"

definition relationship_evolved ::
    "relationship_state \<Rightarrow> relationship_policy_request \<Rightarrow> relationship_transition" where
  "relationship_evolved s r =
     \<lparr>rt_event_id = rpr_event_id r, rt_life_id = rs_life_id s, rt_subject_id = rs_subject_id s,
      rt_source = rpr_source r, rt_change_reason = rpr_change_reason r,
      rt_deltas = relationship_neutral\<lparr>familiarity := turn_delta (rs_values s)\<rparr>,
      rt_expected_revision = rs_revision s,
      rt_next = (rs_values s)\<lparr>familiarity := familiarity (rs_values s) + turn_delta (rs_values s)\<rparr>,
      rt_policy_version = rs_policy_version s, rt_event_time = rpr_event_time r\<rparr>"

lemma turn_next_ok:
  "dimensions_ok d \<Longrightarrow> dimensions_ok (d\<lparr>familiarity := familiarity d + turn_delta d\<rparr>)"
  by (simp add: dimensions_ok_def turn_delta_def)

lemma turn_deltas_ok: "deltas_ok (relationship_neutral\<lparr>familiarity := turn_delta d\<rparr>)"
  by (simp add: deltas_ok_def iter_named_values_def relationship_neutral_def turn_delta_def)

lemma turn_familiarity:
  assumes "dimensions_ok d"
  shows "as_i32 (min (familiarity d + 1) FAMILIARITY_MAX) = familiarity d + turn_delta d"
    and "as_i32 (turn_delta d) = turn_delta d"
proof -
  from assms have "0 \<le> familiarity d" "familiarity d \<le> 1000" by (simp_all add: dimensions_ok_def)
  then show "as_i32 (min (familiarity d + 1) FAMILIARITY_MAX) = familiarity d + turn_delta d"
    by (simp add: relationship_constants turn_delta_def as_i32_id i32_bounds)
  show "as_i32 (turn_delta d) = turn_delta d"
    by (simp add: turn_delta_def as_i32_id i32_bounds)
qed

lemma relationship_evolve_spec_lemma:
  "relationship_evolve s r =
     (if relationship_state_ok s \<and> relationship_request_ok r \<and> rs_revision s < i64_max
      then Inr (relationship_evolved s r)
      else Inl relationship_invalid_argument)"
proof (cases "relationship_state_ok s \<and> relationship_request_ok r")
  case False
  then show ?thesis
    by (auto simp: relationship_evolve_def relationship_request_validate_eq
        relationship_validate_current_state_eq)
next
  case True
  then have d: "dimensions_ok (rs_values s)" by (simp add: relationship_state_ok_def)
  let ?t = "relationship_evolved s r"
  have "relationship_transition_ok ?t"
    using True turn_next_ok [OF d] turn_deltas_ok
    by (simp add: relationship_transition_ok_def relationship_evolved_def relationship_state_ok_def
        relationship_request_ok_def)
  then have "relationship_evolve s r =
      try_bind (relationship_target_revision ?t) (\<lambda>_. Inr ?t)"
    using True
    by (simp add: relationship_evolve_def relationship_request_validate_eq Let_def
        relationship_validate_current_state_eq turn_familiarity [OF d]
        relationship_transition_new_def relationship_transition_validate_eq
        relationship_evolved_def split: relationship_stimulus.splits)
  moreover have "relationship_target_revision ?t =
      (if rs_revision s < i64_max then Inr (rs_revision s + 1)
       else Inl relationship_invalid_argument)"
    using True by (auto simp: relationship_target_revision_def relationship_evolved_def
        checked_add_def checked_i64_def i64_bounds relationship_state_ok_def)
  ultimately show ?thesis using True by simp
qed

text \<open>
  \<open>evolve\<close> in closed form. Exactly the valid states and requests whose next revision exists are
  accepted; familiarity advances by one unless it is at its cap, the recorded delta is the change
  made, and the seven other dimensions stay exactly as they were.
\<close>

theorem relationship_evolve_spec:
  "relationship_evolve s r =
     (if relationship_state_ok s \<and> relationship_request_ok r \<and> rs_revision s < i64_max
      then Inr (relationship_evolved s r)
      else Inl relationship_invalid_argument)"
  by (rule relationship_evolve_spec_lemma)

end
