(* ===== verification/Emotion_Domain.thy ===== *)
theory Emotion_Domain
  imports Rust_Prelude
begin

text \<open>
  The emotion domain, \<open>src-tauri/src/emotion/mod.rs\<close>: the authoritative two-dimensional state,
  the transition proposal with its validation, the ledger event and the typed errors. The
  human-readable message of an error is not modelled (no code reads it); its code and the
  recoverable flag derived from the code are.
\<close>

definition VALENCE_MIN :: int where "VALENCE_MIN = - 1000"
definition VALENCE_MAX :: int where "VALENCE_MAX = 1000"
definition ACTIVATION_MIN :: int where "ACTIVATION_MIN = - 1000"
definition ACTIVATION_MAX :: int where "ACTIVATION_MAX = 1000"
definition EMOTION_NEUTRAL_VALENCE :: int where "EMOTION_NEUTRAL_VALENCE = 0"
definition EMOTION_NEUTRAL_ACTIVATION :: int where "EMOTION_NEUTRAL_ACTIVATION = 0"
definition EMOTION_NEUTRAL_STATE_REVISION :: int where "EMOTION_NEUTRAL_STATE_REVISION = 0"
definition EMOTION_INITIAL_POLICY_VERSION :: int where "EMOTION_INITIAL_POLICY_VERSION = 1"

lemmas emotion_constants =
  VALENCE_MIN_def VALENCE_MAX_def ACTIVATION_MIN_def ACTIVATION_MAX_def
  EMOTION_NEUTRAL_VALENCE_def EMOTION_NEUTRAL_ACTIVATION_def
  EMOTION_NEUTRAL_STATE_REVISION_def EMOTION_INITIAL_POLICY_VERSION_def

record emotion_state =
  es_life_id :: string
  es_valence :: int
  es_activation :: int
  es_revision :: int
  es_policy_version :: int
  es_last_applied_at :: string
  es_updated_at :: string

record emotion_event_source =
  esrc_kind :: string
  esrc_reference :: string

record emotion_transition =
  et_event_id :: string
  et_life_id :: string
  et_source :: emotion_event_source
  et_valence_delta :: int
  et_activation_delta :: int
  et_expected_revision :: int
  et_next_valence :: int
  et_next_activation :: int
  et_policy_version :: int
  et_event_time :: string

record emotion_event =
  ev_event_id :: string
  ev_life_id :: string
  ev_source_kind :: string
  ev_source_ref :: string
  ev_valence_delta :: int
  ev_activation_delta :: int
  ev_result_valence :: int
  ev_result_activation :: int
  ev_applied_revision :: int
  ev_event_time :: string
  ev_policy_version :: int
  ev_created_at :: string

datatype emotion_commit_outcome =
    EmotionCommitted emotion_event emotion_state
  | EmotionReplayed emotion_event emotion_state

datatype emotion_error_code =
    EmotionLifeNotFound | EmotionStateNotFound | EmotionRevisionConflict
  | EmotionEventConflict | EmotionInvalidArgument | EmotionDatabaseUnavailable

fun emotion_error_code_str :: "emotion_error_code \<Rightarrow> string" where
  "emotion_error_code_str EmotionLifeNotFound = ''EMOTION_LIFE_NOT_FOUND''"
| "emotion_error_code_str EmotionStateNotFound = ''EMOTION_STATE_NOT_FOUND''"
| "emotion_error_code_str EmotionRevisionConflict = ''EMOTION_REVISION_CONFLICT''"
| "emotion_error_code_str EmotionEventConflict = ''EMOTION_EVENT_CONFLICT''"
| "emotion_error_code_str EmotionInvalidArgument = ''EMOTION_INVALID_ARGUMENT''"
| "emotion_error_code_str EmotionDatabaseUnavailable = ''EMOTION_DATABASE_UNAVAILABLE''"

record emotion_error =
  ee_code :: emotion_error_code
  ee_recoverable :: bool

definition emotion_error_new :: "emotion_error_code \<Rightarrow> emotion_error" where
  "emotion_error_new code =
     \<lparr>ee_code = code,
      ee_recoverable = (code = EmotionDatabaseUnavailable \<or> code = EmotionLifeNotFound)\<rparr>"

definition emotion_invalid_argument :: emotion_error where
  "emotion_invalid_argument = emotion_error_new EmotionInvalidArgument"
definition emotion_life_not_found :: emotion_error where
  "emotion_life_not_found = emotion_error_new EmotionLifeNotFound"
definition emotion_state_not_found :: emotion_error where
  "emotion_state_not_found = emotion_error_new EmotionStateNotFound"
definition emotion_revision_conflict :: emotion_error where
  "emotion_revision_conflict = emotion_error_new EmotionRevisionConflict"
definition emotion_event_conflict :: emotion_error where
  "emotion_event_conflict = emotion_error_new EmotionEventConflict"
definition emotion_database :: emotion_error where
  "emotion_database = emotion_error_new EmotionDatabaseUnavailable"

lemmas emotion_error_defs =
  emotion_invalid_argument_def emotion_life_not_found_def emotion_state_not_found_def
  emotion_revision_conflict_def emotion_event_conflict_def emotion_database_def
  emotion_error_new_def

section \<open>Validation\<close>

definition emotion_source_validate :: "emotion_event_source \<Rightarrow> emotion_error + unit" where
  "emotion_source_validate s =
     check_all
       [require (\<not> str_blank (esrc_kind s)) emotion_invalid_argument,
        require (\<not> str_blank (esrc_reference s)) emotion_invalid_argument]"

definition emotion_transition_validate :: "emotion_transition \<Rightarrow> emotion_error + unit" where
  "emotion_transition_validate t =
     check_all
       [require (\<not> str_blank (et_event_id t)) emotion_invalid_argument,
        require (\<not> str_blank (et_life_id t)) emotion_invalid_argument,
        emotion_source_validate (et_source t),
        require (VALENCE_MIN \<le> et_valence_delta t \<and> et_valence_delta t \<le> VALENCE_MAX)
          emotion_invalid_argument,
        require (ACTIVATION_MIN \<le> et_activation_delta t \<and> et_activation_delta t \<le> ACTIVATION_MAX)
          emotion_invalid_argument,
        require (\<not> et_expected_revision t < 0) emotion_invalid_argument,
        require (VALENCE_MIN \<le> et_next_valence t \<and> et_next_valence t \<le> VALENCE_MAX)
          emotion_invalid_argument,
        require (ACTIVATION_MIN \<le> et_next_activation t \<and> et_next_activation t \<le> ACTIVATION_MAX)
          emotion_invalid_argument,
        require (\<not> et_policy_version t \<le> 0) emotion_invalid_argument,
        require (\<not> str_blank (et_event_time t)) emotion_invalid_argument]"

definition emotion_transition_new ::
    "string \<Rightarrow> string \<Rightarrow> emotion_event_source \<Rightarrow> int \<Rightarrow> int \<Rightarrow> int \<Rightarrow> int \<Rightarrow> int \<Rightarrow> int \<Rightarrow> string
     \<Rightarrow> emotion_error + emotion_transition" where
  "emotion_transition_new event_id life_id source valence_delta activation_delta
      expected_revision next_valence next_activation policy_version event_time =
     (let transition =
        \<lparr>et_event_id = event_id, et_life_id = life_id, et_source = source,
         et_valence_delta = valence_delta, et_activation_delta = activation_delta,
         et_expected_revision = expected_revision, et_next_valence = next_valence,
         et_next_activation = next_activation, et_policy_version = policy_version,
         et_event_time = event_time\<rparr>
      in try_seq (emotion_transition_validate transition) (Inr transition))"

definition emotion_target_revision :: "emotion_transition \<Rightarrow> emotion_error + int" where
  "emotion_target_revision t =
     ok_or (checked_add (et_expected_revision t) 1) emotion_invalid_argument"

text \<open>What the validators accept.\<close>

lemma emotion_source_validate_ok [validator_simps]:
  "emotion_source_validate s = Inr () \<longleftrightarrow>
     \<not> str_blank (esrc_kind s) \<and> \<not> str_blank (esrc_reference s)"
  by (simp add: emotion_source_validate_def check_all_Inr_iff)

definition emotion_affect_ok :: "int \<Rightarrow> bool" where
  "emotion_affect_ok x \<longleftrightarrow> - 1000 \<le> x \<and> x \<le> 1000"

lemma emotion_transition_validate_ok [validator_simps]:
  "emotion_transition_validate t = Inr () \<longleftrightarrow>
     \<not> str_blank (et_event_id t) \<and> \<not> str_blank (et_life_id t) \<and>
     \<not> str_blank (esrc_kind (et_source t)) \<and> \<not> str_blank (esrc_reference (et_source t)) \<and>
     emotion_affect_ok (et_valence_delta t) \<and> emotion_affect_ok (et_activation_delta t) \<and>
     0 \<le> et_expected_revision t \<and>
     emotion_affect_ok (et_next_valence t) \<and> emotion_affect_ok (et_next_activation t) \<and>
     0 < et_policy_version t \<and> \<not> str_blank (et_event_time t)"
  by (simp add: emotion_transition_validate_def check_all_Inr_iff emotion_source_validate_ok
      emotion_constants emotion_affect_ok_def not_less not_le conj_ac)

lemma emotion_source_validate_err:
  "emotion_source_validate s = Inl e \<Longrightarrow> e = emotion_invalid_argument"
  by (auto simp: emotion_source_validate_def dest!: check_all_Inl)

lemma emotion_transition_validate_err:
  "emotion_transition_validate t = Inl e \<Longrightarrow> e = emotion_invalid_argument"
  by (auto simp: emotion_transition_validate_def dest!: check_all_Inl
      dest: emotion_source_validate_err [OF sym])

lemma emotion_target_revision_ok [validator_simps]:
  "0 \<le> et_expected_revision t \<Longrightarrow>
   emotion_target_revision t = Inr n \<longleftrightarrow>
     et_expected_revision t < i64_max \<and> n = et_expected_revision t + 1"
  by (auto simp: emotion_target_revision_def checked_add_Some_iff i64_bounds)

end
