(* ===== verification/Emotion_Policy.thy ===== *)
theory Emotion_Policy
  imports Emotion_Domain
begin

text \<open>
  The deterministic evolution policy EmotionPolicyV1, \<open>src-tauri/src/emotion/policy.rs\<close>: linear
  decay towards zero, fixed-gain stimulus, clamping and the anti-whiplash cap, with the \<open>i32\<close>/\<open>i64\<close>
  casts of the code. \<open>u64\<close> elapsed seconds are \<open>nat\<close>.
\<close>

definition VALENCE_DECAY_PER_HOUR :: int where "VALENCE_DECAY_PER_HOUR = 8"
definition ACTIVATION_DECAY_PER_HOUR :: int where "ACTIVATION_DECAY_PER_HOUR = 24"
definition MAX_DECAY_ELAPSED_SECONDS :: nat where
  "MAX_DECAY_ELAPSED_SECONDS = 7 * 24 * 60 * 60"
definition VALENCE_STIMULUS_GAIN_NUMERATOR :: int where "VALENCE_STIMULUS_GAIN_NUMERATOR = 3"
definition VALENCE_STIMULUS_GAIN_DENOMINATOR :: int where "VALENCE_STIMULUS_GAIN_DENOMINATOR = 5"
definition ACTIVATION_STIMULUS_GAIN_NUMERATOR :: int where "ACTIVATION_STIMULUS_GAIN_NUMERATOR = 7"
definition ACTIVATION_STIMULUS_GAIN_DENOMINATOR :: int where
  "ACTIVATION_STIMULUS_GAIN_DENOMINATOR = 10"

lemmas emotion_policy_constants =
  VALENCE_DECAY_PER_HOUR_def ACTIVATION_DECAY_PER_HOUR_def MAX_DECAY_ELAPSED_SECONDS_def
  VALENCE_STIMULUS_GAIN_NUMERATOR_def VALENCE_STIMULUS_GAIN_DENOMINATOR_def
  ACTIVATION_STIMULUS_GAIN_NUMERATOR_def ACTIVATION_STIMULUS_GAIN_DENOMINATOR_def

record emotion_stimulus =
  valence_signal :: int
  activation_signal :: int

definition emotion_stimulus_validate :: "emotion_stimulus \<Rightarrow> emotion_error + unit" where
  "emotion_stimulus_validate s =
     check_all
       [require (VALENCE_MIN \<le> valence_signal s \<and> valence_signal s \<le> VALENCE_MAX)
          emotion_invalid_argument,
        require (ACTIVATION_MIN \<le> activation_signal s \<and> activation_signal s \<le> ACTIVATION_MAX)
          emotion_invalid_argument]"

definition emotion_stimulus_new :: "int \<Rightarrow> int \<Rightarrow> emotion_error + emotion_stimulus" where
  "emotion_stimulus_new v a =
     (let stimulus = \<lparr>valence_signal = v, activation_signal = a\<rparr>
      in try_seq (emotion_stimulus_validate stimulus) (Inr stimulus))"

record emotion_policy_request =
  epr_event_id :: string
  epr_source :: emotion_event_source
  epr_stimulus :: emotion_stimulus
  epr_elapsed_seconds :: nat
  epr_event_time :: string

definition emotion_request_validate :: "emotion_policy_request \<Rightarrow> emotion_error + unit" where
  "emotion_request_validate r =
     check_all
       [require (\<not> str_blank (epr_event_id r)) emotion_invalid_argument,
        emotion_source_validate (epr_source r),
        require (\<not> str_blank (epr_event_time r)) emotion_invalid_argument]"

definition emotion_policy_request_new ::
    "string \<Rightarrow> emotion_event_source \<Rightarrow> emotion_stimulus \<Rightarrow> nat \<Rightarrow> string
     \<Rightarrow> emotion_error + emotion_policy_request" where
  "emotion_policy_request_new event_id source stimulus elapsed event_time =
     (let request = \<lparr>epr_event_id = event_id, epr_source = source, epr_stimulus = stimulus,
                     epr_elapsed_seconds = elapsed, epr_event_time = event_time\<rparr>
      in try_seq (emotion_request_validate request) (Inr request))"

record emotion_vector =
  vec_valence :: int
  vec_activation :: int

definition decay_toward_zero :: "int \<Rightarrow> int \<Rightarrow> int" where
  "decay_toward_zero value decay_amount =
     (if value > 0 then as_i32 (max (value - decay_amount) 0)
      else if value < 0 then as_i32 (min (value + decay_amount) 0)
      else 0)"

definition scaled_stimulus :: "int \<Rightarrow> int \<Rightarrow> int \<Rightarrow> int" where
  "scaled_stimulus signal numerator denominator = as_i32 ((signal * numerator) sdiv denominator)"

definition clamp_to_domain :: "int \<Rightarrow> int" where
  "clamp_to_domain value = as_i32 (clamp_int value VALENCE_MIN VALENCE_MAX)"

definition emotion_validate_current_state :: "emotion_state \<Rightarrow> emotion_error + unit" where
  "emotion_validate_current_state s =
     check_all
       [require (\<not> str_blank (es_life_id s)) emotion_invalid_argument,
        require (VALENCE_MIN \<le> es_valence s \<and> es_valence s \<le> VALENCE_MAX)
          emotion_invalid_argument,
        require (ACTIVATION_MIN \<le> es_activation s \<and> es_activation s \<le> ACTIVATION_MAX)
          emotion_invalid_argument,
        require (\<not> es_revision s < 0) emotion_invalid_argument,
        require (es_policy_version s = EMOTION_INITIAL_POLICY_VERSION) emotion_invalid_argument]"

definition effective_after_decay :: "emotion_state \<Rightarrow> nat \<Rightarrow> emotion_error + emotion_vector" where
  "effective_after_decay current elapsed_seconds =
     try_seq (emotion_validate_current_state current)
       (let capped_elapsed = int (min elapsed_seconds MAX_DECAY_ELAPSED_SECONDS);
            valence_decay = (capped_elapsed * VALENCE_DECAY_PER_HOUR) sdiv 3600;
            activation_decay = (capped_elapsed * ACTIVATION_DECAY_PER_HOUR) sdiv 3600
        in Inr \<lparr>vec_valence = decay_toward_zero (es_valence current) valence_decay,
                vec_activation = decay_toward_zero (es_activation current) activation_decay\<rparr>)"

definition emotion_evolve ::
    "emotion_state \<Rightarrow> emotion_policy_request \<Rightarrow> emotion_error + emotion_transition" where
  "emotion_evolve current request =
     try_seq (emotion_validate_current_state current)
     (try_seq (emotion_request_validate request)
     (try_seq (emotion_stimulus_validate (epr_stimulus request))
     (try_bind (effective_after_decay current (epr_elapsed_seconds request)) (\<lambda>effective.
       let valence_impulse =
             scaled_stimulus (valence_signal (epr_stimulus request))
               VALENCE_STIMULUS_GAIN_NUMERATOR VALENCE_STIMULUS_GAIN_DENOMINATOR;
           activation_impulse =
             scaled_stimulus (activation_signal (epr_stimulus request))
               ACTIVATION_STIMULUS_GAIN_NUMERATOR ACTIVATION_STIMULUS_GAIN_DENOMINATOR;
           desired_valence = clamp_to_domain (vec_valence effective + valence_impulse);
           desired_activation = clamp_to_domain (vec_activation effective + activation_impulse);
           valence_net_delta = clamp_to_domain (desired_valence - es_valence current);
           activation_net_delta = clamp_to_domain (desired_activation - es_activation current);
           next_valence = clamp_to_domain (es_valence current + valence_net_delta);
           next_activation = clamp_to_domain (es_activation current + activation_net_delta)
       in try_bind
            (emotion_transition_new (epr_event_id request) (es_life_id current)
               (epr_source request) valence_net_delta activation_net_delta (es_revision current)
               next_valence next_activation (es_policy_version current) (epr_event_time request))
            (\<lambda>transition. try_seq (try_bind (emotion_target_revision transition) (\<lambda>_. Inr ()))
                           (Inr transition))))))"

section \<open>The policy as integer arithmetic\<close>

text \<open>
  The mathematical policy, without casts: the magnitude shrinks by the decay, the signal is scaled
  towards zero, the desired value is clamped to the domain and the net change to \<open>1000\<close>.
\<close>

definition affect_decayed :: "int \<Rightarrow> nat \<Rightarrow> int \<Rightarrow> int" where
  "affect_decayed rate elapsed cur =
     sgn cur * max 0 (\<bar>cur\<bar> - (int (min elapsed 604800) * rate) div 3600)"

definition affect_desired :: "int \<Rightarrow> nat \<Rightarrow> int \<Rightarrow> int \<Rightarrow> int \<Rightarrow> int \<Rightarrow> int" where
  "affect_desired rate elapsed num den cur signal =
     max (- 1000) (min 1000
       (affect_decayed rate elapsed cur + sgn signal * ((\<bar>signal\<bar> * num) div den)))"

definition affect_delta :: "int \<Rightarrow> nat \<Rightarrow> int \<Rightarrow> int \<Rightarrow> int \<Rightarrow> int \<Rightarrow> int" where
  "affect_delta rate elapsed num den cur signal =
     max (- 1000) (min 1000 (affect_desired rate elapsed num den cur signal - cur))"

definition emotion_state_ok :: "emotion_state \<Rightarrow> bool" where
  "emotion_state_ok s \<longleftrightarrow>
     \<not> str_blank (es_life_id s) \<and> emotion_affect_ok (es_valence s) \<and>
     emotion_affect_ok (es_activation s) \<and> 0 \<le> es_revision s \<and> es_policy_version s = 1"

definition emotion_request_ok :: "emotion_policy_request \<Rightarrow> bool" where
  "emotion_request_ok r \<longleftrightarrow>
     \<not> str_blank (epr_event_id r) \<and> \<not> str_blank (esrc_kind (epr_source r)) \<and>
     \<not> str_blank (esrc_reference (epr_source r)) \<and> \<not> str_blank (epr_event_time r)"

definition emotion_stimulus_ok :: "emotion_stimulus \<Rightarrow> bool" where
  "emotion_stimulus_ok s \<longleftrightarrow>
     emotion_affect_ok (valence_signal s) \<and> emotion_affect_ok (activation_signal s)"

lemma emotion_validate_current_state_eq:
  "emotion_validate_current_state s =
     (if emotion_state_ok s then Inr () else Inl emotion_invalid_argument)"
proof (cases "emotion_validate_current_state s" rule: unit_result_cases)
  case ok
  then show ?thesis
    by (simp add: emotion_validate_current_state_def check_all_Inr_iff emotion_state_ok_def
        emotion_constants emotion_affect_ok_def)
next
  case (err e)
  then have "e = emotion_invalid_argument"
    by (auto simp: emotion_validate_current_state_def dest!: check_all_Inl)
  moreover from err have "emotion_validate_current_state s \<noteq> Inr ()" by simp
  then have "\<not> emotion_state_ok s"
    by (auto simp: emotion_validate_current_state_def check_all_Inr_iff emotion_state_ok_def
        emotion_constants emotion_affect_ok_def)
  ultimately show ?thesis using err by simp
qed

lemma emotion_request_validate_eq:
  "emotion_request_validate r =
     (if emotion_request_ok r then Inr () else Inl emotion_invalid_argument)"
proof (cases "emotion_request_validate r" rule: unit_result_cases)
  case ok
  then show ?thesis
    by (simp add: emotion_request_validate_def check_all_Inr_iff emotion_request_ok_def
        emotion_source_validate_ok)
next
  case (err e)
  then have "e = emotion_invalid_argument"
    by (auto simp: emotion_request_validate_def dest!: check_all_Inl
        dest: emotion_source_validate_err [OF sym])
  moreover from err have "emotion_request_validate r \<noteq> Inr ()" by simp
  then have "\<not> emotion_request_ok r"
    by (auto simp: emotion_request_validate_def check_all_Inr_iff emotion_request_ok_def
        emotion_source_validate_ok)
  ultimately show ?thesis using err by simp
qed

lemma emotion_stimulus_validate_eq:
  "emotion_stimulus_validate s =
     (if emotion_stimulus_ok s then Inr () else Inl emotion_invalid_argument)"
  by (auto simp: emotion_stimulus_validate_def check_all.simps require_def emotion_stimulus_ok_def
      emotion_constants emotion_affect_ok_def)

lemmas emotion_validators_eq =
  emotion_validate_current_state_eq emotion_request_validate_eq emotion_stimulus_validate_eq

subsection \<open>No cast truncates\<close>

lemma sdiv_nonneg: "0 \<le> a \<Longrightarrow> 0 < b \<Longrightarrow> (a::int) sdiv b = a div b"
  by (cases "a = 0") (simp_all add: signed_divide_int_def)

lemma decay_toward_zero_eq:
  assumes "emotion_affect_ok cur" and "0 \<le> rate"
  shows "decay_toward_zero cur ((int (min elapsed 604800) * rate) sdiv 3600) =
    affect_decayed rate elapsed cur"
proof -
  let ?d = "(int (min elapsed 604800) * rate) div 3600"
  have d: "(int (min elapsed 604800) * rate) sdiv 3600 = ?d"
    using assms(2) by (intro sdiv_nonneg) simp_all
  have "0 \<le> ?d" using assms(2) by (simp add: pos_imp_zdiv_nonneg_iff)
  with assms(1) show ?thesis
    unfolding d decay_toward_zero_def affect_decayed_def emotion_affect_ok_def
    by (auto simp: i32_bounds sgn_if)
qed

lemma scaled_stimulus_eq:
  assumes "emotion_affect_ok signal" and "0 \<le> num" "num \<le> 1000" and "0 < den"
  shows "scaled_stimulus signal num den = sgn signal * ((\<bar>signal\<bar> * num) div den)"
proof -
  have "\<bar>(signal * num) sdiv den\<bar> \<le> \<bar>signal * num\<bar>"
    using assms(4) by (rule sdiv_abs_le)
  also have "\<dots> \<le> 1000 * 1000"
    unfolding abs_mult using assms by (intro mult_mono) (auto simp: emotion_affect_ok_def)
  finally have "in_i32 ((signal * num) sdiv den)"
    unfolding i32_bounds by linarith
  then have "scaled_stimulus signal num den = (signal * num) sdiv den"
    by (simp add: scaled_stimulus_def)
  also have "\<dots> = sgn signal * ((\<bar>signal\<bar> * num) div den)"
    using assms(2,4) by (cases "num = 0") (auto simp: signed_divide_int_def sgn_mult abs_mult)
  finally show ?thesis .
qed

lemma clamp_to_domain_eq: "clamp_to_domain x = max (- 1000) (min 1000 x)"
  unfolding clamp_to_domain_def clamp_int_def emotion_constants by (auto simp: i32_bounds)

lemma affect_decayed_bound:
  assumes "0 \<le> rate"
  shows "\<bar>affect_decayed rate elapsed cur\<bar> \<le> \<bar>cur\<bar>"
proof -
  have "0 \<le> (int (min elapsed 604800) * rate) div 3600"
    using assms by (simp add: pos_imp_zdiv_nonneg_iff)
  then show ?thesis by (auto simp: affect_decayed_def sgn_if)
qed

lemma affect_desired_ok: "emotion_affect_ok (affect_desired rate elapsed num den cur signal)"
  by (simp add: affect_desired_def emotion_affect_ok_def)

lemma affect_delta_ok: "emotion_affect_ok (affect_delta rate elapsed num den cur signal)"
  by (simp add: affect_delta_def emotion_affect_ok_def)

lemma affect_next_between:
  assumes "emotion_affect_ok cur"
  shows "min cur (affect_desired rate elapsed num den cur signal)
           \<le> cur + affect_delta rate elapsed num den cur signal"
    and "cur + affect_delta rate elapsed num den cur signal
           \<le> max cur (affect_desired rate elapsed num den cur signal)"
    and "emotion_affect_ok (cur + affect_delta rate elapsed num den cur signal)"
  using assms affect_desired_ok [of rate elapsed num den cur signal]
  by (auto simp: affect_delta_def emotion_affect_ok_def)

lemma affect_quiet:
  assumes "emotion_affect_ok cur" and "0 \<le> rate" and "0 < den"
  shows "cur + affect_delta rate elapsed num den cur 0 = affect_decayed rate elapsed cur"
proof -
  have b: "\<bar>affect_decayed rate elapsed cur\<bar> \<le> \<bar>cur\<bar>"
    using assms(2) by (rule affect_decayed_bound)
  have "0 \<le> (int (min elapsed 604800) * rate) div 3600"
    using assms(2) by (simp add: pos_imp_zdiv_nonneg_iff)
  then have "\<bar>affect_decayed rate elapsed cur - cur\<bar> \<le> \<bar>cur\<bar>"
    by (auto simp: affect_decayed_def sgn_if)
  with b assms(1) show ?thesis
    by (auto simp: affect_delta_def affect_desired_def emotion_affect_ok_def)
qed

subsection \<open>The operations\<close>

lemma effective_after_decay_eq:
  "effective_after_decay s n =
     (if emotion_state_ok s
      then Inr \<lparr>vec_valence = affect_decayed 8 n (es_valence s),
                vec_activation = affect_decayed 24 n (es_activation s)\<rparr>
      else Inl emotion_invalid_argument)"
  by (simp add: effective_after_decay_def emotion_validate_current_state_eq Let_def
      emotion_policy_constants decay_toward_zero_eq emotion_state_ok_def)

definition emotion_evolved ::
    "emotion_state \<Rightarrow> emotion_policy_request \<Rightarrow> emotion_transition" where
  "emotion_evolved s r =
     (let stim = epr_stimulus r; n = epr_elapsed_seconds r;
          dv = affect_delta 8 n 3 5 (es_valence s) (valence_signal stim);
          da = affect_delta 24 n 7 10 (es_activation s) (activation_signal stim)
      in \<lparr>et_event_id = epr_event_id r, et_life_id = es_life_id s, et_source = epr_source r,
          et_valence_delta = dv, et_activation_delta = da,
          et_expected_revision = es_revision s,
          et_next_valence = es_valence s + dv, et_next_activation = es_activation s + da,
          et_policy_version = es_policy_version s, et_event_time = epr_event_time r\<rparr>)"

lemma emotion_transition_new_eq:
  "emotion_transition_new a b c d e f g h i j =
     (let t = \<lparr>et_event_id = a, et_life_id = b, et_source = c, et_valence_delta = d,
               et_activation_delta = e, et_expected_revision = f, et_next_valence = g,
               et_next_activation = h, et_policy_version = i, et_event_time = j\<rparr>
      in if emotion_transition_validate t = Inr () then Inr t else Inl emotion_invalid_argument)"
  unfolding emotion_transition_new_def Let_def
  by (rule unit_result_cases [of "emotion_transition_validate \<lparr>et_event_id = a, et_life_id = b,
      et_source = c, et_valence_delta = d, et_activation_delta = e, et_expected_revision = f,
      et_next_valence = g, et_next_activation = h, et_policy_version = i, et_event_time = j\<rparr>"])
    (auto dest: emotion_transition_validate_err)

lemma emotion_evolve_spec_lemma:
  "emotion_evolve s r =
     (if emotion_state_ok s \<and> emotion_request_ok r \<and> emotion_stimulus_ok (epr_stimulus r)
         \<and> es_revision s < i64_max
      then Inr (emotion_evolved s r)
      else Inl emotion_invalid_argument)"
proof (cases "emotion_state_ok s \<and> emotion_request_ok r \<and> emotion_stimulus_ok (epr_stimulus r)")
  case False
  then show ?thesis
    by (auto simp: emotion_evolve_def emotion_validators_eq effective_after_decay_eq)
next
  case True
  then have s: "emotion_affect_ok (es_valence s)" "emotion_affect_ok (es_activation s)"
    and sg: "emotion_affect_ok (valence_signal (epr_stimulus r))"
      "emotion_affect_ok (activation_signal (epr_stimulus r))"
    by (auto simp: emotion_state_ok_def emotion_stimulus_ok_def)
  have clamp_next: "clamp_to_domain (c + d) = c + d" if "emotion_affect_ok (c + d)" for c d
    using that by (simp add: clamp_to_domain_eq emotion_affect_ok_def)
  have imp: "scaled_stimulus (valence_signal (epr_stimulus r)) 3 5 =
        sgn (valence_signal (epr_stimulus r)) * ((\<bar>valence_signal (epr_stimulus r)\<bar> * 3) div 5)"
      "scaled_stimulus (activation_signal (epr_stimulus r)) 7 10 =
        sgn (activation_signal (epr_stimulus r)) * ((\<bar>activation_signal (epr_stimulus r)\<bar> * 7) div 10)"
    using sg by (simp_all add: scaled_stimulus_eq)
  have step: "clamp_to_domain (clamp_to_domain (affect_decayed rate n c +
      sgn g * ((\<bar>g\<bar> * num) div den)) - c) = affect_delta rate n num den c g"
    for rate n num den c g
    by (simp add: clamp_to_domain_eq affect_delta_def affect_desired_def)
  let ?t = "emotion_evolved s r"
  have "emotion_transition_validate ?t = Inr ()"
    using True s affect_next_between(3) [OF s(1)] affect_next_between(3) [OF s(2)]
    by (simp add: emotion_transition_validate_ok emotion_evolved_def Let_def affect_delta_ok
        emotion_state_ok_def emotion_request_ok_def)
  moreover have "emotion_evolve s r =
      try_seq (emotion_transition_validate ?t)
        (try_seq (try_bind (emotion_target_revision ?t) (\<lambda>_. Inr ())) (Inr ?t))"
    using True s
    by (simp add: emotion_evolve_def emotion_validators_eq effective_after_decay_eq Let_def
        emotion_policy_constants imp step clamp_next affect_next_between(3)
        emotion_transition_new_def emotion_evolved_def)
      (simp add: try_seq_def try_bind_def split: sum.splits)
  moreover have "et_expected_revision ?t = es_revision s"
    by (simp add: emotion_evolved_def Let_def)
  ultimately show ?thesis
    using True by (auto simp: emotion_target_revision_def checked_add_def checked_i64_def
        i64_bounds emotion_state_ok_def)
qed

text \<open>
  C33: \<open>evolve\<close> computes the mathematical policy. It accepts exactly the requests whose state,
  identities and signals are valid and whose next revision exists, every \<open>as i32\<close> cast on the way
  is the identity, and any other input is refused with \<open>InvalidArgument\<close>.
\<close>

theorem emotion_evolve_spec:
  "emotion_evolve s r =
     (if emotion_state_ok s \<and> emotion_request_ok r \<and> emotion_stimulus_ok (epr_stimulus r)
         \<and> es_revision s < i64_max
      then Inr (emotion_evolved s r)
      else Inl emotion_invalid_argument)"
  by (rule emotion_evolve_spec_lemma)

lemma shrink_mono:
  fixes c :: int
  assumes "d \<le> e"
  shows "\<bar>sgn c * max 0 (\<bar>c\<bar> - e)\<bar> \<le> \<bar>sgn c * max 0 (\<bar>c\<bar> - d)\<bar>"
  using assms by (auto simp: sgn_if)

lemma shrink_sign: "0 \<le> sgn c * max 0 (\<bar>c\<bar> - d) * (c::int)"
  by (auto simp: sgn_if zero_le_mult_iff)

text \<open>
  Decay moves each dimension towards zero without crossing it, more elapsed time never leaves
  more of it, and after a week nothing is left.
\<close>

theorem emotion_decay_laws:
  assumes "effective_after_decay s n = Inr v" and "effective_after_decay s m = Inr w" and "n \<le> m"
  shows "\<bar>vec_valence w\<bar> \<le> \<bar>vec_valence v\<bar> \<and> \<bar>vec_valence v\<bar> \<le> \<bar>es_valence s\<bar>
      \<and> 0 \<le> vec_valence v * es_valence s
      \<and> \<bar>vec_activation w\<bar> \<le> \<bar>vec_activation v\<bar> \<and> \<bar>vec_activation v\<bar> \<le> \<bar>es_activation s\<bar>
      \<and> 0 \<le> vec_activation v * es_activation s
      \<and> (604800 \<le> m \<longrightarrow> vec_valence w = 0 \<and> vec_activation w = 0)"
proof -
  have ok: "emotion_state_ok s"
    and v: "vec_valence v = affect_decayed 8 n (es_valence s)"
      "vec_activation v = affect_decayed 24 n (es_activation s)"
    and w: "vec_valence w = affect_decayed 8 m (es_valence s)"
      "vec_activation w = affect_decayed 24 m (es_activation s)"
    using assms(1,2) by (auto simp: effective_after_decay_eq split: if_splits)
  have mono: "\<bar>affect_decayed rate m c\<bar> \<le> \<bar>affect_decayed rate n c\<bar>" if "0 \<le> rate" for rate c
  proof -
    have "int (min n 604800) * rate \<le> int (min m 604800) * rate"
      using assms(3) that by (intro mult_right_mono) auto
    then have "(int (min n 604800) * rate) div 3600 \<le> (int (min m 604800) * rate) div 3600"
      by (rule zdiv_mono1) simp
    then show ?thesis unfolding affect_decayed_def by (rule shrink_mono)
  qed
  have sign: "0 \<le> affect_decayed rate k c * c" for rate k c
    unfolding affect_decayed_def by (rule shrink_sign)
  have week: "affect_decayed rate m c = 0" if "604800 \<le> m" "8 \<le> rate" "emotion_affect_ok c" for rate c
  proof -
    from that(1) have "int (min m 604800) = 604800" by (simp add: min_absorb2)
    moreover from that(2) have "1344 \<le> (604800 * rate) div 3600" by linarith
    ultimately show ?thesis
      using that(3) unfolding affect_decayed_def emotion_affect_ok_def by auto
  qed
  from ok have c: "emotion_affect_ok (es_valence s)" "emotion_affect_ok (es_activation s)"
    by (simp_all add: emotion_state_ok_def)
  show ?thesis
    unfolding v w
    by (intro conjI impI mono sign affect_decayed_bound week c) simp_all
qed

definition sample_emotion_state :: emotion_state where
  "sample_emotion_state =
     \<lparr>es_life_id = ''life-a'', es_valence = 1000, es_activation = - 1000, es_revision = 0,
      es_policy_version = 1, es_last_applied_at = ''t0'', es_updated_at = ''t0''\<rparr>"

lemma sample_ids_not_blank [simp]:
  "\<not> str_blank ''life-a''" "\<not> str_blank ''event-1''" "\<not> str_blank ''conversation''"
  "\<not> str_blank ''turn-1''" "\<not> str_blank ''t0''" "\<not> str_blank ''t1''"
  by code_simp+

lemma sample_emotion_state_ok: "emotion_state_ok sample_emotion_state"
  by (simp add: emotion_state_ok_def sample_emotion_state_def emotion_affect_ok_def)

theorem emotion_decay_laws_witness:
  "\<exists>v w. effective_after_decay sample_emotion_state 3600 = Inr v
     \<and> effective_after_decay sample_emotion_state 700000 = Inr w
     \<and> vec_valence v = 992 \<and> vec_activation v = - 976
     \<and> \<bar>vec_valence w\<bar> \<le> \<bar>vec_valence v\<bar> \<and> vec_valence w = 0 \<and> vec_activation w = 0"
proof -
  have v: "effective_after_decay sample_emotion_state 3600 = Inr \<lparr>vec_valence = 992, vec_activation = - 976\<rparr>"
    by (simp add: effective_after_decay_eq sample_emotion_state_ok)
      (simp add: sample_emotion_state_def affect_decayed_def)
  obtain w where w: "effective_after_decay sample_emotion_state 700000 = Inr w"
    by (simp add: effective_after_decay_eq sample_emotion_state_ok)
  from emotion_decay_laws [OF v w] v w show ?thesis by auto
qed

text \<open>
  Anti-whiplash. An accepted evolution stays in the domain, records exactly the change it
  makes, moves no dimension by more than \<open>1000\<close> and never past the desired value; without a
  stimulus it lands exactly on the decayed value.
\<close>

theorem emotion_evolve_bounded:
  assumes "emotion_evolve s r = Inr t"
  shows "emotion_transition_validate t = Inr ()
      \<and> et_next_valence t = es_valence s + et_valence_delta t
      \<and> et_next_activation t = es_activation s + et_activation_delta t
      \<and> \<bar>et_valence_delta t\<bar> \<le> 1000 \<and> \<bar>et_activation_delta t\<bar> \<le> 1000
      \<and> et_expected_revision t = es_revision s \<and> et_life_id t = es_life_id s
      \<and> (epr_stimulus r = \<lparr>valence_signal = 0, activation_signal = 0\<rparr> \<longrightarrow>
           effective_after_decay s (epr_elapsed_seconds r)
             = Inr \<lparr>vec_valence = et_next_valence t, vec_activation = et_next_activation t\<rparr>)"
proof -
  from assms have ok: "emotion_state_ok s" "emotion_request_ok r"
    and t: "t = emotion_evolved s r"
    by (auto simp: emotion_evolve_spec_lemma split: if_splits)
  then have c: "emotion_affect_ok (es_valence s)" "emotion_affect_ok (es_activation s)"
    by (simp_all add: emotion_state_ok_def)
  have "\<bar>affect_delta rate n num den cur g\<bar> \<le> 1000" for rate n num den cur g
    by (auto simp: affect_delta_def)
  with ok c affect_next_between(3) [OF c(1)] affect_next_between(3) [OF c(2)] show ?thesis
    by (simp add: t emotion_evolved_def Let_def emotion_transition_validate_ok affect_delta_ok
        emotion_state_ok_def emotion_request_ok_def effective_after_decay_eq affect_quiet)
qed

definition sample_emotion_request :: "emotion_policy_request" where
  "sample_emotion_request =
     \<lparr>epr_event_id = ''event-1'',
      epr_source = \<lparr>esrc_kind = ''conversation'', esrc_reference = ''turn-1''\<rparr>,
      epr_stimulus = \<lparr>valence_signal = - 1000, activation_signal = 0\<rparr>,
      epr_elapsed_seconds = 604800, epr_event_time = ''t1''\<rparr>"

lemma sample_emotion_request_ok: "emotion_request_ok sample_emotion_request"
  by (simp add: emotion_request_ok_def sample_emotion_request_def)

lemma sample_emotion_accepted:
  "emotion_stimulus_ok (epr_stimulus sample_emotion_request)"
  "es_revision sample_emotion_state < i64_max"
  by (simp_all add: sample_emotion_request_def sample_emotion_state_def emotion_stimulus_ok_def
      emotion_affect_ok_def i64_max_def)

theorem emotion_evolve_bounded_witness:
  "\<exists>t. emotion_evolve sample_emotion_state sample_emotion_request = Inr t
     \<and> et_valence_delta t = - 1000 \<and> et_next_valence t = 0 \<and> et_next_activation t = 0
     \<and> emotion_transition_validate t = Inr ()"
proof -
  let ?t = "emotion_evolved sample_emotion_state sample_emotion_request"
  have e: "emotion_evolve sample_emotion_state sample_emotion_request = Inr ?t"
    using emotion_evolve_spec_lemma [of sample_emotion_state sample_emotion_request]
    by (simp only: sample_emotion_state_ok sample_emotion_request_ok sample_emotion_accepted
        simp_thms if_True)
  have "affect_decayed 8 604800 1000 = 0" "affect_decayed 24 604800 (- 1000) = 0"
    by (simp_all add: affect_decayed_def)
  then have "affect_delta 8 604800 3 5 1000 (- 1000) = - 1000"
    "affect_delta 24 604800 7 10 (- 1000) 0 = 1000"
    by (simp_all add: affect_delta_def affect_desired_def)
  then have d: "et_valence_delta ?t = - 1000" "et_next_valence ?t = 0" "et_next_activation ?t = 0"
    by (simp_all add: emotion_evolved_def sample_emotion_request_def sample_emotion_state_def
        Let_def)
  from emotion_evolve_bounded [OF e] have "emotion_transition_validate ?t = Inr ()" by blast
  with e d show ?thesis by blast
qed

end
