(* ===== verification/Emotion_Store.thy ===== *)
theory Emotion_Store
  imports Emotion_Policy Revision_Store
begin

text \<open>
  The SQLite emotion repository, \<open>src-tauri/src/storage/emotion.rs\<close>, over the tables of
  \<open>migrations/019_emotion_authority.*.sql\<close>. \<open>io\<close> says which statements SQLite executes, \<open>now\<close>
  is its \<open>strftime(.., 'now')\<close> and \<open>epoch\<close> its \<open>strftime('%s', ..)\<close>: all three are arguments.
\<close>

section \<open>Tables\<close>

record emotion_db = life_db +
  emotion_state_rows :: "emotion_state list"
  emotion_event_rows :: "emotion_event list"

datatype emotion_stmt =
    EmoLock | EmoBegin | EmoNow | EmoSelectState | EmoSelectLife | EmoSelectEventById
  | EmoSelectEventBySource | EmoInsertEvent | EmoUpdateState | EmoReloadState | EmoCommit
  | EmoObservedEpoch | EmoAppliedEpoch

type_synonym emotion_io = "emotion_stmt \<Rightarrow> bool"

text \<open>The \<open>CHECK\<close> constraints of the two tables.\<close>

definition emotion_event_row_check :: "emotion_event \<Rightarrow> bool" where
  "emotion_event_row_check e \<longleftrightarrow>
     ev_source_kind e \<noteq> [] \<and> ev_source_ref e \<noteq> [] \<and>
     - 1000 \<le> ev_valence_delta e \<and> ev_valence_delta e \<le> 1000 \<and>
     - 1000 \<le> ev_activation_delta e \<and> ev_activation_delta e \<le> 1000 \<and>
     - 1000 \<le> ev_result_valence e \<and> ev_result_valence e \<le> 1000 \<and>
     - 1000 \<le> ev_result_activation e \<and> ev_result_activation e \<le> 1000 \<and>
     0 < ev_applied_revision e \<and> ev_event_time e \<noteq> [] \<and> 0 < ev_policy_version e \<and>
     ev_created_at e \<noteq> []"

definition emotion_state_row_check :: "emotion_state \<Rightarrow> bool" where
  "emotion_state_row_check s \<longleftrightarrow>
     - 1000 \<le> es_valence s \<and> es_valence s \<le> 1000 \<and>
     - 1000 \<le> es_activation s \<and> es_activation s \<le> 1000 \<and>
     0 \<le> es_revision s \<and> 0 < es_policy_version s \<and>
     es_last_applied_at s \<noteq> [] \<and> es_updated_at s \<noteq> []"

definition emotion_event_source_key :: "emotion_event \<Rightarrow> string \<times> string \<times> string" where
  "emotion_event_source_key e = (ev_life_id e, ev_source_kind e, ev_source_ref e)"

definition emotion_event_revision_key :: "emotion_event \<Rightarrow> string \<times> int" where
  "emotion_event_revision_key e = (ev_life_id e, ev_applied_revision e)"

definition emotion_event_insert ::
    "emotion_event \<Rightarrow> 'a emotion_db_scheme \<Rightarrow> sql_constraint + 'a emotion_db_scheme" where
  "emotion_event_insert e db =
     (if \<not> emotion_event_row_check e then Inl SqlCheckFailed
      else if \<exists>r \<in> set (emotion_event_rows db).
                ev_event_id r = ev_event_id e
                \<or> emotion_event_source_key r = emotion_event_source_key e
                \<or> emotion_event_revision_key r = emotion_event_revision_key e
           then Inl SqlUniqueFailed
      else if ev_life_id e \<notin> set (life_identity db) then Inl SqlForeignKeyFailed
      else Inr (db\<lparr>emotion_event_rows := emotion_event_rows db @ [e]\<rparr>))"

text \<open>
  \<open>INSERT INTO life_identity\<close> and the trigger that gives the new life its neutral state.
\<close>

definition emotion_initial_state :: "string \<Rightarrow> string \<Rightarrow> emotion_state" where
  "emotion_initial_state life now =
     \<lparr>es_life_id = life, es_valence = 0, es_activation = 0, es_revision = 0,
      es_policy_version = 1, es_last_applied_at = now, es_updated_at = now\<rparr>"

definition emotion_life_insert ::
    "string \<Rightarrow> string \<Rightarrow> 'a emotion_db_scheme \<Rightarrow> sql_constraint + 'a emotion_db_scheme" where
  "emotion_life_insert now life db =
     (if life \<in> set (life_identity db) then Inl SqlUniqueFailed
      else if \<exists>s \<in> set (emotion_state_rows db). es_life_id s = life then Inl SqlUniqueFailed
      else if \<not> emotion_state_row_check (emotion_initial_state life now) then Inl SqlCheckFailed
      else Inr (db\<lparr>life_identity := life_identity db @ [life],
                  emotion_state_rows := emotion_state_rows db @ [emotion_initial_state life now]\<rparr>))"

section \<open>Operations\<close>

definition emotion_select_state ::
    "string \<Rightarrow> 'a emotion_db_scheme \<Rightarrow> emotion_state option" where
  "emotion_select_state life db = find (\<lambda>s. es_life_id s = life) (emotion_state_rows db)"

definition emotion_select_event_by_id ::
    "string \<Rightarrow> 'a emotion_db_scheme \<Rightarrow> emotion_event option" where
  "emotion_select_event_by_id i db = find (\<lambda>e. ev_event_id e = i) (emotion_event_rows db)"

definition emotion_select_event_by_source ::
    "string \<times> string \<times> string \<Rightarrow> 'a emotion_db_scheme \<Rightarrow> emotion_event option" where
  "emotion_select_event_by_source k db =
     find (\<lambda>e. emotion_event_source_key e = k) (emotion_event_rows db)"

definition emotion_event_evidence_matches ::
    "emotion_event \<Rightarrow> emotion_transition \<Rightarrow> int \<Rightarrow> bool" where
  "emotion_event_evidence_matches e t target_revision \<longleftrightarrow>
     ev_life_id e = et_life_id t
     \<and> ev_source_kind e = esrc_kind (et_source t)
     \<and> ev_source_ref e = esrc_reference (et_source t)
     \<and> ev_valence_delta e = et_valence_delta t
     \<and> ev_activation_delta e = et_activation_delta t
     \<and> ev_result_valence e = et_next_valence t
     \<and> ev_result_activation e = et_next_activation t
     \<and> ev_applied_revision e = target_revision
     \<and> ev_event_time e = et_event_time t
     \<and> ev_policy_version e = et_policy_version t"

fun emotion_map_insert_error :: "sql_constraint \<Rightarrow> emotion_error" where
  "emotion_map_insert_error SqlUniqueFailed = emotion_revision_conflict"
| "emotion_map_insert_error SqlForeignKeyFailed = emotion_life_not_found"
| "emotion_map_insert_error SqlCheckFailed = emotion_database"

definition emotion_event_of :: "string \<Rightarrow> int \<Rightarrow> emotion_transition \<Rightarrow> emotion_event" where
  "emotion_event_of now applied_revision t =
     \<lparr>ev_event_id = et_event_id t, ev_life_id = et_life_id t,
      ev_source_kind = esrc_kind (et_source t), ev_source_ref = esrc_reference (et_source t),
      ev_valence_delta = et_valence_delta t, ev_activation_delta = et_activation_delta t,
      ev_result_valence = et_next_valence t, ev_result_activation = et_next_activation t,
      ev_applied_revision = applied_revision, ev_event_time = et_event_time t,
      ev_policy_version = et_policy_version t, ev_created_at = now\<rparr>"

definition emotion_state_after ::
    "string \<Rightarrow> int \<Rightarrow> emotion_transition \<Rightarrow> emotion_state \<Rightarrow> emotion_state" where
  "emotion_state_after now applied_revision t s =
     s\<lparr>es_valence := et_next_valence t, es_activation := et_next_activation t,
       es_revision := applied_revision, es_policy_version := et_policy_version t,
       es_last_applied_at := et_event_time t, es_updated_at := now\<rparr>"

text \<open>
  The \<open>UPDATE \<dots> WHERE life_id = ?7 AND revision = ?8\<close>: \<open>None\<close> when a \<open>CHECK\<close> refuses it, else the
  number of changed rows and the tables.
\<close>

definition emotion_state_update ::
    "string \<Rightarrow> int \<Rightarrow> emotion_transition \<Rightarrow> 'a emotion_db_scheme
     \<Rightarrow> (nat \<times> 'a emotion_db_scheme) option" where
  "emotion_state_update now applied_revision t db =
     (let target = (\<lambda>s. es_life_id s = et_life_id t \<and> es_revision s = et_expected_revision t);
          (changed, rows) = sql_update target (emotion_state_after now applied_revision t)
                              (emotion_state_rows db)
      in if \<forall>s \<in> set (emotion_state_rows db). target s \<longrightarrow>
              emotion_state_row_check (emotion_state_after now applied_revision t s)
         then Some (changed, db\<lparr>emotion_state_rows := rows\<rparr>)
         else None)"

text \<open>The writes of a fresh transition: ledger row, compare-and-set of the state, reload.\<close>

definition emotion_apply_transition ::
    "emotion_io \<Rightarrow> string \<Rightarrow> int \<Rightarrow> emotion_transition \<Rightarrow> 'a emotion_db_scheme
     \<Rightarrow> emotion_error + emotion_commit_outcome \<times> 'a emotion_db_scheme" where
  "emotion_apply_transition io now applied_revision t db =
     (let event = emotion_event_of now applied_revision t in
      if \<not> io EmoInsertEvent then Inl emotion_database
      else case emotion_event_insert event db of
             Inl c \<Rightarrow> Inl (emotion_map_insert_error c)
           | Inr db1 \<Rightarrow>
               (if \<not> io EmoUpdateState then Inl emotion_database
                else case emotion_state_update now applied_revision t db1 of
                       None \<Rightarrow> Inl emotion_database
                     | Some (changed, db2) \<Rightarrow>
                         (if changed \<noteq> 1 then Inl emotion_revision_conflict
                          else if \<not> io EmoReloadState then Inl emotion_database
                          else case emotion_select_state (et_life_id t) db2 of
                                 None \<Rightarrow> Inl emotion_database
                               | Some s \<Rightarrow> Inr (EmotionCommitted event s, db2))))"

definition emotion_replay_or_conflict ::
    "emotion_event \<Rightarrow> emotion_transition \<Rightarrow> int \<Rightarrow> emotion_state \<Rightarrow> 'db
     \<Rightarrow> emotion_error + emotion_commit_outcome \<times> 'db" where
  "emotion_replay_or_conflict existing t applied_revision current db =
     (if emotion_event_evidence_matches existing t applied_revision
      then Inr (EmotionReplayed existing current, db)
      else Inl emotion_event_conflict)"

definition emotion_commit_in_transaction ::
    "emotion_io \<Rightarrow> string \<Rightarrow> emotion_transition \<Rightarrow> 'a emotion_db_scheme
     \<Rightarrow> emotion_error + emotion_commit_outcome \<times> 'a emotion_db_scheme" where
  "emotion_commit_in_transaction io now t db =
     (case emotion_transition_validate t of
        Inl _ \<Rightarrow> Inl emotion_invalid_argument
      | Inr _ \<Rightarrow>
     try_bind (emotion_target_revision t) (\<lambda>applied_revision.
     if \<not> io EmoNow then Inl emotion_database
     else if \<not> io EmoSelectState then Inl emotion_database
     else case emotion_select_state (et_life_id t) db of
       None \<Rightarrow>
         (if \<not> io EmoSelectLife then Inl emotion_database
          else Inl (if et_life_id t \<in> set (life_identity db) then emotion_state_not_found
                    else emotion_life_not_found))
     | Some current \<Rightarrow>
       (if \<not> io EmoSelectEventById then Inl emotion_database
        else case emotion_select_event_by_id (et_event_id t) db of
          Some existing \<Rightarrow> emotion_replay_or_conflict existing t applied_revision current db
        | None \<Rightarrow>
          (if \<not> io EmoSelectEventBySource then Inl emotion_database
           else case emotion_select_event_by_source
                       (et_life_id t, esrc_kind (et_source t), esrc_reference (et_source t)) db of
             Some existing \<Rightarrow> emotion_replay_or_conflict existing t applied_revision current db
           | None \<Rightarrow>
             (if es_revision current \<noteq> et_expected_revision t then Inl emotion_revision_conflict
              else emotion_apply_transition io now applied_revision t db)))))"

definition emotion_commit_transition ::
    "emotion_io \<Rightarrow> string \<Rightarrow> emotion_transition \<Rightarrow> 'a emotion_db_scheme
     \<Rightarrow> (emotion_error + emotion_commit_outcome) \<times> 'a emotion_db_scheme" where
  "emotion_commit_transition io now t db =
     with_transaction (io EmoLock \<and> io EmoBegin) (io EmoCommit) emotion_database
       (emotion_commit_in_transaction io now t) db"

definition emotion_load_current_state ::
    "emotion_io \<Rightarrow> string \<Rightarrow> 'a emotion_db_scheme \<Rightarrow> emotion_error + emotion_state option" where
  "emotion_load_current_state io life db =
     (if io EmoLock \<and> io EmoSelectState then Inr (emotion_select_state life db)
      else Inl emotion_database)"

definition emotion_find_event ::
    "emotion_io \<Rightarrow> string \<Rightarrow> string \<Rightarrow> string \<Rightarrow> 'a emotion_db_scheme
     \<Rightarrow> emotion_error + emotion_event option" where
  "emotion_find_event io life kind ref db =
     (if io EmoLock \<and> io EmoSelectEventBySource
      then Inr (emotion_select_event_by_source (life, kind, ref) db)
      else Inl emotion_database)"

subsection \<open>The runtime observation\<close>

record emotion_observation =
  eo_state :: emotion_state
  eo_observed_at :: string
  eo_elapsed_seconds :: nat

definition emotion_read_state_by_life ::
    "emotion_io \<Rightarrow> string \<Rightarrow> 'a emotion_db_scheme \<Rightarrow> emotion_error + emotion_state" where
  "emotion_read_state_by_life io life db =
     (if \<not> io EmoSelectState then Inl emotion_database
      else ok_or (emotion_select_state life db) emotion_state_not_found)"

definition u64_try_from :: "int \<Rightarrow> nat option" where
  "u64_try_from x = (if x < 0 then None else Some (nat x))"

definition emotion_runtime_observation_in_connection ::
    "emotion_io \<Rightarrow> (string \<Rightarrow> int option) \<Rightarrow> string \<Rightarrow> string \<Rightarrow> 'a emotion_db_scheme
     \<Rightarrow> emotion_error + emotion_observation" where
  "emotion_runtime_observation_in_connection io epoch observed_at life db =
     try_bind (emotion_read_state_by_life io life db) (\<lambda>state.
     if \<not> io EmoObservedEpoch then Inl emotion_database
     else try_bind (ok_or (epoch observed_at) emotion_invalid_argument) (\<lambda>observed_epoch.
     if \<not> io EmoAppliedEpoch then Inl emotion_database
     else try_bind (ok_or (epoch (es_last_applied_at state)) emotion_invalid_argument)
       (\<lambda>last_applied_epoch.
     try_bind
       (ok_or (u64_try_from (max (saturating_sub_i64 observed_epoch last_applied_epoch) 0))
          emotion_invalid_argument)
       (\<lambda>elapsed. Inr \<lparr>eo_state = state, eo_observed_at = observed_at,
                       eo_elapsed_seconds = elapsed\<rparr>))))"

definition emotion_load_runtime_observation_at ::
    "emotion_io \<Rightarrow> (string \<Rightarrow> int option) \<Rightarrow> string \<Rightarrow> string \<Rightarrow> 'a emotion_db_scheme
     \<Rightarrow> emotion_error + emotion_observation" where
  "emotion_load_runtime_observation_at io epoch life observed_at db =
     (if \<not> io EmoLock then Inl emotion_database
      else emotion_runtime_observation_in_connection io epoch observed_at life db)"

definition emotion_load_runtime_observation ::
    "emotion_io \<Rightarrow> (string \<Rightarrow> int option) \<Rightarrow> string \<Rightarrow> string \<Rightarrow> 'a emotion_db_scheme
     \<Rightarrow> emotion_error + emotion_observation" where
  "emotion_load_runtime_observation io epoch now life db =
     (if \<not> io EmoLock \<or> \<not> io EmoNow then Inl emotion_database
      else emotion_runtime_observation_in_connection io epoch now life db)"

section \<open>Outcomes of a commit\<close>

lemmas emotion_select_defs =
  emotion_select_state_def emotion_select_event_by_id_def emotion_select_event_by_source_def

lemma emotion_event_insert_Inr:
  "emotion_event_insert e db = Inr db' \<longleftrightarrow>
     emotion_event_row_check e
     \<and> (\<forall>r \<in> set (emotion_event_rows db). ev_event_id r \<noteq> ev_event_id e
          \<and> emotion_event_source_key r \<noteq> emotion_event_source_key e
          \<and> emotion_event_revision_key r \<noteq> emotion_event_revision_key e)
     \<and> ev_life_id e \<in> set (life_identity db)
     \<and> db' = db\<lparr>emotion_event_rows := emotion_event_rows db @ [e]\<rparr>"
  by (auto simp: emotion_event_insert_def)

lemma emotion_state_update_Some:
  "emotion_state_update now n t db = Some (changed, db') \<longleftrightarrow>
     (\<forall>s \<in> set (emotion_state_rows db).
        es_life_id s = et_life_id t \<and> es_revision s = et_expected_revision t \<longrightarrow>
        emotion_state_row_check (emotion_state_after now n t s))
     \<and> changed = length (filter (\<lambda>s. es_life_id s = et_life_id t
                                   \<and> es_revision s = et_expected_revision t) (emotion_state_rows db))
     \<and> db' = db\<lparr>emotion_state_rows :=
         map (\<lambda>s. if es_life_id s = et_life_id t \<and> es_revision s = et_expected_revision t
                  then emotion_state_after now n t s else s) (emotion_state_rows db)\<rparr>"
  by (auto simp: emotion_state_update_def sql_update_def Let_def)

definition emotion_committed_db ::
    "string \<Rightarrow> emotion_transition \<Rightarrow> 'a emotion_db_scheme \<Rightarrow> 'a emotion_db_scheme" where
  "emotion_committed_db now t db =
     (let n = et_expected_revision t + 1 in
      db\<lparr>emotion_event_rows := emotion_event_rows db @ [emotion_event_of now n t],
         emotion_state_rows :=
           map (\<lambda>s. if es_life_id s = et_life_id t \<and> es_revision s = et_expected_revision t
                    then emotion_state_after now n t s else s) (emotion_state_rows db)\<rparr>)"

lemma emotion_state_after_simps [simp]:
  "es_life_id (emotion_state_after now n t s) = es_life_id s"
  "es_revision (emotion_state_after now n t s) = n"
  "es_valence (emotion_state_after now n t s) = et_next_valence t"
  "es_activation (emotion_state_after now n t s) = et_next_activation t"
  "es_policy_version (emotion_state_after now n t s) = et_policy_version t"
  "es_last_applied_at (emotion_state_after now n t s) = et_event_time t"
  "es_updated_at (emotion_state_after now n t s) = now"
  by (simp_all add: emotion_state_after_def)

lemma emotion_event_of_simps [simp]:
  "ev_event_id (emotion_event_of now n t) = et_event_id t"
  "ev_life_id (emotion_event_of now n t) = et_life_id t"
  "ev_applied_revision (emotion_event_of now n t) = n"
  "ev_result_valence (emotion_event_of now n t) = et_next_valence t"
  "ev_result_activation (emotion_event_of now n t) = et_next_activation t"
  "ev_valence_delta (emotion_event_of now n t) = et_valence_delta t"
  "ev_activation_delta (emotion_event_of now n t) = et_activation_delta t"
  "emotion_event_source_key (emotion_event_of now n t) =
     (et_life_id t, esrc_kind (et_source t), esrc_reference (et_source t))"
  "emotion_event_evidence_matches (emotion_event_of now n t) t m \<longleftrightarrow> n = m"
  by (auto simp: emotion_event_of_def emotion_event_source_key_def
      emotion_event_evidence_matches_def)

lemma emotion_apply_transition_Inr:
  assumes "emotion_apply_transition io now n t db = Inr (out, db')"
    and "n = et_expected_revision t + 1"
  shows "\<exists>s. out = EmotionCommitted (emotion_event_of now n t) s
    \<and> db' = emotion_committed_db now t db
    \<and> emotion_select_state (et_life_id t) db' = Some s
    \<and> emotion_event_insert (emotion_event_of now n t) db
        = Inr (db\<lparr>emotion_event_rows := emotion_event_rows db @ [emotion_event_of now n t]\<rparr>)"
  using assms
  by (auto simp: emotion_apply_transition_def Let_def emotion_event_insert_Inr
      emotion_state_update_Some emotion_committed_db_def
      split: if_splits sum.splits option.splits prod.splits)

text \<open>The two ways a commit can succeed.\<close>

lemma emotion_commit_cases:
  assumes "emotion_commit_in_transaction io now t db = Inr (out, db')"
  obtains
    (replayed) e s where
      "out = EmotionReplayed e s" "db' = db" "e \<in> set (emotion_event_rows db)"
      "emotion_select_state (et_life_id t) db = Some s"
      "emotion_event_evidence_matches e t (et_expected_revision t + 1)"
  | (committed) s s' where
      "out = EmotionCommitted (emotion_event_of now (et_expected_revision t + 1) t) s'"
      "db' = emotion_committed_db now t db"
      "emotion_transition_validate t = Inr ()" "et_expected_revision t < i64_max"
      "emotion_select_state (et_life_id t) db = Some s" "es_revision s = et_expected_revision t"
      "emotion_select_state (et_life_id t) db' = Some s'"
      "emotion_event_insert (emotion_event_of now (et_expected_revision t + 1) t) db
        = Inr (db\<lparr>emotion_event_rows := emotion_event_rows db
                   @ [emotion_event_of now (et_expected_revision t + 1) t]\<rparr>)"
proof -
  from assms have v: "emotion_transition_validate t = Inr ()"
    by (auto simp: emotion_commit_in_transaction_def split: sum.splits)
  then have nonneg: "0 \<le> et_expected_revision t"
    by (simp add: emotion_transition_validate_ok)
  from assms v obtain n where n: "emotion_target_revision t = Inr n"
    by (auto simp: emotion_commit_in_transaction_def try_bind_Inr_iff)
  with nonneg have n': "n = et_expected_revision t + 1" "et_expected_revision t < i64_max"
    by (simp_all add: emotion_target_revision_ok)
  from assms v n obtain s where s: "emotion_select_state (et_life_id t) db = Some s"
    by (auto simp: emotion_commit_in_transaction_def split: if_splits option.splits)
  let ?k = "(et_life_id t, esrc_kind (et_source t), esrc_reference (et_source t))"
  consider (by_id) e where "emotion_select_event_by_id (et_event_id t) db = Some e"
      "emotion_replay_or_conflict e t n s db = Inr (out, db')"
    | (by_source) e where "emotion_select_event_by_source ?k db = Some e"
      "emotion_replay_or_conflict e t n s db = Inr (out, db')"
    | (store) "es_revision s = et_expected_revision t"
      "emotion_apply_transition io now n t db = Inr (out, db')"
    using assms v n s
    by (auto simp: emotion_commit_in_transaction_def split: if_splits option.splits)
  then show ?thesis
  proof cases
    case by_id
    then have "e \<in> set (emotion_event_rows db)"
      by (auto simp: emotion_select_defs dest: find_Some_mem)
    with by_id n'(1) s show ?thesis
      by (intro replayed [of e s]) (auto simp: emotion_replay_or_conflict_def split: if_splits)
  next
    case by_source
    then have "e \<in> set (emotion_event_rows db)"
      by (auto simp: emotion_select_defs dest: find_Some_mem)
    with by_source n'(1) s show ?thesis
      by (intro replayed [of e s]) (auto simp: emotion_replay_or_conflict_def split: if_splits)
  next
    case store
    from emotion_apply_transition_Inr [OF store(2) n'(1)] store(1) v n' s show ?thesis
      by (auto intro: committed)
  qed
qed

section \<open>The ledger invariant\<close>

text \<open>
  The abstract view of one life: its events in the order they were committed. The authoritative
  row is the projection of that history, and the revisions of the history are \<open>1, 2, \<dots>\<close>.
\<close>

definition emotion_history :: "string \<Rightarrow> 'a emotion_db_scheme \<Rightarrow> emotion_event list" where
  "emotion_history life db = filter (\<lambda>e. ev_life_id e = life) (emotion_event_rows db)"

definition emotion_projects :: "emotion_event list \<Rightarrow> emotion_state \<Rightarrow> bool" where
  "emotion_projects es s \<longleftrightarrow>
     map ev_applied_revision es = [1..es_revision s]
     \<and> (if es = [] then es_valence s = 0 \<and> es_activation s = 0
        else es_valence s = ev_result_valence (last es)
             \<and> es_activation s = ev_result_activation (last es))"

definition emotion_ledger_inv :: "'a emotion_db_scheme \<Rightarrow> bool" where
  "emotion_ledger_inv db \<longleftrightarrow>
     distinct (map es_life_id (emotion_state_rows db))
     \<and> es_life_id ` set (emotion_state_rows db) = set (life_identity db)
     \<and> distinct (map ev_event_id (emotion_event_rows db))
     \<and> distinct (map emotion_event_source_key (emotion_event_rows db))
     \<and> (\<forall>e \<in> set (emotion_event_rows db). ev_life_id e \<in> set (life_identity db)
                                          \<and> emotion_event_row_check e)
     \<and> (\<forall>s \<in> set (emotion_state_rows db). emotion_state_row_check s
                                          \<and> emotion_projects (emotion_history (es_life_id s) db) s)"

lemma emotion_select_state_iff:
  assumes "distinct (map es_life_id (emotion_state_rows db))"
  shows "emotion_select_state life db = Some s \<longleftrightarrow>
    s \<in> set (emotion_state_rows db) \<and> es_life_id s = life"
  using find_key_SomeI [OF assms] by (auto simp: emotion_select_defs dest: find_Some_mem)

lemma emotion_select_committed:
  assumes "distinct (map es_life_id (emotion_state_rows db))"
    and "emotion_select_state (et_life_id t) db = Some s" "es_revision s = et_expected_revision t"
  shows "emotion_select_state life (emotion_committed_db now t db) =
    (if life = et_life_id t then Some (emotion_state_after now (et_expected_revision t + 1) t s)
     else emotion_select_state life db)"
proof -
  let ?f = "\<lambda>s. if es_life_id s = et_life_id t \<and> es_revision s = et_expected_revision t
              then emotion_state_after now (et_expected_revision t + 1) t s else s"
  have key: "es_life_id (?f s) = es_life_id s" for s by simp
  have "emotion_select_state life (emotion_committed_db now t db) =
      map_option ?f (emotion_select_state life db)"
    unfolding emotion_select_defs emotion_committed_db_def Let_def
    by (simp add: find_map_key [of es_life_id ?f, OF key])
  then show ?thesis
    using assms(2,3) by (cases "emotion_select_state life db")
      (auto simp: emotion_select_defs dest: find_Some_mem)
qed

lemma emotion_history_committed:
  "emotion_history life (emotion_committed_db now t db) =
     emotion_history life db @
       (if life = et_life_id t then [emotion_event_of now (et_expected_revision t + 1) t] else [])"
  by (simp add: emotion_history_def emotion_committed_db_def Let_def)

lemma emotion_committed_db_rows:
  "life_identity (emotion_committed_db now t db) = life_identity db"
  "emotion_event_rows (emotion_committed_db now t db) =
     emotion_event_rows db @ [emotion_event_of now (et_expected_revision t + 1) t]"
  "map es_life_id (emotion_state_rows (emotion_committed_db now t db)) =
     map es_life_id (emotion_state_rows db)"
  by (simp_all add: emotion_committed_db_def Let_def)

text \<open>A fresh commit keeps the invariant.\<close>

lemma emotion_committed_inv:
  assumes inv: "emotion_ledger_inv db"
    and sel: "emotion_select_state (et_life_id t) db = Some s"
      "es_revision s = et_expected_revision t"
    and ins: "emotion_event_insert (emotion_event_of now (et_expected_revision t + 1) t) db
      = Inr (db\<lparr>emotion_event_rows := emotion_event_rows db
                  @ [emotion_event_of now (et_expected_revision t + 1) t]\<rparr>)"
  shows "emotion_ledger_inv (emotion_committed_db now t db)"
proof -
  let ?db = "emotion_committed_db now t db"
  let ?e = "emotion_event_of now (et_expected_revision t + 1) t"
  have dist: "distinct (map es_life_id (emotion_state_rows db))"
    using inv by (simp add: emotion_ledger_inv_def)
  have s_in: "s \<in> set (emotion_state_rows db)" "es_life_id s = et_life_id t"
    using sel(1) by (simp_all add: emotion_select_state_iff [OF dist])
  with inv have s_ok: "emotion_state_row_check s"
      "emotion_projects (emotion_history (et_life_id t) db) s"
    by (auto simp: emotion_ledger_inv_def)
  have e_ok: "emotion_event_row_check ?e"
    using ins by (simp add: emotion_event_insert_Inr)
  have states: "emotion_state_row_check s'
      \<and> emotion_projects (emotion_history (es_life_id s') ?db) s'"
    if "s' \<in> set (emotion_state_rows ?db)" for s'
  proof -
    from that have sel': "emotion_select_state (es_life_id s') ?db = Some s'"
      by (subst emotion_select_state_iff) (use dist in \<open>simp_all only: emotion_committed_db_rows\<close>)
    show ?thesis
    proof (cases "es_life_id s' = et_life_id t")
      case True
      with sel' emotion_select_committed [OF dist sel]
      have s': "s' = emotion_state_after now (et_expected_revision t + 1) t s" by simp
      have "map ev_applied_revision (emotion_history (et_life_id t) db) = [1..et_expected_revision t]"
        using s_ok(2) sel(2) by (simp add: emotion_projects_def)
      moreover have "0 \<le> et_expected_revision t"
        using s_ok(1) sel(2) by (simp add: emotion_state_row_check_def)
      then have "[1..et_expected_revision t + 1]
          = [1..et_expected_revision t] @ [et_expected_revision t + 1]"
        by (simp add: upto_rec2)
      ultimately have "emotion_projects (emotion_history (et_life_id t) ?db) s'"
        by (simp add: s' emotion_projects_def emotion_history_committed)
      moreover have "emotion_state_row_check s'"
        using e_ok by (simp add: s' emotion_state_row_check_def emotion_event_row_check_def
            emotion_event_of_def)
      ultimately show ?thesis using True by simp
    next
      case False
      with sel' have "emotion_select_state (es_life_id s') db = Some s'"
        by (simp add: emotion_select_committed [OF dist sel])
      then have "s' \<in> set (emotion_state_rows db)"
        by (simp add: emotion_select_state_iff [OF dist])
      with inv False show ?thesis
        by (simp add: emotion_ledger_inv_def emotion_history_committed)
    qed
  qed
  have "set (map es_life_id (emotion_state_rows ?db)) = set (life_identity db)"
    unfolding emotion_committed_db_rows using inv by (simp add: emotion_ledger_inv_def)
  then have "es_life_id ` set (emotion_state_rows ?db) = set (life_identity db)"
    by simp
  with states inv ins e_ok show ?thesis
    unfolding emotion_ledger_inv_def emotion_committed_db_rows
    by (auto simp: emotion_event_insert_Inr)
qed

lemma emotion_life_insert_inv:
  assumes inv: "emotion_ledger_inv db" and ins: "emotion_life_insert now life db = Inr db'"
  shows "emotion_ledger_inv db'"
proof -
  let ?s = "emotion_initial_state life now"
  from ins have new: "life \<notin> set (life_identity db)" and chk: "emotion_state_row_check ?s"
    and db': "db' = db\<lparr>life_identity := life_identity db @ [life],
                     emotion_state_rows := emotion_state_rows db @ [?s]\<rparr>"
    by (auto simp: emotion_life_insert_def split: if_splits)
  have "emotion_history life db = []"
    using inv new by (auto simp: emotion_history_def emotion_ledger_inv_def filter_empty_conv)
  then have "emotion_projects (emotion_history life db') ?s"
    by (simp add: db' emotion_history_def emotion_projects_def emotion_initial_state_def)
  moreover have "emotion_history l db' = emotion_history l db" for l
    by (simp add: db' emotion_history_def)
  ultimately show ?thesis
    using inv new chk by (auto simp: emotion_ledger_inv_def db' emotion_initial_state_def image_iff)
qed

section \<open>The repository keeps the store contract\<close>

type_synonym emotion_commit_call = "emotion_io \<times> string \<times> emotion_transition"

definition emotion_step ::
    "'a emotion_db_scheme \<Rightarrow> emotion_commit_call
     \<Rightarrow> (emotion_error + emotion_commit_outcome) \<times> 'a emotion_db_scheme" where
  "emotion_step db c = (case c of (io, now, t) \<Rightarrow> emotion_commit_transition io now t db)"

definition emotion_call_life :: "emotion_commit_call \<Rightarrow> string" where
  "emotion_call_life c = et_life_id (snd (snd c))"

definition emotion_call_expected :: "emotion_commit_call \<Rightarrow> int" where
  "emotion_call_expected c = et_expected_revision (snd (snd c))"

definition emotion_call_healthy :: "emotion_commit_call \<Rightarrow> bool" where
  "emotion_call_healthy c \<longleftrightarrow> (\<forall>stmt. fst c stmt)"

definition emotion_same_request :: "emotion_commit_call \<Rightarrow> emotion_commit_call \<Rightarrow> bool" where
  "emotion_same_request c d \<longleftrightarrow> snd (snd c) = snd (snd d)"

definition emotion_revision_of :: "'a emotion_db_scheme \<Rightarrow> string \<Rightarrow> int option" where
  "emotion_revision_of db life = map_option es_revision (emotion_select_state life db)"

fun emotion_fresh :: "emotion_commit_outcome \<Rightarrow> bool" where
  "emotion_fresh (EmotionCommitted _ _) = True"
| "emotion_fresh (EmotionReplayed _ _) = False"

definition emotion_recorded :: "'a emotion_db_scheme \<Rightarrow> emotion_commit_call \<Rightarrow> bool" where
  "emotion_recorded db c \<longleftrightarrow>
     (let t = snd (snd c) in
      emotion_transition_validate t = Inr () \<and> et_expected_revision t < i64_max
      \<and> (\<exists>e \<in> set (emotion_event_rows db). ev_event_id e = et_event_id t
            \<and> emotion_event_evidence_matches e t (et_expected_revision t + 1)))"

lemmas emotion_call_defs =
  emotion_call_life_def emotion_call_expected_def emotion_call_healthy_def
  emotion_same_request_def

lemma emotion_step_Inr:
  "emotion_step db (io, now, t) = (Inr out, db') \<Longrightarrow>
   emotion_commit_in_transaction io now t db = Inr (out, db')"
  by (simp add: emotion_step_def emotion_commit_transition_def with_transaction_Inr)

lemma emotion_inv_distinct:
  "emotion_ledger_inv db \<Longrightarrow> distinct (map es_life_id (emotion_state_rows db))"
  by (simp add: emotion_ledger_inv_def)

lemma emotion_step_fresh:
  assumes inv: "emotion_ledger_inv db" and st: "emotion_step db c = (Inr out, db')"
    and fr: "emotion_fresh out"
  shows "emotion_revision_of db (emotion_call_life c) = Some (emotion_call_expected c)
    \<and> emotion_revision_of db' =
        (emotion_revision_of db)(emotion_call_life c \<mapsto> emotion_call_expected c + 1)
    \<and> emotion_ledger_inv db' \<and> emotion_recorded db' c
    \<and> db' = emotion_committed_db (fst (snd c)) (snd (snd c)) db"
proof -
  obtain io now t where c: "c = (io, now, t)" by (cases c) auto
  from st have "emotion_commit_in_transaction io now t db = Inr (out, db')"
    unfolding c by (rule emotion_step_Inr)
  then show ?thesis
  proof (cases rule: emotion_commit_cases)
    case (replayed e s)
    with fr show ?thesis by simp
  next
    case (committed s s')
    note sel = emotion_select_committed [OF emotion_inv_distinct [OF inv] committed(5,6)]
    have "emotion_revision_of db' =
        (emotion_revision_of db)(et_life_id t \<mapsto> et_expected_revision t + 1)"
      unfolding committed(2) emotion_revision_of_def by (rule ext) (simp add: sel)
    moreover have "emotion_ledger_inv db'"
      unfolding committed(2) by (rule emotion_committed_inv [OF inv committed(5,6,8)])
    moreover have "emotion_recorded db' c"
      using committed by (simp add: emotion_recorded_def c emotion_committed_db_rows)
    ultimately show ?thesis
      using committed by (simp add: c emotion_call_defs emotion_revision_of_def)
  qed
qed

lemma emotion_step_replayed:
  assumes "emotion_step db c = (Inr out, db')" and "\<not> emotion_fresh out"
  shows "db' = db"
proof -
  obtain io now t where c: "c = (io, now, t)" by (cases c) auto
  from assms(1) have "emotion_commit_in_transaction io now t db = Inr (out, db')"
    unfolding c by (rule emotion_step_Inr)
  then show ?thesis using assms(2) by (cases rule: emotion_commit_cases) simp_all
qed

text \<open>A request whose event is recorded is answered with that event and the current row.\<close>

lemma emotion_event_replays:
  assumes inv: "emotion_ledger_inv db" and io: "\<And>stmt. io stmt"
    and v: "emotion_transition_validate t = Inr ()" "et_expected_revision t < i64_max"
    and e: "e \<in> set (emotion_event_rows db)" "ev_event_id e = et_event_id t"
      "emotion_event_evidence_matches e t (et_expected_revision t + 1)"
  shows "\<exists>s. emotion_select_state (et_life_id t) db = Some s
    \<and> emotion_commit_transition io now t db = (Inr (EmotionReplayed e s), db)"
proof -
  from inv e(1,3) have "et_life_id t \<in> es_life_id ` set (emotion_state_rows db)"
    by (auto simp: emotion_ledger_inv_def emotion_event_evidence_matches_def)
  then obtain s where "s \<in> set (emotion_state_rows db)" "es_life_id s = et_life_id t"
    by (auto simp: image_iff)
  then have s: "emotion_select_state (et_life_id t) db = Some s"
    by (simp add: emotion_select_state_iff [OF emotion_inv_distinct [OF inv]])
  have "emotion_select_event_by_id (et_event_id t) db = Some e"
    unfolding emotion_select_defs using inv e
    by (intro find_key_SomeI) (simp_all add: emotion_ledger_inv_def)
  moreover have "emotion_target_revision t = Inr (et_expected_revision t + 1)"
    using v by (simp add: emotion_target_revision_ok emotion_transition_validate_ok)
  ultimately show ?thesis
    using v s e(3)
    by (simp add: emotion_commit_transition_def with_transaction_def
        emotion_commit_in_transaction_def io emotion_replay_or_conflict_def)
qed

lemma emotion_recorded_replays:
  assumes inv: "emotion_ledger_inv db" and rec: "emotion_recorded db c"
    and ok: "emotion_call_healthy c"
  shows "\<exists>out. emotion_step db c = (Inr out, db) \<and> \<not> emotion_fresh out"
proof -
  obtain io now t where c: "c = (io, now, t)" by (cases c) auto
  have io: "io stmt" for stmt using ok by (simp add: c emotion_call_defs)
  from rec obtain e where "emotion_transition_validate t = Inr ()"
      "et_expected_revision t < i64_max" "e \<in> set (emotion_event_rows db)"
      "ev_event_id e = et_event_id t"
      "emotion_event_evidence_matches e t (et_expected_revision t + 1)"
    by (auto simp: emotion_recorded_def c)
  from emotion_event_replays [OF inv _ this, of io now] io show ?thesis
    by (auto simp: c emotion_step_def)
qed

lemma emotion_recorded_mono:
  "set (emotion_event_rows db) \<subseteq> set (emotion_event_rows db') \<Longrightarrow>
   emotion_recorded db c \<Longrightarrow> emotion_recorded db' c"
  by (auto simp: emotion_recorded_def Let_def)

interpretation emotion_store: evidence_store
  emotion_step emotion_revision_of emotion_call_life emotion_call_expected emotion_fresh
  emotion_ledger_inv emotion_recorded emotion_call_healthy emotion_same_request
proof (unfold_locales, goal_cases)
  case (1 db t e db')
  then show ?case
    by (auto simp: emotion_step_def emotion_commit_transition_def split: prod.splits
        dest: with_transaction_Inl)
next
  case (2 db t out db')
  then show ?case by (rule emotion_step_replayed)
next
  case (3 db t out db')
  then show ?case by (simp add: emotion_step_fresh)
next
  case (4 db t out db')
  then show ?case by (simp add: emotion_step_fresh)
next
  case (5 db t out db')
  then show ?case by (simp add: emotion_step_fresh)
next
  case (6 db t out db')
  then show ?case by (simp add: emotion_step_fresh)
next
  case (7 db t out db' u)
  then have "db' = emotion_committed_db (fst (snd t)) (snd (snd t)) db"
    by (simp add: emotion_step_fresh)
  then have "set (emotion_event_rows db) \<subseteq> set (emotion_event_rows db')"
    by (auto simp: emotion_committed_db_rows)
  with 7 show ?case using emotion_recorded_mono by blast
next
  case (8 db t u)
  then show ?case by (simp add: emotion_recorded_def emotion_same_request_def)
next
  case (9 db t)
  then show ?case by (rule emotion_recorded_replays)
qed

section \<open>Properties\<close>

inductive emotion_reachable :: "emotion_db \<Rightarrow> bool" where
  empty: "emotion_reachable \<lparr>life_identity = [], emotion_state_rows = [], emotion_event_rows = []\<rparr>"
| life: "emotion_reachable db \<Longrightarrow> emotion_life_insert now life db = Inr db' \<Longrightarrow> emotion_reachable db'"
| commit: "emotion_reachable db \<Longrightarrow> emotion_reachable (snd (emotion_commit_transition io now t db))"

lemma emotion_commit_transition_inv:
  "emotion_ledger_inv db \<Longrightarrow> emotion_ledger_inv (snd (emotion_commit_transition io now t db))"
  using emotion_store.step_inv [of db "(io, now, t)"] by (simp add: emotion_step_def)

lemma emotion_reachable_inv: "emotion_reachable db \<Longrightarrow> emotion_ledger_inv db"
proof (induction rule: emotion_reachable.induct)
  case empty
  show ?case by (simp add: emotion_ledger_inv_def)
next
  case (life db now life db')
  then show ?case by (auto intro: emotion_life_insert_inv)
next
  case (commit db io now t)
  then show ?case by (simp add: emotion_commit_transition_inv)
qed

text \<open>A sample history: one life, one committed event.\<close>

definition emotion_sample_db0 :: emotion_db where
  "emotion_sample_db0 =
     \<lparr>life_identity = [''life-a''], emotion_state_rows = [emotion_initial_state ''life-a'' ''t0''],
      emotion_event_rows = []\<rparr>"

definition emotion_sample_transition :: emotion_transition where
  "emotion_sample_transition =
     \<lparr>et_event_id = ''event-1'', et_life_id = ''life-a'',
      et_source = \<lparr>esrc_kind = ''conversation'', esrc_reference = ''turn-1''\<rparr>,
      et_valence_delta = 60, et_activation_delta = - 5, et_expected_revision = 0,
      et_next_valence = 60, et_next_activation = - 5, et_policy_version = 1,
      et_event_time = ''t1''\<rparr>"

definition emotion_sample_call :: emotion_commit_call where
  "emotion_sample_call = ((\<lambda>_. True), ''t1'', emotion_sample_transition)"

lemma emotion_sample_db0_reachable: "emotion_reachable emotion_sample_db0"
  by (rule emotion_reachable.life [OF emotion_reachable.empty, of "''t0''" "''life-a''"])
    (simp add: emotion_sample_db0_def emotion_life_insert_def emotion_initial_state_def
      emotion_state_row_check_def)

lemma emotion_sample_valid: "emotion_transition_validate emotion_sample_transition = Inr ()"
  by (simp add: emotion_transition_validate_ok emotion_sample_transition_def emotion_affect_ok_def)

text \<open>A new, valid, current transition commits when SQLite executes the statements.\<close>

lemma emotion_commit_succeeds:
  assumes inv: "emotion_ledger_inv db" and io: "\<And>stmt. io stmt" and now: "now \<noteq> []"
    and valid: "emotion_transition_validate t = Inr ()" "et_expected_revision t < i64_max"
    and cur: "emotion_revision_of db (et_life_id t) = Some (et_expected_revision t)"
    and new: "\<forall>e \<in> set (emotion_event_rows db). ev_event_id e \<noteq> et_event_id t \<and>
      emotion_event_source_key e \<noteq> (et_life_id t, esrc_kind (et_source t), esrc_reference (et_source t))"
  shows "\<exists>s. emotion_select_state (et_life_id t) db = Some s
    \<and> emotion_commit_transition io now t db =
        (Inr (EmotionCommitted (emotion_event_of now (et_expected_revision t + 1) t)
               (emotion_state_after now (et_expected_revision t + 1) t s)),
         emotion_committed_db now t db)"
proof -
  let ?n = "et_expected_revision t + 1"
  from cur obtain s where s: "emotion_select_state (et_life_id t) db = Some s"
    "es_revision s = et_expected_revision t"
    by (auto simp: emotion_revision_of_def)
  note dist = emotion_inv_distinct [OF inv]
  from s(1) have s_in: "s \<in> set (emotion_state_rows db)" "es_life_id s = et_life_id t"
    by (simp_all add: emotion_select_state_iff [OF dist])
  with inv s(2) have hist: "map ev_applied_revision (emotion_history (et_life_id t) db)
      = [1..et_expected_revision t]"
    by (auto simp: emotion_ledger_inv_def emotion_projects_def)
  have "emotion_event_revision_key e \<noteq> (et_life_id t, ?n)" if "e \<in> set (emotion_event_rows db)" for e
  proof
    assume "emotion_event_revision_key e = (et_life_id t, ?n)"
    with that have "?n \<in> set (map ev_applied_revision (emotion_history (et_life_id t) db))"
      by (force simp: emotion_event_revision_key_def emotion_history_def)
    then show False by (simp add: hist)
  qed
  moreover have "str_blank []" by simp
  with valid have row: "emotion_event_row_check (emotion_event_of now ?n t)"
    "emotion_state_row_check (emotion_state_after now ?n t s')" for s'
    using now by (auto simp: emotion_event_row_check_def emotion_state_row_check_def
        emotion_event_of_def emotion_transition_validate_ok emotion_affect_ok_def)
  moreover from inv s_in have "et_life_id t \<in> set (life_identity db)"
    unfolding emotion_ledger_inv_def by (metis image_eqI)
  ultimately have ins: "emotion_event_insert (emotion_event_of now ?n t) db =
      Inr (db\<lparr>emotion_event_rows := emotion_event_rows db @ [emotion_event_of now ?n t]\<rparr>)"
    using new by (simp add: emotion_event_insert_Inr)
      (simp add: emotion_event_revision_key_def)
  have upd: "emotion_state_update now ?n t (db\<lparr>emotion_event_rows := emotion_event_rows db
        @ [emotion_event_of now ?n t]\<rparr>) = Some (1, emotion_committed_db now t db)"
    using count_key_guard [OF dist, of "et_life_id t" s "\<lambda>s. es_revision s = et_expected_revision t"]
      s row(2) by (simp add: emotion_state_update_Some emotion_committed_db_def Let_def
        emotion_select_state_def)
  have sel: "emotion_select_state (et_life_id t) (emotion_committed_db now t db) =
      Some (emotion_state_after now ?n t s)"
    by (simp add: emotion_select_committed [OF dist s])
  have none: "emotion_select_event_by_id (et_event_id t) db = None"
    "emotion_select_event_by_source
      (et_life_id t, esrc_kind (et_source t), esrc_reference (et_source t)) db = None"
    using new by (auto simp: emotion_select_defs find_None_all)
  have "emotion_target_revision t = Inr ?n"
    using valid by (simp add: emotion_target_revision_ok emotion_transition_validate_ok)
  then show ?thesis
    using s(2) by (simp add: s(1) emotion_commit_transition_def with_transaction_def io valid(1) none
        emotion_commit_in_transaction_def emotion_apply_transition_def Let_def ins upd sel)
qed

lemma emotion_sample_commit:
  "emotion_step emotion_sample_db0 emotion_sample_call =
     (Inr (EmotionCommitted (emotion_event_of ''t1'' 1 emotion_sample_transition)
            (emotion_state_after ''t1'' 1 emotion_sample_transition
              (emotion_initial_state ''life-a'' ''t0''))),
      emotion_committed_db ''t1'' emotion_sample_transition emotion_sample_db0)"
proof -
  have sel: "emotion_select_state ''life-a'' emotion_sample_db0 =
      Some (emotion_initial_state ''life-a'' ''t0'')"
    by (simp add: emotion_select_state_def emotion_sample_db0_def emotion_initial_state_def)
  have t: "et_life_id emotion_sample_transition = ''life-a''"
    "et_expected_revision emotion_sample_transition = 0"
    by (simp_all add: emotion_sample_transition_def)
  have "emotion_revision_of emotion_sample_db0 ''life-a'' = Some 0"
    by (simp add: emotion_revision_of_def sel) (simp add: emotion_initial_state_def)
  moreover have "emotion_event_rows emotion_sample_db0 = []"
    by (simp add: emotion_sample_db0_def)
  ultimately show ?thesis
    using emotion_commit_succeeds [of emotion_sample_db0 "\<lambda>_. True" "''t1''" emotion_sample_transition]
      emotion_reachable_inv [OF emotion_sample_db0_reachable] emotion_sample_valid
    by (simp add: t sel i64_bounds emotion_step_def emotion_sample_call_def)
qed

text \<open>
  In every database the operations can reach, the authoritative row of a life is the
  projection of its ledger: the committed events have the revisions \<open>1, 2, \<dots>\<close> without gap or
  repetition, the row carries the last of them with the values that event recorded, and the
  values stay in the domain. A life and its state row exist together.
\<close>

theorem emotion_ledger_projection:
  assumes "emotion_reachable db"
  shows "(life \<in> set (life_identity db)) = (emotion_select_state life db \<noteq> None)
    \<and> (case emotion_select_state life db of
         None \<Rightarrow> emotion_history life db = []
       | Some s \<Rightarrow>
           map ev_applied_revision (emotion_history life db) = [1..es_revision s]
           \<and> (es_revision s = 0 \<longrightarrow> es_valence s = 0 \<and> es_activation s = 0)
           \<and> (0 < es_revision s \<longrightarrow>
                es_valence s = ev_result_valence (last (emotion_history life db))
                \<and> es_activation s = ev_result_activation (last (emotion_history life db))
                \<and> ev_applied_revision (last (emotion_history life db)) = es_revision s)
           \<and> emotion_affect_ok (es_valence s) \<and> emotion_affect_ok (es_activation s))"
proof -
  note inv = emotion_reachable_inv [OF assms]
  note sel = emotion_select_state_iff [OF emotion_inv_distinct [OF inv]]
  have ex: "(life \<in> set (life_identity db)) = (emotion_select_state life db \<noteq> None)"
  proof -
    have "(life \<in> set (life_identity db)) = (life \<in> es_life_id ` set (emotion_state_rows db))"
      using inv by (simp add: emotion_ledger_inv_def)
    also have "\<dots> = (\<exists>s. emotion_select_state life db = Some s)"
      by (auto simp: sel image_iff)
    finally show ?thesis by simp
  qed
  show ?thesis
  proof (cases "emotion_select_state life db")
    case None
    with ex inv have "emotion_history life db = []"
      by (auto simp: emotion_history_def filter_empty_conv emotion_ledger_inv_def)
    with None ex show ?thesis by simp
  next
    case (Some s)
    then have "s \<in> set (emotion_state_rows db)" "es_life_id s = life" by (simp_all add: sel)
    with inv have row: "emotion_state_row_check s"
      and pr: "emotion_projects (emotion_history life db) s"
      by (auto simp: emotion_ledger_inv_def)
    let ?h = "emotion_history life db"
    have revs: "map ev_applied_revision ?h = [1..es_revision s]"
      using pr by (simp add: emotion_projects_def)
    have empty: "?h = [] \<longleftrightarrow> es_revision s < 1"
      using revs by (metis map_is_Nil_conv upto_Nil)
    have "ev_applied_revision (last ?h) = es_revision s" if "0 < es_revision s"
    proof -
      have "?h \<noteq> []" using that empty by simp
      then have "ev_applied_revision (last ?h) = last [1..es_revision s]"
        using revs by (metis last_map)
      also have "\<dots> = es_revision s" using that by (simp add: upto_rec2)
      finally show ?thesis .
    qed
    with row pr revs empty Some ex show ?thesis
      by (auto simp: emotion_projects_def emotion_state_row_check_def emotion_affect_ok_def
          split: if_splits)
  qed
qed

theorem emotion_ledger_projection_witness:
  "\<exists>db s. emotion_reachable db \<and> emotion_select_state ''life-a'' db = Some s
     \<and> es_revision s = 1 \<and> es_valence s = 60
     \<and> map ev_applied_revision (emotion_history ''life-a'' db) = [1..1]"
proof -
  let ?db = "emotion_committed_db ''t1'' emotion_sample_transition emotion_sample_db0"
  have r: "emotion_reachable ?db"
    using emotion_reachable.commit [OF emotion_sample_db0_reachable, of "\<lambda>_. True" "''t1''"
        emotion_sample_transition] emotion_sample_commit
    by (simp add: emotion_step_def emotion_sample_call_def)
  have s: "emotion_select_state ''life-a'' ?db = Some (emotion_state_after ''t1'' 1
      emotion_sample_transition (emotion_initial_state ''life-a'' ''t0''))"
    by (simp add: emotion_select_state_def emotion_committed_db_def Let_def emotion_sample_db0_def
        emotion_sample_transition_def emotion_initial_state_def)
  from emotion_ledger_projection [OF r, of "''life-a''"] s r show ?thesis
    by (intro exI [of _ ?db]) (simp add: emotion_sample_transition_def)
qed

text \<open>What a fresh commit leaves: the recorded event, which is that of the transition.\<close>

lemma emotion_committed_event:
  assumes "emotion_commit_transition io now t db = (Inr (EmotionCommitted e s), db1)"
  shows "emotion_transition_validate t = Inr ()" "et_expected_revision t < i64_max"
    "e = emotion_event_of now (et_expected_revision t + 1) t" "e \<in> set (emotion_event_rows db1)"
    "ev_event_id e = et_event_id t"
    "emotion_event_evidence_matches e t (et_expected_revision t + 1)"
proof -
  have "emotion_commit_in_transaction io now t db = Inr (EmotionCommitted e s, db1)"
    using assms by (simp add: emotion_commit_transition_def with_transaction_Inr)
  then show "emotion_transition_validate t = Inr ()" "et_expected_revision t < i64_max"
    "e = emotion_event_of now (et_expected_revision t + 1) t" "e \<in> set (emotion_event_rows db1)"
    "ev_event_id e = et_event_id t"
    "emotion_event_evidence_matches e t (et_expected_revision t + 1)"
    by (cases rule: emotion_commit_cases; simp add: emotion_committed_db_rows)+
qed

text \<open>
  No lost update. After a committed transition, no transition that builds on the same or an
  older revision of that life can commit, whatever ran in between; the attempt leaves the tables
  as they were.
\<close>

theorem emotion_no_lost_update:
  assumes "emotion_ledger_inv db"
    and "emotion_commit_transition io now t db = (Inr (EmotionCommitted e s), db1)"
    and "db2 = snd (run_all emotion_step db1 calls)"
    and "et_life_id u = et_life_id t" and "et_expected_revision u \<le> et_expected_revision t"
  shows "(\<forall>e' s'. fst (emotion_commit_transition io' now' u db2) \<noteq> Inr (EmotionCommitted e' s'))
    \<and> snd (emotion_commit_transition io' now' u db2) = db2"
proof -
  have db1: "snd (emotion_step db (io, now, t)) = db1"
    using assms(2) by (simp add: emotion_step_def)
  have "\<not> emotion_store.is_fresh (fst (emotion_step db2 (io', now', u)))"
    unfolding assms(3) db1 [symmetric]
    by (rule emotion_store.no_lost_update)
      (use assms in \<open>simp_all add: emotion_step_def emotion_store.is_fresh_def emotion_call_defs\<close>)
  then show ?thesis
    using emotion_store.step_frame [of db2 "(io', now', u)"]
    by (auto simp: emotion_step_def emotion_store.is_fresh_def)
qed

theorem emotion_no_lost_update_witness:
  "snd (emotion_commit_transition (\<lambda>_. True) ''t9''
      (emotion_sample_transition\<lparr>et_event_id := ''turn-1''\<rparr>)
      (snd (emotion_step emotion_sample_db0 emotion_sample_call)))
    = snd (emotion_step emotion_sample_db0 emotion_sample_call)"
proof -
  have "emotion_commit_transition (\<lambda>_. True) ''t1'' emotion_sample_transition emotion_sample_db0 =
     (Inr (EmotionCommitted (emotion_event_of ''t1'' 1 emotion_sample_transition)
            (emotion_state_after ''t1'' 1 emotion_sample_transition
              (emotion_initial_state ''life-a'' ''t0''))),
      emotion_committed_db ''t1'' emotion_sample_transition emotion_sample_db0)"
    using emotion_sample_commit by (simp add: emotion_step_def emotion_sample_call_def)
  from emotion_no_lost_update [OF emotion_reachable_inv [OF emotion_sample_db0_reachable] this,
      of _ "[]" "emotion_sample_transition\<lparr>et_event_id := ''turn-1''\<rparr>" "\<lambda>_. True" "''t9''"]
  show ?thesis using emotion_sample_commit by simp
qed

section \<open>Governed turns\<close>

text \<open>
  A governed turn: observe the state, let the policy evolve it over the observed time, commit the
  transition. \<open>emotion_turn\<close> runs the three operations as their callers compose them.
\<close>

definition emotion_turn ::
    "emotion_io \<Rightarrow> (string \<Rightarrow> int option) \<Rightarrow> string \<Rightarrow> string \<Rightarrow> string \<Rightarrow> emotion_event_source
     \<Rightarrow> emotion_stimulus \<Rightarrow> 'a emotion_db_scheme
     \<Rightarrow> (emotion_error + emotion_commit_outcome) \<times> 'a emotion_db_scheme" where
  "emotion_turn io epoch now life event_id source stimulus db =
     (case try_bind (emotion_load_runtime_observation io epoch now life db) (\<lambda>ob.
             emotion_evolve (eo_state ob)
               \<lparr>epr_event_id = event_id, epr_source = source, epr_stimulus = stimulus,
                epr_elapsed_seconds = eo_elapsed_seconds ob, epr_event_time = eo_observed_at ob\<rparr>)
      of Inl e \<Rightarrow> (Inl e, db)
       | Inr t \<Rightarrow> emotion_commit_transition io now t db)"

inductive emotion_governed :: "emotion_db \<Rightarrow> bool" where
  empty: "emotion_governed \<lparr>life_identity = [], emotion_state_rows = [], emotion_event_rows = []\<rparr>"
| life: "emotion_governed db \<Longrightarrow> emotion_life_insert now life db = Inr db' \<Longrightarrow> emotion_governed db'"
| turn: "emotion_governed db \<Longrightarrow>
    emotion_governed (snd (emotion_turn io epoch now life event_id source stimulus db))"

lemma emotion_observation_Inr:
  assumes "emotion_load_runtime_observation io epoch now life db = Inr ob"
  shows "emotion_select_state life db = Some (eo_state ob)
    \<and> eo_observed_at ob = now
    \<and> (\<exists>a b. epoch now = Some a \<and> epoch (es_last_applied_at (eo_state ob)) = Some b
          \<and> eo_elapsed_seconds ob = nat (max (saturating_sub_i64 a b) 0))"
  using assms
  by (auto simp: emotion_load_runtime_observation_def emotion_read_state_by_life_def
      emotion_runtime_observation_in_connection_def try_bind_Inr_iff u64_try_from_def
      split: if_splits)

lemma emotion_turn_cases:
  assumes "emotion_ledger_inv db"
  obtains (same) "snd (emotion_turn io epoch now life event_id source stimulus db) = db"
  | (changed) t s where "emotion_select_state (et_life_id t) db = Some s"
      "es_revision s = et_expected_revision t"
      "et_next_valence t = es_valence s + et_valence_delta t"
      "et_next_activation t = es_activation s + et_activation_delta t"
      "snd (emotion_turn io epoch now life event_id source stimulus db) =
         emotion_committed_db now t db"
      "emotion_ledger_inv (emotion_committed_db now t db)"
proof (cases "try_bind (emotion_load_runtime_observation io epoch now life db) (\<lambda>ob.
             emotion_evolve (eo_state ob)
               \<lparr>epr_event_id = event_id, epr_source = source, epr_stimulus = stimulus,
                epr_elapsed_seconds = eo_elapsed_seconds ob, epr_event_time = eo_observed_at ob\<rparr>)")
  case (Inl e)
  then show ?thesis by (intro same) (simp add: emotion_turn_def)
next
  case (Inr t)
  then obtain ob where ob: "emotion_load_runtime_observation io epoch now life db = Inr ob"
    and ev: "emotion_evolve (eo_state ob)
               \<lparr>epr_event_id = event_id, epr_source = source, epr_stimulus = stimulus,
                epr_elapsed_seconds = eo_elapsed_seconds ob, epr_event_time = eo_observed_at ob\<rparr>
             = Inr t"
    by (auto simp: try_bind_Inr_iff)
  have turn: "emotion_turn io epoch now life event_id source stimulus db =
      emotion_step db (io, now, t)"
    using Inr by (simp add: emotion_turn_def emotion_step_def)
  show ?thesis
  proof (cases "emotion_store.is_fresh (fst (emotion_step db (io, now, t)))")
    case False
    then show ?thesis by (intro same) (simp add: turn emotion_store.step_frame)
  next
    case True
    then obtain out where out: "emotion_step db (io, now, t)
        = (Inr out, snd (emotion_step db (io, now, t)))" "emotion_fresh out"
      by (cases "emotion_step db (io, now, t)"; cases "fst (emotion_step db (io, now, t))")
        (auto simp: emotion_store.is_fresh_def)
    have fr: "snd (emotion_step db (io, now, t)) = emotion_committed_db now t db"
      "emotion_ledger_inv (emotion_committed_db now t db)"
      using emotion_step_fresh [OF assms out] by auto
    have evt: "t = emotion_evolved (eo_state ob)
               \<lparr>epr_event_id = event_id, epr_source = source, epr_stimulus = stimulus,
                epr_elapsed_seconds = eo_elapsed_seconds ob, epr_event_time = eo_observed_at ob\<rparr>"
      using ev by (auto simp: emotion_evolve_spec_lemma split: if_splits)
    have life: "es_life_id (eo_state ob) = life"
      using emotion_observation_Inr [OF ob]
      by (auto simp: emotion_select_state_iff [OF emotion_inv_distinct [OF assms]])
    show ?thesis
      by (rule changed [of t "eo_state ob"])
        (use emotion_observation_Inr [OF ob] evt life fr in
          \<open>simp_all add: turn emotion_evolved_def Let_def\<close>)
  qed
qed

definition emotion_sums :: "'a emotion_db_scheme \<Rightarrow> bool" where
  "emotion_sums db \<longleftrightarrow> (\<forall>life s. emotion_select_state life db = Some s \<longrightarrow>
     sum_list (map ev_valence_delta (emotion_history life db)) = es_valence s
     \<and> sum_list (map ev_activation_delta (emotion_history life db)) = es_activation s)"

lemma emotion_governed_inv: "emotion_governed db \<Longrightarrow> emotion_ledger_inv db \<and> emotion_sums db"
proof (induction rule: emotion_governed.induct)
  case empty
  show ?case by (simp add: emotion_ledger_inv_def emotion_sums_def emotion_select_state_def)
next
  case (life db now life db')
  then have inv: "emotion_ledger_inv db" and sums: "emotion_sums db" by simp_all
  from inv life.hyps(2) have inv': "emotion_ledger_inv db'" by (rule emotion_life_insert_inv)
  from life.hyps(2) have new: "life \<notin> set (life_identity db)"
    and db': "db' = db\<lparr>life_identity := life_identity db @ [life],
                emotion_state_rows := emotion_state_rows db @ [emotion_initial_state life now]\<rparr>"
    by (auto simp: emotion_life_insert_def split: if_splits)
  have hist: "emotion_history l db' = emotion_history l db" for l
    by (simp add: db' emotion_history_def)
  have "emotion_history life db = []"
    using inv new by (auto simp: emotion_history_def emotion_ledger_inv_def filter_empty_conv)
  then have "emotion_sums db'"
    using sums unfolding emotion_sums_def hist
    by (auto simp: db' emotion_select_state_def find_append emotion_initial_state_def
        split: option.splits if_splits)
  with inv' show ?case by simp
next
  case (turn db io epoch now life event_id source stimulus)
  then have inv: "emotion_ledger_inv db" and sums: "emotion_sums db" by simp_all
  show ?case
  proof (rule emotion_turn_cases [OF inv, of io epoch now life event_id source stimulus])
    assume "snd (emotion_turn io epoch now life event_id source stimulus db) = db"
    with inv sums show ?thesis by simp
  next
    fix t s
    assume sel: "emotion_select_state (et_life_id t) db = Some s"
        "es_revision s = et_expected_revision t"
      and delta: "et_next_valence t = es_valence s + et_valence_delta t"
        "et_next_activation t = es_activation s + et_activation_delta t"
      and res: "snd (emotion_turn io epoch now life event_id source stimulus db) =
         emotion_committed_db now t db" "emotion_ledger_inv (emotion_committed_db now t db)"
    have "emotion_sums (emotion_committed_db now t db)"
      using sums sel delta
      by (auto simp: emotion_sums_def emotion_history_committed
          emotion_select_committed [OF emotion_inv_distinct [OF inv] sel])
    with res show ?thesis by simp
  qed
qed

text \<open>
  When every mutation is a governed turn (observe, evolve, commit), the ledger also adds up:
  the authoritative valence and activation of a life are the sums of the deltas its events record.
\<close>

theorem emotion_governed_sum:
  assumes "emotion_governed db" and "emotion_select_state life db = Some s"
  shows "sum_list (map ev_valence_delta (emotion_history life db)) = es_valence s
    \<and> sum_list (map ev_activation_delta (emotion_history life db)) = es_activation s
    \<and> emotion_affect_ok (es_valence s) \<and> emotion_affect_ok (es_activation s)"
proof -
  from emotion_governed_inv [OF assms(1)] have inv: "emotion_ledger_inv db" "emotion_sums db"
    by simp_all
  from assms(2) have "s \<in> set (emotion_state_rows db)"
    by (simp add: emotion_select_state_iff [OF emotion_inv_distinct [OF inv(1)]])
  with inv(1) have "emotion_state_row_check s" by (simp add: emotion_ledger_inv_def)
  with inv(2) assms(2) show ?thesis
    by (simp add: emotion_sums_def emotion_state_row_check_def emotion_affect_ok_def)
qed

definition emotion_sample_turn_transition :: emotion_transition where
  "emotion_sample_turn_transition =
     \<lparr>et_event_id = ''event-1'', et_life_id = ''life-a'',
      et_source = \<lparr>esrc_kind = ''conversation'', esrc_reference = ''turn-1''\<rparr>,
      et_valence_delta = 600, et_activation_delta = 0, et_expected_revision = 0,
      et_next_valence = 600, et_next_activation = 0, et_policy_version = 1,
      et_event_time = ''t1''\<rparr>"

lemma emotion_sample_turn:
  "emotion_turn (\<lambda>_. True) (\<lambda>_. Some 0) ''t1'' ''life-a'' ''event-1''
      \<lparr>esrc_kind = ''conversation'', esrc_reference = ''turn-1''\<rparr>
      \<lparr>valence_signal = 1000, activation_signal = 0\<rparr> emotion_sample_db0 =
   emotion_commit_transition (\<lambda>_. True) ''t1'' emotion_sample_turn_transition emotion_sample_db0"
proof -
  have sel: "emotion_select_state ''life-a'' emotion_sample_db0 =
      Some (emotion_initial_state ''life-a'' ''t0'')"
    by (simp add: emotion_select_state_def emotion_sample_db0_def emotion_initial_state_def)
  have ob: "emotion_load_runtime_observation (\<lambda>_. True) (\<lambda>_. Some 0) ''t1'' ''life-a'' emotion_sample_db0
      = Inr \<lparr>eo_state = emotion_initial_state ''life-a'' ''t0'', eo_observed_at = ''t1'',
             eo_elapsed_seconds = 0\<rparr>"
    by (simp add: emotion_load_runtime_observation_def emotion_read_state_by_life_def sel
        emotion_runtime_observation_in_connection_def u64_try_from_def saturating_sub_i64_def
        i64_bounds)
  have d: "affect_delta 8 0 3 5 0 1000 = 600" "affect_delta 24 0 7 10 0 0 = 0"
    by (simp_all add: affect_delta_def affect_desired_def affect_decayed_def)
  show ?thesis
    by (simp add: emotion_turn_def ob emotion_evolve_spec_lemma emotion_state_ok_def
        emotion_initial_state_def emotion_request_ok_def emotion_stimulus_ok_def
        emotion_affect_ok_def i64_bounds emotion_evolved_def Let_def d
        emotion_sample_turn_transition_def)
qed

theorem emotion_governed_sum_witness:
  "\<exists>db s. emotion_governed db \<and> emotion_select_state ''life-a'' db = Some s
     \<and> es_valence s = 600 \<and> es_revision s = 1
     \<and> sum_list (map ev_valence_delta (emotion_history ''life-a'' db)) = es_valence s"
proof -
  let ?t = emotion_sample_turn_transition
  let ?db = "emotion_committed_db ''t1'' ?t emotion_sample_db0"
  have g0: "emotion_governed emotion_sample_db0"
    by (rule emotion_governed.life [OF emotion_governed.empty, of "''t0''" "''life-a''"])
      (simp add: emotion_sample_db0_def emotion_life_insert_def emotion_initial_state_def
        emotion_state_row_check_def)
  have sel: "emotion_select_state ''life-a'' emotion_sample_db0 =
      Some (emotion_initial_state ''life-a'' ''t0'')"
    by (simp add: emotion_select_state_def emotion_sample_db0_def emotion_initial_state_def)
  have t: "et_life_id ?t = ''life-a''" "et_expected_revision ?t = 0"
    by (simp_all add: emotion_sample_turn_transition_def)
  have valid: "emotion_transition_validate ?t = Inr ()"
    by (simp add: emotion_transition_validate_ok emotion_sample_turn_transition_def
        emotion_affect_ok_def)
  have "emotion_revision_of emotion_sample_db0 ''life-a'' = Some 0"
    by (simp add: emotion_revision_of_def sel) (simp add: emotion_initial_state_def)
  moreover have "emotion_event_rows emotion_sample_db0 = []"
    by (simp add: emotion_sample_db0_def)
  ultimately have "snd (emotion_commit_transition (\<lambda>_. True) ''t1'' ?t emotion_sample_db0) = ?db"
    using emotion_commit_succeeds [of emotion_sample_db0 "\<lambda>_. True" "''t1''" ?t]
      emotion_reachable_inv [OF emotion_sample_db0_reachable] valid
    by (simp add: t sel i64_bounds)
  with emotion_sample_turn have r: "emotion_governed ?db"
    by (metis emotion_governed.turn [OF g0])
  have s: "emotion_select_state ''life-a'' ?db
      = Some (emotion_state_after ''t1'' 1 ?t (emotion_initial_state ''life-a'' ''t0''))"
    by (simp add: emotion_select_state_def emotion_committed_db_def Let_def emotion_sample_db0_def
        emotion_sample_turn_transition_def emotion_initial_state_def)
  from emotion_governed_sum [OF r s] r s show ?thesis
    by (intro exI [of _ ?db]) (simp add: emotion_sample_turn_transition_def)
qed

end
