(* ===== verification/Relationship_Store.thy ===== *)
theory Relationship_Store
  imports Relationship_Policy Emotion_Store
begin

text \<open>
  The SQLite relationship repository, \<open>src-tauri/src/storage/relationship.rs\<close>, over the tables of
  \<open>migrations/020_relationship_authority.*.sql\<close>. The database extends the one of the emotion
  repository, as both migrations act on the same file; \<open>io\<close> and \<open>now\<close> are as there.
\<close>

section \<open>Tables\<close>

record relationship_db = emotion_db +
  relationship_state_rows :: "relationship_state list"
  relationship_event_rows :: "relationship_event list"

datatype relationship_stmt =
    RelLock | RelBegin | RelNow | RelSelectState | RelSelectLife | RelSelectEventById
  | RelSelectEventBySource | RelInsertEvent | RelUpdateState | RelReloadState | RelCommit

type_synonym relationship_io = "relationship_stmt \<Rightarrow> bool"

type_synonym relationship_key = "string \<times> string"

definition rs_key :: "relationship_state \<Rightarrow> relationship_key" where
  "rs_key s = (rs_life_id s, rs_subject_id s)"

definition rv_key :: "relationship_event \<Rightarrow> relationship_key" where
  "rv_key e = (rv_life_id e, rv_subject_id e)"

definition rt_key :: "relationship_transition \<Rightarrow> relationship_key" where
  "rt_key t = (rt_life_id t, rt_subject_id t)"

lemmas relationship_key_defs = rs_key_def rv_key_def rt_key_def

text \<open>The \<open>CHECK\<close> constraints of the two tables.\<close>

definition relationship_event_row_check :: "relationship_event \<Rightarrow> bool" where
  "relationship_event_row_check e \<longleftrightarrow>
     rv_source_kind e \<noteq> [] \<and> rv_source_ref e \<noteq> [] \<and> rv_change_reason e \<noteq> [] \<and>
     (\<forall>x \<in> set (map snd (iter_named_values (rv_deltas e))). - 1000 \<le> x \<and> x \<le> 1000) \<and>
     dimensions_ok (rv_result e) \<and>
     0 < rv_applied_revision e \<and> rv_event_time e \<noteq> [] \<and> 0 < rv_policy_version e \<and>
     rv_created_at e \<noteq> []"

definition relationship_state_row_check :: "relationship_state \<Rightarrow> bool" where
  "relationship_state_row_check s \<longleftrightarrow>
     rs_subject_id s \<noteq> [] \<and> dimensions_ok (rs_values s) \<and>
     0 \<le> rs_revision s \<and> 0 < rs_policy_version s \<and>
     rs_last_applied_at s \<noteq> [] \<and> rs_updated_at s \<noteq> []"

definition relationship_event_source_key ::
    "relationship_event \<Rightarrow> relationship_key \<times> string \<times> string" where
  "relationship_event_source_key e = (rv_key e, rv_source_kind e, rv_source_ref e)"

definition relationship_event_revision_key :: "relationship_event \<Rightarrow> relationship_key \<times> int" where
  "relationship_event_revision_key e = (rv_key e, rv_applied_revision e)"

definition relationship_event_insert ::
    "relationship_event \<Rightarrow> 'a relationship_db_scheme
     \<Rightarrow> sql_constraint + 'a relationship_db_scheme" where
  "relationship_event_insert e db =
     (if \<not> relationship_event_row_check e then Inl SqlCheckFailed
      else if \<exists>r \<in> set (relationship_event_rows db).
                rv_event_id r = rv_event_id e
                \<or> relationship_event_source_key r = relationship_event_source_key e
                \<or> relationship_event_revision_key r = relationship_event_revision_key e
           then Inl SqlUniqueFailed
      else if rv_key e \<notin> set (map rs_key (relationship_state_rows db)) then Inl SqlForeignKeyFailed
      else Inr (db\<lparr>relationship_event_rows := relationship_event_rows db @ [e]\<rparr>))"

text \<open>
  \<open>INSERT INTO life_identity\<close> now also fires the trigger that gives the new life its neutral
  relationship with the primary user.
\<close>

definition relationship_initial_state :: "string \<Rightarrow> string \<Rightarrow> relationship_state" where
  "relationship_initial_state life now =
     \<lparr>rs_life_id = life, rs_subject_id = ''primary_user'', rs_values = relationship_neutral,
      rs_revision = 0, rs_policy_version = 1, rs_last_applied_at = now, rs_updated_at = now\<rparr>"

definition relationship_life_insert ::
    "string \<Rightarrow> string \<Rightarrow> 'a relationship_db_scheme
     \<Rightarrow> sql_constraint + 'a relationship_db_scheme" where
  "relationship_life_insert now life db =
     try_bind (emotion_life_insert now life db) (\<lambda>db1.
       let s = relationship_initial_state life now in
       if rs_key s \<in> set (map rs_key (relationship_state_rows db1)) then Inl SqlUniqueFailed
       else if \<not> relationship_state_row_check s then Inl SqlCheckFailed
       else Inr (db1\<lparr>relationship_state_rows := relationship_state_rows db1 @ [s]\<rparr>))"

section \<open>Operations\<close>

definition relationship_select_state ::
    "relationship_key \<Rightarrow> 'a relationship_db_scheme \<Rightarrow> relationship_state option" where
  "relationship_select_state k db = find (\<lambda>s. rs_key s = k) (relationship_state_rows db)"

definition relationship_select_event_by_id ::
    "string \<Rightarrow> 'a relationship_db_scheme \<Rightarrow> relationship_event option" where
  "relationship_select_event_by_id i db =
     find (\<lambda>e. rv_event_id e = i) (relationship_event_rows db)"

definition relationship_select_event_by_source ::
    "relationship_key \<times> string \<times> string \<Rightarrow> 'a relationship_db_scheme
     \<Rightarrow> relationship_event option" where
  "relationship_select_event_by_source k db =
     find (\<lambda>e. relationship_event_source_key e = k) (relationship_event_rows db)"

definition relationship_event_evidence_matches ::
    "relationship_event \<Rightarrow> relationship_transition \<Rightarrow> int \<Rightarrow> bool" where
  "relationship_event_evidence_matches e t target_revision \<longleftrightarrow>
     rv_life_id e = rt_life_id t
     \<and> rv_subject_id e = rt_subject_id t
     \<and> rv_source_kind e = rsrc_kind (rt_source t)
     \<and> rv_source_ref e = rsrc_reference (rt_source t)
     \<and> rv_change_reason e = rt_change_reason t
     \<and> rv_deltas e = rt_deltas t
     \<and> rv_result e = rt_next t
     \<and> rv_applied_revision e = target_revision
     \<and> rv_event_time e = rt_event_time t
     \<and> rv_policy_version e = rt_policy_version t"

fun relationship_map_insert_error :: "sql_constraint \<Rightarrow> relationship_error" where
  "relationship_map_insert_error SqlUniqueFailed = relationship_revision_conflict"
| "relationship_map_insert_error SqlForeignKeyFailed = relationship_state_not_found"
| "relationship_map_insert_error SqlCheckFailed = relationship_database"

definition relationship_event_of ::
    "string \<Rightarrow> int \<Rightarrow> relationship_transition \<Rightarrow> relationship_event" where
  "relationship_event_of now applied_revision t =
     \<lparr>rv_event_id = rt_event_id t, rv_life_id = rt_life_id t, rv_subject_id = rt_subject_id t,
      rv_source_kind = rsrc_kind (rt_source t), rv_source_ref = rsrc_reference (rt_source t),
      rv_change_reason = rt_change_reason t, rv_deltas = rt_deltas t, rv_result = rt_next t,
      rv_applied_revision = applied_revision, rv_event_time = rt_event_time t,
      rv_policy_version = rt_policy_version t, rv_created_at = now\<rparr>"

definition relationship_state_after ::
    "string \<Rightarrow> int \<Rightarrow> relationship_transition \<Rightarrow> relationship_state \<Rightarrow> relationship_state" where
  "relationship_state_after now applied_revision t s =
     s\<lparr>rs_values := rt_next t, rs_revision := applied_revision,
       rs_policy_version := rt_policy_version t, rs_last_applied_at := rt_event_time t,
       rs_updated_at := now\<rparr>"

text \<open>
  The \<open>UPDATE \<dots> WHERE life_id = ?13 AND subject_id = ?14 AND revision = ?15\<close>: \<open>None\<close> when a
  \<open>CHECK\<close> refuses it, else the number of changed rows and the tables.
\<close>

definition relationship_state_update ::
    "string \<Rightarrow> int \<Rightarrow> relationship_transition \<Rightarrow> 'a relationship_db_scheme
     \<Rightarrow> (nat \<times> 'a relationship_db_scheme) option" where
  "relationship_state_update now applied_revision t db =
     (let target = (\<lambda>s. rs_key s = rt_key t \<and> rs_revision s = rt_expected_revision t);
          (changed, rows) = sql_update target (relationship_state_after now applied_revision t)
                              (relationship_state_rows db)
      in if \<forall>s \<in> set (relationship_state_rows db). target s \<longrightarrow>
              relationship_state_row_check (relationship_state_after now applied_revision t s)
         then Some (changed, db\<lparr>relationship_state_rows := rows\<rparr>)
         else None)"

text \<open>The writes of a fresh transition: ledger row, compare-and-set of the state, reload.\<close>

definition relationship_apply_transition ::
    "relationship_io \<Rightarrow> string \<Rightarrow> int \<Rightarrow> relationship_transition \<Rightarrow> 'a relationship_db_scheme
     \<Rightarrow> relationship_error + relationship_commit_outcome \<times> 'a relationship_db_scheme" where
  "relationship_apply_transition io now applied_revision t db =
     (let event = relationship_event_of now applied_revision t in
      if \<not> io RelInsertEvent then Inl relationship_database
      else case relationship_event_insert event db of
             Inl c \<Rightarrow> Inl (relationship_map_insert_error c)
           | Inr db1 \<Rightarrow>
               (if \<not> io RelUpdateState then Inl relationship_database
                else case relationship_state_update now applied_revision t db1 of
                       None \<Rightarrow> Inl relationship_database
                     | Some (changed, db2) \<Rightarrow>
                         (if changed \<noteq> 1 then Inl relationship_revision_conflict
                          else if \<not> io RelReloadState then Inl relationship_database
                          else case relationship_select_state (rt_key t) db2 of
                                 None \<Rightarrow> Inl relationship_database
                               | Some s \<Rightarrow> Inr (RelationshipCommitted event s, db2))))"

definition relationship_replay_or_conflict ::
    "relationship_event \<Rightarrow> relationship_transition \<Rightarrow> int \<Rightarrow> relationship_state \<Rightarrow> 'db
     \<Rightarrow> relationship_error + relationship_commit_outcome \<times> 'db" where
  "relationship_replay_or_conflict existing t applied_revision current db =
     (if relationship_event_evidence_matches existing t applied_revision
      then Inr (RelationshipReplayed existing current, db)
      else Inl relationship_event_conflict)"

definition relationship_commit_in_transaction ::
    "relationship_io \<Rightarrow> string \<Rightarrow> relationship_transition \<Rightarrow> 'a relationship_db_scheme
     \<Rightarrow> relationship_error + relationship_commit_outcome \<times> 'a relationship_db_scheme" where
  "relationship_commit_in_transaction io now t db =
     (case relationship_transition_validate t of
        Inl _ \<Rightarrow> Inl relationship_invalid_argument
      | Inr _ \<Rightarrow>
     try_bind (relationship_target_revision t) (\<lambda>applied_revision.
     if \<not> io RelNow then Inl relationship_database
     else if \<not> io RelSelectState then Inl relationship_database
     else case relationship_select_state (rt_key t) db of
       None \<Rightarrow>
         (if \<not> io RelSelectLife then Inl relationship_database
          else Inl (if rt_life_id t \<in> set (life_identity db) then relationship_state_not_found
                    else relationship_life_not_found))
     | Some current \<Rightarrow>
       (if \<not> io RelSelectEventById then Inl relationship_database
        else case relationship_select_event_by_id (rt_event_id t) db of
          Some existing \<Rightarrow> relationship_replay_or_conflict existing t applied_revision current db
        | None \<Rightarrow>
          (if \<not> io RelSelectEventBySource then Inl relationship_database
           else case relationship_select_event_by_source
                       (rt_key t, rsrc_kind (rt_source t), rsrc_reference (rt_source t)) db of
             Some existing \<Rightarrow> relationship_replay_or_conflict existing t applied_revision current db
           | None \<Rightarrow>
             (if rs_revision current \<noteq> rt_expected_revision t then Inl relationship_revision_conflict
              else relationship_apply_transition io now applied_revision t db)))))"

definition relationship_commit_transition ::
    "relationship_io \<Rightarrow> string \<Rightarrow> relationship_transition \<Rightarrow> 'a relationship_db_scheme
     \<Rightarrow> (relationship_error + relationship_commit_outcome) \<times> 'a relationship_db_scheme" where
  "relationship_commit_transition io now t db =
     with_transaction (io RelLock \<and> io RelBegin) (io RelCommit) relationship_database
       (relationship_commit_in_transaction io now t) db"

definition relationship_load_current_state ::
    "relationship_io \<Rightarrow> string \<Rightarrow> string \<Rightarrow> 'a relationship_db_scheme
     \<Rightarrow> relationship_error + relationship_state option" where
  "relationship_load_current_state io life subject db =
     (if io RelLock \<and> io RelSelectState then Inr (relationship_select_state (life, subject) db)
      else Inl relationship_database)"

definition relationship_find_event ::
    "relationship_io \<Rightarrow> string \<Rightarrow> string \<Rightarrow> string \<Rightarrow> string \<Rightarrow> 'a relationship_db_scheme
     \<Rightarrow> relationship_error + relationship_event option" where
  "relationship_find_event io life subject kind ref db =
     (if io RelLock \<and> io RelSelectEventBySource
      then Inr (relationship_select_event_by_source ((life, subject), kind, ref) db)
      else Inl relationship_database)"

section \<open>Outcomes of a commit\<close>

lemmas relationship_select_defs =
  relationship_select_state_def relationship_select_event_by_id_def relationship_select_event_by_source_def

lemma relationship_event_insert_Inr:
  "relationship_event_insert e db = Inr db' \<longleftrightarrow>
     relationship_event_row_check e
     \<and> (\<forall>r \<in> set (relationship_event_rows db). rv_event_id r \<noteq> rv_event_id e
          \<and> relationship_event_source_key r \<noteq> relationship_event_source_key e
          \<and> relationship_event_revision_key r \<noteq> relationship_event_revision_key e)
     \<and> rv_key e \<in> rs_key ` set (relationship_state_rows db)
     \<and> db' = db\<lparr>relationship_event_rows := relationship_event_rows db @ [e]\<rparr>"
  by (auto simp: relationship_event_insert_def)

lemma relationship_state_update_Some:
  "relationship_state_update now n t db = Some (changed, db') \<longleftrightarrow>
     (\<forall>s \<in> set (relationship_state_rows db).
        rs_key s = rt_key t \<and> rs_revision s = rt_expected_revision t \<longrightarrow>
        relationship_state_row_check (relationship_state_after now n t s))
     \<and> changed = length (filter (\<lambda>s. rs_key s = rt_key t
                                   \<and> rs_revision s = rt_expected_revision t) (relationship_state_rows db))
     \<and> db' = db\<lparr>relationship_state_rows :=
         map (\<lambda>s. if rs_key s = rt_key t \<and> rs_revision s = rt_expected_revision t
                  then relationship_state_after now n t s else s) (relationship_state_rows db)\<rparr>"
  by (auto simp: relationship_state_update_def sql_update_def Let_def)

definition relationship_committed_db ::
    "string \<Rightarrow> relationship_transition \<Rightarrow> 'a relationship_db_scheme \<Rightarrow> 'a relationship_db_scheme" where
  "relationship_committed_db now t db =
     (let n = rt_expected_revision t + 1 in
      db\<lparr>relationship_event_rows := relationship_event_rows db @ [relationship_event_of now n t],
         relationship_state_rows :=
           map (\<lambda>s. if rs_key s = rt_key t \<and> rs_revision s = rt_expected_revision t
                    then relationship_state_after now n t s else s) (relationship_state_rows db)\<rparr>)"

lemma relationship_state_after_simps [simp]:
  "rs_key (relationship_state_after now n t s) = rs_key s"
  "rs_revision (relationship_state_after now n t s) = n"
  "rs_life_id (relationship_state_after now n t s) = rs_life_id s"
  "rs_subject_id (relationship_state_after now n t s) = rs_subject_id s"
  "rs_values (relationship_state_after now n t s) = rt_next t"
  "rs_policy_version (relationship_state_after now n t s) = rt_policy_version t"
  "rs_last_applied_at (relationship_state_after now n t s) = rt_event_time t"
  "rs_updated_at (relationship_state_after now n t s) = now"
  by (simp_all add: relationship_state_after_def rs_key_def)

lemma relationship_event_of_simps [simp]:
  "rv_event_id (relationship_event_of now n t) = rt_event_id t"
  "rv_key (relationship_event_of now n t) = rt_key t"
  "rv_applied_revision (relationship_event_of now n t) = n"
  "rv_result (relationship_event_of now n t) = rt_next t"
  "rv_deltas (relationship_event_of now n t) = rt_deltas t"
  "relationship_event_source_key (relationship_event_of now n t) =
     (rt_key t, rsrc_kind (rt_source t), rsrc_reference (rt_source t))"
  "relationship_event_evidence_matches (relationship_event_of now n t) t m \<longleftrightarrow> n = m"
  by (auto simp: relationship_event_of_def relationship_event_source_key_def
      relationship_event_evidence_matches_def relationship_key_defs)

lemma relationship_apply_transition_Inr:
  assumes "relationship_apply_transition io now n t db = Inr (out, db')"
    and "n = rt_expected_revision t + 1"
  shows "\<exists>s. out = RelationshipCommitted (relationship_event_of now n t) s
    \<and> db' = relationship_committed_db now t db
    \<and> relationship_select_state (rt_key t) db' = Some s
    \<and> relationship_event_insert (relationship_event_of now n t) db
        = Inr (db\<lparr>relationship_event_rows := relationship_event_rows db @ [relationship_event_of now n t]\<rparr>)"
  using assms
  by (auto simp: relationship_apply_transition_def Let_def relationship_event_insert_Inr
      relationship_state_update_Some relationship_committed_db_def
      split: if_splits sum.splits option.splits prod.splits)

text \<open>The two ways a commit can succeed.\<close>

lemma relationship_commit_cases:
  assumes "relationship_commit_in_transaction io now t db = Inr (out, db')"
  obtains
    (replayed) e s where
      "out = RelationshipReplayed e s" "db' = db" "e \<in> set (relationship_event_rows db)"
      "relationship_select_state (rt_key t) db = Some s"
      "relationship_event_evidence_matches e t (rt_expected_revision t + 1)"
  | (committed) s s' where
      "out = RelationshipCommitted (relationship_event_of now (rt_expected_revision t + 1) t) s'"
      "db' = relationship_committed_db now t db"
      "relationship_transition_validate t = Inr ()" "rt_expected_revision t < i64_max"
      "relationship_select_state (rt_key t) db = Some s" "rs_revision s = rt_expected_revision t"
      "relationship_select_state (rt_key t) db' = Some s'"
      "relationship_event_insert (relationship_event_of now (rt_expected_revision t + 1) t) db
        = Inr (db\<lparr>relationship_event_rows := relationship_event_rows db
                   @ [relationship_event_of now (rt_expected_revision t + 1) t]\<rparr>)"
proof -
  from assms have v: "relationship_transition_validate t = Inr ()"
    by (auto simp: relationship_commit_in_transaction_def split: sum.splits)
  then have nonneg: "0 \<le> rt_expected_revision t"
    by (simp add: relationship_transition_validate_ok relationship_transition_ok_def)
  from assms v obtain n where n: "relationship_target_revision t = Inr n"
    by (auto simp: relationship_commit_in_transaction_def try_bind_Inr_iff)
  with nonneg have n': "n = rt_expected_revision t + 1" "rt_expected_revision t < i64_max"
    by (simp_all add: relationship_target_revision_ok)
  from assms v n obtain s where s: "relationship_select_state (rt_key t) db = Some s"
    by (auto simp: relationship_commit_in_transaction_def split: if_splits option.splits)
  let ?k = "(rt_key t, rsrc_kind (rt_source t), rsrc_reference (rt_source t))"
  consider (by_id) e where "relationship_select_event_by_id (rt_event_id t) db = Some e"
      "relationship_replay_or_conflict e t n s db = Inr (out, db')"
    | (by_source) e where "relationship_select_event_by_source ?k db = Some e"
      "relationship_replay_or_conflict e t n s db = Inr (out, db')"
    | (store) "rs_revision s = rt_expected_revision t"
      "relationship_apply_transition io now n t db = Inr (out, db')"
    using assms v n s
    by (auto simp: relationship_commit_in_transaction_def split: if_splits option.splits)
  then show ?thesis
  proof cases
    case by_id
    then have "e \<in> set (relationship_event_rows db)"
      by (auto simp: relationship_select_defs dest: find_Some_mem)
    with by_id n'(1) s show ?thesis
      by (intro replayed [of e s]) (auto simp: relationship_replay_or_conflict_def split: if_splits)
  next
    case by_source
    then have "e \<in> set (relationship_event_rows db)"
      by (auto simp: relationship_select_defs dest: find_Some_mem)
    with by_source n'(1) s show ?thesis
      by (intro replayed [of e s]) (auto simp: relationship_replay_or_conflict_def split: if_splits)
  next
    case store
    from relationship_apply_transition_Inr [OF store(2) n'(1)] store(1) v n' s show ?thesis
      by (auto intro: committed)
  qed
qed

section \<open>The ledger invariant\<close>

text \<open>
  The abstract view of one life: its events in the order they were committed. The authoritative
  row is the projection of that history, and the revisions of the history are \<open>1, 2, \<dots>\<close>.
\<close>

definition relationship_history ::
    "relationship_key \<Rightarrow> 'a relationship_db_scheme \<Rightarrow> relationship_event list" where
  "relationship_history k db = filter (\<lambda>e. rv_key e = k) (relationship_event_rows db)"

definition relationship_projects :: "relationship_event list \<Rightarrow> relationship_state \<Rightarrow> bool" where
  "relationship_projects es s \<longleftrightarrow>
     map rv_applied_revision es = [1..rs_revision s]
     \<and> rs_values s = (if es = [] then relationship_neutral else rv_result (last es))"

definition relationship_ledger_inv :: "'a relationship_db_scheme \<Rightarrow> bool" where
  "relationship_ledger_inv db \<longleftrightarrow>
     distinct (map rs_key (relationship_state_rows db))
     \<and> rs_key ` set (relationship_state_rows db)
         = (\<lambda>life. (life, ''primary_user'')) ` set (life_identity db)
     \<and> distinct (map rv_event_id (relationship_event_rows db))
     \<and> distinct (map relationship_event_source_key (relationship_event_rows db))
     \<and> (\<forall>e \<in> set (relationship_event_rows db).
          rv_key e \<in> rs_key ` set (relationship_state_rows db) \<and> relationship_event_row_check e)
     \<and> (\<forall>s \<in> set (relationship_state_rows db). relationship_state_row_check s
          \<and> relationship_projects (relationship_history (rs_key s) db) s)"

lemma relationship_select_state_iff:
  assumes "distinct (map rs_key (relationship_state_rows db))"
  shows "relationship_select_state k db = Some s \<longleftrightarrow>
    s \<in> set (relationship_state_rows db) \<and> rs_key s = k"
  using find_key_SomeI [OF assms, of s k]
  by (auto simp: relationship_select_state_def dest: find_Some_mem)

lemma relationship_select_committed:
  assumes "distinct (map rs_key (relationship_state_rows db))"
    and "relationship_select_state (rt_key t) db = Some s" "rs_revision s = rt_expected_revision t"
  shows "relationship_select_state life (relationship_committed_db now t db) =
    (if life = rt_key t then Some (relationship_state_after now (rt_expected_revision t + 1) t s)
     else relationship_select_state life db)"
proof -
  let ?f = "\<lambda>s. if rs_key s = rt_key t \<and> rs_revision s = rt_expected_revision t
              then relationship_state_after now (rt_expected_revision t + 1) t s else s"
  have key: "rs_key (?f s) = rs_key s" for s by simp
  have "relationship_select_state life (relationship_committed_db now t db) =
      map_option ?f (relationship_select_state life db)"
    unfolding relationship_select_defs relationship_committed_db_def Let_def
    by (simp add: find_map_key [of rs_key ?f, OF key])
  then show ?thesis
    using assms(2,3) by (cases "relationship_select_state life db")
      (auto simp: relationship_select_defs dest: find_Some_mem)
qed

lemma relationship_history_committed:
  "relationship_history life (relationship_committed_db now t db) =
     relationship_history life db @
       (if life = rt_key t then [relationship_event_of now (rt_expected_revision t + 1) t] else [])"
  by (simp add: relationship_history_def relationship_committed_db_def Let_def)

lemma relationship_committed_db_rows:
  "life_identity (relationship_committed_db now t db) = life_identity db"
  "relationship_event_rows (relationship_committed_db now t db) =
     relationship_event_rows db @ [relationship_event_of now (rt_expected_revision t + 1) t]"
  "map rs_key (relationship_state_rows (relationship_committed_db now t db)) =
     map rs_key (relationship_state_rows db)"
  by (simp_all add: relationship_committed_db_def Let_def)

text \<open>A fresh commit keeps the invariant.\<close>

lemma relationship_committed_inv:
  assumes inv: "relationship_ledger_inv db"
    and sel: "relationship_select_state (rt_key t) db = Some s"
      "rs_revision s = rt_expected_revision t"
    and ins: "relationship_event_insert (relationship_event_of now (rt_expected_revision t + 1) t) db
      = Inr (db\<lparr>relationship_event_rows := relationship_event_rows db
                  @ [relationship_event_of now (rt_expected_revision t + 1) t]\<rparr>)"
  shows "relationship_ledger_inv (relationship_committed_db now t db)"
proof -
  let ?db = "relationship_committed_db now t db"
  let ?e = "relationship_event_of now (rt_expected_revision t + 1) t"
  have dist: "distinct (map rs_key (relationship_state_rows db))"
    using inv by (simp add: relationship_ledger_inv_def)
  have s_in: "s \<in> set (relationship_state_rows db)" "rs_key s = rt_key t"
    using sel(1) by (simp_all add: relationship_select_state_iff [OF dist])
  with inv have s_ok: "relationship_state_row_check s"
      "relationship_projects (relationship_history (rt_key t) db) s"
    by (auto simp: relationship_ledger_inv_def)
  have e_ok: "relationship_event_row_check ?e"
    using ins by (simp add: relationship_event_insert_Inr)
  have states: "relationship_state_row_check s'
      \<and> relationship_projects (relationship_history (rs_key s') ?db) s'"
    if "s' \<in> set (relationship_state_rows ?db)" for s'
  proof -
    from that have sel': "relationship_select_state (rs_key s') ?db = Some s'"
      by (subst relationship_select_state_iff) (use dist in \<open>simp_all only: relationship_committed_db_rows\<close>)
    show ?thesis
    proof (cases "rs_key s' = rt_key t")
      case True
      with sel' relationship_select_committed [OF dist sel]
      have s': "s' = relationship_state_after now (rt_expected_revision t + 1) t s" by simp
      have "map rv_applied_revision (relationship_history (rt_key t) db) = [1..rt_expected_revision t]"
        using s_ok(2) sel(2) by (simp add: relationship_projects_def)
      moreover have "0 \<le> rt_expected_revision t"
        using s_ok(1) sel(2) by (simp add: relationship_state_row_check_def)
      then have "[1..rt_expected_revision t + 1]
          = [1..rt_expected_revision t] @ [rt_expected_revision t + 1]"
        by (simp add: upto_rec2)
      ultimately have "relationship_projects (relationship_history (rt_key t) ?db) s'"
        by (simp add: s' relationship_projects_def relationship_history_committed)
      moreover have "relationship_state_row_check s'"
        using e_ok s_ok(1) by (simp add: s' relationship_state_row_check_def relationship_event_row_check_def
            relationship_event_of_def)
      ultimately show ?thesis using True by simp
    next
      case False
      with sel' have "relationship_select_state (rs_key s') db = Some s'"
        by (simp add: relationship_select_committed [OF dist sel])
      then have "s' \<in> set (relationship_state_rows db)"
        by (simp add: relationship_select_state_iff [OF dist])
      with inv False show ?thesis
        by (simp add: relationship_ledger_inv_def relationship_history_committed)
    qed
  qed
  have "set (map rs_key (relationship_state_rows ?db)) = set (map rs_key (relationship_state_rows db))"
    unfolding relationship_committed_db_rows ..
  then have keys: "rs_key ` set (relationship_state_rows ?db) = rs_key ` set (relationship_state_rows db)"
    by simp
  have "rv_key ?e \<in> rs_key ` set (relationship_state_rows db)"
    using s_in by force
  moreover have "distinct (map rv_event_id (relationship_event_rows ?db))
      \<and> distinct (map relationship_event_source_key (relationship_event_rows ?db))"
    using inv ins unfolding relationship_committed_db_rows
    by (auto simp: relationship_ledger_inv_def relationship_event_insert_Inr)
  ultimately show ?thesis
    using states inv e_ok
    unfolding relationship_ledger_inv_def keys
    unfolding relationship_committed_db_rows by auto
qed

lemma relationship_inv_event_key:
  "relationship_ledger_inv db \<Longrightarrow> e \<in> set (relationship_event_rows db) \<Longrightarrow>
   rv_key e \<in> rs_key ` set (relationship_state_rows db)"
  unfolding relationship_ledger_inv_def by blast

lemma relationship_life_insert_Inr:
  assumes "relationship_life_insert now life db = Inr db'"
  shows "life \<notin> set (life_identity db) \<and> life_identity db' = life_identity db @ [life]
    \<and> relationship_state_row_check (relationship_initial_state life now)
    \<and> relationship_state_rows db' =
        relationship_state_rows db @ [relationship_initial_state life now]
    \<and> relationship_event_rows db' = relationship_event_rows db"
  using assms
  by (auto simp: relationship_life_insert_def try_bind_Inr_iff Let_def emotion_life_insert_def
      split: if_splits)

lemma relationship_initial_state_simps [simp]:
  "rs_key (relationship_initial_state life now) = (life, ''primary_user'')"
  "rs_values (relationship_initial_state life now) = relationship_neutral"
  "rs_revision (relationship_initial_state life now) = 0"
  by (simp_all add: relationship_initial_state_def rs_key_def)

lemma relationship_life_insert_inv:
  assumes inv: "relationship_ledger_inv db" and ins: "relationship_life_insert now life db = Inr db'"
  shows "relationship_ledger_inv db'"
proof -
  let ?s = "relationship_initial_state life now"
  note db' = relationship_life_insert_Inr [OF ins]
  have new: "(life, ''primary_user'') \<notin> rs_key ` set (relationship_state_rows db)"
    using inv db' by (auto simp: relationship_ledger_inv_def)
  have hist: "relationship_history k db' = relationship_history k db" for k
    using db' by (simp add: relationship_history_def)
  have "rv_key e \<noteq> (life, ''primary_user'')" if "e \<in> set (relationship_event_rows db)" for e
    using relationship_inv_event_key [OF inv that] new by metis
  then have "relationship_history (life, ''primary_user'') db = []"
    by (simp add: relationship_history_def filter_empty_conv)
  then have "relationship_projects (relationship_history (life, ''primary_user'') db') ?s"
    by (simp add: hist relationship_projects_def)
  then show ?thesis
    using inv new db' by (auto simp: relationship_ledger_inv_def hist)
qed

section \<open>The repository keeps the store contract\<close>

type_synonym relationship_commit_call = "relationship_io \<times> string \<times> relationship_transition"

definition relationship_step ::
    "'a relationship_db_scheme \<Rightarrow> relationship_commit_call
     \<Rightarrow> (relationship_error + relationship_commit_outcome) \<times> 'a relationship_db_scheme" where
  "relationship_step db c = (case c of (io, now, t) \<Rightarrow> relationship_commit_transition io now t db)"

definition relationship_call_key :: "relationship_commit_call \<Rightarrow> relationship_key" where
  "relationship_call_key c = rt_key (snd (snd c))"

definition relationship_call_expected :: "relationship_commit_call \<Rightarrow> int" where
  "relationship_call_expected c = rt_expected_revision (snd (snd c))"

definition relationship_call_healthy :: "relationship_commit_call \<Rightarrow> bool" where
  "relationship_call_healthy c \<longleftrightarrow> (\<forall>stmt. fst c stmt)"

definition relationship_same_request :: "relationship_commit_call \<Rightarrow> relationship_commit_call \<Rightarrow> bool" where
  "relationship_same_request c d \<longleftrightarrow> snd (snd c) = snd (snd d)"

definition relationship_revision_of :: "'a relationship_db_scheme \<Rightarrow> relationship_key \<Rightarrow> int option" where
  "relationship_revision_of db k = map_option rs_revision (relationship_select_state k db)"

fun relationship_fresh :: "relationship_commit_outcome \<Rightarrow> bool" where
  "relationship_fresh (RelationshipCommitted _ _) = True"
| "relationship_fresh (RelationshipReplayed _ _) = False"

definition relationship_recorded :: "'a relationship_db_scheme \<Rightarrow> relationship_commit_call \<Rightarrow> bool" where
  "relationship_recorded db c \<longleftrightarrow>
     (let t = snd (snd c) in
      relationship_transition_validate t = Inr () \<and> rt_expected_revision t < i64_max
      \<and> (\<exists>e \<in> set (relationship_event_rows db). rv_event_id e = rt_event_id t
            \<and> relationship_event_evidence_matches e t (rt_expected_revision t + 1)))"

lemmas relationship_call_defs =
  relationship_call_key_def relationship_call_expected_def relationship_call_healthy_def
  relationship_same_request_def

lemma relationship_step_Inr:
  "relationship_step db (io, now, t) = (Inr out, db') \<Longrightarrow>
   relationship_commit_in_transaction io now t db = Inr (out, db')"
  by (simp add: relationship_step_def relationship_commit_transition_def with_transaction_Inr)

lemma relationship_inv_distinct:
  "relationship_ledger_inv db \<Longrightarrow> distinct (map rs_key (relationship_state_rows db))"
  by (simp add: relationship_ledger_inv_def)

lemma relationship_step_fresh:
  assumes inv: "relationship_ledger_inv db" and st: "relationship_step db c = (Inr out, db')"
    and fr: "relationship_fresh out"
  shows "relationship_revision_of db (relationship_call_key c) = Some (relationship_call_expected c)
    \<and> relationship_revision_of db' =
        (relationship_revision_of db)(relationship_call_key c \<mapsto> relationship_call_expected c + 1)
    \<and> relationship_ledger_inv db' \<and> relationship_recorded db' c
    \<and> db' = relationship_committed_db (fst (snd c)) (snd (snd c)) db"
proof -
  obtain io now t where c: "c = (io, now, t)" by (cases c) auto
  from st have "relationship_commit_in_transaction io now t db = Inr (out, db')"
    unfolding c by (rule relationship_step_Inr)
  then show ?thesis
  proof (cases rule: relationship_commit_cases)
    case (replayed e s)
    with fr show ?thesis by simp
  next
    case (committed s s')
    note sel = relationship_select_committed [OF relationship_inv_distinct [OF inv] committed(5,6)]
    have "relationship_revision_of db' =
        (relationship_revision_of db)(rt_key t \<mapsto> rt_expected_revision t + 1)"
      unfolding committed(2) relationship_revision_of_def by (rule ext) (simp add: sel)
    moreover have "relationship_ledger_inv db'"
      unfolding committed(2) by (rule relationship_committed_inv [OF inv committed(5,6,8)])
    moreover have "relationship_recorded db' c"
      using committed by (simp add: relationship_recorded_def c relationship_committed_db_rows)
    ultimately show ?thesis
      using committed by (simp add: c relationship_call_defs relationship_revision_of_def)
  qed
qed

lemma relationship_step_replayed:
  assumes "relationship_step db c = (Inr out, db')" and "\<not> relationship_fresh out"
  shows "db' = db"
proof -
  obtain io now t where c: "c = (io, now, t)" by (cases c) auto
  from assms(1) have "relationship_commit_in_transaction io now t db = Inr (out, db')"
    unfolding c by (rule relationship_step_Inr)
  then show ?thesis using assms(2) by (cases rule: relationship_commit_cases) simp_all
qed

lemma relationship_evidence_key:
  "relationship_event_evidence_matches e t n \<Longrightarrow> rt_key t = rv_key e"
  by (simp add: relationship_event_evidence_matches_def relationship_key_defs)

lemma relationship_recorded_replays:
  assumes inv: "relationship_ledger_inv db" and rec: "relationship_recorded db c"
    and ok: "relationship_call_healthy c"
  shows "\<exists>out. relationship_step db c = (Inr out, db) \<and> \<not> relationship_fresh out"
proof -
  obtain io now t where c: "c = (io, now, t)" by (cases c) auto
  have io: "io stmt" for stmt using ok by (simp add: c relationship_call_defs)
  from rec obtain e where v: "relationship_transition_validate t = Inr ()"
      "rt_expected_revision t < i64_max"
    and e: "e \<in> set (relationship_event_rows db)" "rv_event_id e = rt_event_id t"
      "relationship_event_evidence_matches e t (rt_expected_revision t + 1)"
    by (auto simp: relationship_recorded_def c)
  from relationship_inv_event_key [OF inv e(1)] relationship_evidence_key [OF e(3)]
  have "rt_key t \<in> rs_key ` set (relationship_state_rows db)"
    by simp
  then obtain s where "s \<in> set (relationship_state_rows db)" "rs_key s = rt_key t"
    by (auto simp: image_iff)
  then have s: "relationship_select_state (rt_key t) db = Some s"
    by (simp add: relationship_select_state_iff [OF relationship_inv_distinct [OF inv]])
  have "relationship_select_event_by_id (rt_event_id t) db = Some e"
    unfolding relationship_select_defs using inv e
    by (intro find_key_SomeI) (simp_all add: relationship_ledger_inv_def)
  moreover have "relationship_target_revision t = Inr (rt_expected_revision t + 1)"
    using v by (simp add: relationship_target_revision_ok relationship_transition_validate_ok
        relationship_transition_ok_def)
  ultimately have "relationship_step db c = (Inr (RelationshipReplayed e s), db)"
    using v s e(3)
    by (simp add: c relationship_step_def relationship_commit_transition_def with_transaction_def
        relationship_commit_in_transaction_def io relationship_replay_or_conflict_def)
  then show ?thesis by auto
qed

lemma relationship_recorded_mono:
  "set (relationship_event_rows db) \<subseteq> set (relationship_event_rows db') \<Longrightarrow>
   relationship_recorded db c \<Longrightarrow> relationship_recorded db' c"
  by (auto simp: relationship_recorded_def Let_def)

interpretation relationship_store: evidence_store
  relationship_step relationship_revision_of relationship_call_key relationship_call_expected relationship_fresh
  relationship_ledger_inv relationship_recorded relationship_call_healthy relationship_same_request
proof (unfold_locales, goal_cases)
  case (1 db t e db')
  then show ?case
    by (auto simp: relationship_step_def relationship_commit_transition_def split: prod.splits
        dest: with_transaction_Inl)
next
  case (2 db t out db')
  then show ?case by (rule relationship_step_replayed)
next
  case (3 db t out db')
  then show ?case by (simp add: relationship_step_fresh)
next
  case (4 db t out db')
  then show ?case by (simp add: relationship_step_fresh)
next
  case (5 db t out db')
  then show ?case by (simp add: relationship_step_fresh)
next
  case (6 db t out db')
  then show ?case by (simp add: relationship_step_fresh)
next
  case (7 db t out db' u)
  then have "db' = relationship_committed_db (fst (snd t)) (snd (snd t)) db"
    by (simp add: relationship_step_fresh)
  then have "set (relationship_event_rows db) \<subseteq> set (relationship_event_rows db')"
    by (auto simp: relationship_committed_db_rows)
  with 7 show ?case using relationship_recorded_mono by blast
next
  case (8 db t u)
  then show ?case by (simp add: relationship_recorded_def relationship_same_request_def)
next
  case (9 db t)
  then show ?case by (rule relationship_recorded_replays)
qed

end
