(* ===== verification/Relationship_Ledger.thy ===== *)
theory Relationship_Ledger
  imports Relationship_Store
begin

text \<open>
  What the relationship repository promises over whole histories, together with the emotion
  repository that shares its database: both ledgers hold in every reachable database, a commit
  happens exactly once, no update is lost, and under governed turns familiarity counts them.
\<close>

section \<open>Reachable databases of both authorities\<close>

definition empty_relationship_db :: relationship_db where
  "empty_relationship_db =
     \<lparr>life_identity = [], emotion_state_rows = [], emotion_event_rows = [],
      relationship_state_rows = [], relationship_event_rows = []\<rparr>"

inductive storage_reachable :: "relationship_db \<Rightarrow> bool" where
  empty: "storage_reachable empty_relationship_db"
| life: "storage_reachable db \<Longrightarrow> relationship_life_insert now life db = Inr db' \<Longrightarrow>
    storage_reachable db'"
| emotion: "storage_reachable db \<Longrightarrow>
    storage_reachable (snd (emotion_commit_transition io now t db))"
| relationship: "storage_reachable db \<Longrightarrow>
    storage_reachable (snd (relationship_commit_transition rio now rt db))"

lemma emotion_commit_frame:
  assumes "emotion_ledger_inv db"
  shows "life_identity (snd (emotion_commit_transition io now t db)) = life_identity db
    \<and> relationship_state_rows (snd (emotion_commit_transition io now t db))
        = relationship_state_rows (db :: relationship_db)
    \<and> relationship_event_rows (snd (emotion_commit_transition io now t db))
        = relationship_event_rows db"
proof -
  have st: "emotion_commit_transition io now t db = emotion_step db (io, now, t)"
    by (simp add: emotion_step_def)
  show ?thesis
  proof (cases "emotion_store.is_fresh (fst (emotion_step db (io, now, t)))")
    case False
    then show ?thesis by (simp add: st emotion_store.step_frame)
  next
    case True
    then obtain out where "emotion_step db (io, now, t)
        = (Inr out, snd (emotion_step db (io, now, t)))" "emotion_fresh out"
      by (cases "emotion_step db (io, now, t)"; cases "fst (emotion_step db (io, now, t))")
        (auto simp: emotion_store.is_fresh_def)
    from emotion_step_fresh [OF assms this]
    have "snd (emotion_step db (io, now, t)) = emotion_committed_db now t db" by simp
    then show ?thesis by (simp add: st emotion_committed_db_def Let_def)
  qed
qed

lemma relationship_commit_frame:
  assumes "relationship_ledger_inv (db :: relationship_db)"
  shows "life_identity (snd (relationship_commit_transition io now t db)) = life_identity db
    \<and> emotion_state_rows (snd (relationship_commit_transition io now t db)) = emotion_state_rows db
    \<and> emotion_event_rows (snd (relationship_commit_transition io now t db)) = emotion_event_rows db"
proof -
  have st: "relationship_commit_transition io now t db = relationship_step db (io, now, t)"
    by (simp add: relationship_step_def)
  show ?thesis
  proof (cases "relationship_store.is_fresh (fst (relationship_step db (io, now, t)))")
    case False
    then show ?thesis by (simp add: st relationship_store.step_frame)
  next
    case True
    then obtain out where "relationship_step db (io, now, t)
        = (Inr out, snd (relationship_step db (io, now, t)))" "relationship_fresh out"
      by (cases "relationship_step db (io, now, t)";
          cases "fst (relationship_step db (io, now, t))")
        (auto simp: relationship_store.is_fresh_def)
    from relationship_step_fresh [OF assms this]
    have "snd (relationship_step db (io, now, t)) = relationship_committed_db now t db" by simp
    then show ?thesis by (simp add: st relationship_committed_db_def Let_def)
  qed
qed

lemma emotion_inv_cong:
  "life_identity db' = life_identity db \<Longrightarrow> emotion_state_rows db' = emotion_state_rows db \<Longrightarrow>
   emotion_event_rows db' = emotion_event_rows db \<Longrightarrow>
   emotion_ledger_inv db' \<longleftrightarrow> emotion_ledger_inv db"
  by (simp add: emotion_ledger_inv_def emotion_history_def)

lemma relationship_inv_cong:
  "life_identity db' = life_identity db \<Longrightarrow>
   relationship_state_rows db' = relationship_state_rows db \<Longrightarrow>
   relationship_event_rows db' = relationship_event_rows db \<Longrightarrow>
   relationship_ledger_inv db' \<longleftrightarrow> relationship_ledger_inv db"
  by (simp add: relationship_ledger_inv_def relationship_history_def)

lemma relationship_commit_transition_inv:
  "relationship_ledger_inv db \<Longrightarrow>
   relationship_ledger_inv (snd (relationship_commit_transition io now t db))"
  using relationship_store.step_inv [of db "(io, now, t)"] by (simp add: relationship_step_def)

lemma relationship_life_insert_emotion_inv:
  assumes "emotion_ledger_inv db" and "relationship_life_insert now life db = Inr db'"
  shows "emotion_ledger_inv db'"
proof -
  from assms(2) obtain db1 where db1: "emotion_life_insert now life db = Inr db1"
    and db': "db' = db1\<lparr>relationship_state_rows := relationship_state_rows db1
      @ [relationship_initial_state life now]\<rparr>"
    by (auto simp: relationship_life_insert_def try_bind_Inr_iff Let_def split: if_splits)
  from assms(1) db1 have "emotion_ledger_inv db1" by (rule emotion_life_insert_inv)
  then show ?thesis by (simp add: db' emotion_ledger_inv_def emotion_history_def)
qed

lemma storage_reachable_inv:
  "storage_reachable db \<Longrightarrow> emotion_ledger_inv db \<and> relationship_ledger_inv db"
proof (induction rule: storage_reachable.induct)
  case empty
  show ?case by (simp add: empty_relationship_db_def emotion_ledger_inv_def relationship_ledger_inv_def)
next
  case (life db now life db')
  then show ?case
    by (auto intro: relationship_life_insert_inv relationship_life_insert_emotion_inv)
next
  case (emotion db io now t)
  then have "relationship_ledger_inv (snd (emotion_commit_transition io now t db))"
    by (subst relationship_inv_cong [of _ db]) (simp_all add: emotion_commit_frame)
  with emotion show ?case by (simp add: emotion_commit_transition_inv)
next
  case (relationship db rio now rt)
  then have "emotion_ledger_inv (snd (relationship_commit_transition rio now rt db))"
    by (subst emotion_inv_cong [of _ db]) (simp_all add: relationship_commit_frame)
  with relationship show ?case by (simp add: relationship_commit_transition_inv)
qed

section \<open>Fresh commits succeed\<close>

lemma relationship_inv_distinct_states:
  "relationship_ledger_inv db \<Longrightarrow> distinct (map rs_key (relationship_state_rows db))"
  by (simp add: relationship_ledger_inv_def)

lemma relationship_inv_state:
  assumes "relationship_ledger_inv db" and "relationship_select_state k db = Some s"
  shows "s \<in> set (relationship_state_rows db) \<and> rs_key s = k \<and> relationship_state_row_check s
    \<and> relationship_projects (relationship_history k db) s"
proof -
  from assms have "s \<in> set (relationship_state_rows db) \<and> rs_key s = k"
    by (simp add: relationship_select_state_iff [OF relationship_inv_distinct_states])
  with assms(1) show ?thesis unfolding relationship_ledger_inv_def by blast
qed

lemma relationship_revision_free:
  assumes inv: "relationship_ledger_inv db" and s: "relationship_select_state k db = Some s"
    and e: "e \<in> set (relationship_event_rows db)"
  shows "relationship_event_revision_key e \<noteq> (k, rs_revision s + 1)"
proof
  assume "relationship_event_revision_key e = (k, rs_revision s + 1)"
  with e have "rs_revision s + 1 \<in> set (map rv_applied_revision (relationship_history k db))"
    by (force simp: relationship_event_revision_key_def relationship_history_def)
  with relationship_inv_state [OF inv s] show False by (simp add: relationship_projects_def)
qed

lemma relationship_commit_succeeds:
  assumes inv: "relationship_ledger_inv db" and io: "\<And>stmt. io stmt" and now: "now \<noteq> []"
    and valid: "relationship_transition_ok t" "rt_expected_revision t < i64_max"
    and s: "relationship_select_state (rt_key t) db = Some s" "rs_revision s = rt_expected_revision t"
    and new: "\<forall>e \<in> set (relationship_event_rows db). rv_event_id e \<noteq> rt_event_id t \<and>
      relationship_event_source_key e
        \<noteq> (rt_key t, rsrc_kind (rt_source t), rsrc_reference (rt_source t))"
  shows "relationship_commit_transition io now t db =
        (Inr (RelationshipCommitted (relationship_event_of now (rt_expected_revision t + 1) t)
               (relationship_state_after now (rt_expected_revision t + 1) t s)),
         relationship_committed_db now t db)"
proof -
  let ?n = "rt_expected_revision t + 1"
  note dist = relationship_inv_distinct_states [OF inv]
  note si = relationship_inv_state [OF inv s(1)]
  have "str_blank []" by simp
  with valid have nb: "rsrc_kind (rt_source t) \<noteq> []" "rsrc_reference (rt_source t) \<noteq> []"
    "rt_event_time t \<noteq> []" "rt_change_reason t \<noteq> []" "0 \<le> rt_expected_revision t"
    "0 < rt_policy_version t" "dimensions_ok (rt_next t)" "deltas_ok (rt_deltas t)"
    by (auto simp: relationship_transition_ok_def snake_case_def)
  have d: "\<forall>x \<in> set (map snd (iter_named_values (rt_deltas t))). - 1000 \<le> x \<and> x \<le> 1000"
    using nb(8) by (auto simp: deltas_ok_def abs_le_iff)
  have row: "relationship_event_row_check (relationship_event_of now ?n t)"
    unfolding relationship_event_row_check_def using nb now d
    by (simp add: relationship_event_of_def)
  have upd_row: "relationship_state_row_check (relationship_state_after now ?n t s')"
    if "rs_key s' = rt_key t" for s'
    using nb now that si
    by (auto simp: relationship_state_row_check_def relationship_key_defs)
  have "rv_key (relationship_event_of now ?n t) \<in> rs_key ` set (relationship_state_rows db)"
    using si by force
  then have ins: "relationship_event_insert (relationship_event_of now ?n t) db =
      Inr (db\<lparr>relationship_event_rows := relationship_event_rows db
        @ [relationship_event_of now ?n t]\<rparr>)"
    using new row relationship_revision_free [OF inv s(1)] s(2)
    unfolding relationship_event_insert_Inr
    by (auto simp: relationship_event_revision_key_def)
  have upd: "relationship_state_update now ?n t (db\<lparr>relationship_event_rows :=
        relationship_event_rows db @ [relationship_event_of now ?n t]\<rparr>)
      = Some (1, relationship_committed_db now t db)"
    using count_key_guard [OF dist, of "rt_key t" s "\<lambda>s. rs_revision s = rt_expected_revision t"]
      s upd_row by (simp add: relationship_state_update_Some relationship_committed_db_def Let_def
        relationship_select_state_def)
  have sel: "relationship_select_state (rt_key t) (relationship_committed_db now t db) =
      Some (relationship_state_after now ?n t s)"
    by (simp add: relationship_select_committed [OF dist s])
  have none: "relationship_select_event_by_id (rt_event_id t) db = None"
    "relationship_select_event_by_source
      (rt_key t, rsrc_kind (rt_source t), rsrc_reference (rt_source t)) db = None"
    using new by (auto simp: relationship_select_defs find_None_all)
  have "relationship_target_revision t = Inr ?n"
    using valid nb(5) by (simp add: relationship_target_revision_ok)
  then show ?thesis
    using s(2) by (simp add: s(1) relationship_commit_transition_def with_transaction_def io
        relationship_transition_validate_eq valid(1) none Let_def ins upd sel
        relationship_commit_in_transaction_def relationship_apply_transition_def)
qed

text \<open>A sample history: one life, one committed turn with the primary user.\<close>

definition relationship_sample_db0 :: relationship_db where
  "relationship_sample_db0 =
     \<lparr>life_identity = [''life-a''], emotion_state_rows = [emotion_initial_state ''life-a'' ''t0''],
      emotion_event_rows = [],
      relationship_state_rows = [relationship_initial_state ''life-a'' ''t0''],
      relationship_event_rows = []\<rparr>"

definition relationship_sample_request :: relationship_policy_request where
  "relationship_sample_request =
     \<lparr>rpr_event_id = ''event-1'',
      rpr_source = \<lparr>rsrc_kind = ''conversation'', rsrc_reference = ''turn-1''\<rparr>,
      rpr_change_reason = ''successful_turn'', rpr_stimulus = SuccessfulConversationTurn,
      rpr_event_time = ''t1''\<rparr>"

definition relationship_sample_transition :: relationship_transition where
  "relationship_sample_transition =
     relationship_evolved (relationship_initial_state ''life-a'' ''t0'') relationship_sample_request"

lemma relationship_sample_insert:
  "relationship_life_insert ''t0'' ''life-a'' empty_relationship_db = Inr relationship_sample_db0"
  by (simp add: relationship_life_insert_def empty_relationship_db_def emotion_life_insert_def
      emotion_initial_state_def emotion_state_row_check_def relationship_sample_db0_def Let_def)
    (simp add: relationship_state_row_check_def relationship_initial_state_def dimensions_ok_def
      relationship_neutral_def)

lemma relationship_sample_db0_reachable: "storage_reachable relationship_sample_db0"
  by (rule storage_reachable.life [OF storage_reachable.empty relationship_sample_insert])

lemma relationship_sample_request_ok: "relationship_request_ok relationship_sample_request"
proof -
  have "validate_change_reason ''successful_turn'' = Inr ()" by code_simp
  then show ?thesis
    by (simp add: relationship_request_ok_def relationship_sample_request_def
        validate_change_reason_ok)
qed

lemma relationship_sample_state_ok:
  "relationship_state_ok (relationship_initial_state ''life-a'' ''t0'')"
proof -
  have "\<not> str_blank ''primary_user''" by code_simp
  then show ?thesis
    by (simp add: relationship_state_ok_def relationship_initial_state_def dimensions_ok_def
        relationship_neutral_def)
qed

lemma relationship_sample_evolve:
  "relationship_evolve (relationship_initial_state ''life-a'' ''t0'') relationship_sample_request
     = Inr relationship_sample_transition"
  by (simp add: relationship_evolve_spec_lemma relationship_sample_state_ok i64_bounds
      relationship_sample_request_ok relationship_sample_transition_def)

lemma relationship_evolved_ok:
  "relationship_state_ok s \<Longrightarrow> relationship_request_ok r \<Longrightarrow>
   relationship_transition_ok (relationship_evolved s r)"
  using turn_next_ok [of "rs_values s"] turn_deltas_ok [of "rs_values s"]
  by (simp add: relationship_transition_ok_def relationship_evolved_def relationship_state_ok_def
      relationship_request_ok_def)

lemma relationship_sample_commit:
  "relationship_commit_transition (\<lambda>_. True) ''t1'' relationship_sample_transition
      relationship_sample_db0 =
     (Inr (RelationshipCommitted (relationship_event_of ''t1'' 1 relationship_sample_transition)
            (relationship_state_after ''t1'' 1 relationship_sample_transition
              (relationship_initial_state ''life-a'' ''t0''))),
      relationship_committed_db ''t1'' relationship_sample_transition relationship_sample_db0)"
proof -
  let ?s = "relationship_initial_state ''life-a'' ''t0''"
  let ?t = relationship_sample_transition
  have k: "rt_key ?t = (''life-a'', ''primary_user'')" "rt_expected_revision ?t = 0"
    by (simp_all add: relationship_sample_transition_def relationship_evolved_def rt_key_def
        relationship_initial_state_def)
  have sel: "relationship_select_state (rt_key ?t) relationship_sample_db0 = Some ?s"
    by (simp add: k relationship_select_state_def relationship_sample_db0_def)
  have ok: "relationship_transition_ok ?t"
    unfolding relationship_sample_transition_def
    by (rule relationship_evolved_ok [OF relationship_sample_state_ok relationship_sample_request_ok])
  have "relationship_event_rows relationship_sample_db0 = []"
    by (simp add: relationship_sample_db0_def)
  then show ?thesis
    using relationship_commit_succeeds [of relationship_sample_db0 "\<lambda>_. True" "''t1''" ?t ?s]
      storage_reachable_inv [OF relationship_sample_db0_reachable] sel ok
    by (simp add: k i64_bounds)
qed

section \<open>Exactly once\<close>

text \<open>The calls of both repositories, in any order.\<close>

datatype storage_op =
    SopLife string string
  | SopEmotion emotion_io string emotion_transition
  | SopRelationship relationship_io string relationship_transition

fun storage_op_step :: "storage_op \<Rightarrow> relationship_db \<Rightarrow> relationship_db" where
  "storage_op_step (SopLife now life) db =
     (case relationship_life_insert now life db of Inl _ \<Rightarrow> db | Inr db' \<Rightarrow> db')"
| "storage_op_step (SopEmotion io now t) db = snd (emotion_commit_transition io now t db)"
| "storage_op_step (SopRelationship io now t) db = snd (relationship_commit_transition io now t db)"

definition storage_run :: "storage_op list \<Rightarrow> relationship_db \<Rightarrow> relationship_db" where
  "storage_run ops db = fold storage_op_step ops db"

lemma storage_op_reachable: "storage_reachable db \<Longrightarrow> storage_reachable (storage_op_step op db)"
  by (cases op) (auto intro: storage_reachable.intros split: sum.splits)

lemma storage_run_reachable: "storage_reachable db \<Longrightarrow> storage_reachable (storage_run ops db)"
  unfolding storage_run_def by (induction ops arbitrary: db) (simp_all add: storage_op_reachable)

lemma emotion_events_stay:
  assumes "emotion_ledger_inv db"
  shows "set (emotion_event_rows db)
    \<subseteq> set (emotion_event_rows (snd (emotion_commit_transition io now t db)))"
proof (cases "emotion_store.is_fresh (fst (emotion_step db (io, now, t)))")
  case False
  then have "snd (emotion_step db (io, now, t)) = db" by (rule emotion_store.step_frame)
  then show ?thesis by (simp add: emotion_step_def)
next
  case True
  then obtain out where "emotion_step db (io, now, t)
      = (Inr out, snd (emotion_step db (io, now, t)))" "emotion_fresh out"
    by (cases "emotion_step db (io, now, t)"; cases "fst (emotion_step db (io, now, t))")
      (auto simp: emotion_store.is_fresh_def)
  from emotion_step_fresh [OF assms this]
  have "snd (emotion_step db (io, now, t)) = emotion_committed_db now t db" by simp
  then show ?thesis by (auto simp: emotion_step_def emotion_committed_db_rows)
qed

lemma storage_step_events:
  assumes "storage_reachable db"
  shows "set (emotion_event_rows db) \<subseteq> set (emotion_event_rows (storage_op_step op db))"
proof (cases op)
  case (SopLife now life)
  then show ?thesis
    by (auto simp: relationship_life_insert_def emotion_life_insert_def try_bind_Inr_iff Let_def
        split: sum.splits if_splits)
next
  case (SopEmotion io now t)
  then show ?thesis using storage_reachable_inv [OF assms] by (simp add: emotion_events_stay)
next
  case (SopRelationship io now t)
  then show ?thesis using storage_reachable_inv [OF assms] by (simp add: relationship_commit_frame)
qed

lemma storage_run_events:
  "storage_reachable db \<Longrightarrow>
   set (emotion_event_rows db) \<subseteq> set (emotion_event_rows (storage_run ops db))"
  unfolding storage_run_def
proof (induction ops arbitrary: db)
  case (Cons op ops)
  have "set (emotion_event_rows db) \<subseteq> set (emotion_event_rows (storage_op_step op db))"
    using Cons.prems by (rule storage_step_events)
  also have "\<dots> \<subseteq> set (emotion_event_rows (fold storage_op_step ops (storage_op_step op db)))"
    using Cons.prems by (intro Cons.IH storage_op_reachable)
  finally show ?case by simp
qed simp

text \<open>
  C32: exactly once. Once an emotion transition has been committed, sending it again, after any
  creations of lives and any commits of the emotion and the relationship repository, and with any
  clock, is answered with the event that was recorded and the current row of the life, and changes
  nothing.
\<close>

theorem emotion_commit_exactly_once:
  assumes "storage_reachable db"
    and "emotion_commit_transition io now t db = (Inr (EmotionCommitted e s), db1)"
    and "db2 = storage_run ops db1" and io: "\<forall>stmt. io' stmt"
  shows "\<exists>s'. emotion_select_state (et_life_id t) db2 = Some s'
    \<and> emotion_commit_transition io' now' t db2 = (Inr (EmotionReplayed e s'), db2)"
proof -
  note ev = emotion_committed_event [OF assms(2)]
  have "storage_reachable db1"
    using storage_reachable.emotion [OF assms(1), of io now t] assms(2) by simp
  then have "emotion_ledger_inv db2" "e \<in> set (emotion_event_rows db2)"
    using storage_reachable_inv [OF storage_run_reachable] storage_run_events ev(4)
    unfolding assms(3) by blast+
  from emotion_event_replays [OF this(1) _ ev(1,2) this(2) ev(5,6), of io' now'] io
  show ?thesis by blast
qed

lemma emotion_commit_exactly_once_witness:
  "\<exists>db1 db2 e s s'. emotion_commit_transition (\<lambda>_. True) ''t1'' emotion_sample_transition
        relationship_sample_db0 = (Inr (EmotionCommitted e s), db1)
     \<and> db2 = storage_run
         [SopRelationship (\<lambda>_. True) ''t2'' relationship_sample_transition] db1
     \<and> emotion_commit_transition (\<lambda>_. True) ''t9'' emotion_sample_transition db2
         = (Inr (EmotionReplayed e s'), db2)"
proof -
  let ?t = emotion_sample_transition
  have inv: "emotion_ledger_inv relationship_sample_db0"
    using storage_reachable_inv [OF relationship_sample_db0_reachable] by simp
  have t: "et_life_id ?t = ''life-a''" "et_expected_revision ?t = 0"
    by (simp_all add: emotion_sample_transition_def)
  have rows: "emotion_select_state ''life-a'' relationship_sample_db0
      = Some (emotion_initial_state ''life-a'' ''t0'')" "emotion_event_rows relationship_sample_db0 = []"
    by (simp_all add: emotion_select_state_def relationship_sample_db0_def emotion_initial_state_def)
  have rev: "emotion_revision_of relationship_sample_db0 ''life-a'' = Some 0"
    by (simp add: emotion_revision_of_def rows) (simp add: emotion_initial_state_def)
  have "\<exists>s. emotion_select_state (et_life_id ?t) relationship_sample_db0 = Some s
    \<and> emotion_commit_transition (\<lambda>_. True) ''t1'' ?t relationship_sample_db0 =
        (Inr (EmotionCommitted (emotion_event_of ''t1'' (et_expected_revision ?t + 1) ?t)
               (emotion_state_after ''t1'' (et_expected_revision ?t + 1) ?t s)),
         emotion_committed_db ''t1'' ?t relationship_sample_db0)"
    by (rule emotion_commit_succeeds [OF inv])
      (simp_all only: emotion_sample_valid t rows rev list.set, simp_all add: i64_bounds)
  then obtain e s db1 where c: "emotion_commit_transition (\<lambda>_. True) ''t1'' ?t
      relationship_sample_db0 = (Inr (EmotionCommitted e s), db1)" by blast
  let ?db2 = "storage_run [SopRelationship (\<lambda>_. True) ''t2'' relationship_sample_transition] db1"
  have "\<forall>stmt :: emotion_stmt. True" by simp
  from emotion_commit_exactly_once [OF relationship_sample_db0_reachable c refl this, of _ "''t9''"]
  obtain s' where "emotion_commit_transition (\<lambda>_. True) ''t9'' ?t ?db2
      = (Inr (EmotionReplayed e s'), ?db2)" by blast
  with c show ?thesis by blast
qed

section \<open>Histories\<close>

text \<open>
  C34: in every database that life creation and the commits of both repositories can reach, both
  ledgers project: for every life the emotion row and the row of the primary user exist, the
  revisions of each ledger are \<open>1, 2, \<dots>\<close>, and the authoritative values (valence and activation, the
  five dimensions of the relationship) are those of its last event, or the initial ones while there
  is none, in range in every dimension.
\<close>

theorem storage_ledgers_project:
  assumes "storage_reachable db" and "life \<in> set (life_identity db)"
  shows "\<exists>e r. emotion_select_state life db = Some e
    \<and> map ev_applied_revision (emotion_history life db) = [1..es_revision e]
    \<and> (es_valence e, es_activation e) = (if es_revision e = 0 then (0, 0)
        else (ev_result_valence (last (emotion_history life db)),
              ev_result_activation (last (emotion_history life db))))
    \<and> emotion_affect_ok (es_valence e) \<and> emotion_affect_ok (es_activation e)
    \<and> relationship_select_state (life, ''primary_user'') db = Some r
    \<and> map rv_applied_revision (relationship_history (life, ''primary_user'') db) = [1..rs_revision r]
    \<and> dimensions_ok (rs_values r)
    \<and> rs_values r = (if rs_revision r = 0 then relationship_neutral
        else rv_result (last (relationship_history (life, ''primary_user'') db)))"
proof -
  let ?k = "(life, ''primary_user'')"
  from storage_reachable_inv [OF assms(1)]
  have ei: "emotion_ledger_inv db" and ri: "relationship_ledger_inv db" by simp_all
  have "life \<in> es_life_id ` set (emotion_state_rows db)"
    using ei assms(2) by (simp add: emotion_ledger_inv_def)
  then obtain e where e: "e \<in> set (emotion_state_rows db)" "es_life_id e = life" by auto
  then have row: "emotion_state_row_check e" and pr: "emotion_projects (emotion_history life db) e"
    using ei unfolding emotion_ledger_inv_def by blast+
  from e have "emotion_select_state life db = Some e"
    by (simp add: emotion_select_state_iff [OF emotion_inv_distinct [OF ei]])
  moreover have "?k \<in> rs_key ` set (relationship_state_rows db)"
    using ri assms(2) by (simp add: relationship_ledger_inv_def image_iff)
  then obtain r where "r \<in> set (relationship_state_rows db)" "rs_key r = ?k" by force
  then have r: "relationship_select_state ?k db = Some r"
    by (simp add: relationship_select_state_iff [OF relationship_inv_distinct_states [OF ri]])
  note rp = relationship_inv_state [OF ri r]
  have "relationship_history ?k db = [] \<longleftrightarrow> rs_revision r < 1"
    using rp by (metis map_is_Nil_conv relationship_projects_def upto_Nil)
  moreover have "0 \<le> rs_revision r"
    using rp by (simp add: relationship_state_row_check_def)
  moreover have "emotion_history life db = [] \<longleftrightarrow> es_revision e < 1"
    using pr by (metis map_is_Nil_conv emotion_projects_def upto_Nil)
  moreover have "0 \<le> es_revision e"
    using row by (simp add: emotion_state_row_check_def)
  ultimately show ?thesis
    using r rp row pr
    by (auto simp: emotion_state_row_check_def emotion_projects_def emotion_affect_ok_def
        relationship_state_row_check_def relationship_projects_def)
qed

theorem storage_ledgers_project_witness:
  "\<exists>db r. storage_reachable db \<and> relationship_select_state (''life-a'', ''primary_user'') db = Some r
     \<and> rs_revision r = 1 \<and> familiarity (rs_values r) = 1 \<and> dimensions_ok (rs_values r)"
proof -
  let ?db = "relationship_committed_db ''t1'' relationship_sample_transition relationship_sample_db0"
  have reach: "storage_reachable ?db"
    using storage_reachable.relationship [OF relationship_sample_db0_reachable, of "\<lambda>_. True" "''t1''"
        relationship_sample_transition] relationship_sample_commit by simp
  have life: "''life-a'' \<in> set (life_identity ?db)"
    by (simp add: relationship_committed_db_def Let_def relationship_sample_db0_def)
  have "relationship_select_state (''life-a'', ''primary_user'') ?db
      = Some (relationship_state_after ''t1'' 1 relationship_sample_transition
          (relationship_initial_state ''life-a'' ''t0''))"
    by (simp add: relationship_select_state_def relationship_committed_db_def Let_def
        relationship_sample_db0_def relationship_sample_transition_def relationship_evolved_def
        rt_key_def) (simp add: relationship_initial_state_def)
  moreover have "familiarity (rt_next relationship_sample_transition) = 1"
    by (simp add: relationship_sample_transition_def relationship_evolved_def turn_delta_def
        relationship_neutral_def)
  ultimately show ?thesis
    using storage_ledgers_project [OF reach life] reach by (intro exI [of _ ?db]) auto
qed

text \<open>
  Exactly once and no lost update for relationships. After a commit, whatever calls ran in
  between, the same transition is answered from the ledger without a second mutation, and a
  different one that builds on the same or an older revision of the pair never commits.
\<close>

theorem relationship_commit_once:
  assumes "relationship_ledger_inv db"
    and "relationship_commit_transition io now t db = (Inr (RelationshipCommitted e s), db1)"
    and "db2 = snd (run_all relationship_step db1 calls)"
  shows "((\<forall>stmt. io' stmt) \<longrightarrow>
      (\<exists>e' s'. relationship_commit_transition io' now' t db2 = (Inr (RelationshipReplayed e' s'), db2)))
    \<and> (rt_key u = rt_key t \<and> rt_expected_revision u \<le> rt_expected_revision t \<longrightarrow>
      (\<forall>e' s'. fst (relationship_commit_transition io' now' u db2) \<noteq> Inr (RelationshipCommitted e' s'))
      \<and> snd (relationship_commit_transition io' now' u db2) = db2)"
proof (intro conjI impI)
  assume "\<forall>stmt. io' stmt"
  then have "\<exists>out. relationship_step db2 (io', now', t) = (Inr out, db2) \<and> \<not> relationship_fresh out"
    unfolding assms(3)
    by (intro relationship_store.exactly_once [of db "(io, now, t)" "RelationshipCommitted e s"])
      (use assms in \<open>simp_all add: relationship_step_def relationship_call_defs\<close>)
  then obtain out where "relationship_commit_transition io' now' t db2 = (Inr out, db2)"
    and "\<not> relationship_fresh out"
    by (auto simp: relationship_step_def)
  then show "\<exists>e' s'. relationship_commit_transition io' now' t db2
      = (Inr (RelationshipReplayed e' s'), db2)"
    by (cases out) auto
next
  assume u: "rt_key u = rt_key t \<and> rt_expected_revision u \<le> rt_expected_revision t"
  have db1: "snd (relationship_step db (io, now, t)) = db1"
    using assms(2) by (simp add: relationship_step_def)
  have "\<not> relationship_store.is_fresh (fst (relationship_step db2 (io', now', u)))"
    unfolding assms(3) db1 [symmetric]
    by (rule relationship_store.no_lost_update)
      (use assms u in \<open>simp_all add: relationship_step_def relationship_store.is_fresh_def
         relationship_call_defs\<close>)
  then show "\<forall>e' s'. fst (relationship_commit_transition io' now' u db2)
        \<noteq> Inr (RelationshipCommitted e' s')"
    and "snd (relationship_commit_transition io' now' u db2) = db2"
    using relationship_store.step_frame [of db2 "(io', now', u)"]
    by (auto simp: relationship_step_def relationship_store.is_fresh_def)
qed

theorem relationship_commit_once_witness:
  "\<exists>db1 e' s'. snd (relationship_commit_transition (\<lambda>_. True) ''t1'' relationship_sample_transition
        relationship_sample_db0) = db1
     \<and> relationship_commit_transition (\<lambda>_. True) ''t9'' relationship_sample_transition db1
         = (Inr (RelationshipReplayed e' s'), db1)
     \<and> snd (relationship_commit_transition (\<lambda>_. True) ''t9''
           (relationship_sample_transition\<lparr>rt_event_id := ''turn-1''\<rparr>) db1) = db1"
  using relationship_commit_once [OF _ relationship_sample_commit, of _ "[]" "\<lambda>_. True" "''t9''"
      "relationship_sample_transition\<lparr>rt_event_id := ''turn-1''\<rparr>"]
    storage_reachable_inv [OF relationship_sample_db0_reachable] relationship_sample_commit
  by (auto simp: rt_key_def)

section \<open>Governed turns\<close>

text \<open>
  A governed turn: load the authoritative state, let the policy evolve it, commit the transition.
\<close>

definition relationship_turn ::
    "relationship_io \<Rightarrow> string \<Rightarrow> string \<Rightarrow> string \<Rightarrow> relationship_policy_request
     \<Rightarrow> 'a relationship_db_scheme
     \<Rightarrow> (relationship_error + relationship_commit_outcome) \<times> 'a relationship_db_scheme" where
  "relationship_turn io now life subject request db =
     (case try_bind (relationship_load_current_state io life subject db) (\<lambda>state.
             try_bind (ok_or state relationship_state_not_found) (\<lambda>current.
             relationship_evolve current request))
      of Inl e \<Rightarrow> (Inl e, db)
       | Inr t \<Rightarrow> relationship_commit_transition io now t db)"

inductive relationship_governed :: "relationship_db \<Rightarrow> bool" where
  empty: "relationship_governed empty_relationship_db"
| life: "relationship_governed db \<Longrightarrow> relationship_life_insert now life db = Inr db' \<Longrightarrow>
    relationship_governed db'"
| turn: "relationship_governed db \<Longrightarrow>
    relationship_governed (snd (relationship_turn io now life subject request db))"

lemma relationship_turn_cases:
  assumes inv: "relationship_ledger_inv db"
  obtains (same) "snd (relationship_turn io now life subject r db) = db"
  | (changed) s where "relationship_select_state (life, subject) db = Some s"
      "snd (relationship_turn io now life subject r db) =
         relationship_committed_db now (relationship_evolved s r) db"
      "relationship_ledger_inv (relationship_committed_db now (relationship_evolved s r) db)"
proof (cases "\<exists>s. relationship_load_current_state io life subject db = Inr (Some s)
    \<and> relationship_evolve s r = Inr (relationship_evolved s r)")
  case False
  then show ?thesis
    by (intro same, cases "relationship_select_state (life, subject) db")
      (auto simp: relationship_turn_def relationship_load_current_state_def
        relationship_evolve_spec_lemma split: if_splits)
next
  case True
  then obtain s where load: "relationship_load_current_state io life subject db = Inr (Some s)"
    and ev: "relationship_evolve s r = Inr (relationship_evolved s r)" by blast
  let ?t = "relationship_evolved s r"
  have turn: "relationship_turn io now life subject r db = relationship_step db (io, now, ?t)"
    using load ev by (simp add: relationship_turn_def relationship_step_def)
  show ?thesis
  proof (cases "relationship_store.is_fresh (fst (relationship_step db (io, now, ?t)))")
    case False
    then show ?thesis by (intro same) (simp add: turn relationship_store.step_frame)
  next
    case True
    then obtain out where "relationship_step db (io, now, ?t)
        = (Inr out, snd (relationship_step db (io, now, ?t)))" "relationship_fresh out"
      by (cases "relationship_step db (io, now, ?t)";
          cases "fst (relationship_step db (io, now, ?t))")
        (auto simp: relationship_store.is_fresh_def)
    from relationship_step_fresh [OF inv this] load show ?thesis
      by (intro changed [of s])
        (simp_all add: turn relationship_load_current_state_def split: if_splits)
  qed
qed

text \<open>The values governed turns can produce: familiarity counts the turns up to its cap.\<close>

definition governed_values :: "int \<Rightarrow> relationship_dimensions" where
  "governed_values n = relationship_neutral\<lparr>familiarity := min 1000 n\<rparr>"

lemma governed_values_step:
  "0 \<le> n \<Longrightarrow> (governed_values n)\<lparr>familiarity := familiarity (governed_values n)
      + turn_delta (governed_values n)\<rparr> = governed_values (n + 1)"
  by (auto simp: governed_values_def turn_delta_def)

definition relationship_counts :: "'a relationship_db_scheme \<Rightarrow> bool" where
  "relationship_counts db \<longleftrightarrow> (\<forall>k s. relationship_select_state k db = Some s \<longrightarrow>
     rs_values s = governed_values (rs_revision s))"

lemma relationship_governed_inv:
  "relationship_governed db \<Longrightarrow> relationship_ledger_inv db \<and> relationship_counts db"
proof (induction rule: relationship_governed.induct)
  case empty
  show ?case by (simp add: empty_relationship_db_def relationship_ledger_inv_def
      relationship_counts_def relationship_select_state_def)
next
  case (life db now life db')
  then have inv: "relationship_ledger_inv db" and c: "relationship_counts db" by simp_all
  note db' = relationship_life_insert_Inr [OF life.hyps(2)]
  have "governed_values 0 = relationship_neutral"
    by (simp add: governed_values_def relationship_neutral_def)
  then have "relationship_counts db'"
    using c db' by (auto simp: relationship_counts_def relationship_select_state_def find_append
        split: option.splits if_splits)
  with relationship_life_insert_inv [OF inv life.hyps(2)] show ?case by simp
next
  case (turn db io now life subject r)
  then have inv: "relationship_ledger_inv db" and c: "relationship_counts db" by simp_all
  show ?case
  proof (rule relationship_turn_cases [OF inv, of io now life subject r])
    assume "snd (relationship_turn io now life subject r db) = db"
    with inv c show ?thesis by simp
  next
    fix s
    let ?t = "relationship_evolved s r"
    assume s: "relationship_select_state (life, subject) db = Some s"
      and res: "snd (relationship_turn io now life subject r db) = relationship_committed_db now ?t db"
        "relationship_ledger_inv (relationship_committed_db now ?t db)"
    note si = relationship_inv_state [OF inv s]
    have k: "rt_key ?t = (life, subject)" "rt_expected_revision ?t = rs_revision s"
      using si by (simp_all add: relationship_evolved_def relationship_key_defs)
    have "0 \<le> rs_revision s" using si by (simp add: relationship_state_row_check_def)
    moreover have "rs_values s = governed_values (rs_revision s)"
      using c s by (simp add: relationship_counts_def)
    ultimately have "rt_next ?t = governed_values (rs_revision s + 1)"
      using governed_values_step by (simp add: relationship_evolved_def)
    then have "relationship_counts (relationship_committed_db now ?t db)"
      using c s k relationship_select_committed [OF relationship_inv_distinct_states [OF inv], of ?t s]
      by (auto simp: relationship_counts_def split: if_splits)
    with res show ?thesis by simp
  qed
qed

text \<open>
  When every mutation is a governed turn, the state of a pair is determined by its revision
  alone: familiarity is the number of committed turns, capped at 1000, it never decreases, and no
  turn ever moves trust, closeness, collaboration, safety, dependency, boundary comfort or tension.
\<close>

theorem relationship_governed_familiarity:
  assumes "relationship_governed db" and "relationship_select_state k db = Some s"
  shows "rs_values s = relationship_neutral\<lparr>familiarity := min 1000 (rs_revision s)\<rparr>
    \<and> rs_revision s = int (length (relationship_history k db))
    \<and> dimensions_ok (rs_values s)"
proof -
  from relationship_governed_inv [OF assms(1)]
  have inv: "relationship_ledger_inv db" and c: "relationship_counts db" by simp_all
  note si = relationship_inv_state [OF inv assms(2)]
  have "map rv_applied_revision (relationship_history k db) = [1..rs_revision s]"
    using si by (simp add: relationship_projects_def)
  then have "length (relationship_history k db) = length [1..rs_revision s]"
    by (metis length_map)
  moreover from c assms(2) have "rs_values s = governed_values (rs_revision s)"
    unfolding relationship_counts_def by blast
  ultimately show ?thesis
    using si by (simp add: governed_values_def relationship_state_row_check_def)
qed

theorem relationship_governed_familiarity_witness:
  "\<exists>db s. relationship_governed db
     \<and> relationship_select_state (''life-a'', ''primary_user'') db = Some s
     \<and> rs_revision s = 1 \<and> familiarity (rs_values s) = 1 \<and> tension (rs_values s) = 0"
proof -
  let ?db = "relationship_committed_db ''t1'' relationship_sample_transition relationship_sample_db0"
  have g0: "relationship_governed relationship_sample_db0"
    by (rule relationship_governed.life [OF relationship_governed.empty relationship_sample_insert])
  have "relationship_select_state (''life-a'', ''primary_user'') relationship_sample_db0
      = Some (relationship_initial_state ''life-a'' ''t0'')"
    by (simp add: relationship_select_state_def relationship_sample_db0_def)
  then have "relationship_turn (\<lambda>_. True) ''t1'' ''life-a'' ''primary_user'' relationship_sample_request
      relationship_sample_db0
      = relationship_commit_transition (\<lambda>_. True) ''t1'' relationship_sample_transition
          relationship_sample_db0"
    by (simp add: relationship_turn_def relationship_load_current_state_def
        relationship_sample_evolve)
  with relationship_sample_commit have g: "relationship_governed ?db"
    by (metis relationship_governed.turn [OF g0] snd_conv)
  have s: "relationship_select_state (''life-a'', ''primary_user'') ?db
      = Some (relationship_state_after ''t1'' 1 relationship_sample_transition
          (relationship_initial_state ''life-a'' ''t0''))"
    by (simp add: relationship_select_state_def relationship_committed_db_def Let_def
        relationship_sample_db0_def relationship_sample_transition_def relationship_evolved_def
        rt_key_def) (simp add: relationship_initial_state_def)
  from relationship_governed_familiarity [OF g s] g s show ?thesis
    by (intro exI [of _ ?db]) (simp add: relationship_neutral_def)
qed

end
