(* ===== verification/Conversation_Domain.thy ===== *)
theory Conversation_Domain
  imports Sql_Table
begin

text \<open>
  The conversation domain, \<open>src-tauri/src/conversation/history.rs\<close>: roles, records, requests,
  errors, validators and generated identities. Error messages are left out.
\<close>

section \<open>Limits and roles\<close>

definition MAX_CONVERSATION_TITLE_CHARACTERS :: nat where "MAX_CONVERSATION_TITLE_CHARACTERS = 120"
definition MAX_CONVERSATION_MESSAGE_CHARACTERS :: nat where
  "MAX_CONVERSATION_MESSAGE_CHARACTERS = 32000"
definition MAX_RECENT_CONVERSATION_MESSAGES :: nat where "MAX_RECENT_CONVERSATION_MESSAGES = 20"
definition MAX_CONVERSATION_PAGE_SIZE :: nat where "MAX_CONVERSATION_PAGE_SIZE = 100"
definition MAX_TURN_ID_CHARACTERS :: nat where "MAX_TURN_ID_CHARACTERS = 256"

datatype conversation_role = RoleUser | RoleAssistant

fun role_as_str :: "conversation_role \<Rightarrow> string" where
  "role_as_str RoleUser = ''user''"
| "role_as_str RoleAssistant = ''assistant''"

section \<open>Records\<close>

record conversation_record =
  cv_id :: string
  cv_life_id :: string
  cv_title :: string
  cv_revision :: int
  cv_created_at :: string
  cv_updated_at :: string
  cv_last_message_at :: string

record conversation_message =
  cm_id :: string
  cm_conversation_id :: string
  cm_life_id :: string
  cm_turn_id :: string
  cm_role :: conversation_role
  cm_content :: string
  cm_sequence_no :: int
  cm_created_at :: string

record create_conversation_request =
  ccq_life_id :: string
  ccq_title :: string

record rename_conversation_request =
  rcq_life_id :: string
  rcq_conversation_id :: string
  rcq_title :: string

record append_turn_request =
  aq_life_id :: string
  aq_conversation_id :: string
  aq_turn_id :: string
  aq_user_content :: string
  aq_assistant_content :: string
  aq_expected_revision :: "int option"

record conversation_page_request =
  pq_life_id :: string
  pq_conversation_id :: string
  pq_after_sequence_no :: "int option"
  pq_limit :: nat

record conversation_message_page =
  mp_messages :: "conversation_message list"
  mp_next_after_sequence_no :: "int option"

record append_turn_result =
  tr_user_message :: conversation_message
  tr_assistant_message :: conversation_message
  tr_conversation_revision :: int
  tr_replayed :: bool

record conversation_summary =
  cs_id :: string
  cs_title :: string
  cs_created_at :: string
  cs_updated_at :: string
  cs_last_message_at :: string

definition summary_of_record :: "conversation_record \<Rightarrow> conversation_summary" where
  "summary_of_record c =
     \<lparr>cs_id = cv_id c, cs_title = cv_title c, cs_created_at = cv_created_at c,
      cs_updated_at = cv_updated_at c, cs_last_message_at = cv_last_message_at c\<rparr>"

record persisted_conversation_message =
  pm_role :: conversation_role
  pm_content :: string
  pm_sequence_no :: int
  pm_created_at :: string

definition persisted_of_message :: "conversation_message \<Rightarrow> persisted_conversation_message" where
  "persisted_of_message m =
     \<lparr>pm_role = cm_role m, pm_content = cm_content m, pm_sequence_no = cm_sequence_no m,
      pm_created_at = cm_created_at m\<rparr>"

section \<open>Errors\<close>

datatype conversation_error_code =
    ConversationNotFound | ConversationLifeMismatch | InvalidConversationTitle
  | InvalidMessageContent | InvalidMessageRole | InvalidConversationRequest | TurnIdConflict
  | IncompleteTurn | ConversationChangedDuringRequest | ConversationStorageUnavailable
  | ConversationInternalError

record conversation_error =
  che_code :: conversation_error_code
  che_recoverable :: bool

definition conversation_error_new :: "conversation_error_code \<Rightarrow> conversation_error" where
  "conversation_error_new code =
     \<lparr>che_code = code,
      che_recoverable = (case code of
          ConversationNotFound \<Rightarrow> True
        | ConversationLifeMismatch \<Rightarrow> False
        | InvalidConversationTitle \<Rightarrow> True
        | InvalidMessageContent \<Rightarrow> True
        | InvalidMessageRole \<Rightarrow> False
        | InvalidConversationRequest \<Rightarrow> True
        | TurnIdConflict \<Rightarrow> False
        | IncompleteTurn \<Rightarrow> False
        | ConversationChangedDuringRequest \<Rightarrow> True
        | ConversationStorageUnavailable \<Rightarrow> True
        | ConversationInternalError \<Rightarrow> True)\<rparr>"

abbreviation conversation_fail :: "conversation_error_code \<Rightarrow> conversation_error + 'a" where
  "conversation_fail code \<equiv> Inl (conversation_error_new code)"

definition role_parse :: "string \<Rightarrow> conversation_error + conversation_role" where
  "role_parse v =
     (if v = ''user'' then Inr RoleUser
      else if v = ''assistant'' then Inr RoleAssistant
      else conversation_fail InvalidMessageRole)"

lemma conversation_error_new_inj [simp]:
  "conversation_error_new c = conversation_error_new d \<longleftrightarrow> c = d"
  by (auto simp: conversation_error_new_def)

lemma role_parse_as_str [simp]: "role_parse (role_as_str r) = Inr r"
  by (cases r) (simp_all add: role_parse_def)

lemma role_parse_Inr: "role_parse v = Inr r \<longleftrightarrow> v = role_as_str r"
  by (cases r) (auto simp: role_parse_def)

lemma role_as_str_inj [simp]: "role_as_str r = role_as_str q \<longleftrightarrow> r = q"
  by (cases r; cases q) simp_all

section \<open>Validators\<close>

definition conversation_validate_life_id :: "string \<Rightarrow> conversation_error + unit" where
  "conversation_validate_life_id life =
     require (\<not> str_blank life) (conversation_error_new InvalidConversationRequest)"

definition validate_identifiers :: "string \<Rightarrow> string \<Rightarrow> conversation_error + unit" where
  "validate_identifiers life conversation =
     try_seq (conversation_validate_life_id life)
       (require (\<not> str_blank conversation) (conversation_error_new InvalidConversationRequest))"

definition validate_turn_id :: "string \<Rightarrow> conversation_error + unit" where
  "validate_turn_id turn =
     require (\<not> (str_blank turn \<or> chars_count turn > MAX_TURN_ID_CHARACTERS))
       (conversation_error_new InvalidConversationRequest)"

definition validate_message :: "string \<Rightarrow> conversation_error + unit" where
  "validate_message content =
     require (\<not> (str_blank content \<or> chars_count content > MAX_CONVERSATION_MESSAGE_CHARACTERS))
       (conversation_error_new InvalidMessageContent)"

definition normalize_title :: "string \<Rightarrow> conversation_error + string" where
  "normalize_title title =
     (let value = str_trim title in
      if value = [] \<or> chars_count value > MAX_CONVERSATION_TITLE_CHARACTERS
      then conversation_fail InvalidConversationTitle
      else Inr value)"

definition validate_append_turn_request :: "append_turn_request \<Rightarrow> conversation_error + unit" where
  "validate_append_turn_request r =
     check_all
       [validate_identifiers (aq_life_id r) (aq_conversation_id r),
        validate_turn_id (aq_turn_id r),
        validate_message (aq_user_content r),
        validate_message (aq_assistant_content r),
        require (\<not> (case aq_expected_revision r of None \<Rightarrow> False | Some v \<Rightarrow> v < 0))
          (conversation_error_new InvalidConversationRequest)]"

definition append_turn_request_ok :: "append_turn_request \<Rightarrow> bool" where
  "append_turn_request_ok r \<longleftrightarrow>
     \<not> str_blank (aq_life_id r) \<and> \<not> str_blank (aq_conversation_id r)
     \<and> \<not> str_blank (aq_turn_id r) \<and> chars_count (aq_turn_id r) \<le> 256
     \<and> \<not> str_blank (aq_user_content r) \<and> chars_count (aq_user_content r) \<le> 32000
     \<and> \<not> str_blank (aq_assistant_content r) \<and> chars_count (aq_assistant_content r) \<le> 32000
     \<and> (\<forall>v. aq_expected_revision r = Some v \<longrightarrow> 0 \<le> v)"

lemma validate_append_turn_request_Inr [validator_simps]:
  "validate_append_turn_request r = Inr () \<longleftrightarrow> append_turn_request_ok r"
  by (auto simp: validate_append_turn_request_def append_turn_request_ok_def check_all_Inr_iff
      validate_identifiers_def conversation_validate_life_id_def validate_turn_id_def
      validate_message_def try_seq_Inr_iff MAX_TURN_ID_CHARACTERS_def
      MAX_CONVERSATION_MESSAGE_CHARACTERS_def split: option.splits)

section \<open>Generated identities\<close>

text \<open>
  \<open>generate_id\<close>: the prefix, the nanoseconds since the epoch with 32 hexadecimal digits and the
  value of the process-wide counter with 16. The clock and the counter are arguments; a \<open>u128\<close> and
  a \<open>u64\<close> fill these widths exactly.
\<close>

definition hex_digit :: "nat \<Rightarrow> char" where
  "hex_digit n = (if n < 10 then char_of (48 + n) else char_of (87 + n))"

fun hex_digits :: "nat \<Rightarrow> nat \<Rightarrow> string" where
  "hex_digits 0 n = []"
| "hex_digits (Suc w) n = hex_digits w (n div 16) @ [hex_digit (n mod 16)]"

definition generate_id :: "string \<Rightarrow> nat \<Rightarrow> nat \<Rightarrow> string" where
  "generate_id kind timestamp sequence =
     kind @ ''-'' @ hex_digits 32 timestamp @ ''-'' @ hex_digits 16 sequence"

lemma hex_digit_inj: "m < 16 \<Longrightarrow> n < 16 \<Longrightarrow> hex_digit m = hex_digit n \<Longrightarrow> m = n"
  by (auto simp: hex_digit_def char_of_eq_iff take_bit_eq_mod split: if_splits)

lemma length_hex_digits [simp]: "length (hex_digits w n) = w"
  by (induction w arbitrary: n) simp_all

lemma hex_digits_inj: "m < 16 ^ w \<Longrightarrow> n < 16 ^ w \<Longrightarrow> hex_digits w m = hex_digits w n \<Longrightarrow> m = n"
proof (induction w arbitrary: m n)
  case (Suc w)
  then have "m div 16 = n div 16" by (intro Suc.IH) (simp_all add: less_mult_imp_div_less mult.commute)
  moreover have "m mod 16 = n mod 16" using Suc.prems(3) by (intro hex_digit_inj) simp_all
  ultimately show ?case by (metis mod_div_decomp)
qed simp

text \<open>Two calls with different counter values give different identities, whatever the clock says.\<close>

lemma generate_id_distinct:
  assumes "s < 2 ^ 64" and "s' < 2 ^ 64" and "s \<noteq> s'"
  shows "generate_id p t s \<noteq> generate_id p t' s'"
proof
  assume "generate_id p t s = generate_id p t' s'"
  then have "hex_digits 16 s = hex_digits 16 s'" by (simp add: generate_id_def)
  then show False using hex_digits_inj [of s 16 s'] assms by simp
qed

end
