(* ===== verification/Experience_Domain.thy ===== *)
theory Experience_Domain
  imports Conversation_Domain "HOL-Library.Char_ord" "HOL-Library.List_Lexorder"
begin

text \<open>
  Experience episodes, \<open>src-tauri/src/experience/mod.rs\<close> and \<open>experience/conversation.rs\<close>: the record
  that one persisted conversation turn took place, its validation, and how it is built from the two
  messages of the turn.
\<close>

section \<open>Records and errors\<close>

definition EPISODE_KIND :: string where "EPISODE_KIND = ''conversation_turn''"
definition SOURCE_KIND :: string where "SOURCE_KIND = ''conversation_turn''"
definition OUTCOME_KIND :: string where "OUTCOME_KIND = ''completed''"
definition COUNTERPART_SUBJECT_ID :: string where "COUNTERPART_SUBJECT_ID = ''primary_user''"
definition EPISODE_VERSION :: int where "EPISODE_VERSION = 1"

lemmas episode_constants =
  EPISODE_KIND_def SOURCE_KIND_def OUTCOME_KIND_def COUNTERPART_SUBJECT_ID_def EPISODE_VERSION_def

record experience_episode =
  ep_episode_id :: string
  ep_life_id :: string
  ep_episode_kind :: string
  ep_source_kind :: string
  ep_source_ref :: string
  ep_conversation_id :: string
  ep_turn_id :: string
  ep_counterpart_subject_id :: string
  ep_user_message_id :: string
  ep_assistant_message_id :: string
  ep_outcome_kind :: string
  ep_started_at :: string
  ep_ended_at :: string
  ep_episode_version :: int
  ep_created_at :: string

datatype experience_commit_outcome =
  ExperienceApplied experience_episode | ExperienceReplayed experience_episode

datatype experience_error_code =
    ExperienceInvalidArgument | ExperienceLifeNotFound | ExperienceSourceNotFound
  | ExperienceSourceBindingMismatch | ExperienceEpisodeConflict | ExperienceDatabaseUnavailable

record experience_error =
  xe_code :: experience_error_code
  xe_recoverable :: bool

definition experience_error_new :: "experience_error_code \<Rightarrow> experience_error" where
  "experience_error_new code =
     \<lparr>xe_code = code,
      xe_recoverable =
        (code \<in> {ExperienceLifeNotFound, ExperienceSourceNotFound, ExperienceDatabaseUnavailable})\<rparr>"

definition experience_invalid_argument :: experience_error where
  "experience_invalid_argument = experience_error_new ExperienceInvalidArgument"
definition experience_life_not_found :: experience_error where
  "experience_life_not_found = experience_error_new ExperienceLifeNotFound"
definition experience_source_not_found :: experience_error where
  "experience_source_not_found = experience_error_new ExperienceSourceNotFound"
definition experience_source_binding_mismatch :: experience_error where
  "experience_source_binding_mismatch = experience_error_new ExperienceSourceBindingMismatch"
definition experience_episode_conflict :: experience_error where
  "experience_episode_conflict = experience_error_new ExperienceEpisodeConflict"
definition experience_database :: experience_error where
  "experience_database = experience_error_new ExperienceDatabaseUnavailable"

section \<open>Validation\<close>

definition turn_source_ref :: "string \<Rightarrow> string \<Rightarrow> string" where
  "turn_source_ref conversation turn = conversation @ '':'' @ turn"

definition turn_episode_id :: "string \<Rightarrow> string \<Rightarrow> string \<Rightarrow> string" where
  "turn_episode_id life conversation turn =
     ''experience-conversation:'' @ life @ '':'' @ conversation @ '':'' @ turn"

definition episode_validate_shape :: "experience_episode \<Rightarrow> experience_error + unit" where
  "episode_validate_shape e =
     check_all
       (map (\<lambda>v. require (\<not> str_blank v) experience_invalid_argument)
          [ep_episode_id e, ep_life_id e, ep_source_ref e, ep_conversation_id e, ep_turn_id e,
           ep_counterpart_subject_id e, ep_user_message_id e, ep_assistant_message_id e,
           ep_started_at e, ep_ended_at e, ep_created_at e]
        @ [require (ep_episode_kind e = EPISODE_KIND) experience_invalid_argument,
           require (ep_source_kind e = SOURCE_KIND) experience_invalid_argument,
           require (ep_outcome_kind e = OUTCOME_KIND) experience_invalid_argument,
           require (ep_counterpart_subject_id e = COUNTERPART_SUBJECT_ID) experience_invalid_argument,
           require (ep_episode_version e = EPISODE_VERSION) experience_invalid_argument,
           require (ep_user_message_id e \<noteq> ep_assistant_message_id e) experience_invalid_argument,
           require (\<not> ep_started_at e > ep_ended_at e) experience_invalid_argument,
           require (ep_created_at e = ep_ended_at e) experience_invalid_argument])"

definition episode_validate :: "experience_episode \<Rightarrow> experience_error + unit" where
  "episode_validate e =
     try_seq (episode_validate_shape e)
     (try_seq (require (ep_source_ref e = turn_source_ref (ep_conversation_id e) (ep_turn_id e))
                experience_invalid_argument)
     (require (ep_episode_id e = turn_episode_id (ep_life_id e) (ep_conversation_id e) (ep_turn_id e))
        experience_invalid_argument))"

definition episode_shape_ok :: "experience_episode \<Rightarrow> bool" where
  "episode_shape_ok e \<longleftrightarrow>
     (\<forall>v \<in> {ep_episode_id e, ep_life_id e, ep_source_ref e, ep_conversation_id e, ep_turn_id e,
            ep_user_message_id e, ep_assistant_message_id e, ep_started_at e, ep_ended_at e}.
        \<not> str_blank v)
     \<and> ep_episode_kind e = ''conversation_turn'' \<and> ep_source_kind e = ''conversation_turn''
     \<and> ep_outcome_kind e = ''completed'' \<and> ep_counterpart_subject_id e = ''primary_user''
     \<and> ep_episode_version e = 1 \<and> ep_user_message_id e \<noteq> ep_assistant_message_id e
     \<and> ep_started_at e \<le> ep_ended_at e \<and> ep_created_at e = ep_ended_at e"

definition episode_canonical :: "experience_episode \<Rightarrow> bool" where
  "episode_canonical e \<longleftrightarrow>
     ep_source_ref e = turn_source_ref (ep_conversation_id e) (ep_turn_id e)
     \<and> ep_episode_id e = turn_episode_id (ep_life_id e) (ep_conversation_id e) (ep_turn_id e)"

lemma primary_user_not_blank: "\<not> str_blank ''primary_user''"
  by code_simp

lemma episode_validate_shape_Inr [validator_simps]:
  "episode_validate_shape e = Inr () \<longleftrightarrow> episode_shape_ok e"
  using primary_user_not_blank
  by (auto simp: episode_validate_shape_def episode_shape_ok_def check_all_Inr_iff
      episode_constants not_less)

lemma episode_validate_Inr [validator_simps]:
  "episode_validate e = Inr () \<longleftrightarrow> episode_shape_ok e \<and> episode_canonical e"
  by (auto simp: episode_validate_def try_seq_Inr_iff episode_validate_shape_Inr
      episode_canonical_def)

section \<open>Building the episode of a turn\<close>

definition valid_source_pair :: "conversation_message \<Rightarrow> conversation_message \<Rightarrow> bool" where
  "valid_source_pair u a \<longleftrightarrow>
     cm_role u = RoleUser \<and> cm_role a = RoleAssistant \<and> cm_id u \<noteq> cm_id a
     \<and> \<not> str_blank (cm_id u) \<and> \<not> str_blank (cm_id a)
     \<and> \<not> str_blank (cm_life_id u) \<and> \<not> str_blank (cm_conversation_id u)
     \<and> \<not> str_blank (cm_turn_id u) \<and> \<not> str_blank (cm_created_at u)
     \<and> \<not> str_blank (cm_created_at a)
     \<and> cm_life_id u = cm_life_id a \<and> cm_conversation_id u = cm_conversation_id a
     \<and> cm_turn_id u = cm_turn_id a \<and> cm_created_at u \<le> cm_created_at a"

definition episode_of_turn :: "conversation_message \<Rightarrow> conversation_message \<Rightarrow> experience_episode" where
  "episode_of_turn u a =
     \<lparr>ep_episode_id = turn_episode_id (cm_life_id u) (cm_conversation_id u) (cm_turn_id u),
      ep_life_id = cm_life_id u, ep_episode_kind = EPISODE_KIND, ep_source_kind = SOURCE_KIND,
      ep_source_ref = turn_source_ref (cm_conversation_id u) (cm_turn_id u),
      ep_conversation_id = cm_conversation_id u, ep_turn_id = cm_turn_id u,
      ep_counterpart_subject_id = COUNTERPART_SUBJECT_ID, ep_user_message_id = cm_id u,
      ep_assistant_message_id = cm_id a, ep_outcome_kind = OUTCOME_KIND,
      ep_started_at = cm_created_at u, ep_ended_at = cm_created_at a,
      ep_episode_version = EPISODE_VERSION, ep_created_at = cm_created_at a\<rparr>"

definition build_conversation_turn_episode ::
    "append_turn_result \<Rightarrow> experience_error + experience_episode" where
  "build_conversation_turn_episode turn =
     (let u = tr_user_message turn; a = tr_assistant_message turn in
      if \<not> valid_source_pair u a then Inl experience_source_binding_mismatch
      else let episode = episode_of_turn u a
           in try_seq (episode_validate episode) (Inr episode))"

text \<open>
  The identities of the episode contain a colon, which no trim removes, so the validation adds
  nothing to the check of the pair.
\<close>

lemma ws_no_colon:
  "list_all (\<lambda>e. CHR '':'' \<notin> set e) ws_encodings"
  "list_all (\<lambda>e. CHR '':'' \<notin> set e) (map rev ws_encodings)"
  by code_simp+

lemma not_blank_colon: "CHR '':'' \<in> set s \<Longrightarrow> \<not> str_blank s"
  using ws_no_colon by (intro not_blank_keeps [where c = "CHR '':''"]) (simp_all add: list_all_iff)

lemma turn_identities_not_blank:
  "\<not> str_blank (turn_source_ref c t)" "\<not> str_blank (turn_episode_id l c t)"
  by (rule not_blank_colon; simp add: turn_source_ref_def turn_episode_id_def)+

lemma build_conversation_turn_episode_Inr:
  "build_conversation_turn_episode turn = Inr e \<longleftrightarrow>
     valid_source_pair (tr_user_message turn) (tr_assistant_message turn)
     \<and> e = episode_of_turn (tr_user_message turn) (tr_assistant_message turn)"
proof -
  have "episode_validate (episode_of_turn u a) = Inr ()" if "valid_source_pair u a" for u a
    using that unfolding episode_validate_Inr
    by (auto simp: episode_shape_ok_def episode_canonical_def episode_of_turn_def
        valid_source_pair_def turn_identities_not_blank episode_constants)
  then show ?thesis by (auto simp: build_conversation_turn_episode_def Let_def)
qed

lemma build_conversation_turn_episode_Inl:
  "build_conversation_turn_episode turn = Inl x \<Longrightarrow> x = experience_source_binding_mismatch"
  using build_conversation_turn_episode_Inr [of turn "episode_of_turn (tr_user_message turn)
    (tr_assistant_message turn)"]
  by (auto simp: build_conversation_turn_episode_def Let_def split: if_splits)

end
