(* ===== verification/Conversation_Store.thy ===== *)
theory Conversation_Store
  imports Relationship_Ledger Experience_Domain
begin

text \<open>
  The SQLite conversation repository, \<open>src-tauri/src/storage/conversation.rs\<close>, over the tables of
  \<open>migrations/006_conversation_history.sql\<close>, and the service of \<open>conversation/history.rs\<close> that
  validates for it. The database extends the one of the emotion and relationship repositories and
  holds the episode table of migration 021 too, whose rows a deletion takes with it. \<open>io\<close> says
  which statements SQLite executes; \<open>strftime(.., 'now')\<close> is read per statement and is an argument.

  The tables of extracted memories are not in this database: that collecting and deleting their
  orphaned candidates succeeds is part of \<open>io\<close>.
\<close>

section \<open>Tables\<close>

text \<open>A row of \<open>conversation_message\<close> keeps the role as text: \<open>StoredConversationMessage\<close>.\<close>

record stored_message =
  sm_id :: string
  sm_conversation_id :: string
  sm_life_id :: string
  sm_turn_id :: string
  sm_role :: string
  sm_content :: string
  sm_sequence_no :: int
  sm_created_at :: string

record conversation_db = relationship_db +
  conversation_rows :: "conversation_record list"
  message_rows :: "stored_message list"
  episode_rows :: "experience_episode list"

datatype conversation_stmt =
    ConvLock | ConvBegin | ConvSelectLife | ConvSelect | ConvInsert | ConvReload | ConvList
  | ConvUpdateTitle | ConvCollectCandidates | ConvDelete | ConvDeleteCandidates
  | ConvSelectMessages | ConvSelectTurn | ConvSelectSequence | ConvInsertUser
  | ConvInsertAssistant | ConvBumpRevision | ConvReloadTurn | ConvCount | ConvSelectMessage
  | ConvSelectUserMessage | ConvDeleteMessage | ConvInvalidateSnapshots | ConvCommit

type_synonym conversation_io = "conversation_stmt \<Rightarrow> bool"

definition storage_unavailable :: conversation_error where
  "storage_unavailable = conversation_error_new ConversationStorageUnavailable"

text \<open>The \<open>CHECK\<close>, \<open>UNIQUE\<close> and \<open>FOREIGN KEY\<close> constraints.\<close>

definition conversation_row_check :: "conversation_record \<Rightarrow> bool" where
  "conversation_row_check c \<longleftrightarrow>
     1 \<le> sql_length (sql_trim (cv_title c)) \<and> sql_length (sql_trim (cv_title c)) \<le> 120
     \<and> 0 \<le> cv_revision c"

definition conversation_insert ::
    "conversation_record \<Rightarrow> 'a conversation_db_scheme
     \<Rightarrow> sql_constraint + 'a conversation_db_scheme" where
  "conversation_insert c db =
     (if \<not> conversation_row_check c then Inl SqlCheckFailed
      else if cv_id c \<in> set (map cv_id (conversation_rows db)) then Inl SqlUniqueFailed
      else if cv_life_id c \<notin> set (life_identity db) then Inl SqlForeignKeyFailed
      else Inr (db\<lparr>conversation_rows := conversation_rows db @ [c]\<rparr>))"

definition message_row_check :: "stored_message \<Rightarrow> bool" where
  "message_row_check m \<longleftrightarrow>
     0 < sql_length (sql_trim (sm_turn_id m))
     \<and> sm_role m \<in> {''user'', ''assistant''}
     \<and> 0 < sql_length (sql_trim (sm_content m)) \<and> sql_length (sm_content m) \<le> 32000
     \<and> 0 < sm_sequence_no m"

definition message_insert ::
    "stored_message \<Rightarrow> 'a conversation_db_scheme
     \<Rightarrow> sql_constraint + 'a conversation_db_scheme" where
  "message_insert m db =
     (if \<not> message_row_check m then Inl SqlCheckFailed
      else if \<exists>r \<in> set (message_rows db).
                sm_id r = sm_id m
                \<or> (sm_conversation_id r = sm_conversation_id m
                    \<and> sm_sequence_no r = sm_sequence_no m)
                \<or> (sm_conversation_id r = sm_conversation_id m \<and> sm_turn_id r = sm_turn_id m
                    \<and> sm_role r = sm_role m)
           then Inl SqlUniqueFailed
      else if (sm_conversation_id m, sm_life_id m)
                \<notin> set (map (\<lambda>c. (cv_id c, cv_life_id c)) (conversation_rows db))
           then Inl SqlForeignKeyFailed
      else Inr (db\<lparr>message_rows := message_rows db @ [m]\<rparr>))"

section \<open>Reading\<close>

definition message_of_stored :: "stored_message \<Rightarrow> conversation_error + conversation_message" where
  "message_of_stored m =
     try_bind (role_parse (sm_role m)) (\<lambda>role.
     Inr \<lparr>cm_id = sm_id m, cm_conversation_id = sm_conversation_id m, cm_life_id = sm_life_id m,
          cm_turn_id = sm_turn_id m, cm_role = role, cm_content = sm_content m,
          cm_sequence_no = sm_sequence_no m, cm_created_at = sm_created_at m\<rparr>)"

fun collect_messages :: "stored_message list \<Rightarrow> conversation_error + conversation_message list" where
  "collect_messages [] = Inr []"
| "collect_messages (m # ms) =
     try_bind (message_of_stored m) (\<lambda>x. try_bind (collect_messages ms) (\<lambda>xs. Inr (x # xs)))"

definition select_conversation ::
    "string \<Rightarrow> 'a conversation_db_scheme \<Rightarrow> conversation_record option" where
  "select_conversation i db = find (\<lambda>c. cv_id c = i) (conversation_rows db)"

definition load_conversation ::
    "bool \<Rightarrow> string \<Rightarrow> string \<Rightarrow> 'a conversation_db_scheme
     \<Rightarrow> conversation_error + conversation_record" where
  "load_conversation ok life i db =
     (if \<not> ok then Inl storage_unavailable
      else case select_conversation i db of
             None \<Rightarrow> conversation_fail ConversationNotFound
           | Some c \<Rightarrow> if cv_life_id c \<noteq> life then conversation_fail ConversationLifeMismatch
                       else Inr c)"

definition ensure_conversation_owner ::
    "bool \<Rightarrow> string \<Rightarrow> string \<Rightarrow> 'a conversation_db_scheme \<Rightarrow> conversation_error + unit" where
  "ensure_conversation_owner ok life i db = try_bind (load_conversation ok life i db) (\<lambda>_. Inr ())"

definition ensure_life_exists ::
    "bool \<Rightarrow> string \<Rightarrow> 'a conversation_db_scheme \<Rightarrow> conversation_error + unit" where
  "ensure_life_exists ok life db =
     (if \<not> ok then Inl storage_unavailable
      else require (life \<in> set (life_identity db)) (conversation_error_new ConversationNotFound))"

definition messages_of :: "string \<Rightarrow> string \<Rightarrow> 'a conversation_db_scheme \<Rightarrow> stored_message list" where
  "messages_of life conversation db =
     filter (\<lambda>m. sm_conversation_id m = conversation \<and> sm_life_id m = life) (message_rows db)"

definition load_turn ::
    "bool \<Rightarrow> string \<Rightarrow> string \<Rightarrow> string \<Rightarrow> 'a conversation_db_scheme
     \<Rightarrow> conversation_error + append_turn_result option" where
  "load_turn ok life conversation turn db =
     (if \<not> ok then Inl storage_unavailable
      else try_bind (collect_messages (sort_key sm_sequence_no
                       (filter (\<lambda>m. sm_turn_id m = turn) (messages_of life conversation db))))
        (\<lambda>messages.
      if messages = [] then Inr None
      else if length messages \<noteq> 2 then conversation_fail IncompleteTurn
      else case (find (\<lambda>m. cm_role m = RoleUser) messages,
                 find (\<lambda>m. cm_role m = RoleAssistant) messages) of
             (Some u, Some a) \<Rightarrow>
               Inr (Some \<lparr>tr_user_message = u, tr_assistant_message = a,
                          tr_conversation_revision = 0, tr_replayed = False\<rparr>)
           | _ \<Rightarrow> conversation_fail IncompleteTurn))"

section \<open>The repository\<close>

text \<open>
  Outside a transaction every statement commits on its own: an operation returns its result and the
  database, which an error after a write leaves written.
\<close>

definition conversation_create ::
    "conversation_io \<Rightarrow> string \<Rightarrow> string \<Rightarrow> create_conversation_request
     \<Rightarrow> 'a conversation_db_scheme
     \<Rightarrow> (conversation_error + conversation_record) \<times> 'a conversation_db_scheme" where
  "conversation_create io now i r db =
     (if \<not> io ConvLock \<or> \<not> io ConvSelectLife then (Inl storage_unavailable, db)
      else if ccq_life_id r \<notin> set (life_identity db)
        then (conversation_fail ConversationNotFound, db)
      else if \<not> io ConvInsert then (Inl storage_unavailable, db)
      else case conversation_insert
                  \<lparr>cv_id = i, cv_life_id = ccq_life_id r, cv_title = ccq_title r, cv_revision = 0,
                   cv_created_at = now, cv_updated_at = now, cv_last_message_at = now\<rparr> db of
             Inl _ \<Rightarrow> (Inl storage_unavailable, db)
           | Inr db' \<Rightarrow> (load_conversation (io ConvReload) (ccq_life_id r) i db', db'))"

definition conversation_get ::
    "conversation_io \<Rightarrow> string \<Rightarrow> string \<Rightarrow> 'a conversation_db_scheme
     \<Rightarrow> conversation_error + conversation_record" where
  "conversation_get io life i db =
     (if \<not> io ConvLock then Inl storage_unavailable
      else load_conversation (io ConvSelect) life i db)"

text \<open>\<open>ORDER BY last_message_at DESC, id ASC\<close>: two stable sorts.\<close>

definition recent_first :: "conversation_record list \<Rightarrow> conversation_record list" where
  "recent_first cs = rev (sort_key cv_last_message_at (rev (sort_key cv_id cs)))"

definition conversation_list ::
    "conversation_io \<Rightarrow> string \<Rightarrow> 'a conversation_db_scheme
     \<Rightarrow> conversation_error + conversation_record list" where
  "conversation_list io life db =
     (if \<not> io ConvLock then Inl storage_unavailable
      else try_seq (ensure_life_exists (io ConvSelectLife) life db)
        (if \<not> io ConvList then Inl storage_unavailable
         else Inr (recent_first (filter (\<lambda>c. cv_life_id c = life) (conversation_rows db)))))"

definition conversation_rename ::
    "conversation_io \<Rightarrow> string \<Rightarrow> rename_conversation_request \<Rightarrow> 'a conversation_db_scheme
     \<Rightarrow> (conversation_error + conversation_record) \<times> 'a conversation_db_scheme" where
  "conversation_rename io now r db =
     (if \<not> io ConvLock then (Inl storage_unavailable, db)
      else case ensure_conversation_owner (io ConvSelect) (rcq_life_id r) (rcq_conversation_id r) db of
             Inl e \<Rightarrow> (Inl e, db)
           | Inr _ \<Rightarrow>
             (let p = (\<lambda>c. cv_id c = rcq_conversation_id r \<and> cv_life_id c = rcq_life_id r);
                  f = (\<lambda>c. c\<lparr>cv_title := rcq_title r, cv_updated_at := now\<rparr>) in
              if \<not> io ConvUpdateTitle
                 \<or> (\<exists>c \<in> set (conversation_rows db). p c \<and> \<not> conversation_row_check (f c))
              then (Inl storage_unavailable, db)
              else let db' = db\<lparr>conversation_rows := snd (sql_update p f (conversation_rows db))\<rparr>
                   in (load_conversation (io ConvReload) (rcq_life_id r) (rcq_conversation_id r) db',
                       db')))"

text \<open>
  \<open>DELETE FROM conversation\<close> with its \<open>ON DELETE CASCADE\<close>: the messages of the conversation, and
  the episodes that refer to the conversation or to one of these messages.
\<close>

definition delete_messages ::
    "(stored_message \<Rightarrow> bool) \<Rightarrow> 'a conversation_db_scheme \<Rightarrow> 'a conversation_db_scheme" where
  "delete_messages p db =
     (let gone = sm_id ` set (filter p (message_rows db)) in
      db\<lparr>message_rows := filter (\<lambda>m. \<not> p m) (message_rows db),
         episode_rows := filter (\<lambda>e. ep_user_message_id e \<notin> gone
           \<and> ep_assistant_message_id e \<notin> gone) (episode_rows db)\<rparr>)"

definition delete_conversation_rows ::
    "string \<Rightarrow> string \<Rightarrow> 'a conversation_db_scheme \<Rightarrow> nat \<times> 'a conversation_db_scheme" where
  "delete_conversation_rows life i db =
     (let p = (\<lambda>c. cv_id c = i \<and> cv_life_id c = life);
          db1 = delete_messages (\<lambda>m. \<exists>c \<in> set (filter p (conversation_rows db)).
                  cv_id c = sm_conversation_id m \<and> cv_life_id c = sm_life_id m) db
      in (length (filter p (conversation_rows db)),
          db1\<lparr>conversation_rows := filter (\<lambda>c. \<not> p c) (conversation_rows db),
              episode_rows := filter (\<lambda>e. \<not> (\<exists>c \<in> set (filter p (conversation_rows db)).
                cv_id c = ep_conversation_id e \<and> cv_life_id c = ep_life_id e)) (episode_rows db1)\<rparr>))"

definition conversation_delete_in_transaction ::
    "conversation_io \<Rightarrow> string \<Rightarrow> string \<Rightarrow> 'a conversation_db_scheme
     \<Rightarrow> conversation_error + unit \<times> 'a conversation_db_scheme" where
  "conversation_delete_in_transaction io life i db =
     try_seq (ensure_conversation_owner (io ConvSelect) life i db)
     (if \<not> io ConvCollectCandidates \<or> \<not> io ConvDelete then Inl storage_unavailable
      else let (deleted, db') = delete_conversation_rows life i db in
           if deleted \<noteq> 1 then conversation_fail ConversationNotFound
           else if \<not> io ConvDeleteCandidates then Inl storage_unavailable
           else Inr ((), db'))"

definition conversation_delete ::
    "conversation_io \<Rightarrow> string \<Rightarrow> string \<Rightarrow> 'a conversation_db_scheme
     \<Rightarrow> (conversation_error + unit) \<times> 'a conversation_db_scheme" where
  "conversation_delete io life i db =
     with_transaction (io ConvLock \<and> io ConvBegin) (io ConvCommit) storage_unavailable
       (conversation_delete_in_transaction io life i) db"

definition load_recent_messages ::
    "conversation_io \<Rightarrow> string \<Rightarrow> string \<Rightarrow> nat \<Rightarrow> 'a conversation_db_scheme
     \<Rightarrow> conversation_error + conversation_message list" where
  "load_recent_messages io life i limit db =
     (if \<not> io ConvLock then Inl storage_unavailable
      else try_seq (ensure_conversation_owner (io ConvSelect) life i db)
        (if \<not> io ConvSelectMessages then Inl storage_unavailable
         else collect_messages
           (rev (take limit (rev (sort_key sm_sequence_no (messages_of life i db)))))))"

definition load_message_page ::
    "conversation_io \<Rightarrow> conversation_page_request \<Rightarrow> 'a conversation_db_scheme
     \<Rightarrow> conversation_error + conversation_message_page" where
  "load_message_page io r db =
     (if \<not> io ConvLock then Inl storage_unavailable
      else try_seq (ensure_conversation_owner (io ConvSelect) (pq_life_id r) (pq_conversation_id r) db)
        (let after = (case pq_after_sequence_no r of None \<Rightarrow> 0 | Some v \<Rightarrow> v) in
         if \<not> io ConvSelectMessages then Inl storage_unavailable
         else try_bind (collect_messages (take (pq_limit r)
                  (filter (\<lambda>m. sm_sequence_no m > after)
                     (sort_key sm_sequence_no
                       (messages_of (pq_life_id r) (pq_conversation_id r) db))))) (\<lambda>messages.
         Inr \<lparr>mp_messages = messages,
              mp_next_after_sequence_no =
                (if messages \<noteq> [] \<and> length messages = pq_limit r
                 then Some (cm_sequence_no (last messages)) else None)\<rparr>)))"

subsection \<open>Appending a turn\<close>

text \<open>
  The identities and timestamps one append draws: \<open>generate_id\<close> twice, and the clock of each of its
  three writing statements.
\<close>

record turn_draw =
  td_user_id :: string
  td_assistant_id :: string
  td_user_now :: string
  td_assistant_now :: string
  td_touch_now :: string

definition stored_of_request ::
    "string \<Rightarrow> string \<Rightarrow> append_turn_request \<Rightarrow> conversation_role \<Rightarrow> string \<Rightarrow> int \<Rightarrow> stored_message" where
  "stored_of_request i now r role content sequence_no =
     \<lparr>sm_id = i, sm_conversation_id = aq_conversation_id r, sm_life_id = aq_life_id r,
      sm_turn_id = aq_turn_id r, sm_role = role_as_str role, sm_content = content,
      sm_sequence_no = sequence_no, sm_created_at = now\<rparr>"

definition insert_message ::
    "bool \<Rightarrow> string \<Rightarrow> string \<Rightarrow> append_turn_request \<Rightarrow> conversation_role \<Rightarrow> string \<Rightarrow> int
     \<Rightarrow> 'a conversation_db_scheme \<Rightarrow> conversation_error + 'a conversation_db_scheme" where
  "insert_message ok i now r role content sequence_no db =
     (if \<not> ok then Inl storage_unavailable
      else case message_insert (stored_of_request i now r role content sequence_no) db of
             Inl _ \<Rightarrow> Inl storage_unavailable
           | Inr db' \<Rightarrow> Inr db')"

fun max_int :: "int list \<Rightarrow> int option" where
  "max_int [] = None"
| "max_int (x # xs) = (case max_int xs of None \<Rightarrow> Some x | Some m \<Rightarrow> Some (max x m))"

text \<open>\<open>SELECT COALESCE(MAX(sequence_no), 0) + 1\<close>.\<close>

definition next_sequence :: "string \<Rightarrow> string \<Rightarrow> 'a conversation_db_scheme \<Rightarrow> int" where
  "next_sequence life i db =
     (case max_int (map sm_sequence_no (messages_of life i db)) of None \<Rightarrow> 0 | Some m \<Rightarrow> m) + 1"

definition touch_conversation :: "string \<Rightarrow> conversation_record \<Rightarrow> conversation_record" where
  "touch_conversation now c =
     c\<lparr>cv_revision := cv_revision c + 1, cv_updated_at := now, cv_last_message_at := now\<rparr>"

definition bump_conversation ::
    "string \<Rightarrow> string \<Rightarrow> string \<Rightarrow> int \<Rightarrow> 'a conversation_db_scheme
     \<Rightarrow> (nat \<times> 'a conversation_db_scheme) option" where
  "bump_conversation now life i revision db =
     (let p = (\<lambda>c. cv_id c = i \<and> cv_life_id c = life \<and> cv_revision c = revision) in
      if \<exists>c \<in> set (conversation_rows db). p c \<and> \<not> conversation_row_check (touch_conversation now c)
      then None
      else let (changed, rows) = sql_update p (touch_conversation now) (conversation_rows db)
           in Some (changed, db\<lparr>conversation_rows := rows\<rparr>))"

text \<open>The writes of a new turn, the same in every append: two messages, the revision, the reload.\<close>

definition write_turn ::
    "conversation_io \<Rightarrow> turn_draw \<Rightarrow> append_turn_request \<Rightarrow> conversation_record
     \<Rightarrow> 'a conversation_db_scheme
     \<Rightarrow> conversation_error + append_turn_result \<times> 'a conversation_db_scheme" where
  "write_turn io draw r conversation db =
     (if \<not> io ConvSelectSequence then Inl storage_unavailable
      else let next = next_sequence (aq_life_id r) (aq_conversation_id r) db in
      try_bind (insert_message (io ConvInsertUser) (td_user_id draw) (td_user_now draw) r RoleUser
                  (aq_user_content r) next db) (\<lambda>db1.
      try_bind (insert_message (io ConvInsertAssistant) (td_assistant_id draw) (td_assistant_now draw)
                  r RoleAssistant (aq_assistant_content r) (next + 1) db1) (\<lambda>db2.
      if \<not> io ConvBumpRevision then Inl storage_unavailable
      else case bump_conversation (td_touch_now draw) (aq_life_id r) (aq_conversation_id r)
                  (cv_revision conversation) db2 of
             None \<Rightarrow> Inl storage_unavailable
           | Some (updated, db3) \<Rightarrow>
             (if updated \<noteq> 1 then conversation_fail ConversationChangedDuringRequest
              else try_bind (load_turn (io ConvReloadTurn) (aq_life_id r) (aq_conversation_id r)
                               (aq_turn_id r) db3) (\<lambda>found.
                   try_bind (ok_or found (conversation_error_new ConversationInternalError)) (\<lambda>turn.
                   Inr (turn\<lparr>tr_conversation_revision := cv_revision conversation + 1\<rparr>, db3)))))))"

definition append_in_transaction ::
    "conversation_io \<Rightarrow> turn_draw \<Rightarrow> append_turn_request \<Rightarrow> 'a conversation_db_scheme
     \<Rightarrow> conversation_error + append_turn_result \<times> 'a conversation_db_scheme" where
  "append_in_transaction io draw r db =
     try_bind (load_conversation (io ConvSelect) (aq_life_id r) (aq_conversation_id r) db)
       (\<lambda>conversation.
     try_bind (load_turn (io ConvSelectTurn) (aq_life_id r) (aq_conversation_id r) (aq_turn_id r) db)
       (\<lambda>found.
     case found of
       Some existing \<Rightarrow>
         (if cm_content (tr_user_message existing) \<noteq> aq_user_content r
          then conversation_fail TurnIdConflict
          else Inr (existing\<lparr>tr_conversation_revision := cv_revision conversation,
                             tr_replayed := True\<rparr>, db))
     | None \<Rightarrow>
         (if (case aq_expected_revision r of None \<Rightarrow> False | Some v \<Rightarrow> v \<noteq> cv_revision conversation)
          then conversation_fail ConversationChangedDuringRequest
          else write_turn io draw r conversation db)))"

definition append_complete_turn ::
    "conversation_io \<Rightarrow> turn_draw \<Rightarrow> append_turn_request \<Rightarrow> 'a conversation_db_scheme
     \<Rightarrow> (conversation_error + append_turn_result) \<times> 'a conversation_db_scheme" where
  "append_complete_turn io draw r db =
     with_transaction (io ConvLock \<and> io ConvBegin) (io ConvCommit) storage_unavailable
       (append_in_transaction io draw r) db"

definition find_committed_turn ::
    "conversation_io \<Rightarrow> string \<Rightarrow> string \<Rightarrow> string \<Rightarrow> 'a conversation_db_scheme
     \<Rightarrow> conversation_error + append_turn_result option" where
  "find_committed_turn io life i turn db =
     (if \<not> io ConvLock then Inl storage_unavailable
      else try_bind (load_conversation (io ConvSelect) life i db) (\<lambda>conversation.
           try_bind (load_turn (io ConvSelectTurn) life i turn db) (\<lambda>found.
           Inr (map_option (\<lambda>t. t\<lparr>tr_conversation_revision := cv_revision conversation\<rparr>) found))))"

definition conversation_count ::
    "conversation_io \<Rightarrow> string \<Rightarrow> 'a conversation_db_scheme \<Rightarrow> conversation_error + nat" where
  "conversation_count io life db =
     (if \<not> io ConvLock then Inl storage_unavailable
      else try_seq (ensure_life_exists (io ConvSelectLife) life db)
        (if \<not> io ConvCount then Inl storage_unavailable
         else Inr (length (filter (\<lambda>c. cv_life_id c = life) (conversation_rows db)))))"

definition message_count ::
    "conversation_io \<Rightarrow> string \<Rightarrow> string \<Rightarrow> 'a conversation_db_scheme \<Rightarrow> conversation_error + nat" where
  "message_count io life i db =
     (if \<not> io ConvLock then Inl storage_unavailable
      else try_seq (ensure_conversation_owner (io ConvSelect) life i db)
        (if \<not> io ConvCount then Inl storage_unavailable
         else Inr (length (messages_of life i db))))"

subsection \<open>The governed deletion of one message\<close>

definition delete_message_in_transaction ::
    "conversation_io \<Rightarrow> string \<Rightarrow> string \<Rightarrow> string \<Rightarrow> string \<Rightarrow> 'a conversation_db_scheme
     \<Rightarrow> conversation_error + unit \<times> 'a conversation_db_scheme" where
  "delete_message_in_transaction io now life i message db =
     try_seq (ensure_conversation_owner (io ConvSelect) life i db)
     (if \<not> io ConvSelectMessage then Inl storage_unavailable
      else case find (\<lambda>m. sm_id m = message) (messages_of life i db) of
        None \<Rightarrow> conversation_fail ConversationNotFound
      | Some m \<Rightarrow>
        (if sm_role m \<noteq> ''user'' \<and> \<not> io ConvSelectUserMessage then Inl storage_unavailable
         else let selected_user_message =
                (if sm_role m = ''user'' then Some message
                 else map_option sm_id (find (\<lambda>u. sm_turn_id u = sm_turn_id m \<and> sm_role u = ''user'')
                        (messages_of life i db))) in
         if \<not> io ConvCollectCandidates \<or> \<not> io ConvDeleteMessage then Inl storage_unavailable
         else let db1 = delete_messages (\<lambda>x. sm_id x = message \<and> sm_conversation_id x = i
                          \<and> sm_life_id x = life) db;
                  p = (\<lambda>c. cv_id c = i \<and> cv_life_id c = life) in
         if \<not> io ConvBumpRevision
            \<or> (\<exists>c \<in> set (conversation_rows db1).
                  p c \<and> \<not> conversation_row_check (touch_conversation now c))
         then Inl storage_unavailable
         else let db2 = db1\<lparr>conversation_rows :=
                  snd (sql_update p (touch_conversation now) (conversation_rows db1))\<rparr> in
         if selected_user_message \<noteq> None \<and> \<not> io ConvInvalidateSnapshots then Inl storage_unavailable
         else if \<not> io ConvDeleteCandidates then Inl storage_unavailable
         else Inr ((), db2)))"

definition delete_conversation_message_governed ::
    "conversation_io \<Rightarrow> string \<Rightarrow> string \<Rightarrow> string \<Rightarrow> string \<Rightarrow> 'a conversation_db_scheme
     \<Rightarrow> (conversation_error + unit) \<times> 'a conversation_db_scheme" where
  "delete_conversation_message_governed io now life i message db =
     with_transaction (io ConvLock \<and> io ConvBegin) (io ConvCommit) storage_unavailable
       (delete_message_in_transaction io now life i message) db"

section \<open>The service\<close>

definition service_create ::
    "conversation_io \<Rightarrow> string \<Rightarrow> nat \<Rightarrow> nat \<Rightarrow> create_conversation_request
     \<Rightarrow> 'a conversation_db_scheme
     \<Rightarrow> (conversation_error + conversation_record) \<times> 'a conversation_db_scheme" where
  "service_create io now timestamp sequence r db =
     (case try_seq (conversation_validate_life_id (ccq_life_id r)) (normalize_title (ccq_title r)) of
        Inl e \<Rightarrow> (Inl e, db)
      | Inr title \<Rightarrow> conversation_create io now (generate_id ''conversation'' timestamp sequence)
                       (r\<lparr>ccq_title := title\<rparr>) db)"

definition service_get ::
    "conversation_io \<Rightarrow> string \<Rightarrow> string \<Rightarrow> 'a conversation_db_scheme
     \<Rightarrow> conversation_error + conversation_record" where
  "service_get io life i db = try_seq (validate_identifiers life i) (conversation_get io life i db)"

definition service_list ::
    "conversation_io \<Rightarrow> string \<Rightarrow> 'a conversation_db_scheme
     \<Rightarrow> conversation_error + conversation_record list" where
  "service_list io life db =
     try_seq (conversation_validate_life_id life) (conversation_list io life db)"

definition service_rename ::
    "conversation_io \<Rightarrow> string \<Rightarrow> rename_conversation_request \<Rightarrow> 'a conversation_db_scheme
     \<Rightarrow> (conversation_error + conversation_record) \<times> 'a conversation_db_scheme" where
  "service_rename io now r db =
     (case try_seq (validate_identifiers (rcq_life_id r) (rcq_conversation_id r))
             (normalize_title (rcq_title r)) of
        Inl e \<Rightarrow> (Inl e, db)
      | Inr title \<Rightarrow> conversation_rename io now (r\<lparr>rcq_title := title\<rparr>) db)"

definition service_delete ::
    "conversation_io \<Rightarrow> string \<Rightarrow> string \<Rightarrow> 'a conversation_db_scheme
     \<Rightarrow> (conversation_error + unit) \<times> 'a conversation_db_scheme" where
  "service_delete io life i db =
     (case validate_identifiers life i of
        Inl e \<Rightarrow> (Inl e, db)
      | Inr _ \<Rightarrow> conversation_delete io life i db)"

definition service_recent_messages ::
    "conversation_io \<Rightarrow> string \<Rightarrow> string \<Rightarrow> 'a conversation_db_scheme
     \<Rightarrow> conversation_error + conversation_message list" where
  "service_recent_messages io life i db =
     try_seq (validate_identifiers life i)
       (load_recent_messages io life i MAX_RECENT_CONVERSATION_MESSAGES db)"

definition service_page ::
    "conversation_io \<Rightarrow> conversation_page_request \<Rightarrow> 'a conversation_db_scheme
     \<Rightarrow> conversation_error + conversation_message_page" where
  "service_page io r db =
     try_seq (validate_identifiers (pq_life_id r) (pq_conversation_id r))
       (if pq_limit r = 0 \<or> pq_limit r > MAX_CONVERSATION_PAGE_SIZE
           \<or> (case pq_after_sequence_no r of None \<Rightarrow> False | Some v \<Rightarrow> v < 0)
        then conversation_fail InvalidConversationRequest
        else load_message_page io r db)"

definition service_append_turn ::
    "conversation_io \<Rightarrow> turn_draw \<Rightarrow> append_turn_request \<Rightarrow> 'a conversation_db_scheme
     \<Rightarrow> (conversation_error + append_turn_result) \<times> 'a conversation_db_scheme" where
  "service_append_turn io draw r db =
     (case validate_append_turn_request r of
        Inl e \<Rightarrow> (Inl e, db)
      | Inr _ \<Rightarrow> append_complete_turn io draw r db)"

definition service_find_turn ::
    "conversation_io \<Rightarrow> string \<Rightarrow> string \<Rightarrow> string \<Rightarrow> 'a conversation_db_scheme
     \<Rightarrow> conversation_error + append_turn_result option" where
  "service_find_turn io life i turn db =
     try_seq (validate_identifiers life i)
       (try_seq (validate_turn_id turn) (find_committed_turn io life i turn db))"

definition service_count_conversations ::
    "conversation_io \<Rightarrow> string \<Rightarrow> 'a conversation_db_scheme \<Rightarrow> conversation_error + nat" where
  "service_count_conversations io life db =
     try_seq (conversation_validate_life_id life) (conversation_count io life db)"

definition service_count_messages ::
    "conversation_io \<Rightarrow> string \<Rightarrow> string \<Rightarrow> 'a conversation_db_scheme \<Rightarrow> conversation_error + nat" where
  "service_count_messages io life i db =
     try_seq (validate_identifiers life i) (message_count io life i db)"

end
