(* ===== verification/Experience_Store.thy ===== *)
theory Experience_Store
  imports Conversation_Store
begin

text \<open>
  The SQLite repository of experience episodes, \<open>src-tauri/src/storage/experience_episode.rs\<close>, over
  the table and the triggers of \<open>migrations/021_experience_episode_authority.*.sql\<close>.
\<close>

datatype experience_stmt =
    ExpLock | ExpBegin | ExpSelectById | ExpSelectBySource | ExpSelectLife | ExpSelectConversation
  | ExpSelectUserMessage | ExpSelectAssistantMessage | ExpInsert | ExpSelectLatest | ExpCommit

type_synonym experience_io = "experience_stmt \<Rightarrow> bool"

section \<open>The table\<close>

definition sql_text :: "string \<Rightarrow> bool" where
  "sql_text v \<longleftrightarrow> 0 < sql_length (sql_trim v)"

definition episode_row_check :: "experience_episode \<Rightarrow> bool" where
  "episode_row_check e \<longleftrightarrow>
     sql_text (ep_episode_id e) \<and> sql_text (ep_life_id e)
     \<and> ep_episode_kind e = ''conversation_turn'' \<and> ep_source_kind e = ''conversation_turn''
     \<and> sql_text (ep_source_ref e) \<and> sql_text (ep_conversation_id e) \<and> sql_text (ep_turn_id e)
     \<and> ep_counterpart_subject_id e = ''primary_user''
     \<and> sql_text (ep_user_message_id e) \<and> sql_text (ep_assistant_message_id e)
     \<and> ep_outcome_kind e = ''completed'' \<and> sql_text (ep_started_at e) \<and> sql_text (ep_ended_at e)
     \<and> ep_episode_version e = 1 \<and> sql_text (ep_created_at e)
     \<and> ep_user_message_id e \<noteq> ep_assistant_message_id e \<and> ep_started_at e \<le> ep_ended_at e"

text \<open>The unique keys of the table; two rows clash when they share one of them.\<close>

definition episode_clash :: "experience_episode \<Rightarrow> experience_episode \<Rightarrow> bool" where
  "episode_clash a b \<longleftrightarrow>
     ep_episode_id a = ep_episode_id b
     \<or> (ep_life_id a = ep_life_id b \<and> ep_source_kind a = ep_source_kind b
         \<and> ep_source_ref a = ep_source_ref b)
     \<or> (ep_life_id a = ep_life_id b \<and> ep_conversation_id a = ep_conversation_id b
         \<and> ep_turn_id a = ep_turn_id b)
     \<or> ep_user_message_id a = ep_user_message_id b
     \<or> ep_assistant_message_id a = ep_assistant_message_id b"

text \<open>A stored message is the source of one side of an episode.\<close>

definition is_source_row :: "experience_episode \<Rightarrow> string \<Rightarrow> string \<Rightarrow> string \<Rightarrow> stored_message \<Rightarrow> bool" where
  "is_source_row e i role at m \<longleftrightarrow>
     sm_id m = i \<and> sm_conversation_id m = ep_conversation_id e \<and> sm_life_id m = ep_life_id e
     \<and> sm_turn_id m = ep_turn_id e \<and> sm_role m = role \<and> sm_created_at m = at"

text \<open>The trigger \<open>experience_episode_source_binding_guard\<close> lets the row pass.\<close>

definition episode_trigger_passes ::
    "experience_episode \<Rightarrow> 'a conversation_db_scheme \<Rightarrow> bool" where
  "episode_trigger_passes e db \<longleftrightarrow>
     ep_episode_id e = turn_episode_id (ep_life_id e) (ep_conversation_id e) (ep_turn_id e)
     \<and> ep_source_ref e = turn_source_ref (ep_conversation_id e) (ep_turn_id e)
     \<and> ep_created_at e = ep_ended_at e
     \<and> (\<exists>m \<in> set (message_rows db).
          is_source_row e (ep_user_message_id e) ''user'' (ep_started_at e) m)
     \<and> (\<exists>m \<in> set (message_rows db).
          is_source_row e (ep_assistant_message_id e) ''assistant'' (ep_ended_at e) m)"

text \<open>The insert, with the error \<open>map_insert_error\<close> makes of a refusal.\<close>

definition episode_insert ::
    "experience_episode \<Rightarrow> 'a conversation_db_scheme
     \<Rightarrow> experience_error + 'a conversation_db_scheme" where
  "episode_insert e db =
     (if \<not> episode_trigger_passes e db then Inl experience_source_binding_mismatch
      else if \<not> episode_row_check e then Inl experience_database
      else if \<exists>r \<in> set (episode_rows db). episode_clash r e then Inl experience_episode_conflict
      else if ep_life_id e \<notin> set (life_identity db)
           \<or> (ep_conversation_id e, ep_life_id e)
               \<notin> set (map (\<lambda>c. (cv_id c, cv_life_id c)) (conversation_rows db))
           \<or> ep_user_message_id e \<notin> set (map sm_id (message_rows db))
           \<or> ep_assistant_message_id e \<notin> set (map sm_id (message_rows db))
        then Inl experience_source_not_found
      else Inr (db\<lparr>episode_rows := episode_rows db @ [e]\<rparr>))"

section \<open>Committing an episode\<close>

definition select_episode :: "string \<Rightarrow> 'a conversation_db_scheme \<Rightarrow> experience_episode option" where
  "select_episode i db = find (\<lambda>e. ep_episode_id e = i) (episode_rows db)"

definition select_episode_by_source ::
    "string \<Rightarrow> string \<Rightarrow> string \<Rightarrow> 'a conversation_db_scheme \<Rightarrow> experience_episode option" where
  "select_episode_by_source life kind ref db =
     find (\<lambda>e. ep_life_id e = life \<and> ep_source_kind e = kind \<and> ep_source_ref e = ref)
       (episode_rows db)"

definition source_message_matches ::
    "stored_message \<Rightarrow> experience_episode \<Rightarrow> string \<Rightarrow> string \<Rightarrow> bool" where
  "source_message_matches m e expected_role expected_timestamp \<longleftrightarrow>
     (let expected_id = (if expected_role = ''user'' then ep_user_message_id e
                         else ep_assistant_message_id e)
      in sm_id m = expected_id \<and> sm_conversation_id m = ep_conversation_id e
         \<and> sm_life_id m = ep_life_id e \<and> sm_turn_id m = ep_turn_id e
         \<and> sm_role m = expected_role \<and> sm_created_at m = expected_timestamp)"

definition validate_canonical_binding :: "experience_episode \<Rightarrow> experience_error + unit" where
  "validate_canonical_binding e =
     require (\<not> (ep_source_ref e \<noteq> turn_source_ref (ep_conversation_id e) (ep_turn_id e)
               \<or> ep_episode_id e
                   \<noteq> turn_episode_id (ep_life_id e) (ep_conversation_id e) (ep_turn_id e)))
       experience_source_binding_mismatch"

definition validate_source_binding ::
    "experience_io \<Rightarrow> 'a conversation_db_scheme \<Rightarrow> experience_episode \<Rightarrow> experience_error + unit" where
  "validate_source_binding io db e =
     (if \<not> io ExpSelectLife then Inl experience_database
      else if ep_life_id e \<notin> set (life_identity db) then Inl experience_life_not_found
      else if \<not> io ExpSelectConversation then Inl experience_database
      else if \<not> (\<exists>c \<in> set (conversation_rows db).
                    cv_id c = ep_conversation_id e \<and> cv_life_id c = ep_life_id e)
        then Inl experience_source_not_found
      else if \<not> io ExpSelectUserMessage then Inl experience_database
      else try_bind (ok_or (find (\<lambda>m. sm_id m = ep_user_message_id e) (message_rows db))
                       experience_source_not_found) (\<lambda>user_message.
      if \<not> io ExpSelectAssistantMessage then Inl experience_database
      else try_bind (ok_or (find (\<lambda>m. sm_id m = ep_assistant_message_id e) (message_rows db))
                       experience_source_not_found) (\<lambda>assistant_message.
      require (\<not> (\<not> source_message_matches user_message e ''user'' (ep_started_at e)
                \<or> \<not> source_message_matches assistant_message e ''assistant'' (ep_ended_at e)))
        experience_source_binding_mismatch)))"

definition commit_episode_in_transaction ::
    "experience_io \<Rightarrow> experience_episode \<Rightarrow> 'a conversation_db_scheme
     \<Rightarrow> experience_error + experience_commit_outcome \<times> 'a conversation_db_scheme" where
  "commit_episode_in_transaction io e db =
     (case episode_validate_shape e of
        Inl _ \<Rightarrow> Inl experience_invalid_argument
      | Inr _ \<Rightarrow>
     (if \<not> io ExpSelectById then Inl experience_database
      else case select_episode (ep_episode_id e) db of
        Some existing \<Rightarrow>
          (if existing = e
           then try_seq (validate_canonical_binding e)
                  (try_seq (validate_source_binding io db e) (Inr (ExperienceReplayed existing, db)))
           else Inl experience_episode_conflict)
      | None \<Rightarrow>
        (if \<not> io ExpSelectBySource then Inl experience_database
         else case select_episode_by_source (ep_life_id e) (ep_source_kind e) (ep_source_ref e) db of
           Some _ \<Rightarrow> Inl experience_episode_conflict
         | None \<Rightarrow>
             try_seq (validate_canonical_binding e)
             (try_seq (validate_source_binding io db e)
             (if \<not> io ExpInsert then Inl experience_database
              else try_bind (episode_insert e db) (\<lambda>db'. Inr (ExperienceApplied e, db')))))))"

definition commit_episode ::
    "experience_io \<Rightarrow> experience_episode \<Rightarrow> 'a conversation_db_scheme
     \<Rightarrow> (experience_error + experience_commit_outcome) \<times> 'a conversation_db_scheme" where
  "commit_episode io e db =
     with_transaction (io ExpLock \<and> io ExpBegin) (io ExpCommit) experience_database
       (commit_episode_in_transaction io e) db"

section \<open>Lookups\<close>

definition experience_validate_lookup_arguments ::
    "string option \<Rightarrow> string option \<Rightarrow> string option \<Rightarrow> experience_error + unit" where
  "experience_validate_lookup_arguments life kind ref =
     check_all (map (\<lambda>v. case v of None \<Rightarrow> Inr ()
                       | Some x \<Rightarrow> require (\<not> str_blank x) experience_invalid_argument)
                  [life, kind, ref])"

definition find_episode ::
    "experience_io \<Rightarrow> string \<Rightarrow> 'a conversation_db_scheme
     \<Rightarrow> experience_error + experience_episode option" where
  "find_episode io i db =
     (if str_blank i then Inl experience_invalid_argument
      else if \<not> io ExpLock \<or> \<not> io ExpSelectById then Inl experience_database
      else Inr (select_episode i db))"

definition find_episode_by_source ::
    "experience_io \<Rightarrow> string \<Rightarrow> string \<Rightarrow> string \<Rightarrow> 'a conversation_db_scheme
     \<Rightarrow> experience_error + experience_episode option" where
  "find_episode_by_source io life kind ref db =
     try_seq (experience_validate_lookup_arguments (Some life) (Some kind) (Some ref))
       (if \<not> io ExpLock \<or> \<not> io ExpSelectBySource then Inl experience_database
        else Inr (select_episode_by_source life kind ref db))"

text \<open>\<open>ORDER BY ended_at DESC, episode_id DESC LIMIT 1\<close>.\<close>

definition select_latest_episode ::
    "string \<Rightarrow> 'a conversation_db_scheme \<Rightarrow> experience_episode option" where
  "select_latest_episode life db =
     (case rev (sort_key ep_ended_at (sort_key ep_episode_id
             (filter (\<lambda>e. ep_life_id e = life) (episode_rows db)))) of
        [] \<Rightarrow> None
      | e # _ \<Rightarrow> Some e)"

definition find_latest_episode_for_life ::
    "experience_io \<Rightarrow> string \<Rightarrow> 'a conversation_db_scheme
     \<Rightarrow> experience_error + experience_episode option" where
  "find_latest_episode_for_life io life db =
     try_seq (experience_validate_lookup_arguments (Some life) None None)
       (if \<not> io ExpLock \<or> \<not> io ExpSelectLatest then Inl experience_database
        else Inr (select_latest_episode life db))"

section \<open>Outcomes\<close>

lemma episode_insert_Inr:
  "episode_insert e db = Inr db' \<longleftrightarrow>
     episode_trigger_passes e db \<and> episode_row_check e
     \<and> (\<forall>r \<in> set (episode_rows db). \<not> episode_clash r e)
     \<and> ep_life_id e \<in> set (life_identity db)
     \<and> (ep_conversation_id e, ep_life_id e)
         \<in> (\<lambda>c. (cv_id c, cv_life_id c)) ` set (conversation_rows db)
     \<and> ep_user_message_id e \<in> sm_id ` set (message_rows db)
     \<and> ep_assistant_message_id e \<in> sm_id ` set (message_rows db)
     \<and> db' = db\<lparr>episode_rows := episode_rows db @ [e]\<rparr>"
  by (auto simp: episode_insert_def)

lemma commit_episode_cases:
  assumes "commit_episode_in_transaction io e db = Inr (out, db')"
  obtains
    (replayed) "out = ExperienceReplayed e" "db' = db" "e \<in> set (episode_rows db)"
      "validate_source_binding io db e = Inr ()"
  | (applied) "out = ExperienceApplied e" "episode_insert e db = Inr db'"
      "db' = db\<lparr>episode_rows := episode_rows db @ [e]\<rparr>"
proof -
  from assms have "episode_validate_shape e = Inr ()"
    by (auto simp: commit_episode_in_transaction_def split: sum.splits)
  with assms consider "out = ExperienceReplayed e" "db' = db"
      "select_episode (ep_episode_id e) db = Some e" "validate_source_binding io db e = Inr ()"
    | "out = ExperienceApplied e" "episode_insert e db = Inr db'"
    by (auto simp: commit_episode_in_transaction_def try_seq_Inr_iff try_bind_Inr_iff
        split: if_splits option.splits)
  then show ?thesis
  proof cases
    case 1
    then have "e \<in> set (episode_rows db)"
      by (auto simp: select_episode_def dest: find_Some_mem)
    with 1 show ?thesis by (intro replayed)
  next
    case 2
    then show ?thesis by (intro applied) (auto simp: episode_insert_Inr)
  qed
qed

end
