(* ===== verification/Turn_Commit.thy ===== *)
theory Turn_Commit
  imports Experience_Store
begin

text \<open>
  The governed conversation turn: one transaction that commits the two messages of a turn with its
  emotion event, its relationship event and its experience episode. The three layers are
  \<open>src-tauri/src/storage/conversation_emotion.rs\<close>, \<open>conversation_relationship.rs\<close> and
  \<open>conversation_experience.rs\<close>; each calls the one before it in the caller's transaction.
\<close>

section \<open>Statements, clocks and errors\<close>

datatype turn_stmt =
    TurnLock | TurnBegin | TurnCommit
  | TurnPriorTurn | TurnPriorEmotion | TurnPriorRelationship | TurnEmotionExists
  | TurnConv conversation_stmt | TurnEmo emotion_stmt | TurnRel relationship_stmt
  | TurnExp experience_stmt

type_synonym turn_io = "turn_stmt \<Rightarrow> bool"

text \<open>What a governed turn draws: identities and clock readings of its statements.\<close>

record governed_draw =
  gd_turn :: turn_draw
  gd_emotion_now :: string
  gd_relationship_now :: string

datatype emotion_turn_error =
    EtConversation conversation_error | EtEmotion emotion_error
  | EtBindingMismatch | EtEmotionEventMissing

datatype relationship_turn_error =
    RtConversation conversation_error | RtEmotion emotion_error | RtRelationship relationship_error
  | RtEmotionBindingMismatch | RtRelationshipBindingMismatch
  | RtEmotionEventMissing | RtRelationshipEventMissing

datatype governed_turn_error =
    GtConversation conversation_error | GtEmotion emotion_error | GtRelationship relationship_error
  | GtExperience experience_error
  | GtEmotionBindingMismatch | GtRelationshipBindingMismatch
  | GtEmotionEventMissing | GtRelationshipEventMissing | GtExperienceEpisodeMissing

fun relationship_turn_error_of :: "emotion_turn_error \<Rightarrow> relationship_turn_error" where
  "relationship_turn_error_of (EtConversation e) = RtConversation e"
| "relationship_turn_error_of (EtEmotion e) = RtEmotion e"
| "relationship_turn_error_of EtBindingMismatch = RtEmotionBindingMismatch"
| "relationship_turn_error_of EtEmotionEventMissing = RtEmotionEventMissing"

fun governed_turn_error_of :: "relationship_turn_error \<Rightarrow> governed_turn_error" where
  "governed_turn_error_of (RtConversation e) = GtConversation e"
| "governed_turn_error_of (RtEmotion e) = GtEmotion e"
| "governed_turn_error_of (RtRelationship e) = GtRelationship e"
| "governed_turn_error_of RtEmotionBindingMismatch = GtEmotionBindingMismatch"
| "governed_turn_error_of RtRelationshipBindingMismatch = GtRelationshipBindingMismatch"
| "governed_turn_error_of RtEmotionEventMissing = GtEmotionEventMissing"
| "governed_turn_error_of RtRelationshipEventMissing = GtRelationshipEventMissing"

section \<open>Canonical identities and bindings\<close>

definition CONVERSATION_EMOTION_SOURCE_KIND :: string where
  "CONVERSATION_EMOTION_SOURCE_KIND = ''conversation_turn''"

definition conversation_emotion_source_ref :: "string \<Rightarrow> string \<Rightarrow> string" where
  "conversation_emotion_source_ref conversation turn = conversation @ '':'' @ turn"

definition conversation_emotion_event_id :: "string \<Rightarrow> string \<Rightarrow> string \<Rightarrow> string" where
  "conversation_emotion_event_id life conversation turn =
     ''conversation-emotion:'' @ life @ '':'' @ conversation @ '':'' @ turn"

definition validate_emotion_binding ::
    "append_turn_request \<Rightarrow> emotion_transition \<Rightarrow> emotion_turn_error + unit" where
  "validate_emotion_binding r t =
     check_all
       [require (\<not> et_life_id t \<noteq> aq_life_id r) EtBindingMismatch,
        require (\<not> esrc_kind (et_source t) \<noteq> CONVERSATION_EMOTION_SOURCE_KIND) EtBindingMismatch,
        require (\<not> esrc_reference (et_source t)
                   \<noteq> conversation_emotion_source_ref (aq_conversation_id r) (aq_turn_id r))
          EtBindingMismatch,
        require (\<not> et_event_id t
                   \<noteq> conversation_emotion_event_id (aq_life_id r) (aq_conversation_id r) (aq_turn_id r))
          EtBindingMismatch]"

definition CONVERSATION_RELATIONSHIP_SOURCE_KIND :: string where
  "CONVERSATION_RELATIONSHIP_SOURCE_KIND = ''conversation_turn''"

definition CONVERSATION_RELATIONSHIP_CHANGE_REASON :: string where
  "CONVERSATION_RELATIONSHIP_CHANGE_REASON = ''successful_interaction''"

definition conversation_relationship_source_ref :: "string \<Rightarrow> string \<Rightarrow> string" where
  "conversation_relationship_source_ref conversation turn = conversation @ '':'' @ turn"

definition conversation_relationship_event_id ::
    "string \<Rightarrow> string \<Rightarrow> string \<Rightarrow> string \<Rightarrow> string" where
  "conversation_relationship_event_id life subject conversation turn =
     ''conversation-relationship:'' @ life @ '':'' @ subject @ '':'' @ conversation @ '':'' @ turn"

definition validate_relationship_binding ::
    "append_turn_request \<Rightarrow> relationship_transition \<Rightarrow> relationship_turn_error + unit" where
  "validate_relationship_binding r t =
     check_all (map (\<lambda>b. require b RtRelationshipBindingMismatch)
       [\<not> rt_life_id t \<noteq> aq_life_id r,
        \<not> rt_subject_id t \<noteq> PRIMARY_USER_SUBJECT_ID,
        \<not> rsrc_kind (rt_source t) \<noteq> CONVERSATION_RELATIONSHIP_SOURCE_KIND,
        \<not> rsrc_reference (rt_source t)
          \<noteq> conversation_relationship_source_ref (aq_conversation_id r) (aq_turn_id r),
        \<not> rt_event_id t
          \<noteq> conversation_relationship_event_id (aq_life_id r) PRIMARY_USER_SUBJECT_ID
              (aq_conversation_id r) (aq_turn_id r),
        \<not> rt_change_reason t \<noteq> CONVERSATION_RELATIONSHIP_CHANGE_REASON])"

definition validate_governed_turn ::
    "append_turn_request \<Rightarrow> emotion_transition \<Rightarrow> relationship_transition
     \<Rightarrow> relationship_turn_error + unit" where
  "validate_governed_turn r et rt =
     try_seq (map_err RtConversation (validate_append_turn_request r))
     (try_seq (map_err (\<lambda>_. RtEmotionBindingMismatch) (validate_emotion_binding r et))
     (validate_relationship_binding r rt))"

section \<open>Conversation and emotion\<close>

definition emotion_event_exists ::
    "string \<Rightarrow> string \<times> string \<times> string \<Rightarrow> 'a emotion_db_scheme \<Rightarrow> bool" where
  "emotion_event_exists i k db \<longleftrightarrow>
     (\<exists>e \<in> set (emotion_event_rows db). ev_event_id e = i \<or> emotion_event_source_key e = k)"

definition append_with_emotion_in_transaction ::
    "turn_io \<Rightarrow> governed_draw \<Rightarrow> append_turn_request \<Rightarrow> emotion_transition
     \<Rightarrow> 'a conversation_db_scheme
     \<Rightarrow> emotion_turn_error
        + (append_turn_result \<times> emotion_commit_outcome) \<times> 'a conversation_db_scheme" where
  "append_with_emotion_in_transaction io draw r t db =
     try_bind (map_err EtConversation
       (load_conversation (io (TurnConv ConvSelect)) (aq_life_id r) (aq_conversation_id r) db))
       (\<lambda>stored.
     try_bind (map_err EtConversation
       (load_turn (io (TurnConv ConvSelectTurn)) (aq_life_id r) (aq_conversation_id r) (aq_turn_id r)
          db)) (\<lambda>found.
     case found of
       Some existing \<Rightarrow>
         (if cm_content (tr_user_message existing) \<noteq> aq_user_content r
          then Inl (EtConversation (conversation_error_new TurnIdConflict))
          else if \<not> io TurnEmotionExists then Inl (EtConversation storage_unavailable)
          else if \<not> emotion_event_exists (et_event_id t)
                     (et_life_id t, esrc_kind (et_source t), esrc_reference (et_source t)) db
          then Inl EtEmotionEventMissing
          else try_bind (map_err EtEmotion
                 (emotion_commit_in_transaction (\<lambda>s. io (TurnEmo s)) (gd_emotion_now draw) t db))
               (\<lambda>(emotion, db').
               Inr ((existing\<lparr>tr_conversation_revision := cv_revision stored, tr_replayed := True\<rparr>,
                     emotion), db')))
     | None \<Rightarrow>
         (if (case aq_expected_revision r of None \<Rightarrow> False | Some v \<Rightarrow> v \<noteq> cv_revision stored)
          then Inl (EtConversation (conversation_error_new ConversationChangedDuringRequest))
          else try_bind (map_err EtEmotion
                 (emotion_commit_in_transaction (\<lambda>s. io (TurnEmo s)) (gd_emotion_now draw) t db))
               (\<lambda>(emotion, db1).
               try_bind (map_err EtConversation
                 (write_turn (\<lambda>s. io (TurnConv s)) (gd_turn draw) r stored db1)) (\<lambda>(turn, db2).
               Inr ((turn, emotion), db2))))))"

definition append_complete_turn_with_emotion ::
    "turn_io \<Rightarrow> governed_draw \<Rightarrow> append_turn_request \<Rightarrow> emotion_transition
     \<Rightarrow> 'a conversation_db_scheme
     \<Rightarrow> (emotion_turn_error + append_turn_result \<times> emotion_commit_outcome)
        \<times> 'a conversation_db_scheme" where
  "append_complete_turn_with_emotion io draw r t db =
     (case try_seq (map_err EtConversation (validate_append_turn_request r))
             (validate_emotion_binding r t) of
        Inl e \<Rightarrow> (Inl e, db)
      | Inr _ \<Rightarrow>
          with_transaction (io TurnLock \<and> io TurnBegin) (io TurnCommit)
            (EtConversation storage_unavailable)
            (append_with_emotion_in_transaction io draw r t) db)"

section \<open>Conversation, emotion and relationship\<close>

definition relationship_event_exists ::
    "relationship_transition \<Rightarrow> 'a relationship_db_scheme \<Rightarrow> bool" where
  "relationship_event_exists t db \<longleftrightarrow>
     (\<exists>e \<in> set (relationship_event_rows db). rv_event_id e = rt_event_id t
        \<or> (rv_life_id e = rt_life_id t \<and> rv_subject_id e = rt_subject_id t
            \<and> rv_source_kind e = rsrc_kind (rt_source t)
            \<and> rv_source_ref e = rsrc_reference (rt_source t)))"

text \<open>What an existing turn must show before any writer runs.\<close>

definition check_prior_turn ::
    "turn_io \<Rightarrow> append_turn_request \<Rightarrow> relationship_transition \<Rightarrow> 'a conversation_db_scheme
     \<Rightarrow> relationship_turn_error + unit" where
  "check_prior_turn io r rt db =
     try_bind (map_err RtConversation
       (load_turn (io TurnPriorTurn) (aq_life_id r) (aq_conversation_id r) (aq_turn_id r) db))
       (\<lambda>found.
     case found of
       None \<Rightarrow> Inr ()
     | Some existing \<Rightarrow>
         (if cm_content (tr_user_message existing) \<noteq> aq_user_content r
          then Inl (RtConversation (conversation_error_new TurnIdConflict))
          else if \<not> io TurnPriorEmotion then Inl (RtConversation storage_unavailable)
          else if \<not> emotion_event_exists
                     (conversation_emotion_event_id (aq_life_id r) (aq_conversation_id r) (aq_turn_id r))
                     (aq_life_id r, CONVERSATION_EMOTION_SOURCE_KIND,
                      conversation_emotion_source_ref (aq_conversation_id r) (aq_turn_id r)) db
          then Inl RtEmotionEventMissing
          else if \<not> io TurnPriorRelationship then Inl (RtConversation storage_unavailable)
          else if \<not> relationship_event_exists rt db then Inl RtRelationshipEventMissing
          else Inr ()))"

definition append_with_emotion_and_relationship_in_transaction ::
    "turn_io \<Rightarrow> governed_draw \<Rightarrow> append_turn_request \<Rightarrow> emotion_transition
     \<Rightarrow> relationship_transition \<Rightarrow> 'a conversation_db_scheme
     \<Rightarrow> relationship_turn_error
        + (append_turn_result \<times> emotion_commit_outcome \<times> relationship_commit_outcome)
          \<times> 'a conversation_db_scheme" where
  "append_with_emotion_and_relationship_in_transaction io draw r et rt db =
     try_seq (check_prior_turn io r rt db)
     (try_bind (map_err relationship_turn_error_of
        (append_with_emotion_in_transaction io draw r et db)) (\<lambda>((turn, emotion), db1).
      try_bind (map_err RtRelationship
        (relationship_commit_in_transaction (\<lambda>s. io (TurnRel s)) (gd_relationship_now draw) rt db1))
        (\<lambda>(relationship, db2).
      Inr ((turn, emotion, relationship), db2))))"

definition append_complete_turn_with_emotion_and_relationship ::
    "turn_io \<Rightarrow> governed_draw \<Rightarrow> append_turn_request \<Rightarrow> emotion_transition
     \<Rightarrow> relationship_transition \<Rightarrow> 'a conversation_db_scheme
     \<Rightarrow> (relationship_turn_error
         + append_turn_result \<times> emotion_commit_outcome \<times> relationship_commit_outcome)
        \<times> 'a conversation_db_scheme" where
  "append_complete_turn_with_emotion_and_relationship io draw r et rt db =
     (case validate_governed_turn r et rt of
        Inl e \<Rightarrow> (Inl e, db)
      | Inr _ \<Rightarrow>
          with_transaction (io TurnLock \<and> io TurnBegin) (io TurnCommit)
            (RtConversation storage_unavailable)
            (append_with_emotion_and_relationship_in_transaction io draw r et rt) db)"

section \<open>The four domains\<close>

record governed_outcome =
  go_turn :: append_turn_result
  go_emotion :: emotion_commit_outcome
  go_relationship :: relationship_commit_outcome
  go_experience :: experience_commit_outcome

fun experience_fresh :: "experience_commit_outcome \<Rightarrow> bool" where
  "experience_fresh (ExperienceApplied _) = True"
| "experience_fresh (ExperienceReplayed _) = False"

definition governed_turn_in_transaction ::
    "turn_io \<Rightarrow> governed_draw \<Rightarrow> append_turn_request \<Rightarrow> emotion_transition
     \<Rightarrow> relationship_transition \<Rightarrow> 'a conversation_db_scheme
     \<Rightarrow> governed_turn_error + governed_outcome \<times> 'a conversation_db_scheme" where
  "governed_turn_in_transaction io draw r et rt db =
     try_bind (map_err governed_turn_error_of
       (append_with_emotion_and_relationship_in_transaction io draw r et rt db))
       (\<lambda>((turn, emotion, relationship), db1).
     try_bind (map_err GtExperience (build_conversation_turn_episode turn)) (\<lambda>episode.
     try_bind (map_err GtExperience
       (commit_episode_in_transaction (\<lambda>s. io (TurnExp s)) episode db1)) (\<lambda>(experience, db2).
     if tr_replayed turn \<and> experience_fresh experience then Inl GtExperienceEpisodeMissing
     else Inr (\<lparr>go_turn = turn, go_emotion = emotion, go_relationship = relationship,
                go_experience = experience\<rparr>, db2))))"

definition commit_governed_turn ::
    "turn_io \<Rightarrow> governed_draw \<Rightarrow> append_turn_request \<Rightarrow> emotion_transition
     \<Rightarrow> relationship_transition \<Rightarrow> 'a conversation_db_scheme
     \<Rightarrow> (governed_turn_error + governed_outcome) \<times> 'a conversation_db_scheme" where
  "commit_governed_turn io draw r et rt db =
     (case map_err governed_turn_error_of (validate_governed_turn r et rt) of
        Inl e \<Rightarrow> (Inl e, db)
      | Inr _ \<Rightarrow>
          with_transaction (io TurnLock \<and> io TurnBegin) (io TurnCommit)
            (GtConversation storage_unavailable)
            (governed_turn_in_transaction io draw r et rt) db)"

end
