(* ===== verification/Conversation_Ledger.thy ===== *)
theory Conversation_Ledger
  imports Turn_Commit
begin

text \<open>
  What the conversation tables keep: the log of a conversation is a list of complete turns, one user
  and one assistant message each, numbered from one, and its revision counts them. Every operation
  of the repository keeps this, and an append adds exactly one turn.
\<close>

section \<open>The log of a conversation\<close>

fun paired :: "stored_message list \<Rightarrow> bool" where
  "paired [] = True"
| "paired [m] = False"
| "paired (u # a # ms) =
     (sm_role u = ''user'' \<and> sm_role a = ''assistant'' \<and> sm_turn_id u = sm_turn_id a \<and> paired ms)"

definition conversation_log :: "string \<Rightarrow> 'a conversation_db_scheme \<Rightarrow> stored_message list" where
  "conversation_log i db = filter (\<lambda>m. sm_conversation_id m = i) (message_rows db)"

definition log_ok :: "int \<Rightarrow> stored_message list \<Rightarrow> bool" where
  "log_ok n ms \<longleftrightarrow>
     0 \<le> n \<and> map sm_sequence_no ms = [1..2 * n] \<and> paired ms
     \<and> distinct (map (\<lambda>m. (sm_turn_id m, sm_role m)) ms)"

definition conversation_inv :: "'a conversation_db_scheme \<Rightarrow> bool" where
  "conversation_inv db \<longleftrightarrow>
     distinct (map cv_id (conversation_rows db))
     \<and> (\<forall>c \<in> set (conversation_rows db). cv_life_id c \<in> set (life_identity db)
          \<and> conversation_row_check c \<and> log_ok (cv_revision c) (conversation_log (cv_id c) db))
     \<and> distinct (map sm_id (message_rows db))
     \<and> (\<forall>m \<in> set (message_rows db). (sm_conversation_id m, sm_life_id m)
          \<in> (\<lambda>c. (cv_id c, cv_life_id c)) ` set (conversation_rows db))"

lemma paired_role: "paired ms \<Longrightarrow> m \<in> set ms \<Longrightarrow> sm_role m \<in> {''user'', ''assistant''}"
  by (induction ms rule: paired.induct) auto

lemma paired_append: "paired ms \<Longrightarrow> paired (ms @ ns) \<longleftrightarrow> paired ns"
  by (induction ms rule: paired.induct) auto

lemma paired_turn:
  assumes "paired ms" and "distinct (map (\<lambda>m. (sm_turn_id m, sm_role m)) ms)"
  shows "filter (\<lambda>m. sm_turn_id m = t) ms = []
    \<or> (\<exists>u a. filter (\<lambda>m. sm_turn_id m = t) ms = [u, a]
          \<and> sm_role u = ''user'' \<and> sm_role a = ''assistant'')"
  using assms
proof (induction ms rule: paired.induct)
  case (3 u a ms)
  show ?case
  proof (cases "sm_turn_id u = t")
    case True
    have "sm_turn_id m \<noteq> t" if "m \<in> set ms" for m
    proof -
      from 3(2) have "sm_role m \<in> {sm_role u, sm_role a}"
        using paired_role [of ms m] that by simp
      moreover have "(sm_turn_id m, sm_role m) \<noteq> (sm_turn_id u, sm_role u)"
          "(sm_turn_id m, sm_role m) \<noteq> (sm_turn_id a, sm_role a)"
        using 3(3) that by (auto simp: image_iff)
      ultimately show ?thesis using True 3(2) by auto
    qed
    then have "filter (\<lambda>m. sm_turn_id m = t) ms = []" by (simp add: filter_empty_conv)
    with True 3(2) show ?thesis by simp
  next
    case False
    with 3 show ?thesis by simp
  qed
qed simp_all

lemma sorted_log: "map f ms = [a..b::int] \<Longrightarrow> sort_key f ms = ms"
proof (rule sort_key_id_if_sorted)
  assume "map f ms = [a..b]"
  then show "sorted (map f ms)" by simp
qed

lemma max_int_upto: "max_int [1..n] = (if n < 1 then None else Some n)"
proof -
  have "max_int [m..n] = (if n < m then None else Some n)" for m
  proof (induction "nat (n - m + 1)" arbitrary: m)
    case 0
    then show ?case by simp
  next
    case (Suc k)
    then have "m \<le> n" "max_int [m + 1..n] = (if n < m + 1 then None else Some n)" by simp_all
    then show ?case by (auto simp: upto_rec1 max_def)
  qed
  then show ?thesis .
qed

section \<open>Reading a log\<close>

definition message_view :: "stored_message \<Rightarrow> conversation_message" where
  "message_view m =
     \<lparr>cm_id = sm_id m, cm_conversation_id = sm_conversation_id m, cm_life_id = sm_life_id m,
      cm_turn_id = sm_turn_id m,
      cm_role = (if sm_role m = ''user'' then RoleUser else RoleAssistant),
      cm_content = sm_content m, cm_sequence_no = sm_sequence_no m,
      cm_created_at = sm_created_at m\<rparr>"

lemma message_view_simps [simp]:
  "cm_id (message_view m) = sm_id m" "cm_conversation_id (message_view m) = sm_conversation_id m"
  "cm_life_id (message_view m) = sm_life_id m" "cm_turn_id (message_view m) = sm_turn_id m"
  "cm_content (message_view m) = sm_content m"
  "cm_sequence_no (message_view m) = sm_sequence_no m"
  "cm_created_at (message_view m) = sm_created_at m"
  "cm_role (message_view m) = (if sm_role m = ''user'' then RoleUser else RoleAssistant)"
  by (simp_all add: message_view_def)

lemma collect_messages_view:
  "(\<And>m. m \<in> set ms \<Longrightarrow> sm_role m \<in> {''user'', ''assistant''}) \<Longrightarrow>
   collect_messages ms = Inr (map message_view ms)"
  by (induction ms) (auto simp: message_of_stored_def role_parse_def message_view_def)

lemma conversation_inv_row:
  assumes "conversation_inv db" and "select_conversation i db = Some c"
  shows "c \<in> set (conversation_rows db)" and "cv_id c = i"
    and "log_ok (cv_revision c) (conversation_log i db)"
    and "cv_life_id c \<in> set (life_identity db)" and "conversation_row_check c"
  using assms by (auto simp: select_conversation_def conversation_inv_def dest!: find_Some_mem)

lemma select_conversation_iff:
  assumes "conversation_inv db"
  shows "select_conversation i db = Some c \<longleftrightarrow> c \<in> set (conversation_rows db) \<and> cv_id c = i"
  using find_key_SomeI [of cv_id "conversation_rows db" c i] assms
  by (auto simp: select_conversation_def conversation_inv_def dest: find_Some_mem)

lemma load_conversation_Inr:
  "load_conversation ok life i db = Inr c \<longleftrightarrow>
     ok \<and> select_conversation i db = Some c \<and> cv_life_id c = life"
  by (auto simp: load_conversation_def split: option.splits if_splits)

lemma messages_of_log:
  assumes inv: "conversation_inv db" and c: "select_conversation i db = Some c"
  shows "messages_of (cv_life_id c) i db = conversation_log i db"
proof -
  have "sm_life_id m = cv_life_id c"
    if "m \<in> set (message_rows db)" "sm_conversation_id m = i" for m
  proof -
    from inv that obtain d where "d \<in> set (conversation_rows db)" "cv_id d = i"
        "cv_life_id d = sm_life_id m"
      by (force simp: conversation_inv_def image_iff)
    with c show ?thesis using select_conversation_iff [OF inv, of i d] by simp
  qed
  then show ?thesis
    unfolding messages_of_def conversation_log_def by (intro filter_cong) auto
qed

lemma messages_of_unknown:
  assumes inv: "conversation_inv db" and "\<And>c. select_conversation i db = Some c \<Longrightarrow> cv_life_id c \<noteq> life"
  shows "messages_of life i db = []"
proof -
  have False if "m \<in> set (message_rows db)" "sm_conversation_id m = i" "sm_life_id m = life" for m
  proof -
    from inv that obtain d where "d \<in> set (conversation_rows db)" "cv_id d = i" "cv_life_id d = life"
      by (force simp: conversation_inv_def image_iff)
    with assms(2) show ?thesis using select_conversation_iff [OF inv, of i d] by blast
  qed
  then show ?thesis by (auto simp: messages_of_def filter_empty_conv)
qed

definition turn_messages :: "string \<Rightarrow> string \<Rightarrow> 'a conversation_db_scheme \<Rightarrow> stored_message list" where
  "turn_messages i t db = filter (\<lambda>m. sm_turn_id m = t) (conversation_log i db)"

definition turn_view :: "stored_message \<Rightarrow> stored_message \<Rightarrow> append_turn_result" where
  "turn_view u a =
     \<lparr>tr_user_message = message_view u, tr_assistant_message = message_view a,
      tr_conversation_revision = 0, tr_replayed = False\<rparr>"

lemma turn_messages_cases:
  assumes inv: "conversation_inv db" and c: "select_conversation i db = Some c"
  obtains (none) "turn_messages i t db = []"
  | (turn) u a where "turn_messages i t db = [u, a]" "sm_role u = ''user''"
      "sm_role a = ''assistant''"
  using paired_turn [of "conversation_log i db" t] conversation_inv_row(3) [OF assms]
  by (auto simp: turn_messages_def log_ok_def)

lemma load_turn_eq:
  assumes inv: "conversation_inv db" and c: "select_conversation i db = Some c"
  shows "load_turn True (cv_life_id c) i t db =
    (case turn_messages i t db of [u, a] \<Rightarrow> Inr (Some (turn_view u a)) | _ \<Rightarrow> Inr None)"
proof -
  note ok = conversation_inv_row(3) [OF assms]
  have seqs: "map sm_sequence_no (conversation_log i db) = [1..2 * cv_revision c]"
    using ok by (simp add: log_ok_def)
  have "sorted (map sm_sequence_no (turn_messages i t db))"
    unfolding turn_messages_def
    by (rule sorted_filter) (simp add: seqs)
  then have "sort_key sm_sequence_no (turn_messages i t db) = turn_messages i t db"
    by (rule sort_key_id_if_sorted)
  then have "load_turn True (cv_life_id c) i t db =
      try_bind (collect_messages (turn_messages i t db)) (\<lambda>messages.
        if messages = [] then Inr None
        else if length messages \<noteq> 2 then conversation_fail IncompleteTurn
        else case (find (\<lambda>m. cm_role m = RoleUser) messages,
                   find (\<lambda>m. cm_role m = RoleAssistant) messages) of
             (Some u, Some a) \<Rightarrow>
               Inr (Some \<lparr>tr_user_message = u, tr_assistant_message = a,
                          tr_conversation_revision = 0, tr_replayed = False\<rparr>)
           | _ \<Rightarrow> conversation_fail IncompleteTurn)"
    by (simp add: load_turn_def messages_of_log [OF assms] turn_messages_def [symmetric])
  also have "\<dots> = (case turn_messages i t db of [u, a] \<Rightarrow> Inr (Some (turn_view u a)) | _ \<Rightarrow> Inr None)"
    using assms
  proof (cases rule: turn_messages_cases [where t = t])
    case none
    then show ?thesis by simp
  next
    case (turn u a)
    then show ?thesis by (subst collect_messages_view) (auto simp: turn_view_def)
  qed
  finally show ?thesis .
qed

lemma load_turn_None:
  assumes "conversation_inv db" and "select_conversation i db = Some c"
    and "load_turn ok (cv_life_id c) i t db = Inr None"
  shows "turn_messages i t db = []"
proof -
  from assms(3) have ok by (auto simp: load_turn_def split: if_splits)
  with assms(3) load_turn_eq [OF assms(1,2)] have
    "(case turn_messages i t db of [u, a] \<Rightarrow> Inr (Some (turn_view u a)) | _ \<Rightarrow> Inr None)
      = (Inr None :: conversation_error + append_turn_result option)" by simp
  with assms(1,2) show ?thesis by (cases rule: turn_messages_cases [where t = t]) auto
qed

lemma load_turn_Some:
  assumes "conversation_inv db" and "select_conversation i db = Some c"
    and "load_turn ok (cv_life_id c) i t db = Inr (Some turn)"
  obtains u a where "turn_messages i t db = [u, a]" "sm_role u = ''user''" "sm_role a = ''assistant''"
    "turn = turn_view u a"
proof -
  from assms(3) have ok by (auto simp: load_turn_def split: if_splits)
  with assms(3) load_turn_eq [OF assms(1,2)] have
    "(case turn_messages i t db of [u, a] \<Rightarrow> Inr (Some (turn_view u a)) | _ \<Rightarrow> Inr None)
      = (Inr (Some turn) :: conversation_error + append_turn_result option)" by simp
  with assms(1,2) show thesis
    by (cases rule: turn_messages_cases [where t = t]) (auto intro: that)
qed

section \<open>Writing a turn\<close>

definition turn_rows :: "turn_draw \<Rightarrow> append_turn_request \<Rightarrow> int \<Rightarrow> stored_message list" where
  "turn_rows draw r n =
     [stored_of_request (td_user_id draw) (td_user_now draw) r RoleUser (aq_user_content r) (2 * n + 1),
      stored_of_request (td_assistant_id draw) (td_assistant_now draw) r RoleAssistant
        (aq_assistant_content r) (2 * n + 2)]"

definition turn_written_db ::
    "turn_draw \<Rightarrow> append_turn_request \<Rightarrow> conversation_record \<Rightarrow> 'a conversation_db_scheme
     \<Rightarrow> 'a conversation_db_scheme" where
  "turn_written_db draw r c db =
     db\<lparr>message_rows := message_rows db @ turn_rows draw r (cv_revision c),
        conversation_rows := map (\<lambda>x. if cv_id x = cv_id c then touch_conversation (td_touch_now draw) x
                                      else x) (conversation_rows db)\<rparr>"

text \<open>What the tables must allow for the two rows.\<close>

definition turn_insertable ::
    "turn_draw \<Rightarrow> append_turn_request \<Rightarrow> 'a conversation_db_scheme \<Rightarrow> bool" where
  "turn_insertable draw r db \<longleftrightarrow>
     td_user_id draw \<noteq> td_assistant_id draw
     \<and> td_user_id draw \<notin> sm_id ` set (message_rows db)
     \<and> td_assistant_id draw \<notin> sm_id ` set (message_rows db)
     \<and> 0 < sql_length (sql_trim (aq_turn_id r))
     \<and> 0 < sql_length (sql_trim (aq_user_content r)) \<and> sql_length (aq_user_content r) \<le> 32000
     \<and> 0 < sql_length (sql_trim (aq_assistant_content r))
     \<and> sql_length (aq_assistant_content r) \<le> 32000"

lemma stored_of_request_simps [simp]:
  "sm_id (stored_of_request i now r role content n) = i"
  "sm_conversation_id (stored_of_request i now r role content n) = aq_conversation_id r"
  "sm_life_id (stored_of_request i now r role content n) = aq_life_id r"
  "sm_turn_id (stored_of_request i now r role content n) = aq_turn_id r"
  "sm_role (stored_of_request i now r role content n) = role_as_str role"
  "sm_content (stored_of_request i now r role content n) = content"
  "sm_sequence_no (stored_of_request i now r role content n) = n"
  "sm_created_at (stored_of_request i now r role content n) = now"
  by (simp_all add: stored_of_request_def)

lemma touch_conversation_simps [simp]:
  "cv_id (touch_conversation now c) = cv_id c"
  "cv_life_id (touch_conversation now c) = cv_life_id c"
  "cv_title (touch_conversation now c) = cv_title c"
  "cv_revision (touch_conversation now c) = cv_revision c + 1"
  by (simp_all add: touch_conversation_def)

lemma message_insert_Inr:
  "message_insert m db = Inr db' \<longleftrightarrow>
     message_row_check m
     \<and> (\<forall>r \<in> set (message_rows db). sm_id r \<noteq> sm_id m
          \<and> \<not> (sm_conversation_id r = sm_conversation_id m \<and> sm_sequence_no r = sm_sequence_no m)
          \<and> \<not> (sm_conversation_id r = sm_conversation_id m \<and> sm_turn_id r = sm_turn_id m
                \<and> sm_role r = sm_role m))
     \<and> (sm_conversation_id m, sm_life_id m)
          \<in> (\<lambda>c. (cv_id c, cv_life_id c)) ` set (conversation_rows db)
     \<and> db' = db\<lparr>message_rows := message_rows db @ [m]\<rparr>"
  by (auto simp: message_insert_def)

lemma next_sequence_log:
  assumes "conversation_inv db" and "select_conversation i db = Some c"
  shows "next_sequence (cv_life_id c) i db = 2 * cv_revision c + 1"
proof -
  have "map sm_sequence_no (conversation_log i db) = [1..2 * cv_revision c]" "0 \<le> cv_revision c"
    using conversation_inv_row(3) [OF assms] by (simp_all add: log_ok_def)
  then show ?thesis
    by (simp add: next_sequence_def messages_of_log [OF assms] max_int_upto)
qed

lemma bump_conversation_eq:
  assumes inv: "distinct (map cv_id (conversation_rows db))" and c: "select_conversation i db = Some c"
    and check: "conversation_row_check c"
  shows "bump_conversation now (cv_life_id c) i (cv_revision c) db =
    Some (1, db\<lparr>conversation_rows :=
      map (\<lambda>x. if cv_id x = i then touch_conversation now x else x) (conversation_rows db)\<rparr>)"
proof -
  have only: "x = c" if "x \<in> set (conversation_rows db)" "cv_id x = i" for x
    using find_key_SomeI [OF inv that] c by (simp add: select_conversation_def)
  have c': "c \<in> set (conversation_rows db)" "cv_id c = i"
    using c by (auto simp: select_conversation_def dest: find_Some_mem)
  let ?p = "\<lambda>x. cv_id x = i \<and> cv_life_id x = cv_life_id c \<and> cv_revision x = cv_revision c"
  have "length (filter ?p (conversation_rows db)) = 1"
    using count_key_guard [OF inv, of i c "\<lambda>x. cv_life_id x = cv_life_id c
        \<and> cv_revision x = cv_revision c"] c by (simp add: select_conversation_def)
  moreover have "map (\<lambda>x. if ?p x then touch_conversation now x else x) (conversation_rows db) =
      map (\<lambda>x. if cv_id x = i then touch_conversation now x else x) (conversation_rows db)"
    using only by (intro map_cong) auto
  moreover have "\<not> (\<exists>x \<in> set (conversation_rows db).
      ?p x \<and> \<not> conversation_row_check (touch_conversation now x))"
    using only check by (auto simp: conversation_row_check_def)
  ultimately show ?thesis by (simp add: bump_conversation_def sql_update_def)
qed

lemma insert_message_fresh:
  assumes "\<And>m. m \<in> set (message_rows db) \<Longrightarrow> sm_conversation_id m = aq_conversation_id r \<Longrightarrow>
      sm_sequence_no m \<noteq> n \<and> (sm_turn_id m = aq_turn_id r \<longrightarrow> sm_role m \<noteq> role_as_str role)"
    and "(aq_conversation_id r, aq_life_id r)
      \<in> (\<lambda>c. (cv_id c, cv_life_id c)) ` set (conversation_rows db)"
    and "0 < n"
  shows "insert_message ok i now r role content n db = Inr db' \<longleftrightarrow>
    ok \<and> i \<notin> sm_id ` set (message_rows db) \<and> 0 < sql_length (sql_trim (aq_turn_id r))
    \<and> 0 < sql_length (sql_trim content) \<and> sql_length content \<le> 32000
    \<and> db' = db\<lparr>message_rows := message_rows db @ [stored_of_request i now r role content n]\<rparr>"
proof -
  let ?m = "stored_of_request i now r role content n"
  have role: "role_as_str role \<in> {''user'', ''assistant''}" by (cases role) simp_all
  have free: "(\<forall>x \<in> set (message_rows db). sm_id x \<noteq> sm_id ?m
          \<and> \<not> (sm_conversation_id x = sm_conversation_id ?m \<and> sm_sequence_no x = sm_sequence_no ?m)
          \<and> \<not> (sm_conversation_id x = sm_conversation_id ?m \<and> sm_turn_id x = sm_turn_id ?m
                \<and> sm_role x = sm_role ?m)) \<longleftrightarrow> i \<notin> sm_id ` set (message_rows db)"
    using assms(1) by (auto simp: image_iff)
  have "insert_message ok i now r role content n db = Inr db' \<longleftrightarrow> ok \<and> message_insert ?m db = Inr db'"
    by (auto simp: insert_message_def split: sum.splits)
  also have "\<dots> \<longleftrightarrow> ok \<and> message_row_check ?m \<and> i \<notin> sm_id ` set (message_rows db)
      \<and> db' = db\<lparr>message_rows := message_rows db @ [?m]\<rparr>"
    unfolding message_insert_Inr free using assms(2) by simp
  also have "message_row_check ?m \<longleftrightarrow> 0 < sql_length (sql_trim (aq_turn_id r))
      \<and> 0 < sql_length (sql_trim content) \<and> sql_length content \<le> 32000"
    unfolding message_row_check_def using role assms(3) by simp
  finally show ?thesis by blast
qed

lemma write_turn_rows:
  assumes inv: "conversation_inv db" and c: "select_conversation (aq_conversation_id r) db = Some c"
      "cv_life_id c = aq_life_id r"
    and fresh: "turn_messages (aq_conversation_id r) (aq_turn_id r) db = []"
  shows "try_bind (insert_message ok1 (td_user_id draw) (td_user_now draw) r RoleUser
                  (aq_user_content r) (2 * cv_revision c + 1) db) (\<lambda>db1.
      insert_message ok2 (td_assistant_id draw) (td_assistant_now draw) r RoleAssistant
                  (aq_assistant_content r) (2 * cv_revision c + 2) db1) = Inr db2
      \<longleftrightarrow> ok1 \<and> ok2 \<and> turn_insertable draw r db
        \<and> db2 = db\<lparr>message_rows := message_rows db @ turn_rows draw r (cv_revision c)\<rparr>"
proof -
  let ?i = "aq_conversation_id r"
  let ?n = "2 * cv_revision c"
  let ?u = "stored_of_request (td_user_id draw) (td_user_now draw) r RoleUser (aq_user_content r) (?n + 1)"
  let ?db1 = "db\<lparr>message_rows := message_rows db @ [?u]\<rparr>"
  note ok = conversation_inv_row [OF inv c(1)]
  have log: "map sm_sequence_no (conversation_log ?i db) = [1..?n]" "0 \<le> cv_revision c"
    using ok(3) by (simp_all add: log_ok_def)
  have old: "sm_sequence_no m \<le> ?n \<and> sm_turn_id m \<noteq> aq_turn_id r"
    if "m \<in> set (message_rows db)" "sm_conversation_id m = ?i" for m
  proof -
    have "sm_sequence_no m \<in> set (map sm_sequence_no (conversation_log ?i db))"
      using that by (simp add: conversation_log_def)
    then have "sm_sequence_no m \<le> ?n" unfolding log(1) by simp
    with that show ?thesis
      using fresh by (auto simp: turn_messages_def conversation_log_def filter_empty_conv)
  qed
  have fk: "(?i, aq_life_id r) \<in> (\<lambda>c. (cv_id c, cv_life_id c)) ` set (conversation_rows db)"
    using ok(1,2) c(2) by force
  have one: "insert_message ok1 (td_user_id draw) (td_user_now draw) r RoleUser (aq_user_content r)
      (?n + 1) db = Inr db1 \<longleftrightarrow>
    ok1 \<and> td_user_id draw \<notin> sm_id ` set (message_rows db) \<and> 0 < sql_length (sql_trim (aq_turn_id r))
    \<and> 0 < sql_length (sql_trim (aq_user_content r)) \<and> sql_length (aq_user_content r) \<le> 32000
    \<and> db1 = ?db1" for db1
    using old fk log(2) by (intro insert_message_fresh) force+
  have two: "insert_message ok2 (td_assistant_id draw) (td_assistant_now draw) r RoleAssistant
      (aq_assistant_content r) (?n + 2) ?db1 = Inr db2 \<longleftrightarrow>
    ok2 \<and> td_assistant_id draw \<notin> sm_id ` set (message_rows ?db1)
    \<and> 0 < sql_length (sql_trim (aq_turn_id r)) \<and> 0 < sql_length (sql_trim (aq_assistant_content r))
    \<and> sql_length (aq_assistant_content r) \<le> 32000
    \<and> db2 = ?db1\<lparr>message_rows := message_rows ?db1 @ [stored_of_request (td_assistant_id draw)
        (td_assistant_now draw) r RoleAssistant (aq_assistant_content r) (?n + 2)]\<rparr>"
    using old fk log(2) by (intro insert_message_fresh) force+
  show ?thesis
    unfolding try_bind_Inr_iff one
    using two by (auto simp: turn_insertable_def turn_rows_def)
qed

lemma conversation_log_written:
  "conversation_log i (turn_written_db draw r c db) =
     conversation_log i db
     @ (if i = aq_conversation_id r then turn_rows draw r (cv_revision c) else [])"
  by (simp add: conversation_log_def turn_written_db_def turn_rows_def)

lemma conversation_keys_written:
  "map (\<lambda>c. (cv_id c, cv_life_id c)) (conversation_rows (turn_written_db draw r c db))
     = map (\<lambda>c. (cv_id c, cv_life_id c)) (conversation_rows db)"
  by (auto simp: turn_written_db_def)

lemma turn_written_db_rows:
  "life_identity (turn_written_db draw r c db) = life_identity db"
  "emotion_state_rows (turn_written_db draw r c db) = emotion_state_rows db"
  "emotion_event_rows (turn_written_db draw r c db) = emotion_event_rows db"
  "relationship_state_rows (turn_written_db draw r c db) = relationship_state_rows db"
  "relationship_event_rows (turn_written_db draw r c db) = relationship_event_rows db"
  "episode_rows (turn_written_db draw r c db) = episode_rows db"
  "message_rows (turn_written_db draw r c db) = message_rows db @ turn_rows draw r (cv_revision c)"
  "map cv_id (conversation_rows (turn_written_db draw r c db)) = map cv_id (conversation_rows db)"
  "(\<lambda>c. (cv_id c, cv_life_id c)) ` set (conversation_rows (turn_written_db draw r c db))
     = (\<lambda>c. (cv_id c, cv_life_id c)) ` set (conversation_rows db)"
  subgoal by (simp add: turn_written_db_def)
  subgoal by (simp add: turn_written_db_def)
  subgoal by (simp add: turn_written_db_def)
  subgoal by (simp add: turn_written_db_def)
  subgoal by (simp add: turn_written_db_def)
  subgoal by (simp add: turn_written_db_def)
  subgoal by (simp add: turn_written_db_def)
  subgoal by (auto simp: turn_written_db_def)
  subgoal using conversation_keys_written [of draw r c db] by (metis set_map)
  done

lemma select_conversation_written:
  assumes "select_conversation i db = Some c" and "cv_id c = i"
  shows "select_conversation j (turn_written_db draw r c db) =
    (if j = i then Some (touch_conversation (td_touch_now draw) c) else select_conversation j db)"
proof -
  let ?f = "\<lambda>x. if cv_id x = cv_id c then touch_conversation (td_touch_now draw) x else x"
  have "select_conversation j (turn_written_db draw r c db) =
      map_option ?f (select_conversation j db)"
    unfolding select_conversation_def turn_written_db_def
    by (simp add: find_map_key [where k = cv_id and f = ?f])
  also have "\<dots> = (if j = i then Some (touch_conversation (td_touch_now draw) c)
      else select_conversation j db)"
  proof (cases "j = i")
    case True
    with assms show ?thesis by simp
  next
    case False
    have "cv_id x = j" if "select_conversation j db = Some x" for x
      using that by (auto simp: select_conversation_def dest: find_Some_mem)
    with False assms(2) show ?thesis by (cases "select_conversation j db") auto
  qed
  finally show ?thesis .
qed

lemma upto_next_turn: "0 \<le> (m::int) \<Longrightarrow> [1..m + 2] = [1..m] @ [m + 1, m + 2]"
  using upto_rec2 [of 1 "m + 2"] upto_rec2 [of 1 "m + 1"] by (simp add: algebra_simps)

lemma log_ok_written:
  assumes ok: "log_ok n ms" and fresh: "filter (\<lambda>m. sm_turn_id m = aq_turn_id r) ms = []"
  shows "log_ok (n + 1) (ms @ turn_rows draw r n)"
proof -
  have "(aq_turn_id r, role) \<notin> (\<lambda>m. (sm_turn_id m, sm_role m)) ` set ms" for role
    using fresh by (auto simp: filter_empty_conv)
  then show ?thesis
    using ok upto_next_turn [of "2 * n"] by (simp add: log_ok_def turn_rows_def paired_append)
qed

lemma turn_written_inv:
  assumes inv: "conversation_inv db" and c: "select_conversation (aq_conversation_id r) db = Some c"
      "cv_life_id c = aq_life_id r"
    and fresh: "turn_messages (aq_conversation_id r) (aq_turn_id r) db = []"
    and ins: "turn_insertable draw r db"
  shows "conversation_inv (turn_written_db draw r c db)"
proof -
  let ?i = "aq_conversation_id r"
  let ?db = "turn_written_db draw r c db"
  note row = conversation_inv_row [OF inv c(1)]
  have rows: "cv_life_id x \<in> set (life_identity ?db) \<and> conversation_row_check x
      \<and> log_ok (cv_revision x) (conversation_log (cv_id x) ?db)"
    if "x \<in> set (conversation_rows ?db)" for x
  proof -
    from that obtain y where y: "y \<in> set (conversation_rows db)"
      and x: "x = (if cv_id y = cv_id c then touch_conversation (td_touch_now draw) y else y)"
      by (auto simp: turn_written_db_def)
    show ?thesis
    proof (cases "cv_id y = ?i")
      case True
      then have "y = c" using y c(1) select_conversation_iff [OF inv, of ?i y] by simp
      moreover have "log_ok (cv_revision c + 1) (conversation_log ?i ?db)"
        using log_ok_written [OF row(3)] fresh by (simp add: conversation_log_written turn_messages_def)
      ultimately show ?thesis
        using row x by (simp add: turn_written_db_rows conversation_row_check_def)
    next
      case False
      with y inv row(2) x show ?thesis
        by (simp add: conversation_inv_def turn_written_db_rows conversation_log_written)
    qed
  qed
  have ids: "distinct (map sm_id (message_rows ?db))"
    using inv ins by (auto simp: conversation_inv_def turn_written_db_rows turn_rows_def
        turn_insertable_def)
  have "(?i, aq_life_id r) \<in> (\<lambda>c. (cv_id c, cv_life_id c)) ` set (conversation_rows db)"
    using row(1,2) c(2) by force
  then have "\<forall>m \<in> set (message_rows ?db). (sm_conversation_id m, sm_life_id m)
          \<in> (\<lambda>c. (cv_id c, cv_life_id c)) ` set (conversation_rows ?db)"
    using inv unfolding turn_written_db_rows by (auto simp: conversation_inv_def turn_rows_def)
  moreover have "distinct (map cv_id (conversation_rows ?db))"
    using inv unfolding turn_written_db_rows by (simp add: conversation_inv_def)
  ultimately show ?thesis
    using rows ids unfolding conversation_inv_def by blast
qed

definition written_turn :: "turn_draw \<Rightarrow> append_turn_request \<Rightarrow> conversation_record \<Rightarrow> append_turn_result" where
  "written_turn draw r c =
     (turn_view (hd (turn_rows draw r (cv_revision c))) (last (turn_rows draw r (cv_revision c))))
     \<lparr>tr_conversation_revision := cv_revision c + 1\<rparr>"

lemma turn_messages_written:
  assumes "turn_messages (aq_conversation_id r) (aq_turn_id r) db = []"
  shows "turn_messages (aq_conversation_id r) (aq_turn_id r) (turn_written_db draw r c db)
    = turn_rows draw r (cv_revision c)"
  using assms by (simp add: turn_messages_def conversation_log_written) (simp add: turn_rows_def)

lemma write_turn_Inr:
  assumes inv: "conversation_inv db" and c: "select_conversation (aq_conversation_id r) db = Some c"
      "cv_life_id c = aq_life_id r"
    and fresh: "turn_messages (aq_conversation_id r) (aq_turn_id r) db = []"
  shows "write_turn io draw r c db = Inr (turn, db') \<longleftrightarrow>
    io ConvSelectSequence \<and> io ConvInsertUser \<and> io ConvInsertAssistant \<and> io ConvBumpRevision
    \<and> io ConvReloadTurn \<and> turn_insertable draw r db
    \<and> db' = turn_written_db draw r c db \<and> turn = written_turn draw r c"
proof -
  let ?i = "aq_conversation_id r"
  let ?db2 = "db\<lparr>message_rows := message_rows db @ turn_rows draw r (cv_revision c)\<rparr>"
  let ?db3 = "turn_written_db draw r c db"
  note row = conversation_inv_row [OF inv c(1)]
  have seq: "next_sequence (aq_life_id r) ?i db = 2 * cv_revision c + 1"
    using next_sequence_log [OF inv c(1)] c(2) by simp
  have bump: "bump_conversation (td_touch_now draw) (aq_life_id r) ?i (cv_revision c) ?db2
      = Some (1, ?db3)"
    using bump_conversation_eq [of ?db2 ?i c "td_touch_now draw"] inv c row(2,5)
    by (simp add: conversation_inv_def select_conversation_def turn_written_db_def)
  have load: "load_turn ok (aq_life_id r) ?i (aq_turn_id r) ?db3 =
      (if ok then Inr (Some (turn_view (hd (turn_rows draw r (cv_revision c)))
                        (last (turn_rows draw r (cv_revision c)))))
       else Inl storage_unavailable)" if ins: "turn_insertable draw r db" for ok
  proof (cases ok)
    case True
    have "select_conversation ?i ?db3 = Some (touch_conversation (td_touch_now draw) c)"
      by (simp add: select_conversation_written [OF c(1) row(2)])
    from load_turn_eq [OF turn_written_inv [OF inv c fresh ins] this, of "aq_turn_id r"] True
    show ?thesis using c(2) by (simp add: turn_messages_written [OF fresh]) (simp add: turn_rows_def)
  qed (simp add: load_turn_def)
  let ?head = "try_bind
        (insert_message (io ConvInsertUser) (td_user_id draw) (td_user_now draw) r RoleUser
                  (aq_user_content r) (2 * cv_revision c + 1) db) (\<lambda>db1.
         insert_message (io ConvInsertAssistant) (td_assistant_id draw) (td_assistant_now draw)
                  r RoleAssistant (aq_assistant_content r) (2 * cv_revision c + 2) db1)"
  let ?tail = "\<lambda>db2.
      if \<not> io ConvBumpRevision then Inl storage_unavailable
      else case bump_conversation (td_touch_now draw) (aq_life_id r) (aq_conversation_id r)
                  (cv_revision c) db2 of
             None \<Rightarrow> Inl storage_unavailable
           | Some (updated, db3) \<Rightarrow>
             (if updated \<noteq> 1 then conversation_fail ConversationChangedDuringRequest
              else try_bind (load_turn (io ConvReloadTurn) (aq_life_id r) (aq_conversation_id r)
                               (aq_turn_id r) db3) (\<lambda>found.
                   try_bind (ok_or found (conversation_error_new ConversationInternalError)) (\<lambda>turn.
                   Inr (turn\<lparr>tr_conversation_revision := cv_revision c + 1\<rparr>, db3))))"
  have two: "2 * cv_revision c + 1 + 1 = 2 * cv_revision c + 2" by simp
  have "write_turn io draw r c db =
     (if \<not> io ConvSelectSequence then Inl storage_unavailable else try_bind ?head ?tail)"
    unfolding write_turn_def seq Let_def try_bind_assoc two ..
  then have "write_turn io draw r c db = Inr (turn, db') \<longleftrightarrow>
      io ConvSelectSequence \<and> (\<exists>db2. ?head = Inr db2 \<and> ?tail db2 = Inr (turn, db'))"
    unfolding try_bind_Inr_iff [where m = ?head, symmetric] by simp
  then show ?thesis
    unfolding write_turn_rows [OF inv c fresh]
    by (auto simp: bump load written_turn_def split: if_splits)
qed

section \<open>The other operations of the repository\<close>

lemma conversation_inv_cong:
  "life_identity db' = life_identity db \<Longrightarrow> conversation_rows db' = conversation_rows db \<Longrightarrow>
   message_rows db' = message_rows db \<Longrightarrow> conversation_inv db' \<longleftrightarrow> conversation_inv db"
  by (simp add: conversation_inv_def conversation_log_def)

lemma conversation_inv_life:
  "conversation_inv db \<Longrightarrow> set (life_identity db) \<subseteq> set (life_identity db') \<Longrightarrow>
   conversation_rows db' = conversation_rows db \<Longrightarrow> message_rows db' = message_rows db \<Longrightarrow>
   conversation_inv db'"
  by (auto simp: conversation_inv_def conversation_log_def)

lemma conversation_insert_Inr:
  "conversation_insert c db = Inr db' \<longleftrightarrow>
     conversation_row_check c \<and> cv_id c \<notin> cv_id ` set (conversation_rows db)
     \<and> cv_life_id c \<in> set (life_identity db)
     \<and> db' = db\<lparr>conversation_rows := conversation_rows db @ [c]\<rparr>"
  by (auto simp: conversation_insert_def)

lemma conversation_insert_inv:
  assumes inv: "conversation_inv db" and ins: "conversation_insert c db = Inr db'"
    and zero: "cv_revision c = 0"
  shows "conversation_inv db'"
proof -
  have new: "cv_id c \<notin> cv_id ` set (conversation_rows db)"
    using ins by (simp add: conversation_insert_Inr)
  have "conversation_log (cv_id c) db = []"
  proof -
    have "sm_conversation_id m \<noteq> cv_id c" if "m \<in> set (message_rows db)" for m
      using inv that new by (force simp: conversation_inv_def image_iff)
    then show ?thesis by (simp add: conversation_log_def filter_empty_conv)
  qed
  then have "log_ok 0 (conversation_log (cv_id c) db')"
    using ins by (simp add: conversation_insert_Inr conversation_log_def log_ok_def)
  moreover have "conversation_log i db' = conversation_log i db" for i
    using ins by (simp add: conversation_insert_Inr conversation_log_def)
  ultimately show ?thesis
    using inv ins zero by (auto simp: conversation_insert_Inr conversation_inv_def)
qed

lemma conversation_create_inv:
  assumes "conversation_inv db"
  shows "conversation_inv (snd (conversation_create io now i r db))"
  using assms conversation_insert_inv [OF assms]
  by (auto simp: conversation_create_def split: sum.splits)

lemma conversation_create_frame:
  "life_identity (snd (conversation_create io now i r db)) = life_identity db"
  "emotion_state_rows (snd (conversation_create io now i r db)) = emotion_state_rows db"
  "emotion_event_rows (snd (conversation_create io now i r db)) = emotion_event_rows db"
  "relationship_state_rows (snd (conversation_create io now i r db)) = relationship_state_rows db"
  "relationship_event_rows (snd (conversation_create io now i r db)) = relationship_event_rows db"
  "message_rows (snd (conversation_create io now i r db)) = message_rows db"
  "episode_rows (snd (conversation_create io now i r db)) = episode_rows db"
  by (auto simp: conversation_create_def conversation_insert_Inr split: sum.splits)

lemma conversation_rename_db:
  obtains (same) "snd (conversation_rename io now r db) = db"
  | (renamed) f where "snd (conversation_rename io now r db)
      = db\<lparr>conversation_rows := map f (conversation_rows db)\<rparr>"
    "\<And>c. cv_id (f c) = cv_id c" "\<And>c. cv_life_id (f c) = cv_life_id c"
    "\<And>c. cv_revision (f c) = cv_revision c"
    "\<And>c. c \<in> set (conversation_rows db) \<Longrightarrow> conversation_row_check c \<Longrightarrow> conversation_row_check (f c)"
proof -
  let ?p = "\<lambda>c. cv_id c = rcq_conversation_id r \<and> cv_life_id c = rcq_life_id r"
  let ?f = "\<lambda>c. c\<lparr>cv_title := rcq_title r, cv_updated_at := now\<rparr>"
  let ?g = "\<lambda>c. if ?p c then ?f c else c"
  have "snd (conversation_rename io now r db) = db
    \<or> snd (conversation_rename io now r db) = db\<lparr>conversation_rows := map ?g (conversation_rows db)\<rparr>
      \<and> (\<forall>c \<in> set (conversation_rows db). ?p c \<longrightarrow> conversation_row_check (?f c))"
    by (simp add: conversation_rename_def sql_update_def Let_def split: sum.split)
  then show thesis
  proof (elim disjE conjE)
    assume "snd (conversation_rename io now r db) = db"
    then show thesis by (rule same)
  next
    assume "snd (conversation_rename io now r db)
        = db\<lparr>conversation_rows := map ?g (conversation_rows db)\<rparr>"
      and "\<forall>c \<in> set (conversation_rows db). ?p c \<longrightarrow> conversation_row_check (?f c)"
    then show thesis by (intro renamed [of ?g]) auto
  qed
qed

lemma conversation_inv_map:
  assumes inv: "conversation_inv db"
    and f: "\<And>c. cv_id (f c) = cv_id c" "\<And>c. cv_life_id (f c) = cv_life_id c"
      "\<And>c. cv_revision (f c) = cv_revision c"
      "\<And>c. c \<in> set (conversation_rows db) \<Longrightarrow> conversation_row_check c \<Longrightarrow> conversation_row_check (f c)"
  shows "conversation_inv (db\<lparr>conversation_rows := map f (conversation_rows db)\<rparr>)"
proof -
  have "map cv_id (map f (conversation_rows db)) = map cv_id (conversation_rows db)"
    by (simp add: f(1))
  then have "distinct (map cv_id (map f (conversation_rows db)))"
    using inv by (simp only: conversation_inv_def)
  then show ?thesis
    using inv f by (simp add: conversation_inv_def conversation_log_def image_image)
qed

lemma conversation_rename_inv:
  assumes inv: "conversation_inv db"
  shows "conversation_inv (snd (conversation_rename io now r db))"
proof (cases rule: conversation_rename_db [of io now r db])
  case same
  with inv show ?thesis by simp
next
  case (renamed f)
  show ?thesis unfolding renamed(1) by (rule conversation_inv_map [OF inv renamed(2-5)])
qed

subsection \<open>Deletion\<close>

definition conversation_deleted_db :: "string \<Rightarrow> 'a conversation_db_scheme \<Rightarrow> 'a conversation_db_scheme" where
  "conversation_deleted_db i db =
     db\<lparr>message_rows := filter (\<lambda>m. sm_conversation_id m \<noteq> i) (message_rows db),
        conversation_rows := filter (\<lambda>c. cv_id c \<noteq> i) (conversation_rows db),
        episode_rows := filter (\<lambda>e. ep_conversation_id e \<noteq> i) (episode_rows db)\<rparr>"

text \<open>Every episode refers to messages of its own conversation.\<close>

definition episodes_local :: "'a conversation_db_scheme \<Rightarrow> bool" where
  "episodes_local db \<longleftrightarrow> (\<forall>e \<in> set (episode_rows db). episode_trigger_passes e db)"

lemma delete_conversation_rows_eq:
  assumes inv: "conversation_inv db" and ep: "episodes_local db"
    and c: "select_conversation i db = Some c"
  shows "delete_conversation_rows (cv_life_id c) i db = (1, conversation_deleted_db i db)"
proof -
  let ?p = "\<lambda>x. cv_id x = i \<and> cv_life_id x = cv_life_id c"
  note row = conversation_inv_row [OF inv c]
  have dist: "distinct (map cv_id (conversation_rows db))" using inv by (simp add: conversation_inv_def)
  have only: "x = c" if "x \<in> set (conversation_rows db)" "cv_id x = i" for x
    using find_key_SomeI [OF dist that] c by (simp add: select_conversation_def)
  have one: "length (filter ?p (conversation_rows db)) = 1"
    using count_key_guard [OF dist, of i c "\<lambda>x. cv_life_id x = cv_life_id c"] c
    by (simp add: select_conversation_def)
  have hit: "(\<exists>x \<in> set (filter ?p (conversation_rows db)). cv_id x = j \<and> cv_life_id x = l)
      \<longleftrightarrow> j = i \<and> l = cv_life_id c" for j l
    using row(1,2) by auto
  have life: "sm_life_id m = cv_life_id c"
    if "m \<in> set (message_rows db)" "sm_conversation_id m = i" for m
  proof -
    from inv that obtain d where "d \<in> set (conversation_rows db)" "cv_id d = i"
        "cv_life_id d = sm_life_id m" by (force simp: conversation_inv_def image_iff)
    with only show ?thesis by fastforce
  qed
  have msgs: "filter (\<lambda>m. \<not> (sm_conversation_id m = i \<and> sm_life_id m = cv_life_id c)) (message_rows db)
      = filter (\<lambda>m. sm_conversation_id m \<noteq> i) (message_rows db)"
    using life by (intro filter_cong) auto
  have src: "\<exists>u a. u \<in> set (message_rows db) \<and> sm_id u = ep_user_message_id e
      \<and> sm_conversation_id u = ep_conversation_id e \<and> sm_life_id u = ep_life_id e
      \<and> a \<in> set (message_rows db) \<and> sm_id a = ep_assistant_message_id e
      \<and> sm_conversation_id a = ep_conversation_id e" if "e \<in> set (episode_rows db)" for e
    using ep that by (fastforce simp: episodes_local_def episode_trigger_passes_def is_source_row_def)
  let ?gone = "sm_id ` set (filter (\<lambda>m. sm_conversation_id m = i \<and> sm_life_id m = cv_life_id c)
    (message_rows db))"
  have same: "m = n" if "m \<in> set (message_rows db)" "n \<in> set (message_rows db)" "sm_id m = sm_id n"
    for m n
    using inv that by (auto simp: conversation_inv_def distinct_map inj_on_def)
  have gone: "sm_conversation_id x = i" if "x \<in> set (message_rows db)" "sm_id x \<in> ?gone" for x
  proof -
    from that(2) obtain m where "m \<in> set (message_rows db)" "sm_conversation_id m = i"
        "sm_id x = sm_id m" by auto
    with same [OF that(1)] show ?thesis by blast
  qed
  have eps: "(ep_user_message_id e \<notin> ?gone \<and> ep_assistant_message_id e \<notin> ?gone)
      \<and> \<not> (ep_conversation_id e = i \<and> ep_life_id e = cv_life_id c)
      \<longleftrightarrow> ep_conversation_id e \<noteq> i" if e: "e \<in> set (episode_rows db)" for e
  proof -
    from src [OF e] obtain u a where u: "u \<in> set (message_rows db)" "sm_id u = ep_user_message_id e"
        "sm_conversation_id u = ep_conversation_id e" "sm_life_id u = ep_life_id e"
      and a: "a \<in> set (message_rows db)" "sm_id a = ep_assistant_message_id e"
        "sm_conversation_id a = ep_conversation_id e" by blast
    have "ep_user_message_id e \<in> ?gone \<Longrightarrow> ep_conversation_id e = i"
      using gone [OF u(1)] u(2,3) by simp
    moreover have "ep_assistant_message_id e \<in> ?gone \<Longrightarrow> ep_conversation_id e = i"
      using gone [OF a(1)] a(2,3) by simp
    moreover have "ep_conversation_id e = i \<Longrightarrow> ep_life_id e = cv_life_id c"
      using life [OF u(1)] u(3,4) by simp
    ultimately show ?thesis by blast
  qed
  have convs: "filter (\<lambda>x. \<not> ?p x) (conversation_rows db) = filter (\<lambda>x. cv_id x \<noteq> i) (conversation_rows db)"
    using only by (intro filter_cong) auto
  have "filter (\<lambda>e. (ep_user_message_id e \<notin> ?gone \<and> ep_assistant_message_id e \<notin> ?gone)
      \<and> \<not> (ep_conversation_id e = i \<and> ep_life_id e = cv_life_id c)) (episode_rows db)
    = filter (\<lambda>e. ep_conversation_id e \<noteq> i) (episode_rows db)"
    using eps by (intro filter_cong) auto
  note eps' = this
  let ?P = "\<lambda>m. \<exists>x \<in> set (filter ?p (conversation_rows db)).
    cv_id x = sm_conversation_id m \<and> cv_life_id x = sm_life_id m"
  have P: "?P = (\<lambda>m. sm_conversation_id m = i \<and> sm_life_id m = cv_life_id c)"
    unfolding hit ..
  have Q: "(\<lambda>e. \<not> (\<exists>x \<in> set (filter ?p (conversation_rows db)).
      cv_id x = ep_conversation_id e \<and> cv_life_id x = ep_life_id e))
    = (\<lambda>e. \<not> (ep_conversation_id e = i \<and> ep_life_id e = cv_life_id c))"
    unfolding hit ..
  have del: "delete_messages ?P db =
      db\<lparr>message_rows := filter (\<lambda>m. sm_conversation_id m \<noteq> i) (message_rows db),
        episode_rows := filter (\<lambda>e. ep_user_message_id e \<notin> ?gone
          \<and> ep_assistant_message_id e \<notin> ?gone) (episode_rows db)\<rparr>"
    unfolding P delete_messages_def Let_def msgs ..
  have swap: "filter (\<lambda>e. \<not> (ep_conversation_id e = i \<and> ep_life_id e = cv_life_id c))
      (filter (\<lambda>e. ep_user_message_id e \<notin> ?gone \<and> ep_assistant_message_id e \<notin> ?gone)
        (episode_rows db)) = filter (\<lambda>e. ep_conversation_id e \<noteq> i) (episode_rows db)"
    unfolding filter_filter by (rule eps')
  show ?thesis
    unfolding delete_conversation_rows_def Let_def del Q one convs conversation_deleted_db_def
    using swap by simp
qed

lemma conversation_deleted_rows [simp]:
  "life_identity (conversation_deleted_db i db) = life_identity db"
  "emotion_state_rows (conversation_deleted_db i db) = emotion_state_rows db"
  "emotion_event_rows (conversation_deleted_db i db) = emotion_event_rows db"
  "relationship_state_rows (conversation_deleted_db i db) = relationship_state_rows db"
  "relationship_event_rows (conversation_deleted_db i db) = relationship_event_rows db"
  "conversation_rows (conversation_deleted_db i db)
     = filter (\<lambda>c. cv_id c \<noteq> i) (conversation_rows db)"
  "message_rows (conversation_deleted_db i db)
     = filter (\<lambda>m. sm_conversation_id m \<noteq> i) (message_rows db)"
  "episode_rows (conversation_deleted_db i db)
     = filter (\<lambda>e. ep_conversation_id e \<noteq> i) (episode_rows db)"
  by (simp_all add: conversation_deleted_db_def)

lemma conversation_log_deleted:
  "conversation_log j (conversation_deleted_db i db) = (if j = i then [] else conversation_log j db)"
proof -
  have "filter (\<lambda>m. sm_conversation_id m \<noteq> i \<and> sm_conversation_id m = j) (message_rows db)
      = (if j = i then [] else filter (\<lambda>m. sm_conversation_id m = j) (message_rows db))"
    by (auto simp: filter_empty_conv intro: filter_cong)
  then show ?thesis by (simp add: conversation_log_def conj_commute)
qed

lemma conversation_deleted_inv:
  assumes inv: "conversation_inv db"
  shows "conversation_inv (conversation_deleted_db i db)"
proof -
  have "(sm_conversation_id m, sm_life_id m) \<in> (\<lambda>c. (cv_id c, cv_life_id c)) `
      set (filter (\<lambda>c. cv_id c \<noteq> i) (conversation_rows db))"
    if "m \<in> set (message_rows db)" "sm_conversation_id m \<noteq> i" for m
    using inv that by (fastforce simp: conversation_inv_def image_iff)
  then show ?thesis
    using inv by (auto simp: conversation_inv_def conversation_log_deleted distinct_map_filter)
qed

lemma conversation_delete_db:
  assumes inv: "conversation_inv db" and ep: "episodes_local db"
  shows "snd (conversation_delete io life i db) \<in> {db, conversation_deleted_db i db}"
proof (cases "conversation_delete io life i db")
  case (Pair res db')
  show ?thesis
  proof (cases res)
    case (Inl e)
    with Pair show ?thesis by (auto simp: conversation_delete_def dest!: with_transaction_Inl)
  next
    case (Inr u)
    with Pair have "conversation_delete_in_transaction io life i db = Inr (u, db')"
      by (simp add: conversation_delete_def with_transaction_Inr)
    then obtain c where c: "select_conversation i db = Some c" "cv_life_id c = life"
      and "db' = snd (delete_conversation_rows life i db)"
      by (auto simp: conversation_delete_in_transaction_def ensure_conversation_owner_def
          try_seq_Inr_iff try_bind_Inr_iff load_conversation_Inr split_def Let_def split: if_splits)
    with delete_conversation_rows_eq [OF inv ep c(1)] Pair show ?thesis by simp
  qed
qed

section \<open>Appending\<close>

lemma append_cases:
  assumes inv: "conversation_inv db" and app: "append_in_transaction io draw r db = Inr (turn, db')"
  obtains c where "select_conversation (aq_conversation_id r) db = Some c" "cv_life_id c = aq_life_id r"
    and "(\<exists>u a. db' = db \<and> turn_messages (aq_conversation_id r) (aq_turn_id r) db = [u, a]
            \<and> sm_content u = aq_user_content r
            \<and> turn = (turn_view u a)\<lparr>tr_conversation_revision := cv_revision c, tr_replayed := True\<rparr>)
      \<or> (turn_messages (aq_conversation_id r) (aq_turn_id r) db = []
          \<and> (\<forall>v. aq_expected_revision r = Some v \<longrightarrow> v = cv_revision c)
          \<and> turn_insertable draw r db \<and> db' = turn_written_db draw r c db
          \<and> turn = written_turn draw r c)"
proof -
  from app obtain c found where c: "select_conversation (aq_conversation_id r) db = Some c"
      "cv_life_id c = aq_life_id r"
    and found: "load_turn (io ConvSelectTurn) (aq_life_id r) (aq_conversation_id r) (aq_turn_id r) db
      = Inr found"
    and rest: "(case found of
       Some existing \<Rightarrow>
         (if cm_content (tr_user_message existing) \<noteq> aq_user_content r
          then conversation_fail TurnIdConflict
          else Inr (existing\<lparr>tr_conversation_revision := cv_revision c,
                             tr_replayed := True\<rparr>, db))
     | None \<Rightarrow>
         (if (case aq_expected_revision r of None \<Rightarrow> False | Some v \<Rightarrow> v \<noteq> cv_revision c)
          then conversation_fail ConversationChangedDuringRequest
          else write_turn io draw r c db)) = Inr (turn, db')"
    by (auto simp: append_in_transaction_def try_bind_Inr_iff load_conversation_Inr)
  note found' = found [folded c(2)]
  show thesis
  proof (cases found)
    case None
    note fresh = load_turn_None [OF inv c(1) found' [unfolded None]]
    from rest None have "write_turn io draw r c db = Inr (turn, db')"
      "\<forall>v. aq_expected_revision r = Some v \<longrightarrow> v = cv_revision c"
      by (auto split: if_splits option.splits)
    with fresh show thesis
      using write_turn_Inr [OF inv c fresh] by (intro that [OF c]) blast
  next
    case (Some existing)
    obtain u a where "turn_messages (aq_conversation_id r) (aq_turn_id r) db = [u, a]"
        "existing = turn_view u a"
      using load_turn_Some [OF inv c(1) found' [unfolded Some]] by metis
    with rest Some show thesis
      by (intro that [OF c]) (auto simp: turn_view_def split: if_splits)
  qed
qed

lemma append_complete_turn_db:
  assumes inv: "conversation_inv db"
  obtains (same) "snd (append_complete_turn io draw r db) = db"
  | (written) c where "select_conversation (aq_conversation_id r) db = Some c"
      "cv_life_id c = aq_life_id r" "turn_messages (aq_conversation_id r) (aq_turn_id r) db = []"
      "turn_insertable draw r db"
      "snd (append_complete_turn io draw r db) = turn_written_db draw r c db"
proof (cases "append_complete_turn io draw r db")
  case (Pair res db')
  show thesis
  proof (cases res)
    case (Inl e)
    with Pair have "db' = db" by (auto simp: append_complete_turn_def dest!: with_transaction_Inl)
    with Pair show thesis by (intro same) simp
  next
    case (Inr turn)
    with Pair have "append_in_transaction io draw r db = Inr (turn, db')"
      by (simp add: append_complete_turn_def with_transaction_Inr)
    with inv show thesis by (rule append_cases) (use Pair same written in auto)
  qed
qed

end
