(* ===== verification/Turn_Ledger.thy ===== *)
theory Turn_Ledger
  imports Conversation_Ledger
begin

text \<open>
  The composition of the four repositories: in every database that the operations on lives,
  conversations, emotions, relationships and governed turns reach, the conversation logs, the two
  ledgers and the episodes agree; a governed turn is all or nothing, commits once, and is never
  made up for a turn that was stored without it.
\<close>

section \<open>The invariant of the database\<close>

definition episode_governed :: "experience_episode \<Rightarrow> 'a conversation_db_scheme \<Rightarrow> bool" where
  "episode_governed e db \<longleftrightarrow>
     (ep_life_id e, ''conversation_turn'', ep_source_ref e)
       \<in> emotion_event_source_key ` set (emotion_event_rows db)
     \<and> ((ep_life_id e, ''primary_user''), ''conversation_turn'', ep_source_ref e)
       \<in> relationship_event_source_key ` set (relationship_event_rows db)"

definition episodes_inv :: "'a conversation_db_scheme \<Rightarrow> bool" where
  "episodes_inv db \<longleftrightarrow>
     sorted_wrt (\<lambda>a b. \<not> episode_clash a b) (episode_rows db)
     \<and> (\<forall>e \<in> set (episode_rows db). episode_row_check e \<and> episode_trigger_passes e db
          \<and> episode_governed e db)"

definition system_inv :: "'a conversation_db_scheme \<Rightarrow> bool" where
  "system_inv db \<longleftrightarrow>
     emotion_ledger_inv db \<and> relationship_ledger_inv db \<and> conversation_inv db \<and> episodes_inv db"

lemma episodes_inv_local: "episodes_inv db \<Longrightarrow> episodes_local db"
  by (simp add: episodes_inv_def episodes_local_def)

lemma episode_trigger_mono:
  "episode_trigger_passes e db \<Longrightarrow> set (message_rows db) \<subseteq> set (message_rows db') \<Longrightarrow>
   episode_trigger_passes e db'"
  unfolding episode_trigger_passes_def by blast

lemma episode_governed_mono:
  "episode_governed e db \<Longrightarrow> set (emotion_event_rows db) \<subseteq> set (emotion_event_rows db') \<Longrightarrow>
   set (relationship_event_rows db) \<subseteq> set (relationship_event_rows db') \<Longrightarrow>
   episode_governed e db'"
  unfolding episode_governed_def by blast

lemma episodes_inv_mono:
  assumes "episodes_inv db" and "episode_rows db' = episode_rows db"
    and "set (message_rows db) \<subseteq> set (message_rows db')"
    and "set (emotion_event_rows db) \<subseteq> set (emotion_event_rows db')"
    and "set (relationship_event_rows db) \<subseteq> set (relationship_event_rows db')"
  shows "episodes_inv db'"
  using assms episode_trigger_mono [OF _ assms(3)] episode_governed_mono [OF _ assms(4,5)]
  unfolding episodes_inv_def by metis

section \<open>Steps that touch one repository\<close>

lemma emotion_committed_db_frame:
  "relationship_state_rows (emotion_committed_db now t db) = relationship_state_rows db"
  "relationship_event_rows (emotion_committed_db now t db) = relationship_event_rows db"
  by (simp_all add: emotion_committed_db_def Let_def)

lemma emotion_committed_db_conv:
  fixes db :: "'a conversation_db_scheme"
  shows "conversation_rows (emotion_committed_db now t db) = conversation_rows db"
  "message_rows (emotion_committed_db now t db) = message_rows db"
  "episode_rows (emotion_committed_db now t db) = episode_rows db"
  by (simp_all add: emotion_committed_db_def Let_def)

lemma relationship_committed_db_conv:
  fixes db :: "'a conversation_db_scheme"
  shows "conversation_rows (relationship_committed_db now t db) = conversation_rows db"
  "message_rows (relationship_committed_db now t db) = message_rows db"
  "episode_rows (relationship_committed_db now t db) = episode_rows db"
  "life_identity (relationship_committed_db now t db) = life_identity db"
  "emotion_state_rows (relationship_committed_db now t db) = emotion_state_rows db"
  "emotion_event_rows (relationship_committed_db now t db) = emotion_event_rows db"
  by (simp_all add: relationship_committed_db_def Let_def)

text \<open>An emotion commit inside a transaction: the invariant, the frame and the event it leaves.\<close>

abbreviation emotion_transition_key :: "emotion_transition \<Rightarrow> string \<times> string \<times> string" where
  "emotion_transition_key t \<equiv> (et_life_id t, esrc_kind (et_source t), esrc_reference (et_source t))"

abbreviation relationship_transition_key ::
    "relationship_transition \<Rightarrow> (string \<times> string) \<times> string \<times> string" where
  "relationship_transition_key t \<equiv> (rt_key t, rsrc_kind (rt_source t), rsrc_reference (rt_source t))"

lemma emotion_commit_effect:
  fixes db :: "'a conversation_db_scheme"
  assumes inv: "emotion_ledger_inv db"
    and com: "emotion_commit_in_transaction io now t db = Inr (out, db')"
  shows "emotion_ledger_inv db'
    \<and> db' = (if emotion_fresh out then emotion_committed_db now t db else db)
    \<and> emotion_transition_key t \<in> emotion_event_source_key ` set (emotion_event_rows db')
    \<and> (emotion_fresh out \<longrightarrow> \<not> emotion_event_exists (et_event_id t) (emotion_transition_key t) db)"
proof (rule emotion_commit_cases [OF com])
  fix e s
  assume a: "out = EmotionReplayed e s" "db' = db" "e \<in> set (emotion_event_rows db)"
    "emotion_event_evidence_matches e t (et_expected_revision t + 1)"
  from a(4) have "emotion_event_source_key e = emotion_transition_key t"
    by (simp add: emotion_event_evidence_matches_def emotion_event_source_key_def)
  with a(3) have "emotion_transition_key t \<in> emotion_event_source_key ` set (emotion_event_rows db)"
    by (metis image_eqI)
  with a(1,2) inv show ?thesis by simp
next
  fix s s'
  assume out: "out = EmotionCommitted (emotion_event_of now (et_expected_revision t + 1) t) s'"
    and db': "db' = emotion_committed_db now t db"
    and sel: "emotion_select_state (et_life_id t) db = Some s" "es_revision s = et_expected_revision t"
    and ins: "emotion_event_insert (emotion_event_of now (et_expected_revision t + 1) t) db
        = Inr (db\<lparr>emotion_event_rows := emotion_event_rows db
                   @ [emotion_event_of now (et_expected_revision t + 1) t]\<rparr>)"
  have "emotion_ledger_inv db'"
    unfolding db' by (rule emotion_committed_inv [OF inv sel ins])
  moreover have "\<not> emotion_event_exists (et_event_id t) (emotion_transition_key t) db"
    using ins by (auto simp: emotion_event_insert_Inr emotion_event_exists_def
        emotion_event_of_def emotion_event_source_key_def)
  ultimately show ?thesis
    using out db' by (simp add: emotion_committed_db_rows emotion_event_of_def emotion_event_source_key_def)
qed

lemma relationship_commit_effect:
  fixes db :: "'a conversation_db_scheme"
  assumes inv: "relationship_ledger_inv db"
    and com: "relationship_commit_in_transaction io now t db = Inr (out, db')"
  shows "relationship_ledger_inv db'
    \<and> db' = (if relationship_fresh out then relationship_committed_db now t db else db)
    \<and> relationship_transition_key t \<in> relationship_event_source_key ` set (relationship_event_rows db')
    \<and> (relationship_fresh out \<longrightarrow> \<not> relationship_event_exists t db)"
proof (rule relationship_commit_cases [OF com])
  fix e s
  assume a: "out = RelationshipReplayed e s" "db' = db" "e \<in> set (relationship_event_rows db)"
    "relationship_event_evidence_matches e t (rt_expected_revision t + 1)"
  from a(4) have "relationship_event_source_key e = relationship_transition_key t"
    by (simp add: relationship_event_evidence_matches_def relationship_event_source_key_def
        relationship_key_defs)
  with a(3) have "relationship_transition_key t
      \<in> relationship_event_source_key ` set (relationship_event_rows db)"
    by (metis image_eqI)
  with a(1,2) inv show ?thesis by simp
next
  fix s s'
  assume out: "out = RelationshipCommitted (relationship_event_of now (rt_expected_revision t + 1) t) s'"
    and db': "db' = relationship_committed_db now t db"
    and sel: "relationship_select_state (rt_key t) db = Some s" "rs_revision s = rt_expected_revision t"
    and ins: "relationship_event_insert (relationship_event_of now (rt_expected_revision t + 1) t) db
        = Inr (db\<lparr>relationship_event_rows := relationship_event_rows db
                   @ [relationship_event_of now (rt_expected_revision t + 1) t]\<rparr>)"
  have "relationship_ledger_inv db'"
    unfolding db' by (rule relationship_committed_inv [OF inv sel ins])
  moreover have "\<not> relationship_event_exists t db"
    using ins by (auto simp: relationship_event_insert_Inr relationship_event_exists_def
        relationship_event_of_def relationship_event_source_key_def relationship_key_defs)
  ultimately show ?thesis
    using out db' by (simp add: relationship_committed_db_rows relationship_event_of_def
        relationship_event_source_key_def relationship_key_defs)
qed

lemma system_inv_parts:
  assumes "system_inv db"
  shows "emotion_ledger_inv db" "relationship_ledger_inv db" "conversation_inv db" "episodes_inv db"
  using assms by (simp_all add: system_inv_def)

lemma emotion_committed_system:
  assumes inv: "system_inv db" and led: "emotion_ledger_inv (emotion_committed_db now t db)"
  shows "system_inv (emotion_committed_db now t db)"
proof -
  note parts = system_inv_parts [OF inv]
  have "relationship_ledger_inv (emotion_committed_db now t db)"
    using parts(2) by (subst relationship_inv_cong [of _ db])
      (simp_all add: emotion_committed_db_frame emotion_committed_db_rows)
  moreover have "conversation_inv (emotion_committed_db now t db)"
    using parts(3) by (subst conversation_inv_cong [of _ db])
      (simp_all add: emotion_committed_db_conv emotion_committed_db_rows)
  moreover have "episodes_inv (emotion_committed_db now t db)"
    by (rule episodes_inv_mono [OF parts(4)])
      (simp_all add: emotion_committed_db_frame emotion_committed_db_conv emotion_committed_db_rows
         subset_insertI)
  ultimately show ?thesis using led by (simp add: system_inv_def)
qed

lemma relationship_committed_system:
  assumes inv: "system_inv db" and led: "relationship_ledger_inv (relationship_committed_db now t db)"
  shows "system_inv (relationship_committed_db now t db)"
proof -
  note parts = system_inv_parts [OF inv]
  have "emotion_ledger_inv (relationship_committed_db now t db)"
    using parts(1) by (subst emotion_inv_cong [of _ db]) (simp_all add: relationship_committed_db_conv)
  moreover have "conversation_inv (relationship_committed_db now t db)"
    using parts(3) by (subst conversation_inv_cong [of _ db])
      (simp_all add: relationship_committed_db_conv)
  moreover have "episodes_inv (relationship_committed_db now t db)"
    by (rule episodes_inv_mono [OF parts(4)])
      (simp_all add: relationship_committed_db_conv relationship_committed_db_rows subset_insertI)
  ultimately show ?thesis using led by (simp add: system_inv_def)
qed

lemma emotion_commit_system:
  assumes inv: "system_inv db" and com: "emotion_commit_in_transaction io now t db = Inr (out, db')"
  shows "system_inv db'"
  using emotion_commit_effect [OF system_inv_parts(1) [OF inv] com] inv
    emotion_committed_system [OF inv, of now t]
  by (cases "emotion_fresh out") auto

lemma relationship_commit_system:
  assumes inv: "system_inv db" and com: "relationship_commit_in_transaction io now t db = Inr (out, db')"
  shows "system_inv db'"
  using relationship_commit_effect [OF system_inv_parts(2) [OF inv] com] inv
    relationship_committed_system [OF inv, of now t]
  by (cases "relationship_fresh out") auto

lemma turn_written_system:
  assumes inv: "system_inv db" and c: "select_conversation (aq_conversation_id r) db = Some c"
      "cv_life_id c = aq_life_id r"
    and fresh: "turn_messages (aq_conversation_id r) (aq_turn_id r) db = []"
    and ins: "turn_insertable draw r db"
  shows "system_inv (turn_written_db draw r c db)"
proof -
  note parts = system_inv_parts [OF inv]
  have "conversation_inv (turn_written_db draw r c db)"
    by (rule turn_written_inv [OF parts(3) c fresh ins])
  moreover have "episodes_inv (turn_written_db draw r c db)"
    by (rule episodes_inv_mono [OF parts(4)]) (simp_all add: turn_written_db_rows)
  moreover have "emotion_ledger_inv (turn_written_db draw r c db)"
    using parts(1) by (subst emotion_inv_cong [of _ db]) (simp_all add: turn_written_db_rows)
  moreover have "relationship_ledger_inv (turn_written_db draw r c db)"
    using parts(2) by (subst relationship_inv_cong [of _ db]) (simp_all add: turn_written_db_rows)
  ultimately show ?thesis by (simp add: system_inv_def)
qed

section \<open>Append with an emotion event\<close>

text \<open>Reading a conversation after an emotion commit gives what it gave before.\<close>

lemma emotion_after:
  fixes db :: "'a conversation_db_scheme"
  assumes "emotion_ledger_inv db" and "emotion_commit_in_transaction io now t db = Inr (out, db')"
  shows "select_conversation i db' = select_conversation i db"
    and "turn_messages i tid db' = turn_messages i tid db"
    and "message_rows db' = message_rows db"
    and "episode_rows db' = episode_rows db"
    and "relationship_event_rows db' = relationship_event_rows db"
    and "relationship_state_rows db' = relationship_state_rows db"
  using emotion_commit_effect [OF assms]
  by (cases "emotion_fresh out";
      simp add: select_conversation_def turn_messages_def conversation_log_def
        emotion_committed_db_conv emotion_committed_db_frame)+

lemma append_with_emotion_cases:
  fixes db :: "'a conversation_db_scheme"
  assumes inv: "system_inv db"
    and run: "append_with_emotion_in_transaction io draw r t db = Inr ((turn, emotion), db')"
  obtains
    (replayed) c u a where
      "select_conversation (aq_conversation_id r) db = Some c" "cv_life_id c = aq_life_id r"
      "turn_messages (aq_conversation_id r) (aq_turn_id r) db = [u, a]"
      "turn = (turn_view u a)\<lparr>tr_conversation_revision := cv_revision c, tr_replayed := True\<rparr>"
      "sm_content u = aq_user_content r" "db' = db" "\<not> emotion_fresh emotion"
  | (written) c db1 where
      "select_conversation (aq_conversation_id r) db = Some c" "cv_life_id c = aq_life_id r"
      "turn_messages (aq_conversation_id r) (aq_turn_id r) db = []"
      "\<forall>v. aq_expected_revision r = Some v \<longrightarrow> v = cv_revision c"
      "emotion_commit_in_transaction (\<lambda>s. io (TurnEmo s)) (gd_emotion_now draw) t db
         = Inr (emotion, db1)"
      "turn_insertable (gd_turn draw) r db1" "db' = turn_written_db (gd_turn draw) r c db1"
      "turn = written_turn (gd_turn draw) r c"
proof -
  note parts = system_inv_parts [OF inv]
  let ?emo = "emotion_commit_in_transaction (\<lambda>s. io (TurnEmo s)) (gd_emotion_now draw) t db"
  from run obtain c found where
    c: "select_conversation (aq_conversation_id r) db = Some c" "cv_life_id c = aq_life_id r"
    and found: "load_turn (io (TurnConv ConvSelectTurn)) (aq_life_id r) (aq_conversation_id r)
        (aq_turn_id r) db = Inr found"
    and rest: "(case found of
       Some existing \<Rightarrow>
         (if cm_content (tr_user_message existing) \<noteq> aq_user_content r
          then Inl (EtConversation (conversation_error_new TurnIdConflict))
          else if \<not> io TurnEmotionExists then Inl (EtConversation storage_unavailable)
          else if \<not> emotion_event_exists (et_event_id t) (emotion_transition_key t) db
          then Inl EtEmotionEventMissing
          else try_bind (map_err EtEmotion ?emo) (\<lambda>(emotion, db').
               Inr ((existing\<lparr>tr_conversation_revision := cv_revision c, tr_replayed := True\<rparr>,
                     emotion), db')))
     | None \<Rightarrow>
         (if (case aq_expected_revision r of None \<Rightarrow> False | Some v \<Rightarrow> v \<noteq> cv_revision c)
          then Inl (EtConversation (conversation_error_new ConversationChangedDuringRequest))
          else try_bind (map_err EtEmotion ?emo) (\<lambda>(emotion, db1).
               try_bind (map_err EtConversation
                 (write_turn (\<lambda>s. io (TurnConv s)) (gd_turn draw) r c db1)) (\<lambda>(turn, db2).
               Inr ((turn, emotion), db2))))) = Inr ((turn, emotion), db')"
    by (auto simp: append_with_emotion_in_transaction_def try_bind_Inr_iff load_conversation_Inr)
  note found' = found [folded c(2)]
  show thesis
  proof (cases found)
    case None
    note fresh = load_turn_None [OF parts(3) c(1) found' [unfolded None]]
    from rest None obtain db1 where rev: "\<forall>v. aq_expected_revision r = Some v \<longrightarrow> v = cv_revision c"
      and emo: "?emo = Inr (emotion, db1)"
      and wr: "write_turn (\<lambda>s. io (TurnConv s)) (gd_turn draw) r c db1 = Inr (turn, db')"
      by (auto simp: try_bind_Inr_iff split: if_splits option.splits)
    note after = emotion_after [OF parts(1) emo]
    have "conversation_inv db1" by (rule system_inv_parts(3) [OF emotion_commit_system [OF inv emo]])
    from write_turn_Inr [OF this _ c(2)] wr
    have "turn_insertable (gd_turn draw) r db1 \<and> db' = turn_written_db (gd_turn draw) r c db1
        \<and> turn = written_turn (gd_turn draw) r c"
      by (simp add: after c fresh)
    with c fresh rev emo show thesis by (intro written) blast+
  next
    case (Some existing)
    obtain u a where ua: "turn_messages (aq_conversation_id r) (aq_turn_id r) db = [u, a]"
        "existing = turn_view u a"
      using load_turn_Some [OF parts(3) c(1) found' [unfolded Some]] by metis
    from rest Some have content: "cm_content (tr_user_message existing) = aq_user_content r"
      and ex: "emotion_event_exists (et_event_id t) (emotion_transition_key t) db"
      and emo: "?emo = Inr (emotion, db')"
      and turn: "turn = existing\<lparr>tr_conversation_revision := cv_revision c, tr_replayed := True\<rparr>"
      by (auto simp: try_bind_Inr_iff split: if_splits)
    from emotion_commit_effect [OF parts(1) emo] ex have "\<not> emotion_fresh emotion" "db' = db" by auto
    with c ua content turn show thesis by (intro replayed) (simp_all add: turn_view_def)
  qed
qed

lemma append_with_emotion_system:
  assumes inv: "system_inv db"
    and run: "append_with_emotion_in_transaction io draw r t db = Inr ((turn, emotion), db')"
  shows "system_inv db'"
  using assms
proof (cases rule: append_with_emotion_cases)
  case (written c db1)
  note after = emotion_after [OF system_inv_parts(1) [OF inv] written(5)]
  show ?thesis unfolding written(7)
    by (rule turn_written_system [OF emotion_commit_system [OF inv written(5)]])
      (simp_all add: after written)
qed (use inv in simp)

section \<open>The relationship event and the episode\<close>

lemma relationship_after:
  fixes db :: "'a conversation_db_scheme"
  assumes "relationship_ledger_inv db" and "relationship_commit_in_transaction io now t db = Inr (out, db')"
  shows "conversation_rows db' = conversation_rows db"
    and "message_rows db' = message_rows db"
    and "episode_rows db' = episode_rows db"
    and "emotion_event_rows db' = emotion_event_rows db"
    and "emotion_state_rows db' = emotion_state_rows db"
    and "life_identity db' = life_identity db"
  using relationship_commit_effect [OF assms]
  by (cases "relationship_fresh out"; simp add: relationship_committed_db_conv)+

text \<open>The part of a governed turn the first three authorities decide.\<close>

lemma append_with_relationship_cases:
  fixes db :: "'a conversation_db_scheme"
  assumes inv: "system_inv db"
    and run: "append_with_emotion_and_relationship_in_transaction io draw r et rt db
      = Inr ((turn, emotion, relationship), db')"
  obtains
    (replayed) c u a where
      "select_conversation (aq_conversation_id r) db = Some c" "cv_life_id c = aq_life_id r"
      "turn_messages (aq_conversation_id r) (aq_turn_id r) db = [u, a]"
      "turn = (turn_view u a)\<lparr>tr_conversation_revision := cv_revision c, tr_replayed := True\<rparr>"
      "sm_content u = aq_user_content r" "db' = db" "\<not> emotion_fresh emotion"
      "\<not> relationship_fresh relationship"
  | (written) c db1 where
      "select_conversation (aq_conversation_id r) db = Some c" "cv_life_id c = aq_life_id r"
      "turn_messages (aq_conversation_id r) (aq_turn_id r) db = []"
      "\<forall>v. aq_expected_revision r = Some v \<longrightarrow> v = cv_revision c"
      "emotion_commit_in_transaction (\<lambda>s. io (TurnEmo s)) (gd_emotion_now draw) et db
         = Inr (emotion, db1)"
      "turn_insertable (gd_turn draw) r db1"
      "relationship_commit_in_transaction (\<lambda>s. io (TurnRel s)) (gd_relationship_now draw) rt
         (turn_written_db (gd_turn draw) r c db1) = Inr (relationship, db')"
      "turn = written_turn (gd_turn draw) r c"
      "system_inv (turn_written_db (gd_turn draw) r c db1)"
proof -
  from run obtain db2 where prior: "check_prior_turn io r rt db = Inr ()"
    and app: "append_with_emotion_in_transaction io draw r et db = Inr ((turn, emotion), db2)"
    and rel: "relationship_commit_in_transaction (\<lambda>s. io (TurnRel s)) (gd_relationship_now draw) rt db2
      = Inr (relationship, db')"
    by (auto simp: append_with_emotion_and_relationship_in_transaction_def try_seq_Inr_iff
        try_bind_Inr_iff)
  from inv app show thesis
  proof (cases rule: append_with_emotion_cases)
    case (replayed c u a)
    from prior obtain found where
      load: "load_turn (io TurnPriorTurn) (aq_life_id r) (aq_conversation_id r) (aq_turn_id r) db
        = Inr found"
      by (auto simp: check_prior_turn_def try_bind_Inr_iff)
    then obtain existing where "found = Some existing"
      using load_turn_None [OF system_inv_parts(3) [OF inv] replayed(1)] replayed(2,3)
      by (cases found) auto
    with prior load have "relationship_event_exists rt db"
      by (simp add: check_prior_turn_def split: if_splits)
    moreover have "relationship_ledger_inv db" using inv by (rule system_inv_parts)
    ultimately have "\<not> relationship_fresh relationship" "db' = db"
      using relationship_commit_effect [OF _ rel] replayed(6) by auto
    with replayed show thesis by (intro that(1)) simp_all
  next
    case (written c db1)
    with rel append_with_emotion_system [OF inv app] show thesis by (intro that(2)) simp_all
  qed
qed

lemma append_with_relationship_system:
  assumes inv: "system_inv db"
    and run: "append_with_emotion_and_relationship_in_transaction io draw r et rt db
      = Inr ((turn, emotion, relationship), db')"
  shows "system_inv db'"
  using assms
proof (cases rule: append_with_relationship_cases)
  case (written c db1)
  then show ?thesis by (intro relationship_commit_system [OF written(9,7)])
qed (use inv in simp)

text \<open>A stored episode shows that its turn is stored.\<close>

lemma episode_turn_stored:
  assumes "episodes_inv db" and "e \<in> set (episode_rows db)"
  shows "turn_messages (ep_conversation_id e) (ep_turn_id e) db \<noteq> []"
  using assms
  by (fastforce simp: episodes_inv_def episode_trigger_passes_def is_source_row_def
      turn_messages_def conversation_log_def filter_empty_conv)

definition turn_episode :: "append_turn_result \<Rightarrow> experience_episode" where
  "turn_episode turn = episode_of_turn (tr_user_message turn) (tr_assistant_message turn)"

lemma turn_episode_written:
  "ep_conversation_id (turn_episode (written_turn draw r c)) = aq_conversation_id r"
  "ep_turn_id (turn_episode (written_turn draw r c)) = aq_turn_id r"
  "ep_life_id (turn_episode (written_turn draw r c)) = aq_life_id r"
  "ep_user_message_id (turn_episode (written_turn draw r c)) = td_user_id draw"
  "ep_assistant_message_id (turn_episode (written_turn draw r c)) = td_assistant_id draw"
  "ep_source_ref (turn_episode (written_turn draw r c))
     = turn_source_ref (aq_conversation_id r) (aq_turn_id r)"
  by (simp_all add: turn_episode_def episode_of_turn_def written_turn_def turn_view_def turn_rows_def)

lemma governed_turn_cases:
  fixes db :: "'a conversation_db_scheme"
  assumes inv: "system_inv db"
    and run: "governed_turn_in_transaction io draw r et rt db = Inr (out, db')"
  obtains
    (replayed) c u a where
      "select_conversation (aq_conversation_id r) db = Some c" "cv_life_id c = aq_life_id r"
      "turn_messages (aq_conversation_id r) (aq_turn_id r) db = [u, a]"
      "go_turn out = (turn_view u a)\<lparr>tr_conversation_revision := cv_revision c, tr_replayed := True\<rparr>"
      "sm_content u = aq_user_content r" "db' = db" "\<not> emotion_fresh (go_emotion out)"
      "\<not> relationship_fresh (go_relationship out)"
      "go_experience out = ExperienceReplayed (turn_episode (go_turn out))"
      "turn_episode (go_turn out) \<in> set (episode_rows db)"
  | (written) c db1 db2 where
      "select_conversation (aq_conversation_id r) db = Some c" "cv_life_id c = aq_life_id r"
      "turn_messages (aq_conversation_id r) (aq_turn_id r) db = []"
      "\<forall>v. aq_expected_revision r = Some v \<longrightarrow> v = cv_revision c"
      "emotion_commit_in_transaction (\<lambda>s. io (TurnEmo s)) (gd_emotion_now draw) et db
         = Inr (go_emotion out, db1)"
      "turn_insertable (gd_turn draw) r db1"
      "relationship_commit_in_transaction (\<lambda>s. io (TurnRel s)) (gd_relationship_now draw) rt
         (turn_written_db (gd_turn draw) r c db1) = Inr (go_relationship out, db2)"
      "go_turn out = written_turn (gd_turn draw) r c" "system_inv db2"
      "go_experience out = ExperienceApplied (turn_episode (go_turn out))"
      "episode_insert (turn_episode (go_turn out)) db2 = Inr db'"
proof -
  from run obtain turn emotion relationship db2 experience where
    app: "append_with_emotion_and_relationship_in_transaction io draw r et rt db
      = Inr ((turn, emotion, relationship), db2)"
    and com: "commit_episode_in_transaction (\<lambda>s. io (TurnExp s)) (turn_episode turn) db2
      = Inr (experience, db')"
    and nb: "\<not> (tr_replayed turn \<and> experience_fresh experience)"
    and out: "go_turn out = turn" "go_emotion out = emotion" "go_relationship out = relationship"
      "go_experience out = experience"
    by (auto simp: governed_turn_in_transaction_def try_bind_Inr_iff
        build_conversation_turn_episode_Inr turn_episode_def split: if_splits)
  have sys2: "system_inv db2" by (rule append_with_relationship_system [OF inv app])
  from inv app show thesis
  proof (cases rule: append_with_relationship_cases)
    case (replayed c u a)
    then have "tr_replayed turn" by simp
    with com nb have "experience = ExperienceReplayed (turn_episode turn) \<and> db' = db2
        \<and> turn_episode turn \<in> set (episode_rows db2)"
      by (cases rule: commit_episode_cases [OF com]) auto
    with replayed out show thesis by (intro that(1)) simp_all
  next
    case (written c db1)
    let ?e = "turn_episode turn"
    have "message_rows db2 = message_rows (turn_written_db (gd_turn draw) r c db1)"
      "episode_rows db2 = episode_rows (turn_written_db (gd_turn draw) r c db1)"
      using relationship_after [OF system_inv_parts(2) [OF written(9)] written(7)] by simp_all
    then have rows: "episode_rows db2 = episode_rows db"
      using emotion_after [OF system_inv_parts(1) [OF inv] written(5)]
      by (simp_all add: turn_written_db_rows)
    have "?e \<notin> set (episode_rows db2)"
      using episode_turn_stored [OF system_inv_parts(4) [OF inv], of ?e] written(3,8) rows
      by (auto simp: turn_episode_written)
    then have "experience = ExperienceApplied ?e \<and> episode_insert ?e db2 = Inr db'"
      by (cases rule: commit_episode_cases [OF com]) auto
    with written out sys2 show thesis by (intro that(2) [of c db1 db2]) simp_all
  qed
qed

end
