(* ===== verification/Turn_History.thy ===== *)
theory Turn_History
  imports Turn_Ledger
begin

text \<open>
  Histories of the conversation authority: sequences of the calls of its services, from an empty
  database. In every database they reach the logs, the ledgers and the episodes agree; a log only
  grows; a governed turn is all or nothing and commits once; and a turn that was stored without its
  evidence never gets it later.
\<close>

section \<open>Calls\<close>

text \<open>
  The calls of the services that write, with the outcome of every SQL statement, the clock readings
  and the identities they draw. The deletion of a single message has no caller in the product.
\<close>

datatype turn_op =
    LifeOp string string
  | CreateOp conversation_io string nat nat create_conversation_request
  | RenameOp conversation_io string rename_conversation_request
  | DeleteOp conversation_io string string
  | AppendOp conversation_io turn_draw append_turn_request
  | EmotionOp emotion_io string emotion_transition
  | RelationshipOp relationship_io string relationship_transition
  | EmotionTurnOp turn_io governed_draw append_turn_request emotion_transition
  | RelationshipTurnOp turn_io governed_draw append_turn_request emotion_transition
      relationship_transition
  | GovernedOp turn_io governed_draw append_turn_request emotion_transition relationship_transition

fun turn_step :: "turn_op \<Rightarrow> conversation_db \<Rightarrow> conversation_db" where
  "turn_step (LifeOp now life) db =
     (case relationship_life_insert now life db of Inl _ \<Rightarrow> db | Inr db' \<Rightarrow> db')"
| "turn_step (CreateOp io now timestamp n r) db = snd (service_create io now timestamp n r db)"
| "turn_step (RenameOp io now r) db = snd (service_rename io now r db)"
| "turn_step (DeleteOp io life i) db = snd (service_delete io life i db)"
| "turn_step (AppendOp io draw r) db = snd (service_append_turn io draw r db)"
| "turn_step (EmotionOp io now t) db = snd (emotion_commit_transition io now t db)"
| "turn_step (RelationshipOp io now t) db = snd (relationship_commit_transition io now t db)"
| "turn_step (EmotionTurnOp io draw r et) db = snd (append_complete_turn_with_emotion io draw r et db)"
| "turn_step (RelationshipTurnOp io draw r et rt) db =
     snd (append_complete_turn_with_emotion_and_relationship io draw r et rt db)"
| "turn_step (GovernedOp io draw r et rt) db = snd (commit_governed_turn io draw r et rt db)"

definition empty_conversation_db :: conversation_db where
  "empty_conversation_db =
     \<lparr>life_identity = [], emotion_state_rows = [], emotion_event_rows = [],
      relationship_state_rows = [], relationship_event_rows = [],
      conversation_rows = [], message_rows = [], episode_rows = []\<rparr>"

definition turn_run :: "turn_op list \<Rightarrow> conversation_db \<Rightarrow> conversation_db" where
  "turn_run ops db = fold turn_step ops db"

definition deletes_conversation :: "string \<Rightarrow> turn_op \<Rightarrow> bool" where
  "deletes_conversation i op = (case op of DeleteOp _ _ j \<Rightarrow> j = i | _ \<Rightarrow> False)"

section \<open>What a transaction leaves\<close>

lemma with_transaction_snd:
  obtains "snd (with_transaction b c e body db) = db"
  | x db' where "body db = Inr (x, db')" "with_transaction b c e body db = (Inr x, db')"
proof (cases "with_transaction b c e body db")
  case (Pair res db')
  then show thesis
    by (cases res) (use that in \<open>auto simp: with_transaction_Inr dest!: with_transaction_Inl\<close>)
qed

definition log_extends :: "string \<Rightarrow> 'a conversation_db_scheme \<Rightarrow> 'a conversation_db_scheme \<Rightarrow> bool" where
  "log_extends i db db' \<longleftrightarrow> (\<exists>ms. conversation_log i db' = conversation_log i db @ ms)"

lemma log_extends_refl [simp]: "log_extends i db db"
  by (simp add: log_extends_def)

lemma log_extends_trans: "log_extends i a b \<Longrightarrow> log_extends i b c \<Longrightarrow> log_extends i a c"
  by (auto simp: log_extends_def)

lemma log_extends_same: "message_rows db' = message_rows db \<Longrightarrow> log_extends i db db'"
  by (simp add: log_extends_def conversation_log_def)

lemma log_extends_written: "log_extends i db (turn_written_db draw r c db)"
  by (simp add: log_extends_def conversation_log_written)

lemma log_extends_turn:
  "log_extends i db db' \<Longrightarrow> turn_messages i t db \<noteq> [] \<Longrightarrow> turn_messages i t db' \<noteq> []"
  by (auto simp: log_extends_def turn_messages_def)

text \<open>
  Steps that keep the invariant, only extend the log of a conversation, and record episodes only of
  turns that were not stored before.
\<close>

definition episodes_of_new :: "'a conversation_db_scheme \<Rightarrow> 'a conversation_db_scheme \<Rightarrow> bool" where
  "episodes_of_new db db' \<longleftrightarrow>
     (\<forall>e \<in> set (episode_rows db'). e \<in> set (episode_rows db)
        \<or> turn_messages (ep_conversation_id e) (ep_turn_id e) db = [])"

definition keeps :: "string \<Rightarrow> 'a conversation_db_scheme \<Rightarrow> 'a conversation_db_scheme \<Rightarrow> bool" where
  "keeps i db db' \<longleftrightarrow> system_inv db' \<and> log_extends i db db' \<and> episodes_of_new db db'"

lemma episodes_of_new_same: "episode_rows db' = episode_rows db \<Longrightarrow> episodes_of_new db db'"
  by (simp add: episodes_of_new_def)

lemma keeps_refl: "system_inv db \<Longrightarrow> keeps i db db"
  by (simp add: keeps_def episodes_of_new_same)

lemma append_with_emotion_keeps:
  assumes inv: "system_inv db"
    and run: "append_with_emotion_in_transaction io draw r t db = Inr ((turn, emotion), db')"
  shows "keeps i db db' \<and> episode_rows db' = episode_rows db"
proof -
  from assms have "log_extends i db db' \<and> episode_rows db' = episode_rows db"
  proof (cases rule: append_with_emotion_cases)
    case (written c db1)
    note after = emotion_after [OF system_inv_parts(1) [OF inv] written(5)]
    from log_extends_same [OF after(3)] have "log_extends i db db'"
      unfolding written(7) by (rule log_extends_trans [OF _ log_extends_written])
    then show ?thesis by (simp add: written(7) turn_written_db_rows after)
  qed simp
  then show ?thesis
    using append_with_emotion_system [OF assms] by (simp add: keeps_def episodes_of_new_same)
qed

lemma append_with_relationship_keeps:
  assumes inv: "system_inv db"
    and run: "append_with_emotion_and_relationship_in_transaction io draw r et rt db
      = Inr ((turn, emotion, relationship), db')"
  shows "keeps i db db'"
proof -
  from run obtain db2 where
    app: "append_with_emotion_in_transaction io draw r et db = Inr ((turn, emotion), db2)"
    and rel: "relationship_commit_in_transaction (\<lambda>s. io (TurnRel s)) (gd_relationship_now draw) rt db2
      = Inr (relationship, db')"
    by (auto simp: append_with_emotion_and_relationship_in_transaction_def try_seq_Inr_iff
        try_bind_Inr_iff)
  note k = append_with_emotion_keeps [OF inv app]
  then have "relationship_ledger_inv db2" by (simp add: keeps_def system_inv_def)
  note after = relationship_after [OF this rel]
  from k have "log_extends i db db'"
    unfolding keeps_def by (blast intro: log_extends_trans log_extends_same after(2))
  with k append_with_relationship_system [OF assms] show ?thesis
    by (simp add: keeps_def episodes_of_new_same after)
qed

section \<open>Committing the episode\<close>

text \<open>The bindings tie the two events to the turn.\<close>

lemma validate_governed_turn_Inr:
  "validate_governed_turn r et rt = Inr () \<longleftrightarrow>
     append_turn_request_ok r
     \<and> emotion_transition_key et = (aq_life_id r, ''conversation_turn'',
          turn_source_ref (aq_conversation_id r) (aq_turn_id r))
     \<and> et_event_id et
          = conversation_emotion_event_id (aq_life_id r) (aq_conversation_id r) (aq_turn_id r)
     \<and> relationship_transition_key rt = ((aq_life_id r, ''primary_user''), ''conversation_turn'',
          turn_source_ref (aq_conversation_id r) (aq_turn_id r))
     \<and> rt_event_id rt = conversation_relationship_event_id (aq_life_id r) ''primary_user''
          (aq_conversation_id r) (aq_turn_id r)
     \<and> rt_change_reason rt = ''successful_interaction''"
proof -
  have me: "map_err f m = Inr () \<longleftrightarrow> m = Inr ()" for f :: "'e \<Rightarrow> 'f" and m by simp
  show ?thesis
    unfolding validate_governed_turn_def try_seq_Inr_iff map_err_Inr_iff
      validate_append_turn_request_Inr validate_emotion_binding_def
      validate_relationship_binding_def check_all_Inr_iff
    by (auto simp: turn_source_ref_def conversation_emotion_source_ref_def
        conversation_relationship_source_ref_def CONVERSATION_EMOTION_SOURCE_KIND_def
        CONVERSATION_RELATIONSHIP_SOURCE_KIND_def PRIMARY_USER_SUBJECT_ID_def rt_key_def
        CONVERSATION_RELATIONSHIP_CHANGE_REASON_def)
qed

lemma episode_insert_system:
  assumes inv: "system_inv db" and ins: "episode_insert e db = Inr db'"
    and gov: "episode_governed e db"
  shows "system_inv db'"
proof -
  note parts = system_inv_parts [OF inv]
  from ins have db': "db' = db\<lparr>episode_rows := episode_rows db @ [e]\<rparr>"
    by (simp add: episode_insert_Inr)
  have tr: "episode_trigger_passes x db' = episode_trigger_passes x db" for x
    by (simp add: episode_trigger_passes_def db')
  have gv: "episode_governed x db' = episode_governed x db" for x
    by (simp add: episode_governed_def db')
  have "episodes_inv db'"
    using parts(4) ins gov unfolding episodes_inv_def tr gv
    by (auto simp: episode_insert_Inr db' sorted_wrt_append)
  moreover have "emotion_ledger_inv db'"
    using parts(1) by (subst emotion_inv_cong [of _ db]) (simp_all add: db')
  moreover have "relationship_ledger_inv db'"
    using parts(2) by (subst relationship_inv_cong [of _ db]) (simp_all add: db')
  moreover have "conversation_inv db'"
    using parts(3) by (subst conversation_inv_cong [of _ db]) (simp_all add: db')
  ultimately show ?thesis by (simp add: system_inv_def)
qed

text \<open>What a fresh governed turn leaves, table by table.\<close>

lemma governed_written_rows:
  fixes db :: "'a conversation_db_scheme"
  assumes inv: "system_inv db"
    and emo: "emotion_commit_in_transaction eio enow et db = Inr (emotion, db1)"
    and c: "select_conversation (aq_conversation_id r) db = Some c"
    and rel: "relationship_commit_in_transaction rio rnow rt (turn_written_db draw r c db1)
      = Inr (relationship, db2)"
    and led: "relationship_ledger_inv (turn_written_db draw r c db1)"
    and ins: "episode_insert e db2 = Inr db'"
  shows "message_rows db' = message_rows db @ turn_rows draw r (cv_revision c)"
    and "conversation_rows db' = map (\<lambda>x. if cv_id x = cv_id c
           then touch_conversation (td_touch_now draw) x else x) (conversation_rows db)"
    and "episode_rows db' = episode_rows db @ [e]"
    and "emotion_event_rows db' = emotion_event_rows db
      @ (if emotion_fresh emotion then [emotion_event_of enow (et_expected_revision et + 1) et] else [])"
    and "relationship_event_rows db' = relationship_event_rows db
      @ (if relationship_fresh relationship
         then [relationship_event_of rnow (rt_expected_revision rt + 1) rt] else [])"
    and "life_identity db' = life_identity db"
proof -
  note e1 = emotion_commit_effect [OF system_inv_parts(1) [OF inv] emo]
  note ea = emotion_after [OF system_inv_parts(1) [OF inv] emo]
  note r1 = relationship_commit_effect [OF led rel]
  note ra = relationship_after [OF led rel]
  have db': "db' = db2\<lparr>episode_rows := episode_rows db2 @ [e]\<rparr>"
    using ins by (simp add: episode_insert_Inr)
  have conv: "conversation_rows db1 = conversation_rows db"
    using e1 by (cases "emotion_fresh emotion") (simp_all add: emotion_committed_db_conv)
  show "message_rows db' = message_rows db @ turn_rows draw r (cv_revision c)"
    by (simp add: db' ra ea turn_written_db_rows)
  show "conversation_rows db' = map (\<lambda>x. if cv_id x = cv_id c
      then touch_conversation (td_touch_now draw) x else x) (conversation_rows db)"
    by (simp add: db' ra turn_written_db_def conv)
  show "episode_rows db' = episode_rows db @ [e]"
    by (simp add: db' ra ea turn_written_db_rows)
  show "emotion_event_rows db' = emotion_event_rows db
      @ (if emotion_fresh emotion then [emotion_event_of enow (et_expected_revision et + 1) et] else [])"
    using e1 by (simp add: db' ra turn_written_db_rows emotion_committed_db_rows)
  show "relationship_event_rows db' = relationship_event_rows db
      @ (if relationship_fresh relationship
         then [relationship_event_of rnow (rt_expected_revision rt + 1) rt] else [])"
    using r1 by (simp add: db' ea turn_written_db_rows relationship_committed_db_rows)
  show "life_identity db' = life_identity db"
    using e1 by (simp add: db' ra turn_written_db_rows emotion_committed_db_rows)
qed

lemma governed_turn_keeps:
  assumes inv: "system_inv db" and valid: "validate_governed_turn r et rt = Inr ()"
    and run: "governed_turn_in_transaction io draw r et rt db = Inr (out, db')"
  shows "keeps i db db'"
  using inv run
proof (cases rule: governed_turn_cases)
  case (replayed c u a)
  with inv show ?thesis by (simp add: keeps_refl)
next
  case (written c db1 db2)
  let ?e = "turn_episode (go_turn out)"
  note emo = emotion_commit_effect [OF system_inv_parts(1) [OF inv] written(5)]
  have "relationship_ledger_inv (turn_written_db (gd_turn draw) r c db1)"
    using turn_written_system [OF emotion_commit_system [OF inv written(5)], of r c "gd_turn draw"]
      written emotion_after [OF system_inv_parts(1) [OF inv] written(5)]
    by (simp add: system_inv_def)
  note led = this
  note rel = relationship_commit_effect [OF led written(7)]
  note ra = relationship_after [OF led written(7)]
  have "emotion_event_rows db2 = emotion_event_rows db1" by (simp add: ra turn_written_db_rows)
  with emo have "emotion_transition_key et \<in> emotion_event_source_key ` set (emotion_event_rows db2)"
    by metis
  moreover from rel have "relationship_transition_key rt
      \<in> relationship_event_source_key ` set (relationship_event_rows db2)" by metis
  ultimately have "episode_governed ?e db2"
    using valid unfolding validate_governed_turn_Inr episode_governed_def written(8)
      turn_episode_written by metis
  then have "system_inv db'" by (rule episode_insert_system [OF written(9,11)])
  moreover have "log_extends i db db'"
    using governed_written_rows(1) [OF inv written(5,1,7) led written(11)]
    by (simp add: log_extends_def conversation_log_def)
  moreover have "episodes_of_new db db'"
    using governed_written_rows(3) [OF inv written(5,1,7) led written(11)] written(3)
    by (simp add: episodes_of_new_def written(8) turn_episode_written)
  ultimately show ?thesis by (simp add: keeps_def)
qed

section \<open>Every call keeps the invariant\<close>

lemma with_transaction_keeps:
  assumes inv: "system_inv db" and body: "\<And>x db'. body db = Inr (x, db') \<Longrightarrow> keeps i db db'"
  shows "keeps i db (snd (with_transaction b c e body db))"
proof (rule with_transaction_snd [of b c e body db])
  assume "snd (with_transaction b c e body db) = db"
  with inv show ?thesis by (simp add: keeps_refl)
next
  fix x db'
  assume "body db = Inr (x, db')" "with_transaction b c e body db = (Inr x, db')"
  with body show ?thesis by simp
qed

lemma keeps_rows:
  assumes inv: "system_inv db" and conv: "conversation_inv db'"
    and msgs: "message_rows db' = message_rows db" and eps: "episode_rows db' = episode_rows db"
    and emo: "emotion_ledger_inv db'" "emotion_event_rows db' = emotion_event_rows db"
    and rel: "relationship_ledger_inv db'" "relationship_event_rows db' = relationship_event_rows db"
  shows "keeps i db db'"
proof -
  have "episodes_inv db'"
    by (rule episodes_inv_mono [OF system_inv_parts(4) [OF inv]]) (simp_all add: msgs eps emo rel)
  with conv emo rel show ?thesis
    by (simp add: keeps_def system_inv_def log_extends_same msgs eps episodes_of_new_same)
qed

lemma life_insert_keeps:
  fixes db :: "'a conversation_db_scheme"
  assumes inv: "system_inv db" and ins: "relationship_life_insert now life db = Inr db'"
  shows "keeps i db db'"
proof -
  note parts = system_inv_parts [OF inv]
  have frame: "conversation_rows db' = conversation_rows db" "message_rows db' = message_rows db"
    "episode_rows db' = episode_rows db" "emotion_event_rows db' = emotion_event_rows db"
    using ins by (auto simp: relationship_life_insert_def try_bind_Inr_iff emotion_life_insert_def
        Let_def split: if_splits)
  note rows = relationship_life_insert_Inr [OF ins]
  show ?thesis
  proof (rule keeps_rows [OF inv])
    show "conversation_inv db'"
      by (rule conversation_inv_life [OF parts(3)]) (use rows frame in auto)
    show "emotion_ledger_inv db'" "relationship_ledger_inv db'"
      using relationship_life_insert_emotion_inv [OF parts(1) ins]
        relationship_life_insert_inv [OF parts(2) ins] by simp_all
  qed (simp_all add: frame rows)
qed

lemma conversation_create_keeps:
  assumes inv: "system_inv db"
  shows "keeps i db (snd (conversation_create io now j r db))"
proof -
  note parts = system_inv_parts [OF inv]
  show ?thesis
  proof (rule keeps_rows [OF inv])
    show "emotion_ledger_inv (snd (conversation_create io now j r db))"
      using parts(1) by (subst emotion_inv_cong [of _ db]) (simp_all add: conversation_create_frame)
    show "relationship_ledger_inv (snd (conversation_create io now j r db))"
      using parts(2) by (subst relationship_inv_cong [of _ db])
        (simp_all add: conversation_create_frame)
  qed (simp_all add: conversation_create_frame conversation_create_inv [OF parts(3)])
qed

lemma conversation_rename_keeps:
  assumes inv: "system_inv db"
  shows "keeps i db (snd (conversation_rename io now r db))"
proof (cases rule: conversation_rename_db [of io now r db])
  case same
  with inv show ?thesis by (simp add: keeps_refl)
next
  case (renamed f)
  note parts = system_inv_parts [OF inv]
  show ?thesis
  proof (rule keeps_rows [OF inv])
    show "conversation_inv (snd (conversation_rename io now r db))"
      by (rule conversation_rename_inv [OF parts(3)])
    show "emotion_ledger_inv (snd (conversation_rename io now r db))"
      using parts(1) by (subst emotion_inv_cong [of _ db]) (simp_all add: renamed(1))
    show "relationship_ledger_inv (snd (conversation_rename io now r db))"
      using parts(2) by (subst relationship_inv_cong [of _ db]) (simp_all add: renamed(1))
  qed (simp_all add: renamed(1))
qed

lemma append_complete_turn_keeps:
  assumes inv: "system_inv db"
  shows "keeps i db (snd (append_complete_turn io draw r db))"
proof (cases rule: append_complete_turn_db [OF system_inv_parts(3) [OF inv], of io draw r])
  case 1
  with inv show ?thesis by (simp add: keeps_refl)
next
  case (2 c)
  then show ?thesis
    using turn_written_system [OF inv 2(1-4)]
    by (simp add: keeps_def log_extends_written episodes_of_new_same turn_written_db_rows)
qed

lemma emotion_commit_keeps:
  assumes inv: "system_inv db"
  shows "keeps i db (snd (emotion_commit_transition io now t db))"
  unfolding emotion_commit_transition_def
proof (rule with_transaction_keeps [OF inv])
  fix x db'
  assume run: "emotion_commit_in_transaction io now t db = Inr (x, db')"
  show "keeps i db db'"
    using emotion_commit_system [OF inv run]
      emotion_after(3,4) [OF system_inv_parts(1) [OF inv] run]
    by (simp add: keeps_def log_extends_same episodes_of_new_same)
qed

lemma relationship_commit_keeps:
  assumes inv: "system_inv db"
  shows "keeps i db (snd (relationship_commit_transition io now t db))"
  unfolding relationship_commit_transition_def
proof (rule with_transaction_keeps [OF inv])
  fix x db'
  assume run: "relationship_commit_in_transaction io now t db = Inr (x, db')"
  show "keeps i db db'"
    using relationship_commit_system [OF inv run]
      relationship_after(2,3) [OF system_inv_parts(2) [OF inv] run]
    by (simp add: keeps_def log_extends_same episodes_of_new_same)
qed

lemma commit_governed_turn_keeps:
  assumes inv: "system_inv db"
  shows "keeps i db (snd (commit_governed_turn io draw r et rt db))"
proof (cases "validate_governed_turn r et rt")
  case (Inl e)
  with inv show ?thesis by (simp add: commit_governed_turn_def keeps_refl)
next
  case (Inr u)
  then show ?thesis
    using governed_turn_keeps [OF inv]
      with_transaction_keeps [OF inv, where body = "governed_turn_in_transaction io draw r et rt"]
    by (simp add: commit_governed_turn_def)
qed

lemma append_turn_with_emotion_keeps:
  assumes inv: "system_inv db"
  shows "keeps i db (snd (append_complete_turn_with_emotion io draw r t db))"
proof -
  have "keeps i db (snd (with_transaction b c e (append_with_emotion_in_transaction io draw r t) db))"
    for b c e
    using append_with_emotion_keeps [OF inv] by (intro with_transaction_keeps [OF inv]) force
  then show ?thesis
    using keeps_refl [OF inv] by (simp add: append_complete_turn_with_emotion_def split: sum.split)
qed

lemma append_turn_with_relationship_keeps:
  assumes inv: "system_inv db"
  shows "keeps i db (snd (append_complete_turn_with_emotion_and_relationship io draw r et rt db))"
  using with_transaction_keeps [OF inv,
      where body = "append_with_emotion_and_relationship_in_transaction io draw r et rt"]
    append_with_relationship_keeps [OF inv] keeps_refl [OF inv]
  by (simp add: append_complete_turn_with_emotion_and_relationship_def split: sum.split) force

lemma conversation_deleted_keeps:
  assumes inv: "system_inv db"
  shows "system_inv (conversation_deleted_db j db)"
    and "i \<noteq> j \<Longrightarrow> log_extends i db (conversation_deleted_db j db)"
    and "episodes_of_new db (conversation_deleted_db j db)"
proof -
  let ?db = "conversation_deleted_db j db"
  note parts = system_inv_parts [OF inv]
  have new: "episodes_of_new db ?db" by (simp add: episodes_of_new_def)
  have tr: "episode_trigger_passes e ?db"
    if "episode_trigger_passes e db" "ep_conversation_id e \<noteq> j" for e
    using that by (auto simp: episode_trigger_passes_def is_source_row_def)
  have "episodes_inv ?db"
    using parts(4) tr unfolding episodes_inv_def
    by (auto simp: episode_governed_def intro: sorted_wrt_filter)
  moreover have "emotion_ledger_inv ?db"
    using parts(1) by (subst emotion_inv_cong [of _ db]) simp_all
  moreover have "relationship_ledger_inv ?db"
    using parts(2) by (subst relationship_inv_cong [of _ db]) simp_all
  ultimately show "system_inv ?db"
    using conversation_deleted_inv [OF parts(3)] by (simp add: system_inv_def)
  show "i \<noteq> j \<Longrightarrow> log_extends i db ?db"
    by (simp add: log_extends_def conversation_log_deleted)
  show "episodes_of_new db ?db" by (rule new)
qed

lemma delete_step:
  assumes inv: "system_inv db"
  shows "turn_step (DeleteOp io life j) db \<in> {db, conversation_deleted_db j db}"
  using conversation_delete_db [OF system_inv_parts(3) [OF inv]
      episodes_inv_local [OF system_inv_parts(4) [OF inv]], of io life j]
  by (auto simp: service_delete_def split: sum.split)

lemma turn_step_keeps:
  assumes inv: "system_inv db" and keep: "\<not> deletes_conversation i op"
  shows "keeps i db (turn_step op db)"
proof (cases op)
  case (LifeOp now life)
  then show ?thesis
    using life_insert_keeps [OF inv] keeps_refl [OF inv] by (simp split: sum.split)
next
  case (DeleteOp io life j)
  then show ?thesis
    using delete_step [OF inv, of io life j] conversation_deleted_keeps(1,3) [OF inv, of j]
      conversation_deleted_keeps(2) [OF inv, of i j] keep inv
    by (auto simp: keeps_def deletes_conversation_def episodes_of_new_same)
qed (simp_all add: service_create_def service_rename_def service_append_turn_def keeps_refl inv
    conversation_create_keeps conversation_rename_keeps append_complete_turn_keeps
    emotion_commit_keeps relationship_commit_keeps commit_governed_turn_keeps
    append_turn_with_emotion_keeps append_turn_with_relationship_keeps split: sum.split)

lemma turn_step_system:
  assumes inv: "system_inv db"
  shows "system_inv (turn_step op db)"
proof -
  obtain i where "\<not> deletes_conversation i op"
    by (cases op) (auto simp: deletes_conversation_def intro: that [of "_ # _"])
  from turn_step_keeps [OF inv this] show ?thesis by (simp add: keeps_def)
qed

lemma turn_run_system: "system_inv db \<Longrightarrow> system_inv (turn_run ops db)"
  by (induction ops arbitrary: db) (simp_all add: turn_run_def turn_step_system)

lemma empty_conversation_system: "system_inv empty_conversation_db"
  by (simp add: system_inv_def empty_conversation_db_def emotion_ledger_inv_def
      relationship_ledger_inv_def conversation_inv_def episodes_inv_def)

lemma history_system: "system_inv (turn_run ops empty_conversation_db)"
  by (rule turn_run_system [OF empty_conversation_system])

lemma turn_run_extends:
  "system_inv db \<Longrightarrow> list_all (\<lambda>op. \<not> deletes_conversation i op) ops \<Longrightarrow>
   log_extends i db (turn_run ops db)"
proof (induction ops arbitrary: db)
  case Nil
  show ?case by (simp add: turn_run_def)
next
  case (Cons op ops)
  then have "keeps i db (turn_step op db)" by (simp add: turn_step_keeps)
  then have "log_extends i db (turn_step op db)" "system_inv (turn_step op db)"
    by (simp_all add: keeps_def)
  moreover from Cons this(2) have "log_extends i (turn_step op db) (turn_run ops (turn_step op db))"
    by simp
  ultimately show ?case by (simp add: turn_run_def log_extends_trans)
qed

lemma turn_run_new_episodes:
  "system_inv db \<Longrightarrow> list_all (\<lambda>op. \<not> deletes_conversation i op) ops \<Longrightarrow>
   turn_messages i t db \<noteq> [] \<Longrightarrow> e \<in> set (episode_rows (turn_run ops db)) \<Longrightarrow>
   ep_conversation_id e = i \<Longrightarrow> ep_turn_id e = t \<Longrightarrow> e \<in> set (episode_rows db)"
proof (induction ops arbitrary: db)
  case Nil
  then show ?case by (simp add: turn_run_def)
next
  case (Cons op ops)
  then have k: "keeps i db (turn_step op db)" by (simp add: turn_step_keeps)
  then have "turn_messages i t (turn_step op db) \<noteq> []" "system_inv (turn_step op db)"
    using log_extends_turn Cons.prems(3) by (auto simp: keeps_def)
  with Cons have "e \<in> set (episode_rows (turn_step op db))" by (simp add: turn_run_def)
  with k Cons.prems(3,5,6) show ?case by (auto simp: keeps_def episodes_of_new_def)
qed

lemma turn_run_append: "turn_run (a @ b) db = turn_run b (turn_run a db)"
  by (simp add: turn_run_def)

section \<open>What a governed turn does\<close>

lemma commit_governed_turn_Inr:
  "commit_governed_turn io draw r et rt db = (Inr out, db') \<longleftrightarrow>
     validate_governed_turn r et rt = Inr () \<and> io TurnLock \<and> io TurnBegin \<and> io TurnCommit
     \<and> governed_turn_in_transaction io draw r et rt db = Inr (out, db')"
  by (cases "validate_governed_turn r et rt")
    (auto simp: commit_governed_turn_def with_transaction_Inr)

lemma commit_governed_turn_Inl:
  "commit_governed_turn io draw r et rt db = (Inl e, db') \<Longrightarrow> db' = db"
  by (auto simp: commit_governed_turn_def split: sum.splits dest: with_transaction_Inl)

text \<open>A turn that is stored is never written again.\<close>

lemma stored_turn_replayed:
  assumes inv: "system_inv db"
    and stored: "turn_messages (aq_conversation_id r) (aq_turn_id r) db \<noteq> []"
  shows "snd (commit_governed_turn io draw r et rt db) = db
    \<and> (\<forall>out. fst (commit_governed_turn io draw r et rt db) = Inr out \<longrightarrow>
        tr_replayed (go_turn out)
        \<and> (\<exists>e \<in> set (episode_rows db). ep_conversation_id e = aq_conversation_id r
             \<and> ep_turn_id e = aq_turn_id r))"
proof (cases "commit_governed_turn io draw r et rt db")
  case (Pair res db')
  show ?thesis
  proof (cases res)
    case (Inl e)
    with Pair commit_governed_turn_Inl [of io draw r et rt db e db'] show ?thesis by simp
  next
    case (Inr out)
    with Pair have "governed_turn_in_transaction io draw r et rt db = Inr (out, db')"
      by (simp add: commit_governed_turn_Inr)
    with inv show ?thesis
    proof (cases rule: governed_turn_cases)
      case (replayed c u a)
      from replayed(3) have "u \<in> set (turn_messages (aq_conversation_id r) (aq_turn_id r) db)" by simp
      then have "ep_conversation_id (turn_episode (go_turn out)) = aq_conversation_id r"
        "ep_turn_id (turn_episode (go_turn out)) = aq_turn_id r"
        by (simp_all add: replayed(4) turn_episode_def episode_of_turn_def turn_view_def
            turn_messages_def conversation_log_def)
      with replayed Pair Inr show ?thesis by auto
    next
      case (written c db1 db2)
      with stored show ?thesis by simp
    qed
  qed
qed

section \<open>A governed turn commits\<close>

text \<open>What the tables and the episode builder require of the drawn identities and clock readings.\<close>

definition turn_storable :: "turn_draw \<Rightarrow> append_turn_request \<Rightarrow> conversation_record \<Rightarrow> bool" where
  "turn_storable draw r c \<longleftrightarrow>
     \<not> str_blank (td_user_id draw) \<and> \<not> str_blank (td_assistant_id draw)
     \<and> \<not> str_blank (td_user_now draw) \<and> \<not> str_blank (td_assistant_now draw)
     \<and> td_user_now draw \<le> td_assistant_now draw
     \<and> episode_row_check (turn_episode (written_turn draw r c))"

text \<open>Neither event of the turn is in its ledger, and both transitions continue their ledgers.\<close>

definition evidence_new ::
    "emotion_transition \<Rightarrow> relationship_transition \<Rightarrow> 'a conversation_db_scheme \<Rightarrow> bool" where
  "evidence_new et rt db \<longleftrightarrow>
     emotion_transition_validate et = Inr () \<and> relationship_transition_ok rt
     \<and> et_expected_revision et < i64_max \<and> rt_expected_revision rt < i64_max
     \<and> emotion_revision_of db (et_life_id et) = Some (et_expected_revision et)
     \<and> map_option rs_revision (relationship_select_state (rt_key rt) db)
         = Some (rt_expected_revision rt)
     \<and> \<not> emotion_event_exists (et_event_id et) (emotion_transition_key et) db
     \<and> (\<forall>e \<in> set (relationship_event_rows db). rv_event_id e \<noteq> rt_event_id rt
          \<and> relationship_event_source_key e \<noteq> relationship_transition_key rt)"

lemma written_turn_pair:
  assumes "append_turn_request_ok r" and "turn_storable draw r c" and "turn_insertable draw r db"
  shows "build_conversation_turn_episode (written_turn draw r c)
    = Inr (turn_episode (written_turn draw r c))"
  using assms
  by (simp add: build_conversation_turn_episode_Inr turn_episode_def valid_source_pair_def
      written_turn_def turn_view_def turn_rows_def append_turn_request_ok_def turn_storable_def
      turn_insertable_def)

text \<open>The episode of a turn just written passes every check.\<close>

lemma commit_written_episode:
  fixes db :: "'a conversation_db_scheme"
  assumes inv: "system_inv db" and io: "\<And>s. io s"
    and c: "select_conversation (aq_conversation_id r) db = Some c" "cv_life_id c = aq_life_id r"
    and msgs: "set (turn_rows draw r n) \<subseteq> set (message_rows db)" and n: "n = cv_revision c'"
    and new: "\<forall>e \<in> set (episode_rows db). \<not> episode_clash e (turn_episode (written_turn draw r c'))"
    and ok: "append_turn_request_ok r" "turn_storable draw r c'" "turn_insertable draw r db0"
  shows "commit_episode_in_transaction io (turn_episode (written_turn draw r c')) db
    = Inr (ExperienceApplied (turn_episode (written_turn draw r c')),
           db\<lparr>episode_rows := episode_rows db @ [turn_episode (written_turn draw r c')]\<rparr>)"
proof -
  let ?e = "turn_episode (written_turn draw r c')"
  note parts = system_inv_parts [OF inv]
  note row = conversation_inv_row [OF parts(3) c(1)]
  have dist: "distinct (map sm_id (message_rows db))" using parts(3) by (simp add: conversation_inv_def)
  have e_simps: "ep_conversation_id ?e = aq_conversation_id r" "ep_turn_id ?e = aq_turn_id r"
    "ep_life_id ?e = aq_life_id r" "ep_user_message_id ?e = td_user_id draw"
    "ep_assistant_message_id ?e = td_assistant_id draw"
    "ep_source_ref ?e = turn_source_ref (aq_conversation_id r) (aq_turn_id r)"
    "ep_episode_id ?e = turn_episode_id (aq_life_id r) (aq_conversation_id r) (aq_turn_id r)"
    "ep_started_at ?e = td_user_now draw" "ep_ended_at ?e = td_assistant_now draw"
    "ep_created_at ?e = td_assistant_now draw" "ep_source_kind ?e = ''conversation_turn''"
    by (simp_all add: turn_episode_def episode_of_turn_def written_turn_def turn_view_def
        turn_rows_def episode_constants)
  have shape: "episode_validate_shape ?e = Inr ()"
    using written_turn_pair [OF ok] unfolding build_conversation_turn_episode_def Let_def
    by (auto simp: turn_episode_def episode_validate_def try_seq_Inr_iff split: if_splits)
  obtain u a where ua: "turn_rows draw r n = [u, a]"
      "is_source_row ?e (td_user_id draw) ''user'' (td_user_now draw) u"
      "is_source_row ?e (td_assistant_id draw) ''assistant'' (td_assistant_now draw) a"
    by (simp add: turn_rows_def is_source_row_def e_simps)
  then have mem: "u \<in> set (message_rows db)" "a \<in> set (message_rows db)" using msgs by simp_all
  then have found: "find (\<lambda>m. sm_id m = td_user_id draw) (message_rows db) = Some u"
    "find (\<lambda>m. sm_id m = td_assistant_id draw) (message_rows db) = Some a"
    using find_key_SomeI [OF dist] ua(2,3) by (simp_all add: is_source_row_def)
  have trig: "episode_trigger_passes ?e db"
    using mem ua(2,3) by (auto simp: episode_trigger_passes_def e_simps)
  have fk: "(aq_conversation_id r, aq_life_id r) \<in> (\<lambda>c. (cv_id c, cv_life_id c)) ` set (conversation_rows db)"
    using row(1,2) c(2) by force
  have ids: "td_user_id draw \<in> sm_id ` set (message_rows db)"
    "td_assistant_id draw \<in> sm_id ` set (message_rows db)"
    using mem ua(2,3) unfolding is_source_row_def by (metis image_eqI)+
  have ins: "episode_insert ?e db = Inr (db\<lparr>episode_rows := episode_rows db @ [?e]\<rparr>)"
    using trig new ok(2) row(4) c(2) fk ids
    by (simp add: episode_insert_Inr turn_storable_def e_simps)
  have none: "select_episode (ep_episode_id ?e) db = None"
    "select_episode_by_source (ep_life_id ?e) (ep_source_kind ?e) (ep_source_ref ?e) db = None"
    using new by (auto simp: select_episode_def select_episode_by_source_def find_None_iff
        episode_clash_def)
  have "validate_source_binding io db ?e = Inr ()"
    using io row(1,2,4) c(2) ua(2,3) found
    by (auto simp: validate_source_binding_def e_simps source_message_matches_def is_source_row_def)
  moreover have "validate_canonical_binding ?e = Inr ()"
    by (simp add: validate_canonical_binding_def e_simps)
  ultimately show ?thesis
    by (simp add: commit_episode_in_transaction_def shape none io ins try_seq_def)
qed

lemma governed_commit_succeeds:
  fixes db :: "'a conversation_db_scheme"
  assumes inv: "system_inv db"
    and now: "gd_emotion_now draw \<noteq> []" "gd_relationship_now draw \<noteq> []"
    and valid: "validate_governed_turn r et rt = Inr ()"
    and c: "select_conversation (aq_conversation_id r) db = Some c" "cv_life_id c = aq_life_id r"
    and fresh: "turn_messages (aq_conversation_id r) (aq_turn_id r) db = []"
    and rev: "\<forall>v. aq_expected_revision r = Some v \<longrightarrow> v = cv_revision c"
    and ins: "turn_insertable (gd_turn draw) r db" and store: "turn_storable (gd_turn draw) r c"
    and new: "evidence_new et rt db"
    and eps: "\<forall>e \<in> set (episode_rows db).
      \<not> episode_clash e (turn_episode (written_turn (gd_turn draw) r c))"
  shows "\<exists>out db'. commit_governed_turn (\<lambda>_. True) draw r et rt db = (Inr out, db')
    \<and> go_turn out = written_turn (gd_turn draw) r c
    \<and> emotion_fresh (go_emotion out) \<and> relationship_fresh (go_relationship out)
    \<and> experience_fresh (go_experience out)"
proof -
  note parts = system_inv_parts [OF inv]
  let ?db1 = "emotion_committed_db (gd_emotion_now draw) et db"
  let ?turn = "written_turn (gd_turn draw) r c"
  let ?db2 = "turn_written_db (gd_turn draw) r c ?db1"
  let ?db3 = "relationship_committed_db (gd_relationship_now draw) rt ?db2"
  obtain emo where emo: "emotion_commit_in_transaction (\<lambda>_. True) (gd_emotion_now draw) et db
      = Inr (emo, ?db1)" and ef: "emotion_fresh emo"
    using emotion_commit_succeeds [where io = "\<lambda>_. True", OF parts(1) TrueI now(1), of et] new
    unfolding evidence_new_def emotion_event_exists_def emotion_commit_transition_def
    by (auto simp: with_transaction_Inr)
  note after = emotion_after [OF parts(1) emo]
  note inv1 = emotion_commit_system [OF inv emo]
  have ins1: "turn_insertable (gd_turn draw) r ?db1" using ins by (simp add: turn_insertable_def after)
  have wr: "write_turn (\<lambda>_. True) (gd_turn draw) r c ?db1 = Inr (?turn, ?db2)"
    using write_turn_Inr [OF system_inv_parts(3) [OF inv1], of r c] c fresh ins1
    by (simp add: after)
  have load: "load_turn True (aq_life_id r) (aq_conversation_id r) (aq_turn_id r) db = Inr None"
    using load_turn_eq [OF parts(3) c(1), of "aq_turn_id r"] fresh c(2) by simp
  have load_c: "load_conversation True (aq_life_id r) (aq_conversation_id r) db = Inr c"
    using c by (simp add: load_conversation_Inr)
  have app: "append_with_emotion_in_transaction (\<lambda>_. True) draw r et db = Inr ((?turn, emo), ?db2)"
    using rev by (simp add: append_with_emotion_in_transaction_def load_c load emo wr
        split: option.split)
  have inv2: "system_inv ?db2" by (rule append_with_emotion_system [OF inv app])
  obtain rs where rs: "relationship_select_state (rt_key rt) db = Some rs"
    "rs_revision rs = rt_expected_revision rt" using new by (auto simp: evidence_new_def)
  have rs2: "relationship_select_state (rt_key rt) ?db2 = Some rs"
    using rs(1) by (simp add: relationship_select_state_def turn_written_db_rows after)
  have "\<forall>e \<in> set (relationship_event_rows ?db2). rv_event_id e \<noteq> rt_event_id rt
      \<and> relationship_event_source_key e \<noteq> relationship_transition_key rt"
    using new by (simp add: evidence_new_def turn_written_db_rows after)
  then obtain rel where rel: "relationship_commit_in_transaction (\<lambda>_. True)
      (gd_relationship_now draw) rt ?db2 = Inr (rel, ?db3)" and rf: "relationship_fresh rel"
    using relationship_commit_succeeds [where io = "\<lambda>_. True",
        OF system_inv_parts(2) [OF inv2] TrueI now(2) _ _ rs2 rs(2)] new
    by (auto simp: evidence_new_def relationship_commit_transition_def with_transaction_Inr)
  have prior: "check_prior_turn (\<lambda>_. True) r rt db = Inr ()" by (simp add: check_prior_turn_def load)
  have app2: "append_with_emotion_and_relationship_in_transaction (\<lambda>_. True) draw r et rt db
      = Inr ((?turn, emo, rel), ?db3)"
    by (simp add: append_with_emotion_and_relationship_in_transaction_def prior app rel try_seq_def)
  note inv3 = append_with_relationship_system [OF inv app2]
  note ra = relationship_after [OF system_inv_parts(2) [OF inv2] rel]
  have sel3: "select_conversation (aq_conversation_id r) ?db3
      = Some (touch_conversation (td_touch_now (gd_turn draw)) c)"
    using select_conversation_written [of "aq_conversation_id r" ?db1 c] c(1)
      conversation_inv_row(2) [OF parts(3) c(1)]
    by (simp add: after) (simp add: select_conversation_def ra)
  have ok: "append_turn_request_ok r" using valid by (simp add: validate_governed_turn_Inr)
  have "commit_episode_in_transaction (\<lambda>_. True) (turn_episode ?turn) ?db3
      = Inr (ExperienceApplied (turn_episode ?turn),
             ?db3\<lparr>episode_rows := episode_rows ?db3 @ [turn_episode ?turn]\<rparr>)"
    by (rule commit_written_episode [OF inv3 TrueI sel3 _ _ refl _ ok store ins])
      (use c(2) eps in \<open>simp_all add: ra turn_written_db_rows after\<close>)
  with app2 written_turn_pair [OF ok store ins]
  have "governed_turn_in_transaction (\<lambda>_. True) draw r et rt db = Inr
      (\<lparr>go_turn = ?turn, go_emotion = emo, go_relationship = rel,
        go_experience = ExperienceApplied (turn_episode ?turn)\<rparr>,
       ?db3\<lparr>episode_rows := episode_rows ?db3 @ [turn_episode ?turn]\<rparr>)"
    by (simp add: governed_turn_in_transaction_def)
      (simp add: written_turn_def turn_view_def)
  with ef rf show ?thesis by (simp add: commit_governed_turn_Inr valid)
qed

end
