(* ===== verification/Governed_Turns.thy ===== *)
theory Governed_Turns
  imports Turn_History
begin

text \<open>
  The properties of governed conversation turns, over every history of service calls that starts
  from an empty database, and a sample history that shows that they apply.
\<close>

section \<open>A sample history\<close>

definition turn_sample_conversation_id :: string where
  "turn_sample_conversation_id = generate_id ''conversation'' 7 1"

definition turn_sample_ops :: "turn_op list" where
  "turn_sample_ops =
     [LifeOp ''t0'' ''life-a'',
      CreateOp (\<lambda>_. True) ''t1'' 7 1 \<lparr>ccq_life_id = ''life-a'', ccq_title = ''Talk''\<rparr>]"

definition turn_sample_request :: append_turn_request where
  "turn_sample_request =
     \<lparr>aq_life_id = ''life-a'', aq_conversation_id = turn_sample_conversation_id, aq_turn_id = ''turn-1'',
      aq_user_content = ''hello'', aq_assistant_content = ''hi'', aq_expected_revision = Some 0\<rparr>"

definition turn_sample_emotion :: emotion_transition where
  "turn_sample_emotion =
     \<lparr>et_event_id = conversation_emotion_event_id ''life-a'' turn_sample_conversation_id ''turn-1'',
      et_life_id = ''life-a'',
      et_source = \<lparr>esrc_kind = ''conversation_turn'',
        esrc_reference = turn_source_ref turn_sample_conversation_id ''turn-1''\<rparr>,
      et_valence_delta = 60, et_activation_delta = - 5, et_expected_revision = 0,
      et_next_valence = 60, et_next_activation = - 5, et_policy_version = 1,
      et_event_time = ''t2''\<rparr>"

definition turn_sample_policy_request :: relationship_policy_request where
  "turn_sample_policy_request =
     \<lparr>rpr_event_id = conversation_relationship_event_id ''life-a'' ''primary_user''
        turn_sample_conversation_id ''turn-1'',
      rpr_source = \<lparr>rsrc_kind = ''conversation_turn'',
        rsrc_reference = turn_source_ref turn_sample_conversation_id ''turn-1''\<rparr>,
      rpr_change_reason = ''successful_interaction'', rpr_stimulus = SuccessfulConversationTurn,
      rpr_event_time = ''t2''\<rparr>"

definition turn_sample_relationship :: relationship_transition where
  "turn_sample_relationship =
     relationship_evolved (relationship_initial_state ''life-a'' ''t0'') turn_sample_policy_request"

definition turn_sample_draw :: governed_draw where
  "turn_sample_draw =
     \<lparr>gd_turn = \<lparr>td_user_id = ''m1'', td_assistant_id = ''m2'', td_user_now = ''t2'',
        td_assistant_now = ''t3'', td_touch_now = ''t3''\<rparr>,
      gd_emotion_now = ''t3'', gd_relationship_now = ''t3''\<rparr>"

definition turn_sample_conversation :: conversation_record where
  "turn_sample_conversation =
     \<lparr>cv_id = turn_sample_conversation_id, cv_life_id = ''life-a'', cv_title = ''Talk'', cv_revision = 0,
      cv_created_at = ''t1'', cv_updated_at = ''t1'', cv_last_message_at = ''t1''\<rparr>"

definition turn_sample_db :: conversation_db where
  "turn_sample_db =
     \<lparr>life_identity = [''life-a''], emotion_state_rows = [emotion_initial_state ''life-a'' ''t0''],
      emotion_event_rows = [],
      relationship_state_rows = [relationship_initial_state ''life-a'' ''t0''],
      relationship_event_rows = [], conversation_rows = [turn_sample_conversation], message_rows = [],
      episode_rows = []\<rparr>"

lemma turn_sample_checks:
  "\<not> str_blank ''life-a''" "\<not> str_blank ''turn-1''" "\<not> str_blank ''hello''" "\<not> str_blank ''hi''"
  "\<not> str_blank ''t2''" "\<not> str_blank ''t3''" "\<not> str_blank ''m1''" "\<not> str_blank ''m2''"
  "\<not> str_blank ''conversation_turn''" "\<not> str_blank ''primary_user''"
  "chars_count ''turn-1'' = 6" "chars_count ''hello'' = 5" "chars_count ''hi'' = 2"
  "normalize_title ''Talk'' = Inr ''Talk''" "sql_length (sql_trim ''Talk'') = 4"
  "sql_length ''hello'' = 5" "sql_length ''hi'' = 2"
  "sql_length (sql_trim ''turn-1'') = 6" "sql_length (sql_trim ''hello'') = 5"
  "sql_length (sql_trim ''hi'') = 2"
  "validate_change_reason ''successful_interaction'' = Inr ()"
  by code_simp+

lemma turn_sample_identities:
  "\<not> str_blank turn_sample_conversation_id" "sql_text turn_sample_conversation_id"
  "sql_text (turn_source_ref turn_sample_conversation_id ''turn-1'')"
  "sql_text (turn_episode_id ''life-a'' turn_sample_conversation_id ''turn-1'')"
  "sql_text ''life-a''" "sql_text ''turn-1''" "sql_text ''m1''" "sql_text ''m2''"
  "sql_text ''t2''" "sql_text ''t3''" "''t2'' \<le> ''t3''"
  by code_simp+

lemma turn_sample_db_run: "turn_run turn_sample_ops empty_conversation_db = turn_sample_db"
proof -
  let ?db1 = "turn_sample_db\<lparr>conversation_rows := []\<rparr>"
  have life: "relationship_life_insert ''t0'' ''life-a'' empty_conversation_db = Inr ?db1"
    by (simp add: relationship_life_insert_def empty_conversation_db_def emotion_life_insert_def
        emotion_initial_state_def emotion_state_row_check_def turn_sample_db_def Let_def)
      (simp add: relationship_state_row_check_def relationship_initial_state_def dimensions_ok_def
        relationship_neutral_def)
  have row: "conversation_row_check turn_sample_conversation"
    by (simp add: conversation_row_check_def turn_sample_conversation_def turn_sample_checks)
  have "service_create (\<lambda>_. True) ''t1'' 7 1 \<lparr>ccq_life_id = ''life-a'', ccq_title = ''Talk''\<rparr> ?db1
      = (Inr turn_sample_conversation, turn_sample_db)"
    unfolding service_create_def turn_sample_conversation_id_def [symmetric]
    using row
    by (simp add: conversation_validate_life_id_def turn_sample_checks try_seq_def conversation_create_def
        ensure_life_exists_def conversation_insert_def load_conversation_def select_conversation_def)
      (simp add: turn_sample_db_def turn_sample_conversation_def)
  then show ?thesis by (simp add: turn_run_def turn_sample_ops_def life)
qed

lemma turn_sample_valid: "validate_governed_turn turn_sample_request turn_sample_emotion turn_sample_relationship = Inr ()"
  unfolding validate_governed_turn_Inr
  by (simp add: append_turn_request_ok_def turn_sample_request_def turn_sample_checks turn_sample_identities
      turn_sample_emotion_def turn_sample_relationship_def relationship_evolved_def rt_key_def
      turn_sample_policy_request_def relationship_initial_state_def)

lemma turn_sample_system: "system_inv turn_sample_db"
  using history_system [of turn_sample_ops] by (simp add: turn_sample_db_run)

lemma turn_sample_turn_fresh: "turn_messages i t turn_sample_db = []"
  by (simp add: turn_messages_def conversation_log_def turn_sample_db_def)

lemma turn_sample_insertable: "turn_insertable (gd_turn turn_sample_draw) turn_sample_request turn_sample_db"
  by (simp add: turn_insertable_def turn_sample_draw_def turn_sample_request_def turn_sample_db_def turn_sample_checks)

lemma turn_sample_storable: "turn_storable (gd_turn turn_sample_draw) turn_sample_request turn_sample_conversation"
proof -
  have "episode_row_check (turn_episode (written_turn (gd_turn turn_sample_draw) turn_sample_request
      turn_sample_conversation))"
    by (simp add: episode_row_check_def turn_episode_def episode_of_turn_def written_turn_def
        turn_view_def turn_rows_def turn_sample_draw_def turn_sample_request_def turn_sample_identities
        episode_constants)
  then show ?thesis
    by (simp add: turn_storable_def turn_sample_draw_def turn_sample_checks turn_sample_identities)
qed

lemma turn_sample_event_ids:
  "\<not> str_blank (conversation_relationship_event_id l s c t)"
  "\<not> str_blank (conversation_emotion_event_id l c t)"
  by (rule not_blank_colon; simp add: conversation_relationship_event_id_def
      conversation_emotion_event_id_def)+

lemma turn_sample_evidence: "evidence_new turn_sample_emotion turn_sample_relationship turn_sample_db"
proof -
  have "snake_case ''successful_interaction''"
    using turn_sample_checks(21) by (simp only: validate_change_reason_ok)
  then have req: "relationship_request_ok turn_sample_policy_request"
    by (simp add: relationship_request_ok_def turn_sample_policy_request_def turn_sample_checks turn_sample_event_ids
        turn_identities_not_blank)
  have rel: "relationship_transition_ok turn_sample_relationship"
    unfolding turn_sample_relationship_def
    by (rule relationship_evolved_ok [OF relationship_sample_state_ok req])
  have emo: "emotion_transition_validate turn_sample_emotion = Inr ()"
    by (simp add: emotion_transition_validate_ok turn_sample_emotion_def emotion_affect_ok_def
        turn_sample_checks turn_sample_event_ids turn_identities_not_blank)
  have "rt_key turn_sample_relationship = (''life-a'', ''primary_user'')"
    "rt_expected_revision turn_sample_relationship = 0"
    by (simp_all add: turn_sample_relationship_def relationship_evolved_def rt_key_def
        relationship_initial_state_def)
  with emo rel show ?thesis
    by (simp add: evidence_new_def emotion_event_exists_def turn_sample_db_def emotion_revision_of_def
        emotion_select_state_def relationship_select_state_def i64_bounds)
      (simp add: turn_sample_emotion_def emotion_initial_state_def)
qed

lemma turn_sample_commit:
  "\<exists>out db'. commit_governed_turn (\<lambda>_. True) turn_sample_draw turn_sample_request turn_sample_emotion
      turn_sample_relationship turn_sample_db = (Inr out, db')
    \<and> go_turn out = written_turn (gd_turn turn_sample_draw) turn_sample_request turn_sample_conversation
    \<and> emotion_fresh (go_emotion out) \<and> relationship_fresh (go_relationship out)
    \<and> experience_fresh (go_experience out)"
proof (rule governed_commit_succeeds [OF turn_sample_system])
  show "select_conversation (aq_conversation_id turn_sample_request) turn_sample_db = Some turn_sample_conversation"
    by (simp add: select_conversation_def turn_sample_db_def turn_sample_request_def turn_sample_conversation_def)
qed (simp_all add: turn_sample_valid turn_sample_turn_fresh turn_sample_insertable turn_sample_storable turn_sample_evidence,
    simp_all add: turn_sample_draw_def turn_sample_request_def turn_sample_conversation_def turn_sample_db_def)

text \<open>The history that ends with the governed turn.\<close>

definition turn_sample_turn_op :: turn_op where
  "turn_sample_turn_op =
     GovernedOp (\<lambda>_. True) turn_sample_draw turn_sample_request turn_sample_emotion turn_sample_relationship"

text \<open>What a fresh governed turn leaves.\<close>

lemma governed_turn_fresh_rows:
  assumes inv: "system_inv db"
    and run: "governed_turn_in_transaction io draw r et rt db = Inr (out, db')"
    and fresh: "\<not> tr_replayed (go_turn out)"
  obtains c where "select_conversation (aq_conversation_id r) db = Some c" "cv_life_id c = aq_life_id r"
    "turn_messages (aq_conversation_id r) (aq_turn_id r) db = []"
    "aq_expected_revision r \<in> {None, Some (cv_revision c)}"
    "message_rows db' = message_rows db @ turn_rows (gd_turn draw) r (cv_revision c)"
    "conversation_rows db' = map (\<lambda>x. if cv_id x = cv_id c
       then touch_conversation (td_touch_now (gd_turn draw)) x else x) (conversation_rows db)"
    "emotion_event_rows db' = emotion_event_rows db
       @ (if emotion_fresh (go_emotion out)
          then [emotion_event_of (gd_emotion_now draw) (et_expected_revision et + 1) et] else [])"
    "relationship_event_rows db' = relationship_event_rows db
       @ (if relationship_fresh (go_relationship out)
          then [relationship_event_of (gd_relationship_now draw) (rt_expected_revision rt + 1) rt]
          else [])"
    "episode_rows db' = episode_rows db @ [turn_episode (go_turn out)]"
    "go_turn out = written_turn (gd_turn draw) r c"
  using inv run
proof (cases rule: governed_turn_cases)
  case (replayed c u a)
  with fresh show thesis by simp
next
  case (written c db1 db2)
  have "relationship_ledger_inv (turn_written_db (gd_turn draw) r c db1)"
    using turn_written_system [OF emotion_commit_system [OF inv written(5)], of r c "gd_turn draw"]
      written emotion_after [OF system_inv_parts(1) [OF inv] written(5)]
    by (simp add: system_inv_def)
  note rows = governed_written_rows [OF inv written(5,1,7) this written(11)]
  have "aq_expected_revision r \<in> {None, Some (cv_revision c)}"
    using written(4) by (cases "aq_expected_revision r") auto
  with written rows show thesis by (intro that [of c]) simp_all
qed

lemma turn_sample_turn_run:
  obtains out db' where
    "commit_governed_turn (\<lambda>_. True) turn_sample_draw turn_sample_request turn_sample_emotion turn_sample_relationship
       (turn_run turn_sample_ops empty_conversation_db) = (Inr out, db')"
    "\<not> tr_replayed (go_turn out)"
    "turn_run (turn_sample_ops @ [turn_sample_turn_op]) empty_conversation_db = db'"
    "episode_rows db' = [turn_episode (go_turn out)]"
    "message_rows db' = turn_rows (gd_turn turn_sample_draw) turn_sample_request 0"
    "go_turn out = written_turn (gd_turn turn_sample_draw) turn_sample_request turn_sample_conversation"
proof -
  obtain out db' where com: "commit_governed_turn (\<lambda>_. True) turn_sample_draw turn_sample_request turn_sample_emotion
      turn_sample_relationship turn_sample_db = (Inr out, db')"
    and turn: "go_turn out = written_turn (gd_turn turn_sample_draw) turn_sample_request turn_sample_conversation"
    using turn_sample_commit by blast
  have fresh: "\<not> tr_replayed (go_turn out)" by (simp add: turn written_turn_def turn_view_def)
  have run: "turn_run (turn_sample_ops @ [turn_sample_turn_op]) empty_conversation_db = db'"
    unfolding turn_run_append turn_sample_db_run by (simp add: turn_run_def turn_sample_turn_op_def com)
  from com have "governed_turn_in_transaction (\<lambda>_. True) turn_sample_draw turn_sample_request turn_sample_emotion
      turn_sample_relationship turn_sample_db = Inr (out, db')" by (simp add: commit_governed_turn_Inr)
  then obtain c where "select_conversation (aq_conversation_id turn_sample_request) turn_sample_db = Some c"
    "message_rows db' = message_rows turn_sample_db @ turn_rows (gd_turn turn_sample_draw) turn_sample_request (cv_revision c)"
    "episode_rows db' = episode_rows turn_sample_db @ [turn_episode (go_turn out)]"
    by (rule governed_turn_fresh_rows [OF turn_sample_system _ fresh])
  with com fresh run turn show thesis
    by (intro that [of out db'])
      (auto simp: turn_sample_db_run turn_sample_db_def select_conversation_def turn_sample_conversation_def
        split: if_splits)
qed

text \<open>The history that stores the turn without evidence.\<close>

definition turn_sample_append_op :: turn_op where
  "turn_sample_append_op = AppendOp (\<lambda>_. True) (gd_turn turn_sample_draw) turn_sample_request"

lemma turn_sample_append_run:
  "turn_run (turn_sample_ops @ [turn_sample_append_op]) empty_conversation_db
     = turn_written_db (gd_turn turn_sample_draw) turn_sample_request turn_sample_conversation turn_sample_db"
proof -
  let ?turn = "written_turn (gd_turn turn_sample_draw) turn_sample_request turn_sample_conversation"
  let ?db = "turn_written_db (gd_turn turn_sample_draw) turn_sample_request turn_sample_conversation turn_sample_db"
  note inv = system_inv_parts(3) [OF turn_sample_system]
  have c: "select_conversation (aq_conversation_id turn_sample_request) turn_sample_db = Some turn_sample_conversation"
    "cv_life_id turn_sample_conversation = aq_life_id turn_sample_request"
    by (simp_all add: select_conversation_def turn_sample_db_def turn_sample_request_def turn_sample_conversation_def)
  have wr: "write_turn (\<lambda>_. True) (gd_turn turn_sample_draw) turn_sample_request turn_sample_conversation turn_sample_db
      = Inr (?turn, ?db)"
    by (simp add: write_turn_Inr [OF inv c turn_sample_turn_fresh] turn_sample_insertable)
  have "load_turn True (aq_life_id turn_sample_request) (aq_conversation_id turn_sample_request)
      (aq_turn_id turn_sample_request) turn_sample_db = Inr None"
    using load_turn_eq [OF inv c(1), of "aq_turn_id turn_sample_request"] c(2)
    by (simp add: turn_sample_turn_fresh)
  moreover have "load_conversation True (aq_life_id turn_sample_request)
      (aq_conversation_id turn_sample_request) turn_sample_db = Inr turn_sample_conversation"
    using c by (simp add: load_conversation_Inr)
  moreover have "aq_expected_revision turn_sample_request = Some (cv_revision turn_sample_conversation)"
    by (simp add: turn_sample_request_def turn_sample_conversation_def)
  ultimately have "append_in_transaction (\<lambda>_. True) (gd_turn turn_sample_draw) turn_sample_request turn_sample_db
      = Inr (?turn, ?db)"
    by (simp add: append_in_transaction_def wr)
  moreover have "validate_append_turn_request turn_sample_request = Inr ()"
    using turn_sample_valid by (simp add: validate_governed_turn_Inr validate_append_turn_request_Inr)
  ultimately show ?thesis
    unfolding turn_run_append turn_sample_db_run
    by (simp add: turn_run_def turn_sample_append_op_def service_append_turn_def append_complete_turn_def
        with_transaction_def)
qed

section \<open>What every history keeps\<close>

text \<open>The parts of an episode's evidence.\<close>

lemma episode_governed_events:
  assumes "episode_governed e db"
  shows "(\<exists>v \<in> set (emotion_event_rows db). ev_life_id v = ep_life_id e
      \<and> ev_source_kind v = ''conversation_turn'' \<and> ev_source_ref v = ep_source_ref e)
    \<and> (\<exists>v \<in> set (relationship_event_rows db). rv_life_id v = ep_life_id e
      \<and> rv_subject_id v = ''primary_user'' \<and> rv_source_kind v = ''conversation_turn''
      \<and> rv_source_ref v = ep_source_ref e)"
  using assms by (auto simp: episode_governed_def emotion_event_source_key_def
      relationship_event_source_key_def relationship_key_defs)

lemma episode_source_pair:
  assumes inv: "conversation_inv db" and tr: "episode_trigger_passes e db"
  shows "\<exists>u a. turn_messages (ep_conversation_id e) (ep_turn_id e) db = [u, a]
    \<and> sm_id u = ep_user_message_id e \<and> sm_id a = ep_assistant_message_id e
    \<and> sm_role u = ''user'' \<and> sm_role a = ''assistant''"
proof -
  let ?ms = "turn_messages (ep_conversation_id e) (ep_turn_id e) db"
  from tr obtain m n where m: "m \<in> set (message_rows db)"
      "is_source_row e (ep_user_message_id e) ''user'' (ep_started_at e) m"
    and n: "n \<in> set (message_rows db)"
      "is_source_row e (ep_assistant_message_id e) ''assistant'' (ep_ended_at e) n"
    by (auto simp: episode_trigger_passes_def)
  from inv m obtain c where "c \<in> set (conversation_rows db)" "cv_id c = ep_conversation_id e"
    by (force simp: conversation_inv_def is_source_row_def)
  then have "select_conversation (ep_conversation_id e) db = Some c"
    by (simp add: select_conversation_iff [OF inv])
  moreover have mem: "m \<in> set ?ms" "n \<in> set ?ms"
    using m n by (simp_all add: turn_messages_def conversation_log_def is_source_row_def)
  ultimately obtain u a where ua: "?ms = [u, a]" "sm_role u = ''user''" "sm_role a = ''assistant''"
    using turn_messages_cases [OF inv] by (metis empty_iff list.set(1))
  with mem m(2) n(2) have "m = u" "n = a" by (auto simp: is_source_row_def)
  with ua m(2) n(2) show ?thesis by (auto simp: is_source_row_def)
qed

lemma episode_unique:
  assumes inv: "system_inv db" and e: "e \<in> set (episode_rows db)"
  shows "length (filter (\<lambda>x. ep_conversation_id x = ep_conversation_id e \<and> ep_turn_id x = ep_turn_id e)
    (episode_rows db)) = 1"
proof -
  note parts = system_inv_parts [OF inv]
  let ?p = "\<lambda>x. ep_conversation_id x = ep_conversation_id e \<and> ep_turn_id x = ep_turn_id e"
  have sorted: "sorted_wrt (\<lambda>a b. \<not> episode_clash a b) (filter ?p (episode_rows db))"
    using parts(4) by (simp add: episodes_inv_def sorted_wrt_filter)
  have all: "episode_clash a b" if "a \<in> set (filter ?p (episode_rows db))"
      "b \<in> set (filter ?p (episode_rows db))" for a b
  proof -
    have tr: "episode_trigger_passes a db" "episode_trigger_passes b db"
      using parts(4) that by (simp_all add: episodes_inv_def)
    from episode_source_pair [OF parts(3) tr(1)] episode_source_pair [OF parts(3) tr(2)] that
    show ?thesis by (auto simp: episode_clash_def)
  qed
  show ?thesis
  proof (cases "filter ?p (episode_rows db)")
    case Nil
    with e show ?thesis by (auto simp: filter_empty_conv)
  next
    case (Cons x xs)
    with sorted all have "xs = []" by (cases xs) auto
    with Cons show ?thesis by simp
  qed
qed

text \<open>
  After any sequence of service calls, whatever statements fail on the way, the log of a
  conversation is a list of complete turns - one user message, then the assistant's answer, both
  with the turn's identity - numbered \<open>1, 2, \<dots>\<close> without a gap, and the revision of the conversation
  counts its turns.
\<close>

theorem conversation_log_complete:
  assumes "c \<in> set (conversation_rows (turn_run ops empty_conversation_db))"
  shows "map sm_sequence_no (conversation_log (cv_id c) (turn_run ops empty_conversation_db))
      = [1..2 * cv_revision c]
    \<and> paired (conversation_log (cv_id c) (turn_run ops empty_conversation_db))
    \<and> distinct (map (\<lambda>m. (sm_turn_id m, sm_role m))
        (conversation_log (cv_id c) (turn_run ops empty_conversation_db)))
    \<and> (\<forall>m \<in> set (conversation_log (cv_id c) (turn_run ops empty_conversation_db)).
        sm_life_id m = cv_life_id c)"
proof -
  let ?db = "turn_run ops empty_conversation_db"
  note inv = system_inv_parts(3) [OF history_system [of ops]]
  have c: "select_conversation (cv_id c) ?db = Some c"
    using assms by (simp add: select_conversation_iff [OF inv])
  have "sm_life_id m = cv_life_id c" if "m \<in> set (conversation_log (cv_id c) ?db)" for m
    using that unfolding messages_of_log [OF inv c, symmetric] by (simp add: messages_of_def)
  then show ?thesis using conversation_inv_row(3) [OF inv c] by (simp add: log_ok_def)
qed

theorem conversation_log_complete_witness:
  "map sm_sequence_no (conversation_log turn_sample_conversation_id
     (turn_run (turn_sample_ops @ [turn_sample_append_op]) empty_conversation_db)) = [1..2]"
proof -
  let ?c = "touch_conversation ''t3'' turn_sample_conversation"
  have "?c \<in> set (conversation_rows (turn_run (turn_sample_ops @ [turn_sample_append_op]) empty_conversation_db))"
    unfolding turn_sample_append_run by (simp add: turn_written_db_def turn_sample_db_def turn_sample_draw_def)
  from conversation_log_complete [OF this] show ?thesis
    by (simp add: turn_sample_conversation_def)
qed

text \<open>
  C4: an experience episode is never without its evidence. After any sequence of service calls, the
  turn an episode names is stored with exactly the two messages the episode points to, the emotion
  ledger and the relationship ledger each hold an event with the turn as its source, and no second
  episode names the same turn.
\<close>

theorem episode_has_evidence:
  assumes "e \<in> set (episode_rows (turn_run ops empty_conversation_db))"
  shows "(\<exists>u a. turn_messages (ep_conversation_id e) (ep_turn_id e)
           (turn_run ops empty_conversation_db) = [u, a]
         \<and> sm_id u = ep_user_message_id e \<and> sm_id a = ep_assistant_message_id e
         \<and> sm_role u = ''user'' \<and> sm_role a = ''assistant'')
    \<and> (\<exists>v \<in> set (emotion_event_rows (turn_run ops empty_conversation_db)).
         ev_life_id v = ep_life_id e \<and> ev_source_kind v = ''conversation_turn''
         \<and> ev_source_ref v = turn_source_ref (ep_conversation_id e) (ep_turn_id e))
    \<and> (\<exists>v \<in> set (relationship_event_rows (turn_run ops empty_conversation_db)).
         rv_life_id v = ep_life_id e \<and> rv_subject_id v = ''primary_user''
         \<and> rv_source_kind v = ''conversation_turn''
         \<and> rv_source_ref v = turn_source_ref (ep_conversation_id e) (ep_turn_id e))
    \<and> length (filter (\<lambda>x. ep_conversation_id x = ep_conversation_id e \<and> ep_turn_id x = ep_turn_id e)
        (episode_rows (turn_run ops empty_conversation_db))) = 1"
proof -
  let ?db = "turn_run ops empty_conversation_db"
  note inv = system_inv_parts [OF history_system [of ops]]
  from inv(4) assms have e: "episode_trigger_passes e ?db" "episode_governed e ?db"
    by (simp_all add: episodes_inv_def)
  show ?thesis
    using episode_source_pair [OF inv(3) e(1)] episode_governed_events [OF e(2)]
      episode_unique [OF history_system assms] e(1)
    by (simp add: episode_trigger_passes_def)
qed

theorem episode_has_evidence_witness:
  "\<exists>e. e \<in> set (episode_rows (turn_run (turn_sample_ops @ [turn_sample_turn_op]) empty_conversation_db))
     \<and> ep_turn_id e = ''turn-1''
     \<and> length (filter (\<lambda>x. ep_conversation_id x = ep_conversation_id e \<and> ep_turn_id x = ep_turn_id e)
        (episode_rows (turn_run (turn_sample_ops @ [turn_sample_turn_op]) empty_conversation_db))) = 1"
proof (rule turn_sample_turn_run)
  fix out db'
  assume run: "turn_run (turn_sample_ops @ [turn_sample_turn_op]) empty_conversation_db = db'"
    and rows: "episode_rows db' = [turn_episode (go_turn out)]"
    and turn: "go_turn out = written_turn (gd_turn turn_sample_draw) turn_sample_request turn_sample_conversation"
  let ?e = "turn_episode (go_turn out)"
  have e: "?e \<in> set (episode_rows (turn_run (turn_sample_ops @ [turn_sample_turn_op]) empty_conversation_db))"
    by (simp add: run rows)
  have "ep_turn_id ?e = ''turn-1''" by (simp add: turn turn_episode_written) (simp add: turn_sample_request_def)
  with e episode_has_evidence [OF e] show ?thesis by blast
qed

section \<open>All or nothing, and once\<close>

text \<open>
  C1: a governed turn is all or nothing. An error, and the replay of a stored turn, leave the
  database as it was. A fresh turn requires the conversation of the life, at the expected revision
  when the caller names one; it appends the user message and the answer with the next two sequence
  numbers, moves the conversation one revision on, and adds exactly one episode and at most one
  event to each ledger.
\<close>

theorem governed_turn_effect:
  "case commit_governed_turn io draw r et rt (turn_run ops empty_conversation_db) of
     (Inl e, db') \<Rightarrow> db' = turn_run ops empty_conversation_db
   | (Inr out, db') \<Rightarrow>
       if tr_replayed (go_turn out) then db' = turn_run ops empty_conversation_db
       else \<exists>c. select_conversation (aq_conversation_id r) (turn_run ops empty_conversation_db) = Some c
         \<and> cv_life_id c = aq_life_id r
         \<and> aq_expected_revision r \<in> {None, Some (cv_revision c)}
         \<and> message_rows db' = message_rows (turn_run ops empty_conversation_db)
             @ turn_rows (gd_turn draw) r (cv_revision c)
         \<and> select_conversation (aq_conversation_id r) db'
             = Some (touch_conversation (td_touch_now (gd_turn draw)) c)
         \<and> emotion_event_rows db' = emotion_event_rows (turn_run ops empty_conversation_db)
             @ (if emotion_fresh (go_emotion out)
                then [emotion_event_of (gd_emotion_now draw) (et_expected_revision et + 1) et] else [])
         \<and> relationship_event_rows db' = relationship_event_rows (turn_run ops empty_conversation_db)
             @ (if relationship_fresh (go_relationship out)
                then [relationship_event_of (gd_relationship_now draw) (rt_expected_revision rt + 1) rt]
                else [])
         \<and> episode_rows db' = episode_rows (turn_run ops empty_conversation_db)
             @ [turn_episode (go_turn out)]"
proof -
  let ?db = "turn_run ops empty_conversation_db"
  note inv = history_system [of ops]
  obtain res db' where res: "commit_governed_turn io draw r et rt ?db = (res, db')" by fastforce
  show ?thesis
  proof (cases res)
    case (Inl e)
    with res commit_governed_turn_Inl [of io draw r et rt ?db e db'] show ?thesis by simp
  next
    case (Inr out)
    with res have run: "governed_turn_in_transaction io draw r et rt ?db = Inr (out, db')"
      by (simp add: commit_governed_turn_Inr)
    show ?thesis
    proof (cases "tr_replayed (go_turn out)")
      case True
      from inv run have "db' = ?db"
        by (cases rule: governed_turn_cases) (use True in \<open>simp_all add: written_turn_def turn_view_def\<close>)
      with res Inr True show ?thesis by simp
    next
      case False
      from inv run False show ?thesis
      proof (rule governed_turn_fresh_rows)
        fix c
        assume c: "select_conversation (aq_conversation_id r) ?db = Some c" "cv_life_id c = aq_life_id r"
          and rest: "aq_expected_revision r \<in> {None, Some (cv_revision c)}"
            "message_rows db' = message_rows ?db @ turn_rows (gd_turn draw) r (cv_revision c)"
            "conversation_rows db' = map (\<lambda>x. if cv_id x = cv_id c
               then touch_conversation (td_touch_now (gd_turn draw)) x else x) (conversation_rows ?db)"
            "emotion_event_rows db' = emotion_event_rows ?db
               @ (if emotion_fresh (go_emotion out)
                  then [emotion_event_of (gd_emotion_now draw) (et_expected_revision et + 1) et] else [])"
            "relationship_event_rows db' = relationship_event_rows ?db
               @ (if relationship_fresh (go_relationship out)
                  then [relationship_event_of (gd_relationship_now draw) (rt_expected_revision rt + 1) rt]
                  else [])"
            "episode_rows db' = episode_rows ?db @ [turn_episode (go_turn out)]"
        have "conversation_rows (turn_written_db (gd_turn draw) r c ?db) = conversation_rows db'"
          by (simp add: turn_written_db_def rest)
        then have "select_conversation (aq_conversation_id r) db'
            = Some (touch_conversation (td_touch_now (gd_turn draw)) c)"
          using select_conversation_written [OF c(1), of "aq_conversation_id r" "gd_turn draw" r]
            conversation_inv_row(2) [OF system_inv_parts(3) [OF inv] c(1)]
          by (simp add: select_conversation_def)
        with c rest res Inr False show ?thesis by simp
      qed
    qed
  qed
qed

text \<open>The two messages a governed turn answers with are those the log keeps.\<close>

lemma governed_turn_stored:
  assumes inv: "system_inv db"
    and com: "commit_governed_turn io draw r et rt db = (Inr out, db')"
  shows "\<exists>u a. turn_messages (aq_conversation_id r) (aq_turn_id r) db' = [u, a]
    \<and> tr_user_message (go_turn out) = message_view u
    \<and> tr_assistant_message (go_turn out) = message_view a"
proof -
  from com have run: "governed_turn_in_transaction io draw r et rt db = Inr (out, db')"
    by (simp add: commit_governed_turn_Inr)
  show ?thesis
  proof (cases "tr_replayed (go_turn out)")
    case True
    from inv run show ?thesis
      by (cases rule: governed_turn_cases)
        (use True in \<open>auto simp: written_turn_def turn_view_def\<close>)
  next
    case False
    from inv run False show ?thesis
      by (rule governed_turn_fresh_rows)
        (simp add: turn_messages_def conversation_log_def turn_rows_def written_turn_def turn_view_def)
  qed
qed

lemma turn_messages_extends:
  assumes inv: "system_inv db'" and ext: "log_extends i db db'" and t: "turn_messages i t db = [u, a]"
  shows "turn_messages i t db' = [u, a]"
proof -
  obtain ms where ms: "turn_messages i t db' = [u, a] @ ms"
    using ext t by (auto simp: log_extends_def turn_messages_def)
  then have "u \<in> set (turn_messages i t db')" by simp
  then have "u \<in> set (message_rows db')" "sm_conversation_id u = i"
    by (simp_all add: turn_messages_def conversation_log_def)
  then obtain c where "c \<in> set (conversation_rows db')" "cv_id c = i"
    using system_inv_parts(3) [OF inv] by (force simp: conversation_inv_def)
  then have "select_conversation i db' = Some c"
    by (simp add: select_conversation_iff [OF system_inv_parts(3) [OF inv]])
  then show ?thesis
    using turn_messages_cases [OF system_inv_parts(3) [OF inv], of i c t] ms
    by (metis append_Cons append_Nil append_is_Nil_conv list.distinct(1) list.inject)
qed

text \<open>
  C2: a governed turn commits at most once. After it has committed, whatever service calls ran in
  between - short of deleting the conversation - a governed turn with the same conversation and turn
  identity changes nothing, whatever its other arguments, draws and faults; when it answers, it
  answers as a replay, with the messages that were stored the first time.
\<close>

theorem governed_turn_once:
  assumes "commit_governed_turn io draw r et rt (turn_run before empty_conversation_db) = (Inr out, db)"
    and "list_all (\<lambda>op. \<not> deletes_conversation (aq_conversation_id r) op) between"
    and "aq_conversation_id r' = aq_conversation_id r" and "aq_turn_id r' = aq_turn_id r"
  shows "case commit_governed_turn io' draw' r' et' rt' (turn_run between db) of
      (Inl e, db') \<Rightarrow> db' = turn_run between db
    | (Inr out', db') \<Rightarrow> db' = turn_run between db \<and> tr_replayed (go_turn out')
        \<and> tr_user_message (go_turn out') = tr_user_message (go_turn out)
        \<and> tr_assistant_message (go_turn out') = tr_assistant_message (go_turn out)"
proof -
  let ?db2 = "turn_run between db"
  have inv: "system_inv db"
    using commit_governed_turn_keeps [OF history_system [of before], of "[]" io draw r et rt]
      assms(1)
    by (simp add: keeps_def)
  note inv2 = turn_run_system [OF inv, of between]
  obtain u a where ua: "turn_messages (aq_conversation_id r) (aq_turn_id r) db = [u, a]"
      "tr_user_message (go_turn out) = message_view u" "tr_assistant_message (go_turn out) = message_view a"
    using governed_turn_stored [OF history_system assms(1)] by blast
  have ua2: "turn_messages (aq_conversation_id r') (aq_turn_id r') ?db2 = [u, a]"
    using turn_messages_extends [OF inv2 turn_run_extends [OF inv assms(2)] ua(1)] assms(3,4) by simp
  have "turn_messages (aq_conversation_id r') (aq_turn_id r') ?db2 \<noteq> []" by (simp add: ua2)
  note again = stored_turn_replayed [OF inv2 this, where io = io' and draw = draw' and et = et' and rt = rt']
  obtain res db' where res: "commit_governed_turn io' draw' r' et' rt' ?db2 = (res, db')" by fastforce
  show ?thesis
  proof (cases res)
    case (Inl e)
    with res again show ?thesis by simp
  next
    case (Inr out')
    with res again have "db' = ?db2" "tr_replayed (go_turn out')" by simp_all
    with governed_turn_stored [OF inv2, where io = io' and draw = draw' and r = r' and et = et' and rt = rt' and out = out' and db' = db'] res Inr ua ua2
    show ?thesis by auto
  qed
qed

theorem governed_turn_once_witness:
  "\<exists>out db. commit_governed_turn (\<lambda>_. True) turn_sample_draw turn_sample_request turn_sample_emotion
        turn_sample_relationship (turn_run turn_sample_ops empty_conversation_db) = (Inr out, db)
    \<and> (case commit_governed_turn (\<lambda>_. True) turn_sample_draw turn_sample_request turn_sample_emotion
        turn_sample_relationship (turn_run [LifeOp ''t4'' ''life-b''] db) of
        (Inl e, db') \<Rightarrow> db' = turn_run [LifeOp ''t4'' ''life-b''] db
      | (Inr out', db') \<Rightarrow> db' = turn_run [LifeOp ''t4'' ''life-b''] db \<and> tr_replayed (go_turn out')
          \<and> tr_user_message (go_turn out') = tr_user_message (go_turn out)
          \<and> tr_assistant_message (go_turn out') = tr_assistant_message (go_turn out))"
proof (rule turn_sample_turn_run)
  fix out db
  assume com: "commit_governed_turn (\<lambda>_. True) turn_sample_draw turn_sample_request turn_sample_emotion
      turn_sample_relationship (turn_run turn_sample_ops empty_conversation_db) = (Inr out, db)"
  have "list_all (\<lambda>op. \<not> deletes_conversation (aq_conversation_id turn_sample_request) op)
      [LifeOp ''t4'' ''life-b'']"
    by (simp add: deletes_conversation_def)
  note once = governed_turn_once [OF com this refl refl]
  show ?thesis by (intro exI conjI) (rule com, rule once)
qed

text \<open>
  C3: evidence is never made up afterwards. When a turn was stored without an episode - by the plain
  append, or by one of the two earlier composites - then, whatever calls follow short of deleting
  the conversation, it never gets one, and a governed turn for it is refused and changes nothing.
\<close>

theorem legacy_turn_never_backfilled:
  assumes "turn_messages (aq_conversation_id r) (aq_turn_id r) (turn_run before empty_conversation_db) \<noteq> []"
    and "filter (\<lambda>e. ep_conversation_id e = aq_conversation_id r \<and> ep_turn_id e = aq_turn_id r)
      (episode_rows (turn_run before empty_conversation_db)) = []"
    and "list_all (\<lambda>op. \<not> deletes_conversation (aq_conversation_id r) op) after"
  shows "filter (\<lambda>e. ep_conversation_id e = aq_conversation_id r \<and> ep_turn_id e = aq_turn_id r)
      (episode_rows (turn_run (before @ after) empty_conversation_db)) = []
    \<and> (\<exists>e. commit_governed_turn io draw r et rt (turn_run (before @ after) empty_conversation_db)
          = (Inl e, turn_run (before @ after) empty_conversation_db))"
proof -
  let ?db = "turn_run before empty_conversation_db"
  let ?db2 = "turn_run (before @ after) empty_conversation_db"
  have db2: "?db2 = turn_run after ?db" by (rule turn_run_append)
  note inv = history_system [of before] and inv2 = history_system [of "before @ after"]
  have none: "\<not> (ep_conversation_id e = aq_conversation_id r \<and> ep_turn_id e = aq_turn_id r)"
    if "e \<in> set (episode_rows ?db2)" for e
    using turn_run_new_episodes [OF inv assms(3,1) that [unfolded db2]] assms(2)
    by (auto simp: filter_empty_conv)
  have "turn_messages (aq_conversation_id r) (aq_turn_id r) ?db2 \<noteq> []"
    unfolding db2 by (rule log_extends_turn [OF turn_run_extends [OF inv assms(3)] assms(1)])
  note again = stored_turn_replayed [OF inv2 this, where io = io and draw = draw and et = et and rt = rt]
  obtain res db' where res: "commit_governed_turn io draw r et rt ?db2 = (res, db')" by fastforce
  with again none obtain e where "res = Inl e" by (cases res) auto
  with res again none show ?thesis by (auto simp: filter_empty_conv)
qed

theorem legacy_turn_never_backfilled_witness:
  "\<exists>e. commit_governed_turn (\<lambda>_. True) turn_sample_draw turn_sample_request turn_sample_emotion turn_sample_relationship
      (turn_run ((turn_sample_ops @ [turn_sample_append_op]) @ [turn_sample_turn_op]) empty_conversation_db)
    = (Inl e, turn_run ((turn_sample_ops @ [turn_sample_append_op]) @ [turn_sample_turn_op]) empty_conversation_db)"
proof -
  let ?db = "turn_run (turn_sample_ops @ [turn_sample_append_op]) empty_conversation_db"
  have "turn_messages (aq_conversation_id turn_sample_request) (aq_turn_id turn_sample_request) ?db \<noteq> []"
    unfolding turn_sample_append_run by (simp add: turn_messages_written turn_sample_turn_fresh turn_rows_def)
  moreover have "episode_rows ?db = []"
    unfolding turn_sample_append_run turn_written_db_rows by (simp add: turn_sample_db_def)
  moreover have "list_all (\<lambda>op. \<not> deletes_conversation (aq_conversation_id turn_sample_request) op)
      [turn_sample_turn_op]"
    by (simp add: deletes_conversation_def turn_sample_turn_op_def)
  ultimately show ?thesis
    using legacy_turn_never_backfilled [of turn_sample_request "turn_sample_ops @ [turn_sample_append_op]"
        "[turn_sample_turn_op]"] by simp
qed

lemma no_episode_clash:
  assumes inv: "system_inv db" and valid: "validate_governed_turn r et rt = Inr ()"
    and fresh: "turn_messages (aq_conversation_id r) (aq_turn_id r) db = []"
    and new: "evidence_new et rt db" and ins: "turn_insertable draw r db"
    and id: "turn_episode_id (aq_life_id r) (aq_conversation_id r) (aq_turn_id r)
      \<notin> ep_episode_id ` set (episode_rows db)"
    and e: "e \<in> set (episode_rows db)"
  shows "\<not> episode_clash e (turn_episode (written_turn draw r c))"
proof -
  let ?e = "turn_episode (written_turn draw r c)"
  have tr: "episode_trigger_passes e db" and gov: "episode_governed e db"
    using system_inv_parts(4) [OF inv] e by (simp_all add: episodes_inv_def)
  have "ep_episode_id ?e = turn_episode_id (aq_life_id r) (aq_conversation_id r) (aq_turn_id r)"
    by (simp add: turn_episode_def episode_of_turn_def written_turn_def turn_view_def turn_rows_def)
  with id e have "ep_episode_id e \<noteq> ep_episode_id ?e" by (metis image_eqI)
  moreover have "\<not> (ep_life_id e = ep_life_id ?e \<and> ep_source_ref e = ep_source_ref ?e)"
    using gov new valid
    by (auto simp: turn_episode_written episode_governed_def evidence_new_def
        emotion_event_exists_def validate_governed_turn_Inr)
  moreover have "\<not> (ep_conversation_id e = ep_conversation_id ?e \<and> ep_turn_id e = ep_turn_id ?e)"
    using episode_turn_stored [OF system_inv_parts(4) [OF inv] e] fresh
    by (auto simp: turn_episode_written)
  moreover have "ep_user_message_id e \<noteq> ep_user_message_id ?e
      \<and> ep_assistant_message_id e \<noteq> ep_assistant_message_id ?e"
    using tr ins unfolding turn_episode_written episode_trigger_passes_def turn_insertable_def
      is_source_row_def by (metis image_eqI)
  ultimately show ?thesis by (auto simp: episode_clash_def)
qed

text \<open>
  C5: a governed turn that nothing stands against commits. In every database a history reaches, when
  SQLite executes the statements, the request and both transitions are valid and bound to the turn,
  the conversation belongs to the life and is at the expected revision, the turn is new, the two
  transitions continue their ledgers, the drawn identities and clock readings fit the tables, and no
  episode has the colon-joined identity of this turn, the turn is written with a fresh event in both
  ledgers and a fresh episode.
\<close>

theorem governed_turn_commits:
  assumes "validate_governed_turn r et rt = Inr ()"
    and "select_conversation (aq_conversation_id r) (turn_run ops empty_conversation_db) = Some c"
    and "cv_life_id c = aq_life_id r" and "aq_expected_revision r \<in> {None, Some (cv_revision c)}"
    and "turn_messages (aq_conversation_id r) (aq_turn_id r) (turn_run ops empty_conversation_db) = []"
    and "evidence_new et rt (turn_run ops empty_conversation_db)"
    and "turn_insertable (gd_turn draw) r (turn_run ops empty_conversation_db)"
    and "turn_storable (gd_turn draw) r c"
    and "gd_emotion_now draw \<noteq> []" and "gd_relationship_now draw \<noteq> []"
    and "turn_episode_id (aq_life_id r) (aq_conversation_id r) (aq_turn_id r)
      \<notin> ep_episode_id ` set (episode_rows (turn_run ops empty_conversation_db))"
  shows "\<exists>out db'. commit_governed_turn (\<lambda>_. True) draw r et rt (turn_run ops empty_conversation_db)
      = (Inr out, db')
    \<and> go_turn out = written_turn (gd_turn draw) r c
    \<and> emotion_fresh (go_emotion out) \<and> relationship_fresh (go_relationship out)
    \<and> experience_fresh (go_experience out)"
proof (rule governed_commit_succeeds [OF history_system assms(9,10,1,2,3,5) _ assms(7,8,6)])
  show "\<forall>v. aq_expected_revision r = Some v \<longrightarrow> v = cv_revision c" using assms(4) by auto
  show "\<forall>e \<in> set (episode_rows (turn_run ops empty_conversation_db)).
      \<not> episode_clash e (turn_episode (written_turn (gd_turn draw) r c))"
    using no_episode_clash [OF history_system assms(1,5,6,7,11)] by blast
qed

theorem governed_turn_commits_witness:
  "\<exists>out db'. commit_governed_turn (\<lambda>_. True) turn_sample_draw turn_sample_request turn_sample_emotion
      turn_sample_relationship (turn_run turn_sample_ops empty_conversation_db) = (Inr out, db')
    \<and> emotion_fresh (go_emotion out) \<and> relationship_fresh (go_relationship out)
    \<and> experience_fresh (go_experience out)"
proof -
  have "select_conversation (aq_conversation_id turn_sample_request) turn_sample_db = Some turn_sample_conversation"
    "cv_life_id turn_sample_conversation = aq_life_id turn_sample_request"
    "aq_expected_revision turn_sample_request \<in> {None, Some (cv_revision turn_sample_conversation)}"
    "gd_emotion_now turn_sample_draw \<noteq> []" "gd_relationship_now turn_sample_draw \<noteq> []"
    "episode_rows turn_sample_db = []"
    by (simp_all add: select_conversation_def turn_sample_db_def turn_sample_request_def
        turn_sample_conversation_def turn_sample_draw_def)
  then show ?thesis
    using governed_turn_commits [OF turn_sample_valid, of turn_sample_ops turn_sample_conversation turn_sample_draw]
    by (simp add: turn_sample_db_run turn_sample_turn_fresh turn_sample_evidence turn_sample_insertable turn_sample_storable)
      blast
qed

end
