(* ===== verification/Transport_Common.thy ===== *)
theory Transport_Common
  imports Rust_Prelude "HOL-Library.Word"
begin

text \<open>
  The limits and the policy errors shared by the transport layer,
  \<open>src-tauri/src/model/transport/mod.rs\<close>, and the IP addresses of \<open>std::net\<close> as words.
\<close>

definition MAX_DNS_CANDIDATES :: nat where "MAX_DNS_CANDIDATES = 16"
definition MAX_TRANSPORT_BASE_URL_BYTES :: nat where "MAX_TRANSPORT_BASE_URL_BYTES = 4096"
definition MAX_RESPONSE_HEADER_BYTES :: nat where "MAX_RESPONSE_HEADER_BYTES = 32768"
definition MAX_HEADERS_PER_BLOCK :: nat where "MAX_HEADERS_PER_BLOCK = 128"
definition HEADER_STAGING_BYTES :: nat where "HEADER_STAGING_BYTES = 8192"

datatype transport_policy_error =
    BaseUrlTooLong | UnsupportedScheme | MissingHost | ForbiddenUserinfo | ForbiddenQuery
  | ForbiddenFragment | ForbiddenHostForm | ForbiddenRemoteIpLiteral | ForbiddenTrailingDot
  | InvalidPort | UnsafePath | EmptyDnsResult | TooManyDnsCandidates | UnsafeDnsCandidate
  | MixedUnsafeDnsResult | PeerMismatch | UnsafePeer

section \<open>Addresses\<close>

type_synonym ipv4 = "32 word"
type_synonym ipv6 = "128 word"

datatype ip_addr = IpV4 ipv4 | IpV6 ipv6

text \<open>\<open>u32::from_be_bytes\<close>, \<open>Ipv4Addr::octets\<close> and the eight groups of an IPv6 literal.\<close>

definition from_be_bytes4 :: "nat \<Rightarrow> nat \<Rightarrow> nat \<Rightarrow> nat \<Rightarrow> ipv4" where
  "from_be_bytes4 a b c d = of_nat (((a * 256 + b) * 256 + c) * 256 + d)"

definition ipv6_groups :: "nat list \<Rightarrow> ipv6" where
  "ipv6_groups gs = of_nat (foldl (\<lambda>acc g. acc * 65536 + g) 0 gs)"

definition ipv4_octet :: "ipv4 \<Rightarrow> nat \<Rightarrow> nat" where
  "ipv4_octet ip i = unat (drop_bit (8 * (3 - i)) ip) mod 256"

section \<open>Decimal rendering\<close>

definition digit_char :: "nat \<Rightarrow> char" where
  "digit_char d = char_of (48 + d)"

fun nat_to_string :: "nat \<Rightarrow> string" where
  "nat_to_string n =
     (if n < 10 then [digit_char n] else nat_to_string (n div 10) @ [digit_char (n mod 10)])"

declare nat_to_string.simps [simp del]

definition ipv4_to_string :: "ipv4 \<Rightarrow> string" where
  "ipv4_to_string ip = str_join CHR ''.'' (map (\<lambda>i. nat_to_string (ipv4_octet ip i)) [0, 1, 2, 3])"

lemma of_char_digit_char [simp]: "d < 10 \<Longrightarrow> of_char (digit_char d) = (48 + d :: nat)"
  by (simp add: digit_char_def)

lemma nat_to_string_digits: "\<forall>c \<in> set (nat_to_string n). is_ascii_digit c"
proof (induction n rule: nat_to_string.induct)
  case (1 n)
  then show ?case
    by (subst nat_to_string.simps) (auto simp: is_ascii_digit_def)
qed

lemma nat_to_string_not_Nil [simp]: "nat_to_string n \<noteq> []"
  by (subst nat_to_string.simps) simp

lemma digit_char_zero [simp]: "d < 10 \<Longrightarrow> digit_char d = CHR ''0'' \<longleftrightarrow> d = 0"
proof -
  assume d: "d < 10"
  have "digit_char d = CHR ''0'' \<longleftrightarrow> (of_char (digit_char d) :: nat) = of_char (CHR ''0'')"
    by (simp only: of_char_eq_iff)
  with d show ?thesis by simp
qed

lemma nat_to_string_hd: "0 < n \<Longrightarrow> hd (nat_to_string n) \<noteq> CHR ''0''"
proof (induction n rule: nat_to_string.induct)
  case (1 n)
  show ?case
  proof (cases "n < 10")
    case True
    with 1 show ?thesis by (subst nat_to_string.simps) simp
  next
    case False
    then have "0 < n div 10" by (simp add: div_greater_zero_iff)
    with 1 False show ?thesis by (subst nat_to_string.simps) simp
  qed
qed

lemma nat_to_string_zero: "nat_to_string 0 = ''0''"
proof -
  have "digit_char 0 = CHR 0x30" using digit_char_zero [of 0] by (simp del: digit_char_zero)
  then show ?thesis by (subst nat_to_string.simps) simp
qed

lemma dot_not_digit [simp]: "\<not> is_ascii_digit (CHR ''.'')"
  by (simp add: is_ascii_digit_def)

lemma ipv4_to_string_split:
  "str_split CHR ''.'' (ipv4_to_string ip) = map (\<lambda>i. nat_to_string (ipv4_octet ip i)) [0, 1, 2, 3]"
  unfolding ipv4_to_string_def
  by (rule str_split_join) (use nat_to_string_digits dot_not_digit in force)+

end
