(* ===== verification/Url_Policy.thy ===== *)
theory Url_Policy
  imports Transport_Common
begin

text \<open>
  The base-URL policy, \<open>src-tauri/src/model/transport/url_policy.rs\<close>. \<open>Url::parse\<close> of the url crate
  is not part of the repository: it is the argument \<open>url_parse\<close>, and \<open>parsed_url\<close> has the parts of
  its result the code reads. The redacting \<open>Debug\<close> implementations are left out.
\<close>

datatype transport_target_kind = RemoteHttps | LoopbackHttp

record validated_base_path =
  bp_segments :: "string list"
  bp_trailing_slash :: bool

record validated_target =
  vt_kind :: transport_target_kind
  vt_host_ascii :: string
  vt_port :: nat
  vt_base_path :: validated_base_path

definition allows_stored_api_key :: "validated_target \<Rightarrow> bool" where
  "allows_stored_api_key t \<longleftrightarrow> vt_kind t = RemoteHttps"

datatype url_host = HostDomain string | HostIpv4 ipv4 | HostIpv6 ipv6

record parsed_url =
  pu_scheme :: string
  pu_username :: string
  pu_password :: "string option"
  pu_host :: "url_host option"
  pu_port :: "nat option"
  pu_query :: "string option"
  pu_fragment :: "string option"

section \<open>The raw parts of a URL\<close>

definition after_scheme :: "string \<Rightarrow> string option" where
  "after_scheme url = map_option (\<lambda>i. drop (i + 3) url) (str_find ''://'' url)"

definition raw_authority :: "string \<Rightarrow> string option" where
  "raw_authority url =
     map_option (takeWhile (\<lambda>c. c \<notin> {CHR ''/'', CHR ''?'', CHR ''#''})) (after_scheme url)"

text \<open>\<open>authority.rsplit_once('@')\<close>, keeping what follows the last separator.\<close>

definition after_last_at :: "string \<Rightarrow> string" where
  "after_last_at authority = rev (takeWhile (\<lambda>c. c \<noteq> CHR ''@'') (rev authority))"

definition raw_host_from_authority :: "string \<Rightarrow> string option" where
  "raw_host_from_authority authority =
     (let host_and_port = after_last_at authority in
      if str_starts_with host_and_port (CHR ''['')
      then (case str_find '']'' host_and_port of
              None \<Rightarrow> None
            | Some e \<Rightarrow> Some (take (e + 1) host_and_port))
      else Some (hd (str_split (CHR '':'') host_and_port)))"

definition raw_path :: "string \<Rightarrow> string option" where
  "raw_path url =
     (case after_scheme url of
        None \<Rightarrow> None
      | Some rest \<Rightarrow>
          (let path_and_suffix = dropWhile (\<lambda>c. c \<noteq> CHR ''/'') rest in
           if path_and_suffix = [] then None
           else Some (takeWhile (\<lambda>c. c \<notin> {CHR ''?'', CHR ''#''}) path_and_suffix)))"

section \<open>The base path\<close>

definition is_safe_path_byte :: "char \<Rightarrow> bool" where
  "is_safe_path_byte b \<longleftrightarrow>
     is_ascii_alphanumeric b \<or> b \<in> {CHR ''-'', CHR ''_'', CHR ''.'', CHR ''~''}"

fun base_path_loop :: "bool \<Rightarrow> string list \<Rightarrow> transport_policy_error + string list" where
  "base_path_loop trailing_slash [] = Inr []"
| "base_path_loop trailing_slash (segment # rest) =
     (if segment = []
      then (if trailing_slash \<and> rest = [] then base_path_loop trailing_slash rest
            else Inl UnsafePath)
      else if segment = ''.'' \<or> segment = ''..'' \<or> \<not> list_all is_safe_path_byte segment
      then Inl UnsafePath
      else try_bind (base_path_loop trailing_slash rest) (\<lambda>segments. Inr (segment # segments)))"

definition validate_raw_base_path ::
    "string option \<Rightarrow> transport_policy_error + validated_base_path" where
  "validate_raw_base_path path =
     (let raw = (case path of None \<Rightarrow> [] | Some p \<Rightarrow> p) in
      if raw = [] \<or> raw = ''/'' then Inr \<lparr>bp_segments = [], bp_trailing_slash = True\<rparr>
      else if \<not> str_starts_with raw (CHR ''/'') \<or> CHR 0x5C \<in> set raw then Inl UnsafePath
      else let trailing_slash = str_ends_with raw (CHR ''/'') in
           try_bind (base_path_loop trailing_slash (str_split (CHR ''/'') (drop 1 raw)))
             (\<lambda>segments. Inr \<lparr>bp_segments = segments, bp_trailing_slash = trailing_slash\<rparr>))"

section \<open>Hosts\<close>

definition dns_label_ok :: "string \<Rightarrow> bool" where
  "dns_label_ok label \<longleftrightarrow>
     \<not> (label = [] \<or> length label > 63 \<or> str_starts_with label (CHR ''-'')
        \<or> str_ends_with label (CHR ''-'')
        \<or> \<not> list_all (\<lambda>b. is_ascii_lowercase b \<or> is_ascii_digit b \<or> b = CHR ''-'') label)"

definition validate_remote_dns_hostname :: "string \<Rightarrow> transport_policy_error + string" where
  "validate_remote_dns_hostname domain =
     (let normalized = to_ascii_lowercase domain in
      if normalized = [] \<or> length normalized > 253 \<or> eq_ignore_ascii_case normalized ''localhost''
         \<or> str_starts_with normalized (CHR ''.'') \<or> str_ends_with normalized (CHR ''.'')
      then Inl ForbiddenHostForm
      else if \<not> list_all dns_label_ok (str_split (CHR ''.'') normalized)
      then Inl ForbiddenHostForm
      else Inr normalized)"

definition ipv4_is_loopback :: "ipv4 \<Rightarrow> bool" where
  "ipv4_is_loopback ip \<longleftrightarrow> ipv4_octet ip 0 = 127"

definition ipv6_is_loopback :: "ipv6 \<Rightarrow> bool" where
  "ipv6_is_loopback ip \<longleftrightarrow> ip = 1"

definition is_canonical_ipv4_literal :: "string \<Rightarrow> ipv4 \<Rightarrow> bool" where
  "is_canonical_ipv4_literal raw_host parsed \<longleftrightarrow>
     raw_host = ipv4_to_string parsed
     \<and> length (str_split (CHR ''.'') raw_host) = 4
     \<and> list_all (\<lambda>part. part \<noteq> [] \<and> (part = ''0'' \<or> \<not> str_starts_with part (CHR ''0''))
                  \<and> list_all is_ascii_digit part) (str_split (CHR ''.'') raw_host)"

definition is_canonical_loopback_host :: "url_host \<Rightarrow> string option \<Rightarrow> bool" where
  "is_canonical_loopback_host host raw_host =
     (case raw_host of
        None \<Rightarrow> False
      | Some raw \<Rightarrow>
          (case host of
             HostDomain domain \<Rightarrow>
               eq_ignore_ascii_case domain ''localhost'' \<and> eq_ignore_ascii_case raw ''localhost''
           | HostIpv4 ip \<Rightarrow> ipv4_is_loopback ip \<and> is_canonical_ipv4_literal raw ip
           | HostIpv6 ip \<Rightarrow> ipv6_is_loopback ip \<and> raw = ''[::1]''))"

definition normalize_loopback_host ::
    "url_host \<Rightarrow> string option \<Rightarrow> transport_policy_error + string" where
  "normalize_loopback_host host raw_host =
     (if \<not> is_canonical_loopback_host host raw_host then Inl ForbiddenHostForm
      else case host of
             HostDomain _ \<Rightarrow> Inr ''localhost''
           | HostIpv4 ip \<Rightarrow> Inr (ipv4_to_string ip)
           | HostIpv6 _ \<Rightarrow> Inr ''::1'')"

section \<open>The validator\<close>

definition target_kind_of ::
    "parsed_url \<Rightarrow> url_host \<Rightarrow> string option \<Rightarrow> transport_policy_error + transport_target_kind" where
  "target_kind_of parsed host raw_host =
     (if pu_scheme parsed = ''https'' then Inr RemoteHttps
      else if pu_scheme parsed = ''http'' \<and> is_canonical_loopback_host host raw_host
      then Inr LoopbackHttp
      else Inl UnsupportedScheme)"

definition target_host_ascii ::
    "transport_target_kind \<Rightarrow> url_host \<Rightarrow> string option \<Rightarrow> transport_policy_error + string" where
  "target_host_ascii kind host raw_host =
     (case kind of
        RemoteHttps \<Rightarrow>
          (case host of
             HostDomain domain \<Rightarrow> validate_remote_dns_hostname domain
           | _ \<Rightarrow> Inl ForbiddenRemoteIpLiteral)
      | LoopbackHttp \<Rightarrow> normalize_loopback_host host raw_host)"

definition target_port :: "transport_target_kind \<Rightarrow> nat option \<Rightarrow> transport_policy_error + nat" where
  "target_port kind port =
     (case port of
        Some p \<Rightarrow> if p = 0 then Inl InvalidPort else Inr p
      | None \<Rightarrow> Inr (case kind of RemoteHttps \<Rightarrow> 443 | LoopbackHttp \<Rightarrow> 80))"

definition validate_and_normalize_url ::
    "(string \<Rightarrow> parsed_url option) \<Rightarrow> string \<Rightarrow> transport_policy_error + validated_target" where
  "validate_and_normalize_url url_parse url =
     (if length url > MAX_TRANSPORT_BASE_URL_BYTES then Inl BaseUrlTooLong
      else if CHR 0x5C \<in> set url then Inl UnsafePath
      else
        let raw_host = Option.bind (raw_authority url) raw_host_from_authority in
        if (case raw_host of None \<Rightarrow> False | Some h \<Rightarrow> str_ends_with h (CHR ''.''))
        then Inl ForbiddenTrailingDot
        else
          try_bind (validate_raw_base_path (raw_path url)) (\<lambda>base_path.
          try_bind (ok_or (url_parse url) UnsupportedScheme) (\<lambda>parsed.
          if pu_username parsed \<noteq> [] \<or> pu_password parsed \<noteq> None then Inl ForbiddenUserinfo
          else if pu_query parsed \<noteq> None then Inl ForbiddenQuery
          else if pu_fragment parsed \<noteq> None then Inl ForbiddenFragment
          else
            try_bind (ok_or (pu_host parsed) MissingHost) (\<lambda>host.
            try_bind (target_kind_of parsed host raw_host) (\<lambda>kind.
            try_bind (target_host_ascii kind host raw_host) (\<lambda>host_ascii.
            try_bind (target_port kind (pu_port parsed)) (\<lambda>port.
            Inr \<lparr>vt_kind = kind, vt_host_ascii = host_ascii, vt_port = port,
                 vt_base_path = base_path\<rparr>)))))))"

section \<open>The path language\<close>

definition safe_segment :: "string \<Rightarrow> bool" where
  "safe_segment s \<longleftrightarrow> s \<noteq> [] \<and> s \<noteq> ''.'' \<and> s \<noteq> ''..'' \<and> list_all is_safe_path_byte s"

text \<open>The text of a base path.\<close>

definition render_base_path :: "validated_base_path \<Rightarrow> string" where
  "render_base_path p =
     CHR ''/'' # str_join (CHR ''/'') (bp_segments p)
       @ (if bp_trailing_slash p \<and> bp_segments p \<noteq> [] then ''/'' else [])"

lemma slash_not_safe [simp]: "\<not> is_safe_path_byte (CHR ''/'')" "\<not> is_safe_path_byte (CHR 0x5C)"
  by (simp_all add: is_safe_path_byte_def is_ascii_alphanumeric_def is_ascii_lowercase_def
      is_ascii_uppercase_def is_ascii_digit_def)

lemma safe_segment_no_slash:
  "safe_segment s \<Longrightarrow> CHR ''/'' \<notin> set s" "safe_segment s \<Longrightarrow> CHR 0x5C \<notin> set s"
  by (auto simp: safe_segment_def list_all_iff dest: bspec)

lemma base_path_loop_Inr:
  "base_path_loop tr ws = Inr segs \<longleftrightarrow>
     (\<forall>s \<in> set segs. safe_segment s) \<and> (ws = segs \<or> tr \<and> ws = segs @ [[]])"
proof (induction ws arbitrary: segs)
  case Nil
  then show ?case by auto
next
  case (Cons w ws)
  show ?case
  proof (cases "w = []")
    case True
    then show ?thesis
      by (cases segs) (auto simp: safe_segment_def)
  next
    case False
    then show ?thesis
      by (cases segs) (auto simp: Cons.IH try_bind_Inr_iff safe_segment_def)
  qed
qed

lemma base_path_loop_err: "base_path_loop tr ws = Inl e \<Longrightarrow> e = UnsafePath"
  by (induction ws) (auto simp: try_bind_Inl_iff split: if_splits)

lemma validate_raw_base_path_err: "validate_raw_base_path p = Inl e \<Longrightarrow> e = UnsafePath"
  by (auto simp: validate_raw_base_path_def Let_def try_bind_Inl_iff dest: base_path_loop_err
      split: if_splits)

lemma str_join_ends:
  assumes "segs \<noteq> []" and "\<forall>s \<in> set segs. safe_segment s"
  shows "str_join (CHR ''/'') segs \<noteq> [] \<and> last (str_join (CHR ''/'') segs) \<noteq> CHR ''/''"
  using assms
proof (induction "CHR ''/''" segs rule: str_join.induct)
  case (2 w)
  then show ?case
    using safe_segment_no_slash(1) [of w] by (auto simp: safe_segment_def dest: last_in_set)
qed auto

lemma str_join_snoc_empty: "segs \<noteq> [] \<Longrightarrow> str_join d (segs @ [[]]) = str_join d segs @ [d]"
  by (induction d segs rule: str_join.induct) (simp_all add: str_join_Cons)

lemma str_join_no_backslash:
  "\<forall>s \<in> set segs. CHR 0x5C \<notin> set s \<Longrightarrow> CHR 0x5C \<notin> set (str_join (CHR ''/'') segs)"
  by (induction "CHR ''/''" segs rule: str_join.induct) auto

lemma split_render:
  assumes "segs \<noteq> []" and "\<forall>s \<in> set segs. safe_segment s"
  shows "str_split (CHR ''/'') (str_join (CHR ''/'') segs) = segs"
    and "str_split (CHR ''/'') (str_join (CHR ''/'') segs @ ''/'') = segs @ [[]]"
proof -
  have ns: "CHR ''/'' \<notin> set s" if "s \<in> set (segs @ [[]])" for s
    using that assms(2) safe_segment_no_slash(1) by auto
  show "str_split (CHR ''/'') (str_join (CHR ''/'') segs) = segs"
    by (rule str_split_join) (use assms ns in auto)
  show "str_split (CHR ''/'') (str_join (CHR ''/'') segs @ ''/'') = segs @ [[]]"
    unfolding str_join_snoc_empty [OF assms(1), symmetric]
    by (rule str_split_join) (use ns in auto)
qed

text \<open>
  C37: the base-path validator accepts exactly the texts that are rendered by a list of safe
  segments, and returns those segments: no \<open>.\<close> or \<open>..\<close>, no empty segment, no percent sign,
  backslash or other byte that a server could read as a different path. An accepted path is
  recovered byte for byte from the result; every other path is \<open>UnsafePath\<close>.
\<close>

theorem base_path_roundtrip:
  "(validate_raw_base_path (Some raw) = Inr p \<longleftrightarrow>
      (\<forall>s \<in> set (bp_segments p). safe_segment s)
      \<and> (if bp_segments p = [] then bp_trailing_slash p \<and> (raw = [] \<or> raw = ''/'')
         else raw = render_base_path p))
   \<and> (validate_raw_base_path (Some raw) = Inl e \<longrightarrow> e = UnsafePath)"
proof (intro conjI impI)
  obtain segs tr where p: "p = \<lparr>bp_segments = segs, bp_trailing_slash = tr\<rparr>" by (cases p) auto
  let ?safe = "\<forall>s \<in> set segs. safe_segment s"
  show "validate_raw_base_path (Some raw) = Inr p \<longleftrightarrow>
      (\<forall>s \<in> set (bp_segments p). safe_segment s)
      \<and> (if bp_segments p = [] then bp_trailing_slash p \<and> (raw = [] \<or> raw = ''/'')
         else raw = render_base_path p)"
  proof (cases "raw = [] \<or> raw = ''/''")
    case True
    moreover have "raw \<noteq> render_base_path p" if "segs \<noteq> []" ?safe
      using str_join_ends [OF that] that True by (auto simp: p render_base_path_def)
    ultimately show ?thesis
      by (auto simp: validate_raw_base_path_def p)
  next
    case False
    have L: "validate_raw_base_path (Some raw) = Inr p \<longleftrightarrow>
        str_starts_with raw (CHR ''/'') \<and> CHR 0x5C \<notin> set raw \<and> tr = str_ends_with raw (CHR ''/'') \<and>
        ?safe \<and> (str_split (CHR ''/'') (drop 1 raw) = segs
          \<or> tr \<and> str_split (CHR ''/'') (drop 1 raw) = segs @ [[]])"
      using False by (auto simp: validate_raw_base_path_def Let_def p try_bind_Inr_iff
          base_path_loop_Inr)
    show ?thesis
    proof
      assume "validate_raw_base_path (Some raw) = Inr p"
      then have st: "str_starts_with raw (CHR ''/'')" and tr: "tr = str_ends_with raw (CHR ''/'')"
        and safe: ?safe and sp: "str_split (CHR ''/'') (drop 1 raw) = segs
          \<or> tr \<and> str_split (CHR ''/'') (drop 1 raw) = segs @ [[]]"
        unfolding L by auto
      from st False obtain r where r: "raw = CHR ''/'' # r" "r \<noteq> []"
        by (cases raw) (auto simp: str_starts_with_def)
      from sp r have ne: "segs \<noteq> []"
        by (metis append_Nil drop0 drop_Suc_Cons One_nat_def str_join.simps(2) str_join_split
            str_split_not_Nil)
      have trl: "tr \<longleftrightarrow> last r = CHR ''/''" using tr r by (simp add: str_ends_with_def)
      have "r = str_join (CHR ''/'') segs @ (if tr then ''/'' else [])"
      proof (cases "str_split (CHR ''/'') r = segs")
        case True
        then have "r = str_join (CHR ''/'') segs" by (metis str_join_split)
        with str_join_ends [OF ne safe] trl show ?thesis by simp
      next
        case False
        with sp r have "tr" "str_split (CHR ''/'') r = segs @ [[]]" by auto
        then show ?thesis by (metis str_join_snoc_empty [OF ne] str_join_split)
      qed
      with ne safe r show "(\<forall>s \<in> set (bp_segments p). safe_segment s)
        \<and> (if bp_segments p = [] then bp_trailing_slash p \<and> (raw = [] \<or> raw = ''/'')
           else raw = render_base_path p)"
        by (auto simp: p render_base_path_def)
    next
      assume R: "(\<forall>s \<in> set (bp_segments p). safe_segment s)
        \<and> (if bp_segments p = [] then bp_trailing_slash p \<and> (raw = [] \<or> raw = ''/'')
           else raw = render_base_path p)"
      with False have ne: "segs \<noteq> []" and safe: ?safe and raw: "raw = render_base_path p"
        by (auto simp: p split: if_splits)
      have nb: "CHR 0x5C \<notin> set (str_join (CHR ''/'') segs)"
        by (rule str_join_no_backslash) (use safe safe_segment_no_slash(2) in auto)
      show "validate_raw_base_path (Some raw) = Inr p"
        unfolding L using raw ne safe nb str_join_ends [OF ne safe] split_render [OF ne safe]
        by (auto simp: p render_base_path_def str_starts_with_def str_ends_with_def)
    qed
  qed
next
  assume "validate_raw_base_path (Some raw) = Inl e"
  then show "e = UnsafePath" by (rule validate_raw_base_path_err)
qed

theorem base_path_roundtrip_witness:
  "validate_raw_base_path (Some ''/api/v1/'')
      = Inr \<lparr>bp_segments = [''api'', ''v1''], bp_trailing_slash = True\<rparr>
   \<and> validate_raw_base_path (Some ''/a/../b'') = Inl UnsafePath"
proof -
  have "render_base_path \<lparr>bp_segments = [''api'', ''v1''], bp_trailing_slash = True\<rparr> = ''/api/v1/''"
    by (simp add: render_base_path_def)
  moreover have "safe_segment ''api''" "safe_segment ''v1''" by code_simp+
  ultimately have "validate_raw_base_path (Some ''/api/v1/'')
      = Inr \<lparr>bp_segments = [''api'', ''v1''], bp_trailing_slash = True\<rparr>"
    using base_path_roundtrip [of "''/api/v1/''"
      "\<lparr>bp_segments = [''api'', ''v1''], bp_trailing_slash = True\<rparr>" UnsafePath] by simp
  moreover have "validate_raw_base_path (Some ''/a/../b'') = Inl UnsafePath" by code_simp
  ultimately show ?thesis by blast
qed

section \<open>Hosts\<close>

text \<open>A DNS host name as RFC 1123 writes it, in lower case and without a trailing dot.\<close>

definition dns_hostname :: "string \<Rightarrow> bool" where
  "dns_hostname h \<longleftrightarrow>
     length h \<le> 253 \<and> h \<noteq> ''localhost'' \<and> (\<forall>l \<in> set (str_split (CHR ''.'') h). dns_label_ok l)"

lemma lowercase_idem [simp]:
  "byte_to_ascii_lowercase (byte_to_ascii_lowercase c) = byte_to_ascii_lowercase c"
proof -
  have "\<not> is_ascii_uppercase (byte_to_ascii_lowercase c)"
  proof (cases "is_ascii_uppercase c")
    case True
    then have r: "(65::nat) \<le> of_char c" "of_char c \<le> (90::nat)"
      by (simp_all add: is_ascii_uppercase_def)
    then have "of_char (byte_to_ascii_lowercase c) = of_char c + (32::nat)"
      using True by (simp add: byte_to_ascii_lowercase_def)
    with r show ?thesis by (simp add: is_ascii_uppercase_def)
  next
    case False
    then show ?thesis by (simp add: byte_to_ascii_lowercase_def)
  qed
  then show ?thesis by (simp add: byte_to_ascii_lowercase_def [of "byte_to_ascii_lowercase c"])
qed

lemma to_ascii_lowercase_idem [simp]:
  "to_ascii_lowercase (to_ascii_lowercase s) = to_ascii_lowercase s"
  by (simp add: to_ascii_lowercase_def)

lemma localhost_lower: "to_ascii_lowercase ''localhost'' = ''localhost''"
  by code_simp

lemma validate_remote_dns_hostname_eq:
  "validate_remote_dns_hostname d =
     (if dns_hostname (to_ascii_lowercase d) then Inr (to_ascii_lowercase d)
      else Inl ForbiddenHostForm)"
proof -
  let ?n = "to_ascii_lowercase d"
  have no_empty: "\<not> dns_label_ok []" by (simp add: dns_label_ok_def)
  have "[] \<in> set (str_split (CHR ''.'') ?n)"
    if "?n = [] \<or> str_starts_with ?n (CHR ''.'') \<or> str_ends_with ?n (CHR ''.'')"
    using that str_split_hd_empty str_split_last_mem by auto
  with no_empty show ?thesis
    by (auto simp: validate_remote_dns_hostname_def dns_hostname_def Let_def list_all_iff
        eq_ignore_ascii_case_def localhost_lower)
qed

text \<open>
  The remote host validator accepts exactly the RFC 1123 names other than \<open>localhost\<close> (labels
  of 1 to 63 letters, digits and inner hyphens, at most 253 bytes, no trailing dot) and returns the
  name in lower case; its result is a fixed point.
\<close>

theorem dns_hostname_validator:
  "validate_remote_dns_hostname d =
     (if dns_hostname (to_ascii_lowercase d) then Inr (to_ascii_lowercase d)
      else Inl ForbiddenHostForm)
   \<and> validate_remote_dns_hostname (to_ascii_lowercase d) = validate_remote_dns_hostname d"
  by (simp add: validate_remote_dns_hostname_eq)

lemma canonical_ipv4_literal_iff:
  "is_canonical_ipv4_literal raw ip \<longleftrightarrow> raw = ipv4_to_string ip"
proof -
  have "nat_to_string n = ''0'' \<or> \<not> str_starts_with (nat_to_string n) (CHR ''0'')" for n
    using nat_to_string_hd [of n] by (cases "n = 0") (auto simp: nat_to_string_zero str_starts_with_def)
  then have "list_all (\<lambda>part. part \<noteq> [] \<and> (part = ''0'' \<or> \<not> str_starts_with part (CHR ''0''))
      \<and> list_all is_ascii_digit part) (str_split (CHR ''.'') (ipv4_to_string ip))"
    using nat_to_string_digits
    by (simp add: ipv4_to_string_split list_all_iff del: nat_to_string.simps)
  then show ?thesis
    by (auto simp: is_canonical_ipv4_literal_def ipv4_to_string_split)
qed

section \<open>Accepted targets\<close>

definition loopback_host_text :: "string \<Rightarrow> bool" where
  "loopback_host_text h \<longleftrightarrow>
     h = ''localhost'' \<or> h = ''::1'' \<or> (\<exists>ip. ipv4_is_loopback ip \<and> h = ipv4_to_string ip)"

lemma normalize_loopback_host_Inr:
  "normalize_loopback_host host raw = Inr h \<Longrightarrow> loopback_host_text h"
  by (auto simp: normalize_loopback_host_def loopback_host_text_def is_canonical_loopback_host_def
      split: if_splits url_host.splits option.splits)

lemma raw_host_localhost:
  assumes "is_canonical_loopback_host host (Some raw)"
  shows "eq_ignore_ascii_case raw ''localhost'' \<or> raw = ''[::1]''
    \<or> (\<exists>ip. ipv4_is_loopback ip \<and> raw = ipv4_to_string ip)"
  using assms
  by (auto simp: is_canonical_loopback_host_def canonical_ipv4_literal_iff split: url_host.splits)

text \<open>
  C36: what an accepted base URL is, whatever the URL parser answers. The text is short and has no
  backslash, the parsed URL has no user info, query or fragment, and the target is of one of two
  kinds: \<open>https\<close> to a DNS name, or plain \<open>http\<close> to a host that is written canonically as loopback in
  the raw text too. A stored API key is allowed only over \<open>https\<close>, the port is not zero and the
  path segments are safe.
\<close>

theorem accepted_url_safe:
  assumes "validate_and_normalize_url url_parse url = Inr t"
  shows "length url \<le> 4096 \<and> CHR 0x5C \<notin> set url
    \<and> (\<exists>u. url_parse url = Some u \<and> pu_username u = [] \<and> pu_password u = None
        \<and> pu_query u = None \<and> pu_fragment u = None
        \<and> vt_port t \<noteq> 0 \<and> (pu_port u = None \<or> pu_port u = Some (vt_port t))
        \<and> (\<forall>s \<in> set (bp_segments (vt_base_path t)). safe_segment s)
        \<and> (allows_stored_api_key t \<longleftrightarrow> pu_scheme u = ''https'')
        \<and> (if allows_stored_api_key t
            then \<exists>d. pu_host u = Some (HostDomain d) \<and> vt_host_ascii t = to_ascii_lowercase d
                   \<and> dns_hostname (vt_host_ascii t)
            else pu_scheme u = ''http'' \<and> loopback_host_text (vt_host_ascii t)
              \<and> (\<exists>raw. Option.bind (raw_authority url) raw_host_from_authority = Some raw
                    \<and> (eq_ignore_ascii_case raw ''localhost'' \<or> raw = ''[::1]''
                       \<or> (\<exists>ip. ipv4_is_loopback ip \<and> raw = ipv4_to_string ip)))))"
proof -
  let ?raw = "Option.bind (raw_authority url) raw_host_from_authority"
  from assms obtain bp u host kind ascii port where
      len: "length url \<le> 4096" and bs: "CHR 0x5C \<notin> set url"
    and bp: "validate_raw_base_path (raw_path url) = Inr bp"
    and u: "url_parse url = Some u" "pu_username u = []" "pu_password u = None"
      "pu_query u = None" "pu_fragment u = None" "pu_host u = Some host"
    and kind: "target_kind_of u host ?raw = Inr kind"
    and ascii: "target_host_ascii kind host ?raw = Inr ascii"
    and port: "target_port kind (pu_port u) = Inr port"
    and t: "t = \<lparr>vt_kind = kind, vt_host_ascii = ascii, vt_port = port, vt_base_path = bp\<rparr>"
    by (auto simp: validate_and_normalize_url_def Let_def try_bind_Inr_iff
        MAX_TRANSPORT_BASE_URL_BYTES_def split: if_splits)
  have segs: "\<forall>s \<in> set (bp_segments bp). safe_segment s"
    using bp by (cases "raw_path url") (auto simp: validate_raw_base_path_def Let_def
        try_bind_Inr_iff base_path_loop_Inr split: if_splits)
  have p: "port \<noteq> 0 \<and> (pu_port u = None \<or> pu_port u = Some port)"
    using port by (auto simp: target_port_def split: option.splits if_splits
        transport_target_kind.splits)
  show ?thesis
  proof (cases kind)
    case RemoteHttps
    with kind have "pu_scheme u = ''https''"
      by (auto simp: target_kind_of_def split: if_splits)
    moreover from RemoteHttps ascii obtain d where
      "host = HostDomain d" "ascii = to_ascii_lowercase d" "dns_hostname ascii"
      by (auto simp: target_host_ascii_def validate_remote_dns_hostname_eq
          split: url_host.splits if_splits)
    ultimately show ?thesis
      using len bs u segs p RemoteHttps by (auto simp: t allows_stored_api_key_def)
  next
    case LoopbackHttp
    with kind have k: "pu_scheme u = ''http''" "is_canonical_loopback_host host ?raw"
      by (auto simp: target_kind_of_def split: if_splits)
    then obtain raw where raw: "?raw = Some raw"
      by (cases ?raw) (auto simp: is_canonical_loopback_host_def)
    moreover have "loopback_host_text ascii"
      using LoopbackHttp ascii by (auto simp: target_host_ascii_def intro: normalize_loopback_host_Inr)
    ultimately show ?thesis
      using len bs u segs p LoopbackHttp k raw_host_localhost [of host raw]
      by (auto simp: t allows_stored_api_key_def)
  qed
qed

definition sample_url_parse :: "string \<Rightarrow> parsed_url option" where
  "sample_url_parse url =
     (if url = ''https://API.example.com/v1''
      then Some \<lparr>pu_scheme = ''https'', pu_username = [], pu_password = None,
                 pu_host = Some (HostDomain ''api.example.com''), pu_port = None,
                 pu_query = None, pu_fragment = None\<rparr>
      else None)"

theorem accepted_url_safe_witness:
  "\<exists>t. validate_and_normalize_url sample_url_parse ''https://API.example.com/v1'' = Inr t
     \<and> allows_stored_api_key t \<and> dns_hostname (vt_host_ascii t) \<and> vt_port t = 443"
proof -
  let ?t = "\<lparr>vt_kind = RemoteHttps, vt_host_ascii = ''api.example.com'', vt_port = 443,
    vt_base_path = \<lparr>bp_segments = [''v1''], bp_trailing_slash = False\<rparr>\<rparr>"
  have e: "validate_and_normalize_url sample_url_parse ''https://API.example.com/v1'' = Inr ?t"
    by code_simp
  from accepted_url_safe [OF e] e show ?thesis by (auto simp: allows_stored_api_key_def)
qed

end
