(* ===== verification/Ip_Policy.thy ===== *)
theory Ip_Policy
  imports Url_Policy
begin

text \<open>
  The address policy, \<open>src-tauri/src/model/transport/ip_policy.rs\<close>: the classification of
  addresses by prefix masks, the admission of a batch of DNS answers as a candidate set, and the
  check of a connected peer against the candidate that was selected. The process-wide counter of
  set identities is passed as an argument and returned.
\<close>

datatype ip_safety_class =
    Global | Loopback | Private | LinkLocal | CarrierGradeNat | Multicast | Unspecified
  | Documentation | Benchmark | ReservedOrSpecial

section \<open>Classification\<close>

definition to_ipv4_mapped :: "ipv6 \<Rightarrow> ipv4 option" where
  "to_ipv4_mapped ip = (if drop_bit 32 ip = 0xFFFF then Some (ucast ip) else None)"

fun normalize_ip :: "ip_addr \<Rightarrow> ip_addr" where
  "normalize_ip (IpV4 ip) = IpV4 ip"
| "normalize_ip (IpV6 ip) = (case to_ipv4_mapped ip of None \<Rightarrow> IpV6 ip | Some v4 \<Rightarrow> IpV4 v4)"

definition ipv4_in_cidr :: "ipv4 \<Rightarrow> nat \<times> nat \<times> nat \<times> nat \<Rightarrow> nat \<Rightarrow> bool" where
  "ipv4_in_cidr ip octets prefix_len =
     (let network = (case octets of (a, b, c, d) \<Rightarrow> from_be_bytes4 a b c d);
          mask = push_bit (32 - prefix_len) (- 1)
      in and ip mask = and network mask)"

definition ipv6_in_cidr :: "ipv6 \<Rightarrow> ipv6 \<Rightarrow> nat \<Rightarrow> bool" where
  "ipv6_in_cidr ip network prefix_len =
     (let mask = push_bit (128 - prefix_len) (- 1) in and ip mask = and network mask)"

definition classify_ipv4 :: "ipv4 \<Rightarrow> ip_safety_class" where
  "classify_ipv4 ip =
     (if ipv4_in_cidr ip (127, 0, 0, 0) 8 then Loopback
      else if ipv4_in_cidr ip (10, 0, 0, 0) 8 \<or> ipv4_in_cidr ip (172, 16, 0, 0) 12
         \<or> ipv4_in_cidr ip (192, 168, 0, 0) 16 then Private
      else if ipv4_in_cidr ip (169, 254, 0, 0) 16 then LinkLocal
      else if ipv4_in_cidr ip (100, 64, 0, 0) 10 then CarrierGradeNat
      else if ipv4_in_cidr ip (192, 0, 2, 0) 24 \<or> ipv4_in_cidr ip (198, 51, 100, 0) 24
         \<or> ipv4_in_cidr ip (203, 0, 113, 0) 24 then Documentation
      else if ipv4_in_cidr ip (198, 18, 0, 0) 15 then Benchmark
      else if ipv4_in_cidr ip (224, 0, 0, 0) 4 then Multicast
      else if ipv4_in_cidr ip (0, 0, 0, 0) 8 \<or> ipv4_in_cidr ip (192, 0, 0, 0) 24
         \<or> ipv4_in_cidr ip (192, 31, 196, 0) 24 \<or> ipv4_in_cidr ip (192, 52, 193, 0) 24
         \<or> ipv4_in_cidr ip (192, 88, 99, 0) 24 \<or> ipv4_in_cidr ip (192, 175, 48, 0) 24
         \<or> ipv4_in_cidr ip (240, 0, 0, 0) 4 then ReservedOrSpecial
      else Global)"

definition classify_ipv6 :: "ipv6 \<Rightarrow> ip_safety_class" where
  "classify_ipv6 ip =
     (if ip = 1 then Loopback
      else if ip = 0 then Unspecified
      else if ipv6_in_cidr ip 0 96 then ReservedOrSpecial
      else if ipv6_in_cidr ip (ipv6_groups [0x64, 0xff9b, 0, 0, 0, 0, 0, 0]) 96
         \<or> ipv6_in_cidr ip (ipv6_groups [0x64, 0xff9b, 1, 0, 0, 0, 0, 0]) 48
         \<or> ipv6_in_cidr ip (ipv6_groups [0x100, 0, 0, 0, 0, 0, 0, 0]) 64
         \<or> ipv6_in_cidr ip (ipv6_groups [0x2002, 0, 0, 0, 0, 0, 0, 0]) 16
         \<or> ipv6_in_cidr ip (ipv6_groups [0x3ffe, 0, 0, 0, 0, 0, 0, 0]) 16
         \<or> ipv6_in_cidr ip (ipv6_groups [0x3fff, 0, 0, 0, 0, 0, 0, 0]) 20
         \<or> ipv6_in_cidr ip (ipv6_groups [0xfec0, 0, 0, 0, 0, 0, 0, 0]) 10 then ReservedOrSpecial
      else if ipv6_in_cidr ip (ipv6_groups [0xfc00, 0, 0, 0, 0, 0, 0, 0]) 7 then Private
      else if ipv6_in_cidr ip (ipv6_groups [0xfe80, 0, 0, 0, 0, 0, 0, 0]) 10 then LinkLocal
      else if ipv6_in_cidr ip (ipv6_groups [0xff00, 0, 0, 0, 0, 0, 0, 0]) 8 then Multicast
      else if ipv6_in_cidr ip (ipv6_groups [0x2001, 0xdb8, 0, 0, 0, 0, 0, 0]) 32 then Documentation
      else if ipv6_in_cidr ip (ipv6_groups [0x2001, 2, 0, 0, 0, 0, 0, 0]) 48 then Benchmark
      else if ipv6_in_cidr ip (ipv6_groups [0x2001, 0, 0, 0, 0, 0, 0, 0]) 23 then ReservedOrSpecial
      else if ipv6_in_cidr ip (ipv6_groups [0x2000, 0, 0, 0, 0, 0, 0, 0]) 3 then Global
      else ReservedOrSpecial)"

definition classify_ip :: "ip_addr \<Rightarrow> ip_safety_class" where
  "classify_ip ip =
     (case normalize_ip ip of IpV4 v4 \<Rightarrow> classify_ipv4 v4 | IpV6 v6 \<Rightarrow> classify_ipv6 v6)"

section \<open>Candidate sets\<close>

record candidate_set =
  cs_set_id :: "64 word"
  cs_candidates :: "ip_addr list"

record candidate =
  cd_set_id :: "64 word"
  cd_index :: nat
  cd_ip :: ip_addr

definition set_len :: "candidate_set \<Rightarrow> nat" where
  "set_len s = length (cs_candidates s)"

definition set_is_empty :: "candidate_set \<Rightarrow> bool" where
  "set_is_empty s \<longleftrightarrow> cs_candidates s = []"

definition set_candidate :: "candidate_set \<Rightarrow> nat \<Rightarrow> candidate option" where
  "set_candidate s i =
     (if i < length (cs_candidates s)
      then Some \<lparr>cd_set_id = cs_set_id s, cd_index = i, cd_ip = cs_candidates s ! i\<rparr>
      else None)"

definition set_iter :: "candidate_set \<Rightarrow> candidate list" where
  "set_iter s =
     map (\<lambda>(i, ip). \<lparr>cd_set_id = cs_set_id s, cd_index = i, cd_ip = ip\<rparr>)
       (enumerate 0 (cs_candidates s))"

definition contains_normalized :: "candidate_set \<Rightarrow> ip_addr \<Rightarrow> bool" where
  "contains_normalized s ip \<longleftrightarrow> normalize_ip ip \<in> set (cs_candidates s)"

definition selected_ip :: "candidate_set \<Rightarrow> candidate \<Rightarrow> transport_policy_error + ip_addr" where
  "selected_ip s c =
     (if cd_set_id c \<noteq> cs_set_id s
         \<or> (if cd_index c < length (cs_candidates s)
             then cs_candidates s ! cd_index c \<noteq> cd_ip c else True)
      then Inl PeerMismatch
      else Inr (cd_ip c))"

definition validate_connected_peer ::
    "candidate_set \<Rightarrow> validated_target \<Rightarrow> candidate \<Rightarrow> ip_addr \<Rightarrow> nat
     \<Rightarrow> transport_policy_error + unit" where
  "validate_connected_peer s target selected peer_ip peer_port =
     try_bind (selected_ip s selected) (\<lambda>ip.
     let normalized = normalize_ip peer_ip in
     if normalized \<noteq> ip \<or> peer_port \<noteq> vt_port target then Inl PeerMismatch
     else (case (vt_kind target, classify_ip normalized) of
             (RemoteHttps, Global) \<Rightarrow> Inr ()
           | (LoopbackHttp, Loopback) \<Rightarrow> Inr ()
           | _ \<Rightarrow> Inl UnsafePeer))"

section \<open>Admission of DNS answers\<close>

fun collect_candidates ::
    "ip_addr list \<Rightarrow> ip_addr list \<Rightarrow> transport_policy_error + ip_addr list" where
  "collect_candidates raw [] = Inr raw"
| "collect_candidates raw (c # cs) =
     (if length raw = MAX_DNS_CANDIDATES then Inl TooManyDnsCandidates
      else collect_candidates (raw @ [c]) cs)"

fun push_normalized :: "ip_addr list \<Rightarrow> ip_addr list \<Rightarrow> ip_addr list" where
  "push_normalized normalized [] = normalized"
| "push_normalized normalized (ip # raw) =
     (let n = normalize_ip ip in
      push_normalized (if n \<in> set normalized then normalized else normalized @ [n]) raw)"

definition expected_class :: "transport_target_kind \<Rightarrow> ip_safety_class" where
  "expected_class kind = (case kind of RemoteHttps \<Rightarrow> Global | LoopbackHttp \<Rightarrow> Loopback)"

definition validate_resolved_candidates ::
    "64 word \<Rightarrow> validated_target \<Rightarrow> ip_addr list
     \<Rightarrow> (transport_policy_error + candidate_set) \<times> 64 word" where
  "validate_resolved_candidates next_id target candidates =
     (case collect_candidates [] candidates of
        Inl e \<Rightarrow> (Inl e, next_id)
      | Inr raw \<Rightarrow>
          (if raw = [] then (Inl EmptyDnsResult, next_id)
           else
             let normalized = push_normalized [] raw;
                 expected = expected_class (vt_kind target);
                 has_expected = list_ex (\<lambda>ip. classify_ip ip = expected) normalized
             in if list_ex (\<lambda>ip. classify_ip ip \<noteq> expected) normalized
                then (Inl (if has_expected then MixedUnsafeDnsResult else UnsafeDnsCandidate), next_id)
                else (Inr \<lparr>cs_set_id = next_id, cs_candidates = normalized\<rparr>, next_id + 1)))"

section \<open>Prefixes as ranges\<close>

lemma and_high_mask_eq:
  fixes a b :: "'a::len word"
  shows "and a (push_bit k (- 1)) = and b (push_bit k (- 1)) \<longleftrightarrow> drop_bit k a = drop_bit k b"
proof -
  have "and a (push_bit k (- 1)) = push_bit k (drop_bit k a)" for a :: "'a word"
    by (rule bit_word_eqI) (auto simp: bit_simps)
  then have "and a (push_bit k (- 1)) = and b (push_bit k (- 1))
      \<longleftrightarrow> push_bit k (drop_bit k a) = push_bit k (drop_bit k b)"
    by simp
  also have "\<dots> \<longleftrightarrow> drop_bit k a = drop_bit k b"
  proof
    assume "push_bit k (drop_bit k a) = push_bit k (drop_bit k b)"
    then have "drop_bit k (push_bit k (drop_bit k a)) = drop_bit k (push_bit k (drop_bit k b))"
      by simp
    moreover have "drop_bit k (push_bit k (drop_bit k x)) = drop_bit k x" for x :: "'a word"
      by (rule bit_word_eqI) (auto simp: bit_simps dest: bit_imp_le_length)
    ultimately show "drop_bit k a = drop_bit k b" by simp
  qed simp
  finally show ?thesis .
qed

lemma drop_bit_eq_iff_div:
  fixes a b :: "'a::len word"
  shows "drop_bit k a = drop_bit k b \<longleftrightarrow> unat a div 2 ^ k = unat b div 2 ^ k"
  unfolding word_unat_eq_iff unat_drop_bit_eq by (simp add: drop_bit_eq_div)

lemma div_eq_range:
  fixes a n m :: nat
  assumes "0 < m"
  shows "a div m = n \<longleftrightarrow> n * m \<le> a \<and> a < n * m + m"
proof
  assume "a div m = n"
  then show "n * m \<le> a \<and> a < n * m + m"
    using assms div_times_less_eq_dividend [of a m] dividend_less_times_div [OF assms, of a]
    by (simp add: mult.commute add.commute)
next
  assume "n * m \<le> a \<and> a < n * m + m"
  then show "a div m = n"
    using assms by (intro div_nat_eqI) (simp_all add: mult.commute)
qed

text \<open>The number of a dotted quad.\<close>

fun quad :: "nat \<times> nat \<times> nat \<times> nat \<Rightarrow> nat" where
  "quad (a, b, c, d) = ((a * 256 + b) * 256 + c) * 256 + d"

lemma ipv4_in_cidr_range:
  assumes "quad q < 4294967296"
  shows "ipv4_in_cidr ip q p \<longleftrightarrow>
    quad q div 2 ^ (32 - p) * 2 ^ (32 - p) \<le> unat ip
    \<and> unat ip < quad q div 2 ^ (32 - p) * 2 ^ (32 - p) + 2 ^ (32 - p)"
proof -
  obtain a b c d where q: "q = (a, b, c, d)" by (cases q)
  have "unat (of_nat n :: ipv4) = n" if "n < 4294967296" for n
    using that by (simp add: unat_of_nat)
  then have "unat (from_be_bytes4 a b c d) = quad q"
    using assms unfolding q from_be_bytes4_def quad.simps by blast
  then show ?thesis
    unfolding ipv4_in_cidr_def q Let_def prod.case and_high_mask_eq drop_bit_eq_iff_div
    by (simp add: div_eq_range)
qed

text \<open>The special-purpose blocks of IPv4, as ranges of addresses.\<close>

definition ipv4_registry ::
    "((nat \<times> nat \<times> nat \<times> nat) \<times> (nat \<times> nat \<times> nat \<times> nat) \<times> ip_safety_class) list" where
  "ipv4_registry =
     [((0, 0, 0, 0), (0, 255, 255, 255), ReservedOrSpecial),
      ((10, 0, 0, 0), (10, 255, 255, 255), Private),
      ((100, 64, 0, 0), (100, 127, 255, 255), CarrierGradeNat),
      ((127, 0, 0, 0), (127, 255, 255, 255), Loopback),
      ((169, 254, 0, 0), (169, 254, 255, 255), LinkLocal),
      ((172, 16, 0, 0), (172, 31, 255, 255), Private),
      ((192, 0, 0, 0), (192, 0, 0, 255), ReservedOrSpecial),
      ((192, 0, 2, 0), (192, 0, 2, 255), Documentation),
      ((192, 31, 196, 0), (192, 31, 196, 255), ReservedOrSpecial),
      ((192, 52, 193, 0), (192, 52, 193, 255), ReservedOrSpecial),
      ((192, 88, 99, 0), (192, 88, 99, 255), ReservedOrSpecial),
      ((192, 168, 0, 0), (192, 168, 255, 255), Private),
      ((192, 175, 48, 0), (192, 175, 48, 255), ReservedOrSpecial),
      ((198, 18, 0, 0), (198, 19, 255, 255), Benchmark),
      ((198, 51, 100, 0), (198, 51, 100, 255), Documentation),
      ((203, 0, 113, 0), (203, 0, 113, 255), Documentation),
      ((224, 0, 0, 0), (239, 255, 255, 255), Multicast),
      ((240, 0, 0, 0), (255, 255, 255, 255), ReservedOrSpecial)]"

definition registry_class :: "nat \<Rightarrow> ip_safety_class" where
  "registry_class n =
     (case find (\<lambda>(lo, hi, c). quad lo \<le> n \<and> n \<le> quad hi) ipv4_registry of
        None \<Rightarrow> Global
      | Some (_, _, c) \<Rightarrow> c)"

lemma classify_ipv4_registry: "classify_ipv4 ip = registry_class (unat ip)"
proof -
  have "unat ip < 2 ^ 32" using unsigned_less [of ip] by simp
  then have b: "unat ip \<le> 4294967295" by simp
  define n where "n = unat ip"
  have "n \<le> 4294967295" using b by (simp add: n_def)
  then show ?thesis
    unfolding classify_ipv4_def registry_class_def ipv4_registry_def n_def [symmetric]
    by (simp add: ipv4_in_cidr_range n_def [symmetric])
qed

section \<open>IPv6\<close>

text \<open>The first two groups of an IPv6 address.\<close>

definition top32 :: "ipv6 \<Rightarrow> nat" where
  "top32 ip = unat ip div 2 ^ 96"

lemma ipv6_in_cidr_div:
  "ipv6_in_cidr ip net p \<longleftrightarrow> unat ip div 2 ^ (128 - p) = unat net div 2 ^ (128 - p)"
  unfolding ipv6_in_cidr_def Let_def and_high_mask_eq drop_bit_eq_iff_div ..

lemma ipv6_in_cidr_short:
  assumes "p \<le> 32"
  shows "ipv6_in_cidr ip net p \<longleftrightarrow>
    top32 net div 2 ^ (32 - p) * 2 ^ (32 - p) \<le> top32 ip
    \<and> top32 ip < top32 net div 2 ^ (32 - p) * 2 ^ (32 - p) + 2 ^ (32 - p)"
proof -
  have "128 - p = 96 + (32 - p)" using assms by simp
  then have "(2::nat) ^ (128 - p) = 2 ^ 96 * 2 ^ (32 - p)"
    by (simp only: power_add)
  then show ?thesis
    unfolding ipv6_in_cidr_div top32_def
    by (simp only: div_mult2_eq) (simp add: div_eq_range)
qed

lemma ipv6_in_cidr_long:
  assumes "32 \<le> p" and "p \<le> 128" and "ipv6_in_cidr ip net p"
  shows "top32 ip = top32 net"
proof -
  have "96 = (128 - p) + (p - 32)" using assms(1,2) by simp
  then have "(2::nat) ^ 96 = 2 ^ (128 - p) * 2 ^ (p - 32)"
    by (metis power_add)
  then show ?thesis
    using assms(3) unfolding ipv6_in_cidr_div top32_def by (simp only: div_mult2_eq)
qed

lemma top32_groups:
  "list_all (\<lambda>g. g < 65536) [a, b, c, d, e, f, g, h] \<Longrightarrow>
   top32 (ipv6_groups [a, b, c, d, e, f, g, h]) = a * 65536 + b"
proof -
  assume small: "list_all (\<lambda>g. g < 65536) [a, b, c, d, e, f, g, h]"
  define lo where "lo = ((((c * 65536 + d) * 65536 + e) * 65536 + f) * 65536 + g) * 65536 + h"
  have lo: "lo < 2 ^ 96" using small by (simp add: lo_def)
  have eq: "foldl (\<lambda>acc g. acc * 65536 + g) 0 [a, b, c, d, e, f, g, h]
      = (a * 65536 + b) * 2 ^ 96 + lo"
    by (simp add: lo_def)
  have of_nat: "unat (of_nat n :: ipv6) = n" if "n < 2 ^ 128" for n
    using that by (simp add: unat_of_nat)
  have "(a * 65536 + b) * 2 ^ 96 + lo < 2 ^ 128" using small lo by simp
  then have "unat (of_nat ((a * 65536 + b) * 2 ^ 96 + lo) :: ipv6) = (a * 65536 + b) * 2 ^ 96 + lo"
    by (rule of_nat)
  with lo show ?thesis unfolding top32_def ipv6_groups_def eq by simp
qed

lemma top32_zero: "top32 0 = 0" "top32 1 = 0"
  by (simp_all add: top32_def)

text \<open>Only the first 32 bits decide whether an IPv6 address is global.\<close>

definition ipv6_global :: "nat \<Rightarrow> bool" where
  "ipv6_global t \<longleftrightarrow>
     0x20000000 \<le> t \<and> t \<le> 0x3fffffff
     \<and> \<not> (0x20010000 \<le> t \<and> t \<le> 0x200101ff) \<and> t \<noteq> 0x20010db8
     \<and> \<not> (0x20020000 \<le> t \<and> t \<le> 0x2002ffff)
     \<and> \<not> (0x3ffe0000 \<le> t \<and> t \<le> 0x3ffeffff)
     \<and> \<not> (0x3fff0000 \<le> t \<and> t \<le> 0x3fff0fff)"

lemma classify_ipv6_global: "classify_ipv6 ip = Global \<longleftrightarrow> ipv6_global (top32 ip)"
proof -
  have l: "ip = 1 \<or> ip = 0 \<or> ipv6_in_cidr ip 0 96 \<Longrightarrow> top32 ip = 0"
    "ipv6_in_cidr ip (ipv6_groups [0x64, 0xff9b, 0, 0, 0, 0, 0, 0]) 96 \<Longrightarrow> top32 ip = 0x64ff9b"
    "ipv6_in_cidr ip (ipv6_groups [0x64, 0xff9b, 1, 0, 0, 0, 0, 0]) 48 \<Longrightarrow> top32 ip = 0x64ff9b"
    "ipv6_in_cidr ip (ipv6_groups [0x100, 0, 0, 0, 0, 0, 0, 0]) 64 \<Longrightarrow> top32 ip = 0x1000000"
    "ipv6_in_cidr ip (ipv6_groups [0x2001, 2, 0, 0, 0, 0, 0, 0]) 48 \<Longrightarrow> top32 ip = 0x20010002"
    by (auto dest!: ipv6_in_cidr_long [rotated 2] simp: top32_groups top32_zero)
  have s: "ipv6_in_cidr ip (ipv6_groups [a, b, 0, 0, 0, 0, 0, 0]) p \<longleftrightarrow>
      (a * 65536 + b) div 2 ^ (32 - p) * 2 ^ (32 - p) \<le> top32 ip
      \<and> top32 ip < (a * 65536 + b) div 2 ^ (32 - p) * 2 ^ (32 - p) + 2 ^ (32 - p)"
    if "p \<le> 32" "a < 65536" "b < 65536" for a b p
    using that by (simp add: ipv6_in_cidr_short top32_groups)
  show ?thesis
  proof
    assume g: "classify_ipv6 ip = Global"
    have "\<not> ipv6_in_cidr ip (ipv6_groups [0x2002, 0, 0, 0, 0, 0, 0, 0]) 16"
      "\<not> ipv6_in_cidr ip (ipv6_groups [0x3ffe, 0, 0, 0, 0, 0, 0, 0]) 16"
      "\<not> ipv6_in_cidr ip (ipv6_groups [0x3fff, 0, 0, 0, 0, 0, 0, 0]) 20"
      "\<not> ipv6_in_cidr ip (ipv6_groups [0x2001, 0xdb8, 0, 0, 0, 0, 0, 0]) 32"
      "\<not> ipv6_in_cidr ip (ipv6_groups [0x2001, 0, 0, 0, 0, 0, 0, 0]) 23"
      "ipv6_in_cidr ip (ipv6_groups [0x2000, 0, 0, 0, 0, 0, 0, 0]) 3"
      using g by (auto simp: classify_ipv6_def split: if_splits)
    then show "ipv6_global (top32 ip)" by (auto simp: s ipv6_global_def)
  next
    assume g: "ipv6_global (top32 ip)"
    have "\<not> ipv6_in_cidr ip (ipv6_groups [0x2002, 0, 0, 0, 0, 0, 0, 0]) 16"
      "\<not> ipv6_in_cidr ip (ipv6_groups [0x3ffe, 0, 0, 0, 0, 0, 0, 0]) 16"
      "\<not> ipv6_in_cidr ip (ipv6_groups [0x3fff, 0, 0, 0, 0, 0, 0, 0]) 20"
      "\<not> ipv6_in_cidr ip (ipv6_groups [0xfec0, 0, 0, 0, 0, 0, 0, 0]) 10"
      "\<not> ipv6_in_cidr ip (ipv6_groups [0xfc00, 0, 0, 0, 0, 0, 0, 0]) 7"
      "\<not> ipv6_in_cidr ip (ipv6_groups [0xfe80, 0, 0, 0, 0, 0, 0, 0]) 10"
      "\<not> ipv6_in_cidr ip (ipv6_groups [0xff00, 0, 0, 0, 0, 0, 0, 0]) 8"
      "\<not> ipv6_in_cidr ip (ipv6_groups [0x2001, 0xdb8, 0, 0, 0, 0, 0, 0]) 32"
      "\<not> ipv6_in_cidr ip (ipv6_groups [0x2001, 0, 0, 0, 0, 0, 0, 0]) 23"
      "ipv6_in_cidr ip (ipv6_groups [0x2000, 0, 0, 0, 0, 0, 0, 0]) 3"
      using g by (auto simp: s ipv6_global_def)
    moreover have "top32 ip \<noteq> 0" "top32 ip \<noteq> 0x64ff9b" "top32 ip \<noteq> 0x1000000"
      "top32 ip \<noteq> 0x20010002"
      using g by (auto simp: ipv6_global_def)
    with l have "ip \<noteq> 1" "ip \<noteq> 0" "\<not> ipv6_in_cidr ip 0 96"
      "\<not> ipv6_in_cidr ip (ipv6_groups [0x64, 0xff9b, 0, 0, 0, 0, 0, 0]) 96"
      "\<not> ipv6_in_cidr ip (ipv6_groups [0x64, 0xff9b, 1, 0, 0, 0, 0, 0]) 48"
      "\<not> ipv6_in_cidr ip (ipv6_groups [0x100, 0, 0, 0, 0, 0, 0, 0]) 64"
      "\<not> ipv6_in_cidr ip (ipv6_groups [0x2001, 2, 0, 0, 0, 0, 0, 0]) 48"
      by blast+
    ultimately show "classify_ipv6 ip = Global" by (simp add: classify_ipv6_def)
  qed
qed

lemma ipv6_in_cidr_range:
  assumes "unat net = k"
  shows "ipv6_in_cidr ip net p \<longleftrightarrow>
    k div 2 ^ (128 - p) * 2 ^ (128 - p) \<le> unat ip
    \<and> unat ip < k div 2 ^ (128 - p) * 2 ^ (128 - p) + 2 ^ (128 - p)"
  unfolding ipv6_in_cidr_div assms by (simp add: div_eq_range)

text \<open>
  The address space of IPv6 in the order of its addresses: every block by the first groups of its
  first address (the groups that follow are zero), with its class. It reaches to the next block.
\<close>

definition ipv6_prefix :: "nat list \<Rightarrow> nat" where
  "ipv6_prefix gs = foldl (\<lambda>n g. n * 65536 + g) 0 gs * 65536 ^ (8 - length gs)"

definition ipv6_registry :: "(nat list \<times> ip_safety_class) list" where
  "ipv6_registry =
     [([0, 0, 0, 0, 0, 0, 0, 1], Loopback),
      ([0, 0, 0, 0, 0, 0, 0, 2], ReservedOrSpecial),
      ([0x2000], Global),
      ([0x2001], ReservedOrSpecial),
      ([0x2001, 2], Benchmark),
      ([0x2001, 2, 1], ReservedOrSpecial),
      ([0x2001, 0x200], Global),
      ([0x2001, 0xdb8], Documentation),
      ([0x2001, 0xdb9], Global),
      ([0x2002], ReservedOrSpecial),
      ([0x2003], Global),
      ([0x3ffe], ReservedOrSpecial),
      ([0x3fff, 0x1000], Global),
      ([0x4000], ReservedOrSpecial),
      ([0xfc00], Private),
      ([0xfe00], ReservedOrSpecial),
      ([0xfe80], LinkLocal),
      ([0xfec0], ReservedOrSpecial),
      ([0xff00], Multicast)]"

text \<open>The class of a number: that of the last block that starts at or below it.\<close>

fun class_from :: "ip_safety_class \<Rightarrow> (nat list \<times> ip_safety_class) list \<Rightarrow> nat \<Rightarrow> ip_safety_class" where
  "class_from c [] n = c"
| "class_from c ((gs, d) # rest) n = (if n < ipv6_prefix gs then c else class_from d rest n)"

definition ipv6_registry_class :: "nat \<Rightarrow> ip_safety_class" where
  "ipv6_registry_class n = class_from Unspecified ipv6_registry n"

lemma unat_ipv6_groups:
  assumes "length gs = 8" "ipv6_prefix gs < 2 ^ 128"
  shows "unat (ipv6_groups gs) = ipv6_prefix gs"
  using assms by (simp add: ipv6_groups_def ipv6_prefix_def unat_of_nat)

lemma ipv6_groups_range:
  assumes "length gs = 8" "ipv6_prefix gs < 2 ^ 128"
  shows "ipv6_in_cidr ip (ipv6_groups gs) p \<longleftrightarrow>
    ipv6_prefix gs div 2 ^ (128 - p) * 2 ^ (128 - p) \<le> unat ip
    \<and> unat ip < ipv6_prefix gs div 2 ^ (128 - p) * 2 ^ (128 - p) + 2 ^ (128 - p)"
  by (rule ipv6_in_cidr_range) (rule unat_ipv6_groups [OF assms])

lemma ipv6_zero_range: "ipv6_in_cidr ip 0 96 \<longleftrightarrow> unat ip < 2 ^ 32"
  by (simp add: ipv6_in_cidr_range)

lemma unat_is: "ip = 0 \<longleftrightarrow> unat ip = 0" "ip = 1 \<longleftrightarrow> unat ip = 1" for ip :: ipv6
  by (simp_all add: word_unat_eq_iff)

lemma ipv6_blocks:
  fixes ip :: ipv6
  shows
    "ipv6_in_cidr ip (ipv6_groups [0x64, 0xff9b, 0, 0, 0, 0, 0, 0]) 96 \<longleftrightarrow>
      0x64ff9b000000000000000000000000 \<le> unat ip \<and> unat ip < 0x64ff9b000000000000000100000000"
    "ipv6_in_cidr ip (ipv6_groups [0x64, 0xff9b, 1, 0, 0, 0, 0, 0]) 48 \<longleftrightarrow>
      0x64ff9b000100000000000000000000 \<le> unat ip \<and> unat ip < 0x64ff9b000200000000000000000000"
    "ipv6_in_cidr ip (ipv6_groups [0x100, 0, 0, 0, 0, 0, 0, 0]) 64 \<longleftrightarrow>
      0x1000000000000000000000000000000 \<le> unat ip \<and> unat ip < 0x1000000000000010000000000000000"
    "ipv6_in_cidr ip (ipv6_groups [0x2002, 0, 0, 0, 0, 0, 0, 0]) 16 \<longleftrightarrow>
      0x20020000000000000000000000000000 \<le> unat ip \<and> unat ip < 0x20030000000000000000000000000000"
    "ipv6_in_cidr ip (ipv6_groups [0x3ffe, 0, 0, 0, 0, 0, 0, 0]) 16 \<longleftrightarrow>
      0x3ffe0000000000000000000000000000 \<le> unat ip \<and> unat ip < 0x3fff0000000000000000000000000000"
    "ipv6_in_cidr ip (ipv6_groups [0x3fff, 0, 0, 0, 0, 0, 0, 0]) 20 \<longleftrightarrow>
      0x3fff0000000000000000000000000000 \<le> unat ip \<and> unat ip < 0x3fff1000000000000000000000000000"
    "ipv6_in_cidr ip (ipv6_groups [0xfec0, 0, 0, 0, 0, 0, 0, 0]) 10 \<longleftrightarrow>
      0xfec00000000000000000000000000000 \<le> unat ip \<and> unat ip < 0xff000000000000000000000000000000"
    "ipv6_in_cidr ip (ipv6_groups [0xfc00, 0, 0, 0, 0, 0, 0, 0]) 7 \<longleftrightarrow>
      0xfc000000000000000000000000000000 \<le> unat ip \<and> unat ip < 0xfe000000000000000000000000000000"
    "ipv6_in_cidr ip (ipv6_groups [0xfe80, 0, 0, 0, 0, 0, 0, 0]) 10 \<longleftrightarrow>
      0xfe800000000000000000000000000000 \<le> unat ip \<and> unat ip < 0xfec00000000000000000000000000000"
    "ipv6_in_cidr ip (ipv6_groups [0xff00, 0, 0, 0, 0, 0, 0, 0]) 8 \<longleftrightarrow>
      0xff000000000000000000000000000000 \<le> unat ip \<and> unat ip < 0x100000000000000000000000000000000"
    "ipv6_in_cidr ip (ipv6_groups [0x2001, 0xdb8, 0, 0, 0, 0, 0, 0]) 32 \<longleftrightarrow>
      0x20010db8000000000000000000000000 \<le> unat ip \<and> unat ip < 0x20010db9000000000000000000000000"
    "ipv6_in_cidr ip (ipv6_groups [0x2001, 2, 0, 0, 0, 0, 0, 0]) 48 \<longleftrightarrow>
      0x20010002000000000000000000000000 \<le> unat ip \<and> unat ip < 0x20010002000100000000000000000000"
    "ipv6_in_cidr ip (ipv6_groups [0x2001, 0, 0, 0, 0, 0, 0, 0]) 23 \<longleftrightarrow>
      0x20010000000000000000000000000000 \<le> unat ip \<and> unat ip < 0x20010200000000000000000000000000"
    "ipv6_in_cidr ip (ipv6_groups [0x2000, 0, 0, 0, 0, 0, 0, 0]) 3 \<longleftrightarrow>
      0x20000000000000000000000000000000 \<le> unat ip \<and> unat ip < 0x40000000000000000000000000000000"
  by (simp_all add: ipv6_groups_range ipv6_prefix_def)

lemma ipv6_bounds:
  "ipv6_prefix [0, 0, 0, 0, 0, 0, 0, 1] = 0x1"
  "ipv6_prefix [0, 0, 0, 0, 0, 0, 0, 2] = 0x2"
  "ipv6_prefix [0x2000] = 0x20000000000000000000000000000000"
  "ipv6_prefix [0x2001] = 0x20010000000000000000000000000000"
  "ipv6_prefix [0x2001, 2] = 0x20010002000000000000000000000000"
  "ipv6_prefix [0x2001, 2, 1] = 0x20010002000100000000000000000000"
  "ipv6_prefix [0x2001, 0x200] = 0x20010200000000000000000000000000"
  "ipv6_prefix [0x2001, 0xdb8] = 0x20010db8000000000000000000000000"
  "ipv6_prefix [0x2001, 0xdb9] = 0x20010db9000000000000000000000000"
  "ipv6_prefix [0x2002] = 0x20020000000000000000000000000000"
  "ipv6_prefix [0x2003] = 0x20030000000000000000000000000000"
  "ipv6_prefix [0x3ffe] = 0x3ffe0000000000000000000000000000"
  "ipv6_prefix [0x3fff, 0x1000] = 0x3fff1000000000000000000000000000"
  "ipv6_prefix [0x4000] = 0x40000000000000000000000000000000"
  "ipv6_prefix [0xfc00] = 0xfc000000000000000000000000000000"
  "ipv6_prefix [0xfe00] = 0xfe000000000000000000000000000000"
  "ipv6_prefix [0xfe80] = 0xfe800000000000000000000000000000"
  "ipv6_prefix [0xfec0] = 0xfec00000000000000000000000000000"
  "ipv6_prefix [0xff00] = 0xff000000000000000000000000000000"
  by (simp_all add: ipv6_prefix_def)

lemma classify_ipv6_registry: "classify_ipv6 ip = ipv6_registry_class (unat ip)"
proof -
  define n where "n = unat ip"
  have "n < 2 ^ 128" using unsigned_less [of ip] by (simp add: n_def)
  then have top: "n < 0x100000000000000000000000000000000" by simp
  note ranges = ipv6_blocks [of ip, folded n_def]
  have "classify_ipv6 ip = class_from Unspecified ipv6_registry n"
  proof -
    consider "n < 0x1"
      | "0x1 \<le> n" "n < 0x2"
      | "0x2 \<le> n" "n < 0x20000000000000000000000000000000"
      | "0x20000000000000000000000000000000 \<le> n" "n < 0x20010000000000000000000000000000"
      | "0x20010000000000000000000000000000 \<le> n" "n < 0x20010002000000000000000000000000"
      | "0x20010002000000000000000000000000 \<le> n" "n < 0x20010002000100000000000000000000"
      | "0x20010002000100000000000000000000 \<le> n" "n < 0x20010200000000000000000000000000"
      | "0x20010200000000000000000000000000 \<le> n" "n < 0x20010db8000000000000000000000000"
      | "0x20010db8000000000000000000000000 \<le> n" "n < 0x20010db9000000000000000000000000"
      | "0x20010db9000000000000000000000000 \<le> n" "n < 0x20020000000000000000000000000000"
      | "0x20020000000000000000000000000000 \<le> n" "n < 0x20030000000000000000000000000000"
      | "0x20030000000000000000000000000000 \<le> n" "n < 0x3ffe0000000000000000000000000000"
      | "0x3ffe0000000000000000000000000000 \<le> n" "n < 0x3fff1000000000000000000000000000"
      | "0x3fff1000000000000000000000000000 \<le> n" "n < 0x40000000000000000000000000000000"
      | "0x40000000000000000000000000000000 \<le> n" "n < 0xfc000000000000000000000000000000"
      | "0xfc000000000000000000000000000000 \<le> n" "n < 0xfe000000000000000000000000000000"
      | "0xfe000000000000000000000000000000 \<le> n" "n < 0xfe800000000000000000000000000000"
      | "0xfe800000000000000000000000000000 \<le> n" "n < 0xfec00000000000000000000000000000"
      | "0xfec00000000000000000000000000000 \<le> n" "n < 0xff000000000000000000000000000000"
      | "0xff000000000000000000000000000000 \<le> n"
      unfolding not_less [symmetric] by blast
    then show ?thesis
      unfolding classify_ipv6_def unat_is ipv6_zero_range n_def [symmetric] ranges ipv6_registry_def
        class_from.simps ipv6_bounds
      using top by cases (simp_all, linarith)
  qed
  then show ?thesis by (simp add: ipv6_registry_class_def n_def)
qed

text \<open>
  C35: the prefix-mask cascade against the address registries. An IPv4 address has the class of the
  special-purpose range it lies in and is global when it lies in none. An IPv6 address has the class
  of its block in the partition of the address space: unspecified and loopback at \<open>::\<close> and \<open>::1\<close>,
  private in \<open>fc00::/7\<close>, link-local in \<open>fe80::/10\<close>, multicast in \<open>ff00::/8\<close>, for documentation in
  \<open>2001:db8::/32\<close>, for benchmarks in \<open>2001:2::/48\<close>, global in the rest of \<open>2000::/3\<close> but \<open>2001::/23\<close>,
  \<open>2002::/16\<close>, \<open>3ffe::/16\<close> and \<open>3fff::/20\<close>, and reserved elsewhere; in particular it is global exactly
  when its first 32 bits lie in \<open>2000::/3\<close> outside the special blocks. And an IPv4-mapped IPv6 address
  always has the class of the IPv4 address inside it, so mapping hides nothing.
\<close>

theorem address_classification:
  "classify_ip (IpV4 a) = registry_class (unat a)
   \<and> (to_ipv4_mapped b = None \<longrightarrow>
        classify_ip (IpV6 b) = ipv6_registry_class (unat b)
        \<and> (classify_ip (IpV6 b) = Global \<longleftrightarrow> ipv6_global (top32 b)))
   \<and> (to_ipv4_mapped b = Some c \<longrightarrow> classify_ip (IpV6 b) = classify_ip (IpV4 c))"
  using classify_ipv6_global [of b]
  by (simp add: classify_ip_def classify_ipv4_registry classify_ipv6_registry)

theorem address_classification_witness:
  "to_ipv4_mapped 0xFFFF0A000001 = Some 0x0A000001
   \<and> classify_ip (IpV6 0xFFFF0A000001) = Private
   \<and> classify_ip (IpV6 1) = Loopback
   \<and> classify_ip (IpV6 0xfc000000000000000000000000000001) = Private
   \<and> classify_ip (IpV6 0xfe800000000000000000000000000001) = LinkLocal"
proof -
  have six: "classify_ip (IpV6 b) = ipv6_registry_class (unat b)" if "to_ipv4_mapped b = None" for b
    using address_classification [of 0 b] that by blast
  have "classify_ip (IpV6 1) = Loopback"
      "classify_ip (IpV6 0xfc000000000000000000000000000001) = Private"
      "classify_ip (IpV6 0xfe800000000000000000000000000001) = LinkLocal"
    by (simp_all add: six to_ipv4_mapped_def ipv6_registry_class_def ipv6_registry_def ipv6_prefix_def)
  moreover have m: "to_ipv4_mapped 0xFFFF0A000001 = Some 0x0A000001"
    by (simp add: to_ipv4_mapped_def)
  moreover have "registry_class (unat (0x0A000001 :: ipv4)) = Private"
    by (simp add: registry_class_def ipv4_registry_def)
  ultimately show ?thesis
    using address_classification [of "0x0A000001" "0xFFFF0A000001" "0x0A000001"] by simp
qed

section \<open>Admitted candidate sets\<close>

lemma normalize_ip_idem [simp]: "normalize_ip (normalize_ip ip) = normalize_ip ip"
proof (cases ip)
  case (IpV6 x2)
  then show ?thesis by (cases "to_ipv4_mapped x2") simp_all
qed simp

lemma classify_normalize [simp]: "classify_ip (normalize_ip ip) = classify_ip ip"
  by (simp add: classify_ip_def)

lemma collect_candidates_eq:
  "length raw \<le> MAX_DNS_CANDIDATES \<Longrightarrow>
   collect_candidates raw cs =
     (if length raw + length cs \<le> MAX_DNS_CANDIDATES then Inr (raw @ cs)
      else Inl TooManyDnsCandidates)"
  by (induction raw cs rule: collect_candidates.induct) auto

lemma push_normalized_props:
  "distinct ns \<Longrightarrow>
   set (push_normalized ns raw) = set ns \<union> normalize_ip ` set raw
   \<and> distinct (push_normalized ns raw)"
  by (induction ns raw rule: push_normalized.induct) (auto simp: Let_def)

lemma push_normalized_set [simp]: "set (push_normalized [] raw) = normalize_ip ` set raw"
  using push_normalized_props [of "[]" raw] by simp

lemma push_normalized_length: "length (push_normalized ns raw) \<le> length ns + length raw"
  by (induction ns raw rule: push_normalized.induct) (force simp: Let_def)+

text \<open>
  The admission of a batch of DNS answers in closed form, error by error. A set is admitted
  exactly when there are 1 to 16 answers and every one of them has the class the target needs; it
  then holds the normalised answers without repetition, in order, and takes the next set identity.
  One unsafe answer refuses the whole batch.
\<close>

theorem resolved_candidates_spec:
  "validate_resolved_candidates next_id target cs =
     (let needed = expected_class (vt_kind target) in
      if length cs > 16 then (Inl TooManyDnsCandidates, next_id)
      else if cs = [] then (Inl EmptyDnsResult, next_id)
      else if \<forall>c \<in> set cs. classify_ip c = needed
      then (Inr \<lparr>cs_set_id = next_id, cs_candidates = push_normalized [] cs\<rparr>, next_id + 1)
      else if \<exists>c \<in> set cs. classify_ip c = needed then (Inl MixedUnsafeDnsResult, next_id)
      else (Inl UnsafeDnsCandidate, next_id))
   \<and> distinct (push_normalized [] cs) \<and> set (push_normalized [] cs) = normalize_ip ` set cs"
  using push_normalized_props [of "[]" cs]
  by (auto simp: validate_resolved_candidates_def collect_candidates_eq MAX_DNS_CANDIDATES_def
      Let_def list_ex_iff)

definition sample_target :: validated_target where
  "sample_target = \<lparr>vt_kind = RemoteHttps, vt_host_ascii = ''example.com'', vt_port = 443,
     vt_base_path = \<lparr>bp_segments = [], bp_trailing_slash = True\<rparr>\<rparr>"

theorem resolved_candidates_spec_witness:
  "validate_resolved_candidates 7 sample_target [IpV4 0x08080808, IpV4 0x0A000001]
     = (Inl MixedUnsafeDnsResult, 7)"
proof -
  have "registry_class (unat (0x08080808 :: ipv4)) = Global"
    "registry_class (unat (0x0A000001 :: ipv4)) = Private"
    by (simp_all add: registry_class_def ipv4_registry_def)
  then have "classify_ip (IpV4 0x08080808) = Global" "classify_ip (IpV4 0x0A000001) = Private"
    by (simp_all only: classify_ip_def normalize_ip.simps ip_addr.case classify_ipv4_registry)
  then show ?thesis
    using resolved_candidates_spec [of 7 sample_target "[IpV4 0x08080808, IpV4 0x0A000001]"]
    by (simp add: sample_target_def expected_class_def)
qed

lemma admitted_set:
  assumes "validate_resolved_candidates next_id target cs = (Inr s, next_id')"
  shows "cs_set_id s = next_id \<and> next_id' = next_id + 1
    \<and> distinct (cs_candidates s)
    \<and> (\<forall>ip \<in> set (cs_candidates s). normalize_ip ip = ip
         \<and> classify_ip ip = expected_class (vt_kind target))"
proof -
  from assms have s: "s = \<lparr>cs_set_id = next_id, cs_candidates = push_normalized [] cs\<rparr>"
    "next_id' = next_id + 1"
    and ok: "\<forall>c \<in> set cs. classify_ip c = expected_class (vt_kind target)"
    by (auto simp: validate_resolved_candidates_def collect_candidates_eq MAX_DNS_CANDIDATES_def
        Let_def list_ex_iff split: if_splits)
  then show ?thesis using push_normalized_props [of "[]" cs] by auto
qed

lemma selected_ip_own:
  assumes "set_candidate s i = Some c"
  shows "selected_ip s c = Inr (cd_ip c)" and "cd_ip c \<in> set (cs_candidates s)"
  using assms by (auto simp: set_candidate_def selected_ip_def split: if_splits)

text \<open>
  The peer check. For a candidate of an admitted set, a connected peer passes exactly when it
  is that candidate's address after normalisation on the target's port, and then its class is the
  one the target needs; anything else is \<open>PeerMismatch\<close>. A candidate of another set, the next one
  the process admits included, never validates a peer.
\<close>

theorem connected_peer_check:
  assumes "validate_resolved_candidates n target cs = (Inr s, n')"
    and "set_candidate s i = Some c"
  shows "validate_connected_peer s target c ip port =
      (if normalize_ip ip = cd_ip c \<and> port = vt_port target then Inr () else Inl PeerMismatch)
    \<and> (validate_connected_peer s target c ip port = Inr () \<longrightarrow>
         classify_ip ip = expected_class (vt_kind target) \<and> contains_normalized s ip)
    \<and> (\<forall>cs2 s2 n2 j d. validate_resolved_candidates n' target2 cs2 = (Inr s2, n2)
         \<and> set_candidate s2 j = Some d \<longrightarrow>
         validate_connected_peer s target d ip port = Inl PeerMismatch)"
proof (intro conjI allI impI)
  note a = admitted_set [OF assms(1)] and own = selected_ip_own [OF assms(2)]
  have cl: "classify_ip ip = expected_class (vt_kind target)" if "normalize_ip ip = cd_ip c"
    using that a own(2) by (metis classify_normalize)
  show v: "validate_connected_peer s target c ip port =
      (if normalize_ip ip = cd_ip c \<and> port = vt_port target then Inr () else Inl PeerMismatch)"
    using cl a own(2) by (cases "vt_kind target")
      (auto simp: validate_connected_peer_def own(1) Let_def expected_class_def)
  assume "validate_connected_peer s target c ip port = Inr ()"
  with v have "normalize_ip ip = cd_ip c" by (auto split: if_splits)
  with cl own(2) show "classify_ip ip = expected_class (vt_kind target)"
    and "contains_normalized s ip"
    by (simp_all add: contains_normalized_def)
next
  fix cs2 s2 n2 j d
  assume other: "validate_resolved_candidates n' target2 cs2 = (Inr s2, n2)
      \<and> set_candidate s2 j = Some d"
  have "cd_set_id d = n + 1"
    using other admitted_set [of n' target2 cs2 s2 n2] admitted_set [OF assms(1)]
    by (auto simp: set_candidate_def split: if_splits)
  moreover have "cs_set_id s = n" using admitted_set [OF assms(1)] by simp
  ultimately have "selected_ip s d = Inl PeerMismatch"
    by (simp add: selected_ip_def)
  then show "validate_connected_peer s target d ip port = Inl PeerMismatch"
    by (simp add: validate_connected_peer_def)
qed

theorem connected_peer_check_witness:
  "\<exists>s c. validate_resolved_candidates 1 sample_target [IpV4 0x08080808, IpV6 0xFFFF08080808]
        = (Inr s, 2)
     \<and> set_candidate s 0 = Some c
     \<and> validate_connected_peer s sample_target c (IpV6 0xFFFF08080808) 443 = Inr ()
     \<and> validate_connected_peer s sample_target c (IpV4 0x0A000001) 443 = Inl PeerMismatch"
proof -
  let ?s = "\<lparr>cs_set_id = 1, cs_candidates = [IpV4 0x08080808]\<rparr>"
  let ?c = "\<lparr>cd_set_id = 1, cd_index = 0, cd_ip = IpV4 0x08080808\<rparr>"
  have m: "to_ipv4_mapped 0xFFFF08080808 = Some 0x08080808"
    by (simp add: to_ipv4_mapped_def)
  have g: "classify_ipv4 0x08080808 = Global"
    by (simp add: classify_ipv4_registry registry_class_def ipv4_registry_def)
  have v: "validate_resolved_candidates 1 sample_target [IpV4 0x08080808, IpV6 0xFFFF08080808]
      = (Inr ?s, 2)"
    by (simp add: validate_resolved_candidates_def MAX_DNS_CANDIDATES_def Let_def sample_target_def
        m g classify_ip_def expected_class_def)
  have c: "set_candidate ?s 0 = Some ?c" by (simp add: set_candidate_def)
  from connected_peer_check [OF v c, of "IpV6 0xFFFF08080808" 443 sample_target]
    connected_peer_check [OF v c, of "IpV4 0x0A000001" 443 sample_target] v c m
  show ?thesis by (intro exI [of _ ?s] exI [of _ ?c]) (simp add: sample_target_def)
qed

end
