(* ===== verification/Header_Limit.thy ===== *)
theory Header_Limit
  imports Transport_Common
begin

text \<open>
  The header admission guard in front of the HTTP parser,
  \<open>src-tauri/src/model/transport/header_limit_io.rs\<close>: the incremental scanner and the reader that
  feeds it through a fixed staging buffer. The underlying reader is the list of answers its
  successive \<open>poll_read\<close> calls give; the writer half passes everything through and is left out. The
  scanner after a rejected byte is not kept: the reader never uses it again, as it has recorded the
  terminal error.
\<close>

datatype header_limit_error =
    HeaderTooLarge | HeaderCountExceeded | HeaderMalformed | ProtocolUpgradeRejected

section \<open>The scanner\<close>

record header_scanner =
  scanning_headers :: bool
  expecting_status :: bool
  informational_block :: bool
  total_header_bytes :: nat
  fields_in_block :: nat
  line_bytes :: nat
  line_has_content :: bool
  status_prefix :: string

definition scanner_new :: header_scanner where
  "scanner_new =
     \<lparr>scanning_headers = True, expecting_status = True, informational_block = False,
      total_header_bytes = 0, fields_in_block = 0, line_bytes = 0, line_has_content = False,
      status_prefix = []\<rparr>"

definition status_code :: "string \<Rightarrow> nat option" where
  "status_code p =
     (if length p < 12 \<or> take 5 p \<noteq> ''HTTP/'' \<or> p ! 8 \<noteq> CHR '' '' then None
      else let digits = take 3 (drop 9 p) in
           if \<not> list_all is_ascii_digit digits then None
           else Some ((of_char (digits ! 0) - 48) * 100 + (of_char (digits ! 1) - 48) * 10
                      + (of_char (digits ! 2) - 48)))"

definition finish_line :: "header_scanner \<Rightarrow> header_limit_error + header_scanner" where
  "finish_line s =
     try_bind
       (if expecting_status s
        then (if \<not> line_has_content s then Inl HeaderMalformed
              else let status = status_code (status_prefix s) in
                   if status = Some 101 then Inl ProtocolUpgradeRejected
                   else Inr (s\<lparr>informational_block :=
                                 (case status of None \<Rightarrow> False | Some code \<Rightarrow> 100 \<le> code \<and> code < 200),
                               expecting_status := False, fields_in_block := 0\<rparr>))
        else if \<not> line_has_content s
        then (if informational_block s
              then Inr (s\<lparr>expecting_status := True, informational_block := False\<rparr>)
              else Inr (s\<lparr>scanning_headers := False\<rparr>))
        else let n = saturating_add_usize (fields_in_block s) 1 in
             if n > MAX_HEADERS_PER_BLOCK then Inl HeaderCountExceeded
             else Inr (s\<lparr>fields_in_block := n\<rparr>))
       (\<lambda>s'. Inr (s'\<lparr>line_bytes := 0, line_has_content := False, status_prefix := []\<rparr>))"

definition scan_byte :: "header_scanner \<Rightarrow> char \<Rightarrow> header_limit_error + header_scanner" where
  "scan_byte s byte =
     (let total = saturating_add_usize (total_header_bytes s) 1 in
      if total > MAX_RESPONSE_HEADER_BYTES then Inl HeaderTooLarge
      else
        let s1 = s\<lparr>total_header_bytes := total,
                   line_bytes := saturating_add_usize (line_bytes s) 1\<rparr> in
        if byte = CHR 0x0A then finish_line s1
        else if byte = CHR 0x0D then Inr s1
        else Inr (s1\<lparr>line_has_content := True,
                     status_prefix :=
                       (if expecting_status s \<and> length (status_prefix s) < 16
                        then status_prefix s @ [byte] else status_prefix s)\<rparr>))"

fun inspect :: "header_scanner \<Rightarrow> string \<Rightarrow> header_limit_error + header_scanner" where
  "inspect s [] = Inr s"
| "inspect s (byte # bytes) =
     (if \<not> scanning_headers s then Inr s
      else try_bind (scan_byte s byte) (\<lambda>s'. inspect s' bytes))"

section \<open>The reader\<close>

datatype 'e inner_answer = InnerPending | InnerErr 'e | InnerOk string

datatype 'e read_error = InnerIo 'e | HeaderIo header_limit_error

datatype 'e poll_answer = PollPending | PollErr "'e read_error" | PollOk string

record 'e header_io =
  hio_inner :: "'e inner_answer list"
  hio_scanner :: header_scanner
  hio_staging :: string
  hio_start :: nat
  hio_end :: nat
  hio_error :: "header_limit_error option"

definition header_io_new :: "'e inner_answer list \<Rightarrow> 'e header_io" where
  "header_io_new inner =
     \<lparr>hio_inner = inner, hio_scanner = scanner_new,
      hio_staging = replicate HEADER_STAGING_BYTES (CHR 0x00), hio_start = 0, hio_end = 0,
      hio_error = None\<rparr>"

text \<open>\<open>drain_staging\<close>: the bytes written to the caller's buffer of the given capacity.\<close>

definition drain_staging :: "nat \<Rightarrow> 'e header_io \<Rightarrow> 'e poll_answer \<times> 'e header_io" where
  "drain_staging remaining io =
     (let n = min (hio_end io - hio_start io) remaining;
          e = hio_start io + n
      in (PollOk (take n (drop (hio_start io) (hio_staging io))), io\<lparr>hio_start := e\<rparr>))"

definition inner_poll :: "'e inner_answer list \<Rightarrow> 'e inner_answer \<times> 'e inner_answer list" where
  "inner_poll inner = (case inner of [] \<Rightarrow> (InnerOk [], []) | a # rest \<Rightarrow> (a, rest))"

definition poll_read :: "nat \<Rightarrow> 'e header_io \<Rightarrow> 'e poll_answer \<times> 'e header_io" where
  "poll_read remaining io =
     (case hio_error io of
        Some e \<Rightarrow> (PollErr (HeaderIo e), io)
      | None \<Rightarrow>
          if hio_start io < hio_end io then drain_staging remaining io
          else if remaining = 0 then (PollOk [], io)
          else
            (case inner_poll (hio_inner io) of
               (InnerPending, rest) \<Rightarrow>
                 (PollPending, io\<lparr>hio_inner := rest, hio_start := 0, hio_end := 0\<rparr>)
             | (InnerErr e, rest) \<Rightarrow>
                 (PollErr (InnerIo e), io\<lparr>hio_inner := rest, hio_start := 0, hio_end := 0\<rparr>)
             | (InnerOk bytes, rest) \<Rightarrow>
                 let io1 = io\<lparr>hio_inner := rest, hio_start := 0, hio_end := 0,
                              hio_staging := bytes @ drop (length bytes) (hio_staging io)\<rparr> in
                 if bytes = []
                 then (if scanning_headers (hio_scanner io)
                       then (PollErr (HeaderIo HeaderMalformed),
                             io1\<lparr>hio_error := Some HeaderMalformed\<rparr>)
                       else (PollOk [], io1))
                 else
                   (case inspect (hio_scanner io) (take (length bytes) (hio_staging io1)) of
                      Inl e \<Rightarrow> (PollErr (HeaderIo e), io1\<lparr>hio_error := Some e\<rparr>)
                    | Inr scanner \<Rightarrow>
                        drain_staging remaining
                          (io1\<lparr>hio_scanner := scanner, hio_end := length bytes\<rparr>))))"

section \<open>Scanning in chunks\<close>

lemma inspect_done [simp]: "\<not> scanning_headers s \<Longrightarrow> inspect s bytes = Inr s"
  by (cases bytes) simp_all

lemma inspect_append: "inspect s (a @ b) = try_bind (inspect s a) (\<lambda>s'. inspect s' b)"
proof (induction a arbitrary: s)
  case (Cons c a)
  show ?case
  proof (cases "scanning_headers s")
    case True
    with Cons show ?thesis by (cases "scan_byte s c") auto
  qed simp
qed simp

text \<open>
  How the network cuts the stream does not matter. Scanning the chunks one after the other
  gives the same verdict and the same state as scanning their concatenation.
\<close>

theorem scanner_chunking:
  "foldl (\<lambda>r chunk. try_bind r (\<lambda>s. inspect s chunk)) (Inr s) chunks = inspect s (concat chunks)"
proof (induction chunks rule: rev_induct)
  case (snoc c cs)
  then show ?case by (simp add: inspect_append)
qed simp

section \<open>Whole response heads\<close>

lemma sat_add_small [simp]: "a \<le> 32768 \<Longrightarrow> saturating_add_usize a (Suc 0) = Suc a"
  by (simp add: saturating_add_usize_def u64_max_def)

text \<open>A line that carries no line feed, from the start of a line.\<close>

definition line_started :: "header_scanner \<Rightarrow> bool" where
  "line_started s \<longleftrightarrow> scanning_headers s \<and> \<not> line_has_content s \<and> status_prefix s = []
     \<and> line_bytes s = 0 \<and> total_header_bytes s \<le> 32768"

definition visible :: "string \<Rightarrow> string" where
  "visible line = filter (\<lambda>b. b \<noteq> CHR 0x0D) line"

definition after_line_bytes :: "string \<Rightarrow> header_scanner \<Rightarrow> header_scanner" where
  "after_line_bytes line s =
     s\<lparr>total_header_bytes := total_header_bytes s + length line,
       line_bytes := line_bytes s + length line,
       line_has_content := line_has_content s \<or> visible line \<noteq> [],
       status_prefix := (if expecting_status s then take 16 (status_prefix s @ visible line)
                         else status_prefix s)\<rparr>"

lemma inspect_line_bytes:
  assumes "CHR 0x0A \<notin> set line" and "scanning_headers s" and "length (status_prefix s) \<le> 16"
    and "line_bytes s \<le> total_header_bytes s" and "total_header_bytes s \<le> 32768"
  shows "inspect s line =
    (if total_header_bytes s + length line \<le> 32768 then Inr (after_line_bytes line s)
     else Inl HeaderTooLarge)"
  using assms
proof (induction line arbitrary: s)
  case Nil
  then show ?case by (simp add: after_line_bytes_def visible_def)
next
  case (Cons b line)
  then have lb: "line_bytes s \<le> 32768" by simp
  show ?case
  proof (cases "total_header_bytes s = 32768")
    case True
    with Cons.prems show ?thesis
      by (simp add: scan_byte_def MAX_RESPONSE_HEADER_BYTES_def Let_def)
  next
    case False
    with Cons.prems have t: "Suc (total_header_bytes s) \<le> 32768" by simp
    define s1 where "s1 = (if b = CHR 0x0D
      then s\<lparr>total_header_bytes := Suc (total_header_bytes s), line_bytes := Suc (line_bytes s)\<rparr>
      else s\<lparr>total_header_bytes := Suc (total_header_bytes s), line_bytes := Suc (line_bytes s),
             line_has_content := True,
             status_prefix := (if expecting_status s \<and> length (status_prefix s) < 16
                               then status_prefix s @ [b] else status_prefix s)\<rparr>)"
    have "b \<noteq> CHR 0x0A" using Cons.prems(1) by auto
    then have step: "scan_byte s b = Inr s1"
      using t lb
      by (simp add: scan_byte_def MAX_RESPONSE_HEADER_BYTES_def Let_def s1_def)
    have "inspect s1 line = (if total_header_bytes s1 + length line \<le> 32768
        then Inr (after_line_bytes line s1) else Inl HeaderTooLarge)"
      by (rule Cons.IH) (use Cons.prems t in \<open>auto simp: s1_def\<close>)
    moreover have "after_line_bytes line s1 = after_line_bytes (b # line) s"
      using Cons.prems(3) by (auto simp: after_line_bytes_def s1_def visible_def take_Cons')
    moreover have "total_header_bytes s1 = Suc (total_header_bytes s)"
      by (simp add: s1_def)
    ultimately show ?thesis
      using Cons.prems(2) step by simp
  qed
qed

definition CRLF :: string where "CRLF = [CHR 0x0D, CHR 0x0A]"

lemma CRLF_not_visible [simp]: "visible (l @ [CHR 0x0D]) = visible l"
  by (simp add: visible_def)

lemma line_started_wf:
  "line_started s \<Longrightarrow> scanning_headers s \<and> length (status_prefix s) \<le> 16
     \<and> line_bytes s \<le> total_header_bytes s \<and> total_header_bytes s \<le> 32768"
  by (simp add: line_started_def)

lemma inspect_line:
  assumes "CHR 0x0A \<notin> set l" and "line_started s"
  shows "inspect s (l @ CRLF @ rest) =
    (if total_header_bytes s + length l + 2 \<le> 32768
     then try_bind
            (finish_line
               ((after_line_bytes l s)\<lparr>total_header_bytes := total_header_bytes s + length l + 2,
                                      line_bytes := length l + 2\<rparr>))
            (\<lambda>s'. inspect s' rest)
     else Inl HeaderTooLarge)"
proof -
  have "l @ CRLF @ rest = (l @ [CHR 0x0D]) @ CHR 0x0A # rest"
    by (simp add: CRLF_def)
  then have "inspect s (l @ CRLF @ rest) =
      try_bind (inspect s (l @ [CHR 0x0D])) (\<lambda>s'. inspect s' (CHR 0x0A # rest))"
    by (simp only: inspect_append [of s "l @ [CHR 0x0D]"])
  moreover have "inspect s (l @ [CHR 0x0D]) =
    (if total_header_bytes s + length l + 1 \<le> 32768 then Inr (after_line_bytes (l @ [CHR 0x0D]) s)
     else Inl HeaderTooLarge)"
    using inspect_line_bytes [of "l @ [CHR 0x0D]" s] assms line_started_wf [OF assms(2)] by simp
  moreover have "scan_byte (after_line_bytes (l @ [CHR 0x0D]) s) (CHR 0x0A) =
    (if total_header_bytes s + length l + 2 \<le> 32768
     then finish_line
            ((after_line_bytes l s)\<lparr>total_header_bytes := total_header_bytes s + length l + 2,
                                   line_bytes := length l + 2\<rparr>)
     else Inl HeaderTooLarge)"
    if "total_header_bytes s + length l + 1 \<le> 32768"
    using that assms(2)
    by (auto simp: scan_byte_def after_line_bytes_def MAX_RESPONSE_HEADER_BYTES_def Let_def
        line_started_def)
  moreover have "scanning_headers (after_line_bytes (l @ [CHR 0x0D]) s)"
    using assms(2) by (simp add: after_line_bytes_def line_started_def)
  ultimately show ?thesis by simp
qed

text \<open>The three kinds of lines.\<close>

definition advance :: "nat \<Rightarrow> header_scanner \<Rightarrow> header_scanner" where
  "advance n s = s\<lparr>total_header_bytes := total_header_bytes s + n\<rparr>"

definition is_informational :: "nat option \<Rightarrow> bool" where
  "is_informational c \<longleftrightarrow> (case c of None \<Rightarrow> False | Some code \<Rightarrow> 100 \<le> code \<and> code < 200)"

definition line_status :: "string \<Rightarrow> nat option" where
  "line_status l = status_code (take 16 (visible l))"

lemma status_line_accepted:
  assumes "CHR 0x0A \<notin> set l" "visible l \<noteq> []" "line_started s" "expecting_status s"
  shows "inspect s (l @ CRLF @ rest) = Inr r \<longleftrightarrow>
    total_header_bytes s + length l + 2 \<le> 32768 \<and> line_status l \<noteq> Some 101
    \<and> inspect ((advance (length l + 2) s)\<lparr>informational_block := is_informational (line_status l),
                 expecting_status := False, fields_in_block := 0\<rparr>) rest = Inr r"
  using assms
  by (cases s) (auto simp: inspect_line finish_line_def after_line_bytes_def line_started_def Let_def
      line_status_def is_informational_def advance_def)

lemma field_line_accepted:
  assumes "CHR 0x0A \<notin> set l" "visible l \<noteq> []" "line_started s" "\<not> expecting_status s"
    and "fields_in_block s \<le> 128"
  shows "inspect s (l @ CRLF @ rest) = Inr r \<longleftrightarrow>
    total_header_bytes s + length l + 2 \<le> 32768 \<and> fields_in_block s < 128
    \<and> inspect ((advance (length l + 2) s)\<lparr>fields_in_block := Suc (fields_in_block s)\<rparr>) rest = Inr r"
  using assms
  by (cases s) (auto simp: inspect_line finish_line_def after_line_bytes_def line_started_def Let_def
      MAX_HEADERS_PER_BLOCK_def advance_def)

lemma blank_line_accepted:
  assumes "line_started s" "\<not> expecting_status s"
  shows "inspect s (CRLF @ rest) = Inr r \<longleftrightarrow>
    total_header_bytes s + 2 \<le> 32768
    \<and> inspect (if informational_block s
               then (advance 2 s)\<lparr>expecting_status := True, informational_block := False\<rparr>
               else (advance 2 s)\<lparr>scanning_headers := False\<rparr>) rest = Inr r"
  using assms inspect_line [of "[]" s rest]
  by (cases s) (auto simp: finish_line_def after_line_bytes_def line_started_def visible_def advance_def)

text \<open>A block of a response head: a status line, fields, an empty line.\<close>

record head_block =
  hb_status :: string
  hb_fields :: "string list"

definition text_line :: "string \<Rightarrow> bool" where
  "text_line l \<longleftrightarrow> CHR 0x0A \<notin> set l \<and> visible l \<noteq> []"

definition head_block_ok :: "head_block \<Rightarrow> bool" where
  "head_block_ok b \<longleftrightarrow> text_line (hb_status b) \<and> (\<forall>f \<in> set (hb_fields b). text_line f)"

definition render_fields :: "string list \<Rightarrow> string" where
  "render_fields fs = concat (map (\<lambda>f. f @ CRLF) fs)"

definition render_block :: "head_block \<Rightarrow> string" where
  "render_block b = hb_status b @ CRLF @ render_fields (hb_fields b) @ CRLF"

lemma render_fields_simps [simp]:
  "render_fields [] = []"
  "render_fields (f # fs) = f @ CRLF @ render_fields fs"
  by (simp_all add: render_fields_def)

lemma CRLF_length [simp]: "length CRLF = 2"
  by (simp add: CRLF_def)

lemma line_started_advance:
  "line_started s \<Longrightarrow> total_header_bytes s + n \<le> 32768 \<Longrightarrow> line_started (advance n s)"
  by (simp add: line_started_def advance_def)

lemma advance_advance [simp]: "advance m (advance n s) = advance (n + m) s"
  by (simp add: advance_def add_ac)

lemma advance_simps [simp]:
  "fields_in_block (advance n s) = fields_in_block s"
  "expecting_status (advance n s) = expecting_status s"
  "informational_block (advance n s) = informational_block s"
  "total_header_bytes (advance n s) = total_header_bytes s + n"
  "advance n (s\<lparr>fields_in_block := k\<rparr>) = (advance n s)\<lparr>fields_in_block := k\<rparr>"
  by (simp_all add: advance_def)

lemma line_started_fields [simp]:
  "line_started (s\<lparr>fields_in_block := k\<rparr>) = line_started s"
  "line_started (s\<lparr>informational_block := i\<rparr>) = line_started s"
  "line_started (s\<lparr>expecting_status := x\<rparr>) = line_started s"
  by (simp_all add: line_started_def)

lemma fields_accepted:
  assumes "\<forall>f \<in> set fs. text_line f" "line_started s" "\<not> expecting_status s"
    and "fields_in_block s \<le> 128"
  shows "inspect s (render_fields fs @ rest) = Inr r \<longleftrightarrow>
    total_header_bytes s + length (render_fields fs) \<le> 32768
    \<and> fields_in_block s + length fs \<le> 128
    \<and> inspect ((advance (length (render_fields fs)) s)
        \<lparr>fields_in_block := fields_in_block s + length fs\<rparr>) rest = Inr r"
  using assms
proof (induction fs arbitrary: s)
  case Nil
  then show ?case by (simp add: line_started_def advance_def)
next
  case (Cons f fs)
  have f: "CHR 0x0A \<notin> set f" "visible f \<noteq> []" using Cons.prems(1) by (auto simp: text_line_def)
  show ?case
  proof (cases "total_header_bytes s + length f + 2 \<le> 32768 \<and> fields_in_block s < 128")
    case False
    with field_line_accepted [OF f Cons.prems(2-4), of "render_fields fs @ rest"] Cons.prems
    show ?thesis by auto
  next
    case True
    let ?s = "(advance (length f + 2) s)\<lparr>fields_in_block := Suc (fields_in_block s)\<rparr>"
    have "line_started (advance (length f + 2) s)"
      by (rule line_started_advance) (use Cons.prems True in auto)
    with Cons.prems True have "inspect ?s (render_fields fs @ rest) = Inr r \<longleftrightarrow>
        total_header_bytes ?s + length (render_fields fs) \<le> 32768
        \<and> fields_in_block ?s + length fs \<le> 128
        \<and> inspect ((advance (length (render_fields fs)) ?s)
            \<lparr>fields_in_block := fields_in_block ?s + length fs\<rparr>) rest = Inr r"
      by (intro Cons.IH) auto
    with field_line_accepted [OF f Cons.prems(2-4), of "render_fields fs @ rest"] True
    show ?thesis by (simp add: add_ac)
  qed
qed

lemma block_accepted:
  assumes "head_block_ok b" "line_started s" "expecting_status s"
  shows "inspect s (render_block b @ rest) = Inr r \<longleftrightarrow>
    total_header_bytes s + length (render_block b) \<le> 32768
    \<and> line_status (hb_status b) \<noteq> Some 101 \<and> length (hb_fields b) \<le> 128
    \<and> inspect ((advance (length (render_block b)) s)
        \<lparr>informational_block := False,
         expecting_status := is_informational (line_status (hb_status b)),
         scanning_headers := is_informational (line_status (hb_status b)),
         fields_in_block := length (hb_fields b)\<rparr>) rest = Inr r"
proof -
  let ?st = "hb_status b" and ?fs = "hb_fields b"
  let ?i = "is_informational (line_status ?st)"
  have st: "CHR 0x0A \<notin> set ?st" "visible ?st \<noteq> []" and fs: "\<forall>f \<in> set ?fs. text_line f"
    using assms(1) by (auto simp: head_block_ok_def text_line_def)
  note status = status_line_accepted [OF st assms(2,3), of "render_fields ?fs @ CRLF @ rest"]
  show ?thesis
  proof (cases "total_header_bytes s + length ?st + 2 \<le> 32768")
    case False
    with status show ?thesis by (simp add: render_block_def)
  next
    case True
    let ?s1 = "(advance (length ?st + 2) s)\<lparr>informational_block := ?i,
                 expecting_status := False, fields_in_block := 0\<rparr>"
    have l1: "line_started (advance (length ?st + 2) s)"
      by (rule line_started_advance) (use assms(2) True in auto)
    have fields: "inspect ?s1 (render_fields ?fs @ CRLF @ rest) = Inr r \<longleftrightarrow>
        total_header_bytes ?s1 + length (render_fields ?fs) \<le> 32768
        \<and> fields_in_block ?s1 + length ?fs \<le> 128
        \<and> inspect ((advance (length (render_fields ?fs)) ?s1)
            \<lparr>fields_in_block := fields_in_block ?s1 + length ?fs\<rparr>) (CRLF @ rest) = Inr r"
      by (rule fields_accepted [OF fs]) (use l1 in simp_all)
    show ?thesis
    proof (cases "total_header_bytes s + length ?st + 2 + length (render_fields ?fs) \<le> 32768")
      case False
      with status fields show ?thesis by (simp add: render_block_def add_ac)
    next
      case True
      let ?s2 = "(advance (length (render_fields ?fs)) ?s1)
            \<lparr>fields_in_block := fields_in_block ?s1 + length ?fs\<rparr>"
      have "line_started (advance (length (render_fields ?fs)) ?s1)"
        by (rule line_started_advance) (use l1 True in \<open>simp_all add: add_ac\<close>)
      then have "line_started ?s2" by simp
      moreover have "\<not> expecting_status ?s2" by simp
      ultimately have blank: "inspect ?s2 (CRLF @ rest) = Inr r \<longleftrightarrow>
          total_header_bytes ?s2 + 2 \<le> 32768
          \<and> inspect (if informational_block ?s2
               then (advance 2 ?s2)\<lparr>expecting_status := True, informational_block := False\<rparr>
               else (advance 2 ?s2)\<lparr>scanning_headers := False\<rparr>) rest = Inr r"
        by (rule blank_line_accepted)
      have "scanning_headers s" using assms(2) by (simp add: line_started_def)
      then show ?thesis
        using status fields blank True
        by (cases ?i; cases s) (auto simp: render_block_def advance_def add_ac)
    qed
  qed
qed

definition render_head :: "head_block list \<Rightarrow> head_block \<Rightarrow> string" where
  "render_head infos final = concat (map render_block infos) @ render_block final"

definition blocks_within_limits :: "head_block list \<Rightarrow> bool" where
  "blocks_within_limits bs \<longleftrightarrow>
     (\<forall>b \<in> set bs. length (hb_fields b) \<le> 128 \<and> line_status (hb_status b) \<noteq> Some 101)"

lemma head_accepted:
  assumes "\<forall>b \<in> set (infos @ [final]). head_block_ok b"
    and "\<forall>b \<in> set infos. is_informational (line_status (hb_status b))"
    and "\<not> is_informational (line_status (hb_status final))"
    and "line_started s" "expecting_status s"
  shows "((\<exists>r. inspect s (render_head infos final @ body) = Inr r) \<longleftrightarrow>
      blocks_within_limits (infos @ [final])
      \<and> total_header_bytes s + length (render_head infos final) \<le> 32768)
    \<and> (\<forall>r. inspect s (render_head infos final @ body) = Inr r \<longrightarrow>
      \<not> scanning_headers r
      \<and> total_header_bytes r = total_header_bytes s + length (render_head infos final))"
  using assms
proof (induction infos arbitrary: s)
  case Nil
  have ok: "head_block_ok final" using Nil.prems(1) by simp
  show ?case
    using block_accepted [OF ok Nil.prems(4,5), of body] Nil.prems(3)
    by (auto simp: render_head_def blocks_within_limits_def)
next
  case (Cons b infos)
  let ?rest = "render_head infos final @ body"
  let ?s' = "(advance (length (render_block b)) s)
        \<lparr>informational_block := False, expecting_status := True, scanning_headers := True,
         fields_in_block := length (hb_fields b)\<rparr>"
  have eq: "render_head (b # infos) final = render_block b @ render_head infos final"
    by (simp add: render_head_def)
  have ok: "head_block_ok b" and info: "is_informational (line_status (hb_status b))"
    using Cons.prems(1,2) by simp_all
  have b: "inspect s (render_block b @ ?rest) = Inr r \<longleftrightarrow>
      total_header_bytes s + length (render_block b) \<le> 32768
      \<and> line_status (hb_status b) \<noteq> Some 101 \<and> length (hb_fields b) \<le> 128
      \<and> inspect ?s' ?rest = Inr r" for r
    using block_accepted [OF ok Cons.prems(4,5), of ?rest r] info by simp
  show ?case
  proof (cases "total_header_bytes s + length (render_block b) \<le> 32768")
    case True
    have s': "line_started ?s'" "expecting_status ?s'"
      "total_header_bytes ?s' = total_header_bytes s + length (render_block b)"
      using True Cons.prems(4) by (simp_all add: line_started_def advance_def)
    have ih: "((\<exists>r. inspect ?s' ?rest = Inr r) \<longleftrightarrow> blocks_within_limits (infos @ [final])
          \<and> total_header_bytes ?s' + length (render_head infos final) \<le> 32768)
        \<and> (\<forall>r. inspect ?s' ?rest = Inr r \<longrightarrow> \<not> scanning_headers r
          \<and> total_header_bytes r = total_header_bytes ?s' + length (render_head infos final))"
      by (rule Cons.IH) (use Cons.prems s' in auto)
    then show ?thesis
      using b s'(3) by (auto simp: eq blocks_within_limits_def add_ac)
  next
    case False
    then show ?thesis using b by (simp add: eq)
  qed
qed

text \<open>
  C38: the admission condition of response heads. For a response head of informational blocks and a
  final block, each with a status line and header fields, followed by any body, the guard accepts
  exactly when no block has more than 128 fields, no status is 101, and the whole head, the
  informational blocks included, is at most 32768 bytes. After that it has counted exactly the head
  and never looks at the body.
\<close>

theorem response_head_admission:
  assumes "\<forall>b \<in> set (infos @ [final]). head_block_ok b"
    and "\<forall>b \<in> set infos. is_informational (line_status (hb_status b))"
    and "\<not> is_informational (line_status (hb_status final))"
  shows "(\<exists>r. inspect scanner_new (render_head infos final @ body) = Inr r) =
      (blocks_within_limits (infos @ [final]) \<and> length (render_head infos final) \<le> 32768)
    \<and> (\<forall>r. inspect scanner_new (render_head infos final @ body) = Inr r \<longrightarrow>
         \<not> scanning_headers r \<and> total_header_bytes r = length (render_head infos final))"
proof -
  have new: "line_started scanner_new" "expecting_status scanner_new"
    "total_header_bytes scanner_new = 0"
    by (simp_all add: line_started_def scanner_new_def)
  show ?thesis
    using head_accepted [OF assms new(1,2), of body] new(3) by simp
qed

definition sample_infos :: "head_block list" where
  "sample_infos = [\<lparr>hb_status = ''HTTP/1.1 100 Continue'', hb_fields = []\<rparr>]"

definition sample_final :: head_block where
  "sample_final = \<lparr>hb_status = ''HTTP/1.1 200 OK'', hb_fields = [''a: b'', ''c: d'']\<rparr>"

lemma sample_final_ok:
  "head_block_ok sample_final" "line_status (hb_status sample_final) = Some 200"
  by code_simp+

theorem response_head_admission_witness:
  "\<exists>r. inspect scanner_new (render_head sample_infos sample_final @ ''body'') = Inr r
     \<and> \<not> scanning_headers r \<and> total_header_bytes r = 56"
proof -
  have ok: "\<forall>b \<in> set (sample_infos @ [sample_final]). head_block_ok b" by code_simp
  have st: "line_status (hb_status sample_final) = Some 200"
    "line_status ''HTTP/1.1 100 Continue'' = Some 100" by code_simp+
  have inf: "\<forall>b \<in> set sample_infos. is_informational (line_status (hb_status b))"
    by (simp add: sample_infos_def st is_informational_def)
  have fin: "\<not> is_informational (line_status (hb_status sample_final))"
    by (simp add: st is_informational_def)
  have len: "length (render_head sample_infos sample_final) = 56"
    by (simp add: render_head_def sample_infos_def sample_final_def render_block_def)
  have "blocks_within_limits (sample_infos @ [sample_final])"
    using st by (simp add: blocks_within_limits_def sample_infos_def) (simp add: sample_final_def)
  then show ?thesis
    using response_head_admission [OF ok inf fin, of "''body''"] len by auto
qed

section \<open>The reader is byte transparent\<close>

fun answer_bytes :: "'e poll_answer \<Rightarrow> string" where
  "answer_bytes (PollOk bytes) = bytes"
| "answer_bytes _ = []"

fun inner_bytes :: "'e inner_answer \<Rightarrow> string" where
  "inner_bytes (InnerOk bytes) = bytes"
| "inner_bytes _ = []"

fun poll_run :: "nat list \<Rightarrow> 'e header_io \<Rightarrow> 'e poll_answer list \<times> 'e header_io" where
  "poll_run [] io = ([], io)"
| "poll_run (n # ns) io =
     (let (a, io1) = poll_read n io; (as, io2) = poll_run ns io1 in (a # as, io2))"

definition delivered :: "'e poll_answer list \<Rightarrow> string" where
  "delivered as = concat (map answer_bytes as)"

definition stream :: "'e inner_answer list \<Rightarrow> string" where
  "stream inner = concat (map inner_bytes inner)"

text \<open>The contract of \<open>AsyncRead\<close>: a read fits in the buffer it is given.\<close>

definition reader_ok :: "'e inner_answer list \<Rightarrow> bool" where
  "reader_ok inner \<longleftrightarrow> (\<forall>a \<in> set inner. length (inner_bytes a) \<le> HEADER_STAGING_BYTES)"

definition pending :: "'e header_io \<Rightarrow> string" where
  "pending io = take (hio_end io - hio_start io) (drop (hio_start io) (hio_staging io))"

text \<open>
  \<open>rejected\<close>: what a terminal error says about the bytes \<open>c\<close> accepted so far and the chunk \<open>b\<close>
  that was read last.
\<close>

definition rejected :: "string \<Rightarrow> string \<Rightarrow> header_scanner \<Rightarrow> header_limit_error \<Rightarrow> bool" where
  "rejected c b s e \<longleftrightarrow>
     inspect scanner_new (c @ b) = Inl e
     \<or> b = [] \<and> e = HeaderMalformed \<and> scanning_headers s"

definition io_inv :: "string \<Rightarrow> string \<Rightarrow> 'e header_io \<Rightarrow> bool" where
  "io_inv src d io \<longleftrightarrow>
     length (hio_staging io) = HEADER_STAGING_BYTES \<and> hio_start io \<le> hio_end io
     \<and> hio_end io \<le> HEADER_STAGING_BYTES \<and> reader_ok (hio_inner io)
     \<and> inspect scanner_new (d @ pending io) = Inr (hio_scanner io)
     \<and> (case hio_error io of
          None \<Rightarrow> d @ pending io @ stream (hio_inner io) = src
        | Some e \<Rightarrow> pending io = []
            \<and> (\<exists>b. d @ b @ stream (hio_inner io) = src \<and> rejected d b (hio_scanner io) e))"

lemma poll_run_Cons:
  "poll_run (n # ns) io = (fst (poll_read n io) # fst (poll_run ns (snd (poll_read n io))),
     snd (poll_run ns (snd (poll_read n io))))"
  by (simp add: split_def Let_def)

lemma stream_simps [simp]:
  "stream [] = []" "stream (a # rest) = inner_bytes a @ stream rest"
  by (simp_all add: stream_def)

lemma delivered_simps [simp]:
  "delivered [] = []" "delivered (a # as) = answer_bytes a @ delivered as"
  by (simp_all add: delivered_def)

lemma drain_staging_inv:
  assumes "io_inv src d io" and "hio_error io = None"
    and "drain_staging n io = (a, io')"
  shows "io_inv src (d @ answer_bytes a) io' \<and> hio_error io' = None
    \<and> a = PollOk (take (min (hio_end io - hio_start io) n) (pending io))"
proof -
  let ?k = "min (hio_end io - hio_start io) n"
  from assms have len: "length (hio_staging io) = HEADER_STAGING_BYTES"
    "hio_start io \<le> hio_end io" "hio_end io \<le> HEADER_STAGING_BYTES"
    by (simp_all add: io_inv_def)
  from assms(3) have a: "a = PollOk (take ?k (pending io))"
    and io': "io' = io\<lparr>hio_start := hio_start io + ?k\<rparr>"
    by (auto simp: drain_staging_def Let_def pending_def min_def)
  have "take (hio_end io - (hio_start io + ?k)) (drop (hio_start io + ?k) (hio_staging io))
      = drop ?k (pending io)"
    unfolding pending_def by (simp add: drop_take add.commute diff_diff_eq)
  then have "pending io' = drop ?k (pending io)"
    by (simp add: pending_def io')
  then have "take ?k (pending io) @ pending io' = pending io" by simp
  with assms(1,2) len show ?thesis
    by (auto simp: io_inv_def a io')
qed

lemma poll_read_inv:
  assumes inv: "io_inv src d io" and read: "poll_read n io = (a, io')"
  shows "io_inv src (d @ answer_bytes a) io'"
proof (cases "hio_error io")
  case (Some e)
  with read inv show ?thesis by (auto simp: poll_read_def)
next
  case None
  show ?thesis
  proof (cases "hio_start io < hio_end io \<or> n = 0")
    case True
    show ?thesis
    proof (cases "hio_start io < hio_end io")
      case True
      with read None have "drain_staging n io = (a, io')" by (simp add: poll_read_def)
      from drain_staging_inv [OF inv None this] show ?thesis by blast
    next
      case False
      with True read None inv show ?thesis by (auto simp: poll_read_def)
    qed
  next
    case False
    then have fresh: "pending io = []" by (simp add: pending_def)
    have inv': "length (hio_staging io) = HEADER_STAGING_BYTES" "reader_ok (hio_inner io)"
      "inspect scanner_new d = Inr (hio_scanner io)" "d @ stream (hio_inner io) = src"
      using inv None fresh by (simp_all add: io_inv_def)
    obtain x rest where x: "inner_poll (hio_inner io) = (x, rest)"
      by (cases "inner_poll (hio_inner io)")
    then have rest: "reader_ok rest" "length (inner_bytes x) \<le> HEADER_STAGING_BYTES"
      "inner_bytes x @ stream rest = stream (hio_inner io)"
      using inv'(2) by (auto simp: inner_poll_def reader_ok_def split: list.splits)
    show ?thesis
    proof (cases "\<exists>bytes. x = InnerOk bytes \<and> bytes \<noteq> []")
      case no: False
      then have "inner_bytes x = []" by (cases x) auto
      with no read None False x inv' rest show ?thesis
        by (cases x) (auto simp: poll_read_def Let_def io_inv_def pending_def rejected_def
            split: if_splits)
    next
      case True
      then obtain bytes where b: "x = InnerOk bytes" "bytes \<noteq> []" by blast
      let ?io1 = "io\<lparr>hio_inner := rest, hio_start := 0, hio_end := 0,
                    hio_staging := bytes @ drop (length bytes) (hio_staging io)\<rparr>"
      show ?thesis
      proof (cases "inspect (hio_scanner io) bytes")
        case (Inl e)
        then have "inspect scanner_new (d @ bytes) = Inl e"
          using inv'(3) by (simp add: inspect_append)
        with Inl read None False x b inv' rest show ?thesis
          by (auto simp: poll_read_def Let_def io_inv_def pending_def rejected_def)
      next
        case (Inr s)
        let ?io2 = "?io1\<lparr>hio_scanner := s, hio_end := length bytes\<rparr>"
        have "io_inv src d ?io2"
          using Inr b inv' rest None by (simp add: io_inv_def pending_def inspect_append)
        moreover have "drain_staging n ?io2 = (a, io')"
          using read None False x b Inr by (simp add: poll_read_def Let_def)
        moreover have "hio_error ?io2 = None" using None by simp
        ultimately show ?thesis using drain_staging_inv by blast
      qed
    qed
  qed
qed

lemma poll_run_inv:
  "io_inv src d io \<Longrightarrow> poll_run ns io = (as, io') \<Longrightarrow> io_inv src (d @ delivered as) io'"
proof (induction ns arbitrary: d io as)
  case (Cons n ns)
  obtain a io1 where r: "poll_read n io = (a, io1)" by (cases "poll_read n io")
  obtain as' where "poll_run ns io1 = (as', io')" "as = a # as'"
    using Cons.prems(2) r by (auto simp: Let_def split: prod.splits)
  with Cons.IH [OF poll_read_inv [OF Cons.prems(1) r]] show ?case by simp
qed simp

lemma header_io_new_inv: "reader_ok inner \<Longrightarrow> io_inv (stream inner) [] (header_io_new inner)"
  by (simp add: io_inv_def header_io_new_def pending_def)

lemma io_inv_prefix: "io_inv src d io \<Longrightarrow> \<exists>rest. src = d @ rest"
  by (cases "hio_error io") (auto simp: io_inv_def)

text \<open>
  The guard is byte transparent and stops for good. Whatever the underlying reader answers and
  whatever buffers the caller brings, the bytes delivered are a prefix of the stream, in order and
  unchanged, that the scanner has accepted; nothing of a rejected chunk is ever delivered; and once
  the guard has failed, every later read fails with the same error.
\<close>

theorem header_io_transparent:
  assumes "reader_ok inner" and "poll_run sizes (header_io_new inner) = (as, io)"
  shows "(\<exists>rest. stream inner = delivered as @ rest)
    \<and> (\<exists>s. inspect scanner_new (delivered as) = Inr s)
    \<and> (\<forall>e. hio_error io = Some e \<longrightarrow>
         (\<exists>b. (\<exists>rest. stream inner = delivered as @ b @ rest)
            \<and> rejected (delivered as) b (hio_scanner io) e)
         \<and> (\<forall>n. poll_read n io = (PollErr (HeaderIo e), io)))"
proof -
  have inv: "io_inv (stream inner) (delivered as) io"
    using poll_run_inv [OF header_io_new_inv [OF assms(1)] assms(2)] by simp
  have "\<exists>rest. stream inner = delivered as @ rest"
    using io_inv_prefix [OF inv] .
  moreover have "\<exists>s. inspect scanner_new (delivered as) = Inr s"
    using inv by (auto simp: io_inv_def inspect_append try_bind_Inr_iff)
  moreover have "\<exists>b. (\<exists>rest. stream inner = delivered as @ b @ rest)
      \<and> rejected (delivered as) b (hio_scanner io) e" if "hio_error io = Some e" for e
    using inv that unfolding io_inv_def by simp metis
  ultimately show ?thesis by (simp add: poll_read_def)
qed

definition sample_reader :: "nat inner_answer list" where
  "sample_reader = [InnerOk (render_head [] sample_final), InnerOk ''body'']"

lemma sample_reader_ok: "reader_ok sample_reader"
  by (simp add: sample_reader_def reader_ok_def HEADER_STAGING_BYTES_def render_head_def
      render_block_def sample_final_def)

theorem header_io_transparent_witness:
  "\<exists>as io. poll_run [4, 100, 100] (header_io_new sample_reader) = (as, io)
     \<and> (\<exists>rest. render_head [] sample_final @ ''body'' = delivered as @ rest)
     \<and> (\<exists>s. inspect scanner_new (delivered as) = Inr s)"
proof -
  obtain as io where run: "poll_run [4, 100, 100] (header_io_new sample_reader) = (as, io)"
    by (cases "poll_run [4, 100, 100] (header_io_new sample_reader)")
  moreover have "stream sample_reader = render_head [] sample_final @ ''body''"
    by (simp add: sample_reader_def)
  ultimately show ?thesis using header_io_transparent [OF sample_reader_ok run] by auto
qed

section \<open>Progress\<close>

definition reader_ready :: "'e inner_answer list \<Rightarrow> bool" where
  "reader_ready inner \<longleftrightarrow> (\<forall>a \<in> set inner. \<exists>bytes. a = InnerOk bytes \<and> bytes \<noteq> [])"

lemma drain_staging_delivers:
  assumes "io_inv src d io" "hio_error io = None" "pending io \<noteq> []" "0 < n"
    and "drain_staging n io = (a, io')"
  shows "answer_bytes a \<noteq> [] \<and> hio_error io' = None \<and> hio_inner io' = hio_inner io"
  using drain_staging_inv [OF assms(1,2,5)] assms(3-5)
  by (auto simp: drain_staging_def Let_def pending_def)

lemma poll_read_delivers:
  assumes inv: "io_inv src d io" and none: "hio_error io = None" and n: "0 < n"
    and ready: "reader_ready (hio_inner io)" and acc: "inspect scanner_new src = Inr s"
    and more: "d \<noteq> src" and read: "poll_read n io = (a, io')"
  shows "answer_bytes a \<noteq> [] \<and> hio_error io' = None \<and> reader_ready (hio_inner io')"
proof (cases "hio_start io < hio_end io")
  case True
  then have "pending io \<noteq> []" using inv by (auto simp: pending_def io_inv_def)
  moreover have "drain_staging n io = (a, io')" using True read none by (simp add: poll_read_def)
  ultimately show ?thesis
    using drain_staging_delivers [OF inv none _ n] ready by simp
next
  case False
  then have fresh: "pending io = []" by (simp add: pending_def)
  with inv none have src: "d @ stream (hio_inner io) = src"
    and sc: "inspect scanner_new d = Inr (hio_scanner io)"
    by (simp_all add: io_inv_def)
  with more ready obtain bytes rest where b: "hio_inner io = InnerOk bytes # rest" "bytes \<noteq> []"
    by (cases "hio_inner io") (auto simp: reader_ready_def)
  have "inspect scanner_new (d @ bytes @ stream rest) = Inr s" using acc src b by simp
  then obtain s' where s': "inspect (hio_scanner io) bytes = Inr s'"
    using sc by (auto simp: inspect_append try_bind_Inr_iff)
  let ?io2 = "io\<lparr>hio_inner := rest, hio_start := 0,
      hio_staging := bytes @ drop (length bytes) (hio_staging io), hio_scanner := s',
      hio_end := length bytes\<rparr>"
  have eq: "drain_staging n ?io2 = (a, io')"
    using read none False n b s' by (simp add: poll_read_def inner_poll_def Let_def)
  have "io_inv src d ?io2"
    using inv none b s' sc src fresh by (auto simp: io_inv_def pending_def inspect_append reader_ok_def)
  moreover have "pending ?io2 \<noteq> []" using b by (simp add: pending_def)
  ultimately show ?thesis
    using drain_staging_delivers [of src d ?io2 n a io'] eq none n ready b
    by (auto simp: reader_ready_def)
qed

lemma poll_run_delivers:
  assumes "io_inv src d io" "hio_error io = None \<and> reader_ready (hio_inner io) \<or> d = src"
    and "0 < n" "inspect scanner_new src = Inr s" "length src \<le> length d + k"
  shows "d @ delivered (fst (poll_run (replicate k n) io)) = src"
  using assms
proof (induction k arbitrary: d io)
  case 0
  then show ?case using io_inv_prefix [of src d io] by auto
next
  case (Suc k)
  obtain a io1 where r: "poll_read n io = (a, io1)" by (cases "poll_read n io")
  have inv1: "io_inv src (d @ answer_bytes a) io1" using Suc.prems(1) r by (rule poll_read_inv)
  have "(d @ answer_bytes a) @ delivered (fst (poll_run (replicate k n) io1)) = src"
  proof (rule Suc.IH [OF inv1 _ Suc.prems(3,4)])
    show "hio_error io1 = None \<and> reader_ready (hio_inner io1) \<or> d @ answer_bytes a = src"
    proof (cases "d = src")
      case True
      with io_inv_prefix [OF inv1] show ?thesis by auto
    next
      case False
      with Suc.prems poll_read_delivers [OF Suc.prems(1) _ Suc.prems(3) _ Suc.prems(4) False r]
      show ?thesis by blast
    qed
    show "length src \<le> length (d @ answer_bytes a) + k"
    proof (cases "d = src")
      case False
      with Suc.prems poll_read_delivers [OF Suc.prems(1) _ Suc.prems(3) _ Suc.prems(4) False r]
      have "0 < length (answer_bytes a)" by blast
      with Suc.prems(5) show ?thesis unfolding length_append by linarith
    qed simp
  qed
  with r show ?case by (simp add: Let_def split_def)
qed

text \<open>
  An accepted response arrives in full. When the underlying reader always has bytes and the
  scanner accepts their concatenation, then reading with any non-empty buffer delivers the whole
  stream, after at most as many reads as it has bytes.
\<close>

theorem header_io_delivers_all:
  assumes "reader_ok inner" and "reader_ready inner" and "0 < n"
    and "inspect scanner_new (stream inner) = Inr s"
  shows "delivered (fst (poll_run (replicate (length (stream inner)) n) (header_io_new inner)))
      = stream inner"
  using poll_run_delivers [OF header_io_new_inv [OF assms(1)] _ assms(3,4)] assms(2)
  by (simp add: header_io_new_def)

theorem header_io_delivers_all_witness:
  "delivered (fst (poll_run (replicate 35 3) (header_io_new sample_reader)))
     = render_head [] sample_final @ ''body''"
proof -
  have st: "stream sample_reader = render_head [] sample_final @ ''body''"
    by (simp add: sample_reader_def)
  have "reader_ready sample_reader"
    by (simp add: reader_ready_def sample_reader_def render_head_def render_block_def
        sample_final_def)
  moreover have "\<exists>s. inspect scanner_new (render_head [] sample_final @ ''body'') = Inr s"
    using head_accepted [of "[]" sample_final scanner_new "''body''"] sample_final_ok
    by (simp add: line_started_def scanner_new_def blocks_within_limits_def is_informational_def)
      (simp add: render_head_def render_block_def sample_final_def)
  ultimately have "delivered (fst (poll_run (replicate (length (stream sample_reader)) 3)
      (header_io_new sample_reader))) = stream sample_reader"
    using header_io_delivers_all [OF sample_reader_ok, of 3] st by auto
  moreover have "length (stream sample_reader) = 35"
    by (simp add: st render_head_def render_block_def sample_final_def)
  ultimately show ?thesis by (simp only: st)
qed

end
