(* ===== verification/Offer_Gate.thy ===== *)
theory Offer_Gate
  imports Rust_Prelude
begin

text \<open>
  The process-local single-slot gate for chat perception offers,
  \<open>src-tauri/src/perception/perception_chat_offer_gate.rs\<close>. Every operation runs under the gate's
  mutex, so an interleaving of callers is a sequence of operations; a mutex whose holder panicked
  is \<open>pg_poisoned\<close> and refuses every further lock. The failure injection of the tests is left out.
\<close>

definition MAX_ATTACHMENT_ID_CHARACTERS :: nat where "MAX_ATTACHMENT_ID_CHARACTERS = 128"

datatype source_kind = LocalOcr | CloudVision

fun source_kind_str :: "source_kind \<Rightarrow> string" where
  "source_kind_str LocalOcr = ''localOcr''"
| "source_kind_str CloudVision = ''cloudVision''"

datatype gate_error = AttachmentInUse | CrossSourceInUse | SynchronizationUnavailable

record reservation =
  rv_source :: source_kind
  rv_previous :: "string option"

datatype gate_state =
    Empty
  | Offering source_kind "string option"
  | Offered source_kind string
  | Bound source_kind string

record offer_gate =
  pg_poisoned :: bool
  pg_state :: gate_state

definition gate_new :: offer_gate where
  "gate_new = \<lparr>pg_poisoned = False, pg_state = Empty\<rparr>"

section \<open>Operations\<close>

definition validate_attachment_id :: "string \<Rightarrow> gate_error + unit" where
  "validate_attachment_id value =
     (if str_blank value \<or> chars_count value > MAX_ATTACHMENT_ID_CHARACTERS
      then Inl SynchronizationUnavailable else Inr ())"

definition begin_offer :: "source_kind \<Rightarrow> offer_gate \<Rightarrow> (gate_error + reservation) \<times> offer_gate" where
  "begin_offer source g =
     (if pg_poisoned g then (Inl SynchronizationUnavailable, g)
      else
        case (case pg_state g of
                Empty \<Rightarrow> Inr None
              | Offered current_source attachment_id \<Rightarrow>
                  (if current_source = source then Inr (Some attachment_id) else Inl CrossSourceInUse)
              | Bound current_source _ \<Rightarrow>
                  Inl (if current_source \<noteq> source then CrossSourceInUse else AttachmentInUse)
              | Offering _ _ \<Rightarrow> Inl AttachmentInUse)
        of Inl e \<Rightarrow> (Inl e, g)
         | Inr previous \<Rightarrow>
             (Inr \<lparr>rv_source = source, rv_previous = previous\<rparr>,
              g\<lparr>pg_state := Offering source previous\<rparr>))"

definition commit_offer ::
    "reservation \<Rightarrow> string \<Rightarrow> offer_gate \<Rightarrow> (gate_error + unit) \<times> offer_gate" where
  "commit_offer r attachment_id g =
     (case validate_attachment_id attachment_id of
        Inl e \<Rightarrow> (Inl e, g)
      | Inr _ \<Rightarrow>
          (if pg_poisoned g then (Inl SynchronizationUnavailable, g)
           else case pg_state g of
                  Offering source _ \<Rightarrow>
                    (if source = rv_source r
                     then (Inr (), g\<lparr>pg_state := Offered (rv_source r) attachment_id\<rparr>)
                     else (Inl AttachmentInUse, g))
                | _ \<Rightarrow> (Inl AttachmentInUse, g)))"

definition abort_offer :: "reservation \<Rightarrow> offer_gate \<Rightarrow> (gate_error + unit) \<times> offer_gate" where
  "abort_offer r g =
     (if pg_poisoned g then (Inl SynchronizationUnavailable, g)
      else case pg_state g of
             Offering source _ \<Rightarrow>
               (if source = rv_source r
                then (Inr (), g\<lparr>pg_state :=
                        (case rv_previous r of
                           Some attachment_id \<Rightarrow> Offered (rv_source r) attachment_id
                         | None \<Rightarrow> Empty)\<rparr>)
                else (Inl AttachmentInUse, g))
           | _ \<Rightarrow> (Inl AttachmentInUse, g))"

definition mark_bound ::
    "source_kind \<Rightarrow> string \<Rightarrow> offer_gate \<Rightarrow> (gate_error + unit) \<times> offer_gate" where
  "mark_bound source attachment_id g =
     (case validate_attachment_id attachment_id of
        Inl e \<Rightarrow> (Inl e, g)
      | Inr _ \<Rightarrow>
          (if pg_poisoned g then (Inl SynchronizationUnavailable, g)
           else if pg_state g = Offered source attachment_id
           then (Inr (), g\<lparr>pg_state := Bound source attachment_id\<rparr>)
           else if pg_state g = Bound source attachment_id then (Inr (), g)
           else (Inl AttachmentInUse, g)))"

definition clear_offered_exact ::
    "source_kind \<Rightarrow> string \<Rightarrow> offer_gate \<Rightarrow> (gate_error + bool) \<times> offer_gate" where
  "clear_offered_exact source attachment_id g =
     (case validate_attachment_id attachment_id of
        Inl e \<Rightarrow> (Inl e, g)
      | Inr _ \<Rightarrow>
          (if pg_poisoned g then (Inl SynchronizationUnavailable, g)
           else if pg_state g = Offered source attachment_id
           then (Inr True, g\<lparr>pg_state := Empty\<rparr>)
           else (Inr False, g)))"

definition clear_bound_exact ::
    "source_kind \<Rightarrow> string \<Rightarrow> offer_gate \<Rightarrow> (gate_error + bool) \<times> offer_gate" where
  "clear_bound_exact source attachment_id g =
     (case validate_attachment_id attachment_id of
        Inl e \<Rightarrow> (Inl e, g)
      | Inr _ \<Rightarrow>
          (if pg_poisoned g then (Inl SynchronizationUnavailable, g)
           else if pg_state g = Bound source attachment_id
           then (Inr True, g\<lparr>pg_state := Empty\<rparr>)
           else (Inr False, g)))"

definition is_bound_exact :: "source_kind \<Rightarrow> string \<Rightarrow> offer_gate \<Rightarrow> gate_error + bool" where
  "is_bound_exact source attachment_id g =
     (case validate_attachment_id attachment_id of
        Inl e \<Rightarrow> Inl e
      | Inr _ \<Rightarrow>
          (if pg_poisoned g then Inl SynchronizationUnavailable
           else Inr (pg_state g = Bound source attachment_id)))"

section \<open>Sequences of operations\<close>

text \<open>
  The calls of the brokers and the chat, in the order the mutex serialises them. A reservation can
  only come from \<open>begin_offer\<close>: \<open>gate_reach\<close> keeps the reservations issued so far.
\<close>

datatype gate_op =
    BeginOffer source_kind
  | CommitOffer reservation string
  | AbortOffer reservation
  | MarkBound source_kind string
  | ClearOffered source_kind string
  | ClearBound source_kind string

fun gate_step :: "gate_op \<Rightarrow> offer_gate \<Rightarrow> offer_gate" where
  "gate_step (BeginOffer s) g = snd (begin_offer s g)"
| "gate_step (CommitOffer r i) g = snd (commit_offer r i g)"
| "gate_step (AbortOffer r) g = snd (abort_offer r g)"
| "gate_step (MarkBound s i) g = snd (mark_bound s i g)"
| "gate_step (ClearOffered s i) g = snd (clear_offered_exact s i g)"
| "gate_step (ClearBound s i) g = snd (clear_bound_exact s i g)"

definition gate_run :: "gate_op list \<Rightarrow> offer_gate \<Rightarrow> offer_gate" where
  "gate_run ops g = fold gate_step ops g"

lemmas gate_op_defs =
  begin_offer_def commit_offer_def abort_offer_def mark_bound_def clear_offered_exact_def
  clear_bound_exact_def

lemma validate_attachment_id_cases [simp]:
  "validate_attachment_id i = Inl e \<Longrightarrow> e = SynchronizationUnavailable"
  by (simp add: validate_attachment_id_def split: if_splits)

lemma gate_step_poisoned [simp]: "pg_poisoned (gate_step op g) = pg_poisoned g"
  by (cases op) (auto simp: gate_op_defs split: sum.splits gate_state.splits)

lemma gate_run_invariant:
  "P g \<Longrightarrow> (\<And>g op. P g \<Longrightarrow> op \<in> set ops \<Longrightarrow> P (gate_step op g)) \<Longrightarrow> P (gate_run ops g)"
  unfolding gate_run_def by (induction ops arbitrary: g) simp_all

section \<open>A bound attachment\<close>

lemma bound_step:
  assumes "pg_state g = Bound s i" and "op \<noteq> ClearBound s i"
  shows "gate_step op g = g"
  using assms by (cases op) (auto simp: gate_op_defs split: sum.splits)

text \<open>
  C39: a bound attachment owns the slot. Whatever the other callers do, in any order and number, as
  long as nobody clears exactly this attachment the marker stays, every new offer fails (with
  \<open>CrossSourceInUse\<close> for the other source), and no commit or abort of an older reservation goes
  through. Clearing it exactly once empties the slot and a second clear reports that nothing was
  there.
\<close>

theorem bound_attachment_owns_slot:
  assumes "pg_state g = Bound s i" and "\<not> pg_poisoned g" and "ClearBound s i \<notin> set ops"
    and "validate_attachment_id i = Inr ()"
  shows "gate_run ops g = g
    \<and> fst (begin_offer s' g) = Inl (if s' = s then AttachmentInUse else CrossSourceInUse)
    \<and> (\<forall>r j. fst (commit_offer r j g) \<noteq> Inr () \<and> fst (abort_offer r g) = Inl AttachmentInUse)
    \<and> is_bound_exact s i (gate_run ops g) = Inr True
    \<and> clear_bound_exact s i (gate_run ops g) = (Inr True, g\<lparr>pg_state := Empty\<rparr>)
    \<and> fst (clear_bound_exact s i (gate_step (ClearBound s i) g)) = Inr False"
proof -
  have "gate_step op g = g" if "op \<in> set ops" for op
    using bound_step [OF assms(1)] that assms(3) by metis
  then have "gate_run ops g = g"
    by (intro gate_run_invariant [where P = "\<lambda>h. h = g"]) auto
  with assms show ?thesis
    by (auto simp: gate_op_defs is_bound_exact_def split: sum.splits)
qed

section \<open>The offer protocol\<close>

definition owns_op :: "source_kind \<Rightarrow> gate_op \<Rightarrow> bool" where
  "owns_op s op \<longleftrightarrow>
     (case op of
        CommitOffer r _ \<Rightarrow> rv_source r = s
      | AbortOffer r \<Rightarrow> rv_source r = s
      | _ \<Rightarrow> False)"

lemma offering_step:
  assumes "pg_state g = Offering s p" and "\<not> owns_op s op"
  shows "gate_step op g = g"
  using assms by (cases op) (auto simp: gate_op_defs owns_op_def split: sum.splits)

text \<open>
  The offer protocol. \<open>begin_offer\<close> succeeds exactly on an empty slot or over an unbound offer
  of the same source. While the offer is being prepared nobody else can change the slot, so after
  any calls of others the owner's commit publishes exactly its attachment and its abort restores
  exactly the state before the reservation.
\<close>

theorem offer_protocol:
  assumes "\<not> pg_poisoned g" and "begin_offer s g = (result, g1)"
    and "\<forall>op \<in> set ops. \<not> owns_op s op"
  shows "((\<exists>r. result = Inr r) \<longleftrightarrow> pg_state g = Empty \<or> (\<exists>i. pg_state g = Offered s i))
    \<and> (\<forall>e. result = Inl e \<longrightarrow> g1 = g)
    \<and> (\<forall>r. result = Inr r \<longrightarrow>
         gate_run ops g1 = g1 \<and> rv_source r = s
         \<and> abort_offer r (gate_run ops g1) = (Inr (), g)
         \<and> (\<forall>i. validate_attachment_id i = Inr () \<longrightarrow>
              commit_offer r i (gate_run ops g1) = (Inr (), g\<lparr>pg_state := Offered s i\<rparr>)))"
proof (intro conjI allI impI)
  show "(\<exists>r. result = Inr r) \<longleftrightarrow> pg_state g = Empty \<or> (\<exists>i. pg_state g = Offered s i)"
    using assms(1,2) by (auto simp: begin_offer_def split: gate_state.splits if_splits)
  show "g1 = g" if "result = Inl e" for e
    using assms(1,2) that by (auto simp: begin_offer_def split: gate_state.splits if_splits)
  fix r assume r: "result = Inr r"
  have st: "pg_state g1 = Offering s (rv_previous r)" "rv_source r = s"
    "(case rv_previous r of Some i \<Rightarrow> Offered s i | None \<Rightarrow> Empty) = pg_state g"
    "g1 = g\<lparr>pg_state := Offering s (rv_previous r)\<rparr>"
    using assms(1,2) r by (auto simp: begin_offer_def split: gate_state.splits if_splits)
  show run: "gate_run ops g1 = g1"
    by (rule gate_run_invariant [where P = "\<lambda>h. h = g1"])
      (use st(1) assms(3) offering_step in auto)
  show "rv_source r = s" by (rule st(2))
  show "abort_offer r (gate_run ops g1) = (Inr (), g)"
    unfolding run using st assms(1) by (cases g) (auto simp: abort_offer_def)
  fix i assume "validate_attachment_id i = Inr ()"
  then show "commit_offer r i (gate_run ops g1) = (Inr (), g\<lparr>pg_state := Offered s i\<rparr>)"
    unfolding run using st assms(1) by (simp add: commit_offer_def)
qed

section \<open>Well-formed slots\<close>

inductive gate_reach :: "offer_gate \<Rightarrow> reservation set \<Rightarrow> bool" where
  new: "gate_reach gate_new {}"
| begin_ok: "gate_reach g rs \<Longrightarrow> begin_offer s g = (Inr r, g') \<Longrightarrow> gate_reach g' (insert r rs)"
| begin_err: "gate_reach g rs \<Longrightarrow> begin_offer s g = (Inl e, g') \<Longrightarrow> gate_reach g' rs"
| commit: "gate_reach g rs \<Longrightarrow> r \<in> rs \<Longrightarrow> gate_reach (snd (commit_offer r i g)) rs"
| abort: "gate_reach g rs \<Longrightarrow> r \<in> rs \<Longrightarrow> gate_reach (snd (abort_offer r g)) rs"
| bind: "gate_reach g rs \<Longrightarrow> gate_reach (snd (mark_bound s i g)) rs"
| clear_offered: "gate_reach g rs \<Longrightarrow> gate_reach (snd (clear_offered_exact s i g)) rs"
| clear_bound: "gate_reach g rs \<Longrightarrow> gate_reach (snd (clear_bound_exact s i g)) rs"

definition attachment_ok :: "string \<Rightarrow> bool" where
  "attachment_ok i \<longleftrightarrow> \<not> str_blank i \<and> chars_count i \<le> 128"

lemma validate_attachment_id_ok [simp]:
  "validate_attachment_id i = Inr () \<longleftrightarrow> attachment_ok i"
  by (auto simp: validate_attachment_id_def attachment_ok_def MAX_ATTACHMENT_ID_CHARACTERS_def)

fun gate_state_ok :: "gate_state \<Rightarrow> bool" where
  "gate_state_ok Empty = True"
| "gate_state_ok (Offering s p) = pred_option attachment_ok p"
| "gate_state_ok (Offered s i) = attachment_ok i"
| "gate_state_ok (Bound s i) = attachment_ok i"

lemma gate_reach_ok:
  "gate_reach g rs \<Longrightarrow>
   gate_state_ok (pg_state g) \<and> (\<forall>r \<in> rs. pred_option attachment_ok (rv_previous r))
   \<and> \<not> pg_poisoned g"
proof (induction rule: gate_reach.induct)
  case new
  then show ?case by (simp add: gate_new_def)
next
  case (begin_ok g rs s r g')
  then show ?case
    by (auto simp: begin_offer_def split: gate_state.splits if_splits)
next
  case (begin_err g rs s e g')
  then show ?case
    by (auto simp: begin_offer_def split: gate_state.splits if_splits)
next
  case (commit g rs r i)
  then show ?case
    by (auto simp: commit_offer_def split: gate_state.splits sum.splits)
next
  case (abort g rs r)
  then show ?case
    by (auto simp: abort_offer_def split: gate_state.splits option.splits)
next
  case (bind g rs s i)
  then show ?case by (auto simp: mark_bound_def split: sum.splits)
next
  case (clear_offered g rs s i)
  then show ?case by (auto simp: clear_offered_exact_def split: sum.splits)
next
  case (clear_bound g rs s i)
  then show ?case by (auto simp: clear_bound_exact_def split: sum.splits)
qed

lemma sample_attachment_ok [simp]: "attachment_ok ''att-1''" "attachment_ok ''att-2''"
  by code_simp+

theorem bound_attachment_owns_slot_witness:
  "gate_run [BeginOffer LocalOcr, MarkBound CloudVision ''att-2'', ClearOffered LocalOcr ''att-1'']
      \<lparr>pg_poisoned = False, pg_state = Bound LocalOcr ''att-1''\<rparr>
     = \<lparr>pg_poisoned = False, pg_state = Bound LocalOcr ''att-1''\<rparr>
   \<and> fst (begin_offer CloudVision \<lparr>pg_poisoned = False, pg_state = Bound LocalOcr ''att-1''\<rparr>)
     = Inl CrossSourceInUse"
  using bound_attachment_owns_slot [of "\<lparr>pg_poisoned = False, pg_state = Bound LocalOcr ''att-1''\<rparr>"
      LocalOcr "''att-1''"
      "[BeginOffer LocalOcr, MarkBound CloudVision ''att-2'', ClearOffered LocalOcr ''att-1'']"
      CloudVision]
  by simp

theorem offer_protocol_witness:
  "\<exists>r g1. begin_offer LocalOcr \<lparr>pg_poisoned = False, pg_state = Offered LocalOcr ''att-1''\<rparr>
        = (Inr r, g1)
     \<and> commit_offer r ''att-2'' (gate_run [BeginOffer CloudVision] g1)
         = (Inr (), \<lparr>pg_poisoned = False, pg_state = Offered LocalOcr ''att-2''\<rparr>)
     \<and> abort_offer r (gate_run [BeginOffer CloudVision] g1)
         = (Inr (), \<lparr>pg_poisoned = False, pg_state = Offered LocalOcr ''att-1''\<rparr>)"
proof -
  let ?g = "\<lparr>pg_poisoned = False, pg_state = Offered LocalOcr ''att-1''\<rparr>"
  let ?r = "\<lparr>rv_source = LocalOcr, rv_previous = Some ''att-1''\<rparr>"
  have b: "begin_offer LocalOcr ?g
      = (Inr ?r, ?g\<lparr>pg_state := Offering LocalOcr (Some ''att-1'')\<rparr>)"
    by (simp add: begin_offer_def)
  from offer_protocol [OF _ b, of "[BeginOffer CloudVision]"] show ?thesis
    by (intro exI [of _ ?r] exI [of _ "?g\<lparr>pg_state := Offering LocalOcr (Some ''att-1'')\<rparr>"])
      (use b in \<open>auto simp: owns_op_def\<close>)
qed

text \<open>
  In every state the gate can reach, with reservations that it has issued itself, the identity
  in the slot and the one a reservation would restore are valid attachment identities (not blank,
  at most 128 characters), and the lock is never poisoned.
\<close>

theorem gate_wellformed:
  assumes "gate_reach g rs"
  shows "gate_state_ok (pg_state g) \<and> \<not> pg_poisoned g
    \<and> (\<forall>r \<in> rs. gate_state_ok (pg_state (snd (abort_offer r g))))
    \<and> (\<forall>s i. is_bound_exact s i g = Inr True \<longrightarrow> pg_state g = Bound s i \<and> attachment_ok i)"
proof -
  note ok = gate_reach_ok [OF assms]
  have "gate_state_ok (pg_state (snd (abort_offer r g)))" if "r \<in> rs" for r
    using gate_reach_ok [OF gate_reach.abort [OF assms that]] by simp
  moreover have "pg_state g = Bound s i \<and> attachment_ok i" if "is_bound_exact s i g = Inr True" for s i
    using that by (auto simp: is_bound_exact_def split: sum.splits if_splits)
  ultimately show ?thesis using ok by simp
qed

theorem gate_wellformed_witness:
  "\<exists>g rs. gate_reach g rs \<and> pg_state g = Bound CloudVision ''att-2'' \<and> gate_state_ok (pg_state g)"
proof -
  let ?r = "\<lparr>rv_source = CloudVision, rv_previous = None\<rparr>"
  let ?g1 = "gate_new\<lparr>pg_state := Offering CloudVision None\<rparr>"
  have "begin_offer CloudVision gate_new = (Inr ?r, ?g1)"
    by (simp add: begin_offer_def gate_new_def)
  have va: "validate_attachment_id ''att-2'' = Inr ()" by simp
  from \<open>begin_offer CloudVision gate_new = (Inr ?r, ?g1)\<close>
  have "gate_reach ?g1 {?r}" by (rule gate_reach.begin_ok [OF gate_reach.new])
  from gate_reach.commit [OF this, of ?r "''att-2''"]
  have "gate_reach (gate_new\<lparr>pg_state := Offered CloudVision ''att-2''\<rparr>) {?r}"
    by (simp add: commit_offer_def gate_new_def va)
  from gate_reach.bind [OF this, of CloudVision "''att-2''"]
  have r: "gate_reach (gate_new\<lparr>pg_state := Bound CloudVision ''att-2''\<rparr>) {?r}"
    by (simp add: mark_bound_def gate_new_def va)
  from gate_wellformed [OF r] r show ?thesis by force
qed

end
