(* ===== verification/Screen_Policy.thy ===== *)
theory Screen_Policy
  imports Rust_Prelude "HOL-Library.Word"
begin

text \<open>
  The screen-perception consent domain, \<open>src-tauri/src/perception/screen_policy.rs\<close>: the policy of a
  life, its requests and events with their validators, the typed errors, and the process-local
  session gate with its generation fence. Error messages are left out.
\<close>

definition SCREEN_PERCEPTION_POLICY_VERSION :: int where "SCREEN_PERCEPTION_POLICY_VERSION = 1"
definition SCREEN_PERCEPTION_POLICY_EVENT_VERSION :: int where
  "SCREEN_PERCEPTION_POLICY_EVENT_VERSION = 1"
definition ACTOR_KIND_USER_EXPLICIT :: string where "ACTOR_KIND_USER_EXPLICIT = ''user_explicit''"
definition MAX_ID_LENGTH :: nat where "MAX_ID_LENGTH = 128"

lemmas screen_constants =
  SCREEN_PERCEPTION_POLICY_VERSION_def SCREEN_PERCEPTION_POLICY_EVENT_VERSION_def
  ACTOR_KIND_USER_EXPLICIT_def MAX_ID_LENGTH_def

record screen_policy =
  sp_life_id :: string
  sp_enabled :: bool
  sp_revision :: int
  sp_created_at :: string
  sp_updated_at :: string
  sp_policy_version :: int

record screen_create_request =
  sc_life_id :: string
  sc_enabled :: bool

record screen_update_request =
  su_event_id :: string
  su_life_id :: string
  su_enabled :: bool
  su_expected_revision :: int

record screen_event =
  sv_event_id :: string
  sv_life_id :: string
  sv_old_enabled :: bool
  sv_new_enabled :: bool
  sv_expected_revision :: int
  sv_applied_revision :: int
  sv_actor_kind :: string
  sv_occurred_at :: string
  sv_event_version :: int

datatype screen_create_outcome = ScreenCreated screen_policy | ScreenCreateReplayed screen_policy

datatype screen_update_outcome =
    ScreenApplied screen_event screen_policy
  | ScreenReplayed screen_event screen_policy

datatype screen_error_code =
    ScreenInvalidArgument | ScreenLifeNotFound | ScreenPolicyNotFound | ScreenPolicyDisabled
  | ScreenPolicyConflict | ScreenPolicyEventConflict | ScreenRevisionConflict
  | ScreenInvalidTransition | ScreenSessionNotArmed | ScreenSessionLifeMismatch
  | ScreenDatabaseUnavailable

record screen_error =
  se_code :: screen_error_code
  se_recoverable :: bool

definition screen_error_new :: "screen_error_code \<Rightarrow> screen_error" where
  "screen_error_new code =
     \<lparr>se_code = code,
      se_recoverable = (code \<in> {ScreenLifeNotFound, ScreenPolicyNotFound, ScreenPolicyDisabled,
        ScreenSessionNotArmed, ScreenSessionLifeMismatch, ScreenDatabaseUnavailable})\<rparr>"

definition screen_invalid_argument :: screen_error where
  "screen_invalid_argument = screen_error_new ScreenInvalidArgument"
definition screen_life_not_found :: screen_error where
  "screen_life_not_found = screen_error_new ScreenLifeNotFound"
definition screen_policy_conflict :: screen_error where
  "screen_policy_conflict = screen_error_new ScreenPolicyConflict"
definition screen_policy_event_conflict :: screen_error where
  "screen_policy_event_conflict = screen_error_new ScreenPolicyEventConflict"
definition screen_policy_not_found :: screen_error where
  "screen_policy_not_found = screen_error_new ScreenPolicyNotFound"
definition screen_policy_disabled :: screen_error where
  "screen_policy_disabled = screen_error_new ScreenPolicyDisabled"
definition screen_revision_conflict :: screen_error where
  "screen_revision_conflict = screen_error_new ScreenRevisionConflict"
definition screen_invalid_transition :: screen_error where
  "screen_invalid_transition = screen_error_new ScreenInvalidTransition"
definition screen_session_not_armed :: screen_error where
  "screen_session_not_armed = screen_error_new ScreenSessionNotArmed"
definition screen_session_life_mismatch :: screen_error where
  "screen_session_life_mismatch = screen_error_new ScreenSessionLifeMismatch"
definition screen_database :: screen_error where
  "screen_database = screen_error_new ScreenDatabaseUnavailable"

section \<open>Validators\<close>

definition screen_validate_life_id :: "string \<Rightarrow> screen_error + unit" where
  "screen_validate_life_id v = require (\<not> str_blank v) screen_invalid_argument"

definition screen_validate_id :: "string \<Rightarrow> screen_error + unit" where
  "screen_validate_id v =
     (let trimmed = str_trim v
      in require (\<not> (trimmed = [] \<or> chars_count trimmed > MAX_ID_LENGTH)) screen_invalid_argument)"

definition screen_validate_persisted_revision :: "int \<Rightarrow> screen_error + unit" where
  "screen_validate_persisted_revision r = require (\<not> r < 1) screen_invalid_argument"

definition screen_validate_expected_revision :: "int \<Rightarrow> screen_error + unit" where
  "screen_validate_expected_revision r = require (1 \<le> r \<and> r < i64_max) screen_invalid_argument"

definition screen_validate_timestamp :: "string \<Rightarrow> screen_error + unit" where
  "screen_validate_timestamp v = require (\<not> str_blank v) screen_invalid_argument"

definition screen_validate_create_request :: "screen_create_request \<Rightarrow> screen_error + unit" where
  "screen_validate_create_request r = screen_validate_life_id (sc_life_id r)"

definition screen_validate_update_request :: "screen_update_request \<Rightarrow> screen_error + unit" where
  "screen_validate_update_request r =
     check_all
       [screen_validate_id (su_event_id r),
        screen_validate_life_id (su_life_id r),
        screen_validate_expected_revision (su_expected_revision r)]"

definition screen_validate_policy_state :: "screen_policy \<Rightarrow> screen_error + unit" where
  "screen_validate_policy_state p =
     check_all
       [screen_validate_life_id (sp_life_id p),
        screen_validate_persisted_revision (sp_revision p),
        require (sp_policy_version p = SCREEN_PERCEPTION_POLICY_VERSION) screen_invalid_argument,
        screen_validate_timestamp (sp_created_at p),
        screen_validate_timestamp (sp_updated_at p)]"

definition screen_validate_event_state :: "screen_event \<Rightarrow> screen_error + unit" where
  "screen_validate_event_state e =
     check_all
       [screen_validate_id (sv_event_id e),
        screen_validate_life_id (sv_life_id e),
        screen_validate_expected_revision (sv_expected_revision e),
        require (Some (sv_applied_revision e) = checked_add (sv_expected_revision e) 1)
          screen_invalid_argument,
        require (sv_actor_kind e = ACTOR_KIND_USER_EXPLICIT) screen_invalid_argument,
        require (sv_event_version e = SCREEN_PERCEPTION_POLICY_EVENT_VERSION)
          screen_invalid_argument,
        screen_validate_timestamp (sv_occurred_at e)]"

lemmas screen_field_validators =
  screen_validate_life_id_def screen_validate_id_def screen_validate_persisted_revision_def
  screen_validate_expected_revision_def screen_validate_timestamp_def

definition screen_id_ok :: "string \<Rightarrow> bool" where
  "screen_id_ok v \<longleftrightarrow> \<not> str_blank v \<and> chars_count (str_trim v) \<le> 128"

lemma screen_validate_id_ok: "screen_validate_id v = Inr () \<longleftrightarrow> screen_id_ok v"
  by (auto simp: screen_validate_id_def screen_id_ok_def screen_constants Let_def str_blank_def)

definition screen_update_request_ok :: "screen_update_request \<Rightarrow> bool" where
  "screen_update_request_ok r \<longleftrightarrow>
     screen_id_ok (su_event_id r) \<and> \<not> str_blank (su_life_id r)
     \<and> 1 \<le> su_expected_revision r \<and> su_expected_revision r < i64_max"

definition screen_policy_ok :: "screen_policy \<Rightarrow> bool" where
  "screen_policy_ok p \<longleftrightarrow>
     \<not> str_blank (sp_life_id p) \<and> 1 \<le> sp_revision p \<and> sp_policy_version p = 1
     \<and> \<not> str_blank (sp_created_at p) \<and> \<not> str_blank (sp_updated_at p)"

definition screen_event_ok :: "screen_event \<Rightarrow> bool" where
  "screen_event_ok e \<longleftrightarrow>
     screen_id_ok (sv_event_id e) \<and> \<not> str_blank (sv_life_id e)
     \<and> 1 \<le> sv_expected_revision e \<and> sv_expected_revision e < i64_max
     \<and> sv_applied_revision e = sv_expected_revision e + 1
     \<and> sv_actor_kind e = ''user_explicit'' \<and> sv_event_version e = 1
     \<and> \<not> str_blank (sv_occurred_at e)"

lemma screen_validate_update_request_eq [validator_simps]:
  "screen_validate_update_request r =
     (if screen_update_request_ok r then Inr () else Inl screen_invalid_argument)"
proof -
  have "screen_validate_update_request r = Inr () \<longleftrightarrow> screen_update_request_ok r"
    by (simp add: screen_validate_update_request_def check_all_Inr_iff screen_validate_id_ok
        screen_validate_life_id_def screen_validate_expected_revision_def
        screen_update_request_ok_def)
  moreover have "screen_validate_update_request r = Inl e \<Longrightarrow> e = screen_invalid_argument" for e
    by (auto simp: screen_validate_update_request_def screen_field_validators Let_def
        dest!: check_all_Inl)
  ultimately show ?thesis
    by (rule_tac unit_result_cases [of "screen_validate_update_request r"]) auto
qed

lemma screen_validate_policy_state_eq [validator_simps]:
  "screen_validate_policy_state p =
     (if screen_policy_ok p then Inr () else Inl screen_invalid_argument)"
proof -
  have "screen_validate_policy_state p = Inr () \<longleftrightarrow> screen_policy_ok p"
    by (auto simp: screen_validate_policy_state_def check_all_Inr_iff screen_field_validators
        screen_policy_ok_def screen_constants)
  moreover have "screen_validate_policy_state p = Inl e \<Longrightarrow> e = screen_invalid_argument" for e
    by (auto simp: screen_validate_policy_state_def screen_field_validators Let_def
        dest!: check_all_Inl)
  ultimately show ?thesis
    by (rule_tac unit_result_cases [of "screen_validate_policy_state p"]) auto
qed

lemma screen_validate_event_state_eq [validator_simps]:
  "screen_validate_event_state e =
     (if screen_event_ok e then Inr () else Inl screen_invalid_argument)"
proof -
  have "screen_validate_event_state e = Inr () \<longleftrightarrow> screen_event_ok e"
    by (auto simp: screen_validate_event_state_def check_all_Inr_iff screen_validate_id_ok
        screen_validate_life_id_def screen_validate_expected_revision_def
        screen_validate_timestamp_def screen_event_ok_def screen_constants checked_add_def
        checked_i64_def i64_bounds split: if_splits)
  moreover have "screen_validate_event_state e = Inl x \<Longrightarrow> x = screen_invalid_argument" for x
    by (auto simp: screen_validate_event_state_def screen_field_validators Let_def
        dest!: check_all_Inl)
  ultimately show ?thesis
    by (rule_tac unit_result_cases [of "screen_validate_event_state e"]) auto
qed

section \<open>The session gate\<close>

datatype session_state = Disarmed | ArmedForLife "64 word" string

record session_gate =
  sg_state :: session_state
  sg_generation :: "64 word"

definition session_gate_new :: session_gate where
  "session_gate_new = \<lparr>sg_state = Disarmed, sg_generation = 0\<rparr>"

definition is_disarmed :: "session_gate \<Rightarrow> bool" where
  "is_disarmed g \<longleftrightarrow> sg_state g = Disarmed"

text \<open>\<open>None\<close> is the panic on a blank life identity.\<close>

definition arm_for_life :: "string \<Rightarrow> session_gate \<Rightarrow> session_gate option" where
  "arm_for_life life g =
     (if str_blank life then None
      else let generation = sg_generation g + 1 in
           Some (g\<lparr>sg_generation := generation, sg_state := ArmedForLife generation life\<rparr>))"

definition disarm :: "session_gate \<Rightarrow> session_gate" where
  "disarm g = g\<lparr>sg_generation := sg_generation g + 1, sg_state := Disarmed\<rparr>"

definition armed_life_id :: "session_gate \<Rightarrow> string option" where
  "armed_life_id g =
     (case sg_state g of Disarmed \<Rightarrow> None | ArmedForLife _ life \<Rightarrow> Some life)"

definition life_fence_for :: "string \<Rightarrow> session_gate \<Rightarrow> (64 word) option" where
  "life_fence_for life g =
     (case sg_state g of
        Disarmed \<Rightarrow> None
      | ArmedForLife generation armed_life \<Rightarrow>
          (if armed_life = life then Some generation else None))"

section \<open>Authorization\<close>

text \<open>\<open>find_policy\<close> is the repository's \<open>find_screen_perception_policy\<close>.\<close>

definition authorize_screen_perception ::
    "(string \<Rightarrow> screen_error + screen_policy option) \<Rightarrow> session_gate \<Rightarrow> string
     \<Rightarrow> screen_error + unit" where
  "authorize_screen_perception find_policy gate life =
     try_seq (screen_validate_life_id life)
     (try_bind (find_policy life) (\<lambda>found.
      try_bind (ok_or found screen_policy_not_found) (\<lambda>policy.
      if \<not> sp_enabled policy then Inl screen_policy_disabled
      else case armed_life_id gate of
             None \<Rightarrow> Inl screen_session_not_armed
           | Some armed \<Rightarrow> if armed \<noteq> life then Inl screen_session_life_mismatch else Inr ())))"

text \<open>
  The two-gate invariant. Authorization succeeds exactly when the life identity is not blank,
  the repository answers with an enabled policy, and the session gate is armed for exactly this
  life; otherwise the first failing gate names the error.
\<close>

theorem two_gate_authorization:
  "authorize_screen_perception find_policy gate life =
     (if str_blank life then Inl screen_invalid_argument
      else case find_policy life of
             Inl e \<Rightarrow> Inl e
           | Inr None \<Rightarrow> Inl screen_policy_not_found
           | Inr (Some p) \<Rightarrow>
               (if \<not> sp_enabled p then Inl screen_policy_disabled
                else if armed_life_id gate = Some life then Inr ()
                else if armed_life_id gate = None then Inl screen_session_not_armed
                else Inl screen_session_life_mismatch))
   \<and> (authorize_screen_perception find_policy gate life = Inr () \<longleftrightarrow>
        \<not> str_blank life \<and> (\<exists>p. find_policy life = Inr (Some p) \<and> sp_enabled p)
        \<and> (\<exists>fence. life_fence_for life gate = Some fence))"
proof -
  have eq: "authorize_screen_perception find_policy gate life =
     (if str_blank life then Inl screen_invalid_argument
      else case find_policy life of
             Inl e \<Rightarrow> Inl e
           | Inr None \<Rightarrow> Inl screen_policy_not_found
           | Inr (Some p) \<Rightarrow>
               (if \<not> sp_enabled p then Inl screen_policy_disabled
                else if armed_life_id gate = Some life then Inr ()
                else if armed_life_id gate = None then Inl screen_session_not_armed
                else Inl screen_session_life_mismatch))"
    by (auto simp: authorize_screen_perception_def screen_validate_life_id_def require_def
        split: sum.splits option.splits)
  have "armed_life_id gate = Some life \<longleftrightarrow> (\<exists>fence. life_fence_for life gate = Some fence)"
    by (auto simp: armed_life_id_def life_fence_for_def split: session_state.splits)
  then show ?thesis unfolding eq by (auto split: sum.splits option.splits)
qed

section \<open>Interleaved callers\<close>

text \<open>
  \<open>arm_for_life\<close> and \<open>disarm\<close> first advance the atomic counter and then take the lock, so callers
  interleave between the two. An event is one atomic access of a thread: \<open>Fetch\<close> is the
  \<open>fetch_add\<close> of a call, \<open>Store\<close> the write under the lock. \<open>ss_fetches\<close> counts the \<open>Fetch\<close> events;
  no code reads it.
\<close>

datatype session_call = CallArm string | CallDisarm

datatype session_event = Fetch nat session_call | Store nat

record session_sys =
  ss_gate :: session_gate
  ss_inflight :: "nat \<Rightarrow> (64 word \<times> session_call) option"
  ss_fetches :: nat

definition session_sys_new :: session_sys where
  "session_sys_new =
     \<lparr>ss_gate = session_gate_new, ss_inflight = (\<lambda>_. None), ss_fetches = 0\<rparr>"

fun session_event_step :: "session_event \<Rightarrow> session_sys \<Rightarrow> session_sys option" where
  "session_event_step (Fetch t call) s =
     (if ss_inflight s t \<noteq> None
         \<or> (case call of CallArm life \<Rightarrow> str_blank life | CallDisarm \<Rightarrow> False)
      then None
      else let generation = sg_generation (ss_gate s) + 1 in
           Some (s\<lparr>ss_gate := (ss_gate s)\<lparr>sg_generation := generation\<rparr>,
                   ss_inflight := (ss_inflight s)(t \<mapsto> (generation, call)),
                   ss_fetches := Suc (ss_fetches s)\<rparr>))"
| "session_event_step (Store t) s =
     (case ss_inflight s t of
        None \<Rightarrow> None
      | Some (generation, call) \<Rightarrow>
          Some (s\<lparr>ss_gate := (ss_gate s)\<lparr>sg_state :=
                    (case call of
                       CallArm life \<Rightarrow> ArmedForLife generation life
                     | CallDisarm \<Rightarrow> Disarmed)\<rparr>,
                  ss_inflight := (ss_inflight s)(t := None)\<rparr>))"

fun session_run :: "session_event list \<Rightarrow> session_sys \<Rightarrow> session_sys option" where
  "session_run [] s = Some s"
| "session_run (e # es) s = Option.bind (session_event_step e s) (session_run es)"

text \<open>A call that nobody interrupts is the sequential operation.\<close>

lemma session_call_sequential:
  assumes "ss_inflight s t = None"
  shows "map_option ss_gate (session_run [Fetch t (CallArm life), Store t] s)
           = arm_for_life life (ss_gate s)"
    and "map_option ss_gate (session_run [Fetch t CallDisarm, Store t] s)
           = Some (disarm (ss_gate s))"
  using assms by (simp_all add: arm_for_life_def disarm_def Let_def)

definition issued :: "nat \<Rightarrow> (64 word) set" where
  "issued n = of_nat ` {1..n}"

definition state_fence :: "session_sys \<Rightarrow> (64 word) option" where
  "state_fence s =
     (case sg_state (ss_gate s) of Disarmed \<Rightarrow> None | ArmedForLife g _ \<Rightarrow> Some g)"

definition session_inv :: "session_sys \<Rightarrow> bool" where
  "session_inv s \<longleftrightarrow>
     sg_generation (ss_gate s) = of_nat (ss_fetches s)
     \<and> (\<forall>t g c. ss_inflight s t = Some (g, c) \<longrightarrow> g \<in> issued (ss_fetches s))
     \<and> (\<forall>t u g c d. ss_inflight s t = Some (g, c) \<longrightarrow> ss_inflight s u = Some (g, d) \<longrightarrow> t = u)
     \<and> (\<forall>f. state_fence s = Some f \<longrightarrow> f \<in> issued (ss_fetches s)
          \<and> (\<forall>t c. ss_inflight s t \<noteq> Some (f, c)))"

lemma issued_mono: "g \<in> issued n \<Longrightarrow> g \<in> issued (Suc n)"
  by (auto simp: issued_def)

lemma issued_fresh:
  assumes "Suc n < 2 ^ 64"
  shows "of_nat (Suc n) \<in> issued (Suc n)" and "(of_nat (Suc n) :: 64 word) \<notin> issued n"
proof -
  show "of_nat (Suc n) \<in> issued (Suc n)" unfolding issued_def by (rule imageI) simp
  have inj: "a = b" if "(of_nat a :: 64 word) = of_nat b" "a < 2 ^ 64" "b < 2 ^ 64" for a b
  proof -
    from that(1) have "unat (of_nat a :: 64 word) = unat (of_nat b :: 64 word)" by simp
    with that(2,3) show ?thesis by (simp add: unat_of_nat)
  qed
  show "(of_nat (Suc n) :: 64 word) \<notin> issued n"
  proof
    assume "(of_nat (Suc n) :: 64 word) \<in> issued n"
    then obtain k where k: "(of_nat (Suc n) :: 64 word) = of_nat k" "k \<le> n"
      unfolding issued_def by auto
    from inj [OF k(1)] k(2) assms show False by simp
  qed
qed

lemma session_step_fetches: "session_event_step e s = Some s' \<Longrightarrow> ss_fetches s \<le> ss_fetches s'"
  by (cases e) (auto simp: Let_def split: if_splits option.splits)

lemma session_run_fetches: "session_run es s = Some s' \<Longrightarrow> ss_fetches s \<le> ss_fetches s'"
proof (induction es arbitrary: s)
  case (Cons e es)
  then show ?case using session_step_fetches by (fastforce split: bind_splits)
qed simp

lemma session_step_inv:
  assumes inv: "session_inv s" and st: "session_event_step e s = Some s'"
    and small: "ss_fetches s' < 2 ^ 64"
  shows "session_inv s'"
proof (cases e)
  case (Fetch t call)
  let ?g = "of_nat (Suc (ss_fetches s)) :: 64 word"
  from st Fetch inv have s': "s' = s\<lparr>ss_gate := (ss_gate s)\<lparr>sg_generation := ?g\<rparr>,
      ss_inflight := (ss_inflight s)(t \<mapsto> (?g, call)), ss_fetches := Suc (ss_fetches s)\<rparr>"
    by (auto simp: session_inv_def Let_def add.commute split: if_splits)
  note fresh = issued_fresh [of "ss_fetches s"]
  have small': "Suc (ss_fetches s) < 2 ^ 64" using small by (simp add: s')
  have "state_fence s' = state_fence s" by (simp add: s' state_fence_def)
  with inv fresh [OF small'] show ?thesis
    unfolding session_inv_def by (simp add: s' issued_mono) (metis issued_mono)
next
  case (Store t)
  with st obtain g c where g: "ss_inflight s t = Some (g, c)"
    by (auto split: option.splits)
  from st Store g have s': "s' = s\<lparr>ss_gate := (ss_gate s)\<lparr>sg_state :=
        (case c of CallArm life \<Rightarrow> ArmedForLife g life | CallDisarm \<Rightarrow> Disarmed)\<rparr>,
      ss_inflight := (ss_inflight s)(t := None)\<rparr>" by simp
  have "state_fence s' = None \<or> state_fence s' = Some g"
    by (cases c) (simp_all add: s' state_fence_def)
  with inv g show ?thesis
    unfolding session_inv_def by (simp add: s') (metis option.inject option.simps(3))
qed

lemma session_run_inv:
  "session_inv s \<Longrightarrow> session_run es s = Some s' \<Longrightarrow> ss_fetches s' < 2 ^ 64 \<Longrightarrow> session_inv s'"
proof (induction es arbitrary: s)
  case (Cons e es)
  then obtain s1 where s1: "session_event_step e s = Some s1" "session_run es s1 = Some s'"
    by (auto split: bind_splits)
  from session_run_fetches [OF s1(2)] Cons.prems(3) have "ss_fetches s1 < 2 ^ 64" by simp
  with session_step_inv [OF Cons.prems(1) s1(1)] Cons s1(2) show ?case by blast
qed simp

text \<open>A fence that is no longer in the gate and in no thread's hand never comes back.\<close>

definition retired :: "64 word \<Rightarrow> session_sys \<Rightarrow> bool" where
  "retired f s \<longleftrightarrow> f \<in> issued (ss_fetches s) \<and> state_fence s \<noteq> Some f
     \<and> (\<forall>t c. ss_inflight s t \<noteq> Some (f, c))"

lemma retired_step:
  assumes "session_inv s" "retired f s" "session_event_step e s = Some s'"
    and "ss_fetches s' < 2 ^ 64"
  shows "retired f s'"
proof (cases e)
  case (Fetch t call)
  with assms issued_fresh(2) [of "ss_fetches s"] show ?thesis
    by (auto simp: retired_def session_inv_def Let_def add.commute state_fence_def issued_mono
        split: if_splits)
next
  case (Store t)
  with assms show ?thesis
    by (auto simp: retired_def state_fence_def split: option.splits session_call.splits if_splits)
qed

lemma retired_run:
  "session_inv s \<Longrightarrow> retired f s \<Longrightarrow> session_run es s = Some s' \<Longrightarrow> ss_fetches s' < 2 ^ 64 \<Longrightarrow>
   retired f s'"
proof (induction es arbitrary: s)
  case (Cons e es)
  then obtain s1 where s1: "session_event_step e s = Some s1" "session_run es s1 = Some s'"
    by (auto split: bind_splits)
  from session_run_fetches [OF s1(2)] Cons.prems(4) have "ss_fetches s1 < 2 ^ 64" by simp
  with session_step_inv [OF Cons.prems(1) s1(1)] retired_step [OF Cons.prems(1,2) s1(1)] Cons s1(2)
  show ?case by blast
qed simp

text \<open>
  The fence of a session is used once. In any interleaving of arming and disarming threads, once
  another arm or disarm has written the gate after a fence was observed, that fence is never the
  gate's again, for any life: a target bound to it stays rejected. (Fewer than \<open>2 ^ 64\<close> calls.)
\<close>

theorem session_fence_never_returns:
  assumes "session_run es1 session_sys_new = Some s1"
    and "life_fence_for life (ss_gate s1) = Some f"
    and "session_run (Store t # es2) s1 = Some s2" and "ss_fetches s2 < 2 ^ 64"
  shows "life_fence_for life' (ss_gate s2) \<noteq> Some f"
proof -
  obtain s where s: "session_event_step (Store t) s1 = Some s" "session_run es2 s = Some s2"
    using assms(3) by (auto split: bind_splits option.splits)
  have "ss_fetches s1 \<le> ss_fetches s2" using session_run_fetches [OF assms(3)] .
  then have small1: "ss_fetches s1 < 2 ^ 64" using assms(4) by simp
  have "session_inv session_sys_new"
    by (simp add: session_inv_def session_sys_new_def session_gate_new_def state_fence_def)
  then have inv1: "session_inv s1" using assms(1) small1 by (rule session_run_inv)
  have f: "state_fence s1 = Some f"
    using assms(2) by (auto simp: state_fence_def life_fence_for_def
        split: session_state.splits if_splits)
  have "retired f s"
    using inv1 f s(1)
    by (auto simp: session_inv_def retired_def state_fence_def
        split: option.splits session_call.splits prod.splits if_splits)
  moreover have "ss_fetches s < 2 ^ 64" using session_run_fetches [OF s(2)] assms(4) by simp
  then have "session_inv s" by (rule session_step_inv [OF inv1 s(1)])
  ultimately have "retired f s2" using s(2) assms(4) by (blast intro: retired_run)
  then show ?thesis
    by (auto simp: retired_def state_fence_def life_fence_for_def
        split: session_state.splits if_splits)
qed

text \<open>
  The harder interleaving: thread 2 draws a later fence and thread 1 writes an older one over it.
\<close>

lemma session_fence_never_returns_witness:
  "\<exists>s1 s2.
     session_run [Fetch 1 (CallArm ''life-a''), Fetch 2 (CallArm ''life-a''), Store 2]
       session_sys_new = Some s1
     \<and> life_fence_for ''life-a'' (ss_gate s1) = Some 2
     \<and> session_run (Store 1 # [Fetch 2 (CallArm ''life-a''), Store 2]) s1 = Some s2
     \<and> ss_fetches s2 < 2 ^ 64
     \<and> life_fence_for ''life-a'' (ss_gate s2) \<noteq> Some 2"
proof -
  have nb: "\<not> str_blank ''life-a''" by code_simp
  let ?s0 = "session_run [Fetch 1 (CallArm ''life-a''), Fetch 2 (CallArm ''life-a''), Store 2]
       session_sys_new"
  let ?es = "Store 1 # [Fetch 2 (CallArm ''life-a''), Store 2]"
  obtain s1 where s1: "?s0 = Some s1" "life_fence_for ''life-a'' (ss_gate s1) = Some 2"
    using nb by (simp add: session_sys_new_def session_gate_new_def Let_def life_fence_for_def)
  obtain s2 where s2: "session_run ?es s1 = Some s2" "ss_fetches s2 < 2 ^ 64"
    using nb s1(1) by (auto simp: session_sys_new_def session_gate_new_def Let_def)
  from session_fence_never_returns [OF s1 s2] s1 s2 show ?thesis by blast
qed

end
