(* ===== verification/Screen_Store.thy ===== *)
theory Screen_Store
  imports Screen_Policy Revision_Store
begin

text \<open>
  The SQLite repository of the screen-perception consent, \<open>src-tauri/src/storage/screen_perception.rs\<close>,
  over the two tables of \<open>migrations/027_screen_perception_authority.*.sql\<close>, its place under the
  authorization of \<open>perception/screen_policy.rs\<close>, and the third interpretation of the store
  contract. \<open>io\<close> says which statements SQLite executes, \<open>now\<close> is its clock.
\<close>

section \<open>Tables\<close>

record screen_db = life_db +
  screen_policy_rows :: "screen_policy list"
  screen_event_rows :: "screen_event list"

datatype screen_stmt =
    ScrLock | ScrBegin | ScrSelectEventById | ScrSelectPolicy | ScrSelectLife | ScrNow
  | ScrInsertPolicy | ScrUpdatePolicy | ScrInsertEvent | ScrReloadEvent | ScrReloadPolicy
  | ScrCommit

type_synonym screen_io = "screen_stmt \<Rightarrow> bool"

definition screen_policy_row_check :: "screen_policy \<Rightarrow> bool" where
  "screen_policy_row_check p \<longleftrightarrow>
     sql_length (sql_trim (sp_life_id p)) > 0 \<and> sp_revision p \<ge> 1
     \<and> sql_length (sql_trim (sp_created_at p)) > 0
     \<and> sql_length (sql_trim (sp_updated_at p)) > 0 \<and> sp_policy_version p = 1"

definition screen_event_row_check :: "screen_event \<Rightarrow> bool" where
  "screen_event_row_check e \<longleftrightarrow>
     (let n = sql_length (sql_trim (sv_event_id e)) in 1 \<le> n \<and> n \<le> 128)
     \<and> sql_length (sql_trim (sv_life_id e)) > 0
     \<and> sv_expected_revision e \<ge> 1 \<and> sv_expected_revision e < i64_max
     \<and> sv_applied_revision e = sv_expected_revision e + 1
     \<and> sv_actor_kind e = ''user_explicit''
     \<and> sql_length (sql_trim (sv_occurred_at e)) > 0 \<and> sv_event_version e = 1"

definition screen_policy_insert ::
    "screen_policy \<Rightarrow> 'a screen_db_scheme \<Rightarrow> sql_constraint + 'a screen_db_scheme" where
  "screen_policy_insert p db =
     (if \<not> screen_policy_row_check p then Inl SqlCheckFailed
      else if sp_life_id p \<in> set (map sp_life_id (screen_policy_rows db)) then Inl SqlUniqueFailed
      else if sp_life_id p \<notin> set (life_identity db) then Inl SqlForeignKeyFailed
      else Inr (db\<lparr>screen_policy_rows := screen_policy_rows db @ [p]\<rparr>))"

definition screen_event_insert ::
    "screen_event \<Rightarrow> 'a screen_db_scheme \<Rightarrow> sql_constraint + 'a screen_db_scheme" where
  "screen_event_insert e db =
     (if \<not> screen_event_row_check e then Inl SqlCheckFailed
      else if sv_event_id e \<in> set (map sv_event_id (screen_event_rows db)) then Inl SqlUniqueFailed
      else if sv_life_id e \<notin> set (map sp_life_id (screen_policy_rows db)) then Inl SqlForeignKeyFailed
      else Inr (db\<lparr>screen_event_rows := screen_event_rows db @ [e]\<rparr>))"

section \<open>Operations\<close>

definition screen_validate_lookup_argument :: "string \<Rightarrow> screen_error + unit" where
  "screen_validate_lookup_argument v = require (\<not> str_blank v) screen_invalid_argument"

definition screen_validate_lookup_arguments :: "string \<Rightarrow> string \<Rightarrow> screen_error + unit" where
  "screen_validate_lookup_arguments life entity =
     try_seq (screen_validate_lookup_argument life) (screen_validate_lookup_argument entity)"

definition screen_next_revision :: "int \<Rightarrow> screen_error + int" where
  "screen_next_revision expected = ok_or (checked_add expected 1) screen_invalid_argument"

definition screen_select_policy :: "string \<Rightarrow> 'a screen_db_scheme \<Rightarrow> screen_policy option" where
  "screen_select_policy life db = find (\<lambda>p. sp_life_id p = life) (screen_policy_rows db)"

definition screen_load_policy ::
    "bool \<Rightarrow> string \<Rightarrow> 'a screen_db_scheme \<Rightarrow> screen_error + screen_policy option" where
  "screen_load_policy executes life db =
     (if executes then Inr (screen_select_policy life db) else Inl screen_database)"

definition screen_select_event :: "string \<Rightarrow> 'a screen_db_scheme \<Rightarrow> screen_event option" where
  "screen_select_event i db = find (\<lambda>e. sv_event_id e = i) (screen_event_rows db)"

definition screen_load_event_by_id ::
    "bool \<Rightarrow> string \<Rightarrow> 'a screen_db_scheme \<Rightarrow> screen_error + screen_event option" where
  "screen_load_event_by_id executes i db =
     (if executes then Inr (screen_select_event i db) else Inl screen_database)"

definition screen_create_evidence_matches :: "screen_policy \<Rightarrow> screen_create_request \<Rightarrow> bool" where
  "screen_create_evidence_matches p r \<longleftrightarrow>
     sp_life_id p = sc_life_id r \<and> sp_enabled p = sc_enabled r"

definition screen_event_evidence_matches ::
    "screen_event \<Rightarrow> screen_update_request \<Rightarrow> int \<Rightarrow> bool" where
  "screen_event_evidence_matches e r applied_revision \<longleftrightarrow>
     sv_event_id e = su_event_id r \<and> sv_life_id e = su_life_id r
     \<and> sv_new_enabled e = su_enabled r \<and> sv_expected_revision e = su_expected_revision r
     \<and> sv_applied_revision e = applied_revision \<and> sv_actor_kind e = ACTOR_KIND_USER_EXPLICIT
     \<and> sv_event_version e = SCREEN_PERCEPTION_POLICY_EVENT_VERSION"

definition screen_require_life ::
    "bool \<Rightarrow> string \<Rightarrow> 'a screen_db_scheme \<Rightarrow> screen_error + unit" where
  "screen_require_life executes life db =
     (if \<not> executes then Inl screen_database
      else if life \<notin> set (life_identity db) then Inl screen_life_not_found
      else Inr ())"

definition screen_policy_created :: "string \<Rightarrow> string \<Rightarrow> bool \<Rightarrow> screen_policy" where
  "screen_policy_created now life enabled =
     \<lparr>sp_life_id = life, sp_enabled = enabled, sp_revision = 1, sp_created_at = now,
      sp_updated_at = now, sp_policy_version = SCREEN_PERCEPTION_POLICY_VERSION\<rparr>"

definition screen_create_in_transaction ::
    "screen_io \<Rightarrow> string \<Rightarrow> screen_create_request \<Rightarrow> 'a screen_db_scheme
     \<Rightarrow> screen_error + screen_create_outcome \<times> 'a screen_db_scheme" where
  "screen_create_in_transaction io now r db =
     try_seq (screen_validate_create_request r)
     (try_bind (screen_load_policy (io ScrSelectPolicy) (sc_life_id r) db) (\<lambda>found.
      case found of
        Some existing \<Rightarrow>
          (if screen_create_evidence_matches existing r
           then try_seq (screen_validate_policy_state existing)
                  (Inr (ScreenCreateReplayed existing, db))
           else Inl screen_policy_conflict)
      | None \<Rightarrow>
          try_seq (screen_require_life (io ScrSelectLife) (sc_life_id r) db)
          (if \<not> io ScrNow \<or> \<not> io ScrInsertPolicy then Inl screen_database
           else case screen_policy_insert
                       (screen_policy_created now (sc_life_id r) (sc_enabled r)) db of
                  Inl _ \<Rightarrow> Inl screen_database
                | Inr db' \<Rightarrow>
                    (if \<not> io ScrReloadPolicy then Inl screen_database
                     else case screen_select_policy (sc_life_id r) db' of
                            None \<Rightarrow> Inl screen_database
                          | Some created \<Rightarrow>
                              try_seq (screen_validate_policy_state created)
                                (Inr (ScreenCreated created, db'))))))"

definition screen_policy_after :: "string \<Rightarrow> bool \<Rightarrow> int \<Rightarrow> screen_policy \<Rightarrow> screen_policy" where
  "screen_policy_after now enabled applied_revision p =
     p\<lparr>sp_enabled := enabled, sp_revision := applied_revision, sp_updated_at := now\<rparr>"

text \<open>
  The \<open>UPDATE \<dots> WHERE life_id = ?4 AND revision = ?5 AND screen_perception_enabled = ?6\<close>: \<open>None\<close>
  when a \<open>CHECK\<close> refuses it. (It writes none of the columns the immutability trigger guards.)
\<close>

definition screen_policy_update ::
    "string \<Rightarrow> int \<Rightarrow> screen_update_request \<Rightarrow> bool \<Rightarrow> 'a screen_db_scheme
     \<Rightarrow> (nat \<times> 'a screen_db_scheme) option" where
  "screen_policy_update now applied_revision r enabled db =
     (let p = (\<lambda>p. sp_life_id p = su_life_id r \<and> sp_revision p = su_expected_revision r
                  \<and> sp_enabled p = enabled);
          f = screen_policy_after now (su_enabled r) applied_revision
      in if \<exists>row \<in> set (screen_policy_rows db). p row \<and> \<not> screen_policy_row_check (f row) then None
         else let (changed, rows) = sql_update p f (screen_policy_rows db)
              in Some (changed, db\<lparr>screen_policy_rows := rows\<rparr>))"

definition screen_event_of ::
    "string \<Rightarrow> int \<Rightarrow> screen_update_request \<Rightarrow> bool \<Rightarrow> screen_event" where
  "screen_event_of now applied_revision r old_enabled =
     \<lparr>sv_event_id = su_event_id r, sv_life_id = su_life_id r, sv_old_enabled = old_enabled,
      sv_new_enabled = su_enabled r, sv_expected_revision = su_expected_revision r,
      sv_applied_revision = applied_revision, sv_actor_kind = ACTOR_KIND_USER_EXPLICIT,
      sv_occurred_at = now, sv_event_version = SCREEN_PERCEPTION_POLICY_EVENT_VERSION\<rparr>"

text \<open>The writes of a request that builds on the current revision and changes the setting.\<close>

definition screen_apply_update ::
    "screen_io \<Rightarrow> string \<Rightarrow> int \<Rightarrow> screen_update_request \<Rightarrow> screen_policy \<Rightarrow> 'a screen_db_scheme
     \<Rightarrow> screen_error + screen_update_outcome \<times> 'a screen_db_scheme" where
  "screen_apply_update io now applied_revision r current db =
     (if \<not> io ScrNow \<or> \<not> io ScrUpdatePolicy then Inl screen_database
      else case screen_policy_update now applied_revision r (sp_enabled current) db of
        None \<Rightarrow> Inl screen_database
      | Some (changed, db1) \<Rightarrow>
        (if changed \<noteq> 1 then Inl screen_revision_conflict
         else let event = screen_event_of now applied_revision r (sp_enabled current) in
         try_seq (screen_validate_event_state event)
         (if \<not> io ScrInsertEvent then Inl screen_database
          else case screen_event_insert event db1 of
            Inl _ \<Rightarrow> Inl screen_database
          | Inr db2 \<Rightarrow>
            try_bind (screen_load_event_by_id (io ScrReloadEvent) (sv_event_id event) db2)
              (\<lambda>found_event.
            try_bind (ok_or found_event screen_database) (\<lambda>persisted_event.
            try_bind (screen_load_policy (io ScrReloadPolicy) (sv_life_id event) db2)
              (\<lambda>found_policy.
            try_bind (ok_or found_policy screen_policy_not_found) (\<lambda>persisted_policy.
            try_seq (screen_validate_event_state persisted_event)
            (try_seq (screen_validate_policy_state persisted_policy)
            (Inr (ScreenApplied persisted_event persisted_policy, db2))))))))))"

definition screen_update_in_transaction ::
    "screen_io \<Rightarrow> string \<Rightarrow> screen_update_request \<Rightarrow> 'a screen_db_scheme
     \<Rightarrow> screen_error + screen_update_outcome \<times> 'a screen_db_scheme" where
  "screen_update_in_transaction io now r db =
     try_seq (screen_validate_update_request r)
     (try_bind (screen_next_revision (su_expected_revision r)) (\<lambda>applied_revision.
      try_bind (screen_load_event_by_id (io ScrSelectEventById) (su_event_id r) db) (\<lambda>found.
      case found of
        Some existing_event \<Rightarrow>
          (if screen_event_evidence_matches existing_event r applied_revision
           then try_bind (screen_load_policy (io ScrSelectPolicy) (su_life_id r) db) (\<lambda>found_policy.
                try_bind (ok_or found_policy screen_policy_not_found) (\<lambda>current.
                try_seq (screen_validate_event_state existing_event)
                (try_seq (screen_validate_policy_state current)
                (Inr (ScreenReplayed existing_event current, db)))))
           else Inl screen_policy_event_conflict)
      | None \<Rightarrow>
          try_bind (screen_load_policy (io ScrSelectPolicy) (su_life_id r) db) (\<lambda>found_policy.
          try_bind (ok_or found_policy screen_policy_not_found) (\<lambda>current.
          try_seq (screen_validate_policy_state current)
          (if sp_revision current \<noteq> su_expected_revision r then Inl screen_revision_conflict
           else if sp_enabled current = su_enabled r then Inl screen_invalid_transition
           else screen_apply_update io now applied_revision r current db))))))"

definition screen_create_policy ::
    "screen_io \<Rightarrow> string \<Rightarrow> screen_create_request \<Rightarrow> 'a screen_db_scheme
     \<Rightarrow> (screen_error + screen_create_outcome) \<times> 'a screen_db_scheme" where
  "screen_create_policy io now r db =
     with_transaction (io ScrLock \<and> io ScrBegin) (io ScrCommit) screen_database
       (screen_create_in_transaction io now r) db"

definition screen_update_policy ::
    "screen_io \<Rightarrow> string \<Rightarrow> screen_update_request \<Rightarrow> 'a screen_db_scheme
     \<Rightarrow> (screen_error + screen_update_outcome) \<times> 'a screen_db_scheme" where
  "screen_update_policy io now r db =
     with_transaction (io ScrLock \<and> io ScrBegin) (io ScrCommit) screen_database
       (screen_update_in_transaction io now r) db"

definition screen_find_policy ::
    "screen_io \<Rightarrow> 'a screen_db_scheme \<Rightarrow> string \<Rightarrow> screen_error + screen_policy option" where
  "screen_find_policy io db life =
     try_seq (screen_validate_lookup_argument life)
     (if \<not> io ScrLock then Inl screen_database
      else try_bind (screen_load_policy (io ScrSelectPolicy) life db) (\<lambda>found.
           case found of
             None \<Rightarrow> Inr None
           | Some p \<Rightarrow> try_seq (screen_validate_policy_state p) (Inr (Some p))))"

definition screen_find_event ::
    "screen_io \<Rightarrow> 'a screen_db_scheme \<Rightarrow> string \<Rightarrow> string \<Rightarrow> screen_error + screen_event option" where
  "screen_find_event io db life i =
     try_seq (screen_validate_lookup_arguments life i)
     (if \<not> io ScrLock \<or> \<not> io ScrSelectEventById then Inl screen_database
      else case find (\<lambda>e. sv_life_id e = life \<and> sv_event_id e = i) (screen_event_rows db) of
             None \<Rightarrow> Inr None
           | Some e \<Rightarrow> try_seq (screen_validate_event_state e) (Inr (Some e)))"

section \<open>Outcomes\<close>

lemmas screen_select_defs = screen_select_policy_def screen_select_event_def

lemma screen_policy_insert_Inr:
  "screen_policy_insert p db = Inr db' \<longleftrightarrow>
     screen_policy_row_check p \<and> sp_life_id p \<notin> sp_life_id ` set (screen_policy_rows db)
     \<and> sp_life_id p \<in> set (life_identity db)
     \<and> db' = db\<lparr>screen_policy_rows := screen_policy_rows db @ [p]\<rparr>"
  by (auto simp: screen_policy_insert_def)

lemma screen_event_insert_Inr:
  "screen_event_insert e db = Inr db' \<longleftrightarrow>
     screen_event_row_check e \<and> sv_event_id e \<notin> sv_event_id ` set (screen_event_rows db)
     \<and> sv_life_id e \<in> sp_life_id ` set (screen_policy_rows db)
     \<and> db' = db\<lparr>screen_event_rows := screen_event_rows db @ [e]\<rparr>"
  by (auto simp: screen_event_insert_def)

lemma screen_policy_created_simps [simp]:
  "sp_life_id (screen_policy_created now life en) = life"
  "sp_enabled (screen_policy_created now life en) = en"
  "sp_revision (screen_policy_created now life en) = 1"
  by (simp_all add: screen_policy_created_def)

lemma screen_policy_after_simps [simp]:
  "sp_life_id (screen_policy_after now en n p) = sp_life_id p"
  "sp_enabled (screen_policy_after now en n p) = en"
  "sp_revision (screen_policy_after now en n p) = n"
  by (simp_all add: screen_policy_after_def)

lemma screen_event_of_simps [simp]:
  "sv_event_id (screen_event_of now n r old) = su_event_id r"
  "sv_life_id (screen_event_of now n r old) = su_life_id r"
  "sv_old_enabled (screen_event_of now n r old) = old"
  "sv_new_enabled (screen_event_of now n r old) = su_enabled r"
  "sv_expected_revision (screen_event_of now n r old) = su_expected_revision r"
  "sv_applied_revision (screen_event_of now n r old) = n"
  "sv_occurred_at (screen_event_of now n r old) = now"
  "screen_event_evidence_matches (screen_event_of now n r old) r m \<longleftrightarrow> n = m"
  by (auto simp: screen_event_of_def screen_event_evidence_matches_def)

definition screen_updated_db ::
    "string \<Rightarrow> screen_update_request \<Rightarrow> screen_policy \<Rightarrow> 'a screen_db_scheme \<Rightarrow> 'a screen_db_scheme" where
  "screen_updated_db now r current db =
     (let n = su_expected_revision r + 1 in
      db\<lparr>screen_policy_rows :=
           map (\<lambda>p. if sp_life_id p = su_life_id r \<and> sp_revision p = su_expected_revision r
                       \<and> sp_enabled p = sp_enabled current
                    then screen_policy_after now (su_enabled r) n p else p) (screen_policy_rows db),
         screen_event_rows := screen_event_rows db @ [screen_event_of now n r (sp_enabled current)]\<rparr>)"

lemma screen_updated_db_rows:
  "life_identity (screen_updated_db now r c db) = life_identity db"
  "screen_event_rows (screen_updated_db now r c db) =
     screen_event_rows db @ [screen_event_of now (su_expected_revision r + 1) r (sp_enabled c)]"
  "map sp_life_id (screen_policy_rows (screen_updated_db now r c db)) =
     map sp_life_id (screen_policy_rows db)"
  by (simp_all add: screen_updated_db_def Let_def)

lemma screen_select_updated:
  assumes "screen_select_policy (su_life_id r) db = Some c" "sp_revision c = su_expected_revision r"
  shows "screen_select_policy life (screen_updated_db now r c db) =
    (if life = su_life_id r
     then Some (screen_policy_after now (su_enabled r) (su_expected_revision r + 1) c)
     else screen_select_policy life db)"
proof -
  let ?f = "\<lambda>p. if sp_life_id p = su_life_id r \<and> sp_revision p = su_expected_revision r
                   \<and> sp_enabled p = sp_enabled c
                then screen_policy_after now (su_enabled r) (su_expected_revision r + 1) p else p"
  have key: "sp_life_id (?f p) = sp_life_id p" for p by simp
  have "screen_select_policy life (screen_updated_db now r c db) =
      map_option ?f (screen_select_policy life db)"
    unfolding screen_select_defs screen_updated_db_def Let_def
    by (simp add: find_map_key [of sp_life_id ?f, OF key])
  then show ?thesis
    using assms by (cases "screen_select_policy life db")
      (auto simp: screen_select_defs dest: find_Some_mem)
qed

lemma screen_apply_update_Inr:
  assumes "screen_apply_update io now n r current db = Inr (out, db')"
    and "n = su_expected_revision r + 1"
  shows "db' = screen_updated_db now r current db
    \<and> screen_event_ok (screen_event_of now n r (sp_enabled current))
    \<and> screen_event_row_check (screen_event_of now n r (sp_enabled current))
    \<and> su_event_id r \<notin> sv_event_id ` set (screen_event_rows db)
    \<and> (\<exists>e p. out = ScreenApplied e p \<and> screen_select_event (su_event_id r) db' = Some e
          \<and> screen_select_policy (su_life_id r) db' = Some p \<and> screen_policy_ok p)"
proof -
  from assms obtain changed db1 where
    up: "screen_policy_update now n r (sp_enabled current) db = Some (changed, db1)"
    and ins: "screen_event_insert (screen_event_of now n r (sp_enabled current)) db1 = Inr db'"
    and ok: "screen_event_ok (screen_event_of now n r (sp_enabled current))"
    and out: "\<exists>e p. out = ScreenApplied e p \<and> screen_select_event (su_event_id r) db' = Some e
          \<and> screen_select_policy (su_life_id r) db' = Some p \<and> screen_policy_ok p"
    by (auto simp: screen_apply_update_def screen_load_policy_def screen_load_event_by_id_def
        try_bind_Inr_iff try_seq_Inr_iff Let_def validator_simps
        split: if_splits option.splits sum.splits)
  from up have "db1 = db\<lparr>screen_policy_rows :=
           map (\<lambda>p. if sp_life_id p = su_life_id r \<and> sp_revision p = su_expected_revision r
                       \<and> sp_enabled p = sp_enabled current
                    then screen_policy_after now (su_enabled r) n p else p) (screen_policy_rows db)\<rparr>"
    by (auto simp: screen_policy_update_def sql_update_def Let_def split: if_splits)
  with ins have "db' = screen_updated_db now r current db"
    by (auto simp: screen_event_insert_Inr screen_updated_db_def assms(2) Let_def)
  moreover have "screen_event_rows db1 = screen_event_rows db"
    using \<open>db1 = _\<close> by simp
  ultimately show ?thesis using ins ok out by (auto simp: screen_event_insert_Inr)
qed

text \<open>The two ways an update can succeed.\<close>

lemma screen_update_cases:
  assumes "screen_update_in_transaction io now r db = Inr (out, db')"
  obtains
    (replayed) e p where "out = ScreenReplayed e p" "db' = db"
  | (applied) e c where
      "out = ScreenApplied e (screen_policy_after now (su_enabled r) (su_expected_revision r + 1) c)"
      "db' = screen_updated_db now r c db"
      "screen_update_request_ok r" "screen_select_policy (su_life_id r) db = Some c"
      "sp_revision c = su_expected_revision r" "su_enabled r = (\<not> sp_enabled c)"
      "screen_policy_ok c" "su_event_id r \<notin> sv_event_id ` set (screen_event_rows db)"
      "screen_event_ok (screen_event_of now (su_expected_revision r + 1) r (sp_enabled c))"
      "screen_policy_ok (screen_policy_after now (su_enabled r) (su_expected_revision r + 1) c)"
proof -
  from assms have v: "screen_update_request_ok r"
    by (auto simp: screen_update_in_transaction_def try_seq_Inr_iff validator_simps split: if_splits)
  then have n: "screen_next_revision (su_expected_revision r) = Inr (su_expected_revision r + 1)"
    by (simp add: screen_next_revision_def checked_add_def checked_i64_def i64_bounds
        screen_update_request_ok_def)
  show ?thesis
  proof (cases "screen_select_event (su_event_id r) db")
    case (Some e)
    with assms v n show ?thesis
      by (auto simp: screen_update_in_transaction_def screen_load_event_by_id_def validator_simps
          try_bind_Inr_iff try_seq_Inr_iff split: if_splits intro: replayed)
  next
    case None
    with assms v n obtain c where
      c: "screen_select_policy (su_life_id r) db = Some c" "screen_policy_ok c"
        "sp_revision c = su_expected_revision r" "sp_enabled c \<noteq> su_enabled r"
      and ap: "screen_apply_update io now (su_expected_revision r + 1) r c db = Inr (out, db')"
      by (auto simp: screen_update_in_transaction_def screen_load_event_by_id_def validator_simps
          screen_load_policy_def try_bind_Inr_iff try_seq_Inr_iff split: if_splits)
    from screen_apply_update_Inr [OF ap refl] c show ?thesis
      by (auto simp: screen_select_updated v intro: applied)
  qed
qed

lemma screen_create_Inr:
  assumes "screen_create_in_transaction io now r db = Inr (out, db')"
  shows "(db' = db \<and> (\<exists>p. out = ScreenCreateReplayed p))
    \<or> (screen_policy_ok (screen_policy_created now (sc_life_id r) (sc_enabled r))
       \<and> screen_policy_insert (screen_policy_created now (sc_life_id r) (sc_enabled r)) db = Inr db'
       \<and> (\<exists>p. out = ScreenCreated p))"
proof -
  have "screen_select_policy (sp_life_id p) db' = Some p"
    if "screen_policy_insert p db = Inr db'" for p and db db' :: "'a screen_db_scheme"
    using that by (auto simp: screen_policy_insert_Inr screen_select_policy_def find_append
        image_iff split: option.splits dest!: find_Some_mem)
  from this [of "screen_policy_created now (sc_life_id r) (sc_enabled r)" db db'] assms
  show ?thesis
    by (auto simp: screen_create_in_transaction_def try_bind_Inr_iff try_seq_Inr_iff validator_simps
        split: if_splits option.splits sum.splits)
qed

section \<open>The consent ledger\<close>

text \<open>
  The abstract view of one life: its consent events in the order they were committed. Replaying them
  on the policy as it was created must give the row of the policy table: every event starts from the
  revision and setting the one before left, and flips the setting.
\<close>

fun consent_replay :: "screen_event list \<Rightarrow> screen_policy \<Rightarrow> screen_policy option" where
  "consent_replay [] p = Some p"
| "consent_replay (e # es) p =
     (if sv_life_id e = sp_life_id p \<and> sv_old_enabled e = sp_enabled p
         \<and> sv_new_enabled e = (\<not> sp_enabled p) \<and> sv_expected_revision e = sp_revision p
         \<and> sv_applied_revision e = sp_revision p + 1
      then consent_replay es (screen_policy_after (sv_occurred_at e) (sv_new_enabled e)
                                (sv_applied_revision e) p)
      else None)"

lemma consent_replay_append:
  "consent_replay (es @ fs) p = Option.bind (consent_replay es p) (consent_replay fs)"
  by (induction es arbitrary: p) simp_all

text \<open>What a replay shows: one revision per event, and the last event decides.\<close>

lemma consent_replay_result:
  "consent_replay es p = Some q \<Longrightarrow>
     sp_revision q = sp_revision p + int (length es)
     \<and> sp_enabled q = (if es = [] then sp_enabled p else sv_new_enabled (last es))
     \<and> sp_enabled q = (sp_enabled p = even (length es))"
proof (induction es arbitrary: p)
  case (Cons e es)
  let ?p = "screen_policy_after (sv_occurred_at e) (sv_new_enabled e) (sv_applied_revision e) p"
  from Cons.prems have e: "consent_replay es ?p = Some q" "sv_new_enabled e = (\<not> sp_enabled p)"
      "sv_applied_revision e = sp_revision p + 1"
    by (simp_all split: if_splits)
  from Cons.IH [OF e(1)] show ?case by (cases "es = []") (auto simp: e(2,3))
qed simp

definition consent_history :: "string \<Rightarrow> 'a screen_db_scheme \<Rightarrow> screen_event list" where
  "consent_history life db = filter (\<lambda>e. sv_life_id e = life) (screen_event_rows db)"

definition consent_projects :: "screen_event list \<Rightarrow> screen_policy \<Rightarrow> bool" where
  "consent_projects es p \<longleftrightarrow>
     (\<exists>now enabled. consent_replay es (screen_policy_created now (sp_life_id p) enabled) = Some p)"

definition screen_ledger_inv :: "'a screen_db_scheme \<Rightarrow> bool" where
  "screen_ledger_inv db \<longleftrightarrow>
     distinct (map sp_life_id (screen_policy_rows db))
     \<and> set (map sp_life_id (screen_policy_rows db)) \<subseteq> set (life_identity db)
     \<and> distinct (map sv_event_id (screen_event_rows db))
     \<and> (\<forall>e \<in> set (screen_event_rows db).
          sv_life_id e \<in> set (map sp_life_id (screen_policy_rows db)) \<and> screen_event_ok e)
     \<and> (\<forall>p \<in> set (screen_policy_rows db).
          screen_policy_ok p \<and> consent_projects (consent_history (sp_life_id p) db) p)"

lemma screen_select_policy_iff:
  "screen_ledger_inv db \<Longrightarrow>
   screen_select_policy life db = Some p \<longleftrightarrow> p \<in> set (screen_policy_rows db) \<and> sp_life_id p = life"
  using find_key_SomeI [of sp_life_id "screen_policy_rows db" p life]
  by (auto simp: screen_ledger_inv_def screen_select_policy_def dest: find_Some_mem)

lemma screen_select_projects:
  "screen_ledger_inv db \<Longrightarrow> screen_select_policy life db = Some p \<Longrightarrow>
   screen_policy_ok p \<and> sp_life_id p = life \<and> consent_projects (consent_history life db) p"
  by (auto simp: screen_select_policy_iff) (auto simp: screen_ledger_inv_def)

lemma screen_created_inv:
  assumes inv: "screen_ledger_inv db"
    and ok: "screen_policy_ok (screen_policy_created now life enabled)"
    and ins: "screen_policy_insert (screen_policy_created now life enabled) db = Inr db'"
  shows "screen_ledger_inv db'"
proof -
  let ?p = "screen_policy_created now life enabled"
  have new: "life \<notin> sp_life_id ` set (screen_policy_rows db)" "life \<in> set (life_identity db)"
    and db': "db' = db\<lparr>screen_policy_rows := screen_policy_rows db @ [?p]\<rparr>"
    using ins by (simp_all add: screen_policy_insert_Inr)
  have hist: "consent_history l db' = consent_history l db" for l
    by (simp add: consent_history_def db')
  have "consent_history life db = []"
    using inv new(1) by (auto simp: consent_history_def filter_empty_conv screen_ledger_inv_def)
  then have "consent_projects (consent_history life db) ?p"
    unfolding consent_projects_def by (intro exI [of _ now] exI [of _ enabled]) simp
  with inv ok new show ?thesis
    unfolding screen_ledger_inv_def hist by (auto simp: db')
qed

lemma screen_updated_inv:
  assumes inv: "screen_ledger_inv db"
    and sel: "screen_select_policy (su_life_id r) db = Some c"
      "sp_revision c = su_expected_revision r"
    and flip: "su_enabled r = (\<not> sp_enabled c)"
    and new: "su_event_id r \<notin> sv_event_id ` set (screen_event_rows db)"
    and e_ok: "screen_event_ok (screen_event_of now (su_expected_revision r + 1) r (sp_enabled c))"
    and p_ok: "screen_policy_ok (screen_policy_after now (su_enabled r) (su_expected_revision r + 1) c)"
  shows "screen_ledger_inv (screen_updated_db now r c db)"
proof -
  let ?db = "screen_updated_db now r c db"
  let ?e = "screen_event_of now (su_expected_revision r + 1) r (sp_enabled c)"
  let ?p = "screen_policy_after now (su_enabled r) (su_expected_revision r + 1) c"
  have c: "c \<in> set (screen_policy_rows db)" "sp_life_id c = su_life_id r"
    using sel(1) by (simp_all add: screen_select_policy_iff [OF inv])
  have hist: "consent_history life ?db =
      consent_history life db @ (if life = su_life_id r then [?e] else [])" for life
    by (simp add: consent_history_def screen_updated_db_rows)
  have dist: "distinct (map sp_life_id (screen_policy_rows ?db))"
    unfolding screen_updated_db_rows using inv by (simp add: screen_ledger_inv_def)
  have rows: "screen_policy_ok p \<and> consent_projects (consent_history (sp_life_id p) ?db) p"
    if p: "p \<in> set (screen_policy_rows ?db)" for p
  proof -
    have sel': "screen_select_policy (sp_life_id p) ?db = Some p"
      unfolding screen_select_policy_def using dist p by (intro find_key_SomeI) simp_all
    show ?thesis
    proof (cases "sp_life_id p = su_life_id r")
      case True
      with sel' have pe: "p = ?p" by (simp add: screen_select_updated [OF sel])
      from screen_select_projects [OF inv sel(1)] obtain t en where
        "consent_replay (consent_history (su_life_id r) db)
           (screen_policy_created t (su_life_id r) en) = Some c"
        by (auto simp: consent_projects_def)
      then have "consent_replay (consent_history (su_life_id r) ?db)
          (screen_policy_created t (su_life_id r) en) = Some p"
        using c(2) sel(2) flip by (simp add: hist consent_replay_append pe)
      then have "consent_projects (consent_history (su_life_id r) ?db) p"
        using True by (auto simp: consent_projects_def)
      with p_ok True pe show ?thesis by simp
    next
      case False
      with sel' have "screen_select_policy (sp_life_id p) db = Some p"
        by (simp add: screen_select_updated [OF sel])
      from screen_select_projects [OF inv this] False show ?thesis by (simp add: hist)
    qed
  qed
  have ev: "sv_life_id e \<in> set (map sp_life_id (screen_policy_rows db)) \<and> screen_event_ok e"
    if "e \<in> set (screen_event_rows ?db)" for e
    using that inv e_ok imageI [OF c(1), of sp_life_id] c(2)
    by (auto simp: screen_updated_db_rows screen_ledger_inv_def)
  have "distinct (map sv_event_id (screen_event_rows ?db))"
    unfolding screen_updated_db_rows using inv new by (simp add: screen_ledger_inv_def)
  with dist ev rows inv show ?thesis
    unfolding screen_ledger_inv_def by (simp only: screen_updated_db_rows) blast
qed

section \<open>The repository keeps the store contract\<close>

type_synonym screen_update_call = "screen_io \<times> string \<times> screen_update_request"

definition screen_step ::
    "'a screen_db_scheme \<Rightarrow> screen_update_call
     \<Rightarrow> (screen_error + screen_update_outcome) \<times> 'a screen_db_scheme" where
  "screen_step db c = (case c of (io, now, r) \<Rightarrow> screen_update_policy io now r db)"

definition screen_call_key :: "screen_update_call \<Rightarrow> string" where
  "screen_call_key c = su_life_id (snd (snd c))"

definition screen_call_expected :: "screen_update_call \<Rightarrow> int" where
  "screen_call_expected c = su_expected_revision (snd (snd c))"

definition screen_call_healthy :: "screen_update_call \<Rightarrow> bool" where
  "screen_call_healthy c \<longleftrightarrow> (\<forall>stmt. fst c stmt)"

definition screen_same_request :: "screen_update_call \<Rightarrow> screen_update_call \<Rightarrow> bool" where
  "screen_same_request c d \<longleftrightarrow> snd (snd c) = snd (snd d)"

definition screen_revision_of :: "'a screen_db_scheme \<Rightarrow> string \<Rightarrow> int option" where
  "screen_revision_of db life = map_option sp_revision (screen_select_policy life db)"

fun screen_fresh :: "screen_update_outcome \<Rightarrow> bool" where
  "screen_fresh (ScreenApplied _ _) = True"
| "screen_fresh (ScreenReplayed _ _) = False"

definition screen_recorded :: "'a screen_db_scheme \<Rightarrow> screen_update_call \<Rightarrow> bool" where
  "screen_recorded db c \<longleftrightarrow>
     (let r = snd (snd c) in
      screen_update_request_ok r
      \<and> (\<exists>e \<in> set (screen_event_rows db).
            screen_event_evidence_matches e r (su_expected_revision r + 1)))"

lemmas screen_call_defs =
  screen_call_key_def screen_call_expected_def screen_call_healthy_def screen_same_request_def

lemma screen_step_Inr:
  "screen_step db (io, now, r) = (Inr out, db') \<Longrightarrow>
   screen_update_in_transaction io now r db = Inr (out, db')"
  by (simp add: screen_step_def screen_update_policy_def with_transaction_Inr)

lemma screen_step_fresh:
  assumes inv: "screen_ledger_inv db" and st: "screen_step db c = (Inr out, db')"
    and fr: "screen_fresh out"
  shows "screen_revision_of db (screen_call_key c) = Some (screen_call_expected c)
    \<and> screen_revision_of db' =
        (screen_revision_of db)(screen_call_key c \<mapsto> screen_call_expected c + 1)
    \<and> screen_ledger_inv db' \<and> screen_recorded db' c
    \<and> set (screen_event_rows db) \<subseteq> set (screen_event_rows db')"
proof -
  obtain io now r where c: "c = (io, now, r)" by (cases c) auto
  from st have "screen_update_in_transaction io now r db = Inr (out, db')"
    unfolding c by (rule screen_step_Inr)
  then show ?thesis
  proof (cases rule: screen_update_cases)
    case (replayed e p)
    with fr show ?thesis by simp
  next
    case (applied e p)
    note sel = screen_select_updated [OF applied(4,5)]
    have "screen_revision_of db' =
        (screen_revision_of db)(su_life_id r \<mapsto> su_expected_revision r + 1)"
      unfolding applied(2) screen_revision_of_def by (rule ext) (simp add: sel)
    moreover have "screen_ledger_inv db'"
      unfolding applied(2) by (rule screen_updated_inv [OF inv applied(4,5,6,8,9,10)])
    moreover have "screen_recorded db' c"
      using applied by (simp add: screen_recorded_def c screen_updated_db_rows)
    ultimately show ?thesis
      using applied by (auto simp: c screen_call_defs screen_revision_of_def screen_updated_db_rows)
  qed
qed

lemma screen_step_replayed:
  assumes "screen_step db c = (Inr out, db')" and "\<not> screen_fresh out"
  shows "db' = db"
proof -
  obtain io now r where c: "c = (io, now, r)" by (cases c) auto
  from assms(1) have "screen_update_in_transaction io now r db = Inr (out, db')"
    unfolding c by (rule screen_step_Inr)
  then show ?thesis using assms(2) by (cases rule: screen_update_cases) simp_all
qed

lemma screen_recorded_replays:
  assumes inv: "screen_ledger_inv db" and rec: "screen_recorded db c"
    and ok: "screen_call_healthy c"
  shows "\<exists>out. screen_step db c = (Inr out, db) \<and> \<not> screen_fresh out"
proof -
  obtain io now r where c: "c = (io, now, r)" by (cases c) auto
  have io: "io stmt" for stmt using ok by (simp add: c screen_call_defs)
  from rec obtain e where v: "screen_update_request_ok r"
    and e: "e \<in> set (screen_event_rows db)"
      "screen_event_evidence_matches e r (su_expected_revision r + 1)"
    by (auto simp: screen_recorded_def c)
  then have ids: "sv_event_id e = su_event_id r" "sv_life_id e = su_life_id r"
    by (simp_all add: screen_event_evidence_matches_def)
  have e_inv: "sv_life_id e \<in> sp_life_id ` set (screen_policy_rows db)" "screen_event_ok e"
    using inv e(1) by (auto simp: screen_ledger_inv_def)
  then obtain p where "p \<in> set (screen_policy_rows db)" "sp_life_id p = su_life_id r"
    by (auto simp: image_iff ids)
  then have p: "screen_select_policy (su_life_id r) db = Some p"
    by (simp add: screen_select_policy_iff [OF inv])
  then have p_ok: "screen_policy_ok p" using screen_select_projects [OF inv] by blast
  have "screen_select_event (su_event_id r) db = Some e"
    unfolding screen_select_defs using inv e ids
    by (intro find_key_SomeI) (simp_all add: screen_ledger_inv_def)
  moreover have "screen_next_revision (su_expected_revision r) = Inr (su_expected_revision r + 1)"
    using v by (simp add: screen_next_revision_def checked_add_def checked_i64_def i64_bounds
        screen_update_request_ok_def)
  ultimately have "screen_step db c = (Inr (ScreenReplayed e p), db)"
    using v p e(2) e_inv(2) p_ok
    by (simp add: c screen_step_def screen_update_policy_def with_transaction_def io
        screen_update_in_transaction_def screen_load_event_by_id_def screen_load_policy_def
        validator_simps)
  then show ?thesis by auto
qed

interpretation screen_store: evidence_store
  screen_step screen_revision_of screen_call_key screen_call_expected screen_fresh
  screen_ledger_inv screen_recorded screen_call_healthy screen_same_request
proof (unfold_locales, goal_cases)
  case (1 db t e db')
  then show ?case
    by (auto simp: screen_step_def screen_update_policy_def split: prod.splits
        dest: with_transaction_Inl)
next
  case (2 db t out db')
  then show ?case by (rule screen_step_replayed)
next
  case (3 db t out db')
  then show ?case by (simp add: screen_step_fresh)
next
  case (4 db t out db')
  then show ?case by (simp add: screen_step_fresh)
next
  case (5 db t out db')
  then show ?case by (simp add: screen_step_fresh)
next
  case (6 db t out db')
  then show ?case by (simp add: screen_step_fresh)
next
  case (7 db t out db' u)
  then have "set (screen_event_rows db) \<subseteq> set (screen_event_rows db')"
    by (simp add: screen_step_fresh)
  with 7(4) show ?case by (auto simp: screen_recorded_def Let_def)
next
  case (8 db t u)
  then show ?case by (simp add: screen_recorded_def screen_same_request_def)
next
  case (9 db t)
  then show ?case by (rule screen_recorded_replays)
qed

section \<open>Calls of both kinds\<close>

datatype screen_op =
    CreatePolicy screen_io string screen_create_request
  | UpdatePolicy screen_io string screen_update_request

fun screen_op_step ::
    "'a screen_db_scheme \<Rightarrow> screen_op
     \<Rightarrow> (screen_error + screen_create_outcome + screen_update_outcome) \<times> 'a screen_db_scheme" where
  "screen_op_step db (CreatePolicy io now r) =
     (case screen_create_policy io now r db of (res, db') \<Rightarrow> (map_sum id Inl res, db'))"
| "screen_op_step db (UpdatePolicy io now r) =
     (case screen_update_policy io now r db of (res, db') \<Rightarrow> (map_sum id Inr res, db'))"

lemma screen_create_policy_cases:
  assumes "screen_create_policy io now r db = (res, db')"
  shows "db' = db
    \<or> (screen_policy_ok (screen_policy_created now (sc_life_id r) (sc_enabled r))
       \<and> screen_policy_insert (screen_policy_created now (sc_life_id r) (sc_enabled r)) db = Inr db')"
proof (cases res)
  case (Inl e)
  with assms show ?thesis by (auto simp: screen_create_policy_def dest: with_transaction_Inl)
next
  case (Inr out)
  with assms have "screen_create_in_transaction io now r db = Inr (out, db')"
    by (simp add: screen_create_policy_def with_transaction_Inr)
  from screen_create_Inr [OF this] show ?thesis by blast
qed

lemma screen_op_step_inv:
  assumes "screen_ledger_inv db"
  shows "screen_ledger_inv (snd (screen_op_step db op))"
proof (cases op)
  case (CreatePolicy io now r)
  obtain res db' where c: "screen_create_policy io now r db = (res, db')" by fastforce
  with screen_create_policy_cases [OF c] screen_created_inv [OF assms] assms CreatePolicy
  show ?thesis by auto
next
  case (UpdatePolicy io now r)
  have "screen_ledger_inv (snd (screen_step db (io, now, r)))"
    using assms by (rule screen_store.step_inv)
  with UpdatePolicy show ?thesis by (auto simp: screen_step_def split: prod.splits)
qed

lemma screen_ops_inv:
  "screen_ledger_inv db \<Longrightarrow> screen_ledger_inv (snd (run_all screen_op_step db ops))"
  by (induction ops arbitrary: db) (simp_all add: run_all_Cons screen_op_step_inv del: run_all.simps(2))

definition screen_db_new :: "string list \<Rightarrow> screen_db" where
  "screen_db_new lives =
     \<lparr>life_identity = lives, screen_policy_rows = [], screen_event_rows = []\<rparr>"

lemma screen_db_new_inv: "screen_ledger_inv (screen_db_new lives)"
  by (simp add: screen_db_new_def screen_ledger_inv_def)

definition screen_healthy :: screen_io where
  "screen_healthy stmt \<longleftrightarrow> True"

lemma screen_find_policy_inv:
  assumes "screen_ledger_inv db" and "\<not> str_blank life" and "io ScrLock" "io ScrSelectPolicy"
  shows "screen_find_policy io db life = Inr (screen_select_policy life db)"
  using assms screen_select_projects [OF assms(1), of life]
  by (auto simp: screen_find_policy_def screen_validate_lookup_argument_def screen_load_policy_def
      validator_simps split: option.splits)

text \<open>
  In every database the repository reaches by creates and updates of any number of lives, with
  statements failing at any point, the policy of a life is the replay of its consent events on the
  policy as created: each event starts at the revision and the setting the one before left and flips
  the setting. So the revision counts the events, and an authorization needs the last of them (or
  the creation, when there is none) to say enabled.
\<close>

theorem screen_consent_projects:
  assumes "db = snd (run_all screen_op_step (screen_db_new lives) ops)"
    and "screen_select_policy life db = Some p"
  shows "\<exists>now enabled.
      consent_replay (consent_history life db) (screen_policy_created now life enabled) = Some p
      \<and> sp_revision p = 1 + int (length (consent_history life db))
      \<and> (authorize_screen_perception (screen_find_policy io db) gate life = Inr () \<longrightarrow>
           (if consent_history life db = [] then enabled
            else sv_new_enabled (last (consent_history life db))))"
proof -
  have inv: "screen_ledger_inv db"
    unfolding assms(1) by (rule screen_ops_inv [OF screen_db_new_inv])
  from screen_select_projects [OF inv assms(2)] obtain now enabled where
    rep: "consent_replay (consent_history life db) (screen_policy_created now life enabled) = Some p"
    by (auto simp: consent_projects_def)
  have "sp_enabled p"
    if au: "authorize_screen_perception (screen_find_policy io db) gate life = Inr ()"
  proof -
    from au obtain q where "screen_find_policy io db life = Inr (Some q)" "sp_enabled q"
      by (auto simp: authorize_screen_perception_def try_bind_Inr_iff try_seq_Inr_iff
          split: if_splits)
    then show ?thesis
      using assms(2) by (auto simp: screen_find_policy_def screen_load_policy_def
          try_bind_Inr_iff try_seq_Inr_iff split: if_splits option.splits)
  qed
  with rep consent_replay_result [OF rep] show ?thesis by (auto split: if_splits)
qed

text \<open>
  A consent change is committed once. After an applied update of a life, whatever other updates
  ran, the same request is answered by a replay that changes nothing, and no update of that life
  that builds on the same or an older revision is applied.
\<close>

theorem screen_update_once:
  assumes "screen_ledger_inv db"
    and "screen_update_policy io now r db = (Inr (ScreenApplied e p), db1)"
    and "db2 = snd (run_all screen_step db1 calls)"
  shows "(\<exists>e' p'. screen_update_policy screen_healthy now' r db2 = (Inr (ScreenReplayed e' p'), db2))
    \<and> (su_life_id u = su_life_id r \<and> su_expected_revision u \<le> su_expected_revision r \<longrightarrow>
        (\<forall>e' p'. fst (screen_update_policy io' now' u db2) \<noteq> Inr (ScreenApplied e' p'))
        \<and> snd (screen_update_policy io' now' u db2) = db2)"
proof (intro conjI impI)
  have st: "screen_step db (io, now, r) = (Inr (ScreenApplied e p), db1)"
    using assms(2) by (simp add: screen_step_def)
  have "\<exists>out'. screen_step db2 (screen_healthy, now', r) = (Inr out', db2) \<and> \<not> screen_fresh out'"
    unfolding assms(3) using assms(1) st
    by (rule screen_store.exactly_once) (simp_all add: screen_call_defs screen_healthy_def)
  then obtain out' where out': "screen_step db2 (screen_healthy, now', r) = (Inr out', db2)"
      "\<not> screen_fresh out'" by blast
  then show "\<exists>e' p'. screen_update_policy screen_healthy now' r db2
      = (Inr (ScreenReplayed e' p'), db2)"
    by (cases out') (auto simp: screen_step_def)
  assume older: "su_life_id u = su_life_id r \<and> su_expected_revision u \<le> su_expected_revision r"
  have "screen_store.is_fresh (fst (screen_step db (io, now, r)))"
    by (simp add: st screen_store.is_fresh_def)
  from screen_store.no_lost_update [OF assms(1) this, of "(io', now', u)" calls] older
  have stale: "\<not> screen_store.is_fresh (fst (screen_step db2 (io', now', u)))"
    by (simp add: st assms(3) screen_call_defs)
  then show "\<forall>e' p'. fst (screen_update_policy io' now' u db2) \<noteq> Inr (ScreenApplied e' p')"
    by (auto simp: screen_step_def screen_store.is_fresh_def)
  show "snd (screen_update_policy io' now' u db2) = db2"
    using screen_store.step_frame [OF stale] by (simp add: screen_step_def)
qed

text \<open>A life that created its policy disabled, and the request that enables it.\<close>

definition screen_sample_db :: screen_db where
  "screen_sample_db =
     (screen_db_new [''life-a''])\<lparr>screen_policy_rows :=
        [screen_policy_created ''t0'' ''life-a'' False]\<rparr>"

definition screen_sample_enable :: screen_update_request where
  "screen_sample_enable =
     \<lparr>su_event_id = ''ev-1'', su_life_id = ''life-a'', su_enabled = True,
      su_expected_revision = 1\<rparr>"

definition screen_sample_enabled_db :: screen_db where
  "screen_sample_enabled_db =
     screen_updated_db ''t1'' screen_sample_enable
       (screen_policy_created ''t0'' ''life-a'' False) screen_sample_db"

lemma screen_sample_ids:
  "\<not> str_blank ''life-a''" "\<not> str_blank ''t0''" "\<not> str_blank ''t1''" "\<not> str_blank ''t2''"
  "screen_id_ok ''ev-1''" "screen_id_ok ''ev-2''"
  "sql_length (sql_trim ''life-a'') = 6" "sql_length (sql_trim ''ev-1'') = 4"
  "sql_length (sql_trim ''ev-2'') = 4" "sql_length (sql_trim ''t0'') = 2"
  "sql_length (sql_trim ''t1'') = 2" "sql_length (sql_trim ''t2'') = 2"
  by code_simp+

lemmas screen_sample_defs =
  screen_sample_db_def screen_sample_enable_def screen_sample_enabled_db_def screen_db_new_def
  screen_policy_created_def screen_constants

lemma screen_sample_create:
  "screen_create_policy screen_healthy ''t0'' \<lparr>sc_life_id = ''life-a'', sc_enabled = False\<rparr>
     (screen_db_new [''life-a''])
   = (Inr (ScreenCreated (screen_policy_created ''t0'' ''life-a'' False)), screen_sample_db)"
  by (simp add: screen_create_policy_def with_transaction_def screen_create_in_transaction_def
      screen_healthy_def screen_validate_create_request_def screen_validate_life_id_def
      screen_load_policy_def screen_select_policy_def screen_require_life_def
      screen_policy_insert_def screen_policy_row_check_def screen_sample_ids validator_simps
      screen_policy_ok_def screen_sample_defs)

lemma screen_sample_update:
  "\<exists>e p. screen_update_policy screen_healthy ''t1'' screen_sample_enable screen_sample_db
     = (Inr (ScreenApplied e p), screen_sample_enabled_db)"
  by (simp add: screen_update_policy_def with_transaction_def screen_update_in_transaction_def
      screen_healthy_def validator_simps screen_update_request_ok_def screen_sample_ids i64_bounds
      screen_next_revision_def checked_add_def checked_i64_def screen_load_event_by_id_def
      screen_select_event_def screen_load_policy_def screen_select_policy_def screen_policy_ok_def
      screen_apply_update_def screen_policy_update_def screen_policy_row_check_def sql_update_def
      screen_event_ok_def screen_event_of_def screen_event_insert_def screen_event_row_check_def
      screen_policy_after_def screen_updated_db_def screen_sample_defs Let_def)

lemma screen_update_once_witness:
  "\<exists>db1. (\<exists>e p. screen_update_policy screen_healthy ''t1'' screen_sample_enable screen_sample_db
        = (Inr (ScreenApplied e p), db1))
     \<and> (\<exists>e' p'. screen_update_policy screen_healthy ''t2'' screen_sample_enable db1
        = (Inr (ScreenReplayed e' p'), db1))
     \<and> snd (screen_update_policy screen_healthy ''t2''
          (screen_sample_enable\<lparr>su_event_id := ''ev-2''\<rparr>) db1) = db1"
proof -
  have inv: "screen_ledger_inv screen_sample_db"
    using screen_op_step_inv [OF screen_db_new_inv, of "[''life-a'']" "CreatePolicy screen_healthy
      ''t0'' \<lparr>sc_life_id = ''life-a'', sc_enabled = False\<rparr>"]
    by (simp add: screen_sample_create)
  obtain e p where up: "screen_update_policy screen_healthy ''t1'' screen_sample_enable
      screen_sample_db = (Inr (ScreenApplied e p), screen_sample_enabled_db)"
    using screen_sample_update by blast
  from screen_update_once [OF inv up, of _ "[]" "''t2''"
      "screen_sample_enable\<lparr>su_event_id := ''ev-2''\<rparr>" screen_healthy] up
  show ?thesis by auto
qed

lemma screen_consent_projects_witness:
  "\<exists>p. screen_select_policy ''life-a'' screen_sample_enabled_db = Some p \<and> sp_revision p = 2
     \<and> (\<exists>now enabled. consent_replay (consent_history ''life-a'' screen_sample_enabled_db)
          (screen_policy_created now ''life-a'' enabled) = Some p)"
proof -
  let ?ops = "[CreatePolicy screen_healthy ''t0'' \<lparr>sc_life_id = ''life-a'', sc_enabled = False\<rparr>,
    UpdatePolicy screen_healthy ''t1'' screen_sample_enable]"
  have run: "screen_sample_enabled_db = snd (run_all screen_op_step (screen_db_new [''life-a'']) ?ops)"
    using screen_sample_update by (auto simp: run_all_Cons screen_sample_create simp del: run_all.simps(2))
  have "\<exists>p. screen_select_policy ''life-a'' screen_sample_enabled_db = Some p"
    by (simp add: screen_select_policy_def screen_updated_db_def screen_sample_defs)
  then obtain p where p: "screen_select_policy ''life-a'' screen_sample_enabled_db = Some p" ..
  have "length (consent_history ''life-a'' screen_sample_enabled_db) = 1"
    by (simp add: consent_history_def screen_updated_db_def screen_event_of_def screen_sample_defs)
  with screen_consent_projects [OF run p] p show ?thesis by force
qed

section \<open>Revocation\<close>

text \<open>\<open>enables life op res\<close>: the call is an update that was applied and gives \<open>life\<close> its consent.\<close>

fun enables ::
    "string \<Rightarrow> screen_op \<times> (screen_error + screen_create_outcome + screen_update_outcome) \<Rightarrow> bool" where
  "enables life (UpdatePolicy io now r, Inr (Inr (ScreenApplied e p))) \<longleftrightarrow>
     su_life_id r = life \<and> su_enabled r"
| "enables life _ \<longleftrightarrow> False"

definition consent_off :: "string \<Rightarrow> 'a screen_db_scheme \<Rightarrow> bool" where
  "consent_off life db \<longleftrightarrow>
     (\<exists>p. screen_select_policy life db = Some p \<and> \<not> sp_enabled p)"

lemma consent_off_step:
  assumes off: "consent_off life db"
    and no: "\<not> enables life (op, fst (screen_op_step db op))"
  shows "consent_off life (snd (screen_op_step db op))"
proof (cases op)
  case (CreatePolicy io now r)
  obtain res db' where c: "screen_create_policy io now r db = (res, db')" by fastforce
  from screen_create_policy_cases [OF c] off have "consent_off life db'"
    by (auto simp: screen_policy_insert_Inr consent_off_def screen_select_policy_def)
  with CreatePolicy c show ?thesis by simp
next
  case (UpdatePolicy io now r)
  obtain res db' where u: "screen_update_policy io now r db = (res, db')" by fastforce
  show ?thesis
  proof (cases res)
    case (Inl e)
    with u have "db' = db" by (auto simp: screen_update_policy_def dest: with_transaction_Inl)
    with off u UpdatePolicy show ?thesis by simp
  next
    case (Inr out)
    with u have "screen_update_in_transaction io now r db = Inr (out, db')"
      by (simp add: screen_update_policy_def with_transaction_Inr)
    then show ?thesis
    proof (cases rule: screen_update_cases)
      case replayed
      with off u UpdatePolicy show ?thesis by simp
    next
      case (applied e c)
      from no applied(1) have "\<not> (su_life_id r = life \<and> su_enabled r)"
        by (simp add: UpdatePolicy u Inr)
      with off have "consent_off life db'"
        unfolding applied(2) consent_off_def
        by (auto simp: screen_select_updated [OF applied(4,5)])
      with u UpdatePolicy show ?thesis by simp
    qed
  qed
qed

lemma consent_off_run:
  "consent_off life db \<Longrightarrow>
   (\<forall>x \<in> set (zip ops (fst (run_all screen_op_step db ops))). \<not> enables life x) \<Longrightarrow>
   consent_off life (snd (run_all screen_op_step db ops))"
proof (induction ops arbitrary: db)
  case (Cons op ops)
  then have "consent_off life (snd (screen_op_step db op))"
    by (intro consent_off_step) (simp_all add: run_all_Cons del: run_all.simps(2))
  with Cons show ?case by (simp add: run_all_Cons del: run_all.simps(2))
qed simp

text \<open>
  C40: revocation is durable. Once an update that disables the consent of a life was applied, every
  authorization for that life is denied, whatever the session gate says and whatever creates and
  updates of any life follow, until an update that enables it is applied: with \<open>PolicyDisabled\<close> when
  the policy can be read, and with the database error when the lock or the read fails.
\<close>

theorem screen_revocation_durable:
  assumes "screen_ledger_inv db"
    and "screen_update_policy io now r db = (Inr (ScreenApplied e p), db1)"
    and "\<not> su_enabled r"
    and "\<forall>x \<in> set (zip ops (fst (run_all screen_op_step db1 ops))). \<not> enables (su_life_id r) x"
  shows "authorize_screen_perception
      (screen_find_policy io' (snd (run_all screen_op_step db1 ops))) gate (su_life_id r)
    = Inl (if io' ScrLock \<and> io' ScrSelectPolicy then screen_policy_disabled else screen_database)"
proof -
  have up: "screen_update_in_transaction io now r db = Inr (ScreenApplied e p, db1)"
    using assms(2) by (simp add: screen_update_policy_def with_transaction_Inr)
  then have "consent_off (su_life_id r) db1 \<and> \<not> str_blank (su_life_id r)"
    by (cases rule: screen_update_cases)
      (use assms(3) in \<open>auto simp: consent_off_def screen_select_updated screen_update_request_ok_def\<close>)
  then have nb: "\<not> str_blank (su_life_id r)"
    and off: "consent_off (su_life_id r) (snd (run_all screen_op_step db1 ops))"
    using assms(4) consent_off_run by blast+
  have "screen_ledger_inv db1"
    using screen_op_step_inv [OF assms(1), of "UpdatePolicy io now r"] assms(2) by simp
  then have "screen_ledger_inv (snd (run_all screen_op_step db1 ops))" by (rule screen_ops_inv)
  note found = screen_find_policy_inv [OF this nb, of io']
  show ?thesis
  proof (cases "io' ScrLock \<and> io' ScrSelectPolicy")
    case True
    with found off nb show ?thesis
      by (auto simp: consent_off_def authorize_screen_perception_def screen_validate_life_id_def)
  next
    case False
    with nb show ?thesis
      by (auto simp: authorize_screen_perception_def screen_validate_life_id_def
          screen_find_policy_def screen_validate_lookup_argument_def screen_load_policy_def)
  qed
qed

definition screen_sample_disable :: screen_update_request where
  "screen_sample_disable =
     \<lparr>su_event_id = ''ev-2'', su_life_id = ''life-a'', su_enabled = False,
      su_expected_revision = 2\<rparr>"

lemma screen_sample_revoke:
  "\<exists>e p db1. screen_update_policy screen_healthy ''t2'' screen_sample_disable screen_sample_enabled_db
     = (Inr (ScreenApplied e p), db1)"
  by (simp add: screen_update_policy_def with_transaction_def screen_update_in_transaction_def
      screen_healthy_def validator_simps screen_update_request_ok_def screen_sample_ids i64_bounds
      screen_next_revision_def checked_add_def checked_i64_def screen_load_event_by_id_def
      screen_select_event_def screen_load_policy_def screen_select_policy_def screen_policy_ok_def
      screen_apply_update_def screen_policy_update_def screen_policy_row_check_def sql_update_def
      screen_event_ok_def screen_event_of_def screen_event_insert_def screen_event_row_check_def
      screen_policy_after_def screen_updated_db_def screen_sample_defs screen_sample_disable_def
      Let_def)

text \<open>The armed session does not help, nor does the create that is sent again.\<close>

lemma screen_revocation_durable_witness:
  "\<exists>e p db1. screen_update_policy screen_healthy ''t2'' screen_sample_disable screen_sample_enabled_db
       = (Inr (ScreenApplied e p), db1)
     \<and> authorize_screen_perception
         (screen_find_policy screen_healthy (snd (run_all screen_op_step db1
           [CreatePolicy screen_healthy ''t3'' \<lparr>sc_life_id = ''life-a'', sc_enabled = True\<rparr>])))
         \<lparr>sg_state = ArmedForLife 1 ''life-a'', sg_generation = 1\<rparr> ''life-a''
       = Inl screen_policy_disabled
     \<and> authorize_screen_perception
         (screen_find_policy (\<lambda>stmt. stmt \<noteq> ScrSelectPolicy) (snd (run_all screen_op_step db1
           [CreatePolicy screen_healthy ''t3'' \<lparr>sc_life_id = ''life-a'', sc_enabled = True\<rparr>])))
         \<lparr>sg_state = ArmedForLife 1 ''life-a'', sg_generation = 1\<rparr> ''life-a''
       = Inl screen_database"
proof -
  let ?c = "CreatePolicy screen_healthy ''t0'' \<lparr>sc_life_id = ''life-a'', sc_enabled = False\<rparr>"
  let ?u = "UpdatePolicy screen_healthy ''t1'' screen_sample_enable"
  let ?ops = "[CreatePolicy screen_healthy ''t3'' \<lparr>sc_life_id = ''life-a'', sc_enabled = True\<rparr>]"
  have inv: "screen_ledger_inv screen_sample_enabled_db"
    using screen_ops_inv [OF screen_db_new_inv, of "[''life-a'']" "[?c, ?u]"] screen_sample_update
    by (auto simp: run_all_Cons screen_sample_create simp del: run_all.simps(2))
  obtain e p db1 where up: "screen_update_policy screen_healthy ''t2'' screen_sample_disable
      screen_sample_enabled_db = (Inr (ScreenApplied e p), db1)"
    using screen_sample_revoke by blast
  have "\<forall>x \<in> set (zip ?ops (fst (run_all screen_op_step db1 ?ops))).
      \<not> enables (su_life_id screen_sample_disable) x"
    by (simp add: run_all_Cons del: run_all.simps(2))
  note denied = screen_revocation_durable [OF inv up _ this]
  show ?thesis
    using up denied [of screen_healthy] denied [of "\<lambda>stmt. stmt \<noteq> ScrSelectPolicy"]
    by (simp add: screen_sample_disable_def screen_healthy_def)
qed

section \<open>Where the two trims disagree\<close>

text \<open>
  The validators measure an event identity after Rust's \<open>trim\<close>, the table after SQL's, which
  keeps tabs and newlines. A consent change whose identity is short for the first and longer than 128
  for the second passes every check of the code, and is then refused by the table on every attempt
  with the recoverable \<open>DatabaseUnavailable\<close>; the consent stays as it was.
\<close>

theorem screen_padded_event_id_refused:
  assumes "screen_ledger_inv db" and "screen_update_request_ok r"
    and "screen_select_policy (su_life_id r) db = Some c"
    and "sp_revision c = su_expected_revision r" and "sp_enabled c \<noteq> su_enabled r"
    and "su_event_id r \<notin> sv_event_id ` set (screen_event_rows db)"
    and "sql_length (sql_trim (su_event_id r)) > 128" and "\<not> str_blank now"
  shows "screen_update_policy screen_healthy now r db = (Inl screen_database, db)"
proof -
  have n: "screen_next_revision (su_expected_revision r) = Inr (su_expected_revision r + 1)"
    using assms(2) by (simp add: screen_next_revision_def checked_add_def checked_i64_def
        i64_bounds screen_update_request_ok_def)
  have none: "screen_select_event (su_event_id r) db = None"
    using assms(6) by (auto simp: screen_select_event_def find_None_all image_iff)
  have c_ok: "screen_policy_ok c" using screen_select_projects [OF assms(1,3)] by blast
  let ?n = "su_expected_revision r + 1"
  let ?e = "screen_event_of now ?n r (sp_enabled c)"
  have e_ok: "screen_event_ok ?e"
    using assms(2,8) by (simp add: screen_event_ok_def screen_update_request_ok_def
        screen_event_of_def screen_constants)
  have refused: "screen_event_insert ?e db1 = Inl SqlCheckFailed" for db1 :: "'a screen_db_scheme"
    using assms(7) by (simp add: screen_event_insert_def screen_event_row_check_def Let_def)
  have one: "length (filter (\<lambda>p. sp_life_id p = su_life_id r
      \<and> sp_revision p = su_expected_revision r \<and> sp_enabled p = sp_enabled c)
      (screen_policy_rows db)) = 1"
    using count_key_guard [of sp_life_id "screen_policy_rows db" "su_life_id r" c
        "\<lambda>p. sp_revision p = su_expected_revision r \<and> sp_enabled p = sp_enabled c"] assms(1,3,4)
    by (simp add: screen_ledger_inv_def screen_select_policy_def)
  have "screen_apply_update screen_healthy now ?n r c db = Inl screen_database"
    by (auto simp: screen_apply_update_def screen_healthy_def screen_policy_update_def
        sql_update_def Let_def one [simplified] refused e_ok validator_simps split: option.splits)
  then show ?thesis
    using assms(2-5) n none c_ok
    by (simp add: screen_update_policy_def with_transaction_def screen_update_in_transaction_def
        screen_load_event_by_id_def screen_load_policy_def validator_simps screen_healthy_def)
qed

definition screen_sample_padded :: screen_update_request where
  "screen_sample_padded = screen_sample_enable\<lparr>su_event_id := ''ev-1'' @ replicate 128 (CHR 0x09)\<rparr>"

lemma screen_sample_padded_id:
  "screen_id_ok (''ev-1'' @ replicate 128 (CHR 0x09))"
  "sql_length (sql_trim (''ev-1'' @ replicate 128 (CHR 0x09))) > 128"
  by code_simp+

lemma screen_padded_event_id_refused_witness:
  "screen_validate_update_request screen_sample_padded = Inr ()
   \<and> screen_update_policy screen_healthy ''t1'' screen_sample_padded screen_sample_db
     = (Inl screen_database, screen_sample_db)"
proof -
  have inv: "screen_ledger_inv screen_sample_db"
    using screen_op_step_inv [OF screen_db_new_inv, of "[''life-a'']" "CreatePolicy screen_healthy
      ''t0'' \<lparr>sc_life_id = ''life-a'', sc_enabled = False\<rparr>"]
    by (simp add: screen_sample_create)
  have ok: "screen_update_request_ok screen_sample_padded"
    using screen_sample_padded_id(1)
    by (simp add: screen_update_request_ok_def screen_sample_padded_def screen_sample_enable_def
        screen_sample_ids i64_bounds)
  have "screen_select_policy (su_life_id screen_sample_padded) screen_sample_db
      = Some (screen_policy_created ''t0'' ''life-a'' False)"
    by (simp add: screen_select_policy_def screen_sample_padded_def screen_sample_defs)
  from screen_padded_event_id_refused [OF inv ok this, of "''t1''"] ok screen_sample_padded_id(2)
  show ?thesis
    by (simp add: validator_simps screen_sample_padded_def screen_sample_enable_def
        screen_sample_db_def screen_db_new_def screen_sample_ids)
qed

end
