(* ===== verification/Autonomy_Domain.thy ===== *)
theory Autonomy_Domain
  imports Rust_Prelude "HOL-Library.List_Lexorder" "HOL-Library.Char_ord"
begin

text \<open>
  The autonomy authority domain, \<open>src-tauri/src/autonomy/mod.rs\<close>: the opt-in policy of a life, the
  proactive intents with their evidence, the events of both, the validators, and the initiative
  policy that decides whether an intent may interrupt the user. Error messages are left out.
  Timestamps are strings; their order is the byte order of \<open>&str\<close> (\<open>List_Lexorder\<close>, \<open>Char_ord\<close>).
\<close>

section \<open>Constants\<close>

definition AUTONOMY_POLICY_VERSION :: int where "AUTONOMY_POLICY_VERSION = 1"
definition AUTONOMY_POLICY_EVENT_VERSION :: int where "AUTONOMY_POLICY_EVENT_VERSION = 1"
definition INTENT_VERSION :: int where "INTENT_VERSION = 1"
definition INTENT_EVENT_VERSION :: int where "INTENT_EVENT_VERSION = 1"
definition INITIATIVE_POLICY_VERSION :: int where "INITIATIVE_POLICY_VERSION = 1"

definition POLICY_ACTOR_KIND_USER_EXPLICIT :: string where
  "POLICY_ACTOR_KIND_USER_EXPLICIT = ''user_explicit''"
definition INTENT_CREATED_BY_KIND_AUTONOMY_POLICY :: string where
  "INTENT_CREATED_BY_KIND_AUTONOMY_POLICY = ''autonomy_policy''"
definition INTENT_EVENT_ACTOR_KIND_AUTONOMY_POLICY :: string where
  "INTENT_EVENT_ACTOR_KIND_AUTONOMY_POLICY = ''autonomy_policy''"
definition INTENT_KIND_GOAL_CHECK_IN :: string where
  "INTENT_KIND_GOAL_CHECK_IN = ''goal_check_in''"

definition INTENT_FOCUS_STATE_UNKNOWN :: string where "INTENT_FOCUS_STATE_UNKNOWN = ''unknown''"
definition INTENT_FOCUS_STATE_AVAILABLE :: string where
  "INTENT_FOCUS_STATE_AVAILABLE = ''available''"
definition INTENT_FOCUS_STATE_FOCUSED :: string where "INTENT_FOCUS_STATE_FOCUSED = ''focused''"
definition INTENT_FOCUS_STATE_DND :: string where "INTENT_FOCUS_STATE_DND = ''dnd''"

definition INTENT_STATUS_PENDING :: string where "INTENT_STATUS_PENDING = ''pending''"
definition INTENT_STATUS_READY :: string where "INTENT_STATUS_READY = ''ready''"
definition INTENT_STATUS_DEFERRED :: string where "INTENT_STATUS_DEFERRED = ''deferred''"
definition INTENT_STATUS_STORED_SILENTLY :: string where
  "INTENT_STATUS_STORED_SILENTLY = ''stored_silently''"
definition INTENT_STATUS_CANCELLED :: string where "INTENT_STATUS_CANCELLED = ''cancelled''"
definition INTENT_STATUS_EXPIRED :: string where "INTENT_STATUS_EXPIRED = ''expired''"
definition INTENT_STATUS_CONSUMED :: string where "INTENT_STATUS_CONSUMED = ''consumed''"

definition AUTONOMY_MAX_ID_LENGTH :: nat where "AUTONOMY_MAX_ID_LENGTH = 128"
definition SIGNAL_MIN :: int where "SIGNAL_MIN = 0"
definition SIGNAL_MAX :: int where "SIGNAL_MAX = 1000"
definition MAX_READY_PER_WINDOW_MIN :: int where "MAX_READY_PER_WINDOW_MIN = 0"
definition MAX_READY_PER_WINDOW_MAX :: int where "MAX_READY_PER_WINDOW_MAX = 32"
definition WINDOW_SECONDS_MIN :: int where "WINDOW_SECONDS_MIN = 60"
definition WINDOW_SECONDS_MAX :: int where "WINDOW_SECONDS_MAX = 86400"
definition MIN_GAP_SECONDS_MIN :: int where "MIN_GAP_SECONDS_MIN = 0"
definition MIN_GAP_SECONDS_MAX :: int where "MIN_GAP_SECONDS_MAX = 86400"
definition MIN_RECHECK_SECONDS :: int where "MIN_RECHECK_SECONDS = 60"
definition RECENT_INTERACTION_QUIET_SECONDS :: int where "RECENT_INTERACTION_QUIET_SECONDS = 120"
definition NEUTRAL_ACCEPTANCE_SCORE :: int where "NEUTRAL_ACCEPTANCE_SCORE = 500"
definition MIN_USER_RELEVANCE_FOR_INTERRUPT :: int where "MIN_USER_RELEVANCE_FOR_INTERRUPT = 500"
definition MAX_INTERRUPTION_COST_FOR_INTERRUPT :: int where
  "MAX_INTERRUPTION_COST_FOR_INTERRUPT = 600"
definition MIN_ACCEPTANCE_FOR_INTERRUPT :: int where "MIN_ACCEPTANCE_FOR_INTERRUPT = 400"
definition READINESS_SCORE_THRESHOLD :: int where "READINESS_SCORE_THRESHOLD = 2500"
definition SELF_DESIRE_CONTRIBUTION_CAP :: int where "SELF_DESIRE_CONTRIBUTION_CAP = 500"

lemmas autonomy_versions =
  AUTONOMY_POLICY_VERSION_def AUTONOMY_POLICY_EVENT_VERSION_def INTENT_VERSION_def
  INTENT_EVENT_VERSION_def INITIATIVE_POLICY_VERSION_def

lemmas autonomy_strings =
  POLICY_ACTOR_KIND_USER_EXPLICIT_def INTENT_CREATED_BY_KIND_AUTONOMY_POLICY_def
  INTENT_EVENT_ACTOR_KIND_AUTONOMY_POLICY_def INTENT_KIND_GOAL_CHECK_IN_def
  INTENT_FOCUS_STATE_UNKNOWN_def INTENT_FOCUS_STATE_AVAILABLE_def INTENT_FOCUS_STATE_FOCUSED_def
  INTENT_FOCUS_STATE_DND_def INTENT_STATUS_PENDING_def INTENT_STATUS_READY_def
  INTENT_STATUS_DEFERRED_def INTENT_STATUS_STORED_SILENTLY_def INTENT_STATUS_CANCELLED_def
  INTENT_STATUS_EXPIRED_def INTENT_STATUS_CONSUMED_def

lemmas autonomy_bounds =
  AUTONOMY_MAX_ID_LENGTH_def SIGNAL_MIN_def SIGNAL_MAX_def MAX_READY_PER_WINDOW_MIN_def
  MAX_READY_PER_WINDOW_MAX_def WINDOW_SECONDS_MIN_def WINDOW_SECONDS_MAX_def
  MIN_GAP_SECONDS_MIN_def MIN_GAP_SECONDS_MAX_def MIN_RECHECK_SECONDS_def
  RECENT_INTERACTION_QUIET_SECONDS_def NEUTRAL_ACCEPTANCE_SCORE_def
  MIN_USER_RELEVANCE_FOR_INTERRUPT_def MAX_INTERRUPTION_COST_FOR_INTERRUPT_def
  MIN_ACCEPTANCE_FOR_INTERRUPT_def READINESS_SCORE_THRESHOLD_def SELF_DESIRE_CONTRIBUTION_CAP_def

section \<open>Data\<close>

record autonomy_policy =
  ap_life_id :: string
  ap_enabled :: bool
  ap_dnd :: bool
  ap_max_ready_per_window :: int
  ap_window_seconds :: int
  ap_min_gap_seconds :: int
  ap_revision :: int
  ap_created_at :: string
  ap_updated_at :: string
  ap_policy_version :: int

definition is_effectively_enabled :: "autonomy_policy \<Rightarrow> bool" where
  "is_effectively_enabled p \<longleftrightarrow> ap_enabled p \<and> \<not> ap_dnd p"

record autonomy_create_request =
  ac_life_id :: string
  ac_enabled :: bool
  ac_dnd :: bool
  ac_max_ready_per_window :: int
  ac_window_seconds :: int
  ac_min_gap_seconds :: int

record autonomy_update_request =
  au_event_id :: string
  au_life_id :: string
  au_enabled :: bool
  au_dnd :: bool
  au_max_ready_per_window :: int
  au_window_seconds :: int
  au_min_gap_seconds :: int
  au_expected_revision :: int

record autonomy_policy_event =
  ae_event_id :: string
  ae_life_id :: string
  ae_old_enabled :: bool
  ae_new_enabled :: bool
  ae_old_dnd :: bool
  ae_new_dnd :: bool
  ae_old_max_ready_per_window :: int
  ae_new_max_ready_per_window :: int
  ae_old_window_seconds :: int
  ae_new_window_seconds :: int
  ae_old_min_gap_seconds :: int
  ae_new_min_gap_seconds :: int
  ae_expected_revision :: int
  ae_applied_revision :: int
  ae_actor_kind :: string
  ae_occurred_at :: string
  ae_event_version :: int

datatype 't autonomy_create_outcome = AutonomyCreated 't | AutonomyCreateReplayed 't

datatype autonomy_update_outcome =
    AutonomyPolicyApplied autonomy_policy_event autonomy_policy
  | AutonomyPolicyReplayed autonomy_policy_event autonomy_policy

record proactive_intent =
  pi_intent_id :: string
  pi_life_id :: string
  pi_goal_id :: string
  pi_intent_kind :: string
  pi_importance :: int
  pi_user_relevance :: int
  pi_self_desire :: int
  pi_interruption_cost :: int
  pi_focus_state :: string
  pi_acceptance_score :: "int option"
  pi_recent_interaction_seconds :: "int option"
  pi_status :: string
  pi_revision :: int
  pi_created_by_kind :: string
  pi_created_at :: string
  pi_updated_at :: string
  pi_not_before :: "string option"
  pi_expires_at :: "string option"
  pi_closed_at :: "string option"
  pi_intent_version :: int

record intent_create_request =
  ir_intent_id :: string
  ir_life_id :: string
  ir_goal_id :: string
  ir_intent_kind :: string
  ir_importance :: int
  ir_user_relevance :: int
  ir_self_desire :: int
  ir_interruption_cost :: int
  ir_focus_state :: string
  ir_acceptance_score :: "int option"
  ir_recent_interaction_seconds :: "int option"
  ir_expires_at :: "string option"

record intent_evaluation_request =
  iq_event_id :: string
  iq_life_id :: string
  iq_intent_id :: string
  iq_expected_revision :: int

record intent_event =
  ie_event_id :: string
  ie_life_id :: string
  ie_intent_id :: string
  ie_from_status :: string
  ie_to_status :: string
  ie_expected_revision :: int
  ie_applied_revision :: int
  ie_not_before_after :: "string option"
  ie_actor_kind :: string
  ie_occurred_at :: string
  ie_event_version :: int

datatype intent_evaluation_outcome =
    IntentApplied intent_event proactive_intent
  | IntentReplayed intent_event proactive_intent

datatype initiative_decision =
  DecisionReady | DecisionDeferred | DecisionStoredSilently | DecisionCancelled | DecisionExpired

record initiative_temporal_context =
  tc_recent_interaction_not_before :: "string option"
  tc_temporary_gate_not_before :: "string option"
  tc_frequency_not_before :: "string option"
  tc_min_gap_not_before :: "string option"

definition temporal_context_default :: initiative_temporal_context where
  "temporal_context_default =
     \<lparr>tc_recent_interaction_not_before = None, tc_temporary_gate_not_before = None,
      tc_frequency_not_before = None, tc_min_gap_not_before = None\<rparr>"

datatype autonomy_error_code =
    AutInvalidArgument | AutLifeNotFound | AutPolicyNotFound | AutPolicyDisabled
  | AutPolicyConflict | AutPolicyEventConflict | AutGoalNotFound | AutGoalLifeMismatch
  | AutGoalNotActive | AutIntentConflict | AutIntentNotFound | AutIntentLifeMismatch
  | AutInvalidIntentState | AutIntentEventConflict | AutDatabaseUnavailable | AutRevisionConflict

record autonomy_error =
  ar_code :: autonomy_error_code
  ar_recoverable :: bool

definition autonomy_error_new :: "autonomy_error_code \<Rightarrow> autonomy_error" where
  "autonomy_error_new code =
     \<lparr>ar_code = code,
      ar_recoverable = (code \<in> {AutLifeNotFound, AutPolicyNotFound, AutPolicyDisabled,
        AutGoalNotFound, AutDatabaseUnavailable})\<rparr>"

definition autonomy_invalid_argument :: autonomy_error where
  "autonomy_invalid_argument = autonomy_error_new AutInvalidArgument"
definition autonomy_life_not_found :: autonomy_error where
  "autonomy_life_not_found = autonomy_error_new AutLifeNotFound"
definition autonomy_policy_not_found :: autonomy_error where
  "autonomy_policy_not_found = autonomy_error_new AutPolicyNotFound"
definition autonomy_policy_disabled :: autonomy_error where
  "autonomy_policy_disabled = autonomy_error_new AutPolicyDisabled"
definition autonomy_policy_conflict :: autonomy_error where
  "autonomy_policy_conflict = autonomy_error_new AutPolicyConflict"
definition autonomy_policy_event_conflict :: autonomy_error where
  "autonomy_policy_event_conflict = autonomy_error_new AutPolicyEventConflict"
definition autonomy_goal_not_found :: autonomy_error where
  "autonomy_goal_not_found = autonomy_error_new AutGoalNotFound"
definition autonomy_goal_life_mismatch :: autonomy_error where
  "autonomy_goal_life_mismatch = autonomy_error_new AutGoalLifeMismatch"
definition autonomy_goal_not_active :: autonomy_error where
  "autonomy_goal_not_active = autonomy_error_new AutGoalNotActive"
definition proactive_intent_conflict :: autonomy_error where
  "proactive_intent_conflict = autonomy_error_new AutIntentConflict"
definition autonomy_intent_not_found :: autonomy_error where
  "autonomy_intent_not_found = autonomy_error_new AutIntentNotFound"
definition autonomy_intent_life_mismatch :: autonomy_error where
  "autonomy_intent_life_mismatch = autonomy_error_new AutIntentLifeMismatch"
definition autonomy_invalid_intent_state :: autonomy_error where
  "autonomy_invalid_intent_state = autonomy_error_new AutInvalidIntentState"
definition proactive_intent_event_conflict :: autonomy_error where
  "proactive_intent_event_conflict = autonomy_error_new AutIntentEventConflict"
definition autonomy_database :: autonomy_error where
  "autonomy_database = autonomy_error_new AutDatabaseUnavailable"
definition autonomy_revision_conflict :: autonomy_error where
  "autonomy_revision_conflict = autonomy_error_new AutRevisionConflict"

section \<open>Validators\<close>

definition autonomy_validate_life_id :: "string \<Rightarrow> autonomy_error + unit" where
  "autonomy_validate_life_id v = require (\<not> str_blank v) autonomy_invalid_argument"

definition autonomy_validate_id :: "string \<Rightarrow> autonomy_error + unit" where
  "autonomy_validate_id v =
     (let trimmed = str_trim v
      in require (\<not> (trimmed = [] \<or> chars_count trimmed > AUTONOMY_MAX_ID_LENGTH))
           autonomy_invalid_argument)"

definition autonomy_validate_policy_values :: "int \<Rightarrow> int \<Rightarrow> int \<Rightarrow> autonomy_error + unit" where
  "autonomy_validate_policy_values max_ready_per_window window_seconds min_gap_seconds =
     check_all
       [require (MAX_READY_PER_WINDOW_MIN \<le> max_ready_per_window
                 \<and> max_ready_per_window \<le> MAX_READY_PER_WINDOW_MAX) autonomy_invalid_argument,
        require (WINDOW_SECONDS_MIN \<le> window_seconds \<and> window_seconds \<le> WINDOW_SECONDS_MAX)
          autonomy_invalid_argument,
        require (MIN_GAP_SECONDS_MIN \<le> min_gap_seconds \<and> min_gap_seconds \<le> MIN_GAP_SECONDS_MAX)
          autonomy_invalid_argument]"

definition validate_signal :: "int \<Rightarrow> autonomy_error + unit" where
  "validate_signal v = require (SIGNAL_MIN \<le> v \<and> v \<le> SIGNAL_MAX) autonomy_invalid_argument"

definition validate_optional_signal :: "int option \<Rightarrow> autonomy_error + unit" where
  "validate_optional_signal v = (case v of None \<Rightarrow> Inr () | Some x \<Rightarrow> validate_signal x)"

definition validate_recent_interaction :: "int option \<Rightarrow> autonomy_error + unit" where
  "validate_recent_interaction v =
     (case v of None \<Rightarrow> Inr () | Some x \<Rightarrow> require (\<not> x < 0) autonomy_invalid_argument)"

definition validate_focus_state :: "string \<Rightarrow> autonomy_error + unit" where
  "validate_focus_state v =
     require (v \<in> {INTENT_FOCUS_STATE_UNKNOWN, INTENT_FOCUS_STATE_AVAILABLE,
                   INTENT_FOCUS_STATE_FOCUSED, INTENT_FOCUS_STATE_DND}) autonomy_invalid_argument"

definition is_intent_status :: "string \<Rightarrow> bool" where
  "is_intent_status v \<longleftrightarrow>
     v \<in> {INTENT_STATUS_PENDING, INTENT_STATUS_READY, INTENT_STATUS_DEFERRED,
          INTENT_STATUS_STORED_SILENTLY, INTENT_STATUS_CANCELLED, INTENT_STATUS_EXPIRED,
          INTENT_STATUS_CONSUMED}"

definition is_open_status :: "string \<Rightarrow> bool" where
  "is_open_status v \<longleftrightarrow>
     v \<in> {INTENT_STATUS_PENDING, INTENT_STATUS_READY, INTENT_STATUS_DEFERRED}"

definition autonomy_validate_persisted_revision :: "int \<Rightarrow> autonomy_error + unit" where
  "autonomy_validate_persisted_revision r = require (\<not> r < 1) autonomy_invalid_argument"

definition autonomy_validate_expected_revision :: "int \<Rightarrow> autonomy_error + unit" where
  "autonomy_validate_expected_revision r = require (1 \<le> r \<and> r < i64_max) autonomy_invalid_argument"

definition autonomy_validate_timestamp :: "string \<Rightarrow> autonomy_error + unit" where
  "autonomy_validate_timestamp v = require (\<not> str_blank v) autonomy_invalid_argument"

text \<open>\<open>YYYY-MM-DDTHH:MM:SS.mmmZ\<close>: 24 bytes, separators in place and digits elsewhere.\<close>

definition canonical_timestamp :: "string \<Rightarrow> bool" where
  "canonical_timestamp v \<longleftrightarrow>
     length v = 24 \<and> v ! 4 = CHR ''-'' \<and> v ! 7 = CHR ''-'' \<and> v ! 10 = CHR ''T''
     \<and> v ! 13 = CHR '':'' \<and> v ! 16 = CHR '':'' \<and> v ! 19 = CHR ''.'' \<and> v ! 23 = CHR ''Z''
     \<and> list_all (\<lambda>(i, c). i \<in> {4, 7, 10, 13, 16, 19, 23} \<or> is_ascii_digit c) (enumerate 0 v)"

definition validate_optional_canonical_timestamp :: "string option \<Rightarrow> autonomy_error + unit" where
  "validate_optional_canonical_timestamp v =
     (case v of None \<Rightarrow> Inr () | Some t \<Rightarrow> require (canonical_timestamp t) autonomy_invalid_argument)"

definition validate_policy_create_request :: "autonomy_create_request \<Rightarrow> autonomy_error + unit" where
  "validate_policy_create_request r =
     check_all
       [autonomy_validate_life_id (ac_life_id r),
        autonomy_validate_policy_values (ac_max_ready_per_window r) (ac_window_seconds r)
          (ac_min_gap_seconds r)]"

definition validate_policy_update_request :: "autonomy_update_request \<Rightarrow> autonomy_error + unit" where
  "validate_policy_update_request r =
     check_all
       [autonomy_validate_id (au_event_id r),
        autonomy_validate_life_id (au_life_id r),
        autonomy_validate_policy_values (au_max_ready_per_window r) (au_window_seconds r)
          (au_min_gap_seconds r),
        autonomy_validate_expected_revision (au_expected_revision r)]"

definition validate_intent_create_request :: "intent_create_request \<Rightarrow> autonomy_error + unit" where
  "validate_intent_create_request r =
     check_all
       [autonomy_validate_id (ir_intent_id r),
        autonomy_validate_life_id (ir_life_id r),
        autonomy_validate_id (ir_goal_id r),
        require (ir_intent_kind r = INTENT_KIND_GOAL_CHECK_IN) autonomy_invalid_argument,
        validate_signal (ir_importance r), validate_signal (ir_user_relevance r),
        validate_signal (ir_self_desire r), validate_signal (ir_interruption_cost r),
        validate_optional_signal (ir_acceptance_score r),
        validate_recent_interaction (ir_recent_interaction_seconds r),
        validate_focus_state (ir_focus_state r),
        validate_optional_canonical_timestamp (ir_expires_at r)]"

definition validate_intent_evaluation_request ::
    "intent_evaluation_request \<Rightarrow> autonomy_error + unit" where
  "validate_intent_evaluation_request r =
     check_all
       [autonomy_validate_id (iq_event_id r),
        autonomy_validate_life_id (iq_life_id r),
        autonomy_validate_id (iq_intent_id r),
        autonomy_validate_expected_revision (iq_expected_revision r)]"

definition autonomy_validate_policy_state :: "autonomy_policy \<Rightarrow> autonomy_error + unit" where
  "autonomy_validate_policy_state p =
     check_all
       [autonomy_validate_life_id (ap_life_id p),
        autonomy_validate_policy_values (ap_max_ready_per_window p) (ap_window_seconds p)
          (ap_min_gap_seconds p),
        autonomy_validate_persisted_revision (ap_revision p),
        require (ap_policy_version p = AUTONOMY_POLICY_VERSION) autonomy_invalid_argument,
        autonomy_validate_timestamp (ap_created_at p),
        autonomy_validate_timestamp (ap_updated_at p)]"

definition validate_intent_state :: "proactive_intent \<Rightarrow> autonomy_error + unit" where
  "validate_intent_state i =
     check_all
       [autonomy_validate_id (pi_intent_id i),
        autonomy_validate_life_id (pi_life_id i),
        autonomy_validate_id (pi_goal_id i),
        require (pi_intent_kind i = INTENT_KIND_GOAL_CHECK_IN) autonomy_invalid_argument,
        validate_signal (pi_importance i), validate_signal (pi_user_relevance i),
        validate_signal (pi_self_desire i), validate_signal (pi_interruption_cost i),
        validate_optional_signal (pi_acceptance_score i),
        validate_recent_interaction (pi_recent_interaction_seconds i),
        validate_focus_state (pi_focus_state i),
        require (is_intent_status (pi_status i)) autonomy_invalid_argument,
        autonomy_validate_persisted_revision (pi_revision i),
        require (pi_created_by_kind i = INTENT_CREATED_BY_KIND_AUTONOMY_POLICY)
          autonomy_invalid_argument,
        require (pi_intent_version i = INTENT_VERSION) autonomy_invalid_argument,
        autonomy_validate_timestamp (pi_created_at i),
        autonomy_validate_timestamp (pi_updated_at i),
        validate_optional_canonical_timestamp (pi_not_before i),
        validate_optional_canonical_timestamp (pi_expires_at i),
        validate_optional_canonical_timestamp (pi_closed_at i),
        (if pi_status i = INTENT_STATUS_DEFERRED
         then require (pi_not_before i \<noteq> None) autonomy_invalid_argument
         else require (pi_not_before i = None) autonomy_invalid_argument),
        require (\<not> (is_open_status (pi_status i) \<and> pi_closed_at i \<noteq> None))
          autonomy_invalid_argument,
        require (\<not> (\<not> is_open_status (pi_status i) \<and> pi_closed_at i = None))
          autonomy_invalid_argument]"

definition validate_policy_event_state :: "autonomy_policy_event \<Rightarrow> autonomy_error + unit" where
  "validate_policy_event_state e =
     check_all
       [autonomy_validate_id (ae_event_id e),
        autonomy_validate_life_id (ae_life_id e),
        autonomy_validate_policy_values (ae_old_max_ready_per_window e) (ae_old_window_seconds e)
          (ae_old_min_gap_seconds e),
        autonomy_validate_policy_values (ae_new_max_ready_per_window e) (ae_new_window_seconds e)
          (ae_new_min_gap_seconds e),
        autonomy_validate_expected_revision (ae_expected_revision e),
        require (Some (ae_applied_revision e) = checked_add (ae_expected_revision e) 1)
          autonomy_invalid_argument,
        require (ae_actor_kind e = POLICY_ACTOR_KIND_USER_EXPLICIT) autonomy_invalid_argument,
        require (ae_event_version e = AUTONOMY_POLICY_EVENT_VERSION) autonomy_invalid_argument,
        autonomy_validate_timestamp (ae_occurred_at e)]"

definition validate_intent_event_state :: "intent_event \<Rightarrow> autonomy_error + unit" where
  "validate_intent_event_state e =
     check_all
       [autonomy_validate_id (ie_event_id e),
        autonomy_validate_life_id (ie_life_id e),
        autonomy_validate_id (ie_intent_id e),
        require (is_intent_status (ie_from_status e) \<and> is_intent_status (ie_to_status e))
          autonomy_invalid_argument,
        require (ie_from_status e \<noteq> ie_to_status e) autonomy_invalid_argument,
        autonomy_validate_expected_revision (ie_expected_revision e),
        require (Some (ie_applied_revision e) = checked_add (ie_expected_revision e) 1)
          autonomy_invalid_argument,
        validate_optional_canonical_timestamp (ie_not_before_after e),
        require (ie_actor_kind e = INTENT_EVENT_ACTOR_KIND_AUTONOMY_POLICY)
          autonomy_invalid_argument,
        require (ie_event_version e = INTENT_EVENT_VERSION) autonomy_invalid_argument,
        autonomy_validate_timestamp (ie_occurred_at e)]"

subsection \<open>Acceptance conditions\<close>

definition autonomy_id_ok :: "string \<Rightarrow> bool" where
  "autonomy_id_ok v \<longleftrightarrow> \<not> str_blank v \<and> chars_count (str_trim v) \<le> 128"

definition policy_values_ok :: "int \<Rightarrow> int \<Rightarrow> int \<Rightarrow> bool" where
  "policy_values_ok m w g \<longleftrightarrow>
     0 \<le> m \<and> m \<le> 32 \<and> 60 \<le> w \<and> w \<le> 86400 \<and> 0 \<le> g \<and> g \<le> 86400"

definition signal_ok :: "int \<Rightarrow> bool" where
  "signal_ok v \<longleftrightarrow> 0 \<le> v \<and> v \<le> 1000"

definition expected_revision_ok :: "int \<Rightarrow> bool" where
  "expected_revision_ok r \<longleftrightarrow> 1 \<le> r \<and> r < i64_max"

definition optional_ok :: "('a \<Rightarrow> bool) \<Rightarrow> 'a option \<Rightarrow> bool" where
  "optional_ok ok v \<longleftrightarrow> (case v of None \<Rightarrow> True | Some x \<Rightarrow> ok x)"

lemma optional_ok_simps [simp]: "optional_ok ok None" "optional_ok ok (Some x) \<longleftrightarrow> ok x"
  by (simp_all add: optional_ok_def)

lemma autonomy_field_validators_Inr:
  "autonomy_validate_life_id v = Inr () \<longleftrightarrow> \<not> str_blank v"
  "autonomy_validate_id v = Inr () \<longleftrightarrow> autonomy_id_ok v"
  "autonomy_validate_policy_values m w g = Inr () \<longleftrightarrow> policy_values_ok m w g"
  "validate_signal s = Inr () \<longleftrightarrow> signal_ok s"
  "validate_optional_signal os = Inr () \<longleftrightarrow> optional_ok signal_ok os"
  "validate_recent_interaction os = Inr () \<longleftrightarrow> optional_ok (\<lambda>x. 0 \<le> x) os"
  "autonomy_validate_persisted_revision r = Inr () \<longleftrightarrow> 1 \<le> r"
  "autonomy_validate_expected_revision r = Inr () \<longleftrightarrow> expected_revision_ok r"
  "autonomy_validate_timestamp v = Inr () \<longleftrightarrow> \<not> str_blank v"
  "validate_optional_canonical_timestamp ov = Inr () \<longleftrightarrow> optional_ok canonical_timestamp ov"
  by (auto simp: autonomy_validate_life_id_def autonomy_validate_id_def autonomy_id_ok_def
      autonomy_validate_policy_values_def policy_values_ok_def validate_signal_def signal_ok_def
      validate_optional_signal_def validate_recent_interaction_def expected_revision_ok_def
      autonomy_validate_persisted_revision_def autonomy_validate_expected_revision_def
      autonomy_validate_timestamp_def validate_optional_canonical_timestamp_def optional_ok_def
      autonomy_bounds check_all_Inr_iff Let_def str_blank_def split: option.splits)

text \<open>Every validator of this module fails with \<open>InvalidArgument\<close> only.\<close>

definition only_invalid :: "autonomy_error + 'a \<Rightarrow> bool" where
  "only_invalid r \<longleftrightarrow> (\<forall>e. r = Inl e \<longrightarrow> e = autonomy_invalid_argument)"

lemma only_invalid_require [simp]: "only_invalid (require b autonomy_invalid_argument)"
  by (simp add: only_invalid_def)

lemma only_invalid_check_all: "(\<And>c. c \<in> set cs \<Longrightarrow> only_invalid c) \<Longrightarrow> only_invalid (check_all cs)"
  by (auto simp: only_invalid_def dest!: check_all_Inl)

lemma only_invalid_fields [simp]:
  "only_invalid (autonomy_validate_life_id v)" "only_invalid (autonomy_validate_id v)"
  "only_invalid (autonomy_validate_policy_values m w g)" "only_invalid (validate_signal s)"
  "only_invalid (validate_optional_signal os)" "only_invalid (validate_recent_interaction os)"
  "only_invalid (validate_focus_state v)" "only_invalid (autonomy_validate_persisted_revision r)"
  "only_invalid (autonomy_validate_expected_revision r)"
  "only_invalid (autonomy_validate_timestamp v)"
  "only_invalid (validate_optional_canonical_timestamp ov)"
  by (auto simp: autonomy_validate_life_id_def autonomy_validate_id_def
      autonomy_validate_policy_values_def validate_signal_def validate_focus_state_def
      validate_optional_signal_def validate_recent_interaction_def
      autonomy_validate_persisted_revision_def autonomy_validate_expected_revision_def
      autonomy_validate_timestamp_def validate_optional_canonical_timestamp_def Let_def
      intro!: only_invalid_check_all split: option.splits)
    (simp_all add: only_invalid_def)

lemma only_invalid_eqI:
  assumes "only_invalid r" and "r = Inr () \<longleftrightarrow> b"
  shows "r = (if b then Inr () else Inl autonomy_invalid_argument)"
  using assms by (cases r) (auto simp: only_invalid_def)

definition autonomy_create_ok :: "autonomy_create_request \<Rightarrow> bool" where
  "autonomy_create_ok r \<longleftrightarrow>
     \<not> str_blank (ac_life_id r)
     \<and> policy_values_ok (ac_max_ready_per_window r) (ac_window_seconds r) (ac_min_gap_seconds r)"

definition autonomy_update_ok :: "autonomy_update_request \<Rightarrow> bool" where
  "autonomy_update_ok r \<longleftrightarrow>
     autonomy_id_ok (au_event_id r) \<and> \<not> str_blank (au_life_id r)
     \<and> policy_values_ok (au_max_ready_per_window r) (au_window_seconds r) (au_min_gap_seconds r)
     \<and> expected_revision_ok (au_expected_revision r)"

definition intent_evaluation_ok :: "intent_evaluation_request \<Rightarrow> bool" where
  "intent_evaluation_ok r \<longleftrightarrow>
     autonomy_id_ok (iq_event_id r) \<and> \<not> str_blank (iq_life_id r) \<and> autonomy_id_ok (iq_intent_id r)
     \<and> expected_revision_ok (iq_expected_revision r)"

definition autonomy_policy_ok :: "autonomy_policy \<Rightarrow> bool" where
  "autonomy_policy_ok p \<longleftrightarrow>
     \<not> str_blank (ap_life_id p)
     \<and> policy_values_ok (ap_max_ready_per_window p) (ap_window_seconds p) (ap_min_gap_seconds p)
     \<and> 1 \<le> ap_revision p \<and> ap_policy_version p = 1
     \<and> \<not> str_blank (ap_created_at p) \<and> \<not> str_blank (ap_updated_at p)"

definition intent_evidence_ok ::
    "string \<Rightarrow> string \<Rightarrow> string \<Rightarrow> string \<Rightarrow> int list \<Rightarrow> int option \<Rightarrow> int option \<Rightarrow> string
     \<Rightarrow> string option \<Rightarrow> bool" where
  "intent_evidence_ok intent life goal kind signals acceptance recent focus expires \<longleftrightarrow>
     autonomy_id_ok intent \<and> \<not> str_blank life \<and> autonomy_id_ok goal \<and> kind = ''goal_check_in''
     \<and> (\<forall>s \<in> set signals. signal_ok s) \<and> optional_ok signal_ok acceptance
     \<and> optional_ok (\<lambda>x. 0 \<le> x) recent \<and> focus \<in> {''unknown'', ''available'', ''focused'', ''dnd''}
     \<and> optional_ok canonical_timestamp expires"

definition intent_create_ok :: "intent_create_request \<Rightarrow> bool" where
  "intent_create_ok r \<longleftrightarrow>
     intent_evidence_ok (ir_intent_id r) (ir_life_id r) (ir_goal_id r) (ir_intent_kind r)
       [ir_importance r, ir_user_relevance r, ir_self_desire r, ir_interruption_cost r]
       (ir_acceptance_score r) (ir_recent_interaction_seconds r) (ir_focus_state r)
       (ir_expires_at r)"

text \<open>Which of \<open>not_before\<close> and \<open>closed_at\<close> a status carries.\<close>

definition intent_columns_ok :: "string \<Rightarrow> string option \<Rightarrow> string option \<Rightarrow> bool" where
  "intent_columns_ok status not_before closed_at \<longleftrightarrow>
     is_intent_status status
     \<and> (status = ''deferred'' \<longleftrightarrow> not_before \<noteq> None)
     \<and> (status \<in> {''pending'', ''ready'', ''deferred''} \<longleftrightarrow> closed_at = None)
     \<and> optional_ok canonical_timestamp not_before \<and> optional_ok canonical_timestamp closed_at"

definition proactive_intent_ok :: "proactive_intent \<Rightarrow> bool" where
  "proactive_intent_ok i \<longleftrightarrow>
     intent_evidence_ok (pi_intent_id i) (pi_life_id i) (pi_goal_id i) (pi_intent_kind i)
       [pi_importance i, pi_user_relevance i, pi_self_desire i, pi_interruption_cost i]
       (pi_acceptance_score i) (pi_recent_interaction_seconds i) (pi_focus_state i)
       (pi_expires_at i)
     \<and> intent_columns_ok (pi_status i) (pi_not_before i) (pi_closed_at i)
     \<and> 1 \<le> pi_revision i \<and> pi_created_by_kind i = ''autonomy_policy'' \<and> pi_intent_version i = 1
     \<and> \<not> str_blank (pi_created_at i) \<and> \<not> str_blank (pi_updated_at i)"

definition autonomy_policy_event_ok :: "autonomy_policy_event \<Rightarrow> bool" where
  "autonomy_policy_event_ok e \<longleftrightarrow>
     autonomy_id_ok (ae_event_id e) \<and> \<not> str_blank (ae_life_id e)
     \<and> policy_values_ok (ae_old_max_ready_per_window e) (ae_old_window_seconds e)
         (ae_old_min_gap_seconds e)
     \<and> policy_values_ok (ae_new_max_ready_per_window e) (ae_new_window_seconds e)
         (ae_new_min_gap_seconds e)
     \<and> expected_revision_ok (ae_expected_revision e)
     \<and> ae_applied_revision e = ae_expected_revision e + 1
     \<and> ae_actor_kind e = ''user_explicit'' \<and> ae_event_version e = 1
     \<and> \<not> str_blank (ae_occurred_at e)"

definition intent_event_ok :: "intent_event \<Rightarrow> bool" where
  "intent_event_ok e \<longleftrightarrow>
     autonomy_id_ok (ie_event_id e) \<and> \<not> str_blank (ie_life_id e) \<and> autonomy_id_ok (ie_intent_id e)
     \<and> is_intent_status (ie_from_status e) \<and> is_intent_status (ie_to_status e)
     \<and> ie_from_status e \<noteq> ie_to_status e \<and> expected_revision_ok (ie_expected_revision e)
     \<and> ie_applied_revision e = ie_expected_revision e + 1
     \<and> optional_ok canonical_timestamp (ie_not_before_after e)
     \<and> ie_actor_kind e = ''autonomy_policy'' \<and> ie_event_version e = 1
     \<and> \<not> str_blank (ie_occurred_at e)"

lemma validate_focus_state_Inr:
  "validate_focus_state v = Inr () \<longleftrightarrow> v \<in> {''unknown'', ''available'', ''focused'', ''dnd''}"
  by (simp add: validate_focus_state_def autonomy_strings)

lemma applied_revision_ok:
  assumes "expected_revision_ok r"
  shows "Some n = checked_add r 1 \<longleftrightarrow> n = r + 1"
  using assms by (auto simp: expected_revision_ok_def checked_add_def checked_i64_def i64_bounds)

lemma validate_policy_create_request_eq [validator_simps]:
  "validate_policy_create_request r =
     (if autonomy_create_ok r then Inr () else Inl autonomy_invalid_argument)"
  by (rule only_invalid_eqI)
    (auto simp: validate_policy_create_request_def check_all_Inr_iff autonomy_create_ok_def
      autonomy_field_validators_Inr intro!: only_invalid_check_all)

lemma validate_policy_update_request_eq [validator_simps]:
  "validate_policy_update_request r =
     (if autonomy_update_ok r then Inr () else Inl autonomy_invalid_argument)"
  by (rule only_invalid_eqI)
    (auto simp: validate_policy_update_request_def check_all_Inr_iff autonomy_update_ok_def
      autonomy_field_validators_Inr intro!: only_invalid_check_all)

lemma validate_intent_create_request_eq [validator_simps]:
  "validate_intent_create_request r =
     (if intent_create_ok r then Inr () else Inl autonomy_invalid_argument)"
proof (rule only_invalid_eqI)
  show "only_invalid (validate_intent_create_request r)"
    unfolding validate_intent_create_request_def by (rule only_invalid_check_all) auto
  show "validate_intent_create_request r = Inr () \<longleftrightarrow> intent_create_ok r"
    by (simp add: validate_intent_create_request_def check_all_Inr_iff intent_create_ok_def
      intent_evidence_ok_def autonomy_field_validators_Inr validate_focus_state_Inr
      INTENT_KIND_GOAL_CHECK_IN_def)
qed

lemma validate_intent_evaluation_request_eq [validator_simps]:
  "validate_intent_evaluation_request r =
     (if intent_evaluation_ok r then Inr () else Inl autonomy_invalid_argument)"
  by (rule only_invalid_eqI)
    (auto simp: validate_intent_evaluation_request_def check_all_Inr_iff intent_evaluation_ok_def
      autonomy_field_validators_Inr intro!: only_invalid_check_all)

lemma autonomy_validate_policy_state_eq [validator_simps]:
  "autonomy_validate_policy_state p =
     (if autonomy_policy_ok p then Inr () else Inl autonomy_invalid_argument)"
proof (rule only_invalid_eqI)
  show "only_invalid (autonomy_validate_policy_state p)"
    unfolding autonomy_validate_policy_state_def by (rule only_invalid_check_all) auto
  show "autonomy_validate_policy_state p = Inr () \<longleftrightarrow> autonomy_policy_ok p"
    by (auto simp: autonomy_validate_policy_state_def check_all_Inr_iff autonomy_policy_ok_def
      autonomy_field_validators_Inr autonomy_versions)
qed

lemma validate_intent_state_eq [validator_simps]:
  "validate_intent_state i =
     (if proactive_intent_ok i then Inr () else Inl autonomy_invalid_argument)"
proof (rule only_invalid_eqI)
  show "only_invalid (validate_intent_state i)"
    unfolding validate_intent_state_def by (rule only_invalid_check_all) auto
  show "validate_intent_state i = Inr () \<longleftrightarrow> proactive_intent_ok i"
    by (cases "pi_closed_at i"; cases "pi_not_before i")
      (auto simp: validate_intent_state_def check_all_Inr_iff proactive_intent_ok_def
        intent_evidence_ok_def intent_columns_ok_def autonomy_field_validators_Inr
        validate_focus_state_Inr is_open_status_def autonomy_versions autonomy_strings)
qed

lemma validate_policy_event_state_eq [validator_simps]:
  "validate_policy_event_state e =
     (if autonomy_policy_event_ok e then Inr () else Inl autonomy_invalid_argument)"
proof (rule only_invalid_eqI)
  show "only_invalid (validate_policy_event_state e)"
    unfolding validate_policy_event_state_def by (rule only_invalid_check_all) auto
  show "validate_policy_event_state e = Inr () \<longleftrightarrow> autonomy_policy_event_ok e"
    by (auto simp: validate_policy_event_state_def check_all_Inr_iff autonomy_policy_event_ok_def
      autonomy_field_validators_Inr autonomy_versions autonomy_strings applied_revision_ok)
qed

lemma validate_intent_event_state_eq [validator_simps]:
  "validate_intent_event_state e =
     (if intent_event_ok e then Inr () else Inl autonomy_invalid_argument)"
proof (rule only_invalid_eqI)
  show "only_invalid (validate_intent_event_state e)"
    unfolding validate_intent_event_state_def by (rule only_invalid_check_all) auto
  show "validate_intent_event_state e = Inr () \<longleftrightarrow> intent_event_ok e"
    by (auto simp: validate_intent_event_state_def check_all_Inr_iff intent_event_ok_def
      autonomy_field_validators_Inr autonomy_versions autonomy_strings applied_revision_ok)
qed

section \<open>The initiative policy\<close>

text \<open>
  \<open>into_iter().max()\<close> over timestamps. Of equal maxima it returns the last, which is the same string.
\<close>

fun max_str :: "string list \<Rightarrow> string option" where
  "max_str [] = None"
| "max_str (x # xs) = (case max_str xs of None \<Rightarrow> Some x | Some m \<Rightarrow> Some (if m < x then x else m))"

definition readiness_support :: "proactive_intent \<Rightarrow> int \<Rightarrow> int option" where
  "readiness_support i acceptance =
     Option.bind (checked_mul (pi_importance i) 2) (\<lambda>v.
     Option.bind (Option.bind (checked_mul (pi_user_relevance i) 3) (checked_add v)) (\<lambda>v.
     Option.bind (checked_add v (min (pi_self_desire i) SELF_DESIRE_CONTRIBUTION_CAP)) (\<lambda>v.
     checked_add v acceptance)))"

definition evaluate_initiative_policy ::
    "proactive_intent \<Rightarrow> autonomy_policy option \<Rightarrow> bool \<Rightarrow> string \<Rightarrow> initiative_temporal_context
     \<Rightarrow> autonomy_error + initiative_decision" where
  "evaluate_initiative_policy i policy goal_is_active now temporal =
     (if (case pi_expires_at i of None \<Rightarrow> False | Some expires_at \<Rightarrow> expires_at \<le> now)
      then Inr DecisionExpired
      else case policy of
        None \<Rightarrow> Inr DecisionCancelled
      | Some p \<Rightarrow>
        (if ap_policy_version p \<noteq> INITIATIVE_POLICY_VERSION then Inl autonomy_invalid_argument
         else if \<not> ap_enabled p \<or> \<not> goal_is_active then Inr DecisionCancelled
         else if ap_max_ready_per_window p = 0 then Inr DecisionStoredSilently
         else
           let recent_gate_required =
                 (case pi_recent_interaction_seconds i of
                    None \<Rightarrow> True | Some s \<Rightarrow> s < RECENT_INTERACTION_QUIET_SECONDS);
               temporary_gate_required =
                 (ap_dnd p \<or> pi_focus_state i \<noteq> INTENT_FOCUS_STATE_AVAILABLE)
           in
           try_bind (if recent_gate_required
                     then try_bind (ok_or (tc_recent_interaction_not_before temporal)
                            autonomy_invalid_argument) (\<lambda>t. Inr [t])
                     else Inr []) (\<lambda>candidates1.
           try_bind (if temporary_gate_required
                     then try_bind (ok_or (tc_temporary_gate_not_before temporal)
                            autonomy_invalid_argument) (\<lambda>t. Inr [t])
                     else Inr []) (\<lambda>candidates2.
           let defer_candidates = candidates1 @ candidates2
                 @ (case tc_frequency_not_before temporal of None \<Rightarrow> [] | Some t \<Rightarrow> [t])
                 @ (case tc_min_gap_not_before temporal of None \<Rightarrow> [] | Some t \<Rightarrow> [t])
           in
           if max_str defer_candidates \<noteq> None then Inr DecisionDeferred
           else
             let acceptance =
                   (case pi_acceptance_score i of None \<Rightarrow> NEUTRAL_ACCEPTANCE_SCORE | Some a \<Rightarrow> a)
             in
             if pi_user_relevance i < MIN_USER_RELEVANCE_FOR_INTERRUPT
                \<or> pi_interruption_cost i > MAX_INTERRUPTION_COST_FOR_INTERRUPT
                \<or> acceptance < MIN_ACCEPTANCE_FOR_INTERRUPT
             then Inr DecisionStoredSilently
             else
               try_bind (ok_or (readiness_support i acceptance) autonomy_invalid_argument) (\<lambda>support.
               try_bind (ok_or (checked_mul (pi_interruption_cost i) 3) autonomy_invalid_argument)
                 (\<lambda>cost.
               try_bind (ok_or (checked_sub support cost) autonomy_invalid_argument) (\<lambda>readiness_score.
               Inr (if readiness_score \<ge> READINESS_SCORE_THRESHOLD then DecisionReady
                    else DecisionStoredSilently))))))))"

lemma max_str_None [simp]: "max_str xs = None \<longleftrightarrow> xs = []"
  by (cases xs) (auto split: option.splits)

lemma max_str_max: "max_str xs = Some m \<longleftrightarrow> xs \<noteq> [] \<and> m = Max (set xs)"
proof (induction xs arbitrary: m)
  case (Cons x xs)
  show ?case
  proof (cases "xs = []")
    case False
    then have "max_str xs = Some (Max (set xs))" using Cons.IH by blast
    with False show ?thesis by (auto simp: max_def not_less simp del: Max_less_iff Max_le_iff)
  qed auto
qed simp

subsection \<open>What it decides\<close>

text \<open>
  The specification: the score of an intent, when it must wait, and the decision in the order the
  reasons count. No arithmetic of a valid intent leaves the 64-bit range.
\<close>

definition intent_acceptance :: "proactive_intent \<Rightarrow> int" where
  "intent_acceptance i = (case pi_acceptance_score i of None \<Rightarrow> 500 | Some a \<Rightarrow> a)"

definition readiness_score :: "proactive_intent \<Rightarrow> int" where
  "readiness_score i =
     2 * pi_importance i + 3 * pi_user_relevance i + min (pi_self_desire i) 500
     + intent_acceptance i - 3 * pi_interruption_cost i"

definition worth_interrupting :: "proactive_intent \<Rightarrow> bool" where
  "worth_interrupting i \<longleftrightarrow>
     500 \<le> pi_user_relevance i \<and> pi_interruption_cost i \<le> 600 \<and> 400 \<le> intent_acceptance i
     \<and> 2500 \<le> readiness_score i"

definition quiet_gate :: "proactive_intent \<Rightarrow> bool" where
  "quiet_gate i \<longleftrightarrow> \<not> (\<exists>s. pi_recent_interaction_seconds i = Some s \<and> 120 \<le> s)"

definition temporary_gate :: "autonomy_policy \<Rightarrow> proactive_intent \<Rightarrow> bool" where
  "temporary_gate p i \<longleftrightarrow> ap_dnd p \<or> pi_focus_state i \<noteq> ''available''"

definition intent_expired :: "proactive_intent \<Rightarrow> string \<Rightarrow> bool" where
  "intent_expired i now \<longleftrightarrow> (\<exists>t. pi_expires_at i = Some t \<and> t \<le> now)"

lemma intent_acceptance_bounds:
  "proactive_intent_ok i \<Longrightarrow> 0 \<le> intent_acceptance i \<and> intent_acceptance i \<le> 1000"
  by (auto simp: intent_acceptance_def proactive_intent_ok_def intent_evidence_ok_def signal_ok_def
      split: option.splits)

lemma intent_signal_bounds:
  "proactive_intent_ok i \<Longrightarrow>
   pi_importance i \<in> {0..1000} \<and> pi_user_relevance i \<in> {0..1000}
   \<and> pi_self_desire i \<in> {0..1000} \<and> pi_interruption_cost i \<in> {0..1000}"
  by (simp add: proactive_intent_ok_def intent_evidence_ok_def signal_ok_def)

lemma readiness_support_ok:
  assumes "proactive_intent_ok i"
  shows "readiness_support i (intent_acceptance i)
      = Some (2 * pi_importance i + 3 * pi_user_relevance i + min (pi_self_desire i) 500
               + intent_acceptance i)"
    and "checked_mul (pi_interruption_cost i) 3 = Some (3 * pi_interruption_cost i)"
    and "checked_sub (2 * pi_importance i + 3 * pi_user_relevance i + min (pi_self_desire i) 500
               + intent_acceptance i) (3 * pi_interruption_cost i) = Some (readiness_score i)"
  using intent_signal_bounds [OF assms] intent_acceptance_bounds [OF assms]
  by (auto simp: readiness_support_def checked_mul_def checked_add_def checked_sub_def
      checked_i64_def i64_bounds SELF_DESIRE_CONTRIBUTION_CAP_def readiness_score_def min_def)

definition initiative_outcome ::
    "proactive_intent \<Rightarrow> autonomy_policy option \<Rightarrow> bool \<Rightarrow> string \<Rightarrow> bool \<Rightarrow> initiative_decision" where
  "initiative_outcome i policy goal_is_active now rate_limited =
     (if intent_expired i now then DecisionExpired
      else case policy of
        None \<Rightarrow> DecisionCancelled
      | Some p \<Rightarrow>
          (if \<not> ap_enabled p \<or> \<not> goal_is_active then DecisionCancelled
           else if ap_max_ready_per_window p = 0 then DecisionStoredSilently
           else if quiet_gate i \<or> temporary_gate p i \<or> rate_limited then DecisionDeferred
           else if worth_interrupting i then DecisionReady
           else DecisionStoredSilently))"

definition temporal_complete ::
    "proactive_intent \<Rightarrow> autonomy_policy option \<Rightarrow> initiative_temporal_context \<Rightarrow> bool" where
  "temporal_complete i policy temporal \<longleftrightarrow>
     (\<forall>p. policy = Some p \<longrightarrow>
        ap_policy_version p = 1
        \<and> (quiet_gate i \<longrightarrow> tc_recent_interaction_not_before temporal \<noteq> None)
        \<and> (temporary_gate p i \<longrightarrow> tc_temporary_gate_not_before temporal \<noteq> None))"

definition rate_limited :: "initiative_temporal_context \<Rightarrow> bool" where
  "rate_limited temporal \<longleftrightarrow>
     tc_frequency_not_before temporal \<noteq> None \<or> tc_min_gap_not_before temporal \<noteq> None"

lemma evaluate_initiative_policy_open:
  assumes "proactive_intent_ok i" and "\<not> intent_expired i now"
    and "ap_policy_version p = 1" "ap_enabled p" "ap_max_ready_per_window p \<noteq> 0"
    and "quiet_gate i \<longrightarrow> tc_recent_interaction_not_before temporal \<noteq> None"
    and "temporary_gate p i \<longrightarrow> tc_temporary_gate_not_before temporal \<noteq> None"
  shows "evaluate_initiative_policy i (Some p) True now temporal =
    Inr (if quiet_gate i \<or> temporary_gate p i \<or> rate_limited temporal then DecisionDeferred
         else if worth_interrupting i then DecisionReady else DecisionStoredSilently)"
proof -
  let ?quiet = "case pi_recent_interaction_seconds i of
    None \<Rightarrow> True | Some s \<Rightarrow> s < RECENT_INTERACTION_QUIET_SECONDS"
  have quiet: "?quiet \<longleftrightarrow> quiet_gate i"
    by (auto simp: quiet_gate_def RECENT_INTERACTION_QUIET_SECONDS_def split: option.splits)
  have temp: "(ap_dnd p \<or> pi_focus_state i \<noteq> INTENT_FOCUS_STATE_AVAILABLE) \<longleftrightarrow> temporary_gate p i"
    by (simp add: temporary_gate_def INTENT_FOCUS_STATE_AVAILABLE_def)
  have acc: "(case pi_acceptance_score i of None \<Rightarrow> NEUTRAL_ACCEPTANCE_SCORE | Some a \<Rightarrow> a)
      = intent_acceptance i"
    by (simp add: intent_acceptance_def NEUTRAL_ACCEPTANCE_SCORE_def split: option.splits)
  have live: "\<not> (case pi_expires_at i of None \<Rightarrow> False | Some t \<Rightarrow> t \<le> now)"
    using assms(2) by (auto simp: intent_expired_def split: option.splits)
  obtain support cost where sums: "readiness_support i (intent_acceptance i) = Some support"
      "checked_mul (pi_interruption_cost i) 3 = Some cost"
      "checked_sub support cost = Some (readiness_score i)"
    using readiness_support_ok [OF assms(1)] by blast
  show ?thesis
  proof (cases "quiet_gate i \<or> temporary_gate p i \<or> rate_limited temporal")
    case True
    then show ?thesis
      unfolding evaluate_initiative_policy_def Let_def option.case(2) quiet temp acc using assms(3-7) live
      by (cases "quiet_gate i"; cases "temporary_gate p i")
        (auto simp: INITIATIVE_POLICY_VERSION_def rate_limited_def simp del: max_str.simps)
  next
    case False
    then show ?thesis
      unfolding evaluate_initiative_policy_def Let_def option.case(2) quiet temp acc using assms(3-5) live sums
      by (simp add: INITIATIVE_POLICY_VERSION_def rate_limited_def worth_interrupting_def
          MIN_USER_RELEVANCE_FOR_INTERRUPT_def MAX_INTERRUPTION_COST_FOR_INTERRUPT_def
          MIN_ACCEPTANCE_FOR_INTERRUPT_def READINESS_SCORE_THRESHOLD_def not_less not_le)
  qed
qed

lemma evaluate_initiative_policy_eq:
  assumes "proactive_intent_ok i" and "temporal_complete i policy temporal"
  shows "evaluate_initiative_policy i policy active now temporal =
    Inr (initiative_outcome i policy active now (rate_limited temporal))"
proof (cases "intent_expired i now")
  case True
  then show ?thesis
    by (auto simp: evaluate_initiative_policy_def initiative_outcome_def intent_expired_def)
next
  case False
  then have live: "\<not> (case pi_expires_at i of None \<Rightarrow> False | Some t \<Rightarrow> t \<le> now)"
    by (auto simp: intent_expired_def split: option.splits)
  show ?thesis
  proof (cases policy)
    case None
    with False live show ?thesis by (simp add: evaluate_initiative_policy_def initiative_outcome_def)
  next
    case (Some p)
    with assms(2) have p: "ap_policy_version p = 1"
        "quiet_gate i \<longrightarrow> tc_recent_interaction_not_before temporal \<noteq> None"
        "temporary_gate p i \<longrightarrow> tc_temporary_gate_not_before temporal \<noteq> None"
      by (auto simp: temporal_complete_def)
    show ?thesis
    proof (cases "ap_enabled p \<and> active \<and> ap_max_ready_per_window p \<noteq> 0")
      case True
      with evaluate_initiative_policy_open [OF assms(1) False p(1) _ _ p(2,3)] Some False
      show ?thesis by (simp add: initiative_outcome_def)
    next
      case not_open: False
      with Some False live p(1) show ?thesis
        by (auto simp: evaluate_initiative_policy_def initiative_outcome_def
            INITIATIVE_POLICY_VERSION_def)
    qed
  qed
qed

text \<open>
  When the decision is an error: a policy of another version, or a gate that asks to wait while the
  storage gave no time to wait until. An expired intent, one without a policy, a closed gate and a
  zero budget are decided before a missing time is noticed.
\<close>

definition gate_time_missing ::
    "proactive_intent \<Rightarrow> autonomy_policy \<Rightarrow> initiative_temporal_context \<Rightarrow> bool" where
  "gate_time_missing i p temporal \<longleftrightarrow>
     (quiet_gate i \<and> tc_recent_interaction_not_before temporal = None)
     \<or> (temporary_gate p i \<and> tc_temporary_gate_not_before temporal = None)"

definition undecidable_initiative ::
    "proactive_intent \<Rightarrow> autonomy_policy option \<Rightarrow> bool \<Rightarrow> string \<Rightarrow> initiative_temporal_context
     \<Rightarrow> bool" where
  "undecidable_initiative i policy goal_is_active now temporal \<longleftrightarrow>
     \<not> intent_expired i now
     \<and> (case policy of
          None \<Rightarrow> False
        | Some p \<Rightarrow>
            ap_policy_version p \<noteq> 1
            \<or> (ap_enabled p \<and> goal_is_active \<and> ap_max_ready_per_window p \<noteq> 0
               \<and> gate_time_missing i p temporal))"

lemma evaluate_initiative_policy_undecidable:
  assumes "undecidable_initiative i policy active now temporal"
  shows "evaluate_initiative_policy i policy active now temporal = Inl autonomy_invalid_argument"
proof -
  let ?quiet = "case pi_recent_interaction_seconds i of
    None \<Rightarrow> True | Some s \<Rightarrow> s < RECENT_INTERACTION_QUIET_SECONDS"
  have quiet: "?quiet \<longleftrightarrow> quiet_gate i"
    by (auto simp: quiet_gate_def RECENT_INTERACTION_QUIET_SECONDS_def split: option.splits)
  have live: "\<not> (case pi_expires_at i of None \<Rightarrow> False | Some t \<Rightarrow> t \<le> now)"
    using assms by (auto simp: undecidable_initiative_def intent_expired_def split: option.splits)
  from assms obtain p where policy: "policy = Some p"
    by (cases policy) (simp_all add: undecidable_initiative_def)
  have temp: "(ap_dnd p \<or> pi_focus_state i \<noteq> INTENT_FOCUS_STATE_AVAILABLE) \<longleftrightarrow> temporary_gate p i"
    by (simp add: temporary_gate_def INTENT_FOCUS_STATE_AVAILABLE_def)
  show ?thesis
  proof (cases "ap_policy_version p = 1")
    case False
    with live policy show ?thesis
      by (simp add: evaluate_initiative_policy_def INITIATIVE_POLICY_VERSION_def)
  next
    case True
    with assms policy have open_gate: "ap_enabled p" "active" "ap_max_ready_per_window p \<noteq> 0"
        and missing: "gate_time_missing i p temporal"
      by (simp_all add: undecidable_initiative_def)
    show ?thesis
    proof (cases "quiet_gate i \<and> tc_recent_interaction_not_before temporal = None")
      case True
      then show ?thesis
        unfolding evaluate_initiative_policy_def policy Let_def option.case(2) quiet
        using live open_gate \<open>ap_policy_version p = 1\<close> by (simp add: INITIATIVE_POLICY_VERSION_def)
    next
      case False
      then have "(if quiet_gate i
          then try_bind (ok_or (tc_recent_interaction_not_before temporal) autonomy_invalid_argument)
            (\<lambda>t. Inr [t]) else Inr [])
        = (Inr (if quiet_gate i then [the (tc_recent_interaction_not_before temporal)] else [])
            :: autonomy_error + string list)"
        by auto
      moreover have "temporary_gate p i" "tc_temporary_gate_not_before temporal = None"
        using missing False by (auto simp: gate_time_missing_def)
      ultimately show ?thesis
        unfolding evaluate_initiative_policy_def policy Let_def option.case(2) quiet temp
        using live open_gate \<open>ap_policy_version p = 1\<close>
        by (simp add: INITIATIVE_POLICY_VERSION_def)
    qed
  qed
qed

lemma evaluate_initiative_policy_cases:
  assumes ok: "proactive_intent_ok i"
  shows "evaluate_initiative_policy i policy active now temporal =
    (if undecidable_initiative i policy active now temporal then Inl autonomy_invalid_argument
     else Inr (initiative_outcome i policy active now (rate_limited temporal)))"
proof (cases "undecidable_initiative i policy active now temporal")
  case True
  then show ?thesis by (simp add: evaluate_initiative_policy_undecidable)
next
  case decidable: False
  show ?thesis
  proof (cases "temporal_complete i policy temporal")
    case True
    with decidable show ?thesis by (simp add: evaluate_initiative_policy_eq [OF ok])
  next
    case False
    then obtain p where p: "policy = Some p" and
        incomplete: "ap_policy_version p \<noteq> 1 \<or> gate_time_missing i p temporal"
      by (auto simp: temporal_complete_def gate_time_missing_def)
    with decidable have "intent_expired i now
        \<or> ap_policy_version p = 1 \<and> \<not> (ap_enabled p \<and> active \<and> ap_max_ready_per_window p \<noteq> 0)"
      by (auto simp: undecidable_initiative_def)
    then consider (expired) "intent_expired i now"
      | (closed) "\<not> intent_expired i now" "ap_policy_version p = 1"
          "\<not> (ap_enabled p \<and> active \<and> ap_max_ready_per_window p \<noteq> 0)" by blast
    then show ?thesis
    proof cases
      case expired
      then show ?thesis using decidable
        by (auto simp: evaluate_initiative_policy_def initiative_outcome_def intent_expired_def)
    next
      case closed
      then have "\<not> (case pi_expires_at i of None \<Rightarrow> False | Some t \<Rightarrow> t \<le> now)"
        by (auto simp: intent_expired_def split: option.splits)
      with closed decidable p show ?thesis
        by (cases "ap_enabled p \<and> active")
          (auto simp: evaluate_initiative_policy_def initiative_outcome_def
            INITIATIVE_POLICY_VERSION_def)
    qed
  qed
qed

text \<open>
  C9: the initiative policy on every valid intent, whatever policy, goal and times it is given. It
  fails in exactly two cases: the policy has another version than 1, or the policy is opted in, the
  goal is active, the budget is not zero and a gate that asks to wait has no time to wait until. No
  arithmetic of the score ever fails. Otherwise its decision is the specification: expiry first,
  then the opt-in and the goal, then a zero budget, then every reason to wait, and only then the
  score; and it answers ready in exactly the stated case.
\<close>

theorem initiative_policy_spec:
  assumes "proactive_intent_ok i"
  shows "evaluate_initiative_policy i policy active now temporal =
      (if undecidable_initiative i policy active now temporal then Inl autonomy_invalid_argument
       else Inr (initiative_outcome i policy active now (rate_limited temporal)))
    \<and> (evaluate_initiative_policy i policy active now temporal = Inr DecisionReady \<longleftrightarrow>
        \<not> intent_expired i now \<and> active
        \<and> (\<exists>p. policy = Some p \<and> ap_policy_version p = 1 \<and> is_effectively_enabled p
             \<and> ap_max_ready_per_window p \<noteq> 0)
        \<and> pi_focus_state i = ''available''
        \<and> (\<exists>s. pi_recent_interaction_seconds i = Some s \<and> 120 \<le> s)
        \<and> \<not> rate_limited temporal \<and> worth_interrupting i)"
  unfolding evaluate_initiative_policy_cases [OF assms]
  by (auto simp: initiative_outcome_def is_effectively_enabled_def quiet_gate_def
      temporary_gate_def undecidable_initiative_def gate_time_missing_def split: option.splits)

definition sample_policy :: autonomy_policy where
  "sample_policy =
     \<lparr>ap_life_id = ''life-a'', ap_enabled = True, ap_dnd = False, ap_max_ready_per_window = 1,
      ap_window_seconds = 3600, ap_min_gap_seconds = 60, ap_revision = 1,
      ap_created_at = ''2026-01-01T00:00:00.000Z'', ap_updated_at = ''2026-01-01T00:00:00.000Z'',
      ap_policy_version = 1\<rparr>"

definition sample_intent :: proactive_intent where
  "sample_intent =
     \<lparr>pi_intent_id = ''intent-1'', pi_life_id = ''life-a'', pi_goal_id = ''goal-1'',
      pi_intent_kind = ''goal_check_in'', pi_importance = 800, pi_user_relevance = 900,
      pi_self_desire = 700, pi_interruption_cost = 300, pi_focus_state = ''available'',
      pi_acceptance_score = None, pi_recent_interaction_seconds = Some 300,
      pi_status = ''pending'', pi_revision = 1, pi_created_by_kind = ''autonomy_policy'',
      pi_created_at = ''2026-01-01T00:00:00.000Z'', pi_updated_at = ''2026-01-01T00:00:00.000Z'',
      pi_not_before = None, pi_expires_at = None, pi_closed_at = None, pi_intent_version = 1\<rparr>"

lemma sample_strings:
  "autonomy_id_ok ''intent-1''" "autonomy_id_ok ''goal-1''" "\<not> str_blank ''life-a''"
  "\<not> str_blank ''2026-01-01T00:00:00.000Z''"
  by code_simp+

lemma sample_policy_ok: "autonomy_policy_ok sample_policy"
  by (simp add: autonomy_policy_ok_def sample_policy_def policy_values_ok_def sample_strings)

lemma sample_intent_ok: "proactive_intent_ok sample_intent"
  by (simp add: proactive_intent_ok_def intent_evidence_ok_def intent_columns_ok_def
      sample_intent_def sample_strings signal_ok_def is_intent_status_def autonomy_strings)

lemma initiative_policy_spec_witness:
  "evaluate_initiative_policy sample_intent (Some sample_policy) True ''2026-01-01T01:00:00.000Z''
     temporal_context_default = Inr DecisionReady
   \<and> evaluate_initiative_policy sample_intent (Some (sample_policy\<lparr>ap_dnd := True\<rparr>)) True
       ''2026-01-01T01:00:00.000Z'' temporal_context_default = Inl autonomy_invalid_argument"
  using initiative_policy_spec [OF sample_intent_ok, of "Some sample_policy" True
      "''2026-01-01T01:00:00.000Z''" temporal_context_default]
    initiative_policy_spec [OF sample_intent_ok, of "Some (sample_policy\<lparr>ap_dnd := True\<rparr>)" True
      "''2026-01-01T01:00:00.000Z''" temporal_context_default]
  by (simp add: undecidable_initiative_def gate_time_missing_def initiative_outcome_def
      sample_intent_def sample_policy_def intent_expired_def quiet_gate_def temporary_gate_def
      rate_limited_def temporal_context_default_def worth_interrupting_def readiness_score_def
      intent_acceptance_def)

end
