(* ===== verification/Autonomy_Store.thy ===== *)
theory Autonomy_Store
  imports Autonomy_Domain Revision_Store Life_Intent_History
begin

text \<open>
  The SQLite autonomy repository, \<open>src-tauri/src/storage/autonomy.rs\<close>, over the tables of
  \<open>migrations/023_autonomous_life_proactive_intent_authority.*.sql\<close>. \<open>io\<close> says which statements
  SQLite executes, \<open>now\<close> is its clock and \<open>strftime base modifier\<close> its date arithmetic (\<open>None\<close> for
  a failing or \<open>NULL\<close> result). The tables extend those of the life-intent repository, whose goals
  the intents belong to.
\<close>

section \<open>Tables\<close>

record autonomy_db = life_intent_db +
  autonomy_policy_rows :: "autonomy_policy list"
  autonomy_policy_event_rows :: "autonomy_policy_event list"
  intent_rows :: "proactive_intent list"
  intent_event_rows :: "intent_event list"

datatype autonomy_stmt =
    AutLock | AutBegin | AutCommit | AutNow | AutSelectLife | AutSelectGoal
  | AutSelectPolicy | AutInsertPolicy | AutReloadPolicy | AutUpdatePolicy
  | AutSelectPolicyEvent | AutInsertPolicyEvent | AutReloadPolicyEvent
  | AutSelectIntent | AutInsertIntent | AutReloadIntent | AutUpdateIntent
  | AutSelectIntentEvent | AutInsertIntentEvent | AutReloadIntentEvent
  | AutSelectWindow | AutSelectLatest

type_synonym autonomy_io = "autonomy_stmt \<Rightarrow> bool"

type_synonym sqlite_strftime = "string \<Rightarrow> string \<Rightarrow> string option"

definition sql_nonblank :: "string \<Rightarrow> bool" where
  "sql_nonblank v \<longleftrightarrow> sql_length (sql_trim v) > 0"

definition sql_id :: "string \<Rightarrow> bool" where
  "sql_id v \<longleftrightarrow> 1 \<le> sql_length (sql_trim v) \<and> sql_length (sql_trim v) \<le> 128"

definition autonomy_policy_row_check :: "autonomy_policy \<Rightarrow> bool" where
  "autonomy_policy_row_check p \<longleftrightarrow>
     sql_nonblank (ap_life_id p)
     \<and> 0 \<le> ap_max_ready_per_window p \<and> ap_max_ready_per_window p \<le> 32
     \<and> 60 \<le> ap_window_seconds p \<and> ap_window_seconds p \<le> 86400
     \<and> 0 \<le> ap_min_gap_seconds p \<and> ap_min_gap_seconds p \<le> 86400
     \<and> ap_revision p \<ge> 1 \<and> sql_nonblank (ap_created_at p) \<and> sql_nonblank (ap_updated_at p)
     \<and> ap_policy_version p = 1"

definition autonomy_policy_event_row_check :: "autonomy_policy_event \<Rightarrow> bool" where
  "autonomy_policy_event_row_check e \<longleftrightarrow>
     sql_id (ae_event_id e) \<and> sql_nonblank (ae_life_id e)
     \<and> 0 \<le> ae_old_max_ready_per_window e \<and> ae_old_max_ready_per_window e \<le> 32
     \<and> 0 \<le> ae_new_max_ready_per_window e \<and> ae_new_max_ready_per_window e \<le> 32
     \<and> 60 \<le> ae_old_window_seconds e \<and> ae_old_window_seconds e \<le> 86400
     \<and> 60 \<le> ae_new_window_seconds e \<and> ae_new_window_seconds e \<le> 86400
     \<and> 0 \<le> ae_old_min_gap_seconds e \<and> ae_old_min_gap_seconds e \<le> 86400
     \<and> 0 \<le> ae_new_min_gap_seconds e \<and> ae_new_min_gap_seconds e \<le> 86400
     \<and> ae_expected_revision e \<ge> 1 \<and> ae_expected_revision e < i64_max
     \<and> ae_applied_revision e = ae_expected_revision e + 1
     \<and> ae_actor_kind e = ''user_explicit'' \<and> sql_nonblank (ae_occurred_at e)
     \<and> ae_event_version e = 1"

definition sql_intent_status :: "string \<Rightarrow> bool" where
  "sql_intent_status v \<longleftrightarrow>
     v \<in> {''pending'', ''ready'', ''deferred'', ''stored_silently'', ''cancelled'', ''expired'',
          ''consumed''}"

definition intent_row_check :: "proactive_intent \<Rightarrow> bool" where
  "intent_row_check i \<longleftrightarrow>
     sql_id (pi_intent_id i) \<and> sql_nonblank (pi_life_id i) \<and> sql_id (pi_goal_id i)
     \<and> pi_intent_kind i = ''goal_check_in''
     \<and> signal_ok (pi_importance i) \<and> signal_ok (pi_user_relevance i)
     \<and> signal_ok (pi_self_desire i) \<and> signal_ok (pi_interruption_cost i)
     \<and> pi_focus_state i \<in> {''unknown'', ''available'', ''focused'', ''dnd''}
     \<and> optional_ok signal_ok (pi_acceptance_score i)
     \<and> optional_ok (\<lambda>s. s \<ge> 0) (pi_recent_interaction_seconds i)
     \<and> sql_intent_status (pi_status i) \<and> pi_revision i \<ge> 1
     \<and> pi_created_by_kind i = ''autonomy_policy''
     \<and> sql_nonblank (pi_created_at i) \<and> sql_nonblank (pi_updated_at i)
     \<and> optional_ok sql_nonblank (pi_not_before i) \<and> optional_ok sql_nonblank (pi_expires_at i)
     \<and> optional_ok sql_nonblank (pi_closed_at i) \<and> pi_intent_version i = 1
     \<and> ((pi_status i \<in> {''pending'', ''ready''} \<and> pi_not_before i = None)
        \<or> (pi_status i = ''deferred'' \<and> pi_not_before i \<noteq> None)
        \<or> (pi_status i \<in> {''stored_silently'', ''cancelled'', ''expired'', ''consumed''}
           \<and> pi_not_before i = None))
     \<and> ((pi_status i \<in> {''pending'', ''ready'', ''deferred''} \<and> pi_closed_at i = None)
        \<or> (pi_status i \<in> {''stored_silently'', ''cancelled'', ''expired'', ''consumed''}
           \<and> pi_closed_at i \<noteq> None))"

definition intent_event_row_check :: "intent_event \<Rightarrow> bool" where
  "intent_event_row_check e \<longleftrightarrow>
     sql_id (ie_event_id e) \<and> sql_nonblank (ie_life_id e) \<and> sql_id (ie_intent_id e)
     \<and> sql_intent_status (ie_from_status e) \<and> sql_intent_status (ie_to_status e)
     \<and> ie_expected_revision e \<ge> 1 \<and> ie_expected_revision e < i64_max
     \<and> ie_applied_revision e = ie_expected_revision e + 1
     \<and> optional_ok sql_nonblank (ie_not_before_after e)
     \<and> ie_actor_kind e = ''autonomy_policy'' \<and> sql_nonblank (ie_occurred_at e)
     \<and> ie_event_version e = 1 \<and> ie_from_status e \<noteq> ie_to_status e"

definition autonomy_policy_insert ::
    "autonomy_policy \<Rightarrow> 'a autonomy_db_scheme \<Rightarrow> sql_constraint + 'a autonomy_db_scheme" where
  "autonomy_policy_insert p db =
     (if \<not> autonomy_policy_row_check p then Inl SqlCheckFailed
      else if ap_life_id p \<in> set (map ap_life_id (autonomy_policy_rows db)) then Inl SqlUniqueFailed
      else if ap_life_id p \<notin> set (life_identity db) then Inl SqlForeignKeyFailed
      else Inr (db\<lparr>autonomy_policy_rows := autonomy_policy_rows db @ [p]\<rparr>))"

definition autonomy_policy_event_insert ::
    "autonomy_policy_event \<Rightarrow> 'a autonomy_db_scheme
     \<Rightarrow> sql_constraint + 'a autonomy_db_scheme" where
  "autonomy_policy_event_insert e db =
     (if \<not> autonomy_policy_event_row_check e then Inl SqlCheckFailed
      else if ae_event_id e \<in> set (map ae_event_id (autonomy_policy_event_rows db))
        then Inl SqlUniqueFailed
      else if ae_life_id e \<notin> set (map ap_life_id (autonomy_policy_rows db))
        then Inl SqlForeignKeyFailed
      else Inr (db\<lparr>autonomy_policy_event_rows := autonomy_policy_event_rows db @ [e]\<rparr>))"

definition intent_insert ::
    "proactive_intent \<Rightarrow> 'a autonomy_db_scheme \<Rightarrow> sql_constraint + 'a autonomy_db_scheme" where
  "intent_insert i db =
     (if \<not> intent_row_check i then Inl SqlCheckFailed
      else if pi_intent_id i \<in> set (map pi_intent_id (intent_rows db)) then Inl SqlUniqueFailed
      else if (pi_goal_id i, pi_life_id i) \<notin> life_keys (goal_rows db)
              \<or> pi_life_id i \<notin> set (life_identity db) then Inl SqlForeignKeyFailed
      else Inr (db\<lparr>intent_rows := intent_rows db @ [i]\<rparr>))"

definition intent_event_insert ::
    "intent_event \<Rightarrow> 'a autonomy_db_scheme \<Rightarrow> sql_constraint + 'a autonomy_db_scheme" where
  "intent_event_insert e db =
     (if \<not> intent_event_row_check e then Inl SqlCheckFailed
      else if ie_event_id e \<in> set (map ie_event_id (intent_event_rows db)) then Inl SqlUniqueFailed
      else if (ie_intent_id e, ie_life_id e)
              \<notin> set (map (\<lambda>i. (pi_intent_id i, pi_life_id i)) (intent_rows db))
        then Inl SqlForeignKeyFailed
      else Inr (db\<lparr>intent_event_rows := intent_event_rows db @ [e]\<rparr>))"

text \<open>
  \<open>ON DELETE CASCADE\<close> of the two intent tables: when the goals with the keys \<open>gone\<close> are deleted, their
  intents go with them, and with these their events.
\<close>

definition cascade_intents ::
    "(string \<times> string) set \<Rightarrow> 'a autonomy_db_scheme \<Rightarrow> 'a autonomy_db_scheme" where
  "cascade_intents gone db =
     (let gone_intents = set (map (\<lambda>i. (pi_intent_id i, pi_life_id i))
            (filter (\<lambda>i. (pi_goal_id i, pi_life_id i) \<in> gone) (intent_rows db))) in
      db\<lparr>intent_rows := filter (\<lambda>i. (pi_goal_id i, pi_life_id i) \<notin> gone) (intent_rows db),
         intent_event_rows :=
           filter (\<lambda>e. (ie_intent_id e, ie_life_id e) \<notin> gone_intents) (intent_event_rows db)\<rparr>)"

definition life_intent_step_cascading ::
    "life_intent_op \<Rightarrow> 'a autonomy_db_scheme \<Rightarrow> 'a autonomy_db_scheme" where
  "life_intent_step_cascading op db =
     (let db1 = life_intent_op_step op db
      in cascade_intents (life_keys (goal_rows db) - life_keys (goal_rows db1)) db1)"

text \<open>
  \<open>delete_goal\<close> of the life-intent repository as it runs on the whole database: its answer, and the
  cascade into the tables of intents.
\<close>

definition delete_goal_with_intents ::
    "life_intent_io \<Rightarrow> string \<Rightarrow> string \<Rightarrow> 'a autonomy_db_scheme
     \<Rightarrow> (life_intent_error + bool) \<times> 'a autonomy_db_scheme" where
  "delete_goal_with_intents io life goal db =
     (let (res, db1) = delete_goal io life goal db
      in (res, cascade_intents (life_keys (goal_rows db) - life_keys (goal_rows db1)) db1))"

section \<open>Lookups\<close>

definition autonomy_validate_lookup_argument :: "string \<Rightarrow> autonomy_error + unit" where
  "autonomy_validate_lookup_argument v = require (\<not> str_blank v) autonomy_invalid_argument"

definition autonomy_validate_lookup_arguments :: "string \<Rightarrow> string \<Rightarrow> autonomy_error + unit" where
  "autonomy_validate_lookup_arguments life entity =
     try_seq (autonomy_validate_lookup_argument life) (autonomy_validate_lookup_argument entity)"

definition seconds_modifier :: "int \<Rightarrow> string" where
  "seconds_modifier seconds =
     (if seconds \<ge> 0 then CHR ''+'' # int_to_dec seconds else int_to_dec seconds) @ '' seconds''"

definition sqlite_add_seconds ::
    "sqlite_strftime \<Rightarrow> string \<Rightarrow> int \<Rightarrow> autonomy_error + string" where
  "sqlite_add_seconds strftime base seconds =
     ok_or (strftime base (seconds_modifier seconds)) autonomy_database"

definition autonomy_next_revision :: "int \<Rightarrow> autonomy_error + int" where
  "autonomy_next_revision expected = ok_or (checked_add expected 1) autonomy_invalid_argument"

definition select_autonomy_policy :: "string \<Rightarrow> 'a autonomy_db_scheme \<Rightarrow> autonomy_policy option" where
  "select_autonomy_policy life db = find (\<lambda>p. ap_life_id p = life) (autonomy_policy_rows db)"

definition select_policy_event ::
    "string \<Rightarrow> 'a autonomy_db_scheme \<Rightarrow> autonomy_policy_event option" where
  "select_policy_event i db = find (\<lambda>e. ae_event_id e = i) (autonomy_policy_event_rows db)"

definition select_intent_by_id :: "string \<Rightarrow> 'a autonomy_db_scheme \<Rightarrow> proactive_intent option" where
  "select_intent_by_id i db = find (\<lambda>r. pi_intent_id r = i) (intent_rows db)"

definition select_intent ::
    "string \<Rightarrow> string \<Rightarrow> 'a autonomy_db_scheme \<Rightarrow> proactive_intent option" where
  "select_intent life i db =
     find (\<lambda>r. pi_life_id r = life \<and> pi_intent_id r = i) (intent_rows db)"

definition select_intent_event :: "string \<Rightarrow> 'a autonomy_db_scheme \<Rightarrow> intent_event option" where
  "select_intent_event i db = find (\<lambda>e. ie_event_id e = i) (intent_event_rows db)"

text \<open>\<open>query_row(..).optional()\<close> of one of these, with the failure of the statement.\<close>

definition query :: "bool \<Rightarrow> 'r \<Rightarrow> autonomy_error + 'r" where
  "query executes result = (if executes then Inr result else Inl autonomy_database)"

definition load_goal_is_active ::
    "autonomy_io \<Rightarrow> string \<Rightarrow> string \<Rightarrow> 'a autonomy_db_scheme \<Rightarrow> autonomy_error + bool" where
  "load_goal_is_active io life goal db =
     try_bind (query (io AutSelectGoal)
                (find (\<lambda>g. le_id g = goal \<and> le_life_id g = life) (goal_rows db)))
       (\<lambda>row. Inr (map_option le_status row = Some ''active''))"

definition autonomy_require_life ::
    "autonomy_io \<Rightarrow> string \<Rightarrow> 'a autonomy_db_scheme \<Rightarrow> autonomy_error + unit" where
  "autonomy_require_life io life db =
     try_bind (query (io AutSelectLife) (life \<in> set (life_identity db))) (\<lambda>exists.
     require exists autonomy_life_not_found)"

definition require_active_goal ::
    "autonomy_io \<Rightarrow> string \<Rightarrow> string \<Rightarrow> 'a autonomy_db_scheme \<Rightarrow> autonomy_error + unit" where
  "require_active_goal io life goal db =
     try_bind (query (io AutSelectGoal) (find (\<lambda>g. le_id g = goal) (goal_rows db))) (\<lambda>found.
     case found of
       None \<Rightarrow> Inl autonomy_goal_not_found
     | Some g \<Rightarrow>
         if le_life_id g \<noteq> life then Inl autonomy_goal_life_mismatch
         else if le_status g \<noteq> ''active'' then Inl autonomy_goal_not_active
         else Inr ())"

record ready_event_history =
  rh_count_in_window :: nat
  rh_oldest_in_window :: "string option"
  rh_latest :: "string option"

fun min_str :: "string list \<Rightarrow> string option" where
  "min_str [] = None"
| "min_str (x # xs) = (case min_str xs of None \<Rightarrow> Some x | Some m \<Rightarrow> Some (if m \<le> x then m else x))"

definition ready_times :: "string \<Rightarrow> (string \<Rightarrow> bool) \<Rightarrow> 'a autonomy_db_scheme \<Rightarrow> string list" where
  "ready_times life p db =
     map ie_occurred_at
       (filter (\<lambda>e. ie_life_id e = life \<and> ie_to_status e = ''ready'' \<and> p (ie_occurred_at e))
          (intent_event_rows db))"

definition load_ready_event_history ::
    "autonomy_io \<Rightarrow> sqlite_strftime \<Rightarrow> string \<Rightarrow> string \<Rightarrow> int \<Rightarrow> 'a autonomy_db_scheme
     \<Rightarrow> autonomy_error + ready_event_history" where
  "load_ready_event_history io strftime life now window_seconds db =
     try_bind (sqlite_add_seconds strftime now (- window_seconds)) (\<lambda>window_start.
     try_bind (query (io AutSelectWindow)
                (ready_times life (\<lambda>t. t \<ge> window_start \<and> t \<le> now) db)) (\<lambda>window.
     try_bind (query (io AutSelectLatest) (ready_times life (\<lambda>t. t \<le> now) db)) (\<lambda>all.
     Inr \<lparr>rh_count_in_window = length window, rh_oldest_in_window = min_str window,
          rh_latest = max_str all\<rparr>)))"

section \<open>Evidence\<close>

definition autonomy_create_evidence_matches ::
    "autonomy_policy \<Rightarrow> autonomy_create_request \<Rightarrow> bool" where
  "autonomy_create_evidence_matches p r \<longleftrightarrow>
     ap_life_id p = ac_life_id r \<and> ap_enabled p = ac_enabled r \<and> ap_dnd p = ac_dnd r
     \<and> ap_max_ready_per_window p = ac_max_ready_per_window r
     \<and> ap_window_seconds p = ac_window_seconds r \<and> ap_min_gap_seconds p = ac_min_gap_seconds r"

definition policy_event_evidence_matches ::
    "autonomy_policy_event \<Rightarrow> autonomy_update_request \<Rightarrow> int \<Rightarrow> bool" where
  "policy_event_evidence_matches e r applied_revision \<longleftrightarrow>
     ae_event_id e = au_event_id r \<and> ae_life_id e = au_life_id r
     \<and> ae_new_enabled e = au_enabled r \<and> ae_new_dnd e = au_dnd r
     \<and> ae_new_max_ready_per_window e = au_max_ready_per_window r
     \<and> ae_new_window_seconds e = au_window_seconds r
     \<and> ae_new_min_gap_seconds e = au_min_gap_seconds r
     \<and> ae_expected_revision e = au_expected_revision r \<and> ae_applied_revision e = applied_revision
     \<and> ae_actor_kind e = POLICY_ACTOR_KIND_USER_EXPLICIT
     \<and> ae_event_version e = AUTONOMY_POLICY_EVENT_VERSION"

definition intent_create_evidence_matches ::
    "proactive_intent \<Rightarrow> intent_create_request \<Rightarrow> bool" where
  "intent_create_evidence_matches i r \<longleftrightarrow>
     pi_intent_id i = ir_intent_id r \<and> pi_life_id i = ir_life_id r \<and> pi_goal_id i = ir_goal_id r
     \<and> pi_intent_kind i = ir_intent_kind r \<and> pi_importance i = ir_importance r
     \<and> pi_user_relevance i = ir_user_relevance r \<and> pi_self_desire i = ir_self_desire r
     \<and> pi_interruption_cost i = ir_interruption_cost r \<and> pi_focus_state i = ir_focus_state r
     \<and> pi_acceptance_score i = ir_acceptance_score r
     \<and> pi_recent_interaction_seconds i = ir_recent_interaction_seconds r
     \<and> pi_expires_at i = ir_expires_at r"

definition intent_event_evidence_matches ::
    "intent_event \<Rightarrow> intent_evaluation_request \<Rightarrow> int \<Rightarrow> bool" where
  "intent_event_evidence_matches e r applied_revision \<longleftrightarrow>
     ie_event_id e = iq_event_id r \<and> ie_life_id e = iq_life_id r \<and> ie_intent_id e = iq_intent_id r
     \<and> ie_from_status e = INTENT_STATUS_PENDING
     \<and> ie_expected_revision e = iq_expected_revision r \<and> ie_applied_revision e = applied_revision
     \<and> ie_actor_kind e = INTENT_EVENT_ACTOR_KIND_AUTONOMY_POLICY
     \<and> ie_event_version e = INTENT_EVENT_VERSION"

section \<open>The policy\<close>

definition autonomy_policy_of_create :: "string \<Rightarrow> autonomy_create_request \<Rightarrow> autonomy_policy" where
  "autonomy_policy_of_create now r =
     \<lparr>ap_life_id = ac_life_id r, ap_enabled = ac_enabled r, ap_dnd = ac_dnd r,
      ap_max_ready_per_window = ac_max_ready_per_window r,
      ap_window_seconds = ac_window_seconds r, ap_min_gap_seconds = ac_min_gap_seconds r,
      ap_revision = 1, ap_created_at = now, ap_updated_at = now, ap_policy_version = 1\<rparr>"

definition autonomy_create_in_transaction ::
    "autonomy_io \<Rightarrow> string \<Rightarrow> autonomy_create_request \<Rightarrow> 'a autonomy_db_scheme
     \<Rightarrow> autonomy_error + autonomy_policy autonomy_create_outcome \<times> 'a autonomy_db_scheme" where
  "autonomy_create_in_transaction io now r db =
     try_seq (validate_policy_create_request r)
     (try_bind (query (io AutSelectPolicy) (select_autonomy_policy (ac_life_id r) db)) (\<lambda>found.
      case found of
        Some existing \<Rightarrow>
          (if autonomy_create_evidence_matches existing r
           then try_seq (autonomy_validate_policy_state existing)
                  (Inr (AutonomyCreateReplayed existing, db))
           else Inl autonomy_policy_conflict)
      | None \<Rightarrow>
          try_seq (autonomy_require_life io (ac_life_id r) db)
          (if \<not> io AutNow \<or> \<not> io AutInsertPolicy then Inl autonomy_database
           else case autonomy_policy_insert (autonomy_policy_of_create now r) db of
                  Inl _ \<Rightarrow> Inl autonomy_database
                | Inr db' \<Rightarrow>
                    try_bind (query (io AutReloadPolicy) (select_autonomy_policy (ac_life_id r) db'))
                      (\<lambda>reloaded.
                    try_bind (ok_or reloaded autonomy_database) (\<lambda>created.
                    try_seq (autonomy_validate_policy_state created)
                      (Inr (AutonomyCreated created, db')))))))"

definition autonomy_policy_after ::
    "string \<Rightarrow> int \<Rightarrow> autonomy_update_request \<Rightarrow> autonomy_policy \<Rightarrow> autonomy_policy" where
  "autonomy_policy_after now applied_revision r p =
     p\<lparr>ap_enabled := au_enabled r, ap_dnd := au_dnd r,
       ap_max_ready_per_window := au_max_ready_per_window r,
       ap_window_seconds := au_window_seconds r, ap_min_gap_seconds := au_min_gap_seconds r,
       ap_revision := applied_revision, ap_updated_at := now\<rparr>"

text \<open>\<open>UPDATE life_autonomy_policy \<dots> WHERE life_id = ?8 AND revision = ?9\<close>.\<close>

definition autonomy_policy_update ::
    "string \<Rightarrow> int \<Rightarrow> autonomy_update_request \<Rightarrow> 'a autonomy_db_scheme
     \<Rightarrow> (nat \<times> 'a autonomy_db_scheme) option" where
  "autonomy_policy_update now applied_revision r db =
     (let p = (\<lambda>p. ap_life_id p = au_life_id r \<and> ap_revision p = au_expected_revision r);
          f = autonomy_policy_after now applied_revision r
      in if \<exists>row \<in> set (autonomy_policy_rows db). p row \<and> \<not> autonomy_policy_row_check (f row) then None
         else let (changed, rows) = sql_update p f (autonomy_policy_rows db)
              in Some (changed, db\<lparr>autonomy_policy_rows := rows\<rparr>))"

definition policy_event_of ::
    "string \<Rightarrow> int \<Rightarrow> autonomy_update_request \<Rightarrow> autonomy_policy \<Rightarrow> autonomy_policy_event" where
  "policy_event_of now applied_revision r current =
     \<lparr>ae_event_id = au_event_id r, ae_life_id = au_life_id r,
      ae_old_enabled = ap_enabled current, ae_new_enabled = au_enabled r,
      ae_old_dnd = ap_dnd current, ae_new_dnd = au_dnd r,
      ae_old_max_ready_per_window = ap_max_ready_per_window current,
      ae_new_max_ready_per_window = au_max_ready_per_window r,
      ae_old_window_seconds = ap_window_seconds current,
      ae_new_window_seconds = au_window_seconds r,
      ae_old_min_gap_seconds = ap_min_gap_seconds current,
      ae_new_min_gap_seconds = au_min_gap_seconds r,
      ae_expected_revision = au_expected_revision r, ae_applied_revision = applied_revision,
      ae_actor_kind = POLICY_ACTOR_KIND_USER_EXPLICIT, ae_occurred_at = now,
      ae_event_version = AUTONOMY_POLICY_EVENT_VERSION\<rparr>"

definition autonomy_apply_update ::
    "autonomy_io \<Rightarrow> string \<Rightarrow> int \<Rightarrow> autonomy_update_request \<Rightarrow> autonomy_policy
     \<Rightarrow> 'a autonomy_db_scheme \<Rightarrow> autonomy_error + autonomy_update_outcome \<times> 'a autonomy_db_scheme" where
  "autonomy_apply_update io now applied_revision r current db =
     (if \<not> io AutNow \<or> \<not> io AutUpdatePolicy then Inl autonomy_database
      else case autonomy_policy_update now applied_revision r db of
        None \<Rightarrow> Inl autonomy_database
      | Some (changed, db1) \<Rightarrow>
        (if changed \<noteq> 1 then Inl autonomy_revision_conflict
         else let event = policy_event_of now applied_revision r current in
         try_seq (validate_policy_event_state event)
         (if \<not> io AutInsertPolicyEvent then Inl autonomy_database
          else case autonomy_policy_event_insert event db1 of
            Inl _ \<Rightarrow> Inl autonomy_database
          | Inr db2 \<Rightarrow>
            try_bind (query (io AutReloadPolicyEvent) (select_policy_event (ae_event_id event) db2))
              (\<lambda>found_event.
            try_bind (ok_or found_event autonomy_database) (\<lambda>persisted_event.
            try_bind (query (io AutReloadPolicy) (select_autonomy_policy (ae_life_id event) db2))
              (\<lambda>found_policy.
            try_bind (ok_or found_policy autonomy_policy_not_found) (\<lambda>persisted_policy.
            try_seq (validate_policy_event_state persisted_event)
            (try_seq (autonomy_validate_policy_state persisted_policy)
            (Inr (AutonomyPolicyApplied persisted_event persisted_policy, db2))))))))))"

definition autonomy_update_in_transaction ::
    "autonomy_io \<Rightarrow> string \<Rightarrow> autonomy_update_request \<Rightarrow> 'a autonomy_db_scheme
     \<Rightarrow> autonomy_error + autonomy_update_outcome \<times> 'a autonomy_db_scheme" where
  "autonomy_update_in_transaction io now r db =
     try_seq (validate_policy_update_request r)
     (try_bind (autonomy_next_revision (au_expected_revision r)) (\<lambda>applied_revision.
      try_bind (query (io AutSelectPolicyEvent) (select_policy_event (au_event_id r) db)) (\<lambda>found.
      case found of
        Some existing_event \<Rightarrow>
          (if policy_event_evidence_matches existing_event r applied_revision
           then try_bind (query (io AutSelectPolicy) (select_autonomy_policy (au_life_id r) db))
                  (\<lambda>found_policy.
                try_bind (ok_or found_policy autonomy_policy_not_found) (\<lambda>current.
                try_seq (validate_policy_event_state existing_event)
                (try_seq (autonomy_validate_policy_state current)
                (Inr (AutonomyPolicyReplayed existing_event current, db)))))
           else Inl autonomy_policy_event_conflict)
      | None \<Rightarrow>
          try_bind (query (io AutSelectPolicy) (select_autonomy_policy (au_life_id r) db))
            (\<lambda>found_policy.
          try_bind (ok_or found_policy autonomy_policy_not_found) (\<lambda>current.
          try_seq (autonomy_validate_policy_state current)
          (if ap_revision current \<noteq> au_expected_revision r then Inl autonomy_revision_conflict
           else autonomy_apply_update io now applied_revision r current db))))))"

section \<open>Proactive intents\<close>

definition intent_of_create :: "string \<Rightarrow> intent_create_request \<Rightarrow> proactive_intent" where
  "intent_of_create now r =
     \<lparr>pi_intent_id = ir_intent_id r, pi_life_id = ir_life_id r, pi_goal_id = ir_goal_id r,
      pi_intent_kind = ir_intent_kind r, pi_importance = ir_importance r,
      pi_user_relevance = ir_user_relevance r, pi_self_desire = ir_self_desire r,
      pi_interruption_cost = ir_interruption_cost r, pi_focus_state = ir_focus_state r,
      pi_acceptance_score = ir_acceptance_score r,
      pi_recent_interaction_seconds = ir_recent_interaction_seconds r,
      pi_status = INTENT_STATUS_PENDING, pi_revision = 1,
      pi_created_by_kind = INTENT_CREATED_BY_KIND_AUTONOMY_POLICY,
      pi_created_at = now, pi_updated_at = now, pi_not_before = None,
      pi_expires_at = ir_expires_at r, pi_closed_at = None, pi_intent_version = INTENT_VERSION\<rparr>"

definition create_pending_intent_in_transaction ::
    "autonomy_io \<Rightarrow> string \<Rightarrow> intent_create_request \<Rightarrow> 'a autonomy_db_scheme
     \<Rightarrow> autonomy_error + proactive_intent autonomy_create_outcome \<times> 'a autonomy_db_scheme" where
  "create_pending_intent_in_transaction io now r db =
     try_seq (validate_intent_create_request r)
     (try_bind (query (io AutSelectIntent) (select_intent_by_id (ir_intent_id r) db)) (\<lambda>found.
      case found of
        Some existing \<Rightarrow>
          (if intent_create_evidence_matches existing r
           then try_seq (validate_intent_state existing) (Inr (AutonomyCreateReplayed existing, db))
           else Inl proactive_intent_conflict)
      | None \<Rightarrow>
          try_bind (query (io AutSelectPolicy) (select_autonomy_policy (ir_life_id r) db))
            (\<lambda>found_policy.
          try_bind (ok_or found_policy autonomy_policy_not_found) (\<lambda>policy.
          try_seq (autonomy_validate_policy_state policy)
          (if \<not> ap_enabled policy then Inl autonomy_policy_disabled
           else try_seq (require_active_goal io (ir_life_id r) (ir_goal_id r) db)
           (if \<not> io AutNow \<or> \<not> io AutInsertIntent then Inl autonomy_database
            else case intent_insert (intent_of_create now r) db of
                   Inl _ \<Rightarrow> Inl autonomy_database
                 | Inr db' \<Rightarrow>
                     try_bind (query (io AutReloadIntent) (select_intent_by_id (ir_intent_id r) db'))
                       (\<lambda>reloaded.
                     try_bind (ok_or reloaded autonomy_database) (\<lambda>created.
                     try_seq (validate_intent_state created)
                       (Inr (AutonomyCreated created, db'))))))))))"

definition latest_defer_candidate :: "initiative_temporal_context \<Rightarrow> string option" where
  "latest_defer_candidate c =
     max_str (List.map_filter id
       [tc_recent_interaction_not_before c, tc_temporary_gate_not_before c,
        tc_frequency_not_before c, tc_min_gap_not_before c])"

text \<open>The timestamps of an open decision: no expiry, an enabled policy, an active goal.\<close>

definition recent_not_before ::
    "sqlite_strftime \<Rightarrow> string \<Rightarrow> proactive_intent \<Rightarrow> autonomy_error + string option" where
  "recent_not_before strftime now i =
     (case pi_recent_interaction_seconds i of
        None \<Rightarrow> try_bind (sqlite_add_seconds strftime now MIN_RECHECK_SECONDS) (\<lambda>t. Inr (Some t))
      | Some seconds \<Rightarrow>
          if seconds < RECENT_INTERACTION_QUIET_SECONDS
          then try_bind (sqlite_add_seconds strftime now (RECENT_INTERACTION_QUIET_SECONDS - seconds))
                 (\<lambda>t. Inr (Some t))
          else Inr None)"

definition temporary_not_before ::
    "sqlite_strftime \<Rightarrow> string \<Rightarrow> autonomy_policy \<Rightarrow> proactive_intent
     \<Rightarrow> autonomy_error + string option" where
  "temporary_not_before strftime now p i =
     (if ap_dnd p \<or> pi_focus_state i \<noteq> INTENT_FOCUS_STATE_AVAILABLE
      then try_bind (sqlite_add_seconds strftime now (max MIN_RECHECK_SECONDS (ap_min_gap_seconds p)))
             (\<lambda>t. Inr (Some t))
      else Inr None)"

definition history_not_before ::
    "autonomy_io \<Rightarrow> sqlite_strftime \<Rightarrow> string \<Rightarrow> autonomy_policy \<Rightarrow> string \<Rightarrow> 'a autonomy_db_scheme
     \<Rightarrow> autonomy_error + string option \<times> string option" where
  "history_not_before io strftime now p life db =
     (if \<not> ap_max_ready_per_window p > 0 then Inr (None, None)
      else
      try_bind (load_ready_event_history io strftime life now (ap_window_seconds p) db) (\<lambda>history.
      try_bind (if int (rh_count_in_window history) \<ge> ap_max_ready_per_window p
                then try_bind (ok_or (rh_oldest_in_window history) autonomy_database) (\<lambda>oldest.
                     try_bind (sqlite_add_seconds strftime oldest (ap_window_seconds p)) (\<lambda>t.
                     Inr (Some t)))
                else Inr None) (\<lambda>frequency.
      try_bind (case rh_latest history of
                  None \<Rightarrow> Inr None
                | Some latest \<Rightarrow>
                    try_bind (sqlite_add_seconds strftime latest (ap_min_gap_seconds p))
                      (\<lambda>candidate. Inr (if candidate > now then Some candidate else None)))
        (\<lambda>min_gap.
      Inr (frequency, min_gap)))))"

definition intent_temporal_context ::
    "autonomy_io \<Rightarrow> sqlite_strftime \<Rightarrow> string \<Rightarrow> autonomy_policy \<Rightarrow> proactive_intent
     \<Rightarrow> 'a autonomy_db_scheme \<Rightarrow> autonomy_error + initiative_temporal_context" where
  "intent_temporal_context io strftime now p i db =
     try_bind (recent_not_before strftime now i) (\<lambda>recent.
     try_bind (temporary_not_before strftime now p i) (\<lambda>temporary.
     try_bind (history_not_before io strftime now p (pi_life_id i) db) (\<lambda>(frequency, min_gap).
     Inr \<lparr>tc_recent_interaction_not_before = recent, tc_temporary_gate_not_before = temporary,
          tc_frequency_not_before = frequency, tc_min_gap_not_before = min_gap\<rparr>)))"

text \<open>The status, \<open>not_before\<close> and \<open>closed_at\<close> a decision gives.\<close>

fun decision_columns ::
    "initiative_decision \<Rightarrow> string \<Rightarrow> string option
     \<Rightarrow> autonomy_error + string \<times> string option \<times> string option" where
  "decision_columns DecisionReady now _ = Inr (INTENT_STATUS_READY, None, None)"
| "decision_columns DecisionDeferred now deferred =
     try_bind (ok_or deferred autonomy_invalid_argument) (\<lambda>t.
     Inr (INTENT_STATUS_DEFERRED, Some t, None))"
| "decision_columns DecisionStoredSilently now _ =
     Inr (INTENT_STATUS_STORED_SILENTLY, None, Some now)"
| "decision_columns DecisionCancelled now _ = Inr (INTENT_STATUS_CANCELLED, None, Some now)"
| "decision_columns DecisionExpired now _ = Inr (INTENT_STATUS_EXPIRED, None, Some now)"

text \<open>
  The decision: what is loaded, and what it makes of the intent. The life of the request is the one
  of the intent here, which was checked before.
\<close>

definition intent_decide ::
    "autonomy_io \<Rightarrow> sqlite_strftime \<Rightarrow> string \<Rightarrow> proactive_intent \<Rightarrow> 'a autonomy_db_scheme
     \<Rightarrow> autonomy_error + string \<times> string option \<times> string option" where
  "intent_decide io strftime now current db =
     (let expired = (case pi_expires_at current of None \<Rightarrow> False | Some t \<Rightarrow> t \<le> now) in
      try_bind (if expired then Inr None
                else try_bind (query (io AutSelectPolicy)
                                (select_autonomy_policy (pi_life_id current) db)) (\<lambda>found.
                     case found of
                       None \<Rightarrow> Inr None
                     | Some p \<Rightarrow> try_seq (autonomy_validate_policy_state p) (Inr (Some p)))) (\<lambda>policy.
      try_bind (case policy of
                  None \<Rightarrow> Inr False
                | Some p \<Rightarrow>
                    if ap_enabled p
                    then load_goal_is_active io (pi_life_id current) (pi_goal_id current) db
                    else Inr False) (\<lambda>goal_is_active.
      try_bind (case policy of
                  None \<Rightarrow> Inr temporal_context_default
                | Some p \<Rightarrow>
                    if \<not> expired \<and> ap_enabled p \<and> goal_is_active
                    then intent_temporal_context io strftime now p current db
                    else Inr temporal_context_default) (\<lambda>temporal.
      try_bind (evaluate_initiative_policy current policy goal_is_active now temporal) (\<lambda>decision.
      decision_columns decision now (latest_defer_candidate temporal))))))"

definition intent_after ::
    "string \<Rightarrow> int \<Rightarrow> string \<times> string option \<times> string option \<Rightarrow> proactive_intent
     \<Rightarrow> proactive_intent" where
  "intent_after now applied_revision columns i =
     (case columns of (to_status, not_before, closed_at) \<Rightarrow>
        i\<lparr>pi_status := to_status, pi_revision := applied_revision, pi_updated_at := now,
          pi_not_before := not_before, pi_closed_at := closed_at\<rparr>)"

text \<open>The \<open>UPDATE \<dots> WHERE intent_id AND life_id AND revision AND status = 'pending'\<close>.\<close>

definition intent_update ::
    "string \<Rightarrow> int \<Rightarrow> string \<times> string option \<times> string option \<Rightarrow> intent_evaluation_request
     \<Rightarrow> 'a autonomy_db_scheme \<Rightarrow> (nat \<times> 'a autonomy_db_scheme) option" where
  "intent_update now applied_revision columns r db =
     (let p = (\<lambda>i. pi_intent_id i = iq_intent_id r \<and> pi_life_id i = iq_life_id r
                  \<and> pi_revision i = iq_expected_revision r \<and> pi_status i = ''pending'');
          f = intent_after now applied_revision columns
      in if \<exists>row \<in> set (intent_rows db). p row \<and> \<not> intent_row_check (f row) then None
         else let (changed, rows) = sql_update p f (intent_rows db)
              in Some (changed, db\<lparr>intent_rows := rows\<rparr>))"

definition intent_event_of ::
    "string \<Rightarrow> int \<Rightarrow> string \<times> string option \<times> string option \<Rightarrow> intent_evaluation_request
     \<Rightarrow> intent_event" where
  "intent_event_of now applied_revision columns r =
     \<lparr>ie_event_id = iq_event_id r, ie_life_id = iq_life_id r, ie_intent_id = iq_intent_id r,
      ie_from_status = INTENT_STATUS_PENDING, ie_to_status = fst columns,
      ie_expected_revision = iq_expected_revision r, ie_applied_revision = applied_revision,
      ie_not_before_after = fst (snd columns),
      ie_actor_kind = INTENT_EVENT_ACTOR_KIND_AUTONOMY_POLICY, ie_occurred_at = now,
      ie_event_version = INTENT_EVENT_VERSION\<rparr>"

definition intent_apply ::
    "autonomy_io \<Rightarrow> string \<Rightarrow> int \<Rightarrow> string \<times> string option \<times> string option
     \<Rightarrow> intent_evaluation_request \<Rightarrow> 'a autonomy_db_scheme
     \<Rightarrow> autonomy_error + intent_evaluation_outcome \<times> 'a autonomy_db_scheme" where
  "intent_apply io now applied_revision columns r db =
     (if \<not> io AutUpdateIntent then Inl autonomy_database
      else case intent_update now applied_revision columns r db of
        None \<Rightarrow> Inl autonomy_database
      | Some (changed, db1) \<Rightarrow>
        (if changed \<noteq> 1 then Inl autonomy_revision_conflict
         else let event = intent_event_of now applied_revision columns r in
         try_seq (validate_intent_event_state event)
         (if \<not> io AutInsertIntentEvent then Inl autonomy_database
          else case intent_event_insert event db1 of
            Inl _ \<Rightarrow> Inl autonomy_database
          | Inr db2 \<Rightarrow>
            try_bind (query (io AutReloadIntentEvent) (select_intent_event (ie_event_id event) db2))
              (\<lambda>found_event.
            try_bind (ok_or found_event autonomy_database) (\<lambda>persisted_event.
            try_bind (query (io AutReloadIntent)
                       (select_intent (ie_life_id event) (ie_intent_id event) db2)) (\<lambda>found_intent.
            try_bind (ok_or found_intent autonomy_intent_not_found) (\<lambda>persisted_intent.
            try_seq (validate_intent_event_state persisted_event)
            (try_seq (validate_intent_state persisted_intent)
            (Inr (IntentApplied persisted_event persisted_intent, db2))))))))))"

definition evaluate_pending_intent_in_transaction ::
    "autonomy_io \<Rightarrow> sqlite_strftime \<Rightarrow> string \<Rightarrow> intent_evaluation_request
     \<Rightarrow> 'a autonomy_db_scheme
     \<Rightarrow> autonomy_error + intent_evaluation_outcome \<times> 'a autonomy_db_scheme" where
  "evaluate_pending_intent_in_transaction io strftime now r db =
     try_seq (validate_intent_evaluation_request r)
     (try_bind (query (io AutSelectIntentEvent) (select_intent_event (iq_event_id r) db)) (\<lambda>found.
      case found of
        Some existing_event \<Rightarrow>
          try_bind (autonomy_next_revision (iq_expected_revision r)) (\<lambda>applied_revision.
          if intent_event_evidence_matches existing_event r applied_revision
          then try_bind (query (io AutSelectIntent)
                          (select_intent (iq_life_id r) (iq_intent_id r) db)) (\<lambda>found_intent.
               try_bind (ok_or found_intent autonomy_intent_not_found) (\<lambda>current.
               try_seq (validate_intent_event_state existing_event)
               (try_seq (validate_intent_state current)
               (Inr (IntentReplayed existing_event current, db)))))
          else Inl proactive_intent_event_conflict)
      | None \<Rightarrow>
          try_bind (query (io AutSelectIntent) (select_intent_by_id (iq_intent_id r) db))
            (\<lambda>found_intent.
          try_bind (ok_or found_intent autonomy_intent_not_found) (\<lambda>current.
          if pi_life_id current \<noteq> iq_life_id r then Inl autonomy_intent_life_mismatch
          else try_seq (validate_intent_state current)
          (if pi_revision current \<noteq> iq_expected_revision r then Inl autonomy_revision_conflict
           else if pi_status current \<noteq> INTENT_STATUS_PENDING then Inl autonomy_invalid_intent_state
           else
             try_bind (autonomy_next_revision (iq_expected_revision r)) (\<lambda>applied_revision.
             if \<not> io AutNow then Inl autonomy_database
             else
               try_bind (intent_decide io strftime now current db) (\<lambda>columns.
               intent_apply io now applied_revision columns r db)))))))"

section \<open>The repository\<close>

definition autonomy_create_policy ::
    "autonomy_io \<Rightarrow> string \<Rightarrow> autonomy_create_request \<Rightarrow> 'a autonomy_db_scheme
     \<Rightarrow> (autonomy_error + autonomy_policy autonomy_create_outcome) \<times> 'a autonomy_db_scheme" where
  "autonomy_create_policy io now r db =
     with_transaction (io AutLock \<and> io AutBegin) (io AutCommit) autonomy_database
       (autonomy_create_in_transaction io now r) db"

definition autonomy_update_policy ::
    "autonomy_io \<Rightarrow> string \<Rightarrow> autonomy_update_request \<Rightarrow> 'a autonomy_db_scheme
     \<Rightarrow> (autonomy_error + autonomy_update_outcome) \<times> 'a autonomy_db_scheme" where
  "autonomy_update_policy io now r db =
     with_transaction (io AutLock \<and> io AutBegin) (io AutCommit) autonomy_database
       (autonomy_update_in_transaction io now r) db"

definition create_pending_goal_check_in_intent ::
    "autonomy_io \<Rightarrow> string \<Rightarrow> intent_create_request \<Rightarrow> 'a autonomy_db_scheme
     \<Rightarrow> (autonomy_error + proactive_intent autonomy_create_outcome) \<times> 'a autonomy_db_scheme" where
  "create_pending_goal_check_in_intent io now r db =
     with_transaction (io AutLock \<and> io AutBegin) (io AutCommit) autonomy_database
       (create_pending_intent_in_transaction io now r) db"

definition evaluate_pending_intent ::
    "autonomy_io \<Rightarrow> sqlite_strftime \<Rightarrow> string \<Rightarrow> intent_evaluation_request
     \<Rightarrow> 'a autonomy_db_scheme
     \<Rightarrow> (autonomy_error + intent_evaluation_outcome) \<times> 'a autonomy_db_scheme" where
  "evaluate_pending_intent io strftime now r db =
     with_transaction (io AutLock \<and> io AutBegin) (io AutCommit) autonomy_database
       (evaluate_pending_intent_in_transaction io strftime now r) db"

definition autonomy_find_policy ::
    "autonomy_io \<Rightarrow> string \<Rightarrow> 'a autonomy_db_scheme \<Rightarrow> autonomy_error + autonomy_policy option" where
  "autonomy_find_policy io life db =
     try_seq (autonomy_validate_lookup_argument life)
     (if \<not> io AutLock then Inl autonomy_database
      else try_bind (query (io AutSelectPolicy) (select_autonomy_policy life db)) (\<lambda>found.
           case found of
             None \<Rightarrow> Inr None
           | Some p \<Rightarrow> try_seq (autonomy_validate_policy_state p) (Inr (Some p))))"

definition find_intent ::
    "autonomy_io \<Rightarrow> string \<Rightarrow> string \<Rightarrow> 'a autonomy_db_scheme
     \<Rightarrow> autonomy_error + proactive_intent option" where
  "find_intent io life i db =
     try_seq (autonomy_validate_lookup_arguments life i)
     (if \<not> io AutLock then Inl autonomy_database
      else try_bind (query (io AutSelectIntent) (select_intent life i db)) (\<lambda>found.
           case found of
             None \<Rightarrow> Inr None
           | Some r \<Rightarrow> try_seq (validate_intent_state r) (Inr (Some r))))"

text \<open>\<open>ORDER BY created_at, intent_id\<close>.\<close>

definition order_intents :: "proactive_intent list \<Rightarrow> proactive_intent list" where
  "order_intents rows = sort_key (\<lambda>i. (pi_created_at i, pi_intent_id i)) rows"

definition validated_intents ::
    "proactive_intent list \<Rightarrow> autonomy_error + proactive_intent list" where
  "validated_intents rows = try_seq (check_all (map validate_intent_state rows)) (Inr rows)"

definition list_intents_for_life ::
    "autonomy_io \<Rightarrow> string \<Rightarrow> 'a autonomy_db_scheme \<Rightarrow> autonomy_error + proactive_intent list" where
  "list_intents_for_life io life db =
     try_seq (autonomy_validate_lookup_argument life)
     (if \<not> io AutLock then Inl autonomy_database
      else try_bind (query (io AutSelectIntent)
                      (order_intents (filter (\<lambda>i. pi_life_id i = life) (intent_rows db))))
             validated_intents)"

definition list_intents_for_goal ::
    "autonomy_io \<Rightarrow> string \<Rightarrow> string \<Rightarrow> 'a autonomy_db_scheme
     \<Rightarrow> autonomy_error + proactive_intent list" where
  "list_intents_for_goal io life goal db =
     try_seq (autonomy_validate_lookup_arguments life goal)
     (if \<not> io AutLock then Inl autonomy_database
      else try_bind (query (io AutSelectIntent)
                      (order_intents (filter (\<lambda>i. pi_life_id i = life \<and> pi_goal_id i = goal)
                         (intent_rows db))))
             validated_intents)"

text \<open>\<open>ORDER BY created_at DESC, intent_id DESC LIMIT 1\<close>.\<close>

definition find_latest_intent_for_goal ::
    "autonomy_io \<Rightarrow> string \<Rightarrow> string \<Rightarrow> 'a autonomy_db_scheme
     \<Rightarrow> autonomy_error + proactive_intent option" where
  "find_latest_intent_for_goal io life goal db =
     try_seq (autonomy_validate_lookup_arguments life goal)
     (if \<not> io AutLock then Inl autonomy_database
      else try_bind (query (io AutSelectIntent)
                      (order_intents (filter (\<lambda>i. pi_life_id i = life \<and> pi_goal_id i = goal)
                         (intent_rows db)))) (\<lambda>rows.
           if rows = [] then Inr None
           else try_seq (validate_intent_state (last rows)) (Inr (Some (last rows)))))"

definition find_intent_event ::
    "autonomy_io \<Rightarrow> string \<Rightarrow> string \<Rightarrow> 'a autonomy_db_scheme
     \<Rightarrow> autonomy_error + intent_event option" where
  "find_intent_event io life i db =
     try_seq (autonomy_validate_lookup_arguments life i)
     (if \<not> io AutLock then Inl autonomy_database
      else try_bind (query (io AutSelectIntentEvent)
                (find (\<lambda>e. ie_life_id e = life \<and> ie_event_id e = i) (intent_event_rows db))) (\<lambda>found.
           case found of
             None \<Rightarrow> Inr None
           | Some e \<Rightarrow> try_seq (validate_intent_event_state e) (Inr (Some e))))"

definition find_policy_event ::
    "autonomy_io \<Rightarrow> string \<Rightarrow> string \<Rightarrow> 'a autonomy_db_scheme
     \<Rightarrow> autonomy_error + autonomy_policy_event option" where
  "find_policy_event io life i db =
     try_seq (autonomy_validate_lookup_arguments life i)
     (if \<not> io AutLock then Inl autonomy_database
      else try_bind (query (io AutSelectPolicyEvent)
                (find (\<lambda>e. ae_life_id e = life \<and> ae_event_id e = i) (autonomy_policy_event_rows db)))
             (\<lambda>found.
           case found of
             None \<Rightarrow> Inr None
           | Some e \<Rightarrow> try_seq (validate_policy_event_state e) (Inr (Some e))))"

end
