(* ===== verification/Autonomy_Ledger.thy ===== *)
theory Autonomy_Ledger
  imports Autonomy_Store
begin

text \<open>
  What the autonomy repository keeps: the policy of a life is the projection of its events, an intent
  is decided at most once and its row is the decision, a committed request is replayed and a stale
  one never commits, and the interruptions stay within the budget of the policy.
\<close>

section \<open>Outcomes of the policy operations\<close>

lemmas autonomy_select_defs =
  select_autonomy_policy_def select_policy_event_def select_intent_by_id_def select_intent_def
  select_intent_event_def

lemma query_Inr_iff [simp]: "query b x = Inr y \<longleftrightarrow> b \<and> y = x"
  by (auto simp: query_def)

lemma query_True [simp]: "query True x = Inr x"
  by (simp add: query_def)

lemma autonomy_policy_insert_Inr:
  "autonomy_policy_insert p db = Inr db' \<longleftrightarrow>
     autonomy_policy_row_check p \<and> ap_life_id p \<notin> ap_life_id ` set (autonomy_policy_rows db)
     \<and> ap_life_id p \<in> set (life_identity db)
     \<and> db' = db\<lparr>autonomy_policy_rows := autonomy_policy_rows db @ [p]\<rparr>"
  by (auto simp: autonomy_policy_insert_def)

lemma autonomy_policy_event_insert_Inr:
  "autonomy_policy_event_insert e db = Inr db' \<longleftrightarrow>
     autonomy_policy_event_row_check e
     \<and> ae_event_id e \<notin> ae_event_id ` set (autonomy_policy_event_rows db)
     \<and> ae_life_id e \<in> ap_life_id ` set (autonomy_policy_rows db)
     \<and> db' = db\<lparr>autonomy_policy_event_rows := autonomy_policy_event_rows db @ [e]\<rparr>"
  by (auto simp: autonomy_policy_event_insert_def)

lemma intent_insert_Inr:
  "intent_insert i db = Inr db' \<longleftrightarrow>
     intent_row_check i \<and> pi_intent_id i \<notin> pi_intent_id ` set (intent_rows db)
     \<and> (pi_goal_id i, pi_life_id i) \<in> life_keys (goal_rows db)
     \<and> pi_life_id i \<in> set (life_identity db)
     \<and> db' = db\<lparr>intent_rows := intent_rows db @ [i]\<rparr>"
  by (auto simp: intent_insert_def)

lemma intent_event_insert_Inr:
  "intent_event_insert e db = Inr db' \<longleftrightarrow>
     intent_event_row_check e \<and> ie_event_id e \<notin> ie_event_id ` set (intent_event_rows db)
     \<and> (ie_intent_id e, ie_life_id e) \<in> (\<lambda>i. (pi_intent_id i, pi_life_id i)) ` set (intent_rows db)
     \<and> db' = db\<lparr>intent_event_rows := intent_event_rows db @ [e]\<rparr>"
  by (auto simp: intent_event_insert_def)

lemma autonomy_policy_of_create_simps [simp]:
  "ap_life_id (autonomy_policy_of_create now r) = ac_life_id r"
  "ap_revision (autonomy_policy_of_create now r) = 1"
  by (simp_all add: autonomy_policy_of_create_def)

lemma autonomy_policy_after_simps [simp]:
  "ap_life_id (autonomy_policy_after now n r p) = ap_life_id p"
  "ap_revision (autonomy_policy_after now n r p) = n"
  by (simp_all add: autonomy_policy_after_def)

lemma policy_event_of_simps [simp]:
  "ae_event_id (policy_event_of now n r c) = au_event_id r"
  "ae_life_id (policy_event_of now n r c) = au_life_id r"
  "policy_event_evidence_matches (policy_event_of now n r c) r m \<longleftrightarrow> n = m"
  by (auto simp: policy_event_of_def policy_event_evidence_matches_def)

definition autonomy_updated_db ::
    "string \<Rightarrow> autonomy_update_request \<Rightarrow> autonomy_policy \<Rightarrow> 'a autonomy_db_scheme
     \<Rightarrow> 'a autonomy_db_scheme" where
  "autonomy_updated_db now r current db =
     (let n = au_expected_revision r + 1 in
      db\<lparr>autonomy_policy_rows :=
           map (\<lambda>p. if ap_life_id p = au_life_id r \<and> ap_revision p = au_expected_revision r
                    then autonomy_policy_after now n r p else p) (autonomy_policy_rows db),
         autonomy_policy_event_rows :=
           autonomy_policy_event_rows db @ [policy_event_of now n r current]\<rparr>)"

lemma autonomy_updated_db_rows:
  "life_identity (autonomy_updated_db now r c db) = life_identity db"
  "autonomy_policy_event_rows (autonomy_updated_db now r c db) =
     autonomy_policy_event_rows db @ [policy_event_of now (au_expected_revision r + 1) r c]"
  "map ap_life_id (autonomy_policy_rows (autonomy_updated_db now r c db)) =
     map ap_life_id (autonomy_policy_rows db)"
  "intent_rows (autonomy_updated_db now r c db) = intent_rows db"
  "intent_event_rows (autonomy_updated_db now r c db) = intent_event_rows db"
  by (simp_all add: autonomy_updated_db_def Let_def)

lemma select_autonomy_updated:
  assumes "select_autonomy_policy (au_life_id r) db = Some c"
    and "ap_revision c = au_expected_revision r"
  shows "select_autonomy_policy life (autonomy_updated_db now r c' db) =
    (if life = au_life_id r then Some (autonomy_policy_after now (au_expected_revision r + 1) r c)
     else select_autonomy_policy life db)"
proof -
  let ?f = "\<lambda>p. if ap_life_id p = au_life_id r \<and> ap_revision p = au_expected_revision r
                then autonomy_policy_after now (au_expected_revision r + 1) r p else p"
  have key: "ap_life_id (?f p) = ap_life_id p" for p by simp
  have "select_autonomy_policy life (autonomy_updated_db now r c' db) =
      map_option ?f (select_autonomy_policy life db)"
    unfolding autonomy_select_defs autonomy_updated_db_def Let_def
    by (simp add: find_map_key [of ap_life_id ?f, OF key])
  then show ?thesis
    using assms by (cases "select_autonomy_policy life db")
      (auto simp: autonomy_select_defs dest: find_Some_mem)
qed

lemma autonomy_apply_update_Inr:
  assumes "autonomy_apply_update io now n r current db = Inr (out, db')"
    and "n = au_expected_revision r + 1"
  shows "db' = autonomy_updated_db now r current db
    \<and> autonomy_policy_event_ok (policy_event_of now n r current)
    \<and> au_event_id r \<notin> ae_event_id ` set (autonomy_policy_event_rows db)
    \<and> (\<exists>e p. out = AutonomyPolicyApplied e p
          \<and> select_autonomy_policy (au_life_id r) db' = Some p \<and> autonomy_policy_ok p)"
proof -
  from assms obtain changed db1 where
    up: "autonomy_policy_update now n r db = Some (changed, db1)"
    and ins: "autonomy_policy_event_insert (policy_event_of now n r current) db1 = Inr db'"
    and ok: "autonomy_policy_event_ok (policy_event_of now n r current)"
    and out: "\<exists>e p. out = AutonomyPolicyApplied e p
          \<and> select_autonomy_policy (au_life_id r) db' = Some p \<and> autonomy_policy_ok p"
    by (auto simp: autonomy_apply_update_def try_bind_Inr_iff try_seq_Inr_iff Let_def
        validator_simps split: if_splits option.splits sum.splits)
  from up have db1: "db1 = db\<lparr>autonomy_policy_rows :=
           map (\<lambda>p. if ap_life_id p = au_life_id r \<and> ap_revision p = au_expected_revision r
                    then autonomy_policy_after now n r p else p) (autonomy_policy_rows db)\<rparr>"
    by (auto simp: autonomy_policy_update_def sql_update_def Let_def split: if_splits)
  with ins have "db' = autonomy_updated_db now r current db"
    by (auto simp: autonomy_policy_event_insert_Inr autonomy_updated_db_def assms(2) Let_def)
  moreover have "autonomy_policy_event_rows db1 = autonomy_policy_event_rows db"
    using db1 by simp
  ultimately show ?thesis using ins ok out by (auto simp: autonomy_policy_event_insert_Inr)
qed

lemma autonomy_next_revision_ok:
  "expected_revision_ok n \<Longrightarrow> autonomy_next_revision n = Inr (n + 1)"
  by (simp add: autonomy_next_revision_def checked_add_def checked_i64_def i64_bounds
      expected_revision_ok_def)

lemma autonomy_update_cases:
  assumes "autonomy_update_in_transaction io now r db = Inr (out, db')"
  obtains
    (replayed) e p where "out = AutonomyPolicyReplayed e p" "db' = db"
  | (applied) e c where
      "out = AutonomyPolicyApplied e (autonomy_policy_after now (au_expected_revision r + 1) r c)"
      "db' = autonomy_updated_db now r c db"
      "autonomy_update_ok r" "select_autonomy_policy (au_life_id r) db = Some c"
      "ap_revision c = au_expected_revision r" "autonomy_policy_ok c"
      "au_event_id r \<notin> ae_event_id ` set (autonomy_policy_event_rows db)"
      "autonomy_policy_event_ok (policy_event_of now (au_expected_revision r + 1) r c)"
      "autonomy_policy_ok (autonomy_policy_after now (au_expected_revision r + 1) r c)"
proof -
  from assms have v: "autonomy_update_ok r"
    by (auto simp: autonomy_update_in_transaction_def try_seq_Inr_iff validator_simps split: if_splits)
  then have n: "autonomy_next_revision (au_expected_revision r) = Inr (au_expected_revision r + 1)"
    by (simp add: autonomy_next_revision_ok autonomy_update_ok_def)
  show ?thesis
  proof (cases "select_policy_event (au_event_id r) db")
    case (Some e)
    with assms v n show ?thesis
      by (auto simp: autonomy_update_in_transaction_def validator_simps
          try_bind_Inr_iff try_seq_Inr_iff split: if_splits intro: replayed)
  next
    case None
    with assms v n obtain c where
      c: "select_autonomy_policy (au_life_id r) db = Some c" "autonomy_policy_ok c"
        "ap_revision c = au_expected_revision r"
      and ap: "autonomy_apply_update io now (au_expected_revision r + 1) r c db = Inr (out, db')"
      by (auto simp: autonomy_update_in_transaction_def validator_simps
          try_bind_Inr_iff try_seq_Inr_iff split: if_splits)
    from autonomy_apply_update_Inr [OF ap refl] c show ?thesis
      by (auto simp: select_autonomy_updated v intro: applied)
  qed
qed

lemma autonomy_create_Inr:
  assumes "autonomy_create_in_transaction io now r db = Inr (out, db')"
  shows "(db' = db \<and> (\<exists>p. out = AutonomyCreateReplayed p))
    \<or> (autonomy_policy_ok (autonomy_policy_of_create now r)
       \<and> autonomy_policy_insert (autonomy_policy_of_create now r) db = Inr db')"
proof -
  have "select_autonomy_policy (ap_life_id p) db' = Some p"
    if "autonomy_policy_insert p db = Inr db'" for p and db db' :: "'a autonomy_db_scheme"
    using that by (auto simp: autonomy_policy_insert_Inr autonomy_select_defs find_append
        image_iff split: option.splits dest!: find_Some_mem)
  from this [of "autonomy_policy_of_create now r" db db'] assms
  show ?thesis
    by (auto simp: autonomy_create_in_transaction_def try_bind_Inr_iff try_seq_Inr_iff
        validator_simps split: if_splits option.splits sum.splits)
qed

section \<open>Outcomes of the intent operations\<close>

lemma intent_of_create_simps [simp]:
  "pi_intent_id (intent_of_create now r) = ir_intent_id r"
  "pi_life_id (intent_of_create now r) = ir_life_id r"
  "pi_status (intent_of_create now r) = ''pending''"
  "pi_revision (intent_of_create now r) = 1"
  by (simp_all add: intent_of_create_def INTENT_STATUS_PENDING_def)

lemma intent_after_simps [simp]:
  "pi_intent_id (intent_after now n cols i) = pi_intent_id i"
  "pi_life_id (intent_after now n cols i) = pi_life_id i"
  "pi_goal_id (intent_after now n cols i) = pi_goal_id i"
  "pi_status (intent_after now n cols i) = fst cols"
  "pi_revision (intent_after now n cols i) = n"
  "pi_not_before (intent_after now n cols i) = fst (snd cols)"
  by (simp_all add: intent_after_def split: prod.splits)

lemma intent_event_of_simps [simp]:
  "ie_event_id (intent_event_of now n cols r) = iq_event_id r"
  "ie_life_id (intent_event_of now n cols r) = iq_life_id r"
  "ie_intent_id (intent_event_of now n cols r) = iq_intent_id r"
  "ie_from_status (intent_event_of now n cols r) = ''pending''"
  "ie_to_status (intent_event_of now n cols r) = fst cols"
  "ie_applied_revision (intent_event_of now n cols r) = n"
  "ie_not_before_after (intent_event_of now n cols r) = fst (snd cols)"
  "ie_occurred_at (intent_event_of now n cols r) = now"
  "intent_event_evidence_matches (intent_event_of now n cols r) r m \<longleftrightarrow> n = m"
  by (auto simp: intent_event_of_def intent_event_evidence_matches_def INTENT_STATUS_PENDING_def)

definition intent_evaluated_db ::
    "string \<Rightarrow> string \<times> string option \<times> string option \<Rightarrow> intent_evaluation_request
     \<Rightarrow> 'a autonomy_db_scheme \<Rightarrow> 'a autonomy_db_scheme" where
  "intent_evaluated_db now cols r db =
     (let n = iq_expected_revision r + 1 in
      db\<lparr>intent_rows :=
           map (\<lambda>i. if pi_intent_id i = iq_intent_id r \<and> pi_life_id i = iq_life_id r
                       \<and> pi_revision i = iq_expected_revision r \<and> pi_status i = ''pending''
                    then intent_after now n cols i else i) (intent_rows db),
         intent_event_rows := intent_event_rows db @ [intent_event_of now n cols r]\<rparr>)"

lemma intent_evaluated_db_rows:
  "life_identity (intent_evaluated_db now cols r db) = life_identity db"
  "autonomy_policy_rows (intent_evaluated_db now cols r db) = autonomy_policy_rows db"
  "autonomy_policy_event_rows (intent_evaluated_db now cols r db) = autonomy_policy_event_rows db"
  "intent_event_rows (intent_evaluated_db now cols r db) =
     intent_event_rows db @ [intent_event_of now (iq_expected_revision r + 1) cols r]"
  "map pi_intent_id (intent_rows (intent_evaluated_db now cols r db)) =
     map pi_intent_id (intent_rows db)"
  by (simp_all add: intent_evaluated_db_def Let_def)

lemma select_intent_evaluated:
  assumes "select_intent_by_id (iq_intent_id r) db = Some c" "pi_life_id c = iq_life_id r"
    and "pi_revision c = iq_expected_revision r" "pi_status c = ''pending''"
  shows "select_intent_by_id i (intent_evaluated_db now cols r db) =
    (if i = iq_intent_id r then Some (intent_after now (iq_expected_revision r + 1) cols c)
     else select_intent_by_id i db)"
proof -
  let ?f = "\<lambda>i. if pi_intent_id i = iq_intent_id r \<and> pi_life_id i = iq_life_id r
                   \<and> pi_revision i = iq_expected_revision r \<and> pi_status i = ''pending''
                then intent_after now (iq_expected_revision r + 1) cols i else i"
  have key: "pi_intent_id (?f p) = pi_intent_id p" for p by simp
  have "select_intent_by_id i (intent_evaluated_db now cols r db) =
      map_option ?f (select_intent_by_id i db)"
    unfolding autonomy_select_defs intent_evaluated_db_def Let_def
    by (simp add: find_map_key [of pi_intent_id ?f, OF key])
  then show ?thesis
    using assms by (cases "select_intent_by_id i db")
      (auto simp: autonomy_select_defs dest: find_Some_mem)
qed

lemma intent_apply_Inr:
  assumes "intent_apply io now n cols r db = Inr (out, db')"
    and "n = iq_expected_revision r + 1"
  shows "db' = intent_evaluated_db now cols r db
    \<and> intent_event_ok (intent_event_of now n cols r)
    \<and> iq_event_id r \<notin> ie_event_id ` set (intent_event_rows db)
    \<and> (\<exists>e i. out = IntentApplied e i \<and> select_intent_event (iq_event_id r) db' = Some e
          \<and> select_intent (iq_life_id r) (iq_intent_id r) db' = Some i \<and> proactive_intent_ok i)"
proof -
  from assms obtain changed db1 where
    up: "intent_update now n cols r db = Some (changed, db1)"
    and ins: "intent_event_insert (intent_event_of now n cols r) db1 = Inr db'"
    and ok: "intent_event_ok (intent_event_of now n cols r)"
    and out: "\<exists>e i. out = IntentApplied e i \<and> select_intent_event (iq_event_id r) db' = Some e
          \<and> select_intent (iq_life_id r) (iq_intent_id r) db' = Some i \<and> proactive_intent_ok i"
    by (auto simp: intent_apply_def try_bind_Inr_iff try_seq_Inr_iff Let_def
        validator_simps split: if_splits option.splits sum.splits)
  from up have db1: "db1 = db\<lparr>intent_rows :=
           map (\<lambda>i. if pi_intent_id i = iq_intent_id r \<and> pi_life_id i = iq_life_id r
                       \<and> pi_revision i = iq_expected_revision r \<and> pi_status i = ''pending''
                    then intent_after now n cols i else i) (intent_rows db)\<rparr>"
    by (auto simp: intent_update_def sql_update_def Let_def split: if_splits)
  with ins have "db' = intent_evaluated_db now cols r db"
    by (auto simp: intent_event_insert_Inr intent_evaluated_db_def assms(2) Let_def)
  moreover have "intent_event_rows db1 = intent_event_rows db"
    using db1 by simp
  ultimately show ?thesis using ins ok out by (auto simp: intent_event_insert_Inr)
qed

lemma intent_evaluation_cases:
  assumes "evaluate_pending_intent_in_transaction io strftime now r db = Inr (out, db')"
  obtains
    (replayed) e i where "out = IntentReplayed e i" "db' = db"
      "select_intent_event (iq_event_id r) db = Some e"
      "intent_event_evidence_matches e r (iq_expected_revision r + 1)"
      "select_intent (iq_life_id r) (iq_intent_id r) db = Some i"
  | (applied) i c cols where
      "out = IntentApplied (intent_event_of now (iq_expected_revision r + 1) cols r) i"
      "db' = intent_evaluated_db now cols r db"
      "intent_evaluation_ok r" "select_intent_by_id (iq_intent_id r) db = Some c"
      "pi_life_id c = iq_life_id r" "pi_revision c = iq_expected_revision r"
      "pi_status c = ''pending''" "proactive_intent_ok c"
      "intent_decide io strftime now c db = Inr cols"
      "iq_event_id r \<notin> ie_event_id ` set (intent_event_rows db)"
      "intent_event_ok (intent_event_of now (iq_expected_revision r + 1) cols r)"
      "select_intent (iq_life_id r) (iq_intent_id r) db' = Some i" "proactive_intent_ok i"
proof -
  from assms have v: "intent_evaluation_ok r"
    by (auto simp: evaluate_pending_intent_in_transaction_def try_seq_Inr_iff validator_simps
        split: if_splits)
  then have n: "autonomy_next_revision (iq_expected_revision r) = Inr (iq_expected_revision r + 1)"
    by (simp add: autonomy_next_revision_ok intent_evaluation_ok_def)
  show ?thesis
  proof (cases "select_intent_event (iq_event_id r) db")
    case (Some e)
    with assms v n show ?thesis
      by (auto simp: evaluate_pending_intent_in_transaction_def validator_simps
          try_bind_Inr_iff try_seq_Inr_iff split: if_splits intro: replayed)
  next
    case None
    with assms v n obtain c cols where
      c: "select_intent_by_id (iq_intent_id r) db = Some c" "pi_life_id c = iq_life_id r"
        "proactive_intent_ok c" "pi_revision c = iq_expected_revision r" "pi_status c = ''pending''"
        "intent_decide io strftime now c db = Inr cols"
      and ap: "intent_apply io now (iq_expected_revision r + 1) cols r db = Inr (out, db')"
      by (auto simp: evaluate_pending_intent_in_transaction_def validator_simps
          INTENT_STATUS_PENDING_def try_bind_Inr_iff try_seq_Inr_iff split: if_splits)
    note a = intent_apply_Inr [OF ap refl]
    then have "select_intent_event (iq_event_id r) db'
        = Some (intent_event_of now (iq_expected_revision r + 1) cols r)"
      by (auto simp: intent_evaluated_db_rows select_intent_event_def find_append image_iff
          split: option.splits dest!: find_Some_mem)
    with a c v show ?thesis by (auto intro: applied)
  qed
qed

lemma create_pending_intent_Inr:
  assumes "create_pending_intent_in_transaction io now r db = Inr (out, db')"
  shows "(db' = db \<and> (\<exists>i. out = AutonomyCreateReplayed i))
    \<or> (proactive_intent_ok (intent_of_create now r)
       \<and> intent_insert (intent_of_create now r) db = Inr db'
       \<and> (\<exists>p. select_autonomy_policy (ir_life_id r) db = Some p \<and> ap_enabled p)
       \<and> (\<exists>g \<in> set (goal_rows db). le_id g = ir_goal_id r \<and> le_life_id g = ir_life_id r
             \<and> le_status g = ''active''))"
proof -
  have "select_intent_by_id (pi_intent_id i) db' = Some i"
    if "intent_insert i db = Inr db'" for i and db db' :: "'a autonomy_db_scheme"
    using that by (auto simp: intent_insert_Inr autonomy_select_defs find_append
        image_iff split: option.splits dest!: find_Some_mem)
  from this [of "intent_of_create now r" db db'] assms
  show ?thesis
    by (auto simp: create_pending_intent_in_transaction_def try_bind_Inr_iff try_seq_Inr_iff
        validator_simps require_active_goal_def
        split: if_splits option.splits sum.splits dest!: find_Some_mem)
qed

section \<open>The ledger of the policy\<close>

text \<open>
  Replaying the policy events of a life on its policy as created gives the row of the table. An event
  carries the old and the new value of every setting, and the old ones are those of the row.
\<close>

definition policy_event_applies :: "autonomy_policy_event \<Rightarrow> autonomy_policy \<Rightarrow> bool" where
  "policy_event_applies e p \<longleftrightarrow>
     ae_life_id e = ap_life_id p \<and> ae_old_enabled e = ap_enabled p \<and> ae_old_dnd e = ap_dnd p
     \<and> ae_old_max_ready_per_window e = ap_max_ready_per_window p
     \<and> ae_old_window_seconds e = ap_window_seconds p
     \<and> ae_old_min_gap_seconds e = ap_min_gap_seconds p
     \<and> ae_expected_revision e = ap_revision p \<and> ae_applied_revision e = ap_revision p + 1"

definition policy_event_result :: "autonomy_policy_event \<Rightarrow> autonomy_policy \<Rightarrow> autonomy_policy" where
  "policy_event_result e p =
     p\<lparr>ap_enabled := ae_new_enabled e, ap_dnd := ae_new_dnd e,
       ap_max_ready_per_window := ae_new_max_ready_per_window e,
       ap_window_seconds := ae_new_window_seconds e, ap_min_gap_seconds := ae_new_min_gap_seconds e,
       ap_revision := ae_applied_revision e, ap_updated_at := ae_occurred_at e\<rparr>"

fun policy_replay :: "autonomy_policy_event list \<Rightarrow> autonomy_policy \<Rightarrow> autonomy_policy option" where
  "policy_replay [] p = Some p"
| "policy_replay (e # es) p =
     (if policy_event_applies e p then policy_replay es (policy_event_result e p) else None)"

lemma policy_replay_append:
  "policy_replay (es @ fs) p = Option.bind (policy_replay es p) (policy_replay fs)"
  by (induction es arbitrary: p) simp_all

lemma policy_replay_revision:
  "policy_replay es p = Some q \<Longrightarrow> ap_revision q = ap_revision p + int (length es)"
proof (induction es arbitrary: p)
  case (Cons e es)
  then have "policy_event_applies e p" "policy_replay es (policy_event_result e p) = Some q"
    by (simp_all split: if_splits)
  with Cons.IH [of "policy_event_result e p"] show ?case
    by (simp add: policy_event_applies_def policy_event_result_def)
qed simp

definition policy_history :: "string \<Rightarrow> 'a autonomy_db_scheme \<Rightarrow> autonomy_policy_event list" where
  "policy_history life db = filter (\<lambda>e. ae_life_id e = life) (autonomy_policy_event_rows db)"

definition policy_projects :: "autonomy_policy_event list \<Rightarrow> autonomy_policy \<Rightarrow> bool" where
  "policy_projects es p \<longleftrightarrow>
     (\<exists>now r. ac_life_id r = ap_life_id p
        \<and> policy_replay es (autonomy_policy_of_create now r) = Some p)"

definition autonomy_policy_inv :: "'a autonomy_db_scheme \<Rightarrow> bool" where
  "autonomy_policy_inv db \<longleftrightarrow>
     distinct (map ap_life_id (autonomy_policy_rows db))
     \<and> distinct (map ae_event_id (autonomy_policy_event_rows db))
     \<and> (\<forall>e \<in> set (autonomy_policy_event_rows db).
          ae_life_id e \<in> set (map ap_life_id (autonomy_policy_rows db))
          \<and> autonomy_policy_event_ok e)
     \<and> (\<forall>p \<in> set (autonomy_policy_rows db).
          autonomy_policy_ok p \<and> policy_projects (policy_history (ap_life_id p) db) p)"

lemma select_autonomy_policy_iff:
  "autonomy_policy_inv db \<Longrightarrow>
   select_autonomy_policy life db = Some p \<longleftrightarrow>
     p \<in> set (autonomy_policy_rows db) \<and> ap_life_id p = life"
  using find_key_SomeI [of ap_life_id "autonomy_policy_rows db" p life]
  by (auto simp: autonomy_policy_inv_def select_autonomy_policy_def dest: find_Some_mem)

lemma select_autonomy_projects:
  "autonomy_policy_inv db \<Longrightarrow> select_autonomy_policy life db = Some p \<Longrightarrow>
   autonomy_policy_ok p \<and> ap_life_id p = life \<and> policy_projects (policy_history life db) p"
  by (auto simp: select_autonomy_policy_iff) (auto simp: autonomy_policy_inv_def)

lemma policy_event_of_result:
  "ap_life_id c = au_life_id r \<Longrightarrow> ap_revision c = au_expected_revision r \<Longrightarrow>
   policy_event_applies (policy_event_of now (au_expected_revision r + 1) r c) c
   \<and> policy_event_result (policy_event_of now (au_expected_revision r + 1) r c) c
      = autonomy_policy_after now (au_expected_revision r + 1) r c"
  by (simp add: policy_event_applies_def policy_event_result_def policy_event_of_def
      autonomy_policy_after_def)

lemma autonomy_created_inv:
  assumes inv: "autonomy_policy_inv db"
    and ok: "autonomy_policy_ok (autonomy_policy_of_create now r)"
    and ins: "autonomy_policy_insert (autonomy_policy_of_create now r) db = Inr db'"
  shows "autonomy_policy_inv db'"
proof -
  let ?p = "autonomy_policy_of_create now r"
  have new: "ac_life_id r \<notin> ap_life_id ` set (autonomy_policy_rows db)"
    and db': "db' = db\<lparr>autonomy_policy_rows := autonomy_policy_rows db @ [?p]\<rparr>"
    using ins by (simp_all add: autonomy_policy_insert_Inr)
  have hist: "policy_history l db' = policy_history l db" for l
    by (simp add: policy_history_def db')
  have "policy_history (ac_life_id r) db = []"
    using inv new unfolding policy_history_def filter_empty_conv autonomy_policy_inv_def set_map
    by metis
  then have "policy_projects (policy_history (ac_life_id r) db) ?p"
    unfolding policy_projects_def by (intro exI [of _ now] exI [of _ r]) simp
  with inv ok new show ?thesis
    unfolding autonomy_policy_inv_def hist by (auto simp: db')
qed

lemma autonomy_updated_inv:
  assumes inv: "autonomy_policy_inv db"
    and sel: "select_autonomy_policy (au_life_id r) db = Some c"
      "ap_revision c = au_expected_revision r"
    and new: "au_event_id r \<notin> ae_event_id ` set (autonomy_policy_event_rows db)"
    and e_ok: "autonomy_policy_event_ok (policy_event_of now (au_expected_revision r + 1) r c)"
    and p_ok: "autonomy_policy_ok (autonomy_policy_after now (au_expected_revision r + 1) r c)"
  shows "autonomy_policy_inv (autonomy_updated_db now r c db)"
proof -
  let ?db = "autonomy_updated_db now r c db"
  let ?e = "policy_event_of now (au_expected_revision r + 1) r c"
  let ?p = "autonomy_policy_after now (au_expected_revision r + 1) r c"
  have c: "c \<in> set (autonomy_policy_rows db)" "ap_life_id c = au_life_id r"
    using sel(1) by (simp_all add: select_autonomy_policy_iff [OF inv])
  have hist: "policy_history life ?db =
      policy_history life db @ (if life = au_life_id r then [?e] else [])" for life
    by (simp add: policy_history_def autonomy_updated_db_rows)
  have dist: "distinct (map ap_life_id (autonomy_policy_rows ?db))"
    unfolding autonomy_updated_db_rows using inv by (simp add: autonomy_policy_inv_def)
  have rows: "autonomy_policy_ok p \<and> policy_projects (policy_history (ap_life_id p) ?db) p"
    if p: "p \<in> set (autonomy_policy_rows ?db)" for p
  proof -
    have sel': "select_autonomy_policy (ap_life_id p) ?db = Some p"
      unfolding select_autonomy_policy_def using dist p by (intro find_key_SomeI) simp_all
    show ?thesis
    proof (cases "ap_life_id p = au_life_id r")
      case True
      with sel' have pe: "p = ?p" by (simp add: select_autonomy_updated [OF sel])
      from select_autonomy_projects [OF inv sel(1)] obtain t q where
        q: "ac_life_id q = ap_life_id c"
          "policy_replay (policy_history (au_life_id r) db) (autonomy_policy_of_create t q) = Some c"
        by (auto simp: policy_projects_def)
      with policy_event_of_result [OF c(2) sel(2)]
      have "policy_replay (policy_history (au_life_id r) ?db) (autonomy_policy_of_create t q) = Some p"
        by (simp add: hist policy_replay_append pe)
      with q(1) have "policy_projects (policy_history (au_life_id r) ?db) p"
        unfolding policy_projects_def pe by auto
      with p_ok True pe show ?thesis by simp
    next
      case False
      with sel' have "select_autonomy_policy (ap_life_id p) db = Some p"
        by (simp add: select_autonomy_updated [OF sel])
      from select_autonomy_projects [OF inv this] False show ?thesis by (simp add: hist)
    qed
  qed
  have ev: "ae_life_id e \<in> set (map ap_life_id (autonomy_policy_rows db))
      \<and> autonomy_policy_event_ok e"
    if "e \<in> set (autonomy_policy_event_rows ?db)" for e
    using that inv e_ok imageI [OF c(1), of ap_life_id] c(2)
    by (auto simp: autonomy_updated_db_rows autonomy_policy_inv_def)
  have "distinct (map ae_event_id (autonomy_policy_event_rows ?db))"
    unfolding autonomy_updated_db_rows using inv new by (simp add: autonomy_policy_inv_def)
  with dist ev rows show ?thesis
    unfolding autonomy_policy_inv_def by (simp only: autonomy_updated_db_rows) blast
qed

section \<open>The ledger of the intents\<close>

text \<open>
  The life cycle: an intent is created pending at revision 1, and its one event moves it to its final
  status at revision 2. \<open>intent_projects es i\<close> says that the row is what its events tell.
\<close>

definition intent_history :: "string \<Rightarrow> 'a autonomy_db_scheme \<Rightarrow> intent_event list" where
  "intent_history i db = filter (\<lambda>e. ie_intent_id e = i) (intent_event_rows db)"

definition intent_projects :: "intent_event list \<Rightarrow> proactive_intent \<Rightarrow> bool" where
  "intent_projects es i \<longleftrightarrow>
     (es = [] \<and> pi_status i = ''pending'' \<and> pi_revision i = 1)
     \<or> (\<exists>e. es = [e] \<and> ie_from_status e = ''pending'' \<and> ie_to_status e = pi_status i
          \<and> pi_status i \<noteq> ''pending'' \<and> ie_applied_revision e = 2 \<and> pi_revision i = 2
          \<and> ie_not_before_after e = pi_not_before i \<and> ie_life_id e = pi_life_id i)"

definition intent_inv :: "'a autonomy_db_scheme \<Rightarrow> bool" where
  "intent_inv db \<longleftrightarrow>
     distinct (map pi_intent_id (intent_rows db))
     \<and> distinct (map ie_event_id (intent_event_rows db))
     \<and> (\<forall>e \<in> set (intent_event_rows db).
          ie_intent_id e \<in> set (map pi_intent_id (intent_rows db)) \<and> intent_event_ok e)
     \<and> (\<forall>i \<in> set (intent_rows db).
          proactive_intent_ok i \<and> intent_projects (intent_history (pi_intent_id i) db) i)"

lemma select_intent_by_id_iff:
  "distinct (map pi_intent_id (intent_rows db)) \<Longrightarrow>
   select_intent_by_id i db = Some r \<longleftrightarrow> r \<in> set (intent_rows db) \<and> pi_intent_id r = i"
  using find_key_SomeI [of pi_intent_id "intent_rows db" r i]
  by (auto simp: select_intent_by_id_def dest: find_Some_mem)

lemma select_intent_both:
  "distinct (map pi_intent_id (intent_rows db)) \<Longrightarrow> select_intent life i db = Some r \<Longrightarrow>
   select_intent_by_id i db = Some r \<and> pi_life_id r = life"
  by (auto simp: select_intent_by_id_iff select_intent_def dest!: find_Some_mem)

lemma select_intent_of_id:
  assumes "distinct (map pi_intent_id (intent_rows db))" and "select_intent_by_id i db = Some r"
  shows "select_intent (pi_life_id r) i db = Some r"
proof (cases "select_intent (pi_life_id r) i db")
  case None
  with assms show ?thesis by (auto simp: select_intent_def find_None_all select_intent_by_id_iff)
next
  case (Some q)
  with select_intent_both [OF assms(1) Some] assms(2) show ?thesis by (metis option.inject)
qed

lemma intent_inv_distinct: "intent_inv db \<Longrightarrow> distinct (map pi_intent_id (intent_rows db))"
  by (simp add: intent_inv_def)

lemma select_intent_projects:
  "intent_inv db \<Longrightarrow> select_intent_by_id i db = Some r \<Longrightarrow>
   pi_intent_id r = i \<and> proactive_intent_ok r \<and> intent_projects (intent_history i db) r"
  by (auto simp: select_intent_by_id_iff [OF intent_inv_distinct])
    (auto simp: intent_inv_def)

lemma intent_created_inv:
  assumes inv: "intent_inv db" and ok: "proactive_intent_ok (intent_of_create now r)"
    and ins: "intent_insert (intent_of_create now r) db = Inr db'"
  shows "intent_inv db'"
proof -
  let ?i = "intent_of_create now r"
  have new: "ir_intent_id r \<notin> pi_intent_id ` set (intent_rows db)"
    and db': "db' = db\<lparr>intent_rows := intent_rows db @ [?i]\<rparr>"
    using ins by (simp_all add: intent_insert_Inr)
  have hist: "intent_history l db' = intent_history l db" for l
    by (simp add: intent_history_def db')
  have "intent_history (ir_intent_id r) db = []"
    using inv new unfolding intent_history_def filter_empty_conv intent_inv_def set_map by metis
  then have "intent_projects (intent_history (ir_intent_id r) db) ?i"
    by (simp add: intent_projects_def)
  with inv ok new show ?thesis
    unfolding intent_inv_def hist by (auto simp: db')
qed

lemma intent_evaluated_inv:
  assumes inv: "intent_inv db"
    and sel: "select_intent_by_id (iq_intent_id r) db = Some c" "pi_life_id c = iq_life_id r"
      "pi_revision c = iq_expected_revision r" "pi_status c = ''pending''"
    and new: "iq_event_id r \<notin> ie_event_id ` set (intent_event_rows db)"
    and e_ok: "intent_event_ok (intent_event_of now (iq_expected_revision r + 1) cols r)"
    and p_ok: "proactive_intent_ok (intent_after now (iq_expected_revision r + 1) cols c)"
  shows "intent_inv (intent_evaluated_db now cols r db)"
proof -
  let ?db = "intent_evaluated_db now cols r db"
  let ?e = "intent_event_of now (iq_expected_revision r + 1) cols r"
  let ?i = "intent_after now (iq_expected_revision r + 1) cols c"
  have c: "c \<in> set (intent_rows db)" "pi_intent_id c = iq_intent_id r"
    using sel(1) by (simp_all add: select_intent_by_id_iff [OF intent_inv_distinct [OF inv]])
  have hist: "intent_history i ?db =
      intent_history i db @ (if i = iq_intent_id r then [?e] else [])" for i
    by (simp add: intent_history_def intent_evaluated_db_rows)
  have dist: "distinct (map pi_intent_id (intent_rows ?db))"
    unfolding intent_evaluated_db_rows using inv by (simp add: intent_inv_def)
  have rows: "proactive_intent_ok i \<and> intent_projects (intent_history (pi_intent_id i) ?db) i"
    if i: "i \<in> set (intent_rows ?db)" for i
  proof -
    have sel': "select_intent_by_id (pi_intent_id i) ?db = Some i"
      using i by (simp add: select_intent_by_id_iff [OF dist])
    show ?thesis
    proof (cases "pi_intent_id i = iq_intent_id r")
      case True
      with sel' have ie: "i = ?i" by (simp add: select_intent_evaluated [OF sel])
      have "intent_projects (intent_history (iq_intent_id r) db) c"
        using select_intent_projects [OF inv sel(1)] by blast
      with sel(4) have h: "intent_history (iq_intent_id r) db = []" "pi_revision c = 1"
        by (auto simp: intent_projects_def)
      moreover have "fst cols \<noteq> ''pending''"
        using e_ok by (auto simp: intent_event_ok_def)
      ultimately have "intent_projects (intent_history (iq_intent_id r) ?db) i"
        using sel by (simp add: hist intent_projects_def ie)
      with p_ok True ie show ?thesis by simp
    next
      case False
      with sel' have "select_intent_by_id (pi_intent_id i) db = Some i"
        by (simp add: select_intent_evaluated [OF sel])
      from select_intent_projects [OF inv this] False show ?thesis by (simp add: hist)
    qed
  qed
  have ev: "ie_intent_id e \<in> set (map pi_intent_id (intent_rows db)) \<and> intent_event_ok e"
    if "e \<in> set (intent_event_rows ?db)" for e
    using that inv e_ok imageI [OF c(1), of pi_intent_id] c(2)
    by (auto simp: intent_evaluated_db_rows intent_inv_def)
  have "distinct (map ie_event_id (intent_event_rows ?db))"
    unfolding intent_evaluated_db_rows using inv new by (simp add: intent_inv_def)
  with dist ev rows show ?thesis
    unfolding intent_inv_def by (simp only: intent_evaluated_db_rows) blast
qed

text \<open>The invariant of the repository, and that every operation keeps it.\<close>

definition autonomy_inv :: "'a autonomy_db_scheme \<Rightarrow> bool" where
  "autonomy_inv db \<longleftrightarrow> autonomy_policy_inv db \<and> intent_inv db"

lemma autonomy_policy_inv_cong:
  "autonomy_policy_rows db' = autonomy_policy_rows db \<Longrightarrow>
   autonomy_policy_event_rows db' = autonomy_policy_event_rows db \<Longrightarrow>
   autonomy_policy_inv db' = autonomy_policy_inv db"
  by (simp add: autonomy_policy_inv_def policy_history_def)

lemma intent_inv_cong:
  "intent_rows db' = intent_rows db \<Longrightarrow> intent_event_rows db' = intent_event_rows db \<Longrightarrow>
   intent_inv db' = intent_inv db"
  by (simp add: intent_inv_def intent_history_def)

text \<open>What an evaluation that commits did, with the intent read back.\<close>

lemma intent_evaluation_applied:
  assumes inv: "intent_inv db"
    and sel: "select_intent_by_id (iq_intent_id r) db = Some c" "pi_life_id c = iq_life_id r"
      "pi_revision c = iq_expected_revision r" "pi_status c = ''pending''"
    and reread: "select_intent (iq_life_id r) (iq_intent_id r) (intent_evaluated_db now cols r db) = Some i"
  shows "i = intent_after now (iq_expected_revision r + 1) cols c"
proof -
  have "distinct (map pi_intent_id (intent_rows (intent_evaluated_db now cols r db)))"
    unfolding intent_evaluated_db_rows using inv by (rule intent_inv_distinct)
  from select_intent_both [OF this reread] show ?thesis
    by (simp add: select_intent_evaluated [OF sel])
qed

lemma evaluate_step_inv:
  assumes inv: "autonomy_inv db"
    and ev: "evaluate_pending_intent_in_transaction io strftime now r db = Inr (out, db')"
  shows "autonomy_inv db'"
  using ev
proof (cases rule: intent_evaluation_cases)
  case replayed
  with inv show ?thesis by simp
next
  case (applied i c cols)
  have int: "intent_inv db" using inv by (simp add: autonomy_inv_def)
  have "i = intent_after now (iq_expected_revision r + 1) cols c"
    using intent_evaluation_applied [OF int applied(4-7)] applied(2,12) by simp
  with intent_evaluated_inv [OF int applied(4-7,10,11)] applied(2,13)
  have "intent_inv db'" by simp
  moreover have "autonomy_policy_inv db' = autonomy_policy_inv db"
    by (rule autonomy_policy_inv_cong) (simp_all add: applied(2) intent_evaluated_db_rows)
  ultimately show ?thesis using inv by (simp add: autonomy_inv_def)
qed

lemma autonomy_update_step_inv:
  assumes inv: "autonomy_inv db"
    and up: "autonomy_update_in_transaction io now r db = Inr (out, db')"
  shows "autonomy_inv db'"
  using up
proof (cases rule: autonomy_update_cases)
  case replayed
  with inv show ?thesis by simp
next
  case (applied e c)
  have "intent_inv db' = intent_inv db"
    by (rule intent_inv_cong) (simp_all add: applied(2) autonomy_updated_db_rows)
  moreover have "autonomy_policy_inv db'"
    using inv unfolding applied(2) autonomy_inv_def
    by (intro autonomy_updated_inv [OF _ applied(4,5,7,8,9)]) simp
  ultimately show ?thesis using inv by (simp add: autonomy_inv_def)
qed

section \<open>Evaluations keep the store contract\<close>

type_synonym evaluation_call = "autonomy_io \<times> sqlite_strftime \<times> string \<times> intent_evaluation_request"

definition evaluation_step ::
    "'a autonomy_db_scheme \<Rightarrow> evaluation_call
     \<Rightarrow> (autonomy_error + intent_evaluation_outcome) \<times> 'a autonomy_db_scheme" where
  "evaluation_step db c =
     (case c of (io, strftime, now, r) \<Rightarrow> evaluate_pending_intent io strftime now r db)"

definition evaluation_request :: "evaluation_call \<Rightarrow> intent_evaluation_request" where
  "evaluation_request c = snd (snd (snd c))"

definition evaluation_key :: "evaluation_call \<Rightarrow> string" where
  "evaluation_key c = iq_intent_id (evaluation_request c)"

definition evaluation_expected :: "evaluation_call \<Rightarrow> int" where
  "evaluation_expected c = iq_expected_revision (evaluation_request c)"

definition evaluation_healthy :: "evaluation_call \<Rightarrow> bool" where
  "evaluation_healthy c \<longleftrightarrow> (\<forall>stmt. fst c stmt)"

definition evaluation_same_request :: "evaluation_call \<Rightarrow> evaluation_call \<Rightarrow> bool" where
  "evaluation_same_request c d \<longleftrightarrow> evaluation_request c = evaluation_request d"

definition intent_revision_of :: "'a autonomy_db_scheme \<Rightarrow> string \<Rightarrow> int option" where
  "intent_revision_of db i = map_option pi_revision (select_intent_by_id i db)"

fun evaluation_fresh :: "intent_evaluation_outcome \<Rightarrow> bool" where
  "evaluation_fresh (IntentApplied _ _) = True"
| "evaluation_fresh (IntentReplayed _ _) = False"

definition evaluation_recorded :: "'a autonomy_db_scheme \<Rightarrow> evaluation_call \<Rightarrow> bool" where
  "evaluation_recorded db c \<longleftrightarrow>
     (let r = evaluation_request c in
      intent_evaluation_ok r
      \<and> (\<exists>e \<in> set (intent_event_rows db).
            intent_event_evidence_matches e r (iq_expected_revision r + 1)))"

lemmas evaluation_call_defs =
  evaluation_key_def evaluation_expected_def evaluation_healthy_def evaluation_same_request_def
  evaluation_request_def

lemma evaluation_step_Inr:
  "evaluation_step db (io, strftime, now, r) = (Inr out, db') \<Longrightarrow>
   evaluate_pending_intent_in_transaction io strftime now r db = Inr (out, db')"
  by (simp add: evaluation_step_def evaluate_pending_intent_def with_transaction_Inr)

lemma evaluation_step_fresh:
  assumes inv: "autonomy_inv db" and st: "evaluation_step db c = (Inr out, db')"
    and fr: "evaluation_fresh out"
  shows "intent_revision_of db (evaluation_key c) = Some (evaluation_expected c)
    \<and> intent_revision_of db' =
        (intent_revision_of db)(evaluation_key c \<mapsto> evaluation_expected c + 1)
    \<and> autonomy_inv db' \<and> evaluation_recorded db' c
    \<and> set (intent_event_rows db) \<subseteq> set (intent_event_rows db')"
proof -
  obtain io strftime now r where c: "c = (io, strftime, now, r)" by (cases c) auto
  from st have ev: "evaluate_pending_intent_in_transaction io strftime now r db = Inr (out, db')"
    unfolding c by (rule evaluation_step_Inr)
  then show ?thesis
  proof (cases rule: intent_evaluation_cases)
    case (replayed e p)
    with fr show ?thesis by simp
  next
    case (applied i k cols)
    note sel = select_intent_evaluated [OF applied(4-7)]
    have "intent_revision_of db' =
        (intent_revision_of db)(iq_intent_id r \<mapsto> iq_expected_revision r + 1)"
      unfolding applied(2) intent_revision_of_def by (rule ext) (simp add: sel)
    moreover have "autonomy_inv db'" using inv ev by (rule evaluate_step_inv)
    moreover have "evaluation_recorded db' c"
      using applied(3) by (simp add: evaluation_recorded_def c evaluation_request_def applied(2)
          intent_evaluated_db_rows)
    moreover have "set (intent_event_rows db) \<subseteq> set (intent_event_rows db')"
      by (auto simp: applied(2) intent_evaluated_db_rows)
    ultimately show ?thesis
      using applied(4,6) by (simp add: c evaluation_call_defs intent_revision_of_def)
  qed
qed

lemma evaluation_step_replayed:
  assumes "evaluation_step db c = (Inr out, db')" and "\<not> evaluation_fresh out"
  shows "db' = db"
proof -
  obtain io strftime now r where c: "c = (io, strftime, now, r)" by (cases c) auto
  from assms(1) have "evaluate_pending_intent_in_transaction io strftime now r db = Inr (out, db')"
    unfolding c by (rule evaluation_step_Inr)
  then show ?thesis using assms(2) by (cases rule: intent_evaluation_cases) simp_all
qed

lemma evaluation_recorded_replays:
  assumes inv: "autonomy_inv db" and rec: "evaluation_recorded db c"
    and ok: "evaluation_healthy c"
  shows "\<exists>out. evaluation_step db c = (Inr out, db) \<and> \<not> evaluation_fresh out"
proof -
  obtain io strftime now r where c: "c = (io, strftime, now, r)" by (cases c) auto
  have int: "intent_inv db" using inv by (simp add: autonomy_inv_def)
  have io: "io stmt" for stmt using ok by (simp add: c evaluation_call_defs)
  from rec obtain e where v: "intent_evaluation_ok r"
    and e: "e \<in> set (intent_event_rows db)"
      "intent_event_evidence_matches e r (iq_expected_revision r + 1)"
    by (auto simp: evaluation_recorded_def c evaluation_request_def)
  then have ids: "ie_event_id e = iq_event_id r" "ie_life_id e = iq_life_id r"
      "ie_intent_id e = iq_intent_id r"
    by (simp_all add: intent_event_evidence_matches_def)
  have e_inv: "iq_intent_id r \<in> pi_intent_id ` set (intent_rows db)" "intent_event_ok e"
    using int e(1) ids unfolding intent_inv_def set_map by metis+
  then obtain i where "i \<in> set (intent_rows db)" "pi_intent_id i = iq_intent_id r"
    by (auto simp: image_iff)
  then have i: "select_intent_by_id (iq_intent_id r) db = Some i"
    by (simp add: select_intent_by_id_iff [OF intent_inv_distinct [OF int]])
  note i_inv = select_intent_projects [OF int i]
  have "e \<in> set (intent_history (iq_intent_id r) db)"
    using e(1) ids by (simp add: intent_history_def)
  with i_inv have "pi_life_id i = iq_life_id r"
    using ids(2) by (auto simp: intent_projects_def)
  then have i': "select_intent (iq_life_id r) (iq_intent_id r) db = Some i"
    using select_intent_of_id [OF intent_inv_distinct [OF int] i] by simp
  have "select_intent_event (iq_event_id r) db = Some e"
    unfolding autonomy_select_defs using int e ids
    by (intro find_key_SomeI) (simp_all add: intent_inv_def)
  moreover have "autonomy_next_revision (iq_expected_revision r) = Inr (iq_expected_revision r + 1)"
    using v by (simp add: autonomy_next_revision_ok intent_evaluation_ok_def)
  ultimately have "evaluation_step db c = (Inr (IntentReplayed e i), db)"
    using v i' e(2) e_inv(2) i_inv
    by (simp add: c evaluation_step_def evaluate_pending_intent_def with_transaction_def io
        evaluate_pending_intent_in_transaction_def validator_simps)
  then show ?thesis by auto
qed

interpretation evaluation_store: evidence_store
  evaluation_step intent_revision_of evaluation_key evaluation_expected evaluation_fresh
  autonomy_inv evaluation_recorded evaluation_healthy evaluation_same_request
proof (unfold_locales, goal_cases)
  case (1 db t e db')
  then show ?case
    by (auto simp: evaluation_step_def evaluate_pending_intent_def split: prod.splits
        dest: with_transaction_Inl)
next
  case (2 db t out db')
  then show ?case by (rule evaluation_step_replayed)
next
  case (3 db t out db')
  then show ?case by (simp add: evaluation_step_fresh)
next
  case (4 db t out db')
  then show ?case by (simp add: evaluation_step_fresh)
next
  case (5 db t out db')
  then show ?case by (simp add: evaluation_step_fresh)
next
  case (6 db t out db')
  then show ?case by (simp add: evaluation_step_fresh)
next
  case (7 db t out db' u)
  then have "set (intent_event_rows db) \<subseteq> set (intent_event_rows db')"
    by (simp add: evaluation_step_fresh)
  with 7(4) show ?case by (auto simp: evaluation_recorded_def Let_def)
next
  case (8 db t u)
  then show ?case by (simp add: evaluation_recorded_def evaluation_same_request_def)
next
  case (9 db t)
  then show ?case by (rule evaluation_recorded_replays)
qed

section \<open>Runs of the repository\<close>

text \<open>
  One call of the repository, or one of the life-intent repository on the same database. Each call has its own
  SQLite and its own reading of the clock.
\<close>

datatype autonomy_op =
    OpCreatePolicy autonomy_io string autonomy_create_request
  | OpUpdatePolicy autonomy_io string autonomy_update_request
  | OpCreateIntent autonomy_io string intent_create_request
  | OpEvaluate autonomy_io string intent_evaluation_request
  | OpLifeIntent life_intent_op

fun autonomy_op_step ::
    "sqlite_strftime \<Rightarrow> autonomy_op \<Rightarrow> 'a autonomy_db_scheme \<Rightarrow> 'a autonomy_db_scheme" where
  "autonomy_op_step strftime (OpCreatePolicy io now r) db = snd (autonomy_create_policy io now r db)"
| "autonomy_op_step strftime (OpUpdatePolicy io now r) db = snd (autonomy_update_policy io now r db)"
| "autonomy_op_step strftime (OpCreateIntent io now r) db =
     snd (create_pending_goal_check_in_intent io now r db)"
| "autonomy_op_step strftime (OpEvaluate io now r) db =
     snd (evaluate_pending_intent io strftime now r db)"
| "autonomy_op_step strftime (OpLifeIntent op) db = life_intent_step_cascading op db"

definition autonomy_run ::
    "sqlite_strftime \<Rightarrow> autonomy_op list \<Rightarrow> 'a autonomy_db_scheme \<Rightarrow> 'a autonomy_db_scheme" where
  "autonomy_run strftime ops db = fold (autonomy_op_step strftime) ops db"

definition autonomy_db_new :: "string list \<Rightarrow> autonomy_db" where
  "autonomy_db_new lives =
     \<lparr>life_identity = lives, goal_rows = [], plan_rows = [], step_rows = [], action_rows = [],
      life_event_rows = [], autonomy_policy_rows = [], autonomy_policy_event_rows = [],
      intent_rows = [], intent_event_rows = []\<rparr>"

lemma autonomy_db_new_inv: "autonomy_inv (autonomy_db_new lives)"
  by (simp add: autonomy_db_new_def autonomy_inv_def autonomy_policy_inv_def intent_inv_def)

text \<open>A transaction either leaves the database or commits what its body returned.\<close>

lemma with_transaction_inv:
  assumes "P db" and "\<And>out db'. body db = Inr (out, db') \<Longrightarrow> P db'"
  shows "P (snd (with_transaction b c e body db))"
  using assms by (auto simp: with_transaction_def split: sum.splits)

lemma autonomy_create_step_inv:
  assumes inv: "autonomy_inv db"
    and cr: "autonomy_create_in_transaction io now r db = Inr (out, db')"
  shows "autonomy_inv db'"
  using autonomy_create_Inr [OF cr]
proof (elim disjE conjE)
  assume "db' = db"
  with inv show ?thesis by simp
next
  assume new: "autonomy_policy_ok (autonomy_policy_of_create now r)"
    "autonomy_policy_insert (autonomy_policy_of_create now r) db = Inr db'"
  have "autonomy_policy_inv db'"
    using inv by (intro autonomy_created_inv [OF _ new]) (simp add: autonomy_inv_def)
  moreover have "intent_inv db' = intent_inv db"
    using new(2) by (intro intent_inv_cong) (auto simp: autonomy_policy_insert_Inr)
  ultimately show ?thesis using inv by (simp add: autonomy_inv_def)
qed

lemma create_intent_step_inv:
  assumes inv: "autonomy_inv db"
    and cr: "create_pending_intent_in_transaction io now r db = Inr (out, db')"
  shows "autonomy_inv db'"
  using create_pending_intent_Inr [OF cr]
proof (elim disjE conjE)
  assume "db' = db"
  with inv show ?thesis by simp
next
  assume new: "proactive_intent_ok (intent_of_create now r)"
    "intent_insert (intent_of_create now r) db = Inr db'"
  have "intent_inv db'"
    using inv by (intro intent_created_inv [OF _ new]) (simp add: autonomy_inv_def)
  moreover have "autonomy_policy_inv db' = autonomy_policy_inv db"
    using new(2) by (intro autonomy_policy_inv_cong) (auto simp: intent_insert_Inr)
  ultimately show ?thesis using inv by (simp add: autonomy_inv_def)
qed

text \<open>A goal takes its intents and their events with it; the others keep theirs.\<close>

lemma cascade_intents_inv:
  assumes inv: "intent_inv db"
  shows "intent_inv (cascade_intents gone db)"
proof -
  let ?db = "cascade_intents gone db"
  have rows: "set (intent_rows ?db)
      = {i \<in> set (intent_rows db). (pi_goal_id i, pi_life_id i) \<notin> gone}"
    by (simp add: cascade_intents_def Let_def)
  have owner: "ie_life_id e = pi_life_id i"
    if "i \<in> set (intent_rows db)" "e \<in> set (intent_event_rows db)" "ie_intent_id e = pi_intent_id i"
    for i e
  proof -
    have "e \<in> set (intent_history (pi_intent_id i) db)" using that by (simp add: intent_history_def)
    moreover have "intent_projects (intent_history (pi_intent_id i) db) i"
      using inv that(1) by (simp add: intent_inv_def)
    ultimately show ?thesis by (auto simp: intent_projects_def)
  qed
  have same: "i = j"
    if "i \<in> set (intent_rows db)" "j \<in> set (intent_rows db)" "pi_intent_id i = pi_intent_id j" for i j
    using inv that by (auto simp: intent_inv_def distinct_map inj_on_def)
  have stays: "e \<in> set (intent_event_rows ?db) \<longleftrightarrow> (pi_goal_id i, pi_life_id i) \<notin> gone"
    if e: "e \<in> set (intent_event_rows db)" "ie_intent_id e = pi_intent_id i"
      and i: "i \<in> set (intent_rows db)" for e i
    using e same [OF i] owner [OF i e] i
    by (auto simp: cascade_intents_def Let_def image_iff)
  have hist: "intent_history (pi_intent_id i) ?db = intent_history (pi_intent_id i) db"
    if i: "i \<in> set (intent_rows ?db)" for i
  proof -
    have i': "i \<in> set (intent_rows db)" "(pi_goal_id i, pi_life_id i) \<notin> gone"
      using i by (simp_all add: rows)
    have "filter (\<lambda>e. ie_intent_id e = pi_intent_id i) (intent_event_rows ?db)
        = filter (\<lambda>e. ie_intent_id e = pi_intent_id i \<and> e \<in> set (intent_event_rows ?db))
            (intent_event_rows db)"
      unfolding cascade_intents_def Let_def by (auto intro!: filter_cong)
    also have "\<dots> = filter (\<lambda>e. ie_intent_id e = pi_intent_id i) (intent_event_rows db)"
      using stays [OF _ _ i'(1)] i'(2) by (intro filter_cong) blast+
    finally show ?thesis by (simp add: intent_history_def)
  qed
  have "ie_intent_id e \<in> pi_intent_id ` set (intent_rows ?db)"
    if e: "e \<in> set (intent_event_rows ?db)" for e
  proof -
    have e': "e \<in> set (intent_event_rows db)" using e by (simp add: cascade_intents_def Let_def)
    with inv obtain i where i: "i \<in> set (intent_rows db)" "ie_intent_id e = pi_intent_id i"
      by (auto simp: intent_inv_def)
    with stays [OF e' i(2,1)] e show ?thesis by (auto simp: rows)
  qed
  moreover have "distinct (map pi_intent_id (intent_rows ?db))"
      "distinct (map ie_event_id (intent_event_rows ?db))"
    using inv by (simp_all add: intent_inv_def cascade_intents_def Let_def distinct_map_filter)
  moreover have "set (intent_event_rows ?db) \<subseteq> set (intent_event_rows db)"
    by (auto simp: cascade_intents_def Let_def)
  ultimately show ?thesis
    using inv hist rows by (auto simp: intent_inv_def)
qed

lemma cascade_intents_simps [simp]:
  "autonomy_policy_rows (cascade_intents gone db) = autonomy_policy_rows db"
  "autonomy_policy_event_rows (cascade_intents gone db) = autonomy_policy_event_rows db"
  "life_intent_db.truncate (cascade_intents gone db) = life_intent_db.truncate db"
  by (simp_all add: cascade_intents_def Let_def life_intent_db.defs)

lemma cascade_intents_none [simp]: "cascade_intents {} db = db"
  by (simp add: cascade_intents_def)

text \<open>The operations of the life-intent repository do not see the tables of this one.\<close>

lemma life_transition_more:
  assumes "life_transition_in_transaction T io now r db = Inr (out, db')"
    and "\<And>rows db. life_intent_db.more (lt_set_rows T rows db) = life_intent_db.more db"
  shows "life_intent_db.more db' = life_intent_db.more db"
proof -
  have up: "life_intent_db.more db1 = life_intent_db.more db"
    if "life_update T now n s t r db = Some (k, db1)" for n s t k db1
    using that assms(2) by (auto simp: life_update_def Let_def split: prod.splits if_splits)
  from assms(1) show ?thesis
    by (auto simp: life_transition_in_transaction_def try_seq_Inr_iff try_bind_Inr_iff Let_def
        life_event_insert_Inr dest!: up split: option.splits if_splits sum.splits)
qed

lemma life_create_more:
  assumes "life_create_in_transaction T io v ev pre row shape db = Inr (out, db')"
    and "\<And>rows db. life_intent_db.more (lt_set_rows T rows db) = life_intent_db.more db"
  shows "life_intent_db.more db' = life_intent_db.more db"
  using assms by (auto simp: life_create_in_transaction_def try_seq_Inr_iff try_bind_Inr_iff
      life_insert_def split: option.splits if_splits sum.splits)

lemma cascade_more [simp]:
  "life_intent_db.more (cascade_actions a db) = life_intent_db.more db"
  "life_intent_db.more (cascade_steps s db) = life_intent_db.more db"
  "life_intent_db.more (cascade_plans p db) = life_intent_db.more db"
  "life_intent_db.more (cascade_goals g db) = life_intent_db.more db"
  by (simp_all add: cascade_actions_def cascade_steps_def cascade_plans_def cascade_goals_def Let_def)

lemma life_intent_step_more:
  "life_intent_db.more (life_intent_op_step op db) = life_intent_db.more db"
proof -
  let ?same = "\<lambda>db'. life_intent_db.more db' = life_intent_db.more db"
  have tr: "?same (snd (life_intent_transaction io body db))"
    if "\<And>out db'. body db = Inr (out, db') \<Longrightarrow> ?same db'" for io and body :: "_ \<Rightarrow> _ + 'o \<times> _"
    unfolding life_intent_transaction_def
    by (rule with_transaction_inv [where P = ?same]) (simp_all add: that)
  have del: "?same (snd (life_delete rows cascade io life i db))"
    if "\<And>p. ?same (cascade p db)" for rows cascade io life i
    using life_delete_cases [of rows cascade io life i db] that by auto
  show ?thesis
    by (cases op)
      (auto simp: create_goal_def create_plan_def create_step_def create_action_def
        transition_goal_def transition_plan_def transition_step_def transition_action_def
        create_goal_in_transaction_def create_plan_in_transaction_def create_step_in_transaction_def
        create_action_in_transaction_def transition_goal_in_transaction_def
        transition_plan_in_transaction_def transition_step_in_transaction_def
        transition_action_in_transaction_def delete_goal_def delete_plan_def delete_step_def
        delete_action_def intro!: tr del dest!: life_create_more life_transition_more)
qed

lemma life_intent_step_rows [simp]:
  "autonomy_policy_rows (life_intent_op_step op db) = autonomy_policy_rows db"
  "autonomy_policy_event_rows (life_intent_op_step op db) = autonomy_policy_event_rows db"
  "intent_rows (life_intent_op_step op db) = intent_rows db"
  "intent_event_rows (life_intent_op_step op db) = intent_event_rows db"
proof -
  have "autonomy_policy_rows a = autonomy_policy_rows b
      \<and> autonomy_policy_event_rows a = autonomy_policy_event_rows b
      \<and> intent_rows a = intent_rows b \<and> intent_event_rows a = intent_event_rows b"
    if "life_intent_db.more a = life_intent_db.more b" for a b :: "'a autonomy_db_scheme"
    using that by (cases a; cases b) simp
  from this [OF life_intent_step_more [of op db]]
  show "autonomy_policy_rows (life_intent_op_step op db) = autonomy_policy_rows db"
    "autonomy_policy_event_rows (life_intent_op_step op db) = autonomy_policy_event_rows db"
    "intent_rows (life_intent_op_step op db) = intent_rows db"
    "intent_event_rows (life_intent_op_step op db) = intent_event_rows db"
    by blast+
qed

lemma life_intent_cascading_inv:
  assumes "autonomy_inv db"
  shows "autonomy_inv (life_intent_step_cascading op db)"
proof -
  let ?db1 = "life_intent_op_step op db"
  have "autonomy_policy_inv (life_intent_step_cascading op db) = autonomy_policy_inv db"
    by (rule autonomy_policy_inv_cong) (simp_all add: life_intent_step_cascading_def Let_def)
  moreover have "intent_inv ?db1 = intent_inv db" by (rule intent_inv_cong) simp_all
  ultimately show ?thesis
    using assms by (simp add: autonomy_inv_def life_intent_step_cascading_def Let_def
        cascade_intents_inv)
qed

lemma autonomy_op_step_inv:
  assumes inv: "autonomy_inv db"
  shows "autonomy_inv (autonomy_op_step strftime op db)"
proof (cases op)
  case (OpCreatePolicy io now r)
  show ?thesis
    unfolding OpCreatePolicy autonomy_op_step.simps autonomy_create_policy_def
    by (rule with_transaction_inv [where P = autonomy_inv, OF inv])
      (rule autonomy_create_step_inv [OF inv])
next
  case (OpUpdatePolicy io now r)
  show ?thesis
    unfolding OpUpdatePolicy autonomy_op_step.simps autonomy_update_policy_def
    by (rule with_transaction_inv [where P = autonomy_inv, OF inv])
      (rule autonomy_update_step_inv [OF inv])
next
  case (OpCreateIntent io now r)
  show ?thesis
    unfolding OpCreateIntent autonomy_op_step.simps create_pending_goal_check_in_intent_def
    by (rule with_transaction_inv [where P = autonomy_inv, OF inv])
      (rule create_intent_step_inv [OF inv])
next
  case (OpEvaluate io now r)
  show ?thesis
    unfolding OpEvaluate autonomy_op_step.simps evaluate_pending_intent_def
    by (rule with_transaction_inv [where P = autonomy_inv, OF inv])
      (rule evaluate_step_inv [OF inv])
next
  case (OpLifeIntent lop)
  then show ?thesis by (simp add: life_intent_cascading_inv [OF inv])
qed

lemma autonomy_run_inv: "autonomy_inv db \<Longrightarrow> autonomy_inv (autonomy_run strftime ops db)"
  unfolding autonomy_run_def
  by (induction ops arbitrary: db) (simp_all add: autonomy_op_step_inv)

text \<open>
  The autonomy tables are ledgers. In every database the repository reaches, with statements
  failing at any point and the goals changing in between, the policy row of a life is the replay of
  its events on the policy as created; and an intent is either pending at revision 1 without an
  event, or was decided once: it has exactly one event, from pending to its status, and revision 2.
\<close>

theorem autonomy_ledgers_project:
  assumes "db = autonomy_run strftime ops (autonomy_db_new lives)"
  shows "(\<forall>life p. select_autonomy_policy life db = Some p \<longrightarrow>
      autonomy_policy_ok p
      \<and> (\<exists>now r. policy_replay (policy_history life db) (autonomy_policy_of_create now r) = Some p)
      \<and> ap_revision p = 1 + int (length (policy_history life db)))
    \<and> (\<forall>k i. select_intent_by_id k db = Some i \<longrightarrow>
      proactive_intent_ok i
      \<and> (if pi_status i = ''pending'' then intent_history k db = [] \<and> pi_revision i = 1
         else \<exists>e. intent_history k db = [e] \<and> ie_from_status e = ''pending''
                \<and> ie_to_status e = pi_status i \<and> ie_not_before_after e = pi_not_before i
                \<and> pi_revision i = 2))"
proof -
  have inv: "autonomy_policy_inv db" "intent_inv db"
    using autonomy_run_inv [OF autonomy_db_new_inv, of strftime ops lives]
    by (simp_all add: assms autonomy_inv_def)
  have "autonomy_policy_ok p
      \<and> (\<exists>now r. policy_replay (policy_history life db) (autonomy_policy_of_create now r) = Some p)
      \<and> ap_revision p = 1 + int (length (policy_history life db))"
    if p: "select_autonomy_policy life db = Some p" for life p
  proof -
    from select_autonomy_projects [OF inv(1) p] obtain now r where
      rep: "policy_replay (policy_history life db) (autonomy_policy_of_create now r) = Some p"
      and ok: "autonomy_policy_ok p"
      by (auto simp: policy_projects_def)
    from policy_replay_revision [OF rep] rep ok show ?thesis by auto
  qed
  moreover have "proactive_intent_ok i
      \<and> (if pi_status i = ''pending'' then intent_history k db = [] \<and> pi_revision i = 1
         else \<exists>e. intent_history k db = [e] \<and> ie_from_status e = ''pending''
                \<and> ie_to_status e = pi_status i \<and> ie_not_before_after e = pi_not_before i
                \<and> pi_revision i = 2)"
    if i: "select_intent_by_id k db = Some i" for k i
    using select_intent_projects [OF inv(2) i] by (auto simp: intent_projects_def)
  ultimately show ?thesis by blast
qed

end
