(* ===== verification/Autonomy_Budget.thy ===== *)
theory Autonomy_Budget
  imports Autonomy_Ledger Life_Intents
begin

text \<open>
  The decisions of the autonomy repository: what an evaluation loads and decides, that a pending
  intent is always decided when SQLite works, and that the intents it lets through stay within the
  budget of the policy.
\<close>

section \<open>The decision of an evaluation\<close>

definition goal_active :: "string \<Rightarrow> string \<Rightarrow> 'a autonomy_db_scheme \<Rightarrow> bool" where
  "goal_active life goal db \<longleftrightarrow>
     map_option le_status
       (find (\<lambda>g. le_id g = goal \<and> le_life_id g = life) (goal_rows db)) = Some ''active''"

lemma load_goal_is_active_Inr:
  "load_goal_is_active io life goal db = Inr b \<longleftrightarrow> io AutSelectGoal \<and> b = goal_active life goal db"
  by (auto simp: load_goal_is_active_def goal_active_def try_bind_Inr_iff)

lemma sqlite_add_seconds_Inr [simp]:
  "sqlite_add_seconds strftime base s = Inr t \<longleftrightarrow> strftime base (seconds_modifier s) = Some t"
  by (simp add: sqlite_add_seconds_def)

lemma intent_temporal_context_Inr:
  assumes "intent_temporal_context io strftime now p i db = Inr temporal"
  shows "history_not_before io strftime now p (pi_life_id i) db
      = Inr (tc_frequency_not_before temporal, tc_min_gap_not_before temporal)"
    and "quiet_gate i \<longleftrightarrow> tc_recent_interaction_not_before temporal \<noteq> None"
    and "temporary_gate p i \<longleftrightarrow> tc_temporary_gate_not_before temporal \<noteq> None"
proof -
  from assms obtain recent temporary frequency gap where
    r: "recent_not_before strftime now i = Inr recent"
    and t: "temporary_not_before strftime now p i = Inr temporary"
    and h: "history_not_before io strftime now p (pi_life_id i) db = Inr (frequency, gap)"
    and temporal: "temporal = \<lparr>tc_recent_interaction_not_before = recent,
      tc_temporary_gate_not_before = temporary, tc_frequency_not_before = frequency,
      tc_min_gap_not_before = gap\<rparr>"
    by (auto simp: intent_temporal_context_def try_bind_Inr_iff split: prod.splits)
  show "history_not_before io strftime now p (pi_life_id i) db
      = Inr (tc_frequency_not_before temporal, tc_min_gap_not_before temporal)"
    using h by (simp add: temporal)
  show "quiet_gate i \<longleftrightarrow> tc_recent_interaction_not_before temporal \<noteq> None"
    using r by (auto simp: temporal recent_not_before_def quiet_gate_def try_bind_Inr_iff
        RECENT_INTERACTION_QUIET_SECONDS_def split: option.splits if_splits)
  show "temporary_gate p i \<longleftrightarrow> tc_temporary_gate_not_before temporal \<noteq> None"
    using t by (auto simp: temporal temporary_not_before_def temporary_gate_def try_bind_Inr_iff
        INTENT_FOCUS_STATE_AVAILABLE_def split: if_splits)
qed

lemma temporal_context_complete:
  assumes "intent_temporal_context io strftime now p i db = Inr temporal" and "autonomy_policy_ok p"
  shows "temporal_complete i (Some p) temporal"
  using intent_temporal_context_Inr(2,3) [OF assms(1)] assms(2)
  by (auto simp: temporal_complete_def autonomy_policy_ok_def)

text \<open>An evaluation either closes the intent without looking at the gates, or weighs it.\<close>

lemma intent_decide_cases:
  assumes ok: "proactive_intent_ok i" and dec: "intent_decide io strftime now i db = Inr cols"
  obtains
    (closed) d where "d \<in> {DecisionExpired, DecisionCancelled}"
      "decision_columns d now None = Inr cols"
  | (weighed) p temporal where
      "\<not> intent_expired i now" "select_autonomy_policy (pi_life_id i) db = Some p"
      "autonomy_policy_ok p" "ap_enabled p" "goal_active (pi_life_id i) (pi_goal_id i) db"
      "intent_temporal_context io strftime now p i db = Inr temporal"
      "decision_columns (initiative_outcome i (Some p) True now (rate_limited temporal)) now
         (latest_defer_candidate temporal) = Inr cols"
proof (cases "intent_expired i now")
  case True
  then have "(case pi_expires_at i of None \<Rightarrow> False | Some t \<Rightarrow> t \<le> now)"
    by (auto simp: intent_expired_def)
  with dec have "decision_columns DecisionExpired now None = Inr cols"
    by (auto simp: intent_decide_def evaluate_initiative_policy_def try_bind_Inr_iff)
  then show ?thesis by (intro closed [of DecisionExpired]) simp_all
next
  case False
  then have live: "\<not> (case pi_expires_at i of None \<Rightarrow> False | Some t \<Rightarrow> t \<le> now)"
    by (auto simp: intent_expired_def split: option.splits)
  have none: "latest_defer_candidate temporal_context_default = None"
    by (simp add: latest_defer_candidate_def temporal_context_default_def List.map_filter_simps)
  show ?thesis
  proof (cases "select_autonomy_policy (pi_life_id i) db")
    case None
    with dec live none have "decision_columns DecisionCancelled now None = Inr cols"
      by (auto simp: intent_decide_def evaluate_initiative_policy_def try_bind_Inr_iff)
    then show ?thesis by (intro closed [of DecisionCancelled]) simp_all
  next
    case (Some p)
    with dec live obtain active temporal decision where
      p: "autonomy_policy_ok p"
      and a: "active = (ap_enabled p \<and> goal_active (pi_life_id i) (pi_goal_id i) db)"
      and t: "if active then intent_temporal_context io strftime now p i db = Inr temporal
              else temporal = temporal_context_default"
      and d: "evaluate_initiative_policy i (Some p) active now temporal = Inr decision"
        "decision_columns decision now (latest_defer_candidate temporal) = Inr cols"
      by (auto simp: intent_decide_def try_bind_Inr_iff try_seq_Inr_iff validator_simps
          load_goal_is_active_Inr split: if_splits)
    show ?thesis
    proof (cases active)
      case True
      with t have tc: "intent_temporal_context io strftime now p i db = Inr temporal" by simp
      have "decision = initiative_outcome i (Some p) True now (rate_limited temporal)"
        using evaluate_initiative_policy_eq [OF ok temporal_context_complete [OF tc p], of active now]
          d(1) True by simp
      with d(2) tc p a True False Some show ?thesis by (intro weighed) auto
    next
      case inactive: False
      with d(1) live a p have "decision = DecisionCancelled"
        by (auto simp: evaluate_initiative_policy_def autonomy_policy_ok_def autonomy_versions
            split: if_splits)
      with d(2) t inactive none have "decision_columns DecisionCancelled now None = Inr cols"
        by simp
      then show ?thesis by (intro closed [of DecisionCancelled]) simp_all
    qed
  qed
qed

lemma decision_columns_ready:
  "decision_columns d now deferred = Inr cols \<Longrightarrow> fst cols = ''ready'' \<longleftrightarrow> d = DecisionReady"
  by (cases d) (auto simp: autonomy_strings try_bind_Inr_iff)

lemma intent_decide_ready:
  assumes ok: "proactive_intent_ok i" and dec: "intent_decide io strftime now i db = Inr cols"
    and ready: "fst cols = ''ready''"
  obtains p where
    "select_autonomy_policy (pi_life_id i) db = Some p" "autonomy_policy_ok p"
    "is_effectively_enabled p" "goal_active (pi_life_id i) (pi_goal_id i) db"
    "0 < ap_max_ready_per_window p" "worth_interrupting i" "\<not> quiet_gate i"
    "history_not_before io strftime now p (pi_life_id i) db = Inr (None, None)"
  using ok dec
proof (cases rule: intent_decide_cases)
  case (closed d)
  with decision_columns_ready [OF closed(2)] ready show ?thesis by auto
next
  case (weighed p temporal)
  have "initiative_outcome i (Some p) True now (rate_limited temporal) = DecisionReady"
    using decision_columns_ready [OF weighed(7)] ready by blast
  then have out: "ap_max_ready_per_window p \<noteq> 0" "\<not> quiet_gate i" "\<not> temporary_gate p i"
      "\<not> rate_limited temporal" "worth_interrupting i"
    by (auto simp: initiative_outcome_def split: if_splits)
  have "0 < ap_max_ready_per_window p"
    using out(1) weighed(3) by (simp add: autonomy_policy_ok_def policy_values_ok_def)
  moreover have "history_not_before io strftime now p (pi_life_id i) db = Inr (None, None)"
    using intent_temporal_context_Inr(1) [OF weighed(6)] out(4) by (simp add: rate_limited_def)
  moreover have "is_effectively_enabled p"
    using out(3) weighed(4) by (simp add: is_effectively_enabled_def temporary_gate_def)
  ultimately show ?thesis using weighed out by (intro that)
qed

lemma history_not_before_free:
  assumes "history_not_before io strftime now p life db = Inr (None, None)"
    and "0 < ap_max_ready_per_window p"
  obtains window_start where
    "strftime now (seconds_modifier (- ap_window_seconds p)) = Some window_start"
    "int (length (ready_times life (\<lambda>t. t \<ge> window_start \<and> t \<le> now) db))
       < ap_max_ready_per_window p"
    "ready_times life (\<lambda>t. t \<le> now) db = []
     \<or> (\<exists>c. strftime (Max (set (ready_times life (\<lambda>t. t \<le> now) db)))
              (seconds_modifier (ap_min_gap_seconds p)) = Some c \<and> c \<le> now)"
proof -
  from assms obtain h where h: "load_ready_event_history io strftime life now (ap_window_seconds p) db
      = Inr h" "int (rh_count_in_window h) < ap_max_ready_per_window p"
    and gap: "rh_latest h = None \<or> (\<exists>l c. rh_latest h = Some l
        \<and> strftime l (seconds_modifier (ap_min_gap_seconds p)) = Some c \<and> \<not> c > now)"
    by (auto simp: history_not_before_def try_bind_Inr_iff not_le split: if_splits option.splits)
  from h(1) obtain ws where
    "strftime now (seconds_modifier (- ap_window_seconds p)) = Some ws"
    "rh_count_in_window h = length (ready_times life (\<lambda>t. t \<ge> ws \<and> t \<le> now) db)"
    "rh_latest h = max_str (ready_times life (\<lambda>t. t \<le> now) db)"
    by (auto simp: load_ready_event_history_def try_bind_Inr_iff)
  with h(2) gap show ?thesis by (intro that [of ws]) (auto simp: max_str_max not_less)
qed

section \<open>The interruption budget\<close>

text \<open>
  What the code relies on of SQLite's clock and date arithmetic, for the timestamps in \<open>valid\<close>: their
  byte order is their order in time (\<open>ts\<close>, in milliseconds), and adding seconds gives the timestamp
  that many seconds away.
\<close>

definition clock_laws :: "string set \<Rightarrow> (string \<Rightarrow> int) \<Rightarrow> sqlite_strftime \<Rightarrow> bool" where
  "clock_laws valid ts strftime \<longleftrightarrow>
     (\<forall>a \<in> valid. \<forall>b \<in> valid. a \<le> b \<longleftrightarrow> ts a \<le> ts b)
     \<and> (\<forall>b \<in> valid. \<forall>s t. strftime b (seconds_modifier s) = Some t \<longrightarrow>
          t \<in> valid \<and> ts t = ts b + 1000 * s)"

fun op_times :: "autonomy_op \<Rightarrow> string list" where
  "op_times (OpCreatePolicy io now r) = [now]"
| "op_times (OpUpdatePolicy io now r) = [now]"
| "op_times (OpCreateIntent io now r) = [now]"
| "op_times (OpEvaluate io now r) = [now]"
| "op_times (OpLifeIntent op) = []"

definition run_times :: "autonomy_op list \<Rightarrow> string list" where
  "run_times ops = concat (map op_times ops)"

lemma intent_events_step:
  "ie_occurred_at ` set (intent_event_rows (autonomy_op_step strftime op db))
     \<subseteq> ie_occurred_at ` set (intent_event_rows db) \<union> set (op_times op)"
proof -
  let ?P = "\<lambda>now db'. ie_occurred_at ` set (intent_event_rows db')
     \<subseteq> ie_occurred_at ` set (intent_event_rows db) \<union> {now}"
  have same: "?P now db" for now by auto
  have eq: "intent_event_rows db' = intent_event_rows db \<Longrightarrow> ?P now db'"
    for now and db' :: "'a autonomy_db_scheme" by auto
  show ?thesis
  proof (cases op)
    case (OpCreatePolicy io now r)
    have "?P now (snd (autonomy_create_policy io now r db))"
      unfolding autonomy_create_policy_def
      by (rule with_transaction_inv [where P = "?P now", OF same], rule eq)
        (auto dest!: autonomy_create_Inr simp: autonomy_policy_insert_Inr)
    with OpCreatePolicy show ?thesis by simp
  next
    case (OpUpdatePolicy io now r)
    have "?P now (snd (autonomy_update_policy io now r db))"
      unfolding autonomy_update_policy_def
      by (rule with_transaction_inv [where P = "?P now", OF same], rule eq)
        (erule autonomy_update_cases; simp add: autonomy_updated_db_rows)
    with OpUpdatePolicy show ?thesis by simp
  next
    case (OpCreateIntent io now r)
    have "?P now (snd (create_pending_goal_check_in_intent io now r db))"
      unfolding create_pending_goal_check_in_intent_def
      by (rule with_transaction_inv [where P = "?P now", OF same], rule eq)
        (auto dest!: create_pending_intent_Inr simp: intent_insert_Inr)
    with OpCreateIntent show ?thesis by simp
  next
    case (OpEvaluate io now r)
    have "?P now (snd (evaluate_pending_intent io strftime now r db))"
      unfolding evaluate_pending_intent_def
      by (rule with_transaction_inv [where P = "?P now", OF same])
        (erule intent_evaluation_cases; auto simp: intent_evaluated_db_rows)
    with OpEvaluate show ?thesis by simp
  next
    case (OpLifeIntent lop)
    then show ?thesis
      by (auto simp: life_intent_step_cascading_def cascade_intents_def Let_def)
  qed
qed

lemma intent_events_run:
  "ie_occurred_at ` set (intent_event_rows (autonomy_run strftime ops (autonomy_db_new lives)))
     \<subseteq> set (run_times ops)"
proof (induction ops rule: rev_induct)
  case Nil
  then show ?case by (simp add: autonomy_run_def autonomy_db_new_def)
next
  case (snoc op ops)
  have "autonomy_run strftime (ops @ [op]) (autonomy_db_new lives)
      = autonomy_op_step strftime op (autonomy_run strftime ops (autonomy_db_new lives))"
    by (simp add: autonomy_run_def)
  moreover have "set (run_times (ops @ [op])) = set (run_times ops) \<union> set (op_times op)"
    by (simp add: run_times_def)
  ultimately show ?case
    using snoc intent_events_step [of strftime op "autonomy_run strftime ops (autonomy_db_new lives)"]
    by (simp only:) blast
qed

definition ready_event :: "string \<Rightarrow> intent_event \<Rightarrow> bool" where
  "ready_event life e \<longleftrightarrow> ie_life_id e = life \<and> ie_to_status e = ''ready''"

lemma ready_times_eq:
  "ready_times life p db =
     map ie_occurred_at (filter (\<lambda>e. ready_event life e \<and> p (ie_occurred_at e)) (intent_event_rows db))"
  unfolding ready_times_def ready_event_def by (simp add: conj_assoc)

text \<open>One evaluation, given that no recorded event lies in its future.\<close>

lemma ready_budget_step:
  assumes laws: "clock_laws valid ts strftime" and now: "now \<in> valid"
    and past: "\<And>e. e \<in> set (intent_event_rows db) \<Longrightarrow>
      ie_occurred_at e \<in> valid \<and> ts (ie_occurred_at e) \<le> ts now"
    and hist: "history_not_before io strftime now p life db = Inr (None, None)"
      "0 < ap_max_ready_per_window p"
  shows "int (length (filter (\<lambda>e. ready_event life e
           \<and> ts now - 1000 * ap_window_seconds p \<le> ts (ie_occurred_at e)) (intent_event_rows db)))
      < ap_max_ready_per_window p"
    and "\<And>e. e \<in> set (intent_event_rows db) \<Longrightarrow> ready_event life e \<Longrightarrow>
      ts (ie_occurred_at e) + 1000 * ap_min_gap_seconds p \<le> ts now"
proof -
  let ?rows = "intent_event_rows db"
  from history_not_before_free [OF hist] obtain ws where
    ws: "strftime now (seconds_modifier (- ap_window_seconds p)) = Some ws"
    and count: "int (length (ready_times life (\<lambda>t. t \<ge> ws \<and> t \<le> now) db))
       < ap_max_ready_per_window p"
    and gap: "ready_times life (\<lambda>t. t \<le> now) db = []
     \<or> (\<exists>c. strftime (Max (set (ready_times life (\<lambda>t. t \<le> now) db)))
              (seconds_modifier (ap_min_gap_seconds p)) = Some c \<and> c \<le> now)" .
  have order: "a \<le> b \<longleftrightarrow> ts a \<le> ts b" if "a \<in> valid" "b \<in> valid" for a b
    using laws that by (simp add: clock_laws_def)
  have add: "t \<in> valid \<and> ts t = ts b + 1000 * s"
    if "b \<in> valid" "strftime b (seconds_modifier s) = Some t" for b s t
    using laws that by (simp add: clock_laws_def)
  have ws': "ws \<in> valid" "ts ws = ts now - 1000 * ap_window_seconds p"
    using add [OF now ws] by auto
  have "filter (\<lambda>e. ready_event life e \<and> ie_occurred_at e \<ge> ws \<and> ie_occurred_at e \<le> now) ?rows
      = filter (\<lambda>e. ready_event life e
           \<and> ts now - 1000 * ap_window_seconds p \<le> ts (ie_occurred_at e)) ?rows"
    using past order now ws' by (intro filter_cong) auto
  with count show "int (length (filter (\<lambda>e. ready_event life e
           \<and> ts now - 1000 * ap_window_seconds p \<le> ts (ie_occurred_at e)) ?rows))
      < ap_max_ready_per_window p"
    by (simp add: ready_times_eq)
  fix e assume e: "e \<in> set ?rows" "ready_event life e"
  let ?times = "ready_times life (\<lambda>t. t \<le> now) db"
  have mem: "ie_occurred_at e \<in> set ?times"
    using e past [OF e(1)] order now by (auto simp: ready_times_eq)
  then have "?times \<noteq> []" by auto
  with gap obtain c where c: "strftime (Max (set ?times)) (seconds_modifier (ap_min_gap_seconds p))
      = Some c" "c \<le> now" by blast
  have "Max (set ?times) \<in> set ?times" using \<open>?times \<noteq> []\<close> by simp
  then have "Max (set ?times) \<in> valid"
    using past by (auto simp: ready_times_eq)
  moreover have "ie_occurred_at e \<le> Max (set ?times)" using mem by simp
  ultimately have "ts (ie_occurred_at e) \<le> ts (Max (set ?times))"
    using past [OF e(1)] order by blast
  moreover have "c \<in> valid" "ts c = ts (Max (set ?times)) + 1000 * ap_min_gap_seconds p"
    using add [OF \<open>Max (set ?times) \<in> valid\<close> c(1)] by auto
  ultimately show "ts (ie_occurred_at e) + 1000 * ap_min_gap_seconds p \<le> ts now"
    using c(2) order now by auto
qed

text \<open>
  C6: the interruption budget holds. Whatever calls ran before, on a clock that does not run
  backwards, an intent becomes ready only under a policy that is enabled and not in do-not-disturb,
  for an active goal, and then the ready events of that life in the last \<open>window_seconds\<close>, this one
  included, are at most \<open>max_ready_per_window\<close>, and every earlier one is at least
  \<open>min_gap_seconds\<close> old. The events are those of the table: deleting a goal deletes its intents and
  their events, which no longer count.
\<close>

theorem ready_within_budget:
  assumes laws: "clock_laws valid ts strftime"
    and db: "db = autonomy_run strftime ops (autonomy_db_new lives)"
    and clock: "set (run_times ops @ [now]) \<subseteq> valid" "sorted (map ts (run_times ops @ [now]))"
    and ev: "evaluate_pending_intent io strftime now r db = (Inr (IntentApplied e i), db')"
    and ready: "ie_to_status e = ''ready''"
  shows "\<exists>p. select_autonomy_policy (iq_life_id r) db = Some p \<and> is_effectively_enabled p
    \<and> goal_active (iq_life_id r) (pi_goal_id i) db
    \<and> int (length (filter (\<lambda>f. ready_event (iq_life_id r) f
             \<and> ts now - 1000 * ap_window_seconds p \<le> ts (ie_occurred_at f)) (intent_event_rows db')))
        \<le> ap_max_ready_per_window p
    \<and> (\<forall>f \<in> set (intent_event_rows db). ready_event (iq_life_id r) f \<longrightarrow>
          ts (ie_occurred_at f) + 1000 * ap_min_gap_seconds p \<le> ts now)"
proof -
  have inv: "intent_inv db"
    using autonomy_run_inv [OF autonomy_db_new_inv, of strftime ops lives]
    by (simp add: db autonomy_inv_def)
  have past: "ie_occurred_at f \<in> valid \<and> ts (ie_occurred_at f) \<le> ts now"
    if "f \<in> set (intent_event_rows db)" for f
  proof -
    from that intent_events_run [of strftime ops lives] have "ie_occurred_at f \<in> set (run_times ops)"
      by (auto simp: db)
    with clock show ?thesis by (auto simp: sorted_append)
  qed
  from ev have "evaluate_pending_intent_in_transaction io strftime now r db
      = Inr (IntentApplied e i, db')"
    by (simp add: evaluate_pending_intent_def with_transaction_Inr)
  then show ?thesis
  proof (cases rule: intent_evaluation_cases)
    case (applied j c cols)
    have cols: "fst cols = ''ready''" using ready applied(1) by simp
    from intent_decide_ready [OF applied(8,9) cols] obtain p where
      p: "select_autonomy_policy (pi_life_id c) db = Some p" "is_effectively_enabled p"
        "goal_active (pi_life_id c) (pi_goal_id c) db"
      and hist: "history_not_before io strftime now p (pi_life_id c) db = Inr (None, None)"
        "0 < ap_max_ready_per_window p" .
    have "now \<in> valid" using clock(1) by simp
    note budget = ready_budget_step [OF laws this past hist, unfolded applied(5)]
    have "i = intent_after now (iq_expected_revision r + 1) cols c"
      using intent_evaluation_applied [OF inv applied(4-7)] applied(1,2,12) by simp
    then have "pi_goal_id i = pi_goal_id c" by simp
    with p budget show ?thesis
      unfolding applied(2,5) intent_evaluated_db_rows by auto
  qed simp
qed

section \<open>A life that is let through\<close>

definition sample_t0 :: string where "sample_t0 = ''2026-01-01T00:00:00.000Z''"
definition sample_t1 :: string where "sample_t1 = ''2026-01-01T01:00:00.000Z''"

text \<open>The one hour of the clock the example needs.\<close>

definition sample_strftime :: sqlite_strftime where
  "sample_strftime base modifier =
     (if base = sample_t1 \<and> modifier = seconds_modifier (- 3600) then Some sample_t0 else None)"

definition sample_ts :: "string \<Rightarrow> int" where
  "sample_ts t = (if t = sample_t1 then 3600000 else 0)"

lemma seconds_modifier_inj: "seconds_modifier a = seconds_modifier b \<Longrightarrow> a = b"
proof -
  assume "seconds_modifier a = seconds_modifier b"
  then have eq: "(if a \<ge> 0 then CHR ''+'' # int_to_dec a else int_to_dec a)
      = (if b \<ge> 0 then CHR ''+'' # int_to_dec b else int_to_dec b)"
    by (simp add: seconds_modifier_def)
  have neg: "int_to_dec x \<noteq> CHR ''+'' # s" if "x < 0" for x s
    using that by (simp add: int_to_dec_def)
  from eq neg [symmetric] neg show "a = b"
    by (auto split: if_splits dest: int_to_dec_inj)
qed

lemma sample_times_order [simp]:
  "sample_t0 \<le> sample_t1" "\<not> sample_t1 \<le> sample_t0" "sample_t0 \<noteq> sample_t1"
  "sample_t1 \<noteq> sample_t0"
  by (simp_all add: sample_t0_def sample_t1_def less_char_def less_eq_char_def)

lemma sample_clock_laws: "clock_laws {sample_t0, sample_t1} sample_ts sample_strftime"
  by (auto simp: clock_laws_def sample_ts_def sample_strftime_def split: if_splits
      dest!: seconds_modifier_inj)

definition sample_create :: autonomy_create_request where
  "sample_create =
     \<lparr>ac_life_id = ''life-a'', ac_enabled = True, ac_dnd = False, ac_max_ready_per_window = 1,
      ac_window_seconds = 3600, ac_min_gap_seconds = 60\<rparr>"

definition sample_intent_create :: intent_create_request where
  "sample_intent_create =
     \<lparr>ir_intent_id = ''intent-1'', ir_life_id = ''life-a'', ir_goal_id = ''goal-1'',
      ir_intent_kind = ''goal_check_in'', ir_importance = 800, ir_user_relevance = 900,
      ir_self_desire = 700, ir_interruption_cost = 300, ir_focus_state = ''available'',
      ir_acceptance_score = None, ir_recent_interaction_seconds = Some 300,
      ir_expires_at = None\<rparr>"

definition sample_ops0 :: "autonomy_op list" where
  "sample_ops0 =
     [OpLifeIntent (LopCreateGoal (\<lambda>_. True) life_t0 goal_request1),
      OpCreatePolicy (\<lambda>_. True) sample_t0 sample_create]"

definition sample_ops :: "autonomy_op list" where
  "sample_ops = sample_ops0 @ [OpCreateIntent (\<lambda>_. True) sample_t0 sample_intent_create]"

definition sample_autonomy_db :: autonomy_db where
  "sample_autonomy_db =
     \<lparr>life_identity = [''life-a''], goal_rows = [goal1], plan_rows = [], step_rows = [],
      action_rows = [], life_event_rows = [],
      autonomy_policy_rows = [sample_policy], autonomy_policy_event_rows = [],
      intent_rows = [sample_intent], intent_event_rows = []\<rparr>"

definition sample_evaluation :: intent_evaluation_request where
  "sample_evaluation =
     \<lparr>iq_event_id = ''eval-1'', iq_life_id = ''life-a'', iq_intent_id = ''intent-1'',
      iq_expected_revision = 1\<rparr>"

lemma sample_sql_strings:
  "autonomy_id_ok ''eval-1''" "sql_id ''eval-1''" "sql_id ''intent-1''" "sql_id ''goal-1''"
  "sql_nonblank ''life-a''" "sql_nonblank ''2026-01-01T00:00:00.000Z''"
  "sql_nonblank ''2026-01-01T01:00:00.000Z''" "\<not> str_blank ''2026-01-01T01:00:00.000Z''"
  "canonical_timestamp ''2026-01-01T01:00:00.000Z''"
  by code_simp+

lemma sample_policy_create: "autonomy_policy_of_create sample_t0 sample_create = sample_policy"
  by (simp add: autonomy_policy_of_create_def sample_create_def sample_policy_def sample_t0_def)

lemma sample_intent_created: "intent_of_create sample_t0 sample_intent_create = sample_intent"
  by (simp add: intent_of_create_def sample_intent_create_def sample_intent_def sample_t0_def
      autonomy_strings INTENT_VERSION_def)

lemma sample_policy_row: "autonomy_policy_row_check sample_policy"
  by (simp add: autonomy_policy_row_check_def sample_policy_def sample_sql_strings)

lemma sample_intent_row: "intent_row_check sample_intent"
  by (simp add: intent_row_check_def sample_intent_def sample_sql_strings signal_ok_def
      sql_intent_status_def)

definition sample_db0 :: autonomy_db where
  "sample_db0 =
     \<lparr>life_identity = [''life-a''], goal_rows = [goal1], plan_rows = [], step_rows = [],
      action_rows = [], life_event_rows = [],
      autonomy_policy_rows = [sample_policy], autonomy_policy_event_rows = [],
      intent_rows = [], intent_event_rows = []\<rparr>"

lemma sample_run0: "autonomy_run strftime sample_ops0 (autonomy_db_new [''life-a'']) = sample_db0"
proof -
  let ?db0 = "(autonomy_db_new [''life-a''])\<lparr>goal_rows := [goal1]\<rparr>"
  let ?db1 = "?db0\<lparr>autonomy_policy_rows := [sample_policy]\<rparr>"
  have life: "ap_life_id sample_policy = ''life-a''" "ap_enabled sample_policy"
    by (simp_all add: sample_policy_def)
  have c1: "autonomy_create_ok sample_create"
    by (simp add: autonomy_create_ok_def sample_create_def sample_strings policy_values_ok_def)
  have s1: "snd (autonomy_create_policy (\<lambda>_. True) sample_t0 sample_create ?db0) = ?db1"
    using c1 sample_policy_ok sample_policy_row
    by (simp add: autonomy_create_policy_def with_transaction_def autonomy_create_in_transaction_def
        validator_simps autonomy_select_defs autonomy_require_life_def autonomy_policy_insert_def
        sample_policy_create life autonomy_db_new_def) (simp add: sample_create_def life)
  have s0: "life_intent_step_cascading (LopCreateGoal (\<lambda>_. True) life_t0 goal_request1)
      (autonomy_db_new [''life-a'']) = ?db0"
    by (simp add: life_intent_step_cascading_def life_sample_create_goal autonomy_db_new_def
        life_keys_def)
  show ?thesis
    by (simp add: autonomy_run_def sample_ops0_def s0 s1)
      (simp add: autonomy_db_new_def sample_db0_def)
qed

lemma sample_run: "autonomy_run strftime sample_ops (autonomy_db_new [''life-a''])
    = sample_autonomy_db"
proof -
  have life: "ap_life_id sample_policy = ''life-a''" "pi_life_id sample_intent = ''life-a''"
      "pi_intent_id sample_intent = ''intent-1''" "pi_goal_id sample_intent = ''goal-1''"
      "ap_enabled sample_policy"
    by (simp_all add: sample_policy_def sample_intent_def)
  have c2: "intent_create_ok sample_intent_create"
    by (simp add: intent_create_ok_def intent_evidence_ok_def sample_intent_create_def
        sample_strings signal_ok_def)
  have s2: "snd (create_pending_goal_check_in_intent (\<lambda>_. True) sample_t0 sample_intent_create sample_db0)
      = sample_db0\<lparr>intent_rows := [sample_intent]\<rparr>"
    using c2 sample_policy_ok sample_intent_ok sample_intent_row
    by (simp add: create_pending_goal_check_in_intent_def with_transaction_def
        create_pending_intent_in_transaction_def validator_simps autonomy_select_defs
        require_active_goal_def intent_insert_def sample_intent_created life sample_db0_def)
      (simp add: sample_intent_create_def life life_key_def)
  have "autonomy_run strftime sample_ops (autonomy_db_new [''life-a''])
      = snd (create_pending_goal_check_in_intent (\<lambda>_. True) sample_t0 sample_intent_create sample_db0)"
    unfolding sample_run0 [of strftime, symmetric] by (simp add: autonomy_run_def sample_ops_def)
  then show ?thesis by (simp add: s2) (simp add: sample_db0_def sample_autonomy_db_def)
qed

definition sample_evaluated_db :: autonomy_db where
  "sample_evaluated_db =
     intent_evaluated_db sample_t1 (''ready'', None, None) sample_evaluation sample_autonomy_db"

definition sample_ready_intent :: proactive_intent where
  "sample_ready_intent = intent_after sample_t1 2 (''ready'', None, None) sample_intent"

definition sample_ready_event :: intent_event where
  "sample_ready_event = intent_event_of sample_t1 2 (''ready'', None, None) sample_evaluation"

lemma sample_decide:
  "intent_decide (\<lambda>_. True) sample_strftime sample_t1 sample_intent sample_autonomy_db
     = Inr (''ready'', None, None)"
proof -
  have history: "history_not_before (\<lambda>_. True) sample_strftime sample_t1 sample_policy ''life-a''
      sample_autonomy_db = Inr (None, None)"
    by (simp add: history_not_before_def load_ready_event_history_def sqlite_add_seconds_def
        sample_policy_def sample_strftime_def ready_times_def sample_autonomy_db_def)
  have temporal: "intent_temporal_context (\<lambda>_. True) sample_strftime sample_t1 sample_policy
      sample_intent sample_autonomy_db = Inr temporal_context_default"
    using history
    by (simp add: intent_temporal_context_def recent_not_before_def temporary_not_before_def
        sample_intent_def sample_policy_def autonomy_bounds INTENT_FOCUS_STATE_AVAILABLE_def
        temporal_context_default_def)
  have eval: "evaluate_initiative_policy sample_intent (Some sample_policy) True sample_t1
      temporal_context_default = Inr DecisionReady"
    by (subst evaluate_initiative_policy_eq [OF sample_intent_ok])
      (simp_all add: temporal_complete_def initiative_outcome_def
        sample_intent_def sample_policy_def intent_expired_def quiet_gate_def temporary_gate_def
        rate_limited_def temporal_context_default_def worth_interrupting_def readiness_score_def
        intent_acceptance_def)
  have row: "select_autonomy_policy (pi_life_id sample_intent) sample_autonomy_db = Some sample_policy"
      "load_goal_is_active (\<lambda>_. True) (pi_life_id sample_intent) (pi_goal_id sample_intent)
         sample_autonomy_db = Inr True"
      "ap_enabled sample_policy" "pi_expires_at sample_intent = None"
    by (simp_all add: autonomy_select_defs load_goal_is_active_def sample_autonomy_db_def
        sample_policy_def sample_intent_def)
  show ?thesis
    using temporal eval row sample_policy_ok
    by (simp add: intent_decide_def validator_simps INTENT_STATUS_READY_def)
qed

lemma sample_evaluate:
  "evaluate_pending_intent (\<lambda>_. True) sample_strftime sample_t1 sample_evaluation sample_autonomy_db
     = (Inr (IntentApplied sample_ready_event sample_ready_intent), sample_evaluated_db)"
proof -
  have ok: "intent_evaluation_ok sample_evaluation"
    by (simp add: intent_evaluation_ok_def sample_evaluation_def sample_strings sample_sql_strings
        expected_revision_ok_def i64_bounds)
  have ready: "proactive_intent_ok sample_ready_intent" "intent_row_check sample_ready_intent"
    by (simp_all add: sample_ready_intent_def intent_after_def proactive_intent_ok_def
        intent_evidence_ok_def intent_columns_ok_def sample_intent_def sample_strings signal_ok_def
        is_intent_status_def autonomy_strings intent_row_check_def sample_sql_strings
        sql_intent_status_def sample_t1_def)
  have event: "intent_event_ok sample_ready_event" "intent_event_row_check sample_ready_event"
    by (simp_all add: sample_ready_event_def intent_event_of_def intent_event_ok_def
        intent_event_row_check_def sample_evaluation_def sample_strings sample_sql_strings
        is_intent_status_def autonomy_strings INTENT_EVENT_VERSION_def expected_revision_ok_def
        i64_bounds sql_intent_status_def sample_t1_def)
  have int: "pi_intent_id sample_intent = ''intent-1''" "pi_life_id sample_intent = ''life-a''"
      "pi_revision sample_intent = 1" "pi_status sample_intent = ''pending''"
    by (simp_all add: sample_intent_def)
  have ev: "iq_intent_id sample_evaluation = ''intent-1''" "iq_life_id sample_evaluation = ''life-a''"
      "iq_expected_revision sample_evaluation = 1"
    by (simp_all add: sample_evaluation_def)
  have "intent_apply (\<lambda>_. True) sample_t1 2 (''ready'', None, None) sample_evaluation sample_autonomy_db
      = Inr (IntentApplied sample_ready_event sample_ready_intent, sample_evaluated_db)"
    using ready event
    by (simp add: intent_apply_def intent_update_def sql_update_def Let_def validator_simps
        sample_autonomy_db_def int ev sample_ready_intent_def [symmetric]
        sample_ready_event_def [symmetric] intent_event_insert_def autonomy_select_defs
        sample_evaluated_db_def intent_evaluated_db_def)
      (simp add: sample_ready_event_def sample_ready_intent_def int ev)
  moreover have "select_intent_event (iq_event_id sample_evaluation) sample_autonomy_db = None"
      "select_intent_by_id ''intent-1'' sample_autonomy_db = Some sample_intent"
    by (simp_all add: autonomy_select_defs sample_autonomy_db_def int)
  moreover have "autonomy_next_revision 1 = Inr 2"
    using autonomy_next_revision_ok [of 1] by (simp add: expected_revision_ok_def i64_bounds)
  ultimately show ?thesis
    using ok sample_decide sample_intent_ok
    by (simp add: evaluate_pending_intent_def with_transaction_def
        evaluate_pending_intent_in_transaction_def validator_simps ev int
        INTENT_STATUS_PENDING_def)
qed

lemma ready_within_budget_witness:
  "\<exists>e i db'. evaluate_pending_intent (\<lambda>_. True) sample_strftime sample_t1 sample_evaluation
      sample_autonomy_db = (Inr (IntentApplied e i), db') \<and> ie_to_status e = ''ready''
    \<and> (\<exists>p. select_autonomy_policy ''life-a'' sample_autonomy_db = Some p \<and> is_effectively_enabled p
        \<and> int (length (filter (\<lambda>f. ready_event ''life-a'' f
             \<and> sample_ts sample_t1 - 1000 * ap_window_seconds p \<le> sample_ts (ie_occurred_at f))
             (intent_event_rows db'))) \<le> ap_max_ready_per_window p)"
proof -
  have times: "set (run_times sample_ops @ [sample_t1]) \<subseteq> {sample_t0, sample_t1}"
    by (simp add: run_times_def sample_ops_def sample_ops0_def)
  have sorted: "sorted (map sample_ts (run_times sample_ops @ [sample_t1]))"
    by (simp add: run_times_def sample_ops_def sample_ops0_def sample_ts_def)
  have ready: "ie_to_status sample_ready_event = ''ready''"
    by (simp add: sample_ready_event_def)
  show ?thesis
    using ready_within_budget [OF sample_clock_laws sample_run [symmetric] times sorted
        sample_evaluate ready] sample_evaluate ready
    by (auto simp: sample_evaluation_def)
qed

lemma autonomy_ledgers_project_witness:
  "\<exists>i. select_intent_by_id ''intent-1'' sample_autonomy_db = Some i \<and> pi_status i = ''pending''
     \<and> pi_revision i = 1 \<and> intent_history ''intent-1'' sample_autonomy_db = []"
proof -
  have sel: "select_intent_by_id ''intent-1'' sample_autonomy_db = Some sample_intent"
    by (simp add: autonomy_select_defs sample_autonomy_db_def sample_intent_def)
  have pending: "pi_status sample_intent = ''pending''" by (simp add: sample_intent_def)
  show ?thesis
    using autonomy_ledgers_project [OF sample_run [symmetric], THEN conjunct2, rule_format, OF sel]
      sel pending by simp
qed

section \<open>Every pending intent is decided\<close>

text \<open>
  SQLite's date arithmetic answers NULL for a time it cannot read or that leaves its range of years.
  What an evaluation needs of it is therefore only that the dates this evaluation asks for are
  answered, with a timestamp of the canonical form: the recheck times counted from now, the start of
  the window, and, for the times the life was already approached, the end of their window and of
  their gap.
\<close>

definition dates_asked ::
    "string \<Rightarrow> autonomy_policy \<Rightarrow> proactive_intent \<Rightarrow> 'a autonomy_db_scheme
     \<Rightarrow> (string \<times> int) list" where
  "dates_asked now p i db =
     (case pi_recent_interaction_seconds i of
        None \<Rightarrow> [(now, MIN_RECHECK_SECONDS)]
      | Some s \<Rightarrow> if s < RECENT_INTERACTION_QUIET_SECONDS
                  then [(now, RECENT_INTERACTION_QUIET_SECONDS - s)] else [])
     @ (if ap_dnd p \<or> pi_focus_state i \<noteq> INTENT_FOCUS_STATE_AVAILABLE
        then [(now, max MIN_RECHECK_SECONDS (ap_min_gap_seconds p))] else [])
     @ (if ap_max_ready_per_window p > 0
        then (now, - ap_window_seconds p)
             # concat (map (\<lambda>t. [(t, ap_window_seconds p), (t, ap_min_gap_seconds p)])
                 (ready_times (pi_life_id i) (\<lambda>t. t \<le> now) db))
        else [])"

definition date_answered :: "sqlite_strftime \<Rightarrow> string \<times> int \<Rightarrow> bool" where
  "date_answered strftime q \<longleftrightarrow>
     (case strftime (fst q) (seconds_modifier (snd q)) of
        None \<Rightarrow> False | Some t \<Rightarrow> canonical_timestamp t)"

definition dates_answered ::
    "sqlite_strftime \<Rightarrow> string \<Rightarrow> proactive_intent \<Rightarrow> 'a autonomy_db_scheme \<Rightarrow> bool" where
  "dates_answered strftime now i db \<longleftrightarrow>
     (case select_autonomy_policy (pi_life_id i) db of
        None \<Rightarrow> True
      | Some p \<Rightarrow> list_all (date_answered strftime) (dates_asked now p i db))"

lemma date_answeredE:
  assumes "list_all (date_answered strftime) qs" and "(b, s) \<in> set qs"
  obtains t where "sqlite_add_seconds strftime b s = Inr t" "canonical_timestamp t"
  using assms by (fastforce simp: list_all_iff date_answered_def split: option.splits)

lemma ready_times_ask:
  assumes "ap_max_ready_per_window p > 0"
    and "t \<in> set (ready_times (pi_life_id i) (\<lambda>t. t \<ge> ws \<and> t \<le> now) db)
      \<or> t \<in> set (ready_times (pi_life_id i) (\<lambda>t. t \<le> now) db)"
  shows "(t, ap_window_seconds p) \<in> set (dates_asked now p i db)"
    and "(t, ap_min_gap_seconds p) \<in> set (dates_asked now p i db)"
  using assms by (fastforce simp: dates_asked_def ready_times_def)+

lemma min_str_mem: "min_str xs = Some x \<Longrightarrow> x \<in> set xs"
proof (induction xs arbitrary: x)
  case (Cons a xs)
  then show ?case by (cases "min_str xs") (auto simp: min_def split: if_splits)
qed simp

lemma max_str_mem: "max_str xs = Some x \<Longrightarrow> x \<in> set xs"
  by (metis Max_in List.finite_set max_str_max set_empty)

declare sqlite_add_seconds_Inr [simp del]

lemma min_str_None [simp]: "min_str xs = None \<longleftrightarrow> xs = []"
  by (cases xs) (auto split: option.splits)

lemma history_total:
  assumes ans: "list_all (date_answered strftime) (dates_asked now p i db)"
  shows "\<exists>f g. history_not_before (\<lambda>_. True) strftime now p (pi_life_id i) db = Inr (f, g)
    \<and> optional_ok canonical_timestamp f \<and> optional_ok canonical_timestamp g"
proof (cases "ap_max_ready_per_window p > 0")
  case False
  then show ?thesis by (simp add: history_not_before_def)
next
  case True
  note add = date_answeredE [OF ans]
  have "(now, - ap_window_seconds p) \<in> set (dates_asked now p i db)"
    using True by (simp add: dates_asked_def)
  then obtain ws where ws: "sqlite_add_seconds strftime now (- ap_window_seconds p) = Inr ws"
    by (rule add)
  let ?window = "ready_times (pi_life_id i) (\<lambda>t. t \<ge> ws \<and> t \<le> now) db"
  let ?all = "ready_times (pi_life_id i) (\<lambda>t. t \<le> now) db"
  let ?full = "int (length ?window) \<ge> ap_max_ready_per_window p"
  have load: "load_ready_event_history (\<lambda>_. True) strftime (pi_life_id i) now (ap_window_seconds p) db
      = Inr \<lparr>rh_count_in_window = length ?window, rh_oldest_in_window = min_str ?window,
             rh_latest = max_str ?all\<rparr>"
    by (simp add: load_ready_event_history_def ws)
  have full: "\<exists>f. (if ?full then try_bind (ok_or (min_str ?window) autonomy_database) (\<lambda>oldest.
        try_bind (sqlite_add_seconds strftime oldest (ap_window_seconds p)) (\<lambda>t. Inr (Some t)))
      else Inr None) = Inr f \<and> optional_ok canonical_timestamp f"
  proof (cases ?full)
    case True
    with \<open>ap_max_ready_per_window p > 0\<close> have "?window \<noteq> []" by auto
    then obtain oldest where oldest: "min_str ?window = Some oldest" by fastforce
    moreover from ready_times_ask(1) [OF \<open>ap_max_ready_per_window p > 0\<close>] min_str_mem [OF oldest]
    obtain t where "sqlite_add_seconds strftime oldest (ap_window_seconds p) = Inr t"
      "canonical_timestamp t" using add by blast
    ultimately show ?thesis using True by (intro exI [of _ "Some t"]) simp
  qed simp
  have gap: "\<exists>g. (case max_str ?all of None \<Rightarrow> Inr None
      | Some latest \<Rightarrow> try_bind (sqlite_add_seconds strftime latest (ap_min_gap_seconds p))
          (\<lambda>candidate. Inr (if candidate > now then Some candidate else None))) = Inr g
      \<and> optional_ok canonical_timestamp g"
  proof (cases "max_str ?all")
    case (Some latest)
    from ready_times_ask(2) [OF True] max_str_mem [OF Some]
    obtain t where "sqlite_add_seconds strftime latest (ap_min_gap_seconds p) = Inr t"
      "canonical_timestamp t" using add by blast
    with Some show ?thesis by simp
  qed simp
  from full gap True load show ?thesis
    by (auto simp: history_not_before_def)
qed

lemma temporal_total:
  assumes ans: "list_all (date_answered strftime) (dates_asked now p i db)"
  shows "\<exists>c. intent_temporal_context (\<lambda>_. True) strftime now p i db = Inr c
    \<and> optional_ok canonical_timestamp (tc_recent_interaction_not_before c)
    \<and> optional_ok canonical_timestamp (tc_temporary_gate_not_before c)
    \<and> optional_ok canonical_timestamp (tc_frequency_not_before c)
    \<and> optional_ok canonical_timestamp (tc_min_gap_not_before c)"
proof -
  have recent: "\<exists>t. recent_not_before strftime now i = Inr t \<and> optional_ok canonical_timestamp t"
  proof (cases "pi_recent_interaction_seconds i")
    case None
    then have "(now, MIN_RECHECK_SECONDS) \<in> set (dates_asked now p i db)"
      by (simp add: dates_asked_def)
    then obtain t where "sqlite_add_seconds strftime now MIN_RECHECK_SECONDS = Inr t"
      "canonical_timestamp t" by (rule date_answeredE [OF ans])
    with None show ?thesis by (simp add: recent_not_before_def)
  next
    case (Some s)
    show ?thesis
    proof (cases "s < RECENT_INTERACTION_QUIET_SECONDS")
      case True
      with Some have "(now, RECENT_INTERACTION_QUIET_SECONDS - s) \<in> set (dates_asked now p i db)"
        by (simp add: dates_asked_def)
      then obtain t where
        "sqlite_add_seconds strftime now (RECENT_INTERACTION_QUIET_SECONDS - s) = Inr t"
        "canonical_timestamp t" by (rule date_answeredE [OF ans])
      with Some True show ?thesis by (simp add: recent_not_before_def)
    qed (simp add: recent_not_before_def Some)
  qed
  have temporary: "\<exists>t. temporary_not_before strftime now p i = Inr t
      \<and> optional_ok canonical_timestamp t"
  proof (cases "ap_dnd p \<or> pi_focus_state i \<noteq> INTENT_FOCUS_STATE_AVAILABLE")
    case True
    then have "(now, max MIN_RECHECK_SECONDS (ap_min_gap_seconds p)) \<in> set (dates_asked now p i db)"
      by (simp add: dates_asked_def)
    then obtain t where "sqlite_add_seconds strftime now
        (max MIN_RECHECK_SECONDS (ap_min_gap_seconds p)) = Inr t" "canonical_timestamp t"
      by (rule date_answeredE [OF ans])
    then show ?thesis by (simp add: temporary_not_before_def)
  qed (simp add: temporary_not_before_def)
  obtain f g where "history_not_before (\<lambda>_. True) strftime now p (pi_life_id i) db = Inr (f, g)"
      "optional_ok canonical_timestamp f" "optional_ok canonical_timestamp g"
    using history_total [OF ans] by blast
  with recent temporary show ?thesis by (auto simp: intent_temporal_context_def)
qed

lemma latest_defer_candidate_ok:
  assumes "optional_ok P (tc_recent_interaction_not_before c)"
    "optional_ok P (tc_temporary_gate_not_before c)"
    "optional_ok P (tc_frequency_not_before c)" "optional_ok P (tc_min_gap_not_before c)"
  shows "optional_ok P (latest_defer_candidate c)"
proof -
  let ?xs = "List.map_filter id
       [tc_recent_interaction_not_before c, tc_temporary_gate_not_before c,
        tc_frequency_not_before c, tc_min_gap_not_before c]"
  have all: "\<forall>x \<in> set ?xs. P x"
    using assms by (auto simp: List.map_filter_simps optional_ok_def split: option.splits)
  show ?thesis
  proof (cases "latest_defer_candidate c")
    case (Some m)
    then have "m = Max (set ?xs)" "?xs \<noteq> []"
      by (auto simp only: latest_defer_candidate_def max_str_max)
    then have "m \<in> set ?xs" by (metis Max_in List.finite_set set_empty)
    with all Some show ?thesis by simp
  qed simp
qed

lemma latest_defer_candidate_None:
  "latest_defer_candidate c = None \<longleftrightarrow>
     tc_recent_interaction_not_before c = None \<and> tc_temporary_gate_not_before c = None
     \<and> tc_frequency_not_before c = None \<and> tc_min_gap_not_before c = None"
  unfolding latest_defer_candidate_def max_str_None
  by (auto simp: List.map_filter_simps split: option.splits)

fun decision_status :: "initiative_decision \<Rightarrow> string" where
  "decision_status DecisionReady = ''ready''"
| "decision_status DecisionDeferred = ''deferred''"
| "decision_status DecisionStoredSilently = ''stored_silently''"
| "decision_status DecisionCancelled = ''cancelled''"
| "decision_status DecisionExpired = ''expired''"

text \<open>The part of the decision that depends on the history of the life.\<close>

definition budget_exhausted ::
    "sqlite_strftime \<Rightarrow> string \<Rightarrow> string \<Rightarrow> 'a autonomy_db_scheme \<Rightarrow> bool" where
  "budget_exhausted strftime now life db \<longleftrightarrow>
     (\<exists>p. select_autonomy_policy life db = Some p
        \<and> history_not_before (\<lambda>_. True) strftime now p life db \<noteq> Inr (None, None))"

lemma decision_columns_total:
  assumes "canonical_timestamp now" and "optional_ok canonical_timestamp deferred"
    and "d = DecisionDeferred \<Longrightarrow> deferred \<noteq> None"
  shows "\<exists>nb cl. decision_columns d now deferred = Inr (decision_status d, nb, cl)
    \<and> intent_columns_ok (decision_status d) nb cl"
  using assms
  by (cases d; cases deferred) (auto simp: intent_columns_ok_def is_intent_status_def autonomy_strings)

lemma decide_total:
  assumes ok: "proactive_intent_ok c" and total: "dates_answered strftime now c db"
    and now: "canonical_timestamp now"
    and policies: "\<And>p. select_autonomy_policy (pi_life_id c) db = Some p \<Longrightarrow> autonomy_policy_ok p"
  shows "\<exists>st nb cl. intent_decide (\<lambda>_. True) strftime now c db = Inr (st, nb, cl)
    \<and> st = decision_status (initiative_outcome c (select_autonomy_policy (pi_life_id c) db)
             (goal_active (pi_life_id c) (pi_goal_id c) db) now
             (budget_exhausted strftime now (pi_life_id c) db))
    \<and> intent_columns_ok st nb cl"
proof -
  let ?policy = "select_autonomy_policy (pi_life_id c) db"
  let ?active = "goal_active (pi_life_id c) (pi_goal_id c) db"
  let ?limited = "budget_exhausted strftime now (pi_life_id c) db"
  have none: "latest_defer_candidate temporal_context_default = None"
    by (simp add: latest_defer_candidate_None temporal_context_default_def)
  have goal: "load_goal_is_active (\<lambda>_. True) (pi_life_id c) (pi_goal_id c) db = Inr ?active"
    by (simp add: load_goal_is_active_Inr)
  have columns: "\<exists>nb cl. decision_columns d now deferred = Inr (decision_status d, nb, cl)
      \<and> intent_columns_ok (decision_status d) nb cl"
    if "optional_ok canonical_timestamp deferred" "d = DecisionDeferred \<Longrightarrow> deferred \<noteq> None"
    for d deferred
    using decision_columns_total [OF now that] .
  have goal_thesis: ?thesis
    if "intent_decide (\<lambda>_. True) strftime now c db
        = decision_columns (initiative_outcome c ?policy ?active now ?limited) now deferred"
      "optional_ok canonical_timestamp deferred"
      "initiative_outcome c ?policy ?active now ?limited = DecisionDeferred \<Longrightarrow> deferred \<noteq> None"
    for deferred
    using that(1) columns [OF that(2,3)] by auto
  show ?thesis
  proof (cases "\<not> intent_expired c now \<and> (\<exists>p. ?policy = Some p \<and> ap_enabled p) \<and> ?active")
    case True
    then obtain p where p: "?policy = Some p" "ap_enabled p" by blast
    have live: "\<not> (case pi_expires_at c of None \<Rightarrow> False | Some t \<Rightarrow> t \<le> now)"
      using True by (auto simp: intent_expired_def split: option.splits)
    obtain k where k: "intent_temporal_context (\<lambda>_. True) strftime now p c db = Inr k"
      and canon: "optional_ok canonical_timestamp (latest_defer_candidate k)"
      using temporal_total [of strftime now p c db] total p(1) latest_defer_candidate_ok
      by (fastforce simp: dates_answered_def)
    note parts = intent_temporal_context_Inr [OF k]
    have limited: "rate_limited k \<longleftrightarrow> ?limited"
      using parts(1) p(1) by (auto simp: rate_limited_def budget_exhausted_def)
    have ev: "evaluate_initiative_policy c (Some p) True now k
        = Inr (initiative_outcome c (Some p) True now ?limited)"
      using evaluate_initiative_policy_eq [OF ok temporal_context_complete [OF k policies [OF p(1)]],
          of True now] limited by simp
    have decide: "intent_decide (\<lambda>_. True) strftime now c db
        = decision_columns (initiative_outcome c ?policy ?active now ?limited) now
            (latest_defer_candidate k)"
      using live p True k goal ev policies [OF p(1)]
      by (simp add: intent_decide_def validator_simps)
    have "latest_defer_candidate k \<noteq> None"
      if "initiative_outcome c ?policy ?active now ?limited = DecisionDeferred"
      using that p parts(2,3) limited
      by (auto simp: initiative_outcome_def latest_defer_candidate_None rate_limited_def
          split: if_splits)
    with goal_thesis [OF decide canon] show ?thesis .
  next
    case False
    then have "initiative_outcome c ?policy ?active now ?limited \<noteq> DecisionDeferred"
      by (auto simp: initiative_outcome_def split: option.splits)
    moreover have "intent_decide (\<lambda>_. True) strftime now c db
        = decision_columns (initiative_outcome c ?policy ?active now ?limited) now None"
    proof (cases "intent_expired c now")
      case True
      then have "(case pi_expires_at c of None \<Rightarrow> False | Some t \<Rightarrow> t \<le> now)"
        by (auto simp: intent_expired_def)
      with True none show ?thesis
        by (simp add: intent_decide_def evaluate_initiative_policy_def initiative_outcome_def)
    next
      case live: False
      then have ex: "\<not> (case pi_expires_at c of None \<Rightarrow> False | Some t \<Rightarrow> t \<le> now)"
        by (auto simp: intent_expired_def split: option.splits)
      show ?thesis
      proof (cases ?policy)
        case None
        with ex live none show ?thesis
          by (simp add: intent_decide_def evaluate_initiative_policy_def initiative_outcome_def)
      next
        case (Some p)
        with False live have "\<not> ap_enabled p \<or> \<not> ?active" by blast
        then show ?thesis
          using Some ex live none goal policies [OF Some]
          by (cases "ap_enabled p")
            (simp_all add: intent_decide_def evaluate_initiative_policy_def validator_simps
              initiative_outcome_def autonomy_policy_ok_def INITIATIVE_POLICY_VERSION_def)
      qed
    qed
    ultimately show ?thesis using goal_thesis [of None] by simp
  qed
qed

text \<open>The rows of the intent table satisfy its \<open>CHECK\<close> constraints.\<close>

definition intent_rows_checked :: "'a autonomy_db_scheme \<Rightarrow> bool" where
  "intent_rows_checked db \<longleftrightarrow> (\<forall>i \<in> set (intent_rows db). intent_row_check i)"

lemma intent_update_checked:
  "intent_update now n cols r db = Some (changed, db1) \<Longrightarrow> intent_rows_checked db \<Longrightarrow>
   intent_rows_checked db1"
  by (auto simp: intent_update_def sql_update_def Let_def intent_rows_checked_def split: if_splits)

lemma intent_rows_checked_cong:
  "intent_rows db' = intent_rows db \<Longrightarrow> intent_rows_checked db \<Longrightarrow> intent_rows_checked db'"
  by (simp add: intent_rows_checked_def)

lemma intent_apply_checked:
  assumes "intent_apply io now n cols r db = Inr (out, db')" and "intent_rows_checked db"
  shows "intent_rows_checked db'"
proof -
  from assms(1) obtain changed db1 e where
    up: "intent_update now n cols r db = Some (changed, db1)"
    and ins: "intent_event_insert e db1 = Inr db'"
    by (auto simp: intent_apply_def try_bind_Inr_iff try_seq_Inr_iff Let_def
        split: if_splits option.splits sum.splits)
  from intent_update_checked [OF up assms(2)] ins show ?thesis
    by (auto simp: intent_event_insert_Inr intro: intent_rows_checked_cong)
qed

lemma intent_rows_checked_step:
  assumes chk: "intent_rows_checked db"
  shows "intent_rows_checked (autonomy_op_step strftime op db)"
proof (cases op)
  case (OpCreatePolicy io now r)
  show ?thesis
    unfolding OpCreatePolicy autonomy_op_step.simps autonomy_create_policy_def
    by (rule with_transaction_inv [where P = intent_rows_checked, OF chk])
      (auto dest!: autonomy_create_Inr simp: autonomy_policy_insert_Inr
        intro: intent_rows_checked_cong chk)
next
  case (OpUpdatePolicy io now r)
  show ?thesis
    unfolding OpUpdatePolicy autonomy_op_step.simps autonomy_update_policy_def
    by (rule with_transaction_inv [where P = intent_rows_checked, OF chk])
      (erule autonomy_update_cases; use chk in \<open>simp add: intent_rows_checked_def
        autonomy_updated_db_rows\<close>)
next
  case (OpCreateIntent io now r)
  show ?thesis
    unfolding OpCreateIntent autonomy_op_step.simps create_pending_goal_check_in_intent_def
    by (rule with_transaction_inv [where P = intent_rows_checked, OF chk])
      (use chk in \<open>auto dest!: create_pending_intent_Inr simp: intent_insert_Inr
        intent_rows_checked_def\<close>)
next
  case (OpEvaluate io now r)
  have "intent_rows_checked db'"
    if ev: "evaluate_pending_intent_in_transaction io strftime now r db = Inr (out, db')" for out db'
  proof -
    from ev consider "db' = db" | n cols where "intent_apply io now n cols r db = Inr (out, db')"
      by (auto simp: evaluate_pending_intent_in_transaction_def try_bind_Inr_iff try_seq_Inr_iff
          split: option.splits if_splits)
    then show ?thesis using intent_apply_checked chk by cases auto
  qed
  then show ?thesis
    unfolding OpEvaluate autonomy_op_step.simps evaluate_pending_intent_def
    by (rule with_transaction_inv [where P = intent_rows_checked, OF chk])
next
  case (OpLifeIntent lop)
  with chk show ?thesis
    by (auto simp: intent_rows_checked_def life_intent_step_cascading_def cascade_intents_def Let_def)
qed

lemma intent_rows_checked_run:
  "intent_rows_checked (autonomy_run strftime ops (autonomy_db_new lives))"
proof (induction ops rule: rev_induct)
  case Nil
  show ?case by (simp add: autonomy_run_def autonomy_db_new_def intent_rows_checked_def)
next
  case (snoc op ops)
  then show ?case by (simp add: autonomy_run_def intent_rows_checked_step)
qed


end
