(* ===== verification/Autonomy_Liveness.thy ===== *)
theory Autonomy_Liveness imports Autonomy_Budget begin

text \<open>
  No pending intent gets stuck: the evaluation of \<^verbatim>\<open>storage/autonomy.rs\<close> commits on every
  reachable database on which SQLite executes the statements.
\<close>

text \<open>A canonical timestamp starts and ends with ASCII bytes that no trim removes.\<close>

lemma ws_heads:
  "list_all (\<lambda>e. hd e \<notin> set ''0123456789'') ws_encodings"
  "list_all (\<lambda>e. hd e \<noteq> CHR ''Z'') (map rev ws_encodings)"
  by code_simp+

lemma canonical_ends:
  assumes "canonical_timestamp t"
  obtains c s v where "t = c # s" "is_ascii_digit c" "t = v @ [CHR ''Z'']"
proof -
  have len: "length t = 24" and z: "t ! 23 = CHR ''Z''" and
    all: "list_all (\<lambda>(i, c). i \<in> {4, 7, 10, 13, 16, 19, 23} \<or> is_ascii_digit c) (enumerate 0 t)"
    using assms by (simp_all add: canonical_timestamp_def)
  obtain c s where t: "t = c # s" using len by (cases t) auto
  have digit: "is_ascii_digit c" using all by (simp add: t)
  have "last t = CHR ''Z''" using last_conv_nth [of t] z len by (simp add: t)
  then have "t = butlast t @ [CHR ''Z'']" using append_butlast_last_id [of t] by (simp add: t)
  with t digit show thesis by (rule that)
qed

lemma ascii_digit_mem: "is_ascii_digit c \<longleftrightarrow> c \<in> set ''0123456789''"
proof
  assume "is_ascii_digit c"
  then have "(of_char c :: nat) \<in> set [48..<58]" unfolding is_ascii_digit_def
    by (simp only: set_upt atLeastLessThan_iff) simp
  then have "char_of (of_char c :: nat) \<in> (char_of :: nat \<Rightarrow> char) ` set [48..<58]" by (rule imageI)
  moreover have "(char_of :: nat \<Rightarrow> char) ` set [48..<58] = set ''0123456789''" by code_simp
  ultimately show "c \<in> set ''0123456789''" by (simp only: char_of_char)
next
  assume "c \<in> set ''0123456789''"
  then show "is_ascii_digit c" by (fastforce simp: is_ascii_digit_def)
qed

lemma canonical_nonblank:
  assumes "canonical_timestamp t"
  shows "sql_nonblank t" and "\<not> str_blank t"
proof -
  obtain c s v where t: "t = c # s" "is_ascii_digit c" "t = v @ [CHR ''Z'']"
    using canonical_ends [OF assms] .
  then have c: "(48::nat) \<le> of_char c" "of_char c \<le> (57::nat)" by (simp_all add: is_ascii_digit_def)
  then have bytes: "c \<noteq> CHR 0x20" "c \<noteq> CHR 0x00" by auto
  have "sql_trim t = rev (dropWhile (\<lambda>c. c = CHR 0x20) (rev t))"
    using bytes by (simp add: sql_trim_def t(1))
  also have "\<dots> = t" by (simp add: t(3))
  finally show "sql_nonblank t"
    using bytes c by (simp add: sql_nonblank_def sql_length_def t(1) chars_count_def)
  have "c \<notin> hd ` set ws_encodings"
    using ws_heads(1) t(2) unfolding ascii_digit_mem list_all_iff by blast
  then have left: "trim_left ws_encodings t = t" by (simp add: t(1) trim_left_keeps)
  have "CHR ''Z'' \<notin> hd ` set (map rev ws_encodings)"
    using ws_heads(2) unfolding list_all_iff image_iff by metis
  then have "trim_left (map rev ws_encodings) (rev t) = rev t"
    by (simp add: t(3) trim_left_keeps del: set_map)
  with left show "\<not> str_blank t" by (simp add: str_blank_def str_trim_def t(1))
qed

lemma sql_intent_status_eq: "sql_intent_status st \<longleftrightarrow> is_intent_status st"
  by (simp add: sql_intent_status_def is_intent_status_def autonomy_strings)

lemma intent_after_ok:
  assumes "proactive_intent_ok c" and "intent_columns_ok st nb cl" and "canonical_timestamp now"
    and "expected_revision_ok n"
  shows "proactive_intent_ok (intent_after now (n + 1) (st, nb, cl) c)"
  using assms canonical_nonblank(2) [OF assms(3)]
  by (simp add: proactive_intent_ok_def intent_after_def expected_revision_ok_def)

lemma intent_after_fields:
  "pi_intent_id (intent_after now n (st, nb, cl) c) = pi_intent_id c"
  "pi_life_id (intent_after now n (st, nb, cl) c) = pi_life_id c"
  "pi_goal_id (intent_after now n (st, nb, cl) c) = pi_goal_id c"
  "pi_intent_kind (intent_after now n (st, nb, cl) c) = pi_intent_kind c"
  "pi_importance (intent_after now n (st, nb, cl) c) = pi_importance c"
  "pi_user_relevance (intent_after now n (st, nb, cl) c) = pi_user_relevance c"
  "pi_self_desire (intent_after now n (st, nb, cl) c) = pi_self_desire c"
  "pi_interruption_cost (intent_after now n (st, nb, cl) c) = pi_interruption_cost c"
  "pi_focus_state (intent_after now n (st, nb, cl) c) = pi_focus_state c"
  "pi_acceptance_score (intent_after now n (st, nb, cl) c) = pi_acceptance_score c"
  "pi_recent_interaction_seconds (intent_after now n (st, nb, cl) c)
     = pi_recent_interaction_seconds c"
  "pi_status (intent_after now n (st, nb, cl) c) = st"
  "pi_revision (intent_after now n (st, nb, cl) c) = n"
  "pi_created_by_kind (intent_after now n (st, nb, cl) c) = pi_created_by_kind c"
  "pi_created_at (intent_after now n (st, nb, cl) c) = pi_created_at c"
  "pi_updated_at (intent_after now n (st, nb, cl) c) = now"
  "pi_not_before (intent_after now n (st, nb, cl) c) = nb"
  "pi_expires_at (intent_after now n (st, nb, cl) c) = pi_expires_at c"
  "pi_closed_at (intent_after now n (st, nb, cl) c) = cl"
  "pi_intent_version (intent_after now n (st, nb, cl) c) = pi_intent_version c"
  by (simp_all add: intent_after_def)

lemma status_columns:
  assumes "st \<in> {a, b, c, d, e, f, g}" "st = c \<longleftrightarrow> nb \<noteq> None" "st \<in> {a, b, c} \<longleftrightarrow> cl = None"
  shows "(st \<in> {a, b} \<and> nb = None) \<or> (st = c \<and> nb \<noteq> None)
      \<or> (st \<in> {d, e, f, g} \<and> nb = None)"
    and "(st \<in> {a, b, c} \<and> cl = None) \<or> (st \<in> {d, e, f, g} \<and> cl \<noteq> None)"
  using assms by auto

lemma intent_after_row_check:
  assumes "intent_row_check c" and "intent_columns_ok st nb cl" and "canonical_timestamp now"
    and "expected_revision_ok n"
  shows "intent_row_check (intent_after now (n + 1) (st, nb, cl) c)"
proof -
  have ok: "optional_ok sql_nonblank nb" "optional_ok sql_nonblank cl"
    using assms(2) canonical_nonblank(1)
    by (auto simp: intent_columns_ok_def optional_ok_def split: option.splits)
  have st: "sql_intent_status st" "st = ''deferred'' \<longleftrightarrow> nb \<noteq> None"
      "st \<in> {''pending'', ''ready'', ''deferred''} \<longleftrightarrow> cl = None"
    using assms(2) by (simp_all only: intent_columns_ok_def sql_intent_status_eq)
  note cases = status_columns [OF st(1) [unfolded sql_intent_status_def] st(2,3)]
  have "1 \<le> n + 1" using assms(4) by (simp add: expected_revision_ok_def)
  with cases show ?thesis
    using assms(1) ok st(1) canonical_nonblank(1) [OF assms(3)]
    unfolding intent_row_check_def intent_after_fields
    by (elim conjE, intro conjI) assumption+
qed

lemma intent_apply_total:
  assumes inv: "intent_inv db" and chk: "intent_rows_checked db"
    and sel: "select_intent_by_id (iq_intent_id r) db = Some c" "pi_life_id c = iq_life_id r"
      "pi_revision c = iq_expected_revision r" "pi_status c = ''pending''"
    and req: "intent_evaluation_ok r" "sql_id (iq_event_id r)"
      "iq_event_id r \<notin> ie_event_id ` set (intent_event_rows db)"
    and cols: "intent_columns_ok st nb cl" "st \<noteq> ''pending''" and now: "canonical_timestamp now"
  shows "\<exists>e i db'. intent_apply (\<lambda>_. True) now (iq_expected_revision r + 1) (st, nb, cl) r db
      = Inr (IntentApplied e i, db') \<and> pi_status i = st \<and> ie_to_status e = st"
proof -
  let ?n = "iq_expected_revision r + 1"
  let ?cols = "(st, nb, cl)"
  let ?e = "intent_event_of now ?n ?cols r"
  let ?db' = "intent_evaluated_db now ?cols r db"
  have rev: "expected_revision_ok (iq_expected_revision r)"
    using req(1) by (simp add: intent_evaluation_ok_def)
  have c: "c \<in> set (intent_rows db)" "pi_intent_id c = iq_intent_id r"
    using sel(1) by (simp_all add: select_intent_by_id_iff [OF intent_inv_distinct [OF inv]])
  have c_ok: "proactive_intent_ok c" using select_intent_projects [OF inv sel(1)] by blast
  have c_row: "intent_row_check c" using chk c(1) by (simp add: intent_rows_checked_def)
  let ?p = "\<lambda>i. pi_intent_id i = iq_intent_id r \<and> pi_life_id i = iq_life_id r
                  \<and> pi_revision i = iq_expected_revision r \<and> pi_status i = ''pending''"
  have only: "i = c" if "i \<in> set (intent_rows db)" "pi_intent_id i = iq_intent_id r" for i
    using that sel(1) select_intent_by_id_iff [OF intent_inv_distinct [OF inv]] by (metis option.inject)
  have "length (filter ?p (intent_rows db)) = 1"
    using count_key_guard [of pi_intent_id "intent_rows db" "iq_intent_id r" c
        "\<lambda>i. pi_life_id i = iq_life_id r \<and> pi_revision i = iq_expected_revision r
             \<and> pi_status i = ''pending''"] inv sel
    by (simp add: intent_inv_def select_intent_by_id_def)
  moreover have "\<forall>i \<in> set (intent_rows db). ?p i \<longrightarrow> intent_row_check (intent_after now ?n ?cols i)"
    using only intent_after_row_check [OF c_row cols(1) now rev] by blast
  ultimately have up: "intent_update now ?n ?cols r db = Some (1, db\<lparr>intent_rows :=
      map (\<lambda>i. if ?p i then intent_after now ?n ?cols i else i) (intent_rows db)\<rparr>)"
    by (auto simp: intent_update_def sql_update_def Let_def)
  have nb: "optional_ok canonical_timestamp nb" "optional_ok sql_nonblank nb"
    using cols(1) canonical_nonblank(1)
    by (auto simp: intent_columns_ok_def optional_ok_def split: option.splits)
  have st: "is_intent_status st" "sql_intent_status st"
    using cols(1) by (simp_all add: intent_columns_ok_def sql_intent_status_eq)
  have pending: "is_intent_status ''pending''" "sql_intent_status ''pending''"
    by (simp_all add: is_intent_status_def sql_intent_status_def autonomy_strings)
  have e_ok: "intent_event_ok ?e"
    using req rev nb st pending cols(2) canonical_nonblank(2) [OF now]
    by (simp add: intent_event_ok_def intent_evaluation_ok_def)
      (simp add: intent_event_of_def autonomy_strings INTENT_EVENT_VERSION_def)
  have "sql_id (iq_intent_id r)" "sql_nonblank (iq_life_id r)"
    using c_row c(2) sel(2) by (simp_all add: intent_row_check_def)
  then have e_row: "intent_event_row_check ?e"
    using req rev nb st pending cols(2) canonical_nonblank(1) [OF now]
    by (simp add: intent_event_row_check_def)
      (simp add: intent_event_of_def autonomy_strings INTENT_EVENT_VERSION_def expected_revision_ok_def)
  have key: "(iq_intent_id r, iq_life_id r) \<in> (\<lambda>i. (pi_intent_id i, pi_life_id i))
      ` (\<lambda>i. if ?p i then intent_after now ?n ?cols i else i) ` set (intent_rows db)"
  proof (rule rev_image_eqI)
    show "intent_after now ?n ?cols c
        \<in> (\<lambda>i. if ?p i then intent_after now ?n ?cols i else i) ` set (intent_rows db)"
      using c sel(2-4) by (intro rev_image_eqI [where x = c]) simp_all
  qed (simp add: intent_after_fields c(2) sel(2))
  have ins: "intent_event_insert ?e (db\<lparr>intent_rows :=
      map (\<lambda>i. if ?p i then intent_after now ?n ?cols i else i) (intent_rows db)\<rparr>) = Inr ?db'"
    unfolding intent_event_insert_Inr using e_row req(3) key
    by (simp add: intent_evaluated_db_def Let_def)
  have back1: "select_intent_event (iq_event_id r) ?db' = Some ?e"
    using req(3) by (auto simp: intent_evaluated_db_rows select_intent_event_def find_append
        image_iff split: option.splits dest!: find_Some_mem)
  have "select_intent_by_id (iq_intent_id r) ?db' = Some (intent_after now ?n ?cols c)"
    by (simp add: select_intent_evaluated [OF sel])
  moreover have "distinct (map pi_intent_id (intent_rows ?db'))"
    unfolding intent_evaluated_db_rows using inv by (rule intent_inv_distinct)
  ultimately have back2: "select_intent (iq_life_id r) (iq_intent_id r) ?db'
      = Some (intent_after now ?n ?cols c)"
    using select_intent_of_id [of ?db'] sel(2) by fastforce
  have "intent_apply (\<lambda>_. True) now ?n ?cols r db
      = Inr (IntentApplied ?e (intent_after now ?n ?cols c), ?db')"
    using e_ok back1 back2 intent_after_ok [OF c_ok cols(1) now rev]
    by (simp add: intent_apply_def up ins validator_simps Let_def)
  moreover have "pi_status (intent_after now ?n ?cols c) = st" "ie_to_status ?e = st"
    by (simp_all add: intent_after_fields intent_event_of_def)
  ultimately show ?thesis by blast
qed

lemma evaluation_total:
  assumes inv: "autonomy_policy_inv db" "intent_inv db" and chk: "intent_rows_checked db"
    and sqlite: "dates_answered strftime now c db" "canonical_timestamp now"
    and sel: "select_intent_by_id (iq_intent_id r) db = Some c" "pi_life_id c = iq_life_id r"
      "pi_revision c = iq_expected_revision r" "pi_status c = ''pending''"
    and req: "intent_evaluation_ok r" "sql_id (iq_event_id r)"
      "iq_event_id r \<notin> ie_event_id ` set (intent_event_rows db)"
  shows "\<exists>e i db'. evaluate_pending_intent (\<lambda>_. True) strftime now r db
        = (Inr (IntentApplied e i), db')
    \<and> ie_to_status e = pi_status i
    \<and> pi_status i = decision_status (initiative_outcome c
          (select_autonomy_policy (iq_life_id r) db)
          (goal_active (iq_life_id r) (pi_goal_id c) db) now
          (budget_exhausted strftime now (iq_life_id r) db))"
proof -
  have c_ok: "proactive_intent_ok c" using select_intent_projects [OF inv(2) sel(1)] by blast
  have "autonomy_policy_ok p" if "select_autonomy_policy (pi_life_id c) db = Some p" for p
    using select_autonomy_projects [OF inv(1) that] by blast
  from decide_total [OF c_ok sqlite this, unfolded sel(2)] obtain st nb cl where
    d: "intent_decide (\<lambda>_. True) strftime now c db = Inr (st, nb, cl)"
    and st: "st = decision_status (initiative_outcome c (select_autonomy_policy (iq_life_id r) db)
          (goal_active (iq_life_id r) (pi_goal_id c) db) now
          (budget_exhausted strftime now (iq_life_id r) db))"
    and cols: "intent_columns_ok st nb cl" by blast
  have "decision_status d \<noteq> ''pending''" for d by (cases d) simp_all
  then have "st \<noteq> ''pending''" using st by simp
  from intent_apply_total [OF inv(2) chk sel req cols this sqlite(2)] obtain e i db' where
    ap: "intent_apply (\<lambda>_. True) now (iq_expected_revision r + 1) (st, nb, cl) r db
      = Inr (IntentApplied e i, db')" "pi_status i = st" "ie_to_status e = st" by blast
  have "select_intent_event (iq_event_id r) db = None"
    using req(3) by (auto simp: select_intent_event_def find_None_all image_iff)
  then have "evaluate_pending_intent (\<lambda>_. True) strftime now r db = (Inr (IntentApplied e i), db')"
    using req(1) sel c_ok d ap(1)
    by (simp add: evaluate_pending_intent_def with_transaction_def
        evaluate_pending_intent_in_transaction_def validator_simps INTENT_STATUS_PENDING_def
        autonomy_next_revision_ok intent_evaluation_ok_def)
  with ap st show ?thesis by blast
qed

text \<open>
  C7: no pending intent gets stuck. In every reachable database, an evaluation of a pending intent at
  its revision with a new event identity commits when SQLite executes its statements and answers the
  dates this evaluation asks for (it answers none for a time it cannot read or beyond its range of
  years): no branch of the decision fails, no arithmetic overflows and no constraint refuses the
  rows. The status it gets
  is the one the specification of the initiative policy names for the policy, goal and history of
  the life.
\<close>

theorem pending_intent_is_decided:
  assumes db: "db = autonomy_run strftime ops (autonomy_db_new lives)"
    and sqlite: "dates_answered strftime now c db" "canonical_timestamp now"
    and sel: "select_intent_by_id (iq_intent_id r) db = Some c" "pi_life_id c = iq_life_id r"
      "pi_revision c = iq_expected_revision r" "pi_status c = ''pending''"
    and req: "intent_evaluation_ok r" "sql_id (iq_event_id r)"
      "iq_event_id r \<notin> ie_event_id ` set (intent_event_rows db)"
  shows "\<exists>e i db'. evaluate_pending_intent (\<lambda>_. True) strftime now r db
        = (Inr (IntentApplied e i), db')
    \<and> ie_to_status e = pi_status i
    \<and> pi_status i = decision_status (initiative_outcome c
          (select_autonomy_policy (iq_life_id r) db)
          (goal_active (iq_life_id r) (pi_goal_id c) db) now
          (budget_exhausted strftime now (iq_life_id r) db))"
proof -
  have "autonomy_policy_inv db" "intent_inv db"
    using autonomy_run_inv [OF autonomy_db_new_inv, of strftime ops lives]
    by (simp_all add: db autonomy_inv_def)
  moreover have "intent_rows_checked db" unfolding db by (rule intent_rows_checked_run)
  ultimately show ?thesis using sqlite sel req by (rule evaluation_total)
qed

lemma pending_intent_is_decided_witness:
  "\<exists>e i db'. evaluate_pending_intent (\<lambda>_. True) sample_strftime sample_t1
      sample_evaluation (autonomy_run sample_strftime sample_ops
        (autonomy_db_new [''life-a''])) = (Inr (IntentApplied e i), db')"
proof -
  let ?f = sample_strftime
  have "canonical_timestamp sample_t0"
    by (simp add: canonical_timestamp_def is_ascii_digit_def sample_t0_def)
  then have "dates_answered ?f sample_t1 sample_intent sample_autonomy_db"
    by (simp add: dates_answered_def dates_asked_def date_answered_def select_autonomy_policy_def
        sample_autonomy_db_def sample_intent_def sample_policy_def ready_times_def
        sample_strftime_def autonomy_strings RECENT_INTERACTION_QUIET_SECONDS_def)
  moreover have "canonical_timestamp sample_t1" by (simp add: sample_t1_def sample_sql_strings)
  moreover have "select_intent_by_id (iq_intent_id sample_evaluation) sample_autonomy_db
      = Some sample_intent" "pi_life_id sample_intent = iq_life_id sample_evaluation"
      "pi_revision sample_intent = iq_expected_revision sample_evaluation"
      "pi_status sample_intent = ''pending''"
    by (simp_all add: select_intent_by_id_def sample_autonomy_db_def sample_intent_def
        sample_evaluation_def)
  moreover have "intent_evaluation_ok sample_evaluation" "sql_id (iq_event_id sample_evaluation)"
      "iq_event_id sample_evaluation \<notin> ie_event_id ` set (intent_event_rows sample_autonomy_db)"
    by (simp_all add: intent_evaluation_ok_def sample_evaluation_def sample_strings
        sample_sql_strings sample_autonomy_db_def expected_revision_ok_def i64_max_def)
  ultimately show ?thesis
    using pending_intent_is_decided [OF sample_run [of ?f, symmetric], of sample_t1
        sample_intent sample_evaluation]
    by (simp add: sample_run) blast
qed

end
