(* ===== verification/Autonomy_Tick.thy ===== *)
theory Autonomy_Tick
  imports Autonomy_Liveness Experience_Store
begin

text \<open>
  The autonomy tick, \<open>src-tauri/src/autonomy/runtime.rs\<close>, and the trusted tick around it,
  \<open>src-tauri/src/autonomy/trusted_runtime.rs\<close>. The tick is a sequence of calls of the repositories,
  each a transaction of its own, so other callers of the database can come in between. The
  environment of a tick says for each of its calls what ran before it (\<open>te_before\<close>), which statements
  SQLite executes, and what its clock, its date arithmetic and the hash return.
\<close>

section \<open>Requests, outcomes and errors\<close>

definition AUTONOMY_TICK_VERSION :: int where "AUTONOMY_TICK_VERSION = 1"
definition MAX_GOALS_INSPECTED_PER_TICK :: int where "MAX_GOALS_INSPECTED_PER_TICK = 8"
definition GOAL_CHECK_IN_IMPORTANCE_V1 :: int where "GOAL_CHECK_IN_IMPORTANCE_V1 = 500"
definition GOAL_CHECK_IN_USER_RELEVANCE_V1 :: int where "GOAL_CHECK_IN_USER_RELEVANCE_V1 = 1000"
definition GOAL_CHECK_IN_SELF_DESIRE_V1 :: int where "GOAL_CHECK_IN_SELF_DESIRE_V1 = 0"
definition GOAL_CHECK_IN_INTERRUPTION_COST_V1 :: int where
  "GOAL_CHECK_IN_INTERRUPTION_COST_V1 = 500"

definition INTENT_ID_PREFIX :: string where "INTENT_ID_PREFIX = ''d15c-intent-''"
definition EVALUATION_EVENT_ID_PREFIX :: string where "EVALUATION_EVENT_ID_PREFIX = ''d15c-eval-''"

record autonomy_tick_request =
  tk_tick_id :: string
  tk_life_id :: string
  tk_focus_state :: string

datatype autonomy_tick_wait_reason = ReadyPendingDelivery | DeferredNotDue | TerminalCooldown

datatype autonomy_tick_outcome =
    TickDisabled
  | TickNoReadyBudget
  | TickNoActiveGoal
  | TickWaiting string autonomy_tick_wait_reason "string option"
  | TickApplied string proactive_intent intent_evaluation_outcome
  | TickReplayed string proactive_intent intent_evaluation_outcome

datatype autonomy_tick_error =
    TickInvalidArgument
  | TickConflict
  | TickAutonomy autonomy_error
  | TickExperience experience_error
  | TickLifeIntent life_intent_error

record goal_candidate =
  ga_goal :: life_goal
  ga_latest :: "proactive_intent option"

datatype tick_selection =
    Selected nat
  | SelectionWaiting string autonomy_tick_wait_reason "string option"

section \<open>The environment of a tick\<close>

datatype tick_call =
    CallFindTickIntent | CallFindPolicy | CallActiveGoals | CallLatestIntent string | CallNow
  | CallAddSeconds | CallLatestEpisode | CallElapsed | CallCreate | CallFindConflict
  | CallEvaluate | CallFindEvent

record tick_env =
  te_before :: "tick_call \<Rightarrow> autonomy_op list"
  te_io :: "tick_call \<Rightarrow> autonomy_io"
  te_life_io :: life_intent_io
  te_now :: "tick_call \<Rightarrow> string"
  te_strftime :: sqlite_strftime
  te_elapsed :: "string \<Rightarrow> string \<Rightarrow> int option"
  te_sha256 :: "string \<Rightarrow> string"
  te_latest_episode :: "experience_error + experience_episode option"

text \<open>
  A step of the tick runs on the database and returns a result; \<open>?\<close> goes on with the result or leaves
  with the error.
\<close>

type_synonym ('a, 'd) tick_step = "'d \<Rightarrow> (autonomy_tick_error + 'a) \<times> 'd"

definition tick_bind :: "('a, 'd) tick_step \<Rightarrow> ('a \<Rightarrow> ('b, 'd) tick_step) \<Rightarrow> ('b, 'd) tick_step" where
  "tick_bind m f db =
     (case m db of (Inl e, db') \<Rightarrow> (Inl e, db') | (Inr x, db') \<Rightarrow> f x db')"

definition tick_return :: "autonomy_tick_error + 'a \<Rightarrow> ('a, 'd) tick_step" where
  "tick_return r db = (r, db)"

definition tick_others ::
    "tick_env \<Rightarrow> tick_call \<Rightarrow> 'a autonomy_db_scheme \<Rightarrow> 'a autonomy_db_scheme" where
  "tick_others env c db = autonomy_run (te_strftime env) (te_before env c) db"

definition tick_read ::
    "tick_env \<Rightarrow> tick_call \<Rightarrow> ('a autonomy_db_scheme \<Rightarrow> autonomy_tick_error + 'r)
     \<Rightarrow> ('r, 'a autonomy_db_scheme) tick_step" where
  "tick_read env c q db = (let db1 = tick_others env c db in (q db1, db1))"

definition tick_write ::
    "tick_env \<Rightarrow> tick_call
     \<Rightarrow> ('a autonomy_db_scheme \<Rightarrow> (autonomy_error + 'r) \<times> 'a autonomy_db_scheme)
     \<Rightarrow> (autonomy_error + 'r, 'a autonomy_db_scheme) tick_step" where
  "tick_write env c w db = (let (r, db1) = w (tick_others env c db) in (Inr r, db1))"

section \<open>Identities\<close>

definition deterministic_intent_id :: "(string \<Rightarrow> string) \<Rightarrow> string \<Rightarrow> string \<Rightarrow> string" where
  "deterministic_intent_id sha256 life tick =
     INTENT_ID_PREFIX
     @ sha256 (''d15-c-goal-check-in-intent-v1'' @ CHR 0x00 # life @ CHR 0x00 # tick)"

definition deterministic_evaluation_event_id :: "(string \<Rightarrow> string) \<Rightarrow> string \<Rightarrow> string" where
  "deterministic_evaluation_event_id sha256 intent =
     EVALUATION_EVENT_ID_PREFIX @ sha256 (''d15-c-goal-check-in-eval-v1'' @ CHR 0x00 # intent)"

definition validate_tick_identity :: "string \<Rightarrow> string \<Rightarrow> autonomy_tick_error + unit" where
  "validate_tick_identity tick life =
     try_seq (require (1 \<le> chars_count tick \<and> chars_count tick \<le> 128) TickInvalidArgument)
       (require (\<not> str_blank life) TickInvalidArgument)"

definition validate_tick_request :: "autonomy_tick_request \<Rightarrow> autonomy_tick_error + unit" where
  "validate_tick_request r =
     try_seq (validate_tick_identity (tk_tick_id r) (tk_life_id r))
       (require (tk_focus_state r \<in> {INTENT_FOCUS_STATE_UNKNOWN, INTENT_FOCUS_STATE_AVAILABLE,
          INTENT_FOCUS_STATE_FOCUSED, INTENT_FOCUS_STATE_DND}) TickInvalidArgument)"

section \<open>Replay and recovery\<close>

definition evaluation_outcome ::
    "string \<Rightarrow> intent_evaluation_outcome \<Rightarrow> autonomy_tick_outcome" where
  "evaluation_outcome goal evaluation =
     (case evaluation of
        IntentApplied e intent \<Rightarrow> TickApplied goal intent evaluation
      | IntentReplayed e current \<Rightarrow> TickReplayed goal current evaluation)"

definition tick_evaluation_request ::
    "(string \<Rightarrow> string) \<Rightarrow> proactive_intent \<Rightarrow> intent_evaluation_request" where
  "tick_evaluation_request sha256 i =
     \<lparr>iq_event_id = deterministic_evaluation_event_id sha256 (pi_intent_id i),
      iq_life_id = pi_life_id i, iq_intent_id = pi_intent_id i,
      iq_expected_revision = pi_revision i\<rparr>"

definition evaluate_for_tick ::
    "tick_env \<Rightarrow> proactive_intent \<Rightarrow> (intent_evaluation_outcome, 'a autonomy_db_scheme) tick_step" where
  "evaluate_for_tick env i =
     tick_bind
       (tick_write env CallEvaluate
         (evaluate_pending_intent (te_io env CallEvaluate) (te_strftime env)
            (te_now env CallEvaluate) (tick_evaluation_request (te_sha256 env) i)))
       (\<lambda>r. tick_return (map_err TickAutonomy r))"

definition recover_pending_intent ::
    "tick_env \<Rightarrow> proactive_intent \<Rightarrow> (autonomy_tick_outcome, 'a autonomy_db_scheme) tick_step" where
  "recover_pending_intent env i =
     tick_bind (evaluate_for_tick env i)
       (\<lambda>evaluation. tick_return (Inr (evaluation_outcome (pi_goal_id i) evaluation)))"

definition validate_tick_intent_evidence ::
    "autonomy_tick_request \<Rightarrow> string \<Rightarrow> proactive_intent \<Rightarrow> autonomy_tick_error + unit" where
  "validate_tick_intent_evidence r expected_intent_id i =
     try_seq (require (pi_intent_id i = expected_intent_id \<and> pi_life_id i = tk_life_id r) TickConflict)
     (try_seq (require (pi_focus_state i = tk_focus_state r) TickConflict)
     (require (pi_intent_kind i = INTENT_KIND_GOAL_CHECK_IN
        \<and> pi_importance i = GOAL_CHECK_IN_IMPORTANCE_V1
        \<and> pi_user_relevance i = GOAL_CHECK_IN_USER_RELEVANCE_V1
        \<and> pi_self_desire i = GOAL_CHECK_IN_SELF_DESIRE_V1
        \<and> pi_interruption_cost i = GOAL_CHECK_IN_INTERRUPTION_COST_V1
        \<and> pi_acceptance_score i = None \<and> pi_expires_at i = None
        \<and> pi_created_by_kind i = INTENT_CREATED_BY_KIND_AUTONOMY_POLICY
        \<and> pi_intent_version i = INTENT_VERSION) TickConflict))"

definition replay_existing_tick_intent ::
    "tick_env \<Rightarrow> autonomy_tick_request \<Rightarrow> proactive_intent
     \<Rightarrow> (autonomy_tick_outcome, 'a autonomy_db_scheme) tick_step" where
  "replay_existing_tick_intent env r i =
     (let expected_intent_id = deterministic_intent_id (te_sha256 env) (tk_life_id r) (tk_tick_id r);
          event_id = deterministic_evaluation_event_id (te_sha256 env) (pi_intent_id i) in
      tick_bind (tick_return (validate_tick_intent_evidence r expected_intent_id i)) (\<lambda>_.
      if pi_status i = INTENT_STATUS_PENDING then recover_pending_intent env i
      else
        tick_bind (tick_read env CallFindEvent (\<lambda>db.
          map_err TickAutonomy (find_intent_event (te_io env CallFindEvent) (pi_life_id i) event_id db)))
          (\<lambda>found.
        tick_return (try_bind (ok_or found TickConflict) (\<lambda>event.
          if ie_event_id event \<noteq> event_id \<or> ie_life_id event \<noteq> pi_life_id i
             \<or> ie_intent_id event \<noteq> pi_intent_id i
             \<or> ie_from_status event \<noteq> INTENT_STATUS_PENDING
             \<or> ie_to_status event \<noteq> pi_status i
             \<or> ie_applied_revision event \<noteq> pi_revision i
             \<or> ie_not_before_after event \<noteq> pi_not_before i
          then Inl TickConflict
          else Inr (TickReplayed (pi_goal_id i) i (IntentReplayed event i)))))))"

section \<open>Selection\<close>

datatype rust_ordering = OrderLess | OrderEqual | OrderGreater

definition order_of :: "'a::linorder \<Rightarrow> 'a \<Rightarrow> rust_ordering" where
  "order_of a b = (if a < b then OrderLess else if a = b then OrderEqual else OrderGreater)"

definition order_then :: "rust_ordering \<Rightarrow> rust_ordering \<Rightarrow> rust_ordering" where
  "order_then a b = (if a = OrderEqual then b else a)"

text \<open>\<open>slice::sort_by\<close>: the stable sort.\<close>

fun insert_by :: "('a \<Rightarrow> 'a \<Rightarrow> rust_ordering) \<Rightarrow> 'a \<Rightarrow> 'a list \<Rightarrow> 'a list" where
  "insert_by cmp x [] = [x]"
| "insert_by cmp x (y # ys) =
     (if cmp x y = OrderGreater then y # insert_by cmp x ys else x # y # ys)"

fun sort_by :: "('a \<Rightarrow> 'a \<Rightarrow> rust_ordering) \<Rightarrow> 'a list \<Rightarrow> 'a list" where
  "sort_by cmp [] = []"
| "sort_by cmp (x # xs) = insert_by cmp x (sort_by cmp xs)"

definition candidate_updated_at :: "goal_candidate \<Rightarrow> string" where
  "candidate_updated_at c = (case ga_latest c of None \<Rightarrow> [] | Some i \<Rightarrow> pi_updated_at i)"

definition compare_candidates :: "goal_candidate \<Rightarrow> goal_candidate \<Rightarrow> rust_ordering" where
  "compare_candidates left right =
     (let history_order = order_of (ga_latest right = None) (ga_latest left = None) in
      if history_order \<noteq> OrderEqual then history_order
      else order_then (order_of (candidate_updated_at left) (candidate_updated_at right))
        (order_then (order_of (le_created_at (ga_goal left)) (le_created_at (ga_goal right)))
          (order_of (le_id (ga_goal left)) (le_id (ga_goal right)))))"

definition blocking_state ::
    "(string \<Rightarrow> int \<Rightarrow> autonomy_error + string) \<Rightarrow> autonomy_policy \<Rightarrow> proactive_intent \<Rightarrow> string
     \<Rightarrow> autonomy_tick_error + (autonomy_tick_wait_reason \<times> string option) option" where
  "blocking_state add_seconds policy i now =
     (if pi_status i = INTENT_STATUS_READY then Inr (Some (ReadyPendingDelivery, None))
      else if pi_status i = INTENT_STATUS_DEFERRED then
        try_bind (ok_or (pi_not_before i) (TickAutonomy autonomy_invalid_argument)) (\<lambda>not_before.
        Inr (if not_before > now then Some (DeferredNotDue, Some not_before) else None))
      else if pi_status i \<in> {INTENT_STATUS_STORED_SILENTLY, INTENT_STATUS_CANCELLED,
                INTENT_STATUS_EXPIRED, INTENT_STATUS_CONSUMED} then
        try_bind (map_err TickAutonomy
            (add_seconds (pi_updated_at i) (max MIN_RECHECK_SECONDS (ap_min_gap_seconds policy)))) (\<lambda>until.
        Inr (if now < until then Some (TerminalCooldown, Some until) else None))
      else if pi_status i = INTENT_STATUS_PENDING then Inr None
      else Inl (TickAutonomy autonomy_invalid_argument))"

text \<open>The loop over the candidates, from the one at \<open>index\<close> on, in the order of the code.\<close>

fun partition_candidates ::
    "(string \<Rightarrow> int \<Rightarrow> autonomy_error + string) \<Rightarrow> autonomy_policy \<Rightarrow> string \<Rightarrow> nat
     \<Rightarrow> goal_candidate list
     \<Rightarrow> autonomy_tick_error
        + nat list \<times> (nat \<times> autonomy_tick_wait_reason \<times> string option) list" where
  "partition_candidates add policy now index [] = Inr ([], [])"
| "partition_candidates add policy now index (c # cs) =
     (case ga_latest c of
        None \<Rightarrow>
          try_bind (partition_candidates add policy now (index + 1) cs) (\<lambda>(eligible, blocked).
          Inr (index # eligible, blocked))
      | Some i \<Rightarrow>
          if pi_status i = INTENT_STATUS_PENDING
          then partition_candidates add policy now (index + 1) cs
          else try_bind (blocking_state add policy i now) (\<lambda>state.
               try_bind (partition_candidates add policy now (index + 1) cs) (\<lambda>(eligible, blocked).
               case state of
                 None \<Rightarrow> Inr (index # eligible, blocked)
               | Some (reason, until) \<Rightarrow> Inr (eligible, (index, reason, until) # blocked))))"

definition select_candidate ::
    "(string \<Rightarrow> int \<Rightarrow> autonomy_error + string) \<Rightarrow> autonomy_policy \<Rightarrow> goal_candidate list \<Rightarrow> string
     \<Rightarrow> autonomy_tick_error + tick_selection" where
  "select_candidate add policy candidates now =
     try_bind (partition_candidates add policy now 0 candidates) (\<lambda>(eligible, blocked).
     case sort_by (\<lambda>l r. compare_candidates (candidates ! l) (candidates ! r)) eligible of
       index # _ \<Rightarrow> Inr (Selected index)
     | [] \<Rightarrow>
         (case sort_by (\<lambda>l r. compare_candidates (candidates ! fst l) (candidates ! fst r)) blocked of
            (index, reason, until) # _ \<Rightarrow>
              Inr (SelectionWaiting (le_id (ga_goal (candidates ! index))) reason until)
          | [] \<Rightarrow> Inl (TickAutonomy autonomy_invalid_argument)))"

section \<open>Producing an intent\<close>

definition autonomy_tick_now :: "autonomy_io \<Rightarrow> string \<Rightarrow> autonomy_error + string" where
  "autonomy_tick_now io now = (if io AutLock \<and> io AutNow then Inr now else Inl autonomy_database)"

definition autonomy_tick_add_seconds ::
    "autonomy_io \<Rightarrow> sqlite_strftime \<Rightarrow> string \<Rightarrow> int \<Rightarrow> autonomy_error + string" where
  "autonomy_tick_add_seconds io strftime base seconds =
     (if io AutLock then sqlite_add_seconds strftime base seconds else Inl autonomy_database)"

definition autonomy_tick_elapsed_seconds ::
    "autonomy_io \<Rightarrow> (string \<Rightarrow> string \<Rightarrow> int option) \<Rightarrow> string \<Rightarrow> string \<Rightarrow> autonomy_error + int" where
  "autonomy_tick_elapsed_seconds io elapsed now earlier =
     (if io AutLock then ok_or (elapsed now earlier) autonomy_database else Inl autonomy_database)"

definition autonomy_tick_active_goals ::
    "autonomy_io \<Rightarrow> life_intent_io \<Rightarrow> string \<Rightarrow> int \<Rightarrow> 'a life_intent_db_scheme
     \<Rightarrow> life_intent_error + life_goal list" where
  "autonomy_tick_active_goals io life_io life limit db =
     (if \<not> io AutLock then Inl li_database
      else list_active_goals_for_autonomy_tick life_io life limit db)"

definition tick_create_request ::
    "autonomy_tick_request \<Rightarrow> string \<Rightarrow> goal_candidate \<Rightarrow> int option \<Rightarrow> intent_create_request" where
  "tick_create_request r intent_id c recent_interaction_seconds =
     \<lparr>ir_intent_id = intent_id, ir_life_id = tk_life_id r, ir_goal_id = le_id (ga_goal c),
      ir_intent_kind = INTENT_KIND_GOAL_CHECK_IN, ir_importance = GOAL_CHECK_IN_IMPORTANCE_V1,
      ir_user_relevance = GOAL_CHECK_IN_USER_RELEVANCE_V1,
      ir_self_desire = GOAL_CHECK_IN_SELF_DESIRE_V1,
      ir_interruption_cost = GOAL_CHECK_IN_INTERRUPTION_COST_V1,
      ir_focus_state = tk_focus_state r, ir_acceptance_score = None,
      ir_recent_interaction_seconds = recent_interaction_seconds, ir_expires_at = None\<rparr>"

definition tick_recent_interaction ::
    "tick_env \<Rightarrow> string \<Rightarrow> (int option, 'a autonomy_db_scheme) tick_step" where
  "tick_recent_interaction env now =
     tick_bind (tick_read env CallLatestEpisode (\<lambda>_. map_err TickExperience (te_latest_episode env)))
       (\<lambda>latest_episode.
     case latest_episode of
       None \<Rightarrow> tick_return (Inr None)
     | Some episode \<Rightarrow>
         tick_bind (tick_read env CallElapsed (\<lambda>_. map_err TickAutonomy
             (autonomy_tick_elapsed_seconds (te_io env CallElapsed) (te_elapsed env) now
                (ep_ended_at episode)))) (\<lambda>s. tick_return (Inr (Some s))))"

definition create_and_evaluate_fresh_intent ::
    "tick_env \<Rightarrow> autonomy_tick_request \<Rightarrow> goal_candidate \<Rightarrow> string \<Rightarrow> string
     \<Rightarrow> (autonomy_tick_outcome, 'a autonomy_db_scheme) tick_step" where
  "create_and_evaluate_fresh_intent env r c now intent_id =
     tick_bind (tick_recent_interaction env now) (\<lambda>recent.
     tick_bind (tick_write env CallCreate
         (create_pending_goal_check_in_intent (te_io env CallCreate) (te_now env CallCreate)
            (tick_create_request r intent_id c recent))) (\<lambda>created.
     case created of
       Inl e \<Rightarrow>
         if ar_code e = AutIntentConflict
         then tick_bind (tick_read env CallFindConflict (\<lambda>db. map_err TickAutonomy
                  (find_intent (te_io env CallFindConflict) (tk_life_id r) intent_id db))) (\<lambda>found.
              case found of
                Some existing \<Rightarrow> replay_existing_tick_intent env r existing
              | None \<Rightarrow> tick_return (Inl (TickAutonomy e)))
         else tick_return (Inl (TickAutonomy e))
     | Inr (AutonomyCreateReplayed i) \<Rightarrow> replay_existing_tick_intent env r i
     | Inr (AutonomyCreated i) \<Rightarrow>
         if pi_status i \<noteq> INTENT_STATUS_PENDING
         then tick_return (Inl (TickAutonomy autonomy_invalid_argument))
         else tick_bind (evaluate_for_tick env i) (\<lambda>evaluation.
              tick_return (Inr (evaluation_outcome (le_id (ga_goal c)) evaluation)))))"

section \<open>The tick\<close>

fun load_candidates ::
    "tick_env \<Rightarrow> string \<Rightarrow> life_goal list \<Rightarrow> (goal_candidate list, 'a autonomy_db_scheme) tick_step" where
  "load_candidates env life [] = tick_return (Inr [])"
| "load_candidates env life (g # gs) =
     tick_bind (tick_read env (CallLatestIntent (le_id g)) (\<lambda>db. map_err TickAutonomy
         (find_latest_intent_for_goal (te_io env (CallLatestIntent (le_id g))) life (le_id g) db)))
       (\<lambda>latest.
     tick_bind (load_candidates env life gs) (\<lambda>cs.
     tick_return (Inr (\<lparr>ga_goal = g, ga_latest = latest\<rparr> # cs))))"

definition pending_candidate :: "goal_candidate list \<Rightarrow> proactive_intent option" where
  "pending_candidate cs =
     find (\<lambda>i. pi_status i = INTENT_STATUS_PENDING) (List.map_filter ga_latest cs)"

definition tick_select_and_produce ::
    "tick_env \<Rightarrow> autonomy_tick_request \<Rightarrow> string \<Rightarrow> autonomy_policy \<Rightarrow> goal_candidate list
     \<Rightarrow> (autonomy_tick_outcome, 'a autonomy_db_scheme) tick_step" where
  "tick_select_and_produce env r tick_intent_id policy candidates =
     (case pending_candidate candidates of
        Some i \<Rightarrow> recover_pending_intent env i
      | None \<Rightarrow>
          if ap_max_ready_per_window policy = 0 then tick_return (Inr TickNoReadyBudget)
          else
            tick_bind (tick_read env CallNow (\<lambda>_. map_err TickAutonomy
                (autonomy_tick_now (te_io env CallNow) (te_now env CallNow)))) (\<lambda>now.
            tick_bind (tick_read env CallAddSeconds (\<lambda>_. select_candidate
                (autonomy_tick_add_seconds (te_io env CallAddSeconds) (te_strftime env))
                policy candidates now)) (\<lambda>selection.
            case selection of
              Selected index \<Rightarrow>
                create_and_evaluate_fresh_intent env r (candidates ! index) now tick_intent_id
            | SelectionWaiting goal reason until \<Rightarrow>
                tick_return (Inr (TickWaiting goal reason until)))))"

definition run_autonomy_tick ::
    "tick_env \<Rightarrow> autonomy_tick_request \<Rightarrow> (autonomy_tick_outcome, 'a autonomy_db_scheme) tick_step" where
  "run_autonomy_tick env r =
     (let tick_intent_id = deterministic_intent_id (te_sha256 env) (tk_life_id r) (tk_tick_id r) in
      tick_bind (tick_return (validate_tick_request r)) (\<lambda>_.
      tick_bind (tick_read env CallFindTickIntent (\<lambda>db. map_err TickAutonomy
          (find_intent (te_io env CallFindTickIntent) (tk_life_id r) tick_intent_id db))) (\<lambda>found.
      case found of
        Some i \<Rightarrow> replay_existing_tick_intent env r i
      | None \<Rightarrow>
          tick_bind (tick_read env CallFindPolicy (\<lambda>db. map_err TickAutonomy
              (autonomy_find_policy (te_io env CallFindPolicy) (tk_life_id r) db))) (\<lambda>found_policy.
          case found_policy of
            None \<Rightarrow> tick_return (Inr TickDisabled)
          | Some policy \<Rightarrow>
              if \<not> ap_enabled policy then tick_return (Inr TickDisabled)
              else
                tick_bind (tick_read env CallActiveGoals (\<lambda>db. map_err TickLifeIntent
                    (autonomy_tick_active_goals (te_io env CallActiveGoals) (te_life_io env)
                       (tk_life_id r) MAX_GOALS_INSPECTED_PER_TICK db))) (\<lambda>active_goals.
                if active_goals = [] then tick_return (Inr TickNoActiveGoal)
                else tick_bind (load_candidates env (tk_life_id r) active_goals) (\<lambda>candidates.
                     tick_select_and_produce env r tick_intent_id policy candidates))))))"

section \<open>The trusted tick\<close>

text \<open>
  The focus comes from a source the caller passes (\<open>observe\<close>: its observation or its error). The two
  lookups before it are calls of their own, with their own environment \<open>pre\<close>.
\<close>

datatype perception_focus_state = FocusAvailable | FocusFocused | FocusUnknown
datatype focus_observation = FocusDisabled | FocusObserved perception_focus_state

datatype 'p trusted_tick_error = TrustedAutonomy autonomy_tick_error | TrustedPerception 'p

record trusted_tick_request =
  tt_tick_id :: string
  tt_life_id :: string

definition map_focus_observation :: "focus_observation \<Rightarrow> string" where
  "map_focus_observation outcome =
     (case outcome of
        FocusDisabled \<Rightarrow> INTENT_FOCUS_STATE_UNKNOWN
      | FocusObserved FocusAvailable \<Rightarrow> INTENT_FOCUS_STATE_AVAILABLE
      | FocusObserved FocusFocused \<Rightarrow> INTENT_FOCUS_STATE_FOCUSED
      | FocusObserved FocusUnknown \<Rightarrow> INTENT_FOCUS_STATE_UNKNOWN)"

definition run_d15_tick ::
    "tick_env \<Rightarrow> trusted_tick_request \<Rightarrow> string \<Rightarrow> 'a autonomy_db_scheme
     \<Rightarrow> ('p trusted_tick_error + autonomy_tick_outcome) \<times> 'a autonomy_db_scheme" where
  "run_d15_tick env r focus_state db =
     (let (out, db') = run_autonomy_tick env
            \<lparr>tk_tick_id = tt_tick_id r, tk_life_id = tt_life_id r, tk_focus_state = focus_state\<rparr> db
      in (map_err TrustedAutonomy out, db'))"

text \<open>What the policy says about the focus: a fixed state, or that the source is asked.\<close>

definition trusted_focus ::
    "'p + focus_observation \<Rightarrow> autonomy_policy option \<Rightarrow> 'p trusted_tick_error + string" where
  "trusted_focus observe policy =
     (case policy of
        None \<Rightarrow> Inr INTENT_FOCUS_STATE_UNKNOWN
      | Some p \<Rightarrow>
          if \<not> ap_enabled p then Inr INTENT_FOCUS_STATE_UNKNOWN
          else if ap_dnd p then Inr INTENT_FOCUS_STATE_DND
          else if ap_max_ready_per_window p = 0 then Inr INTENT_FOCUS_STATE_UNKNOWN
          else try_bind (map_err TrustedPerception observe) (\<lambda>outcome.
               Inr (map_focus_observation outcome)))"

definition run_trusted_autonomy_tick ::
    "tick_env \<Rightarrow> tick_env \<Rightarrow> 'p + focus_observation \<Rightarrow> trusted_tick_request \<Rightarrow> 'a autonomy_db_scheme
     \<Rightarrow> ('p trusted_tick_error + autonomy_tick_outcome) \<times> 'a autonomy_db_scheme" where
  "run_trusted_autonomy_tick pre env observe r db =
     (case validate_tick_identity (tt_tick_id r) (tt_life_id r) of
        Inl e \<Rightarrow> (Inl (TrustedAutonomy e), db)
      | Inr _ \<Rightarrow>
          (let intent_id = deterministic_intent_id (te_sha256 env) (tt_life_id r) (tt_tick_id r);
               db1 = tick_others pre CallFindTickIntent db in
           case find_intent (te_io pre CallFindTickIntent) (tt_life_id r) intent_id db1 of
             Inl e \<Rightarrow> (Inl (TrustedAutonomy (TickAutonomy e)), db1)
           | Inr (Some i) \<Rightarrow> run_d15_tick env r (pi_focus_state i) db1
           | Inr None \<Rightarrow>
               (let db2 = tick_others pre CallFindPolicy db1 in
                case autonomy_find_policy (te_io pre CallFindPolicy) (tt_life_id r) db2 of
                  Inl e \<Rightarrow> (Inl (TrustedAutonomy (TickAutonomy e)), db2)
                | Inr policy \<Rightarrow>
                    (case trusted_focus observe policy of
                       Inl e \<Rightarrow> (Inl e, db2)
                     | Inr focus_state \<Rightarrow> run_d15_tick env r focus_state db2))))"

end
