(* ===== verification/Autonomy_Tick_Runs.thy ===== *)
theory Autonomy_Tick_Runs
  imports Autonomy_Tick
begin

text \<open>
  What a tick does to the database, with every other caller of it in between: which operations of the
  repositories it runs itself, and what its outcome says.
\<close>

section \<open>A tick is a run of the repositories\<close>

text \<open>
  \<open>ticks env own db db'\<close>: from \<open>db\<close> the operations \<open>own\<close> lead to \<open>db'\<close>, in this order and with
  operations of others in between.
\<close>

inductive ticks ::
    "tick_env \<Rightarrow> autonomy_op list \<Rightarrow> 'a autonomy_db_scheme \<Rightarrow> 'a autonomy_db_scheme \<Rightarrow> bool"
  for env where
  quiet: "ticks env [] db db"
| others: "ticks env own db db1 \<Longrightarrow> ticks env own db (tick_others env c db1)"
| own: "ticks env own db db1 \<Longrightarrow> ticks env (own @ [op]) db (autonomy_op_step (te_strftime env) op db1)"

lemma ticks_append:
  assumes "ticks env b db1 db2" and "ticks env a db db1"
  shows "ticks env (a @ b) db db2"
  using assms
proof (induction rule: ticks.induct)
  case (own b' db1 db3 op)
  then have "ticks env ((a @ b') @ [op]) db (autonomy_op_step (te_strftime env) op db3)"
    by (intro ticks.own)
  then show ?case by simp
qed (auto intro: ticks.others)

text \<open>So it is a run of the repositories, and what these keep holds after it.\<close>

lemma ticks_run:
  assumes "ticks env own db db'"
  shows "\<exists>ops. db' = autonomy_run (te_strftime env) ops db"
  using assms
proof (induction rule: ticks.induct)
  case (quiet db)
  then show ?case by (intro exI [of _ "[]"]) (simp add: autonomy_run_def)
next
  case (others own db db1 c)
  then obtain ops where "db1 = autonomy_run (te_strftime env) ops db" by blast
  then show ?case
    by (intro exI [of _ "ops @ te_before env c"]) (simp add: tick_others_def autonomy_run_def)
next
  case (own own db db1 op)
  then obtain ops where "db1 = autonomy_run (te_strftime env) ops db" by blast
  then show ?case by (intro exI [of _ "ops @ [op]"]) (simp add: autonomy_run_def)
qed

lemma ticks_inv: "ticks env own db db' \<Longrightarrow> autonomy_inv db \<Longrightarrow> autonomy_inv db'"
  using ticks_run autonomy_run_inv by blast

section \<open>What a step of the tick does\<close>

definition tick_does ::
    "tick_env \<Rightarrow> ('r, 'a autonomy_db_scheme) tick_step
     \<Rightarrow> (autonomy_op list \<Rightarrow> autonomy_tick_error + 'r \<Rightarrow> bool) \<Rightarrow> bool" where
  "tick_does env m P \<longleftrightarrow>
     (\<forall>db. autonomy_inv db \<longrightarrow> (\<exists>own. ticks env own db (snd (m db)) \<and> P own (fst (m db))))"

lemma does_weaken:
  "tick_does env m P \<Longrightarrow> (\<And>own out. P own out \<Longrightarrow> Q own out) \<Longrightarrow> tick_does env m Q"
  unfolding tick_does_def by blast

lemma does_return: "P [] r \<Longrightarrow> tick_does env (tick_return r) P"
  unfolding tick_does_def tick_return_def by (auto intro: ticks.quiet)

lemma does_read:
  assumes "\<And>db. autonomy_inv db \<Longrightarrow> P [] (q db)"
  shows "tick_does env (tick_read env c q) P"
  unfolding tick_does_def
proof (intro allI impI)
  fix db :: "'a autonomy_db_scheme" assume inv: "autonomy_inv db"
  let ?db = "tick_others env c db"
  have "ticks env [] db ?db" by (intro ticks.others ticks.quiet)
  moreover from this inv have "P [] (q ?db)" by (intro assms) (rule ticks_inv)
  ultimately show "\<exists>own. ticks env own db (snd (tick_read env c q db)) \<and> P own (fst (tick_read env c q db))"
    by (intro exI [of _ "[]"]) (simp add: tick_read_def Let_def)
qed

lemma does_write:
  assumes "\<And>db. snd (w db) = autonomy_op_step (te_strftime env) op db"
    and "\<And>db. autonomy_inv db \<Longrightarrow> P [op] (Inr (fst (w db)))"
  shows "tick_does env (tick_write env c w) P"
  unfolding tick_does_def
proof (intro allI impI)
  fix db :: "'a autonomy_db_scheme" assume inv: "autonomy_inv db"
  let ?db = "tick_others env c db"
  have t: "ticks env [] db ?db" by (intro ticks.others ticks.quiet)
  from ticks.own [OF this, of op] have "ticks env [op] db (snd (w ?db))" by (simp add: assms(1))
  moreover have "P [op] (Inr (fst (w ?db)))" using ticks_inv [OF t inv] by (rule assms(2))
  ultimately show "\<exists>own. ticks env own db (snd (tick_write env c w db))
      \<and> P own (fst (tick_write env c w db))"
    by (intro exI [of _ "[op]"]) (simp add: tick_write_def split_def Let_def)
qed

lemma does_bind:
  assumes m: "tick_does env m P"
    and f: "\<And>own x. P own (Inr x) \<Longrightarrow> tick_does env (f x) (\<lambda>own'. Q (own @ own'))"
    and e: "\<And>own err. P own (Inl err) \<Longrightarrow> Q own (Inl err)"
  shows "tick_does env (tick_bind m f) Q"
  unfolding tick_does_def
proof (intro allI impI)
  fix db :: "'a autonomy_db_scheme" assume inv: "autonomy_inv db"
  obtain out db1 where out: "m db = (out, db1)" by fastforce
  with m inv obtain own where own: "ticks env own db db1" "P own out"
    unfolding tick_does_def by fastforce
  show "\<exists>own. ticks env own db (snd (tick_bind m f db)) \<and> Q own (fst (tick_bind m f db))"
  proof (cases out)
    case (Inl err)
    with own e show ?thesis by (intro exI [of _ own]) (simp add: tick_bind_def out)
  next
    case (Inr x)
    have "autonomy_inv db1" using own(1) inv by (rule ticks_inv)
    with f [of own x] own(2) Inr obtain own' where
      "ticks env own' db1 (snd (f x db1))" "Q (own @ own') (fst (f x db1))"
      unfolding tick_does_def by blast
    with Inr own(1) show ?thesis
      by (intro exI [of _ "own @ own'"]) (simp add: tick_bind_def out ticks_append)
  qed
qed

section \<open>Decided intents\<close>

definition decided_by :: "intent_event \<Rightarrow> proactive_intent \<Rightarrow> bool" where
  "decided_by e i \<longleftrightarrow>
     proactive_intent_ok i \<and> ie_intent_id e = pi_intent_id i \<and> ie_life_id e = pi_life_id i
     \<and> ie_from_status e = ''pending'' \<and> ie_to_status e = pi_status i
     \<and> ie_not_before_after e = pi_not_before i \<and> pi_status i \<noteq> ''pending''"

lemma decided_by_history:
  assumes inv: "intent_inv db" and i: "select_intent_by_id k db = Some i"
    and e: "e \<in> set (intent_event_rows db)" "ie_intent_id e = k"
  shows "decided_by e i"
proof -
  have "e \<in> set (intent_history k db)" using e by (simp add: intent_history_def)
  with select_intent_projects [OF inv i] show ?thesis
    by (auto simp: intent_projects_def decided_by_def e)
qed

lemma evaluation_decides:
  assumes inv: "autonomy_inv db"
    and ev: "evaluate_pending_intent io strftime now r db = (Inr out, db')"
  shows "\<exists>e i. (out = IntentApplied e i \<or> out = IntentReplayed e i) \<and> decided_by e i
    \<and> ie_event_id e = iq_event_id r \<and> pi_intent_id i = iq_intent_id r \<and> pi_life_id i = iq_life_id r"
proof -
  have t: "evaluate_pending_intent_in_transaction io strftime now r db = Inr (out, db')"
    using ev by (simp add: evaluate_pending_intent_def with_transaction_Inr)
  from t have inv': "autonomy_inv db'" by (rule evaluate_step_inv [OF inv])
  then have int: "intent_inv db'" by (simp add: autonomy_inv_def)
  from t obtain e i where out: "out = IntentApplied e i \<or> out = IntentReplayed e i"
    and e: "select_intent_event (iq_event_id r) db' = Some e" "ie_intent_id e = iq_intent_id r"
    and i: "select_intent (iq_life_id r) (iq_intent_id r) db' = Some i"
  proof (cases rule: intent_evaluation_cases)
    case (replayed e i)
    then show ?thesis using that by (simp add: intent_event_evidence_matches_def)
  next
    case (applied i c cols)
    have "select_intent_event (iq_event_id r) db'
        = Some (intent_event_of now (iq_expected_revision r + 1) cols r)"
      using applied(2,10) by (auto simp: intent_evaluated_db_rows select_intent_event_def find_append
          image_iff split: option.splits dest!: find_Some_mem)
    with applied that show ?thesis by simp
  qed
  have "e \<in> set (intent_event_rows db')" "ie_event_id e = iq_event_id r"
    using e(1) by (auto simp: select_intent_event_def dest!: find_Some_mem)
  with decided_by_history [OF int _ this(1) e(2), of i] select_intent_both [OF _ i] int out e(2)
  show ?thesis by (auto simp: intent_inv_def decided_by_def)
qed

section \<open>What the outcome says\<close>

text \<open>
  A tick that waits names a reason, and a time to wait for unless the last intent waits for its
  delivery; a tick that applied or replayed an evaluation returns an intent of the life of the
  request, decided by the returned event, which is the deterministic one of the intent.
\<close>

definition tick_outcome_ok ::
    "(string \<Rightarrow> string) \<Rightarrow> autonomy_tick_request \<Rightarrow> autonomy_tick_outcome \<Rightarrow> bool" where
  "tick_outcome_ok sha256 r out \<longleftrightarrow>
     (case out of
        TickWaiting g reason until \<Rightarrow> until = None \<longleftrightarrow> reason = ReadyPendingDelivery
      | TickApplied g i evaluation \<Rightarrow>
          (\<exists>e. evaluation = IntentApplied e i \<and> decided_by e i \<and> pi_life_id i = tk_life_id r
             \<and> ie_event_id e = deterministic_evaluation_event_id sha256 (pi_intent_id i))
      | TickReplayed g i evaluation \<Rightarrow>
          (\<exists>e. evaluation = IntentReplayed e i \<and> decided_by e i \<and> pi_life_id i = tk_life_id r
             \<and> ie_event_id e = deterministic_evaluation_event_id sha256 (pi_intent_id i))
      | _ \<Rightarrow> True)"

text \<open>The operations a tick runs itself, and which of them its outcome tells of.\<close>

definition tick_creates :: "tick_env \<Rightarrow> autonomy_tick_request \<Rightarrow> autonomy_op \<Rightarrow> bool" where
  "tick_creates env r op \<longleftrightarrow>
     (\<exists>c recent. op = OpCreateIntent (te_io env CallCreate) (te_now env CallCreate)
        (tick_create_request r
           (deterministic_intent_id (te_sha256 env) (tk_life_id r) (tk_tick_id r)) c recent))"

definition tick_evaluates :: "tick_env \<Rightarrow> autonomy_tick_request \<Rightarrow> autonomy_op \<Rightarrow> bool" where
  "tick_evaluates env r op \<longleftrightarrow>
     (\<exists>i. op = OpEvaluate (te_io env CallEvaluate) (te_now env CallEvaluate)
            (tick_evaluation_request (te_sha256 env) i)
        \<and> pi_life_id i = tk_life_id r)"

definition tick_script ::
    "tick_env \<Rightarrow> autonomy_tick_request \<Rightarrow> autonomy_op list \<Rightarrow> autonomy_tick_error + autonomy_tick_outcome
     \<Rightarrow> bool" where
  "tick_script env r own out \<longleftrightarrow>
     (own = [] \<or> (\<exists>c. tick_creates env r c \<and> own = [c])
      \<or> (\<exists>e. tick_evaluates env r e \<and> own = [e])
      \<or> (\<exists>c e. tick_creates env r c \<and> tick_evaluates env r e \<and> own = [c, e]))
     \<and> (case out of
          Inl _ \<Rightarrow> True
        | Inr (TickApplied _ _ _) \<Rightarrow> own \<noteq> [] \<and> tick_evaluates env r (last own)
        | Inr (TickReplayed _ _ _) \<Rightarrow> True
        | Inr _ \<Rightarrow> own = [])"

definition tick_good ::
    "tick_env \<Rightarrow> autonomy_tick_request \<Rightarrow> autonomy_op list \<Rightarrow> autonomy_tick_error + autonomy_tick_outcome
     \<Rightarrow> bool" where
  "tick_good env r own out \<longleftrightarrow>
     tick_script env r own out
     \<and> (\<forall>o'. out = Inr o' \<longrightarrow> tick_outcome_ok (te_sha256 env) r o')"

lemma tick_good_quiet [simp]:
  "tick_good env r [] (Inl e)" "tick_good env r [] (Inr TickDisabled)"
  "tick_good env r [] (Inr TickNoReadyBudget)" "tick_good env r [] (Inr TickNoActiveGoal)"
  "tick_good env r [] (Inr (TickWaiting g reason until))
     \<longleftrightarrow> (until = None \<longleftrightarrow> reason = ReadyPendingDelivery)"
  by (simp_all add: tick_good_def tick_script_def tick_outcome_ok_def)

lemma evaluate_for_tick_does:
  assumes life: "pi_life_id i = tk_life_id r"
  shows "tick_does env (evaluate_for_tick env i :: (_, 'a autonomy_db_scheme) tick_step) (\<lambda>own out.
    \<exists>op. own = [op] \<and> tick_evaluates env r op
    \<and> (\<forall>evaluation g. out = Inr evaluation \<longrightarrow>
          tick_outcome_ok (te_sha256 env) r (evaluation_outcome g evaluation)))"
  (is "tick_does env _ ?Q")
proof -
  let ?r = "tick_evaluation_request (te_sha256 env) i"
  let ?op = "OpEvaluate (te_io env CallEvaluate) (te_now env CallEvaluate) ?r"
  let ?good = "\<lambda>evaluation. \<forall>g. tick_outcome_ok (te_sha256 env) r (evaluation_outcome g evaluation)"
  have op: "tick_evaluates env r ?op" using life by (auto simp: tick_evaluates_def)
  have good: "?good out"
    if inv: "autonomy_inv db" and ev: "fst (evaluate_pending_intent (te_io env CallEvaluate)
        (te_strftime env) (te_now env CallEvaluate) ?r db) = Inr out"
    for out and db :: "'a autonomy_db_scheme"
  proof -
    from ev obtain db' where "evaluate_pending_intent (te_io env CallEvaluate) (te_strftime env)
        (te_now env CallEvaluate) ?r db = (Inr out, db')"
      by (metis prod.collapse)
    from evaluation_decides [OF inv this] life show ?thesis
      by (auto simp: tick_outcome_ok_def evaluation_outcome_def tick_evaluation_request_def)
  qed
  show ?thesis
    unfolding evaluate_for_tick_def
  proof (rule does_bind [where P = "\<lambda>own out. \<exists>r. own = [?op] \<and> out = Inr r
        \<and> (\<forall>evaluation. r = Inr evaluation \<longrightarrow> ?good evaluation)"], goal_cases)
    case 1
    show ?case by (rule does_write) (auto intro: good [rule_format])
  qed (auto intro!: does_return simp: op)
qed

definition tick_prelude :: "tick_env \<Rightarrow> autonomy_tick_request \<Rightarrow> autonomy_op list \<Rightarrow> bool" where
  "tick_prelude env r pre \<longleftrightarrow> pre = [] \<or> (\<exists>c. tick_creates env r c \<and> pre = [c])"

lemma tick_prelude_Nil [simp]: "tick_prelude env r []"
  by (simp add: tick_prelude_def)

lemma good_error: "tick_prelude env r pre \<Longrightarrow> tick_good env r pre (Inl e)"
  by (auto simp: tick_prelude_def tick_good_def tick_script_def)

lemma good_evaluated:
  assumes "tick_prelude env r pre" and "tick_evaluates env r op"
  shows "tick_good env r (pre @ [op]) (Inl e)"
    and "tick_outcome_ok (te_sha256 env) r (evaluation_outcome g evaluation) \<Longrightarrow>
      tick_good env r (pre @ [op]) (Inr (evaluation_outcome g evaluation))"
  using assms
  by (auto simp: tick_prelude_def tick_good_def tick_script_def evaluation_outcome_def
      split: intent_evaluation_outcome.splits)

lemma evaluated_does:
  assumes life: "pi_life_id i = tk_life_id r" and pre: "tick_prelude env r pre"
  shows "tick_does env (tick_bind (evaluate_for_tick env i)
      (\<lambda>evaluation. tick_return (Inr (evaluation_outcome g evaluation))))
    (\<lambda>own. tick_good env r (pre @ own))"
  using pre by (rule_tac does_bind [OF evaluate_for_tick_does [OF life]])
    (auto intro!: does_return good_evaluated)

lemma recover_does:
  "pi_life_id i = tk_life_id r \<Longrightarrow> tick_prelude env r pre \<Longrightarrow>
   tick_does env (recover_pending_intent env i) (\<lambda>own. tick_good env r (pre @ own))"
  unfolding recover_pending_intent_def by (rule evaluated_does)

lemma find_intent_Some:
  "find_intent io life k db = Inr (Some i) \<Longrightarrow>
   proactive_intent_ok i \<and> pi_life_id i = life \<and> pi_intent_id i = k"
  by (auto simp: find_intent_def try_seq_Inr_iff try_bind_Inr_iff validator_simps select_intent_def
      split: if_splits option.splits dest!: find_Some_mem)

lemma replay_does:
  assumes ok: "proactive_intent_ok i" and pre: "tick_prelude env r pre"
  shows "tick_does env (replay_existing_tick_intent env r i) (\<lambda>own. tick_good env r (pre @ own))"
proof -
  let ?k = "deterministic_intent_id (te_sha256 env) (tk_life_id r) (tk_tick_id r)"
  let ?e = "deterministic_evaluation_event_id (te_sha256 env) (pi_intent_id i)"
  have read: "tick_does env (tick_read env CallFindEvent (\<lambda>db.
      map_err TickAutonomy (find_intent_event (te_io env CallFindEvent) (pi_life_id i) ?e db)))
      (\<lambda>own out. own = [])"
    by (rule does_read) simp
  have replayed: "tick_good env r pre (Inr (TickReplayed (pi_goal_id i) i (IntentReplayed event i)))"
    if "decided_by event i" "pi_life_id i = tk_life_id r" "ie_event_id event = ?e" for event
    using pre that by (auto simp: tick_good_def tick_script_def tick_prelude_def tick_outcome_ok_def)
  show ?thesis
    unfolding replay_existing_tick_intent_def Let_def
  proof (rule does_bind [where P = "\<lambda>own out. own = []
      \<and> (out = Inr () \<longrightarrow> pi_life_id i = tk_life_id r)"], goal_cases)
    case 1
    show ?case by (rule does_return) (simp add: validate_tick_intent_evidence_def try_seq_Inr_iff)
  next
    case (2 own u)
    then have life: "pi_life_id i = tk_life_id r" by simp
    show ?case
    proof (cases "pi_status i = INTENT_STATUS_PENDING")
      case True
      with 2 recover_does [OF life pre] show ?thesis by simp
    next
      case False
      have "tick_good env r pre (try_bind (ok_or found TickConflict) (\<lambda>event.
          if ie_event_id event \<noteq> ?e \<or> ie_life_id event \<noteq> pi_life_id i
             \<or> ie_intent_id event \<noteq> pi_intent_id i
             \<or> ie_from_status event \<noteq> INTENT_STATUS_PENDING
             \<or> ie_to_status event \<noteq> pi_status i
             \<or> ie_applied_revision event \<noteq> pi_revision i
             \<or> ie_not_before_after event \<noteq> pi_not_before i
          then Inl TickConflict
          else Inr (TickReplayed (pi_goal_id i) i (IntentReplayed event i))))" for found
        using replayed [OF _ life] ok False
        by (cases found) (auto simp: decided_by_def INTENT_STATUS_PENDING_def good_error [OF pre])
      with 2 show ?thesis
        unfolding if_not_P [OF False]
        by (intro does_bind [OF read] does_return) (simp_all add: good_error [OF pre])
    qed
  next
    case (3 own err)
    with good_error [OF pre] show ?case by simp
  qed
qed

lemma created_intent_ok:
  assumes "create_pending_goal_check_in_intent io now q db = (Inr out, db')"
  shows "\<exists>i. (out = AutonomyCreated i \<or> out = AutonomyCreateReplayed i) \<and> proactive_intent_ok i
    \<and> pi_life_id i = ir_life_id q \<and> pi_intent_id i = ir_intent_id q"
proof -
  have t: "create_pending_intent_in_transaction io now q db = Inr (out, db')"
    using assms by (simp add: create_pending_goal_check_in_intent_def with_transaction_Inr)
  have fresh: "select_intent_by_id (ir_intent_id q) db2 = Some (intent_of_create now q)"
    if "intent_insert (intent_of_create now q) db1 = Inr db2" for db1 db2 :: "'a autonomy_db_scheme"
    using that by (auto simp: intent_insert_Inr select_intent_by_id_def find_append image_iff
        split: option.splits dest!: find_Some_mem)
  from t show ?thesis
    by (auto simp: create_pending_intent_in_transaction_def try_seq_Inr_iff try_bind_Inr_iff
        validator_simps intent_create_evidence_matches_def fresh
        split: option.splits if_splits sum.splits)
qed

section \<open>The whole tick\<close>

lemma blocking_state_until:
  "blocking_state add policy i now = Inr (Some (reason, None)) \<Longrightarrow> reason = ReadyPendingDelivery"
  "blocking_state add policy i now = Inr (Some (ReadyPendingDelivery, until)) \<Longrightarrow> until = None"
  by (auto simp: blocking_state_def try_bind_Inr_iff split: if_splits)

lemma partition_until:
  assumes "partition_candidates add policy now n cs = Inr (eligible, blocked)"
    and "(index, reason, until) \<in> set blocked"
  shows "until = None \<longleftrightarrow> reason = ReadyPendingDelivery"
  using assms
proof (induction add policy now n cs arbitrary: eligible blocked rule: partition_candidates.induct)
  case (2 add policy now n c cs)
  show ?case
  proof (cases "ga_latest c")
    case None
    with 2 show ?thesis by (auto simp: try_bind_Inr_iff)
  next
    case (Some i)
    show ?thesis
    proof (cases "pi_status i = INTENT_STATUS_PENDING")
      case True
      with Some 2 show ?thesis by simp
    next
      case False
      with Some 2 obtain state es bs where st: "blocking_state add policy i now = Inr state"
        and rest: "partition_candidates add policy now (n + 1) cs = Inr (es, bs)"
        and b: "blocked = (case state of None \<Rightarrow> bs | Some (reason, until) \<Rightarrow> (n, reason, until) # bs)"
        by (auto simp: try_bind_Inr_iff split: option.splits)
      show ?thesis
      proof (cases "(index, reason, until) \<in> set bs")
        case True
        with 2(3) Some False rest show ?thesis by simp
      next
        case new: False
        with b 2(5) have "state = Some (reason, until)" by (auto split: option.splits)
        with blocking_state_until [of add policy i now] st show ?thesis by auto
      qed
    qed
  qed
qed simp

lemma set_insert_by [simp]: "set (insert_by cmp x xs) = insert x (set xs)"
  by (induction xs) auto

lemma set_sort_by [simp]: "set (sort_by cmp xs) = set xs"
  by (induction xs) auto

lemma sort_by_Nil: "sort_by cmp xs = [] \<longleftrightarrow> xs = []"
  using set_sort_by [of cmp xs] by (metis set_empty)

lemma selection_waiting:
  assumes "select_candidate add policy cs now = Inr (SelectionWaiting g reason until)"
  shows "until = None \<longleftrightarrow> reason = ReadyPendingDelivery"
proof -
  from assms obtain eligible blocked where
    p: "partition_candidates add policy now 0 cs = Inr (eligible, blocked)"
    and s: "(case sort_by (\<lambda>l r. compare_candidates (cs ! l) (cs ! r)) eligible of
       index # _ \<Rightarrow> Inr (Selected index)
     | [] \<Rightarrow>
         (case sort_by (\<lambda>l r. compare_candidates (cs ! fst l) (cs ! fst r)) blocked of
            (index, reason, until) # _ \<Rightarrow>
              Inr (SelectionWaiting (le_id (ga_goal (cs ! index))) reason until)
          | [] \<Rightarrow> Inl (TickAutonomy autonomy_invalid_argument)))
        = Inr (SelectionWaiting g reason until)"
    unfolding select_candidate_def try_bind_Inr_iff by auto
  from s obtain index rest where
    "sort_by (\<lambda>l r. compare_candidates (cs ! fst l) (cs ! fst r)) blocked
      = (index, reason, until) # rest"
    by (simp split: list.split_asm prod.split_asm)
  note s = this
  have "(index, reason, until) \<in> set blocked"
    using set_sort_by [of _ blocked] s by (metis list.set_intros(1))
  with p show ?thesis by (rule partition_until)
qed

lemma recent_does: "tick_does env (tick_recent_interaction env now) (\<lambda>own out. own = [])"
  unfolding tick_recent_interaction_def
  by (rule does_bind [where P = "\<lambda>own out. own = []"])
    (auto intro!: does_read does_return does_bind [where P = "\<lambda>own out. own = []"]
      split: option.splits)

lemma fresh_does:
  "tick_does env (create_and_evaluate_fresh_intent env r c now
       (deterministic_intent_id (te_sha256 env) (tk_life_id r) (tk_tick_id r)))
     (tick_good env r)"
proof -
  let ?k = "deterministic_intent_id (te_sha256 env) (tk_life_id r) (tk_tick_id r)"
  let ?op = "\<lambda>recent. OpCreateIntent (te_io env CallCreate) (te_now env CallCreate)
      (tick_create_request r ?k c recent)"
  let ?ok = "\<lambda>i. proactive_intent_ok i \<and> pi_life_id i = tk_life_id r"
  let ?created = "\<lambda>recent own out. own = [?op recent] \<and> (\<exists>res. out = Inr res
      \<and> (\<forall>i. res = Inr (AutonomyCreated i) \<or> res = Inr (AutonomyCreateReplayed i) \<longrightarrow> ?ok i))"
  have pre: "tick_prelude env r [?op recent]" for recent
    by (auto simp: tick_prelude_def tick_creates_def)
  have creates: "tick_does env (tick_write env CallCreate (create_pending_goal_check_in_intent
      (te_io env CallCreate) (te_now env CallCreate) (tick_create_request r ?k c recent)))
      (?created recent)" for recent
  proof (rule does_write)
    fix db
    show "?created recent [?op recent] (Inr (fst (create_pending_goal_check_in_intent
        (te_io env CallCreate) (te_now env CallCreate) (tick_create_request r ?k c recent) db)))"
      using created_intent_ok [of "te_io env CallCreate" "te_now env CallCreate"
          "tick_create_request r ?k c recent" db _ "snd (create_pending_goal_check_in_intent
        (te_io env CallCreate) (te_now env CallCreate) (tick_create_request r ?k c recent) db)"]
      by (auto simp: tick_create_request_def prod_eq_iff)
  qed simp
  have found: "tick_does env (tick_read env CallFindConflict (\<lambda>db. map_err TickAutonomy
      (find_intent (te_io env CallFindConflict) (tk_life_id r) ?k db)))
      (\<lambda>own out. own = [] \<and> (\<forall>i. out = Inr (Some i) \<longrightarrow> ?ok i))"
    by (rule does_read) (auto dest: find_intent_Some)
  show ?thesis
    unfolding create_and_evaluate_fresh_intent_def
  proof (rule does_bind [OF recent_does], goal_cases)
    case (1 own recent)
    have "tick_good env r [?op recent] (Inl e)" for e by (rule good_error [OF pre])
    then show ?case
      using 1 pre [of recent]
      by (auto intro!: does_bind [OF creates] does_bind [OF found] does_return
          replay_does [where pre = "[?op recent]" for recent, simplified]
          evaluated_does [where pre = "[?op recent]" for recent, simplified]
          split: sum.splits autonomy_create_outcome.splits option.splits)
  qed simp
qed

definition candidates_ok :: "autonomy_tick_request \<Rightarrow> goal_candidate list \<Rightarrow> bool" where
  "candidates_ok r cs \<longleftrightarrow>
     (\<forall>c \<in> set cs. \<forall>i. ga_latest c = Some i \<longrightarrow> proactive_intent_ok i \<and> pi_life_id i = tk_life_id r)"

lemma find_latest_Some:
  "find_latest_intent_for_goal io life goal db = Inr (Some i) \<Longrightarrow>
   proactive_intent_ok i \<and> pi_life_id i = life"
proof -
  assume f: "find_latest_intent_for_goal io life goal db = Inr (Some i)"
  let ?rows = "filter (\<lambda>i. pi_life_id i = life \<and> pi_goal_id i = goal) (intent_rows db)"
  from f have i: "i = last (order_intents ?rows)" "order_intents ?rows \<noteq> []" "proactive_intent_ok i"
    by (auto simp: find_latest_intent_for_goal_def try_seq_Inr_iff try_bind_Inr_iff validator_simps
        split: if_splits)
  then have "i \<in> set (order_intents ?rows)" by simp
  with i(3) show ?thesis by (auto simp: order_intents_def)
qed

lemma load_candidates_does:
  "tick_does env (load_candidates env (tk_life_id r) gs)
     (\<lambda>own out. own = [] \<and> (\<forall>cs. out = Inr cs \<longrightarrow> candidates_ok r cs))"
proof (induction gs)
  case Nil
  then show ?case by (auto intro!: does_return simp: candidates_ok_def)
next
  case (Cons g gs)
  let ?q = "\<lambda>db. map_err TickAutonomy
      (find_latest_intent_for_goal (te_io env (CallLatestIntent (le_id g))) (tk_life_id r) (le_id g) db)"
  have "tick_does env (tick_read env (CallLatestIntent (le_id g)) ?q)
      (\<lambda>own out. own = [] \<and> (\<forall>i. out = Inr (Some i) \<longrightarrow>
         proactive_intent_ok i \<and> pi_life_id i = tk_life_id r))"
    by (rule does_read) (auto dest: find_latest_Some)
  then show ?case
    by (auto intro!: does_bind [where P = "\<lambda>own out. own = [] \<and> (\<forall>i. out = Inr (Some i) \<longrightarrow>
         proactive_intent_ok i \<and> pi_life_id i = tk_life_id r)"] does_bind [OF Cons.IH] does_return
        simp: candidates_ok_def)
qed

lemma pending_candidate_ok:
  "pending_candidate cs = Some i \<Longrightarrow> candidates_ok r cs \<Longrightarrow> pi_life_id i = tk_life_id r"
  by (auto simp: pending_candidate_def candidates_ok_def List.map_filter_def dest!: find_Some_mem)

abbreviation tick_quiet :: "autonomy_op list \<Rightarrow> autonomy_tick_error + 'r \<Rightarrow> bool" where
  "tick_quiet own out \<equiv> own = []"

lemma select_and_produce_does:
  assumes "candidates_ok r cs"
  shows "tick_does env (tick_select_and_produce env r
      (deterministic_intent_id (te_sha256 env) (tk_life_id r) (tk_tick_id r)) policy cs) (tick_good env r)"
proof (cases "pending_candidate cs")
  case (Some i)
  with recover_does [OF pending_candidate_ok [OF Some assms], where pre = "[]"] show ?thesis
    by (simp add: tick_select_and_produce_def)
next
  case None
  have select: "tick_does env (tick_read env CallAddSeconds (\<lambda>_. select_candidate
      (autonomy_tick_add_seconds (te_io env CallAddSeconds) (te_strftime env)) policy cs now))
      (\<lambda>own out. own = [] \<and> (\<forall>g reason until. out = Inr (SelectionWaiting g reason until) \<longrightarrow>
         (until = None \<longleftrightarrow> reason = ReadyPendingDelivery)))" for now
    by (rule does_read) (auto dest: selection_waiting)
  show ?thesis
  proof (cases "ap_max_ready_per_window policy = 0")
    case True
    with None show ?thesis by (simp add: tick_select_and_produce_def does_return)
  next
    case False
    with None show ?thesis
      by (auto simp: tick_select_and_produce_def
          intro!: does_bind [where P = tick_quiet] does_read does_bind [OF select] does_return fresh_does
          split: tick_selection.splits)
  qed
qed

lemma run_does: "tick_does env (run_autonomy_tick env r) (tick_good env r)"
proof -
  let ?k = "deterministic_intent_id (te_sha256 env) (tk_life_id r) (tk_tick_id r)"
  have found: "tick_does env (tick_read env CallFindTickIntent (\<lambda>db. map_err TickAutonomy
      (find_intent (te_io env CallFindTickIntent) (tk_life_id r) ?k db)))
      (\<lambda>own out. own = [] \<and> (\<forall>i. out = Inr (Some i) \<longrightarrow> proactive_intent_ok i))"
    by (rule does_read) (auto dest: find_intent_Some)
  have goals: "tick_does env (load_candidates env (tk_life_id r) gs)
      (\<lambda>own out. own = [] \<and> (\<forall>cs. out = Inr cs \<longrightarrow> candidates_ok r cs))" for gs
    by (rule load_candidates_does)
  have policy: "tick_does env (tick_bind (tick_read env CallActiveGoals q) (\<lambda>active_goals.
      if active_goals = [] then tick_return (Inr TickNoActiveGoal)
      else tick_bind (load_candidates env (tk_life_id r) active_goals)
        (\<lambda>candidates. tick_select_and_produce env r ?k policy candidates))) (tick_good env r)"
    for q policy
    by (rule does_bind [where P = tick_quiet])
      (auto intro!: does_read does_return does_bind [OF goals] select_and_produce_does)
  show ?thesis
    unfolding run_autonomy_tick_def Let_def
  proof (rule does_bind [where P = tick_quiet], goal_cases)
    case 1
    show ?case by (rule does_return) simp
  next
    case (2 own u)
    show ?case
    proof (rule does_bind [OF found], goal_cases)
      case (1 own' i)
      show ?case
      proof (cases i)
        case None
        have "tick_does env (case found_policy of None \<Rightarrow> tick_return (Inr TickDisabled)
            | Some policy \<Rightarrow> if \<not> ap_enabled policy then tick_return (Inr TickDisabled)
                else tick_bind (tick_read env CallActiveGoals q) (\<lambda>active_goals.
                  if active_goals = [] then tick_return (Inr TickNoActiveGoal)
                  else tick_bind (load_candidates env (tk_life_id r) active_goals)
                    (\<lambda>candidates. tick_select_and_produce env r ?k policy candidates)))
            (tick_good env r)" for found_policy q
          using policy by (auto intro: does_return split: option.splits)
        with None 1 2 show ?thesis
          by (simp only: option.case append_Nil)
            (rule does_bind [where P = tick_quiet]; (rule does_read)?; simp)
      next
        case (Some j)
        with 1 2 replay_does [of j env r "[]"] show ?thesis by simp
      qed
    qed (use 2 in simp)
  qed simp
qed

end
