(* ===== verification/Autonomy_Ticks.thy ===== *)
theory Autonomy_Ticks
  imports Autonomy_Tick_Runs
begin

text \<open>
  The properties of the autonomy tick: it is a short run of the repositories, its outcomes are well
  formed, it selects the first goal of the documented order, a tick that ran is replayed, and the
  trusted tick looks at the screen focus only when the policy lets it.
\<close>

section \<open>Ticks without others in between\<close>

definition uninterrupted :: "tick_env \<Rightarrow> bool" where
  "uninterrupted env \<longleftrightarrow> (\<forall>c. te_before env c = [])"

lemma uninterrupted_others [simp]: "uninterrupted env \<Longrightarrow> tick_others env c db = db"
  by (simp add: uninterrupted_def tick_others_def autonomy_run_def)

lemma tick_step_Inr:
  "tick_bind m f db = (Inr y, db2) \<longleftrightarrow>
     (\<exists>x db1. m db = (Inr x, db1) \<and> f x db1 = (Inr y, db2))"
  "tick_return res db = (Inr y, db2) \<longleftrightarrow> res = Inr y \<and> db2 = db"
  "uninterrupted env \<Longrightarrow> tick_read env c q db = (Inr y, db2) \<longleftrightarrow> q db = Inr y \<and> db2 = db"
  "uninterrupted env \<Longrightarrow> tick_write env c w db = (Inr out, db2) \<longleftrightarrow> w db = (out, db2)"
  by (auto simp: tick_bind_def tick_return_def tick_read_def tick_write_def Let_def
      split: prod.splits sum.splits)

text \<open>Which evaluation an applied outcome comes from.\<close>

definition tick_applied_by ::
    "tick_env \<Rightarrow> 'a autonomy_db_scheme \<Rightarrow> proactive_intent \<Rightarrow> intent_evaluation_outcome
     \<Rightarrow> 'a autonomy_db_scheme \<Rightarrow> bool" where
  "tick_applied_by env db0 j evaluation db1 \<longleftrightarrow>
     autonomy_inv db0 \<and> select_intent_by_id (pi_intent_id j) db0 = Some j
     \<and> evaluate_pending_intent (te_io env CallEvaluate) (te_strftime env) (te_now env CallEvaluate)
         (tick_evaluation_request (te_sha256 env) j) db0 = (Inr evaluation, db1)"

lemma evaluate_for_tick_Inr:
  "uninterrupted env \<Longrightarrow> evaluate_for_tick env j db = (Inr evaluation, db1) \<longleftrightarrow>
   evaluate_pending_intent (te_io env CallEvaluate) (te_strftime env) (te_now env CallEvaluate)
     (tick_evaluation_request (te_sha256 env) j) db = (Inr evaluation, db1)"
  by (simp add: evaluate_for_tick_def tick_step_Inr)

lemma evaluation_outcome_Applied:
  "evaluation_outcome g evaluation = TickApplied g' i ev \<longleftrightarrow>
     g' = g \<and> ev = evaluation \<and> (\<exists>e. evaluation = IntentApplied e i)"
  by (auto simp: evaluation_outcome_def split: intent_evaluation_outcome.splits)

lemma replay_applied:
  assumes un: "uninterrupted env" and inv: "autonomy_inv db"
    and j: "select_intent_by_id (pi_intent_id j) db = Some j"
    and run: "replay_existing_tick_intent env r j db = (Inr (TickApplied g i ev), db1)"
  shows "tick_applied_by env db j ev db1
    \<and> validate_tick_intent_evidence r
        (deterministic_intent_id (te_sha256 env) (tk_life_id r) (tk_tick_id r)) j = Inr ()"
  using run inv j
  by (auto simp: replay_existing_tick_intent_def Let_def un recover_pending_intent_def evaluate_for_tick_Inr [OF un]
      evaluation_outcome_Applied tick_applied_by_def tick_step_Inr try_bind_Inr_iff
      split: if_splits)

text \<open>The tick's own new intent carries the evidence a replay asks for.\<close>

lemma fresh_applied:
  assumes un: "uninterrupted env" and inv: "autonomy_inv db"
    and run: "create_and_evaluate_fresh_intent env r c now
      (deterministic_intent_id (te_sha256 env) (tk_life_id r) (tk_tick_id r)) db
        = (Inr (TickApplied g i ev), db1)"
  shows "\<exists>db0 j. tick_applied_by env db0 j ev db1
    \<and> validate_tick_intent_evidence r
        (deterministic_intent_id (te_sha256 env) (tk_life_id r) (tk_tick_id r)) j = Inr ()"
proof -
  let ?k = "deterministic_intent_id (te_sha256 env) (tk_life_id r) (tk_tick_id r)"
  from run obtain recent db' created db0 where
    recent: "tick_recent_interaction env now db = (Inr recent, db')"
    and cr: "create_pending_goal_check_in_intent (te_io env CallCreate) (te_now env CallCreate)
      (tick_create_request r ?k c recent) db' = (created, db0)"
    and rest: "(case created of
       Inl e \<Rightarrow>
         if ar_code e = AutIntentConflict
         then tick_bind (tick_read env CallFindConflict (\<lambda>db. map_err TickAutonomy
                  (find_intent (te_io env CallFindConflict) (tk_life_id r) ?k db))) (\<lambda>found.
              case found of
                Some existing \<Rightarrow> replay_existing_tick_intent env r existing
              | None \<Rightarrow> tick_return (Inl (TickAutonomy e)))
         else tick_return (Inl (TickAutonomy e))
     | Inr (AutonomyCreateReplayed i) \<Rightarrow> replay_existing_tick_intent env r i
     | Inr (AutonomyCreated i) \<Rightarrow>
         if pi_status i \<noteq> INTENT_STATUS_PENDING
         then tick_return (Inl (TickAutonomy autonomy_invalid_argument))
         else tick_bind (evaluate_for_tick env i) (\<lambda>evaluation.
              tick_return (Inr (evaluation_outcome (le_id (ga_goal c)) evaluation)))) db0
      = (Inr (TickApplied g i ev), db1)"
    by (auto simp: create_and_evaluate_fresh_intent_def tick_step_Inr(1) tick_step_Inr(4) [OF un])
  have db': "db' = db"
    using recent un by (auto simp: tick_recent_interaction_def tick_step_Inr split: option.splits)
  have inv0: "autonomy_inv db0"
    using autonomy_op_step_inv [OF inv, of "te_strftime env" "OpCreateIntent (te_io env CallCreate)
      (te_now env CallCreate) (tick_create_request r ?k c recent)"] cr by (simp add: db')
  have read: "select_intent_by_id (pi_intent_id j) db0 = Some j"
    if "created = Inr (AutonomyCreated j) \<or> created = Inr (AutonomyCreateReplayed j)" for j
  proof -
    from that cr obtain out where t: "create_pending_intent_in_transaction (te_io env CallCreate)
        (te_now env CallCreate) (tick_create_request r ?k c recent) db' = Inr (out, db0)"
      and out: "out = AutonomyCreated j \<or> out = AutonomyCreateReplayed j"
      by (auto simp: create_pending_goal_check_in_intent_def with_transaction_Inr)
    then have "select_intent_by_id (ir_intent_id (tick_create_request r ?k c recent)) db0 = Some j"
      by (auto simp: create_pending_intent_in_transaction_def try_seq_Inr_iff try_bind_Inr_iff
          split: option.splits if_splits sum.splits)
    moreover from this have "pi_intent_id j = ir_intent_id (tick_create_request r ?k c recent)"
      by (auto simp: select_intent_by_id_def dest: find_Some_mem)
    ultimately show ?thesis by simp
  qed
  show ?thesis
  proof (cases created)
    case (Inl e)
    with rest obtain j where "find_intent (te_io env CallFindConflict) (tk_life_id r) ?k db0 = Inr (Some j)"
      and re: "replay_existing_tick_intent env r j db0 = (Inr (TickApplied g i ev), db1)"
      using un by (auto simp: tick_step_Inr split: if_splits option.splits)
    then have "select_intent (tk_life_id r) ?k db0 = Some j"
      by (auto simp: find_intent_def try_seq_Inr_iff try_bind_Inr_iff split: if_splits option.splits)
    with inv0 have "select_intent_by_id (pi_intent_id j) db0 = Some j"
      using select_intent_both [of db0 "tk_life_id r" ?k j]
      by (auto simp: autonomy_inv_def intent_inv_def select_intent_by_id_iff)
    from replay_applied [OF un inv0 this re] show ?thesis by blast
  next
    case (Inr out)
    show ?thesis
    proof (cases out)
      case (AutonomyCreateReplayed j)
      with Inr rest have "replay_existing_tick_intent env r j db0 = (Inr (TickApplied g i ev), db1)"
        by simp
      from replay_applied [OF un inv0 read this] Inr AutonomyCreateReplayed show ?thesis by blast
    next
      case (AutonomyCreated j)
      with Inr cr have t: "create_pending_intent_in_transaction (te_io env CallCreate)
          (te_now env CallCreate) (tick_create_request r ?k c recent) db' = Inr (AutonomyCreated j, db0)"
        by (simp add: create_pending_goal_check_in_intent_def with_transaction_Inr)
      have "j = intent_of_create (te_now env CallCreate) (tick_create_request r ?k c recent)"
        using t read [of j] Inr AutonomyCreated
        by (auto simp: create_pending_intent_in_transaction_def try_seq_Inr_iff try_bind_Inr_iff
            intent_insert_Inr select_intent_by_id_def find_append
            split: option.splits if_splits sum.splits dest: find_Some_mem)
      then have "validate_tick_intent_evidence r ?k j = Inr ()"
        by (simp add: validate_tick_intent_evidence_def intent_of_create_def tick_create_request_def)
      moreover have "tick_applied_by env db0 j ev db1"
        using rest Inr AutonomyCreated inv0 read [of j]
        by (auto simp: tick_applied_by_def tick_step_Inr evaluate_for_tick_Inr [OF un]
            evaluation_outcome_Applied split: if_splits)
      ultimately show ?thesis by blast
    qed
  qed
qed

lemma load_candidates_Inr:
  assumes un: "uninterrupted env" and run: "load_candidates env life gs db = (Inr cs, db1)"
  shows "db1 = db \<and> (\<forall>c \<in> set cs. \<forall>j. ga_latest c = Some j \<longrightarrow> j \<in> set (intent_rows db) \<and> pi_life_id j = life)"
  using run
proof (induction gs arbitrary: cs db1)
  case Nil
  then show ?case by (auto simp: tick_step_Inr)
next
  case (Cons g gs)
  let ?io = "te_io env (CallLatestIntent (le_id g))"
  from Cons.prems obtain latest cs' where
    latest: "find_latest_intent_for_goal ?io life (le_id g) db = Inr latest"
    and cs': "load_candidates env life gs db = (Inr cs', db1)"
    and cs: "cs = \<lparr>ga_goal = g, ga_latest = latest\<rparr> # cs'"
    using un by (auto simp: tick_step_Inr)
  have "j \<in> set (intent_rows db) \<and> pi_life_id j = life" if "latest = Some j" for j
  proof -
    let ?rows = "filter (\<lambda>i. pi_life_id i = life \<and> pi_goal_id i = le_id g) (intent_rows db)"
    from latest that have "j = last (order_intents ?rows)" "order_intents ?rows \<noteq> []"
      by (auto simp: find_latest_intent_for_goal_def try_seq_Inr_iff try_bind_Inr_iff
          split: if_splits)
    then have "j \<in> set (order_intents ?rows)" by simp
    then show ?thesis by (auto simp: order_intents_def)
  qed
  with Cons.IH [OF cs'] cs show ?case by auto
qed

lemma run_applied:
  assumes un: "uninterrupted env" and inv: "autonomy_inv db"
    and run: "run_autonomy_tick env r db = (Inr (TickApplied g i ev), db1)"
    and id: "pi_intent_id i = deterministic_intent_id (te_sha256 env) (tk_life_id r) (tk_tick_id r)"
      (is "_ = ?k")
  shows "\<exists>db0 j. tick_applied_by env db0 j ev db1 \<and> validate_tick_intent_evidence r ?k j = Inr ()"
proof -
  have dist: "distinct (map pi_intent_id (intent_rows db))"
    using inv by (simp add: autonomy_inv_def intent_inv_def)
  from run obtain found where
    find: "find_intent (te_io env CallFindTickIntent) (tk_life_id r) ?k db = Inr found"
    and rest: "(case found of
        Some i \<Rightarrow> replay_existing_tick_intent env r i
      | None \<Rightarrow>
          tick_bind (tick_read env CallFindPolicy (\<lambda>db. map_err TickAutonomy
              (autonomy_find_policy (te_io env CallFindPolicy) (tk_life_id r) db))) (\<lambda>found_policy.
          case found_policy of
            None \<Rightarrow> tick_return (Inr TickDisabled)
          | Some policy \<Rightarrow>
              if \<not> ap_enabled policy then tick_return (Inr TickDisabled)
              else
                tick_bind (tick_read env CallActiveGoals (\<lambda>db. map_err TickLifeIntent
                    (autonomy_tick_active_goals (te_io env CallActiveGoals) (te_life_io env)
                       (tk_life_id r) MAX_GOALS_INSPECTED_PER_TICK db))) (\<lambda>active_goals.
                if active_goals = [] then tick_return (Inr TickNoActiveGoal)
                else tick_bind (load_candidates env (tk_life_id r) active_goals) (\<lambda>candidates.
                     tick_select_and_produce env r ?k policy candidates)))) db
      = (Inr (TickApplied g i ev), db1)"
    using un by (auto simp: run_autonomy_tick_def Let_def tick_step_Inr)
  from find have sel: "found = select_intent (tk_life_id r) ?k db"
    by (auto simp: find_intent_def try_seq_Inr_iff try_bind_Inr_iff split: if_splits option.splits)
  show ?thesis
  proof (cases found)
    case (Some j)
    with sel select_intent_both [OF dist, of "tk_life_id r" ?k j]
    have "select_intent_by_id ?k db = Some j" by simp
    then have "select_intent_by_id (pi_intent_id j) db = Some j"
      by (simp add: select_intent_by_id_iff [OF dist])
    from replay_applied [OF un inv this, of r g i ev db1] rest Some show ?thesis by auto
  next
    case None
    from rest None un obtain policy goals cs db' where
      cs: "load_candidates env (tk_life_id r) goals db = (Inr cs, db')"
      and pr: "tick_select_and_produce env r ?k policy cs db' = (Inr (TickApplied g i ev), db1)"
      by (auto simp: tick_step_Inr split: option.splits if_splits)
    note loaded = load_candidates_Inr [OF un cs]
    show ?thesis
    proof (cases "pending_candidate cs")
      case (Some j)
      from Some loaded have j: "j \<in> set (intent_rows db)" "pi_life_id j = tk_life_id r"
        by (auto simp: pending_candidate_def List.map_filter_def dest!: find_Some_mem)
      from pr Some have ev: "evaluate_pending_intent (te_io env CallEvaluate) (te_strftime env)
          (te_now env CallEvaluate) (tick_evaluation_request (te_sha256 env) j) db'
          = (Inr ev, db1)" "\<exists>e. ev = IntentApplied e i"
        by (auto simp: tick_select_and_produce_def recover_pending_intent_def tick_step_Inr
            evaluate_for_tick_Inr [OF un] evaluation_outcome_Applied)
      have "pi_intent_id i = pi_intent_id j"
        using evaluation_decides [OF _ ev(1)] inv loaded ev(2)
        by (auto simp: tick_evaluation_request_def)
      with id None sel j show ?thesis
        by (auto simp: select_intent_def find_None_all)
    next
      case no_pending: None
      from pr no_pending un obtain now selection where
        sel': "(case selection of
          Selected index \<Rightarrow> create_and_evaluate_fresh_intent env r (cs ! index) now ?k
        | SelectionWaiting goal reason until \<Rightarrow>
            tick_return (Inr (TickWaiting goal reason until))) db' = (Inr (TickApplied g i ev), db1)"
        by (auto simp: tick_select_and_produce_def tick_step_Inr split: if_splits)
      from sel' obtain c where
        "create_and_evaluate_fresh_intent env r c now ?k db' = (Inr (TickApplied g i ev), db1)"
        by (cases selection) (simp_all add: tick_step_Inr)
      then show ?thesis using fresh_applied [OF un] inv loaded by blast
    qed
  qed
qed

section \<open>What stays\<close>

fun deletes_goal :: "autonomy_op \<Rightarrow> bool" where
  "deletes_goal (OpLifeIntent (LopDeleteGoal _ _ _)) = True"
| "deletes_goal _ = False"

lemma life_transition_goal_keys:
  assumes tr: "life_transition_in_transaction T io now r db = Inr (out, db')"
    and keys: "\<And>p n s c. life_keys (goal_rows (lt_set_rows T
        (map (\<lambda>e. if p e then life_after now n s c e else e) (lt_rows T db)) db)) = life_keys (goal_rows db)"
  shows "life_keys (goal_rows db') = life_keys (goal_rows db)"
proof -
  have up: "life_keys (goal_rows db1) = life_keys (goal_rows db)"
    if "life_update T now n s t r db = Some (k, db1)" for n s t k db1
    using that keys by (auto simp: life_update_def sql_update_def Let_def split: if_splits)
  from tr show ?thesis
    by (auto simp: life_transition_in_transaction_def try_seq_Inr_iff try_bind_Inr_iff Let_def
        life_event_insert_Inr dest!: up split: option.splits if_splits sum.splits)
qed

lemma life_create_goal_keys:
  assumes "life_create_in_transaction T io v ev pre row shape db = Inr (out, db')"
    and "life_keys (goal_rows db) \<subseteq> life_keys (goal_rows (lt_set_rows T (lt_rows T db @ [row]) db))"
  shows "life_keys (goal_rows db) \<subseteq> life_keys (goal_rows db')"
  using assms by (auto simp: life_create_in_transaction_def try_seq_Inr_iff try_bind_Inr_iff
      life_insert_def split: option.splits if_splits sum.splits)

lemma cascade_goal_rows [simp]:
  "goal_rows (cascade_actions a db) = goal_rows db" "goal_rows (cascade_steps s db) = goal_rows db"
  "goal_rows (cascade_plans p db) = goal_rows db"
  by (simp_all add: cascade_actions_def cascade_steps_def cascade_plans_def Let_def)

lemma goal_keys_kept:
  assumes op: "\<not> deletes_goal (OpLifeIntent lop)"
  shows "life_keys (goal_rows db) \<subseteq> life_keys (goal_rows (life_intent_op_step lop db))"
proof -
  let ?kept = "\<lambda>db'. life_keys (goal_rows db) \<subseteq> life_keys (goal_rows db')"
  have tr: "?kept (snd (life_intent_transaction io body db))"
    if "\<And>out db'. body db = Inr (out, db') \<Longrightarrow> ?kept db'" for io and body :: "_ \<Rightarrow> _ + 'o \<times> _"
    by (rule life_intent_transaction_cases [where P = ?kept]) (simp_all add: that)
  have del: "?kept (snd (life_delete rows cascade io life i db))"
    if "\<And>p. goal_rows (cascade p db) = goal_rows db" for rows cascade io life i
    using life_delete_cases [of rows cascade io life i db] that by auto
  have new: "life_keys rows \<subseteq> life_keys (rows @ [e])" for rows and e :: life_goal
    by (auto simp: life_keys_def)
  have keys: "?kept db'"
    if "life_keys (goal_rows db') = life_keys (goal_rows db)" for db' :: "'a life_intent_db_scheme"
    using that by simp
  show ?thesis
    using op by (cases lop)
      (auto simp: create_goal_def create_plan_def create_step_def create_action_def
        transition_goal_def transition_plan_def transition_step_def transition_action_def
        create_goal_in_transaction_def create_plan_in_transaction_def create_step_in_transaction_def
        create_action_in_transaction_def transition_goal_in_transaction_def
        transition_plan_in_transaction_def transition_step_in_transaction_def
        transition_action_in_transaction_def delete_plan_def delete_step_def delete_action_def
        simp del: subset_iff
        intro!: tr [THEN subsetD] del [THEN subsetD] elim!: life_create_goal_keys [THEN subsetD]
          life_transition_goal_keys [THEN equalityD2, THEN subsetD])
qed

text \<open>A decided intent and its event stay as long as no goal is deleted.\<close>

lemma cascade_intents_kept:
  assumes "gone \<inter> (\<lambda>i. (pi_goal_id i, pi_life_id i)) ` set (intent_rows db) = {}"
  shows "intent_rows (cascade_intents gone db) = intent_rows db"
    and "intent_event_rows (cascade_intents gone db) = intent_event_rows db"
proof -
  have none: "(pi_goal_id i, pi_life_id i) \<notin> gone" if "i \<in> set (intent_rows db)" for i
    using assms that by auto
  then have "filter (\<lambda>i. (pi_goal_id i, pi_life_id i) \<in> gone) (intent_rows db) = []"
    by (simp add: filter_empty_conv)
  with none show "intent_rows (cascade_intents gone db) = intent_rows db"
    and "intent_event_rows (cascade_intents gone db) = intent_event_rows db"
    by (simp_all add: cascade_intents_def filter_id_conv)
qed

lemma no_goal_lost:
  assumes "\<not> deletes_goal (OpLifeIntent lop)"
  shows "intent_rows (life_intent_step_cascading lop db) = intent_rows db"
    and "intent_event_rows (life_intent_step_cascading lop db) = intent_event_rows db"
proof -
  have none: "life_keys (goal_rows db) - life_keys (goal_rows (life_intent_op_step lop db)) = {}"
    using goal_keys_kept [OF assms, of db] by blast
  show "intent_rows (life_intent_step_cascading lop db) = intent_rows db"
    and "intent_event_rows (life_intent_step_cascading lop db) = intent_event_rows db"
    unfolding life_intent_step_cascading_def Let_def none by simp_all
qed

definition intents_kept :: "'a autonomy_db_scheme \<Rightarrow> 'a autonomy_db_scheme \<Rightarrow> bool" where
  "intents_kept db db' \<longleftrightarrow>
     (\<forall>i \<in> set (intent_rows db). pi_status i \<noteq> ''pending'' \<longrightarrow> i \<in> set (intent_rows db'))
     \<and> set (intent_event_rows db) \<subseteq> set (intent_event_rows db')"

lemma intents_kept_same:
  "intent_rows db' = intent_rows db \<Longrightarrow> intent_event_rows db' = intent_event_rows db \<Longrightarrow>
   intents_kept db db'"
  by (simp add: intents_kept_def)

lemma intents_kept_step:
  assumes "\<not> deletes_goal op"
  shows "intents_kept db (autonomy_op_step strftime op db)"
proof -
  have refl: "intents_kept db db" by (simp add: intents_kept_same)
  show ?thesis
  proof (cases op)
    case (OpCreatePolicy io now r)
    show ?thesis
      unfolding OpCreatePolicy autonomy_op_step.simps autonomy_create_policy_def
      by (rule with_transaction_inv [where P = "intents_kept db", OF refl])
        (auto dest!: autonomy_create_Inr simp: autonomy_policy_insert_Inr intents_kept_def)
  next
    case (OpUpdatePolicy io now r)
    show ?thesis
      unfolding OpUpdatePolicy autonomy_op_step.simps autonomy_update_policy_def
      by (rule with_transaction_inv [where P = "intents_kept db", OF refl])
        (erule autonomy_update_cases; simp add: intents_kept_def autonomy_updated_db_rows)
  next
    case (OpCreateIntent io now r)
    show ?thesis
      unfolding OpCreateIntent autonomy_op_step.simps create_pending_goal_check_in_intent_def
      by (rule with_transaction_inv [where P = "intents_kept db", OF refl])
        (auto dest!: create_pending_intent_Inr simp: intent_insert_Inr intents_kept_def)
  next
    case (OpEvaluate io now r)
    have "intents_kept db (intent_evaluated_db now cols q db)" for now cols q
      by (force simp: intents_kept_def intent_evaluated_db_def Let_def image_iff)
    then show ?thesis
      unfolding OpEvaluate autonomy_op_step.simps evaluate_pending_intent_def
      by (intro with_transaction_inv [where P = "intents_kept db", OF refl])
        (erule intent_evaluation_cases; simp add: refl)
  next
    case (OpLifeIntent lop)
    with assms show ?thesis by (simp add: intents_kept_same no_goal_lost)
  qed
qed

lemma intents_kept_run:
  "\<forall>op \<in> set ops. \<not> deletes_goal op \<Longrightarrow> intents_kept db (autonomy_run strftime ops db)"
  unfolding autonomy_run_def
proof (induction ops arbitrary: db)
  case (Cons op ops)
  then have "intents_kept db (autonomy_op_step strftime op db)" by (simp add: intents_kept_step)
  moreover have "intents_kept (autonomy_op_step strftime op db)
      (fold (autonomy_op_step strftime) ops (autonomy_op_step strftime op db))"
    using Cons by simp
  ultimately show ?case by (auto simp: intents_kept_def)
qed (simp add: intents_kept_same)

section \<open>A tick that ran is replayed\<close>

definition tick_healthy :: "tick_env \<Rightarrow> bool" where
  "tick_healthy env \<longleftrightarrow> uninterrupted env \<and> (\<forall>c stmt. te_io env c stmt) \<and> (\<forall>stmt. te_life_io env stmt)"

lemma tick_applied_rows:
  assumes "tick_applied_by env db0 j (IntentApplied e i) db1"
  shows "i \<in> set (intent_rows db1) \<and> e \<in> set (intent_event_rows db1) \<and> intent_event_ok e
    \<and> ie_applied_revision e = pi_revision i
    \<and> validate_tick_intent_evidence r k i = validate_tick_intent_evidence r k j"
proof -
  let ?r = "tick_evaluation_request (te_sha256 env) j"
  from assms have inv: "autonomy_inv db0" and sel: "select_intent_by_id (pi_intent_id j) db0 = Some j"
    and t: "evaluate_pending_intent_in_transaction (te_io env CallEvaluate) (te_strftime env)
      (te_now env CallEvaluate) ?r db0 = Inr (IntentApplied e i, db1)"
    by (auto simp: tick_applied_by_def evaluate_pending_intent_def with_transaction_Inr)
  from t show ?thesis
  proof (cases rule: intent_evaluation_cases)
    case (applied k' c cols)
    have int: "intent_inv db0" using inv by (simp add: autonomy_inv_def)
    have "i = intent_after (te_now env CallEvaluate) (iq_expected_revision ?r + 1) cols c"
      using intent_evaluation_applied [OF int applied(4-7)] applied(1,2,12) by simp
    moreover have "c = j" using applied(4) sel by (simp add: tick_evaluation_request_def)
    ultimately have i: "i = intent_after (te_now env CallEvaluate) (iq_expected_revision ?r + 1) cols j"
      by simp
    have "i \<in> set (intent_rows db1)"
      using applied(1,12) by (auto simp: select_intent_def dest: find_Some_mem)
    moreover have "e \<in> set (intent_event_rows db1)" "intent_event_ok e"
      using applied(1,2,11) by (auto simp: intent_evaluated_db_rows)
    moreover have "ie_applied_revision e = pi_revision i"
      unfolding i using applied(1) by simp
    moreover have "validate_tick_intent_evidence r k i = validate_tick_intent_evidence r k j"
      by (simp add: i validate_tick_intent_evidence_def intent_after_def split_def)
    ultimately show ?thesis by blast
  qed simp_all
qed

lemma tick_replayed:
  assumes inv: "autonomy_inv db"
    and first: "uninterrupted env" "run_autonomy_tick env r db = (Inr (TickApplied g i ev), db1)"
      "pi_intent_id i = deterministic_intent_id (te_sha256 env) (tk_life_id r) (tk_tick_id r)"
    and since: "db2 = autonomy_run strftime' later db1" "\<forall>op \<in> set later. \<not> deletes_goal op"
    and again: "tick_healthy env'" "te_sha256 env' = te_sha256 env"
  shows "\<exists>e. ev = IntentApplied e i
    \<and> run_autonomy_tick env' r db2 = (Inr (TickReplayed (pi_goal_id i) i (IntentReplayed e i)), db2)
    \<and> pi_focus_state i = tk_focus_state r
    \<and> find_intent (te_io env' CallFindTickIntent) (tk_life_id r) (pi_intent_id i) db2 = Inr (Some i)"
proof -
  let ?k = "deterministic_intent_id (te_sha256 env) (tk_life_id r) (tk_tick_id r)"
  from run_does [of env r] inv obtain own where own: "ticks env own db db1"
      "tick_good env r own (Inr (TickApplied g i ev))"
    unfolding tick_does_def using first(2) by fastforce
  have inv2: "autonomy_inv db2"
    unfolding since(1) using autonomy_run_inv [OF ticks_inv [OF own(1) inv]] by blast
  from own(2) obtain e where e: "ev = IntentApplied e i" "decided_by e i" "pi_life_id i = tk_life_id r"
      "ie_event_id e = deterministic_evaluation_event_id (te_sha256 env) (pi_intent_id i)"
    by (auto simp: tick_good_def tick_outcome_ok_def)
  from run_applied [OF first(1) inv first(2,3)] e(1) obtain db0 j where
    ap: "tick_applied_by env db0 j (IntentApplied e i) db1"
    and ev: "validate_tick_intent_evidence r ?k j = Inr ()" by blast
  note rows = tick_applied_rows [OF ap, of r ?k]
  have kept: "i \<in> set (intent_rows db2)" "e \<in> set (intent_event_rows db2)"
    using intents_kept_run [OF since(2), of db1 strftime'] rows e(2)
    by (auto simp: since(1) intents_kept_def decided_by_def)
  have dist: "distinct (map pi_intent_id (intent_rows db2))"
      "distinct (map ie_event_id (intent_event_rows db2))"
    using inv2 by (simp_all add: autonomy_inv_def intent_inv_def)
  have "select_intent_by_id ?k db2 = Some i"
    using kept(1) first(3) by (simp add: select_intent_by_id_iff [OF dist(1)])
  from select_intent_of_id [OF dist(1) this] have sel: "select_intent (tk_life_id r) ?k db2 = Some i"
    by (simp add: e(3))
  have ok: "proactive_intent_ok i" "pi_status i \<noteq> INTENT_STATUS_PENDING"
    using e(2) by (simp_all add: decided_by_def INTENT_STATUS_PENDING_def)
  have f: "f = e" if "f \<in> set (intent_event_rows db2)" "ie_event_id f = ie_event_id e" for f
    using dist(2) kept(2) that by (auto simp: distinct_map inj_on_def)
  have found: "find (\<lambda>f. ie_life_id f = pi_life_id i \<and> ie_event_id f = ie_event_id e)
      (intent_event_rows db2) = Some e"
  proof (cases "find (\<lambda>f. ie_life_id f = pi_life_id i \<and> ie_event_id f = ie_event_id e)
      (intent_event_rows db2)")
    case None
    with kept(2) e(2) show ?thesis by (auto simp: find_None_all decided_by_def)
  next
    case (Some g)
    with f show ?thesis by (auto dest!: find_Some_mem)
  qed
  have valid: "validate_tick_request r = Inr ()"
    using first(2) by (auto simp: run_autonomy_tick_def Let_def tick_step_Inr)
  then have life: "\<not> str_blank (tk_life_id r)"
    by (simp add: validate_tick_request_def validate_tick_identity_def try_seq_Inr_iff)
  have nonblank: "\<not> str_blank ?k" "\<not> str_blank (ie_event_id e)"
    using e(2) rows unfolding first(3) [symmetric]
    by (auto simp: decided_by_def intent_event_ok_def autonomy_id_ok_def)
  have un: "uninterrupted env'" and io: "te_io env' c stmt" for c stmt
    using again(1) by (simp_all add: tick_healthy_def)
  have found_intent: "find_intent (te_io env' CallFindTickIntent) (tk_life_id r) ?k db2 = Inr (Some i)"
    using sel life nonblank(1) ok(1)
    by (simp add: find_intent_def autonomy_validate_lookup_arguments_def
        autonomy_validate_lookup_argument_def io validator_simps)
  have found_event: "find_intent_event (te_io env' CallFindEvent) (pi_life_id i) (ie_event_id e) db2
      = Inr (Some e)"
    using found life nonblank(2) rows e(3)
    by (simp add: find_intent_event_def autonomy_validate_lookup_arguments_def
        autonomy_validate_lookup_argument_def io validator_simps)
  have evidence: "validate_tick_intent_evidence r ?k i = Inr ()" using rows ev by simp
  have "replay_existing_tick_intent env' r i db2
      = (Inr (TickReplayed (pi_goal_id i) i (IntentReplayed e i)), db2)"
    using evidence ok(2) found_event e(2) rows
    by (simp add: replay_existing_tick_intent_def Let_def tick_step_Inr un again(2) e(4) [symmetric]
        decided_by_def INTENT_STATUS_PENDING_def)
  then have "run_autonomy_tick env' r db2
      = (Inr (TickReplayed (pi_goal_id i) i (IntentReplayed e i)), db2)"
    using valid found_intent
    by (simp add: run_autonomy_tick_def Let_def tick_step_Inr un again(2))
  moreover have "pi_focus_state i = tk_focus_state r"
    using evidence by (simp add: validate_tick_intent_evidence_def try_seq_Inr_iff)
  ultimately show ?thesis using e(1) found_intent first(3) by simp
qed

text \<open>
  C15: a trusted tick runs at most once. When it has produced and decided its intent, then, whatever
  other calls ran since, as long as no goal was deleted, the same tick is answered from the tables
  with the same intent and event and writes nothing. What the screen shows by then does not matter:
  not even a failing focus source.
\<close>

theorem trusted_tick_runs_once:
  assumes db: "db = autonomy_run strftime ops (autonomy_db_new lives)"
    and first: "uninterrupted pre" "uninterrupted env"
      "run_trusted_autonomy_tick pre env observe r db = (Inr (TickApplied g i ev), db1)"
      "pi_intent_id i = deterministic_intent_id (te_sha256 env) (tt_life_id r) (tt_tick_id r)"
    and since: "db2 = autonomy_run strftime' later db1" "\<forall>op \<in> set later. \<not> deletes_goal op"
    and again: "tick_healthy pre'" "tick_healthy env'" "te_sha256 env' = te_sha256 env"
  shows "\<exists>e. ev = IntentApplied e i
    \<and> run_trusted_autonomy_tick pre' env' observe' r db2
        = (Inr (TickReplayed (pi_goal_id i) i (IntentReplayed e i)), db2)"
proof -
  have inv: "autonomy_inv db" unfolding db by (rule autonomy_run_inv [OF autonomy_db_new_inv])
  let ?r = "\<lambda>focus. \<lparr>tk_tick_id = tt_tick_id r, tk_life_id = tt_life_id r, tk_focus_state = focus\<rparr>"
  let ?k = "deterministic_intent_id (te_sha256 env) (tt_life_id r) (tt_tick_id r)"
  from first obtain focus where
    run: "run_autonomy_tick env (?r focus) db = (Inr (TickApplied g i ev), db1)"
    and valid: "validate_tick_identity (tt_tick_id r) (tt_life_id r) = Inr ()"
    by (auto simp: run_trusted_autonomy_tick_def run_d15_tick_def Let_def split_def prod_eq_iff
        split: sum.splits option.splits)
  have "pi_intent_id i = deterministic_intent_id (te_sha256 env) (tk_life_id (?r focus))
      (tk_tick_id (?r focus))"
    using first(4) by simp
  from tick_replayed [OF inv first(2) run this since again(2,3)] obtain e where
    e: "ev = IntentApplied e i" "pi_focus_state i = focus"
      "run_autonomy_tick env' (?r focus) db2
        = (Inr (TickReplayed (pi_goal_id i) i (IntentReplayed e i)), db2)"
      "find_intent (te_io env' CallFindTickIntent) (tt_life_id r) (pi_intent_id i) db2 = Inr (Some i)"
    by auto
  have "find_intent (te_io pre' CallFindTickIntent) (tt_life_id r) ?k db2 = Inr (Some i)"
    using e(4) again(1,2) first(4) by (simp add: find_intent_def tick_healthy_def)
  with e valid again show ?thesis
    by (simp add: run_trusted_autonomy_tick_def Let_def tick_healthy_def run_d15_tick_def)
qed

section \<open>What a tick runs and what its outcome says\<close>

text \<open>
  C16: a tick refines the repositories. Whatever other calls come between its own, what a tick does
  to the database is at most one creation of the check-in intent of this tick, for a goal it found,
  followed by at most one evaluation of an intent of the same life: it waits, is disabled or has
  nothing to do without any write, and an applied outcome comes from an evaluation it ran last.
\<close>

theorem tick_refines_repositories:
  assumes "db = autonomy_run strftime ops (autonomy_db_new lives)"
  shows "\<exists>own. ticks env own db (snd (run_autonomy_tick env r db))
    \<and> tick_script env r own (fst (run_autonomy_tick env r db))"
proof -
  have "autonomy_inv db" unfolding assms by (rule autonomy_run_inv [OF autonomy_db_new_inv])
  with run_does [of env r] show ?thesis unfolding tick_does_def tick_good_def by blast
qed

text \<open>
  C17: the outcomes of a tick are well formed. A tick that waits says until when, unless the last
  intent waits for its delivery; one that applied or replayed an evaluation returns a valid intent of
  the life of the request, which the returned event decided, and the event is the deterministic one
  of that intent.
\<close>

theorem tick_outcome_well_formed:
  assumes "db = autonomy_run strftime ops (autonomy_db_new lives)"
    and "fst (run_autonomy_tick env r db) = Inr out"
  shows "tick_outcome_ok (te_sha256 env) r out"
proof -
  have "autonomy_inv db" unfolding assms(1) by (rule autonomy_run_inv [OF autonomy_db_new_inv])
  with run_does [of env r] assms(2) show ?thesis unfolding tick_does_def tick_good_def by metis
qed

section \<open>The selection\<close>

text \<open>
  The order of the candidates as a key: goals without an intent first, then the least recently
  updated intent, then the oldest goal, then the least identity. \<open>sort_by\<close> with the comparison of the
  code is the sort by this key.
\<close>

definition candidate_key :: "goal_candidate \<Rightarrow> bool \<times> string \<times> string \<times> string" where
  "candidate_key c =
     (ga_latest c \<noteq> None, candidate_updated_at c, le_created_at (ga_goal c), le_id (ga_goal c))"

lemma order_of_simps [simp]:
  "order_of a b = OrderEqual \<longleftrightarrow> a = b" "order_of a b = OrderGreater \<longleftrightarrow> b < a"
  by (auto simp: order_of_def)

lemma compare_candidates_key:
  "compare_candidates l r = order_of (candidate_key l) (candidate_key r)"
  by (auto simp: compare_candidates_def candidate_key_def order_then_def order_of_def Let_def
      less_prod_def)

lemma insert_by_key: "insert_by (\<lambda>l r. order_of (f l) (f r)) x xs = insort_key f x xs"
  by (induction xs) (auto simp: not_le not_less)

lemma sort_by_key: "sort_by (\<lambda>l r. order_of (f l) (f r)) xs = sort_key f xs"
  by (induction xs) (simp_all add: insert_by_key)

lemma sort_key_hd:
  assumes "sort_key f xs = y # ys"
  shows "y \<in> set xs \<and> (\<forall>x \<in> set xs. f y \<le> f x)"
proof -
  have "set (y # ys) = set xs" "sorted (map f (y # ys))"
    unfolding assms [symmetric] by simp_all
  then show ?thesis by auto
qed

text \<open>Whether a goal has to wait, with exact date arithmetic.\<close>

definition waits :: "(string \<Rightarrow> int \<Rightarrow> string) \<Rightarrow> autonomy_policy \<Rightarrow> string \<Rightarrow> goal_candidate
    \<Rightarrow> (autonomy_tick_wait_reason \<times> string option) option" where
  "waits later policy now c =
     (case ga_latest c of
        None \<Rightarrow> None
      | Some i \<Rightarrow>
          if pi_status i = ''ready'' then Some (ReadyPendingDelivery, None)
          else if pi_status i = ''deferred'' then
            (case pi_not_before i of
               Some t \<Rightarrow> if t > now then Some (DeferredNotDue, Some t) else None
             | None \<Rightarrow> None)
          else let t = later (pi_updated_at i) (max MIN_RECHECK_SECONDS (ap_min_gap_seconds policy))
               in if now < t then Some (TerminalCooldown, Some t) else None)"

definition settled_candidates :: "goal_candidate list \<Rightarrow> bool" where
  "settled_candidates cs \<longleftrightarrow>
     (\<forall>c \<in> set cs. \<forall>i. ga_latest c = Some i \<longrightarrow> proactive_intent_ok i \<and> pi_status i \<noteq> ''pending'')"

lemma blocking_state_waits:
  assumes "ga_latest c = Some i" and "proactive_intent_ok i" and "pi_status i \<noteq> ''pending''"
  shows "blocking_state (\<lambda>b s. Inr (later b s)) policy i now = Inr (waits later policy now c)"
proof -
  have "is_intent_status (pi_status i)" "pi_status i = ''deferred'' \<longleftrightarrow> pi_not_before i \<noteq> None"
    using assms(2) by (simp_all add: proactive_intent_ok_def intent_columns_ok_def)
  with assms(1,3) show ?thesis
    by (auto simp: blocking_state_def waits_def is_intent_status_def autonomy_strings Let_def)
qed

lemma partition_candidates_eq:
  assumes "settled_candidates cs"
  shows "partition_candidates (\<lambda>b s. Inr (later b s)) policy now n cs =
    Inr (map fst (filter (\<lambda>(k, c). waits later policy now c = None) (enumerate n cs)),
         List.map_filter (\<lambda>(k, c). map_option (Pair k) (waits later policy now c)) (enumerate n cs))"
  using assms
proof (induction cs arbitrary: n)
  case Nil
  then show ?case by (simp add: List.map_filter_simps)
next
  case (Cons c cs)
  then have rest: "settled_candidates cs" by (simp add: settled_candidates_def)
  show ?case
  proof (cases "ga_latest c")
    case None
    then have "waits later policy now c = None" by (simp add: waits_def)
    with None Cons.IH [OF rest, of "Suc n"] show ?thesis by (simp add: List.map_filter_simps)
  next
    case (Some i)
    with Cons.prems have i: "proactive_intent_ok i" "pi_status i \<noteq> ''pending''"
      by (simp_all add: settled_candidates_def)
    show ?thesis
      using Some i Cons.IH [OF rest, of "Suc n"]
      by (cases "waits later policy now c")
        (auto simp: List.map_filter_simps blocking_state_waits INTENT_STATUS_PENDING_def)
  qed
qed

text \<open>
  The tick selects the first goal of the documented order. With the loaded candidates decided
  and the date arithmetic working, the loop, the two sorts by the comparison function and the picks
  of their heads are: among the goals that do not have to wait, the one that comes first (no intent
  yet, then the least recently updated, then the oldest, then the least identity); when all have to
  wait, the wait of the first goal in this order.
\<close>

theorem tick_selects_first:
  assumes "settled_candidates cs" and "cs \<noteq> []"
  shows "case select_candidate (\<lambda>b s. Inr (later b s)) policy cs now of
      Inl _ \<Rightarrow> False
    | Inr (Selected k) \<Rightarrow>
        k < length cs \<and> waits later policy now (cs ! k) = None
        \<and> (\<forall>c \<in> set cs. waits later policy now c = None \<longrightarrow> candidate_key (cs ! k) \<le> candidate_key c)
    | Inr (SelectionWaiting goal reason until) \<Rightarrow>
        (\<forall>c \<in> set cs. waits later policy now c \<noteq> None)
        \<and> (\<exists>c \<in> set cs. goal = le_id (ga_goal c) \<and> waits later policy now c = Some (reason, until)
             \<and> (\<forall>d \<in> set cs. candidate_key c \<le> candidate_key d))"
proof -
  obtain free where f: "free = map fst (filter (\<lambda>(k, c). waits later policy now c = None) (enumerate 0 cs))"
    by blast
  obtain blocked where b: "blocked =
      List.map_filter (\<lambda>(k, c). map_option (Pair k) (waits later policy now c)) (enumerate 0 cs)"
    by blast
  have free: "set free = {k. k < length cs \<and> waits later policy now (cs ! k) = None}"
    unfolding f by (force simp: in_set_enumerate_eq image_iff)
  have waiting: "set blocked = {(k, w). k < length cs \<and> waits later policy now (cs ! k) = Some w}"
    unfolding b by (force simp: in_set_enumerate_eq List.map_filter_def image_iff)
  have select: "select_candidate (\<lambda>b s. Inr (later b s)) policy cs now =
    (case sort_key (\<lambda>k. candidate_key (cs ! k)) free of
       index # _ \<Rightarrow> Inr (Selected index)
     | [] \<Rightarrow>
         (case sort_key (\<lambda>b. candidate_key (cs ! fst b)) blocked of
            (index, reason, until) # _ \<Rightarrow>
              Inr (SelectionWaiting (le_id (ga_goal (cs ! index))) reason until)
          | [] \<Rightarrow> Inl (TickAutonomy autonomy_invalid_argument)))"
    unfolding select_candidate_def partition_candidates_eq [OF assms(1)] try_bind_simps prod.case
      f [symmetric] b [symmetric] compare_candidates_key sort_by_key ..
  show ?thesis
  proof (cases "sort_key (\<lambda>k. candidate_key (cs ! k)) free")
    case (Cons k ks)
    from sort_key_hd [OF Cons] have k: "k < length cs" "waits later policy now (cs ! k) = None"
      and least: "\<And>m. m < length cs \<Longrightarrow> waits later policy now (cs ! m) = None \<Longrightarrow>
        candidate_key (cs ! k) \<le> candidate_key (cs ! m)"
      unfolding free by simp_all
    have "\<forall>c \<in> set cs. waits later policy now c = None \<longrightarrow> candidate_key (cs ! k) \<le> candidate_key c"
      using least by (metis in_set_conv_nth)
    with k show ?thesis unfolding select Cons by simp
  next
    case Nil
    then have "free = []" by (metis length_0_conv length_sort)
    with free have "waits later policy now (cs ! k) \<noteq> None" if "k < length cs" for k
      using that by auto
    then have all: "\<forall>c \<in> set cs. waits later policy now c \<noteq> None" by (metis in_set_conv_nth)
    show ?thesis
    proof (cases "sort_key (\<lambda>b. candidate_key (cs ! fst b)) blocked")
      case none: Nil
      then have "blocked = []" by (metis length_0_conv length_sort)
      moreover have "0 < length cs" using assms(2) by simp
      moreover from this all obtain w where "waits later policy now (cs ! 0) = Some w"
        by (meson nth_mem option.exhaust)
      ultimately have "(0, w) \<in> set blocked" "blocked = []" unfolding waiting by simp_all
      then show ?thesis by simp
    next
      case (Cons v vs)
      obtain k reason until where hd: "v = (k, reason, until)" by (cases v) auto
      from sort_key_hd [OF Cons] have k: "k < length cs"
          "waits later policy now (cs ! k) = Some (reason, until)"
        and least: "\<And>m w. m < length cs \<Longrightarrow> waits later policy now (cs ! m) = Some w \<Longrightarrow>
          candidate_key (cs ! k) \<le> candidate_key (cs ! m)"
        unfolding waiting hd by auto
      have "candidate_key (cs ! k) \<le> candidate_key d" if "d \<in> set cs" for d
      proof -
        from that obtain m where "m < length cs" "cs ! m = d" by (auto simp: in_set_conv_nth)
        moreover from all that obtain w where "waits later policy now d = Some w" by blast
        ultimately show ?thesis using least by blast
      qed
      moreover have "cs ! k \<in> set cs" using k(1) by simp
      ultimately show ?thesis using all k unfolding select Nil Cons hd by auto
    qed
  qed
qed

section \<open>A sample tick\<close>

text \<open>The two dates the evaluation of the sample asks for, as SQLite answers them.\<close>

definition tick_strftime1 :: sqlite_strftime where
  "tick_strftime1 base modifier =
     (if base = sample_t1 \<and> modifier = seconds_modifier (- 3600) then Some sample_t0
      else if base = sample_t1 \<and> modifier = seconds_modifier 60
      then Some ''2026-01-01T01:01:00.000Z''
      else None)"

definition tick_env1 :: tick_env where
  "tick_env1 =
     \<lparr>te_before = (\<lambda>_. []), te_io = (\<lambda>_ _. True), te_life_io = (\<lambda>_. True),
      te_now = (\<lambda>_. sample_t1), te_strftime = tick_strftime1, te_elapsed = (\<lambda>_ _. None),
      te_sha256 = (\<lambda>_. ''1''), te_latest_episode = Inr None\<rparr>"

definition tick_request1 :: autonomy_tick_request where
  "tick_request1 = \<lparr>tk_tick_id = ''tick-1'', tk_life_id = ''life-a'', tk_focus_state = ''available''\<rparr>"

definition tick_intent1 :: proactive_intent where
  "tick_intent1 = intent_of_create sample_t1
     (tick_create_request tick_request1 ''d15c-intent-1'' \<lparr>ga_goal = goal1, ga_latest = None\<rparr> None)"

definition tick_create1 :: intent_create_request where
  "tick_create1 =
     tick_create_request tick_request1 ''d15c-intent-1'' \<lparr>ga_goal = goal1, ga_latest = None\<rparr> None"

lemma tick_intent1_eq: "tick_intent1 = intent_of_create sample_t1 tick_create1"
  by (simp add: tick_intent1_def tick_create1_def)

definition tick_db1 :: autonomy_db where "tick_db1 = sample_db0\<lparr>intent_rows := [tick_intent1]\<rparr>"

lemma tick_dates1: "dates_answered tick_strftime1 sample_t1 tick_intent1 tick_db1"
proof -
  have "canonical_timestamp ''2026-01-01T01:01:00.000Z''" "canonical_timestamp sample_t0"
    by (simp_all add: canonical_timestamp_def is_ascii_digit_def sample_t0_def)
  then show ?thesis
    by (auto simp: dates_answered_def dates_asked_def date_answered_def select_autonomy_policy_def
        tick_db1_def sample_db0_def tick_intent1_eq tick_create1_def tick_create_request_def
        intent_of_create_def sample_policy_def ready_times_def tick_strftime1_def MIN_RECHECK_SECONDS_def
        tick_request1_def autonomy_strings sample_sql_strings
        dest: seconds_modifier_inj)
qed

lemma tick_strings1:
  "autonomy_id_ok ''d15c-intent-1''" "sql_id ''d15c-intent-1''" "autonomy_id_ok ''d15c-eval-1''"
  "sql_id ''d15c-eval-1''" "\<not> str_blank ''d15c-intent-1''" "\<not> str_blank ''goal-1''"
  "chars_count ''tick-1'' = 6"
  by code_simp+

lemma tick_intent1_facts [simp]:
  "pi_intent_id tick_intent1 = ''d15c-intent-1''" "pi_life_id tick_intent1 = ''life-a''"
  "pi_goal_id tick_intent1 = ''goal-1''" "pi_revision tick_intent1 = 1"
  "pi_status tick_intent1 = ''pending''"
  by (simp_all add: tick_intent1_def intent_of_create_def tick_create_request_def tick_request1_def
      INTENT_STATUS_PENDING_def)

lemma tick_create1_step:
  "create_pending_goal_check_in_intent (\<lambda>_. True) sample_t1 tick_create1 sample_db0
     = (Inr (AutonomyCreated tick_intent1), tick_db1)"
proof -
  have ok: "intent_create_ok tick_create1"
    by (simp add: intent_create_ok_def intent_evidence_ok_def tick_create1_def tick_create_request_def
        tick_request1_def sample_strings tick_strings1 signal_ok_def autonomy_strings
        GOAL_CHECK_IN_IMPORTANCE_V1_def GOAL_CHECK_IN_USER_RELEVANCE_V1_def
        GOAL_CHECK_IN_SELF_DESIRE_V1_def GOAL_CHECK_IN_INTERRUPTION_COST_V1_def)
  have int: "proactive_intent_ok tick_intent1"
    by (simp add: proactive_intent_ok_def intent_evidence_ok_def intent_columns_ok_def tick_intent1_def
        intent_of_create_def tick_create_request_def tick_request1_def sample_strings tick_strings1
        signal_ok_def is_intent_status_def autonomy_strings INTENT_VERSION_def sample_t1_def
        sample_sql_strings GOAL_CHECK_IN_IMPORTANCE_V1_def GOAL_CHECK_IN_USER_RELEVANCE_V1_def
        GOAL_CHECK_IN_SELF_DESIRE_V1_def GOAL_CHECK_IN_INTERRUPTION_COST_V1_def)
  have row: "intent_row_check tick_intent1"
    by (simp add: intent_row_check_def tick_intent1_def intent_of_create_def tick_create_request_def
        tick_request1_def sample_sql_strings tick_strings1 signal_ok_def sql_intent_status_def
        autonomy_strings INTENT_VERSION_def sample_t1_def GOAL_CHECK_IN_IMPORTANCE_V1_def
        GOAL_CHECK_IN_USER_RELEVANCE_V1_def GOAL_CHECK_IN_SELF_DESIRE_V1_def
        GOAL_CHECK_IN_INTERRUPTION_COST_V1_def)
  have ids: "ir_intent_id tick_create1 = ''d15c-intent-1''" "ir_life_id tick_create1 = ''life-a''"
      "ir_goal_id tick_create1 = ''goal-1''" "ap_enabled sample_policy"
      "ap_life_id sample_policy = ''life-a''"
    by (simp_all add: tick_create1_def tick_create_request_def tick_request1_def sample_policy_def)
  show ?thesis
    using ok int row sample_policy_ok
    by (simp add: create_pending_goal_check_in_intent_def with_transaction_def ids
        create_pending_intent_in_transaction_def validator_simps autonomy_select_defs
        require_active_goal_def intent_insert_def tick_intent1_eq [symmetric] sample_db0_def
        life_key_def tick_db1_def life_keys_def)
qed

lemma tick_evaluate1:
  "\<exists>e i db'. evaluate_pending_intent (\<lambda>_. True) tick_strftime1 sample_t1
      (tick_evaluation_request (\<lambda>_. ''1'') tick_intent1) tick_db1 = (Inr (IntentApplied e i), db')
    \<and> pi_intent_id i = ''d15c-intent-1''"
proof -
  let ?r = "tick_evaluation_request (\<lambda>_. ''1'') tick_intent1"
  let ?ops = "sample_ops0 @ [OpCreateIntent (\<lambda>_. True) sample_t1 tick_create1]"
  have run: "autonomy_run (\<lambda>_ _. None) ?ops (autonomy_db_new [''life-a'']) = tick_db1"
    using sample_run0 [of "\<lambda>_ _. None"] tick_create1_step by (simp add: autonomy_run_def)
  have inv: "autonomy_policy_inv tick_db1" "intent_inv tick_db1"
    using autonomy_run_inv [OF autonomy_db_new_inv, of "\<lambda>_ _. None" ?ops "[''life-a'']"]
    by (simp_all add: run autonomy_inv_def)
  have chk: "intent_rows_checked tick_db1" unfolding run [symmetric] by (rule intent_rows_checked_run)
  have r: "iq_event_id ?r = ''d15c-eval-1''" "iq_life_id ?r = ''life-a''"
      "iq_intent_id ?r = ''d15c-intent-1''" "iq_expected_revision ?r = 1"
    by (simp_all add: tick_evaluation_request_def deterministic_evaluation_event_id_def
        EVALUATION_EVENT_ID_PREFIX_def)
  have "dates_answered tick_strftime1 sample_t1 tick_intent1 tick_db1" by (rule tick_dates1)
  moreover have "canonical_timestamp sample_t1" by (simp add: sample_t1_def sample_sql_strings)
  moreover have "select_intent_by_id (iq_intent_id ?r) tick_db1 = Some tick_intent1"
      "pi_life_id tick_intent1 = iq_life_id ?r" "pi_revision tick_intent1 = iq_expected_revision ?r"
      "pi_status tick_intent1 = ''pending''"
    by (simp_all add: r select_intent_by_id_def tick_db1_def)
  moreover have "intent_evaluation_ok ?r" "sql_id (iq_event_id ?r)"
      "iq_event_id ?r \<notin> ie_event_id ` set (intent_event_rows tick_db1)"
    by (simp_all add: intent_evaluation_ok_def r tick_strings1 sample_strings expected_revision_ok_def
        i64_max_def tick_db1_def sample_db0_def)
  ultimately obtain e i db' where ev: "evaluate_pending_intent (\<lambda>_. True) tick_strftime1
      sample_t1 ?r tick_db1 = (Inr (IntentApplied e i), db')"
    using evaluation_total [OF inv chk] by blast
  moreover have "pi_intent_id i = ''d15c-intent-1''"
    using evaluation_decides [OF _ ev] inv by (simp add: autonomy_inv_def r)
  ultimately show ?thesis by blast
qed

lemma tick_run1:
  "\<exists>e i db'. run_autonomy_tick tick_env1 tick_request1 sample_db0
       = (Inr (TickApplied ''goal-1'' i (IntentApplied e i)), db')
     \<and> pi_intent_id i = ''d15c-intent-1''"
proof -
  obtain e i db' where ev: "evaluate_pending_intent (\<lambda>_. True) tick_strftime1 sample_t1
      (tick_evaluation_request (\<lambda>_. ''1'') tick_intent1) tick_db1 = (Inr (IntentApplied e i), db')"
    and id: "pi_intent_id i = ''d15c-intent-1''"
    using tick_evaluate1 by blast
  let ?env = tick_env1
  have un: "uninterrupted ?env" by (simp add: uninterrupted_def tick_env1_def)
  have env: "te_io ?env = (\<lambda>_ _. True)" "te_life_io ?env = (\<lambda>_. True)" "te_now ?env = (\<lambda>_. sample_t1)"
      "te_strftime ?env = tick_strftime1" "te_sha256 ?env = (\<lambda>_. ''1'')"
      "te_latest_episode ?env = Inr None"
    by (simp_all add: tick_env1_def)
  have req: "tk_life_id tick_request1 = ''life-a''" "tk_tick_id tick_request1 = ''tick-1''"
      "tk_focus_state tick_request1 = ''available''"
    by (simp_all add: tick_request1_def)
  have k: "deterministic_intent_id (\<lambda>_. ''1'') ''life-a'' ''tick-1'' = ''d15c-intent-1''"
    by (simp add: deterministic_intent_id_def INTENT_ID_PREFIX_def)
  have valid: "validate_tick_request tick_request1 = Inr ()"
    by (simp add: validate_tick_request_def validate_tick_identity_def req tick_strings1
        sample_strings autonomy_strings)
  have none: "find_intent (\<lambda>_. True) ''life-a'' ''d15c-intent-1'' sample_db0 = Inr None"
    by (simp add: find_intent_def autonomy_validate_lookup_arguments_def select_intent_def
        autonomy_validate_lookup_argument_def sample_strings tick_strings1 sample_db0_def)
  have policy: "autonomy_find_policy (\<lambda>_. True) ''life-a'' sample_db0 = Inr (Some sample_policy)"
      "ap_enabled sample_policy" "ap_max_ready_per_window sample_policy = 1"
    using sample_policy_ok
    by (simp_all add: autonomy_find_policy_def autonomy_validate_lookup_argument_def sample_strings
        select_autonomy_policy_def sample_db0_def sample_policy_def validator_simps)
  have goals: "autonomy_tick_active_goals (\<lambda>_. True) (\<lambda>_. True) ''life-a'' 8 sample_db0 = Inr [goal1]"
    by (simp add: autonomy_tick_active_goals_def list_active_goals_for_autonomy_tick_def
        validate_list_arguments_def life_validate_nonempty_def sample_strings sample_db0_def
        GOAL_STATUS_ACTIVE_def by_creation_def)
  have latest: "find_latest_intent_for_goal (\<lambda>_. True) ''life-a'' ''goal-1'' sample_db0 = Inr None"
    by (simp add: find_latest_intent_for_goal_def autonomy_validate_lookup_arguments_def
        autonomy_validate_lookup_argument_def sample_strings tick_strings1 sample_db0_def
        order_intents_def)
  have produce: "create_and_evaluate_fresh_intent ?env tick_request1
      \<lparr>ga_goal = goal1, ga_latest = None\<rparr> sample_t1 ''d15c-intent-1'' sample_db0
      = (Inr (TickApplied ''goal-1'' i (IntentApplied e i)), db')"
    by (simp add: create_and_evaluate_fresh_intent_def tick_step_Inr un tick_recent_interaction_def env
        tick_create1_def [symmetric] tick_create1_step evaluate_for_tick_Inr INTENT_STATUS_PENDING_def
        ev evaluation_outcome_Applied)
  have select: "select_candidate add sample_policy [\<lparr>ga_goal = goal1, ga_latest = None\<rparr>] now
      = Inr (Selected 0)" for add now
    by (simp add: select_candidate_def)
  have "run_autonomy_tick ?env tick_request1 sample_db0
      = (Inr (TickApplied ''goal-1'' i (IntentApplied e i)), db')"
    using produce
    by (simp add: run_autonomy_tick_def Let_def tick_step_Inr un env req k valid none policy goals
        MAX_GOALS_INSPECTED_PER_TICK_def latest tick_select_and_produce_def pending_candidate_def
        List.map_filter_simps autonomy_tick_now_def select)
  with id show ?thesis by blast
qed

lemma tick_env1_healthy: "tick_healthy tick_env1"
  by (simp add: tick_healthy_def uninterrupted_def tick_env1_def)

lemma trusted_tick_runs_once_witness:
  "\<exists>g e i db1. run_trusted_autonomy_tick tick_env1 tick_env1
        (Inr (FocusObserved FocusAvailable) :: unit + focus_observation)
        \<lparr>tt_tick_id = ''tick-1'', tt_life_id = ''life-a''\<rparr> sample_db0
       = (Inr (TickApplied g i (IntentApplied e i)), db1)
     \<and> run_trusted_autonomy_tick tick_env1 tick_env1 (Inl ())
        \<lparr>tt_tick_id = ''tick-1'', tt_life_id = ''life-a''\<rparr> db1
       = (Inr (TickReplayed (pi_goal_id i) i (IntentReplayed e i)), db1)"
proof -
  let ?r = "\<lparr>tt_tick_id = ''tick-1'', tt_life_id = ''life-a''\<rparr>"
  let ?see = "Inr (FocusObserved FocusAvailable) :: unit + focus_observation"
  obtain e i db1 where run: "run_autonomy_tick tick_env1 tick_request1 sample_db0
      = (Inr (TickApplied ''goal-1'' i (IntentApplied e i)), db1)"
    and id: "pi_intent_id i = ''d15c-intent-1''"
    using tick_run1 by blast
  have un: "uninterrupted tick_env1" using tick_env1_healthy by (simp add: tick_healthy_def)
  have k: "deterministic_intent_id (te_sha256 tick_env1) ''life-a'' ''tick-1'' = ''d15c-intent-1''"
    by (simp add: deterministic_intent_id_def INTENT_ID_PREFIX_def tick_env1_def)
  have "validate_tick_identity ''tick-1'' ''life-a'' = Inr ()"
    by (simp add: validate_tick_identity_def tick_strings1 sample_strings)
  moreover have "find_intent (te_io tick_env1 CallFindTickIntent) ''life-a'' ''d15c-intent-1'' sample_db0
      = Inr None"
    by (simp add: find_intent_def autonomy_validate_lookup_arguments_def select_intent_def
        autonomy_validate_lookup_argument_def sample_strings tick_strings1 sample_db0_def tick_env1_def)
  moreover have "autonomy_find_policy (te_io tick_env1 CallFindPolicy) ''life-a'' sample_db0
      = Inr (Some sample_policy)"
    using sample_policy_ok
    by (simp add: autonomy_find_policy_def autonomy_validate_lookup_argument_def sample_strings
        select_autonomy_policy_def sample_db0_def sample_policy_def validator_simps tick_env1_def)
  moreover have "trusted_focus ?see (Some sample_policy) = Inr ''available''"
    by (simp add: trusted_focus_def sample_policy_def map_focus_observation_def
        INTENT_FOCUS_STATE_AVAILABLE_def)
  ultimately have first: "run_trusted_autonomy_tick tick_env1 tick_env1 ?see ?r sample_db0
      = (Inr (TickApplied ''goal-1'' i (IntentApplied e i)), db1)"
    using run by (simp add: run_trusted_autonomy_tick_def run_d15_tick_def un k Let_def
        tick_request1_def)
  have "pi_intent_id i = deterministic_intent_id (te_sha256 tick_env1) (tt_life_id ?r) (tt_tick_id ?r)"
    using id k by simp
  from trusted_tick_runs_once [OF sample_run0 [symmetric] un un first this, of db1
      "\<lambda>_ _. None" "[]" tick_env1 tick_env1 "Inl ()"] tick_env1_healthy first
  show ?thesis by (auto simp: autonomy_run_def)
qed

lemma tick_refines_repositories_witness:
  "\<exists>own. ticks tick_env1 own sample_db0 (snd (run_autonomy_tick tick_env1 tick_request1 sample_db0))
     \<and> own \<noteq> [] \<and> length own \<le> 2"
proof -
  obtain own where own: "ticks tick_env1 own sample_db0
      (snd (run_autonomy_tick tick_env1 tick_request1 sample_db0))"
    "tick_script tick_env1 tick_request1 own (fst (run_autonomy_tick tick_env1 tick_request1 sample_db0))"
    using tick_refines_repositories [OF sample_run0 [symmetric], of tick_env1 tick_request1]
    by blast
  from own(2) tick_run1 have "own \<noteq> [] \<and> length own \<le> 2"
    by (auto simp: tick_script_def)
  with own(1) show ?thesis by blast
qed

lemma tick_outcome_well_formed_witness:
  "\<exists>i e. fst (run_autonomy_tick tick_env1 tick_request1 sample_db0)
       = Inr (TickApplied ''goal-1'' i (IntentApplied e i))
     \<and> decided_by e i \<and> ie_event_id e = ''d15c-eval-1'' \<and> pi_life_id i = ''life-a''"
proof -
  obtain e i where run: "fst (run_autonomy_tick tick_env1 tick_request1 sample_db0)
      = Inr (TickApplied ''goal-1'' i (IntentApplied e i))"
    and id: "pi_intent_id i = ''d15c-intent-1''"
    using tick_run1 by fastforce
  from tick_outcome_well_formed [OF sample_run0 [symmetric] run] id
  have "decided_by e i \<and> ie_event_id e = ''d15c-eval-1'' \<and> pi_life_id i = ''life-a''"
    by (auto simp: tick_outcome_ok_def deterministic_evaluation_event_id_def
        EVALUATION_EVENT_ID_PREFIX_def tick_env1_def tick_request1_def)
  with run show ?thesis by blast
qed

lemma tick_selects_first_witness:
  "select_candidate (\<lambda>b s. Inr (b @ ''+'')) sample_policy
     [\<lparr>ga_goal = goal1, ga_latest = Some sample_ready_intent\<rparr>, \<lparr>ga_goal = goal1, ga_latest = None\<rparr>]
     sample_t1 = Inr (Selected 1)"
proof -
  let ?cs = "[\<lparr>ga_goal = goal1, ga_latest = Some sample_ready_intent\<rparr>,
    \<lparr>ga_goal = goal1, ga_latest = None\<rparr>]"
  let ?add = "\<lambda>b s. b @ ''+''"
  have "proactive_intent_ok sample_ready_intent"
    by (simp add: sample_ready_intent_def intent_after_def proactive_intent_ok_def
        intent_evidence_ok_def intent_columns_ok_def sample_intent_def sample_strings signal_ok_def
        is_intent_status_def autonomy_strings sample_sql_strings sample_t1_def)
  moreover have ready: "pi_status sample_ready_intent = ''ready''" by (simp add: sample_ready_intent_def)
  ultimately have "settled_candidates ?cs" by (simp add: settled_candidates_def)
  note first = tick_selects_first [OF this, of ?add sample_policy sample_t1]
  have w: "waits ?add sample_policy sample_t1 (?cs ! 0) \<noteq> None"
      "waits ?add sample_policy sample_t1 (?cs ! 1) = None"
    by (simp_all add: waits_def ready)
  show ?thesis
  proof (cases "select_candidate (\<lambda>b s. Inr (?add b s)) sample_policy ?cs sample_t1")
    case (Inl e)
    with first show ?thesis by simp
  next
    case (Inr sel)
    show ?thesis
    proof (cases sel)
      case (Selected k)
      with Inr first have k: "k < 2" "waits ?add sample_policy sample_t1 (?cs ! k) = None" by simp_all
      with w(1) have "k \<noteq> 0" by metis
      with k(1) have "k = 1" by simp
      with Inr Selected show ?thesis by simp
    next
      case (SelectionWaiting g reason until)
      with Inr first w(2) show ?thesis by simp
    qed
  qed
qed

end
