(* ===== verification/Autonomy_Decisions.thy ===== *)
theory Autonomy_Decisions
  imports Autonomy_Ticks
begin

text \<open>
  What a decision and a deletion leave in the database of the autonomy repository. A decided intent
  stays decided by its event whatever runs, until its goal is deleted; the deletion of a goal takes
  exactly what hangs on the goal: plans, steps, actions and their events in the tables of
  \<^verbatim>\<open>storage/life_intents.rs\<close>, intents and their events in those of
  \<^verbatim>\<open>storage/autonomy.rs\<close>, which reference \<^verbatim>\<open>life_goal\<close> with
  \<^verbatim>\<open>ON DELETE CASCADE\<close> in migration 023.
\<close>

section \<open>A decided intent\<close>

text \<open>What an applied evaluation leaves: the decided intent, and the event of its request.\<close>

lemma evaluation_applied_rows:
  assumes inv: "autonomy_inv db"
    and ev: "evaluate_pending_intent io strftime now r db = (Inr (IntentApplied e i), db1)"
  shows "i \<in> set (intent_rows db1)" "e \<in> set (intent_event_rows db1)" "decided_by e i"
    "intent_event_ok e" "intent_evaluation_ok r" "autonomy_inv db1"
    "pi_intent_id i = iq_intent_id r" "pi_life_id i = iq_life_id r"
    "intent_event_evidence_matches e r (iq_expected_revision r + 1)"
proof -
  have t: "evaluate_pending_intent_in_transaction io strftime now r db
      = Inr (IntentApplied e i, db1)"
    using ev by (simp add: evaluate_pending_intent_def with_transaction_Inr)
  show "decided_by e i" "pi_intent_id i = iq_intent_id r" "pi_life_id i = iq_life_id r"
    using evaluation_decides [OF inv ev] by auto
  show "autonomy_inv db1" by (rule evaluate_step_inv [OF inv t])
  from t show "i \<in> set (intent_rows db1)" "e \<in> set (intent_event_rows db1)" "intent_event_ok e"
      "intent_evaluation_ok r" "intent_event_evidence_matches e r (iq_expected_revision r + 1)"
    by (cases rule: intent_evaluation_cases;
        auto simp: intent_evaluated_db_rows select_intent_def intent_event_evidence_matches_def
          intent_event_of_def autonomy_strings split_def dest!: find_Some_mem)+
qed

text \<open>Where the intent of a request is decided, the evaluation applies and changes nothing.\<close>

lemma decided_never_applied:
  assumes sel: "select_intent_by_id (iq_intent_id u) db = Some i" "pi_status i \<noteq> ''pending''"
  shows "\<nexists>e' i'. fst (evaluate_pending_intent io strftime now u db) = Inr (IntentApplied e' i')"
    and "snd (evaluate_pending_intent io strftime now u db) = db"
proof -
  have replay: "(\<exists>e' i'. out = IntentReplayed e' i') \<and> db' = db"
    if "evaluate_pending_intent_in_transaction io strftime now u db = Inr (out, db')" for out db'
    using that by (cases rule: intent_evaluation_cases) (use sel in auto)
  then show "\<nexists>e' i'. fst (evaluate_pending_intent io strftime now u db)
      = Inr (IntentApplied e' i')"
    by (fastforce simp: evaluate_pending_intent_def with_transaction_def
        split: sum.splits if_splits)
  show "snd (evaluate_pending_intent io strftime now u db) = db"
    unfolding evaluate_pending_intent_def
    by (rule with_transaction_inv [where P = "\<lambda>db'. db' = db"]) (auto dest: replay)
qed

text \<open>
  C8: an intent is decided once. After an evaluation of it was applied, and whatever operations of
  the repositories ran since, as long as no goal was deleted, the same request is answered with the
  recorded event and the decided intent and writes nothing, and no request for that intent, on any
  revision and under any event identity, is ever applied again or changes the database.
\<close>

theorem intent_decided_once:
  assumes db: "db = autonomy_run strftime ops (autonomy_db_new lives)"
    and first: "evaluate_pending_intent io strftime now r db = (Inr (IntentApplied e i), db1)"
    and since: "db2 = autonomy_run strftime' later db1" "\<forall>op \<in> set later. \<not> deletes_goal op"
    and same: "iq_intent_id u = iq_intent_id r"
  shows "evaluate_pending_intent (\<lambda>_. True) strftime' now' r db2 = (Inr (IntentReplayed e i), db2)
    \<and> (\<nexists>e' i'. fst (evaluate_pending_intent io' strftime' now' u db2) = Inr (IntentApplied e' i'))
    \<and> snd (evaluate_pending_intent io' strftime' now' u db2) = db2"
proof -
  have inv: "autonomy_inv db" unfolding db by (rule autonomy_run_inv [OF autonomy_db_new_inv])
  note rows = evaluation_applied_rows [OF inv first]
  have inv2: "autonomy_inv db2" unfolding since(1) by (rule autonomy_run_inv [OF rows(6)])
  then have dist: "distinct (map pi_intent_id (intent_rows db2))"
      "distinct (map ie_event_id (intent_event_rows db2))"
    by (simp_all add: autonomy_inv_def intent_inv_def)
  have kept: "i \<in> set (intent_rows db2)" "e \<in> set (intent_event_rows db2)"
    using intents_kept_run [OF since(2), of db1 strftime'] rows(1-3)
    by (auto simp: since(1) intents_kept_def decided_by_def)
  have sel: "select_intent_by_id (iq_intent_id r) db2 = Some i"
    using kept(1) rows(7) by (simp add: select_intent_by_id_iff [OF dist(1)])
  have decided: "pi_status i \<noteq> ''pending''" "proactive_intent_ok i"
    using rows(3) by (simp_all add: decided_by_def)
  have "select_intent (iq_life_id r) (iq_intent_id r) db2 = Some i"
    using select_intent_of_id [OF dist(1) sel] rows(8) by simp
  moreover have "select_intent_event (iq_event_id r) db2 = Some e"
    using kept(2) rows(9) find_key_SomeI [OF dist(2), of e]
    by (auto simp: select_intent_event_def intent_event_evidence_matches_def)
  moreover have "autonomy_next_revision (iq_expected_revision r) = Inr (iq_expected_revision r + 1)"
    using rows(5) by (simp add: autonomy_next_revision_ok intent_evaluation_ok_def)
  ultimately have "evaluate_pending_intent (\<lambda>_. True) strftime' now' r db2
      = (Inr (IntentReplayed e i), db2)"
    using rows(4,5,9) decided(2)
    by (simp add: evaluate_pending_intent_def with_transaction_def
        evaluate_pending_intent_in_transaction_def validator_simps)
  moreover note decided_never_applied [OF sel [folded same] decided(1)]
  ultimately show ?thesis by blast
qed

lemma intent_decided_once_witness:
  "\<exists>db1 db2. evaluate_pending_intent (\<lambda>_. True) sample_strftime sample_t1 sample_evaluation
        sample_autonomy_db = (Inr (IntentApplied sample_ready_event sample_ready_intent), db1)
     \<and> db2 = autonomy_run sample_strftime
         [OpEvaluate (\<lambda>_. True) sample_t1 (sample_evaluation\<lparr>iq_event_id := ''eval-2''\<rparr>)] db1
     \<and> evaluate_pending_intent (\<lambda>_. True) sample_strftime sample_t1 sample_evaluation db2
         = (Inr (IntentReplayed sample_ready_event sample_ready_intent), db2)
     \<and> snd (evaluate_pending_intent (\<lambda>_. True) sample_strftime sample_t1
           (sample_evaluation\<lparr>iq_event_id := ''eval-3'', iq_expected_revision := 2\<rparr>) db2) = db2"
proof -
  let ?later = "[OpEvaluate (\<lambda>_. True) sample_t1 (sample_evaluation\<lparr>iq_event_id := ''eval-2''\<rparr>)]"
  have "\<forall>op \<in> set ?later. \<not> deletes_goal op" by simp
  note once = intent_decided_once [OF sample_run [symmetric] sample_evaluate refl this,
      where u = "sample_evaluation\<lparr>iq_event_id := ''eval-3'', iq_expected_revision := 2\<rparr>"]
  show ?thesis using sample_evaluate once by auto
qed

section \<open>Every intent has its goal\<close>

definition intents_have_goals :: "'a autonomy_db_scheme \<Rightarrow> bool" where
  "intents_have_goals db \<longleftrightarrow>
     (\<forall>i \<in> set (intent_rows db). (pi_goal_id i, pi_life_id i) \<in> life_keys (goal_rows db))"

lemma intents_have_goals_step:
  assumes inv: "intents_have_goals db"
  shows "intents_have_goals (autonomy_op_step strftime op db)"
proof (cases op)
  case (OpCreatePolicy io now r)
  show ?thesis
    unfolding OpCreatePolicy autonomy_op_step.simps autonomy_create_policy_def
    by (rule with_transaction_inv [where P = intents_have_goals, OF inv])
      (use inv in \<open>auto dest!: autonomy_create_Inr simp: autonomy_policy_insert_Inr
        intents_have_goals_def\<close>)
next
  case (OpUpdatePolicy io now r)
  show ?thesis
    unfolding OpUpdatePolicy autonomy_op_step.simps autonomy_update_policy_def
    by (rule with_transaction_inv [where P = intents_have_goals, OF inv], erule autonomy_update_cases)
      (use inv in \<open>simp_all add: intents_have_goals_def autonomy_updated_db_def Let_def\<close>)
next
  case (OpCreateIntent io now r)
  show ?thesis
    unfolding OpCreateIntent autonomy_op_step.simps create_pending_goal_check_in_intent_def
    by (rule with_transaction_inv [where P = intents_have_goals, OF inv])
      (use inv in \<open>auto dest!: create_pending_intent_Inr simp: intent_insert_Inr
        intents_have_goals_def\<close>)
next
  case (OpEvaluate io now r)
  have "intents_have_goals (intent_evaluated_db now cols q db)" for now cols q
    using inv by (auto simp: intents_have_goals_def intent_evaluated_db_def Let_def
        intent_after_def split_def)
  then show ?thesis
    unfolding OpEvaluate autonomy_op_step.simps evaluate_pending_intent_def
    by (intro with_transaction_inv [where P = intents_have_goals, OF inv])
      (erule intent_evaluation_cases; simp add: inv)
next
  case (OpLifeIntent lop)
  then show ?thesis
    using inv by (auto simp: intents_have_goals_def life_intent_step_cascading_def
        cascade_intents_def Let_def)
qed

text \<open>The tables of the life-intent repository change only by its own operations.\<close>

lemma life_intent_inv_cong:
  assumes "life_intent_db.truncate db' = life_intent_db.truncate db"
  shows "life_intent_inv db' = life_intent_inv db"
proof -
  have same: "goal_rows db' = goal_rows db" "plan_rows db' = plan_rows db"
      "step_rows db' = step_rows db" "action_rows db' = action_rows db"
      "life_event_rows db' = life_event_rows db" "life_identity db' = life_identity db"
    using assms by (simp_all add: life_intent_db.defs)
  show ?thesis
    by (simp add: life_projects_def life_history_def life_intent_inv_def table_inv_def goal_table_def plan_table_def step_table_def
        action_table_def life_events_inv_def event_fks_def ordinals_distinct_def same)
qed

lemma truncate_autonomy_updates:
  "life_intent_db.truncate (db\<lparr>autonomy_policy_rows := a\<rparr>) = life_intent_db.truncate db"
  "life_intent_db.truncate (db\<lparr>autonomy_policy_event_rows := b\<rparr>) = life_intent_db.truncate db"
  "life_intent_db.truncate (db\<lparr>intent_rows := c\<rparr>) = life_intent_db.truncate db"
  "life_intent_db.truncate (db\<lparr>intent_event_rows := d\<rparr>) = life_intent_db.truncate db"
  by (simp_all add: life_intent_db.defs)

lemma life_tables_step:
  assumes "life_intent_inv db"
  shows "life_intent_inv (autonomy_op_step strftime op db)"
proof -
  let ?same = "\<lambda>db'. life_intent_db.truncate db' = life_intent_db.truncate db"
  have refl: "?same db" by simp
  show ?thesis
  proof (cases op)
    case (OpCreatePolicy io now r)
    have "?same (autonomy_op_step strftime op db)"
      unfolding OpCreatePolicy autonomy_op_step.simps autonomy_create_policy_def
      by (rule with_transaction_inv [where P = ?same, OF refl])
        (auto dest!: autonomy_create_Inr simp: autonomy_policy_insert_Inr truncate_autonomy_updates)
    from life_intent_inv_cong [OF this] assms show ?thesis by simp
  next
    case (OpUpdatePolicy io now r)
    have "?same (autonomy_op_step strftime op db)"
      unfolding OpUpdatePolicy autonomy_op_step.simps autonomy_update_policy_def
      by (rule with_transaction_inv [where P = ?same, OF refl], erule autonomy_update_cases)
        (simp_all add: autonomy_updated_db_def Let_def truncate_autonomy_updates)
    from life_intent_inv_cong [OF this] assms show ?thesis by simp
  next
    case (OpCreateIntent io now r)
    have "?same (autonomy_op_step strftime op db)"
      unfolding OpCreateIntent autonomy_op_step.simps create_pending_goal_check_in_intent_def
      by (rule with_transaction_inv [where P = ?same, OF refl])
        (auto dest!: create_pending_intent_Inr simp: intent_insert_Inr truncate_autonomy_updates)
    from life_intent_inv_cong [OF this] assms show ?thesis by simp
  next
    case (OpEvaluate io now r)
    have "?same (autonomy_op_step strftime op db)"
      unfolding OpEvaluate autonomy_op_step.simps evaluate_pending_intent_def
      by (rule with_transaction_inv [where P = ?same, OF refl], erule intent_evaluation_cases)
        (simp_all add: intent_evaluated_db_def Let_def truncate_autonomy_updates)
    from life_intent_inv_cong [OF this] assms show ?thesis by simp
  next
    case (OpLifeIntent lop)
    have "life_intent_inv (life_intent_op_step lop db)" by (rule life_intent_op_step_inv [OF assms])
    then show ?thesis
      by (simp add: OpLifeIntent life_intent_step_cascading_def Let_def
          life_intent_inv_cong [OF cascade_intents_simps(3)])
  qed
qed

lemma goals_run:
  assumes "life_intent_inv db" and "intents_have_goals db"
  shows "life_intent_inv (autonomy_run strftime ops db)
    \<and> intents_have_goals (autonomy_run strftime ops db)"
  using assms unfolding autonomy_run_def
  by (induction ops arbitrary: db) (simp_all add: life_tables_step intents_have_goals_step)

lemma goals_new: "life_intent_inv (autonomy_db_new lives)" "intents_have_goals (autonomy_db_new lives)"
proof -
  have "life_intent_db.truncate (autonomy_db_new lives) = life_intent_db.truncate (life_intent_db_new lives)"
    by (simp add: autonomy_db_new_def life_intent_db_new_def life_intent_db.defs)
  from life_intent_inv_cong [OF this] show "life_intent_inv (autonomy_db_new lives)"
    using life_intent_db_new_inv [of lives] by simp
  show "intents_have_goals (autonomy_db_new lives)"
    by (simp add: intents_have_goals_def autonomy_db_new_def)
qed

section \<open>Deleting a goal\<close>

text \<open>
  What is left of the database without a goal: the life tables without what hangs on it, the other
  intents, and the events of these.
\<close>

definition intent_under :: "string \<Rightarrow> string \<Rightarrow> proactive_intent \<Rightarrow> bool" where
  "intent_under life goal i \<longleftrightarrow> pi_goal_id i = goal \<and> pi_life_id i = life"

definition names_intent :: "'a autonomy_db_scheme \<Rightarrow> intent_event \<Rightarrow> bool" where
  "names_intent db e \<longleftrightarrow> (\<exists>i \<in> set (intent_rows db). pi_intent_id i = ie_intent_id e)"

definition without_goal_and_intents ::
    "string \<Rightarrow> string \<Rightarrow> 'a autonomy_db_scheme \<Rightarrow> 'a autonomy_db_scheme" where
  "without_goal_and_intents life goal db =
     (let db1 = (without_goal life goal db)
            \<lparr>intent_rows := filter (\<lambda>i. \<not> intent_under life goal i) (intent_rows db)\<rparr>
      in db1\<lparr>intent_event_rows := filter (names_intent db1) (intent_event_rows db)\<rparr>)"

lemma without_goal_intents [simp]:
  "intent_rows (without_goal life goal db) = intent_rows db"
  "intent_event_rows (without_goal life goal db) = intent_event_rows db"
  "goal_rows (without_goal life goal db)
     = filter (\<lambda>g. \<not> (le_id g = goal \<and> le_life_id g = life)) (goal_rows db)"
  by (simp_all add: without_goal_def Let_def)

text \<open>The identity of the goal goes, if it was there.\<close>

lemma goal_keys_gone:
  "life_keys rows - life_keys (filter (\<lambda>g. \<not> (le_id g = goal \<and> le_life_id g = life)) rows)
    = {(goal, life)} \<inter> life_keys rows"
  by (force simp: life_keys_def life_key_def)

lemma intent_cascade_rows:
  assumes inv: "intent_inv db"
    and gone: "\<And>i. i \<in> set (intent_rows db) \<Longrightarrow>
      (pi_goal_id i, pi_life_id i) \<in> K \<longleftrightarrow> intent_under life goal i"
  shows "cascade_intents K db = (let db1 = db
        \<lparr>intent_rows := filter (\<lambda>i. \<not> intent_under life goal i) (intent_rows db)\<rparr>
      in db1\<lparr>intent_event_rows := filter (names_intent db1) (intent_event_rows db)\<rparr>)"
proof -
  let ?db1 = "db\<lparr>intent_rows := filter (\<lambda>i. \<not> intent_under life goal i) (intent_rows db)\<rparr>"
  let ?gone = "set (map (\<lambda>i. (pi_intent_id i, pi_life_id i))
    (filter (\<lambda>i. (pi_goal_id i, pi_life_id i) \<in> K) (intent_rows db)))"
  have rows: "filter (\<lambda>i. (pi_goal_id i, pi_life_id i) \<notin> K) (intent_rows db)
      = filter (\<lambda>i. \<not> intent_under life goal i) (intent_rows db)"
    by (rule filter_cong) (simp_all add: gone)
  have "(ie_intent_id e, ie_life_id e) \<notin> ?gone \<longleftrightarrow> names_intent ?db1 e"
    if e: "e \<in> set (intent_event_rows db)" for e
  proof -
    from inv e obtain i where i: "i \<in> set (intent_rows db)" "pi_intent_id i = ie_intent_id e"
      by (auto simp: intent_inv_def)
    have only: "j = i" if "j \<in> set (intent_rows db)" "pi_intent_id j = ie_intent_id e" for j
      using inv i that by (auto simp: intent_inv_def distinct_map inj_on_def)
    have "e \<in> set (intent_history (pi_intent_id i) db)" using e i by (simp add: intent_history_def)
    moreover have "intent_projects (intent_history (pi_intent_id i) db) i"
      using inv i(1) by (simp add: intent_inv_def)
    ultimately have "ie_life_id e = pi_life_id i" by (auto simp: intent_projects_def)
    moreover have "(ie_intent_id e, ie_life_id e) \<in> ?gone \<longleftrightarrow>
        (\<exists>j \<in> set (intent_rows db). (pi_goal_id j, pi_life_id j) \<in> K
           \<and> pi_intent_id j = ie_intent_id e \<and> pi_life_id j = ie_life_id e)"
      unfolding set_map image_iff by auto
    moreover have "\<dots> \<longleftrightarrow> (pi_goal_id i, pi_life_id i) \<in> K \<and> pi_life_id i = ie_life_id e"
      using i only by blast
    ultimately have "(ie_intent_id e, ie_life_id e) \<in> ?gone \<longleftrightarrow> intent_under life goal i"
      using gone [OF i(1)] by simp
    moreover have "names_intent ?db1 e \<longleftrightarrow> (\<exists>j \<in> set (intent_rows db).
        \<not> intent_under life goal j \<and> pi_intent_id j = ie_intent_id e)"
      by (auto simp: names_intent_def)
    moreover have "\<dots> \<longleftrightarrow> \<not> intent_under life goal i"
      using i only by blast
    ultimately show ?thesis by blast
  qed
  then have "filter (\<lambda>e. (ie_intent_id e, ie_life_id e) \<notin> ?gone) (intent_event_rows db)
      = filter (names_intent ?db1) (intent_event_rows db)"
    by (intro filter_cong refl) blast
  with rows show ?thesis by (simp add: cascade_intents_def Let_def)
qed

text \<open>
  C14: deleting a goal takes exactly what hangs on it. In every database the operations of both
  repositories reach, the deletion reports whether the life has such a goal, and leaves the goals,
  plans, steps, actions and intents that are neither that goal, nor a plan of it, nor a step of such
  a plan, nor an action of such a step, nor an intent for that goal, together with exactly those
  events of both ledgers whose entity or intent is still there.
\<close>

theorem delete_goal_takes_descendants:
  assumes db: "db = autonomy_run strftime ops (autonomy_db_new lives)"
    and args: "\<not> str_blank life" "\<not> str_blank goal" "io LisLock" "io LisDelete"
  shows "delete_goal_with_intents io life goal db
    = (Inr (\<exists>g \<in> set (goal_rows db). le_id g = goal \<and> le_life_id g = life),
       without_goal_and_intents life goal db)"
proof -
  have inv: "life_intent_inv db" "intents_have_goals db" and "autonomy_inv db"
    unfolding db using goals_run [OF goals_new] autonomy_run_inv [OF autonomy_db_new_inv] by blast+
  then have int: "intent_inv db" by (simp add: autonomy_inv_def)
  let ?db1 = "without_goal life goal db"
  let ?K = "life_keys (goal_rows db) - life_keys (goal_rows ?db1)"
  have K: "?K = {(goal, life)} \<inter> life_keys (goal_rows db)"
    by (simp only: without_goal_intents goal_keys_gone)
  have del: "delete_goal io life goal db
      = (Inr (\<exists>g \<in> set (goal_rows db). le_id g = goal \<and> le_life_id g = life), ?db1)"
    using args by (simp add: delete_goal_def life_delete_def li_validate_lookup_arguments_def
        cascade_goals_descendants [OF inv(1)] filter_empty_conv)
  have "intent_inv ?db1 = intent_inv db" by (rule intent_inv_cong) simp_all
  with int have "intent_inv ?db1" by simp
  moreover have "(pi_goal_id i, pi_life_id i) \<in> ?K \<longleftrightarrow> intent_under life goal i"
    if "i \<in> set (intent_rows ?db1)" for i
    using inv(2) that unfolding K by (auto simp: intents_have_goals_def intent_under_def)
  ultimately have "cascade_intents ?K ?db1 = without_goal_and_intents life goal db"
    unfolding without_goal_and_intents_def
    using intent_cascade_rows [of ?db1 ?K life goal] by (simp add: names_intent_def)
  with del show ?thesis by (simp add: delete_goal_with_intents_def)
qed

lemma delete_goal_takes_descendants_witness:
  "delete_goal_with_intents (\<lambda>_. True) ''life-a'' ''goal-1'' sample_autonomy_db
     = (Inr True, sample_autonomy_db\<lparr>goal_rows := [], intent_rows := []\<rparr>)"
proof -
  have blank: "\<not> str_blank ''life-a''" "\<not> str_blank ''goal-1''" by code_simp+
  have "without_goal_and_intents ''life-a'' ''goal-1'' sample_autonomy_db
      = sample_autonomy_db\<lparr>goal_rows := [], intent_rows := []\<rparr>"
    by (simp add: without_goal_and_intents_def without_goal_def sample_autonomy_db_def
        intent_under_def sample_intent_def goal1_def goal_of_create_def goal_request1_def)
  moreover have "\<exists>g \<in> set (goal_rows sample_autonomy_db).
      le_id g = ''goal-1'' \<and> le_life_id g = ''life-a''"
    by (simp add: sample_autonomy_db_def goal1_def goal_of_create_def goal_request1_def)
  ultimately show ?thesis
    using delete_goal_takes_descendants [OF sample_run [symmetric] blank, of "\<lambda>_. True"] by simp
qed

end
