(* ===== verification/Vector_Sync_Domain.thy ===== *)
theory Vector_Sync_Domain
  imports Sql_Table
begin

text \<open>
  The pure part of \<open>src-tauri/src/storage/vector_sync_outbox.rs\<close>: the canonical UTC timestamps, the
  rows of the outbox, the two classifications every operation consults, the evidence of an unknown
  external outcome, and the claims and tokens the storage hands out.

  A column whose \<open>CHECK\<close> lists its values is a datatype here. A timestamp is the string SQLite's
  \<open>strftime\<close> returned.
\<close>

section \<open>Text order and canonical timestamps\<close>

text \<open>SQLite compares texts (and Rust compares \<open>&str\<close>) byte by byte.\<close>

fun text_less :: "string \<Rightarrow> string \<Rightarrow> bool" where
  "text_less _ [] = False"
| "text_less [] (y # ys) = True"
| "text_less (x # xs) (y # ys) =
     ((of_char x :: nat) < of_char y \<or> x = y \<and> text_less xs ys)"

definition text_le :: "string \<Rightarrow> string \<Rightarrow> bool" where
  "text_le a b \<longleftrightarrow> \<not> text_less b a"

definition u32_max :: nat where "u32_max = 4294967295"

definition checked_u32 :: "nat \<Rightarrow> nat option" where
  "checked_u32 n = (if n \<le> u32_max then Some n else None)"

text \<open>\<open>decimal\<close>: the loop of \<open>try_fold\<close>, with its checked multiplication and addition.\<close>

fun decimal_from :: "nat \<Rightarrow> string \<Rightarrow> nat option" where
  "decimal_from v [] = Some v"
| "decimal_from v (c # cs) =
     (if \<not> is_ascii_digit c then None
      else case checked_u32 (v * 10) of
             None \<Rightarrow> None
           | Some w \<Rightarrow>
               (case checked_u32 (w + (of_char c - 48)) of
                  None \<Rightarrow> None
                | Some w' \<Rightarrow> decimal_from w' cs))"

definition decimal :: "string \<Rightarrow> nat option" where
  "decimal s = decimal_from 0 s"

definition is_leap :: "nat \<Rightarrow> bool" where
  "is_leap year \<longleftrightarrow> year mod 400 = 0 \<or> year mod 4 = 0 \<and> year mod 100 \<noteq> 0"

definition days_in_month :: "nat \<Rightarrow> nat \<Rightarrow> nat" where
  "days_in_month year month =
     (if month \<in> {1, 3, 5, 7, 8, 10, 12} then 31
      else if month \<in> {4, 6, 9, 11} then 30
      else if month = 2 then (if is_leap year then 29 else 28)
      else 0)"

definition byte_slice :: "nat \<Rightarrow> nat \<Rightarrow> string \<Rightarrow> string" where
  "byte_slice i j s = take (j - i) (drop i s)"

definition is_valid_utc_millis_timestamp :: "string \<Rightarrow> bool" where
  "is_valid_utc_millis_timestamp s \<longleftrightarrow>
     (if length s \<noteq> 24 \<or> s ! 4 \<noteq> CHR ''-'' \<or> s ! 7 \<noteq> CHR ''-'' \<or> s ! 10 \<noteq> CHR ''T''
         \<or> s ! 13 \<noteq> CHR '':'' \<or> s ! 16 \<noteq> CHR '':'' \<or> s ! 19 \<noteq> CHR ''.'' \<or> s ! 23 \<noteq> CHR ''Z''
      then False
      else case decimal (byte_slice 0 4 s) of None \<Rightarrow> False | Some year \<Rightarrow>
        (case decimal (byte_slice 5 7 s) of None \<Rightarrow> False | Some month \<Rightarrow>
        (case decimal (byte_slice 8 10 s) of None \<Rightarrow> False | Some day \<Rightarrow>
        (case decimal (byte_slice 11 13 s) of None \<Rightarrow> False | Some hour \<Rightarrow>
        (case decimal (byte_slice 14 16 s) of None \<Rightarrow> False | Some minute \<Rightarrow>
        (case decimal (byte_slice 17 19 s) of None \<Rightarrow> False | Some second \<Rightarrow>
           decimal (byte_slice 20 23 s) \<noteq> None
           \<and> 1 \<le> month \<and> month \<le> 12 \<and> 1 \<le> day \<and> day \<le> days_in_month year month
           \<and> hour \<le> 23 \<and> minute \<le> 59 \<and> second \<le> 59))))))"

text \<open>\<open>lease_is_current_at\<close>.\<close>

definition lease_is_current_at :: "string option \<Rightarrow> string \<Rightarrow> bool" where
  "lease_is_current_at expires_at now \<longleftrightarrow>
     is_valid_utc_millis_timestamp now
     \<and> (case expires_at of
          None \<Rightarrow> False
        | Some v \<Rightarrow> is_valid_utc_millis_timestamp v \<and> text_less now v)"

section \<open>Actions, states and rows\<close>

datatype sync_action = Upsert | Delete

datatype sync_state = Pending | Processing | RetryWait | Blocked | Failed

record outbox_row =
  ob_id :: int
  ob_life_id :: string
  ob_memory_id :: string
  ob_action :: sync_action
  ob_state :: sync_state
  ob_attempt_count :: int
  ob_next_attempt_at :: "string option"
  ob_lease_owner :: "string option"
  ob_lease_expires_at :: "string option"
  ob_last_error_code :: "string option"
  ob_created_at :: string
  ob_updated_at :: string
  ob_mutation_sequence :: int
  ob_target_revision :: "int option"
  ob_target_content_hash :: "string option"
  ob_claimed_generation_id :: "string option"
  ob_lease_fence_epoch :: "int option"
  ob_last_send_disposition :: "string option"
  ob_migration_disposition :: "string option"
  ob_fenced_claim_epoch :: int
  ob_last_marked_claim_epoch :: int
  ob_claimed_authority_epoch :: "int option"
  ob_delete_witness_at :: "string option"

definition MAX_VECTOR_SYNC_ATTEMPTS :: int where "MAX_VECTOR_SYNC_ATTEMPTS = 5"

abbreviation POSSIBLY_SENT :: string where "POSSIBLY_SENT \<equiv> ''possibly_sent''"
abbreviation DEFINITELY_NOT_SENT :: string where "DEFINITELY_NOT_SENT \<equiv> ''definitely_not_sent''"
abbreviation PROVIDER_RESULT_UNKNOWN :: string where
  "PROVIDER_RESULT_UNKNOWN \<equiv> ''PROVIDER_RESULT_UNKNOWN''"
abbreviation INTERNAL_INVARIANT :: string where "INTERNAL_INVARIANT \<equiv> ''INTERNAL_INVARIANT''"

definition PERMANENT_ERROR_CODES :: "string list" where
  "PERMANENT_ERROR_CODES =
     [''PROVIDER_RESULT_UNKNOWN'', ''AUTHENTICATION_FAILED'', ''INVALID_REQUEST'',
      ''INVALID_PROVIDER_RESPONSE'', ''EMBEDDING_DIMENSION_MISMATCH'',
      ''EMBEDDING_INVALID_VECTOR'', ''LANCE_PERMANENT'', ''INTERNAL_INVARIANT'',
      ''MAX_ATTEMPTS'', ''VECTOR_TARGET_BINDING_MISSING'']"

section \<open>Classifications\<close>

datatype generation_binding_phase = Unbound | Ephemeral | Durable | MissingAfterAttempt | InvalidBinding

definition ob_phase :: "outbox_row \<Rightarrow> generation_binding_phase" where
  "ob_phase r =
     (let has_valid_generation =
            (case ob_claimed_generation_id r of None \<Rightarrow> False | Some g \<Rightarrow> g \<noteq> []);
          paired_generation =
            (has_valid_generation
             \<and> (case ob_claimed_authority_epoch r of None \<Rightarrow> True | Some e \<Rightarrow> e \<ge> 1))
      in if ob_attempt_count r > 0 then
           (if paired_generation then Durable
            else if ob_claimed_generation_id r = None then MissingAfterAttempt
            else InvalidBinding)
         else if ob_attempt_count r \<noteq> 0 then InvalidBinding
         else
           (let has_no_lease = (ob_lease_owner r = None \<and> ob_lease_fence_epoch r = None
                                \<and> ob_lease_expires_at r = None)
            in if ob_claimed_generation_id r = None \<and> ob_claimed_authority_epoch r = None then
                 (if has_no_lease \<and> ob_state r \<in> {Pending, RetryWait, Blocked, Failed} then Unbound
                  else InvalidBinding)
               else if ob_state r = Processing \<and> paired_generation
                       \<and> (case ob_lease_owner r of None \<Rightarrow> False | Some w \<Rightarrow> \<not> str_blank w)
                       \<and> (case ob_lease_fence_epoch r of None \<Rightarrow> False | Some f \<Rightarrow> f > 0)
                       \<and> (case ob_lease_expires_at r of
                            None \<Rightarrow> False | Some t \<Rightarrow> is_valid_utc_millis_timestamp t)
               then Ephemeral
               else InvalidBinding))"

datatype attempt_identity_phase = ClaimUnmarked | ClaimMarked | NeverClaimed | InvalidIdentity

definition attempt_identity_phase :: "int \<Rightarrow> int \<Rightarrow> int \<Rightarrow> attempt_identity_phase" where
  "attempt_identity_phase attempt_count fenced_claim_epoch last_marked_claim_epoch =
     (if attempt_count < 0 \<or> fenced_claim_epoch < 0 \<or> last_marked_claim_epoch < 0
      then InvalidIdentity
      else if last_marked_claim_epoch > fenced_claim_epoch then InvalidIdentity
      else if last_marked_claim_epoch > 0 \<and> attempt_count \<le> 0 then InvalidIdentity
      else if attempt_count > MAX_VECTOR_SYNC_ATTEMPTS then InvalidIdentity
      else if fenced_claim_epoch = 0 then NeverClaimed
      else if last_marked_claim_epoch = fenced_claim_epoch then ClaimMarked
      else ClaimUnmarked)"

definition ob_identity_phase :: "outbox_row \<Rightarrow> attempt_identity_phase" where
  "ob_identity_phase r =
     attempt_identity_phase (ob_attempt_count r) (ob_fenced_claim_epoch r)
       (ob_last_marked_claim_epoch r)"

definition has_unknown_external_send_evidence :: "string option \<Rightarrow> string option \<Rightarrow> bool" where
  "has_unknown_external_send_evidence last_send_disposition last_error_code \<longleftrightarrow>
     last_send_disposition = Some POSSIBLY_SENT
     \<or> last_error_code = Some PROVIDER_RESULT_UNKNOWN"

definition is_unknown_upsert_send :: "outbox_row \<Rightarrow> bool" where
  "is_unknown_upsert_send r \<longleftrightarrow>
     ob_action r = Upsert
     \<and> has_unknown_external_send_evidence (ob_last_send_disposition r) (ob_last_error_code r)"

definition is_delete_unknown_evidence ::
    "sync_action \<Rightarrow> string option \<Rightarrow> string option \<Rightarrow> bool" where
  "is_delete_unknown_evidence desired_action last_send_disposition last_error_code \<longleftrightarrow>
     desired_action = Delete
     \<and> (last_send_disposition = Some POSSIBLY_SENT
        \<or> last_error_code = Some PROVIDER_RESULT_UNKNOWN)"

definition is_delete_unknown_row :: "outbox_row \<Rightarrow> bool" where
  "is_delete_unknown_row r \<longleftrightarrow>
     is_delete_unknown_evidence (ob_action r) (ob_last_send_disposition r) (ob_last_error_code r)"

definition exhausted_attempt_budget_error_code :: "outbox_row \<Rightarrow> string" where
  "exhausted_attempt_budget_error_code r =
     (if is_unknown_upsert_send r \<or> is_delete_unknown_row r then PROVIDER_RESULT_UNKNOWN
      else case ob_last_error_code r of
             Some existing \<Rightarrow>
               (if existing \<in> set PERMANENT_ERROR_CODES then existing else ''MAX_ATTEMPTS'')
           | None \<Rightarrow> ''MAX_ATTEMPTS'')"

definition safe_error_code :: "string \<Rightarrow> string" where
  "safe_error_code v =
     take 64 (filter (\<lambda>c. is_ascii_uppercase c \<or> is_ascii_digit c \<or> c = CHR ''_'') v)"

section \<open>Claims and tokens\<close>

record fenced_claim =
  fc_id :: int
  fc_life_id :: string
  fc_memory_id :: string
  fc_action :: sync_action
  fc_mutation_sequence :: int
  fc_target_revision :: "int option"
  fc_target_content_hash :: "string option"
  fc_generation_id :: string
  fc_authority_epoch :: "int option"
  fc_descriptor_hash :: string
  fc_dimension :: nat
  fc_lease_owner :: string
  fc_fence_epoch :: int
  fc_claim_epoch :: int

text \<open>A token is a claim together with the ordinal of the slot reserved under it.\<close>

record attempt_token =
  at_claim :: fenced_claim
  at_ordinal :: int

definition fenced_attempt_token :: "fenced_claim \<Rightarrow> int \<Rightarrow> attempt_token" where
  "fenced_attempt_token claim ordinal = \<lparr>at_claim = claim, at_ordinal = ordinal\<rparr>"

definition claim_projection :: "attempt_token \<Rightarrow> fenced_claim" where
  "claim_projection t = at_claim t"

text \<open>\<open>usize as i64\<close>.\<close>

definition usize_as_i64 :: "nat \<Rightarrow> int" where
  "usize_as_i64 n = (int n + 9223372036854775808) mod 18446744073709551616 - 9223372036854775808"

datatype attempt_reservation = Reserved attempt_token | ReservationLost | BudgetExhausted
datatype witness_result = WitnessMarked | WitnessLost
datatype finalize_result = FinalizeApplied | FinalizeLost
datatype failure_decision = RetryAfter nat | DecideBlocked
datatype failure_result = RetryScheduled int | FailureBlocked | FailureLost
datatype invariant_block_outcome = BlockApplied | NotInvariant | BlockSuperseded

datatype sync_error =
    VectorSyncUnavailable
  | LateDeleteInvariantViolation
  | OutboxUnavailable
  | SyncJobNotFound
  | SyncJobLeaseConflict
  | SyncJobLifeMismatch

section \<open>The classifications read only what they name\<close>

lemma ob_phase_attempted:
  "ob_attempt_count r > 0 \<Longrightarrow> ob_phase r \<in> {Durable, MissingAfterAttempt, InvalidBinding}"
  by (simp add: ob_phase_def Let_def)

lemma ob_phase_Unbound_iff:
  "ob_phase r = Unbound \<longleftrightarrow>
     ob_attempt_count r = 0 \<and> ob_claimed_generation_id r = None \<and> ob_claimed_authority_epoch r = None
     \<and> ob_lease_owner r = None \<and> ob_lease_fence_epoch r = None \<and> ob_lease_expires_at r = None
     \<and> ob_state r \<noteq> Processing"
  by (cases "ob_state r") (auto simp: ob_phase_def Let_def)

lemma case_option_some_iff:
  "(case x of None \<Rightarrow> False | Some v \<Rightarrow> P v) \<longleftrightarrow> (\<exists>v. x = Some v \<and> P v)"
  by (cases x) simp_all

lemma case_option_all_iff:
  "(case x of None \<Rightarrow> True | Some v \<Rightarrow> P v) \<longleftrightarrow> (\<forall>v. x = Some v \<longrightarrow> P v)"
  by (cases x) simp_all

lemma ob_phase_Durable_iff:
  "ob_phase r = Durable \<longleftrightarrow>
     ob_attempt_count r > 0
     \<and> (\<exists>g. ob_claimed_generation_id r = Some g \<and> g \<noteq> [])
     \<and> (\<forall>e. ob_claimed_authority_epoch r = Some e \<longrightarrow> e \<ge> 1)"
  unfolding ob_phase_def Let_def case_option_some_iff case_option_all_iff by simp

lemma ob_phase_Ephemeral_iff:
  "ob_phase r = Ephemeral \<longleftrightarrow>
     ob_attempt_count r = 0 \<and> ob_state r = Processing
     \<and> (\<exists>g. ob_claimed_generation_id r = Some g \<and> g \<noteq> [])
     \<and> (\<forall>e. ob_claimed_authority_epoch r = Some e \<longrightarrow> e \<ge> 1)
     \<and> (\<exists>w. ob_lease_owner r = Some w \<and> \<not> str_blank w)
     \<and> (\<exists>f. ob_lease_fence_epoch r = Some f \<and> f > 0)
     \<and> (\<exists>t. ob_lease_expires_at r = Some t \<and> is_valid_utc_millis_timestamp t)"
  unfolding ob_phase_def Let_def case_option_some_iff case_option_all_iff
  by (cases "ob_claimed_generation_id r"; cases "ob_attempt_count r = 0") simp_all

lemma identity_ClaimMarked_iff:
  "attempt_identity_phase n e m = ClaimMarked \<longleftrightarrow>
     0 < n \<and> n \<le> MAX_VECTOR_SYNC_ATTEMPTS \<and> 0 < e \<and> m = e"
  by (auto simp: attempt_identity_phase_def)

lemma identity_ClaimUnmarked_iff:
  "attempt_identity_phase n e m = ClaimUnmarked \<longleftrightarrow>
     0 \<le> n \<and> n \<le> MAX_VECTOR_SYNC_ATTEMPTS \<and> 0 \<le> m \<and> m < e \<and> (m > 0 \<longrightarrow> n > 0)"
  by (auto simp: attempt_identity_phase_def)

lemma unknown_evidence_by_action:
  "has_unknown_external_send_evidence (ob_last_send_disposition r) (ob_last_error_code r) \<longleftrightarrow>
     is_unknown_upsert_send r \<or> is_delete_unknown_row r"
  by (cases "ob_action r")
    (auto simp: is_unknown_upsert_send_def is_delete_unknown_row_def
      is_delete_unknown_evidence_def has_unknown_external_send_evidence_def)

end
