(* ===== verification/Memory_Content.thy ===== *)
theory Memory_Content
  imports Rust_Prelude
begin

text \<open>
  What decides whether and how the text of a memory leaves the life's database: the guard
  \<open>contains_prohibited_content\<close> of \<open>src-tauri/src/memory/candidate_service.rs\<close> and the canonical
  hash \<open>canonical_memory_index_hash\<close> of \<open>src-tauri/src/memory/vector_index.rs\<close>. Unicode lower-casing
  and SHA-256 are parameters.
\<close>

section \<open>Splitting text\<close>

text \<open>
  \<open>split_encs\<close> is \<open>split\<close> with a predicate on characters: it cuts at every encoding of the list.
\<close>

function split_encs :: "string list \<Rightarrow> string \<Rightarrow> string list" where
  "split_encs encs s =
     (case s of [] \<Rightarrow> [[]]
      | c # s' \<Rightarrow>
          (case find (\<lambda>e. e \<noteq> [] \<and> take (length e) s = e) encs of
             Some e \<Rightarrow> [] # split_encs encs (drop (length e) s)
           | None \<Rightarrow>
               (case split_encs encs s' of [] \<Rightarrow> [[c]] | w # ws \<Rightarrow> (c # w) # ws)))"
  by pat_completeness auto
termination
proof (relation "measure (\<lambda>(encs, s). length s)")
  fix encs s c s' e
  assume s: "s = c # s'"
    and "find (\<lambda>e. e \<noteq> [] \<and> take (length e) s = e) encs = Some e"
  then have "e \<noteq> []" by (auto simp: find_Some_iff)
  with s show "((encs, drop (length e) s), encs, s) \<in> measure (\<lambda>(encs, s). length s)"
    by (cases e) simp_all
qed auto

declare split_encs.simps [simp del]

definition split_whitespace :: "string \<Rightarrow> string list" where
  "split_whitespace s = filter (\<lambda>w. w \<noteq> []) (split_encs ws_encodings s)"

text \<open>\<open>str::lines\<close>: a line feed, or a carriage return and a line feed, ends a line.\<close>

definition strip_cr :: "string \<Rightarrow> string" where
  "strip_cr l = (if l \<noteq> [] \<and> last l = CHR 0x0D then butlast l else l)"

definition str_lines :: "string \<Rightarrow> string list" where
  "str_lines s =
     (let parts = str_split (CHR 0x0A) s
      in map strip_cr (butlast parts) @ (if last parts = [] then [] else [last parts]))"

text \<open>\<open>split_once(c)\<close>.\<close>

definition split_once :: "char \<Rightarrow> string \<Rightarrow> (string \<times> string) option" where
  "split_once c s =
     (case str_find [c] s of None \<Rightarrow> None | Some n \<Rightarrow> Some (take n s, drop (Suc n) s))"

text \<open>\<open>trim_matches(p)\<close> for a predicate that holds of every non-ASCII character or of none.\<close>

definition trim_matches :: "(char \<Rightarrow> bool) \<Rightarrow> string \<Rightarrow> string" where
  "trim_matches p s = rev (dropWhile p (rev (dropWhile p s)))"

definition str_contains :: "string \<Rightarrow> string \<Rightarrow> bool" where
  "str_contains p s \<longleftrightarrow> str_find p s \<noteq> None"

section \<open>Prohibited content\<close>

definition contains_pem_private_key :: "string \<Rightarrow> bool" where
  "contains_pem_private_key text \<longleftrightarrow>
     str_contains ''-----begin '' text \<and> str_contains '' private key-----'' text"

definition is_credential_char :: "char \<Rightarrow> bool" where
  "is_credential_char c \<longleftrightarrow>
     is_ascii_alphanumeric c \<or> c \<in> {CHR ''_'', CHR ''-'', CHR ''.'', CHR ''/'', CHR ''+'', CHR ''=''}"

definition is_credential_value :: "string \<Rightarrow> bool" where
  "is_credential_value value =
     (let token = trim_matches (\<lambda>c. \<not> is_credential_char c)
                    (case split_whitespace value of [] \<Rightarrow> [] | w # ws \<Rightarrow> w)
      in 12 \<le> length token \<and> list_all is_credential_char token)"

definition contains_authorization_bearer :: "string \<Rightarrow> bool" where
  "contains_authorization_bearer text \<longleftrightarrow>
     list_ex (\<lambda>line.
       case split_once (CHR '':'') line of
         None \<Rightarrow> False
       | Some (name, value) \<Rightarrow>
           (if str_trim name \<noteq> ''authorization'' then False
            else case split_whitespace value of
                   scheme # token # _ \<Rightarrow> scheme = ''bearer'' \<and> is_credential_value token
                 | _ \<Rightarrow> False))
       (str_lines text)"

definition SECRET_KEYS :: "string list" where
  "SECRET_KEYS =
     [''password'', ''passwd'', ''secret'', ''secret_key'', ''secret-key'', ''api_key'', ''api-key'',
      ''apikey'', ''x-api-key'', ''token'', ''access_token'', ''access-token'', ''refresh_token'',
      ''refresh-token'', ''session_token'', ''session-token'', ''cookie'', ''session'',
      ''payment_secret'']"

text \<open>\<open>segment.find(['=', ':'])\<close>, and the split of the text at line feeds, \<open>;\<close> and \<open>,\<close>.\<close>

definition contains_secret_assignment :: "string \<Rightarrow> bool" where
  "contains_secret_assignment text \<longleftrightarrow>
     list_ex (\<lambda>segment.
       (let key_part = takeWhile (\<lambda>c. c \<noteq> CHR ''='' \<and> c \<noteq> CHR '':'') segment
        in if key_part = segment then False
           else
             (let key = trim_matches
                          (\<lambda>c. \<not> is_ascii_alphanumeric c \<and> c \<noteq> CHR ''_'' \<and> c \<noteq> CHR ''-'')
                          (str_trim key_part);
                  value = trim_matches (\<lambda>c. c \<in> {CHR 0x27, CHR 0x22, CHR 0x60})
                            (str_trim (drop (Suc (length key_part)) segment))
              in key \<in> set SECRET_KEYS \<and> is_credential_value value)))
       (split_encs [[CHR 0x0A], '';'', '','' ] text)"

definition is_jwt_token :: "string \<Rightarrow> bool" where
  "is_jwt_token token =
     (case str_split (CHR ''.'') token of
        [a, b, c] \<Rightarrow>
          8 \<le> length a \<and> 8 \<le> length b \<and> 8 \<le> length c
          \<and> list_all (list_all (\<lambda>x. is_ascii_alphanumeric x \<or> x = CHR ''_'' \<or> x = CHR ''-''))
               [a, b, c]
      | _ \<Rightarrow> False)"

definition contains_jwt :: "string \<Rightarrow> bool" where
  "contains_jwt text \<longleftrightarrow>
     list_ex is_jwt_token
       (split_encs (ws_encodings @
          [[CHR 0x22], [CHR 0x27], '','', '';'', ''('', '')'', ''['', '']'']) text)"

definition contains_prohibited_content :: "(string \<Rightarrow> string) \<Rightarrow> string \<Rightarrow> bool" where
  "contains_prohibited_content to_lowercase text =
     (let lower = to_lowercase text
      in contains_pem_private_key lower \<or> contains_authorization_bearer lower
         \<or> contains_secret_assignment lower \<or> contains_jwt lower)"

section \<open>The canonical memory hash\<close>

definition MEMORY_INDEX_FORMAT_VERSION :: string where
  "MEMORY_INDEX_FORMAT_VERSION = ''memory-index-v1''"

text \<open>\<open>(value.len() as u64).to_be_bytes()\<close>.\<close>

definition to_be_bytes :: "nat \<Rightarrow> string" where
  "to_be_bytes n = map (\<lambda>i. char_of (n div 256 ^ i mod 256)) [7, 6, 5, 4, 3, 2, 1, 0]"

definition hash_field :: "string \<Rightarrow> string" where
  "hash_field value = to_be_bytes (length value) @ value"

definition memory_index_preimage :: "string \<Rightarrow> string \<Rightarrow> string \<Rightarrow> string option \<Rightarrow> string" where
  "memory_index_preimage kind selected content summary =
     hash_field MEMORY_INDEX_FORMAT_VERSION @ hash_field kind @ hash_field selected
     @ hash_field content @ hash_field (case summary of None \<Rightarrow> [] | Some s \<Rightarrow> s)"

definition hex_digit :: "nat \<Rightarrow> char" where
  "hex_digit n = (if n < 10 then char_of (48 + n) else char_of (87 + n))"

definition lower_hex :: "string \<Rightarrow> string" where
  "lower_hex bytes =
     concat (map (\<lambda>b. [hex_digit (of_char b div 16), hex_digit (of_char b mod 16)]) bytes)"

definition canonical_memory_index_hash ::
    "(string \<Rightarrow> string) \<Rightarrow> string \<Rightarrow> string \<Rightarrow> string \<Rightarrow> string option \<Rightarrow> string" where
  "canonical_memory_index_hash sha256 kind selected content summary =
     lower_hex (sha256 (memory_index_preimage kind selected content summary))"

text \<open>The text that is embedded: a summary that is not blank, or else the content.\<close>

definition selected_memory_text :: "string \<Rightarrow> string option \<Rightarrow> string" where
  "selected_memory_text content summary =
     (case summary of Some s \<Rightarrow> if str_blank s then content else s | None \<Rightarrow> content)"

subsection \<open>The framing is injective\<close>

lemma length_to_be_bytes [simp]: "length (to_be_bytes n) = 8"
  by (simp add: to_be_bytes_def)

lemma digits_determine:
  fixes m n :: nat
  shows "(\<And>i. i < k \<Longrightarrow> m div 256 ^ i mod 256 = n div 256 ^ i mod 256) \<Longrightarrow>
    m mod 256 ^ k = n mod 256 ^ k"
proof (induction k)
  case (Suc k)
  have split: "x mod 256 ^ Suc k = 256 ^ k * (x div 256 ^ k mod 256) + x mod 256 ^ k" for x :: nat
    using mod_mult2_eq [of x "256 ^ k" 256] by (simp add: mult.commute)
  show ?case unfolding split using Suc by simp
qed simp

lemma to_be_bytes_inject:
  assumes "to_be_bytes m = to_be_bytes n" and "m < 256 ^ 8" and "n < 256 ^ 8"
  shows "m = n"
proof -
  have "m div 256 ^ i mod 256 = n div 256 ^ i mod 256" if "i < 8" for i
  proof -
    have "\<forall>i \<in> set [7, 6, 5, 4, 3, 2, 1, 0].
        char_of (m div 256 ^ i mod 256) = (char_of (n div 256 ^ i mod 256) :: char)"
      using assms(1) by (simp only: to_be_bytes_def map_eq_conv)
    moreover have "i \<in> set [7, 6, 5, 4, 3, 2, 1, 0]"
      using that by (simp only: list.set insert_iff empty_iff) arith
    ultimately have "char_of (m div 256 ^ i mod 256) = (char_of (n div 256 ^ i mod 256) :: char)"
      by blast
    then have "of_char (char_of (m div 256 ^ i mod 256) :: char) =
        (of_char (char_of (n div 256 ^ i mod 256) :: char) :: nat)" by (rule arg_cong)
    then show ?thesis by simp
  qed
  then have "m mod 256 ^ 8 = n mod 256 ^ 8" by (rule digits_determine)
  with assms(2,3) show ?thesis by (simp only: mod_less)
qed

lemma hash_field_append_inject:
  assumes "hash_field a @ x = hash_field b @ y" and "length a < 256 ^ 8" and "length b < 256 ^ 8"
  shows "a = b \<and> x = y"
proof -
  have "to_be_bytes (length a) @ (a @ x) = to_be_bytes (length b) @ (b @ y)"
    using assms(1) by (simp add: hash_field_def)
  then have "to_be_bytes (length a) = to_be_bytes (length b)" and *: "a @ x = b @ y"
    by (simp_all add: append_eq_append_conv)
  with assms(2,3) have "length a = length b" using to_be_bytes_inject by blast
  with * show ?thesis by (simp add: append_eq_append_conv)
qed

end
