(* ===== verification/Sql_Transaction.thy ===== *)
theory Sql_Transaction
  imports Sql_Table
begin

text \<open>
  A SQLite transaction as a chain of statements. A statement may be refused by SQLite, reads the
  clock at its own start (\<open>strftime('now')\<close> is stable within one statement and may differ between
  two), and fails when a constraint rejects a row it writes. The \<open>n\<close>-th statement of an operation
  asks the environment for all three. \<open>sq_strftime t m\<close> is \<open>strftime('%Y-%m-%dT%H:%M:%fZ', t, m)\<close>,
  \<open>NULL\<close> when SQLite cannot read its arguments. A transaction that fails is rolled back; a commit can fail,
  and it can succeed without the caller learning it.
\<close>

datatype commit_outcome = Committed | NotCommitted | CommitResultLost

record sql_env =
  sq_executes :: "nat \<Rightarrow> bool"
  sq_now :: "nat \<Rightarrow> string"
  sq_now_plus_seconds :: "nat \<Rightarrow> nat \<Rightarrow> string"
  sq_of_millis :: "int \<Rightarrow> string option"
  sq_strftime :: "string \<Rightarrow> string \<Rightarrow> string option"
  sq_rowid :: int
  sq_commit :: commit_outcome

type_synonym ('db, 'e, 'a) tx = "sql_env \<Rightarrow> nat \<Rightarrow> 'db \<Rightarrow> 'e + 'a \<times> nat \<times> 'db"

definition tx_return :: "'a \<Rightarrow> ('db, 'e, 'a) tx" where
  "tx_return x env n db = Inr (x, n, db)"

definition tx_fail :: "'e \<Rightarrow> ('db, 'e, 'a) tx" where
  "tx_fail e env n db = Inl e"

definition tx_bind ::
    "('db, 'e, 'a) tx \<Rightarrow> ('a \<Rightarrow> ('db, 'e, 'b) tx) \<Rightarrow> ('db, 'e, 'b) tx" where
  "tx_bind m f env n db =
     (case m env n db of Inl e \<Rightarrow> Inl e | Inr (x, n', db') \<Rightarrow> f x env n' db')"

text \<open>One statement: \<open>None\<close> when a constraint rejects what it writes.\<close>

definition tx_stmt ::
    "'e \<Rightarrow> (sql_env \<Rightarrow> nat \<Rightarrow> 'db \<Rightarrow> ('a \<times> 'db) option) \<Rightarrow> ('db, 'e, 'a) tx" where
  "tx_stmt e f env n db =
     (if \<not> sq_executes env n then Inl e
      else case f env n db of None \<Rightarrow> Inl e | Some (x, db') \<Rightarrow> Inr (x, Suc n, db'))"

definition tx_query :: "'e \<Rightarrow> (sql_env \<Rightarrow> string \<Rightarrow> 'db \<Rightarrow> 'a) \<Rightarrow> ('db, 'e, 'a) tx" where
  "tx_query e f = tx_stmt e (\<lambda>env n db. Some (f env (sq_now env n) db, db))"

definition tx_result :: "'e + 'a \<Rightarrow> ('db, 'e, 'a) tx" where
  "tx_result r = (case r of Inl e \<Rightarrow> tx_fail e | Inr x \<Rightarrow> tx_return x)"

definition tx_map_err :: "('e \<Rightarrow> 'f) \<Rightarrow> ('db, 'e, 'a) tx \<Rightarrow> ('db, 'f, 'a) tx" where
  "tx_map_err g m env n db = map_err g (m env n db)"

text \<open>A loop over the rows of a query that adds up the rows its body changed.\<close>

fun tx_sum :: "('r \<Rightarrow> ('db, 'e, nat) tx) \<Rightarrow> 'r list \<Rightarrow> ('db, 'e, nat) tx" where
  "tx_sum body [] = tx_return 0"
| "tx_sum body (r # rs) =
     tx_bind (body r) (\<lambda>a. tx_bind (tx_sum body rs) (\<lambda>b. tx_return (a + b)))"

definition run_tx :: "'e \<Rightarrow> ('db, 'e, 'a) tx \<Rightarrow> sql_env \<Rightarrow> 'db \<Rightarrow> ('e + 'a) \<times> 'db" where
  "run_tx e m env db =
     (if \<not> sq_executes env 0 then (Inl e, db)
      else case m env 1 db of
             Inl e' \<Rightarrow> (Inl e', db)
           | Inr (x, n, db') \<Rightarrow>
               (case sq_commit env of
                  Committed \<Rightarrow> (Inr x, db')
                | NotCommitted \<Rightarrow> (Inl e, db)
                | CommitResultLost \<Rightarrow> (Inl e, db')))"

text \<open>A statement outside a transaction commits itself.\<close>

definition run_auto :: "('db, 'e, 'a) tx \<Rightarrow> sql_env \<Rightarrow> 'db \<Rightarrow> ('e + 'a) \<times> 'db" where
  "run_auto m env db =
     (case m env 0 db of Inl e \<Rightarrow> (Inl e, db) | Inr (x, n, db') \<Rightarrow> (Inr x, db'))"

section \<open>Successful runs\<close>

named_theorems tx_Inr \<open>when the steps of a transaction succeed\<close>

lemma tx_return_Inr [tx_Inr, simp]:
  "tx_return x env n db = Inr (y, n', db') \<longleftrightarrow> y = x \<and> n' = n \<and> db' = db"
  by (auto simp: tx_return_def)

lemma tx_fail_Inr [tx_Inr, simp]: "tx_fail e env n db \<noteq> Inr r"
  by (simp add: tx_fail_def)

lemma tx_bind_Inr [tx_Inr]:
  "tx_bind m f env n db = Inr (y, n', db') \<longleftrightarrow>
     (\<exists>x n1 db1. m env n db = Inr (x, n1, db1) \<and> f x env n1 db1 = Inr (y, n', db'))"
  by (auto simp: tx_bind_def split: sum.splits)

lemma tx_stmt_Inr [tx_Inr]:
  "tx_stmt e f env n db = Inr (y, n', db') \<longleftrightarrow>
     sq_executes env n \<and> f env n db = Some (y, db') \<and> n' = Suc n"
  by (auto simp: tx_stmt_def split: option.splits)

lemma tx_query_Inr [tx_Inr]:
  "tx_query e f env n db = Inr (y, n', db') \<longleftrightarrow>
     sq_executes env n \<and> y = f env (sq_now env n) db \<and> n' = Suc n \<and> db' = db"
  by (auto simp: tx_query_def tx_stmt_Inr)

lemma tx_result_Inr [tx_Inr]:
  "tx_result r env n db = Inr (y, n', db') \<longleftrightarrow> r = Inr y \<and> n' = n \<and> db' = db"
  by (auto simp: tx_result_def tx_fail_def split: sum.splits)

lemma tx_map_err_Inr [tx_Inr, simp]:
  "tx_map_err g m env n db = Inr r \<longleftrightarrow> m env n db = Inr r"
  by (simp add: tx_map_err_def)

section \<open>What a transaction can do to the tables\<close>

text \<open>
  \<open>tx_rel R m\<close>: a successful run of \<open>m\<close> relates the tables before and after by \<open>R\<close>. For a
  reflexive and transitive \<open>R\<close> it is enough to look at the statements.
\<close>

definition tx_rel :: "('db \<Rightarrow> 'db \<Rightarrow> bool) \<Rightarrow> ('db, 'e, 'a) tx \<Rightarrow> bool" where
  "tx_rel R m \<longleftrightarrow> (\<forall>env n db x n' db'. m env n db = Inr (x, n', db') \<longrightarrow> R db db')"

named_theorems tx_rel_intros \<open>relations kept by the steps of a transaction\<close>

lemma tx_relI: "(\<And>env n db x n' db'. m env n db = Inr (x, n', db') \<Longrightarrow> R db db') \<Longrightarrow> tx_rel R m"
  by (auto simp: tx_rel_def)

lemma tx_relD: "tx_rel R m \<Longrightarrow> m env n db = Inr (x, n', db') \<Longrightarrow> R db db'"
  by (auto simp: tx_rel_def)

locale tx_preorder =
  fixes R :: "'db \<Rightarrow> 'db \<Rightarrow> bool"
  assumes pre_refl: "R db db"
    and pre_trans: "R db1 db2 \<Longrightarrow> R db2 db3 \<Longrightarrow> R db1 db3"
begin

lemma rel_return [tx_rel_intros]: "tx_rel R (tx_return x)"
  by (auto simp: tx_rel_def intro: pre_refl)

lemma rel_fail [tx_rel_intros]: "tx_rel R (tx_fail e)"
  by (auto simp: tx_rel_def)

lemma rel_result [tx_rel_intros]: "tx_rel R (tx_result r)"
  by (auto simp: tx_rel_def tx_result_Inr intro: pre_refl)

lemma rel_query [tx_rel_intros]: "tx_rel R (tx_query e f)"
  by (auto simp: tx_rel_def tx_query_Inr intro: pre_refl)

lemma rel_map_err [tx_rel_intros]: "tx_rel R m \<Longrightarrow> tx_rel R (tx_map_err g m)"
  by (auto simp: tx_rel_def)

lemma rel_bind [tx_rel_intros]:
  "tx_rel R m \<Longrightarrow> (\<And>x. tx_rel R (f x)) \<Longrightarrow> tx_rel R (tx_bind m f)"
  unfolding tx_rel_def tx_bind_Inr by (metis pre_trans)

lemma rel_sum [tx_rel_intros]:
  "(\<And>r. r \<in> set rs \<Longrightarrow> tx_rel R (body r)) \<Longrightarrow> tx_rel R (tx_sum body rs)"
  by (induction rs) (auto intro!: rel_return rel_bind)

lemma rel_if [tx_rel_intros]:
  "(b \<Longrightarrow> tx_rel R m) \<Longrightarrow> (\<not> b \<Longrightarrow> tx_rel R m') \<Longrightarrow> tx_rel R (if b then m else m')"
  by simp

lemma rel_option [tx_rel_intros]:
  "(x = None \<Longrightarrow> tx_rel R m) \<Longrightarrow> (\<And>v. x = Some v \<Longrightarrow> tx_rel R (f v)) \<Longrightarrow>
   tx_rel R (case x of None \<Rightarrow> m | Some v \<Rightarrow> f v)"
  by (cases x) simp_all

lemma run_rel: "tx_rel R m \<Longrightarrow> R db (snd (run_tx e m env db))"
proof (cases "m env 1 db")
  case (Inr y)
  moreover assume "tx_rel R m"
  ultimately show ?thesis
    by (cases y; cases "sq_commit env") (auto simp: run_tx_def pre_refl dest: tx_relD)
qed (simp add: run_tx_def pre_refl)

lemma run_auto_rel: "tx_rel R m \<Longrightarrow> R db (snd (run_auto m env db))"
  by (cases "m env 0 db") (auto simp: run_auto_def pre_refl dest: tx_relD)

end

section \<open>Transactions that act on what they read\<close>

text \<open>
  \<open>tx_at R db m\<close>: a successful run of \<open>m\<close> from \<open>db\<close> relates the tables by \<open>R\<close>. Until the first
  statement that writes, the rest of a transaction may use what its queries found in \<open>db\<close>.
\<close>

definition tx_at :: "('db \<Rightarrow> 'db \<Rightarrow> bool) \<Rightarrow> 'db \<Rightarrow> ('db, 'e, 'a) tx \<Rightarrow> bool" where
  "tx_at R db m \<longleftrightarrow> (\<forall>env n x n' db'. m env n db = Inr (x, n', db') \<longrightarrow> R db db')"

named_theorems tx_at_intros \<open>what a transaction does from given tables\<close>

lemma tx_atI: "(\<And>env n x n' db'. m env n db = Inr (x, n', db') \<Longrightarrow> R db db') \<Longrightarrow> tx_at R db m"
  by (auto simp: tx_at_def)

lemma tx_rel_at: "(\<And>db. tx_at R db m) \<Longrightarrow> tx_rel R m"
  by (auto simp: tx_rel_def tx_at_def)

lemma tx_at_rel: "tx_rel R m \<Longrightarrow> tx_at R db m"
  by (auto simp: tx_rel_def tx_at_def)

lemma at_query [tx_at_intros]:
  "(\<And>env now. tx_at R db (g (f env now db))) \<Longrightarrow> tx_at R db (tx_bind (tx_query e f) g)"
  by (auto simp: tx_at_def tx_bind_Inr tx_query_Inr)

lemma at_read:
  "tx_rel (=) m \<Longrightarrow> (\<And>x. tx_at R db (g x)) \<Longrightarrow> tx_at R db (tx_bind m g)"
  unfolding tx_at_def tx_rel_def tx_bind_Inr by blast

lemma at_last:
  "tx_at R db m \<Longrightarrow> (\<And>x. tx_rel (=) (g x)) \<Longrightarrow> tx_at R db (tx_bind m g)"
  unfolding tx_at_def tx_rel_def tx_bind_Inr by blast

lemma at_if [tx_at_intros]:
  "(b \<Longrightarrow> tx_at R db m) \<Longrightarrow> (\<not> b \<Longrightarrow> tx_at R db m') \<Longrightarrow> tx_at R db (if b then m else m')"
  by simp

lemma at_option [tx_at_intros]:
  "(x = None \<Longrightarrow> tx_at R db m) \<Longrightarrow> (\<And>v. x = Some v \<Longrightarrow> tx_at R db (f v)) \<Longrightarrow>
   tx_at R db (case x of None \<Rightarrow> m | Some v \<Rightarrow> f v)"
  by (cases x) simp_all

lemma at_return: "R db db \<Longrightarrow> tx_at R db (tx_return x)"
  by (simp add: tx_at_def)

lemma at_fail [tx_at_intros]: "tx_at R db (tx_fail e)"
  by (simp add: tx_at_def)

text \<open>A transaction that only reads leaves the tables alone.\<close>

interpretation tx_reads: tx_preorder "(=)"
  by unfold_locales auto

lemma run_tx_reads: "tx_rel (=) m \<Longrightarrow> snd (run_tx e m env db) = db"
  using tx_reads.run_rel by metis

lemma run_tx_Inr:
  "run_tx e m env db = (Inr x, db') \<longleftrightarrow>
     sq_executes env 0 \<and> sq_commit env = Committed \<and> (\<exists>n. m env 1 db = Inr (x, n, db'))"
  by (auto simp: run_tx_def split: sum.splits commit_outcome.splits)

lemma run_tx_cases:
  assumes "run_tx e m env db = (r, db')"
  obtains (unchanged) e' where "r = Inl e'" "db' = db"
    | (applied) x n where "r = Inr x" "m env 1 db = Inr (x, n, db')"
    | (lost) x n where "r = Inl e" "m env 1 db = Inr (x, n, db')"
  using assms
  by (auto simp: run_tx_def split: sum.splits commit_outcome.splits if_splits)

end
