(* ===== verification/Vector_Sync_Tables.thy ===== *)
theory Vector_Sync_Tables
  imports Vector_Sync_Domain Memory_Content Sql_Transaction
begin

text \<open>
  The tables of the memory index: memories, generations and their authority, the outbox with its
  mutation clock and the lease of its single consumer, the indexed items, and the resolutions of
  late deletes (\<open>storage/migrations/012*.sql\<close>, \<open>storage/migration.rs\<close>). The identity a resolution
  captures is a record of its own, since claims and tokens repeat it; a claim repeats all of it but
  the outbox row, so that column comes last.
\<close>

record memory_row =
  me_id :: string
  me_life_id :: string
  me_kind :: string
  me_status :: string
  me_revision :: int
  me_content :: string
  me_summary :: "string option"
  me_is_sensitive :: int

datatype generation_state = GenBuilding | GenActive | GenRetired | GenFailed

record generation_row =
  gn_id :: string
  gn_descriptor_hash :: string
  gn_dimension :: int
  gn_state :: generation_state
  gn_authority_epoch :: int

record runtime_lease_row =
  rl_owner :: "string option"
  rl_fence_epoch :: int
  rl_expires_at :: "string option"

record item_row =
  gi_generation_id :: string
  gi_life_id :: string
  gi_memory_id :: string
  gi_memory_revision :: int
  gi_content_hash :: string
  gi_updated_at :: string

datatype late_state =
    LatePending | LateClaimed | LateProcessing | LateUnknown | LateRetryWait | LateExhausted
  | LateWaitingRebuild | LateBlocked | LateResolvedAbsent | LateResolvedDeleted
  | LateResolvedRebuilt | LateSuperseded

record late_witness =
  li_life_id :: string
  li_memory_id :: string
  li_mutation_sequence :: int
  li_generation_id :: string
  li_descriptor_id :: string
  li_dimension :: int
  li_generation_state :: generation_state
  li_attempt_ordinal :: int
  li_claim_epoch :: int
  li_marked_claim_epoch :: int
  li_send_disposition :: "string option"
  li_error_code :: "string option"
  li_age_anchor_at :: string
  li_generation_epoch :: int

record late_identity = late_witness +
  li_outbox_id :: int

record late_row =
  lr_id :: int
  lr_identity :: late_identity
  lr_state :: late_state
  lr_resolution_count :: int
  lr_resolution_epoch :: int
  lr_last_reserved_epoch :: int
  lr_lease_owner :: "string option"
  lr_lease_fence_epoch :: "int option"
  lr_lease_expires_at :: "string option"
  lr_next_attempt_at :: "string option"
  lr_last_disposition :: "string option"
  lr_last_disposition_epoch :: int
  lr_last_error_code :: "string option"
  lr_resolved_at :: "string option"
  lr_created_at :: string
  lr_updated_at :: string

record sync_db =
  memories :: "memory_row list"
  generations :: "generation_row list"
  active_generation_id :: "string option"
  mutation_clock :: "int option"
  outbox :: "outbox_row list"
  outbox_sequence :: int
  runtime_lease :: "runtime_lease_row option"
  items :: "item_row list"
  late_rows :: "late_row list"
  late_lease :: "runtime_lease_row option"

type_synonym 'a sync_tx = "(sync_db, sync_error, 'a) tx"

section \<open>Constraints\<close>

definition outbox_row_check :: "outbox_row \<Rightarrow> bool" where
  "outbox_row_check r \<longleftrightarrow>
     ob_attempt_count r \<ge> 0 \<and> ob_mutation_sequence r \<ge> 0
     \<and> (ob_last_send_disposition r = None
        \<or> ob_last_send_disposition r \<in> {Some DEFINITELY_NOT_SENT, Some POSSIBLY_SENT})
     \<and> (ob_migration_disposition r = None
        \<or> ob_migration_disposition r = Some ''legacy_upsert_rebuild_required'')
     \<and> ob_fenced_claim_epoch r \<ge> 0
     \<and> ob_last_marked_claim_epoch r \<ge> 0
     \<and> ob_last_marked_claim_epoch r \<le> ob_fenced_claim_epoch r
     \<and> (ob_last_marked_claim_epoch r = 0 \<or> ob_attempt_count r > 0)
     \<and> (case ob_claimed_authority_epoch r of None \<Rightarrow> True | Some e \<Rightarrow> e \<ge> 1)"

definition late_terminal :: "late_state \<Rightarrow> bool" where
  "late_terminal s \<longleftrightarrow>
     s \<in> {LateResolvedAbsent, LateResolvedDeleted, LateResolvedRebuilt, LateSuperseded}"

definition late_identity_check :: "late_identity \<Rightarrow> bool" where
  "late_identity_check i \<longleftrightarrow>
     li_mutation_sequence i > 0 \<and> li_generation_id i \<noteq> [] \<and> li_descriptor_id i \<noteq> []
     \<and> li_dimension i > 0 \<and> 1 \<le> li_attempt_ordinal i \<and> li_attempt_ordinal i \<le> 5
     \<and> li_claim_epoch i > 0 \<and> li_marked_claim_epoch i > 0
     \<and> li_marked_claim_epoch i \<le> li_claim_epoch i
     \<and> (li_send_disposition i = None \<or> li_send_disposition i = Some POSSIBLY_SENT)
     \<and> (li_error_code i = None \<or> li_error_code i = Some PROVIDER_RESULT_UNKNOWN)
     \<and> (li_send_disposition i = Some POSSIBLY_SENT \<or> li_error_code i = Some PROVIDER_RESULT_UNKNOWN)
     \<and> li_generation_epoch i \<ge> 0"

definition late_row_check :: "late_row \<Rightarrow> bool" where
  "late_row_check r \<longleftrightarrow>
     late_identity_check (lr_identity r)
     \<and> 0 \<le> lr_resolution_count r \<and> lr_resolution_count r \<le> 3
     \<and> lr_resolution_epoch r \<ge> 0
     \<and> lr_last_reserved_epoch r \<ge> 0 \<and> lr_last_reserved_epoch r \<le> lr_resolution_epoch r
     \<and> (lr_resolution_count r = 0 \<and> lr_last_reserved_epoch r = 0
        \<or> lr_resolution_count r > 0 \<and> lr_last_reserved_epoch r > 0)
     \<and> (lr_state r = LateRetryWait \<longleftrightarrow> lr_next_attempt_at r \<noteq> None)
     \<and> lr_last_disposition_epoch r \<ge> 0 \<and> lr_last_disposition_epoch r \<le> lr_resolution_epoch r
     \<and> (case (lr_lease_owner r, lr_lease_fence_epoch r, lr_lease_expires_at r) of
          (None, None, None) \<Rightarrow> True
        | (Some owner, Some fence, Some _) \<Rightarrow> owner \<noteq> [] \<and> fence > 0
        | _ \<Rightarrow> False)
     \<and> (late_terminal (lr_state r) \<longleftrightarrow> lr_resolved_at r \<noteq> None)"

section \<open>Statements on the outbox\<close>

text \<open>
  \<open>UPDATE memory_vector_sync_outbox SET \<dots> WHERE \<dots>\<close>: the number of changed rows. Both the condition
  and the assignments may read the clock of the statement.
\<close>

definition update_outbox ::
    "sync_error \<Rightarrow> (sql_env \<Rightarrow> string \<Rightarrow> sync_db \<Rightarrow> outbox_row \<Rightarrow> bool)
     \<Rightarrow> (sql_env \<Rightarrow> nat \<Rightarrow> outbox_row \<Rightarrow> outbox_row) \<Rightarrow> nat sync_tx" where
  "update_outbox e p f = tx_stmt e (\<lambda>env n db.
     let cond = p env (sq_now env n) db; g = f env n;
         (changed, rows) = sql_update cond g (outbox db)
     in if list_ex (\<lambda>r. cond r \<and> \<not> outbox_row_check (g r)) (outbox db) then None
        else Some (changed, db\<lparr>outbox := rows\<rparr>))"

definition delete_outbox ::
    "sync_error \<Rightarrow> (sync_db \<Rightarrow> outbox_row \<Rightarrow> bool) \<Rightarrow> nat sync_tx" where
  "delete_outbox e p = tx_stmt e (\<lambda>env n db.
     Some (length (filter (p db) (outbox db)),
           db\<lparr>outbox := filter (\<lambda>r. \<not> p db r) (outbox db)\<rparr>))"

text \<open>\<open>SELECT \<dots> ORDER BY mutation_sequence ASC, id ASC\<close>.\<close>

definition by_mutation_sequence :: "outbox_row list \<Rightarrow> outbox_row list" where
  "by_mutation_sequence rows = sort_key ob_mutation_sequence (sort_key ob_id rows)"

definition generation_binding_rows_in ::
    "sync_error \<Rightarrow> (outbox_row \<Rightarrow> bool) \<Rightarrow> outbox_row list sync_tx" where
  "generation_binding_rows_in e p = tx_query e (\<lambda>env now db.
     by_mutation_sequence
       (filter (\<lambda>r. ob_migration_disposition r = None \<and> p r) (outbox db)))"

text \<open>\<open>GENERATION_BINDING_ROW_IDENTITY\<close>: the row is still the snapshot that was read.\<close>

definition binding_row_identity :: "outbox_row \<Rightarrow> outbox_row \<Rightarrow> bool" where
  "binding_row_identity s r \<longleftrightarrow>
     ob_id r = ob_id s \<and> ob_action r = ob_action s
     \<and> ob_mutation_sequence r = ob_mutation_sequence s
     \<and> ob_target_revision r = ob_target_revision s
     \<and> ob_target_content_hash r = ob_target_content_hash s
     \<and> ob_state r = ob_state s \<and> ob_attempt_count r = ob_attempt_count s
     \<and> ob_claimed_generation_id r = ob_claimed_generation_id s
     \<and> ob_lease_owner r = ob_lease_owner s \<and> ob_lease_fence_epoch r = ob_lease_fence_epoch s
     \<and> ob_lease_expires_at r = ob_lease_expires_at s \<and> ob_migration_disposition r = None"

definition binding_row_identity_with_epochs :: "outbox_row \<Rightarrow> outbox_row \<Rightarrow> bool" where
  "binding_row_identity_with_epochs s r \<longleftrightarrow>
     binding_row_identity s r
     \<and> ob_fenced_claim_epoch r = ob_fenced_claim_epoch s
     \<and> ob_last_marked_claim_epoch r = ob_last_marked_claim_epoch s"

text \<open>The assignments that release a row: a new state, no schedule, no lease.\<close>

definition ob_release :: "sync_state \<Rightarrow> string \<Rightarrow> outbox_row \<Rightarrow> outbox_row" where
  "ob_release s now r =
     r\<lparr>ob_state := s, ob_next_attempt_at := None, ob_lease_owner := None,
       ob_lease_expires_at := None, ob_lease_fence_epoch := None, ob_updated_at := now\<rparr>"

definition ob_block :: "string \<Rightarrow> string \<Rightarrow> outbox_row \<Rightarrow> outbox_row" where
  "ob_block code now r = (ob_release Blocked now r)\<lparr>ob_last_error_code := Some code\<rparr>"

definition ob_unbind :: "outbox_row \<Rightarrow> outbox_row" where
  "ob_unbind r = r\<lparr>ob_claimed_generation_id := None, ob_claimed_authority_epoch := None\<rparr>"

section \<open>Generations and leases\<close>

text \<open>
  A generation is usable for a claim when it is the building one (no authority epoch) or the
  active one of that epoch.
\<close>

definition generation_usable ::
    "string \<Rightarrow> string \<Rightarrow> nat \<Rightarrow> int option \<Rightarrow> sync_db \<Rightarrow> bool" where
  "generation_usable generation_id descriptor_hash dimension authority_epoch db \<longleftrightarrow>
     list_ex (\<lambda>g. gn_id g = generation_id \<and> gn_descriptor_hash g = descriptor_hash
                  \<and> gn_dimension g = usize_as_i64 dimension
                  \<and> (case authority_epoch of
                       None \<Rightarrow> gn_state g = GenBuilding
                     | Some epoch \<Rightarrow>
                         gn_state g = GenActive \<and> gn_authority_epoch g = epoch
                         \<and> active_generation_id db = Some generation_id))
       (generations db)"

definition runtime_lease_held :: "string \<Rightarrow> int \<Rightarrow> sync_db \<Rightarrow> bool" where
  "runtime_lease_held owner fence db \<longleftrightarrow>
     (case runtime_lease db of
        None \<Rightarrow> False
      | Some l \<Rightarrow> rl_owner l = Some owner \<and> rl_fence_epoch l = fence)"

text \<open>SQL comparison with a column that may be \<open>NULL\<close>.\<close>

definition sql_after :: "string option \<Rightarrow> string \<Rightarrow> bool" where
  "sql_after v now \<longleftrightarrow> (case v of None \<Rightarrow> False | Some t \<Rightarrow> text_less now t)"

definition sql_not_after :: "string option \<Rightarrow> string option \<Rightarrow> bool" where
  "sql_not_after v now \<longleftrightarrow>
     (case v of None \<Rightarrow> False | Some t \<Rightarrow> (case now of None \<Rightarrow> False | Some u \<Rightarrow> text_le t u))"

end
