(* ===== verification/Vector_Sync_Scan.thy ===== *)
theory Vector_Sync_Scan
  imports Vector_Sync_Tables
begin

text \<open>
  The lease of the outbox's single consumer and the scans of a claim
  (\<open>src-tauri/src/storage/vector_sync_outbox.rs\<close>): quarantine of malformed rows, recovery of
  expired claims, convergence of spent budgets.
\<close>

section \<open>The lease of the consumer\<close>

definition update_runtime_lease ::
    "(string \<Rightarrow> runtime_lease_row \<Rightarrow> bool) \<Rightarrow> (sql_env \<Rightarrow> nat \<Rightarrow> runtime_lease_row \<Rightarrow> runtime_lease_row)
     \<Rightarrow> nat sync_tx" where
  "update_runtime_lease p f = tx_stmt VectorSyncUnavailable (\<lambda>env n db.
     case runtime_lease db of
       None \<Rightarrow> Some (0, db)
     | Some l \<Rightarrow>
         (if p (sq_now env n) l then Some (1, db\<lparr>runtime_lease := Some (f env n l)\<rparr>)
          else Some (0, db)))"

definition select_runtime_fence :: "string \<Rightarrow> int sync_tx" where
  "select_runtime_fence owner =
     tx_bind (tx_query VectorSyncUnavailable (\<lambda>env now db.
       case runtime_lease db of
         None \<Rightarrow> None
       | Some l \<Rightarrow> if rl_owner l = Some owner then Some (rl_fence_epoch l) else None))
     (\<lambda>row. tx_result (ok_or row VectorSyncUnavailable))"

definition acquire_runtime_lease :: "string \<Rightarrow> int sync_tx" where
  "acquire_runtime_lease owner =
     tx_bind (tx_stmt VectorSyncUnavailable (\<lambda>env n db.
       Some ((), case runtime_lease db of
                   None \<Rightarrow> db\<lparr>runtime_lease := Some
                            \<lparr>rl_owner = None, rl_fence_epoch = 0, rl_expires_at = None\<rparr>\<rparr>
                 | Some _ \<Rightarrow> db))) (\<lambda>_.
     tx_bind (update_runtime_lease
       (\<lambda>now l. rl_owner l = Some owner \<and> sql_after (rl_expires_at l) now)
       (\<lambda>env n l. l\<lparr>rl_expires_at := Some (sq_now_plus_seconds env 120 n)\<rparr>)) (\<lambda>renewed.
     if renewed = 1 then select_runtime_fence owner
     else
       tx_bind (update_runtime_lease
         (\<lambda>now l. rl_fence_epoch l < i64_max
                  \<and> (rl_owner l = None \<or> rl_expires_at l = None
                     \<or> sql_not_after (rl_expires_at l) (Some now)))
         (\<lambda>env n l. l\<lparr>rl_owner := Some owner, rl_fence_epoch := rl_fence_epoch l + 1,
                      rl_expires_at := Some (sq_now_plus_seconds env 120 n)\<rparr>)) (\<lambda>acquired.
       if acquired \<noteq> 1 then tx_fail VectorSyncUnavailable
       else select_runtime_fence owner)))"

section \<open>Blocking one row\<close>

text \<open>An update of the row a snapshot was read from, with the snapshot as its condition.\<close>

definition block_outcome :: "nat \<Rightarrow> invariant_block_outcome" where
  "block_outcome changed = (if changed = 1 then BlockApplied else BlockSuperseded)"

definition applied_count :: "invariant_block_outcome \<Rightarrow> nat" where
  "applied_count out = (if out = BlockApplied then 1 else 0)"

definition block_generation_binding_scan_snapshot_in ::
    "outbox_row \<Rightarrow> invariant_block_outcome sync_tx" where
  "block_generation_binding_scan_snapshot_in row =
     (let binding_invalid = (ob_phase row \<in> {MissingAfterAttempt, InvalidBinding});
          attempt_identity_invalid = (ob_identity_phase row = InvalidIdentity)
      in if \<not> binding_invalid \<and> \<not> attempt_identity_invalid then tx_return NotInvariant
         else tx_bind (update_outbox VectorSyncUnavailable
                (\<lambda>env now db. binding_row_identity row)
                (\<lambda>env n. ob_block INTERNAL_INVARIANT (sq_now env n)))
              (\<lambda>changed. tx_return (block_outcome changed)))"

definition converge_exhausted_attempt_budget_row_in ::
    "outbox_row \<Rightarrow> invariant_block_outcome sync_tx" where
  "converge_exhausted_attempt_budget_row_in row =
     tx_bind (update_outbox VectorSyncUnavailable
       (\<lambda>env now db. binding_row_identity row)
       (\<lambda>env n. ob_block (exhausted_attempt_budget_error_code row) (sq_now env n)))
     (\<lambda>changed. tx_return (block_outcome changed))"

section \<open>The scans\<close>

definition quarantine_generation_binding_invariants_in :: "nat sync_tx" where
  "quarantine_generation_binding_invariants_in =
     tx_bind (generation_binding_rows_in VectorSyncUnavailable
       (\<lambda>r. ob_state r \<in> {Pending, RetryWait, Processing})) (\<lambda>rows.
     tx_sum (\<lambda>row. tx_bind (block_generation_binding_scan_snapshot_in row)
                      (\<lambda>out. tx_return (applied_count out))) rows)"

definition converge_exhausted_attempt_budget_in :: "nat sync_tx" where
  "converge_exhausted_attempt_budget_in =
     tx_bind (generation_binding_rows_in VectorSyncUnavailable
       (\<lambda>r. ob_attempt_count r \<ge> MAX_VECTOR_SYNC_ATTEMPTS
            \<and> ob_state r \<in> {Pending, RetryWait, Failed})) (\<lambda>rows.
     tx_sum (\<lambda>row.
       tx_bind (if ob_identity_phase row = InvalidIdentity
                   \<or> ob_phase row \<in> {MissingAfterAttempt, InvalidBinding}
                then block_generation_binding_scan_snapshot_in row
                else converge_exhausted_attempt_budget_row_in row)
         (\<lambda>out. tx_return (applied_count out))) rows)"

definition quarantine_malformed_target_bindings_in :: "nat sync_tx" where
  "quarantine_malformed_target_bindings_in =
     tx_bind (generation_binding_rows_in VectorSyncUnavailable
       (\<lambda>r. ob_action r = Upsert
            \<and> (ob_target_revision r = None \<or> ob_target_content_hash r = None)
            \<and> ob_state r \<in> {Pending, RetryWait, Processing})) (\<lambda>rows.
     tx_sum (\<lambda>row.
       if ob_phase row \<in> {MissingAfterAttempt, InvalidBinding} then
         tx_bind (block_generation_binding_scan_snapshot_in row)
           (\<lambda>out. tx_return (applied_count out))
       else
         (let clear_ephemeral = (ob_phase row = Ephemeral)
          in tx_bind (update_outbox VectorSyncUnavailable
               (\<lambda>env now db. binding_row_identity row)
               (\<lambda>env n r. ob_block ''VECTOR_TARGET_BINDING_MISSING'' (sq_now env n)
                             (if clear_ephemeral then ob_unbind r else r)))
             (\<lambda>changed. tx_return (if changed = 1 then 1 else 0)))) rows)"

text \<open>Where recovery moves an expired claim that had reserved an Attempt or holds a generation.\<close>

definition recovery_of :: "outbox_row \<Rightarrow> sync_state \<times> string option" where
  "recovery_of row =
     (if is_unknown_upsert_send row then (Blocked, Some PROVIDER_RESULT_UNKNOWN)
      else if is_delete_unknown_row row then (Blocked, None)
      else case ob_identity_phase row of
        ClaimMarked \<Rightarrow>
          (case ob_action row of
             Delete \<Rightarrow>
               (if ob_attempt_count row \<ge> MAX_VECTOR_SYNC_ATTEMPTS
                then (Blocked, Some ''MAX_ATTEMPTS'') else (Pending, None))
           | Upsert \<Rightarrow> (Blocked, Some INTERNAL_INVARIANT))
      | ClaimUnmarked \<Rightarrow> (Pending, None)
      | NeverClaimed \<Rightarrow>
          (if ob_action row = Delete \<and> ob_last_send_disposition row = None then (Pending, None)
           else (Blocked, Some INTERNAL_INVARIANT))
      | InvalidIdentity \<Rightarrow> (Blocked, Some INTERNAL_INVARIANT))"

definition recover_row :: "sync_state \<times> string option \<Rightarrow> string \<Rightarrow> outbox_row \<Rightarrow> outbox_row" where
  "recover_row target now r =
     (case snd target of
        None \<Rightarrow> ob_release (fst target) now r
      | Some code \<Rightarrow> (ob_release (fst target) now r)\<lparr>ob_last_error_code := Some code\<rparr>)"

definition lease_expired_at :: "string \<Rightarrow> outbox_row \<Rightarrow> bool" where
  "lease_expired_at now row \<longleftrightarrow>
     (case ob_lease_expires_at row of
        None \<Rightarrow> False
      | Some expiry \<Rightarrow> is_valid_utc_millis_timestamp expiry \<and> text_le expiry now)"

definition recover_one_in :: "string \<Rightarrow> outbox_row \<Rightarrow> nat sync_tx" where
  "recover_one_in recovery_now row =
     (let is_expired = lease_expired_at recovery_now row;
          expired_row = (\<lambda>env now db r. binding_row_identity row r
                           \<and> sql_not_after (ob_lease_expires_at r) (Some recovery_now));
          changed_one = (\<lambda>changed::nat. tx_return (if changed = 1 then 1 else 0))
      in case ob_phase row of
           Ephemeral \<Rightarrow>
             (if is_expired
              then tx_bind (update_outbox VectorSyncUnavailable expired_row
                     (\<lambda>env n r. ob_unbind (ob_release Pending (sq_now env n) r))) changed_one
              else tx_return 0)
         | Durable \<Rightarrow>
             (if is_expired
              then tx_bind (update_outbox VectorSyncUnavailable expired_row
                     (\<lambda>env n. recover_row (recovery_of row) (sq_now env n))) changed_one
              else tx_return 0)
         | MissingAfterAttempt \<Rightarrow>
             tx_bind (block_generation_binding_scan_snapshot_in row)
               (\<lambda>out. tx_return (applied_count out))
         | InvalidBinding \<Rightarrow>
             tx_bind (block_generation_binding_scan_snapshot_in row)
               (\<lambda>out. tx_return (applied_count out))
         | Unbound \<Rightarrow> tx_return 0)"

definition recover_expired_fenced_processing_in :: "int option \<Rightarrow> nat sync_tx" where
  "recover_expired_fenced_processing_in retry_cutoff_millis =
     tx_bind quarantine_generation_binding_invariants_in (\<lambda>quarantined.
     tx_bind (tx_query VectorSyncUnavailable (\<lambda>env now db.
       case Option.bind retry_cutoff_millis (sq_of_millis env) of
         None \<Rightarrow> now | Some t \<Rightarrow> t)) (\<lambda>recovery_now.
     tx_bind (generation_binding_rows_in VectorSyncUnavailable (\<lambda>r. ob_state r = Processing))
       (\<lambda>rows.
     tx_bind (tx_sum (recover_one_in recovery_now) rows) (\<lambda>recovered.
     tx_return (quarantined + recovered)))))"

end
