(* ===== verification/Vector_Sync_Claim.thy ===== *)
theory Vector_Sync_Claim
  imports Vector_Sync_Scan
begin

text \<open>
  Claiming work and reserving an Attempt (\<open>src-tauri/src/storage/vector_sync_outbox.rs\<close>): the claim
  transaction, the currency of a claim and of a token, the one reservation, and the release of a
  claim whose target is stale.
\<close>

section \<open>Claiming\<close>

definition claim_candidate ::
    "string \<Rightarrow> int option \<Rightarrow> string option \<Rightarrow> outbox_row \<Rightarrow> bool" where
  "claim_candidate generation_id authority_epoch due r \<longleftrightarrow>
     ob_migration_disposition r = None
     \<and> (ob_action r = Upsert \<and> ob_target_revision r \<noteq> None \<and> ob_target_content_hash r \<noteq> None
        \<or> ob_action r = Delete \<and> ob_target_revision r = None \<and> ob_target_content_hash r = None)
     \<and> (ob_state r = Pending
        \<or> ob_state r = RetryWait \<and> sql_not_after (ob_next_attempt_at r) due)
     \<and> ob_attempt_count r < MAX_VECTOR_SYNC_ATTEMPTS
     \<and> (ob_attempt_count r = 0 \<and> ob_claimed_generation_id r = None
          \<and> ob_claimed_authority_epoch r = None
        \<or> ob_attempt_count r > 0 \<and> ob_claimed_generation_id r = Some generation_id
          \<and> ob_claimed_authority_epoch r = authority_epoch)
     \<and> \<not> is_unknown_upsert_send r
     \<and> \<not> is_delete_unknown_row r"

definition block_claim_candidate_identity_in :: "outbox_row \<Rightarrow> invariant_block_outcome sync_tx" where
  "block_claim_candidate_identity_in c =
     tx_bind (update_outbox VectorSyncUnavailable
       (\<lambda>env now db r.
          ob_id r = ob_id c \<and> ob_state r = ob_state c \<and> ob_attempt_count r = ob_attempt_count c
          \<and> ob_claimed_generation_id r = ob_claimed_generation_id c
          \<and> ob_lease_owner r = ob_lease_owner c \<and> ob_lease_fence_epoch r = ob_lease_fence_epoch c
          \<and> ob_lease_expires_at r = ob_lease_expires_at c
          \<and> ob_fenced_claim_epoch r = ob_fenced_claim_epoch c
          \<and> ob_last_marked_claim_epoch r = ob_last_marked_claim_epoch c
          \<and> ob_migration_disposition r = None)
       (\<lambda>env n. ob_block INTERNAL_INVARIANT (sq_now env n)))
     (\<lambda>changed. tx_return (block_outcome changed))"

definition ob_lease :: "string \<Rightarrow> int \<Rightarrow> sql_env \<Rightarrow> nat \<Rightarrow> outbox_row \<Rightarrow> outbox_row" where
  "ob_lease owner fence env n r =
     r\<lparr>ob_state := Processing, ob_lease_owner := Some owner, ob_lease_fence_epoch := Some fence,
       ob_fenced_claim_epoch := ob_fenced_claim_epoch r + 1,
       ob_lease_expires_at := Some (sq_now_plus_seconds env 120 n),
       ob_next_attempt_at := None, ob_updated_at := sq_now env n\<rparr>"

text \<open>The claim of a row that has no generation yet, and of one that keeps the generation it has.\<close>

definition claim_unbound_in ::
    "outbox_row \<Rightarrow> string \<Rightarrow> int option \<Rightarrow> string \<Rightarrow> int \<Rightarrow> nat sync_tx" where
  "claim_unbound_in c generation_id authority_epoch owner fence =
     update_outbox VectorSyncUnavailable
       (\<lambda>env now db r.
          ob_id r = ob_id c \<and> ob_migration_disposition r = None
          \<and> ob_state r \<in> {Pending, RetryWait}
          \<and> ob_attempt_count r = 0 \<and> ob_claimed_generation_id r = None
          \<and> ob_claimed_authority_epoch r = None
          \<and> ob_fenced_claim_epoch r = ob_fenced_claim_epoch c
          \<and> ob_last_marked_claim_epoch r = ob_last_marked_claim_epoch c
          \<and> ob_fenced_claim_epoch r < i64_max)
       (\<lambda>env n r. (ob_lease owner fence env n r)
          \<lparr>ob_claimed_generation_id := Some generation_id,
           ob_claimed_authority_epoch := authority_epoch, ob_last_send_disposition := None\<rparr>)"

definition claim_durable_in ::
    "outbox_row \<Rightarrow> string \<Rightarrow> int option \<Rightarrow> string \<Rightarrow> int \<Rightarrow> nat sync_tx" where
  "claim_durable_in c generation_id authority_epoch owner fence =
     update_outbox VectorSyncUnavailable
       (\<lambda>env now db r.
          ob_id r = ob_id c \<and> ob_migration_disposition r = None
          \<and> ob_state r \<in> {Pending, RetryWait}
          \<and> ob_attempt_count r > 0 \<and> ob_attempt_count r < MAX_VECTOR_SYNC_ATTEMPTS
          \<and> ob_claimed_generation_id r = Some generation_id
          \<and> ob_claimed_authority_epoch r = authority_epoch
          \<and> ob_fenced_claim_epoch r = ob_fenced_claim_epoch c
          \<and> ob_last_marked_claim_epoch r = ob_last_marked_claim_epoch c
          \<and> ob_fenced_claim_epoch r < i64_max)
       (\<lambda>env n r. ob_lease owner fence env n r)"

text \<open>
  \<open>fenced_claim_from_row\<close>: \<open>None\<close> when a column the claim needs is \<open>NULL\<close>.
\<close>

definition fenced_claim_from_row :: "outbox_row \<Rightarrow> string \<Rightarrow> nat \<Rightarrow> fenced_claim option" where
  "fenced_claim_from_row r descriptor_hash dimension =
     (case (ob_claimed_generation_id r, ob_lease_owner r, ob_lease_fence_epoch r) of
        (Some generation_id, Some owner, Some fence) \<Rightarrow> Some
          \<lparr>fc_id = ob_id r, fc_life_id = ob_life_id r, fc_memory_id = ob_memory_id r,
           fc_action = ob_action r, fc_mutation_sequence = ob_mutation_sequence r,
           fc_target_revision = ob_target_revision r,
           fc_target_content_hash = ob_target_content_hash r, fc_generation_id = generation_id,
           fc_authority_epoch = ob_claimed_authority_epoch r, fc_descriptor_hash = descriptor_hash,
           fc_dimension = dimension, fc_lease_owner = owner, fc_fence_epoch = fence,
           fc_claim_epoch = ob_fenced_claim_epoch r\<rparr>
      | _ \<Rightarrow> None)"

definition claim_arguments_invalid ::
    "string \<Rightarrow> string \<Rightarrow> nat \<Rightarrow> string \<Rightarrow> int option \<Rightarrow> int option \<Rightarrow> bool" where
  "claim_arguments_invalid generation_id descriptor_hash dimension owner cutoff authority_epoch \<longleftrightarrow>
     generation_id = [] \<or> descriptor_hash = [] \<or> dimension = 0 \<or> owner = [] \<or> length owner > 128
     \<or> (case cutoff of None \<Rightarrow> False | Some v \<Rightarrow> v < 0)
     \<or> (case authority_epoch of None \<Rightarrow> False | Some e \<Rightarrow> e < 1)"

definition select_claim_candidate :: "string \<Rightarrow> int option \<Rightarrow> int option \<Rightarrow> outbox_row option sync_tx" where
  "select_claim_candidate generation_id authority_epoch cutoff =
     tx_query VectorSyncUnavailable (\<lambda>env now db.
       let due = (case cutoff of None \<Rightarrow> Some now | Some millis \<Rightarrow> sq_of_millis env millis)
       in case by_mutation_sequence
                 (filter (claim_candidate generation_id authority_epoch due) (outbox db)) of
            [] \<Rightarrow> None | r # _ \<Rightarrow> Some r)"

text \<open>After the update: exactly one changed row, read back in the same transaction.\<close>

definition granted_claim_in ::
    "outbox_row \<Rightarrow> string \<Rightarrow> nat \<Rightarrow> nat \<Rightarrow> fenced_claim option sync_tx" where
  "granted_claim_in c descriptor_hash dimension changed =
     (if changed \<noteq> 1 then tx_fail VectorSyncUnavailable
      else tx_bind (tx_query VectorSyncUnavailable (\<lambda>env now db.
             Option.bind (find (\<lambda>r. ob_id r = ob_id c) (outbox db))
               (\<lambda>r. fenced_claim_from_row r descriptor_hash dimension)))
           (\<lambda>claim. tx_bind (tx_result (ok_or claim VectorSyncUnavailable))
             (\<lambda>claim. tx_return (Some claim))))"

definition claim_candidate_in ::
    "outbox_row \<Rightarrow> string \<Rightarrow> string \<Rightarrow> nat \<Rightarrow> string \<Rightarrow> int option \<Rightarrow> int
     \<Rightarrow> fenced_claim option sync_tx" where
  "claim_candidate_in c generation_id descriptor_hash dimension owner authority_epoch fence =
     (if ob_identity_phase c = InvalidIdentity \<or> ob_fenced_claim_epoch c = i64_max then
        tx_bind (block_claim_candidate_identity_in c) (\<lambda>_. tx_return None)
      else
        case ob_phase c of
          Unbound \<Rightarrow>
            tx_bind (claim_unbound_in c generation_id authority_epoch owner fence)
              (granted_claim_in c descriptor_hash dimension)
        | Durable \<Rightarrow>
            (if ob_claimed_generation_id c = Some generation_id
                \<and> ob_claimed_authority_epoch c = authority_epoch
             then tx_bind (claim_durable_in c generation_id authority_epoch owner fence)
                    (granted_claim_in c descriptor_hash dimension)
             else tx_return None)
        | _ \<Rightarrow> tx_return None)"

definition claim_tx ::
    "string \<Rightarrow> string \<Rightarrow> nat \<Rightarrow> string \<Rightarrow> int option \<Rightarrow> int option \<Rightarrow> fenced_claim option sync_tx" where
  "claim_tx generation_id descriptor_hash dimension owner cutoff authority_epoch =
     tx_bind (acquire_runtime_lease owner) (\<lambda>fence.
     tx_bind quarantine_malformed_target_bindings_in (\<lambda>_.
     tx_bind (recover_expired_fenced_processing_in cutoff) (\<lambda>_.
     tx_bind converge_exhausted_attempt_budget_in (\<lambda>_.
     tx_bind (tx_query VectorSyncUnavailable (\<lambda>env now db.
       generation_usable generation_id descriptor_hash dimension authority_epoch db))
       (\<lambda>generation_ok.
     if \<not> generation_ok then tx_return None
     else tx_bind (select_claim_candidate generation_id authority_epoch cutoff) (\<lambda>candidate.
       case candidate of
         None \<Rightarrow> tx_return None
       | Some c \<Rightarrow>
           claim_candidate_in c generation_id descriptor_hash dimension owner authority_epoch
             fence))))))"

definition claim_one_fenced_vector_sync ::
    "string \<Rightarrow> string \<Rightarrow> nat \<Rightarrow> string \<Rightarrow> int option \<Rightarrow> int option \<Rightarrow> sql_env \<Rightarrow> sync_db
     \<Rightarrow> (sync_error + fenced_claim option) \<times> sync_db" where
  "claim_one_fenced_vector_sync generation_id descriptor_hash dimension owner cutoff
     authority_epoch env db =
     (if claim_arguments_invalid generation_id descriptor_hash dimension owner cutoff authority_epoch
      then (Inl VectorSyncUnavailable, db)
      else run_tx VectorSyncUnavailable
             (claim_tx generation_id descriptor_hash dimension owner cutoff authority_epoch) env db)"

section \<open>Currency of a claim\<close>

definition claim_row_matches :: "fenced_claim \<Rightarrow> outbox_row \<Rightarrow> bool" where
  "claim_row_matches c r \<longleftrightarrow>
     ob_id r = fc_id c \<and> ob_action r = fc_action c
     \<and> ob_mutation_sequence r = fc_mutation_sequence c
     \<and> ob_target_revision r = fc_target_revision c
     \<and> ob_target_content_hash r = fc_target_content_hash c
     \<and> ob_migration_disposition r = None"

definition generation_binding_row_for_claim_in :: "fenced_claim \<Rightarrow> outbox_row option sync_tx" where
  "generation_binding_row_for_claim_in c =
     tx_query VectorSyncUnavailable (\<lambda>env now db.
       find (\<lambda>r. claim_row_matches c r \<and> ob_fenced_claim_epoch r = fc_claim_epoch c) (outbox db))"

definition binding_row_has_claim_processing_lease :: "outbox_row \<Rightarrow> fenced_claim \<Rightarrow> bool" where
  "binding_row_has_claim_processing_lease r c \<longleftrightarrow>
     ob_state r = Processing \<and> ob_lease_owner r = Some (fc_lease_owner c)
     \<and> ob_lease_fence_epoch r = Some (fc_fence_epoch c)
     \<and> ob_fenced_claim_epoch r = fc_claim_epoch c"

text \<open>The joined row of the currency query: the two lease expiries.\<close>

definition fenced_claim_leases ::
    "fenced_claim \<Rightarrow> sync_db \<Rightarrow> (string option \<times> string option) option" where
  "fenced_claim_leases c db =
     (case find (\<lambda>r. claim_row_matches c r \<and> binding_row_has_claim_processing_lease r c
                     \<and> ob_claimed_generation_id r = Some (fc_generation_id c)
                     \<and> ob_claimed_authority_epoch r = fc_authority_epoch c) (outbox db) of
        None \<Rightarrow> None
      | Some r \<Rightarrow>
          (if generation_usable (fc_generation_id c) (fc_descriptor_hash c) (fc_dimension c)
                (fc_authority_epoch c) db
              \<and> runtime_lease_held (fc_lease_owner c) (fc_fence_epoch c) db
           then Some (ob_lease_expires_at r, Option.bind (runtime_lease db) rl_expires_at)
           else None))"

definition fenced_claim_current_in :: "fenced_claim \<Rightarrow> bool sync_tx" where
  "fenced_claim_current_in c =
     tx_bind (tx_query VectorSyncUnavailable (\<lambda>env now db. now)) (\<lambda>now.
     tx_bind (tx_query VectorSyncUnavailable (\<lambda>env _ db. fenced_claim_leases c db)) (\<lambda>leases.
     tx_return (case leases of
       None \<Rightarrow> False
     | Some (outbox_expires_at, runtime_expires_at) \<Rightarrow>
         lease_is_current_at outbox_expires_at now
         \<and> lease_is_current_at runtime_expires_at now)))"

definition block_generation_binding_claim_identity_in ::
    "fenced_claim \<Rightarrow> outbox_row \<Rightarrow> invariant_block_outcome sync_tx" where
  "block_generation_binding_claim_identity_in c observed =
     (if \<not> binding_row_has_claim_processing_lease observed c
         \<or> ob_fenced_claim_epoch observed \<noteq> fc_claim_epoch c
      then tx_return BlockSuperseded
      else if ob_claimed_generation_id observed = Some (fc_generation_id c)
              \<and> ob_phase observed \<notin> {MissingAfterAttempt, InvalidBinding}
              \<and> ob_identity_phase observed \<noteq> InvalidIdentity
      then tx_return NotInvariant
      else tx_bind (update_outbox VectorSyncUnavailable
             (\<lambda>env now db r.
                claim_row_matches c r \<and> binding_row_has_claim_processing_lease r c
                \<and> ob_attempt_count r = ob_attempt_count observed
                \<and> ob_claimed_generation_id r = ob_claimed_generation_id observed
                \<and> ob_lease_expires_at r = ob_lease_expires_at observed)
             (\<lambda>env n. ob_block INTERNAL_INVARIANT (sq_now env n)))
           (\<lambda>changed. tx_return (block_outcome changed)))"

definition claim_binding_broken :: "fenced_claim \<Rightarrow> outbox_row \<Rightarrow> bool" where
  "claim_binding_broken c row \<longleftrightarrow>
     ob_phase row \<in> {MissingAfterAttempt, InvalidBinding}
     \<or> ob_claimed_generation_id row \<noteq> Some (fc_generation_id c)
     \<or> ob_claimed_authority_epoch row \<noteq> fc_authority_epoch c"

text \<open>
  The two inspectors differ in what they do with a broken binding: the read-only one rejects the
  claim, the other one also blocks the row the claim owns.
\<close>

definition inspect_fenced_generation_binding_with ::
    "(fenced_claim \<Rightarrow> outbox_row \<Rightarrow> invariant_block_outcome sync_tx) \<Rightarrow> fenced_claim
     \<Rightarrow> outbox_row option sync_tx" where
  "inspect_fenced_generation_binding_with on_broken c =
     tx_bind (generation_binding_row_for_claim_in c) (\<lambda>found.
     case found of
       None \<Rightarrow> tx_return None
     | Some row \<Rightarrow>
         (if \<not> binding_row_has_claim_processing_lease row c then tx_return None
          else if claim_binding_broken c row
          then tx_bind (on_broken c row) (\<lambda>_. tx_return None)
          else tx_bind (fenced_claim_current_in c) (\<lambda>current.
            tx_return (if current \<and> ob_phase row \<in> {Ephemeral, Durable}
                       then Some row else None))))"

definition inspect_fenced_generation_binding_read_only_in :: "fenced_claim \<Rightarrow> outbox_row option sync_tx" where
  "inspect_fenced_generation_binding_read_only_in =
     inspect_fenced_generation_binding_with (\<lambda>_ _. tx_return BlockSuperseded)"

definition inspect_fenced_generation_binding_in :: "fenced_claim \<Rightarrow> outbox_row option sync_tx" where
  "inspect_fenced_generation_binding_in =
     inspect_fenced_generation_binding_with block_generation_binding_claim_identity_in"

definition fenced_vector_claim_is_current ::
    "fenced_claim \<Rightarrow> sql_env \<Rightarrow> sync_db \<Rightarrow> (sync_error + bool) \<times> sync_db" where
  "fenced_vector_claim_is_current c =
     run_tx VectorSyncUnavailable
       (tx_bind (inspect_fenced_generation_binding_in c) (\<lambda>current. tx_return (current \<noteq> None)))"

text \<open>\<open>read_fenced_vector_document\<close>: the text to embed, if the memory is still the claimed target.\<close>

definition read_fenced_vector_document ::
    "(string \<Rightarrow> string) \<Rightarrow> (string \<Rightarrow> string) \<Rightarrow> fenced_claim \<Rightarrow> sql_env \<Rightarrow> sync_db
     \<Rightarrow> sync_error + string option" where
  "read_fenced_vector_document to_lowercase sha256 c env db =
     (if fc_action c \<noteq> Upsert then Inr None
      else if \<not> sq_executes env 0 then Inl VectorSyncUnavailable
      else case find (\<lambda>m. me_id m = fc_memory_id c \<and> me_life_id m = fc_life_id c) (memories db) of
        None \<Rightarrow> Inr None
      | Some m \<Rightarrow>
          (if me_status m \<noteq> ''confirmed'' \<or> me_is_sensitive m \<noteq> 0
              \<or> Some (me_revision m) \<noteq> fc_target_revision c then Inr None
           else if contains_prohibited_content to_lowercase (me_content m)
                   \<or> (case me_summary m of None \<Rightarrow> False
                      | Some s \<Rightarrow> contains_prohibited_content to_lowercase s)
           then Inr None
           else
             let selected = selected_memory_text (me_content m) (me_summary m)
             in if str_blank selected
                   \<or> Some (canonical_memory_index_hash sha256 (me_kind m) selected (me_content m)
                             (me_summary m)) \<noteq> fc_target_content_hash c
                then Inr None else Inr (Some selected)))"

section \<open>Reserving an Attempt\<close>

definition block_exhausted_attempt_budget_for_claim_in ::
    "fenced_claim \<Rightarrow> outbox_row \<Rightarrow> invariant_block_outcome sync_tx" where
  "block_exhausted_attempt_budget_for_claim_in c row =
     (if \<not> binding_row_has_claim_processing_lease row c then tx_return BlockSuperseded
      else tx_bind (update_outbox VectorSyncUnavailable
             (\<lambda>env now db. binding_row_identity_with_epochs row)
             (\<lambda>env n. ob_block (exhausted_attempt_budget_error_code row) (sq_now env n)))
           (\<lambda>changed. tx_return (block_outcome changed)))"

definition ob_reserve :: "string \<Rightarrow> outbox_row \<Rightarrow> outbox_row" where
  "ob_reserve now r =
     r\<lparr>ob_attempt_count := ob_attempt_count r + 1,
       ob_last_marked_claim_epoch := ob_fenced_claim_epoch r,
       ob_last_send_disposition :=
         (if ob_action r = Upsert then Some POSSIBLY_SENT else ob_last_send_disposition r),
       ob_updated_at := now\<rparr>"

definition reserve_fenced_attempt_in :: "fenced_claim \<Rightarrow> attempt_reservation sync_tx" where
  "reserve_fenced_attempt_in c =
     tx_bind (inspect_fenced_generation_binding_in c) (\<lambda>current.
     case current of
       None \<Rightarrow> tx_return ReservationLost
     | Some row \<Rightarrow>
         (if ob_fenced_claim_epoch row \<noteq> fc_claim_epoch c then tx_return ReservationLost
          else if is_delete_unknown_row row then tx_return ReservationLost
          else case ob_identity_phase row of
            InvalidIdentity \<Rightarrow>
              tx_bind (block_generation_binding_claim_identity_in c row)
                (\<lambda>_. tx_return ReservationLost)
          | NeverClaimed \<Rightarrow> tx_return ReservationLost
          | ClaimMarked \<Rightarrow> tx_return (Reserved (fenced_attempt_token c (ob_attempt_count row)))
          | ClaimUnmarked \<Rightarrow>
              (if ob_attempt_count row \<ge> MAX_VECTOR_SYNC_ATTEMPTS then
                 tx_bind (block_exhausted_attempt_budget_for_claim_in c row)
                   (\<lambda>_. tx_return BudgetExhausted)
               else
                 tx_bind (update_outbox VectorSyncUnavailable
                   (\<lambda>env now db r. binding_row_identity_with_epochs row r
                      \<and> ob_attempt_count r < MAX_VECTOR_SYNC_ATTEMPTS
                      \<and> ob_last_marked_claim_epoch r < ob_fenced_claim_epoch r)
                   (\<lambda>env n. ob_reserve (sq_now env n))) (\<lambda>changed.
                 if changed \<noteq> 1 then tx_return ReservationLost
                 else case checked_add (ob_attempt_count row) 1 of
                        None \<Rightarrow> tx_fail VectorSyncUnavailable
                      | Some ordinal \<Rightarrow>
                          tx_return (Reserved (fenced_attempt_token c ordinal))))))"

definition reserve_fenced_attempt ::
    "fenced_claim \<Rightarrow> sql_env \<Rightarrow> sync_db \<Rightarrow> (sync_error + attempt_reservation) \<times> sync_db" where
  "reserve_fenced_attempt c = run_tx VectorSyncUnavailable (reserve_fenced_attempt_in c)"

section \<open>Currency of a token\<close>

definition fenced_attempt_token_current_in :: "fenced_claim \<Rightarrow> attempt_token \<Rightarrow> bool sync_tx" where
  "fenced_attempt_token_current_in c t =
     (let k = at_claim t
      in if fc_id k \<noteq> fc_id c \<or> fc_mutation_sequence k \<noteq> fc_mutation_sequence c
            \<or> fc_action k \<noteq> fc_action c \<or> fc_target_revision k \<noteq> fc_target_revision c
            \<or> fc_target_content_hash k \<noteq> fc_target_content_hash c
            \<or> fc_generation_id k \<noteq> fc_generation_id c \<or> fc_lease_owner k \<noteq> fc_lease_owner c
            \<or> fc_fence_epoch k \<noteq> fc_fence_epoch c \<or> fc_claim_epoch k \<noteq> fc_claim_epoch c
         then tx_return False
         else tx_bind (inspect_fenced_generation_binding_read_only_in c) (\<lambda>current.
           tx_return (case current of
             None \<Rightarrow> False
           | Some row \<Rightarrow>
               ob_fenced_claim_epoch row = fc_claim_epoch k
               \<and> ob_last_marked_claim_epoch row = fc_claim_epoch k
               \<and> ob_attempt_count row = at_ordinal t
               \<and> ob_identity_phase row = ClaimMarked)))"

definition validate_fenced_attempt_token_current ::
    "attempt_token \<Rightarrow> sql_env \<Rightarrow> sync_db \<Rightarrow> (sync_error + bool) \<times> sync_db" where
  "validate_fenced_attempt_token_current t =
     run_tx VectorSyncUnavailable (fenced_attempt_token_current_in (claim_projection t) t)"

section \<open>A stale target\<close>

definition block_fenced_vector_target_stale ::
    "fenced_claim \<Rightarrow> sql_env \<Rightarrow> sync_db \<Rightarrow> (sync_error + finalize_result) \<times> sync_db" where
  "block_fenced_vector_target_stale c =
     run_tx VectorSyncUnavailable
       (tx_bind (inspect_fenced_generation_binding_in c) (\<lambda>current.
        case current of
          None \<Rightarrow> tx_return FinalizeLost
        | Some row \<Rightarrow>
            (if ob_attempt_count row \<noteq> 0 \<or> ob_identity_phase row \<noteq> ClaimUnmarked
             then tx_return FinalizeLost
             else tx_bind (update_outbox VectorSyncUnavailable
                    (\<lambda>env now db r. binding_row_identity row r
                       \<and> ob_fenced_claim_epoch r = fc_claim_epoch c)
                    (\<lambda>env n r. (ob_unbind (ob_block ''VECTOR_TARGET_STALE'' (sq_now env n) r))
                       \<lparr>ob_last_send_disposition := None\<rparr>))
                  (\<lambda>changed. tx_return (if changed = 1 then FinalizeApplied else FinalizeLost)))))"

end
