(* ===== verification/Vector_Sync_Settle.thy ===== *)
theory Vector_Sync_Settle
  imports Vector_Sync_Claim
begin

text \<open>
  Settling an Attempt (\<open>src-tauri/src/storage/vector_sync_outbox.rs\<close>): the witness of an external
  delete, the two finalizers and the read-only rechecks, and the two functions of
  \<open>storage/late_delete_resolution.rs\<close> that the outbox calls inside its own transactions.
\<close>

section \<open>Resolutions of late deletes\<close>

definition update_late_rows ::
    "'e \<Rightarrow> (late_row \<Rightarrow> bool) \<Rightarrow> (sql_env \<Rightarrow> nat \<Rightarrow> late_row \<Rightarrow> late_row)
     \<Rightarrow> (sync_db, 'e, nat) tx" where
  "update_late_rows e p f = tx_stmt e (\<lambda>env n db.
     let g = f env n; (changed, rows) = sql_update p g (late_rows db)
     in if list_ex (\<lambda>r. p r \<and> \<not> late_row_check (g r)) (late_rows db) then None
        else Some (changed, db\<lparr>late_rows := rows\<rparr>))"

text \<open>The row the \<open>INSERT \<dots> SELECT\<close> builds from the outbox row and its generation.\<close>

definition late_insert_eligible :: "outbox_row \<Rightarrow> generation_row \<Rightarrow> bool" where
  "late_insert_eligible o' g \<longleftrightarrow>
     ob_action o' = Delete
     \<and> has_unknown_external_send_evidence (ob_last_send_disposition o') (ob_last_error_code o')
     \<and> ob_delete_witness_at o' \<noteq> None \<and> ob_mutation_sequence o' > 0
     \<and> 1 \<le> ob_attempt_count o' \<and> ob_attempt_count o' \<le> 5
     \<and> ob_fenced_claim_epoch o' > 0
     \<and> ob_last_marked_claim_epoch o' > 0
     \<and> ob_last_marked_claim_epoch o' \<le> ob_fenced_claim_epoch o'
     \<and> ob_claimed_generation_id o' \<noteq> None \<and> ob_claimed_generation_id o' \<noteq> Some []
     \<and> ob_target_revision o' = None \<and> ob_target_content_hash o' = None
     \<and> ob_migration_disposition o' = None
     \<and> gn_descriptor_hash g \<noteq> [] \<and> gn_dimension g > 0 \<and> gn_authority_epoch g \<ge> 1"

definition late_identity_of :: "outbox_row \<Rightarrow> generation_row \<Rightarrow> late_identity" where
  "late_identity_of o' g =
     \<lparr>li_life_id = ob_life_id o', li_memory_id = ob_memory_id o',
      li_mutation_sequence = ob_mutation_sequence o', li_generation_id = gn_id g,
      li_descriptor_id = gn_descriptor_hash g, li_dimension = gn_dimension g,
      li_generation_state = gn_state g, li_attempt_ordinal = ob_attempt_count o',
      li_claim_epoch = ob_fenced_claim_epoch o',
      li_marked_claim_epoch = ob_last_marked_claim_epoch o',
      li_send_disposition = ob_last_send_disposition o',
      li_error_code = (if ob_last_error_code o' = Some PROVIDER_RESULT_UNKNOWN
                       then Some PROVIDER_RESULT_UNKNOWN else None),
      li_age_anchor_at = (case ob_delete_witness_at o' of None \<Rightarrow> [] | Some t \<Rightarrow> t),
      li_generation_epoch = gn_authority_epoch g, li_outbox_id = ob_id o'\<rparr>"

definition late_row_of :: "int \<Rightarrow> outbox_row \<Rightarrow> generation_row \<Rightarrow> late_row" where
  "late_row_of rowid o' g =
     (let anchor = (case ob_delete_witness_at o' of None \<Rightarrow> [] | Some t \<Rightarrow> t)
      in \<lparr>lr_id = rowid, lr_identity = late_identity_of o' g, lr_state = LatePending,
          lr_resolution_count = 0, lr_resolution_epoch = 0, lr_last_reserved_epoch = 0,
          lr_lease_owner = None, lr_lease_fence_epoch = None, lr_lease_expires_at = None,
          lr_next_attempt_at = None, lr_last_disposition = None, lr_last_disposition_epoch = 0,
          lr_last_error_code = None, lr_resolved_at = None, lr_created_at = anchor,
          lr_updated_at = anchor\<rparr>)"

definition late_key :: "late_identity \<Rightarrow> string \<times> string \<times> int" where
  "late_key i = (li_life_id i, li_memory_id i, li_mutation_sequence i)"

text \<open>
  The insert with \<open>ON CONFLICT(life_id, memory_id, mutation_sequence) DO NOTHING\<close>; the row id is
  SQLite's choice, any id that is not in use.
\<close>

definition late_insert :: "sync_error \<Rightarrow> int \<Rightarrow> nat sync_tx" where
  "late_insert e outbox_id = tx_stmt e (\<lambda>env n db.
     case find (\<lambda>r. ob_id r = outbox_id) (outbox db) of
       None \<Rightarrow> Some (0, db)
     | Some o' \<Rightarrow>
         (case find (\<lambda>g. Some (gn_id g) = ob_claimed_generation_id o') (generations db) of
            None \<Rightarrow> Some (0, db)
          | Some g \<Rightarrow>
              (if \<not> late_insert_eligible o' g then Some (0, db)
               else
                 let row = late_row_of (sq_rowid env) o' g
                 in if late_key (lr_identity row) \<in> set (map (late_key \<circ> lr_identity) (late_rows db))
                    then Some (0, db)
                    else if \<not> late_row_check row \<or> lr_id row \<in> set (map lr_id (late_rows db)) then None
                    else Some (1, db\<lparr>late_rows := late_rows db @ [row]\<rparr>))))"

definition ensure_runtime_resolution_for_delete_unknown_in :: "int \<Rightarrow> unit sync_tx" where
  "ensure_runtime_resolution_for_delete_unknown_in outbox_id =
     tx_bind (late_insert VectorSyncUnavailable outbox_id) (\<lambda>changed.
     tx_bind (tx_query VectorSyncUnavailable (\<lambda>env now db.
       list_ex (\<lambda>r. li_outbox_id (lr_identity r) = outbox_id) (late_rows db))) (\<lambda>resolution_exists.
     if changed = 0 \<and> \<not> resolution_exists then tx_fail VectorSyncUnavailable
     else tx_return ()))"

definition late_of_memory :: "string \<Rightarrow> string \<Rightarrow> late_row \<Rightarrow> bool" where
  "late_of_memory life memory r \<longleftrightarrow>
     li_life_id (lr_identity r) = life \<and> li_memory_id (lr_identity r) = memory
     \<and> \<not> late_terminal (lr_state r)"

definition late_supersede :: "string \<Rightarrow> late_row \<Rightarrow> late_row" where
  "late_supersede now r =
     r\<lparr>lr_state := LateSuperseded, lr_last_disposition := Some ''superseded'',
       lr_last_disposition_epoch := lr_resolution_epoch r, lr_resolved_at := Some now,
       lr_updated_at := now, lr_lease_owner := None, lr_lease_fence_epoch := None,
       lr_lease_expires_at := None, lr_next_attempt_at := None\<rparr>"

definition supersede_for_new_mutation_in ::
    "sync_error \<Rightarrow> string \<Rightarrow> string \<Rightarrow> int \<Rightarrow> string \<Rightarrow> nat sync_tx" where
  "supersede_for_new_mutation_in e life memory new_mutation_sequence now =
     tx_bind (update_late_rows e
       (\<lambda>r. late_of_memory life memory r
            \<and> li_mutation_sequence (lr_identity r) < new_mutation_sequence)
       (\<lambda>env n. late_supersede now)) (\<lambda>changed.
     tx_bind (tx_query e (\<lambda>env _ db. length (filter (late_of_memory life memory) (late_rows db))))
       (\<lambda>remaining.
     if remaining \<noteq> 0 then tx_fail e else tx_return changed))"

section \<open>The identity of a reserved Attempt\<close>

text \<open>\<open>FENCED_ATTEMPT_TOKEN_FINALIZE_IDENTITY\<close>.\<close>

definition token_finalize_identity :: "attempt_token \<Rightarrow> string \<Rightarrow> sync_db \<Rightarrow> outbox_row \<Rightarrow> bool" where
  "token_finalize_identity t now db r \<longleftrightarrow>
     (let c = at_claim t
      in claim_row_matches c r \<and> ob_state r = Processing \<and> ob_attempt_count r = at_ordinal t
         \<and> ob_claimed_generation_id r = Some (fc_generation_id c)
         \<and> ob_lease_owner r = Some (fc_lease_owner c)
         \<and> ob_lease_fence_epoch r = Some (fc_fence_epoch c)
         \<and> ob_fenced_claim_epoch r = fc_claim_epoch c
         \<and> ob_last_marked_claim_epoch r = fc_claim_epoch c
         \<and> sql_after (ob_lease_expires_at r) now
         \<and> runtime_lease_held (fc_lease_owner c) (fc_fence_epoch c) db
         \<and> sql_after (Option.bind (runtime_lease db) rl_expires_at) now
         \<and> ob_claimed_authority_epoch r = fc_authority_epoch c
         \<and> generation_usable (fc_generation_id c) (fc_descriptor_hash c) (fc_dimension c)
             (fc_authority_epoch c) db)"

definition authoritative_now_in :: "'e \<Rightarrow> (sync_db, 'e, string) tx" where
  "authoritative_now_in e = tx_query e (\<lambda>env now db. now)"

section \<open>The witness of an external delete\<close>

definition ob_witness :: "string \<Rightarrow> outbox_row \<Rightarrow> outbox_row" where
  "ob_witness now r =
     r\<lparr>ob_last_send_disposition := Some POSSIBLY_SENT,
       ob_delete_witness_at :=
         (case ob_delete_witness_at r of None \<Rightarrow> Some now | Some t \<Rightarrow> Some t),
       ob_updated_at := now\<rparr>"

definition mark_fenced_delete_send_witness ::
    "attempt_token \<Rightarrow> sql_env \<Rightarrow> sync_db \<Rightarrow> (sync_error + witness_result) \<times> sync_db" where
  "mark_fenced_delete_send_witness t env db =
     (if fc_action (at_claim t) \<noteq> Delete then (Inr WitnessLost, db)
      else run_tx VectorSyncUnavailable
        (tx_bind (authoritative_now_in VectorSyncUnavailable) (\<lambda>current_now.
         tx_bind (update_outbox VectorSyncUnavailable
           (\<lambda>env now db. token_finalize_identity t current_now db)
           (\<lambda>env n. ob_witness current_now)) (\<lambda>changed.
         if changed = 1 then
           tx_bind (ensure_runtime_resolution_for_delete_unknown_in (fc_id (at_claim t)))
             (\<lambda>_. tx_return WitnessMarked)
         else tx_return WitnessLost))) env db)"

definition fenced_delete_send_witness_is_persisted ::
    "attempt_token \<Rightarrow> sql_env \<Rightarrow> sync_db \<Rightarrow> (sync_error + bool) \<times> sync_db" where
  "fenced_delete_send_witness_is_persisted t env db =
     (if fc_action (at_claim t) \<noteq> Delete then (Inr False, db)
      else run_tx VectorSyncUnavailable
        (tx_bind (authoritative_now_in VectorSyncUnavailable) (\<lambda>current_now.
         tx_query VectorSyncUnavailable (\<lambda>env now db.
           list_ex (\<lambda>r. token_finalize_identity t current_now db r
                        \<and> ob_last_send_disposition r = Some POSSIBLY_SENT
                        \<and> ob_delete_witness_at r \<noteq> None) (outbox db)))) env db)"

section \<open>Success\<close>

text \<open>The upsert of the indexed item, guarded by the token identity.\<close>

definition item_key :: "item_row \<Rightarrow> string \<times> string \<times> string" where
  "item_key i = (gi_generation_id i, gi_life_id i, gi_memory_id i)"

definition item_put :: "item_row \<Rightarrow> item_row list \<Rightarrow> item_row list" where
  "item_put i rows =
     (if item_key i \<in> set (map item_key rows)
      then map (\<lambda>r. if item_key r = item_key i then i else r) rows
      else rows @ [i])"

definition upsert_generation_item ::
    "attempt_token \<Rightarrow> int \<Rightarrow> string \<Rightarrow> string \<Rightarrow> nat sync_tx" where
  "upsert_generation_item t revision content_hash current_now =
     tx_stmt VectorSyncUnavailable (\<lambda>env n db.
       if \<not> list_ex (token_finalize_identity t current_now db) (outbox db) then Some (0, db)
       else if revision \<le> 0 then None
       else Some (1, db\<lparr>items := item_put
              \<lparr>gi_generation_id = fc_generation_id (at_claim t),
               gi_life_id = fc_life_id (at_claim t), gi_memory_id = fc_memory_id (at_claim t),
               gi_memory_revision = revision, gi_content_hash = content_hash,
               gi_updated_at = sq_now env n\<rparr> (items db)\<rparr>))"

definition delete_generation_item :: "attempt_token \<Rightarrow> string \<Rightarrow> nat sync_tx" where
  "delete_generation_item t current_now =
     tx_stmt VectorSyncUnavailable (\<lambda>env n db.
       let key = (fc_generation_id (at_claim t), fc_life_id (at_claim t), fc_memory_id (at_claim t))
       in if \<not> list_ex (token_finalize_identity t current_now db) (outbox db) then Some (0, db)
          else Some (length (filter (\<lambda>i. item_key i = key) (items db)),
                     db\<lparr>items := filter (\<lambda>i. item_key i \<noteq> key) (items db)\<rparr>))"

definition delete_fenced_attempt_outbox_in :: "attempt_token \<Rightarrow> string \<Rightarrow> finalize_result sync_tx" where
  "delete_fenced_attempt_outbox_in t current_now =
     tx_bind (delete_outbox VectorSyncUnavailable (token_finalize_identity t current_now))
       (\<lambda>changed. tx_return (if changed = 1 then FinalizeApplied else FinalizeLost))"

definition finalize_tx :: "attempt_token \<Rightarrow> finalize_result sync_tx" where
  "finalize_tx t =
     tx_bind (fenced_attempt_token_current_in (claim_projection t) t) (\<lambda>current.
     if \<not> current then tx_return FinalizeLost
     else tx_bind (authoritative_now_in VectorSyncUnavailable) (\<lambda>current_now.
       case fc_action (at_claim t) of
         Upsert \<Rightarrow>
           tx_bind (tx_result (ok_or (fc_target_revision (at_claim t)) VectorSyncUnavailable))
             (\<lambda>target_revision.
           tx_bind (tx_result (ok_or (fc_target_content_hash (at_claim t)) VectorSyncUnavailable))
             (\<lambda>content_hash.
           tx_bind (upsert_generation_item t target_revision content_hash current_now) (\<lambda>changed.
           if changed \<noteq> 1 then tx_return FinalizeLost
           else delete_fenced_attempt_outbox_in t current_now)))
       | Delete \<Rightarrow>
           tx_bind (delete_generation_item t current_now) (\<lambda>_.
           delete_fenced_attempt_outbox_in t current_now)))"

definition finalize_fenced_vector_sync ::
    "attempt_token \<Rightarrow> sql_env \<Rightarrow> sync_db \<Rightarrow> (sync_error + finalize_result) \<times> sync_db" where
  "finalize_fenced_vector_sync t = run_tx VectorSyncUnavailable (finalize_tx t)"

section \<open>Failure\<close>

definition retry_at :: "failure_decision \<Rightarrow> int \<Rightarrow> int \<Rightarrow> int option" where
  "retry_at decision clock_now_millis drain_retry_cutoff_millis =
     (case decision of
        RetryAfter delay_millis \<Rightarrow>
          (if clock_now_millis \<ge> 0 \<and> drain_retry_cutoff_millis \<ge> 0 then
             (let base = max clock_now_millis drain_retry_cutoff_millis
              in case checked_i64 (int delay_millis) of
                   None \<Rightarrow> None | Some delay \<Rightarrow> checked_add base delay)
           else None)
      | DecideBlocked \<Rightarrow> None)"

definition fail_update ::
    "attempt_token \<Rightarrow> string \<Rightarrow> string option \<Rightarrow> string \<Rightarrow> int option \<Rightarrow> nat sync_tx" where
  "fail_update t code disposition current_now next_at =
     update_outbox VectorSyncUnavailable
       (\<lambda>env now db. token_finalize_identity t current_now db)
       (\<lambda>env n r.
          (case next_at of
             Some millis \<Rightarrow>
               (ob_release RetryWait (sq_now env n) r)\<lparr>ob_next_attempt_at := sq_of_millis env millis\<rparr>
           | None \<Rightarrow> ob_release Blocked (sq_now env n) r)
          \<lparr>ob_last_error_code := Some code, ob_last_send_disposition := disposition\<rparr>)"

definition failure_resolution_in :: "attempt_token \<Rightarrow> unit sync_tx" where
  "failure_resolution_in t =
     (let outbox_id = fc_id (at_claim t)
      in if fc_action (at_claim t) \<noteq> Delete then tx_return ()
         else tx_bind (tx_query VectorSyncUnavailable (\<lambda>env now db.
             list_ex (\<lambda>r. ob_id r = outbox_id \<and> is_delete_unknown_row r) (outbox db)))
           (\<lambda>canonical_unknown.
           if \<not> canonical_unknown then tx_return ()
           else tx_bind (tx_query VectorSyncUnavailable (\<lambda>env now db.
               list_ex (\<lambda>r. ob_id r = outbox_id \<and> ob_delete_witness_at r \<noteq> None) (outbox db)))
             (\<lambda>has_witness_anchor.
             if \<not> has_witness_anchor then tx_fail LateDeleteInvariantViolation
             else ensure_runtime_resolution_for_delete_unknown_in outbox_id)))"

definition failure_tx ::
    "attempt_token \<Rightarrow> string \<Rightarrow> failure_decision \<Rightarrow> string option \<Rightarrow> int \<Rightarrow> int
     \<Rightarrow> failure_result sync_tx" where
  "failure_tx t error_code decision disposition clock_now_millis drain_retry_cutoff_millis =
     tx_bind (fenced_attempt_token_current_in (claim_projection t) t) (\<lambda>current.
     if \<not> current then tx_return FailureLost
     else
       let next_at = retry_at decision clock_now_millis drain_retry_cutoff_millis
       in tx_bind (authoritative_now_in VectorSyncUnavailable) (\<lambda>current_now.
          tx_bind (fail_update t (safe_error_code error_code) disposition current_now next_at)
            (\<lambda>changed.
          tx_bind (failure_resolution_in t) (\<lambda>_.
          tx_return (if changed \<noteq> 1 then FailureLost
                     else case next_at of
                            Some millis \<Rightarrow> RetryScheduled millis | None \<Rightarrow> FailureBlocked)))))"

definition finalize_fenced_vector_failure ::
    "attempt_token \<Rightarrow> string \<Rightarrow> failure_decision \<Rightarrow> string option \<Rightarrow> int \<Rightarrow> int \<Rightarrow> sql_env \<Rightarrow> sync_db
     \<Rightarrow> (sync_error + failure_result) \<times> sync_db" where
  "finalize_fenced_vector_failure t error_code decision disposition clock_now_millis
     drain_retry_cutoff_millis =
     run_tx VectorSyncUnavailable
       (failure_tx t error_code decision disposition clock_now_millis drain_retry_cutoff_millis)"

section \<open>Rechecks after a lost result\<close>

definition fenced_success_finalize_is_applied :: "attempt_token \<Rightarrow> sync_db \<Rightarrow> bool" where
  "fenced_success_finalize_is_applied t db =
     (let c = at_claim t
      in if list_ex (\<lambda>r. ob_id r = fc_id c
                         \<or> ob_life_id r = fc_life_id c \<and> ob_memory_id r = fc_memory_id c) (outbox db)
         then False
         else
           let ofs = (\<lambda>i. item_key i = (fc_generation_id c, fc_life_id c, fc_memory_id c))
           in case fc_action c of
                Upsert \<Rightarrow>
                  (case (fc_target_revision c, fc_target_content_hash c) of
                     (Some revision, Some content_hash) \<Rightarrow>
                       list_ex (\<lambda>i. ofs i \<and> gi_memory_revision i = revision
                                    \<and> gi_content_hash i = content_hash) (items db)
                   | _ \<Rightarrow> False)
              | Delete \<Rightarrow> \<not> list_ex ofs (items db))"

definition fenced_failure_finalize_is_applied ::
    "attempt_token \<Rightarrow> string \<Rightarrow> failure_decision \<Rightarrow> string option \<Rightarrow> sync_db \<Rightarrow> bool" where
  "fenced_failure_finalize_is_applied t error_code decision disposition db =
     (let c = at_claim t
      in case find (claim_row_matches c) (outbox db) of
           None \<Rightarrow> False
         | Some r \<Rightarrow>
             (let expected_state = (case decision of RetryAfter _ \<Rightarrow> RetryWait | DecideBlocked \<Rightarrow> Blocked)
              in ob_state r = expected_state
                 \<and> (expected_state = RetryWait \<longleftrightarrow> ob_next_attempt_at r \<noteq> None)
                 \<and> ob_attempt_count r = at_ordinal t
                 \<and> ob_claimed_generation_id r = Some (fc_generation_id c)
                 \<and> ob_lease_owner r = None \<and> ob_lease_fence_epoch r = None
                 \<and> ob_lease_expires_at r = None
                 \<and> ob_last_error_code r = Some (safe_error_code error_code)
                 \<and> ob_last_marked_claim_epoch r = fc_claim_epoch c
                 \<and> ob_fenced_claim_epoch r = fc_claim_epoch c
                 \<and> ob_last_send_disposition r = disposition))"

end
