(* ===== verification/Vector_Sync_Queue.thy ===== *)
theory Vector_Sync_Queue
  imports Vector_Sync_Settle
begin

text \<open>
  The repository trait of the outbox, \<open>MemoryVectorSyncOutboxRepository\<close> as
  \<open>src-tauri/src/storage/vector_sync_outbox.rs\<close> implements it: enqueueing a mutation, the manual
  retry, and the operations of the disabled life-scoped worker.
\<close>

section \<open>Enqueueing a mutation\<close>

definition validate_ids :: "string \<Rightarrow> string \<Rightarrow> sync_error + unit" where
  "validate_ids life memory = require (\<not> str_blank life \<and> \<not> str_blank memory) OutboxUnavailable"

text \<open>What the mutation is about: nothing for a delete, revision and content hash for an upsert.\<close>

definition enqueue_target ::
    "(string \<Rightarrow> string) \<Rightarrow> (string \<Rightarrow> string) \<Rightarrow> sync_action \<Rightarrow> memory_row
     \<Rightarrow> sync_error + int option \<times> string option" where
  "enqueue_target to_lowercase sha256 action m =
     (case action of
        Delete \<Rightarrow> Inr (None, None)
      | Upsert \<Rightarrow>
          (if me_status m \<noteq> ''confirmed'' then Inl OutboxUnavailable
           else
             let selected = selected_memory_text (me_content m) (me_summary m)
             in if str_blank selected then Inl OutboxUnavailable
                else if contains_prohibited_content to_lowercase (me_content m)
                        \<or> (case me_summary m of None \<Rightarrow> False
                           | Some s \<Rightarrow> contains_prohibited_content to_lowercase s)
                then Inl OutboxUnavailable
                else Inr (Some (me_revision m),
                          Some (canonical_memory_index_hash sha256 (me_kind m) selected
                                  (me_content m) (me_summary m)))))"

definition advance_mutation_clock :: "nat sync_tx" where
  "advance_mutation_clock = tx_stmt OutboxUnavailable (\<lambda>env n db.
     case mutation_clock db of
       None \<Rightarrow> Some (0, db)
     | Some s \<Rightarrow> if s < i64_max then Some (1, db\<lparr>mutation_clock := Some (s + 1)\<rparr>) else Some (0, db))"

text \<open>The assignments of \<open>ON CONFLICT(life_id, memory_id) DO UPDATE\<close>.\<close>

definition ob_requeue ::
    "sync_action \<Rightarrow> int \<Rightarrow> int option \<times> string option \<Rightarrow> string \<Rightarrow> outbox_row \<Rightarrow> outbox_row" where
  "ob_requeue action sequence target now r =
     r\<lparr>ob_action := action, ob_state := Pending, ob_attempt_count := 0,
       ob_fenced_claim_epoch := 0, ob_last_marked_claim_epoch := 0,
       ob_next_attempt_at := None, ob_lease_owner := None, ob_lease_expires_at := None,
       ob_lease_fence_epoch := None, ob_claimed_generation_id := None,
       ob_claimed_authority_epoch := None, ob_last_send_disposition := None,
       ob_migration_disposition := None, ob_mutation_sequence := sequence,
       ob_target_revision := fst target, ob_target_content_hash := snd target,
       ob_last_error_code := None, ob_updated_at := now\<rparr>"

definition ob_fresh ::
    "int \<Rightarrow> string \<Rightarrow> string \<Rightarrow> sync_action \<Rightarrow> int \<Rightarrow> int option \<times> string option \<Rightarrow> string
     \<Rightarrow> outbox_row" where
  "ob_fresh rowid life memory action sequence target now =
     \<lparr>ob_id = rowid, ob_life_id = life, ob_memory_id = memory, ob_action = action,
      ob_state = Pending, ob_attempt_count = 0, ob_next_attempt_at = None, ob_lease_owner = None,
      ob_lease_expires_at = None, ob_last_error_code = None, ob_created_at = now,
      ob_updated_at = now, ob_mutation_sequence = sequence, ob_target_revision = fst target,
      ob_target_content_hash = snd target, ob_claimed_generation_id = None,
      ob_lease_fence_epoch = None, ob_last_send_disposition = None,
      ob_migration_disposition = None, ob_fenced_claim_epoch = 0,
      ob_last_marked_claim_epoch = 0, ob_claimed_authority_epoch = None,
      ob_delete_witness_at = None\<rparr>"

text \<open>
  The \<open>AUTOINCREMENT\<close> id of a new row is above every id the table has used; which one is SQLite's
  choice.
\<close>

definition upsert_outbox ::
    "string \<Rightarrow> string \<Rightarrow> sync_action \<Rightarrow> int \<Rightarrow> int option \<times> string option \<Rightarrow> string \<Rightarrow> unit sync_tx" where
  "upsert_outbox life memory action sequence target now =
     tx_stmt OutboxUnavailable (\<lambda>env n db.
       let key = (\<lambda>r. ob_life_id r = life \<and> ob_memory_id r = memory);
           f = ob_requeue action sequence target now;
           row = ob_fresh (sq_rowid env) life memory action sequence target now
       in if list_ex key (outbox db) then
            (if list_ex (\<lambda>r. key r \<and> \<not> outbox_row_check (f r)) (outbox db) then None
             else Some ((), db\<lparr>outbox := map (\<lambda>r. if key r then f r else r) (outbox db)\<rparr>))
          else if \<not> outbox_row_check row \<or> \<not> sq_rowid env > outbox_sequence db then None
          else Some ((), db\<lparr>outbox := outbox db @ [row], outbox_sequence := sq_rowid env\<rparr>))"

definition enqueue_in_transaction ::
    "(string \<Rightarrow> string) \<Rightarrow> (string \<Rightarrow> string) \<Rightarrow> string \<Rightarrow> string \<Rightarrow> sync_action \<Rightarrow> unit sync_tx" where
  "enqueue_in_transaction to_lowercase sha256 life memory action =
     tx_bind (tx_result (validate_ids life memory)) (\<lambda>_.
     tx_bind (tx_query OutboxUnavailable (\<lambda>env now db. find (\<lambda>m. me_id m = memory) (memories db)))
       (\<lambda>found.
     case found of
       None \<Rightarrow> tx_fail SyncJobNotFound
     | Some m \<Rightarrow>
         (if me_life_id m \<noteq> life then tx_fail SyncJobLifeMismatch
          else
            tx_bind (tx_result (enqueue_target to_lowercase sha256 action m)) (\<lambda>target.
            tx_bind advance_mutation_clock (\<lambda>changed.
            if changed \<noteq> 1 then tx_fail OutboxUnavailable
            else
              tx_bind (tx_query OutboxUnavailable (\<lambda>env now db. mutation_clock db)) (\<lambda>clock.
              tx_bind (tx_result (ok_or clock OutboxUnavailable)) (\<lambda>sequence.
              tx_bind (authoritative_now_in OutboxUnavailable) (\<lambda>now.
              tx_bind (supersede_for_new_mutation_in OutboxUnavailable life memory sequence now)
                (\<lambda>_. upsert_outbox life memory action sequence target now)))))))))"

text \<open>\<open>load_job\<close>: the row of the memory; its count has to fit a \<open>u32\<close>.\<close>

definition load_job :: "string \<Rightarrow> string \<Rightarrow> outbox_row sync_tx" where
  "load_job life memory =
     tx_bind (tx_query OutboxUnavailable (\<lambda>env now db.
       find (\<lambda>r. ob_life_id r = life \<and> ob_memory_id r = memory) (outbox db))) (\<lambda>found.
     case found of
       None \<Rightarrow> tx_fail SyncJobNotFound
     | Some r \<Rightarrow>
         (if 0 \<le> ob_attempt_count r \<and> ob_attempt_count r \<le> int u32_max then tx_return r
          else tx_fail OutboxUnavailable))"

definition enqueue ::
    "(string \<Rightarrow> string) \<Rightarrow> (string \<Rightarrow> string) \<Rightarrow> string \<Rightarrow> string \<Rightarrow> sync_action \<Rightarrow> sql_env \<Rightarrow> sync_db
     \<Rightarrow> (sync_error + outbox_row) \<times> sync_db" where
  "enqueue to_lowercase sha256 life memory action =
     run_tx OutboxUnavailable
       (tx_bind (enqueue_in_transaction to_lowercase sha256 life memory action)
         (\<lambda>_. load_job life memory))"

section \<open>Manual retry\<close>

definition retry_row_in :: "string \<Rightarrow> outbox_row \<Rightarrow> nat sync_tx" where
  "retry_row_in life row =
     (if ob_identity_phase row = InvalidIdentity then
        tx_bind (block_generation_binding_scan_snapshot_in row)
          (\<lambda>out. tx_return (applied_count out))
      else if ob_attempt_count row \<ge> MAX_VECTOR_SYNC_ATTEMPTS then
        (if ob_state row = Blocked then tx_return 0
         else tx_bind (if ob_phase row \<in> {MissingAfterAttempt, InvalidBinding}
                       then block_generation_binding_scan_snapshot_in row
                       else converge_exhausted_attempt_budget_row_in row)
                (\<lambda>out. tx_return (applied_count out)))
      else if ob_phase row \<in> {MissingAfterAttempt, InvalidBinding} then
        tx_bind (block_generation_binding_scan_snapshot_in row)
          (\<lambda>out. tx_return (applied_count out))
      else if ob_phase row = Ephemeral then tx_return 0
      else if is_unknown_upsert_send row \<or> is_delete_unknown_row row
              \<or> ob_last_error_code row = Some INTERNAL_INVARIANT
      then tx_return 0
      else tx_bind (update_outbox VectorSyncUnavailable
             (\<lambda>env now db r. ob_life_id r = life \<and> binding_row_identity row r)
             (\<lambda>env n r. (ob_release Pending (sq_now env n) r)\<lparr>ob_last_error_code := None\<rparr>))
           (\<lambda>changed. tx_return (if changed = 1 then 1 else 0)))"

definition retry_failures ::
    "string \<Rightarrow> sql_env \<Rightarrow> sync_db \<Rightarrow> (sync_error + nat) \<times> sync_db" where
  "retry_failures life env db =
     (if str_blank life then (Inl OutboxUnavailable, db)
      else run_tx OutboxUnavailable
        (tx_map_err (\<lambda>_. OutboxUnavailable)
          (tx_bind (generation_binding_rows_in VectorSyncUnavailable
             (\<lambda>r. ob_life_id r = life \<and> ob_state r \<in> {Blocked, Failed, RetryWait})) (\<lambda>rows.
           tx_sum (retry_row_in life) rows))) env db)"

section \<open>The disabled life-scoped worker\<close>

definition validate_worker :: "string \<Rightarrow> string \<Rightarrow> string \<Rightarrow> sync_error + unit" where
  "validate_worker life owner expires =
     require (\<not> str_blank life \<and> \<not> str_blank owner \<and> chars_count owner \<le> 128
              \<and> \<not> str_blank expires) OutboxUnavailable"

definition legacy_claims_are_disabled :: bool where
  "legacy_claims_are_disabled = True"

definition claim_next :: "string \<Rightarrow> string \<Rightarrow> string \<Rightarrow> sync_error + outbox_row option" where
  "claim_next life owner expires =
     try_seq (validate_worker life owner expires)
       (if legacy_claims_are_disabled then Inr None else Inl OutboxUnavailable)"

definition claim_next_with_lease :: "string \<Rightarrow> string \<Rightarrow> nat \<Rightarrow> sync_error + outbox_row option" where
  "claim_next_with_lease life owner lease_seconds =
     (if lease_seconds = 0 \<or> lease_seconds > 3600 then Inl OutboxUnavailable
      else try_seq (validate_worker life owner ''calculated'')
        (if legacy_claims_are_disabled then Inr None else Inl OutboxUnavailable))"

definition claimed_change :: "nat \<Rightarrow> sync_error + unit" where
  "claimed_change changed = require (changed = 1) SyncJobLeaseConflict"

definition legacy_claimed :: "string \<Rightarrow> string \<Rightarrow> string \<Rightarrow> outbox_row \<Rightarrow> bool" where
  "legacy_claimed life memory owner r \<longleftrightarrow>
     ob_life_id r = life \<and> ob_memory_id r = memory \<and> ob_state r = Processing
     \<and> ob_lease_owner r = Some owner"

definition ob_legacy_settle ::
    "sync_state \<Rightarrow> string option \<Rightarrow> string \<Rightarrow> string \<Rightarrow> outbox_row \<Rightarrow> outbox_row" where
  "ob_legacy_settle state next_at code now r =
     r\<lparr>ob_state := state, ob_next_attempt_at := next_at, ob_lease_owner := None,
       ob_lease_expires_at := None, ob_last_error_code := Some code, ob_updated_at := now\<rparr>"

definition set_claimed_state ::
    "string \<Rightarrow> string \<Rightarrow> string \<Rightarrow> sync_state \<Rightarrow> string option \<Rightarrow> string \<Rightarrow> sql_env \<Rightarrow> sync_db
     \<Rightarrow> (sync_error + unit) \<times> sync_db" where
  "set_claimed_state life memory owner state next_at error_code =
     run_auto (tx_bind (tx_result (validate_ids life memory)) (\<lambda>_.
       tx_bind (update_outbox OutboxUnavailable (\<lambda>env now db. legacy_claimed life memory owner)
         (\<lambda>env n. ob_legacy_settle state next_at (safe_error_code error_code) (sq_now env n)))
         (\<lambda>changed. tx_result (claimed_change changed))))"

definition mark_retry where
  "mark_retry life memory owner next_at code =
     set_claimed_state life memory owner RetryWait (Some next_at) code"

definition mark_blocked where
  "mark_blocked life memory owner code = set_claimed_state life memory owner Blocked None code"

definition mark_failed where
  "mark_failed life memory owner code = set_claimed_state life memory owner Failed None code"

definition mark_retry_after ::
    "string \<Rightarrow> string \<Rightarrow> string \<Rightarrow> nat \<Rightarrow> string \<Rightarrow> sql_env \<Rightarrow> sync_db \<Rightarrow> (sync_error + unit) \<times> sync_db" where
  "mark_retry_after life memory owner delay_seconds error_code =
     run_auto (tx_bind (tx_result (validate_ids life memory)) (\<lambda>_.
       if delay_seconds = 0 \<or> delay_seconds > 3600 then tx_fail OutboxUnavailable
       else tx_bind (update_outbox OutboxUnavailable (\<lambda>env now db. legacy_claimed life memory owner)
         (\<lambda>env n. ob_legacy_settle RetryWait (Some (sq_now_plus_seconds env delay_seconds n))
            (safe_error_code error_code) (sq_now env n)))
         (\<lambda>changed. tx_result (claimed_change changed))))"

definition complete_job ::
    "string \<Rightarrow> string \<Rightarrow> string \<Rightarrow> sql_env \<Rightarrow> sync_db \<Rightarrow> (sync_error + unit) \<times> sync_db" where
  "complete_job life memory owner =
     run_auto (tx_bind (tx_result (validate_ids life memory)) (\<lambda>_.
       tx_bind (delete_outbox OutboxUnavailable (\<lambda>db. legacy_claimed life memory owner))
         (\<lambda>changed. tx_result (claimed_change changed))))"

definition release_expired_leases ::
    "string \<Rightarrow> sql_env \<Rightarrow> sync_db \<Rightarrow> (sync_error + nat) \<times> sync_db" where
  "release_expired_leases life =
     run_auto (if str_blank life then tx_fail OutboxUnavailable
       else update_outbox OutboxUnavailable
         (\<lambda>env now db r. ob_life_id r = life \<and> ob_state r = Processing
            \<and> sql_not_after (ob_lease_expires_at r) (Some now))
         (\<lambda>env n r. r\<lparr>ob_state := Pending, ob_lease_owner := None, ob_lease_expires_at := None,
                        ob_updated_at := sq_now env n\<rparr>))"

text \<open>\<open>list\<close> (\<open>ORDER BY created_at, id\<close>) and \<open>count\<close>.\<close>

fun insert_by_created :: "outbox_row \<Rightarrow> outbox_row list \<Rightarrow> outbox_row list" where
  "insert_by_created r [] = [r]"
| "insert_by_created r (s # rows) =
     (if text_less (ob_created_at r) (ob_created_at s)
         \<or> ob_created_at r = ob_created_at s \<and> ob_id r \<le> ob_id s
      then r # s # rows else s # insert_by_created r rows)"

definition list_jobs :: "string \<Rightarrow> sync_db \<Rightarrow> sync_error + outbox_row list" where
  "list_jobs life db =
     (if str_blank life then Inl OutboxUnavailable
      else
        let rows = foldr insert_by_created (filter (\<lambda>r. ob_life_id r = life) (outbox db)) []
        in if list_all (\<lambda>r. 0 \<le> ob_attempt_count r \<and> ob_attempt_count r \<le> int u32_max) rows
           then Inr rows else Inl OutboxUnavailable)"

definition count_jobs :: "string \<Rightarrow> sync_state \<Rightarrow> sync_db \<Rightarrow> nat" where
  "count_jobs life state db =
     length (filter (\<lambda>r. ob_life_id r = life \<and> ob_state r = state) (outbox db))"

end
