(* ===== verification/Late_Delete_Order.thy ===== *)
theory Late_Delete_Order
  imports Vector_Sync_Settle
begin

text \<open>
  What may happen to the resolutions of late deletes, as a preorder on databases: a resolution keeps
  the identity it captured, its epoch and the epoch of its last disposition never fall, a slot is
  counted together with the epoch it was reserved under, and what is over stays as it is. At most
  one resolution of a memory is unresolved, and it belongs to the mutation in the outbox.
\<close>

section \<open>Rows\<close>

text \<open>Epoch and state: within an epoch a row enters neither \<open>claimed\<close> nor, but for that, \<open>processing\<close>.\<close>

definition late_phase_le :: "int \<Rightarrow> late_state \<Rightarrow> int \<Rightarrow> late_state \<Rightarrow> bool" where
  "late_phase_le e s e' s' \<longleftrightarrow>
     e \<le> e'
     \<and> (e' = e \<longrightarrow> s' = LateProcessing \<longrightarrow> s = LateClaimed \<or> s = LateProcessing)
     \<and> (e' = e \<longrightarrow> s' = LateClaimed \<longrightarrow> s = LateClaimed)"

text \<open>A slot is counted together with the epoch it was reserved under.\<close>

definition late_slot_le :: "int \<Rightarrow> int \<Rightarrow> int \<Rightarrow> int \<Rightarrow> bool" where
  "late_slot_le n e n' e' \<longleftrightarrow> n' = n \<and> e' = e \<or> n < n' \<and> e < e'"

lemma late_phase_le_trans:
  "late_phase_le e s e' s' \<Longrightarrow> late_phase_le e' s' e'' s'' \<Longrightarrow> late_phase_le e s e'' s''"
  by (auto simp: late_phase_le_def)

lemma late_slot_le_trans:
  "late_slot_le n e n' e' \<Longrightarrow> late_slot_le n' e' n'' e'' \<Longrightarrow> late_slot_le n e n'' e''"
  by (auto simp: late_slot_le_def)

definition late_row_le :: "late_row \<Rightarrow> late_row \<Rightarrow> bool" where
  "late_row_le r r' \<longleftrightarrow>
     lr_id r' = lr_id r \<and> lr_identity r' = lr_identity r
     \<and> late_slot_le (lr_resolution_count r) (lr_last_reserved_epoch r)
          (lr_resolution_count r') (lr_last_reserved_epoch r')
     \<and> late_phase_le (lr_resolution_epoch r) (lr_state r) (lr_resolution_epoch r') (lr_state r')
     \<and> lr_last_disposition_epoch r \<le> lr_last_disposition_epoch r'
     \<and> (late_terminal (lr_state r) \<longrightarrow> r' = r)"

lemma late_row_le_refl [simp]: "late_row_le r r"
  by (simp add: late_row_le_def late_phase_le_def late_slot_le_def)

lemma late_row_le_trans: "late_row_le a b \<Longrightarrow> late_row_le b c \<Longrightarrow> late_row_le a c"
proof -
  assume ab: "late_row_le a b" and bc: "late_row_le b c"
  have "lr_last_disposition_epoch a \<le> lr_last_disposition_epoch c"
    using ab bc unfolding late_row_le_def by linarith
  moreover have "c = a" if "late_terminal (lr_state a)"
    using ab bc that unfolding late_row_le_def by metis
  ultimately show ?thesis
    using ab bc unfolding late_row_le_def by (metis late_slot_le_trans late_phase_le_trans)
qed

text \<open>An update of an unresolved row that keeps its slot and leaves \<open>claimed\<close> and \<open>processing\<close> alone.\<close>

lemma late_row_le_settle:
  assumes "\<not> late_terminal (lr_state r)" and "lr_id r' = lr_id r" "lr_identity r' = lr_identity r"
    and "lr_resolution_epoch r' = lr_resolution_epoch r"
    and "lr_resolution_count r' = lr_resolution_count r"
    and "lr_last_reserved_epoch r' = lr_last_reserved_epoch r"
    and "lr_last_disposition_epoch r \<le> lr_last_disposition_epoch r'"
    and "lr_state r' = LateProcessing \<Longrightarrow> lr_state r = LateProcessing"
    and "lr_state r' \<noteq> LateClaimed"
  shows "late_row_le r r'"
  using assms by (simp add: late_row_le_def late_slot_le_def late_phase_le_def)

section \<open>Tables\<close>

definition late_memory :: "late_row \<Rightarrow> string \<times> string" where
  "late_memory r = (li_life_id (lr_identity r), li_memory_id (lr_identity r))"

definition ob_memory :: "outbox_row \<Rightarrow> string \<times> string" where
  "ob_memory r = (ob_life_id r, ob_memory_id r)"

definition late_current :: "outbox_row list \<Rightarrow> late_row list \<Rightarrow> bool" where
  "late_current rows lates \<longleftrightarrow>
     (\<forall>l \<in> set lates. \<not> late_terminal (lr_state l) \<longrightarrow>
        (\<forall>r \<in> set rows. ob_memory r = late_memory l
           \<longrightarrow> ob_mutation_sequence r = li_mutation_sequence (lr_identity l))
        \<and> (\<forall>l' \<in> set lates. \<not> late_terminal (lr_state l') \<longrightarrow> late_memory l' = late_memory l
             \<longrightarrow> li_mutation_sequence (lr_identity l') = li_mutation_sequence (lr_identity l)))"

definition late_wf :: "sync_db \<Rightarrow> bool" where
  "late_wf db \<longleftrightarrow>
     distinct (map lr_id (late_rows db))
     \<and> distinct (map (late_key \<circ> lr_identity) (late_rows db))
     \<and> (\<forall>r \<in> set (late_rows db). late_row_check r)
     \<and> late_current (outbox db) (late_rows db)"

definition late_lease_le :: "runtime_lease_row option \<Rightarrow> runtime_lease_row option \<Rightarrow> bool" where
  "late_lease_le x y \<longleftrightarrow>
     (\<forall>l. x = Some l \<longrightarrow>
        (\<exists>l'. y = Some l' \<and> rl_fence_epoch l \<le> rl_fence_epoch l'
              \<and> (rl_fence_epoch l' = rl_fence_epoch l
                 \<longrightarrow> rl_owner l' = rl_owner l \<or> rl_owner l' = None)))"

definition late_rows_le :: "sync_db \<Rightarrow> sync_db \<Rightarrow> bool" where
  "late_rows_le db db' \<longleftrightarrow>
     (\<forall>r \<in> set (late_rows db). \<exists>r' \<in> set (late_rows db'). late_row_le r r')"

definition late_le :: "sync_db \<Rightarrow> sync_db \<Rightarrow> bool" where
  "late_le db db' \<longleftrightarrow>
     (late_wf db \<longrightarrow>
        late_wf db' \<and> late_rows_le db db' \<and> late_lease_le (late_lease db) (late_lease db'))"

lemma late_lease_le_refl [simp]: "late_lease_le x x"
  by (simp add: late_lease_le_def)

lemma late_lease_le_trans: "late_lease_le x y \<Longrightarrow> late_lease_le y z \<Longrightarrow> late_lease_le x z"
  unfolding late_lease_le_def by fastforce

lemma late_rows_le_same: "late_rows db' = late_rows db \<Longrightarrow> late_rows_le db db'"
  by (auto simp: late_rows_le_def intro: bexI [rotated])

lemma late_rows_le_trans: "late_rows_le a b \<Longrightarrow> late_rows_le b c \<Longrightarrow> late_rows_le a c"
  unfolding late_rows_le_def by (meson late_row_le_trans)

interpretation late: tx_preorder late_le
  by unfold_locales (auto simp: late_le_def late_rows_le_same
      intro: late_rows_le_trans late_lease_le_trans)

lemma late_le_frame:
  "outbox db' = outbox db \<Longrightarrow> late_rows db' = late_rows db \<Longrightarrow> late_lease db' = late_lease db \<Longrightarrow>
   late_le db db'"
  by (simp add: late_le_def late_wf_def late_rows_le_same)

text \<open>The outbox may change as long as every row keeps its memory and its mutation.\<close>

lemma late_current_outbox:
  assumes "late_current rows lates"
    and "\<And>r'. r' \<in> set rows' \<Longrightarrow> \<exists>r \<in> set rows. ob_memory r' = ob_memory r
      \<and> ob_mutation_sequence r' = ob_mutation_sequence r"
  shows "late_current rows' lates"
  using assms unfolding late_current_def by metis

lemma late_le_outbox:
  assumes "late_rows db' = late_rows db" and "late_lease db' = late_lease db"
    and "\<And>r'. r' \<in> set (outbox db') \<Longrightarrow> \<exists>r \<in> set (outbox db). ob_memory r' = ob_memory r
      \<and> ob_mutation_sequence r' = ob_mutation_sequence r"
  shows "late_le db db'"
  using late_current_outbox [of "outbox db" _ "outbox db'"] assms
  by (auto simp: late_le_def late_wf_def late_rows_le_same)

text \<open>A new mutation of a memory that has nothing unresolved.\<close>

lemma late_le_new_mutation:
  assumes frame: "late_rows db' = late_rows db" "late_lease db' = late_lease db"
    and rows: "\<And>r'. r' \<in> set (outbox db') \<Longrightarrow> ob_memory r' = (life, memory)
      \<or> (\<exists>r \<in> set (outbox db). ob_memory r' = ob_memory r
             \<and> ob_mutation_sequence r' = ob_mutation_sequence r)"
    and none: "\<forall>l \<in> set (late_rows db). \<not> late_of_memory life memory l"
  shows "late_le db db'"
proof -
  have "late_current (outbox db') (late_rows db)" if cur: "late_current (outbox db) (late_rows db)"
    unfolding late_current_def
  proof (intro ballI impI conjI)
    fix l assume l: "l \<in> set (late_rows db)" "\<not> late_terminal (lr_state l)"
    with none have other: "late_memory l \<noteq> (life, memory)"
      by (auto simp: late_of_memory_def late_memory_def)
    show "ob_mutation_sequence r' = li_mutation_sequence (lr_identity l)"
      if r': "r' \<in> set (outbox db')" "ob_memory r' = late_memory l" for r'
    proof -
      from rows [OF r'(1)] r'(2) other obtain r where "r \<in> set (outbox db)"
        "ob_memory r' = ob_memory r" "ob_mutation_sequence r' = ob_mutation_sequence r" by auto
      with cur l r'(2) show ?thesis unfolding late_current_def by (metis (no_types))
    qed
    show "li_mutation_sequence (lr_identity l') = li_mutation_sequence (lr_identity l)"
      if "l' \<in> set (late_rows db)" "\<not> late_terminal (lr_state l')" "late_memory l' = late_memory l"
      for l'
      using cur l that unfolding late_current_def by blast
  qed
  then show ?thesis
    by (simp add: late_le_def late_wf_def frame late_rows_le_same)
qed

section \<open>Updates of resolutions\<close>

lemma late_current_update:
  assumes "late_current rows lates"
    and "\<And>l. l \<in> set lates \<Longrightarrow> lr_identity (g l) = lr_identity l
      \<and> (late_terminal (lr_state l) \<longrightarrow> late_terminal (lr_state (g l)))"
  shows "late_current rows (map g lates)"
  using assms unfolding late_current_def late_memory_def by (simp, metis)

lemma late_le_update:
  assumes rows: "late_rows db' = map (\<lambda>r. if p r then g r else r) (late_rows db)"
    and frame: "outbox db' = outbox db" "late_lease db' = late_lease db"
    and check: "\<And>r. late_wf db \<Longrightarrow> r \<in> set (late_rows db) \<Longrightarrow> p r \<Longrightarrow> late_row_check (g r)"
    and le: "\<And>r. late_wf db \<Longrightarrow> r \<in> set (late_rows db) \<Longrightarrow> p r \<Longrightarrow> late_row_le r (g r)"
  shows "late_le db db'"
  unfolding late_le_def
proof (intro conjI impI)
  assume wf: "late_wf db"
  let ?g = "\<lambda>r. if p r then g r else r"
  have le': "late_row_le r (?g r)" if "r \<in> set (late_rows db)" for r
    using le [OF wf that] by simp
  have same: "lr_id (?g r) = lr_id r \<and> lr_identity (?g r) = lr_identity r
      \<and> (late_terminal (lr_state r) \<longrightarrow> late_terminal (lr_state (?g r)))"
    if "r \<in> set (late_rows db)" for r
    using le' [OF that] unfolding late_row_le_def by metis
  have "map lr_id (map ?g (late_rows db)) = map lr_id (late_rows db)"
    "map (late_key \<circ> lr_identity) (map ?g (late_rows db)) = map (late_key \<circ> lr_identity) (late_rows db)"
    using same by simp_all
  moreover have "late_current (outbox db) (map ?g (late_rows db))"
    by (rule late_current_update) (use wf same in \<open>auto simp: late_wf_def\<close>)
  moreover have "\<forall>r \<in> set (map ?g (late_rows db)). late_row_check r"
    using wf check by (auto simp: late_wf_def)
  ultimately show "late_wf db'"
    using wf by (simp del: map_map set_map add: late_wf_def rows frame)
  show "late_rows_le db db'"
    unfolding late_rows_le_def rows set_map
  proof
    fix r assume r: "r \<in> set (late_rows db)"
    with le' [OF r] show "\<exists>r' \<in> ?g ` set (late_rows db). late_row_le r r'" by blast
  qed
qed (simp_all add: frame)

lemma update_late_rows_Inr:
  "update_late_rows e p f env n db = Inr (changed, n', db') \<longleftrightarrow>
     sq_executes env n \<and> n' = Suc n \<and> changed = length (filter p (late_rows db))
     \<and> db' = db\<lparr>late_rows := map (\<lambda>r. if p r then f env n r else r) (late_rows db)\<rparr>
     \<and> (\<forall>r \<in> set (late_rows db). p r \<longrightarrow> late_row_check (f env n r))"
  by (auto simp: update_late_rows_def tx_stmt_Inr sql_update_def Let_def list_ex_iff split: if_splits)

lemma update_late_rows_le:
  assumes "update_late_rows e p f env n db = Inr (changed, n', db')"
    and "\<And>r. late_wf db \<Longrightarrow> r \<in> set (late_rows db) \<Longrightarrow> p r \<Longrightarrow> late_row_le r (f env n r)"
  shows "late_le db db'"
  using assms by (intro late_le_update [of db' p "f env n" db]) (auto simp: update_late_rows_Inr)

lemma rel_late_update:
  assumes "\<And>env n r. late_row_check r \<Longrightarrow> p r \<Longrightarrow> late_row_le r (f env n r)"
  shows "tx_rel late_le (update_late_rows e p f)"
  by (rule tx_relI) (erule update_late_rows_le, rule assms, auto simp: late_wf_def)

text \<open>A row that was just read by its id is the only one with it.\<close>

lemma late_wf_id:
  "late_wf db \<Longrightarrow> r \<in> set (late_rows db) \<Longrightarrow> q \<in> set (late_rows db) \<Longrightarrow> lr_id r = lr_id q \<Longrightarrow> r = q"
  by (auto simp: late_wf_def distinct_map inj_on_def)

section \<open>The outbox creates and supersedes resolutions\<close>

lemma late_current_outboxD:
  "late_current rows lates \<Longrightarrow> l \<in> set lates \<Longrightarrow> \<not> late_terminal (lr_state l) \<Longrightarrow> r \<in> set rows \<Longrightarrow>
   ob_memory r = late_memory l \<Longrightarrow> ob_mutation_sequence r = li_mutation_sequence (lr_identity l)"
  unfolding late_current_def by blast

lemma late_current_lateD:
  "late_current rows lates \<Longrightarrow> l \<in> set lates \<Longrightarrow> \<not> late_terminal (lr_state l) \<Longrightarrow>
   l' \<in> set lates \<Longrightarrow> \<not> late_terminal (lr_state l') \<Longrightarrow> late_memory l' = late_memory l \<Longrightarrow>
   li_mutation_sequence (lr_identity l') = li_mutation_sequence (lr_identity l)"
  unfolding late_current_def by blast

lemma late_current_append:
  assumes cur: "late_current rows lates"
    and none: "\<And>m. m \<in> set lates \<Longrightarrow> late_memory m = late_memory l \<Longrightarrow> late_terminal (lr_state m)"
    and same: "\<And>q. q \<in> set rows \<Longrightarrow> ob_memory q = late_memory l \<Longrightarrow>
      ob_mutation_sequence q = li_mutation_sequence (lr_identity l)"
  shows "late_current rows (lates @ [l])"
  unfolding late_current_def
proof (intro ballI impI conjI)
  fix m
  assume m: "m \<in> set (lates @ [l])" "\<not> late_terminal (lr_state m)"
  show "ob_mutation_sequence q = li_mutation_sequence (lr_identity m)"
    if "q \<in> set rows" "ob_memory q = late_memory m" for q
  proof (cases "m = l")
    case True
    with same [of q] that show ?thesis by simp
  next
    case False
    with m have "m \<in> set lates" by simp
    with cur show ?thesis using m(2) that by (rule late_current_outboxD)
  qed
  show "li_mutation_sequence (lr_identity q) = li_mutation_sequence (lr_identity m)"
    if q: "q \<in> set (lates @ [l])" "\<not> late_terminal (lr_state q)" "late_memory q = late_memory m" for q
  proof (cases "m = l")
    case True
    with q none [of q] have "q = l" by (cases "q = l") auto
    with True show ?thesis by simp
  next
    case False
    with m q none have "q \<noteq> l" "q \<in> set lates" "m \<in> set lates" by auto
    with cur m(2) q(2,3) show ?thesis by (intro late_current_lateD [OF cur])
  qed
qed

lemma late_le_append:
  assumes rows: "late_rows db' = late_rows db @ [l]"
    and frame: "outbox db' = outbox db" "late_lease db' = late_lease db"
    and fresh: "lr_id l \<notin> set (map lr_id (late_rows db))"
      "late_key (lr_identity l) \<notin> set (map (late_key \<circ> lr_identity) (late_rows db))"
    and check: "late_row_check l"
    and src: "r \<in> set (outbox db)" "ob_memory r = late_memory l"
      "ob_mutation_sequence r = li_mutation_sequence (lr_identity l)"
    and unique: "distinct (map ob_memory (outbox db))"
  shows "late_le db db'"
  unfolding late_le_def
proof (intro conjI impI)
  assume wf: "late_wf db"
  have mem: "ob_memory r = late_memory l" "r \<in> set (outbox db)" by (fact src)+
  have same: "q = r" if "q \<in> set (outbox db)" "ob_memory q = late_memory l" for q
    using that src unique by (auto simp: distinct_map inj_on_def)
  have none: "late_terminal (lr_state m)" if m: "m \<in> set (late_rows db)" "late_memory m = late_memory l" for m
  proof (rule ccontr)
    assume "\<not> late_terminal (lr_state m)"
    with wf m src have "li_mutation_sequence (lr_identity m) = li_mutation_sequence (lr_identity l)"
      by (metis late_current_outboxD late_wf_def)
    with m(2) have "late_key (lr_identity m) = late_key (lr_identity l)"
      by (simp add: late_key_def late_memory_def)
    with m(1) have "late_key (lr_identity l) \<in> set (map (late_key \<circ> lr_identity) (late_rows db))"
      by (metis comp_apply image_eqI set_map)
    with fresh(2) show False by simp
  qed
  have "late_current (outbox db) (late_rows db @ [l])"
  proof (rule late_current_append)
    show "late_current (outbox db) (late_rows db)" using wf by (simp add: late_wf_def)
    show "ob_mutation_sequence q = li_mutation_sequence (lr_identity l)"
      if "q \<in> set (outbox db)" "ob_memory q = late_memory l" for q
      using same [OF that] src(3) by simp
  qed (rule none)
  with wf fresh check show "late_wf db'"
    by (auto simp: late_wf_def rows frame)
  show "late_rows_le db db'"
    by (auto simp: late_rows_le_def rows intro: bexI [rotated])
qed (simp_all add: frame)

lemma late_row_le_supersede [simp]:
  "\<not> late_terminal (lr_state r) \<Longrightarrow> late_row_check r \<Longrightarrow> late_row_le r (late_supersede now r)"
  by (rule late_row_le_settle) (simp_all add: late_supersede_def late_row_check_def)

end
