(* ===== verification/Vector_Sync_Evolution.thy ===== *)
theory Vector_Sync_Evolution
  imports Vector_Sync_Queue Late_Delete_Order
begin

text \<open>
  What every operation of the outbox does to the tables, as one preorder: a row keeps the mutation
  it stands for until a new one replaces it, its claim epoch never falls, an Attempt is counted
  together with the epoch it was reserved under, and a row enters \<open>processing\<close> only with a new claim
  epoch; the mutation clock and the fence of the consumer's lease never fall. The resolutions of
  late deletes follow the order of Late_Delete_Order.
\<close>

section \<open>Rows\<close>

definition same_mutation :: "outbox_row \<Rightarrow> outbox_row \<Rightarrow> bool" where
  "same_mutation r r' \<longleftrightarrow>
     ob_id r' = ob_id r \<and> ob_life_id r' = ob_life_id r \<and> ob_memory_id r' = ob_memory_id r
     \<and> ob_action r' = ob_action r \<and> ob_mutation_sequence r' = ob_mutation_sequence r
     \<and> ob_target_revision r' = ob_target_revision r
     \<and> ob_target_content_hash r' = ob_target_content_hash r"

definition row_le :: "outbox_row \<Rightarrow> outbox_row \<Rightarrow> bool" where
  "row_le r r' \<longleftrightarrow>
     same_mutation r r'
     \<and> ob_fenced_claim_epoch r \<le> ob_fenced_claim_epoch r'
     \<and> (ob_attempt_count r' = ob_attempt_count r
          \<and> ob_last_marked_claim_epoch r' = ob_last_marked_claim_epoch r
        \<or> ob_attempt_count r < ob_attempt_count r'
          \<and> ob_last_marked_claim_epoch r < ob_last_marked_claim_epoch r')
     \<and> (ob_fenced_claim_epoch r' = ob_fenced_claim_epoch r \<and> ob_state r' = Processing
        \<longrightarrow> ob_state r = Processing)"

lemma row_le_refl [simp]: "row_le r r"
  by (simp add: row_le_def same_mutation_def)

lemma row_le_trans: "row_le r1 r2 \<Longrightarrow> row_le r2 r3 \<Longrightarrow> row_le r1 r3"
  unfolding row_le_def same_mutation_def by (elim conjE) (intro conjI impI; simp; linarith?)

lemma row_le_same: "row_le r r' \<Longrightarrow> same_mutation r r'"
  by (simp add: row_le_def)

text \<open>An update that releases a row, or changes nothing that is compared.\<close>

lemma row_le_release [simp, intro]:
  "s \<noteq> Processing \<Longrightarrow> row_le r (ob_release s now r)"
  by (simp add: row_le_def same_mutation_def ob_release_def)

lemma row_le_block [simp, intro]: "row_le r (ob_block code now r)"
  by (simp add: row_le_def same_mutation_def ob_release_def ob_block_def)

lemma row_le_lease [simp, intro]: "row_le r (ob_lease owner fence env n r)"
  by (simp add: row_le_def same_mutation_def ob_lease_def)

lemma row_le_reserve:
  "ob_last_marked_claim_epoch r < ob_fenced_claim_epoch r \<Longrightarrow> row_le r (ob_reserve now r)"
  by (simp add: row_le_def same_mutation_def ob_reserve_def)

lemma row_le_witness [simp, intro]: "row_le r (ob_witness now r)"
  by (simp add: row_le_def same_mutation_def ob_witness_def)

lemma row_le_legacy [simp, intro]:
  "s \<noteq> Processing \<Longrightarrow> row_le r (ob_legacy_settle s next_at code now r)"
  by (simp add: row_le_def same_mutation_def ob_legacy_settle_def)

section \<open>Tables\<close>

definition outbox_wf :: "sync_db \<Rightarrow> bool" where
  "outbox_wf db \<longleftrightarrow>
     distinct (map ob_id (outbox db))
     \<and> distinct (map ob_mutation_sequence (outbox db))
     \<and> distinct (map (\<lambda>r. (ob_life_id r, ob_memory_id r)) (outbox db))
     \<and> (\<forall>r \<in> set (outbox db). ob_id r \<le> outbox_sequence db)
     \<and> (\<exists>s. mutation_clock db = Some s \<and> (\<forall>r \<in> set (outbox db). ob_mutation_sequence r \<le> s))"

definition lease_le :: "runtime_lease_row option \<Rightarrow> runtime_lease_row option \<Rightarrow> bool" where
  "lease_le x y \<longleftrightarrow>
     (\<forall>l. x = Some l \<longrightarrow>
        (\<exists>l'. y = Some l' \<and> rl_fence_epoch l \<le> rl_fence_epoch l'
              \<and> (rl_fence_epoch l' = rl_fence_epoch l \<longrightarrow> rl_owner l' = rl_owner l)))"

definition rows_le :: "(outbox_row \<Rightarrow> outbox_row \<Rightarrow> bool) \<Rightarrow> sync_db \<Rightarrow> sync_db \<Rightarrow> bool" where
  "rows_le rr db db' \<longleftrightarrow>
     (\<forall>r' \<in> set (outbox db').
        (\<exists>r \<in> set (outbox db). rr r r')
        \<or> (\<forall>s. mutation_clock db = Some s \<longrightarrow> s < ob_mutation_sequence r'))"

definition clock_le :: "sync_db \<Rightarrow> sync_db \<Rightarrow> bool" where
  "clock_le db db' \<longleftrightarrow>
     (\<forall>s. mutation_clock db = Some s \<longrightarrow> (\<exists>s'. mutation_clock db' = Some s' \<and> s \<le> s'))"

text \<open>Tables with well-formed keys evolve along a relation of rows.\<close>

definition outbox_le :: "(outbox_row \<Rightarrow> outbox_row \<Rightarrow> bool) \<Rightarrow> sync_db \<Rightarrow> sync_db \<Rightarrow> bool" where
  "outbox_le rr db db' \<longleftrightarrow>
     (outbox_wf db \<longrightarrow> outbox_wf db' \<and> late_le db db') \<and> rows_le rr db db' \<and> clock_le db db'
     \<and> lease_le (runtime_lease db) (runtime_lease db')"

abbreviation sync_le :: "sync_db \<Rightarrow> sync_db \<Rightarrow> bool" where
  "sync_le \<equiv> outbox_le row_le"

lemma lease_le_refl [simp]: "lease_le x x"
  by (simp add: lease_le_def)

lemma lease_le_trans: "lease_le x y \<Longrightarrow> lease_le y z \<Longrightarrow> lease_le x z"
  unfolding lease_le_def by fastforce

lemma clock_le_trans: "clock_le a b \<Longrightarrow> clock_le b c \<Longrightarrow> clock_le a c"
  unfolding clock_le_def by fastforce

lemma rows_leI:
  "(\<And>r'. r' \<in> set (outbox db') \<Longrightarrow> \<exists>r \<in> set (outbox db). rr r r') \<Longrightarrow> rows_le rr db db'"
  by (simp add: rows_le_def)

lemma clock_le_same: "mutation_clock db' = mutation_clock db \<Longrightarrow> clock_le db db'"
  by (simp add: clock_le_def)

lemma rows_le_trans:
  assumes rr: "\<And>r1 r2 r3. rr r1 r2 \<Longrightarrow> rr r2 r3 \<Longrightarrow> rr r1 r3"
    and same: "\<And>r r'. rr r r' \<Longrightarrow> same_mutation r r'"
    and "rows_le rr a b" and "rows_le rr b c" and "clock_le a b"
  shows "rows_le rr a c"
  unfolding rows_le_def
proof
  fix r'' assume "r'' \<in> set (outbox c)"
  with assms(4) consider
      (old) r' where "r' \<in> set (outbox b)" "rr r' r''"
    | (new) "\<forall>s. mutation_clock b = Some s \<longrightarrow> s < ob_mutation_sequence r''"
    unfolding rows_le_def by blast
  then show "(\<exists>r \<in> set (outbox a). rr r r'')
      \<or> (\<forall>s. mutation_clock a = Some s \<longrightarrow> s < ob_mutation_sequence r'')"
  proof cases
    case old
    then have "ob_mutation_sequence r'' = ob_mutation_sequence r'"
      using same by (simp add: same_mutation_def)
    with old assms(3) show ?thesis unfolding rows_le_def by (metis rr)
  next
    case new
    with assms(5) show ?thesis unfolding clock_le_def by force
  qed
qed

lemma outbox_wf_map:
  assumes wf: "outbox_wf db" and g: "\<And>r. r \<in> set (outbox db) \<Longrightarrow> same_mutation r (g r)"
  shows "outbox_wf (db\<lparr>outbox := map g (outbox db)\<rparr>)"
proof -
  have keys: "map ob_id (map g (outbox db)) = map ob_id (outbox db)"
    "map ob_mutation_sequence (map g (outbox db)) = map ob_mutation_sequence (outbox db)"
    "map (\<lambda>r. (ob_life_id r, ob_memory_id r)) (map g (outbox db))
       = map (\<lambda>r. (ob_life_id r, ob_memory_id r)) (outbox db)"
    using g by (auto simp: same_mutation_def)
  have "\<forall>r \<in> set (outbox db). ob_id (g r) = ob_id r
      \<and> ob_mutation_sequence (g r) = ob_mutation_sequence r"
    using g by (auto simp: same_mutation_def)
  with wf show ?thesis
    by (simp del: map_map add: outbox_wf_def keys)
qed

lemma outbox_wf_filter:
  "outbox_wf db \<Longrightarrow> outbox_wf (db\<lparr>outbox := filter p (outbox db)\<rparr>)"
  by (auto simp: outbox_wf_def distinct_map_filter)

text \<open>The insert adds one resolution for a row of the outbox, or nothing.\<close>

lemma late_insert_Inr:
  assumes "late_insert e i env n db = Inr (x, n', db')"
  shows "db' = db \<or> (\<exists>r l. r \<in> set (outbox db) \<and> ob_memory r = late_memory l
      \<and> ob_mutation_sequence r = li_mutation_sequence (lr_identity l)
      \<and> db' = db\<lparr>late_rows := late_rows db @ [l]\<rparr> \<and> late_row_check l
      \<and> lr_id l \<notin> set (map lr_id (late_rows db))
      \<and> late_key (lr_identity l) \<notin> set (map (late_key \<circ> lr_identity) (late_rows db)))"
proof (cases "find (\<lambda>r. ob_id r = i) (outbox db)")
  case (Some r)
  then have mem: "r \<in> set (outbox db)" by (auto simp: find_Some_iff)
  show ?thesis
  proof (cases "find (\<lambda>g. Some (gn_id g) = ob_claimed_generation_id r) (generations db)")
    case (Some g)
    let ?l = "late_row_of (sq_rowid env) r g"
    have "ob_memory r = late_memory ?l"
      "ob_mutation_sequence r = li_mutation_sequence (lr_identity ?l)"
      by (simp_all add: ob_memory_def late_memory_def late_row_of_def late_identity_of_def Let_def)
    moreover have "db' = db \<or> db' = db\<lparr>late_rows := late_rows db @ [?l]\<rparr> \<and> late_row_check ?l
        \<and> lr_id ?l \<notin> set (map lr_id (late_rows db))
        \<and> late_key (lr_identity ?l) \<notin> set (map (late_key \<circ> lr_identity) (late_rows db))"
      using assms Some \<open>find _ (outbox db) = Some r\<close>
      by (auto simp: late_insert_def tx_stmt_Inr Let_def split: if_splits)
    ultimately show ?thesis using mem by blast
  qed (use assms Some in \<open>auto simp: late_insert_def tx_stmt_Inr\<close>)
qed (use assms in \<open>auto simp: late_insert_def tx_stmt_Inr\<close>)

lemma rel_claim_current [tx_rel_intros]: "tx_preorder R \<Longrightarrow> tx_rel R (fenced_claim_current_in c)"
  unfolding fenced_claim_current_in_def
  by (intro tx_preorder.rel_bind tx_preorder.rel_query tx_preorder.rel_return)

lemma rel_inspect_with:
  "tx_preorder R \<Longrightarrow> (\<And>c row. tx_rel R (on_broken c row)) \<Longrightarrow>
   tx_rel R (inspect_fenced_generation_binding_with on_broken c)"
  unfolding inspect_fenced_generation_binding_with_def generation_binding_row_for_claim_in_def
  by (intro tx_preorder.rel_bind tx_preorder.rel_query tx_preorder.rel_return
      tx_preorder.rel_option tx_preorder.rel_if rel_claim_current)

text \<open>The currency of a token is decided without a write.\<close>

lemma rel_token_current [tx_rel_intros]:
  "tx_preorder R \<Longrightarrow> tx_rel R (fenced_attempt_token_current_in c t)"
  unfolding fenced_attempt_token_current_in_def inspect_fenced_generation_binding_read_only_in_def
    Let_def
  by (intro tx_preorder.rel_bind tx_preorder.rel_return tx_preorder.rel_if rel_inspect_with)

section \<open>The evolution along a relation of rows\<close>

text \<open>A relation of rows covers the failures of a token when it holds of every row a report settles.\<close>

definition covers_failure :: "(outbox_row \<Rightarrow> outbox_row \<Rightarrow> bool) \<Rightarrow> attempt_token \<Rightarrow> bool" where
  "covers_failure rr t \<longleftrightarrow>
     (\<forall>db now r s at f e d. token_finalize_identity t now db r \<longrightarrow> s \<noteq> Processing \<longrightarrow>
        rr r ((ob_release s at r)\<lparr>ob_next_attempt_at := f, ob_last_error_code := e,
                                    ob_last_send_disposition := d\<rparr>))"

text \<open>
  The changes the operations make to a row, except the report of a failure. A relation of rows
  that holds of them holds of every operation.
\<close>

locale outbox_evolution =
  fixes rr :: "outbox_row \<Rightarrow> outbox_row \<Rightarrow> bool"
  assumes rr_refl: "rr r r"
    and rr_trans: "rr r1 r2 \<Longrightarrow> rr r2 r3 \<Longrightarrow> rr r1 r3"
    and rr_same: "rr r r' \<Longrightarrow> same_mutation r r'"
    and rr_block: "rr r (ob_block code now r)"
    and rr_malformed: "rr r (ob_block code now (if b then ob_unbind r else r))"
    and rr_recover: "rr r (recover_row (recovery_of s) now r)"
    and rr_recover_ephemeral: "rr r (ob_unbind (ob_release Pending now r))"
    and rr_reserve:
      "ob_last_marked_claim_epoch r < ob_fenced_claim_epoch r \<Longrightarrow> rr r (ob_reserve now r)"
    and rr_witness: "rr r (ob_witness now r)"
    and rr_stale:
      "ob_attempt_count r = 0 \<Longrightarrow>
       rr r ((ob_unbind (ob_block code now r))\<lparr>ob_last_send_disposition := d\<rparr>)"
    and rr_retry: "rr r ((ob_release Pending now r)\<lparr>ob_last_error_code := c\<rparr>)"
    and rr_legacy: "state \<noteq> Processing \<Longrightarrow> rr r (ob_legacy_settle state next_at code now r)"
    and rr_release_expired:
      "rr r (r\<lparr>ob_state := Pending, ob_lease_owner := None, ob_lease_expires_at := None,
               ob_updated_at := now\<rparr>)"
    and rr_lease: "rr r (ob_lease owner fence env n r)"
    and rr_lease_unbound:
      "ob_attempt_count r = 0 \<Longrightarrow>
       rr r ((ob_lease owner fence env n r)
         \<lparr>ob_claimed_generation_id := g, ob_claimed_authority_epoch := a,
          ob_last_send_disposition := d\<rparr>)"
begin

lemma rows_le_subset: "set (outbox db') \<subseteq> set (outbox db) \<Longrightarrow> rows_le rr db db'"
  by (rule rows_leI) (use rr_refl in blast)

end

sublocale outbox_evolution \<subseteq> tx_preorder "outbox_le rr"
proof
  show "outbox_le rr db db" for db
    by (simp add: outbox_le_def rows_le_subset clock_le_same late.pre_refl)
  show "outbox_le rr a c" if "outbox_le rr a b" "outbox_le rr b c" for a b c
    using that rows_le_trans [of rr a b c] rr_trans rr_same unfolding outbox_le_def
    by (meson clock_le_trans lease_le_trans late.pre_trans)
qed

context outbox_evolution
begin

lemma le_trans: "outbox_le rr a b \<Longrightarrow> outbox_le rr b c \<Longrightarrow> outbox_le rr a c"
  by (rule pre_trans)

subsection \<open>Statements\<close>

text \<open>A statement that leaves the outbox, its clock, the lease and the resolutions alone.\<close>

lemma le_frame:
  "outbox db' = outbox db \<Longrightarrow> outbox_sequence db' = outbox_sequence db \<Longrightarrow>
   mutation_clock db' = mutation_clock db \<Longrightarrow> runtime_lease db' = runtime_lease db \<Longrightarrow>
   late_rows db' = late_rows db \<Longrightarrow> late_lease db' = late_lease db \<Longrightarrow>
   outbox_le rr db db'"
  by (simp add: outbox_le_def rows_le_subset clock_le_same outbox_wf_def late_le_frame)

text \<open>A statement on the resolutions.\<close>

lemma le_late:
  "outbox db' = outbox db \<Longrightarrow> outbox_sequence db' = outbox_sequence db \<Longrightarrow>
   mutation_clock db' = mutation_clock db \<Longrightarrow> runtime_lease db' = runtime_lease db \<Longrightarrow>
   (outbox_wf db \<Longrightarrow> late_le db db') \<Longrightarrow> outbox_le rr db db'"
  by (simp add: outbox_le_def rows_le_subset clock_le_same outbox_wf_def)

lemma rel_update_outbox:
  assumes "\<And>env n db r. p env (sq_now env n) db r \<Longrightarrow> rr r (f env n r)"
  shows "tx_rel (outbox_le rr) (update_outbox e p f)"
proof (rule tx_relI)
  fix env n db x n' db'
  assume "update_outbox e p f env n db = Inr (x, n', db')"
  then have db': "db' = db\<lparr>outbox := map (\<lambda>r. if p env (sq_now env n) db r then f env n r else r)
      (outbox db)\<rparr>"
    by (auto simp: update_outbox_def tx_stmt_Inr sql_update_def Let_def split: if_splits)
  have le: "rr r (if p env (sq_now env n) db r then f env n r else r)" for r
    using assms by (simp add: rr_refl)
  show "outbox_le rr db db'"
    unfolding outbox_le_def db'
  proof (intro conjI impI)
    show "outbox_wf (db\<lparr>outbox := map (\<lambda>r. if p env (sq_now env n) db r then f env n r else r)
        (outbox db)\<rparr>)" if "outbox_wf db"
      by (rule outbox_wf_map [OF that]) (rule rr_same [OF le])
    have same: "same_mutation r (if p env (sq_now env n) db r then f env n r else r)" for r
      using rr_same [OF le] .
    show "late_le db (db\<lparr>outbox := map (\<lambda>r. if p env (sq_now env n) db r then f env n r else r)
        (outbox db)\<rparr>)"
    proof (rule late_le_outbox)
      fix r' assume "r' \<in> set (outbox (db\<lparr>outbox :=
          map (\<lambda>r. if p env (sq_now env n) db r then f env n r else r) (outbox db)\<rparr>))"
      then obtain r where r: "r \<in> set (outbox db)"
        "r' = (if p env (sq_now env n) db r then f env n r else r)" by auto
      then have "same_mutation r r'" using same by metis
      with r(1) show "\<exists>r \<in> set (outbox db). ob_memory r' = ob_memory r
          \<and> ob_mutation_sequence r' = ob_mutation_sequence r"
        by (intro bexI [of _ r]) (simp_all add: same_mutation_def ob_memory_def)
    qed simp_all
  next
    show "rows_le rr db (db\<lparr>outbox := map (\<lambda>r. if p env (sq_now env n) db r then f env n r else r)
        (outbox db)\<rparr>)"
    proof (rule rows_leI)
      fix r' assume "r' \<in> set (outbox (db\<lparr>outbox :=
          map (\<lambda>r. if p env (sq_now env n) db r then f env n r else r) (outbox db)\<rparr>))"
      then obtain r where "r \<in> set (outbox db)"
        "r' = (if p env (sq_now env n) db r then f env n r else r)" by auto
      with le show "\<exists>r \<in> set (outbox db). rr r r'" by metis
    qed
  qed (simp_all add: clock_le_same)
qed

lemma rel_delete_outbox [tx_rel_intros]: "tx_rel (outbox_le rr) (delete_outbox e p)"
  by (rule tx_relI)
    (auto simp: delete_outbox_def tx_stmt_Inr outbox_le_def
      intro!: outbox_wf_filter rows_le_subset clock_le_same late_le_outbox)

lemma rel_stmt_frame:
  assumes "\<And>env n db x db'. f env n db = Some (x, db') \<Longrightarrow>
    outbox db' = outbox db \<and> outbox_sequence db' = outbox_sequence db
    \<and> mutation_clock db' = mutation_clock db \<and> runtime_lease db' = runtime_lease db
    \<and> late_rows db' = late_rows db \<and> late_lease db' = late_lease db"
  shows "tx_rel (outbox_le rr) (tx_stmt e f)"
  by (rule tx_relI) (use assms in \<open>auto simp: tx_stmt_Inr intro!: le_frame\<close>)

lemma le_lease:
  "lease_le (runtime_lease db) l \<Longrightarrow> outbox_le rr db (db\<lparr>runtime_lease := l\<rparr>)"
  by (simp add: outbox_le_def rows_le_subset clock_le_same outbox_wf_def late_le_frame)

lemma rel_update_runtime_lease:
  assumes "\<And>env n l. p (sq_now env n) l \<Longrightarrow> lease_le (Some l) (Some (f env n l))"
  shows "tx_rel (outbox_le rr) (update_runtime_lease p f)"
  by (rule tx_relI)
    (use assms in \<open>auto simp: update_runtime_lease_def tx_stmt_Inr pre_refl
      split: option.splits if_splits intro!: le_lease\<close>)

lemma rel_late_insert [tx_rel_intros]: "tx_rel (outbox_le rr) (late_insert e i)"
proof (rule tx_relI)
  fix env n db x n' db'
  assume ins: "late_insert e i env n db = Inr (x, n', db')"
  show "outbox_le rr db db'"
  proof (cases "db' = db")
    case False
    with late_insert_Inr [OF ins] obtain o' l where
      o': "o' \<in> set (outbox db)" "ob_memory o' = late_memory l"
        "ob_mutation_sequence o' = li_mutation_sequence (lr_identity l)"
      and l: "db' = db\<lparr>late_rows := late_rows db @ [l]\<rparr>" "late_row_check l"
        "lr_id l \<notin> set (map lr_id (late_rows db))"
        "late_key (lr_identity l) \<notin> set (map (late_key \<circ> lr_identity) (late_rows db))"
      by blast
    show ?thesis
    proof (rule le_late)
      assume "outbox_wf db"
      then have "distinct (map ob_memory (outbox db))" by (simp add: outbox_wf_def ob_memory_def [abs_def])
      then show "late_le db db'"
        using late_le_append [of db' db l o'] o' l by simp
    qed (simp_all add: l)
  qed (simp add: pre_refl)
qed

lemma rel_upsert_item [tx_rel_intros]: "tx_rel (outbox_le rr) (upsert_generation_item t r h now)"
  unfolding upsert_generation_item_def by (rule rel_stmt_frame) (auto split: if_splits)

lemma rel_delete_item [tx_rel_intros]: "tx_rel (outbox_le rr) (delete_generation_item t now)"
  unfolding delete_generation_item_def
  by (rule rel_stmt_frame) (auto split: if_splits simp: Let_def)

subsection \<open>The scans and the lease\<close>

lemma rel_select_runtime_fence [tx_rel_intros]: "tx_rel (outbox_le rr) (select_runtime_fence owner)"
  unfolding select_runtime_fence_def by (intro tx_rel_intros)

lemma rel_acquire_runtime_lease [tx_rel_intros]: "tx_rel (outbox_le rr) (acquire_runtime_lease owner)"
  unfolding acquire_runtime_lease_def
proof (intro tx_rel_intros rel_update_runtime_lease)
  show "tx_rel (outbox_le rr) (tx_stmt VectorSyncUnavailable (\<lambda>env n db.
      Some ((), case runtime_lease db of
                  None \<Rightarrow> db\<lparr>runtime_lease := Some
                    \<lparr>rl_owner = None, rl_fence_epoch = 0, rl_expires_at = None\<rparr>\<rparr>
                | Some _ \<Rightarrow> db)))"
    by (rule tx_relI)
      (auto simp: tx_stmt_Inr pre_refl lease_le_def split: option.splits intro!: le_lease)
qed (auto simp: lease_le_def)

lemma rel_block_scan [tx_rel_intros]:
  "tx_rel (outbox_le rr) (block_generation_binding_scan_snapshot_in row)"
  unfolding block_generation_binding_scan_snapshot_in_def Let_def
  by (intro tx_rel_intros rel_update_outbox rr_block)

lemma rel_converge_row [tx_rel_intros]:
  "tx_rel (outbox_le rr) (converge_exhausted_attempt_budget_row_in row)"
  unfolding converge_exhausted_attempt_budget_row_in_def
  by (intro tx_rel_intros rel_update_outbox rr_block)

lemma rel_binding_rows [tx_rel_intros]: "tx_rel (outbox_le rr) (generation_binding_rows_in e p)"
  unfolding generation_binding_rows_in_def by (intro tx_rel_intros)

lemma rel_quarantine [tx_rel_intros]: "tx_rel (outbox_le rr) quarantine_generation_binding_invariants_in"
  unfolding quarantine_generation_binding_invariants_in_def by (intro tx_rel_intros)

lemma rel_converge [tx_rel_intros]: "tx_rel (outbox_le rr) converge_exhausted_attempt_budget_in"
  unfolding converge_exhausted_attempt_budget_in_def by (intro tx_rel_intros)

lemma rel_quarantine_malformed [tx_rel_intros]:
  "tx_rel (outbox_le rr) quarantine_malformed_target_bindings_in"
  unfolding quarantine_malformed_target_bindings_in_def Let_def
  by (intro tx_rel_intros rel_update_outbox rr_malformed)

lemma rel_recover_one [tx_rel_intros]: "tx_rel (outbox_le rr) (recover_one_in now row)"
  unfolding recover_one_in_def Let_def
  by (cases "ob_phase row"; simp only: generation_binding_phase.case)
    (intro tx_rel_intros rel_update_outbox rr_recover rr_recover_ephemeral)+

lemma rel_recover [tx_rel_intros]: "tx_rel (outbox_le rr) (recover_expired_fenced_processing_in cutoff)"
  unfolding recover_expired_fenced_processing_in_def by (intro tx_rel_intros)

subsection \<open>Claims, reservations, settlements\<close>

lemma rel_block_candidate [tx_rel_intros]:
  "tx_rel (outbox_le rr) (block_claim_candidate_identity_in c)"
  unfolding block_claim_candidate_identity_in_def
  by (intro tx_rel_intros rel_update_outbox rr_block)

lemma rel_granted_claim [tx_rel_intros]: "tx_rel (outbox_le rr) (granted_claim_in c d dim changed)"
  unfolding granted_claim_in_def by (intro tx_rel_intros)

lemma rel_claim_unbound [tx_rel_intros]: "tx_rel (outbox_le rr) (claim_unbound_in c g a owner fence)"
  unfolding claim_unbound_in_def by (intro rel_update_outbox rr_lease_unbound) simp

lemma rel_claim_durable [tx_rel_intros]: "tx_rel (outbox_le rr) (claim_durable_in c g a owner fence)"
  unfolding claim_durable_in_def by (intro rel_update_outbox rr_lease)

lemma rel_claim_candidate [tx_rel_intros]:
  "tx_rel (outbox_le rr) (claim_candidate_in c g d dim owner a fence)"
  unfolding claim_candidate_in_def
  by (cases "ob_phase c"; simp only: generation_binding_phase.case) (intro tx_rel_intros)+

lemma rel_claim [tx_rel_intros]: "tx_rel (outbox_le rr) (claim_tx g d dim owner cutoff a)"
  unfolding claim_tx_def select_claim_candidate_def by (intro tx_rel_intros)

lemma rel_block_claim [tx_rel_intros]:
  "tx_rel (outbox_le rr) (block_generation_binding_claim_identity_in c row)"
  unfolding block_generation_binding_claim_identity_in_def
  by (intro tx_rel_intros rel_update_outbox rr_block)

lemma rel_inspect [tx_rel_intros]: "tx_rel (outbox_le rr) (inspect_fenced_generation_binding_in c)"
  unfolding inspect_fenced_generation_binding_in_def
  by (rule rel_inspect_with [OF tx_preorder_axioms rel_block_claim])

lemma rel_block_exhausted [tx_rel_intros]:
  "tx_rel (outbox_le rr) (block_exhausted_attempt_budget_for_claim_in c row)"
  unfolding block_exhausted_attempt_budget_for_claim_in_def
  by (intro tx_rel_intros rel_update_outbox rr_block)

lemma rel_reserve [tx_rel_intros]: "tx_rel (outbox_le rr) (reserve_fenced_attempt_in c)"
proof -
  have "tx_rel (outbox_le rr) (update_outbox VectorSyncUnavailable
      (\<lambda>env now db r. binding_row_identity_with_epochs row r
         \<and> ob_attempt_count r < MAX_VECTOR_SYNC_ATTEMPTS
         \<and> ob_last_marked_claim_epoch r < ob_fenced_claim_epoch r)
      (\<lambda>env n. ob_reserve (sq_now env n)))" for row
    by (rule rel_update_outbox) (simp add: rr_reserve)
  then show ?thesis
    unfolding reserve_fenced_attempt_in_def
    apply (intro tx_rel_intros)
    subgoal for x row
      by (cases "ob_identity_phase row"; simp only: attempt_identity_phase.case)
        (intro tx_rel_intros, assumption?)+
    done
qed

lemma rel_ensure [tx_rel_intros]:
  "tx_rel (outbox_le rr) (ensure_runtime_resolution_for_delete_unknown_in i)"
  unfolding ensure_runtime_resolution_for_delete_unknown_in_def by (intro tx_rel_intros)

lemma rel_now [tx_rel_intros]: "tx_rel (outbox_le rr) (authoritative_now_in e)"
  unfolding authoritative_now_in_def by (intro tx_rel_intros)

lemma rel_delete_attempt [tx_rel_intros]:
  "tx_rel (outbox_le rr) (delete_fenced_attempt_outbox_in t now)"
  unfolding delete_fenced_attempt_outbox_in_def by (intro tx_rel_intros)

lemma rel_finalize [tx_rel_intros]: "tx_rel (outbox_le rr) (finalize_tx t)"
  unfolding finalize_tx_def
  by (cases "fc_action (at_claim t)"; simp only: sync_action.case)
    (intro tx_rel_intros tx_preorder_axioms)+

text \<open>The report of a failure, for a relation that covers the row of its token.\<close>

lemma rel_failure:
  assumes "covers_failure rr t"
  shows "tx_rel (outbox_le rr) (failure_tx t code dec d now cutoff)"
proof -
  have "tx_rel (outbox_le rr) (fail_update t code d now next_at)" for code now next_at
    unfolding fail_update_def
  proof (rule rel_update_outbox)
    fix env n db r assume id: "token_finalize_identity t now db r"
    let ?s = "case next_at of Some _ \<Rightarrow> RetryWait | None \<Rightarrow> Blocked"
    let ?next = "case next_at of Some millis \<Rightarrow> sq_of_millis env millis | None \<Rightarrow> None"
    have "?s \<noteq> Processing" by (cases next_at) simp_all
    with assms id have "rr r ((ob_release ?s (sq_now env n) r)
        \<lparr>ob_next_attempt_at := ?next, ob_last_error_code := Some code, ob_last_send_disposition := d\<rparr>)"
      unfolding covers_failure_def by blast
    then show "rr r ((case next_at of
        Some millis \<Rightarrow>
          (ob_release RetryWait (sq_now env n) r)\<lparr>ob_next_attempt_at := sq_of_millis env millis\<rparr>
      | None \<Rightarrow> ob_release Blocked (sq_now env n) r)
      \<lparr>ob_last_error_code := Some code, ob_last_send_disposition := d\<rparr>)"
      by (cases r; cases next_at) (simp_all add: ob_release_def)
  qed
  then show ?thesis
    unfolding failure_tx_def failure_resolution_in_def Let_def
    by (intro tx_rel_intros tx_preorder_axioms)
qed

end

section \<open>The order of rows\<close>

lemma row_le_malformed:
  "row_le r (ob_block code now (if b then ob_unbind r else r))"
  by (simp add: row_le_def same_mutation_def ob_block_def ob_release_def ob_unbind_def)

lemma recovery_of_not_processing: "fst (recovery_of r) \<noteq> Processing"
  by (auto simp: recovery_of_def split: attempt_identity_phase.splits sync_action.splits)

lemma row_le_recover: "row_le r (recover_row (recovery_of s) now r)"
  using recovery_of_not_processing [of s]
  by (auto simp: recover_row_def row_le_def same_mutation_def ob_release_def split: option.splits)

lemma row_le_recover_ephemeral: "row_le r (ob_unbind (ob_release Pending now r))"
  by (simp add: row_le_def same_mutation_def ob_release_def ob_unbind_def)

lemma row_le_retry: "row_le r ((ob_release Pending now r)\<lparr>ob_last_error_code := c\<rparr>)"
  by (simp add: row_le_def same_mutation_def ob_release_def)

lemma row_le_release_expired:
  "row_le r (r\<lparr>ob_state := Pending, ob_lease_owner := None, ob_lease_expires_at := None,
      ob_updated_at := now\<rparr>)"
  by (simp add: row_le_def same_mutation_def)

lemma row_le_stale:
  "row_le r ((ob_unbind (ob_block code now r))\<lparr>ob_last_send_disposition := d\<rparr>)"
  by (simp add: row_le_def same_mutation_def ob_release_def ob_block_def ob_unbind_def)

lemma row_le_claim:
  "row_le r ((ob_lease owner fence env n r)
     \<lparr>ob_claimed_generation_id := g, ob_claimed_authority_epoch := a,
      ob_last_send_disposition := d\<rparr>)"
  by (simp add: row_le_def same_mutation_def ob_lease_def)

lemma row_le_fail:
  "s \<noteq> Processing \<Longrightarrow> row_le r ((ob_release s at r)\<lparr>ob_next_attempt_at := f, ob_last_error_code := e,
     ob_last_send_disposition := d\<rparr>)"
  by (simp add: row_le_def same_mutation_def ob_release_def)

interpretation sync: outbox_evolution row_le
proof
  show "row_le r1 r3" if "row_le r1 r2" "row_le r2 r3" for r1 r2 r3
    using that by (rule row_le_trans)
qed (simp_all add: row_le_same row_le_malformed row_le_recover row_le_recover_ephemeral
    row_le_reserve row_le_stale row_le_retry row_le_release_expired row_le_claim)

section \<open>Enqueueing\<close>

text \<open>
  A new mutation is the one step that gives a row another mutation sequence: the next value of the
  clock, which no row has.
\<close>

lemma advance_mutation_clock_Inr:
  "advance_mutation_clock env n db = Inr (changed, n', db') \<Longrightarrow> changed = 1 \<Longrightarrow>
   \<exists>s. mutation_clock db = Some s \<and> db' = db\<lparr>mutation_clock := Some (s + 1)\<rparr>"
  by (auto simp: advance_mutation_clock_def tx_stmt_Inr split: option.splits if_splits)

lemma rel_supersede:
  "supersede_for_new_mutation_in e life memory s now env n db = Inr (x, n', db') \<Longrightarrow>
   outbox db' = outbox db \<and> outbox_sequence db' = outbox_sequence db
   \<and> mutation_clock db' = mutation_clock db \<and> runtime_lease db' = runtime_lease db
   \<and> late_le db db'"
  unfolding supersede_for_new_mutation_in_def
  by (auto simp: tx_Inr update_late_rows_Inr split: if_splits
      intro!: late_le_update [where p = "\<lambda>r. late_of_memory life memory r
        \<and> li_mutation_sequence (lr_identity r) < s" and g = "late_supersede now"]
        late_row_le_supersede simp: late_of_memory_def late_wf_def)

text \<open>What a successful enqueue leaves in the outbox.\<close>

lemma enqueue_in_transaction_Inr:
  assumes "enqueue_in_transaction lc sha life memory action env n db = Inr (x, n', db')"
  obtains s now target n1 db1 where
    "mutation_clock db = Some s" and "mutation_clock db1 = Some (s + 1)"
    and "outbox db1 = outbox db" and "outbox_sequence db1 = outbox_sequence db"
    and "runtime_lease db1 = runtime_lease db" and "late_le db db1"
    and "upsert_outbox life memory action (s + 1) target now env n1 db1 = Inr (x, n', db')"
    and "\<forall>r \<in> set (late_rows db1). \<not> late_of_memory life memory r"
    and "\<exists>m. find (\<lambda>m. me_id m = memory) (memories db) = Some m \<and> me_life_id m = life
           \<and> enqueue_target lc sha action m = Inr target"
proof -
  from assms obtain m target n1 db1 n2 db2 changed seq now where
    m: "find (\<lambda>m. me_id m = memory) (memories db) = Some m" "me_life_id m = life"
      "enqueue_target lc sha action m = Inr target"
    and clock: "advance_mutation_clock env n1 db = Inr (1, n2, db1)"
    and seq: "mutation_clock db1 = Some seq"
    and sup: "\<exists>n3 n4. supersede_for_new_mutation_in OutboxUnavailable life memory seq now env n3 db1
        = Inr (changed, n4, db2)"
    and up: "\<exists>n4. upsert_outbox life memory action seq target now env n4 db2 = Inr (x, n', db')"
    unfolding enqueue_in_transaction_def authoritative_now_in_def
    by (auto simp: tx_Inr split: option.splits if_splits) blast
  from advance_mutation_clock_Inr [OF clock] obtain s where
    s: "mutation_clock db = Some s" "db1 = db\<lparr>mutation_clock := Some (s + 1)\<rparr>" by auto
  from sup obtain n3 n4 where
    sup': "supersede_for_new_mutation_in OutboxUnavailable life memory seq now env n3 db1
        = Inr (changed, n4, db2)" by blast
  from up obtain n5 where
    up': "upsert_outbox life memory action seq target now env n5 db2 = Inr (x, n', db')" by blast
  have "\<forall>r \<in> set (late_rows db2). \<not> late_of_memory life memory r"
    using sup' by (auto simp: supersede_for_new_mutation_in_def tx_Inr filter_empty_conv
        split: if_splits)
  moreover have "late_le db db2"
    using rel_supersede [OF sup'] late.pre_trans [OF late_le_frame [of db1 db]] by (simp add: s(2))
  ultimately show thesis
    using that [of s db2 target now n5] s seq up' m rel_supersede [OF sup'] by simp
qed

end
