(* ===== verification/Vector_Store_Domain.thy ===== *)
theory Vector_Store_Domain
  imports Rust_Prelude
begin

text \<open>
  The vocabulary of the replaceable vector index (\<open>src-tauri/src/vector_store/mod.rs\<close>): identities of
  generations, which name a directory of the index, the context a caller supplies, metadata samples
  and the outcome of a conditional delete, with their validators. Messages and the recoverable flag
  of an error are left out; vectors are not modelled.
\<close>

datatype vector_store_error =
    InvalidVector | DimensionMismatch | InvalidLimit | InvalidScoreThreshold | VectorNotFound
  | StoreUnavailable | VectorInternalError | InvalidIdentifier | GenerationIdInvalid
  | GenerationNotFound | GenerationSchemaMismatch | GenerationDimensionMismatch
  | GenerationDescriptorMismatch | RecordInvalid | VectorInvalid | VectorDimensionMismatch
  | VectorWriteFailed | VectorDeleteFailed | VectorReadFailed | GenerationDropFailed
  | GenerationLocked | GenerationCorrupt | GenerationDropRequiresRegistry

definition MAX_VECTOR_DIMENSION :: nat where "MAX_VECTOR_DIMENSION = 4096"
definition MAX_DESCRIPTOR_HASH_BYTES :: nat where "MAX_DESCRIPTOR_HASH_BYTES = 128"
definition MAX_CONTENT_HASH_BYTES :: nat where "MAX_CONTENT_HASH_BYTES = 128"
definition MAX_GENERATION_ID_BYTES :: nat where "MAX_GENERATION_ID_BYTES = 64"

section \<open>Identities of generations\<close>

datatype vector_generation_id = VectorGenerationId (generation_id_as_str: string)

definition byte_to_ascii_uppercase :: "char \<Rightarrow> char" where
  "byte_to_ascii_uppercase c = (if is_ascii_lowercase c then char_of (of_char c - 32 :: nat) else c)"

definition to_ascii_uppercase :: "string \<Rightarrow> string" where
  "to_ascii_uppercase s = map byte_to_ascii_uppercase s"

text \<open>
  The control characters: C0 and DEL are single bytes, C1 are the two bytes \<open>C2 80\<close> to \<open>C2 9F\<close>.
\<close>

fun contains_control :: "string \<Rightarrow> bool" where
  "contains_control [] \<longleftrightarrow> False"
| "contains_control [c] \<longleftrightarrow> (of_char c :: nat) < 32 \<or> (of_char c :: nat) = 127"
| "contains_control (c # d # s) \<longleftrightarrow>
     (of_char c :: nat) < 32 \<or> (of_char c :: nat) = 127
     \<or> (of_char c :: nat) = 194 \<and> 128 \<le> (of_char d :: nat) \<and> (of_char d :: nat) < 160
     \<or> contains_control (d # s)"

definition RESERVED :: "string list" where
  "RESERVED = [''CON'', ''PRN'', ''AUX'', ''NUL'', ''COM1'', ''COM2'', ''COM3'', ''COM4'', ''COM5'',
     ''COM6'', ''COM7'', ''COM8'', ''COM9'', ''LPT1'', ''LPT2'', ''LPT3'', ''LPT4'', ''LPT5'',
     ''LPT6'', ''LPT7'', ''LPT8'', ''LPT9'']"

definition generation_id_char :: "char \<Rightarrow> bool" where
  "generation_id_char c \<longleftrightarrow> is_ascii_alphanumeric c \<or> c = CHR ''-'' \<or> c = CHR ''_''"

definition vector_generation_id_parse :: "string \<Rightarrow> vector_store_error + vector_generation_id" where
  "vector_generation_id_parse raw =
     (if raw = [] \<or> length raw > MAX_GENERATION_ID_BYTES then Inl GenerationIdInvalid
      else if raw = ''.'' \<or> raw = ''..'' then Inl GenerationIdInvalid
      else if CHR ''/'' \<in> set raw \<or> CHR 0x5C \<in> set raw \<or> CHR '':'' \<in> set raw \<or> CHR 0x00 \<in> set raw
              \<or> contains_control raw then Inl GenerationIdInvalid
      else if \<not> list_all generation_id_char raw then Inl GenerationIdInvalid
      else let upper = to_ascii_uppercase raw in
        if list_ex (\<lambda>name. upper = name \<or> prefix (name @ ''.'') upper) RESERVED
        then Inl GenerationIdInvalid
        else Inr (VectorGenerationId raw))"

section \<open>Validators\<close>

definition validate_identifier :: "string \<Rightarrow> vector_store_error + unit" where
  "validate_identifier s = require (\<not> str_blank s) InvalidIdentifier"

definition validate_hash :: "string \<Rightarrow> vector_store_error + unit" where
  "validate_hash s =
     require (s \<noteq> [] \<and> length s \<le> max MAX_CONTENT_HASH_BYTES MAX_DESCRIPTOR_HASH_BYTES
              \<and> list_all generation_id_char s) RecordInvalid"

section \<open>Contexts, samples and outcomes\<close>

record vector_generation_context =
  vc_generation_id :: vector_generation_id
  vc_descriptor_hash :: string
  vc_dimension :: nat

definition vector_generation_context_new ::
    "vector_generation_id \<Rightarrow> string \<Rightarrow> nat \<Rightarrow> vector_store_error + vector_generation_context" where
  "vector_generation_context_new generation_id descriptor_hash dimension =
     try_seq (validate_hash descriptor_hash)
    (try_seq (require (dimension \<noteq> 0 \<and> dimension \<le> MAX_VECTOR_DIMENSION) GenerationDimensionMismatch)
    (Inr \<lparr>vc_generation_id = generation_id, vc_descriptor_hash = descriptor_hash,
          vc_dimension = dimension\<rparr>))"

record vector_metadata_sample =
  vs_generation_id :: string
  vs_life_id :: string
  vs_memory_id :: string
  vs_memory_revision :: int
  vs_content_hash :: string
  vs_descriptor_hash :: string
  vs_dimension :: nat

datatype conditional_delete_outcome = CondDeleted | CondAbsent | CondIdentityMismatch

text \<open>\<open>i64 as usize\<close> and \<open>usize::try_from(i64)\<close> on a 64-bit machine.\<close>

definition i64_as_usize :: "int \<Rightarrow> nat" where
  "i64_as_usize n = nat (n mod 18446744073709551616)"

definition usize_try_from :: "int \<Rightarrow> nat option" where
  "usize_try_from n = (if n < 0 then None else Some (nat n))"

section \<open>What a generation identity cannot be\<close>

text \<open>An accepted identity is a plain file name: no separator, drive, dot, control or device name.\<close>

lemma generation_id_parse_Inr [validator_simps]:
  "vector_generation_id_parse raw = Inr g \<longleftrightarrow>
     g = VectorGenerationId raw \<and> raw \<noteq> [] \<and> length raw \<le> MAX_GENERATION_ID_BYTES
     \<and> raw \<noteq> ''.'' \<and> raw \<noteq> ''..'' \<and> CHR ''/'' \<notin> set raw \<and> CHR 0x5C \<notin> set raw
     \<and> CHR '':'' \<notin> set raw \<and> CHR 0x00 \<notin> set raw \<and> \<not> contains_control raw
     \<and> list_all generation_id_char raw
     \<and> \<not> list_ex (\<lambda>name. to_ascii_uppercase raw = name
                       \<or> prefix (name @ ''.'') (to_ascii_uppercase raw)) RESERVED"
  by (auto simp: vector_generation_id_parse_def Let_def)

lemma context_new_Inr [validator_simps]:
  "vector_generation_context_new g h d = Inr c \<longleftrightarrow>
     c = \<lparr>vc_generation_id = g, vc_descriptor_hash = h, vc_dimension = d\<rparr>
     \<and> validate_hash h = Inr () \<and> d \<noteq> 0 \<and> d \<le> MAX_VECTOR_DIMENSION"
  by (auto simp: vector_generation_context_new_def try_seq_Inr_iff require_Inr_iff)

end
