(* ===== verification/Late_Delete_Domain.thy ===== *)
theory Late_Delete_Domain
  imports Vector_Store_Domain Vector_Sync_Settle
begin

text \<open>
  The values of \<open>src-tauri/src/storage/late_delete_resolution.rs\<close>: leases, claims, tokens, the sealed
  permits and capabilities, dispositions, results, and the classification of what the vector index
  answered. Every capability owns the token of one reserved resolution.
\<close>

datatype late_error =
    LateDatabaseError
  | LateInvalidOwner
  | LateLimitViolation
  | LateDeleteStartedRequiresPermit
  | LateDeleteStartedCommitResultUnknown
  | LateInvalidUnknownDisposition
  | LateInvalidRetryDelay
  | LateInvalidRetry
  | LateRuntimeLeaseLost
  | LateQueryContextMismatch

definition MAX_LATE_DELETE_RESOLUTIONS :: int where "MAX_LATE_DELETE_RESOLUTIONS = 3"

definition RUNTIME_LEASE_SECONDS :: nat where "RUNTIME_LEASE_SECONDS = 120"

section \<open>Leases, claims and tokens\<close>

record late_runtime_lease =
  ll_owner :: string
  ll_fence_epoch :: int

record late_claim =
  lc_resolution_id :: int
  lc_witness :: late_witness
  lc_lease_owner :: string
  lc_fence_epoch :: int
  lc_resolution_epoch :: int
  lc_resolution_count :: int

datatype late_action = LateActionDelete

record late_token =
  lt_resolution_id :: int
  lt_identity :: late_identity
  lt_desired_action :: late_action
  lt_target_revision :: "int option"
  lt_target_content_hash :: "string option"
  lt_lease_owner :: string
  lt_fence_epoch :: int
  lt_resolution_epoch :: int
  lt_resolution_ordinal :: int

datatype late_claim_result = ClaimedResolution late_claim | NoEligibleResolution

datatype late_reservation =
    LateReserved late_token
  | LateAlreadyReserved int
  | LateReservationLost
  | LateResolutionLimitReached

section \<open>Permits and capabilities\<close>

datatype query_permit = QueryPermit late_token

datatype late_query_reservation =
    QueryReserved query_permit
  | QueryAlreadyReserved int
  | QueryReservationLost
  | QueryLimitReached

record present_post_query =
  pq_token :: late_token
  pq_revision :: int
  pq_content_hash :: string

datatype query_handoff =
    QueryLost
  | QueryAbsent late_token
  | QueryPresent present_post_query
  | QueryFailure late_token vector_store_error
  | QueryCorrupt late_token string

record delete_permit =
  dp_token :: late_token
  dp_revision :: int
  dp_content_hash :: string

datatype delete_handoff =
    DeleteLost
  | PreDeleteCorrupt late_token string
  | HandoffDeleted late_token
  | HandoffAbsent late_token
  | HandoffIdentityMismatch late_token
  | HandoffFailure late_token vector_store_error

datatype issuance_core =
    CoreIssued delete_permit
  | CoreLost
  | CoreWaitingRebuild
  | CoreCommitUnknown late_token

datatype delete_permit_issuance = PermitIssued delete_permit | PermitLost | PermitWaitingRebuild

datatype commit_unknown_no_permit =
    DeleteStartedDurable | PreIssuanceDurable | CommitUnknownLost

datatype runner_issuance =
    RunnerIssued delete_permit
  | RunnerLost
  | RunnerWaitingRebuild
  | RunnerCommitUnknown commit_unknown_no_permit

datatype delete_started_state = CurrentEpochDeleteStarted | NotCurrentEpochDeleteStarted

datatype post_delete_result =
    PostDeleteApplied
  | PostDeleteLost
  | ReconciledExpectedDisposition
  | CommitUnknownStillDeleteStarted

datatype late_finalize_result = LateApplied | LateLost

section \<open>Dispositions\<close>

datatype late_disposition =
    DispQueryAbsent | DispQueryPresent | DispQueryUnknown | DispDeleteStarted | DispDeleteAbsent
  | DispDeleteDeleted | DispIdentityMismatch | DispDeleteUnknown | DispFinalizeUnknown
  | DispWaitingRebuild | DispResolvedRebuilt | DispSuperseded

fun late_disposition_as_str :: "late_disposition \<Rightarrow> string" where
  "late_disposition_as_str DispQueryAbsent = ''query_absent''"
| "late_disposition_as_str DispQueryPresent = ''query_present''"
| "late_disposition_as_str DispQueryUnknown = ''query_unknown''"
| "late_disposition_as_str DispDeleteStarted = ''delete_started''"
| "late_disposition_as_str DispDeleteAbsent = ''delete_absent''"
| "late_disposition_as_str DispDeleteDeleted = ''delete_deleted''"
| "late_disposition_as_str DispIdentityMismatch = ''identity_mismatch''"
| "late_disposition_as_str DispDeleteUnknown = ''delete_unknown''"
| "late_disposition_as_str DispFinalizeUnknown = ''finalize_unknown''"
| "late_disposition_as_str DispWaitingRebuild = ''waiting_rebuild''"
| "late_disposition_as_str DispResolvedRebuilt = ''resolved_rebuilt''"
| "late_disposition_as_str DispSuperseded = ''superseded''"

section \<open>What the index answered\<close>

definition context_from_query_token :: "late_token \<Rightarrow> vector_generation_context option" where
  "context_from_query_token t =
     (case vector_generation_id_parse (li_generation_id (lt_identity t)) of
        Inl e \<Rightarrow> None
      | Inr generation_id \<Rightarrow>
          (case usize_try_from (li_dimension (lt_identity t)) of
             None \<Rightarrow> None
           | Some dimension \<Rightarrow>
               (case vector_generation_context_new generation_id
                       (li_descriptor_id (lt_identity t)) dimension of
                  Inl e \<Rightarrow> None | Inr c \<Rightarrow> Some c)))"

definition query_context_corrupt :: "late_token \<Rightarrow> query_handoff" where
  "query_context_corrupt t = QueryCorrupt t ''LATE_DELETE_QUERY_CONTEXT_CORRUPT''"

definition delete_context_from_token ::
    "late_token \<Rightarrow> int \<Rightarrow> string \<Rightarrow> vector_generation_context option" where
  "delete_context_from_token t revision content_hash =
     (case context_from_query_token t of
        None \<Rightarrow> None
      | Some c \<Rightarrow> if revision > 0 \<and> validate_hash content_hash = Inr () then Some c else None)"

definition provider_pre_delete_error_code :: "vector_store_error \<Rightarrow> string" where
  "provider_pre_delete_error_code code =
     (case code of
        GenerationNotFound \<Rightarrow> ''LATE_DELETE_PRE_DELETE_GENERATION_STORE_MISSING''
      | StoreUnavailable \<Rightarrow> ''LATE_DELETE_PRE_DELETE_GENERATION_STORE_UNAVAILABLE''
      | _ \<Rightarrow> ''LATE_DELETE_PRE_DELETE_GENERATION_STORE_CORRUPT'')"

definition context_matches_query_token :: "late_token \<Rightarrow> vector_generation_context \<Rightarrow> bool" where
  "context_matches_query_token t c \<longleftrightarrow>
     generation_id_as_str (vc_generation_id c) = li_generation_id (lt_identity t)
     \<and> vc_descriptor_hash c = li_descriptor_id (lt_identity t)
     \<and> vc_dimension c = i64_as_usize (li_dimension (lt_identity t))"

definition query_sample_corruption_code ::
    "late_token \<Rightarrow> vector_generation_context \<Rightarrow> vector_metadata_sample \<Rightarrow> string option" where
  "query_sample_corruption_code t c s =
     (let i = lt_identity t
      in if vs_generation_id s \<noteq> li_generation_id i
            \<or> vs_generation_id s \<noteq> generation_id_as_str (vc_generation_id c)
         then Some ''LATE_DELETE_QUERY_GENERATION_MISMATCH''
         else if vs_life_id s \<noteq> li_life_id i then Some ''LATE_DELETE_QUERY_LIFE_MISMATCH''
         else if vs_memory_id s \<noteq> li_memory_id i then Some ''LATE_DELETE_QUERY_MEMORY_MISMATCH''
         else if vs_descriptor_hash s \<noteq> li_descriptor_id i
                 \<or> vs_descriptor_hash s \<noteq> vc_descriptor_hash c
         then Some ''LATE_DELETE_QUERY_DESCRIPTOR_MISMATCH''
         else if vs_dimension s \<noteq> i64_as_usize (li_dimension i) \<or> vs_dimension s \<noteq> vc_dimension c
         then Some ''LATE_DELETE_QUERY_DIMENSION_MISMATCH''
         else if vs_memory_revision s \<le> 0 then Some ''LATE_DELETE_QUERY_INVALID_REVISION''
         else if validate_hash (vs_content_hash s) \<noteq> Inr ()
         then Some ''LATE_DELETE_QUERY_INVALID_CONTENT_HASH''
         else None)"

definition query_error_is_corruption :: "vector_store_error \<Rightarrow> bool" where
  "query_error_is_corruption code \<longleftrightarrow> code \<noteq> StoreUnavailable \<and> code \<noteq> GenerationNotFound"

definition query_failure_error_code :: "vector_store_error \<Rightarrow> string" where
  "query_failure_error_code code =
     (case code of
        StoreUnavailable \<Rightarrow> ''LATE_DELETE_QUERY_STORE_UNAVAILABLE''
      | GenerationNotFound \<Rightarrow> ''LATE_DELETE_QUERY_GENERATION_NOT_FOUND''
      | _ \<Rightarrow> ''LATE_DELETE_QUERY_UNKNOWN'')"

definition delete_failure_error_code :: "vector_store_error \<Rightarrow> string" where
  "delete_failure_error_code code =
     (if code = StoreUnavailable then ''LATE_DELETE_STORE_UNAVAILABLE''
      else ''LATE_DELETE_CONDITIONAL_DELETE_UNKNOWN'')"

end
