(* ===== verification/Late_Delete_Store.thy ===== *)
theory Late_Delete_Store
  imports Late_Delete_Domain
begin

text \<open>
  The store of late-delete resolutions (\<open>src-tauri/src/storage/late_delete_resolution.rs\<close>): the lease
  of the resolver, claims and reservations, the \<open>delete_started\<close> boundary, the finalizers, the
  read-only classifications and the recovery of expired leases. Each operation is one transaction
  whose first statement reads the clock.
\<close>

type_synonym 'a late_tx = "(sync_db, late_error, 'a) tx"

abbreviation late_now :: "string late_tx" where
  "late_now \<equiv> authoritative_now_in LateDatabaseError"

abbreviation run_late :: "'a late_tx \<Rightarrow> sql_env \<Rightarrow> sync_db \<Rightarrow> (late_error + 'a) \<times> sync_db" where
  "run_late \<equiv> run_tx LateDatabaseError"

section \<open>The lease of the resolver\<close>

definition late_lease_check :: "runtime_lease_row \<Rightarrow> bool" where
  "late_lease_check l \<longleftrightarrow>
     rl_fence_epoch l \<ge> 0
     \<and> (case (rl_owner l, rl_expires_at l) of
          (None, None) \<Rightarrow> True
        | (Some owner, Some _) \<Rightarrow> owner \<noteq> [] \<and> rl_fence_epoch l > 0
        | _ \<Rightarrow> False)"

definition update_late_lease ::
    "(runtime_lease_row \<Rightarrow> bool) \<Rightarrow> (sql_env \<Rightarrow> nat \<Rightarrow> runtime_lease_row \<Rightarrow> runtime_lease_row)
     \<Rightarrow> nat late_tx" where
  "update_late_lease p f = tx_stmt LateDatabaseError (\<lambda>env n db.
     case late_lease db of
       None \<Rightarrow> Some (0, db)
     | Some l \<Rightarrow>
         (if \<not> p l then Some (0, db)
          else if \<not> late_lease_check (f env n l) then None
          else Some (1, db\<lparr>late_lease := Some (f env n l)\<rparr>)))"

definition late_lease_taken :: "string \<Rightarrow> sql_env \<Rightarrow> nat \<Rightarrow> runtime_lease_row \<Rightarrow> runtime_lease_row" where
  "late_lease_taken owner env n l =
     l\<lparr>rl_owner := Some owner, rl_fence_epoch := rl_fence_epoch l + 1,
       rl_expires_at := Some (sq_now_plus_seconds env RUNTIME_LEASE_SECONDS n)\<rparr>"

definition acquire_late_delete_runtime_lease ::
    "string \<Rightarrow> sql_env \<Rightarrow> sync_db \<Rightarrow> (late_error + late_runtime_lease option) \<times> sync_db" where
  "acquire_late_delete_runtime_lease owner env db =
     (if str_blank owner then (Inl LateInvalidOwner, db)
      else run_late
        (tx_bind late_now (\<lambda>now.
         tx_bind (update_late_lease
           (\<lambda>l. rl_owner l = None \<or> sql_not_after (rl_expires_at l) (Some now))
           (late_lease_taken owner)) (\<lambda>changed.
         if changed = 0 then tx_return None
         else
           tx_bind (tx_query LateDatabaseError (\<lambda>env _ db.
             case late_lease db of
               None \<Rightarrow> None
             | Some l \<Rightarrow> if rl_owner l = Some owner then Some (rl_fence_epoch l) else None)) (\<lambda>row.
           tx_bind (tx_result (ok_or row LateDatabaseError)) (\<lambda>fence_epoch.
           tx_return (Some \<lparr>ll_owner = owner, ll_fence_epoch = fence_epoch\<rparr>)))))) env db)"

definition release_late_delete_runtime_lease ::
    "late_runtime_lease \<Rightarrow> sql_env \<Rightarrow> sync_db \<Rightarrow> (late_error + bool) \<times> sync_db" where
  "release_late_delete_runtime_lease lease =
     run_late
       (tx_bind late_now (\<lambda>now.
        tx_bind (update_late_lease
          (\<lambda>l. rl_owner l = Some (ll_owner lease) \<and> rl_fence_epoch l = ll_fence_epoch lease)
          (\<lambda>env n l. l\<lparr>rl_owner := None, rl_expires_at := None\<rparr>)) (\<lambda>changed.
        tx_return (changed = 1))))"

text \<open>The lease row still names this owner and fence and has not expired.\<close>

definition late_runtime_live :: "string \<Rightarrow> int \<Rightarrow> string \<Rightarrow> sync_db \<Rightarrow> bool" where
  "late_runtime_live owner fence now db \<longleftrightarrow>
     (case late_lease db of
        None \<Rightarrow> False
      | Some l \<Rightarrow> rl_owner l = Some owner \<and> rl_fence_epoch l = fence
                  \<and> sql_after (rl_expires_at l) now)"

definition runtime_lease_is_current_in :: "late_runtime_lease \<Rightarrow> string \<Rightarrow> bool late_tx" where
  "runtime_lease_is_current_in lease now = tx_query LateDatabaseError (\<lambda>env _.
     late_runtime_live (ll_owner lease) (ll_fence_epoch lease) now)"

definition assert_runtime_lease_current_in :: "late_runtime_lease \<Rightarrow> string \<Rightarrow> unit late_tx" where
  "assert_runtime_lease_current_in lease now =
     tx_bind (runtime_lease_is_current_in lease now) (\<lambda>current.
     if current then tx_return () else tx_fail LateRuntimeLeaseLost)"

definition runtime_lease_matches_in :: "late_claim \<Rightarrow> string \<Rightarrow> bool late_tx" where
  "runtime_lease_matches_in c now = tx_query LateDatabaseError (\<lambda>env _.
     late_runtime_live (lc_lease_owner c) (lc_fence_epoch c) now)"

section \<open>Rows\<close>

definition load_resolution_in :: "int \<Rightarrow> late_row option late_tx" where
  "load_resolution_in resolution_id = tx_query LateDatabaseError (\<lambda>env _ db.
     find (\<lambda>r. lr_id r = resolution_id) (late_rows db))"

definition late_candidate :: "string \<Rightarrow> late_row \<Rightarrow> bool" where
  "late_candidate now r \<longleftrightarrow>
     lr_state r \<in> {LatePending, LateUnknown, LateRetryWait}
     \<and> (lr_state r \<noteq> LateRetryWait \<or> sql_not_after (lr_next_attempt_at r) (Some now))
     \<and> (lr_lease_owner r = None \<or> sql_not_after (lr_lease_expires_at r) (Some now))"

definition late_in_order :: "late_row list \<Rightarrow> late_row list" where
  "late_in_order rows =
     sort_key (li_mutation_sequence \<circ> lr_identity) (sort_key lr_id rows)"

definition select_next_candidate_in :: "string \<Rightarrow> late_row option late_tx" where
  "select_next_candidate_in now = tx_query LateDatabaseError (\<lambda>env _ db.
     case late_in_order (filter (late_candidate now) (late_rows db)) of
       [] \<Rightarrow> None | r # _ \<Rightarrow> Some r)"

definition claim_matches_row :: "late_claim \<Rightarrow> late_row \<Rightarrow> bool" where
  "claim_matches_row c r \<longleftrightarrow>
     lr_state r = LateClaimed \<and> lr_id r = lc_resolution_id c
     \<and> late_witness.truncate (lr_identity r) = lc_witness c
     \<and> lr_lease_owner r = Some (lc_lease_owner c)
     \<and> lr_lease_fence_epoch r = Some (lc_fence_epoch c)
     \<and> lr_resolution_epoch r = lc_resolution_epoch c
     \<and> lr_resolution_count r = lc_resolution_count c"

definition token_targets_delete :: "late_token \<Rightarrow> bool" where
  "token_targets_delete t \<longleftrightarrow>
     lt_desired_action t = LateActionDelete \<and> lt_target_revision t = None
     \<and> lt_target_content_hash t = None"

definition token_matches_row_without_liveness :: "late_token \<Rightarrow> late_row \<Rightarrow> bool" where
  "token_matches_row_without_liveness t r \<longleftrightarrow>
     token_targets_delete t \<and> lr_id r = lt_resolution_id t \<and> lr_identity r = lt_identity t
     \<and> lr_resolution_epoch r = lt_resolution_epoch t
     \<and> lr_resolution_count r = lt_resolution_ordinal t"

definition token_is_current_in :: "late_token \<Rightarrow> string \<Rightarrow> bool late_tx" where
  "token_is_current_in t now =
     (if \<not> token_targets_delete t then tx_return False
      else tx_bind (load_resolution_in (lt_resolution_id t)) (\<lambda>row.
        case row of
          None \<Rightarrow> tx_return False
        | Some r \<Rightarrow>
            tx_query LateDatabaseError (\<lambda>env _ db.
              late_runtime_live (lt_lease_owner t) (lt_fence_epoch t) now db
              \<and> lr_state r = LateProcessing \<and> lr_identity r = lt_identity t
              \<and> lr_lease_owner r = Some (lt_lease_owner t)
              \<and> lr_lease_fence_epoch r = Some (lt_fence_epoch t)
              \<and> sql_after (lr_lease_expires_at r) now
              \<and> lr_resolution_epoch r = lt_resolution_epoch t
              \<and> lr_resolution_count r = lt_resolution_ordinal t
              \<and> lr_last_reserved_epoch r = lt_resolution_epoch t)))"

text \<open>
  The captured generation still is what it was, and the witness is less than a day old; \<open>NULL\<close> from
  \<open>strftime\<close> cannot be read as a truth value and is an error.
\<close>

definition resolution_authority_is_current_in :: "late_row \<Rightarrow> string \<Rightarrow> bool late_tx" where
  "resolution_authority_is_current_in r now =
     (let i = lr_identity r
      in if li_generation_epoch i \<le> 0 then tx_return False
         else tx_bind (tx_stmt LateDatabaseError (\<lambda>env n db.
             case sq_strftime env (li_age_anchor_at i) ''+24 hours'' of
               None \<Rightarrow> None | Some limit \<Rightarrow> Some (text_less now limit, db))) (\<lambda>before_fallback.
           if \<not> before_fallback then tx_return False
           else tx_query LateDatabaseError (\<lambda>env _ db.
             list_ex (\<lambda>g. gn_id g = li_generation_id i \<and> gn_descriptor_hash g = li_descriptor_id i
                          \<and> gn_dimension g = li_dimension i \<and> gn_state g = li_generation_state i
                          \<and> gn_authority_epoch g = li_generation_epoch i) (generations db))))"

definition late_unlease :: "late_row \<Rightarrow> late_row" where
  "late_unlease r =
     r\<lparr>lr_lease_owner := None, lr_lease_fence_epoch := None, lr_lease_expires_at := None\<rparr>"

definition late_waiting :: "string \<Rightarrow> late_row \<Rightarrow> late_row" where
  "late_waiting now r =
     (late_unlease r)\<lparr>lr_state := LateWaitingRebuild, lr_last_disposition := Some ''waiting_rebuild'',
       lr_last_disposition_epoch := lr_resolution_epoch r, lr_next_attempt_at := None,
       lr_updated_at := now\<rparr>"

definition converge_waiting_rebuild_in :: "int \<Rightarrow> string \<Rightarrow> nat late_tx" where
  "converge_waiting_rebuild_in resolution_id now =
     update_late_rows LateDatabaseError (\<lambda>r. lr_id r = resolution_id) (\<lambda>env n. late_waiting now)"

definition block_limit_in :: "int \<Rightarrow> string \<Rightarrow> nat late_tx" where
  "block_limit_in resolution_id now =
     update_late_rows LateDatabaseError (\<lambda>r. lr_id r = resolution_id)
       (\<lambda>env n r. (late_waiting now r)
          \<lparr>lr_last_error_code := Some ''LATE_DELETE_RESOLUTION_LIMIT_REACHED''\<rparr>)"

end
