(* ===== verification/Late_Delete_Resolve.thy ===== *)
theory Late_Delete_Resolve
  imports Late_Delete_Store
begin

text \<open>
  Claiming a late-delete resolution, reserving one of its three slots, issuing the one permit to
  delete, settling and recovery (\<open>src-tauri/src/storage/late_delete_resolution.rs\<close>).
\<close>

section \<open>Claims and reservations\<close>

definition late_claim_of :: "late_runtime_lease \<Rightarrow> late_row \<Rightarrow> late_claim" where
  "late_claim_of lease r =
     \<lparr>lc_resolution_id = lr_id r, lc_witness = late_witness.truncate (lr_identity r),
      lc_lease_owner = ll_owner lease, lc_fence_epoch = ll_fence_epoch lease,
      lc_resolution_epoch = lr_resolution_epoch r + 1, lc_resolution_count = lr_resolution_count r\<rparr>"

definition late_claimed :: "late_runtime_lease \<Rightarrow> string \<Rightarrow> sql_env \<Rightarrow> nat \<Rightarrow> late_row \<Rightarrow> late_row" where
  "late_claimed lease now env n r =
     r\<lparr>lr_state := LateClaimed, lr_resolution_epoch := lr_resolution_epoch r + 1,
       lr_lease_owner := Some (ll_owner lease), lr_lease_fence_epoch := Some (ll_fence_epoch lease),
       lr_lease_expires_at := Some (sq_now_plus_seconds env RUNTIME_LEASE_SECONDS n),
       lr_next_attempt_at := None, lr_updated_at := now\<rparr>"

definition claim_row_in :: "late_runtime_lease \<Rightarrow> string \<Rightarrow> late_row \<Rightarrow> nat late_tx" where
  "claim_row_in lease now row =
     update_late_rows LateDatabaseError
       (\<lambda>r. lr_id r = lr_id row \<and> lr_state r = lr_state row
            \<and> lr_resolution_epoch r = lr_resolution_epoch row
            \<and> (lr_lease_owner r = None \<or> sql_not_after (lr_lease_expires_at r) (Some now)))
       (late_claimed lease now)"

definition late_claim_tx :: "late_runtime_lease \<Rightarrow> late_claim_result late_tx" where
  "late_claim_tx lease =
     tx_bind late_now (\<lambda>now.
     tx_bind (runtime_lease_is_current_in lease now) (\<lambda>current.
     if \<not> current then tx_return NoEligibleResolution
     else tx_bind (select_next_candidate_in now) (\<lambda>candidate.
       case candidate of
         None \<Rightarrow> tx_return NoEligibleResolution
       | Some row \<Rightarrow>
           tx_bind (resolution_authority_is_current_in row now) (\<lambda>authority.
           if \<not> authority then
             tx_bind (converge_waiting_rebuild_in (lr_id row) now)
               (\<lambda>_. tx_return NoEligibleResolution)
           else if lr_resolution_count row > MAX_LATE_DELETE_RESOLUTIONS
           then tx_fail LateLimitViolation
           else if lr_resolution_count row = MAX_LATE_DELETE_RESOLUTIONS then
             tx_bind (block_limit_in (lr_id row) now) (\<lambda>_. tx_return NoEligibleResolution)
           else
             tx_bind (claim_row_in lease now row) (\<lambda>changed.
             if changed \<noteq> 1 then tx_return NoEligibleResolution
             else tx_return (ClaimedResolution (late_claim_of lease row)))))))"

definition claim_one_late_delete_resolution ::
    "late_runtime_lease \<Rightarrow> sql_env \<Rightarrow> sync_db \<Rightarrow> (late_error + late_claim_result) \<times> sync_db" where
  "claim_one_late_delete_resolution lease = run_late (late_claim_tx lease)"

definition late_token_of :: "late_claim \<Rightarrow> late_row \<Rightarrow> late_token" where
  "late_token_of c r =
     \<lparr>lt_resolution_id = lr_id r, lt_identity = lr_identity r, lt_desired_action = LateActionDelete,
      lt_target_revision = None, lt_target_content_hash = None,
      lt_lease_owner = lc_lease_owner c, lt_fence_epoch = lc_fence_epoch c,
      lt_resolution_epoch = lr_resolution_epoch r,
      lt_resolution_ordinal = lr_resolution_count r + 1\<rparr>"

definition late_reserve :: "string \<Rightarrow> late_row \<Rightarrow> late_row" where
  "late_reserve now r =
     r\<lparr>lr_state := LateProcessing, lr_resolution_count := lr_resolution_count r + 1,
       lr_last_reserved_epoch := lr_resolution_epoch r, lr_updated_at := now\<rparr>"

definition reserve_row_in :: "late_claim \<Rightarrow> string \<Rightarrow> late_row \<Rightarrow> nat late_tx" where
  "reserve_row_in c now row =
     update_late_rows LateDatabaseError
       (\<lambda>r. lr_id r = lr_id row \<and> lr_state r = LateClaimed
            \<and> lr_resolution_epoch r = lr_resolution_epoch row
            \<and> lr_last_reserved_epoch r < lr_resolution_epoch r
            \<and> lr_lease_owner r = Some (lc_lease_owner c)
            \<and> lr_lease_fence_epoch r = Some (lc_fence_epoch c)
            \<and> sql_after (lr_lease_expires_at r) now)
       (\<lambda>env n. late_reserve now)"

definition late_reserve_tx :: "late_claim \<Rightarrow> late_reservation late_tx" where
  "late_reserve_tx c =
     tx_bind late_now (\<lambda>now.
     tx_bind (load_resolution_in (lc_resolution_id c)) (\<lambda>loaded.
     case loaded of
       None \<Rightarrow> tx_return LateReservationLost
     | Some row \<Rightarrow>
         (if \<not> claim_matches_row c row then tx_return LateReservationLost
          else tx_bind (runtime_lease_matches_in c now) (\<lambda>live.
          if \<not> live then tx_return LateReservationLost
          else tx_bind (resolution_authority_is_current_in row now) (\<lambda>authority.
          if \<not> authority then
            tx_bind (converge_waiting_rebuild_in (lr_id row) now) (\<lambda>_. tx_return LateReservationLost)
          else if lr_resolution_count row > MAX_LATE_DELETE_RESOLUTIONS
          then tx_fail LateLimitViolation
          else if lr_resolution_count row = MAX_LATE_DELETE_RESOLUTIONS then
            tx_bind (block_limit_in (lr_id row) now) (\<lambda>_. tx_return LateResolutionLimitReached)
          else if lr_last_reserved_epoch row = lr_resolution_epoch row
          then tx_return (LateAlreadyReserved (lr_resolution_count row))
          else
            tx_bind (reserve_row_in c now row) (\<lambda>changed.
            if changed \<noteq> 1 then tx_return LateReservationLost
            else tx_return (LateReserved (late_token_of c row))))))))"

definition reserve_late_delete_resolution ::
    "late_claim \<Rightarrow> sql_env \<Rightarrow> sync_db \<Rightarrow> (late_error + late_reservation) \<times> sync_db" where
  "reserve_late_delete_resolution c = run_late (late_reserve_tx c)"

fun query_reservation :: "late_reservation \<Rightarrow> late_query_reservation" where
  "query_reservation (LateReserved t) = QueryReserved (QueryPermit t)"
| "query_reservation (LateAlreadyReserved ordinal) = QueryAlreadyReserved ordinal"
| "query_reservation LateReservationLost = QueryReservationLost"
| "query_reservation LateResolutionLimitReached = QueryLimitReached"

definition reserve_late_delete_resolution_for_query ::
    "late_claim \<Rightarrow> sql_env \<Rightarrow> sync_db \<Rightarrow> (late_error + late_query_reservation) \<times> sync_db" where
  "reserve_late_delete_resolution_for_query c env db =
     (let (r, db') = reserve_late_delete_resolution c env db
      in (map_sum id query_reservation r, db'))"

section \<open>Guards before external calls\<close>

definition late_delete_resolution_token_is_current ::
    "late_token \<Rightarrow> sql_env \<Rightarrow> sync_db \<Rightarrow> (late_error + bool) \<times> sync_db" where
  "late_delete_resolution_token_is_current t =
     run_late (tx_bind late_now (token_is_current_in t))"

definition delete_started_row :: "late_token \<Rightarrow> late_row \<Rightarrow> bool" where
  "delete_started_row t r \<longleftrightarrow>
     lr_id r = lt_resolution_id t \<and> lr_state r = LateProcessing
     \<and> lr_resolution_epoch r = lt_resolution_epoch t
     \<and> lr_resolution_count r = lt_resolution_ordinal t
     \<and> lr_last_reserved_epoch r = lt_resolution_epoch t
     \<and> lr_last_disposition r = Some ''delete_started''
     \<and> lr_last_disposition_epoch r = lt_resolution_epoch t"

definition late_delete_delete_permit_is_current ::
    "late_token \<Rightarrow> sql_env \<Rightarrow> sync_db \<Rightarrow> (late_error + bool) \<times> sync_db" where
  "late_delete_delete_permit_is_current t =
     run_late
       (tx_bind late_now (\<lambda>now.
        tx_bind (token_is_current_in t now) (\<lambda>current.
        if \<not> current then tx_return False
        else tx_query LateDatabaseError (\<lambda>env _ db. list_ex (delete_started_row t) (late_rows db)))))"

section \<open>The boundary of the external delete\<close>

definition late_delete_started :: "string \<Rightarrow> late_row \<Rightarrow> late_row" where
  "late_delete_started now r =
     r\<lparr>lr_last_disposition := Some ''delete_started'',
       lr_last_disposition_epoch := lr_resolution_epoch r, lr_updated_at := now\<rparr>"

definition issue_row_in :: "late_token \<Rightarrow> string \<Rightarrow> nat late_tx" where
  "issue_row_in t now =
     update_late_rows LateDatabaseError
       (\<lambda>r. lr_id r = lt_resolution_id t \<and> lr_identity r = lt_identity t
            \<and> lr_state r = LateProcessing \<and> lr_resolution_epoch r = lt_resolution_epoch t
            \<and> lr_resolution_count r = lt_resolution_ordinal t
            \<and> lr_last_reserved_epoch r = lt_resolution_epoch t
            \<and> lr_last_disposition_epoch r < lr_resolution_epoch r
            \<and> lr_lease_owner r = Some (lt_lease_owner t)
            \<and> lr_lease_fence_epoch r = Some (lt_fence_epoch t)
            \<and> sql_after (lr_lease_expires_at r) now)
       (\<lambda>env n. late_delete_started now)"

definition late_issue_tx :: "present_post_query \<Rightarrow> issuance_core late_tx" where
  "late_issue_tx present =
     (let t = pq_token present in
     tx_bind late_now (\<lambda>now.
     tx_bind (token_is_current_in t now) (\<lambda>current.
     if \<not> current then tx_return CoreLost
     else tx_bind (load_resolution_in (lt_resolution_id t)) (\<lambda>loaded.
       case loaded of
         None \<Rightarrow> tx_return CoreLost
       | Some row \<Rightarrow>
           tx_bind (resolution_authority_is_current_in row now) (\<lambda>authority.
           if \<not> authority then
             tx_bind (converge_waiting_rebuild_in (lr_id row) now) (\<lambda>_. tx_return CoreWaitingRebuild)
           else if lr_last_disposition_epoch row \<ge> lr_resolution_epoch row then tx_return CoreLost
           else
             tx_bind (issue_row_in t now) (\<lambda>changed.
             if changed \<noteq> 1 then tx_return CoreLost
             else tx_return (CoreIssued \<lparr>dp_token = t, dp_revision = pq_revision present,
                                         dp_content_hash = pq_content_hash present\<rparr>)))))))"

definition issue_late_delete_permit_core ::
    "present_post_query \<Rightarrow> sql_env \<Rightarrow> sync_db \<Rightarrow> (late_error + issuance_core) \<times> sync_db" where
  "issue_late_delete_permit_core present = run_late (late_issue_tx present)"

definition issue_late_delete_permit ::
    "present_post_query \<Rightarrow> sql_env \<Rightarrow> sync_db \<Rightarrow> (late_error + delete_permit_issuance) \<times> sync_db" where
  "issue_late_delete_permit present env db =
     (let (r, db') = issue_late_delete_permit_core present env db
      in (try_bind r (\<lambda>core. case core of
             CoreIssued permit \<Rightarrow> Inr (PermitIssued permit)
           | CoreLost \<Rightarrow> Inr PermitLost
           | CoreWaitingRebuild \<Rightarrow> Inr PermitWaitingRebuild
           | CoreCommitUnknown t \<Rightarrow> Inl LateDeleteStartedCommitResultUnknown), db'))"

text \<open>The read-only classification of a consumed permission whose commit result is unknown.\<close>

definition late_row_held :: "late_token \<Rightarrow> late_row \<Rightarrow> bool" where
  "late_row_held t r \<longleftrightarrow>
     token_matches_row_without_liveness t r \<and> lr_state r = LateProcessing
     \<and> lr_last_reserved_epoch r = lt_resolution_epoch t
     \<and> lr_lease_owner r = Some (lt_lease_owner t)
     \<and> lr_lease_fence_epoch r = Some (lt_fence_epoch t)"

definition reconcile_late_delete_started_exact_token ::
    "late_token \<Rightarrow> sql_env \<Rightarrow> sync_db \<Rightarrow> (late_error + commit_unknown_no_permit) \<times> sync_db" where
  "reconcile_late_delete_started_exact_token t =
     run_late
       (tx_bind (load_resolution_in (lt_resolution_id t)) (\<lambda>row.
        tx_bind (tx_query LateDatabaseError (\<lambda>env _ db.
          Option.bind (find (\<lambda>r. lr_id r = lt_resolution_id t) (late_rows db)) lr_last_disposition))
          (\<lambda>last_disposition.
        tx_return (case row of
          None \<Rightarrow> CommitUnknownLost
        | Some r \<Rightarrow>
            if last_disposition = Some ''delete_started'' \<and> late_row_held t r
               \<and> lr_last_disposition_epoch r = lt_resolution_epoch t then DeleteStartedDurable
            else if late_row_held t r \<and> lr_last_disposition_epoch r < lt_resolution_epoch t
            then PreIssuanceDurable
            else CommitUnknownLost))))"

text \<open>The second environment is the one of the classification, a transaction of its own.\<close>

definition issue_late_delete_permit_for_runner ::
    "present_post_query \<Rightarrow> sql_env \<Rightarrow> sql_env \<Rightarrow> sync_db
     \<Rightarrow> (late_error + runner_issuance) \<times> sync_db" where
  "issue_late_delete_permit_for_runner present env env' db =
     (case issue_late_delete_permit_core present env db of
        (Inl e, db') \<Rightarrow> (Inl e, db')
      | (Inr core, db') \<Rightarrow>
          (case core of
             CoreIssued permit \<Rightarrow> (Inr (RunnerIssued permit), db')
           | CoreLost \<Rightarrow> (Inr RunnerLost, db')
           | CoreWaitingRebuild \<Rightarrow> (Inr RunnerWaitingRebuild, db')
           | CoreCommitUnknown t \<Rightarrow>
               (let (r, db'') = reconcile_late_delete_started_exact_token t env' db'
                in (map_sum id RunnerCommitUnknown r, db''))))"

definition current_delete_started :: "int \<Rightarrow> late_row \<Rightarrow> bool" where
  "current_delete_started resolution_id r \<longleftrightarrow>
     lr_id r = resolution_id \<and> lr_state r = LateProcessing
     \<and> lr_last_disposition r = Some ''delete_started''
     \<and> lr_last_disposition_epoch r = lr_resolution_epoch r
     \<and> lr_last_reserved_epoch r = lr_resolution_epoch r"

definition reconcile_late_delete_started ::
    "int \<Rightarrow> sql_env \<Rightarrow> sync_db \<Rightarrow> (late_error + delete_started_state) \<times> sync_db" where
  "reconcile_late_delete_started resolution_id =
     run_late
       (tx_bind (tx_query LateDatabaseError (\<lambda>env _ db.
          list_ex (current_delete_started resolution_id) (late_rows db))) (\<lambda>current.
        tx_return (if current then CurrentEpochDeleteStarted else NotCurrentEpochDeleteStarted)))"

end
