(* ===== verification/Late_Delete_Settle.thy ===== *)
theory Late_Delete_Settle
  imports Late_Delete_Resolve
begin

text \<open>
  Settling a reserved late-delete resolution and recovering expired ones
  (\<open>src-tauri/src/storage/late_delete_resolution.rs\<close>).
\<close>

section \<open>Transitions of a token\<close>

definition late_settled ::
    "late_state \<Rightarrow> late_disposition \<Rightarrow> string option \<Rightarrow> bool \<Rightarrow> string option \<Rightarrow> bool \<Rightarrow> string
     \<Rightarrow> late_row \<Rightarrow> late_row" where
  "late_settled target disposition error_code unlease next_at terminal now r =
     (if unlease then late_unlease r else r)
       \<lparr>lr_state := target, lr_last_disposition := Some (late_disposition_as_str disposition),
        lr_last_disposition_epoch := lr_resolution_epoch r, lr_last_error_code := error_code,
        lr_next_attempt_at := next_at, lr_resolved_at := (if terminal then Some now else None),
        lr_updated_at := now\<rparr>"

definition transition_row_in ::
    "late_token \<Rightarrow> late_state \<Rightarrow> late_disposition \<Rightarrow> string option \<Rightarrow> string option \<Rightarrow> string
     \<Rightarrow> nat late_tx" where
  "transition_row_in t target disposition error_code next_attempt_at now =
     update_late_rows LateDatabaseError
       (\<lambda>r. lr_id r = lt_resolution_id t \<and> lr_state r = LateProcessing
            \<and> lr_resolution_epoch r = lt_resolution_epoch t
            \<and> lr_resolution_count r = lt_resolution_ordinal t
            \<and> lr_last_reserved_epoch r = lt_resolution_epoch t
            \<and> lr_lease_owner r = Some (lt_lease_owner t)
            \<and> lr_lease_fence_epoch r = Some (lt_fence_epoch t)
            \<and> sql_after (lr_lease_expires_at r) now
            \<and> li_send_disposition (lr_identity r) = li_send_disposition (lt_identity t)
            \<and> li_error_code (lr_identity r) = li_error_code (lt_identity t))
       (\<lambda>env n. late_settled target disposition error_code (target \<noteq> LateProcessing)
          (if target = LateRetryWait
           then Option.bind next_attempt_at (sq_strftime env (sq_now env n)) else None)
          (target \<in> {LateResolvedAbsent, LateResolvedDeleted, LateResolvedRebuilt}) now)"

definition transition_tx ::
    "late_token \<Rightarrow> late_state \<Rightarrow> late_disposition \<Rightarrow> string option \<Rightarrow> string option
     \<Rightarrow> late_finalize_result late_tx" where
  "transition_tx t target disposition error_code retry_modifier =
     tx_bind late_now (\<lambda>now.
     tx_bind (token_is_current_in t now) (\<lambda>current.
     if \<not> current then tx_return LateLost
     else
       tx_bind (if target = LateRetryWait
                then tx_bind (tx_result (ok_or retry_modifier LateInvalidRetry))
                       (\<lambda>m. tx_return (Some m))
                else tx_return None) (\<lambda>next_attempt_at.
       tx_bind (transition_row_in t target disposition error_code next_attempt_at now) (\<lambda>changed.
       tx_return (if changed = 1 then LateApplied else LateLost)))))"

definition transition_late_delete_resolution ::
    "late_token \<Rightarrow> late_state \<Rightarrow> late_disposition \<Rightarrow> string option \<Rightarrow> string option
     \<Rightarrow> sql_env \<Rightarrow> sync_db \<Rightarrow> (late_error + late_finalize_result) \<times> sync_db" where
  "transition_late_delete_resolution t target disposition error_code retry_modifier =
     run_late (transition_tx t target disposition error_code retry_modifier)"

definition mark_late_delete_resolution_disposition ::
    "late_token \<Rightarrow> late_disposition \<Rightarrow> sql_env \<Rightarrow> sync_db
     \<Rightarrow> (late_error + late_finalize_result) \<times> sync_db" where
  "mark_late_delete_resolution_disposition t disposition env db =
     (if disposition = DispDeleteStarted then (Inl LateDeleteStartedRequiresPermit, db)
      else transition_late_delete_resolution t LateProcessing disposition None None env db)"

definition finalize_late_delete_resolution_absent where
  "finalize_late_delete_resolution_absent t =
     transition_late_delete_resolution t LateResolvedAbsent DispQueryAbsent None (Some [])"

definition finalize_late_delete_resolution_deleted where
  "finalize_late_delete_resolution_deleted t =
     transition_late_delete_resolution t LateResolvedDeleted DispDeleteDeleted None (Some [])"

definition finalize_late_delete_resolution_unknown ::
    "late_token \<Rightarrow> late_disposition \<Rightarrow> string \<Rightarrow> sql_env \<Rightarrow> sync_db
     \<Rightarrow> (late_error + late_finalize_result) \<times> sync_db" where
  "finalize_late_delete_resolution_unknown t disposition error_code env db =
     (if disposition \<notin> {DispQueryUnknown, DispDeleteUnknown, DispFinalizeUnknown}
      then (Inl LateInvalidUnknownDisposition, db)
      else transition_late_delete_resolution t LateUnknown disposition (Some error_code) None env db)"

definition finalize_late_delete_resolution_retry_wait ::
    "late_token \<Rightarrow> int \<Rightarrow> string \<Rightarrow> sql_env \<Rightarrow> sync_db
     \<Rightarrow> (late_error + late_finalize_result) \<times> sync_db" where
  "finalize_late_delete_resolution_retry_wait t delay_seconds error_code env db =
     (if delay_seconds \<le> 0 then (Inl LateInvalidRetryDelay, db)
      else transition_late_delete_resolution t LateRetryWait DispFinalizeUnknown (Some error_code)
             (Some (''+'' @ int_to_dec delay_seconds @ '' seconds'')) env db)"

definition finalize_late_delete_resolution_waiting_rebuild where
  "finalize_late_delete_resolution_waiting_rebuild t error_code =
     transition_late_delete_resolution t LateWaitingRebuild DispWaitingRebuild (Some error_code) None"

text \<open>The consumers of a query capability.\<close>

definition finalize_late_delete_query_absent where
  "finalize_late_delete_query_absent t = finalize_late_delete_resolution_absent t"

definition finalize_late_delete_query_failure where
  "finalize_late_delete_query_failure t error =
     finalize_late_delete_resolution_unknown t DispQueryUnknown (query_failure_error_code error)"

definition finalize_late_delete_query_corrupt where
  "finalize_late_delete_query_corrupt t error_code =
     finalize_late_delete_resolution_waiting_rebuild t error_code"

section \<open>After the external delete\<close>

text \<open>The lease stays with the row unless the resolution is over.\<close>

definition post_delete_row_in ::
    "late_token \<Rightarrow> late_state \<Rightarrow> late_disposition \<Rightarrow> string option \<Rightarrow> string \<Rightarrow> nat late_tx" where
  "post_delete_row_in t target disposition error_code now =
     (let i = lt_identity t
      in update_late_rows LateDatabaseError
       (\<lambda>r. lr_id r = lt_resolution_id t
            \<and> (lr_identity r)\<lparr>li_generation_state := li_generation_state i\<rparr> = i
            \<and> lr_state r = LateProcessing
            \<and> lr_resolution_epoch r = lt_resolution_epoch t
            \<and> lr_resolution_count r = lt_resolution_ordinal t
            \<and> lr_last_reserved_epoch r = lt_resolution_epoch t
            \<and> lr_last_disposition r = Some ''delete_started''
            \<and> lr_last_disposition_epoch r = lt_resolution_epoch t
            \<and> lr_lease_owner r = Some (lt_lease_owner t)
            \<and> lr_lease_fence_epoch r = Some (lt_fence_epoch t)
            \<and> sql_after (lr_lease_expires_at r) now)
       (\<lambda>env n. late_settled target disposition error_code (target = LateResolvedDeleted) None
          (target = LateResolvedDeleted) now))"

definition post_delete_tx ::
    "late_token \<Rightarrow> late_state \<Rightarrow> late_disposition \<Rightarrow> string option \<Rightarrow> post_delete_result late_tx" where
  "post_delete_tx t target disposition error_code =
     tx_bind late_now (\<lambda>now.
     tx_bind (token_is_current_in t now) (\<lambda>current.
     if \<not> current then tx_return PostDeleteLost
     else
       tx_bind (post_delete_row_in t target disposition error_code now) (\<lambda>changed.
       tx_return (if changed = 1 then PostDeleteApplied else PostDeleteLost))))"

definition transition_post_delete ::
    "late_token \<Rightarrow> late_state \<Rightarrow> late_disposition \<Rightarrow> string option \<Rightarrow> sql_env \<Rightarrow> sync_db
     \<Rightarrow> (late_error + post_delete_result) \<times> sync_db" where
  "transition_post_delete t target disposition error_code =
     run_late (post_delete_tx t target disposition error_code)"

definition finalize_deleted_post_delete where
  "finalize_deleted_post_delete t =
     transition_post_delete t LateResolvedDeleted DispDeleteDeleted None"

definition finalize_absent_post_delete where
  "finalize_absent_post_delete t =
     transition_post_delete t LateResolvedDeleted DispDeleteAbsent None"

definition finalize_identity_mismatch_post_delete where
  "finalize_identity_mismatch_post_delete t =
     transition_post_delete t LateWaitingRebuild DispIdentityMismatch
       (Some ''LATE_DELETE_IDENTITY_MISMATCH'')"

definition finalize_failed_post_delete where
  "finalize_failed_post_delete t error =
     transition_post_delete t LateUnknown DispDeleteUnknown (Some (delete_failure_error_code error))"

definition finalize_pre_delete_corrupt where
  "finalize_pre_delete_corrupt t error_code =
     transition_post_delete t LateWaitingRebuild DispWaitingRebuild (Some error_code)"

text \<open>
  The read-only classification after a lost commit result, a statement of its own. A row whose last
  disposition is \<open>NULL\<close> cannot be read and is an error.
\<close>

definition reconcile_post_delete_commit_unknown ::
    "late_token \<Rightarrow> late_state \<Rightarrow> late_disposition \<Rightarrow> sql_env \<Rightarrow> sync_db
     \<Rightarrow> (late_error + post_delete_result) \<times> sync_db" where
  "reconcile_post_delete_commit_unknown t target disposition =
     (let i = lt_identity t
      in run_auto
       (tx_bind (tx_query LateDatabaseError (\<lambda>env _ db.
          find (\<lambda>r. lr_id r = lt_resolution_id t
                    \<and> (lr_identity r)\<lparr>li_generation_state := li_generation_state i\<rparr> = i)
            (late_rows db))) (\<lambda>row.
        case row of
          None \<Rightarrow> tx_return PostDeleteLost
        | Some r \<Rightarrow>
            tx_bind (tx_result (ok_or (lr_last_disposition r) LateDatabaseError))
              (\<lambda>last_disposition.
            tx_return
              (if lr_state r = target
                  \<and> last_disposition = late_disposition_as_str disposition
                  \<and> lr_last_disposition_epoch r = lt_resolution_epoch t
                  \<and> lr_resolution_epoch r = lt_resolution_epoch t
                  \<and> lr_resolution_count r = lt_resolution_ordinal t
               then ReconciledExpectedDisposition
               else if lr_state r = LateProcessing
                  \<and> last_disposition = ''delete_started''
                  \<and> lr_last_disposition_epoch r = lt_resolution_epoch t
                  \<and> lr_resolution_epoch r = lt_resolution_epoch t
                  \<and> lr_last_reserved_epoch r = lt_resolution_epoch t
                  \<and> lr_resolution_count r = lt_resolution_ordinal t
                  \<and> lr_lease_owner r = Some (lt_lease_owner t)
                  \<and> lr_lease_fence_epoch r = Some (lt_fence_epoch t)
               then CommitUnknownStillDeleteStarted
               else PostDeleteLost)))))"

section \<open>Recovery\<close>

definition expired_delete_started :: "string \<Rightarrow> late_row \<Rightarrow> bool" where
  "expired_delete_started now r \<longleftrightarrow>
     current_delete_started (lr_id r) r \<and> sql_not_after (lr_lease_expires_at r) (Some now)"

definition late_delete_unknown :: "string \<Rightarrow> late_row \<Rightarrow> late_row" where
  "late_delete_unknown now r =
     (late_unlease r)\<lparr>lr_state := LateUnknown, lr_last_disposition := Some ''delete_unknown'',
       lr_last_disposition_epoch := lr_resolution_epoch r,
       lr_last_error_code := Some ''LATE_DELETE_DELETE_STARTED_RECOVERY'',
       lr_next_attempt_at := None, lr_updated_at := now\<rparr>"

definition recover_delete_started_in :: "string \<Rightarrow> late_row \<Rightarrow> nat late_tx" where
  "recover_delete_started_in now row =
     (if lr_resolution_count row \<ge> MAX_LATE_DELETE_RESOLUTIONS then
        tx_bind (block_limit_in (lr_id row) now) (\<lambda>_. tx_return 1)
      else tx_bind (resolution_authority_is_current_in row now) (\<lambda>authority.
        if \<not> authority then
          tx_bind (converge_waiting_rebuild_in (lr_id row) now) (\<lambda>_. tx_return 1)
        else update_late_rows LateDatabaseError
          (\<lambda>r. lr_id r = lr_id row \<and> expired_delete_started now r)
          (\<lambda>env n. late_delete_unknown now)))"

definition late_expire :: "string \<Rightarrow> late_row \<Rightarrow> late_row" where
  "late_expire now r =
     (let spent = (lr_resolution_count r \<ge> MAX_LATE_DELETE_RESOLUTIONS)
      in (late_unlease r)
        \<lparr>lr_state := (if spent then LateWaitingRebuild
                      else if lr_state r = LateClaimed then LatePending else LateUnknown),
         lr_last_disposition := Some (if spent then ''waiting_rebuild'' else ''finalize_unknown''),
         lr_last_disposition_epoch := lr_resolution_epoch r,
         lr_last_error_code := Some (if spent then ''LATE_DELETE_RESOLUTION_LIMIT_REACHED''
                                     else ''LATE_DELETE_RESOLUTION_LEASE_EXPIRED''),
         lr_next_attempt_at := None, lr_updated_at := now\<rparr>)"

text \<open>\<open>NOT (\<dots>)\<close> in SQL is true only if a conjunct is false; a \<open>NULL\<close> disposition makes none false.\<close>

definition not_delete_started :: "late_row \<Rightarrow> bool" where
  "not_delete_started r \<longleftrightarrow>
     lr_state r \<noteq> LateProcessing
     \<or> (case lr_last_disposition r of None \<Rightarrow> False | Some d \<Rightarrow> d \<noteq> ''delete_started'')
     \<or> lr_last_disposition_epoch r \<noteq> lr_resolution_epoch r
     \<or> lr_last_reserved_epoch r \<noteq> lr_resolution_epoch r"

definition recover_tx :: "nat late_tx" where
  "recover_tx =
     tx_bind late_now (\<lambda>now.
     tx_bind (tx_query LateDatabaseError (\<lambda>env _ db.
       filter (expired_delete_started now) (late_rows db))) (\<lambda>delete_started_rows.
     tx_bind (tx_sum (recover_delete_started_in now) delete_started_rows) (\<lambda>changed.
     tx_bind (update_late_rows LateDatabaseError
       (\<lambda>r. lr_state r \<in> {LateClaimed, LateProcessing}
            \<and> sql_not_after (lr_lease_expires_at r) (Some now)
            \<and> not_delete_started r)
       (\<lambda>env n. late_expire now)) (\<lambda>expired.
     tx_return (changed + expired)))))"

definition recover_expired_late_delete_resolutions ::
    "sql_env \<Rightarrow> sync_db \<Rightarrow> (late_error + nat) \<times> sync_db" where
  "recover_expired_late_delete_resolutions = run_late recover_tx"

end
