(* ===== verification/Late_Delete_Evolution.thy ===== *)
theory Late_Delete_Evolution
  imports Late_Delete_Order Late_Delete_Settle
begin

text \<open>
  Every operation of the late-delete store writes only the resolutions and the lease of the
  resolver, and changes them along the order of Late_Delete_Order.
\<close>

section \<open>What the store writes\<close>

definition late_frame :: "sync_db \<Rightarrow> sync_db \<Rightarrow> bool" where
  "late_frame db db' \<longleftrightarrow> db' = db\<lparr>late_rows := late_rows db', late_lease := late_lease db'\<rparr>"

lemma late_frame_trans: "late_frame a b \<Longrightarrow> late_frame b c \<Longrightarrow> late_frame a c"
  by (cases a; cases b; cases c) (simp add: late_frame_def)

interpretation late_frame: tx_preorder late_frame
  by unfold_locales (simp_all add: late_frame_def [of x x for x] late_frame_trans)

lemma frame_update_late_rows [tx_rel_intros]: "tx_rel late_frame (update_late_rows e p f)"
  by (rule tx_relI) (simp add: update_late_rows_Inr late_frame_def)

lemma frame_update_late_lease [tx_rel_intros]: "tx_rel late_frame (update_late_lease p f)"
  by (rule tx_relI)
    (auto simp: update_late_lease_def tx_stmt_Inr late_frame_def split: option.splits if_splits)

section \<open>Reads\<close>

lemma reads_now: "tx_preorder R \<Longrightarrow> tx_rel R (authoritative_now_in e)"
  unfolding authoritative_now_in_def by (rule tx_preorder.rel_query)

lemma reads_authority: "tx_preorder R \<Longrightarrow> tx_rel R (resolution_authority_is_current_in row now)"
  unfolding resolution_authority_is_current_in_def Let_def
  by (intro tx_preorder.rel_if tx_preorder.rel_bind tx_preorder.rel_return tx_preorder.rel_query)
    (auto simp: tx_rel_def tx_stmt_Inr tx_preorder.pre_refl split: option.splits)

lemma reads_token: "tx_preorder R \<Longrightarrow> tx_rel R (token_is_current_in t now)"
  unfolding token_is_current_in_def load_resolution_in_def
  by (intro tx_preorder.rel_if tx_preorder.rel_bind tx_preorder.rel_return tx_preorder.rel_query
      tx_preorder.rel_option)

lemmas late_reads = reads_now reads_authority reads_token

lemmas late_pure = late_reads [OF tx_reads.tx_preorder_axioms]

lemmas frame_reads [tx_rel_intros] = late_reads [OF late_frame.tx_preorder_axioms]

lemmas late_queries = load_resolution_in_def select_next_candidate_in_def
  runtime_lease_is_current_in_def runtime_lease_matches_in_def

section \<open>The lease of the resolver\<close>

lemma rel_update_late_lease:
  assumes "\<And>env n l. p l \<Longrightarrow> late_lease_le (Some l) (Some (f env n l))"
  shows "tx_rel late_le (update_late_lease p f)"
proof (rule tx_relI)
  fix env n db x n' db'
  assume "update_late_lease p f env n db = Inr (x, n', db')"
  then show "late_le db db'"
    using assms
    by (auto simp: update_late_lease_def tx_stmt_Inr late.pre_refl late_le_def late_wf_def
        late_rows_le_same split: option.splits if_splits)
qed

lemma lease_taken_le: "late_lease_le (Some l) (Some (late_lease_taken owner env n l))"
  by (simp add: late_lease_le_def late_lease_taken_def)

lemma lease_released_le: "late_lease_le (Some l) (Some (l\<lparr>rl_owner := None, rl_expires_at := None\<rparr>))"
  by (simp add: late_lease_le_def)

section \<open>Rows\<close>

lemma unlease_simps [simp]:
  "lr_id (late_unlease r) = lr_id r" "lr_identity (late_unlease r) = lr_identity r"
  "lr_state (late_unlease r) = lr_state r"
  "lr_resolution_count (late_unlease r) = lr_resolution_count r"
  "lr_resolution_epoch (late_unlease r) = lr_resolution_epoch r"
  "lr_last_reserved_epoch (late_unlease r) = lr_last_reserved_epoch r"
  "lr_last_disposition_epoch (late_unlease r) = lr_last_disposition_epoch r"
  by (simp_all add: late_unlease_def)

lemma check_disposition_epoch: "late_row_check r \<Longrightarrow> lr_last_disposition_epoch r \<le> lr_resolution_epoch r"
  by (simp add: late_row_check_def)

lemma waiting_le:
  "late_row_check r \<Longrightarrow> \<not> late_terminal (lr_state r) \<Longrightarrow>
   late_row_le r ((late_waiting now r)\<lparr>lr_last_error_code := code\<rparr>)
   \<and> late_row_le r (late_waiting now r)"
  by (auto simp: late_waiting_def check_disposition_epoch intro!: late_row_le_settle)

lemma claimed_le: "\<not> late_terminal (lr_state r) \<Longrightarrow> late_row_le r (late_claimed lease now env n r)"
  by (simp add: late_row_le_def late_claimed_def late_slot_le_def late_phase_le_def)

lemma reserve_le:
  "lr_state r = LateClaimed \<Longrightarrow> lr_last_reserved_epoch r < lr_resolution_epoch r \<Longrightarrow>
   late_row_le r (late_reserve now r)"
  by (simp add: late_row_le_def late_reserve_def late_slot_le_def late_phase_le_def late_terminal_def)

lemma started_le:
  "lr_state r = LateProcessing \<Longrightarrow> lr_last_disposition_epoch r < lr_resolution_epoch r \<Longrightarrow>
   late_row_le r (late_delete_started now r)"
  by (rule late_row_le_settle) (simp_all add: late_delete_started_def late_terminal_def)

lemma settled_le:
  "late_row_check r \<Longrightarrow> lr_state r = LateProcessing \<Longrightarrow> target \<noteq> LateClaimed \<Longrightarrow>
   late_row_le r (late_settled target disposition code unlease next_at terminal now r)"
  by (rule late_row_le_settle)
    (simp_all add: late_settled_def late_terminal_def check_disposition_epoch)

lemma delete_unknown_le:
  "late_row_check r \<Longrightarrow> lr_state r = LateProcessing \<Longrightarrow> late_row_le r (late_delete_unknown now r)"
  by (rule late_row_le_settle)
    (simp_all add: late_delete_unknown_def late_terminal_def check_disposition_epoch)

lemma expire_le:
  "late_row_check r \<Longrightarrow> lr_state r \<in> {LateClaimed, LateProcessing} \<Longrightarrow> late_row_le r (late_expire now r)"
  by (rule late_row_le_settle)
    (auto simp: late_expire_def late_terminal_def check_disposition_epoch Let_def
      split: if_splits)

text \<open>A statement on a row read before, by its id alone.\<close>

lemma at_row_by_id:
  assumes "row \<in> set (late_rows db)" and "\<not> late_terminal (lr_state row)"
    and "\<And>env n. late_row_check row \<Longrightarrow> late_row_le row (f env n row)"
  shows "tx_at late_le db (update_late_rows e (\<lambda>r. lr_id r = lr_id row) f)"
proof (rule tx_atI)
  fix env n x n' db'
  assume "update_late_rows e (\<lambda>r. lr_id r = lr_id row) f env n db = Inr (x, n', db')"
  then show "late_le db db'"
  proof (rule update_late_rows_le)
    fix r assume wf: "late_wf db" and r: "r \<in> set (late_rows db)" "lr_id r = lr_id row"
    with assms(1) have "r = row" by (intro late_wf_id)
    with assms(3) wf r(1) show "late_row_le r (f env n r)" by (simp add: late_wf_def)
  qed
qed

lemma at_converge:
  "row \<in> set (late_rows db) \<Longrightarrow> \<not> late_terminal (lr_state row) \<Longrightarrow>
   tx_at late_le db (converge_waiting_rebuild_in (lr_id row) now)"
  unfolding converge_waiting_rebuild_in_def by (rule at_row_by_id) (simp_all add: waiting_le)

lemma at_block_limit:
  "row \<in> set (late_rows db) \<Longrightarrow> \<not> late_terminal (lr_state row) \<Longrightarrow>
   tx_at late_le db (block_limit_in (lr_id row) now)"
  unfolding block_limit_in_def by (rule at_row_by_id) (simp_all add: waiting_le)

section \<open>Transactions\<close>

lemmas late_at = tx_at_intros at_return [where R = late_le, OF late.pre_refl]
  at_read [OF late_pure(1)] at_read [OF late_pure(2)] at_read [OF late_pure(3)]

lemma select_candidate_Some:
  assumes "(case late_in_order (filter (late_candidate now) rows) of [] \<Rightarrow> None | r # _ \<Rightarrow> Some r) = Some v"
  shows "v \<in> set rows \<and> late_candidate now v"
proof -
  have "set (late_in_order (filter (late_candidate now) rows)) = set (filter (late_candidate now) rows)"
    by (simp add: late_in_order_def)
  with assms show ?thesis by (auto split: list.splits)
qed

lemma find_id_Some: "find (\<lambda>r. lr_id r = i) rows = Some v \<Longrightarrow> v \<in> set rows \<and> lr_id v = i"
  by (auto simp: find_Some_iff)

lemma candidate_open: "late_candidate now v \<Longrightarrow> \<not> late_terminal (lr_state v)"
  by (auto simp: late_candidate_def late_terminal_def)

lemma rel_claim_row: 
  assumes "\<not> late_terminal (lr_state row)"
  shows "tx_rel late_le (claim_row_in lease now row)"
  unfolding claim_row_in_def by (rule rel_late_update) (use assms in \<open>simp add: claimed_le\<close>)

lemma rel_reserve_row: "tx_rel late_le (reserve_row_in c now row)"
  unfolding reserve_row_in_def by (rule rel_late_update) (simp add: reserve_le)

lemma rel_issue_row: "tx_rel late_le (issue_row_in t now)"
  unfolding issue_row_in_def by (rule rel_late_update) (simp add: started_le)

lemma rel_late_claim: "tx_rel late_le (late_claim_tx lease)"
  unfolding late_claim_tx_def late_queries
proof (intro tx_rel_at late_at)
  fix db :: sync_db and now :: string and v authority
  assume v: "(case late_in_order (filter (late_candidate now) (late_rows db)) of
      [] \<Rightarrow> None | r # _ \<Rightarrow> Some r) = Some v"
  then have row: "v \<in> set (late_rows db)" "\<not> late_terminal (lr_state v)"
    using select_candidate_Some candidate_open by blast+
  show "tx_at late_le db (tx_bind (converge_waiting_rebuild_in (lr_id v) now)
      (\<lambda>_. tx_return NoEligibleResolution))"
    by (intro at_last at_converge row tx_reads.rel_return)
  show "tx_at late_le db (tx_bind (block_limit_in (lr_id v) now)
      (\<lambda>_. tx_return NoEligibleResolution))"
    by (intro at_last at_block_limit row tx_reads.rel_return)
  show "tx_at late_le db (tx_bind (claim_row_in lease now v) (\<lambda>changed.
      if changed \<noteq> 1 then tx_return NoEligibleResolution
      else tx_return (ClaimedResolution (late_claim_of lease v))))"
    by (intro at_last tx_at_rel rel_claim_row row tx_reads.rel_return tx_reads.rel_if)
qed

lemma rel_late_reserve: "tx_rel late_le (late_reserve_tx c)"
  unfolding late_reserve_tx_def late_queries
proof (intro tx_rel_at late_at)
  fix db :: sync_db and now :: string and v authority
  assume v: "find (\<lambda>r. lr_id r = lc_resolution_id c) (late_rows db) = Some v"
    and "\<not> \<not> claim_matches_row c v"
  then have row: "v \<in> set (late_rows db)" "\<not> late_terminal (lr_state v)"
    using find_id_Some [OF v] by (auto simp: claim_matches_row_def late_terminal_def)
  show "tx_at late_le db (tx_bind (converge_waiting_rebuild_in (lr_id v) now)
      (\<lambda>_. tx_return LateReservationLost))"
    by (intro at_last at_converge row tx_reads.rel_return)
  show "tx_at late_le db (tx_bind (block_limit_in (lr_id v) now)
      (\<lambda>_. tx_return LateResolutionLimitReached))"
    by (intro at_last at_block_limit row tx_reads.rel_return)
  show "tx_at late_le db (tx_bind (reserve_row_in c now v) (\<lambda>changed.
      if changed \<noteq> 1 then tx_return LateReservationLost
      else tx_return (LateReserved (late_token_of c v))))"
    by (intro at_last tx_at_rel rel_reserve_row tx_reads.rel_return tx_reads.rel_if)
qed

text \<open>What a current token says about the tables.\<close>

definition token_holds :: "late_token \<Rightarrow> string \<Rightarrow> sync_db \<Rightarrow> late_row \<Rightarrow> bool" where
  "token_holds t now db r \<longleftrightarrow>
     token_targets_delete t \<and> find (\<lambda>r. lr_id r = lt_resolution_id t) (late_rows db) = Some r
     \<and> late_runtime_live (lt_lease_owner t) (lt_fence_epoch t) now db
     \<and> lr_state r = LateProcessing \<and> lr_identity r = lt_identity t
     \<and> lr_lease_owner r = Some (lt_lease_owner t) \<and> lr_lease_fence_epoch r = Some (lt_fence_epoch t)
     \<and> sql_after (lr_lease_expires_at r) now
     \<and> lr_resolution_epoch r = lt_resolution_epoch t
     \<and> lr_resolution_count r = lt_resolution_ordinal t
     \<and> lr_last_reserved_epoch r = lt_resolution_epoch t"

lemma token_is_current_Inr:
  assumes "token_is_current_in t now env n db = Inr (x, n', db')"
  shows "db' = db \<and> (x \<longleftrightarrow> (\<exists>r. token_holds t now db r))"
  using assms
  by (cases "find (\<lambda>r. lr_id r = lt_resolution_id t) (late_rows db)")
    (auto simp: token_is_current_in_def load_resolution_in_def tx_Inr token_holds_def
      split: if_splits)

lemma token_holds_row:
  "token_holds t now db r \<Longrightarrow>
   r \<in> set (late_rows db) \<and> lr_id r = lt_resolution_id t \<and> \<not> late_terminal (lr_state r)"
  by (auto simp: token_holds_def late_terminal_def dest: find_id_Some)

lemma at_token:
  "(\<And>x. (x \<Longrightarrow> \<exists>r. token_holds t now db r) \<Longrightarrow> tx_at R db (g x)) \<Longrightarrow>
   tx_at R db (tx_bind (token_is_current_in t now) g)"
  unfolding tx_at_def tx_bind_Inr by (metis token_is_current_Inr)

lemma rel_late_issue: "tx_rel late_le (late_issue_tx present)"
  unfolding late_issue_tx_def load_resolution_in_def Let_def
proof (intro tx_rel_at tx_at_intros at_return [where R = late_le, OF late.pre_refl]
    at_read [OF late_pure(1)] at_read [OF late_pure(2)] at_token)
  fix db :: sync_db and now :: string and v current authority
  assume v: "find (\<lambda>r. lr_id r = lt_resolution_id (pq_token present)) (late_rows db) = Some v"
    and "current \<Longrightarrow> \<exists>r. token_holds (pq_token present) now db r" and "\<not> \<not> current"
  then obtain r where "token_holds (pq_token present) now db r" by blast
  with v token_holds_row [OF this] have row: "v \<in> set (late_rows db)" "\<not> late_terminal (lr_state v)"
    by (auto simp: token_holds_def)
  show "tx_at late_le db (tx_bind (converge_waiting_rebuild_in (lr_id v) now)
      (\<lambda>_. tx_return CoreWaitingRebuild))"
    by (intro at_last at_converge row tx_reads.rel_return)
  show "tx_at late_le db (tx_bind (issue_row_in (pq_token present) now) (\<lambda>changed.
      if changed \<noteq> 1 then tx_return CoreLost
      else tx_return (CoreIssued \<lparr>dp_token = pq_token present, dp_revision = pq_revision present,
                                  dp_content_hash = pq_content_hash present\<rparr>)))"
    by (intro at_last tx_at_rel rel_issue_row tx_reads.rel_return tx_reads.rel_if)
qed

lemma rel_transition:
  "target \<noteq> LateClaimed \<Longrightarrow> tx_rel late_le (transition_tx t target disposition code modifier)"
  unfolding transition_tx_def transition_row_in_def
  by (intro late.rel_bind late.rel_if late.rel_return late.rel_result rel_late_update
      late_reads [OF late.tx_preorder_axioms]) (simp add: settled_le)

lemma rel_post_delete:
  "target \<noteq> LateClaimed \<Longrightarrow> tx_rel late_le (post_delete_tx t target disposition code)"
  unfolding post_delete_tx_def post_delete_row_in_def Let_def
  by (intro late.rel_bind late.rel_if late.rel_return rel_late_update
      late_reads [OF late.tx_preorder_axioms]) (simp add: settled_le)

section \<open>Recovery\<close>

text \<open>Every row of the loop is still open when its turn comes.\<close>

definition rows_open :: "late_row list \<Rightarrow> sync_db \<Rightarrow> bool" where
  "rows_open rows db \<longleftrightarrow>
     (\<forall>row \<in> set rows. \<forall>r \<in> set (late_rows db). lr_id r = lr_id row
        \<longrightarrow> \<not> late_terminal (lr_state r))"

lemma update_open_le:
  assumes up: "update_late_rows e p f env n db = Inr (x, n', db')"
    and p: "\<And>r. p r \<Longrightarrow> lr_id r = lr_id row"
    and f: "\<And>r. late_row_check r \<Longrightarrow> p r \<Longrightarrow> \<not> late_terminal (lr_state r) \<Longrightarrow> late_row_le r (f env n r)
      \<and> \<not> late_terminal (lr_state (f env n r))"
    and id: "\<And>r. lr_id (f env n r) = lr_id r"
    and "late_wf db" and "row \<in> set rows" and rows: "rows_open rows db"
  shows "late_le db db' \<and> rows_open rows db'"
proof
  have opened: "\<not> late_terminal (lr_state r)" if "r \<in> set (late_rows db)" "p r" for r
    using rows \<open>row \<in> set rows\<close> that p unfolding rows_open_def by blast
  show "late_le db db'"
    using up by (rule update_late_rows_le) (use f opened in \<open>auto simp: late_wf_def\<close>)
  have "\<not> late_terminal (lr_state (if p r then f env n r else r))"
    if "r \<in> set (late_rows db)" "lr_id (if p r then f env n r else r) = lr_id q" "q \<in> set rows" for r q
  proof (cases "p r")
    case True
    with f opened that(1) \<open>late_wf db\<close> show ?thesis by (simp add: late_wf_def)
  next
    case False
    with rows that show ?thesis by (auto simp: rows_open_def)
  qed
  with up show "rows_open rows db'"
    by (auto simp: update_late_rows_Inr rows_open_def simp del: if_image_distrib)
qed

lemma late_waiting_id [simp]: "lr_id (late_waiting now r) = lr_id r"
  "lr_state (late_waiting now r) = LateWaitingRebuild"
  by (simp_all add: late_waiting_def)

lemma late_delete_unknown_id [simp]: "lr_id (late_delete_unknown now r) = lr_id r"
  "lr_state (late_delete_unknown now r) = LateUnknown"
  by (simp_all add: late_delete_unknown_def)

lemma waiting_open:
  "late_row_check r \<Longrightarrow> \<not> late_terminal (lr_state r) \<Longrightarrow>
   late_row_le r (late_waiting now r) \<and> \<not> late_terminal (lr_state (late_waiting now r))
   \<and> late_row_le r ((late_waiting now r)\<lparr>lr_last_error_code := code\<rparr>)"
  using waiting_le [of r] by (simp add: late_terminal_def)

lemma recover_one_le:
  assumes run: "recover_delete_started_in now row env n db = Inr (x, n', db')"
    and wf: "late_wf db" and row: "row \<in> set rows" and opened: "rows_open rows db"
  shows "late_le db db' \<and> rows_open rows db'"
proof -
  have same: "late_le db db \<and> rows_open rows db" using opened late.pre_refl by blast
  have by_id: "late_le db db' \<and> rows_open rows db'"
    if "update_late_rows LateDatabaseError (\<lambda>r. lr_id r = lr_id row) f env m db = Inr (y, m', db')"
      and "\<And>env n r. late_row_check r \<Longrightarrow> \<not> late_terminal (lr_state r) \<Longrightarrow>
        late_row_le r (f env n r) \<and> \<not> late_terminal (lr_state (f env n r))"
      and "\<And>env n r. lr_id (f env n r) = lr_id r" for f m y m'
    by (rule update_open_le [OF that(1)]) (use that wf row opened in auto)
  have authority: "db1 = db" if "resolution_authority_is_current_in row now env n db = Inr (y, m, db1)"
    for y m db1
    using tx_relD [OF late_pure(2) that] by simp
  from run consider
      (limit) y m where "block_limit_in (lr_id row) now env n db = Inr (y, m, db')"
    | (waiting) y m m' where "converge_waiting_rebuild_in (lr_id row) now env m db = Inr (y, m', db')"
    | (unknown) m where "update_late_rows LateDatabaseError
          (\<lambda>r. lr_id r = lr_id row \<and> expired_delete_started now r)
          (\<lambda>env n. late_delete_unknown now) env m db = Inr (x, n', db')"
    unfolding recover_delete_started_in_def
    by (auto simp: tx_bind_Inr dest!: authority split: if_splits)
  then show ?thesis
  proof cases
    case limit
    then show ?thesis
      unfolding block_limit_in_def by (rule by_id) (simp_all add: waiting_open late_terminal_def)
  next
    case waiting
    then show ?thesis
      unfolding converge_waiting_rebuild_in_def
      by (rule by_id) (use waiting_open in \<open>simp_all add: late_terminal_def\<close>)
  next
    case unknown
    then show ?thesis
      by (rule update_open_le)
        (use wf row opened in \<open>auto simp: expired_delete_started_def current_delete_started_def
          delete_unknown_le late_terminal_def\<close>)
  qed
qed

lemma recover_rows_le:
  assumes "tx_sum (recover_delete_started_in now) rows env n db = Inr (x, n', db')"
    and "late_wf db" and "set rows \<subseteq> set all" and "rows_open all db"
  shows "late_le db db' \<and> rows_open all db'"
  using assms
proof (induction rows arbitrary: n db x)
  case Nil
  then show ?case by (simp add: late.pre_refl)
next
  case (Cons row rows)
  from Cons.prems(1) obtain y m db1 z where
    one: "recover_delete_started_in now row env n db = Inr (y, m, db1)"
    and rest: "tx_sum (recover_delete_started_in now) rows env m db1 = Inr (z, n', db')"
    by (auto simp: tx_bind_Inr)
  have step: "late_le db db1 \<and> rows_open all db1"
    using one Cons.prems(2-4) by (intro recover_one_le [of now row env n db y m db1 all]) auto
  then have "late_wf db1" using Cons.prems(2) by (simp add: late_le_def)
  with rest have "late_le db1 db' \<and> rows_open all db'"
    using Cons.prems(3) step by (intro Cons.IH [of m db1 z]) auto
  with step show ?case using late.pre_trans by blast
qed

lemma rel_late_recovery: "tx_rel late_le recover_tx"
proof (rule tx_relI)
  fix env n db x n' db'
  assume run: "recover_tx env n db = Inr (x, n', db')"
  show "late_le db db'"
  proof (cases "late_wf db")
    case True
    from run obtain now y m db1 z k k' where
      loop: "tx_sum (recover_delete_started_in now)
          (filter (expired_delete_started now) (late_rows db)) env k db = Inr (y, m, db1)"
      and last: "update_late_rows LateDatabaseError
          (\<lambda>r. lr_state r \<in> {LateClaimed, LateProcessing}
               \<and> sql_not_after (lr_lease_expires_at r) (Some now) \<and> not_delete_started r)
          (\<lambda>env n. late_expire now) env m db1 = Inr (z, k', db')"
      unfolding recover_tx_def authoritative_now_in_def
      by (auto simp: tx_bind_Inr tx_query_Inr)
    have "rows_open (filter (expired_delete_started now) (late_rows db)) db"
      unfolding rows_open_def
    proof (intro ballI impI)
      fix row r
      assume row: "row \<in> set (filter (expired_delete_started now) (late_rows db))"
        and r: "r \<in> set (late_rows db)" "lr_id r = lr_id row"
      then have "r = row" using late_wf_id [OF True] by simp
      with row show "\<not> late_terminal (lr_state r)"
        by (simp add: expired_delete_started_def current_delete_started_def late_terminal_def)
    qed
    with recover_rows_le [OF loop True subset_refl] have "late_le db db1" by blast
    moreover have "late_le db1 db'"
      using last by (rule update_late_rows_le) (simp add: expire_le late_wf_def)
    ultimately show ?thesis by (rule late.pre_trans)
  qed (simp add: late_le_def)
qed

end
