(* ===== verification/Late_Delete_Ops.thy ===== *)
theory Late_Delete_Ops
  imports Late_Delete_Evolution
begin

text \<open>
  The operations of the late-delete store as one step function, and that each of them follows the
  order of Late_Delete_Order and leaves every other table alone.
\<close>

datatype late_op =
    LateAcquire string
  | LateRelease late_runtime_lease
  | LateClaimOne late_runtime_lease
  | LateReserveSlot late_claim
  | LateTokenCurrent late_token
  | LatePermitCurrent late_token
  | LateIssue present_post_query
  | LateMark late_token late_disposition
  | LateAbsent late_token
  | LateDeleted late_token
  | LateMarkUnknown late_token late_disposition string
  | LateRetryLater late_token int string
  | LateAwaitRebuild late_token string
  | LatePostDeleted late_token
  | LatePostAbsent late_token
  | LatePostMismatch late_token
  | LatePostFailed late_token vector_store_error
  | LatePreDeleteCorrupt late_token string
  | LateRecover
  | LateReconcileToken late_token
  | LateReconcileId int
  | LateReconcilePostDelete late_token late_state late_disposition

datatype late_outcome =
    LoLease "late_runtime_lease option"
  | LoBool bool
  | LoClaim late_claim_result
  | LoReservation late_reservation
  | LoIssuance issuance_core
  | LoFinalize late_finalize_result
  | LoPostDelete post_delete_result
  | LoCount nat
  | LoUnknownCommit commit_unknown_no_permit
  | LoStarted delete_started_state

definition late_as :: "('a \<Rightarrow> late_outcome) \<Rightarrow> (late_error + 'a) \<times> sync_db \<Rightarrow> (late_error + late_outcome) \<times> sync_db" where
  "late_as f = (\<lambda>(r, db). (map_sum id f r, db))"

fun late_step :: "sync_db \<Rightarrow> sql_env \<times> late_op \<Rightarrow> (late_error + late_outcome) \<times> sync_db" where
  "late_step db (env, LateAcquire owner) =
     late_as LoLease (acquire_late_delete_runtime_lease owner env db)"
| "late_step db (env, LateRelease lease) =
     late_as LoBool (release_late_delete_runtime_lease lease env db)"
| "late_step db (env, LateClaimOne lease) =
     late_as LoClaim (claim_one_late_delete_resolution lease env db)"
| "late_step db (env, LateReserveSlot c) =
     late_as LoReservation (reserve_late_delete_resolution c env db)"
| "late_step db (env, LateTokenCurrent t) =
     late_as LoBool (late_delete_resolution_token_is_current t env db)"
| "late_step db (env, LatePermitCurrent t) =
     late_as LoBool (late_delete_delete_permit_is_current t env db)"
| "late_step db (env, LateIssue present) =
     late_as LoIssuance (issue_late_delete_permit_core present env db)"
| "late_step db (env, LateMark t d) =
     late_as LoFinalize (mark_late_delete_resolution_disposition t d env db)"
| "late_step db (env, LateAbsent t) =
     late_as LoFinalize (finalize_late_delete_resolution_absent t env db)"
| "late_step db (env, LateDeleted t) =
     late_as LoFinalize (finalize_late_delete_resolution_deleted t env db)"
| "late_step db (env, LateMarkUnknown t d code) =
     late_as LoFinalize (finalize_late_delete_resolution_unknown t d code env db)"
| "late_step db (env, LateRetryLater t delay code) =
     late_as LoFinalize (finalize_late_delete_resolution_retry_wait t delay code env db)"
| "late_step db (env, LateAwaitRebuild t code) =
     late_as LoFinalize (finalize_late_delete_resolution_waiting_rebuild t code env db)"
| "late_step db (env, LatePostDeleted t) =
     late_as LoPostDelete (finalize_deleted_post_delete t env db)"
| "late_step db (env, LatePostAbsent t) =
     late_as LoPostDelete (finalize_absent_post_delete t env db)"
| "late_step db (env, LatePostMismatch t) =
     late_as LoPostDelete (finalize_identity_mismatch_post_delete t env db)"
| "late_step db (env, LatePostFailed t e) =
     late_as LoPostDelete (finalize_failed_post_delete t e env db)"
| "late_step db (env, LatePreDeleteCorrupt t code) =
     late_as LoPostDelete (finalize_pre_delete_corrupt t code env db)"
| "late_step db (env, LateRecover) =
     late_as LoCount (recover_expired_late_delete_resolutions env db)"
| "late_step db (env, LateReconcileToken t) =
     late_as LoUnknownCommit (reconcile_late_delete_started_exact_token t env db)"
| "late_step db (env, LateReconcileId i) =
     late_as LoStarted (reconcile_late_delete_started i env db)"
| "late_step db (env, LateReconcilePostDelete t target d) =
     late_as LoPostDelete (reconcile_post_delete_commit_unknown t target d env db)"

lemma snd_late_as [simp]: "snd (late_as f p) = snd p"
  by (cases p) (simp add: late_as_def)

lemma late_as_Inr:
  "late_as f p = (Inr out, db') \<longleftrightarrow> (\<exists>x. p = (Inr x, db') \<and> out = f x)"
  by (cases p; cases "fst p") (auto simp: late_as_def)

section \<open>Every operation follows the order\<close>

text \<open>A relation that all statements of the store respect.\<close>

definition late_op_le :: "sync_db \<Rightarrow> sync_db \<Rightarrow> bool" where
  "late_op_le db db' \<longleftrightarrow> late_frame db db' \<and> late_le db db'"

lemma rel_op: "tx_rel late_frame m \<Longrightarrow> tx_rel late_le m \<Longrightarrow> late_op_le db (snd (run_tx e m env db))"
  using late_frame.run_rel late.run_rel by (auto simp: late_op_le_def)

lemma late_op_le_refl [simp]: "late_op_le db db"
  by (simp add: late_op_le_def late.pre_refl late_frame.pre_refl)

lemma read_op: "tx_rel (=) m \<Longrightarrow> late_op_le db (snd (run_tx e m env db))"
  by (simp add: run_tx_reads)

lemmas frame_ops = late_queries late_claim_tx_def late_reserve_tx_def late_issue_tx_def
  transition_tx_def transition_row_in_def post_delete_tx_def post_delete_row_in_def
  claim_row_in_def reserve_row_in_def issue_row_in_def converge_waiting_rebuild_in_def
  block_limit_in_def Let_def

lemma frame_recover: "tx_rel late_frame recover_tx"
  unfolding recover_tx_def recover_delete_started_in_def frame_ops by (intro tx_rel_intros)

lemma op_transition:
  "target \<noteq> LateClaimed \<Longrightarrow>
   late_op_le db (snd (transition_late_delete_resolution t target d code modifier env db))"
  unfolding transition_late_delete_resolution_def
  by (rule rel_op [OF _ rel_transition]) (unfold frame_ops, (intro tx_rel_intros | assumption)+)

lemma op_post_delete:
  "target \<noteq> LateClaimed \<Longrightarrow> late_op_le db (snd (transition_post_delete t target d code env db))"
  unfolding transition_post_delete_def
  by (rule rel_op [OF _ rel_post_delete]) (unfold frame_ops, (intro tx_rel_intros | assumption)+)

lemmas transition_defs = mark_late_delete_resolution_disposition_def
  finalize_late_delete_resolution_absent_def finalize_late_delete_resolution_deleted_def
  finalize_late_delete_resolution_unknown_def finalize_late_delete_resolution_retry_wait_def
  finalize_late_delete_resolution_waiting_rebuild_def finalize_deleted_post_delete_def
  finalize_absent_post_delete_def finalize_identity_mismatch_post_delete_def
  finalize_failed_post_delete_def finalize_pre_delete_corrupt_def

lemma op_acquire: "late_op_le db (snd (acquire_late_delete_runtime_lease owner env db))"
  unfolding acquire_late_delete_runtime_lease_def
  by (auto intro!: rel_op late.rel_bind late.rel_if late.rel_query late.rel_return late.rel_result
      tx_rel_intros late_reads [OF late.tx_preorder_axioms] rel_update_late_lease lease_taken_le)

lemma op_release: "late_op_le db (snd (release_late_delete_runtime_lease lease env db))"
  unfolding release_late_delete_runtime_lease_def
  by (intro rel_op late.rel_bind late.rel_return tx_rel_intros
      late_reads [OF late.tx_preorder_axioms] rel_update_late_lease lease_released_le)

lemma op_claim: "late_op_le db (snd (claim_one_late_delete_resolution lease env db))"
  unfolding claim_one_late_delete_resolution_def
  by (rule rel_op [OF _ rel_late_claim]) (unfold frame_ops, intro tx_rel_intros)

lemma op_reserve: "late_op_le db (snd (reserve_late_delete_resolution c env db))"
  unfolding reserve_late_delete_resolution_def
  by (rule rel_op [OF _ rel_late_reserve]) (unfold frame_ops, intro tx_rel_intros)

lemma op_issue: "late_op_le db (snd (issue_late_delete_permit_core present env db))"
  unfolding issue_late_delete_permit_core_def
  by (rule rel_op [OF _ rel_late_issue]) (unfold frame_ops, intro tx_rel_intros)

lemma late_step_le: "late_op_le db (snd (late_step db (env, op)))"
proof (cases op)
  case LateRecover
  then show ?thesis
    unfolding LateRecover late_step.simps snd_late_as recover_expired_late_delete_resolutions_def
    by (intro rel_op frame_recover rel_late_recovery)
next
  case LateTokenCurrent
  then show ?thesis
    by (auto simp: late_delete_resolution_token_is_current_def
        intro!: read_op tx_reads.rel_bind late_pure)
next
  case LatePermitCurrent
  then show ?thesis
    by (auto simp: late_delete_delete_permit_is_current_def
        intro!: read_op tx_reads.rel_bind late_pure tx_reads.rel_if tx_reads.rel_return
          tx_reads.rel_query)
next
  case LateReconcileToken
  then show ?thesis
    by (auto simp: reconcile_late_delete_started_exact_token_def load_resolution_in_def
        intro!: read_op tx_reads.rel_bind tx_reads.rel_return tx_reads.rel_query)
next
  case LateReconcileId
  then show ?thesis
    by (auto simp: reconcile_late_delete_started_def
        intro!: read_op tx_reads.rel_bind tx_reads.rel_return tx_reads.rel_query)
next
  case (LateReconcilePostDelete t target d)
  have "snd (reconcile_post_delete_commit_unknown t target d env db) = db"
    unfolding reconcile_post_delete_commit_unknown_def Let_def
    by (rule tx_reads.run_auto_rel [symmetric])
      (intro tx_reads.rel_bind tx_reads.rel_query tx_reads.rel_option tx_reads.rel_return
        tx_reads.rel_result)
  then show ?thesis by (simp add: LateReconcilePostDelete)
qed (auto simp: transition_defs op_transition op_post_delete op_acquire op_release op_claim
    op_reserve op_issue)

end
