(* ===== verification/Vector_Sync_Run.thy ===== *)
theory Vector_Sync_Run
  imports Vector_Sync_Evolution Late_Delete_Ops Revision_Store
begin

text \<open>
  Runs of the outbox: the operations of \<open>src-tauri/src/storage/vector_sync_outbox.rs\<close> in any order,
  each with its own environment of SQLite's decisions, interleaved with the operations of the
  late-delete store and with the writes of other components to the same tables.
\<close>

section \<open>Enqueueing keeps the order\<close>

lemma upsert_outbox_Inr:
  assumes "upsert_outbox life memory action s target now env n db = Inr (x, n', db')"
  shows "db' = db\<lparr>outbox := map (\<lambda>r. if ob_life_id r = life \<and> ob_memory_id r = memory
              then ob_requeue action s target now r else r) (outbox db)\<rparr>
           \<and> (\<exists>r \<in> set (outbox db). ob_life_id r = life \<and> ob_memory_id r = memory)
    \<or> db' = db\<lparr>outbox := outbox db
                 @ [ob_fresh (sq_rowid env) life memory action s target now],
               outbox_sequence := sq_rowid env\<rparr>
        \<and> outbox_sequence db < sq_rowid env
        \<and> \<not> (\<exists>r \<in> set (outbox db). ob_life_id r = life \<and> ob_memory_id r = memory)"
  using assms by (auto simp: upsert_outbox_def tx_stmt_Inr list_ex_iff Let_def split: if_splits)

lemma outbox_wf_requeue:
  assumes wf: "outbox_wf db" and clock: "mutation_clock db = Some s"
    and g: "g = (\<lambda>r. if ob_life_id r = life \<and> ob_memory_id r = memory
                 then ob_requeue action (s + 1) target now r else r)"
  shows "outbox_wf (db\<lparr>mutation_clock := Some (s + 1), outbox := map g (outbox db)\<rparr>)"
proof -
  let ?rows = "outbox db"
  have ids: "map ob_id (map g ?rows) = map ob_id ?rows"
    and keys: "map (\<lambda>r. (ob_life_id r, ob_memory_id r)) (map g ?rows)
      = map (\<lambda>r. (ob_life_id r, ob_memory_id r)) ?rows"
    by (auto simp: g ob_requeue_def)
  have le: "\<forall>r \<in> set ?rows. ob_mutation_sequence r \<le> s"
    using wf clock by (auto simp: outbox_wf_def)
  have rows: "distinct ?rows" "inj_on ob_mutation_sequence (set ?rows)"
    "inj_on (\<lambda>r. (ob_life_id r, ob_memory_id r)) (set ?rows)"
    using wf by (auto simp: outbox_wf_def distinct_map)
  have "inj_on (ob_mutation_sequence \<circ> g) (set ?rows)"
  proof (rule inj_onI)
    fix r q assume mem: "r \<in> set ?rows" "q \<in> set ?rows"
      and eq: "(ob_mutation_sequence \<circ> g) r = (ob_mutation_sequence \<circ> g) q"
    from mem le have "ob_mutation_sequence r \<noteq> s + 1" "ob_mutation_sequence q \<noteq> s + 1" by force+
    with eq mem rows(2,3) show "r = q"
      by (auto simp: g ob_requeue_def inj_on_def split: if_splits)
  qed
  with rows(1) have "distinct (map ob_mutation_sequence (map g ?rows))"
    by (simp add: distinct_map)
  moreover have "\<forall>r \<in> set ?rows. ob_mutation_sequence (g r) \<le> s + 1"
    using le by (auto simp: g ob_requeue_def intro: order_trans)
  moreover have "\<forall>r \<in> set ?rows. ob_id (g r) = ob_id r" by (simp add: g ob_requeue_def)
  ultimately show ?thesis using wf by (simp del: map_map add: outbox_wf_def ids keys)
qed

lemma outbox_wf_append:
  assumes wf: "outbox_wf db" and clock: "mutation_clock db = Some s"
    and "outbox_sequence db < rowid"
    and "\<not> (\<exists>r \<in> set (outbox db). ob_life_id r = life \<and> ob_memory_id r = memory)"
  shows "outbox_wf (db\<lparr>mutation_clock := Some (s + 1),
     outbox := outbox db @ [ob_fresh rowid life memory action (s + 1) target now],
     outbox_sequence := rowid\<rparr>)"
proof -
  have "\<forall>r \<in> set (outbox db). ob_mutation_sequence r \<le> s"
    using wf clock by (auto simp: outbox_wf_def)
  then have "\<forall>r \<in> set (outbox db). ob_mutation_sequence r < s + 1" by force
  moreover have "\<forall>r \<in> set (outbox db). ob_id r < rowid"
    using wf assms(3) by (auto simp: outbox_wf_def)
  ultimately show ?thesis
    using wf assms(4) by (force simp: outbox_wf_def ob_fresh_def)
qed

context outbox_evolution
begin

lemma enqueue_le:
  assumes "enqueue_in_transaction lc sha life memory action env n db = Inr (x, n', db')"
  shows "outbox_le rr db db'"
  using assms
proof (rule enqueue_in_transaction_Inr)
  fix s now target n1 db1
  assume clock: "mutation_clock db = Some s" "mutation_clock db1 = Some (s + 1)"
    and same: "outbox db1 = outbox db" "outbox_sequence db1 = outbox_sequence db"
      "runtime_lease db1 = runtime_lease db"
    and late1: "late_le db db1"
    and up: "upsert_outbox life memory action (s + 1) target now env n1 db1 = Inr (x, n', db')"
    and none: "\<forall>r \<in> set (late_rows db1). \<not> late_of_memory life memory r"
  let ?g = "\<lambda>r. if ob_life_id r = life \<and> ob_memory_id r = memory
                then ob_requeue action (s + 1) target now r else r"
  let ?new = "ob_fresh (sq_rowid env) life memory action (s + 1) target now"
  have wf1: "outbox_wf (db\<lparr>mutation_clock := Some (s + 1), outbox := rows, outbox_sequence := q\<rparr>)
      = outbox_wf (db1\<lparr>outbox := rows, outbox_sequence := q\<rparr>)" for rows q
    by (simp add: outbox_wf_def clock)
  have seq: "outbox_sequence db1 = q \<Longrightarrow> db1\<lparr>outbox := rows\<rparr> = db1\<lparr>outbox := rows, outbox_sequence := q\<rparr>"
    for q rows by simp
  from upsert_outbox_Inr [OF up] consider
      (requeue) "db' = db1\<lparr>outbox := map ?g (outbox db)\<rparr>"
    | (append) "db' = db1\<lparr>outbox := outbox db @ [?new], outbox_sequence := sq_rowid env\<rparr>"
        "outbox_sequence db < sq_rowid env"
        "\<not> (\<exists>r \<in> set (outbox db). ob_life_id r = life \<and> ob_memory_id r = memory)"
    unfolding same by blast
  then show "outbox_le rr db db'"
  proof cases
    case requeue
    have "outbox_wf db \<Longrightarrow> outbox_wf db'"
      using outbox_wf_requeue [OF _ clock(1) refl, of life memory action target now] wf1
        [where rows = "map ?g (outbox db)" and q = "outbox_sequence db"]
      by (simp add: requeue same(2) outbox_wf_def clock)
    moreover have "rows_le rr db db'"
      unfolding rows_le_def
    proof
      fix r' assume "r' \<in> set (outbox db')"
      then obtain r where "r \<in> set (outbox db)" "r' = ?g r" by (auto simp: requeue)
      then show "(\<exists>r \<in> set (outbox db). rr r r')
          \<or> (\<forall>s. mutation_clock db = Some s \<longrightarrow> s < ob_mutation_sequence r')"
        by (cases "ob_life_id r = life \<and> ob_memory_id r = memory")
          (auto simp: ob_requeue_def clock intro: bexI [rotated] rr_refl)
    qed
    moreover have "late_le db1 db'"
      by (rule late_le_new_mutation [OF _ _ _ none])
        (auto simp: requeue same ob_memory_def ob_requeue_def intro: bexI [rotated])
    with late1 have "late_le db db'" by (rule late.pre_trans)
    ultimately show ?thesis
      by (simp add: outbox_le_def requeue same clock_le_def clock)
  next
    case append
    have "outbox_wf db \<Longrightarrow> outbox_wf db'"
      using outbox_wf_append [OF _ clock(1) append(2,3), of action target now]
        wf1 [where rows = "outbox db @ [?new]" and q = "sq_rowid env"]
      by (simp add: append(1))
    moreover have "rows_le rr db db'"
      by (auto simp: rows_le_def append(1) ob_fresh_def clock intro: bexI [rotated] rr_refl)
    moreover have "late_le db1 db'"
      by (rule late_le_new_mutation [OF _ _ _ none])
        (auto simp: append(1) same ob_memory_def ob_fresh_def intro: bexI [rotated])
    with late1 have "late_le db db'" by (rule late.pre_trans)
    ultimately show ?thesis
      by (simp add: outbox_le_def append(1) same clock_le_def clock)
  qed
qed

lemma rel_enqueue [tx_rel_intros]:
  "tx_rel (outbox_le rr) (enqueue_in_transaction lc sha life memory action)"
  by (rule tx_relI) (rule enqueue_le)

lemma rel_load_job [tx_rel_intros]: "tx_rel (outbox_le rr) (load_job life memory)"
  unfolding load_job_def by (intro tx_rel_intros)

lemma rel_retry_row [tx_rel_intros]: "tx_rel (outbox_le rr) (retry_row_in life row)"
  unfolding retry_row_in_def by (intro tx_rel_intros rel_update_outbox rr_retry)

end

section \<open>Operations and runs\<close>

text \<open>
  \<open>ForeignWrite\<close> is a commit of another component: any change of the memories, the generations,
  the pointer to the active one and the items. \<open>ForeignPromotion\<close> is what the promotion of a rebuilt
  generation (\<open>storage/generation_rebuild.rs\<close>) does to the outbox and the resolutions: it forgets
  mutations the rebuild has applied and resolves late deletes the rebuild has made moot; which ones
  is its choice.
\<close>

definition late_rebuilt :: "string \<Rightarrow> late_row \<Rightarrow> late_row" where
  "late_rebuilt now r =
     r\<lparr>lr_state := LateResolvedRebuilt, lr_last_disposition := Some ''resolved_rebuilt'',
       lr_last_disposition_epoch := lr_resolution_epoch r, lr_resolved_at := Some now,
       lr_updated_at := now, lr_lease_owner := None, lr_lease_fence_epoch := None,
       lr_lease_expires_at := None, lr_next_attempt_at := None\<rparr>"

definition promotion_in :: "int list \<Rightarrow> int list \<Rightarrow> string \<Rightarrow> sync_db \<Rightarrow> sync_db" where
  "promotion_in forgotten rebuilt now db =
     db\<lparr>late_rows := map (\<lambda>r. if lr_id r \<in> set rebuilt \<and> \<not> late_terminal (lr_state r)
                            then late_rebuilt now r else r) (late_rows db),
        outbox := filter (\<lambda>r. ob_id r \<notin> set forgotten) (outbox db)\<rparr>"

datatype sync_op =
    OpEnqueue string string sync_action
  | OpClaim string string nat string "int option" "int option"
  | OpClaimCurrent fenced_claim
  | OpReserve fenced_claim
  | OpTokenCurrent attempt_token
  | OpWitness attempt_token
  | OpFinalize attempt_token
  | OpFail attempt_token string failure_decision "string option" int int
  | OpBlockStale fenced_claim
  | OpRetryFailures string
  | OpSetClaimedState string string string sync_state "string option" string
  | OpMarkRetryAfter string string string nat string
  | OpComplete string string string
  | OpReleaseExpired string
  | OpLate late_op
  | ForeignPromotion "int list" "int list" string
  | ForeignWrite "memory_row list" "generation_row list" "string option" "item_row list"

datatype sync_outcome =
    OutJob outbox_row
  | OutClaim "fenced_claim option"
  | OutBool bool
  | OutReservation attempt_reservation
  | OutWitness witness_result
  | OutFinalize finalize_result
  | OutFailure failure_result
  | OutCount nat
  | OutLate "late_error + late_outcome"
  | OutUnit

definition as_outcome ::
    "('a \<Rightarrow> sync_outcome) \<Rightarrow> (sync_error + 'a) \<times> sync_db \<Rightarrow> (sync_error + sync_outcome) \<times> sync_db" where
  "as_outcome f = (\<lambda>(r, db). (map_sum id f r, db))"

record sync_params =
  sy_to_lowercase :: "string \<Rightarrow> string"
  sy_sha256 :: "string \<Rightarrow> string"

text \<open>\<open>set_claimed_state\<close> is called by \<open>mark_retry\<close>, \<open>mark_blocked\<close> and \<open>mark_failed\<close> only.\<close>

fun sync_step ::
    "sync_params \<Rightarrow> sync_db \<Rightarrow> sql_env \<times> sync_op \<Rightarrow> (sync_error + sync_outcome) \<times> sync_db" where
  "sync_step ps db (env, OpEnqueue life memory action) =
     as_outcome OutJob (enqueue (sy_to_lowercase ps) (sy_sha256 ps) life memory action env db)"
| "sync_step ps db (env, OpClaim g d dim owner cutoff epoch) =
     as_outcome OutClaim (claim_one_fenced_vector_sync g d dim owner cutoff epoch env db)"
| "sync_step ps db (env, OpClaimCurrent c) =
     as_outcome OutBool (fenced_vector_claim_is_current c env db)"
| "sync_step ps db (env, OpReserve c) = as_outcome OutReservation (reserve_fenced_attempt c env db)"
| "sync_step ps db (env, OpTokenCurrent t) =
     as_outcome OutBool (validate_fenced_attempt_token_current t env db)"
| "sync_step ps db (env, OpWitness t) =
     as_outcome OutWitness (mark_fenced_delete_send_witness t env db)"
| "sync_step ps db (env, OpFinalize t) =
     as_outcome OutFinalize (finalize_fenced_vector_sync t env db)"
| "sync_step ps db (env, OpFail t code decision disposition now cutoff) =
     as_outcome OutFailure
       (finalize_fenced_vector_failure t code decision disposition now cutoff env db)"
| "sync_step ps db (env, OpBlockStale c) =
     as_outcome OutFinalize (block_fenced_vector_target_stale c env db)"
| "sync_step ps db (env, OpRetryFailures life) = as_outcome OutCount (retry_failures life env db)"
| "sync_step ps db (env, OpSetClaimedState life memory owner state next_at code) =
     (if state \<in> {RetryWait, Blocked, Failed}
      then as_outcome (\<lambda>_. OutUnit) (set_claimed_state life memory owner state next_at code env db)
      else (Inr OutUnit, db))"
| "sync_step ps db (env, OpMarkRetryAfter life memory owner delay code) =
     as_outcome (\<lambda>_. OutUnit) (mark_retry_after life memory owner delay code env db)"
| "sync_step ps db (env, OpComplete life memory owner) =
     as_outcome (\<lambda>_. OutUnit) (complete_job life memory owner env db)"
| "sync_step ps db (env, OpReleaseExpired life) =
     as_outcome OutCount (release_expired_leases life env db)"
| "sync_step ps db (env, OpLate op) =
     (let (r, db') = late_step db (env, op) in (Inr (OutLate r), db'))"
| "sync_step ps db (env, ForeignPromotion forgotten rebuilt now) =
     (Inr OutUnit, promotion_in forgotten rebuilt now db)"
| "sync_step ps db (env, ForeignWrite ms gs active is) =
     (Inr OutUnit, db\<lparr>memories := ms, generations := gs, active_generation_id := active, items := is\<rparr>)"

text \<open>The token whose failure an operation reports.\<close>

fun failing_token :: "sync_op \<Rightarrow> attempt_token option" where
  "failing_token (OpFail t code decision disposition now cutoff) = Some t"
| "failing_token _ = None"

abbreviation sync_run where "sync_run ps \<equiv> run_all (sync_step ps)"

lemma snd_as_outcome [simp]: "snd (as_outcome f p) = snd p"
  by (cases p) (simp add: as_outcome_def)

lemma fst_as_outcome: "fst (as_outcome f p) = Inr out \<longleftrightarrow> (\<exists>x. fst p = Inr x \<and> out = f x)"
  by (cases p; cases "fst p") (auto simp: as_outcome_def)

lemma as_outcome_Inr:
  "as_outcome f p = (Inr out, db') \<longleftrightarrow> (\<exists>x. p = (Inr x, db') \<and> out = f x)"
  by (cases p; cases "fst p") (auto simp: as_outcome_def)

context outbox_evolution
begin

lemma late_op_outbox_le: "late_op_le db db' \<Longrightarrow> outbox_le rr db db'"
  by (rule le_late) (auto simp: late_op_le_def late_frame_def dest: arg_cong [where f = outbox]
      arg_cong [where f = outbox_sequence] arg_cong [where f = mutation_clock]
      arg_cong [where f = runtime_lease])

lemma promotion_le: "outbox_le rr db (promotion_in forgotten rebuilt now db)"
proof -
  let ?p = "\<lambda>r. lr_id r \<in> set rebuilt \<and> \<not> late_terminal (lr_state r)"
  let ?late = "db\<lparr>late_rows := map (\<lambda>r. if ?p r then late_rebuilt now r else r) (late_rows db)\<rparr>"
  have "late_le db ?late"
  proof (rule late_le_update [of ?late ?p "late_rebuilt now" db])
    fix r assume "late_wf db" "r \<in> set (late_rows db)" "?p r"
    then have r: "late_row_check r" "\<not> late_terminal (lr_state r)" by (auto simp: late_wf_def)
    from r show "late_row_check (late_rebuilt now r)"
      by (simp add: late_row_check_def late_rebuilt_def late_terminal_def)
    from r show "late_row_le r (late_rebuilt now r)"
      by (intro late_row_le_settle) (simp_all add: late_rebuilt_def check_disposition_epoch)
  qed simp_all
  then have "outbox_le rr db ?late" by (intro le_late) simp_all
  moreover have "outbox_le rr ?late (?late\<lparr>outbox := filter (\<lambda>r. ob_id r \<notin> set forgotten) (outbox db)\<rparr>)"
    using outbox_wf_filter [of ?late "\<lambda>r. ob_id r \<notin> set forgotten"]
    by (auto simp: outbox_le_def intro!: rows_le_subset clock_le_same late_le_outbox)
  ultimately have "outbox_le rr db (?late\<lparr>outbox := filter (\<lambda>r. ob_id r \<notin> set forgotten) (outbox db)\<rparr>)"
    by (rule pre_trans)
  then show ?thesis by (simp add: promotion_in_def)
qed

text \<open>Every operation; a failure needs a relation that covers its token.\<close>

lemma step_le:
  assumes "\<And>t. failing_token op = Some t \<Longrightarrow> covers_failure rr t"
  shows "outbox_le rr db (snd (sync_step ps db (env, op)))"
proof (cases op)
  case OpClaim
  then show ?thesis
    by (auto simp: claim_one_fenced_vector_sync_def pre_refl intro!: run_rel tx_rel_intros)
next
  case (OpFail t code decision disposition now cutoff)
  show ?thesis
    unfolding OpFail sync_step.simps snd_as_outcome finalize_fenced_vector_failure_def
    by (intro run_rel rel_failure assms) (simp add: OpFail)
next
  case OpEnqueue
  then show ?thesis
    by (auto simp: enqueue_def intro!: run_rel tx_rel_intros)
next
  case OpClaimCurrent
  then show ?thesis
    by (auto simp: fenced_vector_claim_is_current_def intro!: run_rel tx_rel_intros)
next
  case OpReserve
  then show ?thesis
    by (auto simp: reserve_fenced_attempt_def intro!: run_rel tx_rel_intros)
next
  case OpTokenCurrent
  then show ?thesis
    by (auto simp: validate_fenced_attempt_token_current_def
        intro!: run_rel tx_rel_intros tx_preorder_axioms)
next
  case (OpWitness t)
  then show ?thesis
    unfolding OpWitness sync_step.simps snd_as_outcome mark_fenced_delete_send_witness_def
    by (auto simp: pre_refl intro!: run_rel tx_rel_intros rel_update_outbox rr_witness)
next
  case OpFinalize
  then show ?thesis
    by (auto simp: finalize_fenced_vector_sync_def intro!: run_rel tx_rel_intros)
next
  case (OpBlockStale c)
  then show ?thesis
    unfolding OpBlockStale sync_step.simps snd_as_outcome block_fenced_vector_target_stale_def
    by (intro run_rel tx_rel_intros rel_update_outbox rr_stale) (simp add: binding_row_identity_def)
next
  case (OpRetryFailures life)
  then show ?thesis
    unfolding OpRetryFailures sync_step.simps snd_as_outcome retry_failures_def
    by (auto simp: pre_refl intro!: run_rel tx_rel_intros)
next
  case (OpSetClaimedState life memory owner state next_at code)
  then show ?thesis
    by (auto simp: set_claimed_state_def pre_refl
        intro!: run_auto_rel tx_rel_intros rel_update_outbox rr_legacy)
next
  case OpMarkRetryAfter
  then show ?thesis
    by (auto simp: mark_retry_after_def
        intro!: run_auto_rel tx_rel_intros rel_update_outbox rr_legacy)
next
  case OpComplete
  then show ?thesis
    by (auto simp: complete_job_def intro!: run_auto_rel tx_rel_intros)
next
  case OpReleaseExpired
  then show ?thesis
    by (auto simp: release_expired_leases_def
        intro!: run_auto_rel tx_rel_intros rel_update_outbox rr_release_expired)
next
  case ForeignWrite
  then show ?thesis by (simp add: le_frame)
next
  case (OpLate lop)
  then show ?thesis
    using late_op_outbox_le [OF late_step_le] by (simp add: split_beta)
next
  case ForeignPromotion
  then show ?thesis by (simp add: promotion_le)
qed

lemma run_le:
  assumes "\<And>op t. op \<in> snd ` set ops \<Longrightarrow> failing_token op = Some t \<Longrightarrow> covers_failure rr t"
  shows "outbox_le rr db (snd (sync_run ps db ops))"
  using assms
proof (induction ops arbitrary: db)
  case Nil
  show ?case by (simp add: pre_refl)
next
  case (Cons p ops)
  obtain env op where p: "p = (env, op)" by (cases p)
  have "outbox_le rr db (snd (sync_step ps db (env, op)))"
    by (rule step_le) (rule Cons.prems [of op], simp_all add: p)
  moreover have "outbox_le rr (snd (sync_step ps db p)) (snd (sync_run ps (snd (sync_step ps db p)) ops))"
    by (rule Cons.IH) (rule Cons.prems, auto)
  ultimately have "outbox_le rr db (snd (sync_run ps (snd (sync_step ps db p)) ops))"
    unfolding p by (rule pre_trans)
  then show ?case by (simp add: run_all_Cons del: run_all.simps(2))
qed

end

lemma sync_step_le: "sync_le db (snd (sync_step ps db (env, op)))"
  by (rule sync.step_le) (simp add: covers_failure_def row_le_fail)

lemma sync_run_le: "sync_le db (snd (sync_run ps db ops))"
  by (rule sync.run_le) (simp add: covers_failure_def row_le_fail)

lemma sync_run_wf: "outbox_wf db \<Longrightarrow> outbox_wf (snd (sync_run ps db ops))"
  using sync_run_le by (auto simp: outbox_le_def)

lemma sync_step_wf: "outbox_wf db \<Longrightarrow> outbox_wf (snd (sync_step ps db op))"
  using sync_step_le by (cases op) (auto simp: outbox_le_def)

text \<open>A row of a later state that stands for a mutation the earlier state already had.\<close>

lemma sync_le_row:
  assumes le: "sync_le db db'" and wf: "outbox_wf db"
    and r: "r \<in> set (outbox db)" and r': "r' \<in> set (outbox db')"
    and same: "ob_mutation_sequence r' = ob_mutation_sequence r"
  shows "row_le r r'"
proof -
  from wf r obtain s where "mutation_clock db = Some s" "ob_mutation_sequence r \<le> s"
    by (auto simp: outbox_wf_def)
  with le r' same obtain q where q: "q \<in> set (outbox db)" "row_le q r'"
    by (auto simp: outbox_le_def rows_le_def)
  then have "ob_mutation_sequence q = ob_mutation_sequence r"
    using same by (simp add: row_le_def same_mutation_def)
  with wf r q(1) have "q = r" by (auto simp: outbox_wf_def distinct_map inj_on_def)
  with q(2) show ?thesis by simp
qed

text \<open>A mutation that has left the outbox never comes back.\<close>

lemma sync_le_gone:
  assumes "sync_le db db'" and "mutation_clock db = Some s" and "q \<le> s"
    and "\<forall>r \<in> set (outbox db). ob_mutation_sequence r \<noteq> q"
  shows "\<forall>r \<in> set (outbox db'). ob_mutation_sequence r \<noteq> q"
proof
  fix r' assume r': "r' \<in> set (outbox db')"
  with assms(1) consider
      (old) r where "r \<in> set (outbox db)" "row_le r r'"
    | (new) "\<forall>s. mutation_clock db = Some s \<longrightarrow> s < ob_mutation_sequence r'"
    unfolding outbox_le_def rows_le_def by blast
  then show "ob_mutation_sequence r' \<noteq> q"
  proof cases
    case old
    then have "ob_mutation_sequence r' = ob_mutation_sequence r"
      by (simp add: row_le_def same_mutation_def)
    with old(1) assms(4) show ?thesis by simp
  next
    case new
    with assms(2,3) show ?thesis by force
  qed
qed

end
