(* ===== verification/Late_Delete_Runner.thy ===== *)
theory Late_Delete_Runner
  imports Vector_Sync_Run
begin

text \<open>
  One pass of the resolver of late deletes: \<open>memory/late_delete_resolution_runner.rs\<close> and the two
  bridges to the vector index of \<open>storage/late_delete_resolution.rs\<close>
  (\<open>execute_exact_query_once\<close>, \<open>execute_conditional_delete_once\<close>, each with and without a provider).

  Between two calls of a pass anybody else may run any operation of the store and the outbox. The
  index is not under our control: its answers, like those of SQLite, come from the environment of the
  pass. A log records what the pass called, in order, with the answers, and with what the others ran
  before each call.
\<close>

section \<open>The world of a pass\<close>

type_synonym query_answer = "vector_store_error + vector_metadata_sample option"
type_synonym delete_answer = "vector_store_error + conditional_delete_outcome"

record runner_env =
  ru_sync :: sync_params
  ru_sql :: "nat \<Rightarrow> sql_env"
  ru_others :: "nat \<Rightarrow> (sql_env \<times> sync_op) list"
  ru_existing :: "nat \<Rightarrow> vector_generation_id \<Rightarrow> vector_store_error + unit"
  ru_query :: "nat \<Rightarrow> vector_generation_context \<Rightarrow> string \<Rightarrow> string \<Rightarrow> query_answer"
  ru_delete :: "nat \<Rightarrow> vector_generation_context \<Rightarrow> string \<Rightarrow> string \<Rightarrow> int \<Rightarrow> string \<Rightarrow> delete_answer"

datatype runner_event =
    RunCall sql_env late_op "late_error + late_outcome"
  | RunResolve vector_generation_id
  | RunQuery vector_generation_context string string query_answer
  | RunDelete late_token vector_generation_context string string int string delete_answer

record runner_world =
  rw_time :: nat
  rw_db :: sync_db
  rw_log :: "((sql_env \<times> sync_op) list \<times> runner_event) list"

datatype runner_error = RunnerStorage late_error | RunnerProvider vector_store_error

datatype run_end = LeaseBusy | NoWork nat | RunProcessed nat

section \<open>Calls\<close>

type_synonym 'a runner = "runner_env \<Rightarrow> runner_world \<Rightarrow> (runner_error + 'a) \<times> runner_world"

definition ru_return :: "'a \<Rightarrow> 'a runner" where
  "ru_return x env w = (Inr x, w)"

definition ru_fail :: "late_error \<Rightarrow> 'a runner" where
  "ru_fail e env w = (Inl (RunnerStorage e), w)"

definition ru_bind :: "'a runner \<Rightarrow> ('a \<Rightarrow> 'b runner) \<Rightarrow> 'b runner" where
  "ru_bind m f env w =
     (case m env w of (Inl e, w') \<Rightarrow> (Inl e, w') | (Inr x, w') \<Rightarrow> f x env w')"

text \<open>The others run before every call, of the storage and of the index.\<close>

definition ru_before :: "runner_env \<Rightarrow> runner_world \<Rightarrow> sync_db" where
  "ru_before env w = snd (sync_run (ru_sync env) (rw_db w) (ru_others env (rw_time w)))"

definition ru_after ::
    "runner_env \<Rightarrow> runner_event \<Rightarrow> sync_db \<Rightarrow> runner_world \<Rightarrow> runner_world" where
  "ru_after env event db w =
     \<lparr>rw_time = Suc (rw_time w), rw_db = db,
      rw_log = rw_log w @ [(ru_others env (rw_time w), event)]\<rparr>"

definition ru_call ::
    "late_op \<Rightarrow> (sql_env \<Rightarrow> sync_db \<Rightarrow> (late_error + 'a) \<times> sync_db) \<Rightarrow> 'a runner" where
  "ru_call op f env w =
     (let db = ru_before env w; sql = ru_sql env (rw_time w); (r, db') = f sql db
      in (map_err RunnerStorage r,
          ru_after env (RunCall sql op (fst (late_step db (sql, op)))) db' w))"

definition ru_ask :: "(runner_env \<Rightarrow> nat \<Rightarrow> 'a) \<Rightarrow> ('a \<Rightarrow> runner_event) \<Rightarrow> 'a runner" where
  "ru_ask ask event env w =
     (let answer = ask env (rw_time w)
      in (Inr answer, ru_after env (event answer) (ru_before env w) w))"

definition existing_for_generation ::
    "vector_generation_id \<Rightarrow> (vector_store_error + unit) runner" where
  "existing_for_generation g = ru_ask (\<lambda>env n. ru_existing env n g) (\<lambda>_. RunResolve g)"

definition get_generation_metadata ::
    "vector_generation_context \<Rightarrow> string \<Rightarrow> string \<Rightarrow> query_answer runner" where
  "get_generation_metadata c life memory =
     ru_ask (\<lambda>env n. ru_query env n c life memory) (RunQuery c life memory)"

definition delete_generation_memory_if_matches ::
    "late_token \<Rightarrow> vector_generation_context \<Rightarrow> string \<Rightarrow> string \<Rightarrow> int \<Rightarrow> string
     \<Rightarrow> delete_answer runner" where
  "delete_generation_memory_if_matches t c life memory revision content_hash =
     ru_ask (\<lambda>env n. ru_delete env n c life memory revision content_hash)
       (RunDelete t c life memory revision content_hash)"

section \<open>The query bridge\<close>

definition query_outcome ::
    "late_token \<Rightarrow> vector_generation_context \<Rightarrow> query_answer \<Rightarrow> query_handoff" where
  "query_outcome t c answer =
     (case answer of
        Inr None \<Rightarrow> QueryAbsent t
      | Inr (Some sample) \<Rightarrow>
          (case query_sample_corruption_code t c sample of
             Some error_code \<Rightarrow> QueryCorrupt t error_code
           | None \<Rightarrow> QueryPresent \<lparr>pq_token = t, pq_revision = vs_memory_revision sample,
                                   pq_content_hash = vs_content_hash sample\<rparr>)
      | Inl error \<Rightarrow>
          if query_error_is_corruption error then QueryCorrupt t ''LATE_DELETE_QUERY_CORRUPT''
          else QueryFailure t error)"

definition execute_exact_query_once ::
    "query_permit \<Rightarrow> vector_generation_context \<Rightarrow> query_handoff runner" where
  "execute_exact_query_once permit c =
     (case permit of QueryPermit t \<Rightarrow>
        if \<not> context_matches_query_token t c then ru_fail LateQueryContextMismatch
        else
          ru_bind (ru_call (LateTokenCurrent t) (late_delete_resolution_token_is_current t)) (\<lambda>current.
          if \<not> current then ru_return QueryLost
          else
            ru_bind (get_generation_metadata c (li_life_id (lt_identity t))
              (li_memory_id (lt_identity t))) (\<lambda>answer.
            ru_return (query_outcome t c answer))))"

definition execute_exact_query_once_opaque :: "query_permit \<Rightarrow> query_handoff runner" where
  "execute_exact_query_once_opaque permit =
     (case permit of QueryPermit t \<Rightarrow>
        (case context_from_query_token t of
           None \<Rightarrow> ru_return (query_context_corrupt t)
         | Some c \<Rightarrow> execute_exact_query_once (QueryPermit t) c))"

definition execute_exact_query_once_with_provider :: "query_permit \<Rightarrow> query_handoff runner" where
  "execute_exact_query_once_with_provider permit =
     (case permit of QueryPermit t \<Rightarrow>
        (case context_from_query_token t of
           None \<Rightarrow> ru_return (query_context_corrupt t)
         | Some c \<Rightarrow>
             ru_bind (ru_call (LateTokenCurrent t) (late_delete_resolution_token_is_current t))
               (\<lambda>current.
             if \<not> current then ru_return QueryLost
             else
               ru_bind (existing_for_generation (vc_generation_id c)) (\<lambda>store.
               case store of
                 Inr _ \<Rightarrow> execute_exact_query_once (QueryPermit t) c
               | Inl error \<Rightarrow>
                   if error = GenerationNotFound
                   then ru_return (QueryCorrupt t ''LATE_DELETE_QUERY_GENERATION_STORE_MISSING'')
                   else if query_error_is_corruption error
                   then ru_return (QueryCorrupt t ''LATE_DELETE_QUERY_CORRUPT'')
                   else ru_return (QueryFailure t error)))))"

section \<open>The delete bridge\<close>

definition delete_outcome :: "late_token \<Rightarrow> delete_answer \<Rightarrow> delete_handoff" where
  "delete_outcome t answer =
     (case answer of
        Inr CondDeleted \<Rightarrow> HandoffDeleted t
      | Inr CondAbsent \<Rightarrow> HandoffAbsent t
      | Inr CondIdentityMismatch \<Rightarrow> HandoffIdentityMismatch t
      | Inl error \<Rightarrow> HandoffFailure t error)"

text \<open>The context of the bridge casts the dimension, the one before the provider converts it.\<close>

definition delete_context_of_permit :: "delete_permit \<Rightarrow> vector_generation_context option" where
  "delete_context_of_permit permit =
     (let i = lt_identity (dp_token permit)
      in case vector_generation_id_parse (li_generation_id i) of
           Inl _ \<Rightarrow> None
         | Inr generation_id \<Rightarrow>
             (case vector_generation_context_new generation_id (li_descriptor_id i)
                     (i64_as_usize (li_dimension i)) of
                Inr c \<Rightarrow>
                  if dp_revision permit > 0 \<and> validate_hash (dp_content_hash permit) = Inr ()
                  then Some c else None
              | Inl _ \<Rightarrow> None))"

definition execute_conditional_delete_once :: "delete_permit \<Rightarrow> delete_handoff runner" where
  "execute_conditional_delete_once permit =
     (let t = dp_token permit
      in ru_bind (ru_call (LatePermitCurrent t) (late_delete_delete_permit_is_current t)) (\<lambda>current.
         if \<not> current then ru_return DeleteLost
         else
           case delete_context_of_permit permit of
             None \<Rightarrow> ru_return (PreDeleteCorrupt t ''LATE_DELETE_PRE_DELETE_CORRUPT'')
           | Some c \<Rightarrow>
               ru_bind (delete_generation_memory_if_matches t c (li_life_id (lt_identity t))
                 (li_memory_id (lt_identity t)) (dp_revision permit) (dp_content_hash permit))
                 (\<lambda>answer. ru_return (delete_outcome t answer))))"

definition execute_conditional_delete_once_with_provider ::
    "delete_permit \<Rightarrow> delete_handoff runner" where
  "execute_conditional_delete_once_with_provider permit =
     (let t = dp_token permit
      in ru_bind (ru_call (LatePermitCurrent t) (late_delete_delete_permit_is_current t)) (\<lambda>current.
         if \<not> current then ru_return DeleteLost
         else
           case delete_context_from_token t (dp_revision permit) (dp_content_hash permit) of
             None \<Rightarrow> ru_return (PreDeleteCorrupt t ''LATE_DELETE_PRE_DELETE_CORRUPT'')
           | Some c \<Rightarrow>
               ru_bind (existing_for_generation (vc_generation_id c)) (\<lambda>store.
               case store of
                 Inr _ \<Rightarrow> execute_conditional_delete_once permit
               | Inl error \<Rightarrow>
                   ru_return (PreDeleteCorrupt t (provider_pre_delete_error_code error)))))"

section \<open>A pass\<close>

definition issue_for_runner :: "present_post_query \<Rightarrow> runner_issuance runner" where
  "issue_for_runner capability env w =
     ru_call (LateIssue capability)
       (\<lambda>sql. issue_late_delete_permit_for_runner capability sql (ru_sql env (rw_time w))) env w"

definition settle_deleted :: "nat \<Rightarrow> delete_handoff \<Rightarrow> run_end runner" where
  "settle_deleted recovered handoff =
     (case handoff of
        DeleteLost \<Rightarrow> ru_return (RunProcessed recovered)
      | PreDeleteCorrupt t error_code \<Rightarrow>
          ru_bind (ru_call (LatePreDeleteCorrupt t error_code) (finalize_pre_delete_corrupt t error_code))
            (\<lambda>_. ru_return (RunProcessed recovered))
      | HandoffDeleted t \<Rightarrow>
          ru_bind (ru_call (LatePostDeleted t) (finalize_deleted_post_delete t))
            (\<lambda>_. ru_return (RunProcessed recovered))
      | HandoffAbsent t \<Rightarrow>
          ru_bind (ru_call (LatePostAbsent t) (finalize_absent_post_delete t))
            (\<lambda>_. ru_return (RunProcessed recovered))
      | HandoffIdentityMismatch t \<Rightarrow>
          ru_bind (ru_call (LatePostMismatch t) (finalize_identity_mismatch_post_delete t))
            (\<lambda>_. ru_return (RunProcessed recovered))
      | HandoffFailure t error \<Rightarrow>
          ru_bind (ru_call (LatePostFailed t error) (finalize_failed_post_delete t error))
            (\<lambda>_. ru_return (RunProcessed recovered)))"

definition run_one_after_query_present :: "present_post_query \<Rightarrow> nat \<Rightarrow> run_end runner" where
  "run_one_after_query_present capability recovered =
     ru_bind (issue_for_runner capability) (\<lambda>issuance.
     case issuance of
       RunnerIssued permit \<Rightarrow>
         ru_bind (execute_conditional_delete_once_with_provider permit) (settle_deleted recovered)
     | RunnerLost \<Rightarrow> ru_return (RunProcessed recovered)
     | RunnerWaitingRebuild \<Rightarrow> ru_return (RunProcessed recovered)
     | RunnerCommitUnknown _ \<Rightarrow> ru_return (RunProcessed recovered))"

definition settle_queried :: "nat \<Rightarrow> query_handoff \<Rightarrow> run_end runner" where
  "settle_queried recovered handoff =
     (case handoff of
        QueryLost \<Rightarrow> ru_return (RunProcessed recovered)
      | QueryAbsent t \<Rightarrow>
          ru_bind (ru_call (LateAbsent t) (finalize_late_delete_query_absent t))
            (\<lambda>_. ru_return (RunProcessed recovered))
      | QueryFailure t error \<Rightarrow>
          ru_bind (ru_call (LateMarkUnknown t DispQueryUnknown (query_failure_error_code error))
            (finalize_late_delete_query_failure t error))
            (\<lambda>_. ru_return (RunProcessed recovered))
      | QueryCorrupt t error_code \<Rightarrow>
          ru_bind (ru_call (LateAwaitRebuild t error_code)
            (finalize_late_delete_query_corrupt t error_code))
            (\<lambda>_. ru_return (RunProcessed recovered))
      | QueryPresent capability \<Rightarrow> run_one_after_query_present capability recovered)"

definition run_one_while_leased :: "late_runtime_lease \<Rightarrow> run_end runner" where
  "run_one_while_leased lease =
     ru_bind (ru_call LateRecover recover_expired_late_delete_resolutions) (\<lambda>recovered.
     ru_bind (ru_call (LateClaimOne lease) (claim_one_late_delete_resolution lease)) (\<lambda>claimed.
     case claimed of
       NoEligibleResolution \<Rightarrow> ru_return (NoWork recovered)
     | ClaimedResolution c \<Rightarrow>
         ru_bind (ru_call (LateReserveSlot c) (reserve_late_delete_resolution_for_query c))
           (\<lambda>reservation.
         case reservation of
           QueryReserved permit \<Rightarrow>
             ru_bind (execute_exact_query_once_with_provider permit) (settle_queried recovered)
         | QueryAlreadyReserved _ \<Rightarrow> ru_return (RunProcessed recovered)
         | QueryReservationLost \<Rightarrow> ru_return (RunProcessed recovered)
         | QueryLimitReached \<Rightarrow> ru_return (RunProcessed recovered))))"

text \<open>The lease is given back whatever the body did; the first error is the one that is reported.\<close>

definition run_one_late_delete :: "string \<Rightarrow> run_end runner" where
  "run_one_late_delete owner =
     ru_bind (ru_call (LateAcquire owner) (acquire_late_delete_runtime_lease owner)) (\<lambda>acquired.
     case acquired of
       None \<Rightarrow> ru_return LeaseBusy
     | Some lease \<Rightarrow> (\<lambda>env w.
         let (body, w1) = run_one_while_leased lease env w;
             (release, w2) = ru_call (LateRelease lease) (release_late_delete_runtime_lease lease) env w1
         in (case (body, release) of
               (Inr ended, Inr _) \<Rightarrow> Inr ended
             | (Inl error, Inr _) \<Rightarrow> Inl error
             | (Inr _, Inl error) \<Rightarrow> Inl error
             | (Inl error, Inl _) \<Rightarrow> Inl error, w2)))"

text \<open>The composition of the application: the data root, and the provider bound to it.\<close>

definition run_one_late_delete_from_app ::
    "late_error + string \<Rightarrow> (string \<Rightarrow> vector_store_error + unit) \<Rightarrow> string \<Rightarrow> run_end runner" where
  "run_one_late_delete_from_app active_data_root bind_provider owner env w =
     (case active_data_root of
        Inl e \<Rightarrow> (Inl (RunnerStorage e), w)
      | Inr data_root \<Rightarrow>
          (case bind_provider data_root of
             Inl e \<Rightarrow> (Inl (RunnerProvider e), w)
           | Inr _ \<Rightarrow> run_one_late_delete owner env w))"

end
