(* ===== verification/Late_Deletes.thy ===== *)
theory Late_Deletes
  imports Vector_Sync_Run
begin

text \<open>
  The guarantees of the late-delete store over any run of the store, the outbox and the other
  writers: three slots per resolution, one permit to delete per slot, a fence between resolvers, and
  at most one unresolved resolution per memory.
\<close>

section \<open>What granted operations say\<close>

text \<open>A step that only reads is followed by the same tables.\<close>

lemma bind_read:
  "tx_rel (=) m \<Longrightarrow> tx_bind m f env n db = Inr (y, n', db') \<longleftrightarrow>
     (\<exists>x k. m env n db = Inr (x, k, db) \<and> f x env k db = Inr (y, n', db'))"
  unfolding tx_bind_Inr tx_rel_def by (metis (no_types))

lemma bind_query:
  "tx_bind (tx_query e q) f env n db = Inr (y, n', db') \<longleftrightarrow>
     sq_executes env n \<and> f (q env (sq_now env n) db) env (Suc n) db = Inr (y, n', db')"
  by (auto simp: tx_bind_Inr tx_query_Inr)

lemmas bind_reads = bind_read [OF late_pure(2)] bind_read [OF late_pure(3)] bind_query
  tx_bind_Inr [where m = "converge_waiting_rebuild_in i now" for i now]
  tx_bind_Inr [where m = "block_limit_in i now" for i now]
  tx_bind_Inr [where m = "claim_row_in lease now row" for lease now row]
  tx_bind_Inr [where m = "reserve_row_in c now row" for c now row]
  tx_bind_Inr [where m = "issue_row_in t now" for t now]
  tx_bind_Inr [where m = "transition_row_in t target d code at now" for t target d code at now]
  tx_bind_Inr [where m = "post_delete_row_in t target d code now" for t target d code now]

lemma filter_by_id:
  assumes "late_wf db" and "length (filter p (late_rows db)) = 1"
    and "\<And>r. p r \<Longrightarrow> lr_id r = lr_id row" and "row \<in> set (late_rows db)"
  shows "p row"
proof -
  from assms(2) obtain q where "filter p (late_rows db) = [q]"
    by (auto simp: length_Suc_conv)
  then have "q \<in> set (filter p (late_rows db))" by simp
  then have "q \<in> set (late_rows db)" "p q" by simp_all
  with assms late_wf_id [of db q row] show ?thesis by blast
qed

lemma reserve_tx_Reserved:
  assumes run: "late_reserve_tx c env n db = Inr (LateReserved t, n', db')"
    and wf: "late_wf db"
  obtains row now where "row \<in> set (late_rows db)" and "t = late_token_of c row"
    and "lr_state row = LateClaimed" and "lr_resolution_count row < MAX_LATE_DELETE_RESOLUTIONS"
    and "lr_last_reserved_epoch row < lr_resolution_epoch row"
    and "late_runtime_live (lc_lease_owner c) (lc_fence_epoch c) now db"
    and "late_reserve now row \<in> set (late_rows db')" and "late_frame db db'"
    and "late_lease db' = late_lease db"
proof -
  from run obtain row now m where
    row: "find (\<lambda>r. lr_id r = lc_resolution_id c) (late_rows db) = Some row"
    and t: "t = late_token_of c row" and claim: "claim_matches_row c row"
    and live: "late_runtime_live (lc_lease_owner c) (lc_fence_epoch c) now db"
    and few: "\<not> lr_resolution_count row > MAX_LATE_DELETE_RESOLUTIONS"
      "lr_resolution_count row \<noteq> MAX_LATE_DELETE_RESOLUTIONS"
    and up: "reserve_row_in c now row env m db = Inr (1, n', db')"
    unfolding late_reserve_tx_def load_resolution_in_def runtime_lease_matches_in_def
      authoritative_now_in_def
    by (auto simp: bind_reads split: option.splits if_splits)
  from row have mem: "row \<in> set (late_rows db)" using find_id_Some by blast
  let ?p = "\<lambda>r. lr_id r = lr_id row \<and> lr_state r = LateClaimed
            \<and> lr_resolution_epoch r = lr_resolution_epoch row
            \<and> lr_last_reserved_epoch r < lr_resolution_epoch r
            \<and> lr_lease_owner r = Some (lc_lease_owner c)
            \<and> lr_lease_fence_epoch r = Some (lc_fence_epoch c)
            \<and> sql_after (lr_lease_expires_at r) now"
  from up have one: "length (filter ?p (late_rows db)) = 1"
    and db': "db' = db\<lparr>late_rows := map (\<lambda>r. if ?p r then late_reserve now r else r) (late_rows db)\<rparr>"
    by (simp_all add: reserve_row_in_def update_late_rows_Inr)
  have p: "?p row" by (rule filter_by_id [OF wf one _ mem]) simp
  have "late_reserve now row \<in> set (late_rows db')"
    using p mem by (auto simp: db' intro: rev_image_eqI)
  with that [of row now] mem t claim live few p show thesis
    by (simp add: claim_matches_row_def late_frame_def db')
qed

lemma run_late_Inr:
  "run_late m env db = (Inr x, db') \<Longrightarrow> \<exists>n. m env 1 db = Inr (x, n, db')"
  by (simp add: run_tx_Inr)

lemma issue_tx_Issued:
  assumes run: "late_issue_tx p env n db = Inr (CoreIssued d, n', db')" and wf: "late_wf db"
  obtains row now where "token_holds (pq_token p) now db row" and "row \<in> set (late_rows db)"
    and "dp_token d = pq_token p" and "dp_revision d = pq_revision p"
    and "dp_content_hash d = pq_content_hash p"
    and "lr_last_disposition_epoch row < lr_resolution_epoch row"
    and "late_delete_started now row \<in> set (late_rows db')"
proof -
  from run obtain row now m k m' where
    token: "token_is_current_in (pq_token p) now env k db = Inr (True, m, db)"
    and row: "find (\<lambda>r. lr_id r = lt_resolution_id (pq_token p)) (late_rows db) = Some row"
    and d: "d = \<lparr>dp_token = pq_token p, dp_revision = pq_revision p,
                 dp_content_hash = pq_content_hash p\<rparr>"
    and up: "issue_row_in (pq_token p) now env m' db = Inr (1, n', db')"
    unfolding late_issue_tx_def load_resolution_in_def Let_def authoritative_now_in_def
    by (auto simp: bind_reads split: option.splits if_splits)
  from token token_is_current_Inr have holds: "\<exists>r. token_holds (pq_token p) now db r" by blast
  with row have holds: "token_holds (pq_token p) now db row" by (auto simp: token_holds_def)
  from row have mem: "row \<in> set (late_rows db)" "lr_id row = lt_resolution_id (pq_token p)"
    using find_id_Some by blast+
  let ?t = "pq_token p"
  let ?p = "\<lambda>r. lr_id r = lt_resolution_id ?t \<and> lr_identity r = lt_identity ?t
            \<and> lr_state r = LateProcessing \<and> lr_resolution_epoch r = lt_resolution_epoch ?t
            \<and> lr_resolution_count r = lt_resolution_ordinal ?t
            \<and> lr_last_reserved_epoch r = lt_resolution_epoch ?t
            \<and> lr_last_disposition_epoch r < lr_resolution_epoch r
            \<and> lr_lease_owner r = Some (lt_lease_owner ?t)
            \<and> lr_lease_fence_epoch r = Some (lt_fence_epoch ?t)
            \<and> sql_after (lr_lease_expires_at r) now"
  from up have one: "length (filter ?p (late_rows db)) = 1"
    and db': "db' = db\<lparr>late_rows := map (\<lambda>r. if ?p r then late_delete_started now r else r) (late_rows db)\<rparr>"
    by (auto simp: issue_row_in_def update_late_rows_Inr)
  have p: "?p row" by (rule filter_by_id [OF wf one _ mem(1)]) (simp add: mem(2))
  have "late_delete_started now row \<in> set (late_rows db')"
    using p mem by (auto simp: db' intro: rev_image_eqI)
  with that [OF holds mem(1)] d p show thesis by simp
qed

section \<open>Rows along a run\<close>

lemma late_run:
  assumes "outbox_wf db" and "late_wf db" and "db' = snd (sync_run ps db ops)"
  shows "outbox_wf db' \<and> late_wf db' \<and> late_rows_le db db'
    \<and> late_lease_le (late_lease db) (late_lease db')"
  using sync_run_le [of db ps ops] assms by (simp add: outbox_le_def late_le_def)

lemma late_op_wf:
  assumes "late_op_le db db'" and "outbox_wf db" and "late_wf db"
  shows "outbox_wf db' \<and> late_wf db'"
  using sync.late_op_outbox_le [OF assms(1)] assms(2,3) by (simp add: outbox_le_def late_le_def)

text \<open>The row a later operation reads is the row the run left.\<close>

lemma late_row_after:
  assumes "late_rows_le db db'" and "late_wf db'" and "r \<in> set (late_rows db)"
    and "q \<in> set (late_rows db')" and "lr_id q = lr_id r"
  shows "late_row_le r q"
proof -
  from assms(1,3) obtain r' where "r' \<in> set (late_rows db')" "late_row_le r r'"
    unfolding late_rows_le_def by blast
  moreover from this have "lr_id r' = lr_id q" using assms(5) by (simp add: late_row_le_def)
  ultimately show ?thesis using late_wf_id [OF assms(2), of r' q] assms(4) by simp
qed

lemma reserve_facts:
  assumes run: "reserve_late_delete_resolution c env db = (Inr (LateReserved t), db')"
    and wf: "late_wf db"
  obtains row now where "row \<in> set (late_rows db)" and "t = late_token_of c row"
    and "lr_resolution_count row < MAX_LATE_DELETE_RESOLUTIONS" and "0 \<le> lr_resolution_count row"
    and "lr_last_reserved_epoch row < lr_resolution_epoch row"
    and "late_runtime_live (lc_lease_owner c) (lc_fence_epoch c) now db"
    and "late_reserve now row \<in> set (late_rows db')" and "late_lease db' = late_lease db"
proof -
  from run_late_Inr [OF run [unfolded reserve_late_delete_resolution_def]]
  obtain n where "late_reserve_tx c env 1 db = Inr (LateReserved t, n, db')" by blast
  then show thesis
  proof (rule reserve_tx_Reserved [OF _ wf])
    fix row now
    assume row: "row \<in> set (late_rows db)" "t = late_token_of c row"
      "lr_resolution_count row < MAX_LATE_DELETE_RESOLUTIONS"
      "lr_last_reserved_epoch row < lr_resolution_epoch row"
      "late_runtime_live (lc_lease_owner c) (lc_fence_epoch c) now db"
      "late_reserve now row \<in> set (late_rows db')" "late_lease db' = late_lease db"
    with wf have "0 \<le> lr_resolution_count row" by (simp add: late_wf_def late_row_check_def)
    with row show thesis by (intro that)
  qed
qed

lemma op_after:
  assumes "call = (out, db')" and "late_op_le db (snd call)"
    and "outbox_wf db" and "late_wf db"
  shows "outbox_wf db' \<and> late_wf db'"
  using late_op_wf [of db db'] assms by simp

section \<open>Slots\<close>

text \<open>
  A resolution has three slots. Every reservation that is granted has an ordinal from 1 to 3 and
  is recorded, and whatever runs in between, a later reservation of the same resolution has a larger
  ordinal and belongs to a later claim: no slot is handed out twice and no claim gets two.
\<close>

theorem late_slots_are_bounded:
  assumes "outbox_wf db0" and "late_wf db0"
    and first: "reserve_late_delete_resolution c1 env1 db0 = (Inr (LateReserved t1), db1)"
    and between: "snd (sync_run ps db1 ops) = db2"
    and second: "reserve_late_delete_resolution c2 env2 db2 = (Inr (LateReserved t2), db3)"
    and same: "lt_resolution_id t2 = lt_resolution_id t1"
  shows "1 \<le> lt_resolution_ordinal t1 \<and> lt_resolution_ordinal t1 < lt_resolution_ordinal t2
    \<and> lt_resolution_ordinal t2 \<le> MAX_LATE_DELETE_RESOLUTIONS
    \<and> lt_resolution_epoch t1 < lt_resolution_epoch t2"
proof -
  from reserve_facts [OF first assms(2)] obtain r1 now1 where
    r1: "t1 = late_token_of c1 r1" "0 \<le> lr_resolution_count r1"
      "late_reserve now1 r1 \<in> set (late_rows db1)" by metis
  have "outbox_wf db1 \<and> late_wf db1"
    using op_after [OF first op_reserve assms(1,2)] .
  with late_run [of db1 db2 ps ops] between have
    wf2: "late_wf db2" and le: "late_rows_le db1 db2" by auto
  from reserve_facts [OF second wf2] obtain r2 where
    r2: "r2 \<in> set (late_rows db2)" "t2 = late_token_of c2 r2"
      "lr_resolution_count r2 < MAX_LATE_DELETE_RESOLUTIONS"
      "lr_last_reserved_epoch r2 < lr_resolution_epoch r2" by metis
  have "late_row_le (late_reserve now1 r1) r2"
    using late_row_after [OF le wf2 r1(3) r2(1)] same r1(1) r2(2)
    by (simp add: late_token_of_def late_reserve_def)
  then show ?thesis
    using r1 r2 by (auto simp: late_row_le_def late_slot_le_def late_token_of_def late_reserve_def)
qed

section \<open>Permits\<close>

text \<open>A token that may start a delete has one of the three ordinals.\<close>

lemma started_ordinal:
  assumes "token_holds t now db r" and "lr_last_disposition_epoch r < lr_resolution_epoch r"
    and "late_wf db"
  shows "1 \<le> lt_resolution_ordinal t \<and> lt_resolution_ordinal t \<le> MAX_LATE_DELETE_RESOLUTIONS"
proof -
  have "late_row_check r" using token_holds_row [OF assms(1)] assms(3) by (simp add: late_wf_def)
  with assms(1,2) show ?thesis
    by (auto simp: token_holds_def late_row_check_def MAX_LATE_DELETE_RESOLUTIONS_def)
qed

lemma issue_facts:
  assumes run: "issue_late_delete_permit_core p env db = (Inr (CoreIssued d), db')" and wf: "late_wf db"
  obtains row now where "token_holds (pq_token p) now db row" and "row \<in> set (late_rows db)"
    and "dp_token d = pq_token p" and "dp_revision d = pq_revision p"
    and "dp_content_hash d = pq_content_hash p"
    and "lr_last_disposition_epoch row < lr_resolution_epoch row"
    and "late_delete_started now row \<in> set (late_rows db')"
proof -
  from run_late_Inr [OF run [unfolded issue_late_delete_permit_core_def]]
  obtain n where "late_issue_tx p env 1 db = Inr (CoreIssued d, n, db')" by blast
  then show thesis by (rule issue_tx_Issued [OF _ wf]) (rule that)
qed

lemma issued_permit:
  assumes first: "issue_late_delete_permit_core p1 env1 db0 = (Inr (CoreIssued d1), db1)"
    and wf: "outbox_wf db0" "late_wf db0"
  shows "d1 = \<lparr>dp_token = pq_token p1, dp_revision = pq_revision p1,
               dp_content_hash = pq_content_hash p1\<rparr>
    \<and> list_ex (delete_started_row (dp_token d1)) (late_rows db1)
    \<and> 1 \<le> lt_resolution_ordinal (dp_token d1)
    \<and> lt_resolution_ordinal (dp_token d1) \<le> MAX_LATE_DELETE_RESOLUTIONS"
proof -
  from issue_facts [OF first wf(2)] obtain r1 now1 where
    r1: "token_holds (pq_token p1) now1 db0 r1" "late_delete_started now1 r1 \<in> set (late_rows db1)"
      "lr_last_disposition_epoch r1 < lr_resolution_epoch r1" "r1 \<in> set (late_rows db0)"
    and d1: "dp_token d1 = pq_token p1" "dp_revision d1 = pq_revision p1"
      "dp_content_hash d1 = pq_content_hash p1" by metis
  have "delete_started_row (dp_token d1) (late_delete_started now1 r1)"
    using r1(1) token_holds_row [OF r1(1)] d1
    by (simp add: delete_started_row_def late_delete_started_def token_holds_def)
  then have "list_ex (delete_started_row (dp_token d1)) (late_rows db1)"
    using r1(2) by (auto simp: list_ex_iff)
  then show ?thesis
    using started_ordinal [of "pq_token p1" now1 db0 r1] r1 wf(2) d1 by (cases d1) simp
qed

lemma issue_after_issue:
  assumes first: "issue_late_delete_permit_core p1 env1 db0 = (Inr (CoreIssued d1), db1)"
    and wf: "late_wf db0" "late_wf db2" and le: "late_rows_le db1 db2"
    and second: "issue_late_delete_permit_core p2 env2 db2 = (Inr (CoreIssued d2), db3)"
    and same: "lt_resolution_id (dp_token d2) = lt_resolution_id (dp_token d1)"
  shows "lt_resolution_epoch (dp_token d1) < lt_resolution_epoch (dp_token d2)
    \<and> lt_resolution_ordinal (dp_token d1) < lt_resolution_ordinal (dp_token d2)"
proof -
  from issue_facts [OF first wf(1)] obtain r1 now1 where
    r1: "token_holds (pq_token p1) now1 db0 r1" "late_delete_started now1 r1 \<in> set (late_rows db1)"
    and d1: "dp_token d1 = pq_token p1" by metis
  from issue_facts [OF second wf(2)] obtain r2 now2 where
    r2: "token_holds (pq_token p2) now2 db2 r2" "r2 \<in> set (late_rows db2)"
      "lr_last_disposition_epoch r2 < lr_resolution_epoch r2" and d2: "dp_token d2 = pq_token p2"
    by metis
  have "lr_id r1 = lt_resolution_id (pq_token p1)" "lr_id r2 = lt_resolution_id (pq_token p2)"
    using token_holds_row [OF r1(1)] token_holds_row [OF r2(1)] by simp_all
  then have "late_row_le (late_delete_started now1 r1) r2"
    using late_row_after [OF le wf(2) r1(2) r2(2)] same d1 d2 by (simp add: late_delete_started_def)
  then show ?thesis
    using r1(1) r2(1,3) d1 d2
    by (auto simp: late_row_le_def late_slot_le_def late_delete_started_def token_holds_def)
qed

text \<open>
  C26: A permit to delete carries exactly the token, revision and content hash of the query it was
  issued for, and the durable row says \<open>delete_started\<close> when it is issued. Whatever runs in between, a
  second permit for the same resolution needs a later slot: one external delete per slot at most,
  also after crashes, lost commits and recoveries.
\<close>

theorem delete_permit_is_unique:
  assumes "outbox_wf db0" and "late_wf db0"
    and first: "issue_late_delete_permit_core p1 env1 db0 = (Inr (CoreIssued d1), db1)"
    and between: "snd (sync_run ps db1 ops) = db2"
    and second: "issue_late_delete_permit_core p2 env2 db2 = (Inr (CoreIssued d2), db3)"
    and same: "lt_resolution_id (dp_token d2) = lt_resolution_id (dp_token d1)"
  shows "d1 = \<lparr>dp_token = pq_token p1, dp_revision = pq_revision p1,
               dp_content_hash = pq_content_hash p1\<rparr>
    \<and> list_ex (delete_started_row (dp_token d1)) (late_rows db1)
    \<and> lt_resolution_epoch (dp_token d1) < lt_resolution_epoch (dp_token d2)
    \<and> 1 \<le> lt_resolution_ordinal (dp_token d1)
    \<and> lt_resolution_ordinal (dp_token d1) < lt_resolution_ordinal (dp_token d2)
    \<and> lt_resolution_ordinal (dp_token d2) \<le> MAX_LATE_DELETE_RESOLUTIONS"
proof -
  have wf1: "outbox_wf db1 \<and> late_wf db1" by (rule op_after [OF first op_issue assms(1,2)])
  with late_run [of db1 db2 ps ops] between
  have run: "outbox_wf db2" "late_wf db2" "late_rows_le db1 db2" by auto
  show ?thesis
    using issued_permit [OF first assms(1,2)] issued_permit [OF second run(1,2)]
      issue_after_issue [OF first assms(2) run(2,3) second same] by blast
qed

section \<open>Unresolved and resolved\<close>

text \<open>
  C28: In every database that a run reaches, a memory has at most one unresolved late delete, it is
  the one of the mutation that is in the outbox, if one is, and a resolution that is over is never
  changed again.
\<close>

theorem one_unresolved_late_delete:
  assumes "outbox_wf db0" and "late_wf db0" and "snd (sync_run ps db0 ops) = db"
  shows "(\<forall>r \<in> set (late_rows db0). late_terminal (lr_state r) \<longrightarrow> r \<in> set (late_rows db))
    \<and> (\<forall>r \<in> set (late_rows db). \<forall>q \<in> set (late_rows db).
         \<not> late_terminal (lr_state r) \<longrightarrow> \<not> late_terminal (lr_state q)
         \<longrightarrow> late_memory q = late_memory r \<longrightarrow> q = r)
    \<and> (\<forall>r \<in> set (late_rows db). \<forall>o' \<in> set (outbox db).
         \<not> late_terminal (lr_state r) \<longrightarrow> ob_memory o' = late_memory r
         \<longrightarrow> ob_mutation_sequence o' = li_mutation_sequence (lr_identity r))"
proof (intro conjI ballI impI)
  have run: "late_wf db" "late_rows_le db0 db" using late_run [of db0 db ps ops] assms by auto
  then have cur: "late_current (outbox db) (late_rows db)" by (simp add: late_wf_def)
  show "r \<in> set (late_rows db)" if "r \<in> set (late_rows db0)" "late_terminal (lr_state r)" for r
    using run(2) that unfolding late_rows_le_def late_row_le_def by metis
  show "q = r" if "r \<in> set (late_rows db)" "q \<in> set (late_rows db)" "\<not> late_terminal (lr_state r)"
    "\<not> late_terminal (lr_state q)" "late_memory q = late_memory r" for r q
  proof -
    have "li_mutation_sequence (lr_identity q) = li_mutation_sequence (lr_identity r)"
      by (rule late_current_lateD [OF cur]) (use that in auto)
    then have "(late_key \<circ> lr_identity) q = (late_key \<circ> lr_identity) r"
      using that(5) by (simp add: late_key_def late_memory_def)
    with run(1) that(1,2) show ?thesis by (auto simp: late_wf_def distinct_map inj_on_def)
  qed
  show "ob_mutation_sequence o' = li_mutation_sequence (lr_identity r)"
    if "r \<in> set (late_rows db)" "o' \<in> set (outbox db)" "\<not> late_terminal (lr_state r)"
      "ob_memory o' = late_memory r" for r o'
    by (rule late_current_outboxD [OF cur]) (use that in auto)
qed

section \<open>The fence between resolvers\<close>

text \<open>The fence of the lease, claim or token an operation is made under, and what it may grant.\<close>

fun op_fence :: "late_op \<Rightarrow> int option" where
  "op_fence (LateRelease lease) = Some (ll_fence_epoch lease)"
| "op_fence (LateClaimOne lease) = Some (ll_fence_epoch lease)"
| "op_fence (LateReserveSlot c) = Some (lc_fence_epoch c)"
| "op_fence (LateTokenCurrent t) = Some (lt_fence_epoch t)"
| "op_fence (LatePermitCurrent t) = Some (lt_fence_epoch t)"
| "op_fence (LateIssue p) = Some (lt_fence_epoch (pq_token p))"
| "op_fence (LateMark t d) = Some (lt_fence_epoch t)"
| "op_fence (LateAbsent t) = Some (lt_fence_epoch t)"
| "op_fence (LateDeleted t) = Some (lt_fence_epoch t)"
| "op_fence (LateMarkUnknown t d code) = Some (lt_fence_epoch t)"
| "op_fence (LateRetryLater t delay code) = Some (lt_fence_epoch t)"
| "op_fence (LateAwaitRebuild t code) = Some (lt_fence_epoch t)"
| "op_fence (LatePostDeleted t) = Some (lt_fence_epoch t)"
| "op_fence (LatePostAbsent t) = Some (lt_fence_epoch t)"
| "op_fence (LatePostMismatch t) = Some (lt_fence_epoch t)"
| "op_fence (LatePostFailed t e) = Some (lt_fence_epoch t)"
| "op_fence (LatePreDeleteCorrupt t code) = Some (lt_fence_epoch t)"
| "op_fence _ = None"

fun late_granted :: "late_outcome \<Rightarrow> bool" where
  "late_granted (LoBool b) \<longleftrightarrow> b"
| "late_granted (LoClaim r) \<longleftrightarrow> (\<exists>c. r = ClaimedResolution c)"
| "late_granted (LoReservation r) \<longleftrightarrow> (\<exists>t. r = LateReserved t)"
| "late_granted (LoIssuance i) \<longleftrightarrow> (\<exists>d. i = CoreIssued d)"
| "late_granted (LoFinalize r) \<longleftrightarrow> r = LateApplied"
| "late_granted (LoPostDelete r) \<longleftrightarrow> r = PostDeleteApplied"
| "late_granted _ \<longleftrightarrow> False"

definition fence_is :: "int \<Rightarrow> sync_db \<Rightarrow> bool" where
  "fence_is f db \<longleftrightarrow> (\<exists>l. late_lease db = Some l \<and> rl_fence_epoch l = f)"

lemma live_fence: "late_runtime_live owner f now db \<Longrightarrow> fence_is f db"
  by (auto simp: late_runtime_live_def fence_is_def split: option.splits)

lemma token_fence: "token_holds t now db r \<Longrightarrow> fence_is (lt_fence_epoch t) db"
  by (auto simp: token_holds_def intro: live_fence)

lemma current_fence:
  "token_is_current_in t now env n db = Inr (True, n', db') \<Longrightarrow> fence_is (lt_fence_epoch t) db"
  using token_is_current_Inr token_fence by blast

lemma transition_fence:
  assumes "transition_late_delete_resolution t target d code m env db = (Inr LateApplied, db')"
  shows "fence_is (lt_fence_epoch t) db"
proof -
  from run_late_Inr [OF assms [unfolded transition_late_delete_resolution_def]]
  obtain n where "transition_tx t target d code m env 1 db = Inr (LateApplied, n, db')" by blast
  then obtain now k k' where "token_is_current_in t now env k db = Inr (True, k', db)"
    unfolding transition_tx_def authoritative_now_in_def
    by (auto simp: bind_reads split: if_splits)
  then show ?thesis by (rule current_fence)
qed

lemma post_delete_fence:
  assumes "transition_post_delete t target d code env db = (Inr PostDeleteApplied, db')"
  shows "fence_is (lt_fence_epoch t) db"
proof -
  from run_late_Inr [OF assms [unfolded transition_post_delete_def]]
  obtain n where "post_delete_tx t target d code env 1 db = Inr (PostDeleteApplied, n, db')" by blast
  then obtain now k k' where "token_is_current_in t now env k db = Inr (True, k', db)"
    unfolding post_delete_tx_def authoritative_now_in_def
    by (auto simp: bind_reads split: if_splits)
  then show ?thesis by (rule current_fence)
qed

lemma claim_fence:
  assumes "claim_one_late_delete_resolution lease env db = (Inr (ClaimedResolution c), db')"
  shows "fence_is (ll_fence_epoch lease) db"
proof -
  from run_late_Inr [OF assms [unfolded claim_one_late_delete_resolution_def]]
  obtain n where "late_claim_tx lease env 1 db = Inr (ClaimedResolution c, n, db')" by blast
  then show ?thesis
    unfolding late_claim_tx_def authoritative_now_in_def runtime_lease_is_current_in_def
    by (auto simp: bind_reads intro: live_fence split: if_splits)
qed

lemma release_fence:
  assumes "release_late_delete_runtime_lease lease env db = (Inr True, db')"
  shows "fence_is (ll_fence_epoch lease) db"
proof -
  from run_late_Inr [OF assms [unfolded release_late_delete_runtime_lease_def]]
  show ?thesis
    by (auto simp: authoritative_now_in_def tx_Inr update_late_lease_def fence_is_def
        split: option.splits if_splits)
qed

lemma currency_fence:
  assumes "late_delete_resolution_token_is_current t env db = (Inr True, db')
    \<or> late_delete_delete_permit_is_current t env db = (Inr True, db')"
  shows "fence_is (lt_fence_epoch t) db"
  using assms
proof
  assume "late_delete_resolution_token_is_current t env db = (Inr True, db')"
  from run_late_Inr [OF this [unfolded late_delete_resolution_token_is_current_def]]
  show ?thesis by (auto simp: authoritative_now_in_def bind_reads intro: current_fence)
next
  assume "late_delete_delete_permit_is_current t env db = (Inr True, db')"
  from run_late_Inr [OF this [unfolded late_delete_delete_permit_is_current_def]]
  show ?thesis
    by (auto simp: authoritative_now_in_def bind_reads intro: current_fence split: if_splits)
qed

lemma reserve_fence:
  assumes "reserve_late_delete_resolution c env db = (Inr (LateReserved t), db')"
  shows "fence_is (lc_fence_epoch c) db"
proof -
  from run_late_Inr [OF assms [unfolded reserve_late_delete_resolution_def]]
  obtain n where "late_reserve_tx c env 1 db = Inr (LateReserved t, n, db')" by blast
  then show ?thesis
    unfolding late_reserve_tx_def authoritative_now_in_def runtime_lease_matches_in_def
      load_resolution_in_def
    by (auto simp: bind_reads intro: live_fence split: if_splits option.splits)
qed

lemma issue_fence:
  assumes "issue_late_delete_permit_core p env db = (Inr (CoreIssued d), db')"
  shows "fence_is (lt_fence_epoch (pq_token p)) db"
proof -
  from run_late_Inr [OF assms [unfolded issue_late_delete_permit_core_def]]
  obtain n where "late_issue_tx p env 1 db = Inr (CoreIssued d, n, db')" by blast
  then show ?thesis
    unfolding late_issue_tx_def authoritative_now_in_def load_resolution_in_def Let_def
    by (auto simp: bind_reads intro: current_fence split: if_splits option.splits)
qed

lemmas granted_fences = transition_fence post_delete_fence claim_fence release_fence currency_fence
  reserve_fence issue_fence

lemma granted_fence:
  assumes "late_step db (env, op) = (Inr out, db')" and "late_granted out" and "op_fence op = Some f"
  shows "fence_is f db"
  using assms
  by (cases op) (auto simp: late_as_Inr transition_defs intro: granted_fences split: if_splits)

lemma acquire_facts:
  assumes "acquire_late_delete_runtime_lease owner env db = (Inr (Some lease), db')"
  shows "fence_is (ll_fence_epoch lease) db' \<and> fence_is (ll_fence_epoch lease - 1) db"
proof -
  from assms have "\<not> str_blank owner" and
    run: "run_late (tx_bind late_now (\<lambda>now.
         tx_bind (update_late_lease
           (\<lambda>l. rl_owner l = None \<or> sql_not_after (rl_expires_at l) (Some now))
           (late_lease_taken owner)) (\<lambda>changed.
         if changed = 0 then tx_return None
         else
           tx_bind (tx_query LateDatabaseError (\<lambda>env _ db.
             case late_lease db of
               None \<Rightarrow> None
             | Some l \<Rightarrow> if rl_owner l = Some owner then Some (rl_fence_epoch l) else None)) (\<lambda>row.
           tx_bind (tx_result (ok_or row LateDatabaseError)) (\<lambda>fence_epoch.
           tx_return (Some \<lparr>ll_owner = owner, ll_fence_epoch = fence_epoch\<rparr>)))))) env db
       = (Inr (Some lease), db')"
    by (auto simp: acquire_late_delete_runtime_lease_def split: if_splits)
  from run_late_Inr [OF run] show ?thesis
    by (auto simp: authoritative_now_in_def tx_Inr update_late_lease_def fence_is_def
        late_lease_taken_def ok_or_Inr_iff split: option.splits if_splits)
qed

text \<open>
  C27: A resolver that acquires the lease gets a larger fence than every earlier one, and from then on
  nothing that an earlier resolver does under its lease, its claims or its tokens is granted, even
  if its own lease has not expired on its clock: it cannot claim, reserve, pass a guard, get a
  permit or record an outcome.
\<close>

theorem new_resolver_fences_out_old:
  assumes "outbox_wf db0" and "late_wf db0"
    and first: "acquire_late_delete_runtime_lease owner1 env1 db0 = (Inr (Some lease1), db1)"
    and between: "snd (sync_run ps db1 ops1) = db2"
    and second: "acquire_late_delete_runtime_lease owner2 env2 db2 = (Inr (Some lease2), db3)"
    and after: "snd (sync_run ps db3 ops2) = db4"
    and old: "op_fence op = Some (ll_fence_epoch lease1)"
    and out: "late_step db4 (env3, op) = (Inr out, db5)"
  shows "ll_fence_epoch lease1 < ll_fence_epoch lease2 \<and> \<not> late_granted out"
proof -
  have le: "f \<le> f'" if "fence_is f a" "late_lease_le (late_lease a) (late_lease b)" "fence_is f' b"
    for f f' a b
    using that by (auto simp: fence_is_def late_lease_le_def)
  have wf1: "outbox_wf db1 \<and> late_wf db1" by (rule op_after [OF first op_acquire assms(1,2)])
  with late_run [of db1 db2 ps ops1] between have wf2: "outbox_wf db2" "late_wf db2"
    and le12: "late_lease_le (late_lease db1) (late_lease db2)" by auto
  have wf3: "outbox_wf db3 \<and> late_wf db3" by (rule op_after [OF second op_acquire wf2])
  with late_run [of db3 db4 ps ops2] after
  have le34: "late_lease_le (late_lease db3) (late_lease db4)" by auto
  from acquire_facts [OF first] have f1: "fence_is (ll_fence_epoch lease1) db1" by simp
  from acquire_facts [OF second] have f2: "fence_is (ll_fence_epoch lease2 - 1) db2"
    "fence_is (ll_fence_epoch lease2) db3" by simp_all
  from le [OF f1 le12 f2(1)] have less: "ll_fence_epoch lease1 < ll_fence_epoch lease2" by simp
  moreover have "\<not> fence_is (ll_fence_epoch lease1) db4"
    using le [OF f2(2) le34] less by fastforce
  then have "\<not> late_granted out" using granted_fence [OF out _ old] by blast
  ultimately show ?thesis by simp
qed

end
