(* ===== verification/Late_Delete_Passes.thy ===== *)
theory Late_Delete_Passes
  imports Late_Delete_Runner Late_Deletes
begin

text \<open>
  What a pass of the resolver does: its log is a run of the store in which every call has the outcome
  the store gives it, and the calls come in the order of the protocol.
\<close>

section \<open>Logs\<close>

type_synonym log_entry = "(sql_env \<times> sync_op) list \<times> runner_event"

fun event_db :: "sync_db \<Rightarrow> runner_event \<Rightarrow> sync_db" where
  "event_db db (RunCall sql op out) = snd (late_step db (sql, op))"
| "event_db db _ = db"

fun event_true :: "sync_db \<Rightarrow> runner_event \<Rightarrow> bool" where
  "event_true db (RunCall sql op out) \<longleftrightarrow> out = fst (late_step db (sql, op))"
| "event_true db _ \<longleftrightarrow> True"

fun log_db :: "sync_params \<Rightarrow> sync_db \<Rightarrow> log_entry list \<Rightarrow> sync_db" where
  "log_db ps db [] = db"
| "log_db ps db ((ops, e) # es) = log_db ps (event_db (snd (sync_run ps db ops)) e) es"

fun log_true :: "sync_params \<Rightarrow> sync_db \<Rightarrow> log_entry list \<Rightarrow> bool" where
  "log_true ps db [] \<longleftrightarrow> True"
| "log_true ps db ((ops, e) # es) \<longleftrightarrow>
     event_true (snd (sync_run ps db ops)) e \<and> log_true ps (event_db (snd (sync_run ps db ops)) e) es"

text \<open>The operations of a log, those of the others included, and the database after it.\<close>

fun event_ops :: "runner_event \<Rightarrow> (sql_env \<times> sync_op) list" where
  "event_ops (RunCall sql op out) = [(sql, OpLate op)]"
| "event_ops _ = []"

definition log_ops :: "log_entry list \<Rightarrow> (sql_env \<times> sync_op) list" where
  "log_ops es = concat (map (\<lambda>(ops, e). ops @ event_ops e) es)"

lemma log_ops_simps [simp]:
  "log_ops [] = []" "log_ops ((ops, e) # es) = ops @ event_ops e @ log_ops es"
  by (simp_all add: log_ops_def)

lemma event_db_run: "event_db db e = snd (sync_run ps db (event_ops e))"
  by (cases e) (simp_all add: split_def Let_def del: late_step.simps)

lemma log_db_run: "log_db ps db es = snd (sync_run ps db (log_ops es))"
  by (induction es arbitrary: db) (auto simp: run_all_append event_db_run [of _ _ ps])

lemma log_db_append: "log_db ps db (xs @ ys) = log_db ps (log_db ps db xs) ys"
  by (induction ps db xs rule: log_db.induct) simp_all

lemma log_true_append:
  "log_true ps db (xs @ ys) \<longleftrightarrow> log_true ps db xs \<and> log_true ps (log_db ps db xs) ys"
  by (induction ps db xs rule: log_db.induct) simp_all

lemma log_wf:
  assumes "outbox_wf db" and "late_wf db"
  shows "outbox_wf (log_db ps db es) \<and> late_wf (log_db ps db es)
    \<and> late_rows_le db (log_db ps db es)"
  using late_run [OF assms log_db_run] by blast

section \<open>What a program of calls does\<close>

text \<open>\<open>run_does env m P\<close>: whatever the world, \<open>m\<close> extends the log truthfully by calls that satisfy \<open>P\<close>.\<close>

definition run_does ::
    "runner_env \<Rightarrow> 'a runner \<Rightarrow> (runner_event list \<Rightarrow> runner_error + 'a \<Rightarrow> bool) \<Rightarrow> bool" where
  "run_does env m P \<longleftrightarrow>
     (\<forall>w :: runner_world. \<exists>es. rw_log (snd (m env w)) = rw_log w @ es
        \<and> rw_db (snd (m env w)) = log_db (ru_sync env) (rw_db w) es
        \<and> log_true (ru_sync env) (rw_db w) es \<and> P (map snd es) (fst (m env w)))"

lemma run_does_weaken:
  "run_does env m P \<Longrightarrow> (\<And>a r. P a r \<Longrightarrow> Q a r) \<Longrightarrow> run_does env m Q"
  unfolding run_does_def by blast

lemma run_does_return: "P [] (Inr x) \<Longrightarrow> run_does env (ru_return x) P"
  by (simp add: run_does_def ru_return_def)

lemma run_does_fail: "P [] (Inl (RunnerStorage e)) \<Longrightarrow> run_does env (ru_fail e) P"
  by (simp add: run_does_def ru_fail_def)

lemma run_does_bind:
  assumes m: "run_does env m P"
    and err: "\<And>a e. P a (Inl e) \<Longrightarrow> Q a (Inl e)"
    and f: "\<And>a x. P a (Inr x) \<Longrightarrow> run_does env (f x) (\<lambda>b r. Q (a @ b) r)"
  shows "run_does env (ru_bind m f) Q"
  unfolding run_does_def
proof
  fix w :: runner_world
  obtain es where es: "rw_log (snd (m env w)) = rw_log w @ es"
      "rw_db (snd (m env w)) = log_db (ru_sync env) (rw_db w) es"
      "log_true (ru_sync env) (rw_db w) es" "P (map snd es) (fst (m env w))"
    using m unfolding run_does_def by blast
  show "\<exists>es. rw_log (snd (ru_bind m f env w)) = rw_log w @ es
      \<and> rw_db (snd (ru_bind m f env w)) = log_db (ru_sync env) (rw_db w) es
      \<and> log_true (ru_sync env) (rw_db w) es \<and> Q (map snd es) (fst (ru_bind m f env w))"
  proof (cases "m env w")
    case (Pair r w')
    show ?thesis
    proof (cases r)
      case (Inl e)
      with es err Pair show ?thesis by (intro exI [of _ es]) (simp add: ru_bind_def)
    next
      case (Inr x)
      then have "run_does env (f x) (\<lambda>b r. Q (map snd es @ b) r)" using f es(4) Pair by simp
      then obtain fs where "rw_log (snd (f x env w')) = rw_log w' @ fs"
        "rw_db (snd (f x env w')) = log_db (ru_sync env) (rw_db w') fs"
        "log_true (ru_sync env) (rw_db w') fs" "Q (map snd es @ map snd fs) (fst (f x env w'))"
        unfolding run_does_def by blast
      with es Pair Inr show ?thesis
        by (intro exI [of _ "es @ fs"]) (simp add: ru_bind_def log_db_append log_true_append)
    qed
  qed
qed

lemma run_does_call:
  assumes same: "\<And>sql db. snd (f sql db) = snd (late_step db (sql, op))"
    and out: "\<And>sql db. P [RunCall sql op (fst (late_step db (sql, op)))] (map_err RunnerStorage (fst (f sql db)))"
  shows "run_does env (ru_call op f) P"
  unfolding run_does_def
proof
  fix w :: runner_world
  let ?sql = "ru_sql env (rw_time w)"
  let ?es = "[(ru_others env (rw_time w),
    RunCall ?sql op (fst (late_step (ru_before env w) (?sql, op))))]"
  show "\<exists>es. rw_log (snd (ru_call op f env w)) = rw_log w @ es
      \<and> rw_db (snd (ru_call op f env w)) = log_db (ru_sync env) (rw_db w) es
      \<and> log_true (ru_sync env) (rw_db w) es \<and> P (map snd es) (fst (ru_call op f env w))"
    by (intro exI [of _ ?es])
      (simp add: ru_call_def ru_after_def split_def Let_def same out ru_before_def del: late_step.simps)
qed

lemma run_does_ask:
  assumes "\<And>x db. event_db db (event x) = db" and "\<And>x db. event_true db (event x)"
    and "\<And>x. P [event x] (Inr x)"
  shows "run_does env (ru_ask ask event) P"
  unfolding run_does_def
proof
  fix w :: runner_world
  show "\<exists>es. rw_log (snd (ru_ask ask event env w)) = rw_log w @ es
      \<and> rw_db (snd (ru_ask ask event env w)) = log_db (ru_sync env) (rw_db w) es
      \<and> log_true (ru_sync env) (rw_db w) es \<and> P (map snd es) (fst (ru_ask ask event env w))"
    by (intro exI [of _ "[(ru_others env (rw_time w), event (ask env (rw_time w)))]"])
      (simp add: ru_ask_def ru_after_def Let_def assms ru_before_def)
qed

section \<open>Kinds of calls\<close>

fun is_external :: "runner_event \<Rightarrow> bool" where
  "is_external (RunCall sql op out) \<longleftrightarrow> False"
| "is_external _ \<longleftrightarrow> True"

fun is_query :: "runner_event \<Rightarrow> bool" where
  "is_query (RunQuery c life memory answer) \<longleftrightarrow> True"
| "is_query _ \<longleftrightarrow> False"

fun deleted_under :: "runner_event \<Rightarrow> late_token list" where
  "deleted_under (RunDelete t c life memory revision content_hash answer) = [t]"
| "deleted_under _ = []"

fun issued_in :: "runner_event \<Rightarrow> late_token list" where
  "issued_in (RunCall sql op (Inr (LoIssuance (CoreIssued d)))) = [dp_token d]"
| "issued_in _ = []"

abbreviation run_deletes :: "runner_event list \<Rightarrow> late_token list" where
  "run_deletes a \<equiv> concat (map deleted_under a)"

abbreviation run_permits :: "runner_event list \<Rightarrow> late_token list" where
  "run_permits a \<equiv> concat (map issued_in a)"

definition run_quiet :: "runner_event list \<Rightarrow> bool" where
  "run_quiet a \<longleftrightarrow> filter is_external a = [] \<and> run_permits a = []"

lemma externals_none:
  "filter is_external a = [] \<Longrightarrow> filter is_query a = [] \<and> run_deletes a = []"
  by (induction a rule: rev_induct; simp; rename_tac e es; case_tac e) (auto split: if_splits)

lemma run_quiet_facts:
  "run_quiet a \<Longrightarrow> filter is_external a = [] \<and> run_permits a = [] \<and> filter is_query a = []
     \<and> run_deletes a = []"
  using externals_none by (auto simp: run_quiet_def)

lemma run_quiet_append [simp]: "run_quiet (a @ b) \<longleftrightarrow> run_quiet a \<and> run_quiet b"
  by (auto simp: run_quiet_def)

lemma run_quiet_Nil [simp]: "run_quiet []"
  by (simp add: run_quiet_def)

lemma only_issue_issues:
  assumes "\<And>p. op \<noteq> LateIssue p"
  shows "issued_in (RunCall sql op (fst (late_step db (sql, op)))) = []"
  using assms
  by (cases op) (auto simp: late_as_def split_def map_sum_def split: sum.splits)

lemma does_quiet_call:
  assumes "\<And>sql db. snd (f sql db) = snd (late_step db (sql, op))" and "\<And>p. op \<noteq> LateIssue p"
  shows "run_does env (ru_call op f) (\<lambda>a r. run_quiet a)"
  by (rule run_does_call [OF assms(1)]) (simp add: run_quiet_def only_issue_issues [OF assms(2)])

lemma does_guard:
  assumes "\<And>sql db. late_step db (sql, op) = late_as LoBool (f sql db)" and "\<And>p. op \<noteq> LateIssue p"
  shows "run_does env (ru_call op f)
    (\<lambda>a r. run_quiet a \<and> (r = Inr True \<longrightarrow> (\<exists>sql. a = [RunCall sql op (Inr (LoBool True))])))"
proof (rule run_does_call)
  show "snd (f sql db) = snd (late_step db (sql, op))" for sql db by (simp add: assms(1))
  show "run_quiet [RunCall sql op (fst (late_step db (sql, op)))] \<and>
      (map_err RunnerStorage (fst (f sql db)) = Inr True \<longrightarrow>
       (\<exists>sql'. [RunCall sql op (fst (late_step db (sql, op)))] = [RunCall sql' op (Inr (LoBool True))]))"
    for sql db
    using only_issue_issues [OF assms(2)]
    by (auto simp: run_quiet_def assms(1) late_as_def split_def map_err_Inr_iff)
qed

section \<open>The bridges\<close>

text \<open>The query bridge asks the index once, and what it hands on is what the index answered.\<close>

definition query_known ::
    "late_token \<Rightarrow> vector_generation_context \<Rightarrow> runner_event list \<Rightarrow> present_post_query \<Rightarrow> bool" where
  "query_known t c a p \<longleftrightarrow>
     (\<exists>sample. filter is_external a
          = [RunQuery c (li_life_id (lt_identity t)) (li_memory_id (lt_identity t)) (Inr (Some sample))]
        \<and> query_sample_corruption_code t c sample = None
        \<and> p = \<lparr>pq_token = t, pq_revision = vs_memory_revision sample,
               pq_content_hash = vs_content_hash sample\<rparr>)"

definition queried_with ::
    "late_token \<Rightarrow> vector_generation_context \<Rightarrow> runner_event list \<Rightarrow> runner_error + query_handoff
     \<Rightarrow> bool" where
  "queried_with t c a r \<longleftrightarrow>
     run_permits a = [] \<and> run_deletes a = [] \<and> length (filter is_query a) \<le> 1
     \<and> (\<forall>p. r = Inr (QueryPresent p) \<longrightarrow> query_known t c a p)"

lemma query_outcome_present:
  "query_outcome t c answer = QueryPresent p \<Longrightarrow>
   \<exists>sample. answer = Inr (Some sample) \<and> query_sample_corruption_code t c sample = None
     \<and> p = \<lparr>pq_token = t, pq_revision = vs_memory_revision sample,
            pq_content_hash = vs_content_hash sample\<rparr>"
  by (auto simp: query_outcome_def split: sum.splits option.splits if_splits)

lemma does_query:
  "run_does env (execute_exact_query_once (QueryPermit t) c) (queried_with t c)"
proof (cases "context_matches_query_token t c")
  case True
  have "run_does env (ru_call (LateTokenCurrent t) (late_delete_resolution_token_is_current t))
      (\<lambda>a r. run_quiet a \<and> (r = Inr True \<longrightarrow> (\<exists>sql. a = [RunCall sql (LateTokenCurrent t) (Inr (LoBool True))])))"
    by (rule does_guard) simp_all
  then show ?thesis
    unfolding execute_exact_query_once_def get_generation_metadata_def
    using True
    by (auto simp: queried_with_def query_known_def run_quiet_def
        dest!: run_quiet_facts query_outcome_present
        intro!: run_does_return run_does_ask run_does_bind
          [where P = "\<lambda>a r. run_quiet a"]
          run_does_bind [where P = "\<lambda>a r. \<exists>x. r = Inr x \<and> a = [RunQuery c (li_life_id (lt_identity t))
             (li_memory_id (lt_identity t)) x]"]
        elim: run_does_weaken)
qed (auto simp: execute_exact_query_once_def queried_with_def intro!: run_does_fail)

definition present_known :: "runner_event list \<Rightarrow> present_post_query \<Rightarrow> bool" where
  "present_known a p \<longleftrightarrow>
     (let t = pq_token p
      in \<exists>c sample. context_from_query_token t = Some c
           \<and> filter is_external a = [RunResolve (vc_generation_id c),
               RunQuery c (li_life_id (lt_identity t)) (li_memory_id (lt_identity t))
                 (Inr (Some sample))]
           \<and> query_sample_corruption_code t c sample = None
           \<and> pq_revision p = vs_memory_revision sample \<and> pq_content_hash p = vs_content_hash sample)"

definition queried :: "late_token \<Rightarrow> runner_event list \<Rightarrow> runner_error + query_handoff \<Rightarrow> bool" where
  "queried t a r \<longleftrightarrow>
     run_permits a = [] \<and> run_deletes a = [] \<and> length (filter is_query a) \<le> 1
     \<and> (\<forall>p. r = Inr (QueryPresent p) \<longrightarrow> present_known a p)"

lemma queried_other: "run_quiet a \<Longrightarrow> (\<And>p. r \<noteq> Inr (QueryPresent p)) \<Longrightarrow> queried t a r"
  using run_quiet_facts by (auto simp: queried_def)

lemma queried_after_resolve:
  assumes "context_from_query_token t = Some c" and "run_quiet a" and "queried_with t c b r"
  shows "queried t (a @ RunResolve (vc_generation_id c) # b) r"
  using assms run_quiet_facts [OF assms(2)]
  by (auto simp: queried_def queried_with_def query_known_def present_known_def Let_def)

lemma does_existing:
  "run_does env (existing_for_generation g) (\<lambda>a r. a = [RunResolve g] \<and> (\<exists>x. r = Inr x))"
  unfolding existing_for_generation_def by (rule run_does_ask) simp_all

lemma does_query_with_provider:
  "run_does env (execute_exact_query_once_with_provider (QueryPermit t)) (queried t)"
proof (cases "context_from_query_token t")
  case None
  then show ?thesis
    by (auto simp: execute_exact_query_once_with_provider_def query_context_corrupt_def
        intro!: run_does_return queried_other)
next
  case (Some c)
  have guard: "run_does env (ru_call (LateTokenCurrent t) (late_delete_resolution_token_is_current t))
      (\<lambda>a r. run_quiet a)"
    by (rule does_quiet_call) simp_all
  have store: "run_does env (case store of
        Inr u \<Rightarrow> execute_exact_query_once (QueryPermit t) c
      | Inl error \<Rightarrow>
          if error = GenerationNotFound
          then ru_return (QueryCorrupt t ''LATE_DELETE_QUERY_GENERATION_STORE_MISSING'')
          else if query_error_is_corruption error
          then ru_return (QueryCorrupt t ''LATE_DELETE_QUERY_CORRUPT'')
          else ru_return (QueryFailure t error))
      (\<lambda>b r. queried t (a @ [RunResolve (vc_generation_id c)] @ b) r)"
    if "run_quiet a" for a store
  proof (cases store)
    case (Inl e)
    have "queried t (a @ [RunResolve (vc_generation_id c)]) r" if "\<And>p. r \<noteq> Inr (QueryPresent p)" for r
      using that run_quiet_facts [OF \<open>run_quiet a\<close>] by (auto simp: queried_def)
    then show ?thesis by (auto simp: Inl intro!: run_does_return)
  next
    case (Inr u)
    show ?thesis
      using queried_after_resolve [OF Some that]
      by (auto simp: Inr intro: run_does_weaken [OF does_query])
  qed
  show ?thesis
    unfolding execute_exact_query_once_with_provider_def
    by (auto simp: Some intro!: run_does_bind [OF guard] run_does_bind [OF does_existing]
        run_does_return queried_other store [simplified])
qed

text \<open>The delete bridge sends at most one delete, under a permit that is current twice.\<close>

definition delete_sent :: "delete_permit \<Rightarrow> runner_event list \<Rightarrow> bool" where
  "delete_sent p a \<longleftrightarrow>
     (let t = dp_token p
      in \<exists>c sql1 sql2 answer.
           delete_context_from_token t (dp_revision p) (dp_content_hash p) = Some c
           \<and> a = [RunCall sql1 (LatePermitCurrent t) (Inr (LoBool True)),
                  RunResolve (vc_generation_id c),
                  RunCall sql2 (LatePermitCurrent t) (Inr (LoBool True)),
                  RunDelete t c (li_life_id (lt_identity t)) (li_memory_id (lt_identity t))
                    (dp_revision p) (dp_content_hash p) answer])"

definition run_idle :: "runner_event list \<Rightarrow> bool" where
  "run_idle a \<longleftrightarrow> run_permits a = [] \<and> filter is_query a = [] \<and> run_deletes a = []"

lemma run_idle_quiet: "run_quiet a \<Longrightarrow> run_idle a"
  using run_quiet_facts by (auto simp: run_idle_def)

lemma run_idle_Nil [simp]: "run_idle []"
  by (simp add: run_idle_def)

lemma run_idle_append: "run_idle (a @ b) \<longleftrightarrow> run_idle a \<and> run_idle b"
  by (auto simp: run_idle_def)

lemma delete_contexts_agree:
  assumes "delete_context_from_token (dp_token p) (dp_revision p) (dp_content_hash p) = Some c"
    and "delete_context_of_permit p = Some c'"
  shows "c' = c"
proof -
  let ?i = "lt_identity (dp_token p)"
  obtain g n where g: "vector_generation_id_parse (li_generation_id ?i) = Inr g"
    "usize_try_from (li_dimension ?i) = Some n"
    "vector_generation_context_new g (li_descriptor_id ?i) n = Inr c"
    using assms(1)
    by (auto simp: delete_context_from_token_def context_from_query_token_def
        split: option.splits sum.splits if_splits)
  then have "n \<le> MAX_VECTOR_DIMENSION" "n = nat (li_dimension ?i)" "0 \<le> li_dimension ?i"
    by (auto simp: vector_generation_context_new_def usize_try_from_def try_seq_Inr_iff
        require_Inr_iff split: if_splits)
  then have "i64_as_usize (li_dimension ?i) = n"
    by (simp add: i64_as_usize_def MAX_VECTOR_DIMENSION_def nat_le_iff)
  with g assms(2) show ?thesis
    by (auto simp: delete_context_of_permit_def Let_def split: if_splits)
qed

lemma does_permit_guard:
  "run_does env (ru_call (LatePermitCurrent t) (late_delete_delete_permit_is_current t))
    (\<lambda>a r. run_quiet a \<and> (r = Inr True \<longrightarrow> (\<exists>sql. a = [RunCall sql (LatePermitCurrent t) (Inr (LoBool True))])))"
  by (rule does_guard) simp_all

lemma does_delete:
  assumes "delete_context_from_token (dp_token p) (dp_revision p) (dp_content_hash p) = Some c"
  shows "run_does env (execute_conditional_delete_once p)
    (\<lambda>a r. run_quiet a \<or> (\<exists>sql answer.
        a = [RunCall sql (LatePermitCurrent (dp_token p)) (Inr (LoBool True)),
             RunDelete (dp_token p) c (li_life_id (lt_identity (dp_token p)))
               (li_memory_id (lt_identity (dp_token p))) (dp_revision p) (dp_content_hash p) answer]))"
proof -
  let ?t = "dp_token p"
  have ask: "run_does env (delete_generation_memory_if_matches ?t c (li_life_id (lt_identity ?t))
        (li_memory_id (lt_identity ?t)) (dp_revision p) (dp_content_hash p))
      (\<lambda>a r. \<exists>answer. r = Inr answer \<and> a = [RunDelete ?t c (li_life_id (lt_identity ?t))
         (li_memory_id (lt_identity ?t)) (dp_revision p) (dp_content_hash p) answer])"
    unfolding delete_generation_memory_if_matches_def by (rule run_does_ask) simp_all
  show ?thesis
    unfolding execute_conditional_delete_once_def Let_def
    by (rule run_does_bind [OF does_permit_guard])
      (auto split: option.splits dest: delete_contexts_agree [OF assms]
        intro!: run_does_return run_does_bind [OF ask])
qed

text \<open>After a first guard: the provider, the second guard, the delete.\<close>

abbreviation permit_held :: "late_token \<Rightarrow> sql_env \<Rightarrow> runner_event" where
  "permit_held t sql \<equiv> RunCall sql (LatePermitCurrent t) (Inr (LoBool True))"

lemma does_store_delete:
  assumes c: "delete_context_from_token (dp_token p) (dp_revision p) (dp_content_hash p) = Some c"
  shows "run_does env
      (case store of
         Inr u \<Rightarrow> execute_conditional_delete_once p
       | Inl error \<Rightarrow>
           ru_return (PreDeleteCorrupt (dp_token p) (provider_pre_delete_error_code error)))
      (\<lambda>b r. run_idle (permit_held (dp_token p) sql # RunResolve (vc_generation_id c) # b)
         \<or> delete_sent p (permit_held (dp_token p) sql # RunResolve (vc_generation_id c) # b))"
proof (cases store)
  case (Inl e)
  then show ?thesis by (auto simp: run_idle_def intro!: run_does_return)
next
  case (Inr u)
  show ?thesis
    by (auto simp: Inr delete_sent_def Let_def c run_idle_def dest: run_quiet_facts
        intro!: run_does_weaken [OF does_delete [OF c]])
qed

lemma does_after_permit:
  "run_does env
      (case delete_context_from_token (dp_token p) (dp_revision p) (dp_content_hash p) of
         None \<Rightarrow> ru_return (PreDeleteCorrupt (dp_token p) ''LATE_DELETE_PRE_DELETE_CORRUPT'')
       | Some c \<Rightarrow>
           ru_bind (existing_for_generation (vc_generation_id c)) (\<lambda>store.
           case store of
             Inr u \<Rightarrow> execute_conditional_delete_once p
           | Inl error \<Rightarrow>
               ru_return (PreDeleteCorrupt (dp_token p) (provider_pre_delete_error_code error))))
      (\<lambda>b r. run_idle (permit_held (dp_token p) sql # b)
         \<or> delete_sent p (permit_held (dp_token p) sql # b))"
proof (cases "delete_context_from_token (dp_token p) (dp_revision p) (dp_content_hash p)")
  case None
  then show ?thesis by (auto simp: run_idle_def intro!: run_does_return)
next
  case (Some c)
  then show ?thesis
    by (auto intro!: run_does_bind [OF does_existing] does_store_delete [OF Some])
qed

lemma does_delete_with_provider:
  "run_does env (execute_conditional_delete_once_with_provider p)
     (\<lambda>a r. run_idle a \<or> delete_sent p a)"
  unfolding execute_conditional_delete_once_with_provider_def Let_def
proof (rule run_does_bind [OF does_permit_guard], goal_cases err cont)
  case (cont a x)
  show ?case
  proof (cases x)
    case True
    with cont obtain sql where "a = [permit_held (dp_token p) sql]" by blast
    then show ?thesis using does_after_permit [of env p sql] True by simp
  next
    case False
    then show ?thesis using cont by (auto intro!: run_does_return dest: run_idle_quiet)
  qed
qed (auto dest: run_idle_quiet)

section \<open>A pass\<close>

lemma does_then_return:
  "run_does env m (\<lambda>a r. run_quiet a) \<Longrightarrow>
   run_does env (ru_bind m (\<lambda>_. ru_return x)) (\<lambda>a r. run_quiet a)"
  by (rule run_does_bind, assumption) (auto intro: run_does_return)

lemma does_settle_deleted: "run_does env (settle_deleted recovered h) (\<lambda>a r. run_quiet a)"
  unfolding settle_deleted_def
  by (cases h) (auto intro!: run_does_return does_then_return does_quiet_call)

lemma does_settle_queried:
  assumes "\<And>p. h \<noteq> QueryPresent p"
  shows "run_does env (settle_queried recovered h) (\<lambda>a r. run_quiet a)"
  unfolding settle_queried_def using assms
  by (cases h) (auto intro!: run_does_return does_then_return does_quiet_call
      simp: finalize_late_delete_query_absent_def finalize_late_delete_query_failure_def
        finalize_late_delete_query_corrupt_def)

lemma issue_core_fields:
  assumes "issue_late_delete_permit_core p env db = (Inr (CoreIssued d), db')"
  shows "d = \<lparr>dp_token = pq_token p, dp_revision = pq_revision p, dp_content_hash = pq_content_hash p\<rparr>"
proof -
  from run_late_Inr [OF assms [unfolded issue_late_delete_permit_core_def]]
  obtain n where "late_issue_tx p env 1 db = Inr (CoreIssued d, n, db')" by blast
  then show ?thesis
    unfolding late_issue_tx_def load_resolution_in_def Let_def authoritative_now_in_def
    by (auto simp: bind_reads split: option.splits if_splits)
qed

lemma issue_for_runner_snd:
  "snd (issue_late_delete_permit_for_runner p sql sql' db) = snd (late_step db (sql, LateIssue p))"
proof -
  have "snd (reconcile_late_delete_started_exact_token t sql' db'') = db''" for t db''
    unfolding reconcile_late_delete_started_exact_token_def load_resolution_in_def
    by (rule run_tx_reads) (intro tx_reads.rel_bind tx_reads.rel_query tx_reads.rel_return)
  then show ?thesis
    by (auto simp: issue_late_delete_permit_for_runner_def split_def Let_def
        split: prod.splits sum.splits issuance_core.splits)
qed

lemma issue_for_runner_issued:
  assumes "fst (issue_late_delete_permit_for_runner p sql sql' db) = Inr (RunnerIssued d)"
  shows "d = \<lparr>dp_token = pq_token p, dp_revision = pq_revision p, dp_content_hash = pq_content_hash p\<rparr>
    \<and> fst (late_step db (sql, LateIssue p)) = Inr (LoIssuance (CoreIssued d))"
proof (cases "issue_late_delete_permit_core p sql db")
  case (Pair r db')
  with assms have "r = Inr (CoreIssued d)"
    by (auto simp: issue_late_delete_permit_for_runner_def map_sum_def split_def Let_def
        split: sum.splits issuance_core.splits)
  with Pair show ?thesis by (auto simp: late_as_def issue_core_fields)
qed

lemma does_issue:
  "run_does env (issue_for_runner p)
    (\<lambda>a r. filter is_external a = []
       \<and> (\<forall>d. r = Inr (RunnerIssued d) \<longrightarrow>
            d = \<lparr>dp_token = pq_token p, dp_revision = pq_revision p, dp_content_hash = pq_content_hash p\<rparr>
            \<and> (\<exists>sql. a = [RunCall sql (LateIssue p) (Inr (LoIssuance (CoreIssued d)))])))"
    (is "run_does _ _ ?P")
proof -
  have "run_does env (ru_call (LateIssue p) (\<lambda>sql. issue_late_delete_permit_for_runner p sql sql')) ?P"
    for sql'
    by (rule run_does_call [OF issue_for_runner_snd])
      (auto simp: map_err_Inr_iff dest: issue_for_runner_issued simp del: late_step.simps)
  then show ?thesis
    unfolding run_does_def issue_for_runner_def by blast
qed

definition delete_of :: "present_post_query \<Rightarrow> runner_event list \<Rightarrow> bool" where
  "delete_of p a \<longleftrightarrow>
     (let d = \<lparr>dp_token = pq_token p, dp_revision = pq_revision p, dp_content_hash = pq_content_hash p\<rparr>
      in \<exists>sql b post. a = RunCall sql (LateIssue p) (Inr (LoIssuance (CoreIssued d))) # b @ post
           \<and> delete_sent d b \<and> run_quiet post)"

lemma delete_sent_facts: "delete_sent p b \<Longrightarrow> filter is_query b = []"
  by (auto simp: delete_sent_def Let_def)

lemma does_after_present:
  "run_does env (run_one_after_query_present p recovered)
     (\<lambda>a r. filter is_query a = [] \<and> (run_deletes a = [] \<or> delete_of p a))"
  unfolding run_one_after_query_present_def
proof (rule run_does_bind [OF does_issue], goal_cases err cont)
  case (err a e)
  then show ?case using externals_none by auto
next
  case (cont a issuance)
  then have quiet: "filter is_query a = []" "run_deletes a = []" using externals_none by auto
  show ?case
  proof (cases issuance)
    case (RunnerIssued d)
    with cont obtain sql where
      d: "d = \<lparr>dp_token = pq_token p, dp_revision = pq_revision p, dp_content_hash = pq_content_hash p\<rparr>"
      and a: "a = [RunCall sql (LateIssue p) (Inr (LoIssuance (CoreIssued d)))]" by blast
    have alone: "\<exists>b' post. b = b' @ post \<and> delete_sent d b' \<and> run_quiet post" if "delete_sent d b" for b
      using that by (intro exI [of _ b] exI [of _ "[]"]) simp
    have "run_does env (ru_bind (execute_conditional_delete_once_with_provider d)
        (settle_deleted recovered))
        (\<lambda>b r. run_idle b \<or> (\<exists>b' post. b = b' @ post \<and> delete_sent d b' \<and> run_quiet post))"
      by (rule run_does_bind [OF does_delete_with_provider])
        (auto intro!: run_does_weaken [OF does_settle_deleted] intro: run_idle_quiet alone
          simp: run_idle_append)
    then show ?thesis
      by (auto simp: RunnerIssued run_idle_def delete_of_def Let_def a d dest: delete_sent_facts
          run_quiet_facts elim!: run_does_weaken)
  qed (use quiet in \<open>auto intro: run_does_return\<close>)
qed

definition pass_deletes :: "runner_event list \<Rightarrow> bool" where
  "pass_deletes a \<longleftrightarrow>
     (\<exists>pre p b. a = pre @ b \<and> run_permits pre = [] \<and> run_deletes pre = [] \<and> present_known pre p
        \<and> delete_of p b)"

definition pass_ok :: "runner_event list \<Rightarrow> bool" where
  "pass_ok a \<longleftrightarrow> length (filter is_query a) \<le> 1 \<and> (run_deletes a = [] \<or> pass_deletes a)"

lemma delete_of_append: "delete_of p b \<Longrightarrow> run_quiet q \<Longrightarrow> delete_of p (b @ q)"
  unfolding delete_of_def Let_def by (metis append.assoc append_Cons run_quiet_append)

lemma present_known_quiet: "present_known a p \<Longrightarrow> run_quiet q \<Longrightarrow> present_known (q @ a) p"
  using run_quiet_facts by (simp add: present_known_def Let_def)

lemma pass_ok_after: "pass_ok a \<Longrightarrow> run_quiet q \<Longrightarrow> pass_ok (a @ q)"
  using run_quiet_facts delete_of_append unfolding pass_ok_def pass_deletes_def
  by (auto; metis append.assoc)

lemma pass_ok_before:
  assumes "pass_ok a" and "run_quiet q"
  shows "pass_ok (q @ a)"
proof (cases "run_deletes a = []")
  case False
  with assms obtain pre p b where
    "a = pre @ b" "run_permits pre = []" "run_deletes pre = []" "present_known pre p" "delete_of p b"
    by (auto simp: pass_ok_def pass_deletes_def)
  then have "pass_deletes (q @ a)"
    unfolding pass_deletes_def using run_quiet_facts [OF assms(2)] present_known_quiet assms(2)
    by (intro exI [of _ "q @ pre"] exI [of _ p] exI [of _ b]) simp
  with assms show ?thesis using run_quiet_facts [OF assms(2)] by (simp add: pass_ok_def)
qed (use assms run_quiet_facts [OF assms(2)] in \<open>simp add: pass_ok_def\<close>)

lemma pass_ok_quiet: "run_quiet a \<Longrightarrow> pass_ok a"
  using run_quiet_facts by (simp add: pass_ok_def)

lemma does_queried_pass:
  "run_does env (ru_bind (execute_exact_query_once_with_provider (QueryPermit t))
     (settle_queried recovered)) (\<lambda>a r. pass_ok a)"
proof (rule run_does_bind [OF does_query_with_provider], goal_cases err cont)
  case (err a e)
  then show ?case by (simp add: queried_def pass_ok_def)
next
  case (cont a h)
  then have a: "run_permits a = []" "run_deletes a = []" "length (filter is_query a) \<le> 1"
    by (simp_all add: queried_def)
  show ?case
  proof (cases "\<exists>p. h = QueryPresent p")
    case True
    then obtain p where h: "h = QueryPresent p" by blast
    with cont have p: "present_known a p" by (simp add: queried_def)
    have "pass_ok (a @ b)" if "filter is_query b = [] \<and> (run_deletes b = [] \<or> delete_of p b)" for b
    proof (cases "run_deletes b = []")
      case False
      with that have "delete_of p b" by blast
      with a p have "pass_deletes (a @ b)" unfolding pass_deletes_def by blast
      with that a show ?thesis by (simp add: pass_ok_def)
    qed (use that a in \<open>simp add: pass_ok_def\<close>)
    then show ?thesis
      by (auto simp: h settle_queried_def intro!: run_does_weaken [OF does_after_present])
  next
    case False
    have "pass_ok (a @ b)" if "run_quiet b" for b
      by (rule pass_ok_after [OF _ that]) (use a in \<open>simp add: pass_ok_def\<close>)
    then show ?thesis
      using run_does_weaken [OF does_settle_queried] False by auto
  qed
qed

lemma for_query_snd:
  "snd (reserve_late_delete_resolution_for_query c sql db) = snd (late_step db (sql, LateReserveSlot c))"
  by (simp add: reserve_late_delete_resolution_for_query_def split_def Let_def)

lemma does_leased: "run_does env (run_one_while_leased lease) (\<lambda>a r. pass_ok a)"
proof -
  have recover: "run_does env (ru_call LateRecover recover_expired_late_delete_resolutions)
      (\<lambda>a r. run_quiet a)" by (rule does_quiet_call) simp_all
  have claim: "run_does env (ru_call (LateClaimOne lease) (claim_one_late_delete_resolution lease))
      (\<lambda>a r. run_quiet a)" by (rule does_quiet_call) simp_all
  have reserve: "run_does env (ru_call (LateReserveSlot c) (reserve_late_delete_resolution_for_query c))
      (\<lambda>a r. run_quiet a)" for c by (rule does_quiet_call [OF for_query_snd]) simp_all
  have queried: "run_does env
      (case reservation of
         QueryReserved permit \<Rightarrow>
           ru_bind (execute_exact_query_once_with_provider permit) (settle_queried recovered)
       | QueryAlreadyReserved _ \<Rightarrow> ru_return (RunProcessed recovered)
       | QueryReservationLost \<Rightarrow> ru_return (RunProcessed recovered)
       | QueryLimitReached \<Rightarrow> ru_return (RunProcessed recovered))
      (\<lambda>a r. pass_ok (q @ a))" if "run_quiet q" for reservation recovered q
  proof (cases reservation)
    case (QueryReserved permit)
    then show ?thesis
      using that by (cases permit) (auto intro: pass_ok_before run_does_weaken [OF does_queried_pass])
  qed (use that in \<open>auto intro!: run_does_return pass_ok_quiet\<close>)
  show ?thesis
    unfolding run_one_while_leased_def
    by (auto intro!: run_does_bind [OF recover] run_does_bind [OF claim] run_does_bind [OF reserve]
        run_does_return pass_ok_quiet queried simp flip: append_assoc split: late_claim_result.splits)
qed

text \<open>Two programs one after the other, whatever the first one returned.\<close>

lemma run_does_both:
  assumes m: "run_does env m P" and k: "run_does env k Q"
    and R: "\<And>a x b y. P a x \<Longrightarrow> Q b y \<Longrightarrow> R (a @ b) (g x y)"
    and prog: "\<And>w. prog env w = (let (x, w1) = m env w; (y, w2) = k env w1 in (g x y, w2))"
  shows "run_does env prog R"
  unfolding run_does_def
proof
  fix w :: runner_world
  obtain es where es: "rw_log (snd (m env w)) = rw_log w @ es"
      "rw_db (snd (m env w)) = log_db (ru_sync env) (rw_db w) es"
      "log_true (ru_sync env) (rw_db w) es" "P (map snd es) (fst (m env w))"
    using m unfolding run_does_def by blast
  let ?w = "snd (m env w)"
  obtain fs where fs: "rw_log (snd (k env ?w)) = rw_log ?w @ fs"
      "rw_db (snd (k env ?w)) = log_db (ru_sync env) (rw_db ?w) fs"
      "log_true (ru_sync env) (rw_db ?w) fs" "Q (map snd fs) (fst (k env ?w))"
    using k unfolding run_does_def by blast
  from es fs R [OF es(4) fs(4)] show "\<exists>es. rw_log (snd (prog env w)) = rw_log w @ es
      \<and> rw_db (snd (prog env w)) = log_db (ru_sync env) (rw_db w) es
      \<and> log_true (ru_sync env) (rw_db w) es \<and> R (map snd es) (fst (prog env w))"
    by (intro exI [of _ "es @ fs"])
      (simp add: prog split_def Let_def log_db_append log_true_append)
qed

text \<open>
  The pass of an owner: without the lease it ends at once, busy when the lease is another's and with
  the error when the call failed; with it, it gives it back with its last call, never reports busy,
  and fails when giving it back fails.
\<close>

definition pass_bracket :: "string \<Rightarrow> runner_event list \<Rightarrow> runner_error + run_end \<Rightarrow> bool" where
  "pass_bracket owner a r \<longleftrightarrow>
     (\<exists>sql. a = [RunCall sql (LateAcquire owner) (Inr (LoLease None))] \<and> r = Inr LeaseBusy)
     \<or> (\<exists>sql e. a = [RunCall sql (LateAcquire owner) (Inl e)] \<and> r = Inl (RunnerStorage e))
     \<or> (\<exists>sql lease mid sql' out.
          a = RunCall sql (LateAcquire owner) (Inr (LoLease (Some lease))) # mid
                @ [RunCall sql' (LateRelease lease) out]
          \<and> r \<noteq> Inr LeaseBusy \<and> (isl out \<longrightarrow> isl r))"

lemma does_acquire:
  "run_does env (ru_call (LateAcquire owner) (acquire_late_delete_runtime_lease owner))
     (\<lambda>a r. run_quiet a
        \<and> (\<forall>e. r = Inl e \<longrightarrow> pass_bracket owner a (Inl e))
        \<and> (r = Inr None \<longrightarrow> pass_bracket owner a (Inr LeaseBusy))
        \<and> (\<forall>lease. r = Inr (Some lease) \<longrightarrow>
             (\<exists>sql. a = [RunCall sql (LateAcquire owner) (Inr (LoLease (Some lease)))])))"
proof (intro run_does_call, goal_cases)
  case (2 sql db)
  obtain got where "fst (acquire_late_delete_runtime_lease owner sql db) = got" by blast
  then show ?case
    using only_issue_issues [of "LateAcquire owner"]
    by (cases got) (auto simp: run_quiet_def pass_bracket_def late_as_def split_def)
qed (auto simp: late_as_def split_def)

lemma does_release:
  "run_does env (ru_call (LateRelease lease) (release_late_delete_runtime_lease lease))
     (\<lambda>a r. run_quiet a \<and> (\<exists>sql out. a = [RunCall sql (LateRelease lease) out] \<and> (isl out \<longrightarrow> isl r)))"
proof (intro run_does_call, goal_cases)
  case (2 sql db)
  then show ?case
    using only_issue_issues [of "LateRelease lease"]
    by (cases "fst (release_late_delete_runtime_lease lease sql db)")
      (auto simp: run_quiet_def late_as_def split_def)
qed (auto simp: late_as_def split_def)

text \<open>Only a pass without the lease is busy.\<close>

definition never_busy :: "run_end runner \<Rightarrow> bool" where
  "never_busy m \<longleftrightarrow> (\<forall>env w. fst (m env w) \<noteq> Inr LeaseBusy)"

lemma never_busy_bind: "(\<And>x. never_busy (f x)) \<Longrightarrow> never_busy (ru_bind m f)"
  by (simp add: never_busy_def ru_bind_def split: prod.splits sum.splits)

lemma never_busy_return: "x \<noteq> LeaseBusy \<Longrightarrow> never_busy (ru_return x)"
  by (simp add: never_busy_def ru_return_def)

lemma leased_never_busy: "never_busy (run_one_while_leased lease)"
proof -
  have settled: "never_busy (settle_deleted recovered h)" for recovered h
    by (cases h) (auto simp: settle_deleted_def intro!: never_busy_bind never_busy_return)
  have present: "never_busy (run_one_after_query_present p recovered)" for p recovered
    unfolding run_one_after_query_present_def
    by (rule never_busy_bind) (auto intro!: never_busy_bind never_busy_return settled
        split: runner_issuance.split)
  have queried: "never_busy (settle_queried recovered h)" for recovered h
    by (cases h) (auto simp: settle_queried_def intro!: never_busy_bind never_busy_return present)
  show ?thesis
    unfolding run_one_while_leased_def
    by (auto intro!: never_busy_bind never_busy_return queried
        split: late_claim_result.split late_query_reservation.split)
qed

lemma does_run_one:
  "run_does env (run_one_late_delete owner) (\<lambda>a r. pass_ok a \<and> pass_bracket owner a r)"
  unfolding run_one_late_delete_def
proof (rule run_does_bind [OF does_acquire], goal_cases err cont)
  case (err a e)
  then show ?case by (simp add: pass_ok_quiet)
next
  case (cont a acquired)
  show ?case
  proof (cases acquired)
    case None
    then show ?thesis using cont by (auto simp: pass_ok_quiet intro!: run_does_return)
  next
    case (Some lease)
    with cont obtain sql where a: "run_quiet a"
      "a = [RunCall sql (LateAcquire owner) (Inr (LoLease (Some lease)))]" by blast
    have body: "run_does env (run_one_while_leased lease) (\<lambda>b x. pass_ok b \<and> x \<noteq> Inr LeaseBusy)"
      using does_leased [of env lease] leased_never_busy [of lease]
      by (fastforce simp: run_does_def never_busy_def)
    have "pass_ok (a @ b @ q) \<and> pass_bracket owner (a @ b @ q)
        (case (x, y) of (Inr ended, Inr _) \<Rightarrow> Inr ended | (Inl error, Inr _) \<Rightarrow> Inl error
           | (Inr _, Inl error) \<Rightarrow> Inl error | (Inl error, Inl _) \<Rightarrow> Inl error)"
      if "pass_ok b \<and> x \<noteq> Inr LeaseBusy"
        "run_quiet q \<and> (\<exists>sql out. q = [RunCall sql (LateRelease lease) out] \<and> (isl out \<longrightarrow> isl y))"
      for b q and x :: "runner_error + run_end" and y :: "runner_error + bool"
    proof -
      from that(2) obtain sql' out where q: "q = [RunCall sql' (LateRelease lease) out]"
        "isl out \<longrightarrow> isl y" by blast
      have "pass_ok (a @ b @ q)"
        using that a(1) by (simp add: pass_ok_before pass_ok_after)
      with that(1) a(2) q show ?thesis
        by (cases x; cases y) (auto simp: pass_bracket_def)
    qed
    then show ?thesis
      unfolding Some option.case
      by (rule run_does_both [OF body does_release]) (simp_all add: Let_def split_def)
  qed
qed

end
