(* ===== verification/Late_Delete_Resolver.thy ===== *)
theory Late_Delete_Resolver
  imports Late_Delete_Passes
begin

text \<open>
  The guarantees of a pass of the resolver, and of any number of passes with every other caller of
  the store in between: a pass is a run of the store under one lease, the delete it sends is the one
  it has queried and is permitted to send, and a resolution costs at most three deletes.
\<close>

section \<open>A pass is a run of the store\<close>

lemma pass_log:
  assumes "run_one_late_delete owner env w0 = (r, w)" and "rw_log w0 = []"
  shows "rw_db w = log_db (ru_sync env) (rw_db w0) (rw_log w)"
    and "log_true (ru_sync env) (rw_db w0) (rw_log w)"
    and "pass_ok (map snd (rw_log w))" and "pass_bracket owner (map snd (rw_log w)) r"
proof -
  from does_run_one [of env owner, unfolded run_does_def] assms obtain es where
    "rw_log w = es" "rw_db w = log_db (ru_sync env) (rw_db w0) es"
    "log_true (ru_sync env) (rw_db w0) es" "pass_ok (map snd es) \<and> pass_bracket owner (map snd es) r"
    by (metis (no_types, lifting) append_Nil fst_conv snd_conv)
  then show "rw_db w = log_db (ru_sync env) (rw_db w0) (rw_log w)"
    "log_true (ru_sync env) (rw_db w0) (rw_log w)"
    "pass_ok (map snd (rw_log w))" "pass_bracket owner (map snd (rw_log w)) r" by simp_all
qed

text \<open>
  C31: A pass is a run of the store: the database it leaves is the one of the operations of its log,
  those of the others included, and every call got the outcome the store gives it there. The pass
  asks the index at most once. It ends with its first call when that did not give it the lease: busy
  when the lease is another's, with the storage error when the call failed. Otherwise it takes the
  lease with its first call and gives it back with its last, whatever failed in between; it then
  never reports busy, and reports an error when giving the lease back failed.
\<close>

theorem late_delete_pass_is_a_run:
  assumes run: "run_one_late_delete owner env w0 = (r, w)" and "rw_log w0 = []"
  shows "rw_db w = snd (sync_run (ru_sync env) (rw_db w0) (log_ops (rw_log w)))
    \<and> log_true (ru_sync env) (rw_db w0) (rw_log w)
    \<and> length (filter is_query (map snd (rw_log w))) \<le> 1
    \<and> ((\<exists>sql. map snd (rw_log w) = [RunCall sql (LateAcquire owner) (Inr (LoLease None))]
           \<and> r = Inr LeaseBusy)
       \<or> (\<exists>sql e. map snd (rw_log w) = [RunCall sql (LateAcquire owner) (Inl e)]
           \<and> r = Inl (RunnerStorage e))
       \<or> (\<exists>sql lease mid sql' out.
            map snd (rw_log w) = RunCall sql (LateAcquire owner) (Inr (LoLease (Some lease)))
              # mid @ [RunCall sql' (LateRelease lease) out]
            \<and> r \<noteq> Inr LeaseBusy \<and> (isl out \<longrightarrow> isl r)))"
  using pass_log [OF assms] by (simp add: log_db_run pass_ok_def pass_bracket_def)

section \<open>The delete of a pass\<close>

lemma permit_guard_row:
  assumes "late_delete_delete_permit_is_current t env db = (Inr True, db')"
  shows "list_ex (delete_started_row t) (late_rows db)"
proof -
  from run_late_Inr [OF assms [unfolded late_delete_delete_permit_is_current_def]]
  show ?thesis
    by (auto simp: authoritative_now_in_def bind_reads tx_query_Inr tx_return_Inr split: if_splits)
qed

lemma held_row:
  assumes "event_true db (permit_held t sql)"
  shows "list_ex (delete_started_row t) (late_rows db)"
proof -
  from assms have "fst (late_delete_delete_permit_is_current t sql db) = Inr True"
    by (cases "fst (late_delete_delete_permit_is_current t sql db)") (auto simp: late_as_def split_def)
  then show ?thesis
    using permit_guard_row [of t sql db "snd (late_delete_delete_permit_is_current t sql db)"]
    by (metis prod.collapse)
qed

lemma delete_context_query:
  assumes "delete_context_from_token t revision content_hash = Some c"
  shows "context_from_query_token t = Some c"
  using assms by (auto simp: delete_context_from_token_def split: option.splits if_splits)

lemma query_context_generation:
  assumes "context_from_query_token t = Some c"
  shows "generation_id_as_str (vc_generation_id c) = li_generation_id (lt_identity t)"
  using assms
  by (auto simp: context_from_query_token_def vector_generation_context_new_def
      generation_id_parse_Inr try_seq_Inr_iff split: sum.splits option.splits)

text \<open>The calls of a pass that deletes.\<close>

definition pass_deleting ::
    "late_token \<Rightarrow> vector_generation_context \<Rightarrow> vector_metadata_sample \<Rightarrow> runner_event \<Rightarrow> runner_event list
     \<Rightarrow> runner_event list \<Rightarrow> runner_event list \<Rightarrow> bool" where
  "pass_deleting t c sample del pre post a \<longleftrightarrow>
     (\<exists>sql sql1 sql2 p d answer.
        del = RunDelete t c (li_life_id (lt_identity t)) (li_memory_id (lt_identity t))
                (vs_memory_revision sample) (vs_content_hash sample) answer
        \<and> dp_token d = t
        \<and> a = pre @ [RunCall sql (LateIssue p) (Inr (LoIssuance (CoreIssued d))), permit_held t sql1,
             RunResolve (vc_generation_id c), permit_held t sql2, del] @ post)
     \<and> context_from_query_token t = Some c
     \<and> filter is_external pre = [RunResolve (vc_generation_id c),
           RunQuery c (li_life_id (lt_identity t)) (li_memory_id (lt_identity t)) (Inr (Some sample))]
     \<and> run_permits pre = [] \<and> run_deletes pre = [] \<and> run_quiet post"

lemma pass_deletes_shape:
  assumes "pass_deletes a"
  shows "\<exists>t c sample del pre post. pass_deleting t c sample del pre post a"
proof -
  from assms obtain pre p b where a: "a = pre @ b" and pre: "run_permits pre = []" "run_deletes pre = []"
    and known: "present_known pre p" and b: "delete_of p b"
    by (auto simp: pass_deletes_def)
  let ?t = "pq_token p"
  let ?d = "\<lparr>dp_token = ?t, dp_revision = pq_revision p, dp_content_hash = pq_content_hash p\<rparr>"
  from known obtain c sample where c: "context_from_query_token ?t = Some c"
    and ext: "filter is_external pre = [RunResolve (vc_generation_id c),
        RunQuery c (li_life_id (lt_identity ?t)) (li_memory_id (lt_identity ?t)) (Inr (Some sample))]"
    and sample: "pq_revision p = vs_memory_revision sample" "pq_content_hash p = vs_content_hash sample"
    by (auto simp: present_known_def Let_def)
  from b obtain sql b' post where b': "b = RunCall sql (LateIssue p) (Inr (LoIssuance (CoreIssued ?d))) # b' @ post"
    "delete_sent ?d b'" "run_quiet post"
    by (auto simp: delete_of_def Let_def)
  from b'(2) obtain c' sql1 sql2 answer where
    "delete_context_from_token ?t (pq_revision p) (pq_content_hash p) = Some c'"
    and sent: "b' = [permit_held ?t sql1, RunResolve (vc_generation_id c'), permit_held ?t sql2,
      RunDelete ?t c' (li_life_id (lt_identity ?t)) (li_memory_id (lt_identity ?t))
        (pq_revision p) (pq_content_hash p) answer]"
    by (auto simp: delete_sent_def Let_def)
  then have "c' = c" using delete_context_query c by force
  with a b' sent c ext pre sample have "pass_deleting ?t c sample
      (RunDelete ?t c (li_life_id (lt_identity ?t)) (li_memory_id (lt_identity ?t))
        (pq_revision p) (pq_content_hash p) answer) pre post a"
    unfolding pass_deleting_def
    by (intro conjI exI [of _ sql] exI [of _ sql1] exI [of _ sql2] exI [of _ p] exI [of _ ?d]
        exI [of _ answer]) simp_all
  then show ?thesis by blast
qed

lemma pass_deleting_facts:
  assumes "pass_deleting t c sample del pre post a"
  shows "run_deletes a = [t]" and "filter is_external a
      = filter is_external pre @ [RunResolve (vc_generation_id c), del]"
    and "run_permits a = [t]"
  using assms run_quiet_facts [of post]
  by (auto simp: pass_deleting_def simp del: concat_eq_Nil_conv)

text \<open>A log whose calls are a list of calls splits where they do.\<close>

lemma log_split:
  assumes "map snd es = pre @ x # y # post"
  obtains es1 ops1 ops2 es2 where "es = es1 @ (ops1, x) # (ops2, y) # es2" and "map snd es1 = pre"
proof -
  from assms obtain es1 es' where es: "es = es1 @ es'" "map snd es1 = pre" "map snd es' = x # y # post"
    by (auto simp: map_eq_append_conv)
  from es(3) obtain e1 e2 es2 where "es' = e1 # e2 # es2" "snd e1 = x" "snd e2 = y"
    by (auto simp: map_eq_Cons_conv)
  with es that [of es1 "fst e1" "fst e2" es2] show thesis by (cases e1; cases e2) simp
qed

text \<open>
  C29: The delete that a pass sends to the index is for the record it has just found: the only calls of
  the index before it are the query of the same record, whose answer named exactly the revision and
  the hash the delete demands, and the lookups of the generation of the resolution. It is sent under
  the one permit the pass was given, whose guard was the last call before it and held on a row that
  says \<open>delete_started\<close> for the slot of the permit.
\<close>

theorem delete_follows_its_query:
  assumes "run_one_late_delete owner env w0 = (r, w)" and "rw_log w0 = []"
    and "RunDelete t c life memory revision content_hash answer \<in> set (map snd (rw_log w))"
  shows "life = li_life_id (lt_identity t) \<and> memory = li_memory_id (lt_identity t)
    \<and> generation_id_as_str (vc_generation_id c) = li_generation_id (lt_identity t)
    \<and> (\<exists>sample. vs_memory_revision sample = revision \<and> vs_content_hash sample = content_hash
         \<and> filter is_external (map snd (rw_log w))
             = [RunResolve (vc_generation_id c), RunQuery c life memory (Inr (Some sample)),
                RunResolve (vc_generation_id c),
                RunDelete t c life memory revision content_hash answer])
    \<and> run_permits (map snd (rw_log w)) = [t]
    \<and> (\<exists>es1 ops1 sql ops2 es2.
         rw_log w = es1 @ (ops1, permit_held t sql)
           # (ops2, RunDelete t c life memory revision content_hash answer) # es2
         \<and> list_ex (delete_started_row t)
             (late_rows (snd (sync_run (ru_sync env) (log_db (ru_sync env) (rw_db w0) es1) ops1))))"
proof -
  let ?del = "RunDelete t c life memory revision content_hash answer"
  note log = pass_log [OF assms(1,2)]
  have "run_deletes (map snd (rw_log w)) \<noteq> []" using assms(3) by force
  then have "pass_deletes (map snd (rw_log w))" using log(3) unfolding pass_ok_def by blast
  from pass_deletes_shape [OF this] obtain t' c' sample del pre post where
    del: "pass_deleting t' c' sample del pre post (map snd (rw_log w))" by blast
  note facts = pass_deleting_facts [OF del]
  have "?del \<in> set (filter is_external (map snd (rw_log w)))" using assms(3) by simp
  with del have same: "?del = del" unfolding facts(2) by (auto simp: pass_deleting_def)
  with del have t: "t' = t" "c' = c" "life = li_life_id (lt_identity t)"
    "memory = li_memory_id (lt_identity t)" "vs_memory_revision sample = revision"
    "vs_content_hash sample = content_hash" "context_from_query_token t = Some c"
    by (auto simp: pass_deleting_def)
  from del obtain pre' sql where "map snd (rw_log w) = pre' @ permit_held t sql # ?del # post"
    unfolding pass_deleting_def same [symmetric] t by (metis append.assoc append_Cons append_Nil)
  then obtain es1 ops1 ops2 es2 where
    es: "rw_log w = es1 @ (ops1, permit_held t sql) # (ops2, ?del) # es2" by (rule log_split)
  with log(2) have "list_ex (delete_started_row t)
      (late_rows (snd (sync_run (ru_sync env) (log_db (ru_sync env) (rw_db w0) es1) ops1)))"
    by (intro held_row [of _ sql t]) (simp add: log_true_append del: late_step.simps)
  moreover have "filter is_external (map snd (rw_log w))
      = [RunResolve (vc_generation_id c), RunQuery c life memory (Inr (Some sample)),
         RunResolve (vc_generation_id c), ?del]"
    using facts(2) del same t by (simp add: pass_deleting_def)
  ultimately show ?thesis
    using facts(3) t es query_context_generation by blast
qed

section \<open>Passes\<close>

text \<open>Passes of any owners, one after the other, with others before each call and in between.\<close>

fun run_late_passes :: "sync_params \<Rightarrow> (string \<times> runner_env) list \<Rightarrow> runner_world \<Rightarrow> runner_world" where
  "run_late_passes ps [] w = w"
| "run_late_passes ps ((owner, env) # passes) w =
     run_late_passes ps passes (snd (run_one_late_delete owner (env\<lparr>ru_sync := ps\<rparr>) w))"

lemma permit_in_log:
  assumes "log_true ps db es" and "outbox_wf db" and "late_wf db"
    and "t \<in> set (run_permits (map snd es))"
  shows "\<exists>p sql db1 d db2. late_rows_le db db1 \<and> outbox_wf db1 \<and> late_wf db1
    \<and> issue_late_delete_permit_core p sql db1 = (Inr (CoreIssued d), db2) \<and> dp_token d = t"
  using assms
proof (induction es arbitrary: db)
  case (Cons e es)
  obtain ops c where e: "e = (ops, c)" by (cases e)
  let ?db = "snd (sync_run ps db ops)"
  have run: "outbox_wf ?db" "late_wf ?db" "late_rows_le db ?db"
    using late_run [OF Cons.prems(2,3) refl, of ps ops] by blast+
  have after: "outbox_wf (event_db ?db c)" "late_wf (event_db ?db c)"
    "late_rows_le ?db (event_db ?db c)"
    using late_run [OF run(1,2) event_db_run [of ?db c ps]] by blast+
  show ?case
  proof (cases "t \<in> set (run_permits (map snd es))")
    case True
    with Cons.IH [of "event_db ?db c"] Cons.prems(1) after e show ?thesis
      using late_rows_le_trans [OF run(3) late_rows_le_trans [OF after(3)]] by fastforce
  next
    case False
    with Cons.prems(4) have "t \<in> set (issued_in c)" by (simp add: e)
    then obtain sql op d where c: "c = RunCall sql op (Inr (LoIssuance (CoreIssued d)))"
      "dp_token d = t" by (cases c rule: issued_in.cases) auto
    with Cons.prems(1) have "fst (late_step ?db (sql, op)) = Inr (LoIssuance (CoreIssued d))"
      by (simp add: e del: late_step.simps)
    then obtain p where "fst (issue_late_delete_permit_core p sql ?db) = Inr (CoreIssued d)"
      by (cases op) (auto simp: late_as_def split_def map_sum_def split: sum.splits)
    with run c(2) show ?thesis by (metis prod.collapse)
  qed
qed simp

text \<open>The permits of a resolution in a log have growing slots.\<close>

lemma permits_grow:
  assumes "log_true ps db es" and "outbox_wf db" and "late_wf db"
  shows "sorted_wrt (\<lambda>t t'. lt_resolution_id t' = lt_resolution_id t \<longrightarrow>
      lt_resolution_ordinal t < lt_resolution_ordinal t') (run_permits (map snd es))"
  using assms
proof (induction es arbitrary: db)
  case (Cons e es)
  obtain ops c where e: "e = (ops, c)" by (cases e)
  let ?db = "snd (sync_run ps db ops)"
  have run: "outbox_wf ?db" "late_wf ?db"
    using late_run [OF Cons.prems(2,3) refl, of ps ops] by blast+
  have after: "outbox_wf (event_db ?db c)" "late_wf (event_db ?db c)"
    using late_run [OF run event_db_run [of ?db c ps]] by blast+
  have rest: "log_true ps (event_db ?db c) es" using Cons.prems(1) by (simp add: e)
  have grow: "lt_resolution_ordinal t < lt_resolution_ordinal t'"
    if "t \<in> set (issued_in c)" "t' \<in> set (run_permits (map snd es))"
      "lt_resolution_id t' = lt_resolution_id t" for t t'
  proof -
    have "log_true ps ?db [([], c)]" using Cons.prems(1) by (simp add: e)
    from that(1) obtain sql op d where c: "c = RunCall sql op (Inr (LoIssuance (CoreIssued d)))"
      "dp_token d = t" by (cases c rule: issued_in.cases) auto
    with Cons.prems(1) have "fst (late_step ?db (sql, op)) = Inr (LoIssuance (CoreIssued d))"
      by (simp add: e del: late_step.simps)
    then obtain p where op: "op = LateIssue p"
      "fst (issue_late_delete_permit_core p sql ?db) = Inr (CoreIssued d)"
      by (cases op) (auto simp: late_as_def split_def map_sum_def split: sum.splits)
    then have first: "issue_late_delete_permit_core p sql ?db = (Inr (CoreIssued d), event_db ?db c)"
      by (simp add: c(1) prod_eq_iff)
    from permit_in_log [OF rest after that(2)] obtain p' sql' db1 d' db2 where
      later: "late_rows_le (event_db ?db c) db1" "late_wf db1"
        "issue_late_delete_permit_core p' sql' db1 = (Inr (CoreIssued d'), db2)" "dp_token d' = t'"
      by blast
    show ?thesis
      using issue_after_issue [OF first run(2) later(2,1,3)] later(4) c(2) that(3) by simp
  qed
  have "length (issued_in c) \<le> 1" by (cases c rule: issued_in.cases) simp_all
  then have "issued_in c = [] \<or> (\<exists>t. issued_in c = [t])"
    by (cases "issued_in c") auto
  then show ?case
    using Cons.IH [OF rest after] grow by (auto simp: e sorted_wrt_append simp del: UN_iff set_concat)
qed simp

text \<open>So there are at most three of them.\<close>

lemma permits_bounded:
  assumes "log_true ps db es" and "outbox_wf db" and "late_wf db"
  shows "int (length (filter (\<lambda>t. lt_resolution_id t = i) (run_permits (map snd es))))
    \<le> MAX_LATE_DELETE_RESOLUTIONS"
proof -
  let ?ts = "filter (\<lambda>t. lt_resolution_id t = i) (run_permits (map snd es))"
  have slots: "lt_resolution_ordinal t \<in> {1..MAX_LATE_DELETE_RESOLUTIONS}" if "t \<in> set ?ts" for t
  proof -
    from that permit_in_log [OF assms, of t] obtain p sql db1 d db2 where
      "outbox_wf db1" "late_wf db1" and
      issue: "issue_late_delete_permit_core p sql db1 = (Inr (CoreIssued d), db2)" "dp_token d = t"
      by auto
    with issued_permit [OF issue(1)] show ?thesis by auto
  qed
  have "sorted_wrt (<) (map lt_resolution_ordinal ?ts)"
    unfolding sorted_wrt_map
    by (rule sorted_wrt_mono_rel [OF _ sorted_wrt_filter [OF permits_grow [OF assms]]]) auto
  then have "distinct (map lt_resolution_ordinal ?ts)" by (simp add: strict_sorted_iff)
  then have "length ?ts = card (lt_resolution_ordinal ` set ?ts)"
    by (metis distinct_card length_map set_map)
  also have "\<dots> \<le> card {1..MAX_LATE_DELETE_RESOLUTIONS}"
    by (intro card_mono image_subsetI slots) simp_all
  finally show ?thesis by (simp add: MAX_LATE_DELETE_RESOLUTIONS_def)
qed

text \<open>Every pass deletes under the permit it was issued.\<close>

lemma passes_log:
  shows "\<exists>es. rw_log (run_late_passes ps passes w) = rw_log w @ es
    \<and> log_true ps (rw_db w) es
    \<and> (\<forall>i. length (filter (\<lambda>t. lt_resolution_id t = i) (run_deletes (map snd es)))
          \<le> length (filter (\<lambda>t. lt_resolution_id t = i) (run_permits (map snd es))))"
proof (induction passes arbitrary: w)
  case (Cons pass passes)
  obtain owner env where pass: "pass = (owner, env)" by (cases pass)
  let ?run = "run_one_late_delete owner (env\<lparr>ru_sync := ps\<rparr>) w"
  obtain es where es: "rw_log (snd ?run) = rw_log w @ es" "rw_db (snd ?run) = log_db ps (rw_db w) es"
    "log_true ps (rw_db w) es" "pass_ok (map snd es)"
    using does_run_one [of "env\<lparr>ru_sync := ps\<rparr>" owner] unfolding run_does_def by auto
  have count: "length (filter (\<lambda>t. lt_resolution_id t = i) (run_deletes (map snd es)))
      \<le> length (filter (\<lambda>t. lt_resolution_id t = i) (run_permits (map snd es)))" for i
  proof (cases "run_deletes (map snd es) = []")
    case False
    then have "pass_deletes (map snd es)" using es(4) unfolding pass_ok_def by blast
    from pass_deletes_shape [OF this] obtain t c sample del pre post where
      "pass_deleting t c sample del pre post (map snd es)" by blast
    from pass_deleting_facts(1,3) [OF this] show ?thesis by (simp only: order_refl)
  qed (simp del: concat_eq_Nil_conv map_map)
  from Cons.IH [of "snd ?run"] obtain fs where
    "rw_log (run_late_passes ps passes (snd ?run)) = rw_log (snd ?run) @ fs"
    "log_true ps (rw_db (snd ?run)) fs"
    "\<forall>i. length (filter (\<lambda>t. lt_resolution_id t = i) (run_deletes (map snd fs)))
       \<le> length (filter (\<lambda>t. lt_resolution_id t = i) (run_permits (map snd fs)))" by blast
  with es count show ?case
    by (intro exI [of _ "es @ fs"]) (simp add: pass log_true_append add_mono)
qed simp

text \<open>
  C30: Whatever passes run, one after the other, and whatever the others run on the store between and
  during them, at most three deletes are sent to the index for one resolution.
\<close>

theorem three_deletes_at_most:
  assumes "outbox_wf (rw_db w)" and "late_wf (rw_db w)" and "rw_log w = []"
  shows "int (length (filter (\<lambda>t. lt_resolution_id t = i)
      (run_deletes (map snd (rw_log (run_late_passes ps passes w))))))
    \<le> MAX_LATE_DELETE_RESOLUTIONS"
proof -
  obtain es where es: "rw_log (run_late_passes ps passes w) = es" "log_true ps (rw_db w) es"
    "length (filter (\<lambda>t. lt_resolution_id t = i) (run_deletes (map snd es)))
       \<le> length (filter (\<lambda>t. lt_resolution_id t = i) (run_permits (map snd es)))"
    using passes_log [of ps passes w] assms(3) by auto
  show ?thesis using permits_bounded [OF es(2) assms(1,2), of i] es(1,3) by simp
qed

end
