(* ===== verification/Vector_Sync_Facts.thy ===== *)
theory Vector_Sync_Facts
  imports Vector_Sync_Run
begin

text \<open>
  What a granted claim, a reserved Attempt and a settled token say about the outbox before and
  after the operation that returned them.
\<close>

lemma update_outbox_Inr:
  "update_outbox e p f env n db = Inr (k, n', db') \<Longrightarrow>
   k = length (filter (p env (sq_now env n) db) (outbox db))
   \<and> db' = db\<lparr>outbox := map (\<lambda>r. if p env (sq_now env n) db r then f env n r else r) (outbox db)\<rparr>
   \<and> n' = Suc n"
  by (auto simp: update_outbox_def tx_stmt_Inr sql_update_def Let_def split: if_splits)

text \<open>An update that changed one row changed a row of the table.\<close>

lemma update_outbox_one:
  assumes "update_outbox e p f env n db = Inr (Suc 0, n', db')"
  obtains r where "r \<in> set (outbox db)" "p env (sq_now env n) db r"
    "f env n r \<in> set (outbox db')"
proof -
  from update_outbox_Inr [OF assms]
  have len: "length (filter (p env (sq_now env n) db) (outbox db)) = Suc 0"
    and db': "db' = db\<lparr>outbox := map (\<lambda>r. if p env (sq_now env n) db r then f env n r else r)
      (outbox db)\<rparr>" by simp_all
  from len obtain r where "r \<in> set (filter (p env (sq_now env n) db) (outbox db))"
    by (metis length_greater_0_conv list.set_sel(1) zero_less_Suc)
  then have r: "r \<in> set (outbox db)" "p env (sq_now env n) db r" by auto
  moreover from r have "f env n r \<in> set (outbox db')" by (force simp: db')
  ultimately show thesis using that by blast
qed

lemma distinct_key_unique:
  "distinct (map k xs) \<Longrightarrow> x \<in> set xs \<Longrightarrow> y \<in> set xs \<Longrightarrow> k x = k y \<Longrightarrow> x = y"
  by (auto simp: distinct_map inj_on_def)

lemma outbox_wf_id: "outbox_wf db \<Longrightarrow> distinct (map ob_id (outbox db))"
  by (simp add: outbox_wf_def)

lemma outbox_wf_seq: "outbox_wf db \<Longrightarrow> distinct (map ob_mutation_sequence (outbox db))"
  by (simp add: outbox_wf_def)

section \<open>Claims\<close>

lemma set_by_mutation_sequence [simp]: "set (by_mutation_sequence rows) = set rows"
  by (simp add: by_mutation_sequence_def)

lemma select_claim_candidate_Inr:
  assumes "select_claim_candidate g a cutoff env n db = Inr (Some c, n', db')"
  shows "db' = db \<and> c \<in> set (outbox db) \<and> (\<exists>due. claim_candidate g a due c)"
proof -
  let ?due = "case cutoff of None \<Rightarrow> Some (sq_now env n) | Some millis \<Rightarrow> sq_of_millis env millis"
  let ?rows = "by_mutation_sequence (filter (claim_candidate g a ?due) (outbox db))"
  from assms have "db' = db" and "Some c = (case ?rows of [] \<Rightarrow> None | r # _ \<Rightarrow> Some r)"
    by (simp_all add: select_claim_candidate_def tx_query_Inr Let_def)
  then obtain rs where "?rows = c # rs" by (cases ?rows) auto
  then have "c \<in> set ?rows" by simp
  with \<open>db' = db\<close> show ?thesis by auto
qed

text \<open>A granted claim describes the row of one candidate after its lease was written.\<close>

lemma claim_candidate_in_Some:
  assumes "claim_candidate_in c g d dim owner a fence env n db = Inr (Some cl, n', db')"
    and wf: "outbox_wf db" and c: "c \<in> set (outbox db)"
  obtains r' where "r' \<in> set (outbox db')" "fenced_claim_from_row r' d dim = Some cl"
    "ob_state r' = Processing" "ob_lease_owner r' = Some owner" "ob_lease_fence_epoch r' = Some fence"
    "ob_fenced_claim_epoch r' = ob_fenced_claim_epoch c + 1" "same_mutation c r'"
    "ob_attempt_count r' = ob_attempt_count c"
    "ob_last_marked_claim_epoch r' = ob_last_marked_claim_epoch c"
    "ob_claimed_generation_id r' = Some g" "ob_claimed_authority_epoch r' = a"
    "runtime_lease db' = runtime_lease db" "ob_identity_phase c \<noteq> InvalidIdentity"
proof -
  let ?unbound = "\<lambda>env n r. (ob_lease owner fence env n r)
      \<lparr>ob_claimed_generation_id := Some g, ob_claimed_authority_epoch := a,
       ob_last_send_disposition := None\<rparr>"
  from assms(1) obtain upd where
    "tx_bind upd (granted_claim_in c d dim) env n db = Inr (Some cl, n', db')"
    and which: "upd = claim_unbound_in c g a owner fence \<or> upd = claim_durable_in c g a owner fence"
    unfolding claim_candidate_in_def
    by (cases "ob_phase c") (auto simp: tx_bind_Inr split: if_splits)
  then obtain n1 where upd: "upd env n db = Inr (Suc 0, n1, db')"
    and cl: "Option.bind (find (\<lambda>r. ob_id r = ob_id c) (outbox db'))
          (\<lambda>r. fenced_claim_from_row r d dim) = Some cl"
    by (auto simp: tx_bind_Inr granted_claim_in_def tx_Inr split: if_splits)
  from assms(1) have idp: "ob_identity_phase c \<noteq> InvalidIdentity"
    unfolding claim_candidate_in_def by (auto simp: tx_Inr split: if_splits)
  from which upd obtain f where f: "f = ?unbound \<or> f = (\<lambda>env n r. ob_lease owner fence env n r)
        \<and> ob_claimed_generation_id c = Some g \<and> ob_claimed_authority_epoch c = a"
      "f env n c \<in> set (outbox db')"
  proof (elim disjE)
    assume u: "upd = claim_unbound_in c g a owner fence"
    from upd obtain r where "r \<in> set (outbox db)" "ob_id r = ob_id c"
        "?unbound env n r \<in> set (outbox db')"
      unfolding u claim_unbound_in_def by (rule update_outbox_one) auto
    with distinct_key_unique [OF outbox_wf_id [OF wf] _ c] that [of ?unbound] show thesis by metis
  next
    assume u: "upd = claim_durable_in c g a owner fence"
    from upd obtain r where "r \<in> set (outbox db)" "ob_id r = ob_id c"
        "ob_claimed_generation_id r = Some g" "ob_claimed_authority_epoch r = a"
        "ob_lease owner fence env n r \<in> set (outbox db')"
      unfolding u claim_durable_in_def by (rule update_outbox_one) auto
    with distinct_key_unique [OF outbox_wf_id [OF wf] _ c]
      that [of "\<lambda>env n r. ob_lease owner fence env n r"] show thesis by metis
  qed
  have le: "sync_le db db'"
    using which upd tx_relD [OF sync.rel_claim_unbound] tx_relD [OF sync.rel_claim_durable] by metis
  have lease: "runtime_lease db' = runtime_lease db"
    using which upd by (auto simp: claim_unbound_in_def claim_durable_in_def dest: update_outbox_Inr)
  from le wf have wf': "outbox_wf db'" by (simp add: outbox_le_def)
  from cl obtain r' where r': "find (\<lambda>r. ob_id r = ob_id c) (outbox db') = Some r'"
    "fenced_claim_from_row r' d dim = Some cl" by (auto simp: bind_eq_Some_conv)
  have "r' \<in> set (outbox db')" "ob_id r' = ob_id c" using find_Some_mem [OF r'(1)] by auto
  moreover have "ob_id (f env n c) = ob_id c" using f(1) by (auto simp: ob_lease_def)
  ultimately have eq: "r' = f env n c"
    by (intro distinct_key_unique [OF outbox_wf_id [OF wf'] _ f(2)]) simp_all
  have "ob_state r' = Processing \<and> ob_lease_owner r' = Some owner
      \<and> ob_lease_fence_epoch r' = Some fence \<and> ob_fenced_claim_epoch r' = ob_fenced_claim_epoch c + 1
      \<and> same_mutation c r' \<and> ob_attempt_count r' = ob_attempt_count c
      \<and> ob_last_marked_claim_epoch r' = ob_last_marked_claim_epoch c
      \<and> ob_claimed_generation_id r' = Some g \<and> ob_claimed_authority_epoch r' = a"
    using f(1) unfolding eq by (elim disjE conjE) (simp_all add: ob_lease_def same_mutation_def)
  moreover have "r' \<in> set (outbox db')" using f(2) eq by simp
  ultimately show thesis using that [of r'] r'(2) idp lease by blast
qed

lemma acquire_runtime_lease_held:
  assumes "acquire_runtime_lease owner env n db = Inr (fence, n', db')"
  shows "runtime_lease_held owner fence db'"
proof -
  have sel: "select_runtime_fence owner env n db = Inr (fence, n', db') \<Longrightarrow>
      runtime_lease_held owner fence db'" for env n db
    by (auto simp: select_runtime_fence_def tx_Inr runtime_lease_held_def
        split: option.splits if_splits)
  from assms show ?thesis
    unfolding acquire_runtime_lease_def
    by (auto simp: tx_bind_Inr split: if_splits intro: sel)
qed

lemma claim_tx_Some:
  assumes "claim_tx g d dim owner cutoff a env n db = Inr (Some cl, n', db')" and wf: "outbox_wf db"
  obtains dbm c r' fence due where "\<forall>rr. outbox_evolution rr \<longrightarrow> outbox_le rr db dbm" "outbox_wf dbm"
    "c \<in> set (outbox dbm)"
    "claim_candidate g a due c" "r' \<in> set (outbox db')"
    "fenced_claim_from_row r' d dim = Some cl"
    "ob_state r' = Processing" "ob_lease_owner r' = Some owner" "ob_lease_fence_epoch r' = Some fence"
    "ob_fenced_claim_epoch r' = ob_fenced_claim_epoch c + 1" "same_mutation c r'"
    "ob_attempt_count r' = ob_attempt_count c"
    "ob_last_marked_claim_epoch r' = ob_last_marked_claim_epoch c"
    "ob_claimed_generation_id r' = Some g" "ob_claimed_authority_epoch r' = a"
    "runtime_lease db' = runtime_lease dbm" "ob_identity_phase c \<noteq> InvalidIdentity"
proof -
  from assms(1) obtain n1 db1 n2 db2 n3 db3 n4 dbm c nm fence x y z where
    1: "acquire_runtime_lease owner env n db = Inr (fence, n1, db1)"
    and 2: "quarantine_malformed_target_bindings_in env n1 db1 = Inr (x, n2, db2)"
    and 3: "recover_expired_fenced_processing_in cutoff env n2 db2 = Inr (y, n3, db3)"
    and 4: "converge_exhausted_attempt_budget_in env n3 db3 = Inr (z, n4, dbm)"
    and sel: "select_claim_candidate g a cutoff env (Suc n4) dbm = Inr (Some c, nm, dbm)"
    and cand: "claim_candidate_in c g d dim owner a fence env nm dbm = Inr (Some cl, n', db')"
    unfolding claim_tx_def
    by (auto simp: tx_bind_Inr tx_query_Inr split: if_splits option.splits
        dest: select_claim_candidate_Inr) (metis select_claim_candidate_Inr)
  have le: "\<forall>rr. outbox_evolution rr \<longrightarrow> outbox_le rr db dbm"
  proof (intro allI impI)
    fix rr assume ev: "outbox_evolution rr"
    show "outbox_le rr db dbm"
      using tx_relD [OF outbox_evolution.rel_acquire_runtime_lease [OF ev] 1]
        tx_relD [OF outbox_evolution.rel_quarantine_malformed [OF ev] 2]
        tx_relD [OF outbox_evolution.rel_recover [OF ev] 3]
        tx_relD [OF outbox_evolution.rel_converge [OF ev] 4]
      by (meson outbox_evolution.le_trans [OF ev])
  qed
  with sync.outbox_evolution_axioms wf have wfm: "outbox_wf dbm" by (auto simp: outbox_le_def)
  from select_claim_candidate_Inr [OF sel] obtain due where
    c: "c \<in> set (outbox dbm)" "claim_candidate g a due c" by blast
  show thesis
    by (rule claim_candidate_in_Some [OF cand wfm c(1)]) (rule that [OF le wfm c])
qed

section \<open>Reservations\<close>

lemma fenced_claim_current_reads:
  "fenced_claim_current_in c env n db = Inr (b, n', db') \<Longrightarrow> db' = db"
  using tx_relD [OF rel_claim_current [OF tx_reads.tx_preorder_axioms]] by metis

lemma inspect_Some:
  assumes "inspect_fenced_generation_binding_with h c env n db = Inr (Some row, n', db')"
  shows "db' = db \<and> row \<in> set (outbox db) \<and> claim_row_matches c row
    \<and> binding_row_has_claim_processing_lease row c \<and> \<not> claim_binding_broken c row
    \<and> (\<exists>n1. fenced_claim_current_in c env n1 db = Inr (True, n', db))"
proof -
  from assms obtain n1 where
    find: "find (\<lambda>r. claim_row_matches c r \<and> ob_fenced_claim_epoch r = fc_claim_epoch c) (outbox db)
        = Some row"
    and lease: "binding_row_has_claim_processing_lease row c" "\<not> claim_binding_broken c row"
    and cur: "fenced_claim_current_in c env n1 db = Inr (True, n', db')"
    unfolding inspect_fenced_generation_binding_with_def generation_binding_row_for_claim_in_def
    by (auto simp: tx_bind_Inr tx_query_Inr split: option.splits if_splits)
  from find_Some_mem [OF find] lease cur fenced_claim_current_reads [OF cur] show ?thesis by auto
qed

text \<open>
  A reservation is the row's own: it was marked under this claim before, or it is marked now.
\<close>

definition reserve_update :: "outbox_row \<Rightarrow> nat sync_tx" where
  "reserve_update row = update_outbox VectorSyncUnavailable
     (\<lambda>env now db r. binding_row_identity_with_epochs row r
        \<and> ob_attempt_count r < MAX_VECTOR_SYNC_ATTEMPTS
        \<and> ob_last_marked_claim_epoch r < ob_fenced_claim_epoch r)
     (\<lambda>env n. ob_reserve (sq_now env n))"

lemma reserve_cases:
  assumes "reserve_fenced_attempt_in c env n db = Inr (Reserved t, n', db')"
  obtains row n1 where "inspect_fenced_generation_binding_in c env n db = Inr (Some row, n1, db)"
    "ob_fenced_claim_epoch row = fc_claim_epoch c" "\<not> is_delete_unknown_row row"
    "ob_identity_phase row = ClaimMarked" "t = fenced_attempt_token c (ob_attempt_count row)" "db' = db"
  | row n1 n2 where "inspect_fenced_generation_binding_in c env n db = Inr (Some row, n1, db)"
    "ob_fenced_claim_epoch row = fc_claim_epoch c" "\<not> is_delete_unknown_row row"
    "ob_identity_phase row = ClaimUnmarked" "t = fenced_attempt_token c (ob_attempt_count row + 1)"
    "reserve_update row env n1 db = Inr (Suc 0, n2, db')"
    "ob_attempt_count row < MAX_VECTOR_SYNC_ATTEMPTS"
proof -
  from assms obtain x n1 db1 where
    insp: "inspect_fenced_generation_binding_in c env n db = Inr (x, n1, db1)"
    and body: "(case x of None \<Rightarrow> tx_return ReservationLost
      | Some row \<Rightarrow>
         (if ob_fenced_claim_epoch row \<noteq> fc_claim_epoch c then tx_return ReservationLost
          else if is_delete_unknown_row row then tx_return ReservationLost
          else case ob_identity_phase row of
            InvalidIdentity \<Rightarrow>
              tx_bind (block_generation_binding_claim_identity_in c row)
                (\<lambda>_. tx_return ReservationLost)
          | NeverClaimed \<Rightarrow> tx_return ReservationLost
          | ClaimMarked \<Rightarrow> tx_return (Reserved (fenced_attempt_token c (ob_attempt_count row)))
          | ClaimUnmarked \<Rightarrow>
              (if ob_attempt_count row \<ge> MAX_VECTOR_SYNC_ATTEMPTS then
                 tx_bind (block_exhausted_attempt_budget_for_claim_in c row)
                   (\<lambda>_. tx_return BudgetExhausted)
               else
                 tx_bind (reserve_update row) (\<lambda>changed.
                 if changed \<noteq> 1 then tx_return ReservationLost
                 else case checked_add (ob_attempt_count row) 1 of
                        None \<Rightarrow> tx_fail VectorSyncUnavailable
                      | Some ordinal \<Rightarrow>
                          tx_return (Reserved (fenced_attempt_token c ordinal))))))
        env n1 db1 = Inr (Reserved t, n', db')"
    unfolding reserve_fenced_attempt_in_def reserve_update_def [symmetric] tx_bind_Inr by blast
  then obtain row where x: "x = Some row" by (cases x) simp_all
  from insp x inspect_Some have db1: "db1 = db"
    unfolding inspect_fenced_generation_binding_in_def by blast
  note body = body [unfolded x option.case db1]
  from body have ok: "ob_fenced_claim_epoch row = fc_claim_epoch c" "\<not> is_delete_unknown_row row"
    by (auto split: if_splits)
  note body = body [simplified ok, simplified]
  note insp = insp [unfolded x db1]
  show thesis
  proof (cases "ob_identity_phase row")
    case ClaimMarked
    with body show ?thesis using that(1) [OF insp ok ClaimMarked] by simp
  next
    case ClaimUnmarked
    with body have "ob_attempt_count row < MAX_VECTOR_SYNC_ATTEMPTS"
      and "\<exists>n2. reserve_update row env n1 db = Inr (Suc 0, n2, db')
        \<and> t = fenced_attempt_token c (ob_attempt_count row + 1)"
      by (auto simp: tx_bind_Inr checked_add_Some_iff split: if_splits option.splits)
    with that(2) [OF insp ok ClaimUnmarked] show ?thesis by blast
  qed (use body in \<open>auto simp: tx_bind_Inr\<close>)
qed

lemma reserve_Reserved:
  assumes res: "reserve_fenced_attempt_in c env n db = Inr (Reserved t, n', db')"
    and wf: "outbox_wf db"
  obtains r r' where "r \<in> set (outbox db)" "claim_row_matches c r" "\<not> is_delete_unknown_row r"
    "r' \<in> set (outbox db')" "same_mutation r r'" "at_claim t = c" "ob_attempt_count r' = at_ordinal t"
    "ob_last_marked_claim_epoch r' = fc_claim_epoch c" "ob_fenced_claim_epoch r' = fc_claim_epoch c"
    "1 \<le> at_ordinal t" "at_ordinal t \<le> MAX_VECTOR_SYNC_ATTEMPTS" "ob_state r' = Processing"
    "fc_action c = Upsert \<and> db' \<noteq> db \<longrightarrow> ob_last_send_disposition r' = Some POSSIBLY_SENT"
  using res
proof (cases rule: reserve_cases)
  case (1 row n1)
  then show thesis
    using inspect_Some [OF 1(1) [unfolded inspect_fenced_generation_binding_in_def]]
    by (intro that [of row row])
      (auto simp: fenced_attempt_token_def ob_identity_phase_def identity_ClaimMarked_iff
        same_mutation_def binding_row_has_claim_processing_lease_def)
next
  case (2 row n1 n2)
  from inspect_Some [OF 2(1) [unfolded inspect_fenced_generation_binding_in_def]]
  have row: "row \<in> set (outbox db)" "claim_row_matches c row"
    "binding_row_has_claim_processing_lease row c" by auto
  from 2(6) obtain r now where r: "r \<in> set (outbox db)" "binding_row_identity_with_epochs row r"
    "ob_reserve now r \<in> set (outbox db')"
    unfolding reserve_update_def by (rule update_outbox_one) auto
  then have "r = row"
    using distinct_key_unique [OF outbox_wf_id [OF wf] r(1) row(1)]
    by (simp add: binding_row_identity_with_epochs_def binding_row_identity_def)
  from 2(4) have "0 \<le> ob_attempt_count row"
    by (simp add: ob_identity_phase_def identity_ClaimUnmarked_iff)
  with 2 row r \<open>r = row\<close> show thesis
    by (intro that [of row "ob_reserve now r"])
      (auto simp: fenced_attempt_token_def ob_reserve_def binding_row_identity_with_epochs_def
        binding_row_identity_def binding_row_has_claim_processing_lease_def same_mutation_def
        claim_row_matches_def)
qed

section \<open>Settling\<close>

text \<open>A token that its mutation's row no longer supports.\<close>

definition token_seq :: "attempt_token \<Rightarrow> int" where
  "token_seq t = fc_mutation_sequence (at_claim t)"

definition token_epoch :: "attempt_token \<Rightarrow> int" where
  "token_epoch t = fc_claim_epoch (at_claim t)"

definition token_settled :: "attempt_token \<Rightarrow> sync_db \<Rightarrow> bool" where
  "token_settled t db \<longleftrightarrow>
     (\<exists>s. mutation_clock db = Some s \<and> token_seq t \<le> s)
     \<and> (\<forall>r \<in> set (outbox db). ob_mutation_sequence r = token_seq t \<longrightarrow>
          ob_fenced_claim_epoch r > token_epoch t
          \<or> ob_fenced_claim_epoch r = token_epoch t \<and> ob_state r \<noteq> Processing)"

lemma token_settled_le:
  assumes le: "sync_le db db'" and st: "token_settled t db"
  shows "token_settled t db'"
  unfolding token_settled_def
proof (intro conjI ballI impI)
  from st obtain s where s: "mutation_clock db = Some s" "token_seq t \<le> s"
    by (auto simp: token_settled_def)
  with le obtain s' where "mutation_clock db' = Some s'" "s \<le> s'"
    by (auto simp: outbox_le_def clock_le_def)
  with s show "\<exists>s. mutation_clock db' = Some s \<and> token_seq t \<le> s" by auto
  fix r' assume r': "r' \<in> set (outbox db')" and seq: "ob_mutation_sequence r' = token_seq t"
  with le s obtain r where r: "r \<in> set (outbox db)" "row_le r r'"
    unfolding outbox_le_def rows_le_def by force
  then have "ob_mutation_sequence r = token_seq t"
    using seq by (simp add: row_le_def same_mutation_def)
  with st r(1) have "ob_fenced_claim_epoch r > token_epoch t
      \<or> ob_fenced_claim_epoch r = token_epoch t \<and> ob_state r \<noteq> Processing"
    by (simp add: token_settled_def)
  with r(2) show "ob_fenced_claim_epoch r' > token_epoch t
      \<or> ob_fenced_claim_epoch r' = token_epoch t \<and> ob_state r' \<noteq> Processing"
    unfolding row_le_def by force
qed

lemma token_identity_fields:
  "token_finalize_identity t now db r \<Longrightarrow>
   ob_id r = fc_id (at_claim t) \<and> ob_mutation_sequence r = token_seq t
   \<and> ob_fenced_claim_epoch r = token_epoch t \<and> ob_last_marked_claim_epoch r = token_epoch t
   \<and> ob_state r = Processing \<and> ob_attempt_count r = at_ordinal t"
  by (simp add: token_finalize_identity_def token_seq_def token_epoch_def claim_row_matches_def Let_def)

lemma token_settled_not_live:
  "token_settled t db \<Longrightarrow> r \<in> set (outbox db) \<Longrightarrow> \<not> token_finalize_identity t now db r"
  using token_identity_fields by (fastforce simp: token_settled_def)

text \<open>Tokens of one claim epoch of one mutation settle together.\<close>

lemma token_settled_cong:
  "token_seq t' = token_seq t \<Longrightarrow> token_epoch t' = token_epoch t \<Longrightarrow>
   token_settled t' db = token_settled t db"
  by (simp add: token_settled_def)

lemma token_current_reads:
  "fenced_attempt_token_current_in c t env n db = Inr (b, n', db') \<Longrightarrow> db' = db"
  using tx_relD [OF rel_token_current [OF tx_reads.tx_preorder_axioms]] by metis

lemma row_seq_le_clock:
  "outbox_wf db \<Longrightarrow> r \<in> set (outbox db) \<Longrightarrow>
   \<exists>s. mutation_clock db = Some s \<and> ob_mutation_sequence r \<le> s"
  by (auto simp: outbox_wf_def)

lemma length_filter_conj_le:
  "length (filter (\<lambda>x. P x \<and> Q x) xs) \<le> length (filter P xs)"
  by (induction xs) auto

lemma generation_usable_items [simp]:
  "generation_usable g d dim a (db\<lparr>items := is\<rparr>) = generation_usable g d dim a db"
  by (cases a) (simp_all add: generation_usable_def)

lemma token_identity_items [simp]:
  "token_finalize_identity t now (db\<lparr>items := is\<rparr>) = token_finalize_identity t now db"
  by (intro ext) (simp add: token_finalize_identity_def runtime_lease_held_def Let_def)

subsection \<open>Success\<close>

lemma delete_attempt_Inr:
  assumes del: "delete_fenced_attempt_outbox_in t now env n db = Inr (res, n', db')"
    and wf: "outbox_wf db"
  shows "db' = db\<lparr>outbox := filter (\<lambda>r. \<not> token_finalize_identity t now db r) (outbox db)\<rparr>"
    and "res = (if \<exists>r \<in> set (outbox db). token_finalize_identity t now db r
                then FinalizeApplied else FinalizeLost)"
proof -
  from del show "db' = db\<lparr>outbox := filter (\<lambda>r. \<not> token_finalize_identity t now db r) (outbox db)\<rparr>"
    by (auto simp: delete_fenced_attempt_outbox_in_def delete_outbox_def tx_Inr)
  let ?rows = "filter (token_finalize_identity t now db) (outbox db)"
  have "length ?rows = length (filter (\<lambda>r. ob_id r = fc_id (at_claim t)
      \<and> token_finalize_identity t now db r) (outbox db))"
    by (rule arg_cong [where f = length], rule filter_cong [OF refl]) (use token_identity_fields in blast)
  also have "\<dots> \<le> length (filter (\<lambda>r. ob_id r = fc_id (at_claim t)) (outbox db))"
    by (rule length_filter_conj_le)
  also have "\<dots> \<le> 1" by (rule count_key_le_one [OF outbox_wf_id [OF wf]])
  finally have "length ?rows = 1 \<longleftrightarrow> ?rows \<noteq> []" by (cases ?rows) auto
  with del show "res = (if \<exists>r \<in> set (outbox db). token_finalize_identity t now db r
                then FinalizeApplied else FinalizeLost)"
    by (auto simp: delete_fenced_attempt_outbox_in_def delete_outbox_def tx_Inr filter_empty_conv)
qed

lemma delete_attempt_none:
  assumes "delete_fenced_attempt_outbox_in t now env n db = Inr (res, n', db')"
    and "\<not> (\<exists>r \<in> set (outbox db). token_finalize_identity t now db r)"
  shows "db' = db \<and> res = FinalizeLost"
proof -
  from assms(2) have "filter (\<lambda>r. \<not> token_finalize_identity t now db r) (outbox db) = outbox db"
    "filter (token_finalize_identity t now db) (outbox db) = []"
    by (simp_all add: filter_id_conv filter_empty_conv)
  with assms(1) show ?thesis
    by (auto simp: delete_fenced_attempt_outbox_in_def delete_outbox_def tx_Inr)
qed

text \<open>
  The finalizer either finds the token current and applies everything, or leaves the tables as
  they are.
\<close>

lemma finalize_tx_Inr:
  assumes fin: "finalize_tx t env n db = Inr (res, n', db')" and wf: "outbox_wf db"
  obtains (lost) "res = FinalizeLost" "db' = db"
    | (applied) now r where "res = FinalizeApplied" "r \<in> set (outbox db)"
        "token_finalize_identity t now db r"
        "outbox db' = filter (\<lambda>r. \<not> token_finalize_identity t now db r) (outbox db)"
        "mutation_clock db' = mutation_clock db"
        "fc_action (at_claim t) = Delete \<Longrightarrow> items db' = filter (\<lambda>i. item_key i \<noteq>
           (fc_generation_id (at_claim t), fc_life_id (at_claim t), fc_memory_id (at_claim t))) (items db)"
        "fc_action (at_claim t) = Upsert \<Longrightarrow> \<exists>revision content_hash at.
           fc_target_revision (at_claim t) = Some revision
           \<and> fc_target_content_hash (at_claim t) = Some content_hash
           \<and> items db' = item_put \<lparr>gi_generation_id = fc_generation_id (at_claim t),
               gi_life_id = fc_life_id (at_claim t), gi_memory_id = fc_memory_id (at_claim t),
               gi_memory_revision = revision, gi_content_hash = content_hash,
               gi_updated_at = at\<rparr> (items db)"
proof -
  from fin obtain current n1 where
    cur: "fenced_attempt_token_current_in (claim_projection t) t env n db = Inr (current, n1, db)"
    unfolding finalize_tx_def tx_bind_Inr using token_current_reads by blast
  show thesis
  proof (cases current)
    case False
    with fin cur show ?thesis by (intro lost) (auto simp: finalize_tx_def tx_Inr)
  next
    case True
    let ?c = "at_claim t"
    obtain now where now: "now = sq_now env n1" by simp
    show ?thesis
    proof (cases "\<exists>r \<in> set (outbox db). token_finalize_identity t now db r")
      case False
      then have "\<not> list_ex (token_finalize_identity t now db) (outbox db)" by (simp add: list_ex_iff)
      then have "res = FinalizeLost \<and> db' = db \<or> (\<exists>n2.
          delete_fenced_attempt_outbox_in t now env n2 db = Inr (res, n', db'))"
        using fin cur True now
        by (auto simp: finalize_tx_def tx_Inr authoritative_now_in_def upsert_generation_item_def
            delete_generation_item_def split: sync_action.splits if_splits)
      then show ?thesis using delete_attempt_none [OF _ False] lost by blast
    next
      case live: True
      then obtain r where r: "r \<in> set (outbox db)" "token_finalize_identity t now db r" by blast
      then have ex: "list_ex (token_finalize_identity t now db) (outbox db)" by (auto simp: list_ex_iff)
      have wf_items: "outbox_wf (db\<lparr>items := is\<rparr>)" for "is" using wf by (simp add: outbox_wf_def)
      show ?thesis
      proof (cases "fc_action ?c")
        case Delete
        with fin cur True now ex obtain n2 where
          "delete_fenced_attempt_outbox_in t now env n2 (db\<lparr>items := filter (\<lambda>i. item_key i \<noteq>
             (fc_generation_id ?c, fc_life_id ?c, fc_memory_id ?c)) (items db)\<rparr>) = Inr (res, n', db')"
          by (auto simp: finalize_tx_def tx_Inr authoritative_now_in_def delete_generation_item_def Let_def)
        from delete_attempt_Inr [OF this wf_items] live r show ?thesis
          by (intro applied [of r now]) (auto simp: Delete)
      next
        case Upsert
        with fin cur True now ex obtain n2 n3 revision content_hash where
          tgt: "fc_target_revision ?c = Some revision" "fc_target_content_hash ?c = Some content_hash"
          and del: "delete_fenced_attempt_outbox_in t now env n2 (db\<lparr>items := item_put
             \<lparr>gi_generation_id = fc_generation_id ?c, gi_life_id = fc_life_id ?c,
              gi_memory_id = fc_memory_id ?c, gi_memory_revision = revision,
              gi_content_hash = content_hash, gi_updated_at = sq_now env n3\<rparr> (items db)\<rparr>)
            = Inr (res, n', db')"
          by (auto simp: finalize_tx_def tx_Inr authoritative_now_in_def upsert_generation_item_def
              split: if_splits)
        from delete_attempt_Inr [OF del wf_items] live r tgt show ?thesis
          by (intro applied [of r now]) (auto simp: Upsert)
      qed
    qed
  qed
qed

subsection \<open>The witness and failures\<close>

text \<open>An update under the identity of a token changes the token's row or nothing.\<close>

lemma token_update_cases:
  assumes upd: "update_outbox e (\<lambda>env now db. token_finalize_identity t current_now db) f env n db
      = Inr (changed, n', db')"
    and wf: "outbox_wf db"
  obtains (none) "changed = 0" "db' = db"
    | (one) r where "changed = 1" "r \<in> set (outbox db)" "token_finalize_identity t current_now db r"
        "outbox db' = map (\<lambda>q. if q = r then f env n r else q) (outbox db)"
        "mutation_clock db' = mutation_clock db" "items db' = items db" "late_rows db' = late_rows db"
        "generations db' = generations db"
proof -
  let ?p = "token_finalize_identity t current_now db"
  from update_outbox_Inr [OF upd] have
    k: "changed = length (filter ?p (outbox db))"
    and db': "db' = db\<lparr>outbox := map (\<lambda>q. if ?p q then f env n q else q) (outbox db)\<rparr>" by simp_all
  show thesis
  proof (cases "\<exists>r \<in> set (outbox db). ?p r")
    case False
    then have "map (\<lambda>q. if ?p q then f env n q else q) (outbox db) = outbox db"
      by (intro map_idI) auto
    with False k db' none show ?thesis by (simp add: filter_empty_conv)
  next
    case True
    then obtain r where r: "r \<in> set (outbox db)" "?p r" by blast
    have only: "?p q \<longleftrightarrow> q = r" if "q \<in> set (outbox db)" for q
      using distinct_key_unique [OF outbox_wf_id [OF wf] that r(1)] r(2)
        token_identity_fields by metis
    then have "map (\<lambda>q. if ?p q then f env n q else q) (outbox db)
        = map (\<lambda>q. if q = r then f env n r else q) (outbox db)" by simp
    moreover have "distinct (filter ?p (outbox db))" "set (filter ?p (outbox db)) = {r}"
      using wf only r by (auto simp: outbox_wf_def distinct_map)
    then have "changed = 1" unfolding k by (metis distinct_card card.empty card_insert_disjoint
          finite.emptyI empty_iff One_nat_def)
    ultimately show ?thesis using one [OF _ r] db' by simp
  qed
qed

lemma ensure_frame:
  assumes "ensure_runtime_resolution_for_delete_unknown_in i env n db = Inr (x, n', db')"
  shows "outbox db' = outbox db \<and> mutation_clock db' = mutation_clock db \<and> items db' = items db
    \<and> runtime_lease db' = runtime_lease db"
  using assms
  by (auto simp: ensure_runtime_resolution_for_delete_unknown_in_def late_insert_def tx_Inr Let_def
      split: option.splits if_splits)

lemma witness_Inr:
  assumes mark: "mark_fenced_delete_send_witness t env db = (Inr res, db')" and wf: "outbox_wf db"
  obtains (lost) "res = WitnessLost" "db' = db"
    | (marked) now r where "res = WitnessMarked" "fc_action (at_claim t) = Delete"
        "r \<in> set (outbox db)" "token_finalize_identity t now db r"
        "outbox db' = map (\<lambda>q. if q = r then ob_witness now r else q) (outbox db)"
        "mutation_clock db' = mutation_clock db" "items db' = items db"
proof (cases "fc_action (at_claim t) = Delete")
  case False
  with mark show thesis by (intro lost) (auto simp: mark_fenced_delete_send_witness_def)
next
  case True
  let ?upd = "\<lambda>now. update_outbox VectorSyncUnavailable
    (\<lambda>env _ db. token_finalize_identity t now db) (\<lambda>env n. ob_witness now)"
  from mark True obtain now changed n1 n2 n3 db1 where
    upd: "?upd now env n1 db = Inr (changed, n2, db1)"
    and rest: "changed = 1 \<and> res = WitnessMarked
          \<and> ensure_runtime_resolution_for_delete_unknown_in (fc_id (at_claim t)) env n2 db1
            = Inr ((), n3, db')
        \<or> changed \<noteq> 1 \<and> res = WitnessLost \<and> db' = db1"
    by (auto simp: mark_fenced_delete_send_witness_def run_tx_Inr authoritative_now_in_def tx_bind_Inr
        tx_query_Inr split: if_splits)
  from upd wf show thesis
  proof (cases rule: token_update_cases)
    case none
    with rest lost show ?thesis by simp
  next
    case (one r)
    with rest have ens: "ensure_runtime_resolution_for_delete_unknown_in (fc_id (at_claim t)) env n2 db1
            = Inr ((), n3, db')" and "res = WitnessMarked" by auto
    with ensure_frame [OF ens] one True show ?thesis by (intro marked [of r now]) simp_all
  qed
qed

lemma failure_resolution_frame:
  assumes "failure_resolution_in t env n db = Inr (x, n', db')"
  shows "outbox db' = outbox db \<and> mutation_clock db' = mutation_clock db \<and> items db' = items db
    \<and> runtime_lease db' = runtime_lease db"
  using assms ensure_frame
  by (auto simp: failure_resolution_in_def tx_Inr Let_def split: if_splits)

text \<open>The row after a settled failure.\<close>

definition failed_row :: "attempt_token \<Rightarrow> string \<Rightarrow> string option \<Rightarrow> outbox_row \<Rightarrow> outbox_row \<Rightarrow> bool" where
  "failed_row t code disposition r r' \<longleftrightarrow>
     same_mutation r r' \<and> ob_state r' \<in> {RetryWait, Blocked}
     \<and> ob_lease_owner r' = None \<and> ob_lease_fence_epoch r' = None \<and> ob_lease_expires_at r' = None
     \<and> ob_fenced_claim_epoch r' = token_epoch t \<and> ob_last_marked_claim_epoch r' = token_epoch t
     \<and> ob_attempt_count r' = at_ordinal t
     \<and> ob_last_error_code r' = Some (safe_error_code code)
     \<and> ob_last_send_disposition r' = disposition"

lemma failure_tx_Inr:
  assumes fail: "failure_tx t code decision disposition now_ms cutoff env n db = Inr (res, n', db')"
    and wf: "outbox_wf db"
  obtains (lost) "res = FailureLost" "outbox db' = outbox db" "items db' = items db"
      "mutation_clock db' = mutation_clock db"
    | (applied) now r r' where "res \<noteq> FailureLost" "r \<in> set (outbox db)"
        "token_finalize_identity t now db r"
        "outbox db' = map (\<lambda>q. if q = r then r' else q) (outbox db)"
        "failed_row t code disposition r r'" "mutation_clock db' = mutation_clock db"
        "items db' = items db"
        "res = FailureBlocked \<longleftrightarrow> ob_state r' = Blocked"
        "res = FailureBlocked \<longleftrightarrow> retry_at decision now_ms cutoff = None"
proof -
  from fail obtain current n1 where
    cur: "fenced_attempt_token_current_in (claim_projection t) t env n db = Inr (current, n1, db)"
    unfolding failure_tx_def tx_bind_Inr using token_current_reads by blast
  show thesis
  proof (cases current)
    case False
    with fail cur show ?thesis by (intro lost) (auto simp: failure_tx_def tx_Inr)
  next
    case True
    let ?next = "retry_at decision now_ms cutoff"
    from fail cur True obtain now changed n2 n3 n4 db1 where
      upd: "fail_update t (safe_error_code code) disposition now ?next env n2 db = Inr (changed, n3, db1)"
      and late: "failure_resolution_in t env n3 db1 = Inr ((), n4, db')"
      and res: "res = (if changed \<noteq> 1 then FailureLost
                     else case ?next of Some millis \<Rightarrow> RetryScheduled millis | None \<Rightarrow> FailureBlocked)"
      by (auto simp: failure_tx_def authoritative_now_in_def tx_bind_Inr tx_query_Inr Let_def)
    note frame = failure_resolution_frame [OF late]
    from upd [unfolded fail_update_def] wf show ?thesis
    proof (cases rule: token_update_cases)
      case none
      with frame res lost show ?thesis by simp
    next
      case (one r)
      from one(3) have "failed_row t code disposition r
          ((case ?next of
             Some millis \<Rightarrow>
               (ob_release RetryWait (sq_now env n2) r)\<lparr>ob_next_attempt_at := sq_of_millis env millis\<rparr>
           | None \<Rightarrow> ob_release Blocked (sq_now env n2) r)
          \<lparr>ob_last_error_code := Some (safe_error_code code), ob_last_send_disposition := disposition\<rparr>)"
        by (cases ?next) (auto simp: failed_row_def ob_release_def same_mutation_def
            dest!: token_identity_fields)
      then show ?thesis using one frame res
        by (intro applied [of r now]) (auto simp: ob_release_def split: option.splits)
    qed
  qed
qed

end
