(* ===== verification/Vector_Syncs.thy ===== *)
theory Vector_Syncs
  imports Vector_Sync_Facts
begin

text \<open>
  The guarantees of the vector-sync outbox over any run of its operations: which claims and tokens
  it hands out, when a token can settle, what a possibly sent write forbids, and what a new mutation
  does to the old one.
\<close>

section \<open>Claims of one mutation\<close>

text \<open>A granted claim describes a row of the state it leaves.\<close>

lemma claim_step_Some:
  assumes "sync_step ps db (env, OpClaim g d dim owner cutoff a) = (Inr (OutClaim (Some c)), db')"
    and wf: "outbox_wf db"
  obtains dbm s r due where "\<forall>rr. outbox_evolution rr \<longrightarrow> outbox_le rr db dbm" "outbox_wf dbm" "s \<in> set (outbox dbm)"
    "claim_candidate g a due s" "r \<in> set (outbox db')" "same_mutation s r"
    "ob_fenced_claim_epoch r = fc_claim_epoch c"
    "fc_claim_epoch c = ob_fenced_claim_epoch s + 1" "ob_mutation_sequence r = fc_mutation_sequence c"
    "ob_target_revision r = fc_target_revision c" "ob_target_content_hash r = fc_target_content_hash c"
    "ob_life_id r = fc_life_id c" "ob_memory_id r = fc_memory_id c" "ob_action r = fc_action c"
    "fc_lease_owner c = owner" "ob_identity_phase s \<noteq> InvalidIdentity"
    "ob_state r = Processing" "ob_id r = fc_id c" "runtime_lease db' = runtime_lease dbm"
    "ob_lease_fence_epoch r = Some (fc_fence_epoch c)"
proof -
  from assms(1) have "claim_one_fenced_vector_sync g d dim owner cutoff a env db = (Inr (Some c), db')"
    by (simp add: as_outcome_Inr)
  then obtain n' where "claim_tx g d dim owner cutoff a env 1 db = Inr (Some c, n', db')"
    by (auto simp: claim_one_fenced_vector_sync_def run_tx_Inr split: if_splits)
  then show thesis
    by (rule claim_tx_Some [OF _ wf])
      (rule that, auto simp: fenced_claim_from_row_def split: option.splits)
qed

text \<open>
  C18: Two claims that are granted for the same mutation, with any operations in between, are for the
  same target, and the later one has the larger claim epoch: no two holders can present the same
  claim.
\<close>

theorem claim_epoch_is_new:
  assumes "outbox_wf db"
    and "sync_step ps db (env, OpClaim g d dim owner cutoff a) = (Inr (OutClaim (Some c)), db1)"
    and "sync_step ps (snd (sync_run ps db1 ops)) (env', OpClaim g' d' dim' owner' cutoff' a')
      = (Inr (OutClaim (Some c')), db2)"
    and "fc_mutation_sequence c' = fc_mutation_sequence c"
  shows "fc_claim_epoch c < fc_claim_epoch c'
      \<and> fc_life_id c' = fc_life_id c \<and> fc_memory_id c' = fc_memory_id c \<and> fc_action c' = fc_action c
      \<and> fc_target_revision c' = fc_target_revision c
      \<and> fc_target_content_hash c' = fc_target_content_hash c"
proof -
  from assms(1,2) have wf1: "outbox_wf db1" using sync_step_wf by (metis snd_conv)
  obtain r where r: "r \<in> set (outbox db1)" "ob_fenced_claim_epoch r = fc_claim_epoch c"
    "ob_mutation_sequence r = fc_mutation_sequence c" "ob_target_revision r = fc_target_revision c"
    "ob_target_content_hash r = fc_target_content_hash c" "ob_life_id r = fc_life_id c"
    "ob_memory_id r = fc_memory_id c" "ob_action r = fc_action c"
    by (rule claim_step_Some [OF assms(2,1)]) blast
  from wf1 have wf: "outbox_wf (snd (sync_run ps db1 ops))" by (rule sync_run_wf)
  obtain dbm s r' where le: "\<forall>rr. outbox_evolution rr \<longrightarrow> outbox_le rr (snd (sync_run ps db1 ops)) dbm"
    and s: "s \<in> set (outbox dbm)"
    "same_mutation s r'" "fc_claim_epoch c' = ob_fenced_claim_epoch s + 1"
    "ob_mutation_sequence r' = fc_mutation_sequence c'" "ob_target_revision r' = fc_target_revision c'"
    "ob_target_content_hash r' = fc_target_content_hash c'" "ob_life_id r' = fc_life_id c'"
    "ob_memory_id r' = fc_memory_id c'" "ob_action r' = fc_action c'"
    by (rule claim_step_Some [OF assms(3) wf]) blast
  have "sync_le db1 dbm"
    using sync_run_le le sync.outbox_evolution_axioms sync.pre_trans by blast
  moreover have "ob_mutation_sequence s = ob_mutation_sequence r"
    using s(2,4) r(3) assms(4) by (simp add: same_mutation_def)
  ultimately have row: "row_le r s" using sync_le_row [OF _ wf1 r(1) s(1)] by blast
  with s(3) r(2) have "fc_claim_epoch c < fc_claim_epoch c'" by (simp add: row_le_def)
  moreover from row s(2) have "same_mutation r s" "same_mutation s r'" by (simp_all add: row_le_def)
  ultimately show "fc_claim_epoch c < fc_claim_epoch c'
      \<and> fc_life_id c' = fc_life_id c \<and> fc_memory_id c' = fc_memory_id c \<and> fc_action c' = fc_action c
      \<and> fc_target_revision c' = fc_target_revision c
      \<and> fc_target_content_hash c' = fc_target_content_hash c"
    using r(4-) s(5-) by (simp add: same_mutation_def)
qed

section \<open>Reservations\<close>

lemma reserve_step_Reserved:
  assumes "sync_step ps db (env, OpReserve c) = (Inr (OutReservation (Reserved t)), db')"
    and wf: "outbox_wf db"
  obtains r r' where "r \<in> set (outbox db)" "r' \<in> set (outbox db')" "same_mutation r r'"
    "at_claim t = c" "ob_attempt_count r' = at_ordinal t" "ob_mutation_sequence r' = token_seq t"
    "ob_last_marked_claim_epoch r' = token_epoch t" "1 \<le> at_ordinal t"
    "at_ordinal t \<le> MAX_VECTOR_SYNC_ATTEMPTS"
    "fc_action c = Upsert \<and> db' \<noteq> db \<longrightarrow> ob_last_send_disposition r' = Some POSSIBLY_SENT"
proof -
  from assms(1) obtain n' where "reserve_fenced_attempt_in c env 1 db = Inr (Reserved t, n', db')"
    by (auto simp: as_outcome_Inr reserve_fenced_attempt_def run_tx_Inr)
  then show thesis
    by (rule reserve_Reserved [OF _ wf])
      (rule that, auto simp: token_seq_def token_epoch_def claim_row_matches_def same_mutation_def)
qed

text \<open>
  C19: Every reserved Attempt has an ordinal from 1 to 5. Of two Attempts of one mutation, either both
  are the same one, reserved twice under one claim, or the later one has a larger ordinal and was
  reserved under a later claim: whatever runs in between, a mutation gets at most five Attempts, and
  at most one per claim.
\<close>

theorem attempts_are_bounded:
  assumes "outbox_wf db"
    and "sync_step ps db (env, OpReserve c) = (Inr (OutReservation (Reserved t)), db1)"
    and "sync_step ps (snd (sync_run ps db1 ops)) (env', OpReserve c')
      = (Inr (OutReservation (Reserved t')), db2)"
    and "token_seq t' = token_seq t"
  shows "1 \<le> at_ordinal t \<and> at_ordinal t' \<le> MAX_VECTOR_SYNC_ATTEMPTS
    \<and> (at_ordinal t' = at_ordinal t \<and> token_epoch t' = token_epoch t
       \<or> at_ordinal t < at_ordinal t' \<and> token_epoch t < token_epoch t')"
proof -
  let ?mid = "snd (sync_run ps db1 ops)"
  from assms(1,2) have wf1: "outbox_wf db1" using sync_step_wf by (metis snd_conv)
  obtain r where r: "r \<in> set (outbox db1)" "ob_attempt_count r = at_ordinal t"
    "ob_mutation_sequence r = token_seq t" "ob_last_marked_claim_epoch r = token_epoch t"
    "1 \<le> at_ordinal t"
    by (rule reserve_step_Reserved [OF assms(2,1)]) blast
  obtain r' where r': "r' \<in> set (outbox db2)" "ob_attempt_count r' = at_ordinal t'"
    "ob_mutation_sequence r' = token_seq t'" "ob_last_marked_claim_epoch r' = token_epoch t'"
    "at_ordinal t' \<le> MAX_VECTOR_SYNC_ATTEMPTS"
    by (rule reserve_step_Reserved [OF assms(3) sync_run_wf [OF wf1]]) blast
  have "sync_le ?mid db2" using sync_step_le assms(3) by (metis snd_conv)
  then have "sync_le db1 db2" using sync_run_le sync.pre_trans by blast
  then have "row_le r r'"
    by (rule sync_le_row [OF _ wf1 r(1) r'(1)]) (simp add: r r' assms(4))
  then have "at_ordinal t' = at_ordinal t \<and> token_epoch t' = token_epoch t
      \<or> at_ordinal t < at_ordinal t' \<and> token_epoch t < token_epoch t'"
    by (auto simp: row_le_def r r')
  with r(5) r'(5) show ?thesis by blast
qed

section \<open>Settling\<close>

text \<open>A token that is dead: its row is gone or has left the claim, or its holder lost the lease.\<close>

definition token_dead :: "attempt_token \<Rightarrow> sync_db \<Rightarrow> bool" where
  "token_dead t db \<longleftrightarrow>
     token_settled t db
     \<or> \<not> runtime_lease_held (fc_lease_owner (at_claim t)) (fc_fence_epoch (at_claim t)) db"

definition settling_op :: "attempt_token \<Rightarrow> sync_op \<Rightarrow> bool" where
  "settling_op t op \<longleftrightarrow> op = OpFinalize t \<or> op = OpWitness t \<or> failing_token op = Some t"

definition settled_outcome :: "sync_outcome \<Rightarrow> bool" where
  "settled_outcome out \<longleftrightarrow>
     out \<notin> {OutFinalize FinalizeLost, OutWitness WitnessLost, OutFailure FailureLost}"

lemma token_dead_identity:
  "token_dead t db \<Longrightarrow> r \<in> set (outbox db) \<Longrightarrow> \<not> token_finalize_identity t now db r"
  using token_settled_not_live by (auto simp: token_dead_def token_finalize_identity_def Let_def)

lemma token_dead_not_current:
  assumes "fenced_attempt_token_current_in (claim_projection t) t env n db = Inr (b, n', db')"
    and dead: "token_dead t db"
  shows "\<not> b \<and> db' = db"
proof (rule ccontr)
  assume "\<not> (\<not> b \<and> db' = db)"
  with token_current_reads [OF assms(1)] have b by blast
  with assms(1) obtain row n1 db1 where
    "inspect_fenced_generation_binding_read_only_in (at_claim t) env n db = Inr (Some row, n1, db1)"
    "ob_fenced_claim_epoch row = token_epoch t"
    by (auto simp: fenced_attempt_token_current_in_def claim_projection_def Let_def tx_Inr token_epoch_def
        split: option.splits if_splits)
  from inspect_Some [OF this(1) [unfolded inspect_fenced_generation_binding_read_only_in_def]] this(2)
  obtain n2 where row: "row \<in> set (outbox db)" "claim_row_matches (at_claim t) row"
    "binding_row_has_claim_processing_lease row (at_claim t)"
    and cur: "fenced_claim_current_in (at_claim t) env n2 db = Inr (True, n1, db)"
    by blast
  from cur have "runtime_lease_held (fc_lease_owner (at_claim t)) (fc_fence_epoch (at_claim t)) db"
    by (auto simp: fenced_claim_current_in_def fenced_claim_leases_def tx_Inr
        split: option.splits if_splits)
  moreover have "\<not> token_settled t db"
    using row by (auto simp: token_settled_def token_seq_def token_epoch_def claim_row_matches_def
        binding_row_has_claim_processing_lease_def)
  ultimately show False using dead by (simp add: token_dead_def)
qed

lemma run_tx_unchanged:
  assumes "\<And>x n db'. m env 1 db = Inr (x, n, db') \<Longrightarrow> db' = db \<and> x = y"
  shows "snd (run_tx e m env db) = db \<and> (\<forall>x. fst (run_tx e m env db) = Inr x \<longrightarrow> x = y)"
  using assms by (auto simp: run_tx_def split: sum.splits commit_outcome.splits)

text \<open>A dead token settles nothing and changes nothing.\<close>

lemma token_dead_step:
  assumes dead: "token_dead t db" and op: "settling_op t op"
  shows "snd (sync_step ps db (env, op)) = db
    \<and> (\<forall>out. fst (sync_step ps db (env, op)) = Inr out \<longrightarrow> \<not> settled_outcome out)"
proof -
  note not_current = token_dead_not_current [OF _ dead]
  have fin: "finalize_tx t env 1 db = Inr (x, n, db') \<Longrightarrow> db' = db \<and> x = FinalizeLost" for x n db'
    by (auto simp: finalize_tx_def tx_bind_Inr dest!: not_current split: if_splits)
  have fail: "failure_tx t code d p now cutoff env 1 db = Inr (x, n, db') \<Longrightarrow> db' = db \<and> x = FailureLost"
    for code d p now cutoff x n db'
    by (auto simp: failure_tx_def tx_bind_Inr dest!: not_current split: if_splits)
  have upd: "update_outbox e (\<lambda>env now db. token_finalize_identity t current_now db) f env n db
      = Inr (k, n', db') \<Longrightarrow> k = 0 \<and> db' = db" for e current_now f n k n' db'
    using token_dead_identity [OF dead]
    by (auto dest!: update_outbox_Inr simp: filter_empty_conv intro!: sync_db.equality map_idI)
  have wit: "tx_bind (authoritative_now_in VectorSyncUnavailable) (\<lambda>current_now.
         tx_bind (update_outbox VectorSyncUnavailable
           (\<lambda>env now db. token_finalize_identity t current_now db)
           (\<lambda>env n. ob_witness current_now)) (\<lambda>changed.
         if changed = 1 then
           tx_bind (ensure_runtime_resolution_for_delete_unknown_in (fc_id (at_claim t)))
             (\<lambda>_. tx_return WitnessMarked)
         else tx_return WitnessLost)) env 1 db = Inr (x, n, db') \<Longrightarrow> db' = db \<and> x = WitnessLost"
    for x n db'
    by (auto simp: tx_bind_Inr authoritative_now_in_def tx_query_Inr split: if_splits dest!: upd)
  from op consider "op = OpFinalize t" | "op = OpWitness t"
    | code d p now cutoff where "op = OpFail t code d p now cutoff"
    unfolding settling_op_def by (cases op) auto
  then show ?thesis
  proof cases
    case 1
    have "snd (finalize_fenced_vector_sync t env db) = db
        \<and> (\<forall>x. fst (finalize_fenced_vector_sync t env db) = Inr x \<longrightarrow> x = FinalizeLost)"
      unfolding finalize_fenced_vector_sync_def by (rule run_tx_unchanged) (rule fin)
    then show ?thesis by (auto simp: 1 fst_as_outcome settled_outcome_def)
  next
    case 2
    have "snd (mark_fenced_delete_send_witness t env db) = db
        \<and> (\<forall>x. fst (mark_fenced_delete_send_witness t env db) = Inr x \<longrightarrow> x = WitnessLost)"
    proof (cases "fc_action (at_claim t) = Delete")
      case True
      then show ?thesis
        unfolding mark_fenced_delete_send_witness_def
        by (simp only: not_True_eq_False simp_thms if_False) (rule run_tx_unchanged, rule wit)
    qed (simp add: mark_fenced_delete_send_witness_def)
    then show ?thesis by (auto simp: 2 fst_as_outcome settled_outcome_def)
  next
    case 3
    have "snd (finalize_fenced_vector_failure t code d p now cutoff env db) = db
        \<and> (\<forall>x. fst (finalize_fenced_vector_failure t code d p now cutoff env db) = Inr x
              \<longrightarrow> x = FailureLost)"
      unfolding finalize_fenced_vector_failure_def by (rule run_tx_unchanged) (rule fail)
    then show ?thesis by (auto simp: 3 fst_as_outcome settled_outcome_def)
  qed
qed

lemma settle_step_settles:
  assumes step: "sync_step ps db (env, op) = (Inr out, db')" and wf: "outbox_wf db"
    and op: "op = OpFinalize t \<or> failing_token op = Some t" and out: "settled_outcome out"
  shows "token_settled t db'"
proof -
  have clock: "\<exists>s. mutation_clock db' = Some s \<and> token_seq t \<le> s"
    if "r \<in> set (outbox db)" "token_finalize_identity t now db r" "mutation_clock db' = mutation_clock db"
    for r now
    using row_seq_le_clock [OF wf that(1)] token_identity_fields [OF that(2)] that(3) by metis
  have only: "q = r" if "r \<in> set (outbox db)" "token_finalize_identity t now db r"
    "q \<in> set (outbox db)" "ob_mutation_sequence q = token_seq t" for q r now
    using distinct_key_unique [OF outbox_wf_seq [OF wf] that(3,1)] token_identity_fields [OF that(2)] that(4)
    by simp
  from op consider "op = OpFinalize t" | code d p now cutoff where "op = OpFail t code d p now cutoff"
    by (cases op) auto
  then show ?thesis
  proof cases
    case 1
    with step out obtain n where "finalize_tx t env 1 db = Inr (FinalizeApplied, n, db')"
      by (auto simp: finalize_fenced_vector_sync_def run_tx_Inr as_outcome_Inr settled_outcome_def)
        (metis finalize_result.exhaust)
    from this wf show ?thesis
    proof (cases rule: finalize_tx_Inr)
      case (applied now r)
      with clock [OF applied(2,3)] only [OF applied(2,3)] show ?thesis
        by (auto simp: token_settled_def)
    qed simp
  next
    case 3: 2
    with step out obtain n res where "failure_tx t code d p now cutoff env 1 db = Inr (res, n, db')"
      "res \<noteq> FailureLost"
      by (auto simp: finalize_fenced_vector_failure_def run_tx_Inr as_outcome_Inr settled_outcome_def)
    from this(1) wf this(2) show ?thesis
    proof (cases rule: failure_tx_Inr)
      case (applied now' r r')
      with clock [OF applied(2,3)] only [OF applied(2,3)] show ?thesis
        by (auto simp: token_settled_def failed_row_def)
    qed simp
  qed
qed

text \<open>
  C20: A token settles once. After a success or a failure has been applied under a token, whatever
  runs in between, no success, no failure and no delete witness is ever recorded again under any
  token of the same mutation and claim: every such call leaves all tables as they are and reports
  the token as lost, or fails.
\<close>

theorem attempt_settles_once:
  assumes "outbox_wf db" and "sync_step ps db (env, op) = (Inr out, db1)"
    and "op = OpFinalize t \<or> failing_token op = Some t" and "settled_outcome out"
    and "token_seq t' = token_seq t" and "token_epoch t' = token_epoch t"
    and "settling_op t' op'" and "db2 = snd (sync_run ps db1 ops)"
  shows "snd (sync_step ps db2 (env', op')) = db2
    \<and> (\<forall>out'. fst (sync_step ps db2 (env', op')) = Inr out' \<longrightarrow> \<not> settled_outcome out')"
proof (rule token_dead_step [OF _ assms(7)])
  have "token_settled t db2"
    unfolding assms(8) by (rule token_settled_le [OF sync_run_le settle_step_settles [OF assms(2,1,3,4)]])
  with token_settled_cong [OF assms(5,6)] show "token_dead t' db2" by (simp add: token_dead_def)
qed

section \<open>The lease of the consumer\<close>

lemma claim_step_lease:
  assumes "sync_step ps db (env, OpClaim g d dim owner cutoff a) = (Inr (OutClaim (Some c)), db')"
    and wf: "outbox_wf db"
  obtains dbl l where "sync_le db dbl" "runtime_lease dbl = Some l" "sync_le dbl db'"
    "rl_owner l = Some owner" "rl_fence_epoch l = fc_fence_epoch c" "fc_lease_owner c = owner"
proof -
  from assms(1) have "claim_one_fenced_vector_sync g d dim owner cutoff a env db = (Inr (Some c), db')"
    by (simp add: as_outcome_Inr)
  then obtain n' where tx: "claim_tx g d dim owner cutoff a env 1 db = Inr (Some c, n', db')"
    by (auto simp: claim_one_fenced_vector_sync_def run_tx_Inr split: if_splits)
  then obtain n1 db1 n2 db2 n3 db3 n4 db4 s fence x y z n5 where
    1: "acquire_runtime_lease owner env 1 db = Inr (fence, n1, db1)"
    and 2: "quarantine_malformed_target_bindings_in env n1 db1 = Inr (x, n2, db2)"
    and 3: "recover_expired_fenced_processing_in cutoff env n2 db2 = Inr (y, n3, db3)"
    and 4: "converge_exhausted_attempt_budget_in env n3 db3 = Inr (z, n4, db4)"
    and 5: "select_claim_candidate g a cutoff env (Suc n4) db4 = Inr (Some s, n5, db4)"
    and 6: "claim_candidate_in s g d dim owner a fence env n5 db4 = Inr (Some c, n', db')"
    unfolding claim_tx_def
    by (auto simp: tx_bind_Inr tx_query_Inr split: if_splits option.splits
        dest: select_claim_candidate_Inr) (metis select_claim_candidate_Inr)
  have le: "sync_le db db1" "sync_le db1 db4" "sync_le db4 db'"
    using tx_relD [OF sync.rel_acquire_runtime_lease 1] tx_relD [OF sync.rel_quarantine_malformed 2]
      tx_relD [OF sync.rel_recover 3] tx_relD [OF sync.rel_converge 4]
      tx_relD [OF sync.rel_claim_candidate 6] by (meson sync.pre_trans)+
  with wf have wf4: "outbox_wf db4" by (simp add: outbox_le_def)
  from select_claim_candidate_Inr [OF 5] have "s \<in> set (outbox db4)" by blast
  then have "fc_fence_epoch c = fence \<and> fc_lease_owner c = owner"
    by (rule claim_candidate_in_Some [OF 6 wf4])
      (auto simp: fenced_claim_from_row_def split: option.splits)
  moreover from acquire_runtime_lease_held [OF 1] obtain l where
    "runtime_lease db1 = Some l" "rl_owner l = Some owner" "rl_fence_epoch l = fence"
    by (auto simp: runtime_lease_held_def split: option.splits)
  ultimately show thesis using that le sync.pre_trans by blast
qed

text \<open>
  C22: When a claim is granted to another owner, its fence is above the fences of all claims granted
  before, and from then on the tokens of those claims are dead: whatever runs in between, no success,
  failure or delete witness of the former consumer is applied.
\<close>

theorem new_consumer_fences_out_old:
  assumes "outbox_wf db"
    and "sync_step ps db (env, OpClaim g d dim owner cutoff a) = (Inr (OutClaim (Some c)), db1)"
    and "sync_step ps (snd (sync_run ps db1 ops)) (env', OpClaim g' d' dim' owner' cutoff' a')
      = (Inr (OutClaim (Some c')), db2)"
    and "owner' \<noteq> owner" and "at_claim t = c" and "settling_op t op"
    and "db3 = snd (sync_run ps db2 ops')"
  shows "fc_fence_epoch c < fc_fence_epoch c'
    \<and> snd (sync_step ps db3 (env'', op)) = db3
    \<and> (\<forall>out. fst (sync_step ps db3 (env'', op)) = Inr out \<longrightarrow> \<not> settled_outcome out)"
proof -
  from assms(1,2) have wf1: "outbox_wf db1" using sync_step_wf by (metis snd_conv)
  obtain dbl l where l: "runtime_lease dbl = Some l" "sync_le dbl db1" "rl_owner l = Some owner"
    "rl_fence_epoch l = fc_fence_epoch c" "fc_lease_owner c = owner"
    by (rule claim_step_lease [OF assms(2,1)]) blast
  obtain dbl' l' where l': "sync_le (snd (sync_run ps db1 ops)) dbl'" "runtime_lease dbl' = Some l'"
    "sync_le dbl' db2" "rl_owner l' = Some owner'" "rl_fence_epoch l' = fc_fence_epoch c'"
    by (rule claim_step_lease [OF assms(3) sync_run_wf [OF wf1]]) blast
  have "sync_le dbl dbl'" using l(2) sync_run_le l'(1) sync.pre_trans by blast
  with l l' assms(4) have less: "fc_fence_epoch c < fc_fence_epoch c'"
    by (auto simp: outbox_le_def lease_le_def)
  have "sync_le dbl' db3" using l'(3) sync_run_le assms(7) sync.pre_trans by blast
  with l' less have "\<not> runtime_lease_held (fc_lease_owner c) (fc_fence_epoch c) db3"
    by (auto simp: outbox_le_def lease_le_def runtime_lease_held_def)
  then have "token_dead t db3" by (simp add: token_dead_def assms(5))
  from token_dead_step [OF this assms(6)] less show ?thesis by blast
qed

text \<open>
  C23: While the lease of another owner has not expired, no claim is granted: the call fails and
  changes nothing.
\<close>

theorem busy_consumer_is_refused:
  assumes "runtime_lease db = Some l" and "rl_owner l = Some holder" and "holder \<noteq> owner"
    and "rl_expires_at l = Some expiry" and "\<forall>stmt. text_less (sq_now env stmt) expiry"
  shows "sync_step ps db (env, OpClaim g d dim owner cutoff a) = (Inl VectorSyncUnavailable, db)"
proof -
  have "acquire_runtime_lease owner env n db = Inl VectorSyncUnavailable" for n
    using assms
    by (simp add: acquire_runtime_lease_def tx_bind_def tx_stmt_def update_runtime_lease_def tx_fail_def
        sql_not_after_def text_le_def)
  then have "claim_tx g d dim owner cutoff a env n db = Inl VectorSyncUnavailable" for n
    by (simp add: claim_tx_def tx_bind_def)
  then show ?thesis
    by (simp add: claim_one_fenced_vector_sync_def run_tx_def as_outcome_def)
qed

section \<open>Possibly sent writes\<close>

definition row_sent :: "outbox_row \<Rightarrow> bool" where
  "row_sent r \<longleftrightarrow> ob_last_send_disposition r = Some POSSIBLY_SENT \<and> 0 < ob_attempt_count r"

definition possibly_sent :: "int \<Rightarrow> sync_db \<Rightarrow> bool" where
  "possibly_sent q db \<longleftrightarrow> (\<exists>r \<in> set (outbox db). ob_mutation_sequence r = q \<and> row_sent r)"

definition sent_le :: "int \<Rightarrow> outbox_row \<Rightarrow> outbox_row \<Rightarrow> bool" where
  "sent_le q r r' \<longleftrightarrow>
     same_mutation r r' \<and> (ob_mutation_sequence r = q \<longrightarrow> row_sent r \<longrightarrow> row_sent r')"

interpretation sent: outbox_evolution "sent_le q" for q
proof
  show "sent_le q r1 r3" if "sent_le q r1 r2" "sent_le q r2 r3" for r1 r2 r3
    using that by (auto simp: sent_le_def same_mutation_def)
  show "sent_le q r (recover_row (recovery_of s) now r)" for r s now
    by (auto simp: sent_le_def row_sent_def same_mutation_def recover_row_def ob_release_def
        split: option.splits)
qed (auto simp: sent_le_def row_sent_def same_mutation_def ob_block_def ob_release_def ob_unbind_def
    ob_reserve_def ob_witness_def ob_legacy_settle_def ob_lease_def)

lemma covers_other_failures: "token_seq t \<noteq> q \<Longrightarrow> covers_failure (sent_le q) t"
  by (auto simp: covers_failure_def sent_le_def same_mutation_def ob_release_def
      dest!: token_identity_fields)

text \<open>The row of a mutation that is still there at the end is possibly sent if it was so before.\<close>

lemma sent_le_row:
  assumes le: "outbox_le (sent_le q) db db'" and wf: "outbox_wf db" and "possibly_sent q db"
    and r': "r' \<in> set (outbox db')" "ob_mutation_sequence r' = q"
  shows "row_sent r'"
proof -
  from assms(3) obtain r where r: "r \<in> set (outbox db)" "ob_mutation_sequence r = q" "row_sent r"
    by (auto simp: possibly_sent_def)
  from row_seq_le_clock [OF wf r(1)] le r' r(2) obtain p where p: "p \<in> set (outbox db)" "sent_le q p r'"
    by (auto simp: outbox_le_def rows_le_def)
  then have "ob_mutation_sequence p = q" using r'(2) by (simp add: sent_le_def same_mutation_def)
  with distinct_key_unique [OF outbox_wf_seq [OF wf] p(1) r(1)] r(2) have "p = r" by simp
  with p(2) r(2,3) show ?thesis by (simp add: sent_le_def)
qed

text \<open>What a consumer has seen before it calls the index.\<close>

definition send_recorded :: "attempt_token \<Rightarrow> sync_op \<Rightarrow> sync_outcome \<Rightarrow> bool" where
  "send_recorded t op out \<longleftrightarrow>
     op = OpReserve (at_claim t) \<and> out = OutReservation (Reserved t) \<and> fc_action (at_claim t) = Upsert
     \<or> op = OpWitness t \<and> out = OutWitness WitnessMarked \<and> 0 < at_ordinal t"

lemma recorded_send_is_possible:
  assumes step: "sync_step ps db (env, op) = (Inr out, db')" and wf: "outbox_wf db"
    and rec: "send_recorded t op out" and new: "db' \<noteq> db"
  shows "possibly_sent (token_seq t) db'"
  using rec unfolding send_recorded_def
proof (elim disjE conjE)
  assume op: "op = OpReserve (at_claim t)" "out = OutReservation (Reserved t)"
    "fc_action (at_claim t) = Upsert"
  show ?thesis
    by (rule reserve_step_Reserved [OF step [unfolded op(1,2)] wf])
      (use op(3) new in \<open>auto simp: possibly_sent_def row_sent_def\<close>)
next
  assume op: "op = OpWitness t" "out = OutWitness WitnessMarked" "0 < at_ordinal t"
  with step have "mark_fenced_delete_send_witness t env db = (Inr WitnessMarked, db')"
    by (auto simp: as_outcome_Inr)
  from this wf show ?thesis
  proof (cases rule: witness_Inr)
    case (marked now r)
    then have "ob_witness now r \<in> set (outbox db')" by force
    with token_identity_fields [OF marked(4)] op(3) show ?thesis
      by (auto simp: possibly_sent_def row_sent_def ob_witness_def intro!: bexI [of _ "ob_witness now r"])
  qed simp_all
qed

text \<open>
  C21: Once a send has been recorded under a token (an upsert that was reserved, a delete that was
  witnessed), no claim is granted for that mutation again, whatever runs in between, until a failure
  is reported for it: a crash between the call of the index and the report never leads to a second
  call.
\<close>

theorem possibly_sent_is_not_reclaimed:
  assumes "outbox_wf db" and "sync_step ps db (env, op) = (Inr out, db1)" and "send_recorded t op out"
    and "db1 \<noteq> db" and "\<forall>op \<in> set ops. \<forall>u. failing_token (snd op) = Some u \<longrightarrow> token_seq u \<noteq> token_seq t"
    and "sync_step ps (snd (sync_run ps db1 ops)) (env', OpClaim g d dim owner cutoff a)
      = (Inr (OutClaim (Some c)), db2)"
  shows "fc_mutation_sequence c \<noteq> token_seq t"
proof
  assume eq: "fc_mutation_sequence c = token_seq t"
  let ?q = "token_seq t" and ?mid = "snd (sync_run ps db1 ops)"
  from assms(1,2) have wf1: "outbox_wf db1" using sync_step_wf by (metis snd_conv)
  have sent1: "possibly_sent ?q db1" by (rule recorded_send_is_possible [OF assms(2,1,3,4)])
  obtain dbm s r due where le: "\<forall>rr. outbox_evolution rr \<longrightarrow> outbox_le rr ?mid dbm"
    and s: "s \<in> set (outbox dbm)" "claim_candidate g a due s" "same_mutation s r"
      "ob_mutation_sequence r = fc_mutation_sequence c"
    by (rule claim_step_Some [OF assms(6) sync_run_wf [OF wf1]]) blast
  have "outbox_le (sent_le ?q) db1 ?mid"
    using assms(5) by (intro sent.run_le covers_other_failures) auto
  with le sent.outbox_evolution_axioms have "outbox_le (sent_le ?q) db1 dbm"
    using sent.le_trans by blast
  moreover have "ob_mutation_sequence s = ?q" using s(3,4) eq by (simp add: same_mutation_def)
  ultimately have "row_sent s" by (rule sent_le_row [OF _ wf1 sent1 s(1)])
  with s(2) show False
    by (cases "ob_action s") (auto simp: claim_candidate_def row_sent_def is_unknown_upsert_send_def
        is_delete_unknown_row_def is_delete_unknown_evidence_def has_unknown_external_send_evidence_def)
qed

section \<open>A new mutation\<close>

definition of_memory :: "string \<Rightarrow> string \<Rightarrow> outbox_row \<Rightarrow> bool" where
  "of_memory life memory r \<longleftrightarrow> ob_life_id r = life \<and> ob_memory_id r = memory"

definition fresh_mutation ::
    "sync_action \<Rightarrow> int \<Rightarrow> int option \<times> string option \<Rightarrow> outbox_row \<Rightarrow> bool" where
  "fresh_mutation action s target r \<longleftrightarrow>
     ob_action r = action \<and> ob_mutation_sequence r = s
     \<and> (ob_target_revision r, ob_target_content_hash r) = target
     \<and> ob_state r = Pending \<and> ob_attempt_count r = 0 \<and> ob_fenced_claim_epoch r = 0
     \<and> ob_last_marked_claim_epoch r = 0 \<and> ob_phase r = Unbound
     \<and> ob_next_attempt_at r = None \<and> ob_last_error_code r = None
     \<and> ob_last_send_disposition r = None \<and> ob_migration_disposition r = None"

lemma outbox_wf_key:
  "outbox_wf db \<Longrightarrow> distinct (map (\<lambda>r. (ob_life_id r, ob_memory_id r)) (outbox db))"
  by (simp add: outbox_wf_def)

lemma distinct_singleton: "distinct xs \<Longrightarrow> set xs = {x} \<Longrightarrow> xs = [x]"
  by (cases xs; cases "tl xs") auto

lemma filter_map_other:
  "(\<And>x. x \<in> set xs \<Longrightarrow> p x \<Longrightarrow> p (f x)) \<Longrightarrow>
   filter (\<lambda>x. \<not> p x) (map (\<lambda>x. if p x then f x else x) xs) = filter (\<lambda>x. \<not> p x) xs"
  by (induction xs) auto

lemma upsert_outbox_spec:
  assumes up: "upsert_outbox life memory action s target now env n db = Inr (x, n', db')"
    and wf: "outbox_wf db" and r: "r \<in> set (outbox db')" "of_memory life memory r"
  shows "fresh_mutation action s target r
    \<and> ob_delete_witness_at r = (case find (of_memory life memory) (outbox db) of
        None \<Rightarrow> None | Some q \<Rightarrow> ob_delete_witness_at q)
    \<and> filter (\<lambda>r. \<not> of_memory life memory r) (outbox db')
      = filter (\<lambda>r. \<not> of_memory life memory r) (outbox db)"
proof -
  let ?p = "of_memory life memory"
  from upsert_outbox_Inr [OF up] consider
      (requeue) "outbox db' = map (\<lambda>r. if ?p r then ob_requeue action s target now r else r) (outbox db)"
        "\<exists>r \<in> set (outbox db). ?p r"
    | (append) "outbox db' = outbox db @ [ob_fresh (sq_rowid env) life memory action s target now]"
        "\<not> (\<exists>r \<in> set (outbox db). ?p r)"
    by (elim disjE conjE) (auto simp: of_memory_def)
  then show ?thesis
  proof cases
    case requeue
    have kept: "?p (ob_requeue action s target now q) = ?p q" for q
      by (simp add: of_memory_def ob_requeue_def)
    with r requeue(1) obtain q where q: "q \<in> set (outbox db)" "?p q"
      "r = ob_requeue action s target now q" by (auto split: if_splits)
    from requeue(2) obtain q' where q': "find ?p (outbox db) = Some q'"
      by (cases "find ?p (outbox db)") (auto simp: find_None_iff)
    from find_Some_mem [OF q'] have "q' \<in> set (outbox db)" "?p q'" by auto
    with distinct_key_unique [OF outbox_wf_key [OF wf] _ q(1), of q'] q(2) have "q' = q"
      by (simp add: of_memory_def)
    moreover have "filter (\<lambda>r. \<not> ?p r) (outbox db') = filter (\<lambda>r. \<not> ?p r) (outbox db)"
      unfolding requeue(1) by (rule filter_map_other) (simp add: kept)
    ultimately show ?thesis
      using q' by (simp add: q(3) fresh_mutation_def ob_requeue_def ob_phase_Unbound_iff)
  next
    case append
    have new: "?p (ob_fresh (sq_rowid env) life memory action s target now)"
      by (simp add: of_memory_def ob_fresh_def)
    have "r = ob_fresh (sq_rowid env) life memory action s target now" using r append by auto
    moreover have "find ?p (outbox db) = None" using append(2) by (simp add: find_None_iff)
    ultimately show ?thesis
      using new by (simp add: append(1) fresh_mutation_def ob_fresh_def ob_phase_Unbound_iff)
  qed
qed

text \<open>
  C24: Enqueueing replaces the mutation of the memory: its one row stands for the next value of the
  mutation clock, pending, unclaimed, without attempts and with the target the memory has now; no
  late delete of the memory is left unresolved; the rows of other memories are untouched; and every
  token of the mutation it replaces is dead for good. The one column the new mutation inherits is
  the time of the delete witness, which is that of the replaced mutation.
\<close>

theorem enqueue_replaces_mutation:
  assumes "outbox_wf db"
    and "sync_step ps db (env, OpEnqueue life memory action) = (Inr (OutJob r), db')"
  shows "\<exists>s m target. mutation_clock db = Some s \<and> mutation_clock db' = Some (s + 1)
    \<and> find (\<lambda>m. me_id m = memory) (memories db) = Some m \<and> me_life_id m = life
    \<and> enqueue_target (sy_to_lowercase ps) (sy_sha256 ps) action m = Inr target
    \<and> filter (of_memory life memory) (outbox db') = [r] \<and> fresh_mutation action (s + 1) target r
    \<and> filter (\<lambda>r. \<not> of_memory life memory r) (outbox db')
      = filter (\<lambda>r. \<not> of_memory life memory r) (outbox db)
    \<and> (\<forall>l \<in> set (late_rows db'). \<not> late_of_memory life memory l)
    \<and> (\<forall>t. \<forall>q \<in> set (outbox db). of_memory life memory q \<and> ob_mutation_sequence q = token_seq t \<longrightarrow>
          token_settled t db')
    \<and> ob_delete_witness_at r = (case find (of_memory life memory) (outbox db) of
        None \<Rightarrow> None | Some q \<Rightarrow> ob_delete_witness_at q)"
proof -
  let ?p = "of_memory life memory"
  from assms(2) obtain x n n' dbe where
    enq: "enqueue_in_transaction (sy_to_lowercase ps) (sy_sha256 ps) life memory action env 1 db
      = Inr (x, n, dbe)"
    and load: "load_job life memory env n dbe = Inr (r, n', db')"
    by (auto simp: enqueue_def run_tx_Inr as_outcome_Inr tx_bind_Inr)
  from load have dbe: "dbe = db'" and find: "find ?p (outbox db') = Some r"
    by (auto simp: load_job_def tx_Inr of_memory_def [abs_def] split: option.splits if_splits)
  from assms have wf': "outbox_wf db'" using sync_step_wf by (metis snd_conv)
  from enq show ?thesis
  proof (rule enqueue_in_transaction_Inr)
    fix s now target n1 db1
    assume clock: "mutation_clock db = Some s" "mutation_clock db1 = Some (s + 1)"
      and same: "outbox db1 = outbox db" "outbox_sequence db1 = outbox_sequence db"
      and up: "upsert_outbox life memory action (s + 1) target now env n1 db1 = Inr (x, n, dbe)"
      and late: "\<forall>r \<in> set (late_rows db1). \<not> late_of_memory life memory r"
      and m: "\<exists>m. find (\<lambda>m. me_id m = memory) (memories db) = Some m \<and> me_life_id m = life
           \<and> enqueue_target (sy_to_lowercase ps) (sy_sha256 ps) action m = Inr target"
    from upsert_outbox_Inr [OF up] have frame: "mutation_clock db' = Some (s + 1)"
      "late_rows db' = late_rows db1" using clock dbe by auto
    have wf1: "outbox_wf db1"
      using assms(1) clock same by (auto simp: outbox_wf_def)
    have mem: "r \<in> set (outbox db')" "?p r" using find_Some_mem [OF find] by auto
    note spec = upsert_outbox_spec [OF up [unfolded dbe] wf1 mem, unfolded same(1)]
    have only: "q = r" if "q \<in> set (outbox db')" "?p q" for q
      using distinct_key_unique [OF outbox_wf_key [OF wf'] that(1) mem(1)] that(2) mem(2)
      by (simp add: of_memory_def)
    have one: "filter ?p (outbox db') = [r]"
    proof -
      have "distinct (filter ?p (outbox db'))" using wf' by (auto simp: outbox_wf_def distinct_map)
      moreover have "set (filter ?p (outbox db')) = {r}"
        unfolding set_filter using only mem by blast
      ultimately show ?thesis by (rule distinct_singleton)
    qed
    have settled: "token_settled t db'"
      if q: "q \<in> set (outbox db)" "?p q" "ob_mutation_sequence q = token_seq t" for q t
      unfolding token_settled_def
    proof (intro conjI ballI impI)
      have le: "ob_mutation_sequence q \<le> s" using row_seq_le_clock [OF assms(1) q(1)] clock by auto
      then show "\<exists>s. mutation_clock db' = Some s \<and> token_seq t \<le> s" using frame(1) q(3) by simp
      fix z assume z: "z \<in> set (outbox db')" "ob_mutation_sequence z = token_seq t"
      show "ob_fenced_claim_epoch z > token_epoch t
          \<or> ob_fenced_claim_epoch z = token_epoch t \<and> ob_state z \<noteq> Processing"
      proof (cases "?p z")
        case True
        from only [OF z(1) True] spec have "ob_mutation_sequence z = s + 1" by (simp add: fresh_mutation_def)
        with z(2) q(3) le show ?thesis by simp
      next
        case False
        then have "z \<in> set (filter (\<lambda>r. \<not> ?p r) (outbox db'))" using z(1) by simp
        then have "z \<in> set (outbox db)" using spec by simp
        with distinct_key_unique [OF outbox_wf_seq [OF assms(1)] this q(1)] z(2) q(2,3) False
        show ?thesis by simp
      qed
    qed
    from m obtain m' where "find (\<lambda>m. me_id m = memory) (memories db) = Some m'" "me_life_id m' = life"
      "enqueue_target (sy_to_lowercase ps) (sy_sha256 ps) action m' = Inr target" by blast
    moreover have "\<forall>t. \<forall>q \<in> set (outbox db). ?p q \<and> ob_mutation_sequence q = token_seq t \<longrightarrow>
        token_settled t db'" using settled by blast
    ultimately show ?thesis
      using clock(1) frame(1) one spec late [folded frame(2)]
      by (intro exI [of _ s] exI [of _ m'] exI [of _ target] conjI) simp_all
  qed
qed

section \<open>Rechecking a lost result\<close>

lemma find_none_of_unique:
  "distinct (map k xs) \<Longrightarrow> r \<in> set xs \<Longrightarrow> q \<in> set (filter (\<lambda>x. x \<noteq> r) xs) \<Longrightarrow> k q \<noteq> k r"
  by (auto simp: distinct_map inj_on_def)

lemma item_put_mem: "i \<in> set (item_put i rows)"
proof (cases "item_key i \<in> set (map item_key rows)")
  case True
  then obtain r where "r \<in> set rows" "item_key r = item_key i" by auto
  with True show ?thesis by (force simp: item_put_def)
qed (auto simp: item_put_def)

text \<open>
  C25: The recheck after an uncertain commit is exact. When the row of the token is still there and
  the token's success is finalized, whatever SQLite does with the statements and the commit, the
  recheck answers yes exactly if the transaction took effect: then the row is gone, the indexed item
  is the token's (or is gone, for a delete), and nothing else was removed from the outbox; otherwise
  all tables are as before.
\<close>

theorem finalize_recheck_is_exact:
  assumes "outbox_wf db" and "r \<in> set (outbox db)" and "ob_id r = fc_id (at_claim t)"
    and "ob_life_id r = fc_life_id (at_claim t)" and "ob_memory_id r = fc_memory_id (at_claim t)"
    and "sync_step ps db (env, OpFinalize t) = (res, db')"
  shows "(fenced_success_finalize_is_applied t db' \<longrightarrow>
            outbox db' = filter (\<lambda>q. q \<noteq> r) (outbox db) \<and> res \<noteq> Inr (OutFinalize FinalizeLost))
    \<and> (\<not> fenced_success_finalize_is_applied t db' \<longrightarrow>
            db' = db \<and> res \<noteq> Inr (OutFinalize FinalizeApplied))"
proof -
  let ?c = "at_claim t"
  have before: "\<not> fenced_success_finalize_is_applied t db"
    using assms(2,3) by (auto simp: fenced_success_finalize_is_applied_def list_ex_iff Let_def)
  obtain out where fin: "finalize_fenced_vector_sync t env db = (out, db')" "res = map_sum id OutFinalize out"
    using assms(6) by (auto simp: as_outcome_def split: prod.splits)
  show ?thesis
  proof (cases "finalize_tx t env 1 db")
    case (Inl e)
    with fin have "db' = db \<and> (\<forall>x. out \<noteq> Inr x)"
      by (auto simp: finalize_fenced_vector_sync_def run_tx_def split: if_splits)
    with before fin(2) show ?thesis by (cases out) auto
  next
    case (Inr y)
    then obtain x n dbx where tx: "finalize_tx t env 1 db = Inr (x, n, dbx)" by (cases y) auto
    have run: "db' = db \<and> (\<forall>x. out \<noteq> Inr x) \<or> db' = dbx \<and> (\<forall>z. out = Inr z \<longrightarrow> z = x)"
      using fin(1) tx by (auto simp: finalize_fenced_vector_sync_def run_tx_def
          split: if_splits commit_outcome.splits)
    from tx assms(1) show ?thesis
    proof (cases rule: finalize_tx_Inr)
      case lost
      with run before fin(2) show ?thesis by (cases out) auto
    next
      case (applied now q)
      have "q = r"
        using distinct_key_unique [OF outbox_wf_id [OF assms(1)] applied(2) assms(2)]
          token_identity_fields [OF applied(3)] assms(3) by simp
      have only: "token_finalize_identity t now db z \<longleftrightarrow> z = r" if "z \<in> set (outbox db)" for z
        using distinct_key_unique [OF outbox_wf_id [OF assms(1)] that assms(2)] assms(3)
          token_identity_fields applied(3) \<open>q = r\<close> by metis
      have rows: "outbox dbx = filter (\<lambda>z. z \<noteq> r) (outbox db)"
        unfolding applied(4) by (rule filter_cong [OF refl]) (simp add: only)
      have "ob_id z \<noteq> fc_id ?c \<and> (ob_life_id z, ob_memory_id z) \<noteq> (fc_life_id ?c, fc_memory_id ?c)"
        if "z \<in> set (outbox dbx)" for z
        using find_none_of_unique [OF outbox_wf_id [OF assms(1)] assms(2) that [unfolded rows]]
          find_none_of_unique [OF outbox_wf_key [OF assms(1)] assms(2) that [unfolded rows]]
          assms(3-5) by simp
      then have gone: "\<not> list_ex (\<lambda>r. ob_id r = fc_id ?c
          \<or> ob_life_id r = fc_life_id ?c \<and> ob_memory_id r = fc_memory_id ?c) (outbox dbx)"
        by (auto simp: list_ex_iff)
      have "fenced_success_finalize_is_applied t dbx"
      proof (cases "fc_action ?c")
        case Delete
        with gone applied(6) show ?thesis
          by (simp add: fenced_success_finalize_is_applied_def Let_def list_ex_iff)
      next
        case Upsert
        with applied(7) obtain revision content_hash at where
          "fc_target_revision ?c = Some revision" "fc_target_content_hash ?c = Some content_hash"
          and items: "items dbx = item_put \<lparr>gi_generation_id = fc_generation_id ?c,
               gi_life_id = fc_life_id ?c, gi_memory_id = fc_memory_id ?c,
               gi_memory_revision = revision, gi_content_hash = content_hash,
               gi_updated_at = at\<rparr> (items db)" by blast
        with gone Upsert show ?thesis
          unfolding items fenced_success_finalize_is_applied_def Let_def
          by (auto simp: list_ex_iff item_key_def intro!: bexI [OF _ item_put_mem])
      qed
      with run before rows applied(1) fin(2) show ?thesis by (cases out) auto
    qed
  qed
qed

end
