(* ===== verification/Vector_Sync_Samples.thy ===== *)
theory Vector_Sync_Samples
  imports Vector_Syncs
begin

text \<open>
  Sample runs of the vector-sync outbox: one memory, one building generation, two consumers. They
  show that the hypotheses of the guarantees in Vector_Syncs can hold together.
\<close>

section \<open>States\<close>

definition sync_env :: "string \<Rightarrow> string \<Rightarrow> sql_env" where
  "sync_env now later =
     \<lparr>sq_executes = (\<lambda>_. True), sq_now = (\<lambda>_. now), sq_now_plus_seconds = (\<lambda>_ _. later),
      sq_of_millis = (\<lambda>_. Some now), sq_strftime = (\<lambda>_ _. None), sq_rowid = 1, sq_commit = Committed\<rparr>"

abbreviation sync_t0 :: string where "sync_t0 \<equiv> ''2026-01-01T00:00:00.000Z''"
abbreviation sync_t2 :: string where "sync_t2 \<equiv> ''2026-01-01T00:02:00.000Z''"
abbreviation sync_t3 :: string where "sync_t3 \<equiv> ''2026-01-01T00:03:00.000Z''"
abbreviation sync_t5 :: string where "sync_t5 \<equiv> ''2026-01-01T00:05:00.000Z''"

abbreviation sync_early :: sql_env where "sync_early \<equiv> sync_env sync_t0 sync_t2"
abbreviation sync_late :: sql_env where "sync_late \<equiv> sync_env sync_t3 sync_t5"

definition sync_ps :: sync_params where
  "sync_ps = \<lparr>sy_to_lowercase = (\<lambda>s. s), sy_sha256 = (\<lambda>s. ''hash'')\<rparr>"

definition sync_claim :: "string \<Rightarrow> int \<Rightarrow> int \<Rightarrow> fenced_claim" where
  "sync_claim owner fence epoch =
     \<lparr>fc_id = 1, fc_life_id = ''life'', fc_memory_id = ''m'', fc_action = Upsert,
      fc_mutation_sequence = 1, fc_target_revision = Some 1, fc_target_content_hash = Some ''hash'',
      fc_generation_id = ''g'', fc_authority_epoch = None, fc_descriptor_hash = ''d'',
      fc_dimension = 3, fc_lease_owner = owner, fc_fence_epoch = fence, fc_claim_epoch = epoch\<rparr>"

definition sync_token :: "int \<Rightarrow> int \<Rightarrow> attempt_token" where
  "sync_token epoch ordinal = \<lparr>at_claim = sync_claim ''w'' 1 epoch, at_ordinal = ordinal\<rparr>"

text \<open>The row of the mutation: waiting, claimed, reserved, waiting for a retry.\<close>

definition sync_pending :: outbox_row where
  "sync_pending = ob_fresh 1 ''life'' ''m'' Upsert 1 (Some 1, Some ''hash'') sync_t0"

definition sync_claimed :: "string \<Rightarrow> int \<Rightarrow> int \<Rightarrow> int \<Rightarrow> int \<Rightarrow> string option \<Rightarrow> string \<Rightarrow> string
    \<Rightarrow> string option \<Rightarrow> outbox_row" where
  "sync_claimed owner fence epoch marked attempts sent now expires code =
     sync_pending\<lparr>ob_state := Processing, ob_attempt_count := attempts, ob_lease_owner := Some owner,
       ob_lease_expires_at := Some expires, ob_updated_at := now,
       ob_claimed_generation_id := Some ''g'', ob_lease_fence_epoch := Some fence,
       ob_last_send_disposition := sent, ob_fenced_claim_epoch := epoch,
       ob_last_marked_claim_epoch := marked, ob_last_error_code := code\<rparr>"

definition sync_waiting :: outbox_row where
  "sync_waiting = sync_pending\<lparr>ob_state := RetryWait, ob_attempt_count := 1,
     ob_next_attempt_at := Some sync_t0, ob_claimed_generation_id := Some ''g'',
     ob_last_send_disposition := Some DEFINITELY_NOT_SENT, ob_fenced_claim_epoch := 1,
     ob_last_marked_claim_epoch := 1, ob_last_error_code := Some ''TIMEOUT''\<rparr>"

definition sync_other :: outbox_row where
  "sync_other = ob_fresh 2 ''life'' ''n'' Delete 2 (None, None) sync_t0"

definition sync_db_of :: "outbox_row list \<Rightarrow> (string \<times> int \<times> string) option \<Rightarrow> sync_db" where
  "sync_db_of rows lease =
     \<lparr>memories = [\<lparr>me_id = ''m'', me_life_id = ''life'', me_kind = ''fact'', me_status = ''confirmed'',
                    me_revision = 1, me_content = ''text'', me_summary = None, me_is_sensitive = 0\<rparr>],
      generations = [\<lparr>gn_id = ''g'', gn_descriptor_hash = ''d'', gn_dimension = 3,
                       gn_state = GenBuilding, gn_authority_epoch = 1\<rparr>],
      active_generation_id = None, mutation_clock = Some 2, outbox = rows, outbox_sequence = 2,
      runtime_lease = map_option (\<lambda>(owner, fence, expires). \<lparr>rl_owner = Some owner,
        rl_fence_epoch = fence, rl_expires_at = Some expires\<rparr>) lease,
      items = [], late_rows = [], late_lease = None\<rparr>"

lemmas sync_sample_eval = sync_env_def sync_ps_def sync_claim_def sync_token_def sync_pending_def
  sync_claimed_def sync_waiting_def sync_other_def sync_db_of_def ob_fresh_def

lemmas sync_tx_eval = tx_return_def tx_fail_def tx_bind_def tx_stmt_def tx_query_def tx_result_def
  run_tx_def sql_update_def as_outcome_def

lemmas sync_row_eval = ob_phase_def ob_identity_phase_def attempt_identity_phase_def
  MAX_VECTOR_SYNC_ATTEMPTS_def is_unknown_upsert_send_def is_delete_unknown_row_def
  is_delete_unknown_evidence_def has_unknown_external_send_evidence_def outbox_row_check_def
  ob_lease_def ob_release_def ob_unbind_def ob_reserve_def sql_after_def sql_not_after_def text_le_def
  ok_or_def update_outbox_def delete_outbox_def generation_usable_def usize_as_i64_def i64_max_def
  applied_count_def in_i64_def block_outcome_def
  binding_row_identity_def binding_row_identity_with_epochs_def

lemmas sync_scan_eval = acquire_runtime_lease_def update_runtime_lease_def select_runtime_fence_def
  quarantine_malformed_target_bindings_in_def recover_expired_fenced_processing_in_def
  quarantine_generation_binding_invariants_in_def generation_binding_rows_in_def
  converge_exhausted_attempt_budget_in_def by_mutation_sequence_def
  block_generation_binding_scan_snapshot_in_def recover_one_in_def lease_expired_at_def

lemmas sync_claim_eval = claim_one_fenced_vector_sync_def claim_tx_def claim_arguments_invalid_def
  select_claim_candidate_def claim_candidate_def claim_candidate_in_def claim_unbound_in_def
  claim_durable_in_def granted_claim_in_def fenced_claim_from_row_def

lemmas sync_current_eval = inspect_fenced_generation_binding_in_def
  inspect_fenced_generation_binding_read_only_in_def inspect_fenced_generation_binding_with_def
  generation_binding_row_for_claim_in_def claim_row_matches_def
  binding_row_has_claim_processing_lease_def claim_binding_broken_def fenced_claim_current_in_def
  fenced_claim_leases_def runtime_lease_held_def lease_is_current_at_def
  fenced_attempt_token_current_in_def claim_projection_def token_finalize_identity_def
  authoritative_now_in_def

lemma sync_times_valid [simp]:
  "is_valid_utc_millis_timestamp sync_t0" "is_valid_utc_millis_timestamp sync_t2"
  "is_valid_utc_millis_timestamp sync_t3" "is_valid_utc_millis_timestamp sync_t5"
  by (simp_all add: is_valid_utc_millis_timestamp_def byte_slice_def decimal_def checked_u32_def
      u32_max_def days_in_month_def is_leap_def is_ascii_digit_def)

lemma sync_times_order [simp]:
  "text_less sync_t0 sync_t2" "text_less sync_t3 sync_t5" "\<not> text_less sync_t3 sync_t2"
  "\<not> text_less sync_t0 sync_t0"
  by simp_all

lemma sync_owner_not_blank [simp]: "\<not> str_blank ''w''"
  by code_simp

lemma sync_name_not_blank: "\<not> str_blank ''life''" "\<not> str_blank ''m''"
  by code_simp+

lemma sync_code_safe [simp]: "safe_error_code ''TIMEOUT'' = ''TIMEOUT''"
  by code_simp

section \<open>Steps\<close>

lemma sync_claims:
  "sync_step sync_ps (sync_db_of [sync_pending] None)
     (sync_early, OpClaim ''g'' ''d'' 3 ''w'' None None)
   = (Inr (OutClaim (Some (sync_claim ''w'' 1 1))),
      sync_db_of [sync_claimed ''w'' 1 1 0 0 None sync_t0 sync_t2 None] (Some (''w'', 1, sync_t2)))"
  by (simp add: sync_sample_eval sync_tx_eval sync_row_eval sync_scan_eval sync_claim_eval Let_def)

lemma sync_reclaims:
  "sync_step sync_ps (sync_db_of [sync_waiting] (Some (''w'', 1, sync_t2)))
     (sync_early, OpClaim ''g'' ''d'' 3 ''w'' None None)
   = (Inr (OutClaim (Some (sync_claim ''w'' 1 2))),
      sync_db_of [sync_claimed ''w'' 1 2 1 1 (Some DEFINITELY_NOT_SENT) sync_t0 sync_t2
                    (Some ''TIMEOUT'')] (Some (''w'', 1, sync_t2)))"
  by (simp add: sync_sample_eval sync_tx_eval sync_row_eval sync_scan_eval sync_claim_eval Let_def)

lemma sync_takes_over:
  "sync_step sync_ps (sync_db_of [sync_waiting] (Some (''w'', 1, sync_t2)))
     (sync_late, OpClaim ''g'' ''d'' 3 ''v'' None None)
   = (Inr (OutClaim (Some (sync_claim ''v'' 2 2))),
      sync_db_of [sync_claimed ''v'' 2 2 1 1 (Some DEFINITELY_NOT_SENT) sync_t3 sync_t5
                    (Some ''TIMEOUT'')] (Some (''v'', 2, sync_t5)))"
  by (simp add: sync_sample_eval sync_tx_eval sync_row_eval sync_scan_eval sync_claim_eval Let_def)

lemma sync_reserves:
  "sync_step sync_ps (sync_db_of [sync_claimed ''w'' 1 1 0 0 None sync_t0 sync_t2 None]
       (Some (''w'', 1, sync_t2))) (sync_early, OpReserve (sync_claim ''w'' 1 1))
   = (Inr (OutReservation (Reserved (sync_token 1 1))),
      sync_db_of [sync_claimed ''w'' 1 1 1 1 (Some POSSIBLY_SENT) sync_t0 sync_t2 None]
        (Some (''w'', 1, sync_t2)))"
  by (simp add: sync_sample_eval sync_tx_eval sync_row_eval sync_current_eval reserve_fenced_attempt_def
      reserve_fenced_attempt_in_def fenced_attempt_token_def checked_add_def checked_i64_def
      Let_def i64_min_def)

lemma sync_reserves_again:
  "sync_step sync_ps (sync_db_of [sync_claimed ''w'' 1 2 1 1 (Some DEFINITELY_NOT_SENT) sync_t0 sync_t2
       (Some ''TIMEOUT'')] (Some (''w'', 1, sync_t2))) (sync_early, OpReserve (sync_claim ''w'' 1 2))
   = (Inr (OutReservation (Reserved (sync_token 2 2))),
      sync_db_of [sync_claimed ''w'' 1 2 2 2 (Some POSSIBLY_SENT) sync_t0 sync_t2 (Some ''TIMEOUT'')]
        (Some (''w'', 1, sync_t2)))"
  by (simp add: sync_sample_eval sync_tx_eval sync_row_eval sync_current_eval reserve_fenced_attempt_def
      reserve_fenced_attempt_in_def fenced_attempt_token_def checked_add_def checked_i64_def
      Let_def i64_min_def)

abbreviation sync_fail :: sync_op where
  "sync_fail \<equiv> OpFail (sync_token 1 1) ''TIMEOUT'' (RetryAfter 10) (Some DEFINITELY_NOT_SENT) 0 0"

lemma sync_fails:
  "sync_step sync_ps (sync_db_of [sync_claimed ''w'' 1 1 1 1 (Some POSSIBLY_SENT) sync_t0 sync_t2 None]
       (Some (''w'', 1, sync_t2))) (sync_early, sync_fail)
   = (Inr (OutFailure (RetryScheduled 10)), sync_db_of [sync_waiting] (Some (''w'', 1, sync_t2)))"
  by (simp add: sync_sample_eval sync_tx_eval sync_row_eval sync_current_eval
      finalize_fenced_vector_failure_def failure_tx_def fail_update_def failure_resolution_in_def
      retry_at_def checked_add_def checked_i64_def Let_def i64_min_def)

lemma sync_finalizes:
  "sync_step sync_ps (sync_db_of [sync_claimed ''w'' 1 1 1 1 (Some POSSIBLY_SENT) sync_t0 sync_t2 None]
       (Some (''w'', 1, sync_t2))) (sync_early, OpFinalize (sync_token 1 1))
   = (Inr (OutFinalize FinalizeApplied),
      (sync_db_of [] (Some (''w'', 1, sync_t2)))\<lparr>items := [\<lparr>gi_generation_id = ''g'',
         gi_life_id = ''life'', gi_memory_id = ''m'', gi_memory_revision = 1, gi_content_hash = ''hash'',
         gi_updated_at = sync_t0\<rparr>]\<rparr>)"
  by (simp add: sync_sample_eval sync_tx_eval sync_row_eval sync_current_eval
      finalize_fenced_vector_sync_def finalize_tx_def upsert_generation_item_def item_put_def
      delete_fenced_attempt_outbox_in_def Let_def)

lemma sync_wf: "outbox_wf (sync_db_of [sync_pending] None)"
  "outbox_wf (sync_db_of [sync_claimed owner fence epoch marked attempts sent now expires code] lease)"
  by (simp_all add: outbox_wf_def sync_sample_eval)

section \<open>The hypotheses can hold\<close>

theorem claim_epoch_is_new_witness:
  "fc_claim_epoch (sync_claim ''w'' 1 1) < fc_claim_epoch (sync_claim ''w'' 1 2)
   \<and> sync_step sync_ps (snd (sync_run sync_ps
         (sync_db_of [sync_claimed ''w'' 1 1 0 0 None sync_t0 sync_t2 None] (Some (''w'', 1, sync_t2)))
         [(sync_early, OpReserve (sync_claim ''w'' 1 1)), (sync_early, sync_fail)]))
       (sync_early, OpClaim ''g'' ''d'' 3 ''w'' None None)
     = (Inr (OutClaim (Some (sync_claim ''w'' 1 2))),
        sync_db_of [sync_claimed ''w'' 1 2 1 1 (Some DEFINITELY_NOT_SENT) sync_t0 sync_t2
                    (Some ''TIMEOUT'')] (Some (''w'', 1, sync_t2)))"
  using claim_epoch_is_new [OF sync_wf(1) sync_claims, where
      ops = "[(sync_early, OpReserve (sync_claim ''w'' 1 1)), (sync_early, sync_fail)]"
      and env' = sync_early and g' = "''g''" and d' = "''d''" and dim' = 3 and owner' = "''w''"
      and cutoff' = None and a' = None and c' = "sync_claim ''w'' 1 2"]
  by (simp add: sync_reserves sync_fails sync_reclaims del: sync_step.simps)
    (simp add: sync_claim_def)

theorem attempts_are_bounded_witness:
  "at_ordinal (sync_token 2 2) \<le> MAX_VECTOR_SYNC_ATTEMPTS
   \<and> (at_ordinal (sync_token 2 2) = at_ordinal (sync_token 1 1)
        \<and> token_epoch (sync_token 2 2) = token_epoch (sync_token 1 1)
      \<or> at_ordinal (sync_token 1 1) < at_ordinal (sync_token 2 2)
        \<and> token_epoch (sync_token 1 1) < token_epoch (sync_token 2 2))"
proof -
  have "token_seq (sync_token 2 2) = token_seq (sync_token 1 1)"
    by (simp add: token_seq_def sync_token_def sync_claim_def)
  with attempts_are_bounded [OF sync_wf(2) sync_reserves, where
      ops = "[(sync_early, sync_fail), (sync_early, OpClaim ''g'' ''d'' 3 ''w'' None None)]"
      and env' = sync_early and c' = "sync_claim ''w'' 1 2" and t' = "sync_token 2 2"]
  show ?thesis
    by (simp add: sync_fails sync_reclaims sync_reserves_again del: sync_step.simps)
qed

abbreviation sync_done :: sync_db where
  "sync_done \<equiv> snd (sync_step sync_ps (sync_db_of [sync_claimed ''w'' 1 1 1 1 (Some POSSIBLY_SENT)
     sync_t0 sync_t2 None] (Some (''w'', 1, sync_t2))) (sync_early, OpFinalize (sync_token 1 1)))"

theorem attempt_settles_once_witness:
  "snd (sync_step sync_ps sync_done (sync_early, sync_fail)) = sync_done
    \<and> \<not> (\<exists>out. fst (sync_step sync_ps sync_done (sync_early, sync_fail)) = Inr out
          \<and> settled_outcome out)"
  using attempt_settles_once [OF sync_wf(2) sync_finalizes _ _ _ _ _ refl, where t = "sync_token 1 1"
      and t' = "sync_token 1 1" and op' = sync_fail and ops = "[]"]
  by (simp add: sync_finalizes settled_outcome_def settling_op_def del: sync_step.simps)

theorem new_consumer_fences_out_old_witness:
  "fc_fence_epoch (sync_claim ''w'' 1 1) < fc_fence_epoch (sync_claim ''v'' 2 2)
   \<and> snd (sync_step sync_ps (sync_db_of [sync_claimed ''v'' 2 2 1 1 (Some DEFINITELY_NOT_SENT) sync_t3
         sync_t5 (Some ''TIMEOUT'')] (Some (''v'', 2, sync_t5)))
       (sync_late, OpFinalize (sync_token 1 1)))
     = sync_db_of [sync_claimed ''v'' 2 2 1 1 (Some DEFINITELY_NOT_SENT) sync_t3 sync_t5
         (Some ''TIMEOUT'')] (Some (''v'', 2, sync_t5))"
proof -
  have "at_claim (sync_token 1 1) = sync_claim ''w'' 1 1" by (simp add: sync_token_def)
  with new_consumer_fences_out_old [OF sync_wf(1) sync_claims, where
      ops = "[(sync_early, OpReserve (sync_claim ''w'' 1 1)), (sync_early, sync_fail)]"
      and env' = sync_late and g' = "''g''" and d' = "''d''" and dim' = 3 and owner' = "''v''"
      and cutoff' = None and a' = None and c' = "sync_claim ''v'' 2 2" and t = "sync_token 1 1"
      and op = "OpFinalize (sync_token 1 1)" and ops' = "[]" and env'' = sync_late]
  show ?thesis
    by (simp add: sync_reserves sync_fails sync_takes_over settling_op_def del: sync_step.simps)
qed

theorem busy_consumer_is_refused_witness:
  "sync_step sync_ps (sync_db_of [sync_pending] (Some (''w'', 1, sync_t2)))
     (sync_early, OpClaim ''g'' ''d'' 3 ''v'' None None)
   = (Inl VectorSyncUnavailable, sync_db_of [sync_pending] (Some (''w'', 1, sync_t2)))"
  by (rule busy_consumer_is_refused [where l = "\<lparr>rl_owner = Some ''w'', rl_fence_epoch = 1,
      rl_expires_at = Some sync_t2\<rparr>" and holder = "''w''" and expiry = sync_t2])
    (simp_all add: sync_db_of_def sync_env_def)

lemma sync_reserves_beside:
  "sync_step sync_ps (sync_db_of [sync_claimed ''w'' 1 1 0 0 None sync_t0 sync_t2 None, sync_other]
       (Some (''w'', 1, sync_t2))) (sync_early, OpReserve (sync_claim ''w'' 1 1))
   = (Inr (OutReservation (Reserved (sync_token 1 1))),
      sync_db_of [sync_claimed ''w'' 1 1 1 1 (Some POSSIBLY_SENT) sync_t0 sync_t2 None, sync_other]
        (Some (''w'', 1, sync_t2)))"
  by (simp add: sync_sample_eval sync_tx_eval sync_row_eval sync_current_eval reserve_fenced_attempt_def
      reserve_fenced_attempt_in_def fenced_attempt_token_def checked_add_def checked_i64_def
      Let_def i64_min_def)

definition sync_other_claim :: fenced_claim where
  "sync_other_claim = (sync_claim ''w'' 1 1)\<lparr>fc_id := 2, fc_memory_id := ''n'', fc_action := Delete,
     fc_mutation_sequence := 2, fc_target_revision := None, fc_target_content_hash := None\<rparr>"

text \<open>Beside the possibly sent write, the consumer gets the claim of another memory.\<close>

lemma sync_claims_beside:
  "fst (sync_step sync_ps (sync_db_of [sync_claimed ''w'' 1 1 1 1 (Some POSSIBLY_SENT) sync_t0 sync_t2 None,
       sync_other] (Some (''w'', 1, sync_t2))) (sync_early, OpClaim ''g'' ''d'' 3 ''w'' None None))
   = Inr (OutClaim (Some sync_other_claim))"
  by (simp add: sync_sample_eval sync_tx_eval sync_row_eval sync_scan_eval sync_claim_eval Let_def
      sync_other_claim_def)

theorem possibly_sent_is_not_reclaimed_witness:
  "fc_mutation_sequence sync_other_claim \<noteq> token_seq (sync_token 1 1)"
proof (rule possibly_sent_is_not_reclaimed [OF _ sync_reserves_beside, where ops = "[]"])
  show "outbox_wf (sync_db_of [sync_claimed ''w'' 1 1 0 0 None sync_t0 sync_t2 None, sync_other]
      (Some (''w'', 1, sync_t2)))"
    by (simp add: outbox_wf_def sync_sample_eval)
  show "sync_step sync_ps (snd (sync_run sync_ps (sync_db_of [sync_claimed ''w'' 1 1 1 1
          (Some POSSIBLY_SENT) sync_t0 sync_t2 None, sync_other] (Some (''w'', 1, sync_t2))) []))
        (sync_early, OpClaim ''g'' ''d'' 3 ''w'' None None)
      = (Inr (OutClaim (Some sync_other_claim)),
         snd (sync_step sync_ps (sync_db_of [sync_claimed ''w'' 1 1 1 1 (Some POSSIBLY_SENT) sync_t0
           sync_t2 None, sync_other] (Some (''w'', 1, sync_t2)))
           (sync_early, OpClaim ''g'' ''d'' 3 ''w'' None None)))"
    by (simp add: prod_eq_iff sync_claims_beside del: sync_step.simps)
qed (simp_all add: send_recorded_def sync_token_def sync_claim_def sync_db_of_def sync_claimed_def
    sync_pending_def ob_fresh_def)

lemma sync_enqueues:
  "sync_step sync_ps (sync_db_of [sync_claimed ''w'' 1 1 1 1 (Some POSSIBLY_SENT) sync_t0 sync_t2 None]
       None) (sync_early, OpEnqueue ''life'' ''m'' Delete)
   = (Inr (OutJob (ob_requeue Delete 3 (None, None) sync_t0 sync_pending)),
      (sync_db_of [ob_requeue Delete 3 (None, None) sync_t0 sync_pending] None)
        \<lparr>mutation_clock := Some 3\<rparr>)"
  by (simp add: sync_sample_eval sync_tx_eval sync_row_eval enqueue_def enqueue_in_transaction_def
      validate_ids_def require_def sync_name_not_blank enqueue_target_def advance_mutation_clock_def
      authoritative_now_in_def supersede_for_new_mutation_in_def update_late_rows_def
      upsert_outbox_def load_job_def ob_requeue_def u32_max_def Let_def)

theorem enqueue_replaces_mutation_witness:
  "token_settled (sync_token 1 1) (snd (sync_step sync_ps (sync_db_of [sync_claimed ''w'' 1 1 1 1
     (Some POSSIBLY_SENT) sync_t0 sync_t2 None] None) (sync_early, OpEnqueue ''life'' ''m'' Delete)))"
proof -
  let ?r = "sync_claimed ''w'' 1 1 1 1 (Some POSSIBLY_SENT) sync_t0 sync_t2 None"
  have "of_memory ''life'' ''m'' ?r \<and> ob_mutation_sequence ?r = token_seq (sync_token 1 1)"
    by (simp add: of_memory_def sync_sample_eval token_seq_def)
  moreover have "?r \<in> set (outbox (sync_db_of [?r] None))" by (simp add: sync_db_of_def)
  ultimately show ?thesis
    using enqueue_replaces_mutation [OF sync_wf(2) sync_enqueues]
    unfolding sync_enqueues snd_conv by blast
qed

theorem finalize_recheck_is_exact_witness:
  "fenced_success_finalize_is_applied (sync_token 1 1) sync_done"
proof -
  have "\<not> (sync_done = sync_db_of [sync_claimed ''w'' 1 1 1 1 (Some POSSIBLY_SENT) sync_t0 sync_t2 None]
      (Some (''w'', 1, sync_t2)))"
    unfolding sync_finalizes by (simp add: sync_db_of_def)
  with finalize_recheck_is_exact [OF sync_wf(2) _ _ _ _ sync_finalizes,
      of "sync_claimed ''w'' 1 1 1 1 (Some POSSIBLY_SENT) sync_t0 sync_t2 None"]
  show ?thesis
    unfolding sync_finalizes snd_conv by (auto simp: sync_sample_eval)
qed

end
