(* ===== verification/Late_Delete_Samples.thy ===== *)
theory Late_Delete_Samples
  imports Late_Deletes Vector_Sync_Samples
begin

text \<open>
  Sample runs of the late-delete store: one memory with one unresolved delete, an active generation,
  two resolvers. They show that the hypotheses of the guarantees in Late_Deletes can hold together.
\<close>

section \<open>States\<close>

definition late_env :: "string \<Rightarrow> string \<Rightarrow> sql_env" where
  "late_env now later =
     (sync_env now later)\<lparr>sq_strftime := (\<lambda>_ _. Some ''2026-01-02T00:00:00.000Z'')\<rparr>"

abbreviation late_early :: sql_env where "late_early \<equiv> late_env sync_t0 sync_t2"
abbreviation late_later :: sql_env where "late_later \<equiv> late_env sync_t3 sync_t5"

definition late_sample_identity :: late_identity where
  "late_sample_identity =
     \<lparr>li_life_id = ''life'', li_memory_id = ''m'', li_mutation_sequence = 1, li_generation_id = ''g'',
      li_descriptor_id = ''d'', li_dimension = 3, li_generation_state = GenBuilding,
      li_attempt_ordinal = 1, li_claim_epoch = 1, li_marked_claim_epoch = 1,
      li_send_disposition = Some POSSIBLY_SENT, li_error_code = None, li_age_anchor_at = sync_t0,
      li_generation_epoch = 1, li_outbox_id = 1\<rparr>"

definition late_sample ::
    "late_state \<Rightarrow> int \<Rightarrow> int \<Rightarrow> int \<Rightarrow> (string \<times> int \<times> string) option \<Rightarrow> (string \<times> int) option
     \<Rightarrow> string option \<Rightarrow> string option \<Rightarrow> string \<Rightarrow> late_row" where
  "late_sample state epoch count reserved lease disposition code resolved now =
     \<lparr>lr_id = 1, lr_identity = late_sample_identity, lr_state = state, lr_resolution_count = count,
      lr_resolution_epoch = epoch, lr_last_reserved_epoch = reserved,
      lr_lease_owner = map_option fst lease, lr_lease_fence_epoch = map_option (fst \<circ> snd) lease,
      lr_lease_expires_at = map_option (snd \<circ> snd) lease, lr_next_attempt_at = None,
      lr_last_disposition = map_option fst disposition,
      lr_last_disposition_epoch = (case disposition of None \<Rightarrow> 0 | Some d \<Rightarrow> snd d),
      lr_last_error_code = code, lr_resolved_at = resolved, lr_created_at = sync_t0,
      lr_updated_at = now\<rparr>"

definition late_db_of :: "late_row list \<Rightarrow> (string option \<times> int \<times> string option) \<Rightarrow> sync_db" where
  "late_db_of rows lease =
     (sync_db_of [] None)\<lparr>late_rows := rows,
        late_lease := Some \<lparr>rl_owner = fst lease, rl_fence_epoch = fst (snd lease),
                           rl_expires_at = snd (snd lease)\<rparr>\<rparr>"

definition late_sample_lease :: "string \<Rightarrow> int \<Rightarrow> late_runtime_lease" where
  "late_sample_lease owner fence = \<lparr>ll_owner = owner, ll_fence_epoch = fence\<rparr>"

definition late_sample_claim :: "string \<Rightarrow> int \<Rightarrow> int \<Rightarrow> int \<Rightarrow> late_claim" where
  "late_sample_claim owner fence epoch count =
     \<lparr>lc_resolution_id = 1, lc_witness = late_witness.truncate late_sample_identity,
      lc_lease_owner = owner, lc_fence_epoch = fence, lc_resolution_epoch = epoch,
      lc_resolution_count = count\<rparr>"

definition late_sample_token :: "int \<Rightarrow> int \<Rightarrow> int \<Rightarrow> late_token" where
  "late_sample_token fence epoch ordinal =
     \<lparr>lt_resolution_id = 1, lt_identity = late_sample_identity, lt_desired_action = LateActionDelete,
      lt_target_revision = None, lt_target_content_hash = None, lt_lease_owner = ''w'',
      lt_fence_epoch = fence, lt_resolution_epoch = epoch, lt_resolution_ordinal = ordinal\<rparr>"

definition late_sample_present :: "late_token \<Rightarrow> present_post_query" where
  "late_sample_present t = \<lparr>pq_token = t, pq_revision = 1, pq_content_hash = ''hash''\<rparr>"

lemmas late_sample_eval = sync_env_def late_env_def sync_db_of_def late_db_of_def late_sample_def
  late_sample_lease_def late_sample_claim_def late_sample_token_def late_sample_present_def
  late_sample_identity_def late_witness.truncate_def

lemmas late_store_eval = tx_return_def tx_fail_def tx_bind_def tx_stmt_def tx_query_def tx_result_def
  run_tx_def sql_update_def authoritative_now_in_def sql_after_def sql_not_after_def text_le_def
  ok_or_def load_resolution_in_def late_runtime_live_def resolution_authority_is_current_in_def
  update_late_rows_def MAX_LATE_DELETE_RESOLUTIONS_def RUNTIME_LEASE_SECONDS_def late_terminal_def
  late_row_check_def late_identity_check_def late_unlease_def late_as_def

lemmas late_claim_eval = claim_one_late_delete_resolution_def late_claim_tx_def
  runtime_lease_is_current_in_def select_next_candidate_in_def late_in_order_def late_candidate_def
  claim_row_in_def late_claimed_def late_claim_of_def

lemmas late_reserve_eval = reserve_late_delete_resolution_def late_reserve_tx_def
  runtime_lease_matches_in_def claim_matches_row_def reserve_row_in_def late_reserve_def
  late_token_of_def

lemmas late_token_eval = token_is_current_in_def token_targets_delete_def

lemmas late_issue_eval = issue_late_delete_permit_core_def late_issue_tx_def issue_row_in_def
  late_delete_started_def

lemmas late_settle_eval = transition_late_delete_resolution_def transition_tx_def transition_row_in_def
  transition_post_delete_def post_delete_tx_def post_delete_row_in_def late_settled_def transition_defs

lemma late_times_order [simp]:
  "text_less sync_t0 ''2026-01-02T00:00:00.000Z''" "text_less sync_t3 ''2026-01-02T00:00:00.000Z''"
  "text_less sync_t2 sync_t3"
  by simp_all

lemma late_owners: "\<not> str_blank ''w''" "\<not> str_blank ''v''"
  by code_simp+

section \<open>Steps\<close>

abbreviation late_lease1 :: "string option \<times> int \<times> string option" where
  "late_lease1 \<equiv> (Some ''w'', 1, Some sync_t2)"

abbreviation late_claimed1 :: sync_db where
  "late_claimed1 \<equiv> late_db_of [late_sample LateClaimed 1 0 0 (Some (''w'', 1, sync_t2)) None None None
     sync_t0] late_lease1"

abbreviation late_processing1 :: sync_db where
  "late_processing1 \<equiv> late_db_of [late_sample LateProcessing 1 1 1 (Some (''w'', 1, sync_t2)) None None
     None sync_t0] late_lease1"

abbreviation late_unknown1 :: sync_db where
  "late_unknown1 \<equiv> late_db_of [late_sample LateUnknown 1 1 1 None (Some (''query_unknown'', 1))
     (Some ''E'') None sync_t0] late_lease1"

abbreviation late_claimed2 :: sync_db where
  "late_claimed2 \<equiv> late_db_of [late_sample LateClaimed 2 1 1 (Some (''w'', 1, sync_t2))
     (Some (''query_unknown'', 1)) (Some ''E'') None sync_t0] late_lease1"

abbreviation late_processing2 :: sync_db where
  "late_processing2 \<equiv> late_db_of [late_sample LateProcessing 2 2 2 (Some (''w'', 1, sync_t2))
     (Some (''query_unknown'', 1)) (Some ''E'') None sync_t0] late_lease1"

lemma late_reserves:
  "reserve_late_delete_resolution (late_sample_claim ''w'' 1 1 0) late_early late_claimed1
   = (Inr (LateReserved (late_sample_token 1 1 1)), late_processing1)"
  by (simp add: late_sample_eval late_store_eval late_reserve_eval Let_def)

lemma late_marks_unknown:
  "late_step late_processing1 (late_early, LateMarkUnknown (late_sample_token 1 1 1) DispQueryUnknown ''E'')
   = (Inr (LoFinalize LateApplied), late_unknown1)"
  by (simp add: late_sample_eval late_store_eval late_token_eval late_settle_eval Let_def)

lemma late_claims_again:
  "late_step late_unknown1 (late_early, LateClaimOne (late_sample_lease ''w'' 1))
   = (Inr (LoClaim (ClaimedResolution (late_sample_claim ''w'' 1 2 1))), late_claimed2)"
  by (simp add: late_sample_eval late_store_eval late_claim_eval Let_def)

lemma late_reserves_again:
  "reserve_late_delete_resolution (late_sample_claim ''w'' 1 2 1) late_early late_claimed2
   = (Inr (LateReserved (late_sample_token 1 2 2)), late_processing2)"
  by (simp add: late_sample_eval late_store_eval late_reserve_eval Let_def)

lemma late_sample_wf: "outbox_wf late_claimed1" "late_wf late_claimed1"
  "outbox_wf late_processing1" "late_wf late_processing1"
  by (simp_all add: outbox_wf_def late_wf_def late_current_def late_sample_eval late_row_check_def
      late_identity_check_def late_terminal_def)

abbreviation late_started1 :: sync_db where
  "late_started1 \<equiv> late_db_of [late_sample LateProcessing 1 1 1 (Some (''w'', 1, sync_t2))
     (Some (''delete_started'', 1)) None None sync_t0] late_lease1"

abbreviation late_failed1 :: sync_db where
  "late_failed1 \<equiv> late_db_of [late_sample LateUnknown 1 1 1 (Some (''w'', 1, sync_t2))
     (Some (''delete_unknown'', 1)) (Some ''LATE_DELETE_STORE_UNAVAILABLE'') None sync_t0] late_lease1"

abbreviation late_lease2 :: "string option \<times> int \<times> string option" where
  "late_lease2 \<equiv> (Some ''w'', 2, Some sync_t5)"

abbreviation late_acquired2 :: sync_db where
  "late_acquired2 \<equiv> late_db_of [late_sample LateUnknown 1 1 1 (Some (''w'', 1, sync_t2))
     (Some (''delete_unknown'', 1)) (Some ''LATE_DELETE_STORE_UNAVAILABLE'') None sync_t0] late_lease2"

abbreviation late_reclaimed2 :: sync_db where
  "late_reclaimed2 \<equiv> late_db_of [late_sample LateClaimed 2 1 1 (Some (''w'', 2, sync_t5))
     (Some (''delete_unknown'', 1)) (Some ''LATE_DELETE_STORE_UNAVAILABLE'') None sync_t3] late_lease2"

abbreviation late_rereserved2 :: sync_db where
  "late_rereserved2 \<equiv> late_db_of [late_sample LateProcessing 2 2 2 (Some (''w'', 2, sync_t5))
     (Some (''delete_unknown'', 1)) (Some ''LATE_DELETE_STORE_UNAVAILABLE'') None sync_t3] late_lease2"

abbreviation late_restarted2 :: sync_db where
  "late_restarted2 \<equiv> late_db_of [late_sample LateProcessing 2 2 2 (Some (''w'', 2, sync_t5))
     (Some (''delete_started'', 2)) (Some ''LATE_DELETE_STORE_UNAVAILABLE'') None sync_t3] late_lease2"

definition late_sample_permit :: "late_token \<Rightarrow> delete_permit" where
  "late_sample_permit t = \<lparr>dp_token = t, dp_revision = 1, dp_content_hash = ''hash''\<rparr>"

lemma late_issues:
  "issue_late_delete_permit_core (late_sample_present (late_sample_token 1 1 1)) late_early
     late_processing1
   = (Inr (CoreIssued (late_sample_permit (late_sample_token 1 1 1))), late_started1)"
  by (simp add: late_sample_permit_def late_sample_eval late_store_eval late_token_eval
      late_issue_eval Let_def)

lemma late_delete_fails:
  "late_step late_started1 (late_early, LatePostFailed (late_sample_token 1 1 1) StoreUnavailable)
   = (Inr (LoPostDelete PostDeleteApplied), late_failed1)"
  by (simp add: late_sample_eval late_store_eval late_token_eval late_settle_eval Let_def delete_failure_error_code_def)

lemma late_acquires_again:
  "acquire_late_delete_runtime_lease ''w'' late_later late_failed1
   = (Inr (Some (late_sample_lease ''w'' 2)), late_acquired2)"
  by (simp add: late_sample_eval late_store_eval acquire_late_delete_runtime_lease_def
      update_late_lease_def late_lease_taken_def late_lease_check_def late_owners)

lemma late_acquires_step:
  "late_step late_failed1 (late_later, LateAcquire ''w'')
   = (Inr (LoLease (Some (late_sample_lease ''w'' 2))), late_acquired2)"
  by (simp add: late_acquires_again late_as_def)

lemma late_claims_second:
  "late_step late_acquired2 (late_later, LateClaimOne (late_sample_lease ''w'' 2))
   = (Inr (LoClaim (ClaimedResolution (late_sample_claim ''w'' 2 2 1))), late_reclaimed2)"
  by (simp add: late_sample_eval late_store_eval late_claim_eval Let_def)

lemma late_reserves_second:
  "late_step late_reclaimed2 (late_later, LateReserveSlot (late_sample_claim ''w'' 2 2 1))
   = (Inr (LoReservation (LateReserved (late_sample_token 2 2 2))), late_rereserved2)"
  by (simp add: late_sample_eval late_store_eval late_reserve_eval Let_def)

lemma late_issues_again:
  "issue_late_delete_permit_core (late_sample_present (late_sample_token 2 2 2)) late_later
     late_rereserved2
   = (Inr (CoreIssued (late_sample_permit (late_sample_token 2 2 2))), late_restarted2)"
  by (simp add: late_sample_permit_def late_sample_eval late_store_eval late_token_eval
      late_issue_eval Let_def)

text \<open>A resolution that is over.\<close>

definition late_over_row :: late_row where
  "late_over_row = late_sample LateResolvedDeleted 1 1 1 None (Some (''delete_deleted'', 1)) None
     (Some sync_t0) sync_t0"

abbreviation late_over :: sync_db where
  "late_over \<equiv> late_db_of [late_over_row] late_lease1"

lemma late_over_wf: "outbox_wf late_over" "late_wf late_over"
  by (simp_all add: outbox_wf_def late_wf_def late_current_def late_over_row_def late_sample_eval
      late_row_check_def late_identity_check_def late_terminal_def)

text \<open>A free lease, two resolvers, and the first one again.\<close>

abbreviation late_free :: sync_db where
  "late_free \<equiv> late_db_of [] (None, 0, None)"

abbreviation late_first :: sync_db where
  "late_first \<equiv> late_db_of [] late_lease1"

abbreviation late_second :: sync_db where
  "late_second \<equiv> late_db_of [] (Some ''v'', 2, Some sync_t5)"

lemma late_free_wf: "outbox_wf late_free" "late_wf late_free"
  by (simp_all add: outbox_wf_def late_wf_def late_current_def late_sample_eval)

lemma late_acquires_first:
  "acquire_late_delete_runtime_lease ''w'' late_early late_free
   = (Inr (Some (late_sample_lease ''w'' 1)), late_first)"
  by (simp add: late_sample_eval late_store_eval acquire_late_delete_runtime_lease_def
      update_late_lease_def late_lease_taken_def late_lease_check_def late_owners)

lemma late_acquires_second:
  "acquire_late_delete_runtime_lease ''v'' late_later late_first
   = (Inr (Some (late_sample_lease ''v'' 2)), late_second)"
  by (simp add: late_sample_eval late_store_eval acquire_late_delete_runtime_lease_def
      update_late_lease_def late_lease_taken_def late_lease_check_def late_owners)

lemma late_old_claims:
  "late_step late_second (late_early, LateClaimOne (late_sample_lease ''w'' 1))
   = (Inr (LoClaim NoEligibleResolution), late_second)"
  by (simp add: late_sample_eval late_store_eval late_claim_eval Let_def)

section \<open>The hypotheses can hold\<close>

theorem late_slots_are_bounded_witness:
  "1 \<le> lt_resolution_ordinal (late_sample_token 1 1 1)
   \<and> lt_resolution_ordinal (late_sample_token 1 1 1) < lt_resolution_ordinal (late_sample_token 1 2 2)
   \<and> lt_resolution_ordinal (late_sample_token 1 2 2) \<le> MAX_LATE_DELETE_RESOLUTIONS
   \<and> lt_resolution_epoch (late_sample_token 1 1 1) < lt_resolution_epoch (late_sample_token 1 2 2)"
proof (rule late_slots_are_bounded [OF late_sample_wf(1,2) late_reserves _ late_reserves_again])
  show "snd (sync_run sync_ps late_processing1
     [(late_early, OpLate (LateMarkUnknown (late_sample_token 1 1 1) DispQueryUnknown ''E'')),
      (late_early, OpLate (LateClaimOne (late_sample_lease ''w'' 1)))]) = late_claimed2"
    by (simp add: late_marks_unknown late_claims_again del: late_step.simps)
qed (simp add: late_sample_token_def)

theorem delete_permit_is_unique_witness:
  "late_sample_permit (late_sample_token 1 1 1)
     = \<lparr>dp_token = late_sample_token 1 1 1, dp_revision = 1, dp_content_hash = ''hash''\<rparr>
   \<and> list_ex (delete_started_row (late_sample_token 1 1 1)) (late_rows late_started1)
   \<and> lt_resolution_epoch (late_sample_token 1 1 1) < lt_resolution_epoch (late_sample_token 2 2 2)
   \<and> 1 \<le> lt_resolution_ordinal (late_sample_token 1 1 1)
   \<and> lt_resolution_ordinal (late_sample_token 1 1 1)
      < lt_resolution_ordinal (late_sample_token 2 2 2)
   \<and> lt_resolution_ordinal (late_sample_token 2 2 2) \<le> MAX_LATE_DELETE_RESOLUTIONS"
proof -
  have run: "snd (sync_run sync_ps late_started1
     [(late_early, OpLate (LatePostFailed (late_sample_token 1 1 1) StoreUnavailable)),
      (late_later, OpLate (LateAcquire ''w'')),
      (late_later, OpLate (LateClaimOne (late_sample_lease ''w'' 2))),
      (late_later, OpLate (LateReserveSlot (late_sample_claim ''w'' 2 2 1)))]) = late_rereserved2"
    by (simp add: late_delete_fails late_claims_second late_reserves_second late_acquires_step
        del: late_step.simps)
  have same: "lt_resolution_id (dp_token (late_sample_permit (late_sample_token 2 2 2)))
     = lt_resolution_id (dp_token (late_sample_permit (late_sample_token 1 1 1)))"
    by (simp add: late_sample_permit_def late_sample_token_def)
  show ?thesis
    using delete_permit_is_unique
      [OF late_sample_wf(3,4) late_issues run late_issues_again same]
    by (simp add: late_sample_permit_def late_sample_present_def)
qed

theorem new_resolver_fences_out_old_witness:
  "ll_fence_epoch (late_sample_lease ''w'' 1) < ll_fence_epoch (late_sample_lease ''v'' 2)
   \<and> \<not> late_granted (LoClaim NoEligibleResolution)"
proof (rule new_resolver_fences_out_old
    [OF late_free_wf late_acquires_first _ late_acquires_second _ _ late_old_claims])
  show "snd (sync_run sync_ps late_first []) = late_first" by simp
  show "snd (sync_run sync_ps late_second []) = late_second" by simp
qed simp

theorem one_unresolved_late_delete_witness:
  "late_over_row \<in> set (late_rows (snd (sync_run sync_ps late_over
     [(late_early, OpLate (LateClaimOne (late_sample_lease ''w'' 1))),
      (late_later, OpLate (LateAcquire ''v''))])))"
proof -
  have row: "late_over_row \<in> set (late_rows late_over)" "late_terminal (lr_state late_over_row)"
    by (simp_all add: late_over_row_def late_sample_eval late_terminal_def)
  show ?thesis
    using one_unresolved_late_delete [OF late_over_wf refl, THEN conjunct1] row by blast
qed

end
