(* ===== verification/Late_Delete_Pass_Samples.thy ===== *)
theory Late_Delete_Pass_Samples
  imports Late_Delete_Resolver Late_Delete_Samples
begin

text \<open>
  A sample pass of the resolver: it finds one open late delete, queries its record, deletes it and
  closes the resolution. It shows that the hypotheses of the guarantees in Late_Delete_Resolver can
  hold together.
\<close>

section \<open>The pass\<close>

definition late_found :: vector_metadata_sample where
  "late_found = \<lparr>vs_generation_id = ''g'', vs_life_id = ''life'', vs_memory_id = ''m'',
     vs_memory_revision = 1, vs_content_hash = ''hash'', vs_descriptor_hash = ''d'', vs_dimension = 3\<rparr>"

definition late_run_env :: runner_env where
  "late_run_env = \<lparr>ru_sync = sync_ps, ru_sql = (\<lambda>_. late_early), ru_others = (\<lambda>_. []),
     ru_existing = (\<lambda>_ _. Inr ()), ru_query = (\<lambda>_ _ _ _. Inr (Some late_found)),
     ru_delete = (\<lambda>_ _ _ _ _ _. Inr CondDeleted)\<rparr>"

definition late_context :: vector_generation_context where
  "late_context = \<lparr>vc_generation_id = VectorGenerationId ''g'', vc_descriptor_hash = ''d'',
     vc_dimension = 3\<rparr>"

abbreviation late_token1 :: late_token where "late_token1 \<equiv> late_sample_token 1 1 1"
abbreviation late_lease_w :: late_runtime_lease where "late_lease_w \<equiv> late_sample_lease ''w'' 1"

abbreviation late_open_row :: late_row where
  "late_open_row \<equiv> late_sample LatePending 0 0 0 None None None None sync_t0"

abbreviation late_open :: sync_db where "late_open \<equiv> late_db_of [late_open_row] (None, 0, None)"
abbreviation late_leased :: sync_db where "late_leased \<equiv> late_db_of [late_open_row] late_lease1"
abbreviation late_deleted1 :: sync_db where "late_deleted1 \<equiv> late_db_of [late_over_row] late_lease1"
abbreviation late_released1 :: sync_db where
  "late_released1 \<equiv> late_db_of [late_over_row] (None, 1, None)"

lemma late_open_wf: "outbox_wf late_open" "late_wf late_open"
  by (simp_all add: outbox_wf_def late_wf_def late_current_def late_sample_eval late_row_check_def
      late_identity_check_def late_terminal_def)

lemma late_contexts:
  "context_from_query_token late_token1 = Some late_context"
  "context_matches_query_token late_token1 late_context"
  "delete_context_from_token late_token1 1 ''hash'' = Some late_context"
  "delete_context_of_permit (late_sample_permit late_token1) = Some late_context"
  "query_sample_corruption_code late_token1 late_context late_found = None"
  by code_simp+

lemma late_run_calls:
  "acquire_late_delete_runtime_lease ''w'' late_early late_open = (Inr (Some late_lease_w), late_leased)"
  "recover_expired_late_delete_resolutions late_early late_leased = (Inr 0, late_leased)"
  "claim_one_late_delete_resolution late_lease_w late_early late_leased
     = (Inr (ClaimedResolution (late_sample_claim ''w'' 1 1 0)), late_claimed1)"
  "reserve_late_delete_resolution_for_query (late_sample_claim ''w'' 1 1 0) late_early late_claimed1
     = (Inr (QueryReserved (QueryPermit late_token1)), late_processing1)"
  "late_delete_resolution_token_is_current late_token1 late_early late_processing1
     = (Inr True, late_processing1)"
  "late_delete_delete_permit_is_current late_token1 late_early late_started1
     = (Inr True, late_started1)"
  "finalize_deleted_post_delete late_token1 late_early late_started1
     = (Inr PostDeleteApplied, late_deleted1)"
  "release_late_delete_runtime_lease late_lease_w late_early late_deleted1
     = (Inr True, late_released1)"
  subgoal
    by (simp add: late_sample_eval late_store_eval acquire_late_delete_runtime_lease_def
        update_late_lease_def late_lease_taken_def late_lease_check_def late_owners)
  subgoal
    by (simp add: late_sample_eval late_store_eval recover_expired_late_delete_resolutions_def
        recover_tx_def expired_delete_started_def recover_delete_started_in_def not_delete_started_def)
  subgoal by (simp add: late_sample_eval late_store_eval late_claim_eval Let_def)
  subgoal by (simp add: reserve_late_delete_resolution_for_query_def late_reserves)
  subgoal
    by (simp add: late_sample_eval late_store_eval late_token_eval
        late_delete_resolution_token_is_current_def)
  subgoal
    by (simp add: late_sample_eval late_store_eval late_token_eval
        late_delete_delete_permit_is_current_def delete_started_row_def)
  subgoal
    by (simp add: late_over_row_def late_sample_eval late_store_eval late_token_eval late_settle_eval
        Let_def)
  subgoal
    by (simp add: late_over_row_def late_sample_eval late_store_eval
        release_late_delete_runtime_lease_def update_late_lease_def late_lease_check_def)
  done

definition late_sample_calls :: "runner_event list" where
  "late_sample_calls =
     [RunCall late_early (LateAcquire ''w'') (Inr (LoLease (Some late_lease_w))),
      RunCall late_early LateRecover (Inr (LoCount 0)),
      RunCall late_early (LateClaimOne late_lease_w)
        (Inr (LoClaim (ClaimedResolution (late_sample_claim ''w'' 1 1 0)))),
      RunCall late_early (LateReserveSlot (late_sample_claim ''w'' 1 1 0))
        (Inr (LoReservation (LateReserved late_token1))),
      RunCall late_early (LateTokenCurrent late_token1) (Inr (LoBool True)),
      RunResolve (VectorGenerationId ''g''),
      RunCall late_early (LateTokenCurrent late_token1) (Inr (LoBool True)),
      RunQuery late_context ''life'' ''m'' (Inr (Some late_found)),
      RunCall late_early (LateIssue (late_sample_present late_token1))
        (Inr (LoIssuance (CoreIssued (late_sample_permit late_token1)))),
      RunCall late_early (LatePermitCurrent late_token1) (Inr (LoBool True)),
      RunResolve (VectorGenerationId ''g''),
      RunCall late_early (LatePermitCurrent late_token1) (Inr (LoBool True)),
      RunDelete late_token1 late_context ''life'' ''m'' 1 ''hash'' (Inr CondDeleted),
      RunCall late_early (LatePostDeleted late_token1) (Inr (LoPostDelete PostDeleteApplied)),
      RunCall late_early (LateRelease late_lease_w) (Inr (LoBool True))]"

lemma late_issues_for_runner:
  "issue_late_delete_permit_for_runner (late_sample_present late_token1) late_early sql
     late_processing1
   = (Inr (RunnerIssued (late_sample_permit late_token1)), late_started1)"
  by (simp add: issue_late_delete_permit_for_runner_def late_issues)

lemma late_found_present:
  "query_outcome late_token1 late_context (Inr (Some late_found))
     = QueryPresent (late_sample_present late_token1)"
  by (simp add: query_outcome_def late_contexts late_sample_present_def) (simp add: late_found_def)

lemma late_parts:
  "li_life_id (lt_identity late_token1) = ''life''" "li_memory_id (lt_identity late_token1) = ''m''"
  "dp_token (late_sample_permit t) = t" "dp_revision (late_sample_permit t) = 1"
  "dp_content_hash (late_sample_permit t) = ''hash''"
  "vc_generation_id late_context = VectorGenerationId ''g''"
  by (simp_all add: late_sample_token_def late_sample_identity_def late_sample_permit_def
      late_context_def)

lemmas late_pass_programs = run_one_late_delete_def run_one_while_leased_def
  execute_exact_query_once_with_provider_def execute_exact_query_once_def settle_queried_def
  run_one_after_query_present_def issue_for_runner_def
  execute_conditional_delete_once_with_provider_def execute_conditional_delete_once_def
  settle_deleted_def delete_outcome_def existing_for_generation_def get_generation_metadata_def
  delete_generation_memory_if_matches_def ru_bind_def ru_return_def ru_call_def ru_ask_def
  ru_before_def ru_after_def late_run_env_def

lemma late_sample_pass:
  "run_one_late_delete ''w'' late_run_env \<lparr>rw_time = 0, rw_db = late_open, rw_log = []\<rparr>
   = (Inr (RunProcessed 0),
      \<lparr>rw_time = 15, rw_db = late_released1, rw_log = map (\<lambda>c. ([], c)) late_sample_calls\<rparr>)"
  by (simp add: late_pass_programs late_run_calls late_issues late_issues_for_runner late_reserves
      late_found_present late_contexts late_parts late_as_def Let_def late_sample_calls_def)

section \<open>The hypotheses can hold\<close>

lemma map_snd_calls: "map snd (map (\<lambda>c. ([], c)) xs) = xs"
  by (induction xs) simp_all

theorem late_delete_pass_is_a_run_witness:
  "late_released1 = snd (sync_run sync_ps late_open (log_ops (map (\<lambda>c. ([], c)) late_sample_calls)))
   \<and> length (filter is_query late_sample_calls) \<le> 1"
  using late_delete_pass_is_a_run [OF late_sample_pass]
  by (simp only: map_snd_calls runner_world.simps) (simp add: late_run_env_def)

theorem delete_follows_its_query_witness:
  "''life'' = li_life_id (lt_identity late_token1)
   \<and> run_permits late_sample_calls = [late_token1]
   \<and> list_ex is_external late_sample_calls"
  using delete_follows_its_query [OF late_sample_pass, where t = late_token1 and c = late_context
      and life = "''life''" and memory = "''m''" and revision = 1 and content_hash = "''hash''"
      and answer = "Inr CondDeleted"]
  by (simp only: map_snd_calls runner_world.simps) (simp add: late_sample_calls_def)

theorem three_deletes_at_most_witness:
  "int (length (filter (\<lambda>t. lt_resolution_id t = 1) (run_deletes late_sample_calls)))
     \<le> MAX_LATE_DELETE_RESOLUTIONS
   \<and> run_deletes late_sample_calls = [late_token1]"
proof -
  let ?w = "\<lparr>rw_time = 0, rw_db = late_open, rw_log = []\<rparr>"
  have "rw_log (run_late_passes sync_ps [(''w'', late_run_env)] ?w) = map (\<lambda>c. ([], c)) late_sample_calls"
    using late_sample_pass by (simp add: late_run_env_def)
  with three_deletes_at_most [of ?w 1 sync_ps "[(''w'', late_run_env)]"] late_open_wf
  have "int (length (filter (\<lambda>t. lt_resolution_id t = 1) (run_deletes late_sample_calls)))
      \<le> MAX_LATE_DELETE_RESOLUTIONS"
    by (simp only: map_snd_calls runner_world.simps)
  then show ?thesis by (simp add: late_sample_calls_def)
qed

end
