(* ===== verification/Spec2Isabelle.thy ===== *)
theory Spec2Isabelle
  imports Life_Intents Governed_Turns Relationship_Ledger Ip_Policy Header_Limit Offer_Gate Screen_Store Autonomy_Decisions
    Late_Delete_Pass_Samples
begin

text \<open>
  Verification library of digital-life, a desktop companion. The Rust backend (\<open>src-tauri/src\<close>) keeps
  the life of the companion in one SQLite file: conversations, an emotional state and a relationship
  that evolve with every turn, episodes as evidence of the turns, goals and plans, a policy for its
  own initiatives, consents for looking at the screen, and the queue that keeps the vector index of
  its memories in step. Around the file stand the guards of the network and of the perception
  features. The library models these repositories, policies and guards.

  \<^bold>\<open>Parts and theories\<close>

  \<^item> Shared. \<open>Rust_Prelude\<close>: results and the question mark, casts and checked operations, strings,
    \<open>trim\<close>, decimal numbers. \<open>Sql_Table\<close>: a table as the list of its rows, keys, and a transaction that
    either commits or leaves the database alone. \<open>Sql_Transaction\<close>: a transaction as a chain of
    statements that ask an environment. \<open>Revision_Store\<close>: the contract (locales) of a store whose
    mutations name the revision they build on and are recorded as events.
  \<^item> Conversation turns. \<open>Conversation_Domain\<close> and \<open>Conversation_Store\<close>: \<open>conversation/history.rs\<close>,
    \<open>storage/conversation.rs\<close>. \<open>Experience_Domain\<close> and \<open>Experience_Store\<close>: \<open>experience/*.rs\<close>,
    \<open>storage/experience_episode.rs\<close>. \<open>Turn_Commit\<close>: the three composite transactions of
    \<open>storage/conversation_emotion.rs\<close>, \<open>conversation_relationship.rs\<close> and \<open>conversation_experience.rs\<close>.
    \<open>Conversation_Ledger\<close>, \<open>Turn_Ledger\<close>, \<open>Turn_History\<close> prove what every operation and every history
    of calls keeps; \<open>Governed_Turns\<close> states the properties.
  \<^item> Emotion and relationship. \<open>Emotion_Domain\<close>, \<open>Emotion_Policy\<close>, \<open>Emotion_Store\<close>: \<open>emotion/*.rs\<close>,
    \<open>storage/emotion.rs\<close>. \<open>Relationship_Domain\<close>, \<open>Relationship_Policy\<close>, \<open>Relationship_Store\<close>,
    \<open>Relationship_Ledger\<close>: \<open>relationship/*.rs\<close>, \<open>storage/relationship.rs\<close>.
  \<^item> Life intents. \<open>Life_Intent_Domain\<close>: \<open>life_intent/mod.rs\<close>. \<open>Life_Intent_Store\<close>,
    \<open>Life_Intent_Repository\<close>: \<open>storage/life_intent.rs\<close>. \<open>Life_Intent_Ledger\<close>, \<open>Life_Intent_History\<close>,
    \<open>Life_Intents\<close>: contract, invariant, properties.
  \<^item> Initiative. \<open>Autonomy_Domain\<close>: \<open>autonomy/mod.rs\<close>. \<open>Autonomy_Store\<close>: \<open>storage/autonomy.rs\<close>.
    \<open>Autonomy_Ledger\<close>, \<open>Autonomy_Budget\<close>, \<open>Autonomy_Liveness\<close>: ledgers, interruption budget, progress.
    \<open>Autonomy_Tick\<close>, \<open>Autonomy_Tick_Runs\<close>, \<open>Autonomy_Ticks\<close>: \<open>autonomy/runtime.rs\<close> and
    \<open>autonomy/trusted_runtime.rs\<close>. \<open>Autonomy_Decisions\<close>: what a decision and the deletion of a goal
    leave in the database.
  \<^item> Vector sync. \<open>Vector_Sync_Domain\<close>, \<open>Vector_Sync_Tables\<close>, \<open>Vector_Sync_Scan\<close>, \<open>Vector_Sync_Claim\<close>,
    \<open>Vector_Sync_Settle\<close>, \<open>Vector_Sync_Queue\<close>: \<open>storage/vector_sync_outbox.rs\<close>; \<open>Memory_Content\<close>: the
    content guard and the canonical hash it calls. \<open>Vector_Sync_Evolution\<close> is the order every operation
    respects, stated as a locale; \<open>Vector_Sync_Run\<close>, \<open>Vector_Sync_Facts\<close>, \<open>Vector_Syncs\<close>,
    \<open>Vector_Sync_Samples\<close>: runs, facts, properties, sample runs.
  \<^item> Late deletes. A delete whose outcome in the vector store is unknown is resolved under a lease of
    its own: claim, slot, query, permit, conditional delete, settlement. \<open>Vector_Store_Domain\<close>:
    \<open>vector_store/mod.rs\<close>. \<open>Late_Delete_Domain\<close>, \<open>Late_Delete_Store\<close>, \<open>Late_Delete_Resolve\<close>,
    \<open>Late_Delete_Settle\<close>: \<open>storage/late_delete_resolution.rs\<close>. \<open>Late_Delete_Order\<close>,
    \<open>Late_Delete_Evolution\<close>, \<open>Late_Delete_Ops\<close>: the order its operations respect, and they as steps
    of the runs of the outbox; \<open>Late_Deletes\<close>, \<open>Late_Delete_Samples\<close>: properties, sample runs.
    \<open>Late_Delete_Runner\<close>: \<open>memory/late_delete_resolution_runner.rs\<close> and the bridges to the index;
    \<open>Late_Delete_Passes\<close>, \<open>Late_Delete_Resolver\<close>, \<open>Late_Delete_Pass_Samples\<close>: the log of a pass, its
    properties, a sample pass.
  \<^item> Guards. \<open>Transport_Common\<close>, \<open>Url_Policy\<close>, \<open>Ip_Policy\<close>, \<open>Header_Limit\<close>: \<open>model/transport\<close>.
    \<open>Offer_Gate\<close>: \<open>perception/perception_chat_offer_gate.rs\<close>. \<open>Screen_Policy\<close>, \<open>Screen_Store\<close>:
    \<open>perception/screen_policy.rs\<close>, \<open>storage/screen_perception.rs\<close>.

  \<^bold>\<open>How the parts interact\<close>

  A governed turn commits its two messages, its emotion and relationship events and its episode in
  one transaction, so \<open>Turn_Commit\<close> calls the four repositories and \<open>Turn_History\<close> carries their
  joint invariant; the emotion and relationship repositories extend one database record. The
  autonomy repository reads goals of the life-intent tables, and deleting a goal deletes its
  intents, so the two share one database too; a tick is a program over that database in which every
  call is a transaction of its own with the operations of others in between. A candidate for a tick
  is decided by the initiative policy, whose budget counts the events of the ledger. The outbox reads
  memories, generations and authorities, which other writers change: they are operations of its
  runs. A resolution of a late delete is created and superseded inside transactions of the outbox,
  and settled by operations that interleave with those of the outbox in one run; the promotion of a
  rebuilt generation ends resolutions and mutations of its choice.

  \<^bold>\<open>Modelling\<close>

  Records and sums have the fields and constructors of the code. Results are \<open>error + 'a\<close>, with every
  \<open>?\<close>, early return and refused statement a branch. Bounded integers are \<open>int\<close> with their casts and
  checked operations written out; addresses are words. A repository function maps a database to a
  result and a database; a statement's \<open>WHERE\<close>, \<open>SET\<close>, \<open>CHECK\<close>, unique key and foreign key are
  written out, with cascades. Concurrency is interleaving of transactions, of the accesses under one
  mutex, and of atomic loads and stores.

  Parameters stand for what is not under \<open>src/\<close> or not decidable by it: whether SQLite executes a
  statement and how a commit ends (it may fail after the data is durable), the clock, \<open>strftime\<close>,
  \<open>Url::parse\<close>, \<open>str::to_lowercase\<close>, SHA-256, fresh identities, the operations of other callers
  between the calls of a tick or a pass, the answers of a reader and of the vector index. What a property needs of a parameter is a
  hypothesis of the property (for instance that the clock gives canonical timestamps, or that SQLite
  answers the dates one evaluation asks for, which it does not for every date), and its witness
  discharges it for a concrete function.

  There is no fuel: loops are recursions over lists, and each definition is total. The bounds in the
  model are those of the code (five Attempts, three resolutions, lengths of identities and texts, the
  ranges of dimensions, the limits of headers).

  \<^bold>\<open>What is shown\<close>

  The ledgers are projections of their events, commits happen exactly once and never on a stale
  revision; a turn is all or nothing, happens once and never gets its evidence later; initiatives
  stay within the budget, a pending one can always be decided, and once until its goal is deleted;
  the tree of life intents stays intact, open entities can be closed, and a deleted goal takes
  exactly what hangs on it; a tick is a run of the repositories, acts once per
  request and selects the first goal of the documented order; a claim of the outbox is never handed
  out twice, Attempts are bounded, an Attempt settles once, a possibly sent write is not sent again
  without a report, and a new consumer fences out the old one; a memory has at most one unresolved
  late delete, with three slots and at most one permit to delete in each, a new resolver fences out
  the old one, and a pass deletes exactly the record it has just queried, three times at most for
  one resolution; accepted URLs, addresses and
  response heads are those the rules describe; consent is durable once revoked.

  \<^bold>\<open>Not modelled\<close>

  Error message texts and the functions \<open>code()\<close> and \<open>Display\<close>; row readers of ill-typed columns and
  schema self-checks; triggers that guard columns no modelled statement writes and the writer-epoch
  triggers of the upgrade; deletion of a whole life; candidate memories and snapshots touched by
  conversation deletion; test-only functions. Passes of the late-delete resolver are composed one
  after the other: a pass that overlaps another is there as operations of others on the store, and
  its calls of the index are not counted. The runs of the outbox hold what the rebuild of a
  generation does to it when the generation is promoted, but not the requeueing of its mutations when
  the candidate fails (\<open>requeue_failed_generation_outbox_in\<close> of \<open>storage/generation_rebuild.rs\<close>, which
  gives a row a new mutation sequence in place and supersedes its late deletes). Whole parts that are not modelled are listed with their
  reasons in the manifest: they are windows and commands, the operating system (capture, OCR,
  credentials, processes, files, TLS), third-party stores and runtimes (LanceDB, the agent), text and
  JSON formatting, migrations, and repositories left for later (candidate memories, rebuild of a
  generation apart from its effect on the outbox and the late deletes, model profiles, capability authorization).
\<close>

end
